(* ===== verification/Prelude.thy ===== *)
theory Prelude
  imports Complex_Main "HOL-Library.Product_Lexorder" "HOL-Library.List_Lexorder"
    "HOL-Library.Char_ord" "HOL-Library.Option_ord"
begin

text \<open>
  Shared vocabulary of the development: points in time, Python values that the
  program stores in JSON columns, error texts, and tables as row lists with the
  SQL statements the program issues (lookup by key, conditional update, ordered
  and limited selection, insertion with \<open>ON CONFLICT DO NOTHING\<close>).
\<close>

named_theorems table_intros \<open>preservation facts about table operations\<close>

subsection \<open>Time\<close>

text \<open>
  A \<open>datetime\<close> in UTC is its number of microseconds since the epoch, the
  resolution of Python's \<open>datetime\<close>; \<open>timedelta(seconds=n)\<close> is \<open>secs n\<close>.
\<close>

type_synonym time = int

definition secs :: "int \<Rightarrow> time" where
  "secs n = n * 1000000"

lemma secs_mono [simp]: "secs a \<le> secs b \<longleftrightarrow> a \<le> b"
  by (simp add: secs_def)

lemma secs_less [simp]: "secs a < secs b \<longleftrightarrow> a < b"
  by (simp add: secs_def)

lemma secs_pos [simp]: "0 < secs a \<longleftrightarrow> 0 < a"
  by (simp add: secs_def)

lemma secs_nonneg [simp]: "0 \<le> secs a \<longleftrightarrow> 0 \<le> a"
  by (simp add: secs_def)

lemma secs_add: "secs (a + b) = secs a + secs b"
  by (simp add: secs_def algebra_simps)

lemma secs_0 [simp]: "secs 0 = 0"
  by (simp add: secs_def)

text \<open>\<open>math.ceil((b - a).total_seconds())\<close> and \<open>int((b - a).total_seconds())\<close>.\<close>

definition ceil_seconds :: "time \<Rightarrow> int" where
  "ceil_seconds d = - ((- d) div 1000000)"

definition trunc_seconds :: "time \<Rightarrow> int" where
  "trunc_seconds d = (if 0 \<le> d then d div 1000000 else - ((- d) div 1000000))"

lemma ceil_seconds_ge: "d \<le> secs (ceil_seconds d)"
  by (simp add: ceil_seconds_def secs_def)

lemma ceil_seconds_less: "secs (ceil_seconds d) < d + 1000000"
  by (simp add: ceil_seconds_def secs_def)

text \<open>Python's \<open>round\<close>: to the nearest integer, ties to the even one.\<close>

definition py_round :: "rat \<Rightarrow> int" where
  "py_round x =
     (let f = \<lfloor>x\<rfloor>; d = x - of_int f in
      if d < 1 / 2 then f else if 1 / 2 < d then f + 1 else if even f then f else f + 1)"

lemma py_round_lower: "of_int n \<le> x \<Longrightarrow> n \<le> py_round x"
proof -
  assume "of_int n \<le> x"
  then have "n \<le> \<lfloor>x\<rfloor>" by (simp add: le_floor_iff)
  then show ?thesis by (simp add: py_round_def Let_def)
qed

lemma py_round_upper: "x \<le> of_int n \<Longrightarrow> py_round x \<le> n"
proof -
  assume x: "x \<le> of_int n"
  show ?thesis
  proof (cases "\<lfloor>x\<rfloor> < n")
    case True
    then show ?thesis by (simp add: py_round_def Let_def)
  next
    case False
    then have "of_int n \<le> x" by (simp add: le_floor_iff not_less)
    with x have "x = of_int n" by simp
    then show ?thesis by (simp add: py_round_def Let_def)
  qed
qed

subsection \<open>Python values in JSON columns\<close>

datatype json =
    JNull
  | JBool bool
  | JInt int
  | JFloat rat
  | JStr string
  | JList "json list"
  | JObj "(string \<times> json) list"

text \<open>\<open>d.get(k)\<close> on a dict; \<open>None\<close> when the key is absent.\<close>

fun jget :: "json \<Rightarrow> string \<Rightarrow> json" where
  "jget (JObj kvs) k = (case map_of kvs k of None \<Rightarrow> JNull | Some v \<Rightarrow> v)"
| "jget _ k = JNull"

text \<open>\<open>d.get(k, default)\<close>.\<close>

fun jget_or :: "json \<Rightarrow> string \<Rightarrow> json \<Rightarrow> json" where
  "jget_or (JObj kvs) k d = (case map_of kvs k of None \<Rightarrow> d | Some v \<Rightarrow> v)"
| "jget_or _ k d = d"

text \<open>Truth of a value, as \<open>x or y\<close> and \<open>if x\<close> test it.\<close>

fun truthy :: "json \<Rightarrow> bool" where
  "truthy JNull = False"
| "truthy (JBool b) = b"
| "truthy (JInt i) = (i \<noteq> 0)"
| "truthy (JFloat r) = (r \<noteq> 0)"
| "truthy (JStr s) = (s \<noteq> [])"
| "truthy (JList xs) = (xs \<noteq> [])"
| "truthy (JObj kvs) = (kvs \<noteq> [])"

definition jor :: "json \<Rightarrow> json \<Rightarrow> json" where
  "jor a b = (if truthy a then a else b)"

fun is_list :: "json \<Rightarrow> bool" where
  "is_list (JList _) = True"
| "is_list _ = False"

fun is_dict :: "json \<Rightarrow> bool" where
  "is_dict (JObj _) = True"
| "is_dict _ = False"

fun jlist :: "json \<Rightarrow> json list" where
  "jlist (JList xs) = xs"
| "jlist _ = []"

text \<open>A nullable column read in a boolean context: \<open>None\<close> and the empty string are false.\<close>

definition nonempty :: "string option \<Rightarrow> bool" where
  "nonempty s = (case s of None \<Rightarrow> False | Some t \<Rightarrow> t \<noteq> [])"

lemma nonempty_simps [simp]:
  "nonempty None = False" "nonempty (Some t) = (t \<noteq> [])"
  by (simp_all add: nonempty_def)

subsection \<open>Error texts\<close>

text \<open>
  \<open>Text s\<close> is a text known at run time or an ASCII literal of the source.
  \<open>Lit k args\<close> is a literal of the source in Chinese, named by an English gloss
  \<open>k\<close>, with the values it interpolates. \<open>clip n\<close> is the slice \<open>[:n]\<close>; every
  literal of the source is far shorter than the limits the program uses.
\<close>

datatype msg = Text string | Lit string "string list"

fun clip :: "nat \<Rightarrow> msg \<Rightarrow> msg" where
  "clip n (Text s) = Text (take n s)"
| "clip n (Lit k args) = Lit k args"

fun msg_truthy :: "msg \<Rightarrow> bool" where
  "msg_truthy (Text s) = (s \<noteq> [])"
| "msg_truthy (Lit k args) = True"

lemma clip_clip [simp]: "clip m (clip n t) = clip (min m n) t"
  by (cases t) simp_all

subsection \<open>Errors of the routes\<close>

text \<open>
  \<open>APIError\<close>: its HTTP status as a constructor (404, 403, 409, 422, 503, or another one as a
  number) and its code.
  \<open>ServerError\<close> is an exception that no handler of a route expects.
\<close>

datatype api_error =
    NotFound string
  | Forbidden string
  | Conflict string
  | Unprocessable string
  | Unavailable string
  | HttpError nat string
  | ServerError string

subsection \<open>Tables\<close>

text \<open>
  A table is the list of its rows in insertion order. The statements of the
  program are these functions; a primary or unique key is a function of the row.
\<close>

definition row_get :: "('r \<Rightarrow> 'k) \<Rightarrow> 'k \<Rightarrow> 'r list \<Rightarrow> 'r option" where
  "row_get key k rows = find (\<lambda>r. key r = k) rows"

definition row_update :: "('r \<Rightarrow> bool) \<Rightarrow> ('r \<Rightarrow> 'r) \<Rightarrow> 'r list \<Rightarrow> 'r list" where
  "row_update p f rows = map (\<lambda>r. if p r then f r else r) rows"

definition rowcount :: "('r \<Rightarrow> bool) \<Rightarrow> 'r list \<Rightarrow> nat" where
  "rowcount p rows = length (filter p rows)"

definition row_put :: "('r \<Rightarrow> 'k) \<Rightarrow> 'r \<Rightarrow> 'r list \<Rightarrow> 'r list" where
  "row_put key r rows = row_update (\<lambda>x. key x = key r) (\<lambda>_. r) rows"

text \<open>\<open>SELECT ... WHERE p ORDER BY ord LIMIT n\<close>.\<close>

definition row_select :: "('r \<Rightarrow> bool) \<Rightarrow> ('r \<Rightarrow> 'o::linorder) \<Rightarrow> nat \<Rightarrow> 'r list \<Rightarrow> 'r list" where
  "row_select p ord n rows = take n (sort_key ord (filter p rows))"

text \<open>
  \<open>INSERT ... ON CONFLICT (key) DO NOTHING RETURNING key\<close>: the new table and the
  keys that were inserted, in the order of the values.
\<close>

fun insert_ignore :: "('r \<Rightarrow> 'k) \<Rightarrow> 'r list \<Rightarrow> 'r list \<Rightarrow> 'r list \<times> 'k list" where
  "insert_ignore key rows [] = (rows, [])"
| "insert_ignore key rows (r # rs) =
     (if key r \<in> key ` set rows then insert_ignore key rows rs
      else let (rows', ks) = insert_ignore key (rows @ [r]) rs in (rows', key r # ks))"

lemma row_get_Some: "row_get key k rows = Some r \<Longrightarrow> r \<in> set rows \<and> key r = k"
  by (auto simp: row_get_def find_Some_iff)

lemma row_get_None [simp]: "row_get key k rows = None \<longleftrightarrow> k \<notin> key ` set rows"
  by (auto simp: row_get_def find_None_iff)

lemma row_get_unique:
  "distinct (map key rows) \<Longrightarrow> r \<in> set rows \<Longrightarrow> row_get key (key r) rows = Some r"
proof -
  assume d: "distinct (map key rows)" and r: "r \<in> set rows"
  then obtain r' where r': "row_get key (key r) rows = Some r'"
    by (cases "row_get key (key r) rows") auto
  with d r show ?thesis
    by (auto dest!: row_get_Some simp: distinct_map inj_on_def)
qed

lemma map_row_update [simp]:
  "(\<And>r. p r \<Longrightarrow> key (f r) = key r) \<Longrightarrow> map key (row_update p f rows) = map key rows"
  by (auto simp: row_update_def)

lemma set_row_update: "set (row_update p f rows) = (\<lambda>r. if p r then f r else r) ` set rows"
  by (simp add: row_update_def)

lemma length_row_update [simp]: "length (row_update p f rows) = length rows"
  by (simp add: row_update_def)

lemma row_update_none: "(\<And>r. r \<in> set rows \<Longrightarrow> \<not> p r) \<Longrightarrow> row_update p f rows = rows"
  by (auto simp: row_update_def intro: map_idI)

lemma row_get_update:
  assumes "\<And>r. key (f r) = key r"
  shows "row_get key k (row_update p f rows) =
    map_option (\<lambda>r. if p r then f r else r) (row_get key k rows)"
  using assms by (induction rows) (auto simp: row_get_def row_update_def)

lemma rowcount_pos: "0 < rowcount p rows \<longleftrightarrow> (\<exists>r \<in> set rows. p r)"
  by (auto simp: rowcount_def filter_empty_conv)

lemma map_row_put [simp]: "map key (row_put key r rows) = map key rows"
  by (auto simp: row_put_def row_update_def)

lemma row_get_put:
  "row_get key k (row_put key r rows) =
    (if k = key r \<and> k \<in> key ` set rows then Some r else row_get key k rows)"
  by (induction rows) (auto simp: row_get_def row_put_def row_update_def)

lemma row_get_put_same:
  "row_get key k rows = Some r \<Longrightarrow> key r' = k \<Longrightarrow> row_get key k (row_put key r' rows) = Some r'"
  by (induction rows) (auto simp: row_get_def row_put_def row_update_def split: if_splits)

lemma set_row_put: "set (row_put key r rows) \<subseteq> insert r (set rows)"
  by (auto simp: row_put_def row_update_def)

lemma set_row_put_other:
  "x \<in> set (row_put key r rows) \<Longrightarrow> x = r \<or> (x \<in> set rows \<and> key x \<noteq> key r)"
  by (auto simp: row_put_def row_update_def split: if_splits)

lemma ball_row_update [table_intros]:
  "\<forall>r \<in> set rows. P r \<Longrightarrow> (\<And>r. r \<in> set rows \<Longrightarrow> P r \<Longrightarrow> p r \<Longrightarrow> P (f r)) \<Longrightarrow>
    \<forall>r \<in> set (row_update p f rows). P r"
  by (auto simp: row_update_def)

lemma ball_row_put [table_intros]:
  "\<forall>r \<in> set rows. P r \<Longrightarrow> P r' \<Longrightarrow> \<forall>r \<in> set (row_put key r' rows). P r"
  by (auto simp: row_put_def row_update_def)

lemma set_row_select: "set (row_select p ord n rows) \<subseteq> {r \<in> set rows. p r}"
  by (auto simp: row_select_def dest: in_set_takeD)

lemma row_select_mem: "r \<in> set (row_select p ord n rows) \<Longrightarrow> r \<in> set rows \<and> p r"
  using set_row_select by fastforce

lemma length_row_select: "length (row_select p ord n rows) \<le> n"
  by (simp add: row_select_def)

lemma row_select_empty: "0 < n \<Longrightarrow> row_select p ord n rows = [] \<longleftrightarrow> (\<forall>r \<in> set rows. \<not> p r)"
proof -
  assume n: "0 < n"
  have "row_select p ord n rows = [] \<longleftrightarrow> sort_key ord (filter p rows) = []"
    using n by (simp add: row_select_def)
  also have "\<dots> \<longleftrightarrow> filter p rows = []"
    by (metis length_0_conv length_sort)
  finally show ?thesis by (simp add: filter_empty_conv)
qed

text \<open>The first row of an ordered selection is a least one.\<close>

lemma sort_key_head_le:
  assumes "sort_key ord xs = y # ys" and "x \<in> set xs"
  shows "ord y \<le> ord x"
proof -
  have "sorted (map ord (sort_key ord xs))" by simp
  moreover have "x \<in> set (sort_key ord xs)" using assms(2) by simp
  ultimately show ?thesis using assms(1) by auto
qed

lemma row_select_least:
  assumes "row_select p ord n rows = y # ys" and "x \<in> set rows" and "p x"
  shows "ord y \<le> ord x"
proof (cases "sort_key ord (filter p rows)")
  case Nil
  with assms(1) show ?thesis by (simp add: row_select_def)
next
  case (Cons z zs)
  with assms(1) have "z = y" by (cases n) (auto simp: row_select_def)
  with Cons have "sort_key ord (filter p rows) = y # zs" by simp
  then show ?thesis by (rule sort_key_head_le) (simp add: assms(2,3))
qed

subsection \<open>Insertion that skips existing keys\<close>

lemma find_append:
  "find P (xs @ ys) = (case find P xs of None \<Rightarrow> find P ys | Some x \<Rightarrow> Some x)"
  by (induction xs) simp_all

lemma insert_ignore_prefix:
  "insert_ignore key rows rs = (rows', ks) \<Longrightarrow>
    \<exists>new. rows' = rows @ new \<and> set new \<subseteq> set rs \<and> map key new = ks"
proof (induction key rows rs arbitrary: rows' ks rule: insert_ignore.induct)
  case (1 key rows)
  then show ?case by simp
next
  case (2 key rows r rs)
  show ?case
  proof (cases "key r \<in> key ` set rows")
    case True
    with "2.IH"(1) "2.prems" show ?thesis by fastforce
  next
    case False
    obtain rows1 ks1 where e: "insert_ignore key (rows @ [r]) rs = (rows1, ks1)"
      by (cases "insert_ignore key (rows @ [r]) rs")
    from "2.IH"(2)[OF False e] obtain new where
      "rows1 = (rows @ [r]) @ new" "set new \<subseteq> set rs" "map key new = ks1" by blast
    with False e "2.prems" show ?thesis by (intro exI[of _ "r # new"]) auto
  qed
qed

lemma ball_insert_ignore [table_intros]:
  "insert_ignore key rows rs = (rows', ks) \<Longrightarrow> \<forall>r \<in> set rows. P r \<Longrightarrow> \<forall>r \<in> set rs. P r \<Longrightarrow>
    \<forall>r \<in> set rows'. P r"
  by (drule insert_ignore_prefix) fastforce

lemma insert_ignore_keys:
  "insert_ignore key rows rs = (rows', ks) \<Longrightarrow>
    key ` set rows' = key ` set rows \<union> key ` set rs \<and>
    set ks = key ` set rs - key ` set rows"
proof (induction key rows rs arbitrary: rows' ks rule: insert_ignore.induct)
  case (1 key rows)
  then show ?case by simp
next
  case (2 key rows r rs)
  show ?case
  proof (cases "key r \<in> key ` set rows")
    case True
    with "2.prems" have "insert_ignore key rows rs = (rows', ks)" by simp
    from "2.IH"(1)[OF True this] True show ?thesis by (simp add: insert_absorb)
  next
    case False
    obtain rows1 ks1 where e: "insert_ignore key (rows @ [r]) rs = (rows1, ks1)"
      by (cases "insert_ignore key (rows @ [r]) rs")
    with False "2.prems" have r: "rows' = rows1" "ks = key r # ks1" by simp_all
    from "2.IH"(2)[OF False e] False show ?thesis unfolding r by auto
  qed
qed

lemma insert_ignore_distinct:
  "insert_ignore key rows rs = (rows', ks) \<Longrightarrow> distinct (map key rows) \<Longrightarrow>
    distinct (map key rows') \<and> distinct ks"
proof -
  assume e: "insert_ignore key rows rs = (rows', ks)" and d: "distinct (map key rows)"
  have "distinct (map key rows')" using e d
    by (induction key rows rs arbitrary: rows' ks rule: insert_ignore.induct)
      (auto split: if_splits prod.splits)
  moreover from insert_ignore_prefix[OF e] obtain new where
    "rows' = rows @ new" "map key new = ks" by blast
  ultimately show ?thesis by auto
qed

lemma insert_ignore_known:
  "(\<And>r. r \<in> set rs \<Longrightarrow> key r \<in> key ` set rows) \<Longrightarrow> insert_ignore key rows rs = (rows, [])"
  by (induction key rows rs rule: insert_ignore.induct) auto

text \<open>Running the same insertion again inserts nothing.\<close>

lemma insert_ignore_idem:
  "insert_ignore key rows rs = (rows', ks) \<Longrightarrow> insert_ignore key rows' rs = (rows', [])"
  by (rule insert_ignore_known) (metis UnI2 imageI insert_ignore_keys)

lemma insert_ignore_old:
  "insert_ignore key rows rs = (rows', ks) \<Longrightarrow> k \<in> key ` set rows \<Longrightarrow>
    row_get key k rows' = row_get key k rows"
  using insert_ignore_prefix[of key rows rs rows' ks]
  by (auto simp: row_get_def find_append find_None_iff split: option.splits)

end
