(* ===== verification/Tables.thy ===== *)
theory Tables
  imports Prelude
begin

text \<open>
  The rows of the shared PostgreSQL database, one record per class of
  \<open>backend/app/models\<close>, with the columns of the class in its order (ORM
  relationships are queries over the foreign keys and have no column), and the
  database state as a record of tables. Column names carry a prefix per table.
  The \<open>onupdate\<close> refresh of \<open>updated_at\<close> is left out: the column changes in the
  model where the code assigns it. A \<open>serial\<close> counter stands for the sequences that number new rows.
\<close>

subsection \<open>Collection: monitored accounts, posts, polling logs, settings\<close>

record monitored_user =
  mu_id :: int
  mu_username :: string
  mu_x_user_id :: "string option"
  mu_display_name :: "string option"
  mu_is_active :: bool
  mu_include_replies :: bool
  mu_include_retweets :: bool
  mu_initial_sync_days :: "int option"
  mu_poll_interval_seconds :: "int option"
  mu_status :: string
  mu_last_tweet_id :: "string option"
  mu_pagination_token :: "string option"
  mu_pagination_since_id :: "string option"
  mu_pagination_newest_id :: "string option"
  mu_manual_poll_token :: "string option"
  mu_poll_generation :: int
  mu_last_polled_at :: "time option"
  mu_next_poll_at :: "time option"
  mu_last_error :: "msg option"
  mu_consecutive_failures :: int
  mu_archived_at :: "time option"
  mu_created_at :: time
  mu_updated_at :: time

record tweet =
  tw_id :: int
  tw_tweet_id :: string
  tw_monitored_user_id :: int
  tw_author_id :: string
  tw_text :: string
  tw_tweet_type :: string
  tw_lang :: "string option"
  tw_conversation_id :: "string option"
  tw_posted_at :: time
  tw_like_count :: int
  tw_retweet_count :: int
  tw_reply_count :: int
  tw_quote_count :: int
  tw_bookmark_count :: int
  tw_impression_count :: int
  tw_entities :: json
  tw_attachments :: json
  tw_referenced_tweets :: json
  tw_raw_payload :: json
  tw_fetched_at :: time

record polling_log =
  pl_id :: int
  pl_monitored_user_id :: int
  pl_trigger :: string
  pl_status :: string
  pl_worker_id :: "string option"
  pl_started_at :: time
  pl_finished_at :: "time option"
  pl_duration_ms :: "int option"
  pl_tweets_fetched :: int
  pl_tweets_inserted :: int
  pl_http_status :: "int option"
  pl_error_message :: "msg option"
  pl_rate_limit_reset_at :: "time option"

record app_setting =
  as_key :: string
  as_value :: json
  as_updated_at :: time

record tweet_screenshot =
  ss_tweet_id :: string
  ss_status :: string
  ss_attempts :: int
  ss_next_attempt_at :: time
  ss_lease_token :: "string option"
  ss_lease_until :: "time option"
  ss_last_error :: "msg option"
  ss_image_path :: "string option"
  ss_sha256 :: "string option"
  ss_width :: "int option"
  ss_height :: "int option"
  ss_canonical_url :: "string option"
  ss_author_username :: "string option"
  ss_captured_at :: "time option"
  ss_created_at :: time
  ss_updated_at :: time

record admin =
  ad_id :: int
  ad_username :: string
  ad_password_hash :: string
  ad_is_active :: bool
  ad_last_login_at :: "time option"
  ad_created_at :: time
  ad_updated_at :: time

subsection \<open>Browser jobs\<close>

record browser_job =
  bj_namespace :: string
  bj_job_id :: string
  bj_admin_id :: "int option"
  bj_fingerprint :: string
  bj_state :: string
  bj_data :: json
  bj_error :: "msg option"
  bj_worker_id :: "string option"
  bj_lease_expires_at :: "time option"
  bj_next_recovery_at :: "time option"
  bj_callback_attempts :: nat
  bj_next_callback_at :: "time option"
  bj_callback_delivered_at :: "time option"
  bj_started_at :: time
  bj_completed_at :: "time option"
  bj_created_at :: time
  bj_updated_at :: time

subsection \<open>AI creation\<close>

record ai_feature =
  af_id :: int
  af_code :: string
  af_name :: string
  af_description :: "string option"
  af_base_prompt :: string
  af_is_active :: bool
  af_created_at :: time
  af_updated_at :: time

record ai_user_profile =
  up_monitored_user_id :: int
  up_identity_summary :: string
  up_focus_summary :: string
  up_relationship_summary :: string
  up_recurring_topics :: json
  up_evidence :: json
  up_confidence :: rat
  up_version :: int
  up_last_source_tweet_id :: "int option"
  up_created_at :: time
  up_updated_at :: time

record ai_setting =
  st_id :: int
  st_enabled :: bool
  st_auto_generate :: bool
  st_provider :: string
  st_model_name :: string
  st_base_url :: string
  st_bridge_url :: "string option"
  st_prompt_template :: "string option"
  st_language :: string
  st_tone :: msg
  st_reasoning_effort :: string
  st_max_attempts :: int
  st_max_output_tokens :: int
  st_request_timeout_seconds :: int
  st_updated_at :: time

record gen_job =
  gj_id :: int
  gj_source_tweet_id :: int
  gj_listen_task_id :: "int option"
  gj_trigger_type :: string
  gj_task_snapshot :: json
  gj_task_config_version :: "int option"
  gj_lifetime_attempts :: int
  gj_is_archived :: bool
  gj_feature_code :: string
  gj_skill_id :: "int option"
  gj_skill_ids :: "int list"
  gj_skill_snapshot :: "json list"
  gj_idempotency_key :: string
  gj_status :: string
  gj_provider :: string
  gj_model_name :: string
  gj_attempts :: int
  gj_max_attempts :: int
  gj_next_attempt_at :: time
  gj_lease_expires_at :: "time option"
  gj_claim_token :: "string option"
  gj_claimed_by :: "string option"
  gj_manual :: bool
  gj_last_error :: "msg option"
  gj_request_snapshot :: json
  gj_response_snapshot :: json
  gj_prompt_hash :: "string option"
  gj_source_text_hash :: "string option"
  gj_started_at :: "time option"
  gj_completed_at :: "time option"
  gj_publish_outbox_initialized_at :: "time option"
  gj_created_at :: time
  gj_updated_at :: time

record listen_task =
  lt_id :: int
  lt_owner_admin_id :: "int option"
  lt_name :: string
  lt_desired_state :: string
  lt_queue_hold_reason :: "string option"
  lt_all_monitored_users :: bool
  lt_listen_mode :: string
  lt_auto_publish_channels :: "string list"
  lt_qq_bot_id :: "int option"
  lt_qq_group_openids :: "string list"
  lt_feature_code :: string
  lt_config_version :: int
  lt_activated_at :: "time option"
  lt_effective_from :: "time option"
  lt_initial_sync_days :: int
  lt_initial_backfill_from :: "time option"
  lt_initial_backfill_to :: "time option"
  lt_archived_at :: "time option"
  lt_max_attempts_override :: "int option"
  lt_language_override :: "string option"
  lt_tone_override :: "string option"
  lt_max_output_tokens_override :: "int option"
  lt_created_at :: time
  lt_updated_at :: time

record ai_skill =
  ak_id :: int
  ak_name :: string
  ak_description :: "string option"
  ak_instructions :: string
  ak_output_schema :: json
  ak_is_active :: bool
  ak_version :: int
  ak_remote_skill_id :: "string option"
  ak_remote_skill_version :: "string option"
  ak_source_type :: string
  ak_content_type :: string
  ak_source_key :: "string option"
  ak_source_metadata :: json
  ak_created_at :: time
  ak_updated_at :: time

record task_skill =
  lk_id :: int
  lk_task_id :: int
  lk_skill_id :: int
  lk_priority :: int

record task_subscription =
  sub_id :: int
  sub_task_id :: int
  sub_monitored_user_id :: int
  sub_effective_from :: "time option"
  sub_created_at :: time

record task_backfill =
  bf_id :: int
  bf_task_id :: int
  bf_request_id :: string
  bf_from_at :: time
  bf_to_at :: time
  bf_config_snapshot :: json
  bf_status :: string
  bf_cursor_posted_at :: "time option"
  bf_cursor_tweet_id :: "int option"
  bf_scanned_count :: int
  bf_enqueued_count :: int
  bf_last_error :: "msg option"
  bf_created_at :: time
  bf_updated_at :: time

record task_event =
  ev_task_id :: int
  ev_event_type :: string
  ev_job_id :: "int option"
  ev_backfill_id :: "int option"
  ev_summary :: msg
  ev_details :: json

record gen_attempt =
  ga_id :: int
  ga_job_id :: int
  ga_lifetime_number :: int
  ga_round_number :: int
  ga_attempt_number :: int
  ga_started_at :: time
  ga_ended_at :: "time option"
  ga_status :: string
  ga_error_type :: "string option"
  ga_error_summary :: "msg option"
  ga_duration_ms :: "int option"
  ga_provider :: "string option"
  ga_model_name :: "string option"
  ga_data_source_name :: "string option"
  ga_data_source_version :: "int option"

record data_source =
  ds_id :: int
  ds_name :: string
  ds_protocol :: string
  ds_base_url :: string
  ds_model_name :: string
  ds_encrypted_api_key :: string
  ds_key_hint :: string
  ds_key_fingerprint :: string
  ds_verification_status :: string
  ds_version :: int
  ds_last_verified_at :: "time option"
  ds_last_error :: "msg option"
  ds_created_at :: time
  ds_updated_at :: time

record draft =
  dr_id :: int
  dr_job_id :: "int option"
  dr_source_tweet_id :: "int option"
  dr_article_source :: string
  dr_title :: string
  dr_content :: string
  dr_excerpt :: "string option"
  dr_images :: "string list"
  dr_publish_status :: string
  dr_publish_channel :: "string option"
  dr_publish_attempt_id :: "string option"
  dr_publish_error :: "msg option"
  dr_published_at :: "time option"
  dr_draft_metadata :: json
  dr_revision :: int
  dr_created_at :: time
  dr_updated_at :: time

record publish_attempt =
  pa_attempt_id :: string
  pa_article_id :: int
  pa_channel :: string
  pa_status :: string
  pa_target_summary :: msg
  pa_delivery_count :: int
  pa_error :: "msg option"
  pa_reconciliation_result :: "string option"
  pa_reconciliation_note :: "string option"
  pa_published_url :: "string option"
  pa_reconciled_at :: "time option"
  pa_reconciled_by_admin_id :: "int option"
  pa_started_at :: "time option"
  pa_completed_at :: "time option"
  pa_created_at :: time
  pa_updated_at :: time

record publish_dispatch =
  dp_id :: int
  dp_job_id :: int
  dp_draft_id :: int
  dp_owner_admin_id :: "int option"
  dp_channel :: string
  dp_status :: string
  dp_attempts :: int
  dp_rejection_attempts :: int
  dp_next_attempt_at :: time
  dp_payload_snapshot :: json
  dp_article_publish_attempt_id :: "string option"
  dp_xhs_job_id :: "string option"
  dp_last_error :: "msg option"
  dp_reconciliation_result :: "string option"
  dp_reconciliation_note :: "string option"
  dp_published_url :: "string option"
  dp_reconciled_at :: "time option"
  dp_reconciled_by_admin_id :: "int option"
  dp_started_at :: "time option"
  dp_completed_at :: "time option"
  dp_created_at :: time
  dp_updated_at :: time

subsection \<open>QQ notifications\<close>

record qq_bot =
  qb_id :: int
  qb_name :: string
  qb_app_id :: string
  qb_encrypted_app_secret :: string
  qb_secret_hint :: string
  qb_secret_fingerprint :: string
  qb_is_enabled :: bool
  qb_verification_status :: string
  qb_version :: int
  qb_last_verified_at :: "time option"
  qb_last_error :: "msg option"
  qb_created_at :: time
  qb_updated_at :: time

record qq_joined_group =
  qg_id :: int
  qg_bot_id :: int
  qg_app_id :: string
  qg_group_openid :: string
  qg_is_joined :: bool
  qg_last_event_at :: time
  qg_created_at :: time
  qg_updated_at :: time

record qq_target =
  qt_id :: int
  qt_bot_id :: int
  qt_name :: string
  qt_group_openid :: string
  qt_is_enabled :: bool
  qt_all_monitored_users :: bool
  qt_listen_mode :: string
  qt_initial_sync_days :: "int option"
  qt_message_template :: string
  qt_template_variables :: json
  qt_created_at :: time
  qt_updated_at :: time

record qq_target_subscription =
  qs_target_id :: int
  qs_monitored_user_id :: int
  qs_created_at :: time

record qq_placeholder =
  qp_id :: int
  qp_placeholder :: string
  qp_source_field :: string
  qp_created_at :: time
  qp_updated_at :: time

record qq_scheduled_task =
  qk_id :: int
  qk_name :: string
  qk_message :: string
  qk_frequency :: string
  qk_interval_value :: int
  qk_run_time :: string
  qk_weekdays :: string
  qk_month_day :: "int option"
  qk_is_enabled :: bool
  qk_next_run_at :: time
  qk_last_run_at :: "time option"
  qk_created_at :: time
  qk_updated_at :: time

record qq_task_bot =
  qkb_task_id :: int
  qkb_bot_id :: int

record qq_task_group =
  qkg_task_id :: int
  qkg_bot_id :: int
  qkg_group_openid :: string

record qq_delivery =
  qd_id :: int
  qd_task_id :: "int option"
  qd_target_id :: "int option"
  qd_source_tweet_id :: "int option"
  qd_article_id :: "int option"
  qd_article_publish_attempt_id :: "string option"
  qd_sequence :: "int option"
  qd_media_path :: "string option"
  qd_kind :: string
  qd_idempotency_key :: string
  qd_bot_name :: string
  qd_bot_app_id :: string
  qd_bot_version :: int
  qd_target_name :: string
  qd_group_openid :: string
  qd_message_body :: msg
  qd_status :: string
  qd_attempts :: int
  qd_max_attempts :: int
  qd_next_attempt_at :: time
  qd_lease_expires_at :: "time option"
  qd_claim_token :: "string option"
  qd_claimed_by :: "string option"
  qd_provider_message_id :: "string option"
  qd_last_error :: "msg option"
  qd_started_at :: "time option"
  qd_completed_at :: "time option"
  qd_created_at :: time
  qd_updated_at :: time

subsection \<open>The database\<close>

record db =
  monitored_users :: "monitored_user list"
  tweets :: "tweet list"
  polling_logs :: "polling_log list"
  app_settings :: "app_setting list"
  screenshots :: "tweet_screenshot list"
  admins :: "admin list"
  browser_jobs :: "browser_job list"
  ai_features :: "ai_feature list"
  ai_profiles :: "ai_user_profile list"
  ai_settings :: "ai_setting list"
  gen_jobs :: "gen_job list"
  listen_tasks :: "listen_task list"
  subscriptions :: "task_subscription list"
  backfills :: "task_backfill list"
  task_events :: "task_event list"
  gen_attempts :: "gen_attempt list"
  data_sources :: "data_source list"
  ai_skills :: "ai_skill list"
  task_skills :: "task_skill list"
  drafts :: "draft list"
  publish_attempts :: "publish_attempt list"
  dispatches :: "publish_dispatch list"
  qq_bots :: "qq_bot list"
  qq_groups :: "qq_joined_group list"
  qq_targets :: "qq_target list"
  qq_target_subs :: "qq_target_subscription list"
  qq_tasks :: "qq_scheduled_task list"
  qq_task_bots :: "qq_task_bot list"
  qq_task_groups :: "qq_task_group list"
  qq_deliveries :: "qq_delivery list"
  qq_placeholders :: "qq_placeholder list"
  serial :: int

definition empty_db :: db where
  "empty_db = \<lparr>monitored_users = [], tweets = [], polling_logs = [], app_settings = [],
     screenshots = [], admins = [], browser_jobs = [], ai_features = [], ai_profiles = [],
     ai_settings = [], gen_jobs = [], listen_tasks = [], subscriptions = [], backfills = [],
     task_events = [], gen_attempts = [], data_sources = [], ai_skills = [], task_skills = [], drafts = [], publish_attempts = [], dispatches = [], qq_bots = [],
     qq_groups = [], qq_targets = [], qq_target_subs = [], qq_tasks = [], qq_task_bots = [],
     qq_task_groups = [], qq_deliveries = [],
     qq_placeholders = [], serial = 1\<rparr>"

end
