(* ===== verification/Samples.thy ===== *)
theory Samples
  imports Tables
begin

text \<open>Concrete rows at which the witnesses of the development evaluate.\<close>

definition sample_user :: monitored_user where
  "sample_user = \<lparr>mu_id = 1, mu_username = ''alice'', mu_x_user_id = Some ''77'',
     mu_display_name = None, mu_is_active = True, mu_include_replies = True,
     mu_include_retweets = True, mu_initial_sync_days = None, mu_poll_interval_seconds = None,
     mu_status = ''idle'', mu_last_tweet_id = Some ''10'', mu_pagination_token = None,
     mu_pagination_since_id = None, mu_pagination_newest_id = None, mu_manual_poll_token = None,
     mu_poll_generation = 4, mu_last_polled_at = None, mu_next_poll_at = Some 0,
     mu_last_error = None, mu_consecutive_failures = 0, mu_archived_at = None,
     mu_created_at = 0, mu_updated_at = 0\<rparr>"

definition sample_tweet :: tweet where
  "sample_tweet = \<lparr>tw_id = 5, tw_tweet_id = ''11'', tw_monitored_user_id = 1,
     tw_author_id = ''77'', tw_text = ''hello'', tw_tweet_type = ''original'', tw_lang = None,
     tw_conversation_id = None, tw_posted_at = 100, tw_like_count = 0, tw_retweet_count = 0,
     tw_reply_count = 0, tw_quote_count = 0, tw_bookmark_count = 0, tw_impression_count = 0,
     tw_entities = JNull, tw_attachments = JNull, tw_referenced_tweets = JNull,
     tw_raw_payload = JObj [], tw_fetched_at = 200\<rparr>"

definition sample_draft :: draft where
  "sample_draft = \<lparr>dr_id = 4, dr_job_id = Some 3, dr_source_tweet_id = Some 5, dr_article_source = ''ai'',
     dr_title = ''title'', dr_content = ''body'', dr_excerpt = None, dr_images = [],
     dr_publish_status = ''draft'', dr_publish_channel = None, dr_publish_attempt_id = None,
     dr_publish_error = None, dr_published_at = None, dr_draft_metadata = JNull, dr_revision = 1,
     dr_created_at = 0, dr_updated_at = 0\<rparr>"

definition sample_db :: db where
  "sample_db = empty_db\<lparr>monitored_users := [sample_user], tweets := [sample_tweet], serial := 6\<rparr>"

lemmas sample_simps = sample_user_def sample_tweet_def sample_db_def empty_db_def

end
