(* ===== verification/Leases.thy ===== *)
theory Leases
  imports Prelude
begin

text \<open>
  The two contracts that several components of the program share.

  \<open>fenced_lease\<close>: a row that a worker claims with a fresh token, and whose result a
  worker may only commit while the row still carries its token. The screenshot
  outbox and the publish and delivery queues provide it.

  \<open>retry_delay\<close>: the pause before the next attempt as a function of the attempts
  made so far, positive and capped.
\<close>

subsection \<open>Fenced leases\<close>

datatype ('c, 'o, 't) lease_event = Claim 'c 't | Commit 'o 't

fun claimed_tokens :: "('c, 'o, 't) lease_event list \<Rightarrow> 't list" where
  "claimed_tokens [] = []"
| "claimed_tokens (Claim c t # evs) = t # claimed_tokens evs"
| "claimed_tokens (Commit r t # evs) = claimed_tokens evs"

text \<open>
  Running claims and commits of any number of workers against one row; a refused
  operation leaves the row as it is. The result lists the tokens whose commit was
  accepted, in order.
\<close>

fun run_lease :: "('c \<Rightarrow> 't \<Rightarrow> 'row \<Rightarrow> 'row option) \<Rightarrow> ('o \<Rightarrow> 't \<Rightarrow> 'row \<Rightarrow> 'row option) \<Rightarrow>
    'row \<Rightarrow> ('c, 'o, 't) lease_event list \<Rightarrow> 'row \<times> 't list" where
  "run_lease claim commit row [] = (row, [])"
| "run_lease claim commit row (Claim c t # evs) =
     (case claim c t row of None \<Rightarrow> run_lease claim commit row evs
      | Some row' \<Rightarrow> run_lease claim commit row' evs)"
| "run_lease claim commit row (Commit r t # evs) =
     (case commit r t row of None \<Rightarrow> run_lease claim commit row evs
      | Some row' \<Rightarrow> (let (row'', ts) = run_lease claim commit row' evs in (row'', t # ts)))"

locale fenced_lease =
  fixes holder :: "'row \<Rightarrow> 't option"
    and claim :: "'c \<Rightarrow> 't \<Rightarrow> 'row \<Rightarrow> 'row option"
    and commit :: "'o \<Rightarrow> 't \<Rightarrow> 'row \<Rightarrow> 'row option"
  assumes claim_holder: "claim c t row = Some row' \<Longrightarrow> holder row' = Some t"
    and commit_holder: "commit r t row = Some row' \<Longrightarrow> holder row = Some t"
    and commit_releases: "commit r t row = Some row' \<Longrightarrow> holder row' = None"
begin

lemma stale_commit: "claim c t row = Some row' \<Longrightarrow> t' \<noteq> t \<Longrightarrow> commit r t' row' = None"
  using claim_holder commit_holder by (metis option.exhaust option.inject)

lemma commit_once: "commit r t row = Some row' \<Longrightarrow> commit r' t' row' = None"
  using commit_releases commit_holder by (metis option.distinct(1) option.exhaust)

text \<open>
  With fresh tokens, however claims and commits interleave, every claim commits at
  most once, and nothing commits that did not claim.
\<close>


lemma commits_claimed:
  "run_lease claim commit row evs = (row', ts) \<Longrightarrow>
    set ts \<subseteq> set_option (holder row) \<union> set (claimed_tokens evs)"
proof (induction evs arbitrary: row row' ts)
  case Nil
  then show ?case by simp
next
  case (Cons e evs)
  show ?case
  proof (cases e)
    case (Claim c t)
    with Cons show ?thesis by (cases "claim c t row") (fastforce dest: claim_holder)+
  next
    case (Commit r t)
    show ?thesis
    proof (cases "commit r t row")
      case None
      with Commit Cons show ?thesis by fastforce
    next
      case (Some row1)
      obtain row2 ts2 where e2: "run_lease claim commit row1 evs = (row2, ts2)"
        by (cases "run_lease claim commit row1 evs")
      from Cons.IH[OF e2] commit_releases[OF Some] have "set ts2 \<subseteq> set (claimed_tokens evs)" by simp
      with Commit Some Cons.prems e2 commit_holder[OF Some] show ?thesis by auto
    qed
  qed
qed

lemma commits_distinct:
  "run_lease claim commit row evs = (row', ts) \<Longrightarrow> distinct (claimed_tokens evs) \<Longrightarrow>
    set_option (holder row) \<inter> set (claimed_tokens evs) = {} \<Longrightarrow> distinct ts"
proof (induction evs arbitrary: row row' ts)
  case Nil
  then show ?case by simp
next
  case (Cons e evs)
  show ?case
  proof (cases e)
    case (Claim c t)
    with Cons show ?thesis by (cases "claim c t row") (auto dest: claim_holder)
  next
    case (Commit r t)
    show ?thesis
    proof (cases "commit r t row")
      case None
      with Commit Cons show ?thesis by auto
    next
      case (Some row1)
      obtain row2 ts2 where e2: "run_lease claim commit row1 evs = (row2, ts2)"
        by (cases "run_lease claim commit row1 evs")
      have "set ts2 \<subseteq> set (claimed_tokens evs)"
        using commits_claimed[OF e2] commit_releases[OF Some] by simp
      moreover have "distinct ts2"
        using Cons.IH[OF e2] Cons.prems(2) Commit commit_releases[OF Some] by simp
      ultimately show ?thesis
        using Commit Some Cons.prems e2 commit_holder[OF Some] by auto
    qed
  qed
qed

end

subsection \<open>Retry delays\<close>

locale retry_delay =
  fixes delay :: "nat \<Rightarrow> int" and cap :: int
  assumes delay_pos: "0 < delay n"
    and delay_mono: "m \<le> n \<Longrightarrow> delay m \<le> delay n"
    and delay_cap: "delay n \<le> cap"
begin

lemma next_after: "now < now + secs (delay n)"
  using delay_pos[of n] by simp

lemma total_wait: "sum_list (map (\<lambda>i. secs (delay i)) [0..<n]) \<le> int n * secs cap"
proof (induction n)
  case 0
  then show ?case by simp
next
  case (Suc n)
  with delay_cap[of n] show ?case by (simp add: secs_def algebra_simps)
qed

lemma total_wait_pos: "0 < n \<Longrightarrow> 0 < sum_list (map (\<lambda>i. secs (delay i)) [0..<n])"
proof (induction n)
  case (Suc n)
  then show ?case using delay_pos[of n] by (cases "n = 0") (auto intro: add_pos_pos)
qed simp

end

end
