(* ===== verification/BrowserJobs.thy ===== *)
theory BrowserJobs
  imports Tables Samples Leases
begin

text \<open>
  The journal of browser jobs, \<open>backend/app/services/browser_job_store.py\<close>, and the
  delivery of completion callbacks, \<open>xhs_completion_delivery.py\<close>: accepting a job id
  once, recording an outcome that a verified one is never overwritten by, leases,
  fair recovery, and an outbox of notifications with capped exponential retry.
\<close>

definition final_states :: "string list" where
  "final_states = [''succeeded'', ''failed'', ''uncertain'']"

definition known_states :: "string list" where
  "known_states = [''succeeded'', ''failed'']"

definition job_states :: "string list" where
  "job_states = [''running'', ''reconciling''] @ final_states"

lemmas state_defs = final_states_def known_states_def job_states_def

definition bj_key :: "browser_job \<Rightarrow> string \<times> string" where
  "bj_key r = (bj_namespace r, bj_job_id r)"

definition bj_get :: "string \<Rightarrow> string \<Rightarrow> db \<Rightarrow> browser_job option" where
  "bj_get ns job d = row_get bj_key (ns, job) (browser_jobs d)"

definition put_job :: "browser_job \<Rightarrow> db \<Rightarrow> db" where
  "put_job r d = d\<lparr>browser_jobs := row_put bj_key r (browser_jobs d)\<rparr>"

subsection \<open>Accepting a job\<close>

datatype job_error = DifferentRequest | UnsupportedState

definition same_request :: "browser_job \<Rightarrow> int option \<Rightarrow> string \<Rightarrow> bool" where
  "same_request r admin fp \<longleftrightarrow> bj_admin_id r = admin \<and> bj_fingerprint r = fp"

definition new_job :: "time \<Rightarrow> string \<Rightarrow> string \<Rightarrow> int option \<Rightarrow> string \<Rightarrow> string option \<Rightarrow>
    time option \<Rightarrow> browser_job" where
  "new_job now ns job admin fp worker lease =
     \<lparr>bj_namespace = ns, bj_job_id = job, bj_admin_id = admin, bj_fingerprint = fp,
      bj_state = ''running'', bj_data = JObj [], bj_error = None, bj_worker_id = worker,
      bj_lease_expires_at =
        Some (case lease of None \<Rightarrow> now | Some l \<Rightarrow> if l = 0 then now else now + l),
      bj_next_recovery_at = None, bj_callback_attempts = 0, bj_next_callback_at = None,
      bj_callback_delivered_at = None, bj_started_at = now, bj_completed_at = None,
      bj_created_at = now, bj_updated_at = now\<rparr>"

definition existing_job :: "browser_job \<Rightarrow> int option \<Rightarrow> string \<Rightarrow> job_error + browser_job \<times> bool" where
  "existing_job r admin fp =
     (if same_request r admin fp then Inr (r, False) else Inl DifferentRequest)"

text \<open>
  \<open>race\<close> is what other workers commit between the lookup and the insertion; the
  uniqueness constraint then decides who owns the id.
\<close>

definition accept_job :: "time \<Rightarrow> (db \<Rightarrow> db) \<Rightarrow> string \<Rightarrow> string \<Rightarrow> int option \<Rightarrow> string \<Rightarrow>
    string option \<Rightarrow> time option \<Rightarrow> db \<Rightarrow> db \<times> (job_error + browser_job \<times> bool)" where
  "accept_job now race ns job admin fp worker lease d =
     (case bj_get ns job d of
        Some r \<Rightarrow> (d, existing_job r admin fp)
      | None \<Rightarrow>
          (let d1 = race d; row = new_job now ns job admin fp worker lease in
           case bj_get ns job d1 of
             None \<Rightarrow> (d1\<lparr>browser_jobs := browser_jobs d1 @ [row]\<rparr>, Inr (row, True))
           | Some r \<Rightarrow> (d1, existing_job r admin fp)))"

subsection \<open>Recording an outcome\<close>

definition lease_live :: "time \<Rightarrow> browser_job \<Rightarrow> bool" where
  "lease_live now r \<longleftrightarrow>
     (case bj_lease_expires_at r of None \<Rightarrow> False | Some l \<Rightarrow> now < l)"

definition bj_write_row :: "time \<Rightarrow> string \<Rightarrow> json \<Rightarrow> msg option \<Rightarrow> browser_job \<Rightarrow> browser_job" where
  "bj_write_row now state data err r =
     (let data' = jor data (JObj []);
          changed = (bj_state r \<noteq> state \<or> bj_data r \<noteq> data' \<or> bj_error r \<noteq> err);
          r1 = r\<lparr>bj_state := state, bj_data := data', bj_error := err, bj_updated_at := now,
                 bj_completed_at := (if state \<in> set final_states then Some now else None),
                 bj_lease_expires_at := (if state \<noteq> ''running'' then None else bj_lease_expires_at r)\<rparr>
      in if bj_namespace r = ''xhs'' \<and> state \<in> set final_states \<and> changed
         then r1\<lparr>bj_callback_attempts := 0, bj_next_callback_at := Some now,
                 bj_callback_delivered_at := None\<rparr>
         else r1)"

definition bj_finish_row :: "time \<Rightarrow> string \<Rightarrow> json \<Rightarrow> msg option \<Rightarrow> bool \<Rightarrow> browser_job \<Rightarrow> browser_job" where
  "bj_finish_row now state data err require_expired r =
     (if bj_state r \<in> set known_states then r
      else if require_expired \<and> bj_state r = ''running'' \<and> lease_live now r then r
      else bj_write_row now state data err r)"

definition finish_job :: "time \<Rightarrow> string \<Rightarrow> string \<Rightarrow> string \<Rightarrow> json \<Rightarrow> msg option \<Rightarrow> bool \<Rightarrow> db \<Rightarrow>
    job_error + db \<times> browser_job option" where
  "finish_job now ns job state data err require_expired d =
     (if state \<notin> set job_states then Inl UnsupportedState
      else case bj_get ns job d of
             None \<Rightarrow> Inr (d, None)
           | Some r \<Rightarrow>
               (let r' = bj_finish_row now state data err require_expired r
                in Inr (put_job r' d, Some r')))"

definition renew_job :: "time \<Rightarrow> string \<Rightarrow> string \<Rightarrow> string \<Rightarrow> time \<Rightarrow> db \<Rightarrow> db" where
  "renew_job now ns job worker lease d =
     d\<lparr>browser_jobs := row_update
         (\<lambda>r. bj_key r = (ns, job) \<and> bj_worker_id r = Some worker \<and> bj_state r = ''running'')
         (\<lambda>r. r\<lparr>bj_lease_expires_at := Some (now + lease)\<rparr>) (browser_jobs d)\<rparr>"

subsection \<open>Recovery\<close>

definition expired_running :: "time \<Rightarrow> browser_job \<Rightarrow> bool" where
  "expired_running now r \<longleftrightarrow>
     bj_state r = ''running'' \<and>
     (case bj_lease_expires_at r of None \<Rightarrow> True | Some l \<Rightarrow> l \<le> now)"

definition recoverable :: "time \<Rightarrow> string \<Rightarrow> browser_job \<Rightarrow> bool" where
  "recoverable now ns r \<longleftrightarrow>
     bj_namespace r = ns \<and>
     (if ns = ''xhs'' then expired_running now r \<or> bj_state r \<in> {''reconciling'', ''uncertain''}
      else expired_running now r) \<and>
     (case bj_next_recovery_at r of None \<Rightarrow> True | Some t \<Rightarrow> t \<le> now)"

definition recovery_batch :: "time \<Rightarrow> string \<Rightarrow> nat \<Rightarrow> db \<Rightarrow> browser_job list" where
  "recovery_batch now ns limit d =
     row_select (recoverable now ns) (\<lambda>r. (bj_next_recovery_at r, bj_updated_at r, bj_job_id r))
       limit (browser_jobs d)"

definition recovery_jobs :: "time \<Rightarrow> string \<Rightarrow> nat \<Rightarrow> db \<Rightarrow> db \<times> browser_job list" where
  "recovery_jobs now ns limit d =
     (let reserve = (\<lambda>r. r\<lparr>bj_next_recovery_at := Some (now + secs 30)\<rparr>);
          rows = recovery_batch now ns limit d
      in (d\<lparr>browser_jobs := row_update (\<lambda>r. bj_key r \<in> bj_key ` set rows) reserve (browser_jobs d)\<rparr>,
          map reserve rows))"

subsection \<open>Completion callbacks\<close>

definition callback_due :: "time \<Rightarrow> browser_job \<Rightarrow> bool" where
  "callback_due now r \<longleftrightarrow>
     bj_namespace r = ''xhs'' \<and> bj_state r \<in> set final_states \<and>
     bj_callback_delivered_at r = None \<and>
     (case bj_next_callback_at r of None \<Rightarrow> False | Some t \<Rightarrow> t \<le> now)"

definition callback_jobs :: "time \<Rightarrow> nat \<Rightarrow> db \<Rightarrow> browser_job list" where
  "callback_jobs now limit d =
     row_select (callback_due now) (\<lambda>r. (bj_next_callback_at r, bj_job_id r)) limit (browser_jobs d)"

definition callback_delay :: "nat \<Rightarrow> int" where
  "callback_delay attempts = min 300 (2 ^ min attempts 8)"

definition mark_callback_row :: "time \<Rightarrow> bool \<Rightarrow> browser_job \<Rightarrow> browser_job" where
  "mark_callback_row now delivered r =
     (let n = Suc (bj_callback_attempts r) in
      if delivered
      then r\<lparr>bj_callback_attempts := n, bj_callback_delivered_at := Some now,
             bj_next_callback_at := None\<rparr>
      else r\<lparr>bj_callback_attempts := n,
             bj_next_callback_at := Some (now + secs (callback_delay n))\<rparr>)"

definition mark_callback :: "time \<Rightarrow> string \<Rightarrow> bool \<Rightarrow> string option \<Rightarrow> db \<Rightarrow> db" where
  "mark_callback now job delivered state d =
     (case bj_get ''xhs'' job d of
        None \<Rightarrow> d
      | Some r \<Rightarrow>
          (if bj_state r \<notin> set final_states \<or> (nonempty state \<and> state \<noteq> Some (bj_state r)) then d
           else put_job (mark_callback_row now delivered r) d))"

text \<open>
  One pass of \<open>deliver_once\<close>: \<open>deliver\<close> answers whether discovery, token and the
  HTTP call of a job succeeded, \<open>world\<close> what others commit while it runs.
\<close>

fun deliver_all :: "(browser_job \<Rightarrow> bool) \<Rightarrow> (browser_job \<Rightarrow> time) \<Rightarrow> (browser_job \<Rightarrow> db \<Rightarrow> db) \<Rightarrow>
    browser_job list \<Rightarrow> db \<Rightarrow> db" where
  "deliver_all deliver clock world [] d = d"
| "deliver_all deliver clock world (r # rs) d =
     deliver_all deliver clock world rs
       (mark_callback (clock r) (bj_job_id r) (deliver r) (Some (bj_state r)) (world r d))"

definition deliver_once :: "time \<Rightarrow> (browser_job \<Rightarrow> bool) \<Rightarrow> (browser_job \<Rightarrow> time) \<Rightarrow>
    (browser_job \<Rightarrow> db \<Rightarrow> db) \<Rightarrow> db \<Rightarrow> db" where
  "deliver_once now deliver clock world d =
     deliver_all deliver clock world (callback_jobs now 100 d) d"

subsection \<open>Table facts\<close>

lemma bj_key_put [simp]: "map bj_key (browser_jobs (put_job r d)) = map bj_key (browser_jobs d)"
  by (simp add: put_job_def)

lemma bj_get_Some: "bj_get ns job d = Some r \<Longrightarrow> r \<in> set (browser_jobs d) \<and> bj_key r = (ns, job)"
  by (auto simp: bj_get_def dest: row_get_Some)

lemma bj_get_put:
  "bj_get ns job (put_job r d) =
    (if bj_key r = (ns, job) \<and> (ns, job) \<in> bj_key ` set (browser_jobs d) then Some r
     else bj_get ns job d)"
  by (simp add: bj_get_def put_job_def row_get_put eq_commute[of _ "bj_key r"])

lemma bj_get_update:
  assumes "\<And>r. bj_key (f r) = bj_key r"
  shows "bj_get ns job (d\<lparr>browser_jobs := row_update p f (browser_jobs d)\<rparr>) =
    map_option (\<lambda>r. if p r then f r else r) (bj_get ns job d)"
  by (simp add: bj_get_def row_get_update assms)

lemma bj_finish_row_key [simp]: "bj_key (bj_finish_row now state data err re r) = bj_key r"
  by (simp add: bj_finish_row_def bj_write_row_def bj_key_def Let_def)

lemma mark_callback_row_key [simp]: "bj_key (mark_callback_row now delivered r) = bj_key r"
  by (simp add: mark_callback_row_def bj_key_def Let_def)

interpretation callback: retry_delay callback_delay 300
proof
  fix m n :: nat
  show "0 < callback_delay n" by (simp add: callback_delay_def)
  show "callback_delay n \<le> 300" by (simp add: callback_delay_def)
  show "callback_delay m \<le> callback_delay n" if "m \<le> n"
  proof -
    from that have "(2::int) ^ min m 8 \<le> 2 ^ min n 8"
      by (intro power_increasing) simp_all
    then show ?thesis unfolding callback_delay_def by linarith
  qed
qed

subsection \<open>Steps of the journal\<close>

inductive job_step :: "db \<Rightarrow> db \<Rightarrow> bool" where
  accept: "job_step d (fst (accept_job now id ns job admin fp worker lease d))"
| finish: "finish_job now ns job state data err re d = Inr (d', res) \<Longrightarrow> job_step d d'"
| renew: "job_step d (renew_job now ns job worker lease d)"
| recover: "job_step d (fst (recovery_jobs now ns limit d))"
| mark: "job_step d (mark_callback now job delivered state d)"
| elsewhere: "browser_jobs d' = browser_jobs d \<Longrightarrow> job_step d d'"

inductive job_steps :: "db \<Rightarrow> db \<Rightarrow> bool" where
  refl: "job_steps d d"
| step: "job_steps d d' \<Longrightarrow> job_step d' d'' \<Longrightarrow> job_steps d d''"

text \<open>
  Each step rewrites a row as one of the row operations does, or appends a running
  job under a new key.
\<close>

inductive row_step :: "browser_job \<Rightarrow> browser_job \<Rightarrow> bool" where
  same: "row_step r r"
| finish: "state \<in> set job_states \<Longrightarrow> row_step r (bj_finish_row now state data err re r)"
| renew: "bj_state r = ''running'' \<Longrightarrow> row_step r (r\<lparr>bj_lease_expires_at := l\<rparr>)"
| reserve: "row_step r (r\<lparr>bj_next_recovery_at := t\<rparr>)"
| mark: "bj_state r \<in> set final_states \<Longrightarrow> row_step r (mark_callback_row now delivered r)"

lemma row_step_key: "row_step r r' \<Longrightarrow> bj_key r' = bj_key r"
  by (induction rule: row_step.induct) (simp_all, simp_all add: bj_key_def)

lemma job_step_rows:
  assumes "job_step d d'" and "bj_get ns job d = Some r"
  shows "\<exists>r'. bj_get ns job d' = Some r' \<and> row_step r r'"
  using assms
proof (cases rule: job_step.cases)
  case (accept now ns' job' admin fp worker lease)
  have "bj_get ns job d' = Some r"
    using accept assms(2)
    by (auto simp: accept_job_def Let_def bj_get_def row_get_def find_append split: option.splits)
  then show ?thesis by (auto intro: row_step.same)
next
  case (finish now ns' job' state data err re res)
  show ?thesis
  proof (cases "bj_get ns' job' d")
    case None
    with finish assms(2) show ?thesis
      by (auto simp: finish_job_def intro: row_step.same split: if_splits)
  next
    case (Some r0)
    with finish have st: "state \<in> set job_states"
      and d': "d' = put_job (bj_finish_row now state data err re r0) d"
      by (auto simp: finish_job_def Let_def split: if_splits)
    show ?thesis
    proof (cases "(ns', job') = (ns, job)")
      case True
      with Some assms(2) have "r0 = r" by simp
      moreover have "(ns, job) \<in> bj_key ` set (browser_jobs d)"
        using bj_get_Some[OF assms(2)] by (metis imageI)
      ultimately have "bj_get ns job d' = Some (bj_finish_row now state data err re r)"
        using d' bj_get_Some[OF assms(2)] by (simp add: bj_get_put)
      then show ?thesis using st by (auto intro: row_step.finish)
    next
      case False
      then have "bj_get ns job d' = Some r"
        using d' bj_get_Some[OF Some] assms(2) by (auto simp: bj_get_put)
      then show ?thesis by (auto intro: row_step.same)
    qed
  qed
next
  case (renew now ns' job' worker lease)
  then show ?thesis using assms(2)
    by (auto simp: renew_job_def bj_get_update bj_key_def intro: row_step.same row_step.renew)
next
  case (recover now ns' limit)
  then show ?thesis using assms(2)
    by (auto simp: recovery_jobs_def Let_def bj_get_update bj_key_def
        intro: row_step.same row_step.reserve)
next
  case (mark now job' delivered state)
  show ?thesis
  proof (cases "d' = d")
    case True
    with assms(2) show ?thesis by (auto intro: row_step.same)
  next
    case False
    with mark obtain r0 where r0: "bj_get ''xhs'' job' d = Some r0" "bj_state r0 \<in> set final_states"
      and d': "d' = put_job (mark_callback_row now delivered r0) d"
      by (auto simp: mark_callback_def split: option.splits if_splits)
    show ?thesis
    proof (cases "(''xhs'', job') = (ns, job)")
      case True
      with r0 assms(2) have "r0 = r" by simp
      moreover have "(ns, job) \<in> bj_key ` set (browser_jobs d)"
        using bj_get_Some[OF assms(2)] by (metis imageI)
      ultimately have "bj_get ns job d' = Some (mark_callback_row now delivered r)"
        using d' bj_get_Some[OF assms(2)] by (simp add: bj_get_put)
      then show ?thesis using r0 \<open>r0 = r\<close> by (auto intro: row_step.mark)
    next
      case False
      then have "bj_get ns job d' = Some r"
        using d' bj_get_Some[OF r0(1)] assms(2) by (auto simp: bj_get_put)
      then show ?thesis by (auto intro: row_step.same)
    qed
  qed
next
  case elsewhere
  with assms(2) show ?thesis by (auto simp: bj_get_def intro: row_step.same)
qed

inductive row_steps :: "browser_job \<Rightarrow> browser_job \<Rightarrow> bool" where
  refl: "row_steps r r"
| step: "row_steps r r' \<Longrightarrow> row_step r' r'' \<Longrightarrow> row_steps r r''"

lemma job_steps_rows:
  assumes "job_steps d d'" and "bj_get ns job d = Some r"
  shows "\<exists>r'. bj_get ns job d' = Some r' \<and> row_steps r r'"
  using assms
proof (induction rule: job_steps.induct)
  case (refl d)
  then show ?case by (auto intro: row_steps.refl)
next
  case (step d d' d'')
  then obtain r' where "bj_get ns job d' = Some r'" "row_steps r r'" by auto
  with job_step_rows[OF step.hyps(2)] show ?case by (meson row_steps.step)
qed

text \<open>What no step changes: the request, and the outcome once it is verified.\<close>

definition outcome :: "browser_job \<Rightarrow> string \<times> json \<times> msg option \<times> time option" where
  "outcome r = (bj_state r, bj_data r, bj_error r, bj_completed_at r)"

lemma row_step_request: "row_step r r' \<Longrightarrow> same_request r' admin fp = same_request r admin fp"
  by (induction rule: row_step.induct)
    (simp_all add: same_request_def bj_finish_row_def bj_write_row_def mark_callback_row_def Let_def)

lemma row_step_outcome:
  "row_step r r' \<Longrightarrow> bj_state r \<in> set known_states \<Longrightarrow> outcome r' = outcome r"
proof (induction rule: row_step.induct)
  case (finish state r now data err re)
  then show ?case by (simp add: bj_finish_row_def)
qed (simp_all add: outcome_def mark_callback_row_def Let_def)

lemma row_steps_request: "row_steps r r' \<Longrightarrow> same_request r' admin fp = same_request r admin fp"
  by (induction rule: row_steps.induct) (simp_all add: row_step_request)

lemma row_steps_outcome:
  "row_steps r r' \<Longrightarrow> bj_state r \<in> set known_states \<Longrightarrow> outcome r' = outcome r"
proof (induction rule: row_steps.induct)
  case (step r r' r'')
  then have "outcome r' = outcome r" by simp
  moreover from this have "bj_state r' \<in> set known_states" using step.prems by (simp add: outcome_def)
  ultimately show ?case using row_step_outcome[OF step.hyps(2)] by simp
qed simp

subsection \<open>The invariant of the journal\<close>

definition notified_ok :: "browser_job \<Rightarrow> bool" where
  "notified_ok r \<longleftrightarrow>
     (bj_namespace r = ''xhs'' \<and> bj_state r \<in> set final_states \<and> bj_callback_delivered_at r = None
        \<longrightarrow> bj_next_callback_at r \<noteq> None) \<and>
     (bj_state r = ''running'' \<or> bj_lease_expires_at r = None) \<and>
     (bj_state r \<in> set final_states \<longleftrightarrow> bj_completed_at r \<noteq> None)"

definition journal_ok :: "db \<Rightarrow> bool" where
  "journal_ok d \<longleftrightarrow> distinct (map bj_key (browser_jobs d)) \<and> (\<forall>r \<in> set (browser_jobs d). notified_ok r)"

lemma bj_write_row_fields:
  fixes now state data err r
  defines "r' \<equiv> bj_write_row now state data err r"
  shows "bj_state r' = state"
    and "bj_completed_at r' = (if state \<in> set final_states then Some now else None)"
    and "state = ''running'' \<or> bj_lease_expires_at r' = None"
    and "bj_namespace r' = bj_namespace r"
    and "bj_next_callback_at r' \<noteq> None \<or>
       (bj_next_callback_at r' = bj_next_callback_at r \<and>
        bj_callback_delivered_at r' = bj_callback_delivered_at r \<and>
        (bj_namespace r = ''xhs'' \<and> state \<in> set final_states \<longrightarrow> bj_state r = state))"
  by (simp_all add: r'_def bj_write_row_def Let_def)

lemma notified_ok_write: "notified_ok r \<Longrightarrow> notified_ok (bj_write_row now state data err r)"
  using bj_write_row_fields[where now = now and state = state and data = data and err = err and r = r] unfolding notified_ok_def by auto

lemma notified_ok_finish: "notified_ok r \<Longrightarrow> notified_ok (bj_finish_row now state data err re r)"
  by (simp add: bj_finish_row_def notified_ok_write)

lemma notified_ok_mark: "notified_ok r \<Longrightarrow> notified_ok (mark_callback_row now delivered r)"
  unfolding notified_ok_def mark_callback_row_def by (simp add: Let_def)

lemma notified_ok_new: "notified_ok (new_job now ns job admin fp worker lease)"
  by (simp add: notified_ok_def new_job_def final_states_def)

lemma notified_ok_reserve [simp]: "notified_ok (r\<lparr>bj_next_recovery_at := t\<rparr>) = notified_ok r"
  by (simp add: notified_ok_def)

lemma notified_ok_renew: "notified_ok r \<Longrightarrow> bj_state r = ''running'' \<Longrightarrow> notified_ok (r\<lparr>bj_lease_expires_at := l\<rparr>)"
  by (simp add: notified_ok_def)

lemma journal_get: "journal_ok d \<Longrightarrow> bj_get ns job d = Some r \<Longrightarrow> notified_ok r"
  by (auto simp: journal_ok_def dest: bj_get_Some)

lemma journal_put: "journal_ok d \<Longrightarrow> notified_ok r \<Longrightarrow> journal_ok (put_job r d)"
  unfolding journal_ok_def by (auto simp: put_job_def dest: set_row_put_other)

lemma journal_update:
  assumes "journal_ok d" and "\<And>r. bj_key (f r) = bj_key r"
    and "\<And>r. notified_ok r \<Longrightarrow> p r \<Longrightarrow> notified_ok (f r)"
  shows "journal_ok (d\<lparr>browser_jobs := row_update p f (browser_jobs d)\<rparr>)"
proof -
  from assms(1) have "\<forall>r \<in> set (browser_jobs d). notified_ok r" by (simp add: journal_ok_def)
  then have "\<forall>r \<in> set (row_update p f (browser_jobs d)). notified_ok r"
    by (rule ball_row_update) (rule assms(3))
  with assms(1) show ?thesis by (simp add: journal_ok_def assms(2))
qed

lemma new_job_key [simp]: "bj_key (new_job now ns job admin fp worker lease) = (ns, job)"
  by (simp add: bj_key_def new_job_def)

lemma journal_accept: "journal_ok d \<Longrightarrow> journal_ok (fst (accept_job now id ns job admin fp worker lease d))"
proof -
  assume d: "journal_ok d"
  show ?thesis
  proof (cases "bj_get ns job d")
    case None
    then have "(ns, job) \<notin> bj_key ` set (browser_jobs d)" by (simp add: bj_get_def)
    with d None show ?thesis by (auto simp: accept_job_def Let_def journal_ok_def notified_ok_new)
  next
    case (Some r)
    with d show ?thesis by (simp add: accept_job_def)
  qed
qed

lemma journal_step: "job_step d d' \<Longrightarrow> journal_ok d \<Longrightarrow> journal_ok d'"
proof (induction rule: job_step.induct)
  case (accept d now ns job admin fp worker lease)
  then show ?case by (rule journal_accept)
next
  case (finish now ns job state data err re d d' res)
  then show ?case
    by (auto simp: finish_job_def Let_def split: if_splits option.splits
        intro!: journal_put notified_ok_finish dest: journal_get)
next
  case (renew now ns job worker lease d)
  then show ?case unfolding renew_job_def
    by (rule journal_update) (simp_all add: bj_key_def notified_ok_renew)
next
  case (recover now ns limit d)
  then show ?case unfolding recovery_jobs_def Let_def fst_conv
    by (rule journal_update) (simp_all add: bj_key_def)
next
  case (mark now job delivered state d)
  then show ?case
    by (auto simp: mark_callback_def split: option.splits intro!: journal_put notified_ok_mark
        dest: journal_get)
next
  case (elsewhere d' d)
  then show ?case by (simp add: journal_ok_def)
qed

lemma journal_steps: "job_steps d d' \<Longrightarrow> journal_ok d \<Longrightarrow> journal_ok d'"
  by (induction rule: job_steps.induct) (simp_all add: journal_step)

subsection \<open>One delivery pass\<close>

lemma mark_callback_other:
  "(''xhs'', job) \<noteq> (ns, job') \<Longrightarrow> bj_get ns job' (mark_callback now job delivered state d) = bj_get ns job' d"
proof (cases "bj_get ''xhs'' job d")
  case (Some r)
  assume "(''xhs'', job) \<noteq> (ns, job')"
  with bj_get_Some[OF Some] have "bj_key (mark_callback_row now delivered r) \<noteq> (ns, job')" by simp
  with Some show ?thesis by (simp add: mark_callback_def bj_get_put)
qed (simp add: mark_callback_def)

lemma mark_callback_this:
  assumes "bj_get ''xhs'' job d = Some r" and "bj_state r \<in> set final_states"
  shows "bj_get ''xhs'' job (mark_callback now job delivered (Some (bj_state r)) d) =
    Some (mark_callback_row now delivered r)"
proof -
  have "bj_key r = (''xhs'', job)" "(''xhs'', job) \<in> bj_key ` set (browser_jobs d)"
    using bj_get_Some[OF assms(1)] by (auto intro: rev_image_eqI)
  then show ?thesis using assms by (simp add: mark_callback_def bj_get_put)
qed

lemma deliver_all_other:
  "job \<notin> bj_job_id ` set rs \<Longrightarrow>
    bj_get ''xhs'' job (deliver_all deliver clock (\<lambda>_ d. d) rs d) = bj_get ''xhs'' job d"
  by (induction rs arbitrary: d) (auto simp: mark_callback_other)

lemma deliver_all_row:
  assumes "distinct (map bj_job_id rs)" and "r \<in> set rs" and "bj_state r \<in> set final_states"
    and "bj_get ''xhs'' (bj_job_id r) d = Some r"
  shows "bj_get ''xhs'' (bj_job_id r) (deliver_all deliver clock (\<lambda>_ d. d) rs d) =
    Some (mark_callback_row (clock r) (deliver r) r)"
  using assms
proof (induction rs arbitrary: d)
  case (Cons x rs)
  show ?case
  proof (cases "x = r")
    case True
    with Cons.prems have "bj_job_id r \<notin> bj_job_id ` set rs" by simp
    with True Cons.prems show ?thesis by (simp add: deliver_all_other mark_callback_this)
  next
    case False
    with Cons.prems have "r \<in> set rs" "bj_job_id x \<noteq> bj_job_id r" by (auto intro: rev_image_eqI)
    with Cons show ?thesis by (simp add: mark_callback_other)
  qed
qed simp

lemma callback_jobs_distinct:
  assumes "distinct (map bj_key (browser_jobs d))"
  shows "distinct (map bj_job_id (callback_jobs now n d))"
proof -
  let ?rs = "callback_jobs now n d"
  have sub: "r \<in> set (browser_jobs d) \<and> bj_namespace r = ''xhs''" if "r \<in> set ?rs" for r
    using that by (auto simp: callback_jobs_def callback_due_def dest: row_select_mem)
  have "distinct (filter (callback_due now) (browser_jobs d))"
    using assms by (simp add: distinct_map)
  then have "distinct ?rs" by (simp add: callback_jobs_def row_select_def)
  moreover have "inj_on bj_job_id (set ?rs)"
  proof (rule inj_onI)
    fix x y assume "x \<in> set ?rs" "y \<in> set ?rs" "bj_job_id x = bj_job_id y"
    with sub[of x] sub[of y] have "bj_key x = bj_key y" "x \<in> set (browser_jobs d)" "y \<in> set (browser_jobs d)"
      by (simp_all add: bj_key_def)
    with assms show "x = y" by (simp add: distinct_map inj_on_def)
  qed
  ultimately show ?thesis by (simp add: distinct_map)
qed

lemma mark_callback_row_outcome [simp]: "outcome (mark_callback_row now delivered r) = outcome r"
  by (simp add: outcome_def mark_callback_row_def Let_def)

lemma mark_callback_row_retry:
  "\<not> delivered \<Longrightarrow> \<exists>t. bj_next_callback_at (mark_callback_row now delivered r) = Some t \<and>
     now < t \<and> t \<le> now + secs 300"
  using callback.next_after[of now "Suc (bj_callback_attempts r)"]
    callback.delay_cap[of "Suc (bj_callback_attempts r)"]
  by (simp add: mark_callback_row_def Let_def)

subsection \<open>Recovery batches\<close>

lemma recovery_rows:
  assumes "recovery_jobs now ns n d = (d1, rows)" and "r \<in> set (browser_jobs d1)"
    and "bj_key r \<in> bj_key ` set rows"
  shows "bj_next_recovery_at r = Some (now + secs 30)"
proof -
  let ?b = "recovery_batch now ns n d" and ?f = "\<lambda>r. r\<lparr>bj_next_recovery_at := Some (now + secs 30)\<rparr>"
  have k: "bj_key (?f x) = bj_key x" for x by (simp add: bj_key_def)
  have d1: "browser_jobs d1 = row_update (\<lambda>r. bj_key r \<in> bj_key ` set ?b) ?f (browser_jobs d)"
    and rows: "rows = map ?f ?b"
    using assms(1) by (auto simp: recovery_jobs_def Let_def)
  have "bj_key r \<in> bj_key ` set ?b" using assms(3) by (auto simp: rows k image_image)
  with assms(2) show ?thesis by (auto simp: d1 set_row_update k split: if_splits)
qed

lemma recovery_returned:
  assumes "r \<in> set (snd (recovery_jobs now ns n d))"
  shows "\<exists>x \<in> set (browser_jobs d). recoverable now ns x \<and> bj_key x = bj_key r"
proof -
  from assms obtain x where "x \<in> set (recovery_batch now ns n d)" and "bj_key x = bj_key r"
    by (auto simp: recovery_jobs_def Let_def bj_key_def)
  then show ?thesis by (auto simp: recovery_batch_def dest: row_select_mem)
qed

subsection \<open>Properties\<close>

definition sample_job :: browser_job where
  "sample_job = new_job 100 ''xhs'' ''j1'' (Some 1) ''fp'' (Some ''w1'') (Some (secs 60))"

definition sample_final :: browser_job where
  "sample_final = sample_job\<lparr>bj_state := ''succeeded'', bj_lease_expires_at := None,
     bj_completed_at := Some 200, bj_next_callback_at := Some 200\<rparr>"

definition sample_jobs_db :: db where
  "sample_jobs_db = empty_db\<lparr>browser_jobs := [sample_final]\<rparr>"

lemma sample_final_fields [simp]:
  "bj_key sample_final = (''xhs'', ''j1'')" "bj_namespace sample_final = ''xhs''"
  "bj_job_id sample_final = ''j1''" "bj_state sample_final = ''succeeded''"
  "bj_next_callback_at sample_final = Some 200" "bj_callback_delivered_at sample_final = None"
  "bj_callback_attempts sample_final = 0"
  by (simp_all add: sample_final_def sample_job_def new_job_def bj_key_def)

lemma sample_final_outcome: "outcome sample_final = (''succeeded'', JObj [], None, Some 200)"
  by (simp add: sample_final_def sample_job_def new_job_def outcome_def)

lemma sample_jobs [simp]: "browser_jobs sample_jobs_db = [sample_final]"
  by (simp add: sample_jobs_db_def)

lemma sample_jobs_get [simp]: "bj_get ''xhs'' ''j1'' sample_jobs_db = Some sample_final"
  by (simp add: bj_get_def row_get_def)

text \<open>
  C4: A verified outcome is permanent. Whatever sequence of accepts, outcome
  reports, renewals, recovery batches and callback marks the workers issue, a job
  that succeeded or failed keeps its state, data, error and completion time, and
  the request it was accepted for.
\<close>

theorem verified_outcome_permanent:
  assumes "job_steps d d'" and "bj_get ns job d = Some r" and "bj_state r \<in> set known_states"
  shows "\<exists>r'. bj_get ns job d' = Some r' \<and> outcome r' = outcome r \<and>
    (\<forall>admin fp. same_request r' admin fp = same_request r admin fp)"
proof -
  from job_steps_rows[OF assms(1,2)] obtain r' where
    "bj_get ns job d' = Some r'" "row_steps r r'" by blast
  then show ?thesis using row_steps_outcome[OF _ assms(3)] row_steps_request by blast
qed

theorem verified_outcome_permanent_witness:
  "\<exists>r'. bj_get ''xhs'' ''j1'' (mark_callback 300 ''j1'' True (Some ''succeeded'') sample_jobs_db) = Some r' \<and>
    outcome r' = (''succeeded'', JObj [], None, Some 200)"
proof -
  have "job_steps sample_jobs_db (mark_callback 300 ''j1'' True (Some ''succeeded'') sample_jobs_db)"
    by (rule job_steps.step[OF job_steps.refl job_step.mark])
  from verified_outcome_permanent[OF this sample_jobs_get]
  show ?thesis by (simp add: known_states_def sample_final_outcome) blast
qed

text \<open>
  A notification is never lost. In every state the journal reaches from the
  empty one, job ids are unique, only a running job has a lease, exactly the jobs with a final
  outcome have a completion time, and such an XHS job was delivered or has its next
  delivery scheduled.
\<close>

theorem journal_reachable_ok:
  assumes "job_steps empty_db d"
  shows "journal_ok d"
  using assms by (rule journal_steps) (simp add: journal_ok_def empty_db_def)

theorem journal_reachable_ok_witness:
  "journal_ok (fst (accept_job 100 id ''xhs'' ''j1'' (Some 1) ''fp'' None None empty_db))"
  by (rule journal_reachable_ok[OF job_steps.step[OF job_steps.refl job_step.accept]])

text \<open>
  One submission per job id. Once a worker was told that it created a job, then
  whatever the workers do and whoever races with it, no later call for that id is
  told that it created the job, and a call with another account or request is
  refused without touching the journal.
\<close>

theorem accept_once:
  assumes "accept_job now race ns job admin fp worker lease d0 = (d1, Inr (r, True))"
    and "job_steps d1 d2"
  shows "\<exists>r'. accept_job now' race' ns job admin' fp' worker' lease' d2 =
    (d2, if admin' = admin \<and> fp' = fp then Inr (r', False) else Inl DifferentRequest)"
proof -
  have new: "r = new_job now ns job admin fp worker lease"
    and "bj_get ns job (race d0) = None" and d1: "d1 = (race d0)\<lparr>browser_jobs := browser_jobs (race d0) @ [r]\<rparr>"
    using assms(1) by (auto simp: accept_job_def existing_job_def Let_def split: option.splits if_splits)
  then have "bj_get ns job d1 = Some r"
    by (simp add: bj_get_def row_get_def find_append bj_key_def new_job_def)
  from job_steps_rows[OF assms(2) this] obtain r' where
    r': "bj_get ns job d2 = Some r'" "row_steps r r'" by blast
  have "same_request r' admin' fp' \<longleftrightarrow> admin' = admin \<and> fp' = fp"
    unfolding row_steps_request[OF r'(2)] by (auto simp: same_request_def new new_job_def)
  with r'(1) show ?thesis by (auto simp: accept_job_def existing_job_def)
qed

theorem accept_once_witness:
  "accept_job 200 id ''xhs'' ''j1'' (Some 1) ''other'' None None
     (fst (accept_job 100 id ''xhs'' ''j1'' (Some 1) ''fp'' None None empty_db)) =
   (fst (accept_job 100 id ''xhs'' ''j1'' (Some 1) ''fp'' None None empty_db), Inl DifferentRequest)"
proof -
  have "accept_job 100 id ''xhs'' ''j1'' (Some 1) ''fp'' None None empty_db =
    (fst (accept_job 100 id ''xhs'' ''j1'' (Some 1) ''fp'' None None empty_db),
     Inr (new_job 100 ''xhs'' ''j1'' (Some 1) ''fp'' None None, True))"
    by (simp add: accept_job_def bj_get_def row_get_def empty_db_def Let_def)
  from accept_once[OF this job_steps.refl, of 200 id "Some 1" "''other''" None None]
  show ?thesis by simp
qed

text \<open>
  One delivery pass handles each due notification exactly as the endpoint
  answered. On a journal with unique job ids, when nobody else writes during the
  pass, every job of the batch keeps its outcome; a delivered one is marked so and
  unscheduled, any other one is rescheduled after at most five minutes.
\<close>

theorem deliver_once_batch:
  assumes "journal_ok d" and "r \<in> set (callback_jobs now 100 d)"
  shows "\<exists>r'. bj_get ''xhs'' (bj_job_id r) (deliver_once now deliver clock (\<lambda>_ d. d) d) = Some r' \<and>
    outcome r' = outcome r \<and> bj_callback_attempts r' = Suc (bj_callback_attempts r) \<and>
    (if deliver r then bj_callback_delivered_at r' = Some (clock r) \<and> bj_next_callback_at r' = None
     else bj_callback_delivered_at r' = None \<and>
       (\<exists>t. bj_next_callback_at r' = Some t \<and> clock r < t \<and> t \<le> clock r + secs 300))"
proof -
  have dist: "distinct (map bj_key (browser_jobs d))" using assms(1) by (simp add: journal_ok_def)
  have r: "r \<in> set (browser_jobs d)" "callback_due now r"
    using assms(2) by (auto simp: callback_jobs_def dest: row_select_mem)
  then have due: "bj_key r = (''xhs'', bj_job_id r)" "bj_state r \<in> set final_states"
      "bj_callback_delivered_at r = None"
    by (auto simp: callback_due_def bj_key_def)
  have "bj_get ''xhs'' (bj_job_id r) d = Some r"
    using row_get_unique[OF dist r(1)] due(1) by (simp add: bj_get_def)
  from deliver_all_row[OF callback_jobs_distinct[OF dist] assms(2) due(2) this]
  show ?thesis
    using mark_callback_row_retry[of "deliver r" "clock r" r] due(3)
    by (auto simp: deliver_once_def mark_callback_row_def Let_def outcome_def)
qed

theorem deliver_once_batch_witness:
  "\<exists>r'. bj_get ''xhs'' ''j1'' (deliver_once 300 (\<lambda>_. True) (\<lambda>_. 310) (\<lambda>_ d. d) sample_jobs_db) = Some r' \<and>
    bj_callback_delivered_at r' = Some 310"
proof -
  have "journal_ok sample_jobs_db"
    by (simp add: journal_ok_def notified_ok_def final_states_def) (simp add: sample_final_def)
  moreover have "sample_final \<in> set (callback_jobs 300 100 sample_jobs_db)"
    by (simp add: callback_jobs_def row_select_def callback_due_def final_states_def)
  ultimately have "\<exists>r'. bj_get ''xhs'' (bj_job_id sample_final)
      (deliver_once 300 (\<lambda>_. True) (\<lambda>_. 310) (\<lambda>_ d. d) sample_jobs_db) = Some r' \<and>
    outcome r' = outcome sample_final \<and> bj_callback_attempts r' = Suc (bj_callback_attempts sample_final) \<and>
    (if True then bj_callback_delivered_at r' = Some 310 \<and> bj_next_callback_at r' = None
     else bj_callback_delivered_at r' = None \<and>
       (\<exists>t. bj_next_callback_at r' = Some t \<and> 310 < t \<and> t \<le> 310 + secs 300))"
    by (rule deliver_once_batch)
  then show ?thesis by auto
qed

text \<open>
  Recovery batches of two workers are disjoint. The jobs a worker takes to check
  are expired or unresolved jobs of its namespace, at most as many as asked for, and
  for thirty seconds no other batch holds any of them.
\<close>

theorem recovery_disjoint:
  assumes "recovery_jobs now ns n d = (d1, rows)" and "t < now + secs 30"
  shows "bj_key ` set rows \<inter> bj_key ` set (snd (recovery_jobs t ns' n' d1)) = {} \<and>
    length rows \<le> n \<and> (\<forall>k \<in> bj_key ` set rows. \<exists>x \<in> set (browser_jobs d). recoverable now ns x \<and> bj_key x = k)"
proof -
  have "False" if "r \<in> set rows" "r' \<in> set (snd (recovery_jobs t ns' n' d1))" "bj_key r = bj_key r'" for r r'
  proof -
    from recovery_returned[OF that(2)] obtain x where
      x: "x \<in> set (browser_jobs d1)" "recoverable t ns' x" "bj_key x = bj_key r'" by blast
    have "bj_next_recovery_at x = Some (now + secs 30)"
      using recovery_rows[OF assms(1) x(1)] x(3) that by (metis imageI)
    with x(2) assms(2) show False by (simp add: recoverable_def)
  qed
  moreover have "length rows \<le> n"
    using assms(1) length_row_select by (auto simp: recovery_jobs_def Let_def recovery_batch_def)
  moreover have "\<exists>x \<in> set (browser_jobs d). recoverable now ns x \<and> bj_key x = bj_key r" if "r \<in> set rows" for r
    using recovery_returned[of r now ns n d] assms(1) that by simp
  ultimately show ?thesis by blast
qed

theorem recovery_disjoint_witness:
  "bj_key ` set (snd (recovery_jobs 100 ''xhs'' 5 sample_jobs_db)) \<inter>
   bj_key ` set (snd (recovery_jobs 200 ''xhs'' 5 (fst (recovery_jobs 100 ''xhs'' 5 sample_jobs_db)))) = {}"
  using recovery_disjoint[of 100 "''xhs''" 5 sample_jobs_db _ _ 200 "''xhs''" 5, OF prod.collapse[symmetric]]
  by (simp add: secs_def)

end
