(* ===== verification/PyText.thy ===== *)
theory PyText
  imports Prelude
begin

text \<open>
  The string operations of Python's standard library that the program uses:
  \<open>lower\<close>, \<open>strip\<close>, \<open>split\<close>, decimal formatting, prefix and character-class tests for
  its regular expressions, and \<open>urllib.parse.urlsplit\<close> with the derived
  \<open>hostname\<close>, \<open>port\<close>, \<open>username\<close> and \<open>password\<close>. Strings are character lists;
  \<open>lower\<close> folds ASCII letters.
\<close>

subsection \<open>Characters\<close>

definition code :: "char \<Rightarrow> nat" where
  "code c = of_char c"

definition is_digit :: "char \<Rightarrow> bool" where
  "is_digit c \<longleftrightarrow> 48 \<le> code c \<and> code c \<le> 57"

definition is_upper :: "char \<Rightarrow> bool" where
  "is_upper c \<longleftrightarrow> 65 \<le> code c \<and> code c \<le> 90"

definition is_lower :: "char \<Rightarrow> bool" where
  "is_lower c \<longleftrightarrow> 97 \<le> code c \<and> code c \<le> 122"

definition is_alpha :: "char \<Rightarrow> bool" where
  "is_alpha c \<longleftrightarrow> is_upper c \<or> is_lower c"

text \<open>The characters \<open>str.isspace\<close> accepts below code point 256.\<close>

definition is_space :: "char \<Rightarrow> bool" where
  "is_space c \<longleftrightarrow>
     (9 \<le> code c \<and> code c \<le> 13) \<or> (28 \<le> code c \<and> code c \<le> 32) \<or> code c = 133 \<or> code c = 160"

definition is_hex :: "char \<Rightarrow> bool" where
  "is_hex c \<longleftrightarrow> is_digit c \<or> (97 \<le> code c \<and> code c \<le> 102) \<or> (65 \<le> code c \<and> code c \<le> 70)"

definition is_lower_hex :: "char \<Rightarrow> bool" where
  "is_lower_hex c \<longleftrightarrow> is_digit c \<or> (97 \<le> code c \<and> code c \<le> 102)"

subsection \<open>Strings\<close>

definition lower :: "string \<Rightarrow> string" where
  "lower s = map (\<lambda>c. if is_upper c then char_of (code c + 32) else c) s"

definition lstrip_by :: "(char \<Rightarrow> bool) \<Rightarrow> string \<Rightarrow> string" where
  "lstrip_by p s = dropWhile p s"

definition rstrip_by :: "(char \<Rightarrow> bool) \<Rightarrow> string \<Rightarrow> string" where
  "rstrip_by p s = rev (dropWhile p (rev s))"

definition strip_by :: "(char \<Rightarrow> bool) \<Rightarrow> string \<Rightarrow> string" where
  "strip_by p s = rstrip_by p (lstrip_by p s)"

definition strip :: "string \<Rightarrow> string" where
  "strip s = strip_by is_space s"

definition starts_with :: "string \<Rightarrow> string \<Rightarrow> bool" where
  "starts_with p s \<longleftrightarrow> take (length p) s = p"

definition ends_with :: "string \<Rightarrow> string \<Rightarrow> bool" where
  "ends_with p s \<longleftrightarrow> starts_with (rev p) (rev s)"

text \<open>\<open>s.partition(c)\<close> without the separator: the part before the first \<open>c\<close> and the rest.\<close>

fun split1 :: "char \<Rightarrow> string \<Rightarrow> string \<times> string option" where
  "split1 c [] = ([], None)"
| "split1 c (x # xs) =
     (if x = c then ([], Some xs) else let (a, b) = split1 c xs in (x # a, b))"

text \<open>\<open>s.split(c)\<close>.\<close>

fun split_on :: "char \<Rightarrow> string \<Rightarrow> string list" where
  "split_on c [] = [[]]"
| "split_on c (x # xs) =
     (if x = c then [] # split_on c xs
      else case split_on c xs of [] \<Rightarrow> [[x]] | w # ws \<Rightarrow> (x # w) # ws)"

fun join :: "string \<Rightarrow> string list \<Rightarrow> string" where
  "join sep [] = []"
| "join sep [w] = w"
| "join sep (w # v # ws) = w @ sep @ join sep (v # ws)"

lemma split_on_nonempty [simp]: "split_on c s \<noteq> []"
  by (induction c s rule: split_on.induct) (auto split: list.splits)

lemma join_split_on: "join [c] (split_on c s) = s"
proof (induction c s rule: split_on.induct)
  case (1 c)
  then show ?case by simp
next
  case (2 c x xs)
  obtain w ws where e: "split_on c xs = w # ws"
    by (cases "split_on c xs") simp_all
  show ?case
  proof (cases "x = c")
    case True
    with "2.IH"(1)[OF True] e show ?thesis by simp
  next
    case False
    with "2.IH"(2)[OF False] e show ?thesis by (cases ws) simp_all
  qed
qed

lemma split_on_parts: "w \<in> set (split_on c s) \<Longrightarrow> c \<notin> set w"
  by (induction c s arbitrary: w rule: split_on.induct) (auto split: if_splits list.splits)

text \<open>Decimal formatting of integers, as \<open>str\<close> and f-strings print them.\<close>

definition digit_char :: "nat \<Rightarrow> char" where
  "digit_char d = char_of (48 + d)"

fun show_nat :: "nat \<Rightarrow> string" where
  "show_nat n = (if n < 10 then [digit_char n] else show_nat (n div 10) @ [digit_char (n mod 10)])"

declare show_nat.simps [simp del]

definition show_int :: "int \<Rightarrow> string" where
  "show_int i = (if i < 0 then ''-'' @ show_nat (nat (- i)) else show_nat (nat i))"

fun read_nat :: "nat \<Rightarrow> string \<Rightarrow> nat" where
  "read_nat acc [] = acc"
| "read_nat acc (c # cs) = read_nat (acc * 10 + (code c - 48)) cs"

lemma code_digit_char: "d < 10 \<Longrightarrow> code (digit_char d) = 48 + d"
  by (simp add: code_def digit_char_def of_char_of)

lemma read_nat_append: "read_nat acc (s @ t) = read_nat (read_nat acc s) t"
  by (induction acc s rule: read_nat.induct) simp_all

lemma read_show_nat: "read_nat 0 (show_nat n) = n"
proof (induction n rule: show_nat.induct)
  case (1 n)
  show ?case
  proof (cases "n < 10")
    case True
    then show ?thesis by (subst show_nat.simps) (simp add: code_digit_char)
  next
    case False
    with "1.IH" show ?thesis
      by (subst show_nat.simps) (simp add: read_nat_append code_digit_char)
  qed
qed

lemma show_nat_inj: "show_nat m = show_nat n \<longleftrightarrow> m = n"
  by (metis read_show_nat)

lemma show_nat_digits: "c \<in> set (show_nat n) \<Longrightarrow> is_digit c"
proof (induction n rule: show_nat.induct)
  case (1 n)
  show ?case
  proof (cases "n < 10")
    case True
    with "1.prems" show ?thesis
      by (subst (asm) show_nat.simps) (simp add: is_digit_def code_digit_char)
  next
    case False
    with "1.prems" have "c \<in> set (show_nat (n div 10)) \<or> c = digit_char (n mod 10)"
      by (subst (asm) show_nat.simps) auto
    with "1.IH"[OF False] show ?thesis by (auto simp: is_digit_def code_digit_char)
  qed
qed

lemma show_nat_nonempty [simp]: "show_nat n \<noteq> []"
  by (subst show_nat.simps) simp

lemma show_int_inj: "show_int i = show_int j \<longleftrightarrow> i = j"
proof -
  have m: "show_nat k \<noteq> CHR ''-'' # s" for k s
  proof
    assume "show_nat k = CHR ''-'' # s"
    then have "is_digit CHR ''-''" using show_nat_digits[of "CHR ''-''" k] by simp
    then show False by (simp add: is_digit_def code_def)
  qed
  show ?thesis
    by (auto simp: show_int_def show_nat_inj m dest: m[THEN notE, OF sym])
qed

lemma show_nat_no_colon: "CHR '':'' \<notin> set (show_nat n)"
proof
  assume "CHR '':'' \<in> set (show_nat n)"
  then have "is_digit CHR '':''" by (rule show_nat_digits)
  then show False by (simp add: is_digit_def code_def)
qed

lemma show_int_no_colon: "CHR '':'' \<notin> set (show_int i)"
  by (simp add: show_int_def show_nat_no_colon)

lemma first_colon:
  "CHR '':'' \<notin> set a \<Longrightarrow> CHR '':'' \<notin> set a' \<Longrightarrow> a @ CHR '':'' # b = a' @ CHR '':'' # b' \<Longrightarrow> a = a' \<and> b = b'"
proof (induction a arbitrary: a')
  case Nil
  then show ?case by (cases a') auto
next
  case (Cons x a)
  then show ?case by (cases a') auto
qed

lemma code_lower_alpha: "is_upper c \<Longrightarrow> code (char_of (code c + 32)) = code c + 32"
  by (simp add: code_def is_upper_def of_char_of)

lemma lower_idem: "lower (lower s) = lower s"
  by (induction s) (auto simp: lower_def code_lower_alpha is_upper_def)

lemma length_lower [simp]: "length (lower s) = length s"
  by (simp add: lower_def)

subsection \<open>urlsplit\<close>

record url =
  url_scheme :: string
  url_netloc :: string
  url_path :: string
  url_query :: string
  url_fragment :: string

definition scheme_char :: "char \<Rightarrow> bool" where
  "scheme_char c \<longleftrightarrow> is_alpha c \<or> is_digit c \<or> c \<in> {CHR ''+'', CHR ''-'', CHR ''.''}"

definition url_clean :: "string \<Rightarrow> string" where
  "url_clean s =
     filter (\<lambda>c. code c \<notin> {9, 10, 13}) (lstrip_by (\<lambda>c. code c \<le> 32) s)"

definition url_take_scheme :: "string \<Rightarrow> string \<times> string" where
  "url_take_scheme s =
     (case split1 CHR '':'' s of
        (pre, Some rest) \<Rightarrow>
          (if pre \<noteq> [] \<and> is_alpha (hd pre) \<and> list_all scheme_char pre then (lower pre, rest)
           else ([], s))
      | (pre, None) \<Rightarrow> ([], s))"

text \<open>
  \<open>brackets_ok\<close> is the check of a bracketed host by the \<open>ipaddress\<close> module.
  \<open>None\<close> is the \<open>ValueError\<close> of an unbalanced or invalid bracketed host.
\<close>

definition urlsplit :: "(string \<Rightarrow> bool) \<Rightarrow> string \<Rightarrow> url option" where
  "urlsplit brackets_ok s =
     (let (scheme, rest) = url_take_scheme (url_clean s);
          hier = starts_with ''//'' rest;
          netloc = (if hier then takeWhile (\<lambda>c. c \<notin> {CHR ''/'', CHR ''?'', CHR ''#''}) (drop 2 rest)
                    else []);
          rest1 = (if hier then dropWhile (\<lambda>c. c \<notin> {CHR ''/'', CHR ''?'', CHR ''#''}) (drop 2 rest)
                   else rest);
          (rest2, frag) = split1 CHR ''#'' rest1;
          (path, query) = split1 CHR ''?'' rest2;
          l = CHR ''['' \<in> set netloc; r = CHR '']'' \<in> set netloc
      in if l \<noteq> r \<or> (l \<and> \<not> brackets_ok netloc) then None
         else Some \<lparr>url_scheme = scheme, url_netloc = netloc, url_path = path,
                    url_query = (case query of None \<Rightarrow> [] | Some q \<Rightarrow> q),
                    url_fragment = (case frag of None \<Rightarrow> [] | Some f \<Rightarrow> f)\<rparr>)"

text \<open>\<open>netloc.rpartition('@')\<close>: the part after the last \<open>@\<close>, and what is before it.\<close>

definition url_userinfo :: "url \<Rightarrow> string option" where
  "url_userinfo u =
     (if CHR ''@'' \<in> set (url_netloc u)
      then Some (rev (tl (dropWhile (\<lambda>c. c \<noteq> CHR ''@'') (rev (url_netloc u))))) else None)"

definition url_hostinfo :: "url \<Rightarrow> string" where
  "url_hostinfo u = rev (takeWhile (\<lambda>c. c \<noteq> CHR ''@'') (rev (url_netloc u)))"

definition url_username :: "url \<Rightarrow> string option" where
  "url_username u = map_option (\<lambda>i. fst (split1 CHR '':'' i)) (url_userinfo u)"

definition url_password :: "url \<Rightarrow> string option" where
  "url_password u = (case url_userinfo u of None \<Rightarrow> None | Some i \<Rightarrow> snd (split1 CHR '':'' i))"

text \<open>The host and the text of the port: after a bracket, or around the first colon.\<close>

definition url_host_port :: "url \<Rightarrow> string \<times> string option" where
  "url_host_port u =
     (case split1 CHR ''['' (url_hostinfo u) of
        (_, Some bracketed) \<Rightarrow>
          (let (h, rest) = split1 CHR '']'' bracketed
           in (h, snd (split1 CHR '':'' (case rest of None \<Rightarrow> [] | Some t \<Rightarrow> t))))
      | (_, None) \<Rightarrow> split1 CHR '':'' (url_hostinfo u))"

definition url_hostname :: "url \<Rightarrow> string option" where
  "url_hostname u =
     (let h = fst (url_host_port u) in
      if h = [] then None
      else case split1 CHR ''%'' h of
             (a, None) \<Rightarrow> Some (lower a)
           | (a, Some zone) \<Rightarrow> Some (lower a @ ''%'' @ zone))"

datatype url_port = NoPort | Port nat | BadPort

text \<open>\<open>BadPort\<close> is the \<open>ValueError\<close> of a port that is not a decimal number up to 65535.\<close>

definition url_port :: "url \<Rightarrow> url_port" where
  "url_port u =
     (case snd (url_host_port u) of
        None \<Rightarrow> NoPort
      | Some p \<Rightarrow>
          (if p = [] then NoPort
           else if list_all is_digit p then
             (if read_nat 0 p \<le> 65535 then Port (read_nat 0 p) else BadPort)
           else BadPort))"

end
