(* ===== verification/PublishResults.thy ===== *)
theory PublishResults
  imports Tables Samples PyText BrowserJobs
begin

text \<open>
  \<open>backend/app/services/xhs_publish_results.py\<close>: reading the outcome of a browser
  job from the journal into the publication record and its attempt, and the check of
  the note link that a worker reports. The human check of an unknown outcome,
  \<open>reconcile_ai_publish_dispatch\<close> of \<open>api/routes/ai.py\<close>, is here too, since
  the two must not overwrite each other.
\<close>

subsection \<open>The link of a published note\<close>

definition note_path :: "string \<Rightarrow> bool" where
  "note_path p \<longleftrightarrow>
     list_ex (\<lambda>pre. starts_with pre p \<and>
        (let t = drop (length pre) p in
         (length t = 24 \<or> (length t = 25 \<and> last t = CHR ''/'')) \<and> list_all is_hex (take 24 t)))
       [''/explore/'', ''/discovery/item/'']"

definition note_host :: "string \<Rightarrow> string \<Rightarrow> bool" where
  "note_host host path \<longleftrightarrow>
     (host \<in> {''xiaohongshu.com'', ''www.xiaohongshu.com''} \<and> note_path path) \<or>
     ((host = ''xhslink.com'' \<or> ends_with ''.xhslink.com'' host) \<and>
        strip_by (\<lambda>c. c = CHR ''/'') path \<noteq> [])"

definition note_url_ok :: "(string \<Rightarrow> bool) \<Rightarrow> string \<Rightarrow> bool" where
  "note_url_ok brackets_ok value =
     (case urlsplit brackets_ok value of
        None \<Rightarrow> False
      | Some u \<Rightarrow>
          (let host = (case url_hostname u of None \<Rightarrow> [] | Some h \<Rightarrow> lower h) in
           url_scheme u = ''https'' \<and> url_port u \<in> {NoPort, Port 443} \<and>
           url_username u = None \<and> url_password u = None \<and> note_host host (url_path u) \<and>
           \<not> list_ex (\<lambda>c. is_space c \<or> code c < 32) value))"

definition published_url :: "(string \<Rightarrow> bool) \<Rightarrow> json \<Rightarrow> string option" where
  "published_url brackets_ok data =
     (let detail = jget data ''result'';
          value = (if is_dict detail then jget detail ''url'' else jget data ''url'') in
      case value of
        JStr s \<Rightarrow> (if length s > 2048 then None else if note_url_ok brackets_ok s then Some s else None)
      | _ \<Rightarrow> None)"

subsection \<open>Applying a journal result\<close>

definition dp_get :: "int \<Rightarrow> db \<Rightarrow> publish_dispatch option" where
  "dp_get i d = row_get dp_id i (dispatches d)"

definition put_dispatch :: "publish_dispatch \<Rightarrow> db \<Rightarrow> db" where
  "put_dispatch r d = d\<lparr>dispatches := row_put dp_id r (dispatches d)\<rparr>"

definition pa_get :: "string \<Rightarrow> db \<Rightarrow> publish_attempt option" where
  "pa_get i d = row_get pa_attempt_id i (publish_attempts d)"

definition put_attempt :: "publish_attempt \<Rightarrow> db \<Rightarrow> db" where
  "put_attempt r d = d\<lparr>publish_attempts := row_put pa_attempt_id r (publish_attempts d)\<rparr>"

text \<open>\<open>session.get(ArticlePublishAttempt, pointer)\<close> behind a test of the pointer.\<close>

definition attempt_of :: "publish_dispatch \<Rightarrow> db \<Rightarrow> publish_attempt option" where
  "attempt_of r d =
     (case dp_article_publish_attempt_id r of
        None \<Rightarrow> None
      | Some a \<Rightarrow> if a = [] then None else pa_get a d)"

definition open_states :: "string list" where
  "open_states = [''dispatching'', ''reconciling'', ''uncertain'']"

definition dispatch_of_job :: "string \<Rightarrow> db \<Rightarrow> publish_dispatch option" where
  "dispatch_of_job job d =
     find (\<lambda>r. dp_channel r = ''xhs'' \<and> dp_xhs_job_id r = Some job) (dispatches d)"

definition applicable :: "browser_job \<Rightarrow> publish_dispatch \<Rightarrow> publish_attempt \<Rightarrow> bool" where
  "applicable res r a \<longleftrightarrow>
     dp_owner_admin_id r = bj_admin_id res \<and> dp_status r \<in> set open_states \<and>
     dp_reconciled_at r = None \<and> dp_reconciliation_result r = None \<and>
     pa_article_id a = dp_draft_id r \<and> pa_channel a = ''xhs'' \<and>
     pa_reconciled_at a = None \<and> pa_reconciliation_result a = None"

definition result_status :: "browser_job \<Rightarrow> string" where
  "result_status res = (if bj_state res = ''succeeded'' then ''published'' else bj_state res)"

definition result_error :: "browser_job \<Rightarrow> msg option" where
  "result_error res =
     (if result_status res = ''published'' then None
      else case bj_error res of None \<Rightarrow> None | Some e \<Rightarrow> if msg_truthy e then Some e else None)"

definition result_url :: "(string \<Rightarrow> bool) \<Rightarrow> browser_job \<Rightarrow> string option" where
  "result_url bo res =
     (if result_status res = ''published'' then published_url bo (jor (bj_data res) (JObj [])) else None)"

definition clip_error :: "msg option \<Rightarrow> msg option" where
  "clip_error e =
     (case e of None \<Rightarrow> None | Some m \<Rightarrow> if msg_truthy m then Some (clip 2000 m) else None)"

definition result_time :: "time \<Rightarrow> browser_job \<Rightarrow> time" where
  "result_time now res = (case bj_completed_at res of None \<Rightarrow> now | Some t \<Rightarrow> t)"

definition result_dispatch :: "(string \<Rightarrow> bool) \<Rightarrow> time \<Rightarrow> browser_job \<Rightarrow> publish_dispatch \<Rightarrow> publish_dispatch" where
  "result_dispatch bo now res r =
     r\<lparr>dp_status := result_status res, dp_last_error := clip_error (result_error res),
       dp_completed_at := Some (result_time now res), dp_published_url := result_url bo res\<rparr>"

definition result_attempt :: "(string \<Rightarrow> bool) \<Rightarrow> time \<Rightarrow> browser_job \<Rightarrow> publish_attempt \<Rightarrow> publish_attempt" where
  "result_attempt bo now res a =
     a\<lparr>pa_status := (if result_status res = ''published'' then ''published'' else ''failed''),
       pa_error := clip_error (result_error res), pa_completed_at := Some (result_time now res),
       pa_published_url := result_url bo res\<rparr>"

definition result_changes :: "(string \<Rightarrow> bool) \<Rightarrow> browser_job \<Rightarrow> publish_dispatch \<Rightarrow> bool" where
  "result_changes bo res r \<longleftrightarrow>
     dp_status r \<noteq> result_status res \<or> dp_last_error r \<noteq> result_error res \<or>
     dp_published_url r \<noteq> result_url bo res"

definition apply_xhs_job_result :: "(string \<Rightarrow> bool) \<Rightarrow> time \<Rightarrow> string \<Rightarrow> db \<Rightarrow> db \<times> bool" where
  "apply_xhs_job_result bo now job d =
     (case bj_get ''xhs'' job d of
        None \<Rightarrow> (d, False)
      | Some res \<Rightarrow>
          (if bj_state res \<notin> set final_states then (d, False)
           else case dispatch_of_job job d of
             None \<Rightarrow> (d, False)
           | Some r \<Rightarrow>
               (case attempt_of r d of
                  None \<Rightarrow> (d, False)
                | Some a \<Rightarrow>
                    (if applicable res r a
                     then (put_attempt (result_attempt bo now res a)
                             (put_dispatch (result_dispatch bo now res r) d),
                           result_changes bo res r)
                     else (d, False)))))"

subsection \<open>The human check of an unknown outcome\<close>

record reconcile_request =
  rq_decision :: string
  rq_published_url :: "string option"
  rq_note :: "string option"

definition owner_of :: "publish_dispatch \<Rightarrow> json" where
  "owner_of r =
     (case dp_owner_admin_id r of
        Some i \<Rightarrow> if i \<noteq> 0 then JInt i else jget (jor (dp_payload_snapshot r) (JObj [])) ''owner_admin_id''
      | None \<Rightarrow> jget (jor (dp_payload_snapshot r) (JObj [])) ''owner_admin_id'')"

definition note_or :: "string option \<Rightarrow> msg option \<Rightarrow> msg option" where
  "note_or note e = (case note of Some n \<Rightarrow> if n \<noteq> [] then Some (Text n) else e | None \<Rightarrow> e)"

definition reconciled_dispatch :: "time \<Rightarrow> int \<Rightarrow> reconcile_request \<Rightarrow> publish_dispatch \<Rightarrow> publish_dispatch" where
  "reconciled_dispatch now admin q r =
     (let r1 = r\<lparr>dp_reconciliation_result := Some (rq_decision q), dp_reconciliation_note := rq_note q,
                 dp_published_url := rq_published_url q, dp_reconciled_at := Some now,
                 dp_reconciled_by_admin_id := Some admin\<rparr> in
      if rq_decision q = ''published''
      then r1\<lparr>dp_status := ''published'', dp_last_error := None, dp_completed_at := Some now\<rparr>
      else if rq_decision q = ''not_published''
      then r1\<lparr>dp_status := ''failed'',
              dp_last_error := note_or (rq_note q) (Some (Lit ''confirmed not published'' [])),
              dp_completed_at := Some now, dp_article_publish_attempt_id := None\<rparr>
      else r1\<lparr>dp_status := ''uncertain'', dp_last_error := note_or (rq_note q) (dp_last_error r)\<rparr>)"

definition reconciled_attempt :: "time \<Rightarrow> int \<Rightarrow> reconcile_request \<Rightarrow> publish_attempt \<Rightarrow> publish_attempt" where
  "reconciled_attempt now admin q a =
     (let a1 = a\<lparr>pa_reconciliation_result := Some (rq_decision q), pa_reconciliation_note := rq_note q,
                 pa_published_url := rq_published_url q, pa_reconciled_at := Some now,
                 pa_reconciled_by_admin_id := Some admin\<rparr> in
      if rq_decision q = ''published''
      then a1\<lparr>pa_status := ''published'', pa_error := None, pa_completed_at := Some now\<rparr>
      else if rq_decision q = ''not_published''
      then a1\<lparr>pa_status := ''failed'',
              pa_error := note_or (rq_note q) (Some (Lit ''confirmed not published'' [])),
              pa_completed_at := Some now\<rparr>
      else a1)"

definition reconcile_dispatch :: "time \<Rightarrow> int \<Rightarrow> int \<Rightarrow> reconcile_request \<Rightarrow> db \<Rightarrow> api_error + db" where
  "reconcile_dispatch now admin i q d =
     (case dp_get i d of
        None \<Rightarrow> Inl (NotFound ''ai_publish_dispatch_not_found'')
      | Some r \<Rightarrow>
          (case row_get dr_id (dp_draft_id r) (drafts d) of
             None \<Rightarrow> Inl (NotFound ''article_not_found'')
           | Some draft \<Rightarrow>
               (if owner_of r \<noteq> JInt admin then Inl (Forbidden ''ai_publish_dispatch_forbidden'')
                else if dp_status r \<noteq> ''uncertain'' \<or> dp_channel r \<noteq> ''xhs''
                then Inl (Conflict ''ai_publish_dispatch_not_reconcilable'')
                else case attempt_of r d of
                  None \<Rightarrow> Inl (Conflict ''ai_publish_attempt_not_found'')
                | Some a \<Rightarrow>
                    (if pa_channel a \<noteq> ''xhs'' \<or> pa_article_id a \<noteq> dr_id draft
                     then Inl (Conflict ''ai_publish_attempt_not_found'')
                     else Inr (put_attempt (reconciled_attempt now admin q a)
                                 (put_dispatch (reconciled_dispatch now admin q r) d))))))"

subsection \<open>Links\<close>

lemma split1_Some: "split1 c s = (a, Some b) \<Longrightarrow> s = a @ c # b"
  by (induction c s arbitrary: a rule: split1.induct) (auto split: if_splits prod.splits)

lemma url_clean_id:
  assumes "\<forall>c \<in> set s. \<not> is_space c \<and> 32 \<le> code c"
  shows "url_clean s = s"
proof -
  have "32 < code c" if "c \<in> set s" for c
    using assms that by (fastforce simp: is_space_def)
  then have c: "\<forall>c \<in> set s. 32 < code c" by blast
  then have "dropWhile (\<lambda>c. code c \<le> 32) s = s" by (cases s) auto
  moreover have "filter (\<lambda>c. code c \<notin> {9, 10, 13}) s = s"
    using c by (intro filter_True) auto
  ultimately show ?thesis by (simp add: url_clean_def lstrip_by_def)
qed

lemma url_take_scheme_pre:
  "url_take_scheme s = (scheme, rest) \<Longrightarrow> scheme \<noteq> [] \<Longrightarrow>
    \<exists>pre. s = pre @ CHR '':'' # rest \<and> scheme = lower pre"
  by (auto simp: url_take_scheme_def dest: split1_Some split: prod.splits option.splits if_splits)

lemma url_hostname_netloc: "url_hostname u = Some h \<Longrightarrow> url_netloc u \<noteq> []"
  by (auto simp: url_hostname_def url_host_port_def url_hostinfo_def Let_def)

lemma url_username_at: "url_username u = None \<Longrightarrow> CHR ''@'' \<notin> set (url_netloc u)"
  by (auto simp: url_username_def url_userinfo_def split: if_splits)

lemma urlsplit_netloc:
  assumes "urlsplit bo s = Some u" and "url_take_scheme (url_clean s) = (scheme, rest)"
    and "url_netloc u \<noteq> []"
  shows "url_scheme u = scheme \<and> (\<exists>t. rest = CHR ''/'' # CHR ''/'' # t \<and>
    url_netloc u = takeWhile (\<lambda>c. c \<notin> {CHR ''/'', CHR ''?'', CHR ''#''}) t)"
proof -
  have "starts_with ''//'' rest"
    using assms by (auto simp: urlsplit_def Let_def split: prod.splits if_splits)
  then obtain t where "rest = CHR ''/'' # CHR ''/'' # t"
    by (cases rest; cases "tl rest") (auto simp: starts_with_def)
  then show ?thesis
    using assms by (auto simp: urlsplit_def Let_def starts_with_def split: prod.splits if_splits)
qed

lemma note_url_shape:
  assumes "note_url_ok bo s"
  shows "lower (take 8 s) = ''https://'' \<and> (\<forall>c \<in> set s. \<not> is_space c \<and> 32 \<le> code c) \<and>
    CHR ''@'' \<notin> set (takeWhile (\<lambda>c. c \<notin> {CHR ''/'', CHR ''?'', CHR ''#''}) (drop 8 s))"
proof -
  obtain u where u: "urlsplit bo s = Some u" using assms by (auto simp: note_url_ok_def split: option.splits)
  with assms have ok: "url_scheme u = ''https''" "url_username u = None"
      "note_host (case url_hostname u of None \<Rightarrow> [] | Some h \<Rightarrow> lower h) (url_path u)"
      "\<not> list_ex (\<lambda>c. is_space c \<or> code c < 32) s"
    by (simp_all add: note_url_ok_def Let_def)
  have chars: "\<forall>c \<in> set s. \<not> is_space c \<and> 32 \<le> code c"
    using ok(4) by (auto simp: list_ex_iff)
  obtain scheme rest where sr: "url_take_scheme s = (scheme, rest)" by (cases "url_take_scheme s")
  have "url_hostname u \<noteq> None" using ok(3)
    by (cases "url_hostname u") (simp_all add: note_host_def ends_with_def starts_with_def)
  then have net: "url_netloc u \<noteq> []" using url_hostname_netloc by blast
  from urlsplit_netloc[OF u _ net, unfolded url_clean_id[OF chars], OF sr] ok(1) obtain t where
    t: "scheme = ''https''" "rest = CHR ''/'' # CHR ''/'' # t"
      "url_netloc u = takeWhile (\<lambda>c. c \<notin> {CHR ''/'', CHR ''?'', CHR ''#''}) t" by auto
  from url_take_scheme_pre[OF sr] t(1) obtain pre where
    pre: "s = pre @ CHR '':'' # rest" "lower pre = ''https''" by auto
  then have "length pre = 5" using length_lower[of pre] by simp
  with pre t(2) have "take 8 s = pre @ ''://''" "drop 8 s = t" by simp_all
  with pre(2) chars url_username_at[OF ok(2)] t(3) show ?thesis
    by (simp add: lower_def is_upper_def code_def)
qed

subsection \<open>Table facts\<close>

lemma row_put_id:
  assumes "distinct (map key rows)" and "r \<in> set rows"
  shows "row_put key r rows = rows"
proof -
  have "(if key x = key r then r else x) = x" if "x \<in> set rows" for x
    using assms that by (auto simp: distinct_map inj_on_def)
  then show ?thesis unfolding row_put_def row_update_def by (intro map_idI)
qed

lemma dispatch_of_job_Some:
  "dispatch_of_job job d = Some r \<Longrightarrow> r \<in> set (dispatches d) \<and> dp_channel r = ''xhs'' \<and> dp_xhs_job_id r = Some job"
  by (auto simp: dispatch_of_job_def find_Some_iff)

lemma attempt_of_Some:
  "attempt_of r d = Some a \<Longrightarrow> a \<in> set (publish_attempts d) \<and> dp_article_publish_attempt_id r = Some (pa_attempt_id a)"
  by (auto simp: attempt_of_def pa_get_def dest: row_get_Some split: option.splits if_splits)

text \<open>What one application may touch.\<close>

lemma apply_cases:
  obtains (refused) "\<And>now. apply_xhs_job_result bo now job d = (d, False)"
  | (applied) res r a where "bj_get ''xhs'' job d = Some res" "bj_state res \<in> set final_states"
      "dispatch_of_job job d = Some r" "attempt_of r d = Some a" "applicable res r a"
      "\<And>now. apply_xhs_job_result bo now job d =
        (put_attempt (result_attempt bo now res a) (put_dispatch (result_dispatch bo now res r) d),
         result_changes bo res r)"
proof (cases "bj_get ''xhs'' job d")
  case None
  then show thesis using refused by (simp add: apply_xhs_job_result_def)
next
  case res: (Some res)
  show thesis
  proof (cases "bj_state res \<in> set final_states")
    case False
    with res show thesis using refused by (simp add: apply_xhs_job_result_def)
  next
    case final: True
    show thesis
    proof (cases "dispatch_of_job job d")
      case None
      with res final show thesis using refused by (simp add: apply_xhs_job_result_def)
    next
      case r: (Some r)
      show thesis
      proof (cases "attempt_of r d")
        case None
        with res final r show thesis using refused by (simp add: apply_xhs_job_result_def)
      next
        case a: (Some a)
        show thesis
        proof (cases "applicable res r a")
          case True
          with res final r a show thesis using applied by (simp add: apply_xhs_job_result_def)
        next
          case False
          with res final r a show thesis using refused by (simp add: apply_xhs_job_result_def)
        qed
      qed
    qed
  qed
qed

text \<open>A decided row: closed by a verified outcome, or by a human check.\<close>

definition decided :: "publish_dispatch \<Rightarrow> bool" where
  "decided r \<longleftrightarrow> dp_status r \<notin> set open_states \<or> dp_reconciled_at r \<noteq> None \<or>
     dp_reconciliation_result r \<noteq> None"

lemma apply_other:
  assumes "distinct (map dp_id (dispatches d))" and "dp_get i d = Some r"
    and "decided r \<or> dp_xhs_job_id r \<noteq> Some job"
  shows "dp_get i (fst (apply_xhs_job_result bo now job d)) = Some r"
proof (cases rule: apply_cases[of bo job d])
  case refused
  with assms(2) show ?thesis by simp
next
  case (applied res r0 a)
  note r0 = dispatch_of_job_Some[OF applied(3)]
  have "dp_id r0 \<noteq> i"
  proof
    assume "dp_id r0 = i"
    with row_get_unique[OF assms(1)] r0 assms(2) have "r0 = r" by (auto simp: dp_get_def)
    with assms(3) r0 applied(5) show False by (auto simp: decided_def applicable_def)
  qed
  with applied(6) assms(2) show ?thesis
    by (simp add: put_attempt_def put_dispatch_def dp_get_def row_get_put result_dispatch_def)
qed

text \<open>The tables of publications are keyed, as their primary keys demand.\<close>

definition pub_keys_ok :: "db \<Rightarrow> bool" where
  "pub_keys_ok d \<longleftrightarrow> distinct (map dp_id (dispatches d)) \<and> distinct (map pa_attempt_id (publish_attempts d))"

definition short_error :: "browser_job \<Rightarrow> bool" where
  "short_error res \<longleftrightarrow> (case bj_error res of None \<Rightarrow> True | Some e \<Rightarrow> clip 2000 e = e)"

lemma find_map_update:
  assumes "find P xs = Some x" and "\<And>y. y \<in> set xs \<Longrightarrow> P (f y) = P y"
  shows "find P (map f xs) = Some (f x)"
  using assms by (induction xs) (auto split: if_splits)

lemma applied_state:
  fixes bo now d res r a
  defines "d1 \<equiv> put_attempt (result_attempt bo now res a) (put_dispatch (result_dispatch bo now res r) d)"
  assumes keys: "pub_keys_ok d" and r: "dispatch_of_job job d = Some r" and a: "attempt_of r d = Some a"
  shows "dp_get (dp_id r) d1 = Some (result_dispatch bo now res r)"
    and "pa_get (pa_attempt_id a) d1 = Some (result_attempt bo now res a)"
    and "attempt_of (result_dispatch bo now res r) d1 = Some (result_attempt bo now res a)"
    and "dispatch_of_job job d1 = Some (result_dispatch bo now res r)"
    and "pub_keys_ok d1" and "browser_jobs d1 = browser_jobs d"
    and "result_dispatch bo now res r \<in> set (dispatches d1)"
    and "result_attempt bo now res a \<in> set (publish_attempts d1)"
proof -
  note rs = dispatch_of_job_Some[OF r] and as = attempt_of_Some[OF a]
  let ?r = "result_dispatch bo now res r" and ?a = "result_attempt bo now res a"
  have fr: "dp_id ?r = dp_id r" "dp_xhs_job_id ?r = Some job" "dp_channel ?r = ''xhs''"
      "dp_article_publish_attempt_id ?r = Some (pa_attempt_id a)" "pa_attempt_id ?a = pa_attempt_id a"
    using rs as by (simp_all add: result_dispatch_def result_attempt_def)
  have tabs: "dispatches d1 = row_put dp_id ?r (dispatches d)"
      "publish_attempts d1 = row_put pa_attempt_id ?a (publish_attempts d)"
    by (simp_all add: d1_def put_attempt_def put_dispatch_def)
  show g1: "dp_get (dp_id r) d1 = Some ?r"
    using rs by (simp add: dp_get_def tabs row_get_put fr)
  show g2: "pa_get (pa_attempt_id a) d1 = Some ?a"
    using as by (simp add: pa_get_def tabs row_get_put fr)
  show "attempt_of ?r d1 = Some ?a"
    using g2 as a by (simp add: attempt_of_def fr split: if_splits)
  show "pub_keys_ok d1" using keys by (simp add: pub_keys_ok_def tabs)
  show "browser_jobs d1 = browser_jobs d" by (simp add: d1_def put_attempt_def put_dispatch_def)
  show "?r \<in> set (dispatches d1)" using row_get_Some[OF g1[unfolded dp_get_def]] by simp
  show "?a \<in> set (publish_attempts d1)" using row_get_Some[OF g2[unfolded pa_get_def]] by simp
  have uniq: "y = r" if "y \<in> set (dispatches d)" "dp_id y = dp_id r" for y
    using that rs keys by (auto simp: pub_keys_ok_def distinct_map inj_on_def)
  let ?f = "\<lambda>x. if dp_id x = dp_id ?r then ?r else x"
  have "find (\<lambda>r. dp_channel r = ''xhs'' \<and> dp_xhs_job_id r = Some job) (map ?f (dispatches d)) = Some (?f r)"
  proof (rule find_map_update)
    fix y assume "y \<in> set (dispatches d)"
    then show "(dp_channel (?f y) = ''xhs'' \<and> dp_xhs_job_id (?f y) = Some job) =
        (dp_channel y = ''xhs'' \<and> dp_xhs_job_id y = Some job)"
      using uniq[of y] rs fr by (cases "dp_id y = dp_id r") simp_all
  qed (use r in \<open>simp add: dispatch_of_job_def\<close>)
  then show "dispatch_of_job job d1 = Some ?r"
    by (simp add: dispatch_of_job_def tabs row_put_def row_update_def fr(1))
qed

subsection \<open>Properties\<close>

definition sample_dispatch :: publish_dispatch where
  "sample_dispatch = \<lparr>dp_id = 1, dp_job_id = 3, dp_draft_id = 4, dp_owner_admin_id = Some 1,
     dp_channel = ''xhs'', dp_status = ''reconciling'', dp_attempts = 1, dp_rejection_attempts = 0,
     dp_next_attempt_at = 0, dp_payload_snapshot = JObj [(''owner_admin_id'', JInt 1)],
     dp_article_publish_attempt_id = Some ''a1'', dp_xhs_job_id = Some ''j1'', dp_last_error = None,
     dp_reconciliation_result = None, dp_reconciliation_note = None, dp_published_url = None,
     dp_reconciled_at = None, dp_reconciled_by_admin_id = None, dp_started_at = Some 90,
     dp_completed_at = None, dp_created_at = 0, dp_updated_at = 0\<rparr>"

definition sample_attempt :: publish_attempt where
  "sample_attempt = \<lparr>pa_attempt_id = ''a1'', pa_article_id = 4, pa_channel = ''xhs'',
     pa_status = ''queued'', pa_target_summary = Lit ''account of admin'' [''1''], pa_delivery_count = 1,
     pa_error = None, pa_reconciliation_result = None, pa_reconciliation_note = None,
     pa_published_url = None, pa_reconciled_at = None, pa_reconciled_by_admin_id = None,
     pa_started_at = Some 90, pa_completed_at = None, pa_created_at = 0, pa_updated_at = 0\<rparr>"

definition sample_pub_db :: db where
  "sample_pub_db = sample_jobs_db\<lparr>dispatches := [sample_dispatch], publish_attempts := [sample_attempt]\<rparr>"

lemma sample_pub_tables [simp]:
  "dispatches sample_pub_db = [sample_dispatch]" "publish_attempts sample_pub_db = [sample_attempt]"
  "browser_jobs sample_pub_db = [sample_final]"
  by (simp_all add: sample_pub_db_def)

text \<open>
  The note link that the program stores and shows is one of an HTTPS address
  without user information, whitespace or control characters, of at most 2048
  characters, whatever the browser worker wrote into the result.
\<close>

theorem published_url_safe:
  assumes "published_url bo data = Some s"
  shows "lower (take 8 s) = ''https://'' \<and> length s \<le> 2048 \<and>
    (\<forall>c \<in> set s. \<not> is_space c \<and> 32 \<le> code c) \<and>
    CHR ''@'' \<notin> set (takeWhile (\<lambda>c. c \<notin> {CHR ''/'', CHR ''?'', CHR ''#''}) (drop 8 s))"
proof -
  from assms have "note_url_ok bo s" "length s \<le> 2048"
    by (auto simp: published_url_def Let_def split: json.splits if_splits)
  with note_url_shape show ?thesis by blast
qed

theorem published_url_safe_witness:
  "lower (take 8 ''HTTPS://xhslink.com/a'') = ''https://''"
proof -
  have "published_url (\<lambda>_. True) (JObj [(''url'', JStr ''HTTPS://xhslink.com/a'')]) =
      Some ''HTTPS://xhslink.com/a''"
    by code_simp
  from published_url_safe[OF this] show ?thesis by simp
qed

text \<open>
  A decision is final. A record that was published or failed, that a person
  has checked, or that a newer submission owns, is left exactly as it is by the
  result of any browser job, however often and whenever it is applied.
\<close>

theorem apply_keeps_decision:
  assumes "distinct (map dp_id (dispatches d))" and "dp_get i d = Some r"
    and "decided r \<or> dp_xhs_job_id r \<noteq> Some job"
  shows "dp_get i (fst (apply_xhs_job_result bo now job d)) = Some r"
  using assms by (rule apply_other)

theorem apply_keeps_decision_witness:
  "dp_get 1 (fst (apply_xhs_job_result (\<lambda>_. True) 500 ''j0'' sample_pub_db)) = Some sample_dispatch"
  by (rule apply_keeps_decision) (simp_all add: dp_get_def row_get_def sample_dispatch_def)

text \<open>
  The record takes over exactly the verdict of the journal. Applying the
  result of an open, unchecked submission closes it as published if and only if the
  worker verified success and as failed if and only if it verified failure, mirrors
  this in the attempt, stores a link only for a success, and keeps the submission's
  ids, attempt count and payload; no other record or attempt changes.
\<close>

theorem apply_takes_verdict:
  assumes "pub_keys_ok d" and "bj_get ''xhs'' job d = Some res" and "bj_state res \<in> set final_states"
    and "dispatch_of_job job d = Some r" and "attempt_of r d = Some a" and "applicable res r a"
  shows "\<exists>r' a'. dp_get (dp_id r) (fst (apply_xhs_job_result bo now job d)) = Some r' \<and>
    pa_get (pa_attempt_id a) (fst (apply_xhs_job_result bo now job d)) = Some a' \<and>
    (dp_status r' = ''published'' \<longleftrightarrow> bj_state res = ''succeeded'') \<and>
    (dp_status r' = ''failed'' \<longleftrightarrow> bj_state res = ''failed'') \<and>
    (pa_status a' = ''published'' \<longleftrightarrow> bj_state res = ''succeeded'') \<and>
    (dp_published_url r' \<noteq> None \<longrightarrow> bj_state res = ''succeeded'') \<and>
    dp_xhs_job_id r' = Some job \<and> dp_attempts r' = dp_attempts r \<and>
    dp_payload_snapshot r' = dp_payload_snapshot r \<and>
    (\<forall>i. i \<noteq> dp_id r \<longrightarrow> dp_get i (fst (apply_xhs_job_result bo now job d)) = dp_get i d) \<and>
    (\<forall>i. i \<noteq> pa_attempt_id a \<longrightarrow> pa_get i (fst (apply_xhs_job_result bo now job d)) = pa_get i d)"
proof -
  let ?d1 = "put_attempt (result_attempt bo now res a) (put_dispatch (result_dispatch bo now res r) d)"
  have e: "fst (apply_xhs_job_result bo now job d) = ?d1"
    using assms by (simp add: apply_xhs_job_result_def)
  have other: "i \<noteq> dp_id r \<Longrightarrow> dp_get i ?d1 = dp_get i d" for i
    by (simp add: dp_get_def put_attempt_def put_dispatch_def row_get_put result_dispatch_def)
  have other2: "i \<noteq> pa_attempt_id a \<Longrightarrow> pa_get i ?d1 = pa_get i d" for i
    by (simp add: pa_get_def put_attempt_def put_dispatch_def row_get_put result_attempt_def)
  have st: "bj_state res \<noteq> ''published''" using assms(3) by (auto simp: final_states_def)
  have fields: "dp_status (result_dispatch bo now res r) = result_status res"
      "pa_status (result_attempt bo now res a) =
        (if result_status res = ''published'' then ''published'' else ''failed'')"
      "dp_published_url (result_dispatch bo now res r) = result_url bo res"
      "dp_xhs_job_id (result_dispatch bo now res r) = Some job"
      "dp_attempts (result_dispatch bo now res r) = dp_attempts r"
      "dp_payload_snapshot (result_dispatch bo now res r) = dp_payload_snapshot r"
    using dispatch_of_job_Some[OF assms(4)] by (simp_all add: result_dispatch_def result_attempt_def)
  have "result_status res = ''published'' \<longleftrightarrow> bj_state res = ''succeeded''"
      "result_status res = ''failed'' \<longleftrightarrow> bj_state res = ''failed''"
      "result_url bo res \<noteq> None \<longrightarrow> bj_state res = ''succeeded''"
    using st by (auto simp: result_status_def result_url_def)
  with applied_state(1,2)[OF assms(1,4,5), of bo now res] show ?thesis unfolding e
    by (intro exI[of _ "result_dispatch bo now res r"] exI[of _ "result_attempt bo now res a"])
      (simp only: fields, simp add: other other2)
qed

theorem apply_takes_verdict_witness:
  "\<exists>r'. dp_get 1 (fst (apply_xhs_job_result (\<lambda>_. True) 500 ''j1'' sample_pub_db)) = Some r' \<and>
    dp_status r' = ''published''"
proof -
  have "dp_id sample_dispatch = 1" by (simp add: sample_dispatch_def)
  moreover have "pub_keys_ok sample_pub_db" by (simp add: pub_keys_ok_def)
  moreover have get: "bj_get ''xhs'' ''j1'' sample_pub_db = Some sample_final"
    by (simp add: bj_get_def row_get_def)
  moreover have "bj_state sample_final \<in> set final_states" by (simp add: final_states_def)
  moreover have "dispatch_of_job ''j1'' sample_pub_db = Some sample_dispatch"
    by (simp add: dispatch_of_job_def sample_dispatch_def)
  moreover have "attempt_of sample_dispatch sample_pub_db = Some sample_attempt"
    by (simp add: attempt_of_def pa_get_def row_get_def sample_dispatch_def sample_attempt_def)
  moreover have "applicable sample_final sample_dispatch sample_attempt"
    by (simp add: applicable_def sample_dispatch_def sample_attempt_def open_states_def
        sample_final_def sample_job_def new_job_def)
  ultimately show ?thesis
    using apply_takes_verdict[of sample_pub_db "''j1''" sample_final sample_dispatch sample_attempt
        "\<lambda>_. True" 500] by auto
qed

text \<open>
  Repeated callbacks are harmless. In a consistent journal, once the result of
  a job was applied, applying it again at any later time changes nothing and reports
  that nothing changed.
\<close>

theorem apply_idempotent:
  assumes "pub_keys_ok d" and "journal_ok d"
    and "\<And>res. bj_get ''xhs'' job d = Some res \<Longrightarrow> short_error res"
  shows "apply_xhs_job_result bo t2 job (fst (apply_xhs_job_result bo t1 job d)) =
    (fst (apply_xhs_job_result bo t1 job d), False)"
proof (cases rule: apply_cases[of bo job d])
  case refused
  then show ?thesis by simp
next
  case (applied res r a)
  let ?d1 = "put_attempt (result_attempt bo t1 res a) (put_dispatch (result_dispatch bo t1 res r) d)"
  note d1 = applied_state[OF assms(1) applied(3,4), of bo t1 res]
  have get: "bj_get ''xhs'' job ?d1 = Some res" using d1(6) applied(1) by (simp add: bj_get_def)
  show ?thesis
  proof (cases "applicable res (result_dispatch bo t1 res r) (result_attempt bo t1 res a)")
    case False
    then show ?thesis unfolding applied(6) fst_conv
      by (simp add: apply_xhs_job_result_def get applied(2) d1(3,4))
  next
    case True
    have "bj_completed_at res \<noteq> None"
      using journal_get[OF assms(2) applied(1)] applied(2) by (simp add: notified_ok_def)
    then have "result_time t2 res = result_time t1 res" by (auto simp: result_time_def)
    then have same: "result_dispatch bo t2 res (result_dispatch bo t1 res r) = result_dispatch bo t1 res r"
        "result_attempt bo t2 res (result_attempt bo t1 res a) = result_attempt bo t1 res a"
      by (simp_all add: result_dispatch_def result_attempt_def)
    have keys: "distinct (map dp_id (dispatches ?d1))" "distinct (map pa_attempt_id (publish_attempts ?d1))"
      using d1(5) by (simp_all add: pub_keys_ok_def)
    have "put_dispatch (result_dispatch bo t1 res r) ?d1 = ?d1"
      unfolding put_dispatch_def[of _ ?d1] row_put_id[OF keys(1) d1(7)] by simp
    moreover have "put_attempt (result_attempt bo t1 res a) ?d1 = ?d1"
      unfolding put_attempt_def[of _ ?d1] row_put_id[OF keys(2) d1(8)] by simp
    moreover have "\<not> result_changes bo res (result_dispatch bo t1 res r)"
      using assms(3)[OF applied(1)]
      by (auto simp: result_changes_def result_dispatch_def clip_error_def result_error_def short_error_def
          split: option.splits)
    ultimately show ?thesis unfolding applied(6) fst_conv
      by (simp add: apply_xhs_job_result_def get applied(2) d1(3,4) True same)
  qed
qed

theorem apply_idempotent_witness:
  "snd (apply_xhs_job_result (\<lambda>_. True) 600 ''j1'' (fst (apply_xhs_job_result (\<lambda>_. True) 500 ''j1'' sample_pub_db))) = False"
proof -
  have "pub_keys_ok sample_pub_db" by (simp add: pub_keys_ok_def)
  moreover have "journal_ok sample_pub_db"
    by (simp add: journal_ok_def notified_ok_def final_states_def) (simp add: sample_final_def)
  moreover have "short_error res" if "bj_get ''xhs'' ''j1'' sample_pub_db = Some res" for res
    using that sample_final_outcome by (simp add: bj_get_def row_get_def short_error_def outcome_def)
  ultimately show ?thesis using apply_idempotent[of sample_pub_db "''j1''" "\<lambda>_. True" 600 500] by simp
qed

end
