(* ===== verification/ArticleMedia.thy ===== *)
theory ArticleMedia
  imports Tables Samples PyText
begin

text \<open>
  The images of articles, \<open>backend/app/services/article_media.py\<close>, and the check
  of upload sources in \<open>xhs_client.py\<close>. The upload volume is the list of its
  regular files by their name relative to \<open>ARTICLE_UPLOAD_DIR\<close>, with their sizes;
  it holds no symbolic links. The digest of a file is an argument.
\<close>

type_synonym volume = "(string \<times> nat) list"

definition source_copies_key :: string where
  "source_copies_key = ''source_screenshot_images''"

definition include_source_key :: string where
  "include_source_key = ''include_source_screenshot''"

definition max_article_image_bytes :: nat where
  "max_article_image_bytes = 10 * 1024 * 1024"

subsection \<open>Dictionaries\<close>

text \<open>\<open>{**d, k: v}\<close> and \<open>d.pop(k, None)\<close>; a dict keeps the place of a key.\<close>

fun jset :: "json \<Rightarrow> string \<Rightarrow> json \<Rightarrow> json" where
  "jset (JObj kvs) k v =
     JObj (if k \<in> fst ` set kvs then map (\<lambda>(a, b). if a = k then (a, v) else (a, b)) kvs
           else kvs @ [(k, v)])"
| "jset j k v = j"

fun jpop :: "json \<Rightarrow> string \<Rightarrow> json" where
  "jpop (JObj kvs) k = JObj (filter (\<lambda>(a, b). a \<noteq> k) kvs)"
| "jpop j k = j"

lemma map_of_map_set:
  "map_of (map (\<lambda>(a, b). if a = k then (a, v) else (a, b)) kvs) x =
    (if x = k \<and> k \<in> fst ` set kvs then Some v else map_of kvs x)"
proof (induction kvs)
  case (Cons p kvs)
  then show ?case by (cases p; cases "fst p = k"; cases "x = k") simp_all
qed simp

lemma jget_jset: "jget (jset (JObj kvs) k v) x = (if x = k then v else jget (JObj kvs) x)"
proof (cases "k \<in> fst ` set kvs")
  case True
  then show ?thesis by (simp add: map_of_map_set)
next
  case False
  then have "map_of kvs k = None" by (simp add: map_of_eq_None_iff)
  with False show ?thesis by (simp add: map_add_def split: option.splits)
qed

lemma map_of_filter_key: "map_of (filter (\<lambda>(a, b). a \<noteq> k) kvs) x = (if x = k then None else map_of kvs x)"
  by (induction kvs) auto

lemma jget_jpop: "jget (jpop j k) x = (if x = k then JNull else jget j x)"
  by (cases j) (simp_all add: map_of_filter_key)

lemma is_dict_jset [simp]: "is_dict (jset j k v) = is_dict j"
  by (cases j) simp_all

lemma is_dict_jpop [simp]: "is_dict (jpop j k) = is_dict j"
  by (cases j) simp_all

subsection \<open>Screenshot copies\<close>

text \<open>\<open>[0-9]+/source-<id>-[a-f0-9]{64}\.png\<close>\<close>

definition copy_name_ok :: "int \<Rightarrow> string \<Rightarrow> bool" where
  "copy_name_ok article img \<longleftrightarrow>
     (let ds = takeWhile is_digit img; rest = dropWhile is_digit img;
          pre = ''/source-'' @ show_int article @ ''-''; t = drop (length pre) rest in
      ds \<noteq> [] \<and> starts_with pre rest \<and> length t = 68 \<and> list_all is_lower_hex (take 64 t) \<and>
      drop 64 t = ''.png'')"

fun json_strings :: "json list \<Rightarrow> string list" where
  "json_strings [] = []"
| "json_strings (JStr s # js) = s # json_strings js"
| "json_strings (_ # js) = json_strings js"

definition screenshot_copy_names :: "int \<Rightarrow> json \<Rightarrow> string list" where
  "screenshot_copy_names article metadata =
     (let candidates = jget_or (jor metadata (JObj [])) source_copies_key (JList []) in
      if is_list candidates then filter (copy_name_ok article) (json_strings (jlist candidates)) else [])"

definition article_screenshot_copies :: "draft \<Rightarrow> string list" where
  "article_screenshot_copies a = screenshot_copy_names (dr_id a) (dr_draft_metadata a)"

definition article_includes_source_screenshot :: "draft \<Rightarrow> bool" where
  "article_includes_source_screenshot a \<longleftrightarrow>
     jget (jor (dr_draft_metadata a) (JObj [])) include_source_key \<noteq> JBool False"

definition preserve_article_media_metadata :: "draft option \<Rightarrow> json \<Rightarrow> json" where
  "preserve_article_media_metadata article metadata =
     (let r0 = (if metadata = JNull then JNull else jpop (jpop metadata source_copies_key) include_source_key) in
      case article of
        None \<Rightarrow> r0
      | Some a \<Rightarrow>
          (let copies = article_screenshot_copies a;
               r1 = (if copies \<noteq> [] then jset (jor r0 (JObj [])) source_copies_key (JList (map JStr copies)) else r0)
           in case jget (jor (dr_draft_metadata a) (JObj [])) include_source_key of
                JBool b \<Rightarrow> jset (jor r1 (JObj [])) include_source_key (JBool b)
              | _ \<Rightarrow> r1))"

subsection \<open>Paths\<close>

text \<open>The parts of a \<open>Path\<close>: empty and dot components do not count.\<close>

definition path_parts :: "string \<Rightarrow> string list" where
  "path_parts s = filter (\<lambda>p. p \<noteq> [] \<and> p \<noteq> ''.'') (split_on CHR ''/'' s)"

definition is_file :: "volume \<Rightarrow> string \<Rightarrow> bool" where
  "is_file vol rel \<longleftrightarrow> rel \<in> fst ` set vol"

definition article_image_path :: "string \<Rightarrow> int option \<Rightarrow> volume \<Rightarrow> string option" where
  "article_image_path img admin vol =
     (let parts = path_parts img in
      if starts_with ''/'' img \<or> ''..'' \<in> set parts \<or> length parts \<noteq> 2 then None
      else if admin \<noteq> None \<and> parts ! 0 \<noteq> show_int (the admin) then None
      else let rel = parts ! 0 @ ''/'' @ parts ! 1 in if is_file vol rel then Some rel else None)"

definition write_article_image :: "string \<Rightarrow> nat \<Rightarrow> volume \<Rightarrow> volume" where
  "write_article_image rel bytes vol = (rel, bytes) # filter (\<lambda>(n, _). n \<noteq> rel) vol"

definition snapshot_name :: "int \<Rightarrow> int \<Rightarrow> string \<Rightarrow> string" where
  "snapshot_name admin article digest =
     show_int admin @ ''/source-'' @ show_int article @ ''-'' @ digest @ ''.png''"

text \<open>
  \<open>write_error\<close> is an \<open>OSError\<close> of the copy; the temporary file is then removed.
\<close>

definition snapshot_article_screenshot :: "string \<Rightarrow> nat \<Rightarrow> msg option \<Rightarrow> int \<Rightarrow> int \<Rightarrow> volume \<Rightarrow>
    volume \<times> (msg + string)" where
  "snapshot_article_screenshot digest bytes write_error article admin vol =
     (let img = snapshot_name admin article digest in
      if article_image_path img (Some admin) vol \<noteq> None then (vol, Inr img)
      else case write_error of
             Some e \<Rightarrow> (vol, Inl e)
           | None \<Rightarrow> (write_article_image img bytes vol, Inr img))"

definition delete_article_image :: "string \<Rightarrow> volume \<Rightarrow> volume" where
  "delete_article_image img vol =
     (case article_image_path img None vol of
        None \<Rightarrow> vol
      | Some rel \<Rightarrow> filter (\<lambda>(n, _). n \<noteq> rel) vol)"

definition clear_article_images :: "string list \<Rightarrow> volume \<Rightarrow> volume" where
  "clear_article_images images vol = fold delete_article_image images vol"

definition referenced_images :: "db \<Rightarrow> string list" where
  "referenced_images d =
     concat (map (\<lambda>a. dr_images a @ screenshot_copy_names (dr_id a) (dr_draft_metadata a)) (drafts d))"

definition clear_unreferenced_article_images :: "string list \<Rightarrow> db \<Rightarrow> volume \<Rightarrow> volume" where
  "clear_unreferenced_article_images candidates d vol =
     clear_article_images (filter (\<lambda>i. i \<notin> set (referenced_images d)) candidates) vol"

subsection \<open>Sources of an upload\<close>

text \<open>\<open>Path.suffix\<close> of the last component, lower-cased.\<close>

definition path_suffix :: "string \<Rightarrow> string" where
  "path_suffix name =
     (let ext = rev (takeWhile (\<lambda>c. c \<noteq> CHR ''.'') (rev name));
          stem = length name - length ext in
      if stem \<le> 1 \<or> ext = [] then [] else CHR ''.'' # ext)"

definition allowed_image_suffixes :: "string list" where
  "allowed_image_suffixes = [''.jpg'', ''.jpeg'', ''.png'', ''.webp'']"

text \<open>For a file of the upload volume named as \<open>article_image_path\<close> names it.\<close>

definition validated_source :: "string \<Rightarrow> int \<Rightarrow> volume \<Rightarrow> msg + string" where
  "validated_source rel admin vol =
     (if \<not> starts_with (show_int admin @ ''/'') rel then Inl (Lit ''image path is invalid'' [])
      else if lower (path_suffix (last (split_on CHR ''/'' rel))) \<notin> set allowed_image_suffixes \<or>
              \<not> is_file vol rel
      then Inl (Lit ''image format or file is invalid'' [])
      else case map_of vol rel of
             Some bytes \<Rightarrow>
               (if bytes > max_article_image_bytes then Inl (Lit ''an image must not exceed 10MB'' [])
                else Inr rel)
           | None \<Rightarrow> Inl (Lit ''image format or file is invalid'' []))"

subsection \<open>Names and files\<close>

definition plain_part :: "string \<Rightarrow> bool" where
  "plain_part p \<longleftrightarrow> CHR ''/'' \<notin> set p \<and> p \<noteq> [] \<and> p \<noteq> ''.'' \<and> p \<noteq> ''..''"

text \<open>The names that the program generates: an owner, a slash, a file name.\<close>

definition canonical :: "string \<Rightarrow> bool" where
  "canonical img \<longleftrightarrow> (case split_on CHR ''/'' img of [a, b] \<Rightarrow> plain_part a \<and> plain_part b | _ \<Rightarrow> False)"

lemma split_on_plain: "c \<notin> set a \<Longrightarrow> split_on c a = [a]"
  by (induction a) auto

lemma split_on_append: "c \<notin> set a \<Longrightarrow> split_on c (a @ c # b) = a # split_on c b"
  by (induction a) auto

lemma canonical_append: "plain_part a \<Longrightarrow> plain_part b \<Longrightarrow> canonical (a @ ''/'' @ b)"
  by (simp add: canonical_def plain_part_def split_on_append split_on_plain)

lemma canonical_parts:
  assumes "canonical img"
  obtains a b where "img = a @ ''/'' @ b" "plain_part a" "plain_part b" "path_parts img = [a, b]"
proof -
  from assms obtain a b where sp: "split_on CHR ''/'' img = [a, b]" "plain_part a" "plain_part b"
    by (auto simp: canonical_def split: list.splits)
  have "img = a @ ''/'' @ b" using join_split_on[of "CHR ''/''" img] sp(1) by simp
  moreover have "path_parts img = [a, b]" using sp by (simp add: path_parts_def plain_part_def)
  ultimately show thesis using that sp(2,3) by blast
qed

lemma article_image_path_Some:
  assumes "article_image_path img admin vol = Some rel"
  shows "\<exists>a b. plain_part a \<and> plain_part b \<and> rel = a @ ''/'' @ b \<and> is_file vol rel \<and>
    (\<forall>i. admin = Some i \<longrightarrow> a = show_int i)"
proof -
  let ?ps = "path_parts img"
  from assms have ps: "length ?ps = 2" "''..'' \<notin> set ?ps"
      and r: "rel = ?ps ! 0 @ ''/'' @ ?ps ! 1" "is_file vol rel"
      and adm: "\<forall>i. admin = Some i \<longrightarrow> ?ps ! 0 = show_int i"
    by (auto simp: article_image_path_def Let_def split: if_splits)
  have "plain_part p" if "p \<in> set ?ps" for p
    using that ps(2) split_on_parts by (auto simp: plain_part_def path_parts_def)
  moreover have "?ps ! 0 \<in> set ?ps" "?ps ! 1 \<in> set ?ps" using ps(1) by auto
  ultimately show ?thesis using r adm by blast
qed

lemma article_image_path_canonical:
  assumes "canonical img"
  shows "article_image_path img None vol = (if is_file vol img then Some img else None)"
proof -
  from assms obtain a b where ab: "img = a @ ''/'' @ b" "plain_part a" "plain_part b" "path_parts img = [a, b]"
    by (rule canonical_parts)
  then have "\<not> starts_with ''/'' img" by (cases a) (auto simp: starts_with_def plain_part_def)
  with ab show ?thesis by (auto simp: article_image_path_def plain_part_def)
qed

lemma is_file_filter: "is_file (filter (\<lambda>(n, _). n \<noteq> img) vol) f \<longleftrightarrow> is_file vol f \<and> f \<noteq> img"
  by (induction vol) (auto simp: is_file_def)

lemma is_file_write: "is_file (write_article_image rel bytes vol) f \<longleftrightarrow> f = rel \<or> is_file vol f"
  using is_file_filter[of rel vol f] by (auto simp: write_article_image_def is_file_def)

lemma delete_canonical:
  "canonical img \<Longrightarrow> is_file (delete_article_image img vol) f \<longleftrightarrow> is_file vol f \<and> f \<noteq> img"
proof -
  assume "canonical img"
  then show ?thesis
    by (cases "is_file vol img") (auto simp: delete_article_image_def article_image_path_canonical is_file_filter)
qed

lemma clear_canonical:
  "\<forall>i \<in> set imgs. canonical i \<Longrightarrow>
    is_file (clear_article_images imgs vol) f \<longleftrightarrow> is_file vol f \<and> f \<notin> set imgs"
  unfolding clear_article_images_def by (induction imgs arbitrary: vol) (auto simp: delete_canonical)

lemma show_nat_not: "\<not> is_digit c \<Longrightarrow> c \<notin> set (show_nat n)"
  using show_nat_digits by blast

lemma show_int_plain: "plain_part (show_int i)"
proof -
  have "CHR ''/'' \<notin> set (show_int i)"
    by (simp add: show_int_def show_nat_not is_digit_def code_def)
  moreover have "show_int i \<noteq> CHR ''.'' # t" for t
  proof
    assume e: "show_int i = CHR ''.'' # t"
    have "CHR ''.'' \<notin> set (show_int i)"
      by (simp add: show_int_def show_nat_not is_digit_def code_def)
    with e show False by simp
  qed
  moreover have "show_int i \<noteq> []" by (simp add: show_int_def)
  ultimately show ?thesis unfolding plain_part_def by blast
qed

definition digest_ok :: "string \<Rightarrow> bool" where
  "digest_ok digest \<longleftrightarrow> length digest = 64 \<and> list_all is_lower_hex digest"

lemma snapshot_name_copy:
  assumes "digest_ok digest" and "0 \<le> admin"
  shows "copy_name_ok article (snapshot_name admin article digest)"
proof -
  define ds where "ds = show_int admin"
  define pre where "pre = ''/source-'' @ show_int article @ ''-''"
  define t where "t = digest @ ''.png''"
  have name: "snapshot_name admin article digest = ds @ pre @ t"
    by (simp add: snapshot_name_def ds_def pre_def t_def)
  have ds: "\<forall>c \<in> set ds. is_digit c" "ds \<noteq> []"
    using assms(2) show_nat_digits by (auto simp: ds_def show_int_def)
  have "\<not> is_digit (hd (pre @ t))" "pre @ t \<noteq> []" by (simp_all add: pre_def is_digit_def code_def)
  then have "takeWhile is_digit (pre @ t) = []" "dropWhile is_digit (pre @ t) = pre @ t"
    by (cases "pre @ t"; simp)+
  then have "takeWhile is_digit (ds @ pre @ t) = ds" "dropWhile is_digit (ds @ pre @ t) = pre @ t"
    using ds(1) by (simp_all add: takeWhile_append2 dropWhile_append2)
  moreover have "length t = 68" "list_all is_lower_hex (take 64 t)" "drop 64 t = ''.png''"
    using assms(1) by (simp_all add: t_def digest_ok_def)
  ultimately show ?thesis using ds(2)
    unfolding name copy_name_ok_def pre_def[symmetric] by (simp add: starts_with_def)
qed

lemma article_image_path_owned:
  assumes "plain_part b"
  shows "article_image_path (show_int admin @ ''/'' @ b) (Some admin) vol =
    (if is_file vol (show_int admin @ ''/'' @ b) then Some (show_int admin @ ''/'' @ b) else None)"
proof -
  let ?a = "show_int admin"
  have a: "plain_part ?a" by (rule show_int_plain)
  have parts: "path_parts (?a @ ''/'' @ b) = [?a, b]"
    using assms a by (simp add: path_parts_def plain_part_def split_on_append split_on_plain)
  have "\<not> starts_with ''/'' (?a @ ''/'' @ b)"
    using a by (cases ?a) (auto simp: starts_with_def plain_part_def)
  moreover have "''..'' \<notin> set [?a, b]" using a assms by (auto simp: plain_part_def)
  ultimately show ?thesis unfolding article_image_path_def parts Let_def by simp
qed

lemma snapshot_name_part:
  assumes "digest_ok digest"
  shows "plain_part (''source-'' @ show_int article @ ''-'' @ digest @ ''.png'')"
proof -
  have s: "CHR ''/'' \<notin> set (show_int i)" for i using show_int_plain by (simp add: plain_part_def)
  have d: "CHR ''/'' \<notin> set digest"
    using assms by (auto simp: digest_ok_def list_all_iff is_lower_hex_def is_digit_def code_def)
  from s d show ?thesis by (simp add: plain_part_def)
qed

lemma snapshot_name_split:
  "snapshot_name admin article digest =
    show_int admin @ ''/'' @ (''source-'' @ show_int article @ ''-'' @ digest @ ''.png'')"
  by (simp add: snapshot_name_def)

lemma snapshot_name_canonical: "digest_ok digest \<Longrightarrow> canonical (snapshot_name admin article digest)"
  unfolding snapshot_name_split by (rule canonical_append[OF show_int_plain snapshot_name_part])

lemma snapshot_name_path:
  "digest_ok digest \<Longrightarrow>
    article_image_path (snapshot_name admin article digest) (Some admin) vol =
    (if is_file vol (snapshot_name admin article digest) then Some (snapshot_name admin article digest) else None)"
  unfolding snapshot_name_split by (rule article_image_path_owned[OF snapshot_name_part])

subsection \<open>Properties\<close>

text \<open>
  A media name cannot leave the folder of its account. Whatever name an
  article carries, the path resolved for an account is a file of the volume directly
  inside that account's folder.
\<close>

theorem image_path_confined:
  assumes "article_image_path img (Some admin) vol = Some rel"
  shows "\<exists>name. rel = show_int admin @ ''/'' @ name \<and> CHR ''/'' \<notin> set name \<and> name \<noteq> ''..'' \<and>
    rel \<in> fst ` set vol"
  using article_image_path_Some[OF assms] by (auto simp: plain_part_def is_file_def)

theorem image_path_confined_witness:
  "\<exists>name. ''1/a.png'' = show_int 1 @ ''/'' @ name \<and> CHR ''/'' \<notin> set name"
proof -
  have "article_image_path ''./1//a.png'' (Some 1) [(''1/a.png'', 10)] = Some ''1/a.png''" by code_simp
  from image_path_confined[OF this] show ?thesis by blast
qed

text \<open>
  Cleaning up never breaks an article. When the candidates are names as the
  program generates them, a file that some article shows or tracks as a screenshot
  copy stays, and every removed file is one of the candidates.
\<close>

theorem clear_keeps_referenced:
  assumes "\<forall>i \<in> set candidates. canonical i"
  shows "is_file (clear_unreferenced_article_images candidates d vol) f \<longleftrightarrow>
    is_file vol f \<and> (f \<in> set (referenced_images d) \<or> f \<notin> set candidates)"
  using assms by (auto simp: clear_unreferenced_article_images_def clear_canonical)

theorem clear_keeps_referenced_witness:
  "is_file (clear_unreferenced_article_images [''1/a.png'', ''1/b.png'']
     (empty_db\<lparr>drafts := [sample_draft\<lparr>dr_images := [''1/a.png'']\<rparr>]\<rparr>) [(''1/a.png'', 3), (''1/b.png'', 4)]) ''1/a.png''"
proof -
  have "\<forall>i \<in> set [''1/a.png'', ''1/b.png'']. canonical i" by (simp add: canonical_def plain_part_def)
  from clear_keeps_referenced[OF this] show ?thesis by (simp add: referenced_images_def is_file_def)
qed

text \<open>
  The restriction to generated names matters. Article editing accepts any name that
  resolves to a file of the account, and \<open>1//a.png\<close> resolves to the file
  \<open>1/a.png\<close> without being the same text: deleting an article with the alias
  removes the file of an article with the plain name.
\<close>

lemma alias_breaks_article:
  "let d = empty_db\<lparr>drafts := [sample_draft\<lparr>dr_images := [''1/a.png'']\<rparr>]\<rparr>; vol = [(''1/a.png'', 3)] in
   article_image_path ''1//a.png'' (Some 1) vol = Some ''1/a.png'' \<and>
   ''1/a.png'' \<in> set (referenced_images d) \<and>
   clear_unreferenced_article_images [''1//a.png''] d vol = []"
proof -
  have p: "article_image_path ''1//a.png'' (Some 1) [(''1/a.png'', 3)] = Some ''1/a.png''"
    "article_image_path ''1//a.png'' None [(''1/a.png'', 3)] = Some ''1/a.png''" by code_simp+
  have "referenced_images (empty_db\<lparr>drafts := [sample_draft\<lparr>dr_images := [''1/a.png'']\<rparr>]\<rparr>) = [''1/a.png'']"
    by (simp add: referenced_images_def screenshot_copy_names_def sample_draft_def jor_def)
  then show ?thesis
    by (simp add: p clear_unreferenced_article_images_def clear_article_images_def delete_article_image_def Let_def)
qed

text \<open>
  Only the article editor changes media preferences. Whatever metadata a
  generation run returns, the stored result tracks exactly the copies the article
  had, has its preference exactly if it had one, and takes every other key from the
  new metadata.
\<close>

theorem preserve_media_metadata:
  assumes "md = JNull \<or> is_dict md"
  shows "jget (preserve_article_media_metadata (Some a) md) source_copies_key =
      (if article_screenshot_copies a = [] then JNull else JList (map JStr (article_screenshot_copies a))) \<and>
    jget (preserve_article_media_metadata (Some a) md) include_source_key =
      (case jget (jor (dr_draft_metadata a) (JObj [])) include_source_key of JBool b \<Rightarrow> JBool b | _ \<Rightarrow> JNull) \<and>
    (\<forall>k. k \<noteq> source_copies_key \<and> k \<noteq> include_source_key \<longrightarrow>
      jget (preserve_article_media_metadata (Some a) md) k = jget md k)"
proof -
  have ne: "source_copies_key \<noteq> include_source_key" by (simp add: source_copies_key_def include_source_key_def)
  have jor_dict: "\<exists>kvs. jor j (JObj []) = JObj kvs \<and> (\<forall>k. jget (JObj kvs) k = jget j k)"
    if "j = JNull \<or> is_dict j" for j
    using that by (cases j) (auto simp: jor_def)
  have set_get: "jget (jset (jor j (JObj [])) x v) k = (if k = x then v else jget j k)"
    if "j = JNull \<or> is_dict j" for j x v k
  proof -
    from jor_dict[OF that] obtain kvs where
      e: "jor j (JObj []) = JObj kvs" "\<forall>k. jget (JObj kvs) k = jget j k" by blast
    show ?thesis unfolding e(1) jget_jset using e(2) by simp
  qed
  have set_dict: "is_dict (jset (jor j (JObj [])) x v)" if "j = JNull \<or> is_dict j" for j x v
    using jor_dict[OF that] by auto
  define r0 where "r0 = (if md = JNull then JNull else jpop (jpop md source_copies_key) include_source_key)"
  define r1 where "r1 = (if article_screenshot_copies a \<noteq> []
    then jset (jor r0 (JObj [])) source_copies_key (JList (map JStr (article_screenshot_copies a))) else r0)"
  have r0: "r0 = JNull \<or> is_dict r0" using assms by (auto simp: r0_def)
  then have r1: "r1 = JNull \<or> is_dict r1" using set_dict by (auto simp: r1_def)
  have g0: "jget r0 k = (if k \<in> {source_copies_key, include_source_key} then JNull else jget md k)" for k
    by (auto simp: r0_def jget_jpop)
  have g1: "jget r1 k = (if k = source_copies_key then
      (if article_screenshot_copies a = [] then JNull else JList (map JStr (article_screenshot_copies a)))
      else jget r0 k)" for k
    using set_get[OF r0] g0[of source_copies_key] by (auto simp: r1_def)
  have "preserve_article_media_metadata (Some a) md =
    (case jget (jor (dr_draft_metadata a) (JObj [])) include_source_key of
       JBool b \<Rightarrow> jset (jor r1 (JObj [])) include_source_key (JBool b) | _ \<Rightarrow> r1)"
    by (simp only: preserve_article_media_metadata_def Let_def option.case r0_def[symmetric] r1_def[symmetric])
  then show ?thesis using ne by (auto simp: set_get[OF r1] g1 g0 split: json.splits)
qed

theorem preserve_media_metadata_witness:
  "jget (preserve_article_media_metadata (Some (sample_draft\<lparr>dr_draft_metadata :=
     JObj [(include_source_key, JBool False)]\<rparr>)) JNull) include_source_key = JBool False"
  using preserve_media_metadata[of JNull "sample_draft\<lparr>dr_draft_metadata := JObj [(include_source_key, JBool False)]\<rparr>"]
  by (simp add: jor_def)

text \<open>
  A publish copy is tracked from the start. After a screenshot was copied for
  an account, the name stored in the article resolves to the copy, has the form that
  the clean-up recognises as a copy of this article, and no other file was lost.
\<close>

theorem snapshot_tracked:
  assumes "digest_ok digest" and "0 \<le> admin"
    and "snapshot_article_screenshot digest bytes err article admin vol = (vol', Inr img)"
  shows "article_image_path img (Some admin) vol' = Some img \<and> copy_name_ok article img \<and>
    canonical img \<and> (\<forall>f. is_file vol f \<longrightarrow> is_file vol' f)"
proof -
  have img: "img = snapshot_name admin article digest"
    using assms(3) by (auto simp: snapshot_article_screenshot_def Let_def split: if_splits option.splits)
  note path = snapshot_name_path[OF assms(1), of admin article, folded img]
  have "is_file vol' img \<and> (\<forall>f. is_file vol f \<longrightarrow> is_file vol' f)"
  proof (cases "is_file vol img")
    case True
    with assms(3) path[of vol] have "vol' = vol"
      by (simp add: snapshot_article_screenshot_def img[symmetric] Let_def)
    with True show ?thesis by simp
  next
    case False
    with assms(3) path[of vol] have "vol' = write_article_image img bytes vol"
      by (simp add: snapshot_article_screenshot_def img[symmetric] Let_def split: option.splits)
    then show ?thesis by (simp add: is_file_write)
  qed
  with path[of vol'] snapshot_name_copy[OF assms(1,2)] snapshot_name_canonical[OF assms(1)] show ?thesis
    by (simp add: img)
qed

theorem snapshot_tracked_witness:
  "copy_name_ok 4 (snapshot_name 1 4 (replicate 64 CHR ''a''))"
proof -
  define g where "g = replicate 64 CHR ''a''"
  have g: "digest_ok g" unfolding g_def by (simp add: digest_ok_def list_all_iff is_lower_hex_def code_def)
  have "article_image_path (snapshot_name 1 4 g) (Some 1) [] = None"
    by (simp add: article_image_path_def is_file_def Let_def)
  then have "snapshot_article_screenshot g 10 None 4 1 [] =
      (write_article_image (snapshot_name 1 4 g) 10 [], Inr (snapshot_name 1 4 g))"
    by (simp add: snapshot_article_screenshot_def Let_def)
  from snapshot_tracked[OF g _ this] show ?thesis unfolding g_def by simp
qed

end
