(* ===== verification/QQText.thy ===== *)
theory QQText
  imports PyText
begin

text \<open>
  The message splitting of \<open>backend/app/services/qq_notifications.py\<close>:
  \<open>split_qq_text\<close> cuts one long text, \<open>chunk_qq_messages\<close> packs short
  ones. A text is a list of characters; the limit is an argument as in the code.
\<close>

definition qq_message_max_chars :: nat where
  "qq_message_max_chars = 2000"

subsection \<open>Lines\<close>

text \<open>The line boundaries of \<open>str.splitlines\<close> below code 256; CR LF is one.\<close>

definition is_break :: "char \<Rightarrow> bool" where
  "is_break c \<longleftrightarrow> (10 \<le> code c \<and> code c \<le> 13) \<or> (28 \<le> code c \<and> code c \<le> 30) \<or> code c = 133"

fun splitlines_keep :: "string \<Rightarrow> string list" where
  "splitlines_keep [] = []"
| "splitlines_keep [c] = [[c]]"
| "splitlines_keep (c # d # s) =
     (if code c = 13 \<and> code d = 10 then [c, d] # splitlines_keep s
      else if is_break c then [c] # splitlines_keep (d # s)
      else case splitlines_keep (d # s) of [] \<Rightarrow> [[c]] | l # ls \<Rightarrow> (c # l) # ls)"

lemma splitlines_keep_nonempty [simp]: "splitlines_keep (c # s) \<noteq> []"
  by (cases s) (auto split: list.splits)

lemma concat_splitlines_keep: "concat (splitlines_keep s) = s"
  by (induction s rule: splitlines_keep.induct) (auto split: list.splits)

subsection \<open>Splitting a text\<close>

text \<open>The \<open>while\<close> loop that cuts a paragraph: the full chunks and the rest.\<close>

function cut_paragraph :: "nat \<Rightarrow> string \<Rightarrow> string list \<times> string" where
  "cut_paragraph m p =
     (if m = 0 \<or> length p \<le> m then ([], p)
      else let (cs, rest) = cut_paragraph m (drop m p) in (take m p # cs, rest))"
  by auto
termination by (relation "measure (\<lambda>(m, p). length p)") auto

declare cut_paragraph.simps [simp del]

fun fill_chunks :: "nat \<Rightarrow> string list \<Rightarrow> string \<Rightarrow> string list" where
  "fill_chunks m [] current = (if current = [] then [] else [current])"
| "fill_chunks m (p # ps) current =
     (let full = (current \<noteq> [] \<and> m < length current + length p);
          (cs, rest) = cut_paragraph m p
      in (if full then [current] else []) @ cs @
         fill_chunks m ps ((if full then [] else current) @ rest))"

definition split_qq_text :: "nat \<Rightarrow> string \<Rightarrow> string list option" where
  "split_qq_text m text =
     (if m < 1 then None
      else Some (filter (\<lambda>c. c \<noteq> []) (fill_chunks m (splitlines_keep text) [])))"

subsection \<open>Packing messages\<close>

definition gap :: string where
  "gap = [CHR 0x0A, CHR 0x0A]"

fun chunk_loop :: "nat \<Rightarrow> string list \<Rightarrow> string \<Rightarrow> string list" where
  "chunk_loop m [] current = (if current = [] then [] else [current])"
| "chunk_loop m (x # xs) current =
     (let candidate = (if current = [] then x else current @ gap @ x) in
      if current \<noteq> [] \<and> m < length candidate then current # chunk_loop m xs x
      else chunk_loop m xs candidate)"

definition chunk_qq_messages :: "nat \<Rightarrow> string list \<Rightarrow> string list" where
  "chunk_qq_messages m messages = chunk_loop m messages []"

subsection \<open>Facts about the loops\<close>

lemma cut_short: "m = 0 \<or> length p \<le> m \<Longrightarrow> cut_paragraph m p = ([], p)"
  by (simp add: cut_paragraph.simps[of m p])

lemma cut_long:
  assumes "\<not> (m = 0 \<or> length p \<le> m)"
  shows "cut_paragraph m p =
    (take m p # fst (cut_paragraph m (drop m p)), snd (cut_paragraph m (drop m p)))"
  by (subst cut_paragraph.simps) (simp only: assms if_False Let_def split_beta)

lemma cut_paragraph_concat: "concat (fst (cut_paragraph m p)) @ snd (cut_paragraph m p) = p"
proof (induction m p rule: cut_paragraph.induct)
  case (1 m p)
  show ?case
  proof (cases "m = 0 \<or> length p \<le> m")
    case True
    then show ?thesis by (simp add: cut_short)
  next
    case False
    then show ?thesis using "1.IH"[OF False] by (simp add: cut_long[OF False])
  qed
qed

lemma cut_paragraph_sizes:
  "0 < m \<Longrightarrow> (\<forall>c \<in> set (fst (cut_paragraph m p)). length c = m) \<and> length (snd (cut_paragraph m p)) \<le> m"
proof (induction m p rule: cut_paragraph.induct)
  case (1 m p)
  show ?case
  proof (cases "m = 0 \<or> length p \<le> m")
    case True
    with "1.prems" show ?thesis by (simp add: cut_short)
  next
    case False
    then show ?thesis using "1.IH"[OF False "1.prems"] by (simp add: cut_long[OF False])
  qed
qed

text \<open>One iteration over a paragraph, split by the two tests of the loop.\<close>

lemma fill_chunks_step:
  obtains (flush) "current \<noteq> []"
      "fill_chunks m (p # ps) current = current # fst (cut_paragraph m p) @ fill_chunks m ps (snd (cut_paragraph m p))"
  | (fits) "current \<noteq> []" "length current + length p \<le> m"
      "fill_chunks m (p # ps) current = fill_chunks m ps (current @ p)"
  | (start) "current = []"
      "fill_chunks m (p # ps) current = fst (cut_paragraph m p) @ fill_chunks m ps (snd (cut_paragraph m p))"
proof (cases "current = []")
  case True
  then show thesis using start by (simp add: split_beta)
next
  case False
  show thesis
  proof (cases "m < length current + length p")
    case True
    with False show thesis using flush by (simp add: split_beta)
  next
    case fit: False
    then have "cut_paragraph m p = ([], p)" by (intro cut_short) linarith
    with False fit show thesis using fits by simp
  qed
qed

lemma fill_chunks_concat: "concat (fill_chunks m ps current) = current @ concat ps"
proof (induction ps arbitrary: current)
  case (Cons p ps)
  have p: "concat (fst (cut_paragraph m p)) @ snd (cut_paragraph m p) @ t = p @ t" for t
    using cut_paragraph_concat[of m p] by (metis append.assoc)
  show ?case
  proof (cases rule: fill_chunks_step[of current m p ps])
    case flush
    then show ?thesis unfolding flush(2) by (simp add: Cons.IH p)
  next
    case fits
    then show ?thesis unfolding fits(3) by (simp add: Cons.IH)
  next
    case start
    then show ?thesis unfolding start(2) by (simp add: Cons.IH p)
  qed
qed simp

lemma fill_chunks_sizes:
  assumes "0 < m"
  shows "length current \<le> m \<Longrightarrow> \<forall>c \<in> set (fill_chunks m ps current). length c \<le> m"
proof (induction ps arbitrary: current)
  case (Cons p ps)
  note sizes = cut_paragraph_sizes[OF assms, of p]
  note rest = Cons.IH[OF conjunct2[OF sizes]]
  show ?case
  proof (cases rule: fill_chunks_step[of current m p ps])
    case flush
    show ?thesis unfolding flush(2) using rest sizes Cons.prems by auto
  next
    case fits
    then show ?thesis unfolding fits(3) using Cons.IH[of "current @ p"] by simp
  next
    case start
    show ?thesis unfolding start(2) using rest sizes by auto
  qed
qed simp

lemma concat_filter_nonempty: "concat (filter (\<lambda>c. c \<noteq> []) xs) = concat xs"
  by (induction xs) auto

lemma chunk_loop_sizes:
  "length current \<le> m \<Longrightarrow> \<forall>x \<in> set xs. length x \<le> m \<Longrightarrow> \<forall>c \<in> set (chunk_loop m xs current). length c \<le> m"
  by (induction m xs current rule: chunk_loop.induct) (auto simp: Let_def)

lemma join_cons: "ws \<noteq> [] \<Longrightarrow> join sep (w # ws) = w @ sep @ join sep ws"
  by (cases ws) simp_all

lemma chunk_loop_nonempty: "current \<noteq> [] \<Longrightarrow> chunk_loop m xs current \<noteq> []"
  by (induction m xs current rule: chunk_loop.induct) (auto simp: Let_def)

lemma chunk_loop_join:
  "[] \<notin> set xs \<Longrightarrow> current \<noteq> [] \<Longrightarrow>
    join gap (chunk_loop m xs current) = join gap (current # xs)"
proof (induction m xs current rule: chunk_loop.induct)
  case (1 m current)
  then show ?case by simp
next
  case (2 m x xs current)
  then have x: "x \<noteq> []" by auto
  show ?case
  proof (cases "m < length (current @ gap @ x)")
    case True
    with 2 x show ?thesis by (simp add: join_cons chunk_loop_nonempty)
  next
    case False
    with 2 x show ?thesis by (cases xs) (simp_all add: join_cons)
  qed
qed

subsection \<open>Properties\<close>

text \<open>
  Splitting a text loses nothing and respects the limit. For every positive
  limit the chunks concatenate to the text, none is empty and none is longer than
  the limit; only a limit below one is refused.
\<close>

theorem split_qq_text_lossless:
  "(split_qq_text m text = None \<longleftrightarrow> m < 1) \<and>
   (\<forall>chunks. split_qq_text m text = Some chunks \<longrightarrow>
      concat chunks = text \<and> (\<forall>c \<in> set chunks. 0 < length c \<and> length c \<le> m))"
  using fill_chunks_sizes[of m "[]" "splitlines_keep text"]
  by (auto simp: split_qq_text_def concat_filter_nonempty fill_chunks_concat concat_splitlines_keep)

theorem split_qq_text_lossless_witness:
  "concat (the (split_qq_text 2 ''abcde'')) = ''abcde''"
proof -
  have "split_qq_text 2 ''abcde'' = Some [''ab'', ''cd'', ''e'']" by code_simp
  then show ?thesis using split_qq_text_lossless[of 2 "''abcde''"] by simp
qed

text \<open>
  Packing keeps every message, in order. For non-empty messages the chunks read
  one after the other, separated as the messages are, are the messages; if every
  message fits the limit, so does every chunk.
\<close>

theorem chunk_qq_messages_join:
  assumes "[] \<notin> set messages"
  shows "join gap (chunk_qq_messages m messages) = join gap messages \<and>
    ((\<forall>x \<in> set messages. length x \<le> m) \<longrightarrow> (\<forall>c \<in> set (chunk_qq_messages m messages). length c \<le> m))"
proof (cases messages)
  case Nil
  then show ?thesis by (simp add: chunk_qq_messages_def)
next
  case (Cons x xs)
  with assms show ?thesis
    using chunk_loop_join[of xs x m] chunk_loop_sizes[of x m xs] by (auto simp: chunk_qq_messages_def Let_def)
qed

theorem chunk_qq_messages_join_witness:
  "join gap (chunk_qq_messages 4 [''a'', ''b'', ''cde'']) =
   join gap [''a'', ''b'', ''cde'']"
  using chunk_qq_messages_join[of "[''a'', ''b'', ''cde'']" 4] by simp

end
