(* ===== verification/Config.thy ===== *)
theory Config
  imports PyText
begin

text \<open>
  The settings of \<open>backend/app/core/config.py\<close> that the modelled components read,
  one record per group of the class with the bounds its fields declare and their
  defaults. Durations declared as \<open>float\<close> seconds are given in microseconds.
\<close>

subsection \<open>Settings groups and their bounds\<close>

record worker_cfg =
  default_poll_interval_seconds :: int
  worker_scan_interval :: time
  worker_max_concurrency :: int
  worker_batch_size :: nat
  worker_lock_ttl_seconds :: int
  worker_heartbeat_ttl_seconds :: int
  worker_metrics_port :: int
  agent_chat_retention_days :: int
  agent_chat_cleanup_interval_seconds :: int
  pagination_resume_delay :: time
  x_auth_gate_seconds :: int

definition worker_cfg_valid :: "worker_cfg \<Rightarrow> bool" where
  "worker_cfg_valid c \<longleftrightarrow>
     15 \<le> default_poll_interval_seconds c \<and> default_poll_interval_seconds c \<le> 86400 \<and>
     500000 \<le> worker_scan_interval c \<and> worker_scan_interval c \<le> secs 60 \<and>
     1 \<le> worker_max_concurrency c \<and> worker_max_concurrency c \<le> 100 \<and>
     1 \<le> worker_batch_size c \<and> worker_batch_size c \<le> 1000 \<and>
     15 \<le> worker_lock_ttl_seconds c \<and> worker_lock_ttl_seconds c \<le> 3600 \<and>
     10 \<le> worker_heartbeat_ttl_seconds c \<and> worker_heartbeat_ttl_seconds c \<le> 300 \<and>
     0 \<le> worker_metrics_port c \<and> worker_metrics_port c \<le> 65535 \<and>
     1 \<le> agent_chat_retention_days c \<and> agent_chat_retention_days c \<le> 3650 \<and>
     60 \<le> agent_chat_cleanup_interval_seconds c \<and> agent_chat_cleanup_interval_seconds c \<le> 86400 \<and>
     100000 \<le> pagination_resume_delay c \<and> pagination_resume_delay c \<le> secs 60 \<and>
     30 \<le> x_auth_gate_seconds c \<and> x_auth_gate_seconds c \<le> 3600"

record ai_worker_cfg =
  ai_worker_scan_interval :: time
  ai_worker_max_concurrency :: int
  ai_worker_batch_size :: nat
  ai_worker_lock_ttl_seconds :: int
  ai_worker_heartbeat_ttl_seconds :: int
  ai_worker_metrics_port :: int

definition ai_worker_cfg_valid :: "ai_worker_cfg \<Rightarrow> bool" where
  "ai_worker_cfg_valid c \<longleftrightarrow>
     500000 \<le> ai_worker_scan_interval c \<and> ai_worker_scan_interval c \<le> secs 60 \<and>
     1 \<le> ai_worker_max_concurrency c \<and> ai_worker_max_concurrency c \<le> 50 \<and>
     1 \<le> ai_worker_batch_size c \<and> ai_worker_batch_size c \<le> 500 \<and>
     30 \<le> ai_worker_lock_ttl_seconds c \<and> ai_worker_lock_ttl_seconds c \<le> 3600 \<and>
     10 \<le> ai_worker_heartbeat_ttl_seconds c \<and> ai_worker_heartbeat_ttl_seconds c \<le> 300 \<and>
     0 \<le> ai_worker_metrics_port c \<and> ai_worker_metrics_port c \<le> 65535"

record qq_worker_cfg =
  qq_request_timeout :: time
  qq_worker_scan_interval :: time
  qq_worker_max_concurrency :: int
  qq_worker_batch_size :: nat
  qq_worker_send_interval :: time
  qq_worker_max_attempts :: int
  qq_worker_lock_ttl_seconds :: int
  qq_worker_heartbeat_ttl_seconds :: int
  qq_worker_port :: int
  qq_worker_metrics_port :: int

definition qq_worker_cfg_valid :: "qq_worker_cfg \<Rightarrow> bool" where
  "qq_worker_cfg_valid c \<longleftrightarrow>
     0 < qq_request_timeout c \<and> qq_request_timeout c \<le> secs 120 \<and>
     500000 \<le> qq_worker_scan_interval c \<and> qq_worker_scan_interval c \<le> secs 60 \<and>
     1 \<le> qq_worker_max_concurrency c \<and> qq_worker_max_concurrency c \<le> 50 \<and>
     1 \<le> qq_worker_batch_size c \<and> qq_worker_batch_size c \<le> 1000 \<and>
     0 \<le> qq_worker_send_interval c \<and> qq_worker_send_interval c \<le> secs 300 \<and>
     1 \<le> qq_worker_max_attempts c \<and> qq_worker_max_attempts c \<le> 10 \<and>
     15 \<le> qq_worker_lock_ttl_seconds c \<and> qq_worker_lock_ttl_seconds c \<le> 600 \<and>
     10 \<le> qq_worker_heartbeat_ttl_seconds c \<and> qq_worker_heartbeat_ttl_seconds c \<le> 300 \<and>
     0 \<le> qq_worker_port c \<and> qq_worker_port c \<le> 65535 \<and>
     0 \<le> qq_worker_metrics_port c \<and> qq_worker_metrics_port c \<le> 65535"

record screenshot_cfg =
  camoufox_browser_pool_size :: nat
  camoufox_max_concurrency :: nat
  camoufox_job_timeout :: time
  camoufox_job_result_ttl_seconds :: int
  tweet_screenshot_enabled :: bool
  tweet_screenshot_max_attempts :: int
  tweet_screenshot_retry :: time
  tweet_screenshot_scan_interval :: time

definition screenshot_cfg_valid :: "screenshot_cfg \<Rightarrow> bool" where
  "screenshot_cfg_valid c \<longleftrightarrow>
     1 \<le> camoufox_browser_pool_size c \<and> camoufox_browser_pool_size c \<le> 32 \<and>
     1 \<le> camoufox_max_concurrency c \<and> camoufox_max_concurrency c \<le> 32 \<and>
     secs 30 \<le> camoufox_job_timeout c \<and> camoufox_job_timeout c \<le> secs 600 \<and>
     60 \<le> camoufox_job_result_ttl_seconds c \<and> camoufox_job_result_ttl_seconds c \<le> 3600 \<and>
     1 \<le> tweet_screenshot_max_attempts c \<and> tweet_screenshot_max_attempts c \<le> 10 \<and>
     secs 5 \<le> tweet_screenshot_retry c \<and> tweet_screenshot_retry c \<le> secs 3600 \<and>
     secs 1 \<le> tweet_screenshot_scan_interval c \<and> tweet_screenshot_scan_interval c \<le> secs 60"

record xhs_cfg =
  xhs_job_timeout :: time
  xhs_job_result_ttl_seconds :: int
  xhs_browser_pool_size :: nat
  xhs_browser_max_concurrency :: nat
  xhs_worker_heartbeat_ttl_seconds :: int
  xhs_worker_metrics_port :: int
  xhs_transport :: string

definition xhs_cfg_valid :: "xhs_cfg \<Rightarrow> bool" where
  "xhs_cfg_valid c \<longleftrightarrow>
     secs 30 \<le> xhs_job_timeout c \<and> xhs_job_timeout c \<le> secs 600 \<and>
     60 \<le> xhs_job_result_ttl_seconds c \<and> xhs_job_result_ttl_seconds c \<le> 3600 \<and>
     1 \<le> xhs_browser_pool_size c \<and> xhs_browser_pool_size c \<le> 32 \<and>
     1 \<le> xhs_browser_max_concurrency c \<and> xhs_browser_max_concurrency c \<le> 32 \<and>
     10 \<le> xhs_worker_heartbeat_ttl_seconds c \<and> xhs_worker_heartbeat_ttl_seconds c \<le> 300 \<and>
     0 \<le> xhs_worker_metrics_port c \<and> xhs_worker_metrics_port c \<le> 65535 \<and>
     xhs_transport c \<in> {''redis'', ''http''}"

text \<open>The defaults of the class.\<close>

definition default_screenshot_cfg :: screenshot_cfg where
  "default_screenshot_cfg =
     \<lparr>camoufox_browser_pool_size = 1, camoufox_max_concurrency = 1,
      camoufox_job_timeout = secs 290, camoufox_job_result_ttl_seconds = 600,
      tweet_screenshot_enabled = True, tweet_screenshot_max_attempts = 3,
      tweet_screenshot_retry = secs 30, tweet_screenshot_scan_interval = secs 5\<rparr>"

definition default_worker_cfg :: worker_cfg where
  "default_worker_cfg =
     \<lparr>default_poll_interval_seconds = 300, worker_scan_interval = secs 2,
      worker_max_concurrency = 5, worker_batch_size = 100, worker_lock_ttl_seconds = 120,
      worker_heartbeat_ttl_seconds = 30, worker_metrics_port = 8201,
      agent_chat_retention_days = 7, agent_chat_cleanup_interval_seconds = 3600,
      pagination_resume_delay = secs 1, x_auth_gate_seconds = 300\<rparr>"

definition default_ai_worker_cfg :: ai_worker_cfg where
  "default_ai_worker_cfg =
     \<lparr>ai_worker_scan_interval = secs 2, ai_worker_max_concurrency = 3, ai_worker_batch_size = 50,
      ai_worker_lock_ttl_seconds = 180, ai_worker_heartbeat_ttl_seconds = 30, ai_worker_metrics_port = 8202\<rparr>"

definition default_qq_worker_cfg :: qq_worker_cfg where
  "default_qq_worker_cfg =
     \<lparr>qq_request_timeout = secs 20, qq_worker_scan_interval = secs 2, qq_worker_max_concurrency = 5,
      qq_worker_batch_size = 100, qq_worker_send_interval = secs 5, qq_worker_max_attempts = 3,
      qq_worker_lock_ttl_seconds = 60, qq_worker_heartbeat_ttl_seconds = 30, qq_worker_port = 8203,
      qq_worker_metrics_port = 8004\<rparr>"

lemma default_ai_worker_cfg_valid: "ai_worker_cfg_valid default_ai_worker_cfg"
  by (simp add: ai_worker_cfg_valid_def default_ai_worker_cfg_def secs_def)

lemma default_qq_worker_cfg_valid: "qq_worker_cfg_valid default_qq_worker_cfg"
  by (simp add: qq_worker_cfg_valid_def default_qq_worker_cfg_def secs_def)

lemma default_worker_cfg_valid: "worker_cfg_valid default_worker_cfg"
  by (simp add: worker_cfg_valid_def default_worker_cfg_def secs_def)

lemma default_screenshot_cfg_valid: "screenshot_cfg_valid default_screenshot_cfg"
  by (simp add: screenshot_cfg_valid_def default_screenshot_cfg_def secs_def)

end
