(* ===== verification/Screenshots.thy ===== *)
theory Screenshots
  imports Tables Samples Config Leases
begin

text \<open>
  The screenshot outbox, \<open>backend/app/services/tweet_screenshots.py\<close>: enqueueing in
  the ingestion transaction, claiming one due row with a fresh lease token, renewing
  the lease, committing a capture or a failure under the lease, rescheduling a busy
  browser, and the composed \<open>run_once\<close>. Statements that test and set one row are
  given on the row and lifted to the table.
\<close>

subsection \<open>Who a post belongs to\<close>

definition retweet_error :: string where
  "retweet_error =
     ''Native repost has no independently verifiable post card; screenshot skipped''"

definition native_repost :: "tweet \<Rightarrow> bool" where
  "native_repost t \<longleftrightarrow>
     list_ex (\<lambda>item. jget item ''type'' = JStr ''retweeted'') (jlist (tw_referenced_tweets t))"

text \<open>\<open>re.fullmatch(r"[A-Za-z0-9_]{1,15}", s)\<close>.\<close>

definition username_ok :: "string \<Rightarrow> bool" where
  "username_ok s \<longleftrightarrow>
     1 \<le> length s \<and> length s \<le> 15 \<and> list_all (\<lambda>c. is_alpha c \<or> is_digit c \<or> c = CHR ''_'') s"

text \<open>
  The username a \<open>source_url\<close> names, when it is the status URL of this very post. The
  text of a \<open>source_url\<close> that is no string is never an \<open>https\<close> URL.
\<close>

definition source_username :: "(string \<Rightarrow> bool) \<Rightarrow> string \<Rightarrow> tweet \<Rightarrow> string \<Rightarrow> msg + string" where
  "source_username brackets_ok source_url t username =
     (case urlsplit brackets_ok source_url of
        None \<Rightarrow> Inl (Text ''Invalid IPv6 URL'')
      | Some u \<Rightarrow>
          (let parts = split_on CHR ''/'' (strip_by (\<lambda>c. c = CHR ''/'') (url_path u)) in
           if url_scheme u = ''https'' \<and> lower (url_netloc u) \<in> {''x.com'', ''twitter.com''} \<and>
              length parts = 3 \<and> parts ! 1 = ''status'' \<and> parts ! 2 = tw_tweet_id t
           then Inr (parts ! 0) else Inr username))"

definition media_count :: "tweet \<Rightarrow> nat" where
  "media_count t =
     (let a = tw_attachments t;
          media = jor (jor (jget a ''media'') (jget a ''media_keys'')) (JList [])
      in if is_list media then length (jlist media) else 0)"

definition capture_identity ::
    "(string \<Rightarrow> bool) \<Rightarrow> tweet \<Rightarrow> monitored_user \<Rightarrow> msg + (string \<times> nat)" where
  "capture_identity brackets_ok t user =
     (if native_repost t then Inl (Text retweet_error)
      else
        (let named =
           (case jget (tw_raw_payload t) ''source_url'' of
              JStr s \<Rightarrow>
                (if s \<noteq> [] then source_username brackets_ok s t (mu_username user)
                 else if nonempty (mu_x_user_id user) \<and> Some (tw_author_id t) \<noteq> mu_x_user_id user
                 then Inl (Text ''Post author cannot be resolved to the monitored account'')
                 else Inr (mu_username user))
            | v \<Rightarrow>
                (if truthy v then Inr (mu_username user)
                 else if nonempty (mu_x_user_id user) \<and> Some (tw_author_id t) \<noteq> mu_x_user_id user
                 then Inl (Text ''Post author cannot be resolved to the monitored account'')
                 else Inr (mu_username user)))
         in case named of
              Inl e \<Rightarrow> Inl e
            | Inr name \<Rightarrow>
                (if username_ok name then Inr (name, media_count t)
                 else Inl (Text ''Post author username is invalid''))))"

subsection \<open>Enqueueing\<close>

definition new_screenshot :: "time \<Rightarrow> tweet \<Rightarrow> tweet_screenshot" where
  "new_screenshot now t =
     \<lparr>ss_tweet_id = tw_tweet_id t,
      ss_status = (if native_repost t then ''failed'' else ''pending''),
      ss_attempts = 0, ss_next_attempt_at = now, ss_lease_token = None, ss_lease_until = None,
      ss_last_error = (if native_repost t then Some (Text retweet_error) else None),
      ss_image_path = None, ss_sha256 = None, ss_width = None, ss_height = None,
      ss_canonical_url = None, ss_author_username = None, ss_captured_at = None,
      ss_created_at = now, ss_updated_at = now\<rparr>"

lemma new_screenshot_id [simp]: "ss_tweet_id (new_screenshot now t) = tw_tweet_id t"
  by (simp add: new_screenshot_def)

definition enqueue_tweet_screenshots :: "time \<Rightarrow> string list \<Rightarrow> db \<Rightarrow> db \<times> nat" where
  "enqueue_tweet_screenshots now tweet_ids d =
     (if tweet_ids = [] then (d, 0)
      else let ts = filter (\<lambda>t. tw_tweet_id t \<in> set tweet_ids) (tweets d);
               rows = map (new_screenshot now) ts
           in if rows = [] then (d, 0)
              else let (tbl, ids) = insert_ignore ss_tweet_id (screenshots d) rows
                   in (d\<lparr>screenshots := tbl\<rparr>, length ids))"

subsection \<open>Claiming\<close>

record screenshot_claim =
  sc_tweet_id :: string
  sc_token :: string
  sc_attempt :: int
  sc_username :: string
  sc_expected_text :: string
  sc_expected_media_count :: nat

definition lease_duration :: "screenshot_cfg \<Rightarrow> time" where
  "lease_duration cfg = camoufox_job_timeout cfg + secs 150"

definition ss_due :: "time \<Rightarrow> tweet_screenshot \<Rightarrow> bool" where
  "ss_due now r \<longleftrightarrow>
     (ss_status r = ''pending'' \<and> ss_next_attempt_at r \<le> now) \<or>
     (ss_status r = ''running'' \<and> (case ss_lease_until r of None \<Rightarrow> False | Some u \<Rightarrow> u \<le> now))"

definition ss_fail :: "msg \<Rightarrow> tweet_screenshot \<Rightarrow> tweet_screenshot" where
  "ss_fail e r = r\<lparr>ss_status := ''failed'', ss_last_error := Some e,
     ss_lease_token := None, ss_lease_until := None\<rparr>"

text \<open>The conditional update that takes the lease; \<open>None\<close> is a row count of zero.\<close>

definition ss_claim_row :: "screenshot_cfg \<Rightarrow> time \<Rightarrow> string \<Rightarrow> tweet_screenshot \<Rightarrow>
    tweet_screenshot option" where
  "ss_claim_row cfg now token r =
     (if ss_due now r then
        Some (r\<lparr>ss_status := ''running'', ss_attempts := ss_attempts r + 1,
                ss_lease_token := Some token, ss_lease_until := Some (now + lease_duration cfg),
                ss_updated_at := now\<rparr>)
      else None)"

definition ss_posted_at :: "db \<Rightarrow> tweet_screenshot \<Rightarrow> time" where
  "ss_posted_at d r =
     (case row_get tw_tweet_id (ss_tweet_id r) (tweets d) of None \<Rightarrow> 0 | Some t \<Rightarrow> tw_posted_at t)"

text \<open>The newest posted due row, joined with its post.\<close>

definition next_screenshot :: "time \<Rightarrow> db \<Rightarrow> tweet_screenshot option" where
  "next_screenshot now d =
     (case row_select (\<lambda>r. ss_due now r \<and> ss_tweet_id r \<in> tw_tweet_id ` set (tweets d))
            (\<lambda>r. (- ss_posted_at d r, ss_next_attempt_at r)) 1 (screenshots d) of
        [] \<Rightarrow> None | r # _ \<Rightarrow> Some r)"

definition put_screenshot :: "tweet_screenshot \<Rightarrow> db \<Rightarrow> db" where
  "put_screenshot r d = d\<lparr>screenshots := row_put ss_tweet_id r (screenshots d)\<rparr>"

definition claim_one :: "(string \<Rightarrow> bool) \<Rightarrow> screenshot_cfg \<Rightarrow> time \<Rightarrow> string \<Rightarrow> db \<Rightarrow>
    db \<times> screenshot_claim option" where
  "claim_one brackets_ok cfg now token d =
     (case next_screenshot now d of
        None \<Rightarrow> (d, None)
      | Some row \<Rightarrow>
          (if tweet_screenshot_max_attempts cfg \<le> ss_attempts row then
             (put_screenshot
                (ss_fail (case ss_last_error row of
                            Some e \<Rightarrow> (if msg_truthy e then e
                                     else Text ''Screenshot processing lease expired'')
                          | None \<Rightarrow> Text ''Screenshot processing lease expired'') row) d, None)
           else
             (let t = row_get tw_tweet_id (ss_tweet_id row) (tweets d);
                  u = (case t of None \<Rightarrow> None
                       | Some tw \<Rightarrow> row_get mu_id (tw_monitored_user_id tw) (monitored_users d))
              in case (t, u) of
                   (Some tw, Some user) \<Rightarrow>
                     (case capture_identity brackets_ok tw user of
                        Inl e \<Rightarrow> (put_screenshot (ss_fail e row) d, None)
                      | Inr (name, media) \<Rightarrow>
                          (case ss_claim_row cfg now token row of
                             None \<Rightarrow> (d, None)
                           | Some row' \<Rightarrow>
                               (put_screenshot row' d,
                                Some \<lparr>sc_tweet_id = ss_tweet_id row, sc_token = token,
                                      sc_attempt = ss_attempts row + 1, sc_username = name,
                                      sc_expected_text = tw_text tw,
                                      sc_expected_media_count = media\<rparr>)))
                 | _ \<Rightarrow>
                     (put_screenshot
                        (ss_fail (Text ''Screenshot source post is no longer available'') row) d,
                      None))))"

subsection \<open>Renewing and committing under the lease\<close>

definition ss_holds :: "time \<Rightarrow> string \<Rightarrow> tweet_screenshot \<Rightarrow> bool" where
  "ss_holds now token r \<longleftrightarrow>
     ss_status r = ''running'' \<and> ss_lease_token r = Some token \<and>
     (case ss_lease_until r of None \<Rightarrow> False | Some u \<Rightarrow> now < u)"

text \<open>One turn of the renewal loop; the flag tells whether the lease was lost.\<close>

definition renew_screenshot :: "screenshot_cfg \<Rightarrow> time \<Rightarrow> screenshot_claim \<Rightarrow> db \<Rightarrow> db \<times> bool" where
  "renew_screenshot cfg now claim d =
     (let p = (\<lambda>r. ss_tweet_id r = sc_tweet_id claim \<and> ss_holds now (sc_token claim) r)
      in (d\<lparr>screenshots := row_update p
              (\<lambda>r. r\<lparr>ss_lease_until := Some (now + lease_duration cfg)\<rparr>) (screenshots d)\<rparr>,
          rowcount p (screenshots d) = 0))"

record captured =
  cap_png :: string
  cap_sha256 :: string
  cap_width :: int
  cap_height :: int
  cap_canonical_url :: string
  cap_captured_at :: time

datatype screenshot_result = Captured captured string | CaptureError msg

definition ss_finish_values :: "screenshot_cfg \<Rightarrow> time \<Rightarrow> screenshot_claim \<Rightarrow> screenshot_result \<Rightarrow>
    tweet_screenshot \<Rightarrow> tweet_screenshot" where
  "ss_finish_values cfg now claim res r =
     (case res of
        Captured c path \<Rightarrow>
          r\<lparr>ss_lease_token := None, ss_lease_until := None, ss_updated_at := now,
            ss_status := ''succeeded'', ss_image_path := Some path,
            ss_sha256 := Some (cap_sha256 c), ss_width := Some (cap_width c),
            ss_height := Some (cap_height c), ss_canonical_url := Some (cap_canonical_url c),
            ss_author_username := Some (sc_username claim),
            ss_captured_at := Some (cap_captured_at c), ss_last_error := None\<rparr>
      | CaptureError e \<Rightarrow>
          r\<lparr>ss_lease_token := None, ss_lease_until := None, ss_updated_at := now,
            ss_status := (if tweet_screenshot_max_attempts cfg \<le> sc_attempt claim
                          then ''failed'' else ''pending''),
            ss_last_error :=
              Some (clip 2000 (if msg_truthy e then e else Text ''Screenshot capture failed'')),
            ss_next_attempt_at := now + tweet_screenshot_retry cfg * sc_attempt claim\<rparr>)"

definition finish_screenshot :: "screenshot_cfg \<Rightarrow> time \<Rightarrow> screenshot_claim \<Rightarrow> screenshot_result \<Rightarrow>
    db \<Rightarrow> db \<times> bool" where
  "finish_screenshot cfg now claim res d =
     (let p = (\<lambda>r. ss_tweet_id r = sc_tweet_id claim \<and> ss_holds now (sc_token claim) r)
      in (d\<lparr>screenshots :=
              row_update p (ss_finish_values cfg now claim res) (screenshots d)\<rparr>,
          0 < rowcount p (screenshots d)))"

definition reschedule_busy :: "screenshot_cfg \<Rightarrow> time \<Rightarrow> screenshot_claim \<Rightarrow> msg \<Rightarrow> db \<Rightarrow> db" where
  "reschedule_busy cfg now claim e d =
     d\<lparr>screenshots := row_update
         (\<lambda>r. ss_tweet_id r = sc_tweet_id claim \<and> ss_holds now (sc_token claim) r)
         (\<lambda>r. r\<lparr>ss_status := ''pending'', ss_attempts := ss_attempts r - 1,
                ss_lease_token := None, ss_lease_until := None,
                ss_last_error := Some (clip 2000 e),
                ss_next_attempt_at := now + tweet_screenshot_retry cfg, ss_updated_at := now\<rparr>)
         (screenshots d)\<rparr>"

subsection \<open>Stored files and the composed turn\<close>

text \<open>\<open>re.fullmatch(r"[0-9]{1,32}/[a-f0-9]{32}\.png", name)\<close>.\<close>

definition storage_name_ok :: "string \<Rightarrow> bool" where
  "storage_name_ok name =
     (case split1 CHR ''/'' name of
        (a, Some b) \<Rightarrow>
          1 \<le> length a \<and> length a \<le> 32 \<and> list_all is_digit a \<and> length b = 36 \<and>
          list_all is_lower_hex (take 32 b) \<and> drop 32 b = ''.png''
      | (a, None) \<Rightarrow> False)"

definition storage_name :: "string \<Rightarrow> string \<Rightarrow> string" where
  "storage_name tweet_id token = tweet_id @ ''/'' @ token @ ''.png''"

text \<open>The screenshot directory as the list of the relative names it holds.\<close>

definition write_screenshot :: "string \<Rightarrow> string \<Rightarrow> string list \<Rightarrow> msg + (string list \<times> string)" where
  "write_screenshot tweet_id token files =
     (let name = storage_name tweet_id token in
      if storage_name_ok name then Inr (List.insert name files, name)
      else Inl (Text ''Invalid screenshot storage name''))"

definition screenshot_path :: "string option \<Rightarrow> string list \<Rightarrow> string option" where
  "screenshot_path name files =
     (case name of None \<Rightarrow> None
      | Some n \<Rightarrow> if n \<noteq> [] \<and> storage_name_ok n \<and> n \<in> set files then Some n else None)"

definition delete_screenshot :: "string option \<Rightarrow> string list \<Rightarrow> string list" where
  "delete_screenshot name files =
     (case screenshot_path name files of None \<Rightarrow> files | Some n \<Rightarrow> filter (\<lambda>f. f \<noteq> n) files)"

definition discard_unreferenced :: "string \<Rightarrow> db \<Rightarrow> string list \<Rightarrow> string list" where
  "discard_unreferenced path d files =
     (if list_ex (\<lambda>r. ss_image_path r = Some path \<and> ss_status r = ''succeeded'') (screenshots d)
      then files else delete_screenshot (Some path) files)"

text \<open>
  What the environment answers during one \<open>run_once\<close>: the clock and the fresh token of
  the claim, the transactions and file writes of other workers before the commit and
  after it, the reply of the browser client, whether the renewal loop lost the lease,
  the outcome of the file write, and where a cancellation hits the commit.
\<close>

type_synonym store = "db \<times> string list"

datatype capture_reply = Reply json | Busy msg | CaptureRaised msg | CaptureCancelled
datatype write_reply = Written | WriteRaised msg | WriteCancelled
datatype finish_reply = Finished | CancelledBeforeCommit | CancelledAfterCommit

record shot_env =
  se_claim_now :: time
  se_token :: string
  se_during :: "store \<Rightarrow> store"
  se_reply :: capture_reply
  se_lost :: bool
  se_write :: write_reply
  se_finish_now :: time
  se_finish :: finish_reply
  se_after :: "store \<Rightarrow> store"

datatype turn = NoWork | Worked | TurnCancelled

definition fail_capture :: "screenshot_cfg \<Rightarrow> shot_env \<Rightarrow> screenshot_claim \<Rightarrow> msg \<Rightarrow> store \<Rightarrow> store" where
  "fail_capture cfg env claim e st =
     (fst (finish_screenshot cfg (se_finish_now env) claim (CaptureError e) (fst st)), snd st)"

definition discard :: "string \<Rightarrow> store \<Rightarrow> store" where
  "discard path st = (fst st, discard_unreferenced path (fst st) (snd st))"

definition store_capture :: "screenshot_cfg \<Rightarrow> shot_env \<Rightarrow> screenshot_claim \<Rightarrow> captured \<Rightarrow>
    store \<Rightarrow> store \<times> turn" where
  "store_capture cfg env claim cap st =
     (case se_write env of
        WriteRaised e \<Rightarrow> (fail_capture cfg env claim e st, Worked)
      | wr \<Rightarrow>
          (case write_screenshot (sc_tweet_id claim) (sc_token claim) (snd st) of
             Inl e \<Rightarrow> (fail_capture cfg env claim e st, Worked)
           | Inr (files', path) \<Rightarrow>
               (if wr = WriteCancelled \<or> se_finish env = CancelledBeforeCommit then
                  (discard path (se_after env (fst st, files')), TurnCancelled)
                else
                  (let (d1, ok) =
                         finish_screenshot cfg (se_finish_now env) claim (Captured cap path) (fst st);
                       st2 = se_after env (d1, files')
                   in if se_finish env = CancelledAfterCommit
                      then (discard path st2, TurnCancelled)
                      else (if ok then st2 else discard path st2, Worked)))))"

definition run_once :: "(string \<Rightarrow> bool) \<Rightarrow> (json \<Rightarrow> string \<Rightarrow> string \<Rightarrow> msg + captured) \<Rightarrow>
    screenshot_cfg \<Rightarrow> shot_env \<Rightarrow> store \<Rightarrow> store \<times> turn" where
  "run_once brackets_ok validate cfg env st =
     (case claim_one brackets_ok cfg (se_claim_now env) (se_token env) (fst st) of
        (d1, None) \<Rightarrow> ((d1, snd st), NoWork)
      | (d1, Some claim) \<Rightarrow>
          (let st2 = se_during env (d1, snd st) in
           case se_reply env of
             CaptureCancelled \<Rightarrow> (st2, TurnCancelled)
           | Busy e \<Rightarrow>
               ((reschedule_busy cfg (se_finish_now env) claim e (fst st2), snd st2), Worked)
           | CaptureRaised e \<Rightarrow> (fail_capture cfg env claim e st2, Worked)
           | Reply data \<Rightarrow>
               (case validate data (sc_tweet_id claim) (sc_username claim) of
                  Inl e \<Rightarrow> (fail_capture cfg env claim e st2, Worked)
                | Inr cap \<Rightarrow>
                    (if se_lost env then (st2, Worked)
                     else store_capture cfg env claim cap st2))))"

subsection \<open>The lease contract\<close>

definition ss_holder :: "tweet_screenshot \<Rightarrow> string option" where
  "ss_holder r = (if ss_status r = ''running'' then ss_lease_token r else None)"

definition ss_claim :: "screenshot_cfg \<times> time \<Rightarrow> string \<Rightarrow> tweet_screenshot \<Rightarrow> tweet_screenshot option" where
  "ss_claim c token r = ss_claim_row (fst c) (snd c) token r"

text \<open>The row that \<open>finish_screenshot\<close> changes, as a partial operation of the holder.\<close>

definition ss_commit :: "screenshot_cfg \<times> time \<times> screenshot_claim \<times> screenshot_result \<Rightarrow> string \<Rightarrow>
    tweet_screenshot \<Rightarrow> tweet_screenshot option" where
  "ss_commit x token r =
     (case x of (cfg, now, claim, res) \<Rightarrow>
        if ss_holds now token r then Some (ss_finish_values cfg now claim res r) else None)"

lemma ss_finish_values_id [simp]:
  "ss_tweet_id (ss_finish_values cfg now claim res r) = ss_tweet_id r"
  by (simp add: ss_finish_values_def split: screenshot_result.split)

lemma finish_screenshot_rows:
  "screenshots (fst (finish_screenshot cfg now claim res d)) =
     map (\<lambda>r. if ss_tweet_id r = sc_tweet_id claim
              then (case ss_commit (cfg, now, claim, res) (sc_token claim) r of
                      None \<Rightarrow> r | Some r' \<Rightarrow> r')
              else r) (screenshots d)"
  by (auto simp: finish_screenshot_def row_update_def ss_commit_def Let_def)

interpretation shot: fenced_lease ss_holder ss_claim ss_commit
  by unfold_locales
    (auto simp: ss_holder_def ss_claim_def ss_claim_row_def ss_commit_def ss_holds_def
      ss_finish_values_def split: if_splits prod.splits screenshot_result.splits)

subsection \<open>Reachable screenshot tables\<close>

definition ss_row_ok :: "screenshot_cfg \<Rightarrow> tweet_screenshot \<Rightarrow> bool" where
  "ss_row_ok cfg r \<longleftrightarrow>
     ss_status r \<in> {''pending'', ''running'', ''succeeded'', ''failed''} \<and>
     0 \<le> ss_attempts r \<and> ss_attempts r \<le> tweet_screenshot_max_attempts cfg \<and>
     (ss_status r = ''running'' \<longrightarrow>
        1 \<le> ss_attempts r \<and> ss_lease_token r \<noteq> None \<and> ss_lease_until r \<noteq> None) \<and>
     (ss_status r \<noteq> ''running'' \<longrightarrow> ss_lease_token r = None \<and> ss_lease_until r = None) \<and>
     (ss_status r = ''succeeded'' \<longrightarrow> ss_image_path r \<noteq> None) \<and>
     (ss_status r \<noteq> ''succeeded'' \<longrightarrow> ss_image_path r = None)"

definition screenshots_ok :: "screenshot_cfg \<Rightarrow> db \<Rightarrow> bool" where
  "screenshots_ok cfg d \<longleftrightarrow>
     distinct (map ss_tweet_id (screenshots d)) \<and> (\<forall>r \<in> set (screenshots d). ss_row_ok cfg r)"

text \<open>
  Any transaction of the outbox, by any worker with any claim record, and any
  transaction of another component, which leaves the table alone.
\<close>

inductive shot_step :: "(string \<Rightarrow> bool) \<Rightarrow> screenshot_cfg \<Rightarrow> db \<Rightarrow> db \<Rightarrow> bool"
  for brackets_ok :: "string \<Rightarrow> bool" and cfg :: screenshot_cfg where
  enqueue: "shot_step brackets_ok cfg d (fst (enqueue_tweet_screenshots now ids d))"
| claim: "shot_step brackets_ok cfg d (fst (claim_one brackets_ok cfg now token d))"
| renew: "shot_step brackets_ok cfg d (fst (renew_screenshot cfg now cl d))"
| finish: "shot_step brackets_ok cfg d (fst (finish_screenshot cfg now cl res d))"
| busy: "shot_step brackets_ok cfg d (reschedule_busy cfg now cl e d)"
| elsewhere: "screenshots d' = screenshots d \<Longrightarrow> shot_step brackets_ok cfg d d'"

inductive shot_reach :: "(string \<Rightarrow> bool) \<Rightarrow> screenshot_cfg \<Rightarrow> db \<Rightarrow> bool"
  for brackets_ok :: "string \<Rightarrow> bool" and cfg :: screenshot_cfg where
  start: "screenshots d = [] \<Longrightarrow> shot_reach brackets_ok cfg d"
| step: "shot_reach brackets_ok cfg d \<Longrightarrow> shot_step brackets_ok cfg d d' \<Longrightarrow>
    shot_reach brackets_ok cfg d'"

lemma ss_due_status: "ss_due now r \<Longrightarrow> ss_status r = ''pending'' \<or> ss_status r = ''running''"
  by (auto simp: ss_due_def)

lemma next_screenshotD:
  assumes "next_screenshot now d = Some r"
  shows "r \<in> set (screenshots d)" and "ss_due now r" and "ss_tweet_id r \<in> tw_tweet_id ` set (tweets d)"
proof -
  have "r \<in> set (row_select (\<lambda>r. ss_due now r \<and> ss_tweet_id r \<in> tw_tweet_id ` set (tweets d))
      (\<lambda>r. (- ss_posted_at d r, ss_next_attempt_at r)) 1 (screenshots d))"
    using assms by (auto simp: next_screenshot_def split: list.splits)
  from row_select_mem[OF this]
  show "r \<in> set (screenshots d)" "ss_due now r" "ss_tweet_id r \<in> tw_tweet_id ` set (tweets d)" by auto
qed

text \<open>What one claim does to the table: nothing, a failed row, or a leased row.\<close>

lemma claim_one_cases:
  assumes "claim_one brackets_ok cfg now token d = (d', c)"
  obtains (nothing) "d' = d" "c = None"
  | (failed) r e where "next_screenshot now d = Some r" "d' = put_screenshot (ss_fail e r) d" "c = None"
  | (leased) r r' cl where "next_screenshot now d = Some r"
      "ss_attempts r < tweet_screenshot_max_attempts cfg"
      "ss_claim_row cfg now token r = Some r'" "d' = put_screenshot r' d" "c = Some cl"
      "sc_tweet_id cl = ss_tweet_id r" "sc_token cl = token" "sc_attempt cl = ss_attempts r + 1"
proof (cases "next_screenshot now d")
  case None
  with assms have "d' = d" "c = None" by (simp_all add: claim_one_def)
  then show thesis by (rule nothing)
next
  case (Some r)
  note sel = this
  show thesis
  proof (cases "tweet_screenshot_max_attempts cfg \<le> ss_attempts r")
    case True
    with sel assms obtain e where "d' = put_screenshot (ss_fail e r) d" "c = None"
      by (auto simp: claim_one_def)
    with sel show thesis by (rule failed)
  next
    case False
    then have less: "ss_attempts r < tweet_screenshot_max_attempts cfg" by simp
    let ?t = "row_get tw_tweet_id (ss_tweet_id r) (tweets d)"
    let ?u = "\<lambda>tw. row_get mu_id (tw_monitored_user_id tw) (monitored_users d)"
    note unf = assms[unfolded claim_one_def sel option.case if_not_P[OF False] Let_def]
    show thesis
    proof (cases "\<exists>tw user. ?t = Some tw \<and> ?u tw = Some user")
      case True
      then obtain tw user where tu: "?t = Some tw" "?u tw = Some user" by blast
      show thesis
      proof (cases "capture_identity brackets_ok tw user")
        case (Inl e)
        with unf tu have "d' = put_screenshot (ss_fail e r) d" "c = None" by simp_all
        with sel show thesis by (rule failed)
      next
        case (Inr nm)
        obtain name media where nm: "nm = (name, media)" by (cases nm)
        show thesis
        proof (cases "ss_claim_row cfg now token r")
          case None
          with unf tu Inr nm have "d' = d" "c = None" by simp_all
          then show thesis by (rule nothing)
        next
          case (Some r')
          let ?cl = "\<lparr>sc_tweet_id = ss_tweet_id r, sc_token = token,
            sc_attempt = ss_attempts r + 1, sc_username = name,
            sc_expected_text = tw_text tw, sc_expected_media_count = media\<rparr>"
          from unf tu Inr nm Some have "d' = put_screenshot r' d" "c = Some ?cl" by simp_all
          from leased[OF sel less Some this] show thesis by simp
        qed
      qed
    next
      case False
      with unf have "d' = put_screenshot
          (ss_fail (Text ''Screenshot source post is no longer available'') r) d" "c = None"
        by (cases ?t; cases "?u (the ?t)"; simp del: row_get_None)+
      with sel show thesis by (rule failed)
    qed
  qed
qed

lemma ss_row_ok_image: "ss_row_ok cfg r \<Longrightarrow> ss_status r \<noteq> ''succeeded'' \<Longrightarrow> ss_image_path r = None"
  by (simp add: ss_row_ok_def)

lemma ss_row_ok_range:
  "ss_row_ok cfg r \<Longrightarrow> 0 \<le> ss_attempts r \<and> ss_attempts r \<le> tweet_screenshot_max_attempts cfg"
  by (simp add: ss_row_ok_def)

lemma ss_due_open: "ss_due now r \<Longrightarrow> ss_status r \<noteq> ''succeeded''"
  by (auto simp: ss_due_def)

lemma ss_row_ok_running: "ss_row_ok cfg r \<Longrightarrow> ss_holds now token r \<Longrightarrow> 1 \<le> ss_attempts r"
  by (simp add: ss_row_ok_def ss_holds_def)

lemma ss_row_ok_held: "ss_row_ok cfg r \<Longrightarrow> ss_holds now token r \<Longrightarrow> ss_image_path r = None"
  by (rule ss_row_ok_image) (simp_all add: ss_holds_def)

lemma ss_row_ok_fail:
  assumes "ss_row_ok cfg r" and "ss_due now r"
  shows "ss_row_ok cfg (ss_fail e r)"
proof -
  note ss_row_ok_image[OF assms(1) ss_due_open[OF assms(2)]] ss_row_ok_range[OF assms(1)]
  then show ?thesis by (simp add: ss_row_ok_def ss_fail_def)
qed

lemma ss_row_ok_claim:
  assumes "ss_row_ok cfg r" and "ss_attempts r < tweet_screenshot_max_attempts cfg"
    and "ss_claim_row cfg now token r = Some r'"
  shows "ss_row_ok cfg r'"
proof -
  from assms(3) have due: "ss_due now r" and r': "r' = r\<lparr>ss_status := ''running'',
      ss_attempts := ss_attempts r + 1, ss_lease_token := Some token,
      ss_lease_until := Some (now + lease_duration cfg), ss_updated_at := now\<rparr>"
    by (simp_all add: ss_claim_row_def split: if_splits)
  note ss_row_ok_image[OF assms(1) ss_due_open[OF due]] ss_row_ok_range[OF assms(1)] assms(2)
  then show ?thesis by (simp add: ss_row_ok_def r')
qed

lemma ss_row_ok_finish:
  assumes "ss_row_ok cfg r" and "ss_holds now token r"
  shows "ss_row_ok cfg (ss_finish_values cfg now' cl res r)"
proof -
  note ss_row_ok_held[OF assms] ss_row_ok_range[OF assms(1)]
  then show ?thesis
    by (cases res) (simp_all add: ss_row_ok_def ss_finish_values_def)
qed

lemma ss_row_ok_busy:
  assumes "ss_row_ok cfg r" and "ss_holds now token r"
  shows "ss_row_ok cfg (r\<lparr>ss_status := ''pending'', ss_attempts := ss_attempts r - 1,
      ss_lease_token := None, ss_lease_until := None, ss_last_error := e,
      ss_next_attempt_at := n, ss_updated_at := u\<rparr>)"
proof -
  note ss_row_ok_held[OF assms] ss_row_ok_range[OF assms(1)] ss_row_ok_running[OF assms]
  then show ?thesis by (simp add: ss_row_ok_def)
qed

lemma ss_row_ok_renew:
  assumes "ss_row_ok cfg r" and "ss_holds now token r"
  shows "ss_row_ok cfg (r\<lparr>ss_lease_until := Some u\<rparr>)"
proof -
  note ss_row_ok_held[OF assms] ss_row_ok_range[OF assms(1)] ss_row_ok_running[OF assms]
    assms(2)[unfolded ss_holds_def]
  then show ?thesis by (simp add: ss_row_ok_def)
qed

lemma screenshots_ok_put:
  assumes "screenshots_ok cfg d" and "ss_row_ok cfg r"
  shows "screenshots_ok cfg (put_screenshot r d)"
  using assms(1) ball_row_put[of "screenshots d" "ss_row_ok cfg", OF _ assms(2)] by (simp add: screenshots_ok_def put_screenshot_def)

lemma screenshots_ok_update:
  assumes "screenshots_ok cfg d" and "\<And>r. ss_tweet_id (f r) = ss_tweet_id r"
    and "\<And>r. ss_row_ok cfg r \<Longrightarrow> p r \<Longrightarrow> ss_row_ok cfg (f r)"
  shows "screenshots_ok cfg (d\<lparr>screenshots := row_update p f (screenshots d)\<rparr>)"
  using assms ball_row_update[of "screenshots d" "ss_row_ok cfg" p f]
  by (simp add: screenshots_ok_def)

lemma screenshots_ok_claim:
  assumes "screenshots_ok cfg d"
  shows "screenshots_ok cfg (fst (claim_one brackets_ok cfg now token d))"
proof -
  obtain d' c where e: "claim_one brackets_ok cfg now token d = (d', c)" by fastforce
  have ok: "ss_row_ok cfg r" if "next_screenshot now d = Some r" for r
    using assms next_screenshotD(1)[OF that] by (simp add: screenshots_ok_def)
  from e show ?thesis
  proof (cases rule: claim_one_cases)
    case nothing
    with e assms show ?thesis by simp
  next
    case (failed r er)
    with e assms show ?thesis
      by (simp add: screenshots_ok_put ss_row_ok_fail[OF ok next_screenshotD(2)])
  next
    case (leased r r' cl)
    with e assms show ?thesis
      by (simp add: screenshots_ok_put ss_row_ok_claim[OF ok])
  qed
qed

lemma screenshots_ok_enqueue:
  assumes "screenshots_ok cfg d" and "1 \<le> tweet_screenshot_max_attempts cfg"
  shows "screenshots_ok cfg (fst (enqueue_tweet_screenshots now ids d))"
proof -
  let ?rows = "map (new_screenshot now) (filter (\<lambda>t. tw_tweet_id t \<in> set ids) (tweets d))"
  obtain tbl ks where e: "insert_ignore ss_tweet_id (screenshots d) ?rows = (tbl, ks)" by fastforce
  have new: "\<forall>r \<in> set ?rows. ss_row_ok cfg r"
    using assms(2) by (auto simp: ss_row_ok_def new_screenshot_def)
  have "distinct (map ss_tweet_id tbl)" and "\<forall>r \<in> set tbl. ss_row_ok cfg r"
    using assms(1) insert_ignore_distinct[OF e] ball_insert_ignore[OF e _ new]
    by (simp_all add: screenshots_ok_def)
  with e assms(1) show ?thesis
    by (auto simp: enqueue_tweet_screenshots_def Let_def screenshots_ok_def)
qed

lemma shot_step_ok:
  assumes "shot_step brackets_ok cfg d d'" and "screenshots_ok cfg d"
    and "1 \<le> tweet_screenshot_max_attempts cfg"
  shows "screenshots_ok cfg d'"
  using assms(1,2)
proof (cases rule: shot_step.cases)
  case (enqueue now ids)
  then show ?thesis using assms screenshots_ok_enqueue by simp
next
  case (claim now token)
  then show ?thesis using assms screenshots_ok_claim by simp
next
  case (renew now cl)
  have "screenshots_ok cfg (fst (renew_screenshot cfg now cl d))"
    unfolding renew_screenshot_def Let_def fst_conv
    by (rule screenshots_ok_update[OF assms(2)]) (auto intro: ss_row_ok_renew)
  with renew show ?thesis by simp
next
  case (finish now cl res)
  have "screenshots_ok cfg (fst (finish_screenshot cfg now cl res d))"
    unfolding finish_screenshot_def Let_def fst_conv
    by (rule screenshots_ok_update[OF assms(2)]) (auto intro: ss_row_ok_finish)
  with finish show ?thesis by simp
next
  case (busy now cl e)
  have "screenshots_ok cfg (reschedule_busy cfg now cl e d)"
    unfolding reschedule_busy_def
    by (rule screenshots_ok_update[OF assms(2)]) (auto intro: ss_row_ok_busy)
  with busy show ?thesis by simp
next
  case elsewhere
  then show ?thesis using assms(2) by (simp add: screenshots_ok_def)
qed

lemma screenshots_ok_empty: "screenshots d = [] \<Longrightarrow> screenshots_ok cfg d"
  by (simp add: screenshots_ok_def)

subsection \<open>Files of succeeded screenshots\<close>

definition stored_ok :: "store \<Rightarrow> bool" where
  "stored_ok st \<longleftrightarrow>
     (\<forall>r \<in> set (screenshots (fst st)). ss_status r = ''succeeded'' \<longrightarrow>
        (\<exists>p. ss_image_path r = Some p \<and> p \<in> set (snd st)))"

lemma stored_ok_update:
  assumes "stored_ok (d, files)"
    and "\<And>r. p r \<Longrightarrow> ss_status (f r) = ''succeeded'' \<Longrightarrow>
      \<exists>q. ss_image_path (f r) = Some q \<and> q \<in> set files"
  shows "stored_ok (d\<lparr>screenshots := row_update p f (screenshots d)\<rparr>, files)"
  using assms by (auto simp: stored_ok_def set_row_update)

lemma stored_ok_put:
  assumes "stored_ok (d, files)" and "ss_status r \<noteq> ''succeeded''"
  shows "stored_ok (put_screenshot r d, files)"
  using assms by (auto simp: stored_ok_def put_screenshot_def dest!: set_row_put_other)

lemma stored_ok_more: "stored_ok (d, files) \<Longrightarrow> set files \<subseteq> set files' \<Longrightarrow> stored_ok (d, files')"
  by (fastforce simp: stored_ok_def)

lemma stored_ok_fail: "stored_ok st \<Longrightarrow> stored_ok (fail_capture cfg env claim e st)"
  unfolding fail_capture_def finish_screenshot_def Let_def fst_conv
  by (cases st) (auto simp: ss_finish_values_def intro!: stored_ok_update split: if_splits)

lemma stored_ok_discard: "stored_ok st \<Longrightarrow> stored_ok (discard path st)"
  by (cases st) (fastforce simp: stored_ok_def discard_def discard_unreferenced_def
      delete_screenshot_def screenshot_path_def list_ex_iff split: if_splits option.splits)

lemma write_screenshot_stored:
  "write_screenshot tweet_id token files = Inr (files', path) \<Longrightarrow>
    path \<in> set files' \<and> set files \<subseteq> set files'"
  by (auto simp: write_screenshot_def Let_def split: if_splits)

lemma stored_ok_finish:
  assumes "stored_ok (d, files)" and "path \<in> set files"
  shows "stored_ok (fst (finish_screenshot cfg now claim (Captured cap path) d), files)"
  unfolding finish_screenshot_def Let_def fst_conv
  by (rule stored_ok_update[OF assms(1)]) (simp add: ss_finish_values_def assms(2))

lemma stored_ok_busy: "stored_ok (d, files) \<Longrightarrow> stored_ok (reschedule_busy cfg now claim e d, files)"
  unfolding reschedule_busy_def by (rule stored_ok_update) simp_all

lemma stored_ok_claim:
  assumes "claim_one brackets_ok cfg now token d = (d', c)" and "stored_ok (d, files)"
  shows "stored_ok (d', files)"
  using assms(1)
proof (cases rule: claim_one_cases)
  case nothing
  with assms(2) show ?thesis by simp
next
  case (failed r e)
  with assms(2) show ?thesis by (simp add: stored_ok_put ss_fail_def)
next
  case (leased r r' cl)
  then have "ss_status r' = ''running''" by (auto simp: ss_claim_row_def split: if_splits)
  with leased assms(2) show ?thesis by (simp add: stored_ok_put)
qed

lemma stored_ok_store_capture:
  assumes "stored_ok st" and after: "\<And>x. stored_ok x \<Longrightarrow> stored_ok (se_after env x)"
  shows "stored_ok (fst (store_capture cfg env claim cap st))"
proof (cases "write_screenshot (sc_tweet_id claim) (sc_token claim) (snd st)")
  case (Inl e)
  then show ?thesis using assms(1)
    by (auto simp: store_capture_def stored_ok_fail split: write_reply.split)
next
  case (Inr w)
  obtain files' path where w: "w = (files', path)" by (cases w)
  have st': "stored_ok (fst st, files')" and p: "path \<in> set files'"
    using write_screenshot_stored[OF Inr[unfolded w]] assms(1)
    by (cases st; auto intro: stored_ok_more)+
  obtain d1 ok where fin:
    "finish_screenshot cfg (se_finish_now env) claim (Captured cap path) (fst st) = (d1, ok)"
    by fastforce
  have d1: "stored_ok (d1, files')"
    using stored_ok_finish[OF st' p] fin by (metis fst_conv)
  show ?thesis using assms(1) Inr w fin d1 st'
    by (auto simp: store_capture_def Let_def stored_ok_fail intro!: stored_ok_discard after
        split: write_reply.split)
qed

subsection \<open>Properties\<close>

lemma shot_reach_ok:
  "shot_reach brackets_ok cfg d \<Longrightarrow> 1 \<le> tweet_screenshot_max_attempts cfg \<Longrightarrow> screenshots_ok cfg d"
  by (induction rule: shot_reach.induct) (auto intro: shot_step_ok screenshots_ok_empty)

text \<open>
  C7: However the claims and results of any number of workers interleave on one
  screenshot row, a claim with a fresh token commits at most one result, and nothing
  commits a result without having claimed the row.
\<close>

theorem screenshot_commits_once:
  assumes "run_lease ss_claim ss_commit row evs = (row', ts)"
    and "distinct (claimed_tokens evs)" and "ss_holder row = None"
  shows "distinct ts \<and> set ts \<subseteq> set (claimed_tokens evs)"
  using shot.commits_claimed[OF assms(1)] shot.commits_distinct[OF assms(1,2)] assms(3) by simp

definition sample_claim :: "string \<Rightarrow> screenshot_claim" where
  "sample_claim token = \<lparr>sc_tweet_id = ''11'', sc_token = token, sc_attempt = 1,
     sc_username = ''alice'', sc_expected_text = ''hello'', sc_expected_media_count = 0\<rparr>"

text \<open>Worker \<open>a\<close> lets its lease expire, \<open>b\<close> takes the row over, and only \<open>b\<close> commits.\<close>

definition sample_race :: "(screenshot_cfg \<times> time,
    screenshot_cfg \<times> time \<times> screenshot_claim \<times> screenshot_result, string) lease_event list" where
  "sample_race =
     [Claim (default_screenshot_cfg, 10) ''a'',
      Claim (default_screenshot_cfg, 10 + secs 500) ''b'',
      Commit (default_screenshot_cfg, 11 + secs 500, sample_claim ''a'', CaptureError (Text ''late'')) ''a'',
      Commit (default_screenshot_cfg, 12 + secs 500, sample_claim ''b'', CaptureError (Text ''busy'')) ''b'']"

lemma sample_race_commits:
  "snd (run_lease ss_claim ss_commit (new_screenshot 0 sample_tweet) sample_race) = [''b'']"
  by (simp add: sample_race_def ss_claim_def ss_claim_row_def ss_commit_def ss_due_def ss_holds_def
      new_screenshot_def native_repost_def lease_duration_def default_screenshot_cfg_def secs_def
      ss_finish_values_def sample_claim_def sample_simps)

theorem screenshot_commits_once_witness:
  "distinct [''b''] \<and> set [''b''] \<subseteq> set (claimed_tokens sample_race)"
proof (rule screenshot_commits_once)
  show "run_lease ss_claim ss_commit (new_screenshot 0 sample_tweet) sample_race =
      (fst (run_lease ss_claim ss_commit (new_screenshot 0 sample_tweet) sample_race), [''b''])"
    using sample_race_commits by (metis prod.collapse)
qed (simp_all add: sample_race_def ss_holder_def new_screenshot_def native_repost_def sample_simps)

text \<open>
  In every reachable screenshot table the posts are distinct, the status is one of
  the four of the model, a row carries a lease token and an expiry exactly while it is
  running, it has an image path exactly when it succeeded, and its attempts lie between
  0 and the configured maximum.
\<close>

theorem screenshots_reachable_ok:
  assumes "shot_reach brackets_ok cfg d" and "screenshot_cfg_valid cfg"
  shows "screenshots_ok cfg d"
  using shot_reach_ok[OF assms(1)] assms(2) by (simp add: screenshot_cfg_valid_def)

definition sample_claimed :: "db \<times> screenshot_claim option" where
  "sample_claimed = claim_one (\<lambda>_. True) default_screenshot_cfg 1000 ''aa''
     (fst (enqueue_tweet_screenshots 500 [''11''] sample_db))"

lemma sample_claimed_reach: "shot_reach (\<lambda>_. True) default_screenshot_cfg (fst sample_claimed)"
proof -
  have "shot_reach (\<lambda>_. True) default_screenshot_cfg sample_db"
    by (rule shot_reach.start) (simp add: sample_simps)
  then show ?thesis unfolding sample_claimed_def
    by (blast intro: shot_reach.step shot_step.enqueue shot_step.claim)
qed

theorem screenshots_reachable_ok_witness:
  "screenshots_ok default_screenshot_cfg (fst sample_claimed)"
  by (rule screenshots_reachable_ok[OF sample_claimed_reach default_screenshot_cfg_valid])

text \<open>The sample state is not empty: the row is claimed, with its first attempt.\<close>

lemma sample_claimed_row:
  "map ss_attempts (screenshots (fst sample_claimed)) = [1] \<and> snd sample_claimed \<noteq> None"
  by (simp add: sample_claimed_def enqueue_tweet_screenshots_def new_screenshot_def native_repost_def
      claim_one_def next_screenshot_def row_select_def ss_due_def ss_posted_at_def row_get_def
      default_screenshot_cfg_def capture_identity_def username_ok_def media_count_def jor_def
      ss_claim_row_def put_screenshot_def row_put_def row_update_def is_alpha_def is_lower_def
      is_upper_def is_digit_def code_def nonempty_def sample_simps)

text \<open>
  Whatever the browser, the file system, a cancellation and the other workers do
  during one turn of the screenshot processor, every succeeded row still has its image
  file in the screenshot directory afterwards, if the other workers keep that.
\<close>

theorem run_once_keeps_files:
  assumes "stored_ok st"
    and "\<And>x. stored_ok x \<Longrightarrow> stored_ok (se_during env x)"
    and "\<And>x. stored_ok x \<Longrightarrow> stored_ok (se_after env x)"
  shows "stored_ok (fst (run_once brackets_ok validate cfg env st))"
proof -
  obtain d1 c where e:
    "claim_one brackets_ok cfg (se_claim_now env) (se_token env) (fst st) = (d1, c)" by fastforce
  have d1: "stored_ok (d1, snd st)" using stored_ok_claim[OF e, of "snd st"] assms(1) by simp
  then have d2: "stored_ok (se_during env (d1, snd st))" by (rule assms(2))
  have "stored_ok (reschedule_busy cfg now cl er (fst x), snd x)" if "stored_ok x" for now cl er x
    using that by (cases x) (simp add: stored_ok_busy)
  with e d1 d2 assms(3) show ?thesis
    by (auto simp: run_once_def Let_def stored_ok_fail stored_ok_store_capture
        split: option.split capture_reply.split sum.split)
qed

definition sample_env :: shot_env where
  "sample_env = \<lparr>se_claim_now = 1000, se_token = ''aaaaaaaaaaaaaaaaaaaaaaaaaaaaaaaa'',
     se_during = id, se_reply = Reply JNull, se_lost = False, se_write = Written,
     se_finish_now = 2000, se_finish = CancelledAfterCommit, se_after = id\<rparr>"

theorem run_once_keeps_files_witness:
  "stored_ok (fst (run_once (\<lambda>_. True)
     (\<lambda>_ _ _. Inr \<lparr>cap_png = [], cap_sha256 = [], cap_width = 1, cap_height = 1,
                   cap_canonical_url = [], cap_captured_at = 0\<rparr>)
     default_screenshot_cfg sample_env (fst (enqueue_tweet_screenshots 500 [''11''] sample_db), [])))"
proof (rule run_once_keeps_files)
  show "stored_ok (fst (enqueue_tweet_screenshots 500 [''11''] sample_db), [])"
    by (simp add: stored_ok_def enqueue_tweet_screenshots_def new_screenshot_def native_repost_def
        sample_simps)
qed (simp_all add: sample_env_def)

text \<open>
  Enqueueing screenshots never touches a row that exists, adds one row per known
  post that has none, and is idempotent: the same call again adds nothing.
\<close>

theorem enqueue_screenshots_idempotent:
  assumes "enqueue_tweet_screenshots now ids d = (d', n)"
  shows "\<exists>new. screenshots d' = screenshots d @ new \<and> length new = n \<and>
      ss_tweet_id ` set new =
        (set ids \<inter> tw_tweet_id ` set (tweets d)) - ss_tweet_id ` set (screenshots d) \<and>
      (\<forall>now'. enqueue_tweet_screenshots now' ids d' = (d', 0))"
proof -
  let ?ts = "filter (\<lambda>t. tw_tweet_id t \<in> set ids) (tweets d)"
  obtain tbl ks where e:
    "insert_ignore ss_tweet_id (screenshots d) (map (new_screenshot now) ?ts) = (tbl, ks)" by fastforce
  from e have d': "d' = d\<lparr>screenshots := tbl\<rparr>" "n = length ks"
    using assms by (auto simp: enqueue_tweet_screenshots_def Let_def split: if_splits prod.splits)
  obtain new where new: "tbl = screenshots d @ new" "map ss_tweet_id new = ks"
    using insert_ignore_prefix[OF e] by blast
  have keys: "ss_tweet_id ` set (map (new_screenshot t) ?ts) = set ids \<inter> tw_tweet_id ` set (tweets d)"
    for t by (auto simp: image_image)
  have sub: "set ids \<inter> tw_tweet_id ` set (tweets d) \<subseteq> ss_tweet_id ` set tbl"
    using insert_ignore_keys[OF e] keys[of now] by auto
  have "insert_ignore ss_tweet_id tbl (map (new_screenshot t) ?ts) = (tbl, [])" for t
    by (rule insert_ignore_known) (use sub keys[of t] in blast)
  then have "enqueue_tweet_screenshots t ids d' = (d', 0)" for t
    by (auto simp: enqueue_tweet_screenshots_def Let_def d')
  moreover have "ss_tweet_id ` set new = set ks" using new(2) by (metis list.set_map)
  ultimately show ?thesis using new insert_ignore_keys[OF e] keys[of now] d' by auto
qed

theorem enqueue_screenshots_idempotent_witness:
  "\<exists>new. screenshots (fst (enqueue_tweet_screenshots 500 [''11''] sample_db)) =
      screenshots sample_db @ new \<and>
    length new = snd (enqueue_tweet_screenshots 500 [''11''] sample_db) \<and>
    ss_tweet_id ` set new =
      (set [''11''] \<inter> tw_tweet_id ` set (tweets sample_db)) - ss_tweet_id ` set (screenshots sample_db) \<and>
    (\<forall>now'. enqueue_tweet_screenshots now' [''11''] (fst (enqueue_tweet_screenshots 500 [''11''] sample_db)) =
      (fst (enqueue_tweet_screenshots 500 [''11''] sample_db), 0))"
  by (rule enqueue_screenshots_idempotent) simp

end
