(* ===== verification/Publish.thy ===== *)
theory Publish
  imports PublishResults ArticleMedia QQText Screenshots Config Leases
begin

text \<open>
  The durable publication of generated articles, \<open>backend/app/services/ai_publish.py\<close>:
  one record per article and channel, created with the draft, dispatched to the XHS
  worker or into the QQ outbox, retried while nothing was sent, and reconciled with
  the journal of browser jobs. Each transaction is a function on the database;
  \<open>dispatch_xhs\<close> and \<open>dispatch_qq\<close> compose them the way the code does, with
  the clock, the fresh ids, the answers of the services and what other workers commit
  between the transactions as arguments.
\<close>

definition channels :: "string list" where
  "channels = [''xhs'', ''qq'']"

definition preflight_retry_limit :: int where
  "preflight_retry_limit = 12"

definition xhs_not_accepted_retry_limit :: int where
  "xhs_not_accepted_retry_limit = 5"

definition xhs_same_admin_wait :: time where
  "xhs_same_admin_wait = secs 10"

definition xhs_result_check :: time where
  "xhs_result_check = secs 10"

definition xhs_note_title_max_length :: nat where
  "xhs_note_title_max_length = 20"

definition xhs_note_content_max_length :: nat where
  "xhs_note_content_max_length = 1000"

subsection \<open>Creating the records of a draft\<close>

text \<open>\<open>isinstance(v, int)\<close>, which holds of Booleans too.\<close>

fun as_int :: "json \<Rightarrow> int option" where
  "as_int (JInt i) = Some i"
| "as_int (JBool b) = Some (if b then 1 else 0)"
| "as_int _ = None"

definition positive_int :: "json \<Rightarrow> int option" where
  "positive_int v = (case as_int v of Some i \<Rightarrow> if 1 \<le> i then Some i else None | None \<Rightarrow> None)"

definition auto_channels :: "json \<Rightarrow> string list" where
  "auto_channels snapshot =
     (let values = jor (jget (jor snapshot (JObj [])) ''auto_publish_channels'') (JList []) in
      if is_list values then filter (\<lambda>c. JStr c \<in> set (jlist values)) channels else [])"

definition json_string :: "string option \<Rightarrow> json" where
  "json_string s = (case s of None \<Rightarrow> JNull | Some t \<Rightarrow> JStr t)"

definition json_int :: "int option \<Rightarrow> json" where
  "json_int i = (case i of None \<Rightarrow> JNull | Some n \<Rightarrow> JInt n)"

definition payload_snapshot :: "gen_job \<Rightarrow> draft \<Rightarrow> json" where
  "payload_snapshot job a =
     (let task = (if is_dict (gj_task_snapshot job) then gj_task_snapshot job else JObj []);
          metadata = jor (dr_draft_metadata a) (JObj []) in
      JObj
       [(''title'', JStr (dr_title a)),
        (''content'', JStr (dr_content a)),
        (''excerpt'', json_string (dr_excerpt a)),
        (''images'', JList (map JStr (dr_images a))),
        (''include_source_screenshot'', JBool (jget metadata ''include_source_screenshot'' \<noteq> JBool False)),
        (''source_tweet_id'', json_int (dr_source_tweet_id a)),
        (''draft_revision'', JInt (dr_revision a)),
        (''owner_admin_id'', jget task ''owner_admin_id''),
        (''qq_bot_id'', jget task ''qq_bot_id''),
        (''qq_group_openids'', jor (jget task ''qq_group_openids'') (JList [])),
        (''qq_target'', jget task ''qq_target'')])"

definition new_dispatch :: "time \<Rightarrow> int \<Rightarrow> gen_job \<Rightarrow> draft \<Rightarrow> string \<Rightarrow> publish_dispatch" where
  "new_dispatch now i job a channel =
     \<lparr>dp_id = i, dp_job_id = gj_id job, dp_draft_id = dr_id a,
      dp_owner_admin_id = positive_int (jget (payload_snapshot job a) ''owner_admin_id''),
      dp_channel = channel, dp_status = ''pending'', dp_attempts = 0, dp_rejection_attempts = 0,
      dp_next_attempt_at = now, dp_payload_snapshot = payload_snapshot job a,
      dp_article_publish_attempt_id = None, dp_xhs_job_id = None, dp_last_error = None,
      dp_reconciliation_result = None, dp_reconciliation_note = None, dp_published_url = None,
      dp_reconciled_at = None, dp_reconciled_by_admin_id = None, dp_started_at = None,
      dp_completed_at = None, dp_created_at = now, dp_updated_at = now\<rparr>"

fun add_dispatches :: "time \<Rightarrow> gen_job \<Rightarrow> draft \<Rightarrow> string list \<Rightarrow> db \<Rightarrow> db" where
  "add_dispatches now job a [] d = d"
| "add_dispatches now job a (c # cs) d =
     add_dispatches now job a cs
       (d\<lparr>dispatches := dispatches d @ [new_dispatch now (serial d) job a c], serial := serial d + 1\<rparr>)"

definition put_job_row :: "gen_job \<Rightarrow> db \<Rightarrow> db" where
  "put_job_row job d = d\<lparr>gen_jobs := row_put gj_id job (gen_jobs d)\<rparr>"

definition initialize_publish_dispatches :: "time \<Rightarrow> gen_job \<Rightarrow> draft \<Rightarrow> db \<Rightarrow> db \<times> nat" where
  "initialize_publish_dispatches now job a d =
     (if gj_publish_outbox_initialized_at job \<noteq> None then (d, 0)
      else let cs = auto_channels (gj_task_snapshot job) in
        (put_job_row (job\<lparr>gj_publish_outbox_initialized_at := Some now\<rparr>) (add_dispatches now job a cs d),
         length cs))"

subsection \<open>Explicit retry\<close>

definition confirmed_xhs_failure :: "publish_dispatch \<Rightarrow> db \<Rightarrow> bool" where
  "confirmed_xhs_failure r d =
     (if dp_channel r \<noteq> ''xhs'' \<or> dp_status r \<noteq> ''failed'' \<or> \<not> nonempty (dp_xhs_job_id r) then False
      else case bj_get ''xhs'' (the (dp_xhs_job_id r)) d of
             None \<Rightarrow> False
           | Some res \<Rightarrow> bj_state res = ''failed'' \<and> bj_admin_id res = dp_owner_admin_id r)"

definition retried :: "time \<Rightarrow> publish_dispatch \<Rightarrow> publish_dispatch" where
  "retried now r =
     r\<lparr>dp_status := ''pending'', dp_next_attempt_at := now, dp_last_error := None,
       dp_completed_at := None, dp_rejection_attempts := 0, dp_reconciliation_result := None,
       dp_reconciliation_note := None, dp_published_url := None, dp_reconciled_at := None,
       dp_reconciled_by_admin_id := None, dp_article_publish_attempt_id := None,
       dp_xhs_job_id := None\<rparr>"

definition retry_failed_dispatch :: "time \<Rightarrow> int \<Rightarrow> db \<Rightarrow> (db \<times> publish_dispatch) option" where
  "retry_failed_dispatch now i d =
     (case dp_get i d of
        None \<Rightarrow> None
      | Some r \<Rightarrow>
          (if dp_status r \<noteq> ''failed'' then None
           else if dp_article_publish_attempt_id r \<noteq> None \<and> \<not> confirmed_xhs_failure r d then None
           else Some (put_dispatch (retried now r) d, retried now r)))"

text \<open>The route \<open>retry_ai_publish_dispatch\<close> around it.\<close>

definition retry_route :: "time \<Rightarrow> int \<Rightarrow> int \<Rightarrow> db \<Rightarrow> api_error + db" where
  "retry_route now admin i d =
     (case dp_get i d of
        None \<Rightarrow> Inl (NotFound ''ai_publish_dispatch_not_found'')
      | Some r \<Rightarrow>
          (let payload = jor (dp_payload_snapshot r) (JObj []) in
           if jget payload ''owner_admin_id'' \<notin> {JNull, JInt admin}
           then Inl (Forbidden ''ai_publish_dispatch_forbidden'')
           else case row_get dr_id (dp_draft_id r) (drafts d) of
             None \<Rightarrow> Inl (NotFound ''article_not_found'')
           | Some a \<Rightarrow>
               (if owner_of r \<notin> {JNull, JInt admin} then Inl (Forbidden ''ai_publish_dispatch_forbidden'')
                else if jget payload ''draft_revision'' \<noteq> JInt (dr_revision a)
                then Inl (Conflict ''ai_publish_dispatch_article_changed'')
                else if dr_publish_channel a = Some (dp_channel r) \<and> dr_publish_attempt_id a \<noteq> None
                then Inl (Conflict ''ai_publish_dispatch_manual_attempt_exists'')
                else case retry_failed_dispatch now i d of
                  None \<Rightarrow> Inl (Conflict ''ai_publish_dispatch_not_retryable'')
                | Some (d', _) \<Rightarrow> Inr d')))"

subsection \<open>Closing a record\<close>

definition finish_row :: "time \<Rightarrow> string \<Rightarrow> msg option \<Rightarrow> publish_dispatch \<Rightarrow> publish_dispatch" where
  "finish_row now status err r =
     r\<lparr>dp_status := status, dp_last_error := clip_error err, dp_completed_at := Some now\<rparr>"

definition finish_attempt :: "time \<Rightarrow> string \<Rightarrow> msg option \<Rightarrow> publish_attempt \<Rightarrow> publish_attempt" where
  "finish_attempt now status err a =
     (if pa_status a = ''queued''
      then a\<lparr>pa_status := (if status = ''published'' then ''published'' else ''failed''),
             pa_error := err, pa_completed_at := Some now\<rparr>
      else a)"

definition finish_dispatch :: "time \<Rightarrow> publish_dispatch \<Rightarrow> string \<Rightarrow> msg option \<Rightarrow> db \<Rightarrow> db" where
  "finish_dispatch now r status err d =
     (let d1 = put_dispatch (finish_row now status err r) d in
      case attempt_of r d of
        None \<Rightarrow> d1
      | Some a \<Rightarrow> put_attempt (finish_attempt now status (clip_error err) a) d1)"

definition waiting :: "publish_dispatch \<Rightarrow> bool" where
  "waiting r \<longleftrightarrow> dp_status r \<in> {''pending'', ''retry_wait''}"

definition preflight_delay :: "nat \<Rightarrow> int" where
  "preflight_delay attempts = min 300 (10 * 2 ^ min 5 (attempts - 1))"

definition preflight_failure :: "time \<Rightarrow> int \<Rightarrow> msg \<Rightarrow> bool \<Rightarrow> db \<Rightarrow> db" where
  "preflight_failure now i message retry d =
     (case dp_get i d of
        None \<Rightarrow> d
      | Some r \<Rightarrow>
          (if \<not> waiting r then d
           else let r1 = r\<lparr>dp_attempts := dp_attempts r + 1\<rparr> in
             if retry \<and> dp_attempts r1 < preflight_retry_limit
             then put_dispatch (r1\<lparr>dp_status := ''retry_wait'',
                    dp_next_attempt_at := now + secs (preflight_delay (nat (dp_attempts r1))),
                    dp_last_error := Some (clip 2000 message)\<rparr>) d
             else finish_dispatch now r1 ''failed'' (Some message) d))"

subsection \<open>Preparing text and images\<close>

text \<open>
  What the preparation reads beside the database: the credential rows, the two
  volumes, the digest and size of a screenshot file and the outcome of copying it.
\<close>

record pub_env =
  pe_has_credentials :: "int \<Rightarrow> bool"
  pe_shots :: "string list"
  pe_digest :: "string \<Rightarrow> string"
  pe_bytes :: "string \<Rightarrow> nat"
  pe_copy_error :: "msg option"

datatype prep = Ready json "string list" int | Invalid msg | Awaiting msg | Crashed

fun resolve_images :: "int \<Rightarrow> volume \<Rightarrow> json list \<Rightarrow> prep + string list" where
  "resolve_images admin vol [] = Inr []"
| "resolve_images admin vol (JStr s # js) =
     (case article_image_path s (if admin \<noteq> 0 then Some admin else None) vol of
        None \<Rightarrow> Inl (Invalid (Lit ''the article has a missing image'' []))
      | Some p \<Rightarrow> map_sum id (\<lambda>ps. p # ps) (resolve_images admin vol js))"
| "resolve_images admin vol (_ # js) = Inl Crashed"

text \<open>The checks made only when an image is required, that is for XHS.\<close>

definition xhs_text_error :: "json \<Rightarrow> msg option" where
  "xhs_text_error payload =
     (let blank = (\<lambda>v. case v of JStr t \<Rightarrow> strip t = [] | _ \<Rightarrow> True);
          long = (\<lambda>n v. case v of JStr t \<Rightarrow> n < length t | _ \<Rightarrow> False) in
      if blank (jget payload ''title'') then Some (Lit ''XHS title is empty'' [])
      else if blank (jget payload ''content'') then Some (Lit ''XHS content is empty'' [])
      else if long xhs_note_title_max_length (jget payload ''title'') then Some (Lit ''XHS title is too long'' [''20''])
      else if long xhs_note_content_max_length (jget payload ''content'') then Some (Lit ''XHS content is too long'' [''1000''])
      else None)"

definition xhs_owner_error :: "pub_env \<Rightarrow> int \<Rightarrow> db \<Rightarrow> msg option" where
  "xhs_owner_error env admin d =
     (case row_get ad_id admin (admins d) of
        None \<Rightarrow> Some (Lit ''the owner of the task is disabled'' [])
      | Some a \<Rightarrow>
          (if \<not> ad_is_active a then Some (Lit ''the owner of the task is disabled'' [])
           else if \<not> pe_has_credentials env admin then Some (Lit ''the owner has no XHS login'' [])
           else None))"

definition source_screenshot :: "json \<Rightarrow> db \<Rightarrow> tweet_screenshot option" where
  "source_screenshot payload d =
     (case as_int (jget payload ''source_tweet_id'') of
        None \<Rightarrow> None
      | Some t \<Rightarrow>
          (case row_get tw_id t (tweets d) of
             None \<Rightarrow> None
           | Some tw \<Rightarrow> row_get ss_tweet_id (tw_tweet_id tw) (screenshots d)))"

definition track_copy :: "int \<Rightarrow> string \<Rightarrow> db \<Rightarrow> db" where
  "track_copy draft_id img d =
     (case row_get dr_id draft_id (drafts d) of
        None \<Rightarrow> d
      | Some a \<Rightarrow>
          d\<lparr>drafts := row_put dr_id
              (a\<lparr>dr_draft_metadata := jset (jor (dr_draft_metadata a) (JObj [])) source_copies_key
                   (JList (map JStr (rev (remdups (rev (article_screenshot_copies a @ [img]))))))\<rparr>)
              (drafts d)\<rparr>)"

definition add_source :: "pub_env \<Rightarrow> bool \<Rightarrow> publish_dispatch \<Rightarrow> int \<Rightarrow> json \<Rightarrow> string list \<Rightarrow> db \<times> volume \<Rightarrow>
    (db \<times> volume) \<times> (prep + string list)" where
  "add_source env require_image r admin payload paths s =
     (if \<not> (truthy (jget payload ''include_source_screenshot'') \<and> truthy (jget payload ''source_tweet_id''))
      then (s, Inr paths)
      else
        (let shot = source_screenshot payload (fst s) in
         case shot of
           Some sh \<Rightarrow>
             (if ss_status sh = ''succeeded'' then
                (case screenshot_path (ss_image_path sh) (pe_shots env) of
                   None \<Rightarrow> (s, Inl (Invalid (Lit ''the source screenshot file is missing'' [])))
                 | Some src \<Rightarrow>
                     (if admin = 0 then (s, Inr paths)
                      else case snapshot_article_screenshot (pe_digest env src) (pe_bytes env src)
                                  (pe_copy_error env) (dp_draft_id r) admin (snd s) of
                             (vol, Inl e) \<Rightarrow> ((fst s, vol), Inl (Invalid e))
                           | (vol, Inr img) \<Rightarrow> ((track_copy (dp_draft_id r) img (fst s), vol), Inr (img # paths))))
              else if require_image \<and> paths = [] \<and> ss_status sh \<in> {''pending'', ''running'', ''retry_wait''}
              then (s, Inl (Awaiting (Lit ''the source screenshot is not ready'' [])))
              else (s, Inr paths))
         | None \<Rightarrow>
             (if require_image \<and> paths = []
              then (s, Inl (Awaiting (Lit ''the source screenshot is not ready'' [])))
              else (s, Inr paths))))"

fun first_error :: "(msg + 'a) list \<Rightarrow> msg option" where
  "first_error [] = None"
| "first_error (Inl e # xs) = Some e"
| "first_error (Inr _ # xs) = first_error xs"

definition xhs_images_error :: "int \<Rightarrow> volume \<Rightarrow> string list \<Rightarrow> msg option" where
  "xhs_images_error admin vol paths =
     (if paths = [] then Some (Lit ''an XHS note needs an image'' [])
      else if 18 < length paths then Some (Lit ''an XHS note has at most 18 images'' [])
      else first_error (map (\<lambda>p. validated_source p admin vol) paths))"

text \<open>
  \<open>_prepare_media\<close>: one transaction, so that a failure leaves the database alone;
  a copied file stays in the volume.
\<close>

definition prepare_media :: "pub_env \<Rightarrow> bool \<Rightarrow> int \<Rightarrow> db \<times> volume \<Rightarrow> (db \<times> volume) \<times> prep" where
  "prepare_media env require_image i s =
     (case dp_get i (fst s) of
        None \<Rightarrow> (s, Invalid (Lit ''the dispatch does not exist'' []))
      | Some r \<Rightarrow>
          (let payload = jor (dp_payload_snapshot r) (JObj []);
               owner = positive_int (jget payload ''owner_admin_id'');
               admin = (case owner of None \<Rightarrow> 0 | Some a \<Rightarrow> a);
               images = jor (jget payload ''images'') (JList []) in
           if require_image \<and> owner = None then (s, Invalid (Lit ''the task has no owner'' []))
           else case (if require_image then xhs_owner_error env admin (fst s) else None) of
             Some e \<Rightarrow> (s, Invalid e)
           | None \<Rightarrow>
               (case (if require_image then xhs_text_error payload else None) of
                  Some e \<Rightarrow> (s, Invalid e)
                | None \<Rightarrow>
                    (if \<not> is_list images then (s, Invalid (Lit ''the images are not a list'' []))
                     else case resolve_images admin (snd s) (jlist images) of
                       Inl e \<Rightarrow> (s, e)
                     | Inr paths \<Rightarrow>
                         (case add_source env require_image r admin payload paths s of
                            (s', Inl e) \<Rightarrow> ((fst s, snd s'), e)
                          | (s', Inr paths') \<Rightarrow>
                              (case (if require_image then xhs_images_error admin (snd s') paths' else None) of
                                 Some e \<Rightarrow> ((fst s, snd s'), Invalid e)
                               | None \<Rightarrow> (s', Ready payload paths' admin)))))))"

subsection \<open>Dispatching to XHS\<close>

definition active_for :: "int \<Rightarrow> int \<Rightarrow> publish_dispatch \<Rightarrow> bool" where
  "active_for admin i r \<longleftrightarrow>
     dp_channel r = ''xhs'' \<and> dp_owner_admin_id r = Some admin \<and>
     dp_status r \<in> {''dispatching'', ''reconciling''} \<and> dp_id r \<noteq> i"

definition reserved_row :: "time \<Rightarrow> string \<Rightarrow> string option \<Rightarrow> publish_dispatch \<Rightarrow> publish_dispatch" where
  "reserved_row now attempt_id job r =
     r\<lparr>dp_status := ''dispatching'', dp_attempts := dp_attempts r + 1, dp_started_at := Some now,
       dp_article_publish_attempt_id := Some attempt_id, dp_xhs_job_id := job,
       dp_next_attempt_at := now + xhs_result_check, dp_last_error := None\<rparr>"

definition new_attempt :: "time \<Rightarrow> string \<Rightarrow> int \<Rightarrow> string \<Rightarrow> msg \<Rightarrow> int \<Rightarrow> publish_attempt" where
  "new_attempt now attempt_id article channel target deliveries =
     \<lparr>pa_attempt_id = attempt_id, pa_article_id = article, pa_channel = channel, pa_status = ''queued'',
      pa_target_summary = target, pa_delivery_count = deliveries, pa_error = None,
      pa_reconciliation_result = None, pa_reconciliation_note = None, pa_published_url = None,
      pa_reconciled_at = None, pa_reconciled_by_admin_id = None, pa_started_at = Some now,
      pa_completed_at = None, pa_created_at = now, pa_updated_at = now\<rparr>"

definition add_attempt :: "publish_attempt \<Rightarrow> db \<Rightarrow> db" where
  "add_attempt a d = d\<lparr>publish_attempts := publish_attempts d @ [a]\<rparr>"

text \<open>The reservation transaction; \<open>True\<close> when the caller goes on to submit.\<close>

definition reserve_xhs :: "time \<Rightarrow> int \<Rightarrow> int \<Rightarrow> string \<Rightarrow> string option \<Rightarrow> db \<Rightarrow> db \<times> bool" where
  "reserve_xhs now i admin attempt_id job d =
     (case dp_get i d of
        None \<Rightarrow> (d, False)
      | Some r \<Rightarrow>
          (if \<not> waiting r then (d, False)
           else if row_get ad_id admin (admins d) = None
           then (finish_dispatch now r ''failed'' (Some (Lit ''the owner no longer exists'' [])) d, False)
           else if list_ex (active_for admin i) (dispatches d)
           then (put_dispatch (r\<lparr>dp_status := ''retry_wait'',
                   dp_next_attempt_at := now + xhs_same_admin_wait,
                   dp_last_error := Some (Lit ''another note of the account is being sent'' [])\<rparr>) d, False)
           else (add_attempt (new_attempt now attempt_id (dp_draft_id r) ''xhs''
                    (Lit ''XHS account of admin'' [show_int admin]) 1)
                   (put_dispatch (reserved_row now attempt_id job r) d), True)))"

definition rejection_delay :: "nat \<Rightarrow> int" where
  "rejection_delay rejections = min 120 (5 * 2 ^ (rejections - 1))"

definition rejected_row :: "time \<Rightarrow> msg \<Rightarrow> int option \<Rightarrow> publish_dispatch \<Rightarrow> publish_dispatch" where
  "rejected_row now err retry_after r =
     (let n = dp_rejection_attempts r + 1;
          r1 = r\<lparr>dp_rejection_attempts := n, dp_article_publish_attempt_id := None,
                 dp_xhs_job_id := None, dp_started_at := None, dp_last_error := Some (clip 2000 err)\<rparr>;
          base = rejection_delay (nat n);
          delay = (case retry_after of None \<Rightarrow> base | Some s \<Rightarrow> max base (min 120 s)) in
      if n \<ge> xhs_not_accepted_retry_limit
      then r1\<lparr>dp_status := ''failed'', dp_completed_at := Some now\<rparr>
      else r1\<lparr>dp_status := ''retry_wait'', dp_next_attempt_at := now + secs delay,
              dp_completed_at := None\<rparr>)"

definition fail_attempt :: "time \<Rightarrow> msg \<Rightarrow> publish_attempt \<Rightarrow> publish_attempt" where
  "fail_attempt now err a =
     a\<lparr>pa_status := ''failed'', pa_error := Some (clip 2000 err), pa_completed_at := Some now\<rparr>"

definition pointer_attempt :: "publish_dispatch \<Rightarrow> db \<Rightarrow> publish_attempt option" where
  "pointer_attempt r d =
     (case dp_article_publish_attempt_id r of None \<Rightarrow> None | Some a \<Rightarrow> pa_get a d)"

definition not_accepted :: "time \<Rightarrow> int \<Rightarrow> msg \<Rightarrow> int option \<Rightarrow> db \<Rightarrow> db" where
  "not_accepted now i err retry_after d =
     (case dp_get i d of
        None \<Rightarrow> d
      | Some r \<Rightarrow>
          (if dp_status r \<noteq> ''dispatching'' then d
           else let d1 = put_dispatch (rejected_row now err retry_after r) d in
             case pointer_attempt r d of
               None \<Rightarrow> d1
             | Some a \<Rightarrow> put_attempt (fail_attempt now err a) d1))"

text \<open>The handler of any other failure of the submission.\<close>

definition submit_failed :: "(string \<Rightarrow> bool) \<Rightarrow> time \<Rightarrow> int \<Rightarrow> string option \<Rightarrow> db \<Rightarrow> db" where
  "submit_failed bo now i job d =
     (case dp_get i d of
        None \<Rightarrow> d
      | Some r \<Rightarrow>
          (if dp_status r \<noteq> ''dispatching'' then d
           else if nonempty job
           then fst (apply_xhs_job_result bo now (the job)
                  (put_dispatch (r\<lparr>dp_status := ''reconciling'',
                     dp_last_error := Some (Lit ''the connection broke, the result is being fetched'' []),
                     dp_completed_at := None\<rparr>) d))
           else finish_dispatch now r ''uncertain'' (Some (Lit ''the request was not confirmed'' [])) d))"

definition mark_published :: "time \<Rightarrow> int \<Rightarrow> db \<Rightarrow> db" where
  "mark_published now i d =
     (case dp_get i d of
        None \<Rightarrow> d
      | Some r \<Rightarrow>
          (if dp_status r = ''dispatching'' then finish_dispatch now r ''published'' None d else d))"

datatype submit_reply = Accepted | Rejected msg "int option" | Interrupted | Broken

text \<open>
  \<open>_dispatch_xhs\<close>. \<open>http\<close> selects the transport, \<open>client_error\<close> is a failure
  to build the HTTP client, \<open>submit\<close> the answer to the submitted note; \<open>world k\<close>
  is what other workers commit before the \<open>k\<close>-th following transaction, which runs
  at \<open>clock k\<close>.
\<close>

record dispatch_env =
  de_http :: bool
  de_client_error :: "msg option"
  de_attempt_id :: string
  de_job_id :: string
  de_submit :: "json \<Rightarrow> string list \<Rightarrow> submit_reply"
  de_clock :: "nat \<Rightarrow> time"
  de_world :: "nat \<Rightarrow> db \<Rightarrow> db"

definition submitted_job :: "dispatch_env \<Rightarrow> string option" where
  "submitted_job e = (if de_http e then Some (de_job_id e) else None)"

definition after_submit :: "(string \<Rightarrow> bool) \<Rightarrow> dispatch_env \<Rightarrow> int \<Rightarrow> submit_reply \<Rightarrow> db \<Rightarrow> db" where
  "after_submit bo e i reply d =
     (case reply of
        Accepted \<Rightarrow>
          (if de_http e then fst (apply_xhs_job_result bo (de_clock e 1) (de_job_id e) d)
           else mark_published (de_clock e 1) i d)
      | Rejected err retry_after \<Rightarrow> not_accepted (de_clock e 1) i err retry_after d
      | Interrupted \<Rightarrow> d
      | Broken \<Rightarrow> submit_failed bo (de_clock e 1) i (submitted_job e) d)"

definition dispatch_xhs :: "(string \<Rightarrow> bool) \<Rightarrow> pub_env \<Rightarrow> dispatch_env \<Rightarrow> int \<Rightarrow> db \<times> volume \<Rightarrow> db \<times> volume" where
  "dispatch_xhs bo env e i s =
     (case prepare_media env True i s of
        ((d, vol), Awaiting m) \<Rightarrow> (preflight_failure (de_clock e 0) i m True (de_world e 0 d), vol)
      | ((d, vol), Invalid m) \<Rightarrow> (preflight_failure (de_clock e 0) i m False (de_world e 0 d), vol)
      | ((d, vol), Crashed) \<Rightarrow> (d, vol)
      | ((d, vol), Ready payload paths admin) \<Rightarrow>
          (case (if de_http e then de_client_error e else None) of
             Some m \<Rightarrow> (preflight_failure (de_clock e 0) i m False (de_world e 0 d), vol)
           | None \<Rightarrow>
               (case reserve_xhs (de_clock e 0) i admin (de_attempt_id e) (submitted_job e) (de_world e 0 d) of
                  (d1, False) \<Rightarrow> (d1, vol)
                | (d1, True) \<Rightarrow> (after_submit bo e i (de_submit e payload paths) (de_world e 1 d1), vol))))"

subsection \<open>Dispatching to QQ\<close>

fun strings_of :: "json \<Rightarrow> string list" where
  "strings_of (JList js) = json_strings js"
| "strings_of _ = []"

definition qq_groups_of :: "json \<Rightarrow> string list" where
  "qq_groups_of groups = sort (remdups (filter (\<lambda>g. g \<noteq> []) (map strip (strings_of groups))))"

text \<open>
  The three headings of the message are literals in Chinese; \<open>label\<close> gives them by
  their English names. Title and content are strings (\<open>payload_snapshot\<close>).
\<close>

fun json_text :: "json \<Rightarrow> string" where
  "json_text (JStr s) = s"
| "json_text _ = []"

definition qq_text :: "(string \<Rightarrow> string) \<Rightarrow> json \<Rightarrow> string" where
  "qq_text label payload =
     join [CHR 0x0A]
       [label ''title'' @ json_text (jget payload ''title''),
        label ''excerpt'' @ json_text (jget payload ''excerpt''),
        label ''content'' @ json_text (jget payload ''content'')]"

definition qq_parts :: "string \<Rightarrow> string list \<Rightarrow> (string \<times> string option) list" where
  "qq_parts text paths =
     (case split_qq_text qq_message_max_chars text of
        None \<Rightarrow> []
      | Some bodies \<Rightarrow> map (\<lambda>b. (b, None)) bodies @ map (\<lambda>p. ([], Some p)) paths)"

definition qq_key :: "int \<Rightarrow> string \<Rightarrow> nat \<Rightarrow> string" where
  "qq_key job grp sequence =
     ''ai:'' @ show_int job @ '':qq:'' @ grp @ '':'' @ show_nat sequence"

definition new_delivery :: "time \<Rightarrow> int \<Rightarrow> publish_dispatch \<Rightarrow> qq_bot \<Rightarrow> string \<Rightarrow> string \<Rightarrow>
    nat \<times> string \<times> string option \<Rightarrow> qq_delivery" where
  "new_delivery now max_attempts r qbot attempt_id grp part =
     (case part of (sequence, body, media) \<Rightarrow>
     \<lparr>qd_id = 0, qd_task_id = None, qd_target_id = None, qd_source_tweet_id = None,
      qd_article_id = Some (dp_draft_id r), qd_article_publish_attempt_id = Some attempt_id,
      qd_sequence = Some (int sequence), qd_media_path = media, qd_kind = ''article'',
      qd_idempotency_key = qq_key (dp_job_id r) grp sequence, qd_bot_name = qb_name qbot,
      qd_bot_app_id = qb_app_id qbot, qd_bot_version = qb_version qbot, qd_target_name = grp,
      qd_group_openid = grp, qd_message_body = Text body, qd_status = ''queued'', qd_attempts = 0,
      qd_max_attempts = max_attempts, qd_next_attempt_at = now, qd_lease_expires_at = None,
      qd_claim_token = None, qd_claimed_by = None, qd_provider_message_id = None,
      qd_last_error = None, qd_started_at = None, qd_completed_at = None, qd_created_at = now,
      qd_updated_at = now\<rparr>)"

definition article_deliveries :: "time \<Rightarrow> int \<Rightarrow> publish_dispatch \<Rightarrow> qq_bot \<Rightarrow> string \<Rightarrow> string list \<Rightarrow>
    (string \<times> string option) list \<Rightarrow> qq_delivery list" where
  "article_deliveries now max_attempts r qbot attempt_id groups parts =
     concat (map (\<lambda>g. map (new_delivery now max_attempts r qbot attempt_id g) (enumerate 0 parts)) groups)"

text \<open>\<open>session.add_all\<close> of deliveries: they get consecutive ids.\<close>

definition add_deliveries :: "qq_delivery list \<Rightarrow> db \<Rightarrow> db \<times> int list" where
  "add_deliveries rows d =
     (let numbered = map (\<lambda>(k, r). r\<lparr>qd_id := serial d + int k\<rparr>) (enumerate 0 rows) in
      (d\<lparr>qq_deliveries := qq_deliveries d @ numbered, serial := serial d + int (length rows)\<rparr>,
       map qd_id numbered))"

definition joined_groups :: "qq_bot \<Rightarrow> string list \<Rightarrow> db \<Rightarrow> string list" where
  "joined_groups qbot groups d =
     map qg_group_openid (filter (\<lambda>g. qg_bot_id g = qb_id qbot \<and> qg_app_id g = qb_app_id qbot \<and>
       qg_is_joined g \<and> qg_group_openid g \<in> set groups) (qq_groups d))"

definition accepted_row :: "time \<Rightarrow> string \<Rightarrow> publish_dispatch \<Rightarrow> publish_dispatch" where
  "accepted_row now attempt_id r =
     r\<lparr>dp_status := ''accepted'', dp_attempts := dp_attempts r + 1, dp_started_at := Some now,
       dp_article_publish_attempt_id := Some attempt_id, dp_last_error := None\<rparr>"

definition accept_qq :: "time \<Rightarrow> (string \<Rightarrow> string) \<Rightarrow> int \<Rightarrow> int \<Rightarrow> string \<Rightarrow> int \<Rightarrow> string list \<Rightarrow> json \<Rightarrow>
    string list \<Rightarrow> db \<Rightarrow> db \<times> int list" where
  "accept_qq now label max_attempts i attempt_id bot_id groups payload paths d =
     (case dp_get i d of
        None \<Rightarrow> (d, [])
      | Some r \<Rightarrow>
          (if \<not> waiting r then (d, [])
           else case row_get qb_id bot_id (qq_bots d) of
             None \<Rightarrow> (finish_dispatch now r ''failed'' (Some (Lit ''the QQ bot is missing or disabled'' [])) d, [])
           | Some qbot \<Rightarrow>
               (if \<not> qb_is_enabled qbot
                then (finish_dispatch now r ''failed'' (Some (Lit ''the QQ bot is missing or disabled'' [])) d, [])
                else if set groups \<noteq> set (joined_groups qbot groups d)
                then (finish_dispatch now r ''failed'' (Some (Lit ''the bot has not joined the QQ groups'' [])) d, [])
                else let rows = article_deliveries now max_attempts r qbot attempt_id groups
                                  (qq_parts (qq_text label payload) paths) in
                  add_deliveries rows
                    (add_attempt (new_attempt now attempt_id (dp_draft_id r) ''qq''
                        (Lit ''groups of a bot'' [qb_name qbot, show_nat (length groups)]) (int (length rows)))
                      (put_dispatch (accepted_row now attempt_id r) d)))))"

definition dispatch_qq :: "(string \<Rightarrow> string) \<Rightarrow> int \<Rightarrow> pub_env \<Rightarrow> dispatch_env \<Rightarrow> int \<Rightarrow> db \<times> volume \<Rightarrow>
    (db \<times> volume) \<times> int list" where
  "dispatch_qq label max_attempts env e i s =
     (case prepare_media env False i s of
        ((d, vol), Invalid m) \<Rightarrow> ((preflight_failure (de_clock e 0) i m False (de_world e 0 d), vol), [])
      | ((d, vol), Awaiting m) \<Rightarrow> ((d, vol), [])
      | ((d, vol), Crashed) \<Rightarrow> ((d, vol), [])
      | ((d, vol), Ready payload paths admin) \<Rightarrow>
          (let target = (if is_dict (jget payload ''qq_target'') then jget payload ''qq_target'' else JObj []);
               qbot = positive_int (jor (jget payload ''qq_bot_id'') (jget target ''bot_id''));
               groups = jor (jor (jget payload ''qq_group_openids'') (jget target ''group_openids'')) (JList []);
               fail = (\<lambda>m. ((preflight_failure (de_clock e 0) i m False (de_world e 0 d), vol), [])) in
           if qbot = None \<or> \<not> is_list groups \<or> jlist groups = []
           then fail (Lit ''no QQ bot or groups configured'' [])
           else if qq_groups_of groups = [] then fail (Lit ''the QQ groups are empty'' [])
           else case accept_qq (de_clock e 0) label max_attempts i (de_attempt_id e) (the qbot)
                       (qq_groups_of groups) payload paths (de_world e 0 d) of
                  (d1, ids) \<Rightarrow> ((d1, vol), ids)))"

definition process_dispatch :: "(string \<Rightarrow> bool) \<Rightarrow> (string \<Rightarrow> string) \<Rightarrow> int \<Rightarrow> pub_env \<Rightarrow> dispatch_env \<Rightarrow> int \<Rightarrow>
    db \<times> volume \<Rightarrow> (db \<times> volume) \<times> int list" where
  "process_dispatch bo label max_attempts env e i s =
     (case dp_get i (fst s) of
        None \<Rightarrow> (s, [])
      | Some r \<Rightarrow>
          (if \<not> waiting r then (s, [])
           else if dp_channel r = ''xhs'' then (dispatch_xhs bo env e i s, [])
           else if dp_channel r = ''qq'' then dispatch_qq label max_attempts env e i s
           else (s, [])))"

subsection \<open>The scans\<close>

text \<open>\<open>_seed_uninitialized\<close>: at most fifty generated jobs without records.\<close>

definition uninitialized :: "gen_job \<Rightarrow> bool" where
  "uninitialized j \<longleftrightarrow> gj_status j = ''succeeded'' \<and> gj_listen_task_id j \<noteq> None \<and>
     gj_publish_outbox_initialized_at j = None"

definition seed_job :: "time \<Rightarrow> gen_job \<Rightarrow> db \<Rightarrow> db" where
  "seed_job now job d =
     (case find (\<lambda>a. dr_job_id a = Some (gj_id job)) (drafts d) of
        None \<Rightarrow> put_job_row (job\<lparr>gj_publish_outbox_initialized_at := Some now\<rparr>) d
      | Some a \<Rightarrow> fst (initialize_publish_dispatches now job a d))"

definition seed_uninitialized :: "time \<Rightarrow> db \<Rightarrow> db" where
  "seed_uninitialized now d =
     fold (seed_job now) (row_select uninitialized gj_id 50 (gen_jobs d)) d"

text \<open>
  \<open>_mark_abandoned_xhs\<close>: submissions without a journal id (the queue transport) that
  nobody finished. The statement has no order; the table order stands for the one
  the database picks.
\<close>

definition abandoned :: "xhs_cfg \<Rightarrow> time \<Rightarrow> publish_dispatch \<Rightarrow> bool" where
  "abandoned cfg now r \<longleftrightarrow>
     dp_channel r = ''xhs'' \<and> dp_status r = ''dispatching'' \<and> dp_xhs_job_id r = None \<and>
     (case dp_started_at r of None \<Rightarrow> False | Some t \<Rightarrow> t \<le> now - (xhs_job_timeout cfg + secs 60))"

definition mark_abandoned_xhs :: "xhs_cfg \<Rightarrow> time \<Rightarrow> db \<Rightarrow> db" where
  "mark_abandoned_xhs cfg now d =
     fold (\<lambda>r. finish_dispatch now r ''uncertain'' (Some (Lit ''the request was interrupted'' [])))
       (take 50 (filter (abandoned cfg now) (dispatches d))) d"

text \<open>\<open>_reconcile_xhs\<close>: fetch missed results, never submit.\<close>

definition unresolved :: "time \<Rightarrow> publish_dispatch \<Rightarrow> bool" where
  "unresolved now r \<longleftrightarrow>
     dp_channel r = ''xhs'' \<and> dp_xhs_job_id r \<noteq> None \<and> dp_status r \<in> set open_states \<and>
     dp_next_attempt_at r \<le> now \<and> dp_reconciled_at r = None"

definition check_later :: "time \<Rightarrow> int \<Rightarrow> db \<Rightarrow> db" where
  "check_later now i d =
     (case dp_get i d of
        None \<Rightarrow> d
      | Some r \<Rightarrow> put_dispatch (r\<lparr>dp_next_attempt_at := now + xhs_result_check\<rparr>) d)"

definition overdue :: "xhs_cfg \<Rightarrow> time \<Rightarrow> publish_dispatch \<Rightarrow> bool" where
  "overdue cfg now r \<longleftrightarrow>
     (case dp_started_at r of None \<Rightarrow> False | Some t \<Rightarrow> xhs_job_timeout cfg + secs 60 < now - t)"

definition missing_result :: "xhs_cfg \<Rightarrow> time \<Rightarrow> string \<Rightarrow> publish_dispatch \<Rightarrow> db \<Rightarrow> db" where
  "missing_result cfg now job r d =
     (case bj_get ''xhs'' job d of
        Some res \<Rightarrow>
          (if bj_state res = ''reconciling''
           then put_dispatch (r\<lparr>dp_status := ''reconciling'', dp_completed_at := None,
                  dp_last_error := Some (Lit ''the result of the job is being fetched'' [])\<rparr>) d
           else d)
      | None \<Rightarrow>
          (if overdue cfg now r
           then finish_dispatch now r ''uncertain'' (Some (Lit ''no durable result was found'' [])) d
           else d))"

definition reconcile_xhs_row :: "(string \<Rightarrow> bool) \<Rightarrow> xhs_cfg \<Rightarrow> time \<Rightarrow> publish_dispatch \<Rightarrow> db \<Rightarrow> db" where
  "reconcile_xhs_row bo cfg now r d =
     (let job = the (dp_xhs_job_id r); (d1, changed) = apply_xhs_job_result bo now job d in
      check_later now (dp_id r)
        (if changed then d1
         else case dp_get (dp_id r) d1 of
                None \<Rightarrow> d1
              | Some r1 \<Rightarrow> missing_result cfg now job r1 d1))"

definition reconcile_xhs :: "(string \<Rightarrow> bool) \<Rightarrow> xhs_cfg \<Rightarrow> time \<Rightarrow> db \<Rightarrow> db" where
  "reconcile_xhs bo cfg now d =
     fold (reconcile_xhs_row bo cfg now)
       (row_select (unresolved now) (\<lambda>r. (dp_next_attempt_at r, dp_id r)) 50 (dispatches d)) d"

text \<open>\<open>_reconcile_qq\<close>: close a QQ record when none of its messages is still to be sent.\<close>

definition deliveries_of :: "publish_dispatch \<Rightarrow> db \<Rightarrow> qq_delivery list" where
  "deliveries_of r d =
     filter (\<lambda>q. qd_article_publish_attempt_id q = dp_article_publish_attempt_id r) (qq_deliveries d)"

definition delivery_active :: "qq_delivery \<Rightarrow> bool" where
  "delivery_active q \<longleftrightarrow> qd_status q \<in> {''queued'', ''retry_wait'', ''sending''}"

definition qq_settled :: "db \<Rightarrow> publish_dispatch \<Rightarrow> bool" where
  "qq_settled d r \<longleftrightarrow>
     dp_channel r = ''qq'' \<and> dp_status r = ''accepted'' \<and> \<not> (dp_article_publish_attempt_id r \<noteq> None \<and> list_ex delivery_active (deliveries_of r d))"

definition close_attempt :: "time \<Rightarrow> string \<Rightarrow> msg option \<Rightarrow> publish_attempt \<Rightarrow> db \<Rightarrow> db" where
  "close_attempt now status err a d =
     put_attempt (a\<lparr>pa_status := status, pa_error := err, pa_completed_at := Some now\<rparr>) d"

definition reconcile_qq_row :: "time \<Rightarrow> publish_dispatch \<Rightarrow> db \<Rightarrow> db" where
  "reconcile_qq_row now r d =
     (let deliveries = deliveries_of r d in
      if list_ex delivery_active deliveries then d
      else case pointer_attempt r d of
        None \<Rightarrow> finish_dispatch now r ''failed'' (Some (Lit ''the QQ publish attempt is missing'' [])) d
      | Some a \<Rightarrow>
          (if int (length deliveries) \<noteq> pa_delivery_count a \<or> deliveries = []
           then let err = Lit ''QQ delivery records are incomplete''
                            [show_int (pa_delivery_count a), show_nat (length deliveries)] in
             finish_dispatch now r ''failed'' (Some err) (close_attempt now ''failed'' (Some err) a d)
           else case find (\<lambda>q. qd_status q \<noteq> ''sent'') deliveries of
             Some q \<Rightarrow>
               (let err = (case qd_last_error q of
                             Some e \<Rightarrow> if msg_truthy e then e else Lit ''QQ delivery failed'' [qd_status q]
                           | None \<Rightarrow> Lit ''QQ delivery failed'' [qd_status q]) in
                finish_dispatch now r ''failed'' (Some err)
                  (close_attempt now ''failed'' (Some (clip 2000 err)) a d))
           | None \<Rightarrow>
               finish_dispatch now r ''published'' None (close_attempt now ''published'' None a d)))"

definition reconcile_qq :: "time \<Rightarrow> db \<Rightarrow> db" where
  "reconcile_qq now d =
     fold (reconcile_qq_row now) (row_select (qq_settled d) dp_id 100 (dispatches d)) d"

text \<open>The records that a scan starts, at most as many as are free, oldest first.\<close>

definition scan_capacity :: "ai_worker_cfg \<Rightarrow> nat \<Rightarrow> nat" where
  "scan_capacity cfg active = nat (max 0 (min 4 (ai_worker_max_concurrency cfg) - int active))"

definition due_dispatches :: "time \<Rightarrow> nat \<Rightarrow> db \<Rightarrow> int list" where
  "due_dispatches now capacity d =
     map dp_id (row_select (\<lambda>r. waiting r \<and> dp_next_attempt_at r \<le> now)
       (\<lambda>r. (dp_next_attempt_at r, dp_id r)) capacity (dispatches d))"

definition scan_once :: "(string \<Rightarrow> bool) \<Rightarrow> xhs_cfg \<Rightarrow> ai_worker_cfg \<Rightarrow> (nat \<Rightarrow> time) \<Rightarrow> nat \<Rightarrow> db \<Rightarrow> db \<times> int list" where
  "scan_once bo xcfg acfg clock active d =
     (let d1 = reconcile_qq (clock 3)
                 (mark_abandoned_xhs xcfg (clock 2)
                   (reconcile_xhs bo xcfg (clock 1)
                     (seed_uninitialized (clock 0) d)));
          capacity = scan_capacity acfg active
      in (d1, if capacity = 0 then [] else due_dispatches (clock 4) capacity d1))"

subsection \<open>Delays\<close>

interpretation preflight: retry_delay preflight_delay 300
proof
  fix m n :: nat
  show "0 < preflight_delay n" by (simp add: preflight_delay_def)
  show "preflight_delay n \<le> 300" by (simp add: preflight_delay_def)
  show "preflight_delay m \<le> preflight_delay n" if "m \<le> n"
  proof -
    from that have "(2::int) ^ min 5 (m - 1) \<le> 2 ^ min 5 (n - 1)"
      by (intro power_increasing) auto
    then show ?thesis unfolding preflight_delay_def by linarith
  qed
qed

interpretation rejection: retry_delay rejection_delay 120
proof
  fix m n :: nat
  show "0 < rejection_delay n" by (simp add: rejection_delay_def)
  show "rejection_delay n \<le> 120" by (simp add: rejection_delay_def)
  show "rejection_delay m \<le> rejection_delay n" if "m \<le> n"
  proof -
    from that have "(2::int) ^ (m - 1) \<le> 2 ^ (n - 1)" by (intro power_increasing) auto
    then show ?thesis unfolding rejection_delay_def by linarith
  qed
qed

subsection \<open>Reading the table after an operation\<close>

lemma dp_get_Some: "dp_get i d = Some r \<Longrightarrow> r \<in> set (dispatches d) \<and> dp_id r = i"
  by (auto simp: dp_get_def dest: row_get_Some)

lemma dp_get_put:
  "dp_get i (put_dispatch r d) =
    (if dp_id r = i \<and> dp_get i d \<noteq> None then Some r else dp_get i d)"
proof (cases "dp_get i d")
  case None
  then show ?thesis by (auto simp: dp_get_def put_dispatch_def row_get_put)
next
  case (Some x)
  then have "i \<in> dp_id ` set (dispatches d)" using dp_get_Some[OF Some] by (auto intro: rev_image_eqI)
  with Some show ?thesis by (auto simp: dp_get_def put_dispatch_def row_get_put)
qed

lemma dp_get_attempt [simp]: "dp_get i (put_attempt a d) = dp_get i d"
  "dp_get i (add_attempt a d) = dp_get i d" "dp_get i (put_job_row j d) = dp_get i d"
  by (simp_all add: dp_get_def put_attempt_def add_attempt_def put_job_row_def)

lemma dp_get_finish:
  "dp_get i (finish_dispatch now r status err d) =
    (if dp_id r = i \<and> dp_get i d \<noteq> None then Some (finish_row now status err r) else dp_get i d)"
  by (simp add: finish_dispatch_def Let_def dp_get_put finish_row_def split: option.splits)

lemma dp_get_add_deliveries [simp]: "dp_get i (fst (add_deliveries rows d)) = dp_get i d"
  by (simp add: add_deliveries_def Let_def dp_get_def)

lemma dp_get_close [simp]: "dp_get i (close_attempt now st err a d) = dp_get i d"
  by (simp add: close_attempt_def)

end
