(* ===== verification/PublishSafety.thy ===== *)
theory PublishSafety
  imports Publish
begin

text \<open>
  What holds of the publication records however the transactions of all workers and
  routes interleave: one running submission per account, no resubmission without an
  explicit rejection or retry, bounded retries, and the QQ outbox of an article.
\<close>

subsection \<open>Calm operations\<close>

text \<open>
  Most operations keep a record's identity and never make a closed or running record
  wait again nor start a submission.
\<close>

definition calm_row :: "publish_dispatch \<Rightarrow> publish_dispatch \<Rightarrow> bool" where
  "calm_row r r' \<longleftrightarrow>
     dp_id r' = dp_id r \<and> dp_channel r' = dp_channel r \<and> dp_owner_admin_id r' = dp_owner_admin_id r \<and>
     dp_job_id r' = dp_job_id r \<and> dp_draft_id r' = dp_draft_id r \<and>
     dp_payload_snapshot r' = dp_payload_snapshot r \<and> dp_rejection_attempts r' = dp_rejection_attempts r \<and>
     (waiting r' \<longrightarrow> waiting r) \<and> (dp_status r' = ''dispatching'' \<longrightarrow> dp_status r = ''dispatching'')"

definition owner_ok :: "publish_dispatch \<Rightarrow> bool" where
  "owner_ok r \<longleftrightarrow> dp_owner_admin_id r =
     positive_int (jget (jor (dp_payload_snapshot r) (JObj [])) ''owner_admin_id'')"

definition fresh_row :: "publish_dispatch \<Rightarrow> bool" where
  "fresh_row r \<longleftrightarrow> waiting r \<and> owner_ok r \<and> dp_rejection_attempts r = 0"

definition id_ok :: "db \<Rightarrow> bool" where
  "id_ok d \<longleftrightarrow> distinct (map dp_id (dispatches d)) \<and> (\<forall>i \<in> dp_id ` set (dispatches d). i < serial d)"

definition calm :: "db \<Rightarrow> db \<Rightarrow> bool" where
  "calm d d' \<longleftrightarrow>
     (\<forall>i r. dp_get i d = Some r \<longrightarrow> (\<exists>r'. dp_get i d' = Some r' \<and> calm_row r r')) \<and>
     (\<forall>i r'. dp_get i d = None \<longrightarrow> dp_get i d' = Some r' \<longrightarrow> fresh_row r') \<and>
     (id_ok d \<longrightarrow> id_ok d')"

text \<open>The ids of the table and the serial after an operation.\<close>

definition same_ids :: "db \<Rightarrow> db \<Rightarrow> bool" where
  "same_ids d d' \<longleftrightarrow> map dp_id (dispatches d') = map dp_id (dispatches d) \<and> serial d \<le> serial d'"

lemma same_ids_ok: "same_ids d d' \<Longrightarrow> id_ok d \<Longrightarrow> id_ok d'"
proof -
  assume s: "same_ids d d'" and d: "id_ok d"
  then have "dp_id ` set (dispatches d') = dp_id ` set (dispatches d)"
    unfolding same_ids_def by (metis list.set_map)
  with s d show ?thesis by (force simp: id_ok_def same_ids_def)
qed

lemma same_ids_refl [simp]: "same_ids d d"
  by (simp add: same_ids_def)

lemma same_ids_trans: "same_ids d d' \<Longrightarrow> same_ids d' d'' \<Longrightarrow> same_ids d d''"
  by (simp add: same_ids_def)

lemma same_ids_put [simp]: "same_ids d (put_dispatch r d)" "same_ids d (put_attempt a d)"
  "same_ids d (add_attempt a d)" "same_ids d (put_job_row j d)" "same_ids d (close_attempt now st err a d)"
  by (simp_all add: same_ids_def put_dispatch_def put_attempt_def add_attempt_def put_job_row_def close_attempt_def)

lemma same_ids_finish [simp]: "same_ids d (finish_dispatch now r status err d)"
  by (auto simp: finish_dispatch_def Let_def split: option.splits
      intro: same_ids_trans[OF same_ids_put(1) same_ids_put(2)])

lemma same_ids_add_deliveries [simp]: "same_ids d (fst (add_deliveries rows d))"
  by (simp add: add_deliveries_def same_ids_def Let_def)

lemma same_ids_apply [simp]: "same_ids d (fst (apply_xhs_job_result bo now job d))"
  by (cases rule: apply_cases[of bo job d])
    (simp_all add: same_ids_trans[OF same_ids_put(1) same_ids_put(2)])

lemma calm_row_refl [simp]: "calm_row r r"
  by (simp add: calm_row_def)

lemma calm_row_trans: "calm_row r r' \<Longrightarrow> calm_row r' r'' \<Longrightarrow> calm_row r r''"
  by (simp add: calm_row_def)

lemma calm_refl [simp]: "calm d d"
  by (auto simp: calm_def)

lemma calm_same: "(\<And>i. dp_get i d' = dp_get i d) \<Longrightarrow> same_ids d d' \<Longrightarrow> calm d d'"
  by (auto simp: calm_def same_ids_ok)

lemma calm_row_fresh:
  assumes "fresh_row r" and "calm_row r r'" and "waiting r'"
  shows "fresh_row r'"
  using assms by (simp add: fresh_row_def owner_ok_def calm_row_def)

text \<open>One record written over another whose identity it keeps.\<close>

lemma calm_write:
  assumes "dp_get i d = Some r" and "calm_row r r'" and "\<And>j. dp_get j d' = (if j = i then Some r' else dp_get j d)"
    and "same_ids d d'"
  shows "calm d d'"
  using assms by (auto simp: calm_def same_ids_ok)

lemma calm_put:
  assumes "dp_get i d = Some r" and "calm_row r r'"
  shows "calm d (put_dispatch r' d)"
proof (rule calm_write[OF assms])
  have "dp_id r' = i" using assms dp_get_Some[OF assms(1)] by (simp add: calm_row_def)
  then show "dp_get j (put_dispatch r' d) = (if j = i then Some r' else dp_get j d)" for j
    using assms(1) by (auto simp: dp_get_put)
qed simp

lemma calm_finish:
  assumes "dp_get i d = Some r" and "calm_row r r1" and "status \<notin> {''pending'', ''retry_wait'', ''dispatching''}"
  shows "calm d (finish_dispatch now r1 status err d)"
proof (rule calm_write[OF assms(1), of "finish_row now status err r1"])
  show "calm_row r (finish_row now status err r1)"
    using assms(2,3) by (auto simp: calm_row_def finish_row_def waiting_def)
  have "dp_id r1 = i" using assms(2) dp_get_Some[OF assms(1)] by (simp add: calm_row_def)
  then show "dp_get j (finish_dispatch now r1 status err d) =
      (if j = i then Some (finish_row now status err r1) else dp_get j d)" for j
    using assms(1) by (auto simp: dp_get_finish)
qed simp

lemma calm_apply:
  assumes "id_ok d"
  shows "calm d (fst (apply_xhs_job_result bo now job d))"
proof (cases rule: apply_cases[of bo job d])
  case refused
  then show ?thesis by simp
next
  case (applied res r a)
  let ?r = "result_dispatch bo now res r"
  have get: "dp_get (dp_id r) d = Some r"
    using row_get_unique[of dp_id "dispatches d" r] assms dispatch_of_job_Some[OF applied(3)]
    by (simp add: id_ok_def dp_get_def)
  have "dp_status ?r \<notin> {''pending'', ''retry_wait'', ''dispatching''}"
    using applied(2) by (auto simp: result_dispatch_def result_status_def final_states_def)
  then have "calm_row r ?r" by (simp add: calm_row_def result_dispatch_def waiting_def)
  then show ?thesis
  proof (rule calm_write[OF get])
    show "dp_get j (fst (apply_xhs_job_result bo now job d)) = (if j = dp_id r then Some ?r else dp_get j d)" for j
      using get by (auto simp: applied(6) dp_get_put result_dispatch_def)
  qed simp
qed

lemma same_ids_None: "same_ids d d' \<Longrightarrow> dp_get i d' = None \<longleftrightarrow> dp_get i d = None"
  unfolding same_ids_def dp_get_def row_get_None by (metis list.set_map)

lemma calm_trans:
  assumes "calm d d'" and "calm d' d''" and "same_ids d d'"
  shows "calm d d''"
  unfolding calm_def
proof (intro conjI allI impI)
  fix i r assume "dp_get i d = Some r"
  with assms(1,2) show "\<exists>r'. dp_get i d'' = Some r' \<and> calm_row r r'"
    unfolding calm_def by (meson calm_row_trans)
next
  fix i r' assume "dp_get i d = None" "dp_get i d'' = Some r'"
  with assms(2) same_ids_None[OF assms(3)] show "fresh_row r'" unfolding calm_def by blast
next
  assume "id_ok d"
  with assms(1,2) show "id_ok d''" by (simp add: calm_def)
qed

text \<open>Operations on existing records only.\<close>

definition settled :: "db \<Rightarrow> db \<Rightarrow> bool" where
  "settled d d' \<longleftrightarrow> calm d d' \<and> same_ids d d'"

lemma settled_refl [simp]: "settled d d"
  by (simp add: settled_def)

lemma settled_trans: "settled d d' \<Longrightarrow> settled d' d'' \<Longrightarrow> settled d d''"
  unfolding settled_def by (blast intro: calm_trans same_ids_trans)

lemma settled_put: "dp_get i d = Some r \<Longrightarrow> calm_row r r' \<Longrightarrow> settled d (put_dispatch r' d)"
  by (simp add: settled_def calm_put)

lemma settled_finish:
  "dp_get i d = Some r \<Longrightarrow> calm_row r r1 \<Longrightarrow> status \<notin> {''pending'', ''retry_wait'', ''dispatching''} \<Longrightarrow>
    settled d (finish_dispatch now r1 status err d)"
  unfolding settled_def by (simp add: calm_finish)

lemma settled_apply: "id_ok d \<Longrightarrow> settled d (fst (apply_xhs_job_result bo now job d))"
  by (simp add: settled_def calm_apply)

lemma settled_attempts [simp]:
  "settled d (put_attempt a d)" "settled d (add_attempt a d)" "settled d (close_attempt now st err a d)"
  "settled d (fst (add_deliveries rows d))" "settled d (put_job_row j d)"
  by (simp_all add: settled_def calm_same)

lemma settled_id_ok: "settled d d' \<Longrightarrow> id_ok d \<Longrightarrow> id_ok d'"
  by (simp add: settled_def calm_def)

lemma settled_row:
  assumes "settled d d'" and "dp_get i d = Some r"
  obtains r' where "dp_get i d' = Some r'" "calm_row r r'"
  using assms unfolding settled_def calm_def by blast

lemma settled_fold:
  assumes "\<And>r d'. r \<in> set rs \<Longrightarrow> settled d d' \<Longrightarrow> settled d' (f r d')"
  shows "settled d (fold f rs d)"
proof -
  have "settled d (fold f rs d')" if "settled d d'" for d'
    using assms that
  proof (induction rs arbitrary: d')
    case (Cons r rs)
    have "settled d (f r d')" using Cons.prems by (meson list.set_intros(1) settled_trans)
    then show ?case using Cons.IH[of "f r d'"] Cons.prems(1) by simp
  qed simp
  then show ?thesis by simp
qed

text \<open>
  A record read before the loop and finished inside it: the row that is overwritten
  has the same identity.
\<close>

lemma settled_finish_old:
  assumes "settled d d'" and "dp_get i d = Some r" and "status \<notin> {''pending'', ''retry_wait'', ''dispatching''}"
  shows "settled d' (finish_dispatch now r status err d')"
proof -
  from assms(1,2) obtain r' where r': "dp_get i d' = Some r'" "calm_row r r'" by (rule settled_row)
  let ?r = "finish_row now status err r"
  have "calm d' (finish_dispatch now r status err d')"
  proof (rule calm_write[OF r'(1), of ?r])
    show "calm_row r' ?r"
      using r'(2) assms(3) by (auto simp: calm_row_def finish_row_def waiting_def)
    have "dp_id r = i" using dp_get_Some[OF assms(2)] by simp
    then show "dp_get j (finish_dispatch now r status err d') =
        (if j = i then Some ?r else dp_get j d')" for j
      using r'(1) by (auto simp: dp_get_finish)
  qed simp
  then show ?thesis by (simp add: settled_def)
qed

lemma dp_get_row: "id_ok d \<Longrightarrow> r \<in> set (dispatches d) \<Longrightarrow> dp_get (dp_id r) d = Some r"
  by (simp add: id_ok_def dp_get_def row_get_unique)

subsection \<open>The scans are calm\<close>

lemma settled_mark_abandoned:
  assumes "id_ok d"
  shows "settled d (mark_abandoned_xhs cfg now d)"
  unfolding mark_abandoned_xhs_def
proof (rule settled_fold)
  fix r d' assume r: "r \<in> set (take 50 (filter (abandoned cfg now) (dispatches d)))" and s: "settled d d'"
  from r have "r \<in> set (dispatches d)" by (auto dest: in_set_takeD)
  from settled_finish_old[OF s dp_get_row[OF assms this]]
  show "settled d' (finish_dispatch now r ''uncertain'' (Some (Lit ''the request was interrupted'' [])) d')"
    by simp
qed

lemma settled_check_later: "settled d (check_later now i d)"
proof (cases "dp_get i d")
  case (Some r)
  have "calm_row r (r\<lparr>dp_next_attempt_at := now + xhs_result_check\<rparr>)"
    by (simp add: calm_row_def waiting_def)
  with Some show ?thesis by (simp add: check_later_def settled_put)
qed (simp add: check_later_def)

lemma settled_missing_result:
  assumes "dp_get i d = Some r"
  shows "settled d (missing_result cfg now job r d)"
proof (cases "bj_get ''xhs'' job d")
  case None
  then show ?thesis
    by (simp add: missing_result_def settled_finish[OF assms])
next
  case (Some res)
  have "calm_row r (r\<lparr>dp_status := ''reconciling'', dp_completed_at := None,
      dp_last_error := Some (Lit ''the result of the job is being fetched'' [])\<rparr>)"
    by (simp add: calm_row_def waiting_def)
  then show ?thesis using Some by (simp add: missing_result_def settled_put[OF assms])
qed

lemma settled_reconcile_xhs_row:
  assumes "id_ok d"
  shows "settled d (reconcile_xhs_row bo cfg now r d)"
proof -
  obtain d1 ch where a: "apply_xhs_job_result bo now (the (dp_xhs_job_id r)) d = (d1, ch)"
    by (cases "apply_xhs_job_result bo now (the (dp_xhs_job_id r)) d")
  have s1: "settled d d1" using settled_apply[OF assms, of bo now "the (dp_xhs_job_id r)"] a by simp
  define d2 where "d2 = (if ch then d1 else case dp_get (dp_id r) d1 of None \<Rightarrow> d1
    | Some r1 \<Rightarrow> missing_result cfg now (the (dp_xhs_job_id r)) r1 d1)"
  have "settled d1 d2"
    by (auto simp: d2_def settled_missing_result split: option.splits)
  moreover have "reconcile_xhs_row bo cfg now r d = check_later now (dp_id r) d2"
    by (simp add: reconcile_xhs_row_def a d2_def)
  ultimately show ?thesis using s1 settled_check_later by (metis settled_trans)
qed

lemma settled_reconcile_xhs:
  assumes "id_ok d"
  shows "settled d (reconcile_xhs bo cfg now d)"
  unfolding reconcile_xhs_def
  by (rule settled_fold) (rule settled_reconcile_xhs_row, rule settled_id_ok[OF _ assms])

lemma settled_reconcile_qq_row:
  assumes "settled d d'" and "dp_get i d = Some r"
  shows "settled d' (reconcile_qq_row now r d')"
proof -
  have fin: "settled d' (finish_dispatch now r st err d')" if "st \<in> {''failed'', ''published''}" for st err
    using settled_finish_old[OF assms, of st] that by auto
  have close: "settled d' (finish_dispatch now r st err (close_attempt now st' e a d'))"
    if "st \<in> {''failed'', ''published''}" for st err st' e a
  proof -
    have "settled d (close_attempt now st' e a d')"
      using settled_trans[OF assms(1) settled_attempts(3)] .
    from settled_finish_old[OF this assms(2), of st] that
    have "settled (close_attempt now st' e a d') (finish_dispatch now r st err (close_attempt now st' e a d'))"
      by auto
    then show ?thesis using settled_trans[OF settled_attempts(3)] by blast
  qed
  show ?thesis
    unfolding reconcile_qq_row_def Let_def by (simp add: fin close split: option.split)
qed

lemma settled_reconcile_qq:
  assumes "id_ok d"
  shows "settled d (reconcile_qq now d)"
  unfolding reconcile_qq_def
proof (rule settled_fold)
  fix r d' assume "r \<in> set (row_select (qq_settled d) dp_id 100 (dispatches d))" and s: "settled d d'"
  then have "r \<in> set (dispatches d)" by (auto dest: row_select_mem)
  then show "settled d' (reconcile_qq_row now r d')"
    using settled_reconcile_qq_row[OF s dp_get_row[OF assms]] by simp
qed

subsection \<open>The other transactions\<close>

lemma settled_preflight: "settled d (preflight_failure now i m retry d)"
proof (cases "dp_get i d")
  case (Some r)
  have c: "calm_row r (r\<lparr>dp_attempts := dp_attempts r + 1\<rparr>)" by (simp add: calm_row_def waiting_def)
  have "calm_row r (r\<lparr>dp_attempts := dp_attempts r + 1, dp_status := ''retry_wait'',
      dp_next_attempt_at := t, dp_last_error := e\<rparr>)" if "waiting r" for t e
    using that by (simp add: calm_row_def)
  with Some show ?thesis
    by (simp add: preflight_failure_def Let_def settled_put settled_finish[OF Some c])
qed (simp add: preflight_failure_def)

lemma settled_mark_published: "settled d (mark_published now i d)"
proof (cases "dp_get i d")
  case (Some r)
  then show ?thesis by (simp add: mark_published_def settled_finish[OF Some])
qed (simp add: mark_published_def)

lemma settled_submit_failed:
  assumes "id_ok d"
  shows "settled d (submit_failed bo now i job d)"
proof (cases "dp_get i d")
  case (Some r)
  define r1 where "r1 = r\<lparr>dp_status := ''reconciling'',
    dp_last_error := Some (Lit ''the connection broke, the result is being fetched'' []), dp_completed_at := None\<rparr>"
  have "calm_row r r1" by (simp add: r1_def calm_row_def waiting_def)
  then have s: "settled d (put_dispatch r1 d)" by (rule settled_put[OF Some])
  from settled_trans[OF s settled_apply[OF settled_id_ok[OF s assms]]] Some show ?thesis
    by (simp add: submit_failed_def r1_def settled_finish[OF Some])
qed (simp add: submit_failed_def)

lemma settled_accept_qq: "settled d (fst (accept_qq now label ma i aid bot_id gs payload paths d))"
proof (cases "dp_get i d")
  case (Some r)
  have "calm_row r (accepted_row now aid r)" by (simp add: calm_row_def accepted_row_def waiting_def)
  then have "settled d (put_dispatch (accepted_row now aid r) d)" by (rule settled_put[OF Some])
  then have "settled d (add_attempt a (put_dispatch (accepted_row now aid r) d))" for a
    using settled_attempts(2) settled_trans by blast
  then have acc: "settled d (fst (add_deliveries rows (add_attempt a (put_dispatch (accepted_row now aid r) d))))" for rows a
    using settled_attempts(4) settled_trans by blast
  show ?thesis
    using Some acc by (simp add: accept_qq_def Let_def settled_finish[OF Some] split: option.split)
qed (simp add: accept_qq_def)

lemma settled_human_check:
  assumes "reconcile_dispatch now admin i q d = Inr d'"
  shows "settled d d'"
proof -
  from assms obtain r where r: "dp_get i d = Some r"
    by (auto simp: reconcile_dispatch_def split: option.splits)
  then obtain a where "dp_status r = ''uncertain''"
    and d': "d' = put_attempt (reconciled_attempt now admin q a) (put_dispatch (reconciled_dispatch now admin q r) d)"
    using assms by (auto simp: reconcile_dispatch_def split: option.splits if_splits)
  moreover have "calm_row r (reconciled_dispatch now admin q r)"
    by (simp add: calm_row_def reconciled_dispatch_def Let_def waiting_def)
  ultimately show ?thesis using settled_trans[OF settled_put[OF r] settled_attempts(1)] by simp
qed

lemma settled_refused_reservation:
  assumes "snd (reserve_xhs now i admin aid job d) = False"
  shows "settled d (fst (reserve_xhs now i admin aid job d))"
proof (cases "dp_get i d")
  case (Some r)
  have "calm_row r (r\<lparr>dp_status := ''retry_wait'', dp_next_attempt_at := t, dp_last_error := e\<rparr>)"
    if "waiting r" for t e
    using that by (simp add: calm_row_def)
  with Some assms show ?thesis
    by (simp add: reserve_xhs_def settled_put settled_finish[OF Some] split: if_splits del: row_get_None)
qed (simp add: reserve_xhs_def)

subsection \<open>New records\<close>

definition grows :: "db \<Rightarrow> db \<Rightarrow> bool" where
  "grows d d' \<longleftrightarrow>
     (\<forall>i r. dp_get i d = Some r \<longrightarrow> dp_get i d' = Some r) \<and>
     (\<forall>i r'. dp_get i d = None \<longrightarrow> dp_get i d' = Some r' \<longrightarrow> fresh_row r') \<and>
     (id_ok d \<longrightarrow> id_ok d')"

lemma grows_trans: "grows d d' \<Longrightarrow> grows d' d'' \<Longrightarrow> grows d d''"
  unfolding grows_def by (metis option.exhaust option.inject)

lemma grows_refl [simp]: "grows d d"
  by (simp add: grows_def)

lemma grows_calm: "grows d d' \<Longrightarrow> calm d d'"
  by (auto simp: grows_def calm_def)

lemma grows_same: "(\<And>i. dp_get i d' = dp_get i d) \<Longrightarrow> same_ids d d' \<Longrightarrow> grows d d'"
  by (auto simp: grows_def same_ids_ok)

lemma new_dispatch_fresh: "fresh_row (new_dispatch now i job a c)"
  by (simp add: fresh_row_def new_dispatch_def waiting_def owner_ok_def payload_snapshot_def jor_def Let_def)

lemma grows_add: "grows d (add_dispatches now job a cs d)"
proof (induction now job a cs d rule: add_dispatches.induct)
  case (1 now job a d)
  then show ?case by simp
next
  case (2 now job a c cs d)
  let ?r = "new_dispatch now (serial d) job a c"
  let ?d = "d\<lparr>dispatches := dispatches d @ [?r], serial := serial d + 1\<rparr>"
  have id: "dp_id ?r = serial d" by (simp add: new_dispatch_def)
  have get: "dp_get i ?d = (case dp_get i d of Some x \<Rightarrow> Some x | None \<Rightarrow> if i = serial d then Some ?r else None)" for i
    by (auto simp: dp_get_def row_get_def find_append id split: option.splits)
  have "id_ok ?d" if "id_ok d" using that by (force simp: id_ok_def id)
  then have "grows d ?d" using new_dispatch_fresh by (auto simp: grows_def get split: option.splits if_splits)
  with 2 show ?case using grows_trans by auto
qed

lemma grows_initialize: "grows d (fst (initialize_publish_dispatches now job a d))"
proof -
  have "grows (add_dispatches now job a cs d) (put_job_row j (add_dispatches now job a cs d))" for cs j
    by (rule grows_same) simp_all
  from grows_trans[OF grows_add this] show ?thesis
    by (simp add: initialize_publish_dispatches_def Let_def)
qed

lemma grows_seed: "grows d (seed_uninitialized now d)"
proof -
  have step: "grows d (seed_job now job d)" for job d
    by (auto simp: seed_job_def grows_initialize intro: grows_same split: option.split)
  have "grows d (fold (seed_job now) js d)" for js
    by (induction js arbitrary: d) (auto intro: grows_trans step)
  then show ?thesis by (simp add: seed_uninitialized_def)
qed

subsection \<open>Every transaction as an event\<close>

text \<open>
  The transactions of all workers and routes, one event each; a list of events is an
  interleaving. \<open>Reserve\<close> is guarded by what \<open>process_dispatch\<close> and
  \<open>prepare_media\<close> have read before, a channel and an owner, which never change.
  \<open>Elsewhere\<close> is any transaction that leaves the publication records alone.
\<close>

datatype pub_event =
    Initialize time gen_job draft
  | Seed time
  | ReconcileXhs time
  | MarkAbandoned time
  | ReconcileQQ time
  | Preflight time int msg bool
  | Reserve time int int string "string option"
  | NotAccepted time int msg "int option"
  | SubmitFailed time int "string option"
  | MarkPublished time int
  | ApplyResult time string
  | AcceptQQ time int string int "string list" json "string list"
  | HumanCheck time int int reconcile_request
  | Retry time int
  | Elsewhere "db \<Rightarrow> db"

record pub_params =
  pp_brackets_ok :: "string \<Rightarrow> bool"
  pp_label :: "string \<Rightarrow> string"
  pp_qq_attempts :: int
  pp_cfg :: xhs_cfg

definition may_reserve :: "int \<Rightarrow> int \<Rightarrow> db \<Rightarrow> bool" where
  "may_reserve i admin d \<longleftrightarrow>
     (case dp_get i d of
        None \<Rightarrow> False
      | Some r \<Rightarrow> dp_channel r = ''xhs'' \<and>
          positive_int (jget (jor (dp_payload_snapshot r) (JObj [])) ''owner_admin_id'') = Some admin)"

fun pub_step :: "pub_params \<Rightarrow> pub_event \<Rightarrow> db \<Rightarrow> db" where
  "pub_step p (Initialize now job a) d = fst (initialize_publish_dispatches now job a d)"
| "pub_step p (Seed now) d = seed_uninitialized now d"
| "pub_step p (ReconcileXhs now) d = reconcile_xhs (pp_brackets_ok p) (pp_cfg p) now d"
| "pub_step p (MarkAbandoned now) d = mark_abandoned_xhs (pp_cfg p) now d"
| "pub_step p (ReconcileQQ now) d = reconcile_qq now d"
| "pub_step p (Preflight now i m retry) d = preflight_failure now i m retry d"
| "pub_step p (Reserve now i admin aid job) d =
     (if may_reserve i admin d then fst (reserve_xhs now i admin aid job d) else d)"
| "pub_step p (NotAccepted now i err ra) d = not_accepted now i err ra d"
| "pub_step p (SubmitFailed now i job) d = submit_failed (pp_brackets_ok p) now i job d"
| "pub_step p (MarkPublished now i) d = mark_published now i d"
| "pub_step p (ApplyResult now job) d = fst (apply_xhs_job_result (pp_brackets_ok p) now job d)"
| "pub_step p (AcceptQQ now i aid b gs payload paths) d =
     fst (accept_qq now (pp_label p) (pp_qq_attempts p) i aid b gs payload paths d)"
| "pub_step p (HumanCheck now admin i q) d =
     (case reconcile_dispatch now admin i q d of Inl e \<Rightarrow> d | Inr d' \<Rightarrow> d')"
| "pub_step p (Retry now i) d = (case retry_failed_dispatch now i d of None \<Rightarrow> d | Some (d', _) \<Rightarrow> d')"
| "pub_step p (Elsewhere f) d = (f d)\<lparr>dispatches := dispatches d, serial := max (serial d) (serial (f d))\<rparr>"

fun pub_run :: "pub_params \<Rightarrow> pub_event list \<Rightarrow> db \<Rightarrow> db" where
  "pub_run p [] d = d"
| "pub_run p (e # es) d = pub_run p es (pub_step p e d)"

text \<open>The events that submit record \<open>i\<close>, and those that make it eligible again.\<close>

fun submits :: "int \<Rightarrow> pub_event \<Rightarrow> db \<Rightarrow> bool" where
  "submits i (Reserve now j admin aid job) d =
     (i = j \<and> may_reserve j admin d \<and> snd (reserve_xhs now j admin aid job d))"
| "submits i _ d = False"

fun releases :: "int \<Rightarrow> pub_event \<Rightarrow> db \<Rightarrow> bool" where
  "releases i (NotAccepted now j err ra) d =
     (i = j \<and> (case dp_get i d of None \<Rightarrow> False | Some r \<Rightarrow> dp_status r = ''dispatching''))"
| "releases i (Retry now j) d = (i = j \<and> retry_failed_dispatch now j d \<noteq> None)"
| "releases i _ d = False"

fun count_events :: "(pub_event \<Rightarrow> db \<Rightarrow> bool) \<Rightarrow> pub_params \<Rightarrow> pub_event list \<Rightarrow> db \<Rightarrow> nat" where
  "count_events P p [] d = 0"
| "count_events P p (e # es) d = (if P e d then 1 else 0) + count_events P p es (pub_step p e d)"

lemma calm_elsewhere: "calm d ((f d)\<lparr>dispatches := dispatches d, serial := max (serial d) (serial (f d))\<rparr>)"
  by (rule calm_same) (simp_all add: dp_get_def same_ids_def)

text \<open>Every event that neither submits nor releases a record is calm.\<close>

lemma calm_event:
  assumes "id_ok d" and "\<And>i. \<not> submits i e d" and "\<And>i. \<not> releases i e d"
  shows "calm d (pub_step p e d)"
proof (cases e)
  case (Initialize now job a)
  then show ?thesis by (simp add: grows_calm grows_initialize)
next
  case (Seed now)
  then show ?thesis by (simp add: grows_calm grows_seed)
next
  case (ReconcileXhs now)
  then show ?thesis using settled_reconcile_xhs[OF assms(1)] by (simp add: settled_def)
next
  case (MarkAbandoned now)
  then show ?thesis using settled_mark_abandoned[OF assms(1)] by (simp add: settled_def)
next
  case (ReconcileQQ now)
  then show ?thesis using settled_reconcile_qq[OF assms(1)] by (simp add: settled_def)
next
  case (Preflight now i m retry)
  then show ?thesis using settled_preflight by (simp add: settled_def)
next
  case (Reserve now i admin aid job)
  show ?thesis
  proof (cases "may_reserve i admin d")
    case True
    with assms(2)[of i] Reserve have "snd (reserve_xhs now i admin aid job d) = False" by simp
    from settled_refused_reservation[OF this] True Reserve show ?thesis by (simp add: settled_def)
  qed (simp add: Reserve)
next
  case (NotAccepted now i err ra)
  with assms(3)[of i] have "not_accepted now i err ra d = d"
    by (auto simp: not_accepted_def split: option.splits)
  then show ?thesis by (simp add: NotAccepted)
next
  case (SubmitFailed now i job)
  then show ?thesis using settled_submit_failed[OF assms(1)] by (simp add: settled_def)
next
  case (MarkPublished now i)
  then show ?thesis using settled_mark_published by (simp add: settled_def)
next
  case (ApplyResult now job)
  then show ?thesis using calm_apply[OF assms(1)] by simp
next
  case (AcceptQQ now i aid b gs payload paths)
  then show ?thesis using settled_accept_qq by (simp add: settled_def)
next
  case (HumanCheck now admin i q)
  then show ?thesis using settled_human_check[of now admin i q d]
    by (auto simp: settled_def split: sum.split)
next
  case (Retry now i)
  with assms(3)[of i] show ?thesis by (cases "retry_failed_dispatch now i d") auto
next
  case (Elsewhere f)
  then show ?thesis by (simp add: calm_elsewhere)
qed

subsection \<open>Submission and release\<close>

lemma dp_get_write:
  assumes "dp_get i d = Some r" and "dp_id r' = i"
  shows "dp_get j (put_dispatch r' d) = (if j = i then Some r' else dp_get j d)"
  using assms by (auto simp: dp_get_put)

lemma submit_effect:
  assumes "submits i e d"
  obtains now admin aid job r where "e = Reserve now i admin aid job" "may_reserve i admin d"
    "dp_get i d = Some r" "waiting r" "\<not> list_ex (active_for admin i) (dispatches d)"
    "\<And>p j. dp_get j (pub_step p e d) = (if j = i then Some (reserved_row now aid job r) else dp_get j d)"
    "\<And>p. same_ids d (pub_step p e d)"
proof (cases e)
  case (Reserve now i' admin aid job)
  with assms have m: "may_reserve i admin d" "snd (reserve_xhs now i admin aid job d)"
      and e: "e = Reserve now i admin aid job" by auto
  then obtain r where r: "dp_get i d = Some r" "waiting r" "row_get ad_id admin (admins d) \<noteq> None"
      "\<not> list_ex (active_for admin i) (dispatches d)"
    unfolding reserve_xhs_def by (cases "dp_get i d") (auto split: if_splits simp del: row_get_None)
  then have st: "pub_step p e d = add_attempt (new_attempt now aid (dp_draft_id r) ''xhs''
      (Lit ''XHS account of admin'' [show_int admin]) 1) (put_dispatch (reserved_row now aid job r) d)" for p
  proof -
    from r(3) obtain ad where "row_get ad_id admin (admins d) = Some ad" by blast
    with r m e show ?thesis by (simp add: reserve_xhs_def)
  qed
  have id: "dp_id (reserved_row now aid job r) = i"
    using dp_get_Some[OF r(1)] by (simp add: reserved_row_def)
  show thesis
    by (rule that[OF e m(1) r(1,2,4)])
      (simp_all add: st dp_get_write[OF r(1) id] same_ids_trans[OF same_ids_put(1) same_ids_put(3)])
qed (use assms in simp_all)

lemma release_effect:
  assumes "releases i e d"
  obtains r r' where "dp_get i d = Some r" "\<not> waiting r"
    "\<And>p j. dp_get j (pub_step p e d) = (if j = i then Some r' else dp_get j d)"
    "\<And>p. same_ids d (pub_step p e d)"
    "(\<exists>now err ra. e = NotAccepted now i err ra \<and> dp_status r = ''dispatching'' \<and> r' = rejected_row now err ra r) \<or>
     (\<exists>now. e = Retry now i \<and> dp_status r = ''failed'' \<and> r' = retried now r \<and>
       (dp_article_publish_attempt_id r = None \<or> confirmed_xhs_failure r d))"
proof (cases e)
  case (NotAccepted now i' err ra)
  with assms obtain r where e: "e = NotAccepted now i err ra" and r: "dp_get i d = Some r" "dp_status r = ''dispatching''"
    by (auto split: option.splits)
  have id: "dp_id (rejected_row now err ra r) = i"
    using dp_get_Some[OF r(1)] by (simp add: rejected_row_def Let_def)
  have get: "dp_get j (pub_step p e d) = (if j = i then Some (rejected_row now err ra r) else dp_get j d)" for p j
    using r by (simp add: e not_accepted_def Let_def dp_get_write[OF r(1) id] split: option.split)
  have ids: "same_ids d (pub_step p e d)" for p
    using r by (auto simp: e not_accepted_def Let_def intro: same_ids_trans[OF same_ids_put(1) same_ids_put(2)]
        split: option.split)
  show thesis by (rule that[OF r(1) _ get ids]) (use e r in \<open>auto simp: waiting_def\<close>)
next
  case (Retry now i')
  with assms have e: "e = Retry now i" and ne: "retry_failed_dispatch now i d \<noteq> None" by auto
  then obtain r where r: "dp_get i d = Some r" "dp_status r = ''failed''"
      "dp_article_publish_attempt_id r = None \<or> confirmed_xhs_failure r d"
    unfolding retry_failed_dispatch_def by (cases "dp_get i d") (auto split: if_splits)
  then have st: "pub_step p e d = put_dispatch (retried now r) d" for p
    by (auto simp: e retry_failed_dispatch_def)
  have id: "dp_id (retried now r) = i" using dp_get_Some[OF r(1)] by (simp add: retried_def)
  have get: "dp_get j (pub_step p e d) = (if j = i then Some (retried now r) else dp_get j d)" for p j
    unfolding st by (rule dp_get_write[OF r(1) id])
  have ids: "same_ids d (pub_step p e d)" for p
    unfolding st by simp
  show thesis by (rule that[OF r(1) _ get ids]) (use e r in \<open>auto simp: waiting_def\<close>)
qed (use assms in simp_all)

lemma submit_not_release: "submits i e d \<Longrightarrow> \<not> releases j e d"
  by (cases e) simp_all

lemma event_cases:
  obtains (submit) i where "submits i e d"
  | (release) i where "releases i e d"
  | (calm) "\<And>i. \<not> submits i e d" "\<And>i. \<not> releases i e d"
  by blast

lemma id_ok_event: "id_ok d \<Longrightarrow> id_ok (pub_step p e d)"
proof (cases rule: event_cases[of e d])
  case (submit i)
  then show "id_ok d \<Longrightarrow> ?thesis" by (elim submit_effect) (blast intro: same_ids_ok)
next
  case (release i)
  then show "id_ok d \<Longrightarrow> ?thesis" by (elim release_effect) (blast intro: same_ids_ok)
next
  case calm
  then show "id_ok d \<Longrightarrow> ?thesis" using calm_event[of d e p] by (simp add: calm_def)
qed

subsection \<open>Counting submissions\<close>

definition ready :: "int \<Rightarrow> db \<Rightarrow> bool" where
  "ready i d \<longleftrightarrow> (case dp_get i d of None \<Rightarrow> True | Some r \<Rightarrow> waiting r)"

lemma not_ready_event:
  assumes "id_ok d" and "\<not> ready i d" and "\<not> releases i e d"
  shows "\<not> ready i (pub_step p e d)"
proof -
  from assms(2) obtain r where r: "dp_get i d = Some r" "\<not> waiting r"
    by (auto simp: ready_def split: option.splits)
  show ?thesis
  proof (cases rule: event_cases[of e d])
    case (submit j)
    then show ?thesis using r by (elim submit_effect) (auto simp: ready_def)
  next
    case (release j)
    with assms(3) have "j \<noteq> i" by auto
    with release show ?thesis using r by (elim release_effect) (auto simp: ready_def)
  next
    case calm
    with calm_event[OF assms(1), of e p] r show ?thesis
      unfolding calm_def calm_row_def ready_def by fastforce
  qed
qed

lemma submission_budget:
  "id_ok d \<Longrightarrow> count_events (submits i) p es d + (if ready i d then 0 else 1) \<le>
    1 + count_events (releases i) p es d"
proof (induction es arbitrary: d)
  case (Cons e es)
  let ?d = "pub_step p e d"
  note IH = Cons.IH[OF id_ok_event[OF Cons.prems], of p e]
  show ?case
  proof (cases "submits i e d")
    case True
    then have "ready i d" "\<not> ready i ?d"
      by (elim submit_effect, auto simp: ready_def reserved_row_def waiting_def)+
    with True IH submit_not_release[OF True, of i] show ?thesis by simp
  next
    case False
    show ?thesis
    proof (cases "releases i e d")
      case True
      with False IH show ?thesis by (auto split: if_splits)
    next
      case nr: False
      have "ready i ?d \<Longrightarrow> ready i d" using not_ready_event[OF Cons.prems _ nr] by blast
      with False nr IH show ?thesis by (auto split: if_splits)
    qed
  qed
qed simp

subsection \<open>The invariant\<close>

definition running :: "publish_dispatch \<Rightarrow> bool" where
  "running r \<longleftrightarrow> dp_channel r = ''xhs'' \<and> dp_status r = ''dispatching''"

definition rejections_ok :: "publish_dispatch \<Rightarrow> bool" where
  "rejections_ok r \<longleftrightarrow> 0 \<le> dp_rejection_attempts r \<and>
     dp_rejection_attempts r \<le> xhs_not_accepted_retry_limit \<and>
     (waiting r \<or> dp_status r = ''dispatching'' \<longrightarrow> dp_rejection_attempts r < xhs_not_accepted_retry_limit)"

definition exclusive :: "db \<Rightarrow> bool" where
  "exclusive d \<longleftrightarrow>
     (\<forall>i j r r'. dp_get i d = Some r \<longrightarrow> dp_get j d = Some r' \<longrightarrow> running r \<longrightarrow> running r' \<longrightarrow>
        dp_owner_admin_id r = dp_owner_admin_id r' \<longrightarrow> i = j)"

definition rows_ok :: "db \<Rightarrow> bool" where
  "rows_ok d \<longleftrightarrow> (\<forall>i r. dp_get i d = Some r \<longrightarrow> owner_ok r \<and> rejections_ok r)"

definition pub_inv :: "db \<Rightarrow> bool" where
  "pub_inv d \<longleftrightarrow> id_ok d \<and> rows_ok d \<and> exclusive d"

lemma calm_row_ok: "calm_row r r' \<Longrightarrow> owner_ok r \<and> rejections_ok r \<Longrightarrow> owner_ok r' \<and> rejections_ok r'"
  by (auto simp: calm_row_def owner_ok_def rejections_ok_def)

lemma fresh_row_ok: "fresh_row r \<Longrightarrow> owner_ok r \<and> rejections_ok r \<and> \<not> running r"
  by (auto simp: fresh_row_def rejections_ok_def running_def waiting_def xhs_not_accepted_retry_limit_def)

lemma calm_back:
  assumes "calm d d'" and "dp_get i d' = Some r'"
  shows "(\<exists>r. dp_get i d = Some r \<and> calm_row r r') \<or> fresh_row r'"
  using assms unfolding calm_def by (metis option.exhaust option.inject)

lemma calm_inv:
  assumes "calm d d'" and "pub_inv d"
  shows "pub_inv d'"
proof -
  have "owner_ok r' \<and> rejections_ok r'" if "dp_get i d' = Some r'" for i r'
    using calm_back[OF assms(1) that] assms(2) calm_row_ok fresh_row_ok
    unfolding pub_inv_def rows_ok_def by blast
  moreover have "i = j" if "dp_get i d' = Some r" "dp_get j d' = Some r'" "running r" "running r'"
      "dp_owner_admin_id r = dp_owner_admin_id r'" for i j r r'
  proof -
    from that(3) calm_back[OF assms(1) that(1)] obtain s where s: "dp_get i d = Some s" "calm_row s r"
      using fresh_row_ok by blast
    from that(4) calm_back[OF assms(1) that(2)] obtain s' where s': "dp_get j d = Some s'" "calm_row s' r'"
      using fresh_row_ok by blast
    have "running s" "running s'" "dp_owner_admin_id s = dp_owner_admin_id s'"
      using s(2) s'(2) that(3-5) by (auto simp: running_def calm_row_def)
    with s(1) s'(1) assms(2) show "i = j" by (simp add: pub_inv_def exclusive_def)
  qed
  moreover have "id_ok d'" using assms by (simp add: calm_def pub_inv_def)
  ultimately show ?thesis unfolding pub_inv_def rows_ok_def exclusive_def by blast
qed

text \<open>A record is overwritten; exclusion needs a look only when it then runs.\<close>

lemma write_inv:
  assumes "pub_inv d" and "\<And>j. dp_get j d' = (if j = i then Some r' else dp_get j d)" and "id_ok d'"
    and "owner_ok r'" and "rejections_ok r'"
    and "running r' \<Longrightarrow> (\<And>j s. dp_get j d = Some s \<Longrightarrow> j \<noteq> i \<Longrightarrow> running s \<Longrightarrow>
      dp_owner_admin_id s \<noteq> dp_owner_admin_id r')"
  shows "pub_inv d'"
proof -
  have "rows_ok d'" using assms(1,2,4,5) by (auto simp: pub_inv_def rows_ok_def)
  moreover have "exclusive d'"
    unfolding exclusive_def
  proof (intro allI impI)
    fix a b r s
    assume h: "dp_get a d' = Some r" "dp_get b d' = Some s" "running r" "running s"
      "dp_owner_admin_id r = dp_owner_admin_id s"
    show "a = b"
    proof (cases "a = i"; cases "b = i")
      assume "a \<noteq> i" "b \<noteq> i"
      with h assms(1,2) show ?thesis by (simp add: pub_inv_def exclusive_def)
    next
      assume "a = i" "b \<noteq> i"
      with h assms(2) assms(6)[of b s] show ?thesis by simp
    next
      assume "a \<noteq> i" "b = i"
      with h assms(2) assms(6)[of a r] show ?thesis by simp
    qed simp
  qed
  ultimately show ?thesis using assms(3) by (simp add: pub_inv_def)
qed

lemma submit_inv:
  assumes "pub_inv d" and "submits i e d"
  shows "pub_inv (pub_step p e d)"
  using assms(2)
proof (rule submit_effect)
  fix now admin aid job r
  assume e: "e = Reserve now i admin aid job" and may: "may_reserve i admin d"
    and r: "dp_get i d = Some r" "waiting r" and free: "\<not> list_ex (active_for admin i) (dispatches d)"
    and get: "\<And>p j. dp_get j (pub_step p e d) = (if j = i then Some (reserved_row now aid job r) else dp_get j d)"
    and ids: "\<And>p. same_ids d (pub_step p e d)"
  let ?r = "reserved_row now aid job r"
  have ok: "owner_ok r" "rejections_ok r" using assms(1) r(1) by (simp_all add: pub_inv_def rows_ok_def)
  have same: "dp_owner_admin_id ?r = dp_owner_admin_id r" "dp_payload_snapshot ?r = dp_payload_snapshot r"
      "dp_rejection_attempts ?r = dp_rejection_attempts r"
    by (simp_all add: reserved_row_def)
  have owner: "dp_owner_admin_id r = Some admin"
    using may r(1) ok(1) by (simp add: may_reserve_def owner_ok_def)
  show ?thesis
  proof (rule write_inv[OF assms(1) get same_ids_ok[OF ids]])
    show "id_ok d" using assms(1) by (simp add: pub_inv_def)
    show "owner_ok ?r" using ok(1) by (simp add: owner_ok_def same)
    show "rejections_ok ?r" using ok(2) r(2) by (simp add: rejections_ok_def same)
    fix j s assume s: "dp_get j d = Some s" "j \<noteq> i" "running s"
    have "\<not> active_for admin i s"
      using free dp_get_Some[OF s(1)] by (simp add: list_ex_iff)
    with s dp_get_Some[OF s(1)] show "dp_owner_admin_id s \<noteq> dp_owner_admin_id ?r"
      by (simp add: active_for_def running_def same owner)
  qed
qed

lemma rejected_row_ok:
  assumes "owner_ok r" and "rejections_ok r" and "dp_status r = ''dispatching''"
  shows "owner_ok (rejected_row now err ra r) \<and> rejections_ok (rejected_row now err ra r) \<and>
    \<not> running (rejected_row now err ra r)"
  using assms
  by (simp add: rejected_row_def Let_def owner_ok_def rejections_ok_def running_def waiting_def
      xhs_not_accepted_retry_limit_def)

lemma release_inv:
  assumes "pub_inv d" and "releases i e d"
  shows "pub_inv (pub_step p e d)"
  using assms(2)
proof (rule release_effect)
  fix r r'
  assume r: "dp_get i d = Some r"
    and get: "\<And>p j. dp_get j (pub_step p e d) = (if j = i then Some r' else dp_get j d)"
    and ids: "\<And>p. same_ids d (pub_step p e d)"
    and kind: "(\<exists>now err ra. e = NotAccepted now i err ra \<and> dp_status r = ''dispatching'' \<and> r' = rejected_row now err ra r) \<or>
     (\<exists>now. e = Retry now i \<and> dp_status r = ''failed'' \<and> r' = retried now r \<and>
       (dp_article_publish_attempt_id r = None \<or> confirmed_xhs_failure r d))"
  have ok: "owner_ok r" "rejections_ok r" using assms(1) r by (simp_all add: pub_inv_def rows_ok_def)
  have "owner_ok (retried now r) \<and> rejections_ok (retried now r) \<and> \<not> running (retried now r)" for now
    using ok by (simp add: retried_def owner_ok_def rejections_ok_def running_def xhs_not_accepted_retry_limit_def)
  with kind rejected_row_ok[OF ok] have r': "owner_ok r'" "rejections_ok r'" "\<not> running r'" by auto
  show ?thesis
    by (rule write_inv[OF assms(1) get same_ids_ok[OF ids]])
      (use assms(1) r' in \<open>simp_all add: pub_inv_def\<close>)
qed

lemma pub_inv_step: "pub_inv d \<Longrightarrow> pub_inv (pub_step p e d)"
proof (cases rule: event_cases[of e d])
  case calm
  then show "pub_inv d \<Longrightarrow> ?thesis" using calm_inv[OF calm_event[of d e p]] by (simp add: pub_inv_def)
qed (simp_all add: submit_inv release_inv)

lemma pub_inv_run: "pub_inv d \<Longrightarrow> pub_inv (pub_run p es d)"
  by (induction es arbitrary: d) (simp_all add: pub_inv_step)

lemma pub_inv_empty: "pub_inv empty_db"
  by (simp add: pub_inv_def id_ok_def rows_ok_def exclusive_def dp_get_def row_get_def empty_db_def)

subsection \<open>The composed turn is a run of events\<close>

definition identity :: "publish_dispatch \<Rightarrow> string \<times> json" where
  "identity r = (dp_channel r, dp_payload_snapshot r)"

lemma identity_event:
  assumes "id_ok d" and "dp_get i d = Some r"
  shows "\<exists>r'. dp_get i (pub_step p e d) = Some r' \<and> identity r' = identity r"
proof (cases rule: event_cases[of e d])
  case (submit j)
  then show ?thesis using assms
    by (elim submit_effect) (auto simp: identity_def reserved_row_def)
next
  case (release j)
  then show ?thesis
  proof (rule release_effect)
    fix x x'
    assume x: "dp_get j d = Some x" and get: "\<And>p k. dp_get k (pub_step p e d) = (if k = j then Some x' else dp_get k d)"
      and kind: "(\<exists>now err ra. e = NotAccepted now j err ra \<and> dp_status x = ''dispatching'' \<and> x' = rejected_row now err ra x) \<or>
       (\<exists>now. e = Retry now j \<and> dp_status x = ''failed'' \<and> x' = retried now x \<and>
         (dp_article_publish_attempt_id x = None \<or> confirmed_xhs_failure x d))"
    have "identity x' = identity x"
      using kind by (auto simp: identity_def rejected_row_def retried_def Let_def)
    with x get assms(2) show ?thesis by auto
  qed
next
  case calm
  with calm_event[OF assms(1), of e p] assms(2) show ?thesis
    unfolding calm_def calm_row_def identity_def by fastforce
qed

lemma identity_run:
  "id_ok d \<Longrightarrow> dp_get i d = Some r \<Longrightarrow> \<exists>r'. dp_get i (pub_run p es d) = Some r' \<and> identity r' = identity r"
proof (induction es arbitrary: d r)
  case (Cons e es)
  from identity_event[OF Cons.prems] obtain r' where
    "dp_get i (pub_step p e d) = Some r'" "identity r' = identity r" by blast
  with Cons.IH[OF id_ok_event[OF Cons.prems(1)]] show ?case by fastforce
qed simp

lemma id_ok_run: "id_ok d \<Longrightarrow> id_ok (pub_run p es d)"
  by (induction es arbitrary: d) (simp_all add: id_ok_event)

lemma pub_run_append: "pub_run p (es @ fs) d = pub_run p fs (pub_run p es d)"
  by (induction es arbitrary: d) simp_all

text \<open>The preparation leaves the records alone, and reports the owner of the payload.\<close>

lemma track_copy_event: "track_copy i img d = pub_step p (Elsewhere (track_copy i img)) d"
proof -
  have "dispatches (track_copy i img d) = dispatches d" "serial (track_copy i img d) = serial d"
    by (simp_all add: track_copy_def split: option.split)
  then show ?thesis by simp
qed

lemma add_source_run:
  assumes "add_source env req r admin payload paths s = (s', res)"
  shows "\<exists>es. fst s' = pub_run p es (fst s)"
proof -
  have "fst s' = fst s \<or> (\<exists>img. fst s' = track_copy (dp_draft_id r) img (fst s))"
    using assms unfolding add_source_def Let_def
    by (auto split: if_splits option.splits sum.splits prod.splits)
  then show ?thesis
  proof
    assume "fst s' = fst s"
    then show ?thesis by (intro exI[of _ "[]"]) simp
  next
    assume "\<exists>img. fst s' = track_copy (dp_draft_id r) img (fst s)"
    then obtain img where "fst s' = track_copy (dp_draft_id r) img (fst s)" by blast
    then show ?thesis
      by (intro exI[of _ "[Elsewhere (track_copy (dp_draft_id r) img)]"]) (simp only: track_copy_event[of _ _ _ p] pub_run.simps)
  qed
qed

lemma prepare_shape:
  assumes "prepare_media env True i s = ((d1, vol1), res)" and "dp_get i (fst s) = Some r"
    and "positive_int (jget (jor (dp_payload_snapshot r) (JObj [])) ''owner_admin_id'') = Some a"
  shows "(d1 = fst s \<or> (\<exists>paths s' x. add_source env True r a (jor (dp_payload_snapshot r) (JObj [])) paths s = (s', x) \<and>
      d1 = fst s')) \<and> (\<forall>payload paths admin. res = Ready payload paths admin \<longrightarrow> admin = a)"
proof (cases "resolve_images a (snd s) (jlist (jor (jget (jor (dp_payload_snapshot r) (JObj [])) ''images'') (JList [])))")
  case (Inl e)
  moreover have "resolve_images admin vol js = Inl e \<Longrightarrow> e \<noteq> Ready payload paths adm" for admin vol js payload paths adm e
    by (induction admin vol js arbitrary: e rule: resolve_images.induct)
      (auto split: option.splits sum.splits simp: map_sum_def)
  ultimately show ?thesis using assms
    by (auto simp: prepare_media_def Let_def split: option.splits if_splits)
next
  case (Inr paths)
  obtain s' x where x: "add_source env True r a (jor (dp_payload_snapshot r) (JObj [])) paths s = (s', x)"
    by (cases "add_source env True r a (jor (dp_payload_snapshot r) (JObj [])) paths s")
  have "x = Inl e \<Longrightarrow> e \<noteq> Ready payload paths adm" for e payload paths adm
    using x unfolding add_source_def Let_def by (auto split: if_splits option.splits sum.splits prod.splits)
  with Inr x assms show ?thesis
    by (auto simp: prepare_media_def Let_def split: option.splits if_splits sum.splits)
qed

lemma prepare_run:
  assumes "prepare_media env True i s = ((d1, vol1), res)"
  shows "\<exists>es. d1 = pub_run p es (fst s)"
    and "res = Ready payload paths admin \<Longrightarrow> \<exists>r. dp_get i (fst s) = Some r \<and>
      positive_int (jget (jor (dp_payload_snapshot r) (JObj [])) ''owner_admin_id'') = Some admin"
proof -
  have nil: "\<exists>es. fst s = pub_run p es (fst s)" by (intro exI[of _ "[]"]) simp
  have "(\<exists>es. d1 = pub_run p es (fst s)) \<and>
    (\<forall>payload paths admin. res = Ready payload paths admin \<longrightarrow> (\<exists>r. dp_get i (fst s) = Some r \<and>
      positive_int (jget (jor (dp_payload_snapshot r) (JObj [])) ''owner_admin_id'') = Some admin))"
  proof (cases "dp_get i (fst s)")
    case None
    with assms nil show ?thesis by (auto simp: prepare_media_def)
  next
    case (Some r)
    show ?thesis
    proof (cases "positive_int (jget (jor (dp_payload_snapshot r) (JObj [])) ''owner_admin_id'')")
      case None
      with Some assms nil show ?thesis by (auto simp: prepare_media_def Let_def)
    next
      case (Some a)
      from prepare_shape[OF assms \<open>dp_get i (fst s) = Some r\<close> Some]
      show ?thesis using nil add_source_run[of env True r a] Some \<open>dp_get i (fst s) = Some r\<close> by metis
    qed
  qed
  then show "\<exists>es. d1 = pub_run p es (fst s)"
    and "res = Ready payload paths admin \<Longrightarrow> \<exists>r. dp_get i (fst s) = Some r \<and>
      positive_int (jget (jor (dp_payload_snapshot r) (JObj [])) ''owner_admin_id'') = Some admin"
    by blast+
qed

lemma after_submit_event:
  "\<exists>es. after_submit (pp_brackets_ok p) e i reply d = pub_run p es d"
proof (cases reply)
  case Accepted
  show ?thesis
  proof (cases "de_http e")
    case True
    with Accepted show ?thesis
      by (intro exI[of _ "[ApplyResult (de_clock e 1) (de_job_id e)]"]) (simp add: after_submit_def)
  next
    case False
    with Accepted show ?thesis
      by (intro exI[of _ "[MarkPublished (de_clock e 1) i]"]) (simp add: after_submit_def)
  qed
next
  case (Rejected err ra)
  then show ?thesis
    by (intro exI[of _ "[NotAccepted (de_clock e 1) i err ra]"]) (simp add: after_submit_def)
next
  case Interrupted
  then show ?thesis by (intro exI[of _ "[]"]) (simp add: after_submit_def)
next
  case Broken
  then show ?thesis
    by (intro exI[of _ "[SubmitFailed (de_clock e 1) i (submitted_job e)]"]) (simp add: after_submit_def)
qed

lemma dispatch_xhs_run:
  assumes "id_ok d" and "dp_get i d = Some r" and "dp_channel r = ''xhs''"
    and world: "\<And>k d. \<exists>es. de_world e k d = pub_run p es d"
  shows "\<exists>es. fst (dispatch_xhs (pp_brackets_ok p) env e i (d, vol)) = pub_run p es d"
proof -
  obtain d1 vol1 res where prep: "prepare_media env True i (d, vol) = ((d1, vol1), res)"
    by (metis prod.collapse)
  obtain es1 where es1: "d1 = pub_run p es1 d" using prepare_run(1)[OF prep] by fastforce
  obtain es2 where es2: "de_world e 0 d1 = pub_run p es2 d1" using world by blast
  have w1: "de_world e 0 d1 = pub_run p (es1 @ es2) d"
    using es2 by (simp add: es1 pub_run_append)
  have pre: "\<exists>es. preflight_failure t i m retry (de_world e 0 d1) = pub_run p es d" for t m retry
    by (intro exI[of _ "(es1 @ es2) @ [Preflight t i m retry]"]) (simp add: w1 pub_run_append del: append_assoc)
  show ?thesis
  proof (cases res)
    case (Ready payload paths admin)
    show ?thesis
    proof (cases "if de_http e then de_client_error e else None")
      case (Some m)
      with prep Ready pre show ?thesis by (simp add: dispatch_xhs_def)
    next
      case None
      let ?w = "de_world e 0 d1" and ?ev = "Reserve (de_clock e 0) i admin (de_attempt_id e) (submitted_job e)"
      obtain r1 where r1: "dp_get i ?w = Some r1" "identity r1 = identity r"
        using identity_run[OF assms(1,2), of p "es1 @ es2"] w1 by auto
      from prepare_run(2)[OF prep Ready] assms(2) have
        "positive_int (jget (jor (dp_payload_snapshot r) (JObj [])) ''owner_admin_id'') = Some admin" by simp
      with r1 assms(3) have may: "may_reserve i admin ?w" by (simp add: may_reserve_def identity_def)
      obtain d2 ok where res: "reserve_xhs (de_clock e 0) i admin (de_attempt_id e) (submitted_job e) ?w = (d2, ok)"
        by (cases "reserve_xhs (de_clock e 0) i admin (de_attempt_id e) (submitted_job e) ?w")
      have d2: "d2 = pub_run p ((es1 @ es2) @ [?ev]) d"
        using may res by (simp add: w1[symmetric] pub_run_append[of p "es1 @ es2" "[?ev]"] del: append_assoc)
      obtain es3 where es3: "de_world e 1 d2 = pub_run p es3 d2" using world by blast
      obtain es4 where es4: "after_submit (pp_brackets_ok p) e i (de_submit e payload paths) (de_world e 1 d2) =
          pub_run p es4 (de_world e 1 d2)"
        using after_submit_event by blast
      show ?thesis
      proof (cases ok)
        case True
        have "fst (dispatch_xhs (pp_brackets_ok p) env e i (d, vol)) = pub_run p es4 (pub_run p es3 d2)"
          using prep Ready None res True es3 es4 by (simp add: dispatch_xhs_def)
        then show ?thesis unfolding d2 pub_run_append[symmetric] by blast
      next
        case False
        have "fst (dispatch_xhs (pp_brackets_ok p) env e i (d, vol)) = d2"
          using prep Ready None res False by (simp add: dispatch_xhs_def)
        then show ?thesis unfolding d2 by blast
      qed
    qed
  next
    case (Invalid m)
    with prep pre show ?thesis by (simp add: dispatch_xhs_def)
  next
    case (Awaiting m)
    with prep pre show ?thesis by (simp add: dispatch_xhs_def)
  next
    case Crashed
    with prep es1 show ?thesis by (auto simp: dispatch_xhs_def)
  qed
qed

subsection \<open>The QQ outbox of an article\<close>

lemma show_nat_colon: "CHR '':'' \<notin> set (show_nat n)"
  by (rule show_nat_not) (simp add: is_digit_def code_def)

lemma split_last_colon:
  "CHR '':'' \<notin> set b \<Longrightarrow> CHR '':'' \<notin> set b' \<Longrightarrow> a @ CHR '':'' # b = a' @ CHR '':'' # b' \<Longrightarrow> a = a' \<and> b = b'"
proof (induction a arbitrary: a')
  case Nil
  then show ?case by (cases a') auto
next
  case (Cons x a)
  then show ?case by (cases a') auto
qed

lemma qq_key_inj: "qq_key job g n = qq_key job g' n' \<longleftrightarrow> g = g' \<and> n = n'"
  using split_last_colon[OF show_nat_colon show_nat_colon, of g n g' n']
  by (auto simp: qq_key_def show_nat_inj)

lemma new_delivery_fields [simp]:
  "qd_idempotency_key (new_delivery now ma r qbot aid g (k, part)) = qq_key (dp_job_id r) g k"
  "qd_article_publish_attempt_id (new_delivery now ma r qbot aid g x) = Some aid"
  "qd_status (new_delivery now ma r qbot aid g x) = ''queued''"
  by (simp_all add: new_delivery_def split: prod.splits)

lemma deliveries_length:
  "length (article_deliveries now ma r qbot aid gs parts) = length gs * length parts"
  unfolding article_deliveries_def by (induction gs) simp_all

lemma deliveries_keys:
  assumes "distinct gs"
  shows "distinct (map qd_idempotency_key (article_deliveries now ma r qbot aid gs parts))"
proof -
  let ?row = "\<lambda>g. map (\<lambda>k. qq_key (dp_job_id r) g k) [0..<length parts]"
  have "map qd_idempotency_key (map (new_delivery now ma r qbot aid g) (enumerate 0 parts)) = ?row g" for g
    by (rule nth_equalityI) (simp_all add: nth_enumerate_eq)
  then have "map qd_idempotency_key (article_deliveries now ma r qbot aid gs parts) = concat (map ?row gs)"
    by (simp add: article_deliveries_def map_concat o_def)
  moreover have "distinct (concat (map ?row gs))" using assms
    by (induction gs) (auto simp: distinct_map inj_on_def qq_key_inj)
  ultimately show ?thesis by simp
qed

subsection \<open>Properties\<close>

definition sample_params :: pub_params where
  "sample_params = \<lparr>pp_brackets_ok = (\<lambda>_. True), pp_label = (\<lambda>s. s), pp_qq_attempts = 3,
     pp_cfg = \<lparr>xhs_job_timeout = secs 300, xhs_job_result_ttl_seconds = 600, xhs_browser_pool_size = 1,
       xhs_browser_max_concurrency = 1, xhs_worker_heartbeat_ttl_seconds = 60,
       xhs_worker_metrics_port = 9100, xhs_transport = ''http''\<rparr>\<rparr>"

text \<open>
  C1: One submission at a time per account. However the transactions of all
  workers and routes interleave, starting from a consistent database, no two
  distinct XHS records of the same account are being dispatched at once.
\<close>

theorem one_running_submission:
  assumes "pub_inv d" and "dp_get i (pub_run p es d) = Some r" and "dp_get j (pub_run p es d) = Some r'"
    and "running r" and "running r'" and "dp_owner_admin_id r = dp_owner_admin_id r'"
  shows "i = j"
  using pub_inv_run[OF assms(1), of p es] assms(2-6) unfolding pub_inv_def exclusive_def by blast

theorem one_running_submission_witness:
  "dp_get 1 (pub_run sample_params [ApplyResult 500 ''j0''] (empty_db\<lparr>dispatches :=
      [sample_dispatch\<lparr>dp_status := ''dispatching''\<rparr>], serial := 2\<rparr>)) \<noteq> None \<and> (1::int) = 1"
proof -
  let ?r = "sample_dispatch\<lparr>dp_status := ''dispatching''\<rparr>"
  let ?d = "empty_db\<lparr>dispatches := [?r], serial := 2\<rparr>"
  have id: "dp_id ?r = 1" by (simp add: sample_dispatch_def)
  have get: "dp_get k ?d = (if k = 1 then Some ?r else None)" for k
    by (simp add: dp_get_def row_get_def sample_dispatch_def)
  have "owner_ok ?r \<and> rejections_ok ?r"
    by (simp add: sample_dispatch_def owner_ok_def rejections_ok_def positive_int_def jor_def
        xhs_not_accepted_retry_limit_def)
  then have inv: "pub_inv ?d"
    using get by (simp add: pub_inv_def id_ok_def rows_ok_def exclusive_def id)
  have run: "pub_run sample_params [ApplyResult 500 ''j0''] ?d = ?d"
    by (simp add: apply_xhs_job_result_def bj_get_def row_get_def empty_db_def)
  have g: "dp_get 1 (pub_run sample_params [ApplyResult 500 ''j0''] ?d) = Some ?r"
    unfolding run using get by simp
  have "running ?r" by (simp add: running_def sample_dispatch_def)
  from one_running_submission[OF inv g g this this HOL.refl] g show ?thesis by simp
qed

text \<open>
  C12: No note is submitted twice on its own. In any interleaving the submissions
  of a record number at most one more than the times the XHS service explicitly
  rejected it before storing it or a person asked for a retry that the journal
  allowed; a record that was submitted already gets none beyond those.
\<close>

theorem submissions_bounded:
  assumes "pub_inv d"
  shows "count_events (submits i) p es d + (if ready i d then 0 else 1) \<le> 1 + count_events (releases i) p es d"
  using assms submission_budget by (simp add: pub_inv_def)

text \<open>
  A note is submitted, a second submission is refused while the first runs, the service rejects the
  note, it is submitted again, and no more while that runs.
\<close>

definition sample_waiting_db :: db where
  "sample_waiting_db = empty_db\<lparr>dispatches := [sample_dispatch\<lparr>dp_status := ''pending''\<rparr>], serial := 2,
     admins := [\<lparr>ad_id = 1, ad_username = ''root'', ad_password_hash = ''x'', ad_is_active = True, ad_last_login_at = None,
       ad_created_at = 0, ad_updated_at = 0\<rparr>]\<rparr>"

definition sample_submissions :: "pub_event list" where
  "sample_submissions = [Reserve 5 1 1 ''a'' None, Reserve 6 1 1 ''b'' None, NotAccepted 7 1 (Text ''busy'') None,
     Reserve (secs 60) 1 1 ''c'' None, Reserve (secs 61) 1 1 ''d'' None]"

theorem submissions_bounded_witness:
  "count_events (submits 1) sample_params sample_submissions sample_waiting_db = 2 \<and>
   count_events (releases 1) sample_params sample_submissions sample_waiting_db = 1 \<and>
   count_events (submits 1) sample_params sample_submissions sample_waiting_db \<le>
     1 + count_events (releases 1) sample_params sample_submissions sample_waiting_db"
proof (intro conjI)
  let ?r = "sample_dispatch\<lparr>dp_status := ''pending''\<rparr>"
  have get: "dp_get k sample_waiting_db = (if k = 1 then Some ?r else None)" for k
    by (simp add: dp_get_def row_get_def sample_dispatch_def sample_waiting_db_def)
  have "owner_ok ?r \<and> rejections_ok ?r"
    by (simp add: sample_dispatch_def owner_ok_def rejections_ok_def positive_int_def jor_def xhs_not_accepted_retry_limit_def)
  then have inv: "pub_inv sample_waiting_db"
    using get by (simp add: pub_inv_def id_ok_def rows_ok_def exclusive_def) (simp add: sample_waiting_db_def sample_dispatch_def)
  show "count_events (submits 1) sample_params sample_submissions sample_waiting_db = 2"
      "count_events (releases 1) sample_params sample_submissions sample_waiting_db = 1" by code_simp+
  show "count_events (submits 1) sample_params sample_submissions sample_waiting_db \<le>
     1 + count_events (releases 1) sample_params sample_submissions sample_waiting_db"
    using submissions_bounded[OF inv, of 1 sample_params sample_submissions] by linarith
qed

text \<open>
  A retry cannot repeat a note that may be out. An explicit retry is granted
  only for a failed record, and one that names an attempt only if the journal holds
  a verified failure for the same account; the record it resets carries no attempt,
  job or human decision, so that late results of the old job cannot touch it.
\<close>

theorem retry_only_unpublished:
  assumes "retry_failed_dispatch now i d = Some (d', r')"
  shows "\<exists>r. dp_get i d = Some r \<and> dp_status r = ''failed'' \<and>
    (dp_article_publish_attempt_id r = None \<or>
      (\<exists>job res. dp_xhs_job_id r = Some job \<and> bj_get ''xhs'' job d = Some res \<and>
        bj_state res = ''failed'' \<and> bj_admin_id res = dp_owner_admin_id r)) \<and>
    dp_get i d' = Some r' \<and> dp_status r' = ''pending'' \<and> dp_xhs_job_id r' = None \<and>
    dp_article_publish_attempt_id r' = None \<and> dp_reconciliation_result r' = None \<and>
    (id_ok d \<longrightarrow> (\<forall>bo t job. dp_get i (fst (apply_xhs_job_result bo t job d')) = Some r'))"
proof -
  from assms obtain r where r0: "dp_get i d = Some r"
    unfolding retry_failed_dispatch_def by (cases "dp_get i d") simp_all
  have pair: "(put_dispatch (retried now r) d, retried now r) = (d', r')" "dp_status r = ''failed''"
      "dp_article_publish_attempt_id r = None \<or> confirmed_xhs_failure r d"
    using assms unfolding retry_failed_dispatch_def r0 option.case
    by (simp_all only: option.inject split: if_splits) simp_all
  from pair(1) have "d' = put_dispatch (retried now r) d" "r' = retried now r" by auto
  note r = r0 pair(2,3) this
  have conf: "\<exists>job res. dp_xhs_job_id r = Some job \<and> bj_get ''xhs'' job d = Some res \<and>
      bj_state res = ''failed'' \<and> bj_admin_id res = dp_owner_admin_id r" if "confirmed_xhs_failure r d"
  proof -
    from that have "nonempty (dp_xhs_job_id r)" by (simp add: confirmed_xhs_failure_def split: if_splits)
    then obtain job where job: "dp_xhs_job_id r = Some job" by (cases "dp_xhs_job_id r") simp_all
    with that show ?thesis
      by (cases "bj_get ''xhs'' job d") (simp_all add: confirmed_xhs_failure_def split: if_splits)
  qed
  have "dp_id (retried now r) = i" using dp_get_Some[OF r(1)] by (simp add: retried_def)
  then have get: "dp_get i d' = Some r'" using r by (simp add: dp_get_put)
  have "dp_get i (fst (apply_xhs_job_result bo t job d')) = Some r'" if "id_ok d" for bo t job
  proof (rule apply_other[OF _ get])
    have "id_ok d'" using same_ids_ok[OF same_ids_put(1) that] r(4) by simp
    then show "distinct (map dp_id (dispatches d'))" by (simp add: id_ok_def)
    show "decided r' \<or> dp_xhs_job_id r' \<noteq> Some job" by (simp add: r(5) retried_def)
  qed
  moreover have "dp_article_publish_attempt_id r = None \<or>
      (\<exists>job res. dp_xhs_job_id r = Some job \<and> bj_get ''xhs'' job d = Some res \<and>
        bj_state res = ''failed'' \<and> bj_admin_id res = dp_owner_admin_id r)"
    using r(3) conf by blast
  moreover have "dp_status r' = ''pending''" "dp_xhs_job_id r' = None"
      "dp_article_publish_attempt_id r' = None" "dp_reconciliation_result r' = None"
    by (simp_all add: r(5) retried_def)
  ultimately show ?thesis using r(1,2) get by blast
qed

theorem retry_only_unpublished_witness:
  "\<exists>r. dp_get 1 (sample_pub_db\<lparr>dispatches := [sample_dispatch\<lparr>dp_status := ''failed'',
     dp_article_publish_attempt_id := None\<rparr>]\<rparr>) = Some r \<and> dp_status r = ''failed''"
proof -
  let ?r = "sample_dispatch\<lparr>dp_status := ''failed'', dp_article_publish_attempt_id := None\<rparr>"
  let ?d = "sample_pub_db\<lparr>dispatches := [?r]\<rparr>"
  have "retry_failed_dispatch 700 1 ?d = Some (put_dispatch (retried 700 ?r) ?d, retried 700 ?r)"
    by (simp add: retry_failed_dispatch_def dp_get_def row_get_def sample_dispatch_def)
  from retry_only_unpublished[OF this] show ?thesis by blast
qed

text \<open>
  Retries end. A rejection by the service leaves the record failed when it was
  the fifth, and otherwise waiting for a positive time of at most two minutes; a
  preflight failure leaves it failed when it is not to be retried or was the twelfth
  attempt, and otherwise waiting for at most five minutes. The count of rejections
  never exceeds five in any interleaving.
\<close>

theorem retries_end:
  assumes "dp_get i d = Some r" and "rejections_ok r"
  shows "(dp_status r = ''dispatching'' \<longrightarrow>
      (\<exists>r'. dp_get i (not_accepted now i err ra d) = Some r' \<and>
        dp_rejection_attempts r' = dp_rejection_attempts r + 1 \<and> rejections_ok r' \<and>
        (if dp_rejection_attempts r' = 5 then dp_status r' = ''failed''
         else dp_status r' = ''retry_wait'' \<and> now < dp_next_attempt_at r' \<and>
           dp_next_attempt_at r' \<le> now + secs 120))) \<and>
    (waiting r \<longrightarrow>
      (\<exists>r'. dp_get i (preflight_failure now i m retry d) = Some r' \<and>
        dp_attempts r' = dp_attempts r + 1 \<and>
        (if retry \<and> dp_attempts r' < 12
         then dp_status r' = ''retry_wait'' \<and> now < dp_next_attempt_at r' \<and>
           dp_next_attempt_at r' \<le> now + secs 300
         else dp_status r' = ''failed'')))"
proof (intro conjI impI)
  assume st: "dp_status r = ''dispatching''"
  let ?r = "rejected_row now err ra r" and ?n = "dp_rejection_attempts r + 1"
  let ?delay = "case ra of None \<Rightarrow> rejection_delay (nat ?n) | Some s \<Rightarrow> max (rejection_delay (nat ?n)) (min 120 s)"
  have id: "dp_id ?r = i" using dp_get_Some[OF assms(1)] by (simp add: rejected_row_def Let_def)
  have get: "dp_get i (not_accepted now i err ra d) = Some ?r"
    using assms(1) st by (simp add: not_accepted_def Let_def dp_get_write[OF assms(1) id] split: option.split)
  have n: "0 \<le> dp_rejection_attempts r" "dp_rejection_attempts r < 5"
    using assms(2) st by (simp_all add: rejections_ok_def xhs_not_accepted_retry_limit_def)
  have "0 < ?delay \<and> ?delay \<le> 120"
    using rejection.delay_pos[of "nat ?n"] rejection.delay_cap[of "nat ?n"] by (auto split: option.split)
  then have "0 < secs ?delay \<and> secs ?delay \<le> secs 120" by simp
  moreover have "dp_rejection_attempts ?r = ?n" by (simp add: rejected_row_def Let_def)
  moreover have "?n = 5 \<Longrightarrow> dp_status ?r = ''failed''"
    by (simp add: rejected_row_def Let_def xhs_not_accepted_retry_limit_def)
  moreover have "?n \<noteq> 5 \<Longrightarrow> dp_status ?r = ''retry_wait'' \<and> dp_next_attempt_at ?r = now + secs ?delay"
    using n(2) by (simp add: rejected_row_def Let_def xhs_not_accepted_retry_limit_def)
  moreover have "rejections_ok ?r"
    using assms(2) st by (simp add: rejected_row_def Let_def rejections_ok_def waiting_def
        xhs_not_accepted_retry_limit_def)
  ultimately show "\<exists>r'. dp_get i (not_accepted now i err ra d) = Some r' \<and>
        dp_rejection_attempts r' = dp_rejection_attempts r + 1 \<and> rejections_ok r' \<and>
        (if dp_rejection_attempts r' = 5 then dp_status r' = ''failed''
         else dp_status r' = ''retry_wait'' \<and> now < dp_next_attempt_at r' \<and>
           dp_next_attempt_at r' \<le> now + secs 120)"
    using get by auto
next
  assume w: "waiting r"
  let ?n = "dp_attempts r + 1"
  have id: "dp_id r = i" using dp_get_Some[OF assms(1)] by simp
  have "0 < secs (preflight_delay (nat ?n)) \<and> secs (preflight_delay (nat ?n)) \<le> secs 300"
    using preflight.delay_pos[of "nat ?n"] preflight.delay_cap[of "nat ?n"] by simp
  then show "\<exists>r'. dp_get i (preflight_failure now i m retry d) = Some r' \<and>
        dp_attempts r' = dp_attempts r + 1 \<and>
        (if retry \<and> dp_attempts r' < 12
         then dp_status r' = ''retry_wait'' \<and> now < dp_next_attempt_at r' \<and>
           dp_next_attempt_at r' \<le> now + secs 300
         else dp_status r' = ''failed'')"
    using assms(1) w id
    by (auto simp: preflight_failure_def Let_def dp_get_put dp_get_finish finish_row_def preflight_retry_limit_def)
qed

theorem retries_end_witness:
  "\<exists>r'. dp_get 1 (preflight_failure 50 1 (Text ''x'') True (empty_db\<lparr>dispatches :=
      [sample_dispatch\<lparr>dp_status := ''pending''\<rparr>]\<rparr>)) = Some r' \<and> dp_status r' = ''retry_wait''"
proof -
  let ?r = "sample_dispatch\<lparr>dp_status := ''pending''\<rparr>"
  let ?d = "empty_db\<lparr>dispatches := [?r]\<rparr>"
  have "dp_get 1 ?d = Some ?r" by (simp add: dp_get_def row_get_def sample_dispatch_def)
  moreover have "rejections_ok ?r"
    by (simp add: sample_dispatch_def rejections_ok_def xhs_not_accepted_retry_limit_def)
  moreover have "waiting ?r" "dp_attempts ?r = 1" by (simp_all add: waiting_def sample_dispatch_def)
  ultimately show ?thesis using retries_end[of 1 ?d ?r 50 _ _ "Text ''x''" True] by auto
qed

definition bodies_of :: "string \<Rightarrow> qq_delivery list \<Rightarrow> string" where
  "bodies_of g rows = concat (map (\<lambda>q. case qd_message_body q of Text s \<Rightarrow> s | Lit k a \<Rightarrow> [])
     (filter (\<lambda>q. qd_group_openid q = g) rows))"

lemma bodies_of_group:
  assumes "distinct gs" and "g \<in> set gs"
  shows "bodies_of g (article_deliveries now ma r qbot aid gs parts) = concat (map fst parts)"
proof -
  have sub: "map (\<lambda>q. case qd_message_body q of Text s \<Rightarrow> s | Lit k a \<Rightarrow> [])
      (map (new_delivery now ma r qbot aid h) (enumerate n ps)) = map fst ps" for h n ps
    by (induction ps arbitrary: n) (simp_all add: new_delivery_def split: prod.splits)
  have same: "filter (\<lambda>q. qd_group_openid q = g) (map (new_delivery now ma r qbot aid h) (enumerate n ps)) =
      (if h = g then map (new_delivery now ma r qbot aid h) (enumerate n ps) else [])" for h n ps
    by (auto simp: filter_empty_conv new_delivery_def filter_id_conv split: prod.splits)
  have none: "bodies_of g (article_deliveries now ma r qbot aid hs parts) = []" if "g \<notin> set hs" for hs
    using that by (induction hs) (auto simp: bodies_of_def article_deliveries_def same)
  have app: "bodies_of g (xs @ ys) = bodies_of g xs @ bodies_of g ys" for xs ys
    by (simp add: bodies_of_def)
  have cons: "article_deliveries now ma r qbot aid (h # hs) parts =
      map (new_delivery now ma r qbot aid h) (enumerate 0 parts) @ article_deliveries now ma r qbot aid hs parts" for h hs
    by (simp add: article_deliveries_def)
  have one: "bodies_of g (map (new_delivery now ma r qbot aid h) (enumerate 0 parts)) =
      (if h = g then concat (map fst parts) else [])" for h
    unfolding bodies_of_def same by (simp only: sub split: if_split) simp
  from assms show ?thesis
    by (induction gs) (auto simp: cons app one none)
qed

lemma qq_parts_text: "concat (map fst (qq_parts text paths)) = text"
proof -
  obtain bodies where b: "split_qq_text qq_message_max_chars text = Some bodies"
    by (cases "split_qq_text qq_message_max_chars text") (simp_all add: split_qq_text_def qq_message_max_chars_def)
  then have "concat bodies = text"
    by (auto simp: split_qq_text_def concat_filter_nonempty fill_chunks_concat concat_splitlines_keep
        split: if_splits)
  moreover have "concat (map fst (map (\<lambda>p. ([], Some p)) paths)) = ([] :: string)" by (induction paths) simp_all
  ultimately show ?thesis by (simp add: qq_parts_def b o_def)
qed

definition numbered :: "int \<Rightarrow> qq_delivery list \<Rightarrow> qq_delivery list" where
  "numbered n rows = map (\<lambda>(k, r). r\<lparr>qd_id := n + int k\<rparr>) (enumerate 0 rows)"

lemma numbered_map:
  assumes "\<And>r x. f (r\<lparr>qd_id := x\<rparr>) = f r"
  shows "map f (numbered n rows) = map f rows"
  unfolding numbered_def by (rule nth_equalityI) (simp_all add: nth_enumerate_eq assms)

lemma numbered_keys: "map qd_idempotency_key (numbered n rows) = map qd_idempotency_key rows"
  by (rule numbered_map) simp

lemma numbered_length: "length (numbered n rows) = length rows"
  by (simp add: numbered_def)

lemma numbered_distinct: "distinct (map qd_id (numbered n rows))"
proof -
  have "map qd_id (numbered n rows) = map (\<lambda>k. n + int k) [0..<length rows]"
    unfolding numbered_def by (rule nth_equalityI) (simp_all add: nth_enumerate_eq)
  then show ?thesis by (simp add: distinct_map inj_on_def)
qed

lemma bodies_of_map:
  "bodies_of g rows = concat (map (\<lambda>q. if qd_group_openid q = g
     then (case qd_message_body q of Text s \<Rightarrow> s | Lit k a \<Rightarrow> []) else []) rows)"
  by (induction rows) (simp_all add: bodies_of_def)

lemma numbered_bodies: "bodies_of g (numbered n rows) = bodies_of g rows"
  unfolding bodies_of_map by (subst numbered_map) simp_all

text \<open>An accepted record went through the last branch of the transaction.\<close>

lemma accept_qq_effect:
  assumes "accept_qq now label ma i aid b groups payload paths d = (d', ids)"
    and "dp_get i d = Some r" and "waiting r"
  shows "(\<exists>err. d' = finish_dispatch now r ''failed'' err d \<and> dp_get i d' = Some (finish_row now ''failed'' err r)) \<or>
    (\<exists>qbot a. (d', ids) = add_deliveries (article_deliveries now ma r qbot aid groups (qq_parts (qq_text label payload) paths))
        (add_attempt a (put_dispatch (accepted_row now aid r) d)) \<and> pa_attempt_id a = aid \<and>
      pa_delivery_count a = int (length (article_deliveries now ma r qbot aid groups (qq_parts (qq_text label payload) paths))))"
proof -
  have fin: "dp_get i (finish_dispatch now r st err d) = Some (finish_row now st err r)" for st err
    using dp_get_Some[OF assms(2)] assms(2) by (simp add: dp_get_finish)
  show ?thesis
  proof (cases "row_get qb_id b (qq_bots d)")
    case None
    then show ?thesis using assms fin unfolding accept_qq_def by (auto simp del: row_get_None)
  next
    case (Some qbot)
    show ?thesis
    proof (cases "qb_is_enabled qbot \<and> set groups = set (joined_groups qbot groups d)")
      case True
      with Some assms show ?thesis unfolding accept_qq_def
        by (intro disjI2 exI[of _ qbot]) (simp add: Let_def new_attempt_def, metis new_attempt_def publish_attempt.select_convs(1) publish_attempt.select_convs(6))
    next
      case False
      with Some assms fin show ?thesis unfolding accept_qq_def by (auto split: if_splits)
    qed
  qed
qed

text \<open>
  C39: The QQ outbox of an article is complete. When a record is accepted, every
  group gets the same parts in sequence under its own idempotency keys, the texts of
  a group's messages concatenate to the full text, the attempt counts exactly the
  messages, and they are what the worker is told to send.
\<close>

theorem qq_outbox_complete:
  assumes "distinct groups" and "accept_qq now label ma i aid b groups payload paths d = (d', ids)"
    and "dp_get i d = Some r" and "dp_get i d' = Some r'" and "dp_status r' = ''accepted''" and "waiting r"
  shows "\<exists>rows a. qq_deliveries d' = qq_deliveries d @ rows \<and> ids = map qd_id rows \<and> distinct ids \<and>
    distinct (map qd_idempotency_key rows) \<and>
    (\<forall>g \<in> set groups. bodies_of g rows = qq_text label payload) \<and>
    publish_attempts d' = publish_attempts d @ [a] \<and> pa_attempt_id a = aid \<and>
    pa_delivery_count a = int (length rows) \<and> dp_article_publish_attempt_id r' = Some aid"
proof -
  from accept_qq_effect[OF assms(2,3,6)] assms(4,5) obtain qbot a where
    eff: "(d', ids) = add_deliveries (article_deliveries now ma r qbot aid groups (qq_parts (qq_text label payload) paths))
        (add_attempt a (put_dispatch (accepted_row now aid r) d))"
      "pa_attempt_id a = aid"
      "pa_delivery_count a = int (length (article_deliveries now ma r qbot aid groups (qq_parts (qq_text label payload) paths)))"
    by (auto simp: finish_row_def)
  let ?rows = "article_deliveries now ma r qbot aid groups (qq_parts (qq_text label payload) paths)"
  have "qq_deliveries d' = qq_deliveries d @ numbered (serial d) ?rows" "ids = map qd_id (numbered (serial d) ?rows)"
      "publish_attempts d' = publish_attempts d @ [a]"
    using eff(1) by (simp_all add: add_deliveries_def numbered_def Let_def add_attempt_def put_dispatch_def)
  moreover have "dp_id (accepted_row now aid r) = i" using dp_get_Some[OF assms(3)] by (simp add: accepted_row_def)
  then have "dp_get i d' = Some (accepted_row now aid r)"
    using arg_cong[OF eff(1), of fst] by (simp add: dp_get_write[OF assms(3)])
  with assms(4) have "dp_article_publish_attempt_id r' = Some aid" by (auto simp: accepted_row_def)
  moreover have "\<forall>g \<in> set groups. bodies_of g (numbered (serial d) ?rows) = qq_text label payload"
    using assms(1) by (simp add: numbered_bodies bodies_of_group qq_parts_text)
  ultimately show ?thesis
    using eff(2,3) numbered_keys deliveries_keys[OF assms(1)] numbered_distinct
    by (intro exI[of _ "numbered (serial d) ?rows"] exI[of _ a]) (simp add: numbered_keys numbered_length)
qed

definition sample_bot :: qq_bot where
  "sample_bot = \<lparr>qb_id = 2, qb_name = ''bot'', qb_app_id = ''app'', qb_encrypted_app_secret = [],
     qb_secret_hint = [], qb_secret_fingerprint = [], qb_is_enabled = True,
     qb_verification_status = ''verified'', qb_version = 1, qb_last_verified_at = None,
     qb_last_error = None, qb_created_at = 0, qb_updated_at = 0\<rparr>"

definition sample_joined :: qq_joined_group where
  "sample_joined = \<lparr>qg_id = 1, qg_bot_id = 2, qg_app_id = ''app'', qg_group_openid = ''g1'',
     qg_is_joined = True, qg_last_event_at = 0, qg_created_at = 0, qg_updated_at = 0\<rparr>"

definition sample_accept_db :: db where
  "sample_accept_db = empty_db\<lparr>qq_bots := [sample_bot], qq_groups := [sample_joined],
     dispatches := [sample_dispatch\<lparr>dp_channel := ''qq'', dp_status := ''pending''\<rparr>]\<rparr>"

theorem qq_outbox_complete_witness:
  "\<exists>rows. bodies_of ''g1'' rows = qq_text (\<lambda>s. s) (JObj [(''title'', JStr ''t'')])"
proof -
  let ?r = "sample_dispatch\<lparr>dp_channel := ''qq'', dp_status := ''pending''\<rparr>"
  let ?p = "JObj [(''title'', JStr ''t'')]"
  have r: "dp_get 1 sample_accept_db = Some ?r"
    by (simp add: sample_accept_db_def dp_get_def row_get_def sample_dispatch_def)
  have "row_get qb_id 2 (qq_bots sample_accept_db) = Some sample_bot"
      "joined_groups sample_bot [''g1''] sample_accept_db = [''g1'']"
    by (simp_all add: sample_accept_db_def row_get_def sample_bot_def joined_groups_def sample_joined_def)
  moreover have "waiting ?r" by (simp add: waiting_def)
  ultimately obtain d' ids a rows where
    acc: "accept_qq 5 (\<lambda>s. s) 3 1 ''a9'' 2 [''g1''] ?p [] sample_accept_db = (d', ids)"
      "d' = fst (add_deliveries rows (add_attempt a (put_dispatch (accepted_row 5 ''a9'' ?r) sample_accept_db)))"
    using r by (simp add: accept_qq_def Let_def sample_bot_def add_deliveries_def)
  have id: "dp_id (accepted_row 5 ''a9'' ?r) = 1" by (simp add: accepted_row_def sample_dispatch_def)
  have "dp_get 1 d' = Some (accepted_row 5 ''a9'' ?r)"
    unfolding acc(2) by (simp add: dp_get_write[OF r id])
  from qq_outbox_complete[OF _ acc(1) r this] show ?thesis
    by (auto simp: accepted_row_def waiting_def)
qed

text \<open>
  A QQ publication is closed as its messages ended. The reconciliation of an
  accepted record waits while a message of the attempt is queued, waiting or being
  sent; otherwise it closes the record, as published if and only if all the counted
  messages exist, there is one, and every one was sent.
\<close>

theorem reconcile_qq_verdict:
  assumes "dp_get i d = Some r" and "pointer_attempt r d = Some a"
  shows "if list_ex delivery_active (deliveries_of r d) then reconcile_qq_row now r d = d
    else \<exists>r'. dp_get i (reconcile_qq_row now r d) = Some r' \<and> dp_completed_at r' = Some now \<and>
      (if deliveries_of r d \<noteq> [] \<and> int (length (deliveries_of r d)) = pa_delivery_count a \<and>
          (\<forall>q \<in> set (deliveries_of r d). qd_status q = ''sent'')
       then dp_status r' = ''published'' else dp_status r' = ''failed'')"
proof -
  let ?qs = "deliveries_of r d"
  have id: "dp_id r = i" using dp_get_Some[OF assms(1)] by simp
  have fin: "dp_get i (finish_dispatch now r st err (close_attempt now st' e a d)) = Some (finish_row now st err r)"
    for st err st' e
    using assms(1) by (simp add: dp_get_finish id)
  show ?thesis
  proof (cases "list_ex delivery_active ?qs")
    case True
    then show ?thesis by (simp add: reconcile_qq_row_def)
  next
    case idle: False
    show ?thesis
    proof (cases "int (length ?qs) \<noteq> pa_delivery_count a \<or> ?qs = []")
      case True
      with idle assms(2) show ?thesis by (auto simp: reconcile_qq_row_def Let_def fin finish_row_def)
    next
      case full: False
      show ?thesis
      proof (cases "find (\<lambda>q. qd_status q \<noteq> ''sent'') ?qs")
        case None
        then have "\<forall>q \<in> set ?qs. qd_status q = ''sent''" by (simp add: find_None_iff)
        with None idle full assms(2) show ?thesis
          by (simp add: reconcile_qq_row_def Let_def fin finish_row_def)
      next
        case (Some q)
        then have "\<not> (\<forall>q \<in> set ?qs. qd_status q = ''sent'')" by (auto simp: find_Some_iff)
        with Some idle full assms(2) show ?thesis
          by (simp add: reconcile_qq_row_def Let_def fin finish_row_def)
      qed
    qed
  qed
qed

definition sample_qq_db :: db where
  "sample_qq_db = empty_db\<lparr>dispatches := [sample_dispatch\<lparr>dp_channel := ''qq'', dp_status := ''accepted''\<rparr>],
     publish_attempts := [sample_attempt]\<rparr>"

theorem reconcile_qq_verdict_witness:
  "\<exists>r'. dp_get 1 (reconcile_qq_row 9 (sample_dispatch\<lparr>dp_channel := ''qq'', dp_status := ''accepted''\<rparr>) sample_qq_db) =
    Some r' \<and> dp_status r' = ''failed''"
proof -
  let ?r = "sample_dispatch\<lparr>dp_channel := ''qq'', dp_status := ''accepted''\<rparr>"
  have "dp_get 1 sample_qq_db = Some ?r"
    by (simp add: sample_qq_db_def dp_get_def row_get_def sample_dispatch_def)
  moreover have "pointer_attempt ?r sample_qq_db = Some sample_attempt"
    by (simp add: pointer_attempt_def sample_qq_db_def pa_get_def row_get_def sample_dispatch_def sample_attempt_def)
  moreover have "deliveries_of ?r sample_qq_db = []"
    by (simp add: deliveries_of_def sample_qq_db_def empty_db_def)
  ultimately show ?thesis using reconcile_qq_verdict[of 1 sample_qq_db ?r sample_attempt 9] by auto
qed

text \<open>
  C10: The whole turn of a worker is covered. Preparing, reserving, submitting and
  recording the answer of one XHS record, with any answers of the services and
  anything the other workers commit in between, is an interleaving of the events
  above, so it keeps the invariant of the publication records.
\<close>

theorem dispatch_xhs_refines:
  assumes "pub_inv d" and "dp_get i d = Some r" and "dp_channel r = ''xhs''"
    and "\<And>k d. \<exists>es. de_world e k d = pub_run p es d"
  shows "(\<exists>es. fst (dispatch_xhs (pp_brackets_ok p) env e i (d, vol)) = pub_run p es d) \<and>
    pub_inv (fst (dispatch_xhs (pp_brackets_ok p) env e i (d, vol)))"
proof -
  have "id_ok d" using assms(1) by (simp add: pub_inv_def)
  from dispatch_xhs_run[OF this assms(2,3,4)] obtain es where
    "fst (dispatch_xhs (pp_brackets_ok p) env e i (d, vol)) = pub_run p es d" by blast
  with pub_inv_run[OF assms(1)] show ?thesis by metis
qed

definition sample_turn :: dispatch_env where
  "sample_turn = \<lparr>de_http = True, de_client_error = None, de_attempt_id = ''a2'', de_job_id = ''j2'',
     de_submit = (\<lambda>_ _. Accepted), de_clock = (\<lambda>_. 10), de_world = (\<lambda>_ d. d)\<rparr>"

definition sample_pub_env :: pub_env where
  "sample_pub_env = \<lparr>pe_has_credentials = (\<lambda>_. True), pe_shots = [], pe_digest = (\<lambda>s. s),
     pe_bytes = (\<lambda>_. 0), pe_copy_error = None\<rparr>"

theorem dispatch_xhs_refines_witness:
  "pub_inv (fst (dispatch_xhs (pp_brackets_ok sample_params) sample_pub_env sample_turn 1
     (empty_db\<lparr>dispatches := [sample_dispatch\<lparr>dp_status := ''pending''\<rparr>], serial := 2\<rparr>, [])))"
proof -
  let ?r = "sample_dispatch\<lparr>dp_status := ''pending''\<rparr>"
  let ?d = "empty_db\<lparr>dispatches := [?r], serial := 2\<rparr>"
  have id: "dp_id ?r = 1" by (simp add: sample_dispatch_def)
  have get: "dp_get k ?d = (if k = 1 then Some ?r else None)" for k
    by (simp add: dp_get_def row_get_def sample_dispatch_def)
  have "owner_ok ?r \<and> rejections_ok ?r"
    by (simp add: sample_dispatch_def owner_ok_def rejections_ok_def positive_int_def jor_def
        xhs_not_accepted_retry_limit_def)
  then have inv: "pub_inv ?d"
    using get by (simp add: pub_inv_def id_ok_def rows_ok_def exclusive_def id)
  have r: "dp_get 1 ?d = Some ?r" using get by simp
  have ch: "dp_channel ?r = ''xhs''" by (simp add: sample_dispatch_def)
  have world: "\<exists>es. de_world sample_turn k d = pub_run sample_params es d" for k d
    by (intro exI[of _ "[]"]) (simp add: sample_turn_def)
  show ?thesis using dispatch_xhs_refines[OF inv r ch world] by blast
qed

end
