(* ===== verification/AiJobs.thy ===== *)
theory AiJobs
  imports Tables Samples PyText ArticleMedia
begin

text \<open>
  Queueing generation jobs, \<open>backend/app/services/ai_jobs.py\<close>: matching posts
  against the listening tasks, freezing the configuration into each job, and
  inserting the jobs once under an idempotency key. The skill service answers with
  \<open>resolve\<close> (\<open>None\<close> is its outage, which aborts the transaction); the
  formatting of timestamps and the digest of a text are arguments.
\<close>

subsection \<open>Values of JSON snapshots\<close>

definition jstr_opt :: "string option \<Rightarrow> json" where
  "jstr_opt s = (case s of None \<Rightarrow> JNull | Some t \<Rightarrow> JStr t)"

definition jint_opt :: "int option \<Rightarrow> json" where
  "jint_opt i = (case i of None \<Rightarrow> JNull | Some n \<Rightarrow> JInt n)"

text \<open>\<open>[int(v) for v in values]\<close>; the snapshots hold integers.\<close>

fun json_ints :: "json list \<Rightarrow> int list" where
  "json_ints [] = []"
| "json_ints (JInt i # js) = i # json_ints js"
| "json_ints (JBool b # js) = (if b then 1 else 0) # json_ints js"
| "json_ints (_ # js) = json_ints js"

text \<open>\<open>snapshot.get(key) or []\<close> as a list, \<open>str(snapshot.get(key) or dflt)\<close>.\<close>

definition jlist_of :: "json \<Rightarrow> string \<Rightarrow> json list" where
  "jlist_of snap k = jlist (jor (jget snap k) (JList []))"

definition jstr_of :: "json \<Rightarrow> string \<Rightarrow> string \<Rightarrow> string" where
  "jstr_of snap k dflt = (case jget snap k of JStr s \<Rightarrow> if s \<noteq> [] then s else dflt | _ \<Rightarrow> dflt)"

subsection \<open>Settings, features and author context\<close>

definition default_ai_setting :: "time \<Rightarrow> ai_setting" where
  "default_ai_setting now =
     \<lparr>st_id = 1, st_enabled = False, st_auto_generate = True, st_provider = ''openai_responses'',
      st_model_name = ''gpt-5.6-terra'', st_base_url = ''https://api.openai.com/v1'', st_bridge_url = None,
      st_prompt_template = None, st_language = ''zh-CN'', st_tone = Lit ''professional and natural'' [],
      st_reasoning_effort = ''medium'', st_max_attempts = 3, st_max_output_tokens = 2500,
      st_request_timeout_seconds = 60, st_updated_at = now\<rparr>"

definition get_ai_setting :: "time \<Rightarrow> db \<Rightarrow> db \<times> ai_setting" where
  "get_ai_setting now d =
     (case row_get st_id 1 (ai_settings d) of
        Some st \<Rightarrow> (d, st)
      | None \<Rightarrow>
          (d\<lparr>ai_settings := ai_settings d @ [default_ai_setting now]\<rparr>, default_ai_setting now))"

definition get_ai_feature :: "string \<Rightarrow> db \<Rightarrow> ai_feature option" where
  "get_ai_feature code_name d = find (\<lambda>f. af_code f = code_name \<and> af_is_active f) (ai_features d)"

record ai_env =
  ae_isoformat :: "time \<Rightarrow> string"
  ae_sha256 :: "string \<Rightarrow> string"

definition dynamics_entry :: "ai_env \<Rightarrow> tweet \<Rightarrow> json" where
  "dynamics_entry env t =
     JObj [(''tweet_id'', JStr (tw_tweet_id t)),
           (''posted_at'', JStr (ae_isoformat env (tw_posted_at t))),
           (''text'', JStr (tw_text t)),
           (''metrics'', JObj [(''likes'', JInt (tw_like_count t)),
                              (''retweets'', JInt (tw_retweet_count t)),
                              (''replies'', JInt (tw_reply_count t))])]"

definition recent_tweets :: "int \<Rightarrow> int \<Rightarrow> db \<Rightarrow> tweet list" where
  "recent_tweets user source d =
     row_select (\<lambda>t. tw_monitored_user_id t = user \<and> tw_id t \<noteq> source)
       (\<lambda>t. (- tw_posted_at t, - tw_id t)) 20 (tweets d)"

definition profile_json :: "ai_user_profile option \<Rightarrow> json" where
  "profile_json p =
     JObj [(''identity_summary'', JStr (case p of None \<Rightarrow> [] | Some x \<Rightarrow> up_identity_summary x)),
           (''focus_summary'', JStr (case p of None \<Rightarrow> [] | Some x \<Rightarrow> up_focus_summary x)),
           (''relationship_summary'', JStr (case p of None \<Rightarrow> [] | Some x \<Rightarrow> up_relationship_summary x)),
           (''recurring_topics'', (case p of None \<Rightarrow> JList [] | Some x \<Rightarrow> up_recurring_topics x)),
           (''evidence'', (case p of None \<Rightarrow> JList [] | Some x \<Rightarrow> up_evidence x)),
           (''confidence'', (case p of None \<Rightarrow> JInt 0 | Some x \<Rightarrow> JFloat (up_confidence x))),
           (''version'', JInt (case p of None \<Rightarrow> 0 | Some x \<Rightarrow> up_version x))]"

definition build_author_context :: "ai_env \<Rightarrow> int \<Rightarrow> int \<Rightarrow> db \<Rightarrow> json option" where
  "build_author_context env user source d =
     (case row_get mu_id user (monitored_users d) of
        None \<Rightarrow> None
      | Some u \<Rightarrow>
          Some (JObj
            [(''author'', JObj [(''monitored_user_id'', JInt (mu_id u)), (''username'', JStr (mu_username u)),
                              (''display_name'', jstr_opt (mu_display_name u)),
                              (''x_user_id'', jstr_opt (mu_x_user_id u))]),
             (''persisted_profile'', profile_json (row_get up_monitored_user_id user (ai_profiles d))),
             (''recent_dynamics'', JList (map (dynamics_entry env) (recent_tweets user source d)))]))"

subsection \<open>Skills and the frozen request\<close>

record skill =
  sk_id :: int
  sk_name :: string
  sk_description :: "string option"
  sk_instructions :: string
  sk_output_schema :: json
  sk_version :: int
  sk_remote_skill_id :: "string option"
  sk_remote_skill_version :: "string option"
  sk_source_type :: string
  sk_source_metadata :: json

definition skill_snapshot :: "skill \<Rightarrow> json" where
  "skill_snapshot s =
     JObj ([(''id'', JInt (sk_id s)), (''name'', JStr (sk_name s)),
            (''description'', jstr_opt (sk_description s)), (''instructions'', JStr (sk_instructions s)),
            (''output_schema'', sk_output_schema s), (''version'', JInt (sk_version s)),
            (''remote_skill_id'', jstr_opt (sk_remote_skill_id s)),
            (''remote_skill_version'', jstr_opt (sk_remote_skill_version s))] @
           (if sk_source_type s = ''github''
            then [(''source_type'', JStr ''github''), (''source_metadata'', sk_source_metadata s)] else []))"

text \<open>The configuration part; the tone of the default setting is a literal in Chinese.\<close>

fun msg_json :: "msg \<Rightarrow> json" where
  "msg_json (Text s) = JStr s"
| "msg_json (Lit k args) = JStr k"

definition config_json :: "ai_setting \<Rightarrow> json" where
  "config_json st =
     JObj [(''provider'', JStr (st_provider st)), (''model'', JStr (st_model_name st)),
           (''base_url'', JStr (st_base_url st)), (''bridge_url'', jstr_opt (st_bridge_url st)),
           (''prompt_template'', jstr_opt (st_prompt_template st)), (''language'', JStr (st_language st)),
           (''tone'', msg_json (st_tone st)), (''reasoning_effort'', JStr (st_reasoning_effort st)),
           (''max_output_tokens'', JInt (st_max_output_tokens st)),
           (''request_timeout_seconds'', JInt (st_request_timeout_seconds st))]"

definition request_snapshot :: "ai_env \<Rightarrow> json \<Rightarrow> json list \<Rightarrow> tweet \<Rightarrow> ai_feature \<Rightarrow> string \<Rightarrow> json \<Rightarrow> json" where
  "request_snapshot env config skills t f resolution context =
     JObj [(''config'', config), (''skills'', JList skills),
           (''feature'', JObj [(''id'', JInt (af_id f)), (''code'', JStr (af_code f)), (''name'', JStr (af_name f)),
                              (''description'', jstr_opt (af_description f)), (''base_prompt'', JStr (af_base_prompt f))]),
           (''skill_resolution'', JStr resolution), (''author_context'', context),
           (''source'', JObj [(''database_id'', JInt (tw_id t)), (''tweet_id'', JStr (tw_tweet_id t)),
                             (''author_id'', JStr (tw_author_id t)), (''text'', JStr (tw_text t)),
                             (''lang'', jstr_opt (tw_lang t)),
                             (''posted_at'', JStr (ae_isoformat env (tw_posted_at t)))])]"

subsection \<open>Which posts a task takes\<close>

record task_selection =
  ts_valid :: bool
  ts_ids :: "int list"
  ts_skills :: "skill list"

text \<open>The configuration of a run: that of the task, or the one a backfill has frozen.\<close>

record run_config =
  rc_skill_ids :: "int list"
  rc_skills :: "json list"
  rc_mode :: string
  rc_all_users :: bool
  rc_accounts :: "int list"
  rc_feature_code :: string
  rc_channels :: "json list"
  rc_owner :: json
  rc_bot :: json
  rc_groups :: "json list"
  rc_language :: json
  rc_tone :: json
  rc_max_output_tokens :: json
  rc_config_version :: int
  rc_max_attempts :: json

definition task_config :: "listen_task \<Rightarrow> task_selection \<Rightarrow> task_subscription list \<Rightarrow> run_config" where
  "task_config t sel subs =
     \<lparr>rc_skill_ids = ts_ids sel, rc_skills = map skill_snapshot (ts_skills sel),
      rc_mode = lt_listen_mode t, rc_all_users = lt_all_monitored_users t,
      rc_accounts = map sub_monitored_user_id subs, rc_feature_code = lt_feature_code t,
      rc_channels = map JStr (lt_auto_publish_channels t), rc_owner = jint_opt (lt_owner_admin_id t),
      rc_bot = jint_opt (lt_qq_bot_id t), rc_groups = map JStr (lt_qq_group_openids t),
      rc_language = jstr_opt (lt_language_override t), rc_tone = jstr_opt (lt_tone_override t),
      rc_max_output_tokens = jint_opt (lt_max_output_tokens_override t),
      rc_config_version = lt_config_version t, rc_max_attempts = jint_opt (lt_max_attempts_override t)\<rparr>"

definition backfill_config :: "listen_task \<Rightarrow> json \<Rightarrow> run_config" where
  "backfill_config t snap =
     \<lparr>rc_skill_ids = json_ints (jlist_of snap ''skill_ids''), rc_skills = jlist_of snap ''skills'',
      rc_mode = jstr_of snap ''listen_mode'' (lt_listen_mode t),
      rc_all_users = truthy (jget snap ''all_monitored_users''),
      rc_accounts = json_ints (jlist_of snap ''monitored_user_ids''),
      rc_feature_code = jstr_of snap ''feature_code'' (lt_feature_code t),
      rc_channels = jlist_of snap ''auto_publish_channels'', rc_owner = jget snap ''owner_admin_id'',
      rc_bot = jget snap ''qq_bot_id'', rc_groups = jlist_of snap ''qq_group_openids'',
      rc_language = jget snap ''language_override'', rc_tone = jget snap ''tone_override'',
      rc_max_output_tokens = jget snap ''max_output_tokens_override'',
      rc_config_version =
        (case jget snap ''config_version'' of JInt i \<Rightarrow> if i \<noteq> 0 then i else lt_config_version t
         | _ \<Rightarrow> lt_config_version t),
      rc_max_attempts = jget snap ''max_attempts_override''\<rparr>"

text \<open>The later of the task's start and the account's or subscription's.\<close>

definition later_start :: "time option \<Rightarrow> time option \<Rightarrow> time option" where
  "later_start effective other =
     (case other of
        None \<Rightarrow> effective
      | Some o' \<Rightarrow> (case effective of None \<Rightarrow> Some o' | Some e \<Rightarrow> if e < o' then Some o' else Some e))"

definition or_else :: "time option \<Rightarrow> time option \<Rightarrow> time option" where
  "or_else a b = (case a of None \<Rightarrow> b | Some x \<Rightarrow> Some x)"

definition effective_start :: "listen_task \<Rightarrow> bool \<Rightarrow> monitored_user \<Rightarrow> task_subscription option \<Rightarrow> time option" where
  "effective_start t all_users u sub =
     (let base = or_else (lt_effective_from t) (lt_activated_at t) in
      if all_users then later_start base (Some (mu_created_at u))
      else case sub of None \<Rightarrow> base | Some s \<Rightarrow> later_start base (sub_effective_from s))"

definition in_initial_window :: "listen_task \<Rightarrow> bool \<Rightarrow> monitored_user \<Rightarrow> task_subscription option \<Rightarrow> tweet \<Rightarrow> bool" where
  "in_initial_window t all_users u sub tw =
     (case (lt_initial_backfill_from t, lt_initial_backfill_to t) of
        (Some a, Some b) \<Rightarrow>
          a \<le> tw_posted_at tw \<and> tw_posted_at tw < b \<and>
          ((all_users \<and> mu_created_at u \<le> b) \<or>
           (case sub of None \<Rightarrow> False
            | Some s \<Rightarrow> (case sub_effective_from s of None \<Rightarrow> False | Some e \<Rightarrow> e \<le> b)))
      | _ \<Rightarrow> False)"

definition takes_tweet :: "listen_task \<Rightarrow> run_config \<Rightarrow> (time \<times> time) option \<Rightarrow> bool \<Rightarrow> string list \<Rightarrow>
    monitored_user option \<Rightarrow> task_subscription option \<Rightarrow> tweet \<Rightarrow> bool" where
  "takes_tweet t rc window backfill legacy user sub tw =
     (case user of
        None \<Rightarrow> False
      | Some u \<Rightarrow>
          mu_is_active u \<and>
          (rc_mode rc = ''all'' \<or> rc_mode rc = tw_tweet_type tw) \<and>
          (''auto:'' @ show_int (tw_id tw)) \<notin> set legacy \<and>
          (backfill \<or> ((tw_tweet_type tw = ''reply'' \<longrightarrow> mu_include_replies u) \<and>
                       (tw_tweet_type tw = ''retweet'' \<longrightarrow> mu_include_retweets u))) \<and>
          (if backfill then tw_monitored_user_id tw \<in> set (rc_accounts rc)
           else rc_all_users rc \<or> sub \<noteq> None) \<and>
          (case window of
             Some (a, b) \<Rightarrow> a \<le> tw_posted_at tw \<and> tw_posted_at tw < b
           | None \<Rightarrow>
               in_initial_window t (rc_all_users rc) u sub tw \<or>
               (case effective_start t (rc_all_users rc) u sub of
                  None \<Rightarrow> False | Some e \<Rightarrow> e \<le> tw_posted_at tw)))"

subsection \<open>The job of a post\<close>

definition override :: "json \<Rightarrow> string \<Rightarrow> json \<Rightarrow> json" where
  "override config k v = (if v = JNull then config else jset config k v)"

definition run_config_json :: "ai_setting \<Rightarrow> run_config \<Rightarrow> json" where
  "run_config_json st rc =
     override (override (override (config_json st) ''language'' (rc_language rc)) ''tone'' (rc_tone rc))
       ''max_output_tokens'' (rc_max_output_tokens rc)"

definition task_snapshot :: "listen_task \<Rightarrow> run_config \<Rightarrow> json" where
  "task_snapshot t rc =
     JObj [(''task_id'', JInt (lt_id t)), (''name'', JStr (lt_name t)), (''listen_mode'', JStr (rc_mode rc)),
           (''all_monitored_users'', JBool (rc_all_users rc)),
           (''skill_ids'', JList (map JInt (rc_skill_ids rc))),
           (''config_version'', JInt (rc_config_version rc)),
           (''auto_publish_channels'', JList (rc_channels rc)), (''owner_admin_id'', rc_owner rc),
           (''qq_bot_id'', rc_bot rc), (''qq_group_openids'', JList (rc_groups rc))]"

definition listen_key :: "int \<Rightarrow> int \<Rightarrow> string" where
  "listen_key task tw = ''listen:'' @ show_int task @ '':tweet:'' @ show_int tw"

definition max_attempts_of :: "json \<Rightarrow> ai_setting \<Rightarrow> int" where
  "max_attempts_of v st = (case v of JInt i \<Rightarrow> if i \<noteq> 0 then i else st_max_attempts st | _ \<Rightarrow> st_max_attempts st)"

definition listen_job :: "ai_env \<Rightarrow> time \<Rightarrow> int \<Rightarrow> ai_setting \<Rightarrow> listen_task \<Rightarrow> run_config \<Rightarrow> ai_feature \<Rightarrow> json \<Rightarrow>
    tweet \<Rightarrow> gen_job" where
  "listen_job env now i st t rc f context tw =
     \<lparr>gj_id = i, gj_source_tweet_id = tw_id tw, gj_listen_task_id = Some (lt_id t),
      gj_trigger_type = ''listen_task'', gj_task_snapshot = task_snapshot t rc,
      gj_task_config_version = Some (rc_config_version rc), gj_lifetime_attempts = 0,
      gj_is_archived = False, gj_feature_code = af_code f,
      gj_skill_id = (case rc_skill_ids rc of [] \<Rightarrow> None | s # _ \<Rightarrow> Some s),
      gj_skill_ids = rc_skill_ids rc, gj_skill_snapshot = rc_skills rc,
      gj_idempotency_key = listen_key (lt_id t) (tw_id tw), gj_status = ''queued'',
      gj_provider = st_provider st, gj_model_name = st_model_name st, gj_attempts = 0,
      gj_max_attempts = max_attempts_of (rc_max_attempts rc) st, gj_next_attempt_at = now,
      gj_lease_expires_at = None, gj_claim_token = None, gj_claimed_by = None, gj_manual = False,
      gj_last_error = None,
      gj_request_snapshot =
        request_snapshot env (run_config_json st rc) (rc_skills rc) tw f ''listening_task'' context,
      gj_response_snapshot = JNull, gj_prompt_hash = None,
      gj_source_text_hash = Some (ae_sha256 env (tw_text tw)), gj_started_at = None,
      gj_completed_at = None, gj_publish_outbox_initialized_at = None, gj_created_at = now,
      gj_updated_at = now\<rparr>"

subsection \<open>Matching and inserting\<close>

definition hold_task :: "string \<Rightarrow> listen_task \<Rightarrow> db \<Rightarrow> db" where
  "hold_task reason t d =
     d\<lparr>listen_tasks := row_put lt_id (t\<lparr>lt_queue_hold_reason := Some reason\<rparr>) (listen_tasks d)\<rparr>"

definition legacy_keys :: "json \<Rightarrow> tweet list \<Rightarrow> db \<Rightarrow> string list" where
  "legacy_keys snap tws d =
     (if truthy (jget_or snap ''exclude_legacy_generated'' (JBool True))
      then filter (\<lambda>k. k \<in> gj_idempotency_key ` set (gen_jobs d))
             (map (\<lambda>t. ''auto:'' @ show_int (tw_id t)) tws)
      else [])"

fun number_rows :: "int \<Rightarrow> ('a \<Rightarrow> int \<Rightarrow> 'b) \<Rightarrow> 'a list \<Rightarrow> 'b list" where
  "number_rows n f [] = []"
| "number_rows n f (x # xs) = f x n # number_rows (n + 1) f xs"

definition author_context_of :: "ai_env \<Rightarrow> db \<Rightarrow> tweet \<Rightarrow> json" where
  "author_context_of env d tw =
     (case build_author_context env (tw_monitored_user_id tw) (tw_id tw) d of None \<Rightarrow> JNull | Some c \<Rightarrow> c)"

definition jobs_enqueued :: "listen_task \<Rightarrow> nat \<Rightarrow> bool \<Rightarrow> task_event" where
  "jobs_enqueued t n backfill =
     \<lparr>ev_task_id = lt_id t, ev_event_type = ''jobs_enqueued'', ev_job_id = None, ev_backfill_id = None,
      ev_summary = Text (''Queued '' @ show_nat n @ '' AI generation job(s)''),
      ev_details = JObj [(''count'', JInt (int n)),
                        (''source'', JStr (if backfill then ''backfill'' else ''realtime''))]\<rparr>"

definition insert_jobs :: "listen_task \<Rightarrow> bool \<Rightarrow> gen_job list \<Rightarrow> db \<Rightarrow> db \<times> nat" where
  "insert_jobs t backfill rows d =
     (case insert_ignore gj_idempotency_key (gen_jobs d) rows of
        (jobs, ks) \<Rightarrow>
          (d\<lparr>gen_jobs := jobs, serial := serial d + int (length rows),
             task_events := task_events d @
               (if ks = [] then [] else [jobs_enqueued t (length ks) backfill])\<rparr>,
           length ks))"

text \<open>
  One task: \<open>None\<close> when the skill service is out. \<open>snap\<close> is the configuration
  that a backfill has frozen.
\<close>

definition enqueue_task :: "ai_env \<Rightarrow> (int \<Rightarrow> task_selection option) \<Rightarrow> time \<Rightarrow> ai_setting \<Rightarrow> tweet list \<Rightarrow>
    (time \<times> time) option \<Rightarrow> json option \<Rightarrow> listen_task \<Rightarrow> db \<Rightarrow> (db \<times> nat) option" where
  "enqueue_task env resolve now st tws window snap t d =
     (if nonempty (lt_queue_hold_reason t) then Some (d, 0)
      else case resolve (lt_id t) of
        None \<Rightarrow> None
      | Some sel \<Rightarrow>
          (if \<not> ts_valid sel then Some (hold_task ''skill_invalidated'' t d, 0)
           else
             let subs = filter (\<lambda>s. sub_task_id s = lt_id t) (subscriptions d);
                 rc = (case snap of None \<Rightarrow> task_config t sel subs | Some js \<Rightarrow> backfill_config t js);
                 legacy = (case snap of None \<Rightarrow> [] | Some js \<Rightarrow> legacy_keys js tws d);
                 takes = (\<lambda>tw. takes_tweet t rc window (snap \<noteq> None) legacy
                            (row_get mu_id (tw_monitored_user_id tw) (monitored_users d))
                            (find (\<lambda>s. sub_monitored_user_id s = tw_monitored_user_id tw) subs) tw)
             in if rc_skill_ids rc = [] \<or> length (rc_skills rc) \<noteq> length (rc_skill_ids rc) then Some (d, 0)
                else case get_ai_feature (rc_feature_code rc) d of
                  None \<Rightarrow> Some (d, 0)
                | Some f \<Rightarrow>
                    Some (insert_jobs t (window \<noteq> None)
                      (number_rows (serial d)
                         (\<lambda>tw i. listen_job env now i st t rc f (author_context_of env d tw) tw)
                         (filter takes tws)) d)))"

fun enqueue_tasks :: "ai_env \<Rightarrow> (int \<Rightarrow> task_selection option) \<Rightarrow> time \<Rightarrow> ai_setting \<Rightarrow> tweet list \<Rightarrow>
    (time \<times> time) option \<Rightarrow> json option \<Rightarrow> listen_task list \<Rightarrow> db \<Rightarrow> (db \<times> nat) option" where
  "enqueue_tasks env resolve now st tws window snap [] d = Some (d, 0)"
| "enqueue_tasks env resolve now st tws window snap (t # ts) d =
     (case enqueue_task env resolve now st tws window snap t d of
        None \<Rightarrow> None
      | Some (d1, n) \<Rightarrow>
          (case enqueue_tasks env resolve now st tws window snap ts d1 of
             None \<Rightarrow> None
           | Some (d2, m) \<Rightarrow> Some (d2, n + m)))"

definition enabled_tasks :: "int option \<Rightarrow> db \<Rightarrow> listen_task list" where
  "enabled_tasks task d =
     sort_key lt_id (filter (\<lambda>t. lt_desired_state t = ''enabled'' \<and> (task = None \<or> task = Some (lt_id t)))
       (listen_tasks d))"

definition enqueue_listening_jobs :: "ai_env \<Rightarrow> (int \<Rightarrow> task_selection option) \<Rightarrow> time \<Rightarrow> int list \<Rightarrow> int option \<Rightarrow>
    (time \<times> time) option \<Rightarrow> json option \<Rightarrow> db \<Rightarrow> (db \<times> nat) option" where
  "enqueue_listening_jobs env resolve now ids task window snap d =
     (if ids = [] then Some (d, 0)
      else case get_ai_setting now d of
        (d1, st) \<Rightarrow>
          (if \<not> st_enabled st \<or> \<not> st_auto_generate st then Some (d1, 0)
           else let tws = filter (\<lambda>t. tw_id t \<in> set ids) (tweets d1) in
             if tws = [] then Some (d1, 0)
             else enqueue_tasks env resolve now st tws window snap (enabled_tasks task d1) d1))"

definition enqueue_jobs_for_x_tweet_ids :: "ai_env \<Rightarrow> (int \<Rightarrow> task_selection option) \<Rightarrow> time \<Rightarrow> string list \<Rightarrow> db \<Rightarrow>
    (db \<times> nat) option" where
  "enqueue_jobs_for_x_tweet_ids env resolve now xids d =
     (if xids = [] then Some (d, 0)
      else enqueue_listening_jobs env resolve now
             (map tw_id (filter (\<lambda>t. tw_tweet_id t \<in> set xids) (tweets d))) None None None d)"

subsection \<open>Manual jobs\<close>

definition manual_key :: "int \<Rightarrow> skill list \<Rightarrow> string option \<Rightarrow> string \<Rightarrow> string" where
  "manual_key tw skills client_key fresh =
     (if nonempty client_key then ''manual:'' @ show_int tw @ '':client:'' @ the client_key
      else ''manual:'' @ show_int tw @ '':'' @
        (let ids = join ''-'' (map (\<lambda>s. show_int (sk_id s)) skills) in if ids = [] then ''0'' else ids) @
        '':'' @ fresh)"

definition manual_job :: "ai_env \<Rightarrow> time \<Rightarrow> int \<Rightarrow> ai_setting \<Rightarrow> tweet \<Rightarrow> ai_feature \<Rightarrow> skill list \<Rightarrow> string \<Rightarrow> json \<Rightarrow>
    string \<Rightarrow> gen_job" where
  "manual_job env now i st tw f skills resolution context key =
     \<lparr>gj_id = i, gj_source_tweet_id = tw_id tw, gj_listen_task_id = None, gj_trigger_type = ''manual'',
      gj_task_snapshot = JNull, gj_task_config_version = None, gj_lifetime_attempts = 0,
      gj_is_archived = False, gj_feature_code = af_code f,
      gj_skill_id = (case skills of [] \<Rightarrow> None | s # _ \<Rightarrow> Some (sk_id s)),
      gj_skill_ids = map sk_id skills, gj_skill_snapshot = map skill_snapshot skills,
      gj_idempotency_key = key, gj_status = ''queued'', gj_provider = st_provider st,
      gj_model_name = st_model_name st, gj_attempts = 0, gj_max_attempts = st_max_attempts st,
      gj_next_attempt_at = now, gj_lease_expires_at = None, gj_claim_token = None,
      gj_claimed_by = None, gj_manual = True, gj_last_error = None,
      gj_request_snapshot =
        request_snapshot env (config_json st) (map skill_snapshot skills) tw f resolution context,
      gj_response_snapshot = JNull, gj_prompt_hash = None,
      gj_source_text_hash = Some (ae_sha256 env (tw_text tw)), gj_started_at = None,
      gj_completed_at = None, gj_publish_outbox_initialized_at = None, gj_created_at = now,
      gj_updated_at = now\<rparr>"

datatype manual_error = AiDisabled | MonitoredUserNotFound

definition create_manual_job :: "ai_env \<Rightarrow> time \<Rightarrow> tweet \<Rightarrow> ai_feature \<Rightarrow> skill list \<Rightarrow> string \<Rightarrow> string option \<Rightarrow> string \<Rightarrow>
    db \<Rightarrow> manual_error + db \<times> gen_job \<times> bool" where
  "create_manual_job env now tw f skills resolution client_key fresh d =
     (case get_ai_setting now d of
        (d1, st) \<Rightarrow>
          (if \<not> st_enabled st then Inl AiDisabled
           else let key = manual_key (tw_id tw) skills client_key fresh in
             case row_get gj_idempotency_key key (gen_jobs d1) of
               Some j \<Rightarrow> Inr (d1, j, False)
             | None \<Rightarrow>
                 (case build_author_context env (tw_monitored_user_id tw) (tw_id tw) d1 of
                    None \<Rightarrow> Inl MonitoredUserNotFound
                  | Some context \<Rightarrow>
                      (let j = manual_job env now (serial d1) st tw f skills resolution context key in
                       Inr (d1\<lparr>gen_jobs := gen_jobs d1 @ [j], serial := serial d1 + 1\<rparr>, j, True)))))"

subsection \<open>Keys\<close>

lemma listen_key_inj: "listen_key t w = listen_key t' w' \<longleftrightarrow> t = t' \<and> w = w'"
  using first_colon[OF show_int_no_colon show_int_no_colon, of t "''tweet:'' @ show_int w" t' "''tweet:'' @ show_int w'"]
  by (auto simp: listen_key_def show_int_inj)

lemma manual_key_not_listen: "manual_key tw sks ck fresh \<noteq> listen_key t w"
  by (simp add: manual_key_def listen_key_def)

subsection \<open>What enqueueing adds\<close>

text \<open>
  A listening job carries the key of its task and post, so that the unique key makes
  it the only one.
\<close>

definition listen_job_ok :: "gen_job \<Rightarrow> bool" where
  "listen_job_ok j \<longleftrightarrow>
     (gj_trigger_type j = ''listen_task'' \<longrightarrow>
        (case gj_listen_task_id j of None \<Rightarrow> False
         | Some t \<Rightarrow> gj_idempotency_key j = listen_key t (gj_source_tweet_id j)))"

definition jobs_ok :: "db \<Rightarrow> bool" where
  "jobs_ok d \<longleftrightarrow> distinct (map gj_idempotency_key (gen_jobs d)) \<and> (\<forall>j \<in> set (gen_jobs d). listen_job_ok j)"

lemma set_number_rows: "y \<in> set (number_rows n f xs) \<Longrightarrow> \<exists>x \<in> set xs. \<exists>i. y = f x i"
  by (induction n f xs rule: number_rows.induct) auto

definition adds_jobs :: "(gen_job \<Rightarrow> bool) \<Rightarrow> db \<Rightarrow> db \<Rightarrow> nat \<Rightarrow> bool" where
  "adds_jobs P d d' n \<longleftrightarrow>
     (\<exists>new. gen_jobs d' = gen_jobs d @ new \<and> length new = n \<and> (\<forall>j \<in> set new. P j) \<and>
        (distinct (map gj_idempotency_key (gen_jobs d)) \<longrightarrow> distinct (map gj_idempotency_key (gen_jobs d'))))"

lemma adds_none: "gen_jobs d' = gen_jobs d \<Longrightarrow> adds_jobs P d d' 0"
  by (simp add: adds_jobs_def)

lemma adds_trans: "adds_jobs P d d1 n \<Longrightarrow> adds_jobs P d1 d2 m \<Longrightarrow> adds_jobs P d d2 (n + m)"
  unfolding adds_jobs_def by fastforce

lemma adds_weaken: "adds_jobs P d d' n \<Longrightarrow> (\<And>j. P j \<Longrightarrow> Q j) \<Longrightarrow> adds_jobs Q d d' n"
  unfolding adds_jobs_def by blast

lemma adds_insert:
  assumes "\<forall>j \<in> set rows. P j" and "insert_jobs t b rows d = (d', n)"
  shows "adds_jobs P d d' n"
proof -
  obtain jobs ks where ins: "insert_ignore gj_idempotency_key (gen_jobs d) rows = (jobs, ks)"
    by (cases "insert_ignore gj_idempotency_key (gen_jobs d) rows")
  with assms(2) have d': "gen_jobs d' = jobs" "n = length ks" by (auto simp: insert_jobs_def)
  from insert_ignore_prefix[OF ins] obtain new where
    new: "jobs = gen_jobs d @ new" "set new \<subseteq> set rows" "map gj_idempotency_key new = ks" by blast
  moreover have "length new = n" using new(3) d'(2) by auto
  moreover have "\<forall>j \<in> set new. P j" using assms(1) new(2) by blast
  ultimately show ?thesis
    using insert_ignore_distinct[OF ins] d'(1) unfolding adds_jobs_def by (intro exI[of _ new]) simp
qed

text \<open>The tables that decide about jobs stay as they are.\<close>

definition same_world :: "db \<Rightarrow> db \<Rightarrow> bool" where
  "same_world d d' \<longleftrightarrow> tweets d' = tweets d \<and> monitored_users d' = monitored_users d \<and>
     subscriptions d' = subscriptions d \<and> ai_features d' = ai_features d \<and> ai_profiles d' = ai_profiles d \<and>
     backfills d' = backfills d \<and> screenshots d' = screenshots d \<and> qq_bots d' = qq_bots d \<and>
     qq_targets d' = qq_targets d \<and> qq_target_subs d' = qq_target_subs d \<and>
     qq_placeholders d' = qq_placeholders d \<and> qq_deliveries d' = qq_deliveries d"

lemma same_world_refl [simp]: "same_world d d"
  by (simp add: same_world_def)

lemma same_world_trans: "same_world d d1 \<Longrightarrow> same_world d1 d2 \<Longrightarrow> same_world d d2"
  by (simp add: same_world_def)

text \<open>The jobs of one task: for a post the task takes, in its frozen configuration.\<close>

definition job_for :: "listen_task \<Rightarrow> tweet list \<Rightarrow> (time \<times> time) option \<Rightarrow> json option \<Rightarrow> db \<Rightarrow> gen_job \<Rightarrow> bool" where
  "job_for t tws window snap d j \<longleftrightarrow>
     listen_job_ok j \<and> gj_listen_task_id j = Some (lt_id t) \<and> gj_status j = ''queued'' \<and>
     gj_publish_outbox_initialized_at j = None \<and> length (gj_skill_snapshot j) = length (gj_skill_ids j) \<and>
     gj_skill_ids j \<noteq> [] \<and>
     (\<exists>tw rc legacy. tw \<in> set tws \<and> gj_source_tweet_id j = tw_id tw \<and>
        gj_task_snapshot j = task_snapshot t rc \<and>
        takes_tweet t rc window (snap \<noteq> None) legacy
          (row_get mu_id (tw_monitored_user_id tw) (monitored_users d))
          (find (\<lambda>s. sub_monitored_user_id s = tw_monitored_user_id tw)
             (filter (\<lambda>s. sub_task_id s = lt_id t) (subscriptions d))) tw)"

lemma enqueue_task_adds:
  assumes "enqueue_task env resolve now st tws window snap t d = Some (d', n)"
  shows "adds_jobs (job_for t tws window snap d) d d' n \<and> same_world d d' \<and>
    (0 < n \<longrightarrow> \<not> nonempty (lt_queue_hold_reason t))"
proof (cases "nonempty (lt_queue_hold_reason t)")
  case True
  with assms show ?thesis by (auto simp: enqueue_task_def intro: adds_none)
next
  case free: False
  with assms obtain sel where sel: "resolve (lt_id t) = Some sel"
    by (auto simp: enqueue_task_def split: option.splits)
  show ?thesis
  proof (cases "ts_valid sel")
    case False
    with assms free sel show ?thesis
      by (auto simp: enqueue_task_def hold_task_def same_world_def intro: adds_none)
  next
    case valid: True
    define subs where "subs = filter (\<lambda>s. sub_task_id s = lt_id t) (subscriptions d)"
    define rc where "rc = (case snap of None \<Rightarrow> task_config t sel subs | Some js \<Rightarrow> backfill_config t js)"
    define legacy where "legacy = (case snap of None \<Rightarrow> [] | Some js \<Rightarrow> legacy_keys js tws d)"
    define takes where "takes = (\<lambda>tw. takes_tweet t rc window (snap \<noteq> None) legacy
      (row_get mu_id (tw_monitored_user_id tw) (monitored_users d))
      (find (\<lambda>s. sub_monitored_user_id s = tw_monitored_user_id tw) subs) tw)"
    have eq: "enqueue_task env resolve now st tws window snap t d =
      (if rc_skill_ids rc = [] \<or> length (rc_skills rc) \<noteq> length (rc_skill_ids rc) then Some (d, 0)
       else case get_ai_feature (rc_feature_code rc) d of None \<Rightarrow> Some (d, 0)
       | Some f \<Rightarrow> Some (insert_jobs t (window \<noteq> None)
          (number_rows (serial d) (\<lambda>tw i. listen_job env now i st t rc f (author_context_of env d tw) tw)
            (filter takes tws)) d))"
      unfolding rc_def legacy_def takes_def subs_def enqueue_task_def Let_def
      using free sel valid by simp
    show ?thesis
    proof (cases "rc_skill_ids rc = [] \<or> length (rc_skills rc) \<noteq> length (rc_skill_ids rc) \<or>
        get_ai_feature (rc_feature_code rc) d = None")
      case True
      with assms have "d' = d \<and> n = 0" unfolding eq by (auto split: if_splits)
      then show ?thesis by (simp add: adds_none)
    next
      case False
      then obtain f where f: "get_ai_feature (rc_feature_code rc) d = Some f" by blast
      let ?rows = "number_rows (serial d) (\<lambda>tw i. listen_job env now i st t rc f (author_context_of env d tw) tw)
          (filter takes tws)"
      have ins: "insert_jobs t (window \<noteq> None) ?rows d = (d', n)"
        using assms False f unfolding eq by simp
      have "job_for t tws window snap d j" if "j \<in> set ?rows" for j
      proof -
        from set_number_rows[OF that] obtain tw i where
          tw: "tw \<in> set tws" "takes tw" and j: "j = listen_job env now i st t rc f (author_context_of env d tw) tw"
          by auto
        have fields: "listen_job_ok j" "gj_listen_task_id j = Some (lt_id t)" "gj_status j = ''queued''"
            "gj_publish_outbox_initialized_at j = None" "gj_skill_snapshot j = rc_skills rc"
            "gj_skill_ids j = rc_skill_ids rc" "gj_source_tweet_id j = tw_id tw"
            "gj_task_snapshot j = task_snapshot t rc"
          by (simp_all add: j listen_job_def listen_job_ok_def)
        show ?thesis unfolding job_for_def
          using tw fields False by (auto simp: takes_def subs_def)
      qed
      then have "adds_jobs (job_for t tws window snap d) d d' n" using adds_insert[OF _ ins] by blast
      moreover have "same_world d d'"
        using ins by (auto simp: insert_jobs_def same_world_def split: prod.splits)
      ultimately show ?thesis using free by simp
    qed
  qed
qed

lemma job_for_world: "same_world d d1 \<Longrightarrow> job_for t tws window snap d1 j = job_for t tws window snap d j"
  by (simp add: job_for_def same_world_def)

definition job_for_some :: "listen_task list \<Rightarrow> tweet list \<Rightarrow> (time \<times> time) option \<Rightarrow> json option \<Rightarrow> db \<Rightarrow>
    gen_job \<Rightarrow> bool" where
  "job_for_some ts tws window snap d j \<longleftrightarrow>
     (\<exists>t \<in> set ts. \<not> nonempty (lt_queue_hold_reason t) \<and> job_for t tws window snap d j)"

lemma enqueue_tasks_adds:
  "enqueue_tasks env resolve now st tws window snap ts d = Some (d', n) \<Longrightarrow>
    adds_jobs (job_for_some ts tws window snap d) d d' n \<and> same_world d d'"
proof (induction ts arbitrary: d d' n)
  case Nil
  then show ?case by (auto intro: adds_none)
next
  case (Cons t ts)
  from Cons.prems obtain d1 k m where
    one: "enqueue_task env resolve now st tws window snap t d = Some (d1, k)"
    and rest: "enqueue_tasks env resolve now st tws window snap ts d1 = Some (d', m)" and n: "n = k + m"
    by (auto split: option.splits)
  note first = enqueue_task_adds[OF one] and others = Cons.IH[OF rest]
  have "adds_jobs (job_for_some (t # ts) tws window snap d) d d1 k"
  proof (cases "k = 0")
    case True
    with first show ?thesis by (auto simp: adds_jobs_def)
  next
    case False
    with first have "\<not> nonempty (lt_queue_hold_reason t)" by simp
    then show ?thesis using first adds_weaken[of "job_for t tws window snap d" d d1 k]
      by (auto simp: job_for_some_def)
  qed
  moreover have "adds_jobs (job_for_some (t # ts) tws window snap d) d1 d' m"
    by (rule adds_weaken[OF conjunct1[OF others]])
      (use first in \<open>auto simp: job_for_some_def job_for_world\<close>)
  ultimately show ?case using adds_trans first others same_world_trans n by blast
qed

lemma get_ai_setting_world: "get_ai_setting now d = (d1, st) \<Longrightarrow>
    same_world d d1 \<and> gen_jobs d1 = gen_jobs d \<and> listen_tasks d1 = listen_tasks d \<and> serial d1 = serial d"
  by (auto simp: get_ai_setting_def same_world_def split: option.splits)

lemma enqueue_listening_adds:
  assumes "enqueue_listening_jobs env resolve now ids task window snap d = Some (d', n)"
  shows "adds_jobs (job_for_some (enabled_tasks task d) (filter (\<lambda>t. tw_id t \<in> set ids) (tweets d)) window snap d) d d' n \<and>
    same_world d d'"
proof (cases "ids = []")
  case True
  with assms show ?thesis by (simp add: enqueue_listening_jobs_def adds_none)
next
  case ne: False
  obtain d1 st where st: "get_ai_setting now d = (d1, st)" by (cases "get_ai_setting now d")
  note w = get_ai_setting_world[OF st]
  have tasks: "enabled_tasks task d1 = enabled_tasks task d" using w by (simp add: enabled_tasks_def)
  show ?thesis
  proof (cases "enqueue_tasks env resolve now st (filter (\<lambda>t. tw_id t \<in> set ids) (tweets d1)) window snap
      (enabled_tasks task d1) d1 = Some (d', n)")
    case True
    from enqueue_tasks_adds[OF this] w show ?thesis
      by (auto simp: adds_jobs_def same_world_def tasks job_for_some_def job_for_def)
  next
    case False
    with assms ne st have "d' = d1 \<and> n = 0"
      by (auto simp: enqueue_listening_jobs_def Let_def split: if_splits)
    with w show ?thesis by (simp add: adds_none)
  qed
qed

lemma jobs_ok_adds: "adds_jobs P d d' n \<Longrightarrow> (\<And>j. P j \<Longrightarrow> listen_job_ok j) \<Longrightarrow> jobs_ok d \<Longrightarrow> jobs_ok d'"
  unfolding adds_jobs_def jobs_ok_def by (auto simp: ball_Un)

lemma create_manual_cases:
  assumes "create_manual_job env now tw f sks res ck fresh d = Inr (d', j, created)"
  obtains (found) "gen_jobs d' = gen_jobs d" "\<not> created" "j \<in> set (gen_jobs d)"
      "gj_idempotency_key j = manual_key (tw_id tw) sks ck fresh"
  | (new) "gen_jobs d' = gen_jobs d @ [j]" "created" "gj_idempotency_key j \<notin> gj_idempotency_key ` set (gen_jobs d)"
      "gj_trigger_type j = ''manual''" "gj_source_tweet_id j = tw_id tw"
      "gj_idempotency_key j = manual_key (tw_id tw) sks ck fresh"
proof -
  obtain d1 st where st: "get_ai_setting now d = (d1, st)" by (cases "get_ai_setting now d")
  note w = get_ai_setting_world[OF st]
  show thesis
  proof (cases "row_get gj_idempotency_key (manual_key (tw_id tw) sks ck fresh) (gen_jobs d1)")
    case (Some x)
    with assms st w row_get_Some[OF Some] show thesis
      by (intro found) (auto simp: create_manual_job_def split: if_splits)
  next
    case None
    then have fresh_key: "manual_key (tw_id tw) sks ck fresh \<notin> gj_idempotency_key ` set (gen_jobs d)"
      using w by simp
    from assms have "gen_jobs d' = gen_jobs d @ [j] \<and> created \<and> gj_trigger_type j = ''manual'' \<and>
        gj_source_tweet_id j = tw_id tw \<and> gj_idempotency_key j = manual_key (tw_id tw) sks ck fresh"
      unfolding create_manual_job_def st prod.case Let_def None option.case
      using w by (auto simp: manual_job_def split: if_splits option.splits)
    with fresh_key show thesis by (intro new) simp_all
  qed
qed

subsection \<open>Sample rows\<close>

definition sample_ai_env :: ai_env where
  "sample_ai_env = \<lparr>ae_isoformat = (\<lambda>t. show_int t), ae_sha256 = (\<lambda>s. s)\<rparr>"

definition sample_skill :: skill where
  "sample_skill = \<lparr>sk_id = 8, sk_name = ''s'', sk_description = None, sk_instructions = ''do'',
     sk_output_schema = JNull, sk_version = 1, sk_remote_skill_id = None, sk_remote_skill_version = None,
     sk_source_type = ''custom'', sk_source_metadata = JNull\<rparr>"

definition sample_selection :: task_selection where
  "sample_selection = \<lparr>ts_valid = True, ts_ids = [8], ts_skills = [sample_skill]\<rparr>"

definition sample_feature :: ai_feature where
  "sample_feature = \<lparr>af_id = 1, af_code = ''article_generation'', af_name = ''a'', af_description = None,
     af_base_prompt = ''p'', af_is_active = True, af_created_at = 0, af_updated_at = 0\<rparr>"

definition sample_task :: listen_task where
  "sample_task = \<lparr>lt_id = 9, lt_owner_admin_id = Some 1, lt_name = ''task'', lt_desired_state = ''enabled'',
     lt_queue_hold_reason = None, lt_all_monitored_users = True, lt_listen_mode = ''original'',
     lt_auto_publish_channels = [''xhs''], lt_qq_bot_id = None, lt_qq_group_openids = [],
     lt_feature_code = ''article_generation'', lt_config_version = 1, lt_activated_at = Some 0,
     lt_effective_from = None, lt_initial_sync_days = 0, lt_initial_backfill_from = None,
     lt_initial_backfill_to = None, lt_archived_at = None, lt_max_attempts_override = None,
     lt_language_override = None, lt_tone_override = None, lt_max_output_tokens_override = None,
     lt_created_at = 0, lt_updated_at = 0\<rparr>"

definition sample_ai_db :: db where
  "sample_ai_db = sample_db\<lparr>ai_settings := [(default_ai_setting 0)\<lparr>st_enabled := True\<rparr>],
     ai_features := [sample_feature], listen_tasks := [sample_task]\<rparr>"

definition sample_job :: gen_job where
  "sample_job = listen_job sample_ai_env 500 6 ((default_ai_setting 0)\<lparr>st_enabled := True\<rparr>) sample_task
     (task_config sample_task sample_selection []) sample_feature
     (author_context_of sample_ai_env sample_ai_db sample_tweet) sample_tweet"

lemma sample_enqueue:
  "\<exists>d'. enqueue_listening_jobs sample_ai_env (\<lambda>_. Some sample_selection) 500 [5] None None None sample_ai_db =
     Some (d', 1) \<and> gen_jobs d' = [sample_job]"
proof -
  have tasks: "enabled_tasks None sample_ai_db = [sample_task]"
    by (simp add: enabled_tasks_def sample_ai_db_def sample_task_def)
  have setting: "get_ai_setting 500 sample_ai_db = (sample_ai_db, (default_ai_setting 0)\<lparr>st_enabled := True\<rparr>)"
    by (simp add: get_ai_setting_def sample_ai_db_def row_get_def default_ai_setting_def)
  have tabs: "tweets sample_ai_db = [sample_tweet]" "monitored_users sample_ai_db = [sample_user]"
      "subscriptions sample_ai_db = []" "gen_jobs sample_ai_db = []" "serial sample_ai_db = 6"
    by (simp_all add: sample_ai_db_def sample_db_def empty_db_def)
  have feature: "get_ai_feature ''article_generation'' sample_ai_db = Some sample_feature"
    by (simp add: get_ai_feature_def sample_ai_db_def sample_feature_def)
  have takes: "takes_tweet sample_task (task_config sample_task sample_selection []) None False [] (Some sample_user) None sample_tweet"
    by (simp add: takes_tweet_def task_config_def sample_task_def sample_user_def sample_tweet_def
        effective_start_def later_start_def or_else_def)
  have user: "row_get mu_id (tw_monitored_user_id sample_tweet) [sample_user] = Some sample_user"
    by (simp add: row_get_def sample_tweet_def sample_user_def)
  have rc: "rc_skill_ids (task_config sample_task sample_selection []) = [8]"
      "length (rc_skills (task_config sample_task sample_selection [])) = 1"
      "rc_feature_code (task_config sample_task sample_selection []) = ''article_generation''"
    by (simp_all add: task_config_def sample_selection_def sample_task_def)
  have basic: "st_enabled ((default_ai_setting 0)\<lparr>st_enabled := True\<rparr>)"
      "st_auto_generate ((default_ai_setting 0)\<lparr>st_enabled := True\<rparr>)" "tw_id sample_tweet = 5"
      "lt_queue_hold_reason sample_task = None" "ts_valid sample_selection"
    by (simp_all add: default_ai_setting_def sample_tweet_def sample_task_def sample_selection_def)
  have one: "enqueue_task sample_ai_env (\<lambda>_. Some sample_selection) 500 ((default_ai_setting 0)\<lparr>st_enabled := True\<rparr>)
      [sample_tweet] None None sample_task sample_ai_db =
    Some (insert_jobs sample_task False [sample_job] sample_ai_db)"
    by (simp add: enqueue_task_def Let_def basic tabs rc feature takes user sample_job_def)
  have "insert_jobs sample_task False [sample_job] sample_ai_db =
      (sample_ai_db\<lparr>gen_jobs := [sample_job], serial := 7, task_events := task_events sample_ai_db @
        [jobs_enqueued sample_task 1 False]\<rparr>, 1)"
    by (simp add: insert_jobs_def tabs)
  then show ?thesis using one
    by (simp add: enqueue_listening_jobs_def setting basic tabs tasks Let_def)
qed

subsection \<open>Properties\<close>

text \<open>
  C25: One job per task and post. Enqueueing posts for listening tasks, whether from
  collection or from a backfill, keeps every existing job as it is and appends the
  counted new ones; keys stay unique, so over the whole table a task has at most one
  job for a post, however often the same posts come again.
\<close>

theorem one_job_per_post:
  assumes "jobs_ok d" and "enqueue_listening_jobs env resolve now ids task window snap d = Some (d', n)"
  shows "jobs_ok d' \<and> (\<exists>new. gen_jobs d' = gen_jobs d @ new \<and> length new = n) \<and>
    (\<forall>j j'. j \<in> set (gen_jobs d') \<longrightarrow> j' \<in> set (gen_jobs d') \<longrightarrow> gj_trigger_type j = ''listen_task'' \<longrightarrow>
       gj_trigger_type j' = ''listen_task'' \<longrightarrow> gj_listen_task_id j = gj_listen_task_id j' \<longrightarrow>
       gj_source_tweet_id j = gj_source_tweet_id j' \<longrightarrow> j = j')"
proof -
  note adds = conjunct1[OF enqueue_listening_adds[OF assms(2)]]
  have ok: "jobs_ok d'"
    by (rule jobs_ok_adds[OF adds _ assms(1)]) (auto simp: job_for_some_def job_for_def)
  have "j = j'" if "j \<in> set (gen_jobs d')" "j' \<in> set (gen_jobs d')" "gj_trigger_type j = ''listen_task''"
      "gj_trigger_type j' = ''listen_task''" "gj_listen_task_id j = gj_listen_task_id j'"
      "gj_source_tweet_id j = gj_source_tweet_id j'" for j j'
  proof -
    have "listen_job_ok j" "listen_job_ok j'" using ok that(1,2) by (auto simp: jobs_ok_def)
    then have "gj_idempotency_key j = gj_idempotency_key j'"
      using that(3-6) by (auto simp: listen_job_ok_def split: option.splits)
    then show ?thesis using ok that(1,2) by (auto simp: jobs_ok_def distinct_map inj_on_def)
  qed
  with ok adds show ?thesis unfolding adds_jobs_def by blast
qed

theorem one_job_per_post_witness:
  "\<exists>d'. jobs_ok d' \<and> gen_jobs d' = [sample_job]"
proof -
  obtain d' where d': "enqueue_listening_jobs sample_ai_env (\<lambda>_. Some sample_selection) 500 [5] None None None
      sample_ai_db = Some (d', 1)" "gen_jobs d' = [sample_job]"
    using sample_enqueue by blast
  have "jobs_ok sample_ai_db" by (simp add: jobs_ok_def sample_ai_db_def sample_db_def empty_db_def)
  from one_job_per_post[OF this d'(1)] d'(2) show ?thesis by blast
qed

text \<open>
  A job is queued only for a post its task listens to. Every job added from
  collection belongs to an enabled task without a hold and to one of the given
  posts, of an active account with the posting kinds switched on, in the task's
  mode, and not posted before the task, the account or the subscription took effect
  (unless inside the initial window the task was created with).
\<close>

theorem realtime_jobs_sound:
  assumes "enqueue_listening_jobs env resolve now ids task None None d = Some (d', n)"
    and "gen_jobs d' = gen_jobs d @ new" and "j \<in> set new"
  shows "\<exists>t tw u rc sub. t \<in> set (listen_tasks d) \<and> lt_desired_state t = ''enabled'' \<and>
    \<not> nonempty (lt_queue_hold_reason t) \<and> gj_listen_task_id j = Some (lt_id t) \<and>
    tw \<in> set (tweets d) \<and> tw_id tw \<in> set ids \<and> gj_source_tweet_id j = tw_id tw \<and>
    u \<in> set (monitored_users d) \<and> mu_id u = tw_monitored_user_id tw \<and> mu_is_active u \<and>
    gj_task_snapshot j = task_snapshot t rc \<and> (rc_mode rc = ''all'' \<or> rc_mode rc = tw_tweet_type tw) \<and>
    (tw_tweet_type tw = ''reply'' \<longrightarrow> mu_include_replies u) \<and>
    (tw_tweet_type tw = ''retweet'' \<longrightarrow> mu_include_retweets u) \<and>
    (in_initial_window t (rc_all_users rc) u sub tw \<or>
      (\<exists>e. effective_start t (rc_all_users rc) u sub = Some e \<and> e \<le> tw_posted_at tw))"
proof -
  from enqueue_listening_adds[OF assms(1)] assms(2,3) have
    "job_for_some (enabled_tasks task d) (filter (\<lambda>t. tw_id t \<in> set ids) (tweets d)) None None d j"
    by (auto simp: adds_jobs_def)
  then obtain t tw rc legacy where t: "t \<in> set (enabled_tasks task d)" "\<not> nonempty (lt_queue_hold_reason t)"
      "gj_listen_task_id j = Some (lt_id t)"
    and tw: "tw \<in> set (tweets d)" "tw_id tw \<in> set ids" "gj_source_tweet_id j = tw_id tw"
      "gj_task_snapshot j = task_snapshot t rc"
    and takes: "takes_tweet t rc None False legacy
          (row_get mu_id (tw_monitored_user_id tw) (monitored_users d))
          (find (\<lambda>s. sub_monitored_user_id s = tw_monitored_user_id tw)
             (filter (\<lambda>s. sub_task_id s = lt_id t) (subscriptions d))) tw"
    unfolding job_for_some_def job_for_def by auto
  from takes obtain u where "row_get mu_id (tw_monitored_user_id tw) (monitored_users d) = Some u"
    by (auto simp: takes_tweet_def split: option.splits)
  with t tw takes row_get_Some[OF this] show ?thesis
    by (intro exI[of _ t] exI[of _ tw] exI[of _ u] exI[of _ rc] exI)
      (auto simp: enabled_tasks_def takes_tweet_def split: option.splits)
qed

theorem realtime_jobs_sound_witness:
  "\<exists>t. t \<in> set (listen_tasks sample_ai_db) \<and> gj_listen_task_id sample_job = Some (lt_id t)"
proof -
  obtain d' where d': "enqueue_listening_jobs sample_ai_env (\<lambda>_. Some sample_selection) 500 [5] None None None
      sample_ai_db = Some (d', 1)" "gen_jobs d' = [sample_job]"
    using sample_enqueue by blast
  have "gen_jobs d' = gen_jobs sample_ai_db @ [sample_job]"
    using d'(2) by (simp add: sample_ai_db_def sample_db_def empty_db_def)
  from realtime_jobs_sound[OF d'(1) this] show ?thesis by auto
qed

text \<open>
  A manual request with a client key creates one job. The first call creates the
  job of the post; any later call with that key returns the same job and creates
  nothing, and neither touches a listening job.
\<close>

theorem manual_job_once:
  assumes "jobs_ok d" and "create_manual_job env now tw f sks res (Some key) fresh d = Inr (d1, j, created)"
    and "key \<noteq> []" and "create_manual_job env' now' tw f' sks' res' (Some key) fresh' d1 = Inr (d2, j', created')"
  shows "\<not> created' \<and> j' = j \<and> gen_jobs d2 = gen_jobs d1 \<and> jobs_ok d1 \<and>
    set (gen_jobs d1) = insert j (set (gen_jobs d))"
proof -
  have k: "manual_key (tw_id tw) s (Some key) g = manual_key (tw_id tw) sks (Some key) fresh" for s g
    using assms(3) by (simp add: manual_key_def)
  have d1: "jobs_ok d1 \<and> j \<in> set (gen_jobs d1) \<and>
      gj_idempotency_key j = manual_key (tw_id tw) sks (Some key) fresh \<and>
      set (gen_jobs d1) = insert j (set (gen_jobs d))"
    using assms(2)
  proof (cases rule: create_manual_cases)
    case found
    with assms(1) show ?thesis by (auto simp: jobs_ok_def)
  next
    case new
    with assms(1) show ?thesis by (auto simp: jobs_ok_def listen_job_ok_def)
  qed
  show ?thesis using assms(4)
  proof (cases rule: create_manual_cases)
    case found
    then have "gj_idempotency_key j' = gj_idempotency_key j" using d1 k[of sks' fresh'] by simp
    then have "j' = j" using d1 found by (auto simp: jobs_ok_def distinct_map inj_on_def)
    with found d1 show ?thesis by simp
  next
    case new
    then show ?thesis using d1 k[of sks' fresh'] by auto
  qed
qed

theorem manual_job_once_witness:
  "\<exists>d1 j. create_manual_job sample_ai_env 500 sample_tweet sample_feature [] ''auto'' (Some ''k'') ''u'' sample_ai_db =
     Inr (d1, j, True) \<and> jobs_ok d1"
proof -
  define call where "call = (\<lambda>now fresh. create_manual_job sample_ai_env now sample_tweet sample_feature []
    ''auto'' (Some ''k'') fresh)"
  have ctx: "build_author_context sample_ai_env (tw_monitored_user_id sample_tweet) (tw_id sample_tweet) sample_ai_db \<noteq> None"
    by (simp add: build_author_context_def row_get_def sample_ai_db_def sample_db_def sample_user_def
        sample_tweet_def)
  have setting: "get_ai_setting 500 sample_ai_db = (sample_ai_db, (default_ai_setting 0)\<lparr>st_enabled := True\<rparr>)"
    by (simp add: get_ai_setting_def sample_ai_db_def row_get_def default_ai_setting_def)
  have none: "row_get gj_idempotency_key k (gen_jobs sample_ai_db) = None" for k
    by (simp add: sample_ai_db_def sample_db_def empty_db_def)
  obtain d1 j where one: "call 500 ''u'' sample_ai_db = Inr (d1, j, True)"
    using ctx unfolding call_def create_manual_job_def setting prod.case Let_def none option.case
    by (auto simp: default_ai_setting_def)
  have ok: "jobs_ok sample_ai_db" by (simp add: jobs_ok_def sample_ai_db_def sample_db_def empty_db_def)
  from one[unfolded call_def] have "get_ai_setting 600 d1 = (d1, (default_ai_setting 0)\<lparr>st_enabled := True\<rparr>) \<and>
      row_get gj_idempotency_key (manual_key 5 [] (Some ''k'') ''v'') (gen_jobs d1) = Some j \<and> True"
    using ctx unfolding create_manual_job_def setting prod.case Let_def none option.case
    by (auto simp: default_ai_setting_def get_ai_setting_def row_get_def sample_ai_db_def manual_job_def
        manual_key_def sample_db_def empty_db_def sample_tweet_def split: option.splits)
  then have "call 600 ''v'' d1 = Inr (d1, j, False)"
    by (simp add: call_def create_manual_job_def default_ai_setting_def sample_tweet_def)
  from manual_job_once[OF ok one[unfolded call_def] _ this[unfolded call_def]] one
  show ?thesis by (auto simp: call_def)
qed

end
