(* ===== verification/Skills.thy ===== *)
theory Skills
  imports AiJobs "HOL-Library.List_Lexorder"
begin

text \<open>
  Skills: their selection by the skill worker (\<open>backend/app/skills/store.py\<close>,
  \<open>skill_worker.py\<close>), the checks of its client (\<open>services/skill_client.py\<close>), the routes
  that change skills and the settings of generation (\<open>skills/routes.py\<close>), and the
  compilation of an imported package into one prompt (\<open>skills/packages.py\<close>). Reading the
  stored text of a package (\<open>read\<close>, which checks its digest), the links of a text and the
  transport to the worker are parameters.
\<close>

subsection \<open>Resolving skills\<close>

definition skill_out :: "ai_skill \<Rightarrow> skill" where
  "skill_out s =
     \<lparr>sk_id = ak_id s, sk_name = ak_name s, sk_description = ak_description s, sk_instructions = ak_instructions s,
      sk_output_schema = ak_output_schema s, sk_version = ak_version s, sk_remote_skill_id = ak_remote_skill_id s,
      sk_remote_skill_version = ak_remote_skill_version s, sk_source_type = ak_source_type s,
      sk_source_metadata = ak_source_metadata s\<rparr>"

text \<open>The text of a package replaces the one in the row; \<open>None\<close> when it is missing or altered.\<close>

definition resolved_skill :: "(json \<Rightarrow> string option) \<Rightarrow> ai_skill \<Rightarrow> skill option" where
  "resolved_skill read s =
     (if ak_source_type s = ''github''
      then map_option (\<lambda>t. skill_out s\<lparr>sk_instructions := t\<rparr>) (read (ak_source_metadata s))
      else Some (skill_out s))"

definition active_skills :: "int list \<Rightarrow> db \<Rightarrow> ai_skill list" where
  "active_skills ids d = filter (\<lambda>s. ak_id s \<in> set ids \<and> ak_is_active s) (ai_skills d)"

definition resolve_active_skills :: "(json \<Rightarrow> string option) \<Rightarrow> int list \<Rightarrow> db \<Rightarrow> skill list option" where
  "resolve_active_skills read ids d =
     (let found = active_skills ids d in
      if list_ex (\<lambda>s. resolved_skill read s = None) found then None
      else Some (List.map_filter (\<lambda>i. Option.bind (row_get ak_id i found) (resolved_skill read)) ids))"

definition task_skill_ids :: "int \<Rightarrow> db \<Rightarrow> int list" where
  "task_skill_ids t d =
     map lk_skill_id (sort_key (\<lambda>l. (lk_priority l, lk_skill_id l)) (filter (\<lambda>l. lk_task_id l = t) (task_skills d)))"

text \<open>\<open>GET /v1/tasks/{id}/skills\<close>, with the property \<open>valid\<close> of the answer.\<close>

definition selection_valid :: "int list \<Rightarrow> skill list \<Rightarrow> bool" where
  "selection_valid ids sks \<longleftrightarrow> ids \<noteq> [] \<and> ids = map sk_id sks"

definition resolve_task :: "(json \<Rightarrow> string option) \<Rightarrow> int \<Rightarrow> db \<Rightarrow> task_selection option" where
  "resolve_task read t d =
     (let ids = task_skill_ids t d in
      map_option (\<lambda>sks. \<lparr>ts_valid = selection_valid ids sks, ts_ids = ids, ts_skills = sks\<rparr>)
        (resolve_active_skills read ids d))"

text \<open>\<open>GET /v1/jobs/{id}/skills\<close>: the frozen skills with the text of their packages.\<close>

definition job_material :: "(json \<Rightarrow> string option) \<Rightarrow> json \<Rightarrow> json option" where
  "job_material read frozen =
     (if jget frozen ''source_type'' = JStr ''github''
      then map_option (\<lambda>t. jset frozen ''instructions'' (JStr t)) (read (jor (jget frozen ''source_metadata'') (JObj [])))
      else Some frozen)"

definition job_skills :: "(json \<Rightarrow> string option) \<Rightarrow> int \<Rightarrow> db \<Rightarrow> json list option" where
  "job_skills read i d =
     (case row_get gj_id i (gen_jobs d) of
        None \<Rightarrow> None
      | Some r \<Rightarrow>
          (let ms = map (job_material read) (gj_skill_snapshot r) in
           if None \<in> set ms then None else Some (map the ms)))"

text \<open>
  The client. Every failure of the transport or of the worker, and every answer that
  does not fit, is \<open>SkillServiceUnavailable\<close>, here \<open>None\<close>.
\<close>

definition selection_ok :: "task_selection \<Rightarrow> bool" where
  "selection_ok sel \<longleftrightarrow>
     distinct (ts_ids sel) \<and> list_all (\<lambda>i. 0 < i) (ts_ids sel) \<and>
     map sk_id (ts_skills sel) = filter (\<lambda>i. i \<in> sk_id ` set (ts_skills sel)) (ts_ids sel)"

definition client_resolve :: "bool \<Rightarrow> (json \<Rightarrow> string option) \<Rightarrow> int list \<Rightarrow> db \<Rightarrow> skill list option" where
  "client_resolve up read ids d =
     (if \<not> up then None
      else case resolve_active_skills read ids d of
        None \<Rightarrow> None
      | Some sks \<Rightarrow> (if map sk_id sks = filter (\<lambda>i. i \<in> sk_id ` set sks) ids then Some sks else None))"

definition client_task :: "bool \<Rightarrow> (json \<Rightarrow> string option) \<Rightarrow> int \<Rightarrow> db \<Rightarrow> task_selection option" where
  "client_task up read t d =
     (if \<not> up then None
      else case resolve_task read t d of
        None \<Rightarrow> None
      | Some sel \<Rightarrow> (if selection_ok sel then Some sel else None))"

definition client_job :: "bool \<Rightarrow> (json \<Rightarrow> string option) \<Rightarrow> int \<Rightarrow> json list \<Rightarrow> db \<Rightarrow> json list option" where
  "client_job up read i expected d =
     (if \<not> up then None
      else case job_skills read i d of
        None \<Rightarrow> None
      | Some ms \<Rightarrow> (if ms = expected then Some ms else None))"

subsection \<open>Settings and skills\<close>

record settings_patch =
  pt_enabled :: "bool option"
  pt_auto_generate :: "bool option"
  pt_provider :: "string option"
  pt_model :: "string option"
  pt_base_url :: "string option"
  pt_bridge_url :: "string option option"
  pt_prompt_template :: "string option option"
  pt_language :: "string option"
  pt_tone :: "msg option"
  pt_max_attempts :: "int option"
  pt_max_output_tokens :: "int option"
  pt_request_timeout_seconds :: "int option"
  pt_reasoning_effort :: "string option"

definition given :: "'a option \<Rightarrow> 'a \<Rightarrow> 'a" where
  "given p old = (case p of None \<Rightarrow> old | Some v \<Rightarrow> v)"

lemma given_simps [simp]: "given None old = old" "given (Some v) old = v"
  by (simp_all add: given_def)

definition patched_setting :: "settings_patch \<Rightarrow> ai_setting \<Rightarrow> ai_setting" where
  "patched_setting p st =
     st\<lparr>st_enabled := given (pt_enabled p) (st_enabled st), st_auto_generate := given (pt_auto_generate p) (st_auto_generate st),
        st_prompt_template := given (pt_prompt_template p) (st_prompt_template st),
        st_language := given (pt_language p) (st_language st), st_tone := given (pt_tone p) (st_tone st),
        st_max_attempts := given (pt_max_attempts p) (st_max_attempts st),
        st_max_output_tokens := given (pt_max_output_tokens p) (st_max_output_tokens st),
        st_request_timeout_seconds := given (pt_request_timeout_seconds p) (st_request_timeout_seconds st),
        st_reasoning_effort := given (pt_reasoning_effort p) (st_reasoning_effort st)\<rparr>"

definition patch_ai_settings :: "time \<Rightarrow> settings_patch \<Rightarrow> db \<Rightarrow> api_error + db" where
  "patch_ai_settings now p d =
     (if pt_provider p \<noteq> None \<or> pt_model p \<noteq> None \<or> pt_base_url p \<noteq> None \<or> pt_bridge_url p \<noteq> None
      then Inl (Conflict ''ai_data_source_managed_separately'')
      else case get_ai_setting now d of
        (d1, st) \<Rightarrow>
          (if st_enabled (patched_setting p st) \<and> row_get ds_id 1 (data_sources d1) = None
           then Inl (Conflict ''ai_data_source_required'')
           else Inr (d1\<lparr>ai_settings := row_put st_id (patched_setting p st) (ai_settings d1)\<rparr>)))"

record skill_create =
  kc_name :: string
  kc_description :: "string option"
  kc_instructions :: string
  kc_output_schema :: json
  kc_is_active :: bool
  kc_remote_skill_id :: "string option"
  kc_remote_skill_version :: "string option"

definition created_skill :: "time \<Rightarrow> int \<Rightarrow> skill_create \<Rightarrow> ai_skill" where
  "created_skill now i p =
     \<lparr>ak_id = i, ak_name = kc_name p, ak_description = kc_description p, ak_instructions = kc_instructions p,
      ak_output_schema = kc_output_schema p, ak_is_active = kc_is_active p, ak_version = 1,
      ak_remote_skill_id = kc_remote_skill_id p, ak_remote_skill_version = kc_remote_skill_version p,
      ak_source_type = ''custom'', ak_content_type = ''prompt'', ak_source_key = None, ak_source_metadata = JNull,
      ak_created_at = now, ak_updated_at = now\<rparr>"

definition create_ai_skill :: "time \<Rightarrow> skill_create \<Rightarrow> db \<Rightarrow> api_error + db \<times> ai_skill" where
  "create_ai_skill now p d =
     (let (d1, st) = get_ai_setting now d; s = created_skill now (serial d1) p in
      if kc_name p \<in> ak_name ` set (ai_skills d1) then Inl (Conflict ''skill_name_exists'')
      else Inr (d1\<lparr>ai_skills := ai_skills d1 @ [s], serial := serial d1 + 1\<rparr>, s))"

record skill_patch =
  kp_name :: "string option"
  kp_description :: "string option option"
  kp_instructions :: "string option"
  kp_output_schema :: "json option"
  kp_is_active :: "bool option"
  kp_remote_skill_id :: "string option option"
  kp_remote_skill_version :: "string option option"

text \<open>The patch sets a field other than the state of the skill.\<close>

definition edits_content :: "skill_patch \<Rightarrow> bool" where
  "edits_content p \<longleftrightarrow> kp_name p \<noteq> None \<or> kp_description p \<noteq> None \<or> kp_instructions p \<noteq> None \<or>
     kp_output_schema p \<noteq> None \<or> kp_remote_skill_id p \<noteq> None \<or> kp_remote_skill_version p \<noteq> None"

definition patched_skill :: "skill_patch \<Rightarrow> ai_skill \<Rightarrow> ai_skill" where
  "patched_skill p s =
     s\<lparr>ak_name := given (kp_name p) (ak_name s), ak_description := given (kp_description p) (ak_description s),
       ak_instructions := given (kp_instructions p) (ak_instructions s),
       ak_output_schema := given (kp_output_schema p) (ak_output_schema s),
       ak_is_active := given (kp_is_active p) (ak_is_active s),
       ak_remote_skill_id := given (kp_remote_skill_id p) (ak_remote_skill_id s),
       ak_remote_skill_version := given (kp_remote_skill_version p) (ak_remote_skill_version s),
       ak_version := ak_version s + 1\<rparr>"

text \<open>Every task that uses the skill is held.\<close>

definition uses_skill :: "int \<Rightarrow> db \<Rightarrow> int \<Rightarrow> bool" where
  "uses_skill i d t \<longleftrightarrow> list_ex (\<lambda>l. lk_skill_id l = i \<and> lk_task_id l = t) (task_skills d)"

definition hold_users :: "int \<Rightarrow> db \<Rightarrow> db" where
  "hold_users i d =
     d\<lparr>listen_tasks := row_update (\<lambda>t. uses_skill i d (lt_id t)) (\<lambda>t. t\<lparr>lt_queue_hold_reason := Some ''skill_invalidated''\<rparr>)
        (listen_tasks d)\<rparr>"

definition put_skill :: "ai_skill \<Rightarrow> db \<Rightarrow> db" where
  "put_skill s d = d\<lparr>ai_skills := row_put ak_id s (ai_skills d)\<rparr>"

definition patch_ai_skill :: "time \<Rightarrow> int \<Rightarrow> skill_patch \<Rightarrow> db \<Rightarrow> api_error + db" where
  "patch_ai_skill now i p d =
     (let (d1, st) = get_ai_setting now d in
      case row_get ak_id i (ai_skills d1) of
        None \<Rightarrow> Inl (NotFound ''skill_not_found'')
      | Some s \<Rightarrow>
          (if ak_content_type s = ''skill'' \<and> edits_content p then Inl (Conflict ''github_skill_read_only'')
           else if list_ex (\<lambda>x. ak_id x \<noteq> i \<and> ak_name x = ak_name (patched_skill p s)) (ai_skills d1)
           then Inl (Conflict ''skill_name_exists'')
           else let d2 = put_skill (patched_skill p s) d1 in
             Inr (if kp_is_active p = Some False then hold_users i d2 else d2)))"

definition delete_ai_skill :: "time \<Rightarrow> int \<Rightarrow> db \<Rightarrow> api_error + db" where
  "delete_ai_skill now i d =
     (let (d1, st) = get_ai_setting now d in
      case row_get ak_id i (ai_skills d1) of
        None \<Rightarrow> Inl (NotFound ''skill_not_found'')
      | Some s \<Rightarrow>
          Inr (hold_users i (put_skill (s\<lparr>ak_is_active := False, ak_version := ak_version s + 1\<rparr>) d1)))"

subsection \<open>Importing a repository\<close>

text \<open>\<open>PreparedSkill\<close>: what an import stages for each \<open>SKILL.md\<close> of the directory.\<close>

record prepared_skill =
  pk_key :: string
  pk_name :: string
  pk_description :: string
  pk_instructions :: string
  pk_metadata :: json

record import_result =
  ir_created :: nat
  ir_updated :: nat
  ir_unchanged :: nat

definition same_version :: "string \<Rightarrow> prepared_skill \<Rightarrow> ai_skill \<Rightarrow> bool" where
  "same_version commit item s \<longleftrightarrow>
     (let old = jor (ak_source_metadata s) (JObj []); new = pk_metadata item in
      jget old ''commit'' = JStr commit \<and> jget old ''sha256'' = jget new ''sha256'' \<and>
      jget old ''import_path'' = jget new ''import_path'' \<and> jget old ''ref'' = jget new ''ref'' \<and>
      jget old ''download_method'' = JStr ''git'')"

definition imported :: "prepared_skill \<Rightarrow> ai_skill \<Rightarrow> ai_skill" where
  "imported item s =
     s\<lparr>ak_description := (if pk_description item = [] then None else Some (pk_description item)),
       ak_instructions := pk_instructions item, ak_source_type := ''github'', ak_content_type := ''skill'',
       ak_source_metadata := pk_metadata item\<rparr>"

text \<open>A name that is taken gets the start of the key as a suffix.\<close>

definition import_name :: "prepared_skill \<Rightarrow> db \<Rightarrow> string" where
  "import_name item d =
     (if pk_name item \<in> ak_name ` set (ai_skills d)
      then take 89 (pk_name item) @ '' '' @ [CHR 0xB7] @ '' '' @ take 8 (pk_key item)
      else pk_name item)"

definition new_import :: "time \<Rightarrow> prepared_skill \<Rightarrow> db \<Rightarrow> ai_skill" where
  "new_import now item d =
     imported item
       \<lparr>ak_id = serial d, ak_name = import_name item d, ak_description = None, ak_instructions = [],
        ak_output_schema = JNull, ak_is_active = True, ak_version = 1, ak_remote_skill_id = None,
        ak_remote_skill_version = None, ak_source_type = ''custom'', ak_content_type = ''prompt'',
        ak_source_key = Some (pk_key item), ak_source_metadata = JNull, ak_created_at = now, ak_updated_at = now\<rparr>"

fun import_items :: "(json \<Rightarrow> string option) \<Rightarrow> time \<Rightarrow> string \<Rightarrow> prepared_skill list \<Rightarrow> import_result \<Rightarrow> db \<Rightarrow>
    api_error + db \<times> import_result" where
  "import_items read now commit [] res d = Inr (d, res)"
| "import_items read now commit (item # items) res d =
     (case find (\<lambda>s. ak_source_key s = Some (pk_key item)) (ai_skills d) of
        None \<Rightarrow>
          (let s = new_import now item d in
           if ak_name s \<in> ak_name ` set (ai_skills d) then Inl (Conflict ''skill_import_conflict'')
           else import_items read now commit items (res\<lparr>ir_created := ir_created res + 1\<rparr>)
             (d\<lparr>ai_skills := ai_skills d @ [s], serial := serial d + 1\<rparr>))
      | Some s \<Rightarrow>
          (if same_version commit item s
           then (case read (ak_source_metadata s) of
                   None \<Rightarrow> Inl (Unavailable ''skill_package_unavailable'')
                 | Some t \<Rightarrow> import_items read now commit items (res\<lparr>ir_unchanged := ir_unchanged res + 1\<rparr>)
                     (put_skill (s\<lparr>ak_content_type := ''skill''\<rparr>) d))
           else import_items read now commit items (res\<lparr>ir_updated := ir_updated res + 1\<rparr>)
             (put_skill (imported item (s\<lparr>ak_version := ak_version s + 1\<rparr>)) d)))"

text \<open>
  The transaction of \<open>_import_github_skills\<close>; the flag tells whether the staged directory
  is kept. The directory of a failed import is removed, as the database rolls back.
\<close>

definition import_skills :: "(json \<Rightarrow> string option) \<Rightarrow> time \<Rightarrow> string option \<Rightarrow> string \<Rightarrow> prepared_skill list \<Rightarrow> db \<Rightarrow>
    api_error + db \<times> import_result \<times> bool" where
  "import_skills read now required commit items d =
     (if (case required of None \<Rightarrow> False | Some k \<Rightarrow> k \<notin> pk_key ` set items) then Inl (Conflict ''skill_missing_upstream'')
      else case import_items read now commit items \<lparr>ir_created = 0, ir_updated = 0, ir_unchanged = 0\<rparr> (fst (get_ai_setting now d)) of
        Inl e \<Rightarrow> Inl e
      | Inr (d', res) \<Rightarrow> Inr (d', res, 0 < ir_created res + ir_updated res))"

end
