(* ===== verification/Backfill.thy ===== *)
theory Backfill
  imports AiJobs
begin

text \<open>
  Scanning stored posts for a requested backfill, \<open>backend/app/services/ai_listen_backfill.py\<close>:
  one bounded batch per call, in the order of posting time and id, with a cursor that
  moves only together with the jobs of the batch.
\<close>

subsection \<open>One batch\<close>

definition bf_get :: "int \<Rightarrow> db \<Rightarrow> task_backfill option" where
  "bf_get i d = row_get bf_id i (backfills d)"

definition put_backfill :: "task_backfill \<Rightarrow> db \<Rightarrow> db" where
  "put_backfill b d = d\<lparr>backfills := row_put bf_id b (backfills d)\<rparr>"

definition backfill_users :: "json \<Rightarrow> int list" where
  "backfill_users snap = json_ints (jlist_of snap ''monitored_user_ids'')"

definition unavailable_users :: "int list \<Rightarrow> db \<Rightarrow> int list" where
  "unavailable_users ids d =
     filter (\<lambda>i. case row_get mu_id i (monitored_users d) of
        None \<Rightarrow> True | Some u \<Rightarrow> \<not> mu_is_active u \<or> mu_archived_at u \<noteq> None) ids"

definition backfill_feature :: "json \<Rightarrow> string" where
  "backfill_feature snap =
     (case jget_or snap ''feature_code'' (JStr ''article_generation'') of JStr s \<Rightarrow> s | _ \<Rightarrow> [])"

definition scan_mode :: "json \<Rightarrow> string" where
  "scan_mode snap = (case jget_or snap ''listen_mode'' (JStr ''original'') of JStr s \<Rightarrow> s | _ \<Rightarrow> [])"

definition post_order :: "tweet \<Rightarrow> time \<times> int" where
  "post_order t = (tw_posted_at t, tw_id t)"

definition after_cursor :: "task_backfill \<Rightarrow> tweet \<Rightarrow> bool" where
  "after_cursor b t \<longleftrightarrow>
     (case (bf_cursor_posted_at b, bf_cursor_tweet_id b) of
        (Some p, Some i) \<Rightarrow> p < tw_posted_at t \<or> (tw_posted_at t = p \<and> i < tw_id t)
      | _ \<Rightarrow> True)"

definition in_backfill :: "task_backfill \<Rightarrow> json \<Rightarrow> tweet \<Rightarrow> bool" where
  "in_backfill b snap t \<longleftrightarrow>
     tw_monitored_user_id t \<in> set (backfill_users snap) \<and>
     bf_from_at b \<le> tw_posted_at t \<and> tw_posted_at t < bf_to_at b \<and>
     (scan_mode snap = ''all'' \<or> tw_tweet_type t = scan_mode snap) \<and> after_cursor b t"

definition scan_batch :: "task_backfill \<Rightarrow> json \<Rightarrow> nat \<Rightarrow> db \<Rightarrow> tweet list" where
  "scan_batch b snap n d = row_select (in_backfill b snap) post_order n (tweets d)"

definition scan_event :: "int \<Rightarrow> task_backfill \<Rightarrow> string \<Rightarrow> msg \<Rightarrow> task_event" where
  "scan_event task b kind summary =
     \<lparr>ev_task_id = task, ev_event_type = kind, ev_job_id = None, ev_backfill_id = Some (bf_id b),
      ev_summary = summary,
      ev_details = JObj [(''scanned'', JInt (bf_scanned_count b)), (''enqueued'', JInt (bf_enqueued_count b))]\<rparr>"

definition add_event :: "task_event \<Rightarrow> db \<Rightarrow> db" where
  "add_event e d = d\<lparr>task_events := task_events d @ [e]\<rparr>"

definition advanced :: "time \<Rightarrow> tweet list \<Rightarrow> nat \<Rightarrow> nat \<Rightarrow> task_backfill \<Rightarrow> task_backfill" where
  "advanced now rows inserted n b =
     b\<lparr>bf_cursor_tweet_id := Some (tw_id (last rows)), bf_cursor_posted_at := Some (tw_posted_at (last rows)),
       bf_scanned_count := bf_scanned_count b + int (length rows),
       bf_enqueued_count := bf_enqueued_count b + int inserted,
       bf_status := (if length rows = n then ''running'' else ''completed''), bf_updated_at := now,
       bf_last_error := None\<rparr>"

text \<open>
  The scan of an available request. \<open>None\<close> is an outage of the skill service, which
  rolls the transaction back; the second component is the answer of
  \<open>_process_backfill_candidate\<close>.
\<close>

definition scan_backfill :: "ai_env \<Rightarrow> (int \<Rightarrow> task_selection option) \<Rightarrow> time \<Rightarrow> nat \<Rightarrow> task_backfill \<Rightarrow> json \<Rightarrow>
    int \<Rightarrow> db \<Rightarrow> (db \<times> nat option) option" where
  "scan_backfill env resolve now n b snap task d =
     (let rows = scan_batch b snap n d; b0 = b\<lparr>bf_last_error := None\<rparr> in
      if rows = [] then
        let b1 = b0\<lparr>bf_status := ''completed'', bf_updated_at := now\<rparr> in
        Some (add_event (scan_event task b1 ''backfill_completed'' (Lit ''history scanned'' [show_int (bf_enqueued_count b1)]))
                (put_backfill b1 d), None)
      else case enqueue_listening_jobs env resolve now (map tw_id rows) (Some task)
                  (Some (bf_from_at b, bf_to_at b)) (Some snap) d of
        None \<Rightarrow> None
      | Some (d1, inserted) \<Rightarrow>
          (case row_get lt_id task (listen_tasks d1) of
             None \<Rightarrow> Some (d1, None)
           | Some t \<Rightarrow>
               (if nonempty (lt_queue_hold_reason t)
                then Some (put_backfill (b0\<lparr>bf_status := ''pending'', bf_updated_at := now\<rparr>) d1, None)
                else let b1 = advanced now rows inserted n b in
                  Some (add_event (scan_event task b1
                            (if bf_status b1 = ''running'' then ''backfill_batch'' else ''backfill_completed'')
                            (Lit ''batch scanned'' [show_nat (length rows), show_nat inserted]))
                          (put_backfill b1 d1), Some (length rows)))))"

definition process_backfill_candidate :: "ai_env \<Rightarrow> (int \<Rightarrow> task_selection option) \<Rightarrow> time \<Rightarrow> nat \<Rightarrow> int \<Rightarrow> int \<Rightarrow>
    db \<Rightarrow> (db \<times> nat option) option" where
  "process_backfill_candidate env resolve now n i task d =
     (case row_get lt_id task (listen_tasks d) of
        None \<Rightarrow> Some (d, None)
      | Some t \<Rightarrow>
          (if lt_desired_state t \<noteq> ''enabled'' \<or> nonempty (lt_queue_hold_reason t) then Some (d, None)
           else case bf_get i d of
             None \<Rightarrow> Some (d, None)
           | Some b \<Rightarrow>
               (if bf_status b \<notin> {''pending'', ''running''} then Some (d, None)
                else let snap = jor (bf_config_snapshot b) (JObj []); ids = backfill_users snap;
                         missing = unavailable_users ids d in
                  if ids = []
                  then Some (put_backfill (b\<lparr>bf_status := ''completed'', bf_updated_at := now\<rparr>) d, Some 0)
                  else if missing \<noteq> [] \<or> get_ai_feature (backfill_feature snap) d = None
                  then Some (put_backfill (b\<lparr>bf_status := ''pending'', bf_updated_at := now,
                         bf_last_error := Some (if missing \<noteq> []
                           then Lit ''accounts are unavailable'' (map show_int missing)
                           else Lit ''the AI feature is unavailable'' [])\<rparr>) d, None)
                  else scan_backfill env resolve now n b snap task d)))"

definition backfill_candidates :: "db \<Rightarrow> (int \<times> int) list" where
  "backfill_candidates d =
     map (\<lambda>b. (bf_id b, bf_task_id b))
       (row_select (\<lambda>b. bf_status b \<in> {''pending'', ''running''} \<and>
          list_ex (\<lambda>t. lt_id t = bf_task_id b \<and> lt_desired_state t = ''enabled'' \<and>
            lt_queue_hold_reason t = None) (listen_tasks d))
        (\<lambda>b. (bf_updated_at b, bf_id b)) 32 (backfills d))"

fun try_candidates :: "ai_env \<Rightarrow> (int \<Rightarrow> task_selection option) \<Rightarrow> time \<Rightarrow> nat \<Rightarrow> (int \<times> int) list \<Rightarrow> db \<Rightarrow>
    (db \<times> nat) option" where
  "try_candidates env resolve now n [] d = Some (d, 0)"
| "try_candidates env resolve now n ((i, task) # cs) d =
     (case process_backfill_candidate env resolve now n i task d of
        None \<Rightarrow> None
      | Some (d1, Some k) \<Rightarrow> Some (d1, k)
      | Some (d1, None) \<Rightarrow> try_candidates env resolve now n cs d1)"

datatype backfill_error = BadBatchSize | SkillServiceDown

definition process_pending_backfills :: "ai_env \<Rightarrow> (int \<Rightarrow> task_selection option) \<Rightarrow> time \<Rightarrow> int \<Rightarrow> db \<Rightarrow>
    backfill_error + db \<times> nat" where
  "process_pending_backfills env resolve now n d =
     (if \<not> (1 \<le> n \<and> n \<le> 1000) then Inl BadBatchSize
      else case get_ai_setting now d of
        (d1, st) \<Rightarrow>
          (if \<not> st_enabled st \<or> \<not> st_auto_generate st then Inr (d1, 0)
           else case try_candidates env resolve now (nat n) (backfill_candidates d1) d1 of
             None \<Rightarrow> Inl SkillServiceDown
           | Some r \<Rightarrow> Inr r))"

subsection \<open>Ordered scans\<close>

text \<open>The posts that a request still has to scan.\<close>

definition remaining :: "task_backfill \<Rightarrow> json \<Rightarrow> db \<Rightarrow> tweet list" where
  "remaining b snap d = sort_key post_order (filter (in_backfill b snap) (tweets d))"

lemma scan_batch_remaining: "scan_batch b snap n d = take n (remaining b snap d)"
  by (simp add: scan_batch_def row_select_def remaining_def)

lemma sort_key_filter: "sort_key f (filter p xs) = filter p (sort_key f xs)"
  by (simp add: filter_sort)

lemma filter_after:
  assumes s: "sorted (map f xs)" and d: "distinct (map f xs)" and n: "n < length xs"
  shows "filter (\<lambda>x. f (xs ! n) < f x) xs = drop (Suc n) xs"
proof -
  have less: "f (xs ! i) < f (xs ! j)" if "i < j" "j < length xs" for i j
  proof -
    have "f (xs ! i) \<le> f (xs ! j)" using sorted_nth_mono[OF s, of i j] that by simp
    moreover have "f (xs ! i) \<noteq> f (xs ! j)"
      using nth_eq_iff_index_eq[OF d, of i j] that by simp
    ultimately show ?thesis by simp
  qed
  have a: "filter (\<lambda>x. f (xs ! n) < f x) (take (Suc n) xs) = []"
    unfolding filter_empty_conv
  proof
    fix x assume "x \<in> set (take (Suc n) xs)"
    then obtain i where "i \<le> n" "x = xs ! i" by (auto simp: in_set_conv_nth less_Suc_eq_le)
    then show "\<not> f (xs ! n) < f x" using less[of i n] n by (cases "i = n") auto
  qed
  have b: "filter (\<lambda>x. f (xs ! n) < f x) (drop (Suc n) xs) = drop (Suc n) xs"
  proof (rule filter_True)
    show "\<forall>x \<in> set (drop (Suc n) xs). f (xs ! n) < f x"
    proof
      fix x assume "x \<in> set (drop (Suc n) xs)"
      then obtain i where i: "i < length (drop (Suc n) xs)" "x = drop (Suc n) xs ! i"
        by (metis in_set_conv_nth)
      then show "f (xs ! n) < f x" using less[of n "Suc n + i"] n by simp
    qed
  qed
  have "filter (\<lambda>x. f (xs ! n) < f x) (take (Suc n) xs @ drop (Suc n) xs) = drop (Suc n) xs"
    by (simp only: filter_append a b append_Nil)
  then show ?thesis by (simp only: append_take_drop_id)
qed

lemma post_order_inj: "distinct (map tw_id xs) \<Longrightarrow> distinct (map post_order xs)"
  by (auto simp: distinct_map inj_on_def post_order_def)

lemma in_backfill_advanced:
  assumes "in_backfill b snap (last rows)"
  shows "in_backfill (advanced now rows m n b) snap t \<longleftrightarrow>
    in_backfill b snap t \<and> post_order (last rows) < post_order t"
  using assms
  by (auto simp: in_backfill_def after_cursor_def advanced_def post_order_def split: option.splits)

lemma remaining_advanced:
  assumes "distinct (map tw_id (tweets d))" and "rows = scan_batch b snap n d" and "rows \<noteq> []"
  shows "remaining (advanced now rows m n b) snap d = drop (length rows) (remaining b snap d)"
proof -
  let ?xs = "remaining b snap d" and ?k = "length rows - 1"
  have rows: "rows = take n ?xs" using assms(2) by (simp add: scan_batch_remaining)
  have len: "length rows = min n (length ?xs)" by (simp only: rows length_take min.commute)
  have pos: "0 < length rows" using assms(3) by blast
  have k: "?k < length ?xs" "Suc ?k = length rows" using len pos by linarith+
  have "last rows = rows ! ?k" by (rule last_conv_nth[OF assms(3)])
  then have l: "last rows = ?xs ! ?k" using len pos by (simp add: rows)
  have "last rows \<in> set ?xs" using k l by simp
  then have inb: "in_backfill b snap (last rows)" by (simp add: remaining_def)
  have pred: "in_backfill (advanced now rows m n b) snap =
      (\<lambda>t. in_backfill b snap t \<and> post_order (last rows) < post_order t)"
    by (rule ext) (rule in_backfill_advanced[OF inb])
  have "remaining (advanced now rows m n b) snap d =
      sort_key post_order (filter (\<lambda>t. post_order (last rows) < post_order t) (filter (in_backfill b snap) (tweets d)))"
    by (simp add: remaining_def pred conj_commute)
  also have "\<dots> = filter (\<lambda>t. post_order (?xs ! ?k) < post_order t) ?xs"
    by (simp add: sort_key_filter remaining_def l del: filter_filter)
  also have "\<dots> = drop (Suc ?k) ?xs"
  proof (rule filter_after[OF _ _ k(1)])
    show "sorted (map post_order ?xs)" by (simp add: remaining_def)
    have "distinct (map tw_id (filter (in_backfill b snap) (tweets d)))"
      using assms(1) by (rule distinct_map_filter)
    then have "distinct (map tw_id ?xs)"
      unfolding remaining_def by (simp add: distinct_map)
    then show "distinct (map post_order ?xs)" by (rule post_order_inj)
  qed
  finally show ?thesis using k by simp
qed

lemma scan_backfill_some:
  assumes "scan_backfill env resolve now n b snap task d = Some (d', Some k)"
  obtains d1 m t where "scan_batch b snap n d \<noteq> []" "k = length (scan_batch b snap n d)"
    "enqueue_listening_jobs env resolve now (map tw_id (scan_batch b snap n d)) (Some task)
       (Some (bf_from_at b, bf_to_at b)) (Some snap) d = Some (d1, m)"
    "row_get lt_id task (listen_tasks d1) = Some t" "\<not> nonempty (lt_queue_hold_reason t)"
    "backfills d' = row_put bf_id (advanced now (scan_batch b snap n d) m n b) (backfills d1)"
    "gen_jobs d' = gen_jobs d1" "tweets d' = tweets d1" "monitored_users d' = monitored_users d1"
proof -
  define rows where "rows = scan_batch b snap n d"
  from assms have ne: "rows \<noteq> []" by (auto simp: scan_backfill_def rows_def Let_def)
  with assms obtain d1 m where e: "enqueue_listening_jobs env resolve now (map tw_id rows) (Some task)
       (Some (bf_from_at b, bf_to_at b)) (Some snap) d = Some (d1, m)"
    by (auto simp: scan_backfill_def rows_def Let_def split: option.splits)
  from assms ne obtain t where t: "row_get lt_id task (listen_tasks d1) = Some t"
    unfolding scan_backfill_def rows_def[symmetric] Let_def e option.case prod.case
    by (cases "row_get lt_id task (listen_tasks d1)") auto
  have r: "\<not> nonempty (lt_queue_hold_reason t)" "k = length rows"
      "d' = add_event (scan_event task (advanced now rows m n b)
          (if bf_status (advanced now rows m n b) = ''running'' then ''backfill_batch'' else ''backfill_completed'')
          (Lit ''batch scanned'' [show_nat (length rows), show_nat m])) (put_backfill (advanced now rows m n b) d1)"
    using assms ne unfolding scan_backfill_def rows_def[symmetric] Let_def e option.case prod.case t
    by (auto split: if_splits)
  show thesis
    by (rule that[of d1 m t]) (use ne e t r in \<open>simp_all add: rows_def add_event_def put_backfill_def\<close>)
qed

lemma remaining_world: "same_world d d1 \<Longrightarrow> remaining b snap d1 = remaining b snap d"
  by (simp add: remaining_def same_world_def)

lemma candidate_cases:
  assumes "process_backfill_candidate env resolve now n i task d = Some (d', Some k)"
    and "bf_get i d = Some b" and "snap = jor (bf_config_snapshot b) (JObj [])"
  obtains (no_accounts) "backfill_users snap = []" "k = 0"
      "d' = put_backfill (b\<lparr>bf_status := ''completed'', bf_updated_at := now\<rparr>) d"
  | (scan) "unavailable_users (backfill_users snap) d = []"
      "scan_backfill env resolve now n b snap task d = Some (d', Some k)"
proof -
  from assms(1) obtain t where "row_get lt_id task (listen_tasks d) = Some t"
    by (auto simp: process_backfill_candidate_def split: option.splits)
  note eq = assms(1)[unfolded process_backfill_candidate_def this option.case assms(2) Let_def assms(3)[symmetric]]
  show thesis
  proof (cases "backfill_users snap = []")
    case True
    with eq show thesis by (intro no_accounts) (auto split: if_splits)
  next
    case False
    with eq show thesis by (intro scan) (auto split: if_splits)
  qed
qed

lemma bf_get_put: "bf_id b \<in> bf_id ` set (backfills d) \<Longrightarrow> bf_get (bf_id b) (put_backfill b d) = Some b"
  by (simp add: bf_get_def put_backfill_def row_get_put)

lemma backfill_users_empty: "backfill_users snap = [] \<Longrightarrow> remaining b snap d = []"
  by (simp add: remaining_def in_backfill_def)

text \<open>Enqueueing for one task that is ready covers every post the task takes.\<close>

lemma number_rows_keys: "(\<And>x i. key (f x i) = g x) \<Longrightarrow> key ` set (number_rows n f xs) = g ` set xs"
  by (induction n f xs rule: number_rows.induct) simp_all

lemma enabled_task_single:
  assumes "row_get lt_id task (listen_tasks d) = Some t" and "distinct (map lt_id (listen_tasks d))"
    and "lt_desired_state t = ''enabled''"
  shows "enabled_tasks (Some task) d = [t]"
proof -
  have t: "t \<in> set (listen_tasks d)" "lt_id t = task" using row_get_Some[OF assms(1)] by simp_all
  have "filter (\<lambda>x. lt_desired_state x = ''enabled'' \<and> lt_id t = lt_id x) xs = [t]"
    if "distinct (map lt_id xs)" "t \<in> set xs" for xs
    using that assms(3)
    by (induction xs) (auto simp: filter_empty_conv image_iff)
  from this[OF assms(2) t(1)] t(2) show ?thesis
    by (simp add: enabled_tasks_def del: filter.simps)
qed

lemma insert_jobs_tasks: "listen_tasks (fst (insert_jobs t b rows d)) = listen_tasks d"
  by (simp add: insert_jobs_def split: prod.splits)

lemma enqueue_task_covers:
  assumes "enqueue_task env resolve now st tws window (Some js) t d = Some (d1, m)"
    and "row_get lt_id (lt_id t) (listen_tasks d1) = Some t1" "\<not> nonempty (lt_queue_hold_reason t1)"
    and "t \<in> set (listen_tasks d)" and "distinct (map lt_id (listen_tasks d))"
    and "rc = backfill_config t js" "rc_skill_ids rc \<noteq> []" "length (rc_skills rc) = length (rc_skill_ids rc)"
    and "get_ai_feature (rc_feature_code rc) d \<noteq> None"
    and "tw \<in> set tws" and "takes_tweet t rc window True (legacy_keys js tws d)
      (row_get mu_id (tw_monitored_user_id tw) (monitored_users d))
      (find (\<lambda>s. sub_monitored_user_id s = tw_monitored_user_id tw)
         (filter (\<lambda>s. sub_task_id s = lt_id t) (subscriptions d))) tw"
  shows "listen_key (lt_id t) (tw_id tw) \<in> gj_idempotency_key ` set (gen_jobs d1)"
proof -
  obtain f where f: "get_ai_feature (rc_feature_code rc) d = Some f" using assms(9) by blast
  have t: "row_get lt_id (lt_id t) (listen_tasks d) = Some t"
    by (rule row_get_unique[OF assms(5,4)])
  have free: "\<not> nonempty (lt_queue_hold_reason t)"
  proof
    assume h: "nonempty (lt_queue_hold_reason t)"
    with assms(1) have "d1 = d" by (simp add: enqueue_task_def)
    with t assms(2,3) h show False by simp
  qed
  with assms(1) obtain sel where sel: "resolve (lt_id t) = Some sel"
    by (auto simp: enqueue_task_def split: option.splits)
  have valid: "ts_valid sel"
  proof (rule ccontr)
    assume "\<not> ts_valid sel"
    with assms(1) free sel have "d1 = hold_task ''skill_invalidated'' t d" by (simp add: enqueue_task_def)
    then have "row_get lt_id (lt_id t) (listen_tasks d1) = Some (t\<lparr>lt_queue_hold_reason := Some ''skill_invalidated''\<rparr>)"
      using assms(4) by (simp add: hold_task_def row_get_put)
    with assms(2,3) show False by auto
  qed
  define rows where "rows = number_rows (serial d)
    (\<lambda>tw i. listen_job env now i st t rc f (author_context_of env d tw) tw)
    (filter (\<lambda>tw. takes_tweet t rc window True (legacy_keys js tws d)
      (row_get mu_id (tw_monitored_user_id tw) (monitored_users d))
      (find (\<lambda>s. sub_monitored_user_id s = tw_monitored_user_id tw)
         (filter (\<lambda>s. sub_task_id s = lt_id t) (subscriptions d))) tw) tws)"
  have ins: "insert_jobs t (window \<noteq> None) rows d = (d1, m)"
    using assms(1) unfolding enqueue_task_def Let_def rows_def assms(6)
    using free sel valid assms(7,8) f by (simp add: assms(6))
  obtain jobs ks where ii: "insert_ignore gj_idempotency_key (gen_jobs d) rows = (jobs, ks)"
    by (cases "insert_ignore gj_idempotency_key (gen_jobs d) rows")
  with ins have "gen_jobs d1 = jobs" by (auto simp: insert_jobs_def)
  moreover have "gj_idempotency_key ` set rows = (\<lambda>tw. listen_key (lt_id t) (tw_id tw)) `
      set (filter (\<lambda>tw. takes_tweet t rc window True (legacy_keys js tws d)
      (row_get mu_id (tw_monitored_user_id tw) (monitored_users d))
      (find (\<lambda>s. sub_monitored_user_id s = tw_monitored_user_id tw)
         (filter (\<lambda>s. sub_task_id s = lt_id t) (subscriptions d))) tw) tws)"
    unfolding rows_def by (rule number_rows_keys) (simp add: listen_job_def)
  ultimately show ?thesis using insert_ignore_keys[OF ii] assms(10,11) by auto
qed

lemma scanned_taken:
  assumes "in_backfill b snap tw" and "unavailable_users (backfill_users snap) d = []"
    and "rc = backfill_config t snap" and "rc_mode rc = scan_mode snap"
    and "''auto:'' @ show_int (tw_id tw) \<notin> gj_idempotency_key ` set (gen_jobs d)"
  shows "takes_tweet t rc (Some (bf_from_at b, bf_to_at b)) True (legacy_keys snap tws d)
    (row_get mu_id (tw_monitored_user_id tw) (monitored_users d)) sub tw"
proof -
  have "tw_monitored_user_id tw \<in> set (backfill_users snap)" using assms(1) by (simp add: in_backfill_def)
  then obtain u where u: "row_get mu_id (tw_monitored_user_id tw) (monitored_users d) = Some u" "mu_is_active u"
    using assms(2) unfolding unavailable_users_def filter_empty_conv
    by (cases "row_get mu_id (tw_monitored_user_id tw) (monitored_users d)") (auto simp del: row_get_None)
  have "''auto:'' @ show_int (tw_id tw) \<notin> set (legacy_keys snap tws d)"
    using assms(5) by (auto simp: legacy_keys_def)
  with u assms(1,4) show ?thesis
    by (auto simp: takes_tweet_def in_backfill_def assms(3) backfill_config_def backfill_users_def)
qed

subsection \<open>Sample request\<close>

definition sample_snapshot :: json where
  "sample_snapshot = JObj [(''monitored_user_ids'', JList [JInt 1]), (''skill_ids'', JList [JInt 8]),
     (''skills'', JList [skill_snapshot sample_skill]), (''listen_mode'', JStr ''original''),
     (''feature_code'', JStr ''article_generation'')]"

definition sample_backfill :: task_backfill where
  "sample_backfill = \<lparr>bf_id = 21, bf_task_id = 9, bf_request_id = ''r'', bf_from_at = 50, bf_to_at = 150,
     bf_config_snapshot = sample_snapshot, bf_status = ''pending'', bf_cursor_posted_at = None,
     bf_cursor_tweet_id = None, bf_scanned_count = 0, bf_enqueued_count = 0, bf_last_error = None,
     bf_created_at = 0, bf_updated_at = 0\<rparr>"

definition sample_backfill_db :: db where
  "sample_backfill_db = sample_ai_db\<lparr>backfills := [sample_backfill]\<rparr>"

definition sample_step :: "(db \<times> nat option) option" where
  "sample_step = process_backfill_candidate sample_ai_env (\<lambda>_. Some sample_selection) 500 10 21 9 sample_backfill_db"

lemma sample_backfill_tables:
  "tweets sample_backfill_db = [sample_tweet]" "monitored_users sample_backfill_db = [sample_user]"
  "subscriptions sample_backfill_db = []" "gen_jobs sample_backfill_db = []"
  "listen_tasks sample_backfill_db = [sample_task]" "backfills sample_backfill_db = [sample_backfill]"
  "ai_features sample_backfill_db = [sample_feature]"
  "get_ai_setting 500 sample_backfill_db = (sample_backfill_db, (default_ai_setting 0)\<lparr>st_enabled := True\<rparr>)"
  by (simp_all add: sample_backfill_db_def sample_ai_db_def sample_db_def empty_db_def get_ai_setting_def
      row_get_def default_ai_setting_def)

lemma sample_snapshot_facts:
  "backfill_users sample_snapshot = [1]" "scan_mode sample_snapshot = ''original''"
  "backfill_feature sample_snapshot = ''article_generation''"
  "jor sample_snapshot (JObj []) = sample_snapshot"
  "rc_skill_ids (backfill_config sample_task sample_snapshot) = [8]"
  "length (rc_skills (backfill_config sample_task sample_snapshot)) = 1"
  "rc_mode (backfill_config sample_task sample_snapshot) = ''original''"
  "rc_feature_code (backfill_config sample_task sample_snapshot) = ''article_generation''"
  by (simp_all add: sample_snapshot_def backfill_users_def scan_mode_def backfill_feature_def jlist_of_def
      jor_def backfill_config_def jstr_of_def)

lemma sample_remaining: "remaining sample_backfill sample_snapshot sample_backfill_db = [sample_tweet]"
  by (simp add: remaining_def sample_backfill_tables in_backfill_def sample_snapshot_facts
      sample_backfill_def sample_tweet_def after_cursor_def)

lemma sample_step_scans: "\<exists>d'. sample_step = Some (d', Some 1)"
proof -
  have task: "row_get lt_id 9 [sample_task] = Some sample_task" by (simp add: row_get_def sample_task_def)
  have feature: "get_ai_feature ''article_generation'' sample_backfill_db = Some sample_feature"
    by (simp add: get_ai_feature_def sample_backfill_tables sample_feature_def)
  have req: "bf_get 21 sample_backfill_db = Some sample_backfill"
    by (simp add: bf_get_def sample_backfill_tables row_get_def sample_backfill_def)
  have avail: "unavailable_users [1] sample_backfill_db = []"
    by (simp add: unavailable_users_def sample_backfill_tables row_get_def sample_user_def)
  have fields: "bf_status sample_backfill = ''pending''" "bf_config_snapshot sample_backfill = sample_snapshot"
      "lt_desired_state sample_task = ''enabled''" "lt_queue_hold_reason sample_task = None"
      "st_enabled ((default_ai_setting 0)\<lparr>st_enabled := True\<rparr>)" "tw_id sample_tweet = 5"
      "st_auto_generate ((default_ai_setting 0)\<lparr>st_enabled := True\<rparr>)" "ts_valid sample_selection"
    by (simp_all add: sample_backfill_def sample_task_def default_ai_setting_def sample_tweet_def
        sample_selection_def)
  have batch: "scan_batch sample_backfill sample_snapshot 10 sample_backfill_db = [sample_tweet]"
    by (simp add: scan_batch_remaining sample_remaining)
  have tasks: "enabled_tasks (Some 9) sample_backfill_db = [sample_task]"
    by (rule enabled_task_single) (simp_all add: sample_backfill_tables task fields)
  have "\<exists>rows. enqueue_task sample_ai_env (\<lambda>_. Some sample_selection) 500
      ((default_ai_setting 0)\<lparr>st_enabled := True\<rparr>) [sample_tweet] (Some (50, 150)) (Some sample_snapshot)
      sample_task sample_backfill_db = Some (insert_jobs sample_task True rows sample_backfill_db)"
    unfolding enqueue_task_def Let_def
    by (simp add: fields sample_snapshot_facts feature del: filter.simps) (rule exI, rule HOL.refl)
  then obtain rows where ins: "enqueue_task sample_ai_env (\<lambda>_. Some sample_selection) 500
      ((default_ai_setting 0)\<lparr>st_enabled := True\<rparr>) [sample_tweet] (Some (50, 150)) (Some sample_snapshot)
      sample_task sample_backfill_db = Some (insert_jobs sample_task True rows sample_backfill_db)" by blast
  obtain d1 m where dm: "insert_jobs sample_task True rows sample_backfill_db = (d1, m)" by fastforce
  with insert_jobs_tasks[of sample_task True rows sample_backfill_db] ins
  have one: "enqueue_task sample_ai_env (\<lambda>_. Some sample_selection) 500
      ((default_ai_setting 0)\<lparr>st_enabled := True\<rparr>) [sample_tweet] (Some (50, 150)) (Some sample_snapshot)
      sample_task sample_backfill_db = Some (d1, m)" "listen_tasks d1 = [sample_task]"
    by (simp_all add: sample_backfill_tables)
  have "enqueue_listening_jobs sample_ai_env (\<lambda>_. Some sample_selection) 500 [5] (Some 9) (Some (50, 150))
      (Some sample_snapshot) sample_backfill_db = Some (d1, m)"
    by (simp add: enqueue_listening_jobs_def sample_backfill_tables fields tasks Let_def one(1))
  moreover have "bf_from_at sample_backfill = 50" "bf_to_at sample_backfill = 150"
    by (simp_all add: sample_backfill_def)
  ultimately show ?thesis
    unfolding sample_step_def process_backfill_candidate_def Let_def
    by (simp add: sample_backfill_tables task fields req sample_snapshot_facts avail feature
        scan_backfill_def batch one(2) Let_def)
qed

subsection \<open>Properties\<close>

text \<open>
  C24: A backfill neither skips nor repeats a post. A committed batch of a request
  leaves exactly the posts behind the ones it scanned, in their order, counts them, and
  the request is completed exactly when the batch was not full; a batch that
  answers with a number scans at least one post unless the request names no account.
\<close>

theorem backfill_progress:
  assumes "process_backfill_candidate env resolve now n i task d = Some (d', Some k)"
    and "bf_get i d = Some b" and "snap = jor (bf_config_snapshot b) (JObj [])" and "0 < n"
    and "distinct (map tw_id (tweets d))"
  shows "\<exists>b'. bf_get i d' = Some b' \<and> remaining b' snap d' = drop k (remaining b snap d) \<and>
    k = min n (length (remaining b snap d)) \<and> bf_scanned_count b' = bf_scanned_count b + int k \<and>
    bf_status b' = (if k = n then ''running'' else ''completed'') \<and> (0 < k \<or> backfill_users snap = [])"
proof -
  have b: "bf_id b = i" "i \<in> bf_id ` set (backfills d)"
    using row_get_Some[OF assms(2)[unfolded bf_get_def]] by auto
  from assms(1-3) show ?thesis
  proof (cases rule: candidate_cases)
    case no_accounts
    let ?b = "b\<lparr>bf_status := ''completed'', bf_updated_at := now\<rparr>"
    have "bf_get i d' = Some ?b" using bf_get_put[of ?b d] b no_accounts(3) by simp
    with no_accounts(1,2) assms(4) show ?thesis by (simp add: backfill_users_empty)
  next
    case scan
    from scan(2) show ?thesis
    proof (cases rule: scan_backfill_some)
      case (1 d1 m t)
      let ?rows = "scan_batch b snap n d" let ?b = "advanced now ?rows m n b"
      have w: "same_world d d1" using enqueue_listening_adds[OF 1(3)] by simp
      have id: "bf_id ?b = i" using b by (simp add: advanced_def)
      have "bf_get i d' = Some ?b"
        using b id w by (simp add: bf_get_def 1(6) row_get_put same_world_def)
      moreover have "remaining ?b snap d' = drop k (remaining b snap d)"
        using remaining_advanced[OF assms(5) HOL.refl 1(1), where now = now and m = m] w
        by (simp add: remaining_def 1(2,8) same_world_def)
      moreover have "k = min n (length (remaining b snap d))"
        by (simp add: 1(2) scan_batch_remaining min.commute)
      moreover have "0 < k" using 1(1,2) by simp
      ultimately show ?thesis by (auto simp: advanced_def 1(2))
    qed
  qed
qed

theorem backfill_progress_witness:
  "\<exists>d' b'. sample_step = Some (d', Some 1) \<and> bf_get 21 d' = Some b' \<and> bf_status b' = ''completed'' \<and>
     remaining b' sample_snapshot d' = []"
proof -
  obtain d' where d': "sample_step = Some (d', Some 1)" using sample_step_scans by blast
  have "bf_get 21 sample_backfill_db = Some sample_backfill"
    by (simp add: bf_get_def sample_backfill_tables row_get_def sample_backfill_def)
  from backfill_progress[OF d'[unfolded sample_step_def] this HOL.refl] d' sample_remaining show ?thesis
    by (intro exI[of _ d'])
      (auto simp: sample_backfill_tables sample_snapshot_facts
        sample_backfill_def[THEN arg_cong[of _ _ bf_config_snapshot]])
qed

text \<open>
  C23: A scanned post has its job. When a batch of an enabled task commits, each post of
  the batch that the earlier scheme had not generated already has a job under the key of
  the task and the post, so a moved cursor never loses a post. The frozen
  configuration is to carry its skills, its mode and an available feature, and the AI
  settings allow automatic generation.
\<close>

theorem backfill_covers:
  assumes "process_backfill_candidate env resolve now n i task d = Some (d', Some k)"
    and "bf_get i d = Some b" and "snap = jor (bf_config_snapshot b) (JObj [])"
    and "get_ai_setting now d = (d, st)" and "st_enabled st" and "st_auto_generate st"
    and "row_get lt_id task (listen_tasks d) = Some t" and "lt_desired_state t = ''enabled''"
    and "distinct (map lt_id (listen_tasks d))"
    and "rc = backfill_config t snap" and "rc_skill_ids rc \<noteq> []"
    and "length (rc_skills rc) = length (rc_skill_ids rc)"
    and "get_ai_feature (rc_feature_code rc) d \<noteq> None" and "rc_mode rc = scan_mode snap"
    and "tw \<in> set (take n (remaining b snap d))"
    and "''auto:'' @ show_int (tw_id tw) \<notin> gj_idempotency_key ` set (gen_jobs d)"
  shows "listen_key task (tw_id tw) \<in> gj_idempotency_key ` set (gen_jobs d')"
proof -
  have tw: "tw \<in> set (scan_batch b snap n d)" using assms(15) by (simp add: scan_batch_remaining)
  then have inb: "in_backfill b snap tw" "tw \<in> set (tweets d)"
    by (auto simp: scan_batch_def dest: row_select_mem)
  from assms(1-3) show ?thesis
  proof (cases rule: candidate_cases)
    case no_accounts
    with assms(15) show ?thesis by (simp add: backfill_users_empty)
  next
    case scan
    from scan(2) show ?thesis
    proof (cases rule: scan_backfill_some)
      case (1 d1 m t1)
      let ?ids = "map tw_id (scan_batch b snap n d)"
      let ?tws = "filter (\<lambda>t. tw_id t \<in> set ?ids) (tweets d)" and ?win = "Some (bf_from_at b, bf_to_at b)"
      have mem: "tw \<in> set ?tws" using inb(2) tw by simp
      then have ne: "?tws \<noteq> []" by (metis empty_iff list.set(1))
      have t: "t \<in> set (listen_tasks d)" "lt_id t = task" using row_get_Some[OF assms(7)] by simp_all
      have "enqueue_tasks env resolve now st ?tws ?win (Some snap) [t] d = Some (d1, m)"
        using 1(1,3) ne
        unfolding enqueue_listening_jobs_def assms(4) prod.case enabled_task_single[OF assms(7,9,8)] Let_def
        by (simp only: map_is_Nil_conv assms(5,6) if_False simp_thms)
      then have "enqueue_task env resolve now st ?tws ?win (Some snap) t d = Some (d1, m)"
        by (auto split: option.splits)
      from enqueue_task_covers[OF this _ 1(5) t(1) assms(9,10,11,12,13) mem] t(2) 1(4)
        scanned_taken[OF inb(1) scan(1) assms(10,14,16)]
      show ?thesis by (simp add: 1(7))
    qed
  qed
qed

theorem backfill_covers_witness:
  "\<exists>d'. sample_step = Some (d', Some 1) \<and> listen_key 9 5 \<in> gj_idempotency_key ` set (gen_jobs d')"
proof -
  obtain d' where d': "sample_step = Some (d', Some 1)" using sample_step_scans by blast
  have req: "bf_get 21 sample_backfill_db = Some sample_backfill"
    by (simp add: bf_get_def sample_backfill_tables row_get_def sample_backfill_def)
  have snap: "sample_snapshot = jor (bf_config_snapshot sample_backfill) (JObj [])"
    using sample_snapshot_facts(4) by (simp add: sample_backfill_def)
  have task: "row_get lt_id 9 (listen_tasks sample_backfill_db) = Some sample_task"
      "lt_desired_state sample_task = ''enabled''" "distinct (map lt_id (listen_tasks sample_backfill_db))"
    by (simp_all add: sample_backfill_tables row_get_def sample_task_def)
  have feature: "get_ai_feature ''article_generation'' sample_backfill_db \<noteq> None"
    by (simp add: get_ai_feature_def sample_backfill_tables sample_feature_def)
  have setting: "st_enabled ((default_ai_setting 0)\<lparr>st_enabled := True\<rparr>)"
      "st_auto_generate ((default_ai_setting 0)\<lparr>st_enabled := True\<rparr>)"
    by (simp_all add: default_ai_setting_def)
  have tw: "sample_tweet \<in> set (take 10 (remaining sample_backfill sample_snapshot sample_backfill_db))"
      "''auto:'' @ show_int (tw_id sample_tweet) \<notin> gj_idempotency_key ` set (gen_jobs sample_backfill_db)"
      "tw_id sample_tweet = 5"
    by (simp_all add: sample_remaining sample_backfill_tables sample_tweet_def)
  from backfill_covers[OF d'[unfolded sample_step_def] req snap sample_backfill_tables(8) setting task HOL.refl
      _ _ _ _ tw(1,2)] d' feature tw(3)
  show ?thesis by (intro exI[of _ d']) (simp add: sample_snapshot_facts)
qed

end
