(* ===== verification/ListenTasks.thy ===== *)
theory ListenTasks
  imports Skills Backfill
begin

text \<open>
  The listening tasks an administrator configures, \<open>backend/app/skills/listening.py\<close>,
  \<open>skills/listening_routes.py\<close> and \<open>skills/backfill.py\<close>: the checks of a selection, the
  states of a task (enabled, paused, archived, held), the request of a backfill with the
  configuration it freezes, and the condition and preview a task is shown with.
\<close>

subsection \<open>Rows\<close>

definition task_get :: "int \<Rightarrow> db \<Rightarrow> listen_task option" where
  "task_get i d = row_get lt_id i (listen_tasks d)"

definition put_task :: "listen_task \<Rightarrow> db \<Rightarrow> db" where
  "put_task t d = d\<lparr>listen_tasks := row_put lt_id t (listen_tasks d)\<rparr>"

definition task_subs :: "int \<Rightarrow> db \<Rightarrow> task_subscription list" where
  "task_subs i d = filter (\<lambda>s. sub_task_id s = i) (subscriptions d)"

definition task_links :: "int \<Rightarrow> db \<Rightarrow> task_skill list" where
  "task_links i d = sort_key lk_priority (filter (\<lambda>l. lk_task_id l = i) (task_skills d))"

definition task_note :: "int \<Rightarrow> string \<Rightarrow> msg \<Rightarrow> (string \<times> json) list \<Rightarrow> task_event" where
  "task_note i kind summary details =
     \<lparr>ev_task_id = i, ev_event_type = kind, ev_job_id = None, ev_backfill_id = None, ev_summary = summary,
      ev_details = (if details = [] then JNull else JObj details)\<rparr>"

subsection \<open>Selections\<close>

definition validate_qq_publish_target :: "string list \<Rightarrow> int option \<Rightarrow> string list \<Rightarrow> db \<Rightarrow> api_error option" where
  "validate_qq_publish_target channels bot_id groups d =
     (if ''qq'' \<notin> set channels then None
      else case bot_id of
        None \<Rightarrow> Some (Unprocessable ''qq_target_required'')
      | Some b \<Rightarrow>
          (if groups = [] then Some (Unprocessable ''qq_target_required'')
           else case row_get qb_id b (qq_bots d) of
             None \<Rightarrow> Some (Unprocessable ''qq_bot_disabled'')
           | Some x \<Rightarrow>
               (if \<not> qb_is_enabled x then Some (Unprocessable ''qq_bot_disabled'')
                else if list_all (\<lambda>g. list_ex (\<lambda>q. qg_bot_id q = b \<and> qg_app_id q = qb_app_id x \<and> qg_is_joined q \<and>
                          qg_group_openid q = g) (qq_groups d)) groups
                then None else Some (Unprocessable ''qq_group_not_joined''))))"

definition selected_users :: "int list \<Rightarrow> db \<Rightarrow> monitored_user list" where
  "selected_users ids d = sort_key mu_id (filter (\<lambda>u. mu_id u \<in> set ids) (monitored_users d))"

definition validate_selection :: "(json \<Rightarrow> string option) \<Rightarrow> bool \<Rightarrow> int list \<Rightarrow> int list \<Rightarrow> db \<Rightarrow>
    api_error + monitored_user list \<times> int list" where
  "validate_selection read all_users users skills d =
     (let us = selected_users users d; found = active_skills skills d in
      if \<not> all_users \<and> users = [] then Inl (Unprocessable ''monitored_users_required'')
      else if length us \<noteq> length users \<or> list_ex (\<lambda>u. mu_archived_at u \<noteq> None) us
      then Inl (Unprocessable ''invalid_monitored_user_ids'')
      else if length found \<noteq> length skills then Inl (Unprocessable ''invalid_skill_ids'')
      else if list_ex (\<lambda>s. ak_source_type s = ''github'' \<and> read (ak_source_metadata s) = None) found
      then Inl (Unavailable ''skill_package_unavailable'')
      else Inr (us, skills))"

definition active_all_user_ids :: "db \<Rightarrow> int list" where
  "active_all_user_ids d =
     map mu_id (filter (\<lambda>u. mu_is_active u \<and> mu_archived_at u = None) (monitored_users d))"

subsection \<open>Requesting a backfill\<close>

record listen_env =
  le_isoformat :: "time \<Rightarrow> string"
  le_read :: "json \<Rightarrow> string option"
  le_fresh :: string

text \<open>The configuration of the task as it is now; \<open>None\<close> when the text of a package is unavailable.\<close>

definition link_material :: "listen_env \<Rightarrow> db \<Rightarrow> task_skill \<Rightarrow> json option" where
  "link_material env d l =
     Option.bind (row_get ak_id (lk_skill_id l) (ai_skills d))
       (\<lambda>s. map_option skill_snapshot (resolved_skill (le_read env) s))"

definition backfill_snapshot :: "listen_env \<Rightarrow> listen_task \<Rightarrow> bool \<Rightarrow> int list option \<Rightarrow> db \<Rightarrow> json option" where
  "backfill_snapshot env t exclude all_ids d =
     (let subs = task_subs (lt_id t) d; links = task_links (lt_id t) d; ms = map (link_material env d) links in
      if None \<in> set ms then None
      else Some (JObj
        [(''config_version'', JInt (lt_config_version t)), (''owner_admin_id'', jint_opt (lt_owner_admin_id t)),
         (''all_monitored_users'', JBool (lt_all_monitored_users t)),
         (''monitored_user_ids'', JList (map JInt
            (if lt_all_monitored_users t \<and> all_ids \<noteq> None then the all_ids else map sub_monitored_user_id subs))),
         (''subscriptions'', JList (map (\<lambda>s. JObj
            [(''monitored_user_id'', JInt (sub_monitored_user_id s)),
             (''effective_from'', jstr_opt (map_option (le_isoformat env) (sub_effective_from s)))]) subs)),
         (''listen_mode'', JStr (lt_listen_mode t)),
         (''auto_publish_channels'', JList (map JStr (lt_auto_publish_channels t))),
         (''qq_bot_id'', jint_opt (lt_qq_bot_id t)), (''qq_group_openids'', JList (map JStr (lt_qq_group_openids t))),
         (''skill_ids'', JList (map (JInt \<circ> lk_skill_id) links)), (''skills'', JList (map the ms)),
         (''feature_code'', JStr (lt_feature_code t)),
         (''max_attempts_override'', jint_opt (lt_max_attempts_override t)),
         (''language_override'', jstr_opt (lt_language_override t)), (''tone_override'', jstr_opt (lt_tone_override t)),
         (''max_output_tokens_override'', jint_opt (lt_max_output_tokens_override t)),
         (''exclude_legacy_generated'', JBool exclude)]))"

datatype request_error = BadWindow | RequestConflict | PackageMissing

definition new_backfill :: "time \<Rightarrow> int \<Rightarrow> int \<Rightarrow> string \<Rightarrow> time \<Rightarrow> time \<Rightarrow> json \<Rightarrow> task_backfill" where
  "new_backfill now i task req from_at to_at snap =
     \<lparr>bf_id = i, bf_task_id = task, bf_request_id = req, bf_from_at = from_at, bf_to_at = to_at,
      bf_config_snapshot = snap, bf_status = ''pending'', bf_cursor_posted_at = None, bf_cursor_tweet_id = None,
      bf_scanned_count = 0, bf_enqueued_count = 0, bf_last_error = None, bf_created_at = now, bf_updated_at = now\<rparr>"

definition requested_event :: "listen_env \<Rightarrow> task_backfill \<Rightarrow> task_event" where
  "requested_event env b =
     (task_note (bf_task_id b) ''backfill_requested'' (Lit ''history backfill requested'' [])
        [(''from_at'', JStr (le_isoformat env (bf_from_at b))), (''to_at'', JStr (le_isoformat env (bf_to_at b)))])
       \<lparr>ev_backfill_id := Some (bf_id b)\<rparr>"

definition enqueue_backfill_request :: "listen_env \<Rightarrow> time \<Rightarrow> listen_task \<Rightarrow> time \<Rightarrow> time \<Rightarrow> string option \<Rightarrow> bool \<Rightarrow>
    int list option \<Rightarrow> db \<Rightarrow> request_error + db \<times> task_backfill" where
  "enqueue_backfill_request env now t from_at to_at request exclude all_ids d =
     (if to_at \<le> from_at then Inl BadWindow
      else let req = (if nonempty request then the request else le_fresh env) in
        case find (\<lambda>b. bf_task_id b = lt_id t \<and> bf_request_id b = req) (backfills d) of
          Some b \<Rightarrow> (if bf_from_at b \<noteq> from_at \<or> bf_to_at b \<noteq> to_at then Inl RequestConflict else Inr (d, b))
        | None \<Rightarrow>
            (case backfill_snapshot env t exclude all_ids d of
               None \<Rightarrow> Inl PackageMissing
             | Some snap \<Rightarrow>
                 (let b = new_backfill now (serial d) (lt_id t) req from_at to_at snap in
                  Inr (d\<lparr>backfills := backfills d @ [b], serial := serial d + 1,
                         task_events := task_events d @ [requested_event env b]\<rparr>, b))))"

subsection \<open>Activation and creation\<close>

definition initial_window :: "listen_task \<Rightarrow> time \<Rightarrow> (time \<times> time) option" where
  "initial_window t start =
     (if lt_initial_sync_days t \<le> 0 then None else Some (start - secs (86400 * lt_initial_sync_days t), start))"

definition activated_task :: "time \<Rightarrow> listen_task \<Rightarrow> listen_task" where
  "activated_task now t =
     (let t1 = (if lt_activated_at t \<noteq> None then t
          else let t0 = t\<lparr>lt_activated_at := Some now\<rparr> in
            case initial_window t now of
              None \<Rightarrow> t0
            | Some (a, b) \<Rightarrow> t0\<lparr>lt_initial_backfill_from := Some a, lt_initial_backfill_to := Some b\<rparr>)
      in t1\<lparr>lt_desired_state := ''enabled'', lt_effective_from := Some now\<rparr>)"

definition start_subs :: "time \<Rightarrow> int \<Rightarrow> db \<Rightarrow> db" where
  "start_subs now i d =
     d\<lparr>subscriptions := row_update (\<lambda>s. sub_task_id s = i \<and> sub_effective_from s = None)
        (\<lambda>s. s\<lparr>sub_effective_from := Some now\<rparr>) (subscriptions d)\<rparr>"

text \<open>A failure of the backfill of the first activation aborts the transaction.\<close>

definition initial_backfill :: "listen_env \<Rightarrow> time \<Rightarrow> bool \<Rightarrow> listen_task \<Rightarrow> db \<Rightarrow> request_error + db" where
  "initial_backfill env now first t d =
     (case (first, lt_initial_backfill_from t, lt_initial_backfill_to t) of
        (True, Some a, Some b) \<Rightarrow>
          (case enqueue_backfill_request env now t a b (Some ''initial'') True
              (if lt_all_monitored_users t then Some (active_all_user_ids d) else None) d of
             Inl e \<Rightarrow> Inl e
           | Inr (d', _) \<Rightarrow> Inr d')
      | _ \<Rightarrow> Inr d)"

definition activate :: "listen_env \<Rightarrow> time \<Rightarrow> listen_task \<Rightarrow> db \<Rightarrow> request_error + db" where
  "activate env now t d =
     (let first = (lt_activated_at t = None); t' = activated_task now t;
          d1 = start_subs now (lt_id t) (put_task t' d) in
      case initial_backfill env now first t' d1 of
        Inl e \<Rightarrow> Inl e
      | Inr d2 \<Rightarrow>
          Inr (add_event (task_note (lt_id t) (if first then ''activated'' else ''resumed'')
                 (Lit ''listening task enabled'' []) []) d2))"

record task_create =
  tc_name :: string
  tc_desired_state :: string
  tc_all_monitored_users :: bool
  tc_monitored_user_ids :: "int list"
  tc_listen_mode :: string
  tc_skill_ids :: "int list"
  tc_auto_publish_channels :: "string list"
  tc_qq_bot_id :: "int option"
  tc_qq_group_openids :: "string list"
  tc_initial_sync_days :: int
  tc_max_attempts_override :: "int option"
  tc_language_override :: "string option"
  tc_tone_override :: "string option"
  tc_max_output_tokens_override :: "int option"

definition in_range :: "int \<Rightarrow> int \<Rightarrow> int option \<Rightarrow> bool" where
  "in_range lo hi v = (case v of None \<Rightarrow> True | Some n \<Rightarrow> lo \<le> n \<and> n \<le> hi)"

definition length_in :: "nat \<Rightarrow> nat \<Rightarrow> string option \<Rightarrow> bool" where
  "length_in lo hi v = (case v of None \<Rightarrow> True | Some s \<Rightarrow> lo \<le> length s \<and> length s \<le> hi)"

text \<open>\<open>AIListenTaskCreate\<close> accepts these values; the name and the groups are already stripped.\<close>

definition task_create_ok :: "task_create \<Rightarrow> bool" where
  "task_create_ok p \<longleftrightarrow>
     1 \<le> length (tc_name p) \<and> length (tc_name p) \<le> 100 \<and> strip (tc_name p) \<noteq> [] \<and>
     tc_desired_state p \<in> {''enabled'', ''paused''} \<and> tc_listen_mode p \<in> {''all'', ''original'', ''reply'', ''retweet''} \<and>
     length (tc_monitored_user_ids p) \<le> 500 \<and> (tc_all_monitored_users p \<or> tc_monitored_user_ids p \<noteq> []) \<and>
     distinct (tc_monitored_user_ids p) \<and> list_all (\<lambda>i. 0 < i) (tc_monitored_user_ids p) \<and>
     1 \<le> length (tc_skill_ids p) \<and> length (tc_skill_ids p) \<le> 20 \<and> distinct (tc_skill_ids p) \<and>
     list_all (\<lambda>i. 0 < i) (tc_skill_ids p) \<and>
     distinct (tc_auto_publish_channels p) \<and> list_all (\<lambda>c. c \<in> {''xhs'', ''qq''}) (tc_auto_publish_channels p) \<and>
     (case tc_qq_bot_id p of None \<Rightarrow> True | Some b \<Rightarrow> 0 < b) \<and>
     length (tc_qq_group_openids p) \<le> 100 \<and> distinct (tc_qq_group_openids p) \<and>
     list_all (\<lambda>g. strip g \<noteq> []) (tc_qq_group_openids p) \<and>
     (''qq'' \<in> set (tc_auto_publish_channels p) \<longrightarrow> tc_qq_bot_id p \<noteq> None \<and> tc_qq_group_openids p \<noteq> []) \<and>
     0 \<le> tc_initial_sync_days p \<and> tc_initial_sync_days p \<le> 365 \<and>
     in_range 1 10 (tc_max_attempts_override p) \<and> length_in 1 32 (tc_language_override p) \<and>
     length_in 1 64 (tc_tone_override p) \<and> in_range 128 100000 (tc_max_output_tokens_override p)"

definition new_task :: "time \<Rightarrow> int \<Rightarrow> int option \<Rightarrow> task_create \<Rightarrow> listen_task" where
  "new_task now i owner p =
     \<lparr>lt_id = i, lt_owner_admin_id = owner, lt_name = tc_name p, lt_desired_state = ''paused'',
      lt_queue_hold_reason = None, lt_all_monitored_users = tc_all_monitored_users p, lt_listen_mode = tc_listen_mode p,
      lt_auto_publish_channels = tc_auto_publish_channels p, lt_qq_bot_id = tc_qq_bot_id p,
      lt_qq_group_openids = tc_qq_group_openids p, lt_feature_code = ''article_generation'', lt_config_version = 1,
      lt_activated_at = None, lt_effective_from = None, lt_initial_sync_days = tc_initial_sync_days p,
      lt_initial_backfill_from = None, lt_initial_backfill_to = None, lt_archived_at = None,
      lt_max_attempts_override = tc_max_attempts_override p, lt_language_override = tc_language_override p,
      lt_tone_override = tc_tone_override p, lt_max_output_tokens_override = tc_max_output_tokens_override p,
      lt_created_at = now, lt_updated_at = now\<rparr>"

definition new_sub :: "time \<Rightarrow> time option \<Rightarrow> int \<Rightarrow> int \<Rightarrow> int \<Rightarrow> task_subscription" where
  "new_sub now from_at task user i =
     \<lparr>sub_id = i, sub_task_id = task, sub_monitored_user_id = user, sub_effective_from = from_at, sub_created_at = now\<rparr>"

definition new_link :: "int \<Rightarrow> int \<Rightarrow> int \<Rightarrow> int \<Rightarrow> task_skill" where
  "new_link i task skill priority = \<lparr>lk_id = i, lk_task_id = task, lk_skill_id = skill, lk_priority = priority\<rparr>"

fun number_links :: "int \<Rightarrow> int \<Rightarrow> int \<Rightarrow> int list \<Rightarrow> task_skill list" where
  "number_links i task priority [] = []"
| "number_links i task priority (s # ss) = new_link i task s priority # number_links (i + 1) task (priority + 1) ss"

definition insert_task :: "time \<Rightarrow> int option \<Rightarrow> task_create \<Rightarrow> monitored_user list \<Rightarrow> int list \<Rightarrow> db \<Rightarrow> db \<times> listen_task" where
  "insert_task now owner p users skills d =
     (let i = serial d; n = i + 1; m = n + int (length users); t = new_task now i owner p in
      (d\<lparr>listen_tasks := listen_tasks d @ [t],
         subscriptions := subscriptions d @ number_rows n (\<lambda>u k. new_sub now None i (mu_id u) k) users,
         task_skills := task_skills d @ number_links m i 1 skills,
         serial := m + int (length skills)\<rparr>, t))"

definition request_api_error :: "request_error \<Rightarrow> api_error" where
  "request_api_error e =
     (case e of
        BadWindow \<Rightarrow> ServerError ''invalid_backfill_window''
      | RequestConflict \<Rightarrow> ServerError ''backfill_request_conflict''
      | PackageMissing \<Rightarrow> Unavailable ''skill_package_unavailable'')"

definition create_task :: "listen_env \<Rightarrow> time \<Rightarrow> int option \<Rightarrow> int option \<Rightarrow> task_create \<Rightarrow> db \<Rightarrow> api_error + db \<times> int" where
  "create_task env now owner copied_from p d =
     (let d0 = fst (get_ai_setting now d) in
      case validate_selection (le_read env) (tc_all_monitored_users p) (tc_monitored_user_ids p) (tc_skill_ids p) d0 of
        Inl e \<Rightarrow> Inl e
      | Inr (users, skills) \<Rightarrow>
          (case validate_qq_publish_target (tc_auto_publish_channels p) (tc_qq_bot_id p) (tc_qq_group_openids p) d0 of
             Some e \<Rightarrow> Inl e
           | None \<Rightarrow>
               (case insert_task now owner p users skills d0 of
                  (d1, t) \<Rightarrow>
                    (let d2 = add_event (task_note (lt_id t) ''created'' (Lit ''listening task created'' [])
                           [(''copied_from'', jint_opt copied_from)]) d1 in
                     if tc_desired_state p \<noteq> ''enabled'' then Inr (d2, lt_id t)
                     else case activate env now t d2 of
                       Inl e \<Rightarrow> Inl (request_api_error e)
                     | Inr d3 \<Rightarrow> Inr (d3, lt_id t)))))"

subsection \<open>Changing a task\<close>

definition owner_error :: "int \<Rightarrow> listen_task \<Rightarrow> api_error option" where
  "owner_error admin t =
     (if lt_owner_admin_id t \<noteq> None \<and> lt_owner_admin_id t \<noteq> Some admin
      then Some (Forbidden ''ai_listen_task_owner_required'') else None)"

text \<open>\<open>get_task\<close> and \<open>_require_task_owner\<close>, which most routes begin with.\<close>

definition owned_task :: "int \<Rightarrow> int \<Rightarrow> db \<Rightarrow> api_error + listen_task" where
  "owned_task admin i d =
     (case task_get i d of
        None \<Rightarrow> Inl (NotFound ''ai_listen_task_not_found'')
      | Some t \<Rightarrow> (case owner_error admin t of Some e \<Rightarrow> Inl e | None \<Rightarrow> Inr t))"

record task_patch =
  tp_config_version :: int
  tp_name :: "string option"
  tp_all_monitored_users :: "bool option"
  tp_monitored_user_ids :: "int list option"
  tp_listen_mode :: "string option"
  tp_skill_ids :: "int list option"
  tp_auto_publish_channels :: "string list option"
  tp_qq_bot_id :: "int option option"
  tp_qq_group_openids :: "string list option"
  tp_max_attempts_override :: "int option option"
  tp_language_override :: "string option option"
  tp_tone_override :: "string option option"
  tp_max_output_tokens_override :: "int option option"

definition patched_task :: "time \<Rightarrow> int \<Rightarrow> task_patch \<Rightarrow> listen_task \<Rightarrow> listen_task" where
  "patched_task now admin p t =
     (let t1 = t\<lparr>lt_name := given (tp_name p) (lt_name t),
          lt_all_monitored_users := given (tp_all_monitored_users p) (lt_all_monitored_users t),
          lt_listen_mode := given (tp_listen_mode p) (lt_listen_mode t),
          lt_auto_publish_channels := given (tp_auto_publish_channels p) (lt_auto_publish_channels t),
          lt_qq_bot_id := given (tp_qq_bot_id p) (lt_qq_bot_id t),
          lt_qq_group_openids := given (tp_qq_group_openids p) (lt_qq_group_openids t),
          lt_max_attempts_override := given (tp_max_attempts_override p) (lt_max_attempts_override t),
          lt_language_override := given (tp_language_override p) (lt_language_override t),
          lt_tone_override := given (tp_tone_override p) (lt_tone_override t),
          lt_max_output_tokens_override := given (tp_max_output_tokens_override p) (lt_max_output_tokens_override t)\<rparr>
      in t1\<lparr>lt_owner_admin_id := (if lt_owner_admin_id t1 = None \<and> lt_auto_publish_channels t1 \<noteq> []
             then Some admin else lt_owner_admin_id t1),
            lt_config_version := lt_config_version t1 + 1, lt_updated_at := now\<rparr>)"

text \<open>
  The subscriptions become those of the given accounts: kept rows keep their start, new
  ones of an enabled task start now.
\<close>

definition replace_subs :: "time \<Rightarrow> listen_task \<Rightarrow> monitored_user list \<Rightarrow> db \<Rightarrow> db" where
  "replace_subs now t users d =
     (let old = map sub_monitored_user_id (task_subs (lt_id t) d);
          added = filter (\<lambda>u. mu_id u \<notin> set old) users;
          from_at = (if lt_desired_state t = ''enabled'' then Some now else None) in
      d\<lparr>subscriptions :=
          filter (\<lambda>s. sub_task_id s = lt_id t \<longrightarrow> sub_monitored_user_id s \<in> mu_id ` set users) (subscriptions d) @
          number_rows (serial d) (\<lambda>u k. new_sub now from_at (lt_id t) (mu_id u) k) added,
        serial := serial d + int (length added)\<rparr>)"

definition position :: "int list \<Rightarrow> int \<Rightarrow> int" where
  "position ss s = int (length (takeWhile (\<lambda>x. x \<noteq> s) ss)) + 1"

definition replace_links :: "listen_task \<Rightarrow> int list \<Rightarrow> db \<Rightarrow> db" where
  "replace_links t skills d =
     (let old = map lk_skill_id (task_links (lt_id t) d); added = filter (\<lambda>s. s \<notin> set old) skills in
      d\<lparr>task_skills :=
          map (\<lambda>l. if lk_task_id l = lt_id t then l\<lparr>lk_priority := position skills (lk_skill_id l)\<rparr> else l)
            (filter (\<lambda>l. lk_task_id l = lt_id t \<longrightarrow> lk_skill_id l \<in> set skills) (task_skills d)) @
          number_rows (serial d) (\<lambda>s k. new_link k (lt_id t) s (position skills s)) added,
        serial := serial d + int (length added)\<rparr>)"

definition patch_listen_task :: "listen_env \<Rightarrow> time \<Rightarrow> int \<Rightarrow> int \<Rightarrow> task_patch \<Rightarrow> db \<Rightarrow> api_error + db" where
  "patch_listen_task env now admin i p d =
     (let d0 = fst (get_ai_setting now d) in
      case owned_task admin i d0 of
        Inl e \<Rightarrow> Inl e
      | Inr t \<Rightarrow>
          (if lt_desired_state t = ''archived'' then Inl (Conflict ''ai_listen_task_archived'')
           else if lt_config_version t \<noteq> tp_config_version p then Inl (Conflict ''task_version_conflict'')
           else case validate_selection (le_read env) (given (tp_all_monitored_users p) (lt_all_monitored_users t))
                  (given (tp_monitored_user_ids p) (map sub_monitored_user_id (task_subs i d0)))
                  (given (tp_skill_ids p) (map lk_skill_id (task_links i d0))) d0 of
             Inl e \<Rightarrow> Inl e
           | Inr (users, skills) \<Rightarrow>
               (case validate_qq_publish_target (given (tp_auto_publish_channels p) (lt_auto_publish_channels t))
                   (given (tp_qq_bot_id p) (lt_qq_bot_id t)) (given (tp_qq_group_openids p) (lt_qq_group_openids t)) d0 of
                  Some e \<Rightarrow> Inl e
                | None \<Rightarrow>
                    (let d1 = (if tp_monitored_user_ids p \<noteq> None \<or> tp_all_monitored_users p \<noteq> None
                               then replace_subs now t users d0 else d0);
                         d2 = (if tp_skill_ids p \<noteq> None then replace_links t skills d1 else d1);
                         t' = patched_task now admin p t in
                     Inr (add_event (task_note i ''updated'' (Lit ''listening task changed'' [])
                            [(''config_version'', JInt (lt_config_version t'))]) (put_task t' d2))))))"

definition pause_listen_task :: "time \<Rightarrow> int \<Rightarrow> int \<Rightarrow> db \<Rightarrow> api_error + db" where
  "pause_listen_task now admin i d =
     (let d0 = fst (get_ai_setting now d) in
      case owned_task admin i d0 of
        Inl e \<Rightarrow> Inl e
      | Inr t \<Rightarrow>
          (if lt_desired_state t = ''archived'' then Inl (Conflict ''ai_listen_task_archived'')
           else if lt_desired_state t = ''paused'' then Inr d
           else Inr (add_event (task_note i ''paused'' (Lit ''listening task paused'' []) [])
                  (put_task (t\<lparr>lt_desired_state := ''paused'', lt_updated_at := now\<rparr>) d0))))"

definition resume_listen_task :: "listen_env \<Rightarrow> time \<Rightarrow> int \<Rightarrow> int \<Rightarrow> db \<Rightarrow> api_error + db" where
  "resume_listen_task env now admin i d =
     (let d0 = fst (get_ai_setting now d) in
      case owned_task admin i d0 of
        Inl e \<Rightarrow> Inl e
      | Inr t \<Rightarrow>
          (if lt_desired_state t = ''archived'' then Inl (Conflict ''ai_listen_task_archived'')
           else if lt_desired_state t = ''enabled'' then Inr d
           else case activate env now (t\<lparr>lt_updated_at := now\<rparr>) d0 of
             Inl e \<Rightarrow> Inl (request_api_error e)
           | Inr d1 \<Rightarrow> Inr d1))"

definition cancel_queue :: "time \<Rightarrow> int \<Rightarrow> db \<Rightarrow> db" where
  "cancel_queue now i d =
     d\<lparr>gen_jobs := row_update (\<lambda>r. gj_listen_task_id r = Some i \<and> gj_status r \<in> {''queued'', ''retry_wait''})
        (\<lambda>r. r\<lparr>gj_status := ''cancelled'', gj_completed_at := Some now, gj_updated_at := now\<rparr>) (gen_jobs d)\<rparr>"

definition cancel_backfills :: "time \<Rightarrow> int \<Rightarrow> db \<Rightarrow> db" where
  "cancel_backfills now i d =
     d\<lparr>backfills := row_update (\<lambda>b. bf_task_id b = i \<and> bf_status b \<in> {''pending'', ''running''})
        (\<lambda>b. b\<lparr>bf_status := ''cancelled'', bf_updated_at := now\<rparr>) (backfills d)\<rparr>"

definition archive_listen_task :: "time \<Rightarrow> int \<Rightarrow> int \<Rightarrow> db \<Rightarrow> api_error + db" where
  "archive_listen_task now admin i d =
     (let d0 = fst (get_ai_setting now d) in
      case owned_task admin i d0 of
        Inl e \<Rightarrow> Inl e
      | Inr t \<Rightarrow>
          (if lt_desired_state t = ''archived'' then Inr d
           else Inr (add_event (task_note i ''archived'' (Lit ''listening task archived'' []) [])
                  (cancel_backfills now i (cancel_queue now i
                    (put_task (t\<lparr>lt_desired_state := ''archived'', lt_archived_at := Some now, lt_updated_at := now\<rparr>) d0))))))"

datatype queue_decision = Continue_old_snapshot | Cancel_old_queue

definition decide_listen_queue :: "listen_env \<Rightarrow> time \<Rightarrow> int \<Rightarrow> int \<Rightarrow> queue_decision \<Rightarrow> db \<Rightarrow> api_error + db" where
  "decide_listen_queue env now admin i q d =
     (let d0 = fst (get_ai_setting now d) in
      case owned_task admin i d0 of
        Inl e \<Rightarrow> Inl e
      | Inr t \<Rightarrow>
          (if lt_desired_state t = ''archived'' then Inl (Conflict ''ai_listen_task_archived'')
           else if \<not> nonempty (lt_queue_hold_reason t) then Inl (Conflict ''queue_not_held'')
           else case (case q of
                Continue_old_snapshot \<Rightarrow>
                  (case validate_selection (le_read env) (lt_all_monitored_users t)
                       (map sub_monitored_user_id (task_subs i d0)) (map lk_skill_id (task_links i d0)) d0 of
                     Inl e \<Rightarrow> Inl e | Inr r \<Rightarrow> Inr d0)
              | Cancel_old_queue \<Rightarrow> Inr (cancel_queue now i d0)) of
             Inl e \<Rightarrow> Inl e
           | Inr d1 \<Rightarrow>
               Inr (add_event (task_note i ''queue_decision'' (Lit ''queue decision stored'' [])
                     [(''decision'', JStr (case q of Continue_old_snapshot \<Rightarrow> ''continue_old_snapshot''
                        | Cancel_old_queue \<Rightarrow> ''cancel_old_queue''))])
                   (put_task (t\<lparr>lt_queue_hold_reason := None, lt_updated_at := now\<rparr>) d1))))"

text \<open>The suffix of a copy's name has four characters; its letters are not those of the source.\<close>

definition copy_suffix :: string where
  "copy_suffix = ''(II)''"

definition copy_payload :: "listen_task \<Rightarrow> db \<Rightarrow> task_create" where
  "copy_payload t d =
     \<lparr>tc_name = lt_name t @ copy_suffix, tc_desired_state = ''paused'',
      tc_all_monitored_users = lt_all_monitored_users t,
      tc_monitored_user_ids = map sub_monitored_user_id (task_subs (lt_id t) d), tc_listen_mode = lt_listen_mode t,
      tc_skill_ids = map lk_skill_id (task_links (lt_id t) d), tc_auto_publish_channels = lt_auto_publish_channels t,
      tc_qq_bot_id = lt_qq_bot_id t, tc_qq_group_openids = lt_qq_group_openids t,
      tc_initial_sync_days = lt_initial_sync_days t, tc_max_attempts_override = lt_max_attempts_override t,
      tc_language_override = lt_language_override t, tc_tone_override = lt_tone_override t,
      tc_max_output_tokens_override = lt_max_output_tokens_override t\<rparr>"

text \<open>A payload that the model rejects inside the route is an error of the server.\<close>

definition copy_listen_task :: "listen_env \<Rightarrow> time \<Rightarrow> int \<Rightarrow> int \<Rightarrow> db \<Rightarrow> api_error + db \<times> int" where
  "copy_listen_task env now admin i d =
     (case owned_task admin i d of
        Inl e \<Rightarrow> Inl e
      | Inr t \<Rightarrow>
          (if \<not> task_create_ok (copy_payload t d) then Inl (ServerError ''validation_error'')
           else create_task env now (Some admin) (Some i) (copy_payload t d) d))"

definition create_listen_backfill :: "listen_env \<Rightarrow> time \<Rightarrow> int \<Rightarrow> int \<Rightarrow> time \<Rightarrow> time \<Rightarrow> string option \<Rightarrow> bool \<Rightarrow>
    db \<Rightarrow> api_error + db \<times> task_backfill" where
  "create_listen_backfill env now admin i from_at to_at request exclude d =
     (let d0 = fst (get_ai_setting now d) in
      case owned_task admin i d0 of
        Inl e \<Rightarrow> Inl e
      | Inr t \<Rightarrow>
          (if lt_desired_state t = ''archived'' then Inl (Conflict ''ai_listen_task_archived'')
           else case enqueue_backfill_request env now t from_at to_at request exclude
               (if lt_all_monitored_users t then Some (active_all_user_ids d0) else None) d0 of
             Inl BadWindow \<Rightarrow> Inl (Conflict ''invalid_backfill_window'')
           | Inl RequestConflict \<Rightarrow> Inl (Conflict ''backfill_request_conflict'')
           | Inl PackageMissing \<Rightarrow> Inl (Unavailable ''skill_package_unavailable'')
           | Inr r \<Rightarrow> Inr r))"

subsection \<open>What a task is shown with\<close>

record task_stats =
  ks_matched :: nat
  ks_queued :: nat
  ks_running :: nat
  ks_retry_wait :: nat
  ks_succeeded :: nat
  ks_failed :: nat
  ks_cancelled :: nat
  ks_lifetime_attempts :: int

definition jobs_of :: "int \<Rightarrow> db \<Rightarrow> gen_job list" where
  "jobs_of i d = filter (\<lambda>r. gj_listen_task_id r = Some i) (gen_jobs d)"

definition in_status :: "string \<Rightarrow> gen_job list \<Rightarrow> nat" where
  "in_status s rs = rowcount (\<lambda>r. gj_status r = s) rs"

definition stats_of :: "int \<Rightarrow> db \<Rightarrow> task_stats" where
  "stats_of i d =
     (let rs = jobs_of i d in
      \<lparr>ks_matched = length rs, ks_queued = in_status ''queued'' rs, ks_running = in_status ''running'' rs,
       ks_retry_wait = in_status ''retry_wait'' rs, ks_succeeded = in_status ''succeeded'' rs,
       ks_failed = in_status ''failed'' rs, ks_cancelled = in_status ''cancelled'' rs,
       ks_lifetime_attempts = sum_list (map gj_lifetime_attempts rs)\<rparr>)"

definition account_available :: "monitored_user \<Rightarrow> string \<Rightarrow> bool" where
  "account_available u mode \<longleftrightarrow>
     mu_archived_at u = None \<and> mu_is_active u \<and>
     (mode \<notin> {''reply'', ''retweet''} \<or> (mode = ''reply'' \<and> mu_include_replies u) \<or>
      (mode = ''retweet'' \<and> mu_include_retweets u))"

text \<open>The accounts of a task; those of a selection keep the order of the subscriptions.\<close>

definition task_accounts :: "listen_task \<Rightarrow> db \<Rightarrow> monitored_user list" where
  "task_accounts t d =
     (if lt_all_monitored_users t
      then filter (\<lambda>u. mu_archived_at u = None) (sort_key mu_id (monitored_users d))
      else List.map_filter (\<lambda>s. row_get mu_id (sub_monitored_user_id s) (monitored_users d)) (task_subs (lt_id t) d))"

datatype condition = Condition string "msg list"

definition inactive_link :: "db \<Rightarrow> task_skill \<Rightarrow> bool" where
  "inactive_link d l = (case row_get ak_id (lk_skill_id l) (ai_skills d) of None \<Rightarrow> False | Some s \<Rightarrow> \<not> ak_is_active s)"

definition task_health :: "listen_task \<Rightarrow> db \<Rightarrow> condition" where
  "task_health t d =
     (let accounts = task_accounts t d; usable = filter (\<lambda>u. account_available u (lt_listen_mode t)) accounts;
          missing = list_ex (inactive_link d) (task_links (lt_id t) d);
          reasons =
            (if accounts = [] then [Lit ''no account to listen to'' []]
             else if usable = [] then [Lit ''no account collects this kind of post'' []]
             else if length usable < length accounts
             then [Lit ''accounts that collect this kind of post'' [show_nat (length usable), show_nat (length accounts)]]
             else []) @
            (if missing then [Lit ''a selected skill is inactive'' []] else []) @
            (if nonempty (lt_queue_hold_reason t) then [Lit ''the queue waits for a decision'' []] else []) in
      Condition (if usable = [] \<or> missing \<or> nonempty (lt_queue_hold_reason t) then ''blocked''
                 else if reasons \<noteq> [] then ''limited'' else ''healthy'') reasons)"

definition task_dependency :: "ai_setting \<Rightarrow> data_source option \<Rightarrow> bool \<Rightarrow> condition" where
  "task_dependency st source online =
     (let reasons =
            (if st_enabled st then [] else [Lit ''generation is switched off'' []]) @
            (if st_auto_generate st then [] else [Lit ''automatic listening is switched off'' []]) @
            (if source = None then [Lit ''no data source'' []] else []) @
            (if online then [] else [Lit ''the worker is offline'' []]) in
      Condition (if reasons \<noteq> [] then ''blocked'' else ''ready'') reasons)"

subsection \<open>The preview\<close>

record task_preview =
  tv_create :: task_create
  tv_task_id :: "int option"
  tv_window :: "(time \<times> time) option"
  tv_exclude_legacy_generated :: bool

record preview =
  pw_matched :: nat
  pw_duplicates :: nat
  pw_legacy_generated :: nat
  pw_pending :: nat
  pw_unavailable :: "int list"
  pw_from_at :: "time option"
  pw_to_at :: "time option"

definition preview_accounts :: "task_preview \<Rightarrow> monitored_user list \<Rightarrow> db \<Rightarrow> monitored_user list" where
  "preview_accounts p users d =
     (if tc_all_monitored_users (tv_create p)
      then sort_key mu_id (filter (\<lambda>u. mu_archived_at u = None) (monitored_users d)) else users)"

definition historical :: "task_preview \<Rightarrow> bool" where
  "historical p \<longleftrightarrow> tv_window p \<noteq> None \<or> 0 < tc_initial_sync_days (tv_create p)"

definition preview_available :: "task_preview \<Rightarrow> monitored_user \<Rightarrow> bool" where
  "preview_available p u \<longleftrightarrow>
     (if historical p then mu_archived_at u = None \<and> mu_is_active u
      else account_available u (tc_listen_mode (tv_create p)))"

definition preview_window :: "time \<Rightarrow> task_preview \<Rightarrow> (time \<times> time) option" where
  "preview_window now p =
     (case tv_window p of
        Some w \<Rightarrow> Some w
      | None \<Rightarrow>
          (let days = tc_initial_sync_days (tv_create p) in
           if days = 0 then None else Some (now - secs (86400 * days), now)))"

definition preview_takes :: "time \<Rightarrow> task_preview \<Rightarrow> int list \<Rightarrow> tweet \<Rightarrow> bool" where
  "preview_takes now p ids t \<longleftrightarrow>
     tw_monitored_user_id t \<in> set ids \<and>
     (tc_listen_mode (tv_create p) = ''all'' \<or> tw_tweet_type t = tc_listen_mode (tv_create p)) \<and>
     (case preview_window now p of
        Some (a, b) \<Rightarrow> a \<le> tw_posted_at t \<and> tw_posted_at t < b
      | None \<Rightarrow> now \<le> tw_posted_at t)"

definition task_has_job :: "int option \<Rightarrow> db \<Rightarrow> tweet \<Rightarrow> bool" where
  "task_has_job task d t \<longleftrightarrow>
     (case task of None \<Rightarrow> False
      | Some i \<Rightarrow> list_ex (\<lambda>r. gj_source_tweet_id r = tw_id t \<and> gj_listen_task_id r = Some i) (gen_jobs d))"

definition legacy_job :: "db \<Rightarrow> tweet \<Rightarrow> bool" where
  "legacy_job d t \<longleftrightarrow> list_ex (\<lambda>r. gj_source_tweet_id r = tw_id t \<and> gj_trigger_type r = ''legacy_auto'') (gen_jobs d)"

definition preview_task :: "listen_env \<Rightarrow> time \<Rightarrow> task_preview \<Rightarrow> db \<Rightarrow> api_error + preview" where
  "preview_task env now p d =
     (case validate_selection (le_read env) (tc_all_monitored_users (tv_create p)) (tc_monitored_user_ids (tv_create p))
             (tc_skill_ids (tv_create p)) d of
        Inl e \<Rightarrow> Inl e
      | Inr (selected, skills) \<Rightarrow>
          (let users = preview_accounts p selected d;
               usable = map mu_id (filter (preview_available p) users);
               unavailable = map mu_id (filter (\<lambda>u. \<not> preview_available p u) users);
               ts = (if usable = [] then [] else filter (preview_takes now p usable) (tweets d));
               excluded = (\<lambda>t. task_has_job (tv_task_id p) d t \<or> (tv_exclude_legacy_generated p \<and> legacy_job d t)) in
           Inr \<lparr>pw_matched = length ts, pw_duplicates = rowcount (task_has_job (tv_task_id p) d) ts,
                pw_legacy_generated = rowcount (legacy_job d) ts, pw_pending = length ts - rowcount excluded ts,
                pw_unavailable = unavailable, pw_from_at = map_option fst (preview_window now p),
                pw_to_at = map_option snd (preview_window now p)\<rparr>))"

end
