(* ===== verification/RedisLease.thy ===== *)
theory RedisLease
  imports Prelude Leases
begin

text \<open>
  The Redis side of the workers: keys with an expiry, \<open>SET NX EX\<close>, and the two Lua
  scripts of \<open>backend/app/services/poller.py\<close> that release and renew a lock only
  for its owner. The contract of such a lock is the locale \<open>owned_lock\<close>; its clients
  use the fact that a worker whose check succeeds has been the only owner since it
  took the lock.
\<close>

subsection \<open>Keys\<close>

type_synonym redis = "string \<Rightarrow> (string \<times> time) option"

definition redis_get :: "time \<Rightarrow> string \<Rightarrow> redis \<Rightarrow> string option" where
  "redis_get now k s =
     (case s k of None \<Rightarrow> None | Some (v, e) \<Rightarrow> if now < e then Some v else None)"

definition redis_set :: "time \<Rightarrow> string \<Rightarrow> string \<Rightarrow> int \<Rightarrow> redis \<Rightarrow> redis" where
  "redis_set now k v ttl s = s(k \<mapsto> (v, now + secs ttl))"

definition redis_set_nx :: "time \<Rightarrow> string \<Rightarrow> string \<Rightarrow> int \<Rightarrow> redis \<Rightarrow> redis option" where
  "redis_set_nx now k v ttl s =
     (if redis_get now k s = None then Some (redis_set now k v ttl s) else None)"

definition redis_exists :: "time \<Rightarrow> string \<Rightarrow> redis \<Rightarrow> bool" where
  "redis_exists now k s \<longleftrightarrow> redis_get now k s \<noteq> None"

text \<open>The scripts; \<open>None\<close> is the reply 0.\<close>

definition release_lock :: "time \<Rightarrow> string \<Rightarrow> string \<Rightarrow> redis \<Rightarrow> redis option" where
  "release_lock now k token s =
     (if redis_get now k s = Some token then Some (s(k := None)) else None)"

definition renew_lock :: "time \<Rightarrow> string \<Rightarrow> string \<Rightarrow> int \<Rightarrow> redis \<Rightarrow> redis option" where
  "renew_lock now k token ttl s =
     (if redis_get now k s = Some token then Some (redis_set now k token ttl s) else None)"

subsection \<open>Locks with an owner\<close>

datatype 't lock_event = Acquire time 't | Renew time 't | Release time 't

fun event_time :: "'t lock_event \<Rightarrow> time" where
  "event_time (Acquire now t) = now"
| "event_time (Renew now t) = now"
| "event_time (Release now t) = now"

fun run_lock :: "(time \<Rightarrow> 't \<Rightarrow> 's \<Rightarrow> 's option) \<Rightarrow> (time \<Rightarrow> 't \<Rightarrow> 's \<Rightarrow> 's option) \<Rightarrow>
    (time \<Rightarrow> 't \<Rightarrow> 's \<Rightarrow> 's option) \<Rightarrow> 's \<Rightarrow> 't lock_event list \<Rightarrow> 's" where
  "run_lock acquire renew release s [] = s"
| "run_lock acquire renew release s (Acquire now t # es) =
     run_lock acquire renew release (case acquire now t s of None \<Rightarrow> s | Some s' \<Rightarrow> s') es"
| "run_lock acquire renew release s (Renew now t # es) =
     run_lock acquire renew release (case renew now t s of None \<Rightarrow> s | Some s' \<Rightarrow> s') es"
| "run_lock acquire renew release s (Release now t # es) =
     run_lock acquire renew release (case release now t s of None \<Rightarrow> s | Some s' \<Rightarrow> s') es"

text \<open>The events of a list happen in order, none before \<open>from\<close>.\<close>

fun in_order :: "time \<Rightarrow> 't lock_event list \<Rightarrow> bool" where
  "in_order start [] = True"
| "in_order start (e # es) = (start \<le> event_time e \<and> in_order (event_time e) es)"

locale owned_lock =
  fixes owner :: "time \<Rightarrow> 's \<Rightarrow> 't option"
    and acquire :: "time \<Rightarrow> 't \<Rightarrow> 's \<Rightarrow> 's option"
    and renew :: "time \<Rightarrow> 't \<Rightarrow> 's \<Rightarrow> 's option"
    and release :: "time \<Rightarrow> 't \<Rightarrow> 's \<Rightarrow> 's option"
  assumes acquire_free: "acquire now t s = Some s' \<Longrightarrow> owner now s = None"
    and acquire_owner: "acquire now t s = Some s' \<Longrightarrow> now \<le> now' \<Longrightarrow> owner now' s' \<in> {None, Some t}"
    and renew_owned: "renew now t s = Some s' \<Longrightarrow> owner now s = Some t"
    and renew_owner: "renew now t s = Some s' \<Longrightarrow> now \<le> now' \<Longrightarrow> owner now' s' \<in> {None, Some t}"
    and release_owned: "release now t s = Some s' \<Longrightarrow> owner now s = Some t"
    and release_owner: "release now t s = Some s' \<Longrightarrow> now \<le> now' \<Longrightarrow> owner now' s' = None"
    and expiry: "now \<le> now' \<Longrightarrow> owner now' s \<in> {None, owner now s}"
begin

definition step :: "'s \<Rightarrow> 't lock_event \<Rightarrow> 's" where
  "step s e = run_lock acquire renew release s [e]"

lemma run_step: "run_lock acquire renew release s (e # es) = run_lock acquire renew release (step s e) es"
  by (cases e) (simp_all add: step_def)

text \<open>Whoever does not own the lock can only come to own it by acquiring it.\<close>

lemma not_owner_step:
  assumes "owner start s \<noteq> Some t" and "start \<le> event_time e" and "\<And>now. e \<noteq> Acquire now t"
    and "event_time e \<le> now'"
  shows "owner now' (step s e) \<noteq> Some t"
proof -
  have stay: "owner now' s \<noteq> Some t"
    using expiry[of start now' s] assms(1,2,4) by auto
  have now: "owner (event_time e) s \<noteq> Some t"
    using expiry[OF assms(2), of s] assms(1) by auto
  show ?thesis
  proof (cases e)
    case (Acquire now u)
    with assms(3) have "u \<noteq> t" by auto
    with Acquire stay acquire_owner[of now u s _ now'] assms(4) show ?thesis
      by (cases "acquire now u s") (auto simp: step_def)
  next
    case (Renew now u)
    show ?thesis
    proof (cases "renew now u s")
      case None
      with Renew stay show ?thesis by (simp add: step_def)
    next
      case (Some s')
      with renew_owned[OF Some] now Renew have "u \<noteq> t" by auto
      with Some Renew renew_owner[OF Some, of now'] assms(4) show ?thesis by (auto simp: step_def)
    qed
  next
    case (Release now u)
    show ?thesis
    proof (cases "release now u s")
      case None
      with Release stay show ?thesis by (simp add: step_def)
    next
      case (Some s')
      with Release release_owner[OF Some, of now'] assms(4) show ?thesis by (simp add: step_def)
    qed
  qed
qed

lemma not_owner_run:
  "owner start s \<noteq> Some t \<Longrightarrow> in_order start es \<Longrightarrow> (\<And>now. Acquire now t \<notin> set es) \<Longrightarrow>
    \<forall>e \<in> set es. event_time e \<le> now' \<Longrightarrow> start \<le> now' \<Longrightarrow>
    owner now' (run_lock acquire renew release s es) \<noteq> Some t"
proof (induction es arbitrary: start s)
  case Nil
  then show ?case using expiry[of start now' s] by auto
next
  case (Cons e es)
  have "owner (event_time e) (step s e) \<noteq> Some t"
    using not_owner_step[OF Cons.prems(1), of e "event_time e"] Cons.prems(2,3) by auto
  then show ?case
    unfolding run_step using Cons.IH[of "event_time e" "step s e"] Cons.prems by auto
qed

text \<open>
  A worker whose renewal succeeds has owned the lock all along: no other worker
  acquired it since, if tokens are fresh.
\<close>

lemma renewal_exclusive:
  assumes "renew now' t (run_lock acquire renew release s (es @ Acquire now u # fs)) = Some s'"
    and "in_order start (es @ Acquire now u # fs)" and "u \<noteq> t" and "\<And>n. Acquire n t \<notin> set fs"
    and "\<forall>e \<in> set fs. event_time e \<le> now'" and "now \<le> now'"
    and "\<And>s e es. run_lock acquire renew release s (es @ e) = run_lock acquire renew release (run_lock acquire renew release s es) e"
  shows "acquire now u (run_lock acquire renew release s es) = None"
proof (rule ccontr)
  let ?m = "run_lock acquire renew release s es"
  assume "acquire now u ?m \<noteq> None"
  then obtain m' where m': "acquire now u ?m = Some m'" by blast
  have "owner now m' \<noteq> Some t" using acquire_owner[OF m', of now] assms(3) by auto
  moreover have "in_order now fs"
    using assms(2) by (induction es arbitrary: start) auto
  ultimately have "owner now' (run_lock acquire renew release m' fs) \<noteq> Some t"
    using not_owner_run assms(4,5,6) by blast
  with renew_owned[OF assms(1)] m' assms(7) show False by simp
qed

end

lemma run_lock_append:
  "run_lock acquire renew release s (es @ fs) =
    run_lock acquire renew release (run_lock acquire renew release s es) fs"
proof (induction es arbitrary: s)
  case (Cons e es)
  then show ?case by (cases e) simp_all
qed simp

subsection \<open>The Redis lock provides the contract\<close>

interpretation redis_lock: owned_lock "\<lambda>now. redis_get now k"
  "\<lambda>now t. redis_set_nx now k t ttl" "\<lambda>now t. renew_lock now k t ttl" "\<lambda>now t. release_lock now k t"
proof
  fix now now' :: time and t :: string and s s' :: redis
  show "redis_set_nx now k t ttl s = Some s' \<Longrightarrow> redis_get now k s = None"
    by (simp add: redis_set_nx_def split: if_splits)
  show "redis_set_nx now k t ttl s = Some s' \<Longrightarrow> now \<le> now' \<Longrightarrow> redis_get now' k s' \<in> {None, Some t}"
    by (auto simp: redis_set_nx_def redis_set_def redis_get_def split: if_splits)
  show "renew_lock now k t ttl s = Some s' \<Longrightarrow> redis_get now k s = Some t"
    by (simp add: renew_lock_def split: if_splits)
  show "renew_lock now k t ttl s = Some s' \<Longrightarrow> now \<le> now' \<Longrightarrow> redis_get now' k s' \<in> {None, Some t}"
    by (auto simp: renew_lock_def redis_set_def redis_get_def split: if_splits)
  show "release_lock now k t s = Some s' \<Longrightarrow> redis_get now k s = Some t"
    by (simp add: release_lock_def split: if_splits)
  show "release_lock now k t s = Some s' \<Longrightarrow> now \<le> now' \<Longrightarrow> redis_get now' k s' = None"
    by (auto simp: release_lock_def redis_get_def split: if_splits)
  show "now \<le> now' \<Longrightarrow> redis_get now' k s \<in> {None, redis_get now k s}"
    by (auto simp: redis_get_def split: option.splits)
qed

subsection \<open>Properties\<close>

definition lock_run :: "string \<Rightarrow> int \<Rightarrow> redis \<Rightarrow> string lock_event list \<Rightarrow> redis" where
  "lock_run k ttl = run_lock (\<lambda>now t. redis_set_nx now k t ttl) (\<lambda>now t. renew_lock now k t ttl)
     (\<lambda>now t. release_lock now k t)"

text \<open>
  A verified lock was held without interruption. In any ordered history of
  acquisitions, renewals, releases and expiries of a lock, when a worker's check
  succeeds, no other worker's acquisition after its own last one was granted.
\<close>

theorem verified_lock_exclusive:
  assumes "renew_lock now' k t ttl (lock_run k ttl s (es @ Acquire now u # fs)) = Some s'"
    and "in_order start (es @ Acquire now u # fs)" and "u \<noteq> t" and "\<And>n. Acquire n t \<notin> set fs"
    and "\<forall>e \<in> set fs. event_time e \<le> now'" and "now \<le> now'"
  shows "redis_set_nx now k u ttl (lock_run k ttl s es) = None"
  unfolding lock_run_def
  by (rule redis_lock.renewal_exclusive[OF _ assms(2-6) run_lock_append])
    (rule assms(1)[unfolded lock_run_def])

theorem verified_lock_exclusive_witness:
  "redis_set_nx 5 ''k'' ''b'' 30 (lock_run ''k'' 30 (\<lambda>_. None) [Acquire 0 ''a'']) = None"
proof -
  have "renew_lock 9 ''k'' ''a'' 30 (lock_run ''k'' 30 (\<lambda>_. None) ([Acquire 0 ''a''] @ Acquire 5 ''b'' # [])) =
      Some (redis_set 9 ''k'' ''a'' 30 (redis_set 0 ''k'' ''a'' 30 (\<lambda>_. None)))"
    by (simp add: lock_run_def redis_set_nx_def redis_set_def redis_get_def renew_lock_def secs_def)
  from verified_lock_exclusive[OF this, of 0] show ?thesis by simp
qed

end
