(* ===== verification/AiWorker.thy ===== *)
theory AiWorker
  imports AiJobs Publish Backfill RedisLease
begin

text \<open>
  The worker that generates articles, \<open>backend/app/ai_worker.py\<close>: a job is claimed
  under the settings, its task and its skills, each attempt is a row of its own, and
  the worker that still owns the Redis lock and the claim stores the article, the
  profile of the author and the records of its publication, or the failure. Leases that
  expire are closed by any worker. The AI service, the skill service and the decryption
  of the API key are parameters.
\<close>

subsection \<open>Claiming\<close>

definition gj_get :: "int \<Rightarrow> db \<Rightarrow> gen_job option" where
  "gj_get i d = row_get gj_id i (gen_jobs d)"

definition job_task :: "gen_job \<Rightarrow> db \<Rightarrow> listen_task option" where
  "job_task r d = (case gj_listen_task_id r of None \<Rightarrow> None | Some t \<Rightarrow> row_get lt_id t (listen_tasks d))"

definition job_due :: "time \<Rightarrow> gen_job \<Rightarrow> bool" where
  "job_due now r \<longleftrightarrow> gj_status r \<in> {''queued'', ''retry_wait''} \<and> gj_next_attempt_at r \<le> now"

definition exhausted_row :: "time \<Rightarrow> gen_job \<Rightarrow> gen_job" where
  "exhausted_row now r =
     r\<lparr>gj_status := ''failed'', gj_last_error := Some (Text ''Generation exceeded the maximum attempt count''),
       gj_completed_at := Some now, gj_claim_token := None, gj_claimed_by := None, gj_lease_expires_at := None\<rparr>"

definition running_row :: "ai_worker_cfg \<Rightarrow> string \<Rightarrow> time \<Rightarrow> string \<Rightarrow> gen_job \<Rightarrow> gen_job" where
  "running_row cfg worker now token r =
     r\<lparr>gj_status := ''running'', gj_attempts := gj_attempts r + 1, gj_lifetime_attempts := gj_lifetime_attempts r + 1,
       gj_claim_token := Some token, gj_claimed_by := Some worker, gj_started_at := Some now, gj_completed_at := None,
       gj_last_error := None, gj_lease_expires_at := Some (now + secs (ai_worker_lock_ttl_seconds cfg))\<rparr>"

definition rounds_before :: "int \<Rightarrow> db \<Rightarrow> int" where
  "rounds_before i d = int (rowcount (\<lambda>a. ga_job_id a = i \<and> ga_attempt_number a = 1) (gen_attempts d))"

definition new_attempt_row :: "time \<Rightarrow> int \<Rightarrow> int \<Rightarrow> gen_job \<Rightarrow> gen_attempt" where
  "new_attempt_row now i before r =
     \<lparr>ga_id = i, ga_job_id = gj_id r, ga_lifetime_number = gj_lifetime_attempts r,
      ga_round_number = max 1 (before + (if gj_attempts r = 1 then 1 else 0)),
      ga_attempt_number = gj_attempts r, ga_started_at = now, ga_ended_at = None, ga_status = ''running'',
      ga_error_type = None, ga_error_summary = None, ga_duration_ms = None, ga_provider = Some (gj_provider r),
      ga_model_name = Some (gj_model_name r), ga_data_source_name = None, ga_data_source_version = None\<rparr>"

definition started_event :: "int \<Rightarrow> gen_job \<Rightarrow> task_event" where
  "started_event task r =
     \<lparr>ev_task_id = task, ev_event_type = ''execution_started'', ev_job_id = Some (gj_id r), ev_backfill_id = None,
      ev_summary = Text ''AI generation attempt started'',
      ev_details = JObj [(''attempt'', JInt (gj_attempts r)), (''lifetime_attempt'', JInt (gj_lifetime_attempts r))]\<rparr>"

definition task_event_of :: "gen_job \<Rightarrow> (int \<Rightarrow> gen_job \<Rightarrow> task_event) \<Rightarrow> db \<Rightarrow> db" where
  "task_event_of r ev d =
     (case gj_listen_task_id r of None \<Rightarrow> d | Some t \<Rightarrow> d\<lparr>task_events := task_events d @ [ev t r]\<rparr>)"

text \<open>
  What stands between a due job and its attempt: the settings, the data source, the
  task and its skills. \<open>Outage\<close> is \<open>SkillServiceUnavailable\<close>.
\<close>

datatype readiness = Blocked | Outage | Invalidated listen_task | Ready_to_run

definition readiness_of :: "(int \<Rightarrow> task_selection option) \<Rightarrow> gen_job \<Rightarrow> db \<Rightarrow> readiness" where
  "readiness_of resolve r d =
     (case row_get st_id 1 (ai_settings d) of
        None \<Rightarrow> Blocked
      | Some st \<Rightarrow>
          (if \<not> st_enabled st \<or> (\<not> gj_manual r \<and> \<not> st_auto_generate st) \<or> row_get ds_id 1 (data_sources d) = None
           then Blocked
           else case gj_listen_task_id r of
             None \<Rightarrow> Ready_to_run
           | Some t \<Rightarrow>
               (case row_get lt_id t (listen_tasks d) of
                  None \<Rightarrow> Blocked
                | Some tk \<Rightarrow>
                    (if lt_desired_state tk \<noteq> ''enabled'' \<or> nonempty (lt_queue_hold_reason tk) then Blocked
                     else case resolve t of
                       None \<Rightarrow> Outage
                     | Some sel \<Rightarrow> if ts_valid sel then Ready_to_run else Invalidated tk))))"

text \<open>
  \<open>_claim\<close>. \<open>material\<close> reads the frozen skills (\<open>None\<close>: outage). A result \<open>None\<close> is an
  exception, which rolls the transaction back. The job handed out carries the material.
\<close>

definition start_attempt :: "ai_worker_cfg \<Rightarrow> string \<Rightarrow> time \<Rightarrow> string \<Rightarrow> gen_job \<Rightarrow> db \<Rightarrow> db" where
  "start_attempt cfg worker now token r d =
     (let r' = running_row cfg worker now token r;
          d1 = put_job_row r' d;
          d2 = d1\<lparr>gen_attempts := gen_attempts d1 @ [new_attempt_row now (serial d1) (rounds_before (gj_id r) d1) r'],
                  serial := serial d1 + 1\<rparr>
      in task_event_of r' started_event d2)"

definition claim_job :: "ai_worker_cfg \<Rightarrow> (int \<Rightarrow> task_selection option) \<Rightarrow> (int \<Rightarrow> json list \<Rightarrow> json list option) \<Rightarrow>
    string \<Rightarrow> time \<Rightarrow> int \<Rightarrow> string \<Rightarrow> db \<Rightarrow> (db \<times> gen_job option) option" where
  "claim_job cfg resolve material worker now i token d =
     (case gj_get i d of
        None \<Rightarrow> Some (d, None)
      | Some r \<Rightarrow>
          (case readiness_of resolve r d of
             Blocked \<Rightarrow> Some (d, None)
           | Outage \<Rightarrow> None
           | Invalidated tk \<Rightarrow> Some (hold_task ''skill_invalidated'' tk d, None)
           | Ready_to_run \<Rightarrow>
               (if \<not> job_due now r then Some (d, None)
                else if gj_max_attempts r \<le> gj_attempts r then Some (put_job_row (exhausted_row now r) d, None)
                else case (if gj_skill_snapshot r = [] then Some [] else material i (gj_skill_snapshot r)) of
                  None \<Rightarrow> None
                | Some ms \<Rightarrow>
                    Some (start_attempt cfg worker now token r d,
                      Some (running_row cfg worker now token r\<lparr>gj_skill_snapshot := ms\<rparr>)))))"

subsection \<open>Closing an attempt\<close>

definition open_attempt :: "gen_job \<Rightarrow> gen_attempt \<Rightarrow> bool" where
  "open_attempt r a \<longleftrightarrow> ga_job_id a = gj_id r \<and> ga_lifetime_number a = gj_lifetime_attempts r"

definition job_config :: "gen_job \<Rightarrow> json" where
  "job_config r = jor (jget (jor (gj_request_snapshot r) (JObj [])) ''config'') (JObj [])"

fun opt_str :: "json \<Rightarrow> string option" where
  "opt_str (JStr s) = Some s"
| "opt_str _ = None"

fun opt_int :: "json \<Rightarrow> int option" where
  "opt_int (JInt i) = Some i"
| "opt_int _ = None"

definition closed_attempt :: "string \<Rightarrow> time \<Rightarrow> string option \<Rightarrow> msg option \<Rightarrow> gen_job \<Rightarrow> gen_attempt \<Rightarrow> gen_attempt" where
  "closed_attempt status now error_type summary r a =
     a\<lparr>ga_status := status, ga_ended_at := Some now,
       ga_duration_ms := Some (max 0 (py_round (of_int (now - ga_started_at a) / 1000))),
       ga_error_type := error_type,
       ga_error_summary := (case summary of None \<Rightarrow> None | Some m \<Rightarrow> if msg_truthy m then Some (clip 4000 m) else None),
       ga_provider := Some (gj_provider r), ga_model_name := Some (gj_model_name r),
       ga_data_source_name := opt_str (jget (job_config r) ''ai_data_source_name''),
       ga_data_source_version := opt_int (jget (job_config r) ''ai_data_source_version'')\<rparr>"

definition closed_event :: "string \<Rightarrow> string option \<Rightarrow> gen_attempt \<Rightarrow> int \<Rightarrow> gen_job \<Rightarrow> task_event" where
  "closed_event status error_type a task r =
     \<lparr>ev_task_id = task, ev_event_type = ''execution_'' @ status, ev_job_id = Some (gj_id r), ev_backfill_id = None,
      ev_summary = Text (''AI generation attempt '' @ status),
      ev_details = JObj [(''attempt'', JInt (ga_attempt_number a)), (''lifetime_attempt'', JInt (ga_lifetime_number a)),
        (''duration_ms'', jint_opt (ga_duration_ms a)), (''error_type'', jstr_opt error_type)]\<rparr>"

text \<open>\<open>_finish_attempt\<close>; the attempts of a job have distinct lifetime numbers.\<close>

definition finish_gen_attempt :: "string \<Rightarrow> time \<Rightarrow> string option \<Rightarrow> msg option \<Rightarrow> gen_job \<Rightarrow> db \<Rightarrow> db" where
  "finish_gen_attempt status now error_type summary r d =
     (case find (open_attempt r) (gen_attempts d) of
        None \<Rightarrow> d
      | Some a \<Rightarrow>
          (if ga_status a \<noteq> ''running'' then d
           else let a' = closed_attempt status now error_type summary r a in
             task_event_of r (closed_event status error_type a')
               (d\<lparr>gen_attempts := row_put ga_id a' (gen_attempts d)\<rparr>)))"

definition released :: "gen_job \<Rightarrow> gen_job" where
  "released r = r\<lparr>gj_claim_token := None, gj_claimed_by := None, gj_lease_expires_at := None\<rparr>"

definition archived_task :: "listen_task option \<Rightarrow> bool" where
  "archived_task t \<longleftrightarrow> (case t of None \<Rightarrow> False | Some k \<Rightarrow> lt_desired_state k = ''archived'')"

definition lease_over :: "time \<Rightarrow> gen_job \<Rightarrow> bool" where
  "lease_over now r \<longleftrightarrow> gj_status r = ''running'' \<and> (case gj_lease_expires_at r of None \<Rightarrow> False | Some u \<Rightarrow> u \<le> now)"

definition expired_message :: msg where
  "expired_message = Text ''AI worker lease expired before completion''"

definition expired_row :: "time \<Rightarrow> listen_task option \<Rightarrow> gen_job \<Rightarrow> gen_job" where
  "expired_row now t r =
     released (if archived_task t then r\<lparr>gj_status := ''cancelled'', gj_completed_at := Some now, gj_last_error := Some expired_message\<rparr>
       else if gj_max_attempts r \<le> gj_attempts r
       then r\<lparr>gj_status := ''failed'', gj_completed_at := Some now, gj_last_error := Some expired_message\<rparr>
       else r\<lparr>gj_status := ''retry_wait'', gj_next_attempt_at := now, gj_last_error := Some expired_message\<rparr>)"

definition expire_lease :: "time \<Rightarrow> int \<Rightarrow> db \<Rightarrow> db" where
  "expire_lease now i d =
     (case gj_get i d of
        None \<Rightarrow> d
      | Some r \<Rightarrow>
          (if \<not> lease_over now r then d
           else put_job_row (expired_row now (job_task r d) r)
             (finish_gen_attempt ''interrupted'' now (Some ''lease_expired'') (Some expired_message) r d)))"

definition held_claim :: "string \<Rightarrow> gen_job \<Rightarrow> bool" where
  "held_claim token r \<longleftrightarrow> gj_claim_token r = Some token \<and> gj_status r = ''running''"

text \<open>The database part of \<open>_renew_lease\<close>; the flag tells whether the claim was still held.\<close>

definition renew_job :: "ai_worker_cfg \<Rightarrow> time \<Rightarrow> int \<Rightarrow> string \<Rightarrow> db \<Rightarrow> db \<times> bool" where
  "renew_job cfg now i token d =
     (case gj_get i d of
        None \<Rightarrow> (d, False)
      | Some r \<Rightarrow>
          (if \<not> held_claim token r then (d, False)
           else (put_job_row (r\<lparr>gj_lease_expires_at := Some (now + secs (ai_worker_lock_ttl_seconds cfg))\<rparr>) d, True)))"

subsection \<open>The request\<close>

record provider_request =
  pr_provider :: string
  pr_model :: string
  pr_base_url :: string
  pr_prompt_template :: "string option"
  pr_language :: string
  pr_tone :: msg
  pr_reasoning_effort :: string
  pr_max_output_tokens :: int
  pr_timeout_seconds :: int
  pr_skill_snapshot :: "json list"
  pr_feature_snapshot :: json
  pr_author_context :: json
  pr_source :: json
  pr_job_id :: int
  pr_api_key :: string
  pr_auto_publish_channels :: "string list"

definition jint_of :: "json \<Rightarrow> string \<Rightarrow> int \<Rightarrow> int" where
  "jint_of j k dflt = (case jget j k of JInt i \<Rightarrow> if i \<noteq> 0 then i else dflt | _ \<Rightarrow> dflt)"

text \<open>\<open>AIProviderError\<close>: its text, whether it can be retried, and the HTTP status.\<close>

datatype provider_error = ProviderError msg bool "int option"

definition sourced_job :: "data_source \<Rightarrow> json \<Rightarrow> gen_job \<Rightarrow> gen_job" where
  "sourced_job ds snapshot r = r\<lparr>gj_provider := ds_protocol ds, gj_model_name := ds_model_name ds, gj_request_snapshot := snapshot\<rparr>"

definition sourced_snapshot :: "data_source \<Rightarrow> gen_job \<Rightarrow> json" where
  "sourced_snapshot ds r =
     (let config = foldl (\<lambda>c (k, v). jset c k v) (job_config r)
        [(''provider'', JStr (ds_protocol ds)), (''model'', JStr (ds_model_name ds)), (''base_url'', JStr (ds_base_url ds)),
         (''bridge_url'', JNull), (''ai_data_source_name'', JStr (ds_name ds)), (''ai_data_source_version'', JInt (ds_version ds))]
      in jset (jor (gj_request_snapshot r) (JObj [])) ''config'' config)"

definition request_of :: "data_source \<Rightarrow> string \<Rightarrow> json \<Rightarrow> gen_job \<Rightarrow> provider_request" where
  "request_of ds key snapshot job =
     (let config = jget snapshot ''config'' in
      \<lparr>pr_provider = ds_protocol ds, pr_model = ds_model_name ds, pr_base_url = ds_base_url ds,
       pr_prompt_template = (case jget config ''prompt_template'' of JStr s \<Rightarrow> if s = [] then None else Some s | _ \<Rightarrow> None),
       pr_language = jstr_of config ''language'' ''zh-CN'',
       pr_tone = (case jget config ''tone'' of JStr s \<Rightarrow> if s = [] then Lit ''professional and natural'' [] else Text s
                  | _ \<Rightarrow> Lit ''professional and natural'' []),
       pr_reasoning_effort = jstr_of config ''reasoning_effort'' ''medium'',
       pr_max_output_tokens = jint_of config ''max_output_tokens'' 2500,
       pr_timeout_seconds = jint_of config ''request_timeout_seconds'' 60,
       pr_skill_snapshot = gj_skill_snapshot job, pr_feature_snapshot = jor (jget snapshot ''feature'') (JObj []),
       pr_author_context = jor (jget snapshot ''author_context'') (JObj []), pr_source = jget snapshot ''source'',
       pr_job_id = gj_id job, pr_api_key = key,
       pr_auto_publish_channels = filter (\<lambda>c. c \<in> {''xhs'', ''qq''})
         (json_strings (jlist (jget (gj_task_snapshot job) ''auto_publish_channels'')))\<rparr>)"

text \<open>\<open>_provider_request\<close>: the job takes the current data source, unless its claim is gone.\<close>

definition provider_request :: "(data_source \<Rightarrow> msg + string) \<Rightarrow> gen_job \<Rightarrow> db \<Rightarrow> provider_error + db \<times> provider_request" where
  "provider_request api_key job d =
     (let snapshot = jor (gj_request_snapshot job) (JObj []) in
      if \<not> is_dict (jget snapshot ''config'') \<or> \<not> is_dict (jget snapshot ''source'')
      then Inl (ProviderError (Text ''Generation job has no valid audit snapshot'') False None)
      else case row_get ds_id 1 (data_sources d) of
        None \<Rightarrow> Inl (ProviderError (Text ''AI data source has not been configured'') False None)
      | Some ds \<Rightarrow>
          (case api_key ds of
             Inl m \<Rightarrow> Inl (ProviderError m False None)
           | Inr key \<Rightarrow>
               (case gj_get (gj_id job) d of
                  None \<Rightarrow> Inl (ProviderError (Text ''Generation job claim is no longer valid'') True None)
                | Some r \<Rightarrow>
                    (if gj_claim_token r \<noteq> gj_claim_token job
                     then Inl (ProviderError (Text ''Generation job claim is no longer valid'') True None)
                     else Inr (put_job_row (sourced_job ds (sourced_snapshot ds r) r) d, request_of ds key snapshot job)))))"

subsection \<open>Storing an article\<close>

record generated =
  ge_title :: string
  ge_content :: string
  ge_excerpt :: "string option"
  ge_metadata :: json
  ge_author_profile :: json
  ge_response :: json
  ge_prompt_hash :: string
  ge_source_text_hash :: string

definition draft_of_job :: "int \<Rightarrow> db \<Rightarrow> draft option" where
  "draft_of_job i d = find (\<lambda>a. dr_job_id a = Some i) (drafts d)"

definition generated_metadata :: "generated \<Rightarrow> draft option \<Rightarrow> gen_job \<Rightarrow> json" where
  "generated_metadata g old r =
     (let base = jor (preserve_article_media_metadata old (ge_metadata g)) (JObj []) in
      jset (jset (jset base ''provider'' (JStr (gj_provider r))) ''model'' (JStr (gj_model_name r)))
        ''skill_ids'' (JList (map JInt (gj_skill_ids r))))"

definition stored_draft :: "time \<Rightarrow> generated \<Rightarrow> gen_job \<Rightarrow> int \<Rightarrow> draft option \<Rightarrow> draft" where
  "stored_draft now g r i old =
     (case old of
        None \<Rightarrow>
          \<lparr>dr_id = i, dr_job_id = Some (gj_id r), dr_source_tweet_id = Some (gj_source_tweet_id r), dr_article_source = ''ai'',
           dr_title = ge_title g, dr_content = ge_content g, dr_excerpt = ge_excerpt g, dr_images = [],
           dr_publish_status = ''unpublished'', dr_publish_channel = None, dr_publish_attempt_id = None,
           dr_publish_error = None, dr_published_at = None, dr_draft_metadata = generated_metadata g None r,
           dr_revision = 1, dr_created_at = now, dr_updated_at = now\<rparr>
      | Some a \<Rightarrow>
          a\<lparr>dr_title := ge_title g, dr_content := ge_content g, dr_excerpt := ge_excerpt g,
            dr_draft_metadata := generated_metadata g old r, dr_revision := dr_revision a + 1\<rparr>)"

definition store_draft :: "time \<Rightarrow> generated \<Rightarrow> gen_job \<Rightarrow> db \<Rightarrow> db \<times> draft" where
  "store_draft now g r d =
     (let old = draft_of_job (gj_id r) d; a = stored_draft now g r (serial d) old in
      (case old of
         None \<Rightarrow> d\<lparr>drafts := drafts d @ [a], serial := serial d + 1\<rparr>
       | Some _ \<Rightarrow> d\<lparr>drafts := row_put dr_id a (drafts d)\<rparr>, a))"

definition author_of :: "gen_job \<Rightarrow> int" where
  "author_of r =
     (let context = jor (jget (jor (gj_request_snapshot r) (JObj [])) ''author_context'') (JObj []) in
      jint_of (jor (jget context ''author'') (JObj [])) ''monitored_user_id'' 0)"

text \<open>The source of the job is not older than the one the profile was written from.\<close>

definition profile_is_current :: "gen_job \<Rightarrow> ai_user_profile \<Rightarrow> db \<Rightarrow> bool" where
  "profile_is_current r p d \<longleftrightarrow>
     (case up_last_source_tweet_id p of
        None \<Rightarrow> True
      | Some prev \<Rightarrow>
          (case row_get tw_id (gj_source_tweet_id r) (tweets d) of
             None \<Rightarrow> False
           | Some c \<Rightarrow>
               (case row_get tw_id prev (tweets d) of
                  None \<Rightarrow> True
                | Some q \<Rightarrow> (tw_posted_at q, tw_id q) \<le> (tw_posted_at c, tw_id c))))"

definition json_str :: "json \<Rightarrow> string" where
  "json_str v = (case v of JStr s \<Rightarrow> s | _ \<Rightarrow> [])"

definition json_rat :: "json \<Rightarrow> rat" where
  "json_rat v = (case v of JFloat r \<Rightarrow> r | JInt i \<Rightarrow> of_int i | _ \<Rightarrow> 0)"

definition profile_row :: "time \<Rightarrow> json \<Rightarrow> gen_job \<Rightarrow> int \<Rightarrow> ai_user_profile option \<Rightarrow> ai_user_profile" where
  "profile_row now v r user old =
     \<lparr>up_monitored_user_id = user, up_identity_summary = json_str (jget v ''identity_summary''),
      up_focus_summary = json_str (jget v ''focus_summary''),
      up_relationship_summary = json_str (jget v ''relationship_summary''),
      up_recurring_topics = jget_or v ''recurring_topics'' (JList []), up_evidence = jget_or v ''evidence'' (JList []),
      up_confidence = json_rat (jget v ''confidence''),
      up_version = (case old of None \<Rightarrow> 1 | Some p \<Rightarrow> up_version p + 1),
      up_last_source_tweet_id = Some (gj_source_tweet_id r),
      up_created_at = (case old of None \<Rightarrow> now | Some p \<Rightarrow> up_created_at p), up_updated_at = now\<rparr>"

definition store_profile :: "time \<Rightarrow> json \<Rightarrow> gen_job \<Rightarrow> db \<Rightarrow> db" where
  "store_profile now v r d =
     (let user = author_of r in
      if user = 0 then d
      else case row_get up_monitored_user_id user (ai_profiles d) of
        None \<Rightarrow> d\<lparr>ai_profiles := ai_profiles d @ [profile_row now v r user None]\<rparr>
      | Some p \<Rightarrow>
          (if profile_is_current r p d
           then d\<lparr>ai_profiles := row_put up_monitored_user_id (profile_row now v r user (Some p)) (ai_profiles d)\<rparr>
           else d))"

definition succeeded_row :: "time \<Rightarrow> generated \<Rightarrow> gen_job \<Rightarrow> gen_job" where
  "succeeded_row now g r =
     released (r\<lparr>gj_status := ''succeeded'', gj_response_snapshot := ge_response g, gj_prompt_hash := Some (ge_prompt_hash g),
       gj_source_text_hash := Some (ge_source_text_hash g), gj_last_error := None, gj_completed_at := Some now\<rparr>)"

text \<open>
  \<open>_commit_success\<close> after its first lock check; \<open>held\<close> is the check inside the
  transaction and \<open>outbox_fails\<close> an error of the nested transaction that creates the
  publication records, which is left to the publisher. \<open>None\<close> is \<open>AILockLostError\<close>.
\<close>

definition commit_article :: "time \<Rightarrow> bool \<Rightarrow> bool \<Rightarrow> int \<Rightarrow> string \<Rightarrow> generated \<Rightarrow> db \<Rightarrow> (db \<times> bool) option" where
  "commit_article now held outbox_fails i token g d =
     (case gj_get i d of
        None \<Rightarrow> Some (d, False)
      | Some r \<Rightarrow>
          (if \<not> held_claim token r then Some (d, False)
           else if \<not> held then None
           else
             (case store_draft now g r d of
                (d1, a) \<Rightarrow>
                  (let r' = succeeded_row now g r;
                       d2 = finish_gen_attempt ''succeeded'' now None None r
                              (put_job_row r' (store_profile now (ge_author_profile g) r d1)) in
                   Some (if gj_listen_task_id r = None \<or> outbox_fails then d2
                         else fst (initialize_publish_dispatches now r' a d2), True)))))"

subsection \<open>Failures\<close>

definition failure_base :: "nat \<Rightarrow> int" where
  "failure_base attempts = min 1800 (10 * 2 ^ (attempts - 1))"

definition ai_failure_delay :: "rat \<Rightarrow> nat \<Rightarrow> int" where
  "ai_failure_delay jitter attempts = max 5 (py_round (of_int (failure_base attempts) * jitter))"

definition failure_response :: "msg \<Rightarrow> bool \<Rightarrow> int option \<Rightarrow> json" where
  "failure_response m retry http =
     JObj [(''error'', msg_json (clip 4000 m)), (''retryable'', JBool retry), (''status_code'', jint_opt http)]"

definition may_retry :: "bool \<Rightarrow> listen_task option \<Rightarrow> gen_job \<Rightarrow> bool" where
  "may_retry retry t r \<longleftrightarrow> retry \<and> gj_attempts r < gj_max_attempts r \<and> \<not> archived_task t"

definition failed_job_row :: "time \<Rightarrow> rat \<Rightarrow> msg \<Rightarrow> bool \<Rightarrow> int option \<Rightarrow> listen_task option \<Rightarrow> gen_job \<Rightarrow> gen_job" where
  "failed_job_row now jitter m retry http t r =
     released ((if may_retry retry t r
        then r\<lparr>gj_status := ''retry_wait'', gj_next_attempt_at := now + secs (ai_failure_delay jitter (nat (gj_attempts r)))\<rparr>
        else if archived_task t then r\<lparr>gj_status := ''cancelled'', gj_completed_at := Some now\<rparr>
        else r\<lparr>gj_status := ''failed'', gj_completed_at := Some now\<rparr>)
       \<lparr>gj_last_error := Some (clip 4000 m), gj_response_snapshot := failure_response m retry http\<rparr>)"

definition failure_type :: "int option \<Rightarrow> string" where
  "failure_type http = (case http of None \<Rightarrow> ''generation_error'' | Some n \<Rightarrow> if n = 0 then ''generation_error'' else ''http_'' @ show_int n)"

text \<open>\<open>_commit_failure\<close> after its first lock check.\<close>

definition commit_ai_failure :: "time \<Rightarrow> bool \<Rightarrow> rat \<Rightarrow> int \<Rightarrow> string \<Rightarrow> msg \<Rightarrow> bool \<Rightarrow> int option \<Rightarrow> db \<Rightarrow>
    (db \<times> string) option" where
  "commit_ai_failure now held jitter i token m retry http d =
     (case gj_get i d of
        None \<Rightarrow> Some (d, ''superseded'')
      | Some r \<Rightarrow>
          (if \<not> held_claim token r then Some (d, ''superseded'')
           else if \<not> held then None
           else let r' = failed_job_row now jitter m retry http (job_task r d) r in
             Some (finish_gen_attempt ''failed'' now (Some (failure_type http)) (Some m) r (put_job_row r' d), gj_status r')))"

definition requeued_row :: "time \<Rightarrow> listen_task option \<Rightarrow> gen_job \<Rightarrow> gen_job" where
  "requeued_row now t r =
     released (if archived_task t
       then r\<lparr>gj_status := ''cancelled'', gj_next_attempt_at := now, gj_completed_at := Some now,
              gj_last_error := Some (Text ''AI worker stopped during generation; task was archived'')\<rparr>
       else r\<lparr>gj_status := ''retry_wait'', gj_next_attempt_at := now,
              gj_last_error := Some (Text ''AI worker stopped during generation; job was requeued'')\<rparr>)"

text \<open>\<open>_requeue_cancelled\<close> after its lock check.\<close>

definition requeue_cancelled :: "time \<Rightarrow> int \<Rightarrow> string \<Rightarrow> db \<Rightarrow> db" where
  "requeue_cancelled now i token d =
     (case gj_get i d of
        None \<Rightarrow> d
      | Some r \<Rightarrow>
          (if \<not> held_claim token r then d
           else finish_gen_attempt ''interrupted'' now (Some ''worker_shutdown'')
             (Some (Text ''AI worker stopped during generation'')) r
             (put_job_row (requeued_row now (job_task r d) r) d)))"

subsection \<open>One job\<close>

text \<open>
  What happens around a job, step by step, as for a poll: the time of a step, what other
  processes (and the renewal of this lease) do before it, whether Redis answers, and
  whether the renewal has reported the lease lost.
\<close>

datatype gen_reply = Generated generated | GenFailed provider_error | GenLost | GenCancelled | GenUnexpected msg

type_synonym gen_world = "db \<times> redis"

record ai_io =
  ai_now :: "nat \<Rightarrow> time"
  ai_gap :: "nat \<Rightarrow> gen_world \<Rightarrow> gen_world"
  ai_redis_fails :: "nat \<Rightarrow> bool"
  ai_lost :: "nat \<Rightarrow> bool"
  ai_token :: string
  ai_reply :: "provider_request \<Rightarrow> gen_reply"
  ai_jitter :: rat
  ai_outbox_fails :: bool

record ai_worker_env =
  aw_cfg :: ai_worker_cfg
  aw_worker :: string
  aw_resolve :: "int \<Rightarrow> task_selection option"
  aw_material :: "int \<Rightarrow> json list \<Rightarrow> json list option"
  aw_api_key :: "data_source \<Rightarrow> msg + string"
  aw_ai :: ai_env

definition ai_lock_key :: "int \<Rightarrow> string" where
  "ai_lock_key i = ''xsentinel:ai:lock:'' @ show_int i"

definition assert_ai_lock :: "ai_worker_env \<Rightarrow> ai_io \<Rightarrow> nat \<Rightarrow> int \<Rightarrow> redis \<Rightarrow> redis \<times> bool" where
  "assert_ai_lock env io k i s =
     (if ai_lost io k \<or> ai_redis_fails io k then (s, False)
      else case renew_lock (ai_now io k) (ai_lock_key i) (ai_token io) (ai_worker_lock_ttl_seconds (aw_cfg env)) s of
        None \<Rightarrow> (s, False) | Some s' \<Rightarrow> (s', True))"

definition job_failed :: "ai_worker_env \<Rightarrow> ai_io \<Rightarrow> int \<Rightarrow> provider_error \<Rightarrow> gen_world \<Rightarrow> gen_world" where
  "job_failed env io i e w =
     (case e of ProviderError m retry http \<Rightarrow>
       (let (d, s) = ai_gap io 7 w; (s1, held) = assert_ai_lock env io 7 i s in
        if \<not> held then (d, s1)
        else let (d1, s2) = ai_gap io 8 (d, s1); (s3, held') = assert_ai_lock env io 8 i s2 in
          case commit_ai_failure (ai_now io 8) held' (ai_jitter io) i (ai_token io) m retry http d1 of
            None \<Rightarrow> (d1, s3)
          | Some (d2, res) \<Rightarrow> (d2, s3)))"

definition job_cancelled :: "ai_worker_env \<Rightarrow> ai_io \<Rightarrow> int \<Rightarrow> gen_world \<Rightarrow> gen_world" where
  "job_cancelled env io i w =
     (let (d, s) = ai_gap io 7 w; (s1, held) = assert_ai_lock env io 7 i s in
      if \<not> held then (d, s1)
      else let (d1, s2) = ai_gap io 8 (d, s1) in (requeue_cancelled (ai_now io 8) i (ai_token io) d1, s2))"

definition job_generated :: "ai_worker_env \<Rightarrow> ai_io \<Rightarrow> int \<Rightarrow> generated \<Rightarrow> gen_world \<Rightarrow> gen_world \<times> bool" where
  "job_generated env io i g w =
     (let (d, s) = ai_gap io 4 w; (s1, held) = assert_ai_lock env io 4 i s in
      if \<not> held then ((d, s1), False)
      else let (d1, s2) = ai_gap io 5 (d, s1); (s3, held1) = assert_ai_lock env io 5 i s2 in
        if \<not> held1 then ((d1, s3), False)
        else let (d2, s4) = ai_gap io 6 (d1, s3); (s5, held2) = assert_ai_lock env io 6 i s4 in
          case commit_article (ai_now io 6) held2 (ai_outbox_fails io) i (ai_token io) g d2 of
            None \<Rightarrow> ((d2, s5), False)
          | Some (d3, applied) \<Rightarrow> ((d3, s5), applied))"

definition run_claimed :: "ai_worker_env \<Rightarrow> ai_io \<Rightarrow> gen_job \<Rightarrow> gen_world \<Rightarrow> gen_world \<times> bool" where
  "run_claimed env io job w =
     (let i = gj_id job; (d, s) = ai_gap io 2 w in
      case provider_request (aw_api_key env) job d of
        Inl e \<Rightarrow> (job_failed env io i e (d, s), False)
      | Inr (d1, req) \<Rightarrow>
          (let w1 = ai_gap io 3 (d1, s) in
           case ai_reply io req of
             Generated g \<Rightarrow> job_generated env io i g w1
           | GenFailed e \<Rightarrow> (job_failed env io i e w1, False)
           | GenLost \<Rightarrow> (w1, False)
           | GenCancelled \<Rightarrow> (job_cancelled env io i w1, False)
           | GenUnexpected m \<Rightarrow> (job_failed env io i (ProviderError m True None) w1, False)))"

definition process_job :: "ai_worker_env \<Rightarrow> ai_io \<Rightarrow> int \<Rightarrow> gen_world \<Rightarrow> gen_world \<times> bool" where
  "process_job env io i w =
     (let (d, s) = ai_gap io 0 w in
      if ai_redis_fails io 0 then ((d, s), False)
      else case redis_set_nx (ai_now io 0) (ai_lock_key i) (ai_token io) (ai_worker_lock_ttl_seconds (aw_cfg env)) s of
        None \<Rightarrow> ((d, s), False)
      | Some s1 \<Rightarrow>
          (let (d1, s2) = ai_gap io 1 (d, s1);
               (w', applied) =
                 (case claim_job (aw_cfg env) (aw_resolve env) (aw_material env) (aw_worker env) (ai_now io 1) i (ai_token io) d1 of
                    None \<Rightarrow> ((d1, s2), False)
                  | Some (d2, None) \<Rightarrow> ((d2, s2), False)
                  | Some (d2, Some job) \<Rightarrow> run_claimed env io job (d2, s2));
               (d3, s3) = ai_gap io 9 w' in
           ((d3, if ai_redis_fails io 9 then s3
                 else case release_lock (ai_now io 9) (ai_lock_key i) (ai_token io) s3 of None \<Rightarrow> s3 | Some s4 \<Rightarrow> s4),
            applied)))"

subsection \<open>One scan\<close>

definition stale_jobs :: "ai_worker_cfg \<Rightarrow> time \<Rightarrow> db \<Rightarrow> int list" where
  "stale_jobs cfg now d =
     map gj_id (row_select (lease_over now) (\<lambda>r. (gj_lease_expires_at r, gj_id r)) (ai_worker_batch_size cfg) (gen_jobs d))"

definition task_ready :: "ai_setting \<Rightarrow> db \<Rightarrow> gen_job \<Rightarrow> bool" where
  "task_ready st d r \<longleftrightarrow>
     (if st_auto_generate st
      then (case gj_listen_task_id r of
              None \<Rightarrow> True
            | Some t \<Rightarrow>
                (case row_get lt_id t (listen_tasks d) of
                   None \<Rightarrow> False
                 | Some tk \<Rightarrow> lt_desired_state tk = ''enabled'' \<and> lt_queue_hold_reason tk = None))
      else gj_manual r)"

definition due_jobs :: "ai_worker_cfg \<Rightarrow> time \<Rightarrow> db \<Rightarrow> int list" where
  "due_jobs cfg now d =
     (case row_get st_id 1 (ai_settings d) of
        None \<Rightarrow> []
      | Some st \<Rightarrow>
          (if \<not> st_enabled st then []
           else map gj_id (row_select (\<lambda>r. job_due now r \<and> task_ready st d r) (\<lambda>r. (gj_next_attempt_at r, gj_id r))
             (min (ai_worker_batch_size cfg) (nat (ai_worker_max_concurrency cfg))) (gen_jobs d))))"

text \<open>
  A scan is made of transactions of its own: the selection of expired claims, the end of each of them, the scan of the
  backfills and the selection of due jobs. Other processes may run before each, and one that fails is logged
  and leaves the data as they are.
\<close>

record scan_io =
  sc_now :: "nat \<Rightarrow> time"
  sc_gap :: "nat \<Rightarrow> gen_world \<Rightarrow> gen_world"
  sc_fails :: "nat \<Rightarrow> bool"

fun expire_all :: "scan_io \<Rightarrow> nat \<Rightarrow> int list \<Rightarrow> gen_world \<Rightarrow> gen_world" where
  "expire_all io k [] w = w"
| "expire_all io k (i # is) w =
     (let (d, s) = sc_gap io k w in
      expire_all io (Suc k) is (if sc_fails io k then d else expire_lease (sc_now io k) i d, s))"

fun process_jobs :: "ai_worker_env \<Rightarrow> (int \<Rightarrow> ai_io) \<Rightarrow> int list \<Rightarrow> gen_world \<Rightarrow> gen_world" where
  "process_jobs env ios [] w = w"
| "process_jobs env ios (i # is) w = process_jobs env ios is (fst (process_job env (ios i) i w))"

definition ai_run_once :: "ai_worker_env \<Rightarrow> scan_io \<Rightarrow> (int \<Rightarrow> ai_io) \<Rightarrow> gen_world \<Rightarrow> gen_world" where
  "ai_run_once env io ios w =
     (let w1 = expire_all io 3 (stale_jobs (aw_cfg env) (sc_now io 0) (fst w)) w;
          (d2, s2) = sc_gap io 1 w1;
          d3 = (if sc_fails io 1 then d2
                else case process_pending_backfills (aw_ai env) (aw_resolve env) (sc_now io 1) (int (ai_worker_batch_size (aw_cfg env))) d2 of
                  Inl e \<Rightarrow> d2 | Inr (d', n) \<Rightarrow> d');
          w4 = sc_gap io 2 (d3, s2)
      in process_jobs env ios (due_jobs (aw_cfg env) (sc_now io 0) (fst w4)) w4)"

end
