(* ===== verification/JobRoutes.thy ===== *)
theory JobRoutes
  imports ListenTasks AiWorker
begin

text \<open>
  The routes of \<open>backend/app/api/routes/ai.py\<close> that change generation jobs and their
  drafts: the manual retry, the deletion, the manual generation of a post, and the edit
  of a draft under its revision.
\<close>

definition retried_row :: "time \<Rightarrow> gen_job \<Rightarrow> gen_job" where
  "retried_row now r =
     r\<lparr>gj_status := ''queued'', gj_attempts := 0, gj_next_attempt_at := now, gj_claim_token := None,
       gj_claimed_by := None, gj_last_error := None, gj_completed_at := None\<rparr>"

text \<open>The task of the job, read before the row is locked.\<close>

definition retry_task_error :: "int \<Rightarrow> int \<Rightarrow> db \<Rightarrow> api_error option" where
  "retry_task_error admin i d =
     (case Option.bind (gj_get i d) gj_listen_task_id of
        None \<Rightarrow> None
      | Some task \<Rightarrow>
          (case task_get task d of
             None \<Rightarrow> Some (Conflict ''ai_listen_task_archived'')
           | Some t \<Rightarrow>
               (if lt_desired_state t = ''archived'' then Some (Conflict ''ai_listen_task_archived'')
                else owner_error admin t)))"

definition retry_ai_job :: "time \<Rightarrow> int \<Rightarrow> int \<Rightarrow> db \<Rightarrow> api_error + db" where
  "retry_ai_job now admin i d =
     (let d0 = fst (get_ai_setting now d) in
      case retry_task_error admin i d0 of
        Some e \<Rightarrow> Inl e
      | None \<Rightarrow>
          (case gj_get i d0 of
             None \<Rightarrow> Inl (NotFound ''ai_job_not_found'')
           | Some r \<Rightarrow>
               (if gj_status r \<notin> {''failed'', ''retry_wait'', ''cancelled''} then Inl (Conflict ''ai_job_not_retryable'')
                else let d1 = put_job_row (retried_row now r) d0 in
                  Inr (case gj_listen_task_id r of
                     None \<Rightarrow> d1
                   | Some t \<Rightarrow> add_event (task_note t ''manual_retry'' (Lit ''job retried by hand'' [])
                       [(''lifetime_attempts'', JInt (gj_lifetime_attempts r))]\<lparr>ev_job_id := Some i\<rparr>) d1))))"

text \<open>
  The deletion takes the attempts, the draft and its publication records with it and
  unlinks the messages of the draft, as the foreign keys declare; the
  second component names the images that may be cleaned up afterwards.
\<close>

definition delete_ai_job :: "int \<Rightarrow> db \<Rightarrow> api_error + db \<times> string list" where
  "delete_ai_job i d =
     (case gj_get i d of
        None \<Rightarrow> Inl (NotFound ''ai_job_not_found'')
      | Some r \<Rightarrow>
          (if gj_listen_task_id r \<noteq> None then Inl (Conflict ''listen_job_audit_preserved'')
           else if gj_status r = ''running'' then Inl (Conflict ''ai_job_running'')
           else let gone = map dr_id (filter (\<lambda>a. dr_job_id a = Some i) (drafts d)) in
             Inr (d\<lparr>gen_jobs := filter (\<lambda>r. gj_id r \<noteq> i) (gen_jobs d),
                    gen_attempts := filter (\<lambda>a. ga_job_id a \<noteq> i) (gen_attempts d),
                    drafts := filter (\<lambda>a. dr_job_id a \<noteq> Some i) (drafts d),
                    publish_attempts := filter (\<lambda>a. pa_article_id a \<notin> set gone) (publish_attempts d),
                    dispatches := filter (\<lambda>p. dp_job_id p \<noteq> i \<and> dp_draft_id p \<notin> set gone) (dispatches d),
                    qq_deliveries := row_update (\<lambda>q. qd_article_id q \<in> Some ` set gone)
                      (\<lambda>q. q\<lparr>qd_article_id := None\<rparr>) (qq_deliveries d)\<rparr>,
                  (case draft_of_job i d of None \<Rightarrow> [] | Some a \<Rightarrow> dr_images a @ article_screenshot_copies a))))"

record generate_request =
  gq_feature_code :: string
  gq_skill_ids :: "int list"
  gq_idempotency_key :: "string option"

text \<open>\<open>resolve\<close> is the client of the skill service; the job is found or created.\<close>

definition generate_from_tweet :: "ai_env \<Rightarrow> (int list \<Rightarrow> skill list option) \<Rightarrow> time \<Rightarrow> string \<Rightarrow> string \<Rightarrow> generate_request \<Rightarrow>
    db \<Rightarrow> api_error + db \<times> gen_job" where
  "generate_from_tweet env resolve now fresh tweet q d =
     (case find (\<lambda>t. tw_tweet_id t = tweet) (tweets d) of
        None \<Rightarrow> Inl (NotFound ''tweet_not_found'')
      | Some tw \<Rightarrow>
          (let d0 = fst (get_ai_setting now d) in
           case get_ai_feature (gq_feature_code q) d0 of
             None \<Rightarrow> Inl (NotFound ''ai_feature_not_found'')
           | Some f \<Rightarrow>
               (case (if gq_skill_ids q = [] then Some [] else resolve (gq_skill_ids q)) of
                  None \<Rightarrow> Inl (Unavailable ''skill_service_unavailable'')
                | Some sks \<Rightarrow>
                    (if map sk_id sks \<noteq> gq_skill_ids q then Inl (Unprocessable ''invalid_skill_ids'')
                     else case create_manual_job env now tw f sks ''manual_override'' (gq_idempotency_key q) fresh d0 of
                       Inl AiDisabled \<Rightarrow> Inl (Conflict ''ai_disabled'')
                     | Inl MonitoredUserNotFound \<Rightarrow> Inl (ServerError ''monitored_user_not_found'')
                     | Inr (d1, job, created) \<Rightarrow> Inr (d1, job)))))"

record draft_patch =
  fp_title :: "string option"
  fp_content :: "string option"
  fp_excerpt :: "string option option"
  fp_metadata :: "json option"
  fp_revision :: int

definition patched_draft :: "draft_patch \<Rightarrow> draft \<Rightarrow> draft" where
  "patched_draft p a =
     a\<lparr>dr_title := given (fp_title p) (dr_title a), dr_content := given (fp_content p) (dr_content a),
       dr_excerpt := given (fp_excerpt p) (dr_excerpt a),
       dr_draft_metadata := (case fp_metadata p of None \<Rightarrow> dr_draft_metadata a
         | Some v \<Rightarrow> preserve_article_media_metadata (Some a) v),
       dr_revision := dr_revision a + 1\<rparr>"

definition patch_ai_draft :: "int \<Rightarrow> draft_patch \<Rightarrow> db \<Rightarrow> api_error + db \<times> draft" where
  "patch_ai_draft i p d =
     (case row_get dr_id i (drafts d) of
        None \<Rightarrow> Inl (NotFound ''ai_draft_not_found'')
      | Some a \<Rightarrow>
          (if dr_revision a \<noteq> fp_revision p then Inl (Conflict ''draft_revision_conflict'')
           else Inr (d\<lparr>drafts := row_put dr_id (patched_draft p a) (drafts d)\<rparr>, patched_draft p a)))"

end
