(* ===== verification/Listings.thy ===== *)
theory Listings
  imports Tables PyText "HOL-Library.Multiset"
begin

text \<open>
  Pages of a listing, as every route that lists rows builds them: \<open>COUNT\<close> over the filter,
  \<open>ORDER BY\<close> two columns descending, \<open>OFFSET (page - 1) * page_size LIMIT page_size\<close>.
\<close>

definition page_of :: "nat \<Rightarrow> nat \<Rightarrow> 'r list \<Rightarrow> 'r list" where
  "page_of page n rows = take n (drop ((page - 1) * n) rows)"

definition order_desc :: "('r \<Rightarrow> 'a::linordered_idom) \<Rightarrow> ('r \<Rightarrow> 'b::linordered_idom) \<Rightarrow> 'r list \<Rightarrow> 'r list" where
  "order_desc a b rows = sort_key (\<lambda>r. - a r) (sort_key (\<lambda>r. - b r) rows)"

record 'a page =
  pg_items :: "'a list"
  pg_total :: nat

definition listing :: "('r \<Rightarrow> bool) \<Rightarrow> ('r list \<Rightarrow> 'r list) \<Rightarrow> nat \<Rightarrow> nat \<Rightarrow> 'r list \<Rightarrow> 'r page" where
  "listing p order k n rows = \<lparr>pg_items = page_of k n (order (filter p rows)), pg_total = rowcount p rows\<rparr>"

text \<open>\<open>LIKE '%part%'\<close> with the part escaped.\<close>

fun text_contains :: "string \<Rightarrow> string \<Rightarrow> bool" where
  "text_contains part [] = (part = [])"
| "text_contains part (c # cs) = (starts_with part (c # cs) \<or> text_contains part cs)"

lemma pages_prefix: "concat (map (\<lambda>k. page_of k n rows) [1..<Suc m]) = take (m * n) rows"
proof (induction m)
  case (Suc m)
  have "concat (map (\<lambda>k. page_of k n rows) [1..<Suc (Suc m)]) = concat (map (\<lambda>k. page_of k n rows) [1..<Suc m]) @ page_of (Suc m) n rows"
    by simp
  also have "\<dots> = take (m * n) rows @ take n (drop (m * n) rows)" by (simp only: Suc) (simp add: page_of_def)
  also have "\<dots> = take (Suc m * n) rows" by (simp add: take_add [symmetric] add.commute)
  finally show ?case .
qed simp

lemma mset_order [simp]: "mset (order_desc a b rows) = mset rows"
  by (simp add: order_desc_def)

lemma pages_cover:
  assumes "mset (order (filter p rows)) = mset (filter p rows)" and "rowcount p rows \<le> m * n"
  shows "mset (concat (map (\<lambda>k. pg_items (listing p order k n rows)) [1..<Suc m])) = mset (filter p rows)"
proof -
  have "length (order (filter p rows)) \<le> m * n" using assms by (metis mset_eq_length rowcount_def)
  then have "concat (map (\<lambda>k. page_of k n (order (filter p rows))) [1..<Suc m]) = order (filter p rows)"
    by (simp only: pages_prefix take_all)
  then show ?thesis using assms(1) by (simp add: listing_def del: upt_Suc)
qed

lemma page_bound: "length (pg_items (listing p order k n rows)) \<le> n"
  by (simp add: listing_def page_of_def)

end
