(* ===== verification/AgentTables.thy ===== *)
theory AgentTables
  imports AiJobs
begin

text \<open>
  The tables of agent workflows and agent chat, \<open>backend/app/models/agent_workflow.py\<close>,
  \<open>agent_chat.py\<close> and the agent classes of \<open>models/ai.py\<close>. The JSON columns that hold frozen
  definitions are records here.
\<close>

subsection \<open>Definitions\<close>

record agent_node =
  an_id :: int
  an_name :: string
  an_description :: "string option"
  an_node_type :: string
  an_skill_ids :: "int list"
  an_is_active :: bool
  an_version :: int
  an_created_at :: time
  an_updated_at :: time

record agent_workflow =
  aw_id :: int
  aw_name :: string
  aw_description :: "string option"
  aw_is_active :: bool
  aw_version :: int
  aw_created_at :: time
  aw_updated_at :: time

record workflow_step =
  wp_workflow_id :: int
  wp_node_id :: int
  wp_position :: nat

subsection \<open>Runs\<close>

text \<open>A node of a frozen workflow with its skills.\<close>

record frozen_node =
  fn_position :: nat
  fn_id :: int
  fn_name :: string
  fn_node_type :: string
  fn_version :: int
  fn_skills :: "skill list"

record frozen_workflow =
  fw_id :: int
  fw_name :: string
  fw_version :: int
  fw_steps :: "frozen_node list"

record workflow_config =
  wc_language :: string
  wc_tone :: msg
  wc_reasoning_effort :: string
  wc_max_output_tokens :: int
  wc_timeout_seconds :: int
  wc_base_url :: string
  wc_model :: string
  wc_protocol :: string
  wc_data_source_name :: string
  wc_data_source_version :: int

record workflow_run =
  wr_id :: string
  wr_admin_id :: int
  wr_request_id :: string
  wr_request_hash :: string
  wr_workflow_id :: "int option"
  wr_workflow_name :: string
  wr_workflow_version :: int
  wr_input_text :: string
  wr_source_snapshot :: json
  wr_workflow_snapshot :: frozen_workflow
  wr_config_snapshot :: workflow_config
  wr_status :: string
  wr_current_position :: nat
  wr_claim_token :: "string option"
  wr_lease_expires_at :: "time option"
  wr_next_attempt_at :: time
  wr_error :: "msg option"
  wr_article_id :: "int option"
  wr_created_at :: time
  wr_updated_at :: time
  wr_completed_at :: "time option"

record step_run =
  sr_run_id :: string
  sr_position :: nat
  sr_node_name :: string
  sr_node_type :: string
  sr_status :: string
  sr_attempts :: int
  sr_output :: json
  sr_usage :: json
  sr_error :: "msg option"
  sr_started_at :: "time option"
  sr_completed_at :: "time option"

subsection \<open>Conversations\<close>

record conversation =
  cv_id :: string
  cv_admin_id :: int
  cv_title :: string
  cv_created_at :: time
  cv_updated_at :: time

record chat_config =
  tc_language :: string
  tc_tone :: msg
  tc_reasoning_effort :: string
  tc_max_output_tokens :: int
  tc_timeout_seconds :: int

record chat_turn =
  tn_id :: string
  tn_conversation_id :: string
  tn_request_id :: string
  tn_sequence :: nat
  tn_content :: string
  tn_skill_snapshot :: "skill list"
  tn_config_snapshot :: chat_config
  tn_status :: string
  tn_attempts :: int
  tn_claim_token :: "string option"
  tn_lease_expires_at :: "time option"
  tn_reply :: "string option"
  tn_article :: json
  tn_error :: "msg option"
  tn_article_id :: "int option"
  tn_created_at :: time
  tn_updated_at :: time

text \<open>The agent tables next to the others; the deletion of an article clears the links to it.\<close>

record agent_db =
  ag_db :: db
  ag_nodes :: "agent_node list"
  ag_workflows :: "agent_workflow list"
  ag_steps :: "workflow_step list"
  ag_runs :: "workflow_run list"
  ag_step_runs :: "step_run list"
  ag_conversations :: "conversation list"
  ag_turns :: "chat_turn list"

definition kept_article :: "db \<Rightarrow> int option \<Rightarrow> int option" where
  "kept_article d a = (case a of None \<Rightarrow> None | Some i \<Rightarrow> if i \<in> dr_id ` set (drafts d) then Some i else None)"

definition with_db :: "db \<Rightarrow> agent_db \<Rightarrow> agent_db" where
  "with_db d s =
     s\<lparr>ag_db := d,
       ag_runs := map (\<lambda>r. r\<lparr>wr_article_id := kept_article d (wr_article_id r)\<rparr>) (ag_runs s),
       ag_turns := map (\<lambda>t. t\<lparr>tn_article_id := kept_article d (tn_article_id t)\<rparr>) (ag_turns s)\<rparr>"

definition empty_agent_db :: "db \<Rightarrow> agent_db" where
  "empty_agent_db d = \<lparr>ag_db = d, ag_nodes = [], ag_workflows = [], ag_steps = [], ag_runs = [], ag_step_runs = [],
     ag_conversations = [], ag_turns = []\<rparr>"

definition ai_ready :: "db \<Rightarrow> ai_setting option" where
  "ai_ready d = (case row_get st_id 1 (ai_settings d) of None \<Rightarrow> None | Some st \<Rightarrow> if st_enabled st then Some st else None)"

text \<open>\<open>dict.fromkeys\<close>: each element at its first place.\<close>

definition uniq :: "'a list \<Rightarrow> 'a list" where
  "uniq xs = rev (remdups (rev xs))"

lemma uniq_simps [simp]: "set (uniq xs) = set xs" "distinct (uniq xs)"
  by (simp_all add: uniq_def)

end
