(* ===== verification/ArticleRoutes.thy ===== *)
theory ArticleRoutes
  imports Publish JobRoutes Listings AgentTables
begin

text \<open>
  Articles, \<open>backend/app/api/routes/articles.py\<close>: writing, editing and deleting them, the upload
  of images, publication by hand to QQ groups and to XHS, and the listing. The state is the
  database and the volume of images.
\<close>

subsection \<open>Payloads\<close>

record article_create =
  nw_title :: string
  nw_content :: string
  nw_excerpt :: "string option"
  nw_images :: "string list"

definition required_text :: "nat \<Rightarrow> string \<Rightarrow> string option" where
  "required_text n t = (if 1 \<le> length t \<and> length t \<le> n \<and> strip t \<noteq> [] then Some (strip t) else None)"

definition optional_text :: "nat \<Rightarrow> string option \<Rightarrow> string option option" where
  "optional_text n t =
     (case t of
        None \<Rightarrow> Some None
      | Some s \<Rightarrow> if length s \<le> n then Some (if strip s = [] then None else Some (strip s)) else None)"

definition checked_article :: "article_create \<Rightarrow> article_create option" where
  "checked_article p =
     (case (required_text 300 (nw_title p), required_text 50000 (nw_content p), optional_text 1000 (nw_excerpt p)) of
        (Some t, Some c, Some e) \<Rightarrow>
          (if length (nw_images p) \<le> 18 then Some (p\<lparr>nw_title := t, nw_content := c, nw_excerpt := e\<rparr>) else None)
      | _ \<Rightarrow> None)"

text \<open>A field of a patch is \<open>None\<close> when it was not sent; only the excerpt may be null.\<close>

record article_patch =
  ed_title :: "string option"
  ed_content :: "string option"
  ed_excerpt :: "string option option"
  ed_images :: "string list option"
  ed_include :: "bool option"
  ed_revision :: int

definition checked_patch :: "article_patch \<Rightarrow> article_patch option" where
  "checked_patch p =
     (if ed_revision p < 1 \<or> (ed_title p = None \<and> ed_content p = None \<and> ed_excerpt p = None \<and> ed_images p = None \<and> ed_include p = None) \<or>
         (case ed_images p of None \<Rightarrow> False | Some xs \<Rightarrow> 18 < length xs)
      then None
      else case (case ed_title p of None \<Rightarrow> Some None | Some t \<Rightarrow> map_option Some (required_text 300 t),
                 case ed_content p of None \<Rightarrow> Some None | Some t \<Rightarrow> map_option Some (required_text 50000 t),
                 case ed_excerpt p of None \<Rightarrow> Some None | Some t \<Rightarrow> map_option Some (optional_text 1000 t)) of
        (Some t, Some c, Some e) \<Rightarrow> Some (p\<lparr>ed_title := t, ed_content := c, ed_excerpt := e\<rparr>)
      | _ \<Rightarrow> None)"

subsection \<open>Automatic publication\<close>

definition blocking_statuses :: "string list" where
  "blocking_statuses = [''pending'', ''retry_wait'', ''dispatching'', ''reconciling'', ''accepted'', ''published'', ''uncertain'']"

definition active_statuses :: "string list" where
  "active_statuses = [''pending'', ''retry_wait'', ''dispatching'', ''reconciling'', ''accepted'']"

definition failure_statuses :: "string list" where
  "failure_statuses = [''failed'', ''uncertain'']"

definition job_snapshot :: "gen_job option \<Rightarrow> json" where
  "job_snapshot job = (case job of None \<Rightarrow> JObj [] | Some j \<Rightarrow> if is_dict (gj_task_snapshot j) then gj_task_snapshot j else JObj [])"

definition asks_channel :: "string \<Rightarrow> json \<Rightarrow> bool" where
  "asks_channel ch v =
     (case v of JList xs \<Rightarrow> JStr ch \<in> set xs | JStr s \<Rightarrow> text_contains ch s | JObj kvs \<Rightarrow> ch \<in> fst ` set kvs | _ \<Rightarrow> False)"

definition ensure_no_auto_publish_conflict :: "string \<Rightarrow> draft \<Rightarrow> db \<Rightarrow> api_error option" where
  "ensure_no_auto_publish_conflict ch a d =
     (case dr_job_id a of
        None \<Rightarrow> None
      | Some j \<Rightarrow>
          (case find (\<lambda>r. dp_draft_id r = dr_id a \<and> dp_channel r = ch) (dispatches d) of
             Some r \<Rightarrow>
               (if dp_status r \<in> set blocking_statuses \<or>
                   (dp_status r = ''failed'' \<and> dp_article_publish_attempt_id r \<noteq> None \<and> \<not> confirmed_xhs_failure r d)
                then Some (Conflict ''article_auto_publish_conflict'') else None)
           | None \<Rightarrow>
               (let job = gj_get j d in
                if (case job of None \<Rightarrow> False | Some g \<Rightarrow> gj_status g = ''succeeded'') \<and>
                   asks_channel ch (jor (jget (job_snapshot job) ''auto_publish_channels'') (JList []))
                then Some (Conflict ''article_auto_publish_pending'') else None)))"

definition ensure_no_active_auto_publish :: "draft \<Rightarrow> db \<Rightarrow> api_error option" where
  "ensure_no_active_auto_publish a d =
     (case dr_job_id a of
        None \<Rightarrow> None
      | Some j \<Rightarrow>
          (if list_ex (\<lambda>r. dp_draft_id r = dr_id a \<and> dp_status r \<in> set active_statuses) (dispatches d)
           then Some (Conflict ''article_auto_publish_in_progress'')
           else let job = gj_get j d in
             if (case job of None \<Rightarrow> False | Some g \<Rightarrow> gj_status g = ''succeeded'' \<and> gj_publish_outbox_initialized_at g = None) \<and>
                truthy (jget (job_snapshot job) ''auto_publish_channels'')
             then Some (Conflict ''article_auto_publish_pending'') else None))"

subsection \<open>Writing\<close>

definition images_ok :: "int \<Rightarrow> string list \<Rightarrow> volume \<Rightarrow> bool" where
  "images_ok admin imgs vol \<longleftrightarrow> list_all (\<lambda>i. article_image_path i (Some admin) vol \<noteq> None) imgs"

definition user_article :: "time \<Rightarrow> int \<Rightarrow> article_create \<Rightarrow> draft" where
  "user_article now i p =
     \<lparr>dr_id = i, dr_job_id = None, dr_source_tweet_id = None, dr_article_source = ''user'', dr_title = nw_title p,
      dr_content = nw_content p, dr_excerpt = nw_excerpt p, dr_images = nw_images p, dr_publish_status = ''unpublished'',
      dr_publish_channel = None, dr_publish_attempt_id = None, dr_publish_error = None, dr_published_at = None,
      dr_draft_metadata = JNull, dr_revision = 1, dr_created_at = now, dr_updated_at = now\<rparr>"

definition create_article :: "time \<Rightarrow> int \<Rightarrow> article_create \<Rightarrow> db \<times> volume \<Rightarrow> api_error + (db \<times> volume) \<times> draft" where
  "create_article now admin p s =
     (if \<not> images_ok admin (nw_images p) (snd s) then Inl (HttpError 400 ''article_image_invalid'')
      else let a = user_article now (serial (fst s)) p in
        Inr (((fst s)\<lparr>drafts := drafts (fst s) @ [a], serial := serial (fst s) + 1\<rparr>, snd s), a))"

definition unpublished :: "draft \<Rightarrow> draft" where
  "unpublished a = a\<lparr>dr_publish_status := ''unpublished'', dr_publish_channel := None, dr_publish_attempt_id := None,
     dr_publish_error := None, dr_published_at := None\<rparr>"

definition edited_article :: "article_patch \<Rightarrow> draft \<Rightarrow> draft" where
  "edited_article p a =
     unpublished (a\<lparr>dr_title := given (ed_title p) (dr_title a), dr_content := given (ed_content p) (dr_content a),
       dr_excerpt := given (ed_excerpt p) (dr_excerpt a), dr_images := given (ed_images p) (dr_images a),
       dr_draft_metadata := (case ed_include p of None \<Rightarrow> dr_draft_metadata a
         | Some b \<Rightarrow> jset (jor (dr_draft_metadata a) (JObj [])) include_source_key (JBool b)),
       dr_revision := dr_revision a + 1\<rparr>)"

definition put_article :: "draft \<Rightarrow> db \<Rightarrow> db" where
  "put_article a d = d\<lparr>drafts := row_put dr_id a (drafts d)\<rparr>"

text \<open>
  The files that the edit no longer uses are looked up after the commit, with the article as it
  is then.
\<close>

definition update_article :: "(db \<times> volume \<Rightarrow> db \<times> volume) \<Rightarrow> int \<Rightarrow> int \<Rightarrow> article_patch \<Rightarrow> db \<times> volume \<Rightarrow>
    (db \<times> volume) \<times> (api_error + draft)" where
  "update_article between admin i p s =
     (case row_get dr_id i (drafts (fst s)) of
        None \<Rightarrow> (s, Inl (NotFound ''article_not_found''))
      | Some a \<Rightarrow>
          (if dr_publish_status a = ''queued'' then (s, Inl (Conflict ''article_publish_in_progress''))
           else case ensure_no_active_auto_publish a (fst s) of
             Some e \<Rightarrow> (s, Inl e)
           | None \<Rightarrow>
               (if dr_revision a \<noteq> ed_revision p then (s, Inl (Conflict ''article_revision_conflict''))
                else if \<not> images_ok admin (case ed_images p of None \<Rightarrow> [] | Some xs \<Rightarrow> xs) (snd s)
                then (s, Inl (HttpError 400 ''article_image_invalid''))
                else let s1 = between (put_article (edited_article p a) (fst s), snd s) in
                  case row_get dr_id i (drafts (fst s1)) of
                    None \<Rightarrow> (s1, Inl (ServerError ''InvalidRequestError''))
                  | Some a1 \<Rightarrow>
                      ((fst s1, if ed_images p = None then snd s1
                                else clear_unreferenced_article_images (filter (\<lambda>x. x \<notin> set (dr_images a1)) (dr_images a)) (fst s1) (snd s1)),
                       Inr a1))))"

text \<open>The foreign keys remove the publication records and unlink messages.\<close>

definition drop_article :: "int \<Rightarrow> db \<Rightarrow> db" where
  "drop_article i d =
     d\<lparr>drafts := filter (\<lambda>a. dr_id a \<noteq> i) (drafts d),
       publish_attempts := filter (\<lambda>p. pa_article_id p \<noteq> i) (publish_attempts d),
       dispatches := filter (\<lambda>r. dp_draft_id r \<noteq> i) (dispatches d),
       qq_deliveries := row_update (\<lambda>q. qd_article_id q = Some i) (\<lambda>q. q\<lparr>qd_article_id := None\<rparr>) (qq_deliveries d)\<rparr>"

definition delete_article :: "(db \<times> volume \<Rightarrow> db \<times> volume) \<Rightarrow> int \<Rightarrow> db \<times> volume \<Rightarrow> (db \<times> volume) \<times> api_error option" where
  "delete_article between i s =
     (case row_get dr_id i (drafts (fst s)) of
        None \<Rightarrow> (s, Some (NotFound ''article_not_found''))
      | Some a \<Rightarrow>
          (if dr_publish_status a = ''queued'' then (s, Some (Conflict ''article_publish_in_progress''))
           else case ensure_no_active_auto_publish a (fst s) of
             Some e \<Rightarrow> (s, Some e)
           | None \<Rightarrow>
               (let s1 = between (drop_article i (fst s), snd s) in
                ((fst s1, clear_unreferenced_article_images (dr_images a @ article_screenshot_copies a) (fst s1) (snd s1)), None))))"

subsection \<open>Images\<close>

record upload =
  up_name :: string
  up_bytes :: nat
  up_token :: string
  up_fails :: bool

definition upload_suffix :: "upload \<Rightarrow> string" where
  "upload_suffix f = (case path_parts (up_name f) of [] \<Rightarrow> [] | ps \<Rightarrow> lower (path_suffix (last ps)))"

fun store_uploads :: "int \<Rightarrow> upload list \<Rightarrow> string list \<Rightarrow> volume \<Rightarrow> volume \<times> (api_error + string list)" where
  "store_uploads admin [] stored vol = (vol, Inr stored)"
| "store_uploads admin (f # fs) stored vol =
     (if up_bytes f = 0 then (clear_article_images stored vol, Inl (HttpError 400 ''empty_article_image''))
      else if max_article_image_bytes < up_bytes f then (clear_article_images stored vol, Inl (HttpError 413 ''article_image_too_large''))
      else if up_fails f then (clear_article_images stored vol, Inl (ServerError ''OSError''))
      else let n = show_int admin @ ''/'' @ up_token f @ upload_suffix f in
        store_uploads admin fs (stored @ [n]) (write_article_image n (up_bytes f) vol))"

definition upload_article_images :: "int \<Rightarrow> upload list \<Rightarrow> volume \<Rightarrow> volume \<times> (api_error + string list)" where
  "upload_article_images admin fs vol =
     (if 18 < length fs then (vol, Inl (Unprocessable ''too_many_article_images''))
      else if \<not> list_all (\<lambda>f. upload_suffix f \<in> set allowed_image_suffixes) fs then (vol, Inl (HttpError 400 ''unsupported_article_image''))
      else store_uploads admin fs [] vol)"

definition get_article_image :: "int \<Rightarrow> int \<Rightarrow> string \<Rightarrow> volume \<Rightarrow> api_error + string" where
  "get_article_image admin owner name vol =
     (case article_image_path (show_int owner @ ''/'' @ name) (Some admin) vol of
        None \<Rightarrow> Inl (NotFound ''article_image_not_found'')
      | Some p \<Rightarrow> Inr p)"

subsection \<open>The source screenshot\<close>

definition source_screenshot_path :: "pub_env \<Rightarrow> draft \<Rightarrow> db \<Rightarrow> string option" where
  "source_screenshot_path env a d =
     (case dr_source_tweet_id a of
        None \<Rightarrow> None
      | Some t \<Rightarrow>
          (if \<not> article_includes_source_screenshot a then None
           else case row_get tw_id t (tweets d) of
             None \<Rightarrow> None
           | Some tw \<Rightarrow>
               (case row_get ss_tweet_id (tw_tweet_id tw) (screenshots d) of
                  None \<Rightarrow> None
                | Some sh \<Rightarrow> if ss_status sh = ''succeeded'' then screenshot_path (ss_image_path sh) (pe_shots env) else None)))"

definition with_copy :: "string \<Rightarrow> draft \<Rightarrow> draft" where
  "with_copy img a = a\<lparr>dr_draft_metadata := jset (jor (dr_draft_metadata a) (JObj [])) source_copies_key
     (JList (map JStr (uniq (article_screenshot_copies a @ [img]))))\<rparr>"

text \<open>The copy of the screenshot for this article; an error of the copy is no \<open>APIError\<close>.\<close>

definition snapshot_source :: "pub_env \<Rightarrow> draft \<Rightarrow> string option \<Rightarrow> int \<Rightarrow> volume \<Rightarrow> volume \<times> (api_error + draft \<times> string list)" where
  "snapshot_source env a source admin vol =
     (case source of
        None \<Rightarrow> (vol, Inr (a, []))
      | Some src \<Rightarrow>
          (case snapshot_article_screenshot (pe_digest env src) (pe_bytes env src) (pe_copy_error env) (dr_id a) admin vol of
             (v, Inl e) \<Rightarrow> (v, Inl (ServerError ''OSError''))
           | (v, Inr img) \<Rightarrow> (v, Inr (with_copy img a, [img]))))"

subsection \<open>Publication to QQ\<close>

record article_publish =
  ap_channel :: string
  ap_bot_id :: "int option"
  ap_group_openids :: "string list"

definition checked_publish :: "article_publish \<Rightarrow> article_publish option" where
  "checked_publish p =
     (let groups = uniq (filter (\<lambda>g. g \<noteq> []) (map strip (ap_group_openids p))) in
      if ap_channel p \<notin> {''qq'', ''xhs''} \<or> (case ap_bot_id p of None \<Rightarrow> False | Some b \<Rightarrow> b \<le> 0) \<or> 100 < length (ap_group_openids p) \<or>
         (ap_channel p = ''qq'' \<and> (ap_bot_id p = None \<or> groups = []))
      then None else Some (p\<lparr>ap_group_openids := groups\<rparr>))"

definition article_qq_text :: "(string \<Rightarrow> string) \<Rightarrow> draft \<Rightarrow> string" where
  "article_qq_text label a =
     join [CHR 10] [label ''title'' @ dr_title a, label ''excerpt'' @ (case dr_excerpt a of None \<Rightarrow> [] | Some e \<Rightarrow> e), label ''content'' @ dr_content a]"

definition manual_part_key :: "int \<Rightarrow> string \<Rightarrow> string \<Rightarrow> nat \<Rightarrow> string" where
  "manual_part_key i attempt grp k = ''article:'' @ show_int i @ '':'' @ attempt @ '':'' @ grp @ '':'' @ show_nat k"

definition manual_part :: "time \<Rightarrow> int \<Rightarrow> int \<Rightarrow> qq_bot \<Rightarrow> string \<Rightarrow> string \<Rightarrow> nat \<times> string \<times> string option \<Rightarrow> qq_delivery" where
  "manual_part now max_attempts i qbot attempt grp part =
     (case part of (k, body, media) \<Rightarrow>
       \<lparr>qd_id = 0, qd_task_id = None, qd_target_id = None, qd_source_tweet_id = None, qd_article_id = Some i,
        qd_article_publish_attempt_id = Some attempt, qd_sequence = Some (int k), qd_media_path = media, qd_kind = ''article'',
        qd_idempotency_key = manual_part_key i attempt grp k, qd_bot_name = qb_name qbot, qd_bot_app_id = qb_app_id qbot,
        qd_bot_version = qb_version qbot, qd_target_name = grp, qd_group_openid = grp, qd_message_body = Text body,
        qd_status = ''queued'', qd_attempts = 0, qd_max_attempts = max_attempts, qd_next_attempt_at = now,
        qd_lease_expires_at = None, qd_claim_token = None, qd_claimed_by = None, qd_provider_message_id = None,
        qd_last_error = None, qd_started_at = None, qd_completed_at = None, qd_created_at = now, qd_updated_at = now\<rparr>)"

definition manual_deliveries :: "time \<Rightarrow> int \<Rightarrow> int \<Rightarrow> qq_bot \<Rightarrow> string \<Rightarrow> string list \<Rightarrow> (string \<times> string option) list \<Rightarrow> qq_delivery list" where
  "manual_deliveries now max_attempts i qbot attempt groups parts =
     concat (map (\<lambda>g. map (manual_part now max_attempts i qbot attempt g) (enumerate 0 parts)) groups)"

definition queued_article :: "string \<Rightarrow> string \<Rightarrow> draft \<Rightarrow> draft" where
  "queued_article ch attempt a = a\<lparr>dr_publish_status := ''queued'', dr_publish_channel := Some ch, dr_publish_attempt_id := Some attempt,
     dr_publish_error := None, dr_published_at := None\<rparr>"

text \<open>The rows of the publication, with the state of the article and the attempt.\<close>

definition queue_manual :: "time \<Rightarrow> int \<Rightarrow> string \<Rightarrow> qq_bot \<Rightarrow> string list \<Rightarrow> (string \<times> string option) list \<Rightarrow> draft \<Rightarrow> db \<Rightarrow> db \<times> int list" where
  "queue_manual now max_attempts attempt qbot groups parts a d =
     (let rows = manual_deliveries now max_attempts (dr_id a) qbot attempt groups parts in
      add_deliveries rows
        (add_attempt (new_attempt now attempt (dr_id a) ''qq'' (Lit ''groups of a bot'' [qb_name qbot, show_nat (length groups)])
            (int (length rows))) (put_article (queued_article ''qq'' attempt a) d)))"

text \<open>The files of the images, or that one is missing.\<close>

definition image_files :: "int option \<Rightarrow> string list \<Rightarrow> volume \<Rightarrow> string list option" where
  "image_files admin imgs vol = those (map (\<lambda>i. article_image_path i admin vol) imgs)"

definition publish_to_qq :: "pub_env \<Rightarrow> (string \<Rightarrow> string) \<Rightarrow> int \<Rightarrow> time \<Rightarrow> string \<Rightarrow> int \<Rightarrow> article_publish \<Rightarrow> draft \<Rightarrow> db \<times> volume \<Rightarrow>
    (db \<times> volume) \<times> (api_error + int list)" where
  "publish_to_qq env label max_attempts now attempt admin p a s =
     (case (case ap_bot_id p of None \<Rightarrow> None | Some b \<Rightarrow> row_get qb_id b (qq_bots (fst s))) of
        None \<Rightarrow> (s, Inl (Conflict ''qq_bot_disabled''))
      | Some qbot \<Rightarrow>
          (let joined = joined_groups qbot (ap_group_openids p) (fst s) in
           if \<not> qb_is_enabled qbot then (s, Inl (Conflict ''qq_bot_disabled''))
           else if \<not> set (ap_group_openids p) \<subseteq> set joined then (s, Inl (Unprocessable ''qq_group_not_joined''))
           else case image_files None (dr_images a) (snd s) of
             None \<Rightarrow> (s, Inl (HttpError 400 ''article_image_invalid''))
           | Some files \<Rightarrow>
               (case snapshot_source env a (source_screenshot_path env a (fst s)) admin (snd s) of
                  (vol, Inl e) \<Rightarrow> ((fst s, vol), Inl e)
                | (vol, Inr (a1, copy)) \<Rightarrow>
                    (let (d2, ids) = queue_manual now max_attempts attempt qbot (sort (remdups joined))
                                      (qq_parts (article_qq_text label a) (copy @ files)) a1 (fst s) in
                     ((d2, vol), Inr ids)))))"

subsection \<open>Publication to XHS\<close>

text \<open>What the browser worker answers; \<open>Died\<close> is that the process of the route ends meanwhile.\<close>

datatype xhs_reply = Posted | WorkerGone msg | TimedOutReply msg | OtherFailure msg | Died

definition reply_error :: "xhs_reply \<Rightarrow> (nat \<times> msg) option" where
  "reply_error r = (case r of WorkerGone m \<Rightarrow> Some (503, m) | TimedOutReply m \<Rightarrow> Some (504, m) | OtherFailure m \<Rightarrow> Some (502, m) | _ \<Rightarrow> None)"

definition prepare_xhs :: "pub_env \<Rightarrow> time \<Rightarrow> string \<Rightarrow> int \<Rightarrow> draft \<Rightarrow> db \<times> volume \<Rightarrow> (db \<times> volume) \<times> (api_error + string list)" where
  "prepare_xhs env now attempt admin a s =
     (let source = source_screenshot_path env a (fst s) in
      if dr_images a = [] \<and> source = None then (s, Inl (Unprocessable ''xhs_images_required''))
      else if 18 < length (dr_images a) + (if source = None then 0 else 1) then (s, Inl (Unprocessable ''too_many_article_images''))
      else if xhs_note_title_max_length < length (dr_title a) then (s, Inl (Unprocessable ''xhs_title_too_long''))
      else if xhs_note_content_max_length < length (dr_content a) then (s, Inl (Unprocessable ''xhs_content_too_long''))
      else if \<not> pe_has_credentials env admin then (s, Inl (Conflict ''xhs_credentials_not_configured''))
      else case image_files (Some admin) (dr_images a) (snd s) of
        None \<Rightarrow> (s, Inl (HttpError 400 ''article_image_invalid''))
      | Some files \<Rightarrow>
          (case snapshot_source env a source admin (snd s) of
             (vol, Inl e) \<Rightarrow> ((fst s, vol), Inl e)
           | (vol, Inr (a1, copy)) \<Rightarrow>
               ((add_attempt (new_attempt now attempt (dr_id a) ''xhs'' (Lit ''the current XHS account'' []) 1)
                   (put_article (queued_article ''xhs'' attempt a1) (fst s)), vol), Inr (copy @ files))))"

text \<open>The second transaction writes the rows as they were read in the first one.\<close>

definition closed_article :: "time \<Rightarrow> (nat \<times> msg) option \<Rightarrow> draft \<Rightarrow> draft" where
  "closed_article now failure a =
     (case failure of
        Some (_, m) \<Rightarrow> a\<lparr>dr_publish_status := ''failed'', dr_publish_error := Some (clip 2000 m)\<rparr>
      | None \<Rightarrow> a\<lparr>dr_publish_status := ''published'', dr_published_at := Some now\<rparr>)"

definition closed_manual :: "time \<Rightarrow> (nat \<times> msg) option \<Rightarrow> publish_attempt \<Rightarrow> publish_attempt" where
  "closed_manual now failure p =
     (case failure of
        Some (_, m) \<Rightarrow> p\<lparr>pa_status := ''failed'', pa_error := Some (clip 2000 m), pa_completed_at := Some now\<rparr>
      | None \<Rightarrow> p\<lparr>pa_status := ''published'', pa_error := None, pa_completed_at := Some now\<rparr>)"

definition close_xhs :: "time \<Rightarrow> string \<Rightarrow> int \<Rightarrow> (nat \<times> msg) option \<Rightarrow> db \<Rightarrow> db option" where
  "close_xhs now attempt i failure d =
     (if i \<notin> dr_id ` set (drafts d) \<or> attempt \<notin> pa_attempt_id ` set (publish_attempts d) then None
      else Some (d\<lparr>drafts := row_update (\<lambda>a. dr_id a = i) (closed_article now failure) (drafts d),
                   publish_attempts := row_update (\<lambda>p. pa_attempt_id p = attempt) (closed_manual now failure) (publish_attempts d)\<rparr>))"

definition publish_to_xhs :: "pub_env \<Rightarrow> time \<Rightarrow> string \<Rightarrow> int \<Rightarrow> (db \<times> volume \<Rightarrow> db \<times> volume) \<Rightarrow> xhs_reply \<Rightarrow> time \<Rightarrow> draft \<Rightarrow> db \<times> volume \<Rightarrow>
    (db \<times> volume) \<times> (api_error + int list)" where
  "publish_to_xhs env now attempt admin between reply now' a s =
     (case prepare_xhs env now attempt admin a s of
        (s1, Inl e) \<Rightarrow> (s1, Inl e)
      | (s1, Inr files) \<Rightarrow>
          (let s2 = between s1 in
           if reply = Died then (s2, Inl (ServerError ''process ended''))
           else case close_xhs now' attempt (dr_id a) (reply_error reply) (fst s2) of
             None \<Rightarrow> (s2, Inl (ServerError ''StaleDataError''))
           | Some d \<Rightarrow>
               ((d, snd s2), case reply_error reply of None \<Rightarrow> Inr [] | Some (st, m) \<Rightarrow> Inl (HttpError st ''article_xhs_publish_failed''))))"

text \<open>\<open>pi_attempt\<close> is the fresh identifier of the publication.\<close>

record publish_io =
  pi_attempt :: string
  pi_started :: time
  pi_finished :: time
  pi_reply :: xhs_reply

text \<open>\<open>between\<close> is what other requests do while the browser worker has the note.\<close>

definition publish_by_hand :: "pub_env \<Rightarrow> (string \<Rightarrow> string) \<Rightarrow> int \<Rightarrow> (db \<times> volume \<Rightarrow> db \<times> volume) \<Rightarrow> publish_io \<Rightarrow> int \<Rightarrow> int \<Rightarrow> article_publish \<Rightarrow> db \<times> volume \<Rightarrow>
    (db \<times> volume) \<times> (api_error + int list)" where
  "publish_by_hand env label max_attempts between io admin i p s =
     (case row_get dr_id i (drafts (fst s)) of
        None \<Rightarrow> (s, Inl (NotFound ''article_not_found''))
      | Some a \<Rightarrow>
          (if dr_publish_status a = ''queued'' then (s, Inl (Conflict ''article_publish_in_progress''))
           else case ensure_no_auto_publish_conflict (ap_channel p) a (fst s) of
             Some e \<Rightarrow> (s, Inl e)
           | None \<Rightarrow>
               (if ap_channel p = ''qq''
                then publish_to_qq env label max_attempts (pi_started io) (pi_attempt io) admin p a s
                else publish_to_xhs env (pi_started io) (pi_attempt io) admin between (pi_reply io) (pi_finished io) a s)))"

subsection \<open>Listing\<close>

definition publish_filter :: "string \<Rightarrow> db \<Rightarrow> draft \<Rightarrow> bool" where
  "publish_filter st d a =
     (let has = (\<lambda>states. list_ex (\<lambda>r. dp_draft_id r = dr_id a \<and> dp_status r \<in> set states) (dispatches d)) in
      if st = ''published'' then dr_publish_status a = ''published'' \<or> has [''published'']
      else if st = ''queued'' then dr_publish_status a = ''queued'' \<or> has active_statuses
      else if st = ''failed'' then dr_publish_status a = ''failed'' \<or> has failure_statuses
      else dr_publish_status a = ''unpublished'' \<and> \<not> list_ex (\<lambda>r. dp_draft_id r = dr_id a) (dispatches d))"

text \<open>The regular expressions \<open>[0-9]{1,32}\<close>, \<open>[A-Za-z0-9_]{1,15}\<close> and \<open>/name/status/id/?\<close>.\<close>

definition x_id_ok :: "string \<Rightarrow> bool" where
  "x_id_ok s \<longleftrightarrow> 1 \<le> length s \<and> length s \<le> 32 \<and> list_all is_digit s"

definition x_name_ok :: "string \<Rightarrow> bool" where
  "x_name_ok s \<longleftrightarrow> 1 \<le> length s \<and> length s \<le> 15 \<and> list_all (\<lambda>c. is_alpha c \<or> is_digit c \<or> c = CHR ''_'') s"

definition status_path :: "string \<Rightarrow> (string \<times> string) option" where
  "status_path path =
     (case split_on CHR ''/'' path of
        e # n # s # i # t \<Rightarrow>
          (if e = [] \<and> x_name_ok n \<and> s = ''status'' \<and> x_id_ok i \<and> t \<in> {[], [[]]} then Some (n, i) else None)
      | _ \<Rightarrow> None)"

definition x_status_url :: "string \<Rightarrow> string \<Rightarrow> string" where
  "x_status_url name i = ''https://x.com/'' @ name @ ''/status/'' @ i"

definition stored_name :: "(string \<Rightarrow> bool) \<Rightarrow> tweet \<Rightarrow> string option" where
  "stored_name brackets_ok t =
     (case (if is_dict (tw_raw_payload t) then jget (tw_raw_payload t) ''source_url'' else JNull) of
        JStr stored \<Rightarrow>
          (case urlsplit brackets_ok stored of
             None \<Rightarrow> None
           | Some u \<Rightarrow>
               (case status_path (url_path u) of
                  None \<Rightarrow> None
                | Some (n, i) \<Rightarrow>
                    (if url_scheme u = ''https'' \<and>
                        url_hostname u \<in> {Some ''x.com'', Some ''www.x.com'', Some ''twitter.com'', Some ''www.twitter.com''} \<and>
                        url_username u = None \<and> url_password u = None \<and> url_port u \<in> {NoPort, Port 443} \<and> i = tw_tweet_id t
                     then Some n else None)))
      | _ \<Rightarrow> None)"

definition source_url :: "(string \<Rightarrow> bool) \<Rightarrow> tweet \<Rightarrow> string \<Rightarrow> string option" where
  "source_url brackets_ok t username =
     (if \<not> x_id_ok (tw_tweet_id t) then None
      else case stored_name brackets_ok t of
        Some n \<Rightarrow> Some (x_status_url n (tw_tweet_id t))
      | None \<Rightarrow> if x_name_ok username then Some (x_status_url username (tw_tweet_id t)) else None)"

record article_shot =
  sc_tweet_id :: string
  sc_captured_at :: "time option"
  sc_sha256 :: "string option"

definition article_source_of :: "(string \<Rightarrow> bool) \<Rightarrow> string list \<Rightarrow> int option \<Rightarrow> db \<Rightarrow> string option \<times> article_shot option" where
  "article_source_of brackets_ok shots source d =
     (case (case source of None \<Rightarrow> None | Some i \<Rightarrow> row_get tw_id i (tweets d)) of
        None \<Rightarrow> (None, None)
      | Some t \<Rightarrow>
          (case row_get mu_id (tw_monitored_user_id t) (monitored_users d) of
             None \<Rightarrow> (None, None)
           | Some u \<Rightarrow>
               (source_url brackets_ok t (mu_username u),
                case row_get ss_tweet_id (tw_tweet_id t) (screenshots d) of
                  None \<Rightarrow> None
                | Some sh \<Rightarrow>
                    (if ss_status sh = ''succeeded'' \<and> screenshot_path (ss_image_path sh) shots \<noteq> None
                     then Some \<lparr>sc_tweet_id = tw_tweet_id t, sc_captured_at = ss_captured_at sh, sc_sha256 = ss_sha256 sh\<rparr>
                     else None))))"

text \<open>\<open>dispatches_by_draft\<close> and \<open>dispatches_by_job\<close>: one list for each key, by id.\<close>

definition dispatches_by :: "(publish_dispatch \<Rightarrow> int) \<Rightarrow> int list \<Rightarrow> db \<Rightarrow> int \<Rightarrow> publish_dispatch list" where
  "dispatches_by key ids d k = (if k \<in> set ids then sort_key dp_id (filter (\<lambda>r. key r = k) (dispatches d)) else [])"

record article_out =
  ao_article :: draft
  ao_source_url :: "string option"
  ao_source_screenshot :: "article_shot option"
  ao_include :: bool
  ao_dispatches :: "publish_dispatch list"

definition article_out_of :: "string option \<times> article_shot option \<Rightarrow> publish_dispatch list \<Rightarrow> draft \<Rightarrow> article_out" where
  "article_out_of source rs a =
     \<lparr>ao_article = a, ao_source_url = fst source,
      ao_source_screenshot = (if article_includes_source_screenshot a then snd source else None),
      ao_include = article_includes_source_screenshot a, ao_dispatches = rs\<rparr>"

record article_query =
  lq_page :: nat
  lq_page_size :: nat
  lq_keyword :: "string option"
  lq_source :: "string option"
  lq_status :: "string option"

definition article_matches :: "article_query \<Rightarrow> db \<Rightarrow> draft \<Rightarrow> bool" where
  "article_matches q d a \<longleftrightarrow>
     (let k = (case lq_keyword q of None \<Rightarrow> [] | Some s \<Rightarrow> strip s) in
      (k = [] \<or> text_contains k (dr_title a) \<or> text_contains k (dr_content a) \<or> (case dr_excerpt a of None \<Rightarrow> False | Some e \<Rightarrow> text_contains k e)) \<and>
      (case lq_source q of None \<Rightarrow> True | Some s \<Rightarrow> dr_article_source a = s) \<and>
      (case lq_status q of None \<Rightarrow> True | Some s \<Rightarrow> publish_filter s d a))"

definition list_articles :: "(string \<Rightarrow> bool) \<Rightarrow> string list \<Rightarrow> article_query \<Rightarrow> db \<Rightarrow> article_out page" where
  "list_articles brackets_ok shots q d =
     (let rows = listing (article_matches q d) (order_desc dr_updated_at dr_id) (lq_page q) (lq_page_size q) (drafts d);
          ids = map dr_id (filter (\<lambda>a. dr_job_id a \<noteq> None) (pg_items rows)) in
      \<lparr>pg_items = map (\<lambda>a. article_out_of (article_source_of brackets_ok shots (dr_source_tweet_id a) d)
                                (dispatches_by dp_draft_id ids d (dr_id a)) a) (pg_items rows),
       pg_total = pg_total rows\<rparr>)"

definition article_publish_history :: "int \<Rightarrow> nat \<Rightarrow> nat \<Rightarrow> db \<Rightarrow> api_error + publish_attempt page" where
  "article_publish_history i k n d =
     (if row_get dr_id i (drafts d) = None then Inl (NotFound ''article_not_found'')
      else Inr (listing (\<lambda>p. pa_article_id p = i)
             (\<lambda>rows. sort_key (\<lambda>p. - pa_created_at p) (rev (sort_key pa_attempt_id rows))) k n (publish_attempts d)))"

end
