(* ===== verification/ArticleSafety.thy ===== *)
theory ArticleSafety
  imports ArticleRoutes PublishSafety
begin

text \<open>
  Properties of the article routes: edits of one revision apply once, an article that is being
  published is locked until the publication is closed, a manual QQ publication is complete.
\<close>

subsection \<open>Requests\<close>

text \<open>
  A request with the requests that run in its gap: the time between the commit of an edit and the
  clearing of files, or between the two transactions of a publication to XHS.
\<close>

datatype article_req =
    CreateArticle time int article_create
  | UpdateArticle "article_req list" int int article_patch
  | DeleteArticle "article_req list" int
  | PublishArticle "article_req list" publish_io int int article_publish
  | PatchDraft int draft_patch
  | UploadImages int "upload list"

fun article_step :: "pub_env \<Rightarrow> (string \<Rightarrow> string) \<Rightarrow> int \<Rightarrow> article_req \<Rightarrow> db \<times> volume \<Rightarrow> db \<times> volume"
  and article_steps :: "pub_env \<Rightarrow> (string \<Rightarrow> string) \<Rightarrow> int \<Rightarrow> article_req list \<Rightarrow> db \<times> volume \<Rightarrow> db \<times> volume" where
  "article_step env label m (CreateArticle now admin p) s =
     (case checked_article p of None \<Rightarrow> s | Some p' \<Rightarrow> (case create_article now admin p' s of Inl e \<Rightarrow> s | Inr (s', a) \<Rightarrow> s'))"
| "article_step env label m (UpdateArticle rs admin i p) s =
     (case checked_patch p of None \<Rightarrow> s | Some p' \<Rightarrow> fst (update_article (\<lambda>t. article_steps env label m rs t) admin i p' s))"
| "article_step env label m (DeleteArticle rs i) s = fst (delete_article (\<lambda>t. article_steps env label m rs t) i s)"
| "article_step env label m (PublishArticle rs io admin i p) s =
     (case checked_publish p of None \<Rightarrow> s
      | Some p' \<Rightarrow> fst (publish_by_hand env label m (\<lambda>t. article_steps env label m rs t) io admin i p' s))"
| "article_step env label m (PatchDraft i p) s = (case patch_ai_draft i p (fst s) of Inl e \<Rightarrow> s | Inr (d, a) \<Rightarrow> (d, snd s))"
| "article_step env label m (UploadImages admin fs) s = (fst s, fst (upload_article_images admin fs (snd s)))"
| "article_steps env label m [] s = s"
| "article_steps env label m (r # rs) s = article_steps env label m rs (article_step env label m r s)"

subsection \<open>The effect of each operation on the articles\<close>

lemma row_get_append: "row_get key k (rows @ more') = (case row_get key k rows of None \<Rightarrow> row_get key k more' | Some r \<Rightarrow> Some r)"
  by (simp add: row_get_def find_append split: option.split)

lemma row_get_filter_key: "row_get key k (filter (\<lambda>r. key r \<noteq> j) rows) = (if k = j then None else row_get key k rows)"
  by (induction rows) (auto simp: row_get_def)

lemma drafts_put [simp]: "drafts (put_article a d) = row_put dr_id a (drafts d)"
    "serial (put_article a d) = serial d" "publish_attempts (put_article a d) = publish_attempts d"
  by (simp_all add: put_article_def)

lemma add_attempt_sel [simp]: "drafts (add_attempt p d) = drafts d" "serial (add_attempt p d) = serial d"
    "publish_attempts (add_attempt p d) = publish_attempts d @ [p]"
  by (simp_all add: add_attempt_def)

lemma add_deliveries_sel [simp]: "drafts (fst (add_deliveries rows d)) = drafts d"
    "serial (fst (add_deliveries rows d)) = serial d + int (length rows)"
    "publish_attempts (fst (add_deliveries rows d)) = publish_attempts d"
  by (simp_all add: add_deliveries_def Let_def)

text \<open>The article with the mark of a publication, and the metadata of a copied screenshot.\<close>

definition marked :: "string \<Rightarrow> string \<Rightarrow> json \<Rightarrow> draft \<Rightarrow> draft" where
  "marked ch attempt md a = queued_article ch attempt (a\<lparr>dr_draft_metadata := md\<rparr>)"

lemma marked_sel [simp]: "dr_id (marked ch t md a) = dr_id a" "dr_revision (marked ch t md a) = dr_revision a"
    "dr_publish_status (marked ch t md a) = ''queued''" "dr_publish_attempt_id (marked ch t md a) = Some t"
    "dr_images (marked ch t md a) = dr_images a" "dr_publish_channel (marked ch t md a) = Some ch"
  by (simp_all add: marked_def queued_article_def)

lemma draft_id_queued: "dr_id (queued_article ch t a) = dr_id a"
  by (simp add: queued_article_def)

lemma snapshot_marked:
  assumes "snapshot_source env a src admin vol = (v, Inr (a1, copy))"
  obtains md where "queued_article ch t a1 = marked ch t md a"
proof -
  have "a = a\<lparr>dr_draft_metadata := dr_draft_metadata a\<rparr>" by simp
  then have self: "\<exists>md. a = a\<lparr>dr_draft_metadata := md\<rparr>" ..
  have "\<exists>md. a1 = a\<lparr>dr_draft_metadata := md\<rparr>"
  proof (cases src)
    case None
    with assms self show ?thesis by (simp add: snapshot_source_def)
  next
    case (Some x)
    with assms show ?thesis by (auto simp: snapshot_source_def with_copy_def split: prod.splits sum.splits)
  qed
  then show thesis using that by (auto simp: marked_def)
qed

definition xhs_attempt :: "time \<Rightarrow> string \<Rightarrow> int \<Rightarrow> publish_attempt" where
  "xhs_attempt now t i = new_attempt now t i ''xhs'' (Lit ''the current XHS account'' []) 1"

lemma queue_manual_effect:
  "\<exists>target n rows. queue_manual now m t qbot gs parts a d =
     add_deliveries rows (add_attempt (new_attempt now t (dr_id a) ''qq'' target n) (put_article (queued_article ''qq'' t a) d))"
  unfolding queue_manual_def Let_def by blast

lemma publish_to_qq_effect:
  assumes "publish_to_qq env label m now t admin p a s = (s', res)"
  shows "case res of Inl e \<Rightarrow> fst s' = fst s
    | Inr ids \<Rightarrow> \<exists>md target n rows. fst s' = fst (add_deliveries rows (add_attempt (new_attempt now t (dr_id a) ''qq'' target n) (put_article (marked ''qq'' t md a) (fst s))))"
proof (cases res)
  case (Inl e)
  with assms show ?thesis by (auto simp: publish_to_qq_def Let_def split: option.splits if_splits prod.splits sum.splits)
next
  case (Inr ids)
  with assms obtain qbot gs parts src v a1 copy where e: "queue_manual now m t qbot gs parts a1 (fst s) = (fst s', ids)"
      "snapshot_source env a src admin (snd s) = (v, Inr (a1, copy))"
    by (auto simp: publish_to_qq_def Let_def split: option.splits if_splits prod.splits sum.splits)
  obtain md where md: "queued_article ''qq'' t a1 = marked ''qq'' t md a" by (rule snapshot_marked[OF e(2)])
  then have "dr_id a1 = dr_id a" by (metis marked_sel(1) draft_id_queued)
  with queue_manual_effect[of now m t qbot gs parts a1 "fst s"] e(1) md Inr show ?thesis by (auto, metis fst_conv)
qed

lemma prepare_xhs_effect:
  assumes "prepare_xhs env now t admin a s = (s1, r)"
  shows "case r of Inl e \<Rightarrow> fst s1 = fst s
    | Inr fs \<Rightarrow> \<exists>md. fst s1 = add_attempt (xhs_attempt now t (dr_id a)) (put_article (marked ''xhs'' t md a) (fst s))"
  using assms
  by (auto simp: prepare_xhs_def Let_def xhs_attempt_def split: option.splits if_splits prod.splits sum.splits
      elim!: snapshot_marked [where ch = "''xhs''" and t = t])

lemma close_xhs_drafts:
  assumes "close_xhs now t i f d = Some d'"
  shows "serial d' = serial d" "row_get dr_id k (drafts d') = map_option (\<lambda>a. if dr_id a = i then closed_article now f a else a) (row_get dr_id k (drafts d))"
    "map pa_article_id (publish_attempts d') = map pa_article_id (publish_attempts d)"
    "map pa_attempt_id (publish_attempts d') = map pa_attempt_id (publish_attempts d)"
  using assms
  by (auto simp: close_xhs_def row_get_update closed_article_def closed_manual_def split: if_splits option.splits)

subsection \<open>Revisions only grow\<close>

definition later :: "db \<Rightarrow> db \<Rightarrow> bool" where
  "later d d' \<longleftrightarrow> serial d \<le> serial d' \<and>
     (\<forall>i a'. i < serial d \<longrightarrow> row_get dr_id i (drafts d') = Some a' \<longrightarrow>
       (\<exists>a. row_get dr_id i (drafts d) = Some a \<and> dr_revision a \<le> dr_revision a'))"

lemma later_refl [simp]: "later d d"
  by (simp add: later_def)

lemma later_serial: "later d d' \<Longrightarrow> serial d \<le> serial d'"
  by (simp add: later_def)

lemma later_revision:
  "later d d' \<Longrightarrow> i < serial d \<Longrightarrow> row_get dr_id i (drafts d') = Some a' \<Longrightarrow>
    \<exists>a. row_get dr_id i (drafts d) = Some a \<and> dr_revision a \<le> dr_revision a'"
  by (simp add: later_def)

lemma later_trans:
  assumes "later d1 d2" and "later d2 d3"
  shows "later d1 d3"
proof -
  have "\<exists>a. row_get dr_id i (drafts d1) = Some a \<and> dr_revision a \<le> dr_revision c"
    if i: "i < serial d1" and c: "row_get dr_id i (drafts d3) = Some c" for i c
  proof -
    have "i < serial d2" using i later_serial[OF assms(1)] by simp
    from later_revision[OF assms(2) this c] obtain b
      where b: "row_get dr_id i (drafts d2) = Some b" "dr_revision b \<le> dr_revision c" by blast
    from later_revision[OF assms(1) i b(1)] b(2) show ?thesis by fastforce
  qed
  with later_serial[OF assms(1)] later_serial[OF assms(2)] show ?thesis by (simp add: later_def)
qed

lemma later_same: "drafts d' = drafts d \<Longrightarrow> serial d \<le> serial d' \<Longrightarrow> later d d'"
  by (auto simp: later_def)

lemma later_put:
  assumes "row_get dr_id i (drafts d) = Some a" and "dr_id a' = i" and "dr_revision a \<le> dr_revision a'"
  shows "later d (put_article a' d)"
  using assms by (auto simp: later_def row_get_put split: if_splits)

lemma later_create: "dr_id a = serial d \<Longrightarrow> later d (d\<lparr>drafts := drafts d @ [a], serial := serial d + 1\<rparr>)"
  by (auto simp: later_def row_get_append split: option.splits) (simp add: row_get_def)

lemma later_drop: "later d (drop_article i d)"
  by (auto simp: later_def drop_article_def row_get_filter_key split: if_splits)

lemma edited_sel [simp]: "dr_id (edited_article p a) = dr_id a" "dr_revision (edited_article p a) = dr_revision a + 1"
  by (simp_all add: edited_article_def unpublished_def)

lemma patched_sel [simp]: "dr_id (patched_draft p a) = dr_id a" "dr_revision (patched_draft p a) = dr_revision a + 1"
    "dr_publish_status (patched_draft p a) = dr_publish_status a" "dr_publish_attempt_id (patched_draft p a) = dr_publish_attempt_id a"
    "dr_images (patched_draft p a) = dr_images a" "dr_publish_channel (patched_draft p a) = dr_publish_channel a"
  by (simp_all add: patched_draft_def)

lemma later_close:
  assumes "close_xhs now t i f d = Some d'"
  shows "later d d'"
  unfolding later_def close_xhs_drafts[OF assms]
  by (auto simp: closed_article_def split: option.splits)

lemma update_later:
  assumes "\<And>t. later (fst t) (fst (between t))"
  shows "later (fst s) (fst (fst (update_article between admin i p s)))"
proof -
  have "later (fst s) (fst (between (put_article (edited_article p a) (fst s), snd s)))"
    if "row_get dr_id i (drafts (fst s)) = Some a" for a
    by (rule later_trans[OF later_put[OF that] assms [where t = "(put_article (edited_article p a) (fst s), snd s)", simplified]])
      (use row_get_Some[OF that] in auto)
  then show ?thesis by (auto simp: update_article_def Let_def split: option.split)
qed

lemma delete_later:
  assumes "\<And>t. later (fst t) (fst (between t))"
  shows "later (fst s) (fst (fst (delete_article between i s)))"
  using later_trans[OF later_drop assms [where t = "(drop_article i (fst s), snd s)", simplified]]
  by (auto simp: delete_article_def Let_def split: option.split)

lemma later_marked:
  assumes "row_get dr_id i (drafts d) = Some a"
  shows "later d (add_attempt p (put_article (marked ch t md a) d))"
  by (rule later_trans[OF later_put[OF assms] later_same]) (use row_get_Some[OF assms] in auto)

lemma publish_later:
  assumes gap: "\<And>t. later (fst t) (fst (between t))"
  shows "later (fst s) (fst (fst (publish_by_hand env label m between io admin i p s)))"
proof -
  have qq: "later (fst s) (fst (fst (publish_to_qq env label m now t admin p a s)))"
    if a: "row_get dr_id i (drafts (fst s)) = Some a" for now t a
  proof -
    obtain s' res where e: "publish_to_qq env label m now t admin p a s = (s', res)" by fastforce
    from publish_to_qq_effect[OF e] show ?thesis
      using later_trans[OF later_marked[OF a] later_same] by (auto simp: e split: sum.splits)
  qed
  have xhs: "later (fst s) (fst (fst (publish_to_xhs env now t admin between r now' a s)))"
    if a: "row_get dr_id i (drafts (fst s)) = Some a" for now t r now' a
  proof -
    obtain s1 res where e: "prepare_xhs env now t admin a s = (s1, res)" by fastforce
    from prepare_xhs_effect[OF e] have "later (fst s) (fst s1)"
      using later_marked[OF a] by (auto split: sum.splits)
    with gap have "later (fst s) (fst (between s1))" by (rule later_trans[rotated])
    with \<open>later (fst s) (fst s1)\<close> show ?thesis
      by (auto simp: publish_to_xhs_def e Let_def split: sum.splits option.splits dest: later_close intro: later_trans)
  qed
  from qq xhs show ?thesis by (auto simp: publish_by_hand_def split: option.split)
qed

lemma steps_later:
  "later (fst s) (fst (article_step env label m r s))"
  "later (fst s) (fst (article_steps env label m rs s))"
proof (induction env label m r s and env label m rs s rule: article_step_article_steps.induct)
  case (1 env label m now admin p s)
  then show ?case
    by (auto simp: create_article_def Let_def user_article_def split: option.split sum.split intro!: later_create)
next
  case (2 env label m rs admin i p s)
  then show ?case by (auto intro: update_later split: option.split)
next
  case (3 env label m rs i s)
  then show ?case by (auto intro: delete_later)
next
  case (4 env label m rs io admin i p s)
  then show ?case by (auto intro: publish_later split: option.split)
next
  case (5 env label m i p s)
  show ?case
    by (auto simp: patch_ai_draft_def split: option.split)
      (auto dest: row_get_Some intro!: later_put simp flip: put_article_def)
next
  case (8 env label m r rs s)
  then show ?case by (auto intro: later_trans)
qed simp_all

text \<open>
  C36: No edit of an article is lost. After an edit has been applied, every other edit that
  was made from the same revision is refused and changes nothing, whatever requests ran in
  between: the revision of an article never goes back and the id of a deleted one is not used again.
\<close>

theorem edits_apply_once:
  assumes "i < serial (fst s)" and "update_article (article_steps env label m rs) admin i p s = (s1, Inr a)"
    and "ed_revision q = ed_revision p"
  shows "\<exists>e. update_article between other i q (article_steps env label m rs' s1) = (article_steps env label m rs' s1, Inl e)"
proof -
  let ?s2 = "article_steps env label m rs' s1"
  from assms(2) obtain a0 where a0: "row_get dr_id i (drafts (fst s)) = Some a0" "dr_revision a0 = ed_revision p"
      "row_get dr_id i (drafts (fst s1)) = Some a"
      "fst s1 = fst (article_steps env label m rs (put_article (edited_article p a0) (fst s), snd s))"
    by (auto simp: update_article_def Let_def split: option.splits if_splits simp del: row_get_None)
  have id: "dr_id a0 = i" using row_get_Some[OF a0(1)] by simp
  have "later (put_article (edited_article p a0) (fst s)) (fst s1)"
    using steps_later(2)[of "(put_article (edited_article p a0) (fst s), snd s)" env label m rs] a0(4) by simp
  moreover have "row_get dr_id i (drafts (put_article (edited_article p a0) (fst s))) = Some (edited_article p a0)"
    using row_get_put_same[OF a0(1), of "edited_article p a0"] id by simp
  ultimately have "later (put_article (edited_article p a0) (fst s)) (fst ?s2)"
    using steps_later(2) later_trans by blast
  then have "\<And>a2. row_get dr_id i (drafts (fst ?s2)) = Some a2 \<Longrightarrow> dr_revision a0 + 1 \<le> dr_revision a2"
    using assms(1) \<open>row_get dr_id i (drafts (put_article (edited_article p a0) (fst s))) = Some _\<close>
    by (fastforce simp: later_def)
  then show ?thesis using a0(2) assms(3)
    by (fastforce simp: update_article_def split: option.split)
qed

definition sample_article :: draft where
  "sample_article = (user_article 0 1 \<lparr>nw_title = ''t'', nw_content = ''c'', nw_excerpt = None, nw_images = [''1/a.png'']\<rparr>)"

definition sample_state :: "db \<times> volume" where
  "sample_state = (empty_db\<lparr>drafts := [sample_article], serial := 2\<rparr>, [(''1/a.png'', 3)])"

definition sample_edit :: article_patch where
  "sample_edit = \<lparr>ed_title = Some ''u'', ed_content = None, ed_excerpt = None, ed_images = None, ed_include = None, ed_revision = 1\<rparr>"

lemma sample_article_sel [simp]: "dr_id sample_article = 1" "dr_job_id sample_article = None"
    "dr_publish_status sample_article = ''unpublished''" "dr_revision sample_article = 1" "dr_images sample_article = [''1/a.png'']"
    "length (dr_title sample_article) = 1" "length (dr_content sample_article) = 1" "dr_source_tweet_id sample_article = None"
  by (simp_all add: sample_article_def user_article_def)

lemma sample_edit_sel [simp]: "ed_revision sample_edit = 1" "ed_images sample_edit = None"
  by (simp_all add: sample_edit_def)

lemma sample_row: "row_get dr_id 1 (drafts (fst sample_state)) = Some sample_article"
  by (simp add: sample_state_def sample_article_def user_article_def row_get_def)

lemma sample_row_put: "row_get dr_id 1 (drafts (put_article (edited_article p sample_article) (fst sample_state))) = Some (edited_article p sample_article)"
  by (rule row_get_put_same[OF sample_row, of "edited_article p sample_article", folded drafts_put]) simp

theorem edits_apply_once_witness:
  "\<exists>e s1 a. update_article (article_steps sample_pub_env id 3 []) 1 1 sample_edit sample_state = (s1, Inr a) \<and>
     update_article id 2 1 (sample_edit\<lparr>ed_title := Some ''v''\<rparr>) s1 = (s1, Inl e)"
proof -
  have "update_article (article_steps sample_pub_env id 3 []) 1 1 sample_edit sample_state =
      ((put_article (edited_article sample_edit sample_article) (fst sample_state), snd sample_state), Inr (edited_article sample_edit sample_article))"
    unfolding update_article_def sample_row using sample_row_put
    by (simp add: Let_def ensure_no_active_auto_publish_def images_ok_def)
  from this edits_apply_once[OF _ this, of "sample_edit\<lparr>ed_title := Some ''v''\<rparr>" id 2 "[]"] show ?thesis
    by (auto simp: sample_state_def)
qed

subsection \<open>A queued article is locked\<close>

definition publications_of :: "int \<Rightarrow> db \<Rightarrow> string list" where
  "publications_of i d = map pa_attempt_id (filter (\<lambda>p. pa_article_id p = i) (publish_attempts d))"

definition same_publication :: "draft \<Rightarrow> draft \<Rightarrow> bool" where
  "same_publication a b \<longleftrightarrow> dr_publish_status b = dr_publish_status a \<and> dr_publish_channel b = dr_publish_channel a \<and>
     dr_publish_attempt_id b = dr_publish_attempt_id a \<and> dr_images b = dr_images a"

definition locked :: "draft \<Rightarrow> string list \<Rightarrow> db \<Rightarrow> bool" where
  "locked a ts d \<longleftrightarrow> dr_publish_status a = ''queued'' \<and> publications_of (dr_id a) d = ts \<and>
     (\<exists>b. row_get dr_id (dr_id a) (drafts d) = Some b \<and> same_publication a b)"

lemma locked_row:
  assumes "locked a ts d" and "row_get dr_id (dr_id a) (drafts d) = Some b"
  shows "dr_publish_status b = ''queued''"
  using assms by (auto simp: locked_def same_publication_def)

lemma locked_put: "locked a ts d \<Longrightarrow> dr_id b \<noteq> dr_id a \<Longrightarrow> locked a ts (put_article b d)"
  by (simp add: locked_def row_get_put publications_of_def)

lemma locked_patch:
  assumes "locked a ts d" and "row_get dr_id i (drafts d) = Some b"
  shows "locked a ts (put_article (patched_draft p b) d)"
proof (cases "i = dr_id a")
  case True
  have "row_get dr_id (dr_id a) (drafts (put_article (patched_draft p b) d)) = Some (patched_draft p b)"
    using assms(2) True row_get_Some[OF assms(2)] by (simp add: row_get_put_same)
  then show ?thesis using assms True by (auto simp: locked_def publications_of_def same_publication_def)
next
  case False
  then show ?thesis using assms(1) row_get_Some[OF assms(2)] by (simp add: locked_put)
qed

lemma locked_attempt: "locked a ts d \<Longrightarrow> pa_article_id p \<noteq> dr_id a \<Longrightarrow> locked a ts (add_attempt p d)"
  by (simp add: locked_def publications_of_def)

lemma locked_deliveries: "locked a ts d \<Longrightarrow> locked a ts (fst (add_deliveries rows d))"
  by (simp add: locked_def publications_of_def)

lemma locked_create: "locked a ts d \<Longrightarrow> locked a ts (d\<lparr>drafts := drafts d @ [b], serial := n\<rparr>)"
  by (auto simp: locked_def publications_of_def row_get_append)

lemma locked_drop: "locked a ts d \<Longrightarrow> i \<noteq> dr_id a \<Longrightarrow> locked a ts (drop_article i d)"
  by (auto simp: locked_def publications_of_def drop_article_def row_get_filter_key intro!: arg_cong [where f = "map pa_attempt_id"] filter_cong)

lemma attempts_close:
  assumes "close_xhs now t i f d = Some d'"
  shows "publications_of j d' = publications_of j d"
proof -
  have cm: "pa_attempt_id (closed_manual now f p) = pa_attempt_id p" "pa_article_id (closed_manual now f p) = pa_article_id p" for p
    by (simp_all add: closed_manual_def split: option.split)
  have "map pa_attempt_id (filter (\<lambda>p. pa_article_id p = j) (row_update q (closed_manual now f) ps)) =
      map pa_attempt_id (filter (\<lambda>p. pa_article_id p = j) ps)" for q ps
    by (induction ps) (simp_all add: row_update_def cm)
  then show ?thesis using assms by (auto simp: close_xhs_def publications_of_def split: if_splits)
qed

lemma locked_close:
  assumes "locked a ts d" and "close_xhs now t i f d = Some d'" and "i \<noteq> dr_id a"
  shows "locked a ts d'"
proof -
  from assms(1) obtain b where b: "row_get dr_id (dr_id a) (drafts d) = Some b" "same_publication a b" by (auto simp: locked_def)
  then have "row_get dr_id (dr_id a) (drafts d') = Some b"
    using close_xhs_drafts(2)[OF assms(2)] row_get_Some[OF b(1)] assms(3) by auto
  then show ?thesis using assms(1) b(2) attempts_close[OF assms(2)] by (simp add: locked_def)
qed

lemma update_locked:
  assumes "locked a ts (fst s)" and gap: "\<And>t. locked a ts (fst t) \<Longrightarrow> locked a ts (fst (between t))"
  shows "locked a ts (fst (fst (update_article between admin i p s)))"
proof (cases "i = dr_id a")
  case True
  then show ?thesis using assms(1) locked_row[OF assms(1)] by (auto simp: update_article_def split: option.split)
next
  case False
  have "locked a ts (fst (between (put_article (edited_article p b) (fst s), snd s)))"
    if "row_get dr_id i (drafts (fst s)) = Some b" for b
    by (rule gap) (use False row_get_Some[OF that] assms(1) in \<open>simp add: locked_put\<close>)
  then show ?thesis using assms(1) by (auto simp: update_article_def Let_def split: option.split)
qed

lemma delete_locked:
  assumes "locked a ts (fst s)" and gap: "\<And>t. locked a ts (fst t) \<Longrightarrow> locked a ts (fst (between t))"
  shows "locked a ts (fst (fst (delete_article between i s)))"
proof (cases "i = dr_id a")
  case True
  then show ?thesis using assms(1) locked_row[OF assms(1)] by (auto simp: delete_article_def split: option.split)
next
  case False
  with assms have "locked a ts (fst (between (drop_article i (fst s), snd s)))" by (intro gap) (simp add: locked_drop)
  then show ?thesis using assms(1) by (auto simp: delete_article_def Let_def split: option.split)
qed

lemma locked_marked:
  assumes "locked a ts d" and "dr_id b \<noteq> dr_id a" and "pa_article_id p = dr_id b"
  shows "locked a ts (add_attempt p (put_article (marked ch t md b) d))"
  using assms by (intro locked_attempt locked_put) simp_all

lemma new_attempt_article [simp]: "pa_article_id (new_attempt now t i ch target n) = i" "pa_attempt_id (new_attempt now t i ch target n) = t"
  by (simp_all add: new_attempt_def)

lemma publish_locked:
  assumes "locked a ts (fst s)" and gap: "\<And>t. locked a ts (fst t) \<Longrightarrow> locked a ts (fst (between t))"
  shows "locked a ts (fst (fst (publish_by_hand env label m between io admin i p s)))"
proof (cases "i = dr_id a")
  case True
  then show ?thesis using assms(1) locked_row[OF assms(1)] by (auto simp: publish_by_hand_def split: option.split)
next
  case False
  have qq: "locked a ts (fst (fst (publish_to_qq env label m now t admin p b s)))"
    if b: "row_get dr_id i (drafts (fst s)) = Some b" for now t b
  proof -
    obtain s' res where e: "publish_to_qq env label m now t admin p b s = (s', res)" by fastforce
    have "dr_id b \<noteq> dr_id a" using row_get_Some[OF b] False by simp
    with publish_to_qq_effect[OF e] assms(1) show ?thesis
      by (auto simp: e intro!: locked_deliveries locked_marked split: sum.splits)
  qed
  have xhs: "locked a ts (fst (fst (publish_to_xhs env now t admin between r now' b s)))"
    if b: "row_get dr_id i (drafts (fst s)) = Some b" for now t r now' b
  proof -
    have n: "dr_id b \<noteq> dr_id a" using row_get_Some[OF b] False by simp
    obtain s1 res where e: "prepare_xhs env now t admin b s = (s1, res)" by fastforce
    from prepare_xhs_effect[OF e] n assms(1) have l: "locked a ts (fst s1)"
      by (auto simp: xhs_attempt_def intro!: locked_marked split: sum.splits)
    show ?thesis using l gap[OF l] n
      by (auto simp: publish_to_xhs_def e Let_def split: sum.splits option.splits dest: locked_close)
  qed
  from qq xhs assms(1) show ?thesis by (auto simp: publish_by_hand_def split: option.split)
qed

lemma steps_locked:
  "locked a ts (fst s) \<Longrightarrow> locked a ts (fst (article_step env label m r s))"
  "locked a ts (fst s) \<Longrightarrow> locked a ts (fst (article_steps env label m rs s))"
proof (induction env label m r s and env label m rs s rule: article_step_article_steps.induct)
  case (1 env label m now admin p s)
  then show ?case by (auto simp: create_article_def Let_def locked_create split: option.split sum.split)
next
  case (2 env label m rs admin i p s)
  then show ?case by (auto intro: update_locked split: option.split)
next
  case (3 env label m rs i s)
  then show ?case by (auto intro: delete_locked)
next
  case (4 env label m rs io admin i p s)
  then show ?case by (auto intro: publish_locked split: option.split)
next
  case (5 env label m i p s)
  then show ?case
    by (auto simp: patch_ai_draft_def simp flip: put_article_def split: option.split intro: locked_patch)
qed simp_all

text \<open>
  A queued article is locked. Whatever article requests run, and those that run in their
  gaps, an article that is being published is still there with the same images, it keeps its
  attempt, and no other publication of it is started.
\<close>

theorem queued_article_locked:
  assumes "row_get dr_id i (drafts (fst s)) = Some a" and "dr_publish_status a = ''queued''"
  shows "\<exists>b. row_get dr_id i (drafts (fst (article_steps env label m rs s))) = Some b \<and> same_publication a b \<and>
    publications_of i (fst (article_steps env label m rs s)) = publications_of i (fst s)"
proof -
  have "dr_id a = i" using row_get_Some[OF assms(1)] by simp
  with assms have "locked a (publications_of i (fst s)) (fst s)" by (simp add: locked_def same_publication_def)
  from steps_locked(2)[OF this, of env label m rs] \<open>dr_id a = i\<close> show ?thesis by (auto simp: locked_def)
qed

theorem queued_article_locked_witness:
  "\<exists>b. row_get dr_id 1 (drafts (fst (article_steps sample_pub_env id 3 [DeleteArticle [] 1]
      (put_article (queued_article ''xhs'' ''u1'' sample_article) (fst sample_state), [])))) = Some b \<and> dr_publish_status b = ''queued''"
proof -
  let ?q = "queued_article ''xhs'' ''u1'' sample_article"
  have "dr_id ?q = 1" by (simp add: draft_id_queued)
  then have "row_get dr_id 1 (drafts (put_article ?q (fst sample_state))) = Some ?q"
    using sample_row by (simp add: row_get_put_same)
  from queued_article_locked[of 1 "(put_article ?q (fst sample_state), [])" ?q sample_pub_env id 3 "[DeleteArticle [] 1]"] this
  show ?thesis by (auto simp: queued_article_def same_publication_def)
qed

text \<open>
  The route that deletes a generation job does not look at the publication of its article: an article that is
  being published goes with the job, and with it the record of the attempt.
\<close>

lemma job_deletion_unlocks:
  assumes "gj_get i d = Some r" and "gj_listen_task_id r = None" and "gj_status r = ''succeeded''" and "dr_job_id a = Some i"
    and "row_get dr_id k (drafts d) = Some a" and "dr_publish_status a = ''queued''" and "distinct (map dr_id (drafts d))"
  shows "\<exists>d' images. delete_ai_job i d = Inr (d', images) \<and> row_get dr_id k (drafts d') = None \<and> publications_of k d' = []"
proof -
  have a: "a \<in> set (drafts d)" "dr_id a = k" using row_get_Some[OF assms(5)] by simp_all
  let ?gone = "map dr_id (filter (\<lambda>a. dr_job_id a = Some i) (drafts d))"
  obtain d' images where run: "delete_ai_job i d = Inr (d', images)" "drafts d' = filter (\<lambda>a. dr_job_id a \<noteq> Some i) (drafts d)"
      "publish_attempts d' = filter (\<lambda>p. pa_article_id p \<notin> set ?gone) (publish_attempts d)"
    using assms(1-3) by (simp add: delete_ai_job_def Let_def)
  have "k \<in> set ?gone" using a assms(4) by auto
  then have "publications_of k d' = []" by (auto simp: publications_of_def run(3) filter_empty_conv)
  moreover have "row_get dr_id k (drafts d') = None"
  proof -
    have "b = a" if "b \<in> set (drafts d)" "dr_id b = k" for b using assms(7) a that by (auto simp: distinct_map inj_on_def)
    then show ?thesis using assms(4) by (auto simp: run(2) row_get_def find_None_iff)
  qed
  ultimately show ?thesis using run(1) by blast
qed

subsection \<open>Publication to XHS by hand ends\<close>

lemma close_succeeds:
  assumes "i \<in> dr_id ` set (drafts d)" and "t \<in> pa_attempt_id ` set (publish_attempts d)"
  obtains d' where "close_xhs now t i f d = Some d'"
    "drafts d' = row_update (\<lambda>a. dr_id a = i) (closed_article now f) (drafts d)"
    "publish_attempts d' = row_update (\<lambda>p. pa_attempt_id p = t) (closed_manual now f) (publish_attempts d)"
  using assms by (simp add: close_xhs_def)

lemma published_locked:
  assumes "row_get dr_id i (drafts d) = Some a"
  shows "locked (marked ch t md a) (publications_of i d @ [t]) (add_attempt (new_attempt now t (dr_id a) ch' target n) (put_article (marked ch t md a) d))"
  using assms row_get_Some[OF assms]
  by (auto simp: locked_def publications_of_def same_publication_def row_get_put)

text \<open>
  C22: A publication to XHS by hand always ends. When the process lives to hear from the browser
  worker, then either the request was refused and the database is as it was, or the article and the
  attempt end as published or as failed, as the worker answered: no request on articles that runs
  meanwhile can take the article or the attempt away. (The deletion of the generation job that an article came
  from can, as \<open>job_deletion_unlocks\<close> shows.)
\<close>

theorem xhs_publication_closes:
  assumes "publish_by_hand env label m (article_steps env label m rs) io admin i p s = (s', res)"
    and "ap_channel p = ''xhs''" and "pi_reply io \<noteq> Died"
  shows "(fst s' = fst s \<and> (\<exists>e. res = Inl e)) \<or>
    (\<exists>a q. row_get dr_id i (drafts (fst s')) = Some a \<and> q \<in> set (publish_attempts (fst s')) \<and> dr_publish_attempt_id a = Some (pi_attempt io) \<and>
       pa_attempt_id q = pi_attempt io \<and> pa_article_id q = i \<and> pa_completed_at q = Some (pi_finished io) \<and>
       dr_publish_status a = pa_status q \<and> pa_status q = (if pi_reply io = Posted then ''published'' else ''failed'') \<and>
       (res = Inr [] \<longleftrightarrow> pi_reply io = Posted))"
proof (cases "\<exists>a. row_get dr_id i (drafts (fst s)) = Some a \<and> dr_publish_status a \<noteq> ''queued'' \<and> ensure_no_auto_publish_conflict ''xhs'' a (fst s) = None")
  case False
  then have "\<exists>e. (s', res) = (s, Inl e)"
    unfolding assms(1) [symmetric] using assms(2)
    by (cases "row_get dr_id i (drafts (fst s))"; cases "ensure_no_auto_publish_conflict ''xhs'' (the (row_get dr_id i (drafts (fst s)))) (fst s)")
      (auto simp: publish_by_hand_def simp del: row_get_None)
  then show ?thesis by auto
next
  case True
  then obtain a where a: "row_get dr_id i (drafts (fst s)) = Some a" "dr_publish_status a \<noteq> ''queued''"
      "ensure_no_auto_publish_conflict ''xhs'' a (fst s) = None" by blast
  let ?t = "pi_attempt io"
  let ?f = "reply_error (pi_reply io)"
  have run: "publish_to_xhs env (pi_started io) ?t admin (article_steps env label m rs) (pi_reply io) (pi_finished io) a s = (s', res)"
    using assms(1,2) a by (simp add: publish_by_hand_def)
  have id: "dr_id a = i" using row_get_Some[OF a(1)] by simp
  obtain s1 r where e: "prepare_xhs env (pi_started io) ?t admin a s = (s1, r)" by fastforce
  show ?thesis
  proof (cases r)
    case (Inl err)
    with run e have "s' = s1" "res = Inl err" by (simp_all add: publish_to_xhs_def)
    moreover from Inl prepare_xhs_effect[OF e] have "fst s1 = fst s" by simp
    ultimately show ?thesis by blast
  next
    case (Inr fs)
    with prepare_xhs_effect[OF e] obtain md where
      "fst s1 = add_attempt (xhs_attempt (pi_started io) ?t (dr_id a)) (put_article (marked ''xhs'' ?t md a) (fst s))" by auto
    then have "locked (marked ''xhs'' ?t md a) (publications_of i (fst s) @ [?t]) (fst s1)"
      using published_locked[OF a(1), of "''xhs''" ?t md "pi_started io" "''xhs''" _ 1] by (simp add: xhs_attempt_def)
    then have l: "locked (marked ''xhs'' ?t md a) (publications_of i (fst s) @ [?t]) (fst (article_steps env label m rs s1))" (is "locked ?a _ (fst ?s2)")
      by (rule steps_locked)
    then obtain b where b: "row_get dr_id i (drafts (fst ?s2)) = Some b" "same_publication ?a b" by (auto simp: locked_def id)
    from l have "?t \<in> set (publications_of i (fst ?s2))" by (simp add: locked_def id)
    then obtain q where q: "q \<in> set (publish_attempts (fst ?s2))" "pa_attempt_id q = ?t" "pa_article_id q = i"
      by (auto simp: publications_of_def)
    have bi: "b \<in> set (drafts (fst ?s2))" "dr_id b = i" using row_get_Some[OF b(1)] by simp_all
    then have "i \<in> dr_id ` set (drafts (fst ?s2))" "?t \<in> pa_attempt_id ` set (publish_attempts (fst ?s2))" using q by force+
    from close_succeeds[OF this, of "pi_finished io" ?f] obtain d' where
      d': "close_xhs (pi_finished io) ?t i ?f (fst ?s2) = Some d'"
        "publish_attempts d' = row_update (\<lambda>p. pa_attempt_id p = ?t) (closed_manual (pi_finished io) ?f) (publish_attempts (fst ?s2))"
      by blast
    have art: "row_get dr_id i (drafts d') = Some (closed_article (pi_finished io) ?f b)"
      using close_xhs_drafts(2)[OF d'(1), of i] b(1) bi(2) by simp
    have att: "closed_manual (pi_finished io) ?f q \<in> set (publish_attempts d')"
      using q by (force simp: d'(2) set_row_update)
    have out: "s' = (d', snd ?s2)" "res = (case ?f of None \<Rightarrow> Inr [] | Some (st, m) \<Rightarrow> Inl (HttpError st ''article_xhs_publish_failed''))"
      using run Inr e assms(3) d'(1) id by (simp_all add: publish_to_xhs_def Let_def)
    have "dr_publish_attempt_id b = Some ?t" using b(2) by (simp add: same_publication_def)
    with art att q out assms(3) show ?thesis
      by (intro disjI2 exI[of _ "closed_article (pi_finished io) ?f b"] exI[of _ "closed_manual (pi_finished io) ?f q"])
        (cases "pi_reply io"; simp add: reply_error_def closed_article_def closed_manual_def)
  qed
qed

definition sample_publish_io :: publish_io where
  "sample_publish_io = \<lparr>pi_attempt = ''u1'', pi_started = 5, pi_finished = 9, pi_reply = TimedOutReply (Text ''late'')\<rparr>"

lemma sample_prepared:
  "prepare_xhs sample_pub_env 5 ''u1'' 1 sample_article sample_state =
     ((add_attempt (xhs_attempt 5 ''u1'' 1) (put_article (queued_article ''xhs'' ''u1'' sample_article) (fst sample_state)), snd sample_state), Inr [''1/a.png''])"
proof -
  have "article_image_path ''1/a.png'' (Some 1) (snd sample_state) = Some ''1/a.png''"
    unfolding sample_state_def by code_simp
  moreover have "source_screenshot_path sample_pub_env sample_article (fst sample_state) = None"
    by (simp add: source_screenshot_path_def)
  ultimately show ?thesis
    by (simp add: prepare_xhs_def image_files_def snapshot_source_def xhs_attempt_def sample_pub_env_def
        xhs_note_title_max_length_def xhs_note_content_max_length_def)
qed

theorem xhs_publication_closes_witness:
  "\<exists>s' a. publish_by_hand sample_pub_env id 3 (article_steps sample_pub_env id 3 [DeleteArticle [] 1]) sample_publish_io 1 1
      \<lparr>ap_channel = ''xhs'', ap_bot_id = None, ap_group_openids = []\<rparr> sample_state = (s', Inl (HttpError 504 ''article_xhs_publish_failed'')) \<and>
     row_get dr_id 1 (drafts (fst s')) = Some a \<and> dr_publish_status a = ''failed''"
proof -
  let ?p = "\<lparr>ap_channel = ''xhs'', ap_bot_id = None, ap_group_openids = []\<rparr>"
  let ?run = "publish_by_hand sample_pub_env id 3 (article_steps sample_pub_env id 3 [DeleteArticle [] 1]) sample_publish_io 1 1 ?p sample_state"
  let ?s1 = "(add_attempt (xhs_attempt 5 ''u1'' 1) (put_article (queued_article ''xhs'' ''u1'' sample_article) (fst sample_state)), snd sample_state)"
  have q: "row_get dr_id 1 (drafts (fst ?s1)) = Some (queued_article ''xhs'' ''u1'' sample_article)"
    using row_get_put_same[OF sample_row, of "queued_article ''xhs'' ''u1'' sample_article"]
    by (simp add: draft_id_queued)
  then have gap: "article_steps sample_pub_env id 3 [DeleteArticle [] 1] ?s1 = ?s1"
    by (simp add: delete_article_def queued_article_def)
  have "1 \<in> dr_id ` set (drafts (fst ?s1))" "''u1'' \<in> pa_attempt_id ` set (publish_attempts (fst ?s1))"
    using row_get_Some[OF q] by (force simp: xhs_attempt_def)+
  from close_succeeds[OF this] obtain d' where d': "close_xhs 9 ''u1'' 1 (Some (504, Text ''late'')) (fst ?s1) = Some d'"
      "drafts d' = row_update (\<lambda>a. dr_id a = 1) (closed_article 9 (Some (504, Text ''late''))) (drafts (fst ?s1))" by metis
  have run: "?run = ((d', snd sample_state), Inl (HttpError 504 ''article_xhs_publish_failed''))"
    unfolding publish_by_hand_def sample_row
    using gap d'(1) by (simp add: ensure_no_auto_publish_conflict_def publish_to_xhs_def sample_publish_io_def sample_prepared reply_error_def Let_def del: article_steps.simps)
  have row: "row_get dr_id 1 (drafts d') = Some (closed_article 9 (Some (504, Text ''late'')) (queued_article ''xhs'' ''u1'' sample_article))"
    using close_xhs_drafts(2)[OF d'(1), of 1] q by (simp add: draft_id_queued)
  have "d' \<noteq> fst sample_state"
  proof
    assume "d' = fst sample_state"
    with row sample_row have "closed_article 9 (Some (504, Text ''late'')) (queued_article ''xhs'' ''u1'' sample_article) = sample_article" by simp
    from arg_cong [OF this, of dr_publish_status] show False by (simp add: closed_article_def)
  qed
  with xhs_publication_closes[OF run] obtain a where "row_get dr_id 1 (drafts d') = Some a" "dr_publish_status a = ''failed''"
    by (auto simp: sample_publish_io_def simp del: row_get_None)
  with run show ?thesis by auto
qed

subsection \<open>The messages of a manual publication\<close>

lemma manual_part_new:
  "manual_part now m i qbot t g part = (new_delivery now m r qbot t g part)
     \<lparr>qd_article_id := Some i, qd_idempotency_key := manual_part_key i t g (fst part)\<rparr>"
  by (simp add: manual_part_def new_delivery_def split: prod.split)

lemma manual_bodies:
  assumes "distinct gs" and "g \<in> set gs"
  shows "bodies_of g (manual_deliveries now m i qbot t gs parts) = concat (map fst parts)"
proof -
  fix r :: publish_dispatch
  have "manual_deliveries now m i qbot t gs parts = concat (map (\<lambda>g. map (\<lambda>x. (new_delivery now m r qbot t g x)
      \<lparr>qd_article_id := Some i, qd_idempotency_key := manual_part_key i t g (fst x)\<rparr>) (enumerate 0 parts)) gs)"
    by (simp add: manual_deliveries_def manual_part_new [where r = r] cong: map_cong)
  then have "bodies_of g (manual_deliveries now m i qbot t gs parts) = bodies_of g (article_deliveries now m r qbot t gs parts)"
    by (simp add: bodies_of_map article_deliveries_def map_concat o_def cong: if_cong)
  with bodies_of_group[OF assms] show ?thesis by simp
qed

lemma manual_key_inj: "manual_part_key i t g n = manual_part_key i t g' n' \<longleftrightarrow> g = g' \<and> n = n'"
  using split_last_colon[OF show_nat_colon show_nat_colon, of g n g' n']
  by (auto simp: manual_part_key_def show_nat_inj)

lemma manual_keys:
  assumes "distinct gs"
  shows "distinct (map qd_idempotency_key (manual_deliveries now m i qbot t gs parts))"
proof -
  let ?row = "\<lambda>g. map (\<lambda>k. manual_part_key i t g k) [0..<length parts]"
  have "map qd_idempotency_key (map (manual_part now m i qbot t g) (enumerate 0 parts)) = ?row g" for g
    by (rule nth_equalityI) (simp_all add: nth_enumerate_eq manual_part_def split: prod.split)
  then have "map qd_idempotency_key (manual_deliveries now m i qbot t gs parts) = concat (map ?row gs)"
    by (simp add: manual_deliveries_def map_concat o_def)
  moreover have "distinct (concat (map ?row gs))" using assms
    by (induction gs) (auto simp: distinct_map inj_on_def manual_key_inj)
  ultimately show ?thesis by simp
qed

text \<open>
  The messages of a manual publication are complete. When a publication to QQ is accepted, every
  group that was asked for gets the whole text of the article in parts, under keys that are all
  different, and the record of the attempt counts exactly the messages that the worker is told to send.
\<close>

theorem manual_messages_complete:
  assumes "publish_to_qq env label m now t admin p a s = (s', Inr ids)"
  shows "\<exists>rows q. qq_deliveries (fst s') = qq_deliveries (fst s) @ rows \<and> ids = map qd_id rows \<and> distinct ids \<and>
    distinct (map qd_idempotency_key rows) \<and> publish_attempts (fst s') = publish_attempts (fst s) @ [q] \<and>
    pa_attempt_id q = t \<and> pa_delivery_count q = int (length rows) \<and>
    (\<forall>g \<in> set (ap_group_openids p). bodies_of g rows = article_qq_text label a)"
proof -
  from assms obtain qbot parts_files a1 vol where e: "set (ap_group_openids p) \<subseteq> set (joined_groups qbot (ap_group_openids p) (fst s))"
      "queue_manual now m t qbot (sort (remdups (joined_groups qbot (ap_group_openids p) (fst s))))
         (qq_parts (article_qq_text label a) parts_files) a1 (fst s) = (fst s', ids)"
    by (auto simp: publish_to_qq_def Let_def split: option.splits if_splits prod.splits sum.splits)
  let ?gs = "sort (remdups (joined_groups qbot (ap_group_openids p) (fst s)))"
  let ?rows = "manual_deliveries now m (dr_id a1) qbot t ?gs (qq_parts (article_qq_text label a) parts_files)"
  let ?q = "new_attempt now t (dr_id a1) ''qq'' (Lit ''groups of a bot'' [qb_name qbot, show_nat (length ?gs)]) (int (length ?rows))"
  have add: "qq_deliveries (add_attempt x (put_article b d)) = qq_deliveries d" "serial (add_attempt x (put_article b d)) = serial d" for x b d
    by (simp_all add: add_attempt_def put_article_def)
  have "(fst s', ids) = add_deliveries ?rows (add_attempt ?q (put_article (queued_article ''qq'' t a1) (fst s)))"
    unfolding e(2) [symmetric] queue_manual_def Let_def by simp
  then have "qq_deliveries (fst s') = qq_deliveries (fst s) @ numbered (serial (fst s)) ?rows" "ids = map qd_id (numbered (serial (fst s)) ?rows)"
      "publish_attempts (fst s') = publish_attempts (fst s) @ [?q]"
    by (simp_all add: Let_def add_deliveries_def numbered_def add)
  moreover have "bodies_of g (numbered (serial (fst s)) ?rows) = article_qq_text label a" if "g \<in> set (ap_group_openids p)" for g
    unfolding numbered_bodies using that e(1) by (subst manual_bodies) (auto simp: qq_parts_text)
  moreover have "distinct (map qd_idempotency_key (numbered (serial (fst s)) ?rows))"
    unfolding numbered_keys by (rule manual_keys) simp
  ultimately show ?thesis using numbered_distinct[of "serial (fst s)" ?rows]
    by (intro exI[of _ "numbered (serial (fst s)) ?rows"] exI[of _ ?q]) (simp add: numbered_length new_attempt_def)
qed

theorem manual_messages_complete_witness:
  "\<exists>s' ids rows. publish_to_qq sample_pub_env id 3 5 ''u2'' 1 \<lparr>ap_channel = ''qq'', ap_bot_id = Some 2, ap_group_openids = [''g1'']\<rparr>
      sample_article (sample_accept_db, [(''1/a.png'', 3)]) = (s', Inr ids) \<and> qq_deliveries (fst s') = rows \<and>
     bodies_of ''g1'' rows = article_qq_text id sample_article"
proof -
  let ?p = "\<lparr>ap_channel = ''qq'', ap_bot_id = Some 2, ap_group_openids = [''g1'']\<rparr>"
  have 1: "row_get qb_id 2 (qq_bots sample_accept_db) = Some sample_bot" "joined_groups sample_bot [''g1''] sample_accept_db = [''g1'']"
    by (simp_all add: sample_accept_db_def row_get_def sample_bot_def joined_groups_def sample_joined_def)
  have 2: "article_image_path ''1/a.png'' None [(''1/a.png'', 3)] = Some ''1/a.png''" by code_simp
  have 3: "dr_images sample_article = [''1/a.png'']" "source_screenshot_path sample_pub_env sample_article d = None" for d
    by (simp_all add: source_screenshot_path_def)
  obtain d2 ids where q: "queue_manual 5 3 ''u2'' sample_bot [''g1''] (qq_parts (article_qq_text id sample_article) [''1/a.png'']) sample_article sample_accept_db = (d2, ids)"
    by fastforce
  have run: "publish_to_qq sample_pub_env id 3 5 ''u2'' 1 ?p sample_article (sample_accept_db, [(''1/a.png'', 3)]) =
      ((d2, [(''1/a.png'', 3)]), Inr ids)"
    using 1 2 3 q by (simp add: publish_to_qq_def Let_def image_files_def snapshot_source_def) (simp add: sample_bot_def)
  from manual_messages_complete[OF run] run show ?thesis by (auto simp: sample_accept_db_def empty_db_def)
qed

end
