(* ===== verification/QQNotify.thy ===== *)
theory QQNotify
  imports Publish
begin

text \<open>
  QQ group notifications of collected posts: the classification of a post
  (\<open>backend/app/services/tweet_types.py\<close>), the placeholders and the template renderer
  (\<open>qq_placeholders.py\<close>, \<open>normalize_message_template\<close> of \<open>schemas/qq.py\<close>), and the
  outbox rows of \<open>backend/app/services/qq_notifications.py\<close>. A result \<open>None\<close> is an
  exception of the renderer, which rolls the caller's transaction back.
\<close>

subsection \<open>Kinds of posts\<close>

definition reference_kinds :: "json \<Rightarrow> json list" where
  "reference_kinds payload =
     map (\<lambda>r. jget r ''type'') (filter is_dict (jlist (jget payload ''referenced_tweets'')))"

definition classify_tweet :: "json \<Rightarrow> string" where
  "classify_tweet payload =
     (let kinds = set (reference_kinds payload) in
      if JStr ''retweeted'' \<in> kinds then ''retweet''
      else if JStr ''replied_to'' \<in> kinds then ''reply''
      else if JStr ''quoted'' \<in> kinds then ''retweet''
      else ''original'')"

definition target_accepts_tweet :: "qq_target \<Rightarrow> tweet \<Rightarrow> bool" where
  "target_accepts_tweet tg tw \<longleftrightarrow>
     (let mode = (if qt_listen_mode tg = [] then ''all'' else qt_listen_mode tg) in
      mode = ''all'' \<or> mode = tw_tweet_type tw)"

subsection \<open>Templates\<close>

definition name_char :: "char \<Rightarrow> bool" where
  "name_char c \<longleftrightarrow> is_lower c \<or> is_digit c \<or> c = CHR ''_''"

text \<open>\<open>[a-z][a-z0-9_]*\<close>, the whole string.\<close>

definition field_name :: "string \<Rightarrow> bool" where
  "field_name s \<longleftrightarrow> (case s of [] \<Rightarrow> False | c # cs \<Rightarrow> is_lower c \<and> list_all name_char cs)"

text \<open>
  A match of \<open>{{name}}\<close> at the start of a string that is not followed by another
  brace: the name and the rest.
\<close>

definition match_braces :: "string \<Rightarrow> (string \<times> string) option" where
  "match_braces s =
     (if \<not> starts_with ''{{'' s then None
      else let body = drop 2 s; name = takeWhile name_char body; rest = drop (length name) body in
        if field_name name \<and> starts_with ''}}'' rest \<and> \<not> starts_with ''}}}'' rest
        then Some (name, drop 2 rest) else None)"

lemma match_braces_shorter: "match_braces s = Some (name, rest) \<Longrightarrow> length rest < length s"
proof -
  assume m: "match_braces s = Some (name, rest)"
  then have "starts_with ''{{'' s" by (auto simp: match_braces_def split: if_splits)
  then have "0 < length s" by (cases s) (simp_all add: starts_with_def)
  with m show ?thesis by (auto simp: match_braces_def Let_def split: if_splits)
qed

text \<open>The substitution of \<open>normalize_message_template\<close>; \<open>after\<close> tells that the character before is \<open>{\<close>.\<close>

function fold_braces :: "(string \<Rightarrow> bool) \<Rightarrow> bool \<Rightarrow> string \<Rightarrow> string" where
  "fold_braces known after [] = []"
| "fold_braces known after (c # cs) =
     (case (if after then None else match_braces (c # cs)) of
        Some (name, rest) \<Rightarrow>
          (if known name then ''{'' @ name @ ''}'' else ''{{'' @ name @ ''}}'') @ fold_braces known False rest
      | None \<Rightarrow> c # fold_braces known (c = CHR ''{'') cs)"
  by pat_completeness auto

termination
  by (relation "measure (\<lambda>(k, a, s). length s)") (auto split: if_splits dest: match_braces_shorter)

definition allowed_template_fields :: "string list" where
  "allowed_template_fields = [''title'', ''author'', ''username'', ''text'', ''url'', ''posted_at'']"

definition normalize_message_template :: "string \<Rightarrow> string list \<Rightarrow> string" where
  "normalize_message_template value names =
     fold_braces (\<lambda>n. n \<in> set allowed_template_fields \<or> n \<in> set names) False value"

text \<open>
  \<open>str.format_map\<close> on templates of simple fields, the only ones that
  \<open>parse_template_fields\<close> lets the API store: an unknown field, an unbalanced brace or a
  field with an attribute, a conversion or a format specification is an error. An empty
  specification, a colon after the name, is none.
\<close>

definition plain_field :: "string \<Rightarrow> string" where
  "plain_field raw = (if raw \<noteq> [] \<and> last raw = CHR '':'' then butlast raw else raw)"

function format_map :: "(string \<Rightarrow> string option) \<Rightarrow> string \<Rightarrow> string option" where
  "format_map values [] = Some []"
| "format_map values (c # cs) =
     (if c = CHR ''{'' then
        (if starts_with ''{'' cs then map_option ((#) c) (format_map values (drop 1 cs))
         else let raw = takeWhile (\<lambda>x. x \<noteq> CHR ''}'') cs; name = plain_field raw; rest = drop (length raw) cs in
           if rest = [] \<or> \<not> field_name name \<or> 64 < length name then None
           else case values name of
             None \<Rightarrow> None
           | Some v \<Rightarrow> map_option ((@) v) (format_map values (drop 1 rest)))
      else if c = CHR ''}'' then
        (if starts_with ''}'' cs then map_option ((#) c) (format_map values (drop 1 cs)) else None)
      else map_option ((#) c) (format_map values cs))"
  by pat_completeness auto

termination
  by (relation "measure (\<lambda>(v, s). length s)") auto

subsection \<open>Placeholders\<close>

text \<open>The default title, \<open>strftime\<close> and \<open>json.dumps\<close>.\<close>

record render_env =
  re_title :: string
  re_strftime :: "time \<Rightarrow> string"
  re_json_dumps :: "json \<Rightarrow> string"

definition json_text :: "render_env \<Rightarrow> json \<Rightarrow> string" where
  "json_text env j = (if j = JNull then [] else re_json_dumps env j)"

definition opt_text :: "string option \<Rightarrow> string" where
  "opt_text s = (case s of None \<Rightarrow> [] | Some t \<Rightarrow> t)"

definition source_fields :: "string list" where
  "source_fields = [''id'', ''tweet_id'', ''monitored_user_id'', ''username'', ''display_name'',
     ''author_id'', ''text'', ''tweet_type'', ''lang'', ''conversation_id'', ''posted_at'',
     ''like_count'', ''retweet_count'', ''reply_count'', ''quote_count'', ''bookmark_count'',
     ''impression_count'', ''entities'', ''attachments'', ''referenced_tweets'', ''raw_payload'',
     ''fetched_at'', ''screenshot'', ''url'', ''title'']"

text \<open>A post has no attribute \<open>screenshot\<close>, so that the field is empty.\<close>

definition source_value :: "render_env \<Rightarrow> string \<Rightarrow> tweet \<Rightarrow> monitored_user \<Rightarrow> string \<Rightarrow> string" where
  "source_value env f tw u title =
     (if f = ''display_name'' then (if nonempty (mu_display_name u) then the (mu_display_name u) else mu_username u)
      else if f = ''username'' then mu_username u
      else if f = ''url'' then ''https://x.com/'' @ mu_username u @ ''/status/'' @ tw_tweet_id tw
      else if f = ''title'' then title
      else if f = ''id'' then show_int (tw_id tw)
      else if f = ''tweet_id'' then tw_tweet_id tw
      else if f = ''monitored_user_id'' then show_int (tw_monitored_user_id tw)
      else if f = ''author_id'' then tw_author_id tw
      else if f = ''text'' then tw_text tw
      else if f = ''tweet_type'' then tw_tweet_type tw
      else if f = ''lang'' then opt_text (tw_lang tw)
      else if f = ''conversation_id'' then opt_text (tw_conversation_id tw)
      else if f = ''posted_at'' then re_strftime env (tw_posted_at tw)
      else if f = ''fetched_at'' then re_strftime env (tw_fetched_at tw)
      else if f = ''like_count'' then show_int (tw_like_count tw)
      else if f = ''retweet_count'' then show_int (tw_retweet_count tw)
      else if f = ''reply_count'' then show_int (tw_reply_count tw)
      else if f = ''quote_count'' then show_int (tw_quote_count tw)
      else if f = ''bookmark_count'' then show_int (tw_bookmark_count tw)
      else if f = ''impression_count'' then show_int (tw_impression_count tw)
      else if f = ''entities'' then json_text env (tw_entities tw)
      else if f = ''attachments'' then json_text env (tw_attachments tw)
      else if f = ''referenced_tweets'' then json_text env (tw_referenced_tweets tw)
      else if f = ''raw_payload'' then json_text env (tw_raw_payload tw)
      else [])"

definition default_placeholders :: "(string \<times> string) list" where
  "default_placeholders = [(''author'', ''display_name''), (''username'', ''username''), (''text'', ''text''),
     (''url'', ''url''), (''posted_at'', ''posted_at''), (''title'', ''title'')]"

definition placeholder_values :: "render_env \<Rightarrow> (string \<times> string) list option \<Rightarrow> tweet \<Rightarrow> monitored_user \<Rightarrow>
    string \<Rightarrow> (string \<times> string) list option" where
  "placeholder_values env mappings tw u title =
     (let ms = (case mappings of None \<Rightarrow> default_placeholders | Some ms \<Rightarrow> ms) in
      if list_all (\<lambda>(n, f). f \<in> set source_fields) ms
      then Some (map (\<lambda>(n, f). (n, source_value env f tw u title)) ms) else None)"

definition load_placeholder_mappings :: "db \<Rightarrow> (string \<times> string) list" where
  "load_placeholder_mappings d =
     map (\<lambda>p. (butlast (tl (qp_placeholder p)), qp_source_field p)) (sort_key qp_id (qq_placeholders d))"

fun string_items :: "json \<Rightarrow> (string \<times> string) list" where
  "string_items (JObj kvs) = map (\<lambda>(k, v). (k, case v of JStr s \<Rightarrow> s | _ \<Rightarrow> [])) kvs"
| "string_items _ = []"

text \<open>
  \<open>render_qq_message\<close>: the variables of the target override the placeholders, and a
  text over the limit is cut.
\<close>

definition cut_message :: "string \<Rightarrow> string" where
  "cut_message s =
     (if length s \<le> qq_message_max_chars then s
      else rstrip_by is_space (take (qq_message_max_chars - 3) s) @ ''...'')"

definition render_qq_message :: "render_env \<Rightarrow> string \<Rightarrow> tweet \<Rightarrow> monitored_user \<Rightarrow> json \<Rightarrow>
    (string \<times> string) list option \<Rightarrow> string option" where
  "render_qq_message env template tw u variables mappings =
     (case placeholder_values env mappings tw u (re_title env) of
        None \<Rightarrow> None
      | Some vals \<Rightarrow>
          (let all_values = string_items variables @ vals in
           map_option (\<lambda>s. cut_message (strip s))
             (format_map (map_of all_values) (normalize_message_template template (map fst all_values)))))"

subsection \<open>Deliveries of posts\<close>

definition day :: time where
  "day = secs 86400"

text \<open>\<open>datetime.min\<close> in UTC.\<close>

definition min_time :: time where
  "min_time = secs (- 62135596800)"

definition target_history_cutoff :: "qq_target \<Rightarrow> time option" where
  "target_history_cutoff tg =
     (case qt_initial_sync_days tg of
        None \<Rightarrow> None
      | Some days \<Rightarrow>
          if (qt_created_at tg - min_time) div day < days then Some min_time
          else Some (qt_created_at tg - days * day))"

definition enabled_targets :: "int option \<Rightarrow> db \<Rightarrow> (qq_target \<times> qq_bot) list" where
  "enabled_targets only d =
     concat (map (\<lambda>tg. map (Pair tg) (filter (\<lambda>b. qb_id b = qt_bot_id tg \<and> qb_is_enabled b) (qq_bots d)))
       (filter (\<lambda>tg. qt_is_enabled tg \<and> (only = None \<or> only = Some (qt_id tg))) (qq_targets d)))"

definition bound :: "db \<Rightarrow> int \<Rightarrow> int \<Rightarrow> bool" where
  "bound d target user \<longleftrightarrow>
     list_ex (\<lambda>s. qs_target_id s = target \<and> qs_monitored_user_id s = user) (qq_target_subs d)"

definition tweet_key :: "tweet \<Rightarrow> qq_target \<Rightarrow> string" where
  "tweet_key tw tg = ''tweet:'' @ show_int (tw_id tw) @ '':target:'' @ show_int (qt_id tg)"

text \<open>A post goes to a target: its kind, its age and its account.\<close>

definition wants :: "db \<Rightarrow> qq_target \<Rightarrow> tweet \<Rightarrow> bool" where
  "wants d tg tw \<longleftrightarrow>
     target_accepts_tweet tg tw \<and>
     (case target_history_cutoff tg of None \<Rightarrow> True | Some c \<Rightarrow> c \<le> tw_posted_at tw) \<and>
     (qt_all_monitored_users tg \<or> bound d (qt_id tg) (tw_monitored_user_id tw))"

definition tweet_delivery :: "render_env \<Rightarrow> time \<Rightarrow> int \<Rightarrow> (string \<times> string) list \<Rightarrow> tweet \<Rightarrow> monitored_user \<Rightarrow>
    qq_target \<Rightarrow> qq_bot \<Rightarrow> qq_delivery option" where
  "tweet_delivery env now max_attempts mappings tw u tg qbot =
     map_option (\<lambda>body.
     \<lparr>qd_id = 0, qd_task_id = None, qd_target_id = Some (qt_id tg), qd_source_tweet_id = Some (tw_id tw),
      qd_article_id = None, qd_article_publish_attempt_id = None, qd_sequence = None,
      qd_media_path = None, qd_kind = ''tweet'', qd_idempotency_key = tweet_key tw tg,
      qd_bot_name = qb_name qbot, qd_bot_app_id = qb_app_id qbot, qd_bot_version = qb_version qbot,
      qd_target_name = qt_name tg, qd_group_openid = qt_group_openid tg, qd_message_body = Text body,
      qd_status = ''queued'', qd_attempts = 0, qd_max_attempts = max_attempts,
      qd_next_attempt_at = now, qd_lease_expires_at = None, qd_claim_token = None,
      qd_claimed_by = None, qd_provider_message_id = None, qd_last_error = None,
      qd_started_at = None, qd_completed_at = None, qd_created_at = now, qd_updated_at = now\<rparr>)
     (render_qq_message env (qt_message_template tg) tw u (qt_template_variables tg) (Some mappings))"

text \<open>The rows of one post, and of all posts; the first failing message stops the loop.\<close>

fun target_rows :: "render_env \<Rightarrow> time \<Rightarrow> int \<Rightarrow> (string \<times> string) list \<Rightarrow> db \<Rightarrow> tweet \<Rightarrow> monitored_user \<Rightarrow>
    (qq_target \<times> qq_bot) list \<Rightarrow> qq_delivery list option" where
  "target_rows env now m ms d tw u [] = Some []"
| "target_rows env now m ms d tw u ((tg, qbot) # ts) =
     (if \<not> wants d tg tw \<or> tweet_key tw tg \<in> qd_idempotency_key ` set (qq_deliveries d)
      then target_rows env now m ms d tw u ts
      else case tweet_delivery env now m ms tw u tg qbot of
        None \<Rightarrow> None
      | Some r \<Rightarrow> map_option ((#) r) (target_rows env now m ms d tw u ts))"

fun tweet_rows :: "render_env \<Rightarrow> time \<Rightarrow> int \<Rightarrow> (string \<times> string) list \<Rightarrow> db \<Rightarrow> (qq_target \<times> qq_bot) list \<Rightarrow>
    tweet list \<Rightarrow> qq_delivery list option" where
  "tweet_rows env now m ms d ts [] = Some []"
| "tweet_rows env now m ms d ts (tw # tws) =
     (case row_get mu_id (tw_monitored_user_id tw) (monitored_users d) of
        None \<Rightarrow> tweet_rows env now m ms d ts tws
      | Some u \<Rightarrow>
          (case target_rows env now m ms d tw u ts of
             None \<Rightarrow> None
           | Some rows \<Rightarrow> map_option ((@) rows) (tweet_rows env now m ms d ts tws)))"

definition create_tweet_deliveries :: "render_env \<Rightarrow> time \<Rightarrow> int \<Rightarrow> int option \<Rightarrow> string list \<Rightarrow> db \<Rightarrow>
    (db \<times> int list) option" where
  "create_tweet_deliveries env now max_attempts only xids d =
     (let tws = filter (\<lambda>t. tw_tweet_id t \<in> set xids) (tweets d); targets = enabled_targets only d in
      if xids = [] \<or> tws = [] \<or> targets = [] then Some (d, [])
      else map_option (\<lambda>rows. add_deliveries rows d)
             (tweet_rows env now max_attempts (load_placeholder_mappings d) d targets tws))"

subsection \<open>History of a new target\<close>

definition in_history :: "db \<Rightarrow> qq_target \<Rightarrow> time \<Rightarrow> tweet \<Rightarrow> bool" where
  "in_history d tg cutoff tw \<longleftrightarrow>
     cutoff \<le> tw_posted_at tw \<and>
     (qt_listen_mode tg = [] \<or> qt_listen_mode tg = ''all'' \<or> tw_tweet_type tw = qt_listen_mode tg) \<and>
     (qt_all_monitored_users tg \<or> bound d (qt_id tg) (tw_monitored_user_id tw))"

definition history_page :: "(tweet \<Rightarrow> bool) \<Rightarrow> int \<Rightarrow> tweet list \<Rightarrow> tweet list" where
  "history_page p last_id tws = row_select (\<lambda>t. p t \<and> last_id < tw_id t) tw_id 200 tws"

lemma history_page_last:
  assumes "history_page p last_id tws \<noteq> []"
  shows "last (history_page p last_id tws) \<in> set tws \<and> p (last (history_page p last_id tws)) \<and>
    last_id < tw_id (last (history_page p last_id tws))"
  using row_select_mem[of "last (history_page p last_id tws)"] last_in_set[OF assms]
  unfolding history_page_def by blast

lemma filter_length_less:
  "(\<And>x. q x \<Longrightarrow> p x) \<Longrightarrow> y \<in> set xs \<Longrightarrow> p y \<Longrightarrow> \<not> q y \<Longrightarrow> length (filter q xs) < length (filter p xs)"
proof (induction xs)
  case Nil
  then show ?case by simp
next
  case (Cons x xs)
  have "length (filter q xs) \<le> length (filter p xs)"
    using Cons.prems(1) by (induction xs) auto
  with Cons show ?case by (auto simp: less_Suc_eq_le)
qed

function history_loop :: "render_env \<Rightarrow> time \<Rightarrow> int \<Rightarrow> int \<Rightarrow> (tweet \<Rightarrow> bool) \<Rightarrow> tweet list \<Rightarrow> int \<Rightarrow> db \<Rightarrow>
    (db \<times> int list) option" where
  "history_loop env now m target p tws last_id d =
     (let page = history_page p last_id tws in
      if page = [] then Some (d, [])
      else case create_tweet_deliveries env now m (Some target) (map tw_tweet_id page) d of
        None \<Rightarrow> None
      | Some (d1, ids) \<Rightarrow>
          map_option (\<lambda>(d2, more). (d2, ids @ more))
            (history_loop env now m target p tws (tw_id (last page)) d1))"
  by pat_completeness auto

termination
proof (relation "measure (\<lambda>(env, now, m, tg, p, tws, l, d). length (filter (\<lambda>t. l < tw_id t) tws))")
  fix env now m target p tws last_id d page and x :: "db \<times> int list" and d1 ids
  assume "page = history_page p last_id tws" and "page \<noteq> []"
  with history_page_last[of p last_id tws] show "((env, now, m, target, p, tws, tw_id (last page), d1),
      env, now, m, target, p, tws, last_id, d)
    \<in> measure (\<lambda>(env, now, m, tg, p, tws, l, d). length (filter (\<lambda>t. l < tw_id t) tws))"
    by (auto intro!: filter_length_less[of _ _ "last page"])
qed simp

definition create_target_history_deliveries :: "render_env \<Rightarrow> time \<Rightarrow> int \<Rightarrow> qq_target \<Rightarrow> db \<Rightarrow>
    (db \<times> int list) option" where
  "create_target_history_deliveries env now max_attempts tg d =
     (case target_history_cutoff tg of
        None \<Rightarrow> Some (d, [])
      | Some c \<Rightarrow>
          (if \<not> qt_is_enabled tg then Some (d, [])
           else history_loop env now max_attempts (qt_id tg) (in_history d tg c) (tweets d) 0 d))"

definition test_delivery :: "time \<Rightarrow> int \<Rightarrow> string \<Rightarrow> qq_target \<Rightarrow> qq_bot \<Rightarrow> qq_delivery" where
  "test_delivery now max_attempts fresh tg qbot =
     \<lparr>qd_id = 0, qd_task_id = None, qd_target_id = Some (qt_id tg), qd_source_tweet_id = None,
      qd_article_id = None, qd_article_publish_attempt_id = None, qd_sequence = None,
      qd_media_path = None, qd_kind = ''test'', qd_idempotency_key = ''test:'' @ fresh,
      qd_bot_name = qb_name qbot, qd_bot_app_id = qb_app_id qbot, qd_bot_version = qb_version qbot,
      qd_target_name = qt_name tg, qd_group_openid = qt_group_openid tg,
      qd_message_body = Lit ''test of the QQ channel'' [], qd_status = ''queued'', qd_attempts = 0,
      qd_max_attempts = max_attempts, qd_next_attempt_at = now, qd_lease_expires_at = None,
      qd_claim_token = None, qd_claimed_by = None, qd_provider_message_id = None,
      qd_last_error = None, qd_started_at = None, qd_completed_at = None, qd_created_at = now,
      qd_updated_at = now\<rparr>"

definition create_test_delivery :: "time \<Rightarrow> int \<Rightarrow> string \<Rightarrow> qq_target \<Rightarrow> qq_bot \<Rightarrow> db \<Rightarrow> db \<times> int list" where
  "create_test_delivery now max_attempts fresh tg qbot d =
     add_deliveries [test_delivery now max_attempts fresh tg qbot] d"

subsection \<open>What is added\<close>

lemma tweet_key_eq: "tweet_key tw tg = tweet_key tw' tg' \<longleftrightarrow> tw_id tw = tw_id tw' \<and> qt_id tg = qt_id tg'"
proof
  assume "tweet_key tw tg = tweet_key tw' tg'"
  then have "show_int (tw_id tw) @ CHR '':'' # (''target:'' @ show_int (qt_id tg)) =
      show_int (tw_id tw') @ CHR '':'' # (''target:'' @ show_int (qt_id tg'))"
    by (simp add: tweet_key_def)
  from first_colon[OF show_int_no_colon show_int_no_colon this]
  show "tw_id tw = tw_id tw' \<and> qt_id tg = qt_id tg'" by (simp add: show_int_inj)
qed (simp add: tweet_key_def)

lemma cut_message_length: "length (cut_message s) \<le> qq_message_max_chars"
proof -
  have "length (rstrip_by p xs) \<le> length xs" for p xs
    using length_dropWhile_le[of p "rev xs"] by (simp add: rstrip_by_def)
  from this[of is_space "take 1997 s"] show ?thesis
    by (simp add: cut_message_def qq_message_max_chars_def)
qed

lemma tweet_delivery_fields:
  assumes "tweet_delivery env now m ms tw u tg qbot = Some r"
  shows "qd_idempotency_key r = tweet_key tw tg \<and> qd_target_id r = Some (qt_id tg) \<and>
    qd_source_tweet_id r = Some (tw_id tw) \<and> qd_group_openid r = qt_group_openid tg \<and>
    qd_status r = ''queued'' \<and> (\<exists>s. qd_message_body r = Text s \<and> length s \<le> qq_message_max_chars)"
proof -
  from assms obtain body where
    b: "render_qq_message env (qt_message_template tg) tw u (qt_template_variables tg) (Some ms) = Some body"
    by (auto simp: tweet_delivery_def)
  then have "length body \<le> qq_message_max_chars"
    by (auto simp: render_qq_message_def Let_def cut_message_length split: option.splits)
  with assms b show ?thesis by (auto simp: tweet_delivery_def)
qed

text \<open>A row of the outbox for a post and a target, as the enqueueing writes it.\<close>

definition row_for :: "db \<Rightarrow> (qq_target \<times> qq_bot) list \<Rightarrow> tweet \<Rightarrow> qq_delivery \<Rightarrow> bool" where
  "row_for d ts tw r \<longleftrightarrow>
     (\<exists>(tg, qbot) \<in> set ts. wants d tg tw \<and> qd_idempotency_key r = tweet_key tw tg \<and>
        qd_target_id r = Some (qt_id tg) \<and> qd_source_tweet_id r = Some (tw_id tw) \<and>
        qd_group_openid r = qt_group_openid tg \<and> qd_status r = ''queued'' \<and>
        (\<exists>s. qd_message_body r = Text s \<and> length s \<le> qq_message_max_chars))"

definition new_keys :: "db \<Rightarrow> (qq_target \<times> qq_bot) list \<Rightarrow> tweet \<Rightarrow> string list" where
  "new_keys d ts tw =
     filter (\<lambda>k. k \<notin> qd_idempotency_key ` set (qq_deliveries d))
       (map (\<lambda>(tg, b). tweet_key tw tg) (filter (\<lambda>(tg, b). wants d tg tw) ts))"

lemma target_rows_spec:
  "target_rows env now m ms d tw u ts = Some rows \<Longrightarrow>
    map qd_idempotency_key rows = new_keys d ts tw \<and> (\<forall>r \<in> set rows. row_for d ts tw r)"
proof (induction ts arbitrary: rows)
  case Nil
  then show ?case by (simp add: new_keys_def)
next
  case (Cons t ts)
  obtain tg qbot where t: "t = (tg, qbot)" by (cases t)
  show ?case
  proof (cases "\<not> wants d tg tw \<or> tweet_key tw tg \<in> qd_idempotency_key ` set (qq_deliveries d)")
    case True
    with Cons.prems t have "target_rows env now m ms d tw u ts = Some rows" by simp
    from Cons.IH[OF this] True t show ?thesis by (auto simp: new_keys_def row_for_def)
  next
    case False
    with Cons.prems t obtain r rest where
      r: "tweet_delivery env now m ms tw u tg qbot = Some r" "rows = r # rest"
      "target_rows env now m ms d tw u ts = Some rest"
      by (auto split: option.splits)
    from tweet_delivery_fields[OF r(1)] False t have "row_for d (t # ts) tw r"
      by (auto simp: row_for_def)
    with Cons.IH[OF r(3)] tweet_delivery_fields[OF r(1)] False t r(2) show ?thesis
      by (auto simp: new_keys_def row_for_def)
  qed
qed

definition has_user :: "db \<Rightarrow> tweet \<Rightarrow> bool" where
  "has_user d tw \<longleftrightarrow> tw_monitored_user_id tw \<in> mu_id ` set (monitored_users d)"

lemma tweet_rows_spec:
  "tweet_rows env now m ms d ts tws = Some rows \<Longrightarrow>
    map qd_idempotency_key rows = concat (map (new_keys d ts) (filter (has_user d) tws)) \<and>
    (\<forall>r \<in> set rows. \<exists>tw \<in> set tws. row_for d ts tw r)"
proof (induction tws arbitrary: rows)
  case Nil
  then show ?case by simp
next
  case (Cons tw tws)
  show ?case
  proof (cases "row_get mu_id (tw_monitored_user_id tw) (monitored_users d)")
    case None
    with Cons.prems have "tweet_rows env now m ms d ts tws = Some rows" by simp
    from Cons.IH[OF this] None show ?thesis by (auto simp: has_user_def)
  next
    case (Some u)
    with Cons.prems obtain rows1 rows2 where
      one: "target_rows env now m ms d tw u ts = Some rows1"
      and two: "tweet_rows env now m ms d ts tws = Some rows2" "rows = rows1 @ rows2"
      by (auto split: option.splits)
    have "has_user d tw" using row_get_Some[OF Some] by (metis has_user_def image_eqI)
    with target_rows_spec[OF one] Cons.IH[OF two(1)] two(2) show ?thesis by auto
  qed
qed

text \<open>The keys of a set of posts.\<close>

definition wanted_keys :: "db \<Rightarrow> int option \<Rightarrow> (tweet \<Rightarrow> bool) \<Rightarrow> string set" where
  "wanted_keys d only p =
     {tweet_key tw tg | tw tg. tw \<in> set (tweets d) \<and> p tw \<and> has_user d tw \<and>
        tg \<in> fst ` set (enabled_targets only d) \<and> wants d tg tw}"

lemma distinct_enabled:
  assumes "distinct (map qt_id (qq_targets d))" and "distinct (map qb_id (qq_bots d))"
  shows "distinct (map (\<lambda>(tg, b). qt_id tg) (enabled_targets only d))"
proof -
  have one: "length (filter (\<lambda>b. qb_id b = i \<and> qb_is_enabled b) bs) \<le> 1"
    if "distinct (map qb_id bs)" for i bs
    using that
  proof (induction bs)
    case (Cons b bs)
    then show ?case by (cases "qb_id b = i") (auto simp: filter_empty_conv image_iff)
  qed simp
  have gen: "distinct (map (\<lambda>(tg, b). qt_id tg) (concat (map (\<lambda>tg. map (Pair tg) (f tg)) tgs))) \<and>
      (\<lambda>(tg, b). qt_id tg) ` set (concat (map (\<lambda>tg. map (Pair tg) (f tg)) tgs)) \<subseteq> qt_id ` set tgs"
    if "distinct (map qt_id tgs)" "\<And>tg. length (f tg) \<le> 1" for tgs and f :: "qq_target \<Rightarrow> qq_bot list"
    using that(1)
  proof (induction tgs)
    case (Cons tg tgs)
    from that(2)[of tg] have "f tg = [] \<or> (\<exists>b. f tg = [b])"
      by (cases "f tg") auto
    with Cons show ?case by fastforce
  qed simp
  show ?thesis unfolding enabled_targets_def
    by (rule conjunct1[OF gen]) (use assms one distinct_map_filter in auto)
qed

lemma distinct_new_keys:
  assumes "distinct (map (\<lambda>(tg, b). qt_id tg) ts)" and "distinct (map tw_id tws)"
  shows "distinct (concat (map (new_keys d ts) tws))"
proof -
  have one: "distinct (new_keys d ts tw)" for tw
  proof -
    have "distinct (map (\<lambda>(tg, b). tweet_key tw tg) ts)"
    proof -
      let ?key = "\<lambda>i. ''tweet:'' @ show_int (tw_id tw) @ '':target:'' @ show_int i"
      have "map (\<lambda>(tg, b). tweet_key tw tg) ts = map ?key (map (\<lambda>(tg, b). qt_id tg) ts)"
        by (auto simp: tweet_key_def)
      moreover have "inj_on ?key (set (map (\<lambda>(tg, b). qt_id tg) ts))"
        by (auto simp: inj_on_def show_int_inj)
      ultimately show ?thesis using assms(1) by (simp only: distinct_map)
    qed
    then show ?thesis
      unfolding new_keys_def by (intro distinct_filter distinct_map_filter)
  qed
  have mem: "k \<in> set (new_keys d ts tw) \<Longrightarrow> \<exists>tg. k = tweet_key tw tg" for k tw
    by (auto simp: new_keys_def)
  show ?thesis using assms(2)
  proof (induction tws)
    case (Cons tw tws)
    have "k \<notin> set (new_keys d ts tw')" if "k \<in> set (new_keys d ts tw)" "tw' \<in> set tws" for k tw'
      using mem[OF that(1)] mem[of k tw'] Cons.prems that(2) by (auto simp: tweet_key_eq)
    with Cons one show ?case by auto
  qed simp
qed

lemma add_deliveries_facts:
  assumes "add_deliveries rows d = (d', ids)"
  shows "\<exists>new. qq_deliveries d' = qq_deliveries d @ new \<and> map qd_id new = ids \<and>
    map qd_idempotency_key new = map qd_idempotency_key rows \<and>
    (\<forall>r \<in> set new. \<exists>r' \<in> set rows. \<exists>i. r = r'\<lparr>qd_id := i\<rparr>) \<and>
    d' = d\<lparr>qq_deliveries := qq_deliveries d', serial := serial d'\<rparr>"
proof -
  let ?new = "map (\<lambda>(k, r). r\<lparr>qd_id := serial d + int k\<rparr>) (enumerate 0 rows)"
  have d: "d' = d\<lparr>qq_deliveries := qq_deliveries d @ ?new, serial := serial d + int (length rows)\<rparr>"
      "ids = map qd_id ?new"
    using assms by (auto simp: add_deliveries_def Let_def)
  have k: "map qd_idempotency_key (map (\<lambda>(k, r). r\<lparr>qd_id := serial d + int k\<rparr>) (enumerate n rs)) =
      map qd_idempotency_key rs" for n rs
    by (induction rs arbitrary: n) simp_all
  have m: "\<forall>r \<in> set ?new. \<exists>r' \<in> set rows. \<exists>i. r = r'\<lparr>qd_id := i\<rparr>"
    by (auto simp: in_set_enumerate_eq)
  show ?thesis by (rule exI[of _ ?new]) (use d k m in simp)
qed

lemma row_for_id [simp]: "row_for d ts tw (r\<lparr>qd_id := i\<rparr>) = row_for d ts tw r"
  by (simp add: row_for_def)

text \<open>The effect of one call.\<close>

definition sent_rows :: "db \<Rightarrow> int option \<Rightarrow> (tweet \<Rightarrow> bool) \<Rightarrow> qq_delivery list \<Rightarrow> bool" where
  "sent_rows d only p new \<longleftrightarrow>
     (\<forall>r \<in> set new. \<exists>tw \<in> set (tweets d). p tw \<and> row_for d (enabled_targets only d) tw r)"

lemma create_tweet_deliveries_effect:
  assumes "create_tweet_deliveries env now m only xids d = Some (d', ids)"
  shows "\<exists>new. qq_deliveries d' = qq_deliveries d @ new \<and> map qd_id new = ids \<and>
    set (map qd_idempotency_key new) =
      wanted_keys d only (\<lambda>t. tw_tweet_id t \<in> set xids) - qd_idempotency_key ` set (qq_deliveries d) \<and>
    sent_rows d only (\<lambda>t. tw_tweet_id t \<in> set xids) new \<and>
    (distinct (map tw_id (tweets d)) \<longrightarrow> distinct (map qt_id (qq_targets d)) \<longrightarrow> distinct (map qb_id (qq_bots d)) \<longrightarrow>
      distinct (map qd_idempotency_key new)) \<and>
    d' = d\<lparr>qq_deliveries := qq_deliveries d', serial := serial d'\<rparr>"
proof -
  let ?p = "\<lambda>t. tw_tweet_id t \<in> set xids"
  let ?tws = "filter ?p (tweets d)" and ?ts = "enabled_targets only d"
  show ?thesis
  proof (cases "xids = [] \<or> ?tws = [] \<or> ?ts = []")
    case True
    with assms have "d' = d \<and> ids = []" by (auto simp: create_tweet_deliveries_def Let_def)
    moreover have "wanted_keys d only ?p = {}" using True by (auto simp: wanted_keys_def filter_empty_conv)
    ultimately show ?thesis by (simp add: sent_rows_def)
  next
    case False
    with assms obtain rows where rows: "tweet_rows env now m (load_placeholder_mappings d) d ?ts ?tws = Some rows"
        "add_deliveries rows d = (d', ids)"
      by (auto simp: create_tweet_deliveries_def Let_def)
    note spec = tweet_rows_spec[OF rows(1)]
    obtain new where new: "qq_deliveries d' = qq_deliveries d @ new" "map qd_id new = ids"
        "map qd_idempotency_key new = map qd_idempotency_key rows"
        "\<forall>r \<in> set new. \<exists>r' \<in> set rows. \<exists>i. r = r'\<lparr>qd_id := i\<rparr>"
        "d' = d\<lparr>qq_deliveries := qq_deliveries d', serial := serial d'\<rparr>"
      using add_deliveries_facts[OF rows(2)] by blast
    have keys: "set (concat (map (new_keys d ?ts) (filter (has_user d) ?tws))) =
        wanted_keys d only ?p - qd_idempotency_key ` set (qq_deliveries d)"
      by (fastforce simp: new_keys_def wanted_keys_def)
    have sent: "sent_rows d only ?p new"
      unfolding sent_rows_def
    proof
      fix r assume "r \<in> set new"
      then obtain r' i where "r' \<in> set rows" "r = r'\<lparr>qd_id := i\<rparr>" using new(4) by blast
      with spec show "\<exists>tw \<in> set (tweets d). ?p tw \<and> row_for d ?ts tw r" by fastforce
    qed
    have dist: "distinct (map qd_idempotency_key new)"
      if "distinct (map tw_id (tweets d))" "distinct (map qt_id (qq_targets d))" "distinct (map qb_id (qq_bots d))"
      using distinct_new_keys[OF distinct_enabled[OF that(2,3)], of "filter (has_user d) ?tws"] that(1)
      by (simp only: new(3) conjunct1[OF spec]) (simp add: distinct_map_filter)
    have "set (map qd_idempotency_key new) = wanted_keys d only ?p - qd_idempotency_key ` set (qq_deliveries d)"
      by (simp only: new(3) conjunct1[OF spec] keys)
    with new(1,2,5) sent dist show ?thesis by blast
  qed
qed

lemma create_tweet_deliveries_none:
  assumes "create_tweet_deliveries env now m only xids d = Some (d', ids)"
    and "wanted_keys d only (\<lambda>t. tw_tweet_id t \<in> set xids) - qd_idempotency_key ` set (qq_deliveries d) = {}"
  shows "ids = []"
  using create_tweet_deliveries_effect[OF assms(1)] unfolding assms(2) by auto

definition same_source :: "db \<Rightarrow> db \<Rightarrow> bool" where
  "same_source d d' \<longleftrightarrow> d' = d\<lparr>qq_deliveries := qq_deliveries d', serial := serial d'\<rparr>"

lemma same_source_facts:
  assumes "same_source d d'"
  shows "tweets d' = tweets d" "wanted_keys d' only p = wanted_keys d only p"
    "enabled_targets only d' = enabled_targets only d" "row_for d' ts tw r = row_for d ts tw r"
    "qq_targets d' = qq_targets d" "qq_bots d' = qq_bots d"
proof -
  obtain xs k where d': "d' = d\<lparr>qq_deliveries := xs, serial := k\<rparr>"
    using assms unfolding same_source_def by blast
  have w: "wants d' tg tw = wants d tg tw" for tg tw
    by (simp add: d' wants_def bound_def split: option.splits)
  show "tweets d' = tweets d" "qq_targets d' = qq_targets d" "qq_bots d' = qq_bots d" by (simp_all add: d')
  show e: "enabled_targets only d' = enabled_targets only d" by (simp add: d' enabled_targets_def)
  show "row_for d' ts tw r = row_for d ts tw r" by (simp add: row_for_def w)
  have "has_user d' = has_user d" by (rule ext) (simp add: d' has_user_def)
  then show "wanted_keys d' only p = wanted_keys d only p"
    by (simp add: wanted_keys_def e w) (simp add: d')
qed

lemma same_source_trans: "same_source d d1 \<Longrightarrow> same_source d1 d2 \<Longrightarrow> same_source d d2"
proof -
  assume "same_source d d1" "same_source d1 d2"
  then obtain xs k ys l where "d1 = d\<lparr>qq_deliveries := xs, serial := k\<rparr>"
      "d2 = d1\<lparr>qq_deliveries := ys, serial := l\<rparr>"
    unfolding same_source_def by blast
  then show "same_source d d2" by (simp add: same_source_def)
qed

text \<open>A page holds the posts up to its last id.\<close>

lemma history_page_upto:
  assumes "distinct (map tw_id tws)" and "t \<in> set tws" "p t" "last_id < tw_id t"
    and "tw_id t \<le> tw_id (last (history_page p last_id tws))"
  shows "t \<in> set (history_page p last_id tws)"
proof (rule ccontr)
  define xs where "xs = sort_key tw_id (filter (\<lambda>t. p t \<and> last_id < tw_id t) tws)"
  have page: "history_page p last_id tws = take 200 xs" by (simp add: history_page_def row_select_def xs_def)
  assume out: "t \<notin> set (history_page p last_id tws)"
  have "t \<in> set xs" using assms(2-4) by (simp add: xs_def)
  then obtain j where j: "j < length xs" "t = xs ! j" by (metis in_set_conv_nth)
  have "200 \<le> j"
  proof (rule ccontr)
    assume "\<not> 200 \<le> j"
    with j have "t \<in> set (take 200 xs)" by (auto simp: in_set_conv_nth intro!: exI[of _ j])
    with out page show False by simp
  qed
  moreover from this have "take 200 xs \<noteq> []" using j(1) by auto
  ultimately have l: "last (take 200 xs) = xs ! 199" "199 < j"
    using j(1) last_conv_nth[of "take 200 xs"] by simp_all
  have s: "sorted (map tw_id xs)" by (simp add: xs_def)
  have d: "distinct (map tw_id xs)"
    using distinct_map_filter[OF assms(1), of "\<lambda>t. p t \<and> last_id < tw_id t"]
    unfolding xs_def by (simp add: distinct_map)
  have "tw_id (xs ! 199) \<noteq> tw_id (xs ! j)"
    using nth_eq_iff_index_eq[OF d, of 199 j] j(1) l(2) by simp
  moreover have "tw_id (xs ! 199) \<le> tw_id (xs ! j)"
    using sorted_nth_mono[OF s, of 199 j] j(1) l(2) by simp
  ultimately show False using assms(5) j(2) l(1) by (simp add: page)
qed

lemma wanted_keys_cong:
  assumes "\<And>t. t \<in> set (tweets d) \<Longrightarrow> p t = q t"
  shows "wanted_keys d only p = wanted_keys d only q"
proof -
  have "(t \<in> set (tweets d) \<and> p t \<and> X) = (t \<in> set (tweets d) \<and> q t \<and> X)" for t X
    using assms by blast
  then show ?thesis unfolding wanted_keys_def by (simp only:)
qed

lemma wanted_keys_or:
  "wanted_keys d only (\<lambda>t. p t \<or> q t) = wanted_keys d only p \<union> wanted_keys d only q"
  by (rule set_eqI) (simp only: wanted_keys_def mem_Collect_eq Un_iff, blast)

lemma wanted_keys_page:
  assumes "distinct (map tw_id (tweets d))" and "distinct (map tw_tweet_id (tweets d))"
    and "page = history_page p last_id (tweets d)" and "page \<noteq> []"
  shows "wanted_keys d only (\<lambda>t. tw_tweet_id t \<in> set (map tw_tweet_id page)) \<union>
      wanted_keys d only (\<lambda>t. p t \<and> tw_id (last page) < tw_id t) =
    wanted_keys d only (\<lambda>t. p t \<and> last_id < tw_id t)"
proof -
  have in_page: "tw_tweet_id t \<in> set (map tw_tweet_id page) \<longleftrightarrow> t \<in> set page" if "t \<in> set (tweets d)" for t
  proof -
    have "set page \<subseteq> set (tweets d)"
      unfolding assms(3) history_page_def by (auto dest: row_select_mem)
    moreover have "inj_on tw_tweet_id (set (tweets d))" using assms(2) by (simp add: distinct_map)
    ultimately show ?thesis using inj_on_image_mem_iff[OF _ that] by (simp only: set_map)
  qed
  have mem: "t \<in> set page \<Longrightarrow> p t \<and> last_id < tw_id t" for t
    unfolding assms(3) history_page_def by (auto dest: row_select_mem)
  have last: "last_id < tw_id (last page)" using mem last_in_set[OF assms(4)] by blast
  have split: "t \<in> set page \<or> (p t \<and> tw_id (last page) < tw_id t) \<longleftrightarrow> p t \<and> last_id < tw_id t"
    if "t \<in> set (tweets d)" for t
    using history_page_upto[OF assms(1) that, of p last_id] mem[of t] last
    unfolding assms(3)[symmetric] by fastforce
  have "wanted_keys d only (\<lambda>t. tw_tweet_id t \<in> set (map tw_tweet_id page)) = wanted_keys d only (\<lambda>t. t \<in> set page)"
    by (rule wanted_keys_cong) (rule in_page)
  moreover have "wanted_keys d only (\<lambda>t. t \<in> set page \<or> (p t \<and> tw_id (last page) < tw_id t)) =
      wanted_keys d only (\<lambda>t. p t \<and> last_id < tw_id t)"
    by (rule wanted_keys_cong) (rule split)
  ultimately show ?thesis by (simp only: wanted_keys_or)
qed

declare history_loop.simps [simp del]

text \<open>The loop adds the missing keys of all pages together.\<close>

lemma history_loop_adds:
  assumes "history_loop env now m target p tws last_id d = Some (d', ids)" and "tws = tweets d"
    and "distinct (map tw_id tws)" and "distinct (map tw_tweet_id tws)"
  shows "\<exists>new. qq_deliveries d' = qq_deliveries d @ new \<and> map qd_id new = ids \<and>
    set (map qd_idempotency_key new) =
      wanted_keys d (Some target) (\<lambda>t. p t \<and> last_id < tw_id t) - qd_idempotency_key ` set (qq_deliveries d) \<and>
    sent_rows d (Some target) (\<lambda>t. True) new \<and> same_source d d'"
  using assms
proof (induction env now m target p tws last_id d arbitrary: d' ids rule: history_loop.induct)
  case (1 env now m target p tws last_id d)
  let ?page = "history_page p last_id (tweets d)" and ?K = "wanted_keys d (Some target)"
  let ?old = "qd_idempotency_key ` set (qq_deliveries d)"
  show ?case
  proof (cases "?page = []")
    case True
    then have "\<forall>t \<in> set (tweets d). \<not> (p t \<and> last_id < tw_id t)"
      by (simp add: history_page_def row_select_empty)
    then have "?K (\<lambda>t. p t \<and> last_id < tw_id t) = {}" by (auto simp: wanted_keys_def)
    moreover have "d' = d \<and> ids = []"
      using "1.prems"(1,2) True by (simp add: history_loop.simps[of env now m target p "tweets d"])
    ultimately show ?thesis by (simp add: sent_rows_def same_source_def)
  next
    case False
    from "1.prems"(1,2) False obtain d1 ids1 d2 ids2 where
      one: "create_tweet_deliveries env now m (Some target) (map tw_tweet_id ?page) d = Some (d1, ids1)"
      and two: "history_loop env now m target p tws (tw_id (last ?page)) d1 = Some (d2, ids2)"
      and res: "d' = d2" "ids = ids1 @ ids2"
      by (auto simp: history_loop.simps[of env now m target p "tweets d"] Let_def split: option.splits)
    obtain new1 where new1: "qq_deliveries d1 = qq_deliveries d @ new1" "map qd_id new1 = ids1"
        "set (map qd_idempotency_key new1) = ?K (\<lambda>t. tw_tweet_id t \<in> set (map tw_tweet_id ?page)) - ?old"
        "sent_rows d (Some target) (\<lambda>t. tw_tweet_id t \<in> set (map tw_tweet_id ?page)) new1" "same_source d d1"
      using create_tweet_deliveries_effect[OF one] unfolding same_source_def by blast
    note same = same_source_facts[OF new1(5)]
    have page: "history_page p last_id tws = ?page" by (simp add: "1.prems"(2))
    have "tws = tweets d1" by (simp add: same(1) "1.prems"(2))
    from "1.IH"[OF page[symmetric] _ one HOL.refl two this
        "1.prems"(3,4)] False
    obtain new2 where new2: "qq_deliveries d2 = qq_deliveries d1 @ new2" "map qd_id new2 = ids2"
        "set (map qd_idempotency_key new2) =
           ?K (\<lambda>t. p t \<and> tw_id (last ?page) < tw_id t) - qd_idempotency_key ` set (qq_deliveries d1)"
        "sent_rows d1 (Some target) (\<lambda>t. True) new2" "same_source d1 d2"
      unfolding same "1.prems"(2) by blast
    have "set (map qd_idempotency_key (new1 @ new2)) =
        (?K (\<lambda>t. tw_tweet_id t \<in> set (map tw_tweet_id ?page)) \<union> ?K (\<lambda>t. p t \<and> tw_id (last ?page) < tw_id t)) - ?old"
      using new1(1,3) new2(3) by auto
    also have "\<dots> = ?K (\<lambda>t. p t \<and> last_id < tw_id t) - ?old"
      using wanted_keys_page[OF _ _ HOL.refl False] "1.prems"(2-4) by simp
    finally have keys: "set (map qd_idempotency_key (new1 @ new2)) = ?K (\<lambda>t. p t \<and> last_id < tw_id t) - ?old" .
    have "sent_rows d (Some target) (\<lambda>t. True) (new1 @ new2)"
      using new1(4) new2(4) by (auto simp: sent_rows_def same)
    with keys new1(1,2) new2(1,2) res same_source_trans[OF new1(5) new2(5)] show ?thesis
      by (intro exI[of _ "new1 @ new2"]) simp
  qed
qed

subsection \<open>Sample rows\<close>

definition sample_render_env :: render_env where
  "sample_render_env = \<lparr>re_title = ''news'', re_strftime = (\<lambda>t. show_int t), re_json_dumps = (\<lambda>j. ''{}'')\<rparr>"

definition sample_bot :: qq_bot where
  "sample_bot = \<lparr>qb_id = 2, qb_name = ''bot'', qb_app_id = ''app'', qb_encrypted_app_secret = ''x'',
     qb_secret_hint = ''h'', qb_secret_fingerprint = ''f'', qb_is_enabled = True,
     qb_verification_status = ''valid'', qb_version = 1, qb_last_verified_at = None,
     qb_last_error = None, qb_created_at = 0, qb_updated_at = 0\<rparr>"

definition sample_target :: qq_target where
  "sample_target = \<lparr>qt_id = 7, qt_bot_id = 2, qt_name = ''group'', qt_group_openid = ''g1'',
     qt_is_enabled = True, qt_all_monitored_users = True, qt_listen_mode = ''all'',
     qt_initial_sync_days = Some 1, qt_message_template = ''>{{text}}'', qt_template_variables = JNull,
     qt_created_at = 50, qt_updated_at = 50\<rparr>"

definition sample_qq_db :: db where
  "sample_qq_db = sample_db\<lparr>qq_bots := [sample_bot], qq_targets := [sample_target],
     qq_placeholders := [\<lparr>qp_id = 1, qp_placeholder = ''{text}'', qp_source_field = ''text'',
       qp_created_at = 0, qp_updated_at = 0\<rparr>]\<rparr>"

lemma sample_render:
  "render_qq_message sample_render_env ''>{{text}}'' sample_tweet sample_user JNull (Some [(''text'', ''text'')]) =
     Some ''>hello''"
proof -
  have vals: "placeholder_values sample_render_env (Some [(''text'', ''text'')]) sample_tweet sample_user (re_title sample_render_env) =
      Some [(''text'', ''hello'')]"
    by (simp add: placeholder_values_def source_fields_def source_value_def sample_tweet_def)
  have norm: "normalize_message_template ''>{{text}}'' [''text''] = ''>{text}''"
    by (simp add: normalize_message_template_def match_braces_def starts_with_def field_name_def name_char_def
        is_lower_def is_digit_def code_def Let_def)
  have form: "format_map (map_of [(''text'', ''hello'')]) ''>{text}'' = Some ''>hello''"
    by (simp add: starts_with_def plain_field_def field_name_def name_char_def is_lower_def is_digit_def code_def Let_def)
  have "cut_message (strip ''>hello'') = ''>hello''"
    by (simp add: cut_message_def strip_def strip_by_def lstrip_by_def rstrip_by_def is_space_def code_def
        qq_message_max_chars_def)
  with vals norm form show ?thesis
    by (simp add: render_qq_message_def Let_def del: format_map.simps)
qed

lemma sample_qq_facts:
  "tweets sample_qq_db = [sample_tweet]" "enabled_targets None sample_qq_db = [(sample_target, sample_bot)]"
  "enabled_targets (Some 7) sample_qq_db = [(sample_target, sample_bot)]"
  "load_placeholder_mappings sample_qq_db = [(''text'', ''text'')]"
  "monitored_users sample_qq_db = [sample_user]" "qq_deliveries sample_qq_db = []"
  "qq_targets sample_qq_db = [sample_target]" "qq_bots sample_qq_db = [sample_bot]"
  "target_history_cutoff sample_target = Some (50 - day)"
  by (simp_all add: sample_qq_db_def sample_db_def empty_db_def enabled_targets_def sample_target_def
      sample_bot_def load_placeholder_mappings_def target_history_cutoff_def day_def min_time_def secs_def)

lemma sample_wants: "wants sample_qq_db sample_target sample_tweet" "has_user sample_qq_db sample_tweet"
  by (simp_all add: wants_def sample_qq_facts target_accepts_tweet_def has_user_def)
    (simp_all add: sample_target_def sample_tweet_def sample_user_def day_def secs_def Let_def)

lemma sample_create:
  assumes "only = None \<or> only = Some 7"
  shows "\<exists>d'. create_tweet_deliveries sample_render_env 500 3 only [''11''] sample_qq_db = Some (d', [6])"
proof -
  obtain r where r: "tweet_delivery sample_render_env 500 3 [(''text'', ''text'')] sample_tweet sample_user sample_target sample_bot = Some r"
    using sample_render by (simp add: tweet_delivery_def sample_target_def)
  have user: "row_get mu_id (tw_monitored_user_id sample_tweet) [sample_user] = Some sample_user"
    by (simp add: row_get_def sample_user_def sample_tweet_def)
  have rows: "tweet_rows sample_render_env 500 3 [(''text'', ''text'')] sample_qq_db [(sample_target, sample_bot)] [sample_tweet] = Some [r]"
    by (simp add: sample_qq_facts user r sample_wants)
  have "tw_tweet_id sample_tweet = ''11''" "serial sample_qq_db = 6"
    by (simp_all add: sample_tweet_def sample_qq_db_def sample_db_def)
  with rows assms show ?thesis
    by (auto simp: create_tweet_deliveries_def Let_def sample_qq_facts add_deliveries_def simp del: tweet_rows.simps)
qed

subsection \<open>Properties\<close>

text \<open>
  C34: A post is sent to exactly the groups that want it, once. A call for a set of
  posts appends one queued row, with a fresh key and a message of at most 2000
  characters, for each post of a known account and each enabled target of an
  enabled bot that accepts its kind, age and account and has no row for it yet;
  no other row is added or changed, and a repeated call adds nothing.
\<close>

theorem tweet_deliveries_exact:
  assumes "create_tweet_deliveries env now m only xids d = Some (d', ids)"
    and "distinct (map tw_id (tweets d))" and "distinct (map qt_id (qq_targets d))"
    and "distinct (map qb_id (qq_bots d))"
  shows "(\<exists>new. qq_deliveries d' = qq_deliveries d @ new \<and> map qd_id new = ids \<and>
      distinct (map qd_idempotency_key new) \<and>
      set (map qd_idempotency_key new) =
        {tweet_key tw tg | tw tg. tw \<in> set (tweets d) \<and> tw_tweet_id tw \<in> set xids \<and> has_user d tw \<and>
           tg \<in> fst ` set (enabled_targets only d) \<and> wants d tg tw} - qd_idempotency_key ` set (qq_deliveries d) \<and>
      (\<forall>r \<in> set new. \<exists>tw \<in> set (tweets d). tw_tweet_id tw \<in> set xids \<and> row_for d (enabled_targets only d) tw r)) \<and>
    (\<forall>now' m' d2 ids2. create_tweet_deliveries env now' m' only xids d' = Some (d2, ids2) \<longrightarrow> ids2 = [])"
proof -
  let ?p = "\<lambda>t. tw_tweet_id t \<in> set xids"
  obtain new where new: "qq_deliveries d' = qq_deliveries d @ new" "map qd_id new = ids"
      "set (map qd_idempotency_key new) = wanted_keys d only ?p - qd_idempotency_key ` set (qq_deliveries d)"
      "sent_rows d only ?p new" "distinct (map qd_idempotency_key new)" "same_source d d'"
    using create_tweet_deliveries_effect[OF assms(1)] assms(2-4) unfolding same_source_def by blast
  have "ids2 = []" if again: "create_tweet_deliveries env now' m' only xids d' = Some (d2, ids2)" for now' m' d2 ids2
  proof -
    have all_there: "wanted_keys d only ?p \<subseteq> qd_idempotency_key ` set (qq_deliveries d')"
      using new(1,3) by auto
    have "wanted_keys d' only ?p - qd_idempotency_key ` set (qq_deliveries d') = {}"
      using all_there by (simp only: same_source_facts(2)[OF new(6)] Diff_eq_empty_iff)
    then show ?thesis by (rule create_tweet_deliveries_none[OF again])
  qed
  then have "\<forall>now' m' d2 ids2. create_tweet_deliveries env now' m' only xids d' = Some (d2, ids2) \<longrightarrow> ids2 = []"
    by blast
  moreover note new(1,2,5) new(3)[unfolded wanted_keys_def] new(4)[unfolded sent_rows_def]
  ultimately show ?thesis by (intro conjI exI[of _ new])
qed

theorem tweet_deliveries_exact_witness:
  "\<exists>d' :: db. map qd_id (qq_deliveries d') = [6] \<and>
     tweet_key sample_tweet sample_target \<in> set (map qd_idempotency_key (qq_deliveries d'))"
proof -
  obtain d' where d': "create_tweet_deliveries sample_render_env 500 3 None [''11''] sample_qq_db = Some (d', [6])"
    using sample_create by blast
  have dist: "distinct (map tw_id (tweets sample_qq_db))" "distinct (map qt_id (qq_targets sample_qq_db))"
      "distinct (map qb_id (qq_bots sample_qq_db))"
    by (simp_all add: sample_qq_facts)
  obtain new where new: "qq_deliveries d' = qq_deliveries sample_qq_db @ new" "map qd_id new = [6]"
      "set (map qd_idempotency_key new) =
        {tweet_key tw tg | tw tg. tw \<in> set (tweets sample_qq_db) \<and> tw_tweet_id tw \<in> set [''11''] \<and>
           has_user sample_qq_db tw \<and> tg \<in> fst ` set (enabled_targets None sample_qq_db) \<and>
           wants sample_qq_db tg tw} - qd_idempotency_key ` set (qq_deliveries sample_qq_db)"
    using conjunct1[OF tweet_deliveries_exact[OF d' dist]] by (elim exE conjE) (rule that, assumption+)
  have "tw_tweet_id sample_tweet = ''11''" by (simp add: sample_tweet_def)
  then have "tweet_key sample_tweet sample_target \<in> set (map qd_idempotency_key new)"
    unfolding new(3) sample_qq_facts using sample_wants by auto
  with new(1,2) show ?thesis by (intro exI[of _ d']) (simp add: sample_qq_facts)
qed

text \<open>Rows exist when the templates render; nothing else stops the loop.\<close>

lemma target_rows_some:
  assumes "\<forall>(t, b) \<in> set ts. render_qq_message env (qt_message_template t) tw u (qt_template_variables t) (Some ms) \<noteq> None"
  shows "target_rows env now m ms d tw u ts \<noteq> None"
  using assms by (induction ts) (auto simp: tweet_delivery_def split: option.splits)

lemma tweet_rows_some:
  assumes "\<And>t b tw u. (t, b) \<in> set ts \<Longrightarrow> tw \<in> set tws \<Longrightarrow>
    render_qq_message env (qt_message_template t) tw u (qt_template_variables t) (Some ms) \<noteq> None"
  shows "tweet_rows env now m ms d ts tws \<noteq> None"
  using assms
proof (induction tws)
  case (Cons tw tws)
  have "target_rows env now m ms d tw u ts \<noteq> None" for u using Cons.prems by (intro target_rows_some) auto
  then have "\<forall>u. \<exists>r. target_rows env now m ms d tw u ts = Some r" by simp
  then obtain f where "\<And>u. target_rows env now m ms d tw u ts = Some (f u)" by metis
  moreover have "tweet_rows env now m ms d ts tws \<noteq> None" by (rule Cons.IH) (use Cons.prems in simp)
  ultimately show ?case by (cases "row_get mu_id (tw_monitored_user_id tw) (monitored_users d)") (simp_all del: row_get_None)
qed simp

definition renders :: "render_env \<Rightarrow> db \<Rightarrow> qq_target \<Rightarrow> bool" where
  "renders env d tg \<longleftrightarrow> (\<forall>tw \<in> set (tweets d). \<forall>u.
     render_qq_message env (qt_message_template tg) tw u (qt_template_variables tg) (Some (load_placeholder_mappings d)) \<noteq> None)"

lemma create_tweet_deliveries_some:
  assumes "\<forall>(t, b) \<in> set (enabled_targets only d). renders env d t"
  shows "create_tweet_deliveries env now m only xids d \<noteq> None"
proof -
  have "tweet_rows env now m (load_placeholder_mappings d) d (enabled_targets only d) (filter (\<lambda>t. tw_tweet_id t \<in> set xids) (tweets d)) \<noteq> None"
    using assms by (intro tweet_rows_some) (auto simp: renders_def)
  then show ?thesis by (simp add: create_tweet_deliveries_def Let_def del: not_None_eq)
qed

lemma history_loop_some:
  assumes "\<forall>(t, b) \<in> set (enabled_targets (Some target) d). renders env d t"
  shows "history_loop env now m target p tws last_id d \<noteq> None"
  using assms
proof (induction env now m target p tws last_id d rule: history_loop.induct)
  case (1 env now m target p tws last_id d)
  let ?page = "history_page p last_id tws"
  show ?case
  proof (cases "?page = []")
    case True
    then show ?thesis by (simp add: history_loop.simps[of env now m target p tws])
  next
    case False
    obtain d1 ids1 where one: "create_tweet_deliveries env now m (Some target) (map tw_tweet_id ?page) d = Some (d1, ids1)"
      using create_tweet_deliveries_some[OF "1.prems"] by fastforce
    then have same: "same_source d d1" using create_tweet_deliveries_effect[OF one] unfolding same_source_def by blast
    then obtain xs k where d1: "d1 = d\<lparr>qq_deliveries := xs, serial := k\<rparr>" unfolding same_source_def by blast
    have "renders env d1 t = renders env d t" for t by (simp add: d1 renders_def load_placeholder_mappings_def)
    then have "history_loop env now m target p tws (tw_id (last ?page)) d1 \<noteq> None"
      using "1.IH"[OF HOL.refl False one HOL.refl] "1.prems" same_source_facts(3)[OF same] by simp
    then show ?thesis using False one by (auto simp: history_loop.simps[of env now m target p tws] Let_def)
  qed
qed

text \<open>Whether the history of a target is sent: it and its bot are enabled and its window is set.\<close>

definition sends_history :: "db \<Rightarrow> qq_target \<Rightarrow> bool" where
  "sends_history d tg \<longleftrightarrow> qt_is_enabled tg \<and> target_history_cutoff tg \<noteq> None \<and>
     list_ex (\<lambda>b. qb_id b = qt_bot_id tg \<and> qb_is_enabled b) (qq_bots d)"

lemma enabled_target_only:
  assumes "distinct (map qt_id (qq_targets d))" and "tg \<in> set (qq_targets d)" and "(t, b) \<in> set (enabled_targets (Some (qt_id tg)) d)"
  shows "t = tg \<and> qt_is_enabled tg \<and> b \<in> set (qq_bots d) \<and> qb_id b = qt_bot_id tg \<and> qb_is_enabled b"
proof -
  have t: "t \<in> set (qq_targets d)" "qt_id t = qt_id tg" "qt_is_enabled t" "b \<in> set (qq_bots d)" "qb_id b = qt_bot_id t" "qb_is_enabled b"
    using assms(3) by (auto simp: enabled_targets_def)
  then have "t = tg" using assms(1,2) by (auto simp: distinct_map inj_on_def)
  with t show ?thesis by blast
qed

text \<open>
  C33: A new target receives its whole history, once. When its template renders, the paged backfill returns after
  finitely many pages. If the target and its bot are enabled and a history window is set, every stored post of a known
  account that the target wants then has its row, whatever the page boundaries; otherwise nothing is added. Only rows
  of this target are added, with the returned ids.
\<close>

theorem target_history_complete:
  assumes "tg \<in> set (qq_targets d)" and "renders env d tg"
    and "\<forall>t \<in> set (tweets d). 0 < tw_id t" and "distinct (map tw_id (tweets d))"
    and "distinct (map tw_tweet_id (tweets d))" and "distinct (map qt_id (qq_targets d))"
  shows "\<exists>d' ids new. create_target_history_deliveries env now m tg d = Some (d', ids) \<and>
    qq_deliveries d' = qq_deliveries d @ new \<and> map qd_id new = ids \<and>
    (\<forall>r \<in> set new. qd_target_id r = Some (qt_id tg) \<and> qd_group_openid r = qt_group_openid tg) \<and>
    (sends_history d tg \<longrightarrow> (\<forall>tw \<in> set (tweets d). has_user d tw \<and> wants d tg tw \<longrightarrow>
       tweet_key tw tg \<in> qd_idempotency_key ` set (qq_deliveries d'))) \<and>
    (\<not> sends_history d tg \<longrightarrow> new = [])"
proof (cases "qt_is_enabled tg \<and> target_history_cutoff tg \<noteq> None")
  case False
  then have "create_target_history_deliveries env now m tg d = Some (d, [])"
    by (auto simp: create_target_history_deliveries_def split: option.splits)
  with False show ?thesis by (auto simp: sends_history_def)
next
  case True
  then obtain c where c: "target_history_cutoff tg = Some c" by auto
  note only = enabled_target_only[OF assms(6,1)]
  let ?p = "in_history d tg c"
  have "\<forall>(t, b) \<in> set (enabled_targets (Some (qt_id tg)) d). renders env d t" using only assms(2) by blast
  then obtain d' ids where run: "history_loop env now m (qt_id tg) ?p (tweets d) 0 d = Some (d', ids)"
    using history_loop_some by fastforce
  from history_loop_adds[OF run HOL.refl assms(4,5)] obtain new where
    new: "qq_deliveries d' = qq_deliveries d @ new" "map qd_id new = ids"
      "set (map qd_idempotency_key new) = wanted_keys d (Some (qt_id tg)) (\<lambda>t. ?p t \<and> 0 < tw_id t) -
         qd_idempotency_key ` set (qq_deliveries d)"
      "sent_rows d (Some (qt_id tg)) (\<lambda>t. True) new" by blast
  have rows: "(qd_target_id r = Some (qt_id tg) \<and> qd_group_openid r = qt_group_openid tg) \<and> sends_history d tg" if "r \<in> set new" for r
  proof -
    from new(4) that obtain t b tw where g: "(t, b) \<in> set (enabled_targets (Some (qt_id tg)) d)"
        "qd_target_id r = Some (qt_id t)" "qd_group_openid r = qt_group_openid t"
      by (auto simp: sent_rows_def row_for_def)
    with only[OF g(1)] c show ?thesis by (auto simp: sends_history_def list_ex_iff)
  qed
  have "tweet_key tw tg \<in> qd_idempotency_key ` set (qq_deliveries d')"
    if "sends_history d tg" "tw \<in> set (tweets d)" "has_user d tw" "wants d tg tw" for tw
  proof -
    note sends = that(1)
    obtain b where "b \<in> set (qq_bots d)" "qb_id b = qt_bot_id tg" "qb_is_enabled b" "qt_is_enabled tg"
      using sends by (auto simp: sends_history_def list_ex_iff)
    then have b: "(tg, b) \<in> set (enabled_targets (Some (qt_id tg)) d)"
      using assms(1) unfolding enabled_targets_def by fastforce
    have "?p tw" using that(4) c by (auto simp: in_history_def wants_def target_accepts_tweet_def Let_def)
    then have "tweet_key tw tg \<in> wanted_keys d (Some (qt_id tg)) (\<lambda>t. ?p t \<and> 0 < tw_id t)"
      unfolding wanted_keys_def using that b assms(3) by force
    then have "tweet_key tw tg \<in> set (map qd_idempotency_key new) \<or> tweet_key tw tg \<in> qd_idempotency_key ` set (qq_deliveries d)"
      using new(3) by blast
    then show ?thesis using new(1) by auto
  qed
  moreover have "\<not> sends_history d tg \<longrightarrow> new = []" using rows by (cases new) auto
  moreover have "create_target_history_deliveries env now m tg d = Some (d', ids)"
    using run c True by (simp add: create_target_history_deliveries_def)
  ultimately show ?thesis using new(1,2) rows by (intro exI[of _ d'] exI[of _ ids] exI[of _ new]) blast
qed

text \<open>The only source field of the sample renders for every post of the sample.\<close>

lemma sample_render_any: "render_qq_message sample_render_env ''>{{text}}'' sample_tweet u JNull (Some [(''text'', ''text'')]) = Some ''>hello''"
proof -
  have "placeholder_values sample_render_env (Some [(''text'', ''text'')]) sample_tweet u (re_title sample_render_env) =
      placeholder_values sample_render_env (Some [(''text'', ''text'')]) sample_tweet sample_user (re_title sample_render_env)"
    by (simp add: placeholder_values_def source_fields_def source_value_def)
  then show ?thesis using sample_render by (simp add: render_qq_message_def)
qed

theorem target_history_complete_witness:
  "\<exists>d' ids. create_target_history_deliveries sample_render_env 500 3 (sample_target\<lparr>qt_created_at := day\<rparr>)
     (sample_qq_db\<lparr>qq_targets := [sample_target\<lparr>qt_created_at := day\<rparr>]\<rparr>) = Some (d', ids) \<and>
     tweet_key sample_tweet sample_target \<in> qd_idempotency_key ` set (qq_deliveries d')"
proof -
  let ?tg = "sample_target\<lparr>qt_created_at := day\<rparr>" and ?d = "sample_qq_db\<lparr>qq_targets := [sample_target\<lparr>qt_created_at := day\<rparr>]\<rparr>"
  have key: "tweet_key sample_tweet ?tg = tweet_key sample_tweet sample_target"
    by (simp add: tweet_key_def)
  have tg: "target_history_cutoff ?tg = Some 0" "qt_is_enabled ?tg" "qt_id ?tg = 7" "qt_bot_id ?tg = qb_id sample_bot" "qb_is_enabled sample_bot"
      "qt_message_template ?tg = ''>{{text}}''" "qt_template_variables ?tg = JNull"
    by (simp_all add: target_history_cutoff_def sample_target_def day_def min_time_def secs_def sample_bot_def)
  have tw: "tw_tweet_id sample_tweet = ''11''" "tw_id sample_tweet = 5"
    by (simp_all add: sample_tweet_def)
  have tabs: "tweets ?d = [sample_tweet]" "load_placeholder_mappings ?d = [(''text'', ''text'')]" "monitored_users ?d = [sample_user]"
    "qq_targets ?d = [?tg]" "qq_bots ?d = [sample_bot]"
    by (simp_all add: sample_qq_db_def sample_db_def empty_db_def load_placeholder_mappings_def)
  have want: "wants ?d ?tg sample_tweet" "has_user ?d sample_tweet"
    by (simp_all add: wants_def tg target_accepts_tweet_def Let_def has_user_def tabs)
      (simp_all add: sample_target_def sample_tweet_def sample_user_def day_def secs_def)
  have "renders sample_render_env ?d ?tg" by (simp add: renders_def tabs tg sample_render_any)
  moreover have "sends_history ?d ?tg" by (simp add: sends_history_def tg tabs)
  ultimately have "\<exists>d' ids. create_target_history_deliveries sample_render_env 500 3 ?tg ?d = Some (d', ids) \<and>
      tweet_key sample_tweet ?tg \<in> qd_idempotency_key ` set (qq_deliveries d')"
    using target_history_complete[of ?tg ?d sample_render_env 500 3] want by (auto simp: tabs tw simp del: db.simps)
  then show ?thesis by (simp only: key)
qed

end
