(* ===== verification/Polling.thy ===== *)
theory Polling
  imports Screenshots QQNotify Backfill RedisLease Config
begin

text \<open>
  Collection of posts, \<open>backend/app/services/poller.py\<close> and
  \<open>backend/app/services/settings_service.py\<close>: a poll claims a monitored account under
  a Redis lock and a generation, asks the X source outside any transaction, and commits
  the posts with their jobs, screenshots and deliveries in one transaction that the
  generation and the lock guard.
\<close>

subsection \<open>Settings\<close>

text \<open>
  \<open>int(value)\<close> on a JSON value; \<open>None\<close> is the \<open>TypeError\<close> or \<open>ValueError\<close>. Decimal
  texts are read by a parameter.
\<close>

fun int_of :: "(string \<Rightarrow> int option) \<Rightarrow> json \<Rightarrow> int option" where
  "int_of read (JInt i) = Some i"
| "int_of read (JBool b) = Some (if b then 1 else 0)"
| "int_of read (JFloat r) = Some (if 0 \<le> r then \<lfloor>r\<rfloor> else \<lceil>r\<rceil>)"
| "int_of read (JStr s) = read s"
| "int_of read _ = None"

record polling_settings =
  ps_global_interval :: int
  ps_max_concurrency :: int

definition get_polling_settings :: "worker_cfg \<Rightarrow> (string \<Rightarrow> int option) \<Rightarrow> db \<Rightarrow> polling_settings option" where
  "get_polling_settings cfg read d =
     (let value = (case row_get as_key ''polling'' (app_settings d) of None \<Rightarrow> JObj [] | Some r \<Rightarrow> as_value r) in
      case int_of read (jget_or value ''global_poll_interval_seconds'' (JInt (default_poll_interval_seconds cfg))) of
        None \<Rightarrow> None
      | Some i \<Rightarrow>
          (case int_of read (jget_or value ''max_concurrency'' (JInt (worker_max_concurrency cfg))) of
             None \<Rightarrow> None
           | Some c \<Rightarrow> Some \<lparr>ps_global_interval = i, ps_max_concurrency = c\<rparr>))"

definition effective_interval :: "int option \<Rightarrow> polling_settings \<Rightarrow> int" where
  "effective_interval user ps =
     (case user of None \<Rightarrow> ps_global_interval ps | Some i \<Rightarrow> if i = 0 then ps_global_interval ps else i)"

definition x_source_providers :: "string set" where
  "x_source_providers = {''official_api'', ''twscrape''}"

definition get_x_source_provider :: "db \<Rightarrow> string" where
  "get_x_source_provider d =
     (case row_get as_key ''x_source'' (app_settings d) of
        None \<Rightarrow> ''official_api''
      | Some r \<Rightarrow>
          (case jget (jor (as_value r) (JObj [])) ''provider'' of
             JStr p \<Rightarrow> if p \<in> x_source_providers then p else ''official_api''
           | _ \<Rightarrow> ''official_api''))"

definition set_x_source_provider :: "time \<Rightarrow> string \<Rightarrow> db \<Rightarrow> db option" where
  "set_x_source_provider now p d =
     (if p \<notin> x_source_providers then None
      else let value = JObj [(''provider'', JStr p)] in
        case row_get as_key ''x_source'' (app_settings d) of
          None \<Rightarrow> Some (d\<lparr>app_settings := app_settings d @
                     [\<lparr>as_key = ''x_source'', as_value = value, as_updated_at = now\<rparr>]\<rparr>)
        | Some r \<Rightarrow> Some (d\<lparr>app_settings := row_put as_key (r\<lparr>as_value := value, as_updated_at := now\<rparr>)
                             (app_settings d)\<rparr>))"

subsection \<open>Claims, batches and the pagination state\<close>

record poll_claim =
  pc_user_id :: int
  pc_log_id :: int
  pc_generation :: int
  pc_trigger :: string
  pc_manual_token :: "string option"
  pc_username :: string
  pc_x_user_id :: "string option"
  pc_since_id :: "string option"
  pc_pagination_token :: "string option"
  pc_pagination_since_id :: "string option"
  pc_pagination_newest_id :: "string option"
  pc_include_replies :: bool
  pc_include_retweets :: bool

record x_user =
  xu_id :: string
  xu_username :: string
  xu_name :: "string option"

record tweet_batch =
  tb_tweets :: "json list"
  tb_newest_id :: "string option"
  tb_next_token :: "string option"
  tb_result_count :: int

record pagination_state =
  pg_last_tweet_id :: "string option"
  pg_token :: "string option"
  pg_since_id :: "string option"
  pg_newest_id :: "string option"
  pg_status :: string

text \<open>\<open>a or b\<close> on nullable strings.\<close>

definition str_or :: "string option \<Rightarrow> string option \<Rightarrow> string option" where
  "str_or a b = (if nonempty a then a else b)"

definition calculate_pagination_state :: "poll_claim \<Rightarrow> tweet_batch \<Rightarrow> pagination_state" where
  "calculate_pagination_state c b =
     (let newest = str_or (pc_pagination_newest_id c) (tb_newest_id b) in
      if nonempty (tb_next_token b)
      then \<lparr>pg_last_tweet_id = pc_since_id c, pg_token = tb_next_token b,
            pg_since_id = (if pc_pagination_token c \<noteq> None then pc_pagination_since_id c else pc_since_id c),
            pg_newest_id = newest, pg_status = ''backfilling''\<rparr>
      else \<lparr>pg_last_tweet_id = str_or newest (pc_since_id c), pg_token = None, pg_since_id = None,
            pg_newest_id = None, pg_status = ''idle''\<rparr>)"

definition fetch_since :: "poll_claim \<Rightarrow> string option" where
  "fetch_since c = (if pc_pagination_token c \<noteq> None then pc_pagination_since_id c else pc_since_id c)"

definition earlier_deadline :: "time option \<Rightarrow> time \<Rightarrow> time" where
  "earlier_deadline existing proposed = (case existing of None \<Rightarrow> proposed | Some e \<Rightarrow> min e proposed)"

subsection \<open>Rows of collected posts\<close>

text \<open>\<open>datetime.fromisoformat\<close>, \<open>int\<close> of a text and \<open>str\<close> of a value that is neither a text nor an integer.\<close>

record poll_lib =
  pl_fromisoformat :: "string \<Rightarrow> time option"
  pl_read_int :: "string \<Rightarrow> int option"
  pl_repr :: "json \<Rightarrow> string"

definition parse_x_datetime :: "poll_lib \<Rightarrow> time \<Rightarrow> json \<Rightarrow> time option" where
  "parse_x_datetime lib now v =
     (if \<not> truthy v then Some now
      else case v of
        JStr s \<Rightarrow>
          (case pl_fromisoformat lib (concat (map (\<lambda>c. if c = CHR ''Z'' then ''+00:00'' else [c]) s)) of
             None \<Rightarrow> Some now | Some t \<Rightarrow> Some t)
      | _ \<Rightarrow> None)"

fun str_of :: "poll_lib \<Rightarrow> json \<Rightarrow> string" where
  "str_of lib (JStr s) = s"
| "str_of lib (JInt i) = show_int i"
| "str_of lib v = pl_repr lib v"

fun text_opt :: "json \<Rightarrow> string option" where
  "text_opt (JStr s) = Some s"
| "text_opt _ = None"

definition metric :: "poll_lib \<Rightarrow> json \<Rightarrow> string \<Rightarrow> int option" where
  "metric lib metrics k = int_of (pl_read_int lib) (jget_or metrics k (JInt 0))"

text \<open>\<open>_tweet_values\<close>; the id of the row is set when it is inserted.\<close>

definition tweet_values :: "poll_lib \<Rightarrow> int \<Rightarrow> string \<Rightarrow> json \<Rightarrow> time \<Rightarrow> tweet option" where
  "tweet_values lib user x_user payload now =
     (let metrics = jor (jget payload ''public_metrics'') (JObj []);
          note = (if is_dict (jget payload ''note_tweet'') then jget payload ''note_tweet'' else JObj []) in
      if \<not> is_dict metrics then None
      else case (parse_x_datetime lib now (jget payload ''created_at''), metric lib metrics ''like_count'',
          metric lib metrics ''retweet_count'', metric lib metrics ''reply_count'',
          metric lib metrics ''quote_count'', metric lib metrics ''bookmark_count'',
          metric lib metrics ''impression_count'') of
        (Some posted, Some likes, Some retweets, Some replies, Some quotes, Some bookmarks, Some views) \<Rightarrow>
          Some \<lparr>tw_id = 0, tw_tweet_id = str_of lib (jget payload ''id''), tw_monitored_user_id = user,
            tw_author_id = (if truthy (jget payload ''author_id'') then str_of lib (jget payload ''author_id'')
                            else x_user),
            tw_text = str_of lib (jor (jor (jget note ''text'') (jget payload ''text'')) (JStr [])),
            tw_tweet_type = classify_tweet payload, tw_lang = text_opt (jget payload ''lang''),
            tw_conversation_id = text_opt (jget payload ''conversation_id''), tw_posted_at = posted,
            tw_like_count = likes, tw_retweet_count = retweets, tw_reply_count = replies,
            tw_quote_count = quotes, tw_bookmark_count = bookmarks, tw_impression_count = views,
            tw_entities = jor (jget note ''entities'') (jget payload ''entities''),
            tw_attachments = jget payload ''attachments'',
            tw_referenced_tweets = jget payload ''referenced_tweets'', tw_raw_payload = payload,
            tw_fetched_at = now\<rparr>
      | _ \<Rightarrow> None)"

text \<open>The dictionary by post id: a later item replaces an earlier one in its place.\<close>

fun put_row :: "tweet \<Rightarrow> tweet list \<Rightarrow> tweet list" where
  "put_row r [] = [r]"
| "put_row r (x # xs) = (if tw_tweet_id x = tw_tweet_id r then r # xs else x # put_row r xs)"

fun rows_by_id :: "poll_lib \<Rightarrow> int \<Rightarrow> string \<Rightarrow> time \<Rightarrow> json list \<Rightarrow> tweet list \<Rightarrow> tweet list option" where
  "rows_by_id lib user x_user now [] acc = Some acc"
| "rows_by_id lib user x_user now (item # items) acc =
     (if \<not> truthy (jget item ''id'') then rows_by_id lib user x_user now items acc
      else case tweet_values lib user x_user item now of
        None \<Rightarrow> None
      | Some r \<Rightarrow> rows_by_id lib user x_user now items (put_row r acc))"

definition tweet_insert_chunk_size :: nat where
  "tweet_insert_chunk_size = 150"

text \<open>\<open>_upsert_tweets\<close>: chunks of at most 150 rows, the keys that were new in order.\<close>

function upsert_tweets :: "tweet list \<Rightarrow> db \<Rightarrow> db \<times> string list" where
  "upsert_tweets rows d =
     (if rows = [] then (d, [])
      else let chunk = number_rows (serial d) (\<lambda>r i. r\<lparr>tw_id := i\<rparr>) (take tweet_insert_chunk_size rows) in
        case insert_ignore tw_tweet_id (tweets d) chunk of
          (tbl, ids) \<Rightarrow>
            (case upsert_tweets (drop tweet_insert_chunk_size rows)
                 (d\<lparr>tweets := tbl, serial := serial d + int (length chunk)\<rparr>) of
               (d2, later) \<Rightarrow> (d2, ids @ later)))"
  by pat_completeness auto

termination
  by (relation "measure (\<lambda>(rows, d). length rows)") (auto simp: tweet_insert_chunk_size_def)

declare upsert_tweets.simps [simp del]

subsection \<open>Transactions\<close>

definition finalize_log :: "int \<Rightarrow> string \<Rightarrow> time \<Rightarrow> int \<Rightarrow> int \<Rightarrow> int \<Rightarrow> int option \<Rightarrow> msg option \<Rightarrow> time option \<Rightarrow>
    db \<Rightarrow> db" where
  "finalize_log log_id status now duration fetched inserted http err reset d =
     d\<lparr>polling_logs := row_update (\<lambda>l. pl_id l = log_id)
        (\<lambda>l. l\<lparr>pl_status := status, pl_finished_at := Some now, pl_duration_ms := Some duration,
               pl_tweets_fetched := fetched, pl_tweets_inserted := inserted, pl_http_status := http,
               pl_error_message := err, pl_rate_limit_reset_at := reset\<rparr>) (polling_logs d)\<rparr>"

definition new_log :: "time \<Rightarrow> string \<Rightarrow> int \<Rightarrow> int \<Rightarrow> string \<Rightarrow> polling_log" where
  "new_log now worker i user trigger =
     \<lparr>pl_id = i, pl_monitored_user_id = user, pl_trigger = trigger, pl_status = ''running'',
      pl_worker_id = Some worker, pl_started_at = now, pl_finished_at = None, pl_duration_ms = None,
      pl_tweets_fetched = 0, pl_tweets_inserted = 0, pl_http_status = None, pl_error_message = None,
      pl_rate_limit_reset_at = None\<rparr>"

definition claimed_user :: "monitored_user \<Rightarrow> monitored_user" where
  "claimed_user u =
     u\<lparr>mu_poll_generation := mu_poll_generation u + 1, mu_status := ''polling'', mu_next_poll_at := None,
       mu_last_error := None\<rparr>"

definition claim_of :: "monitored_user \<Rightarrow> int \<Rightarrow> poll_claim" where
  "claim_of u log_id =
     \<lparr>pc_user_id = mu_id u, pc_log_id = log_id, pc_generation = mu_poll_generation u,
      pc_trigger = (if nonempty (mu_manual_poll_token u) then ''manual'' else ''scheduled''),
      pc_manual_token = mu_manual_poll_token u, pc_username = mu_username u,
      pc_x_user_id = mu_x_user_id u, pc_since_id = mu_last_tweet_id u,
      pc_pagination_token = mu_pagination_token u, pc_pagination_since_id = mu_pagination_since_id u,
      pc_pagination_newest_id = mu_pagination_newest_id u,
      pc_include_replies = mu_include_replies u, pc_include_retweets = mu_include_retweets u\<rparr>"

definition claim_user :: "time \<Rightarrow> string \<Rightarrow> int \<Rightarrow> db \<Rightarrow> (db \<times> poll_claim) option" where
  "claim_user now worker user d =
     (case row_get mu_id user (monitored_users d) of
        None \<Rightarrow> None
      | Some u \<Rightarrow>
          (if \<not> mu_is_active u then None
           else let u1 = claimed_user u; c = claim_of u1 (serial d) in
             Some (d\<lparr>monitored_users := row_put mu_id u1 (monitored_users d),
                     polling_logs := polling_logs d @ [new_log now worker (serial d) user (pc_trigger c)],
                     serial := serial d + 1\<rparr>, c)))"

text \<open>Another account with the same X identity.\<close>

definition identity_conflict :: "int \<Rightarrow> string \<Rightarrow> db \<Rightarrow> int option" where
  "identity_conflict user x_user d =
     map_option mu_id (find (\<lambda>u. mu_x_user_id u = Some x_user \<and> mu_id u \<noteq> user) (monitored_users d))"

datatype poll_error =
    LockLost
  | IdentityConflict string int
  | IntegrityViolation string
  | RateLimited time msg
  | ApiError msg "int option"
  | Unexpected msg
  | Cancelled

definition conflict_message :: "string \<Rightarrow> int \<Rightarrow> msg" where
  "conflict_message x_user i =
     Text (''X user id '' @ x_user @ '' is already monitored by account id '' @ show_int i)"

text \<open>What a poll relies on: the configuration and the services of the other components.\<close>

record poll_env =
  pe_worker :: string
  pe_cfg :: worker_cfg
  pe_screenshots :: bool
  pe_qq_max_attempts :: int
  pe_lib :: poll_lib
  pe_ai :: ai_env
  pe_resolve :: "int \<Rightarrow> task_selection option"
  pe_render :: render_env

text \<open>
  The outbox rows of new posts: jobs, screenshots and group notifications. A failure of
  one of them is an exception of the whole transaction.
\<close>

definition enqueue_outboxes :: "poll_env \<Rightarrow> time \<Rightarrow> string list \<Rightarrow> db \<Rightarrow> (db \<times> int list) option" where
  "enqueue_outboxes env now xids d =
     (case enqueue_jobs_for_x_tweet_ids (pe_ai env) (pe_resolve env) now xids d of
        None \<Rightarrow> None
      | Some (d1, n) \<Rightarrow>
          create_tweet_deliveries (pe_render env) now (pe_qq_max_attempts env) None xids
            (if pe_screenshots env then fst (enqueue_tweet_screenshots now xids d1) else d1))"

text \<open>The account after a successful batch.\<close>

definition committed_user :: "worker_cfg \<Rightarrow> polling_settings \<Rightarrow> time \<Rightarrow> poll_claim \<Rightarrow> x_user option \<Rightarrow> tweet_batch \<Rightarrow>
    monitored_user \<Rightarrow> monitored_user" where
  "committed_user cfg ps now c resolved b u =
     (let pg = calculate_pagination_state c b;
          u1 = (case resolved of None \<Rightarrow> u
                | Some x \<Rightarrow> u\<lparr>mu_x_user_id := Some (xu_id x), mu_display_name := xu_name x\<rparr>);
          proposed = (if nonempty (pg_token pg) then now + pagination_resume_delay cfg
                      else now + secs (effective_interval (mu_poll_interval_seconds u) ps));
          u2 = u1\<lparr>mu_last_polled_at := Some now, mu_consecutive_failures := 0, mu_last_error := None,
                  mu_last_tweet_id := pg_last_tweet_id pg, mu_pagination_token := pg_token pg,
                  mu_pagination_since_id := pg_since_id pg, mu_pagination_newest_id := pg_newest_id pg\<rparr> in
      if mu_manual_poll_token u \<noteq> pc_manual_token c
      then u2\<lparr>mu_status := ''queued'', mu_next_poll_at := Some now\<rparr>
      else u2\<lparr>mu_manual_poll_token := None, mu_status := pg_status pg,
              mu_next_poll_at := Some (earlier_deadline (mu_next_poll_at u) proposed)\<rparr>)"

record commit_result =
  cr_status :: string
  cr_tweets_inserted :: nat
  cr_applied :: bool
  cr_qq_delivery_ids :: "int list"

definition superseded :: "int \<Rightarrow> time \<Rightarrow> int \<Rightarrow> db \<Rightarrow> db" where
  "superseded log_id now duration d =
     finalize_log log_id ''superseded'' now duration 0 0 None
       (Some (Text ''Polling generation was superseded'')) None d"

text \<open>
  \<open>_commit_success\<close> after its first lock check. \<open>held\<close> is the outcome of the check
  inside the transaction; an error rolls the transaction back.
\<close>

definition commit_batch :: "poll_env \<Rightarrow> time \<Rightarrow> int \<Rightarrow> poll_claim \<Rightarrow> string \<Rightarrow> x_user option \<Rightarrow> tweet_batch \<Rightarrow>
    tweet list \<Rightarrow> polling_settings \<Rightarrow> monitored_user \<Rightarrow> db \<Rightarrow> poll_error + db \<times> commit_result" where
  "commit_batch env now duration c x_user resolved b rows ps u d =
     (case upsert_tweets rows d of
        (d1, xids) \<Rightarrow>
          (case enqueue_outboxes env now xids d1 of
             None \<Rightarrow> Inl (Unexpected (Lit ''the outbox could not be written'' []))
           | Some (d2, ids) \<Rightarrow>
               Inr (finalize_log (pc_log_id c) ''success'' now duration (tb_result_count b)
                      (int (length xids)) None None None
                      (d2\<lparr>monitored_users := row_put mu_id
                            (committed_user (pe_cfg env) ps now c resolved b u) (monitored_users d2)\<rparr>),
                    \<lparr>cr_status = ''success'', cr_tweets_inserted = length xids, cr_applied = True,
                     cr_qq_delivery_ids = ids\<rparr>)))"

definition commit_success :: "poll_env \<Rightarrow> time \<Rightarrow> int \<Rightarrow> bool \<Rightarrow> poll_claim \<Rightarrow> string \<Rightarrow> x_user option \<Rightarrow> tweet_batch \<Rightarrow>
    db \<Rightarrow> poll_error + db \<times> commit_result" where
  "commit_success env now duration held c x_user resolved b d =
     (case rows_by_id (pe_lib env) (pc_user_id c) x_user now (tb_tweets b) [] of
        None \<Rightarrow> Inl (Unexpected (Lit ''malformed post'' []))
      | Some rows \<Rightarrow>
          (case get_polling_settings (pe_cfg env) (pl_read_int (pe_lib env)) d of
             None \<Rightarrow> Inl (Unexpected (Lit ''malformed settings'' []))
           | Some ps \<Rightarrow>
               (case get_ai_setting now d of (d1, st) \<Rightarrow>
                  (case row_get mu_id (pc_user_id c) (monitored_users d1) of
                     None \<Rightarrow> Inr (superseded (pc_log_id c) now duration d1, \<lparr>cr_status = ''superseded'',
                               cr_tweets_inserted = 0, cr_applied = False, cr_qq_delivery_ids = []\<rparr>)
                   | Some u \<Rightarrow>
                       (if mu_poll_generation u \<noteq> pc_generation c
                        then Inr (superseded (pc_log_id c) now duration d1, \<lparr>cr_status = ''superseded'',
                               cr_tweets_inserted = 0, cr_applied = False, cr_qq_delivery_ids = []\<rparr>)
                        else if \<not> held then Inl LockLost
                        else case identity_conflict (pc_user_id c) x_user d1 of
                          Some i \<Rightarrow> Inl (IdentityConflict x_user i)
                        | None \<Rightarrow> commit_batch env now duration c x_user resolved b rows ps u d1)))))"

text \<open>\<open>_handle_failure\<close> after its first lock check; \<open>None\<close> is an exception, which leaves the data as it is.\<close>

definition failure_delay :: "rat \<Rightarrow> int \<Rightarrow> int \<Rightarrow> int" where
  "failure_delay jitter interval failures =
     (let exponent = min (failures + 1) 7; base = max interval (min 3600 (30 * 2 ^ nat exponent)) in
      max 15 (py_round (of_int base * jitter)))"

definition failed_user :: "time \<Rightarrow> string \<Rightarrow> msg \<Rightarrow> time \<Rightarrow> poll_claim \<Rightarrow> monitored_user \<Rightarrow> monitored_user" where
  "failed_user now status message deadline c u =
     (let u1 = u\<lparr>mu_last_polled_at := Some now, mu_last_error := Some (clip 2000 message),
                 mu_consecutive_failures := mu_consecutive_failures u + 1\<rparr> in
      if mu_manual_poll_token u \<noteq> pc_manual_token c
      then u1\<lparr>mu_status := ''queued'', mu_next_poll_at := Some now\<rparr>
      else u1\<lparr>mu_manual_poll_token := None, mu_status := status,
              mu_next_poll_at := Some (earlier_deadline (mu_next_poll_at u) deadline)\<rparr>)"

definition lock_lost_message :: msg where
  "lock_lost_message = Text ''Redis polling lease is no longer owned by this worker''"

definition lock_lost_log :: "int \<Rightarrow> time \<Rightarrow> int \<Rightarrow> db \<Rightarrow> db" where
  "lock_lost_log log_id now duration d =
     finalize_log log_id ''lock_lost'' now duration 0 0 None (Some lock_lost_message) None d"

definition handle_failure :: "poll_env \<Rightarrow> time \<Rightarrow> int \<Rightarrow> rat \<Rightarrow> bool \<Rightarrow> poll_claim \<Rightarrow> string \<Rightarrow> msg \<Rightarrow> int option \<Rightarrow>
    time option \<Rightarrow> time option \<Rightarrow> db \<Rightarrow> db option" where
  "handle_failure env now duration jitter held c status message http proposed reset d =
     (case get_polling_settings (pe_cfg env) (pl_read_int (pe_lib env)) d of
        None \<Rightarrow> None
      | Some ps \<Rightarrow>
          (case row_get mu_id (pc_user_id c) (monitored_users d) of
             None \<Rightarrow> Some (superseded (pc_log_id c) now duration d)
           | Some u \<Rightarrow>
               (if mu_poll_generation u \<noteq> pc_generation c then Some (superseded (pc_log_id c) now duration d)
                else if \<not> held then Some (lock_lost_log (pc_log_id c) now duration d)
                else let deadline = (case proposed of Some p \<Rightarrow> p
                           | None \<Rightarrow> now + secs (failure_delay jitter
                               (effective_interval (mu_poll_interval_seconds u) ps) (mu_consecutive_failures u)))
                  in Some (finalize_log (pc_log_id c) status now duration 0 0 http (Some (clip 4000 message)) reset
                       (d\<lparr>monitored_users := row_put mu_id (failed_user now status message deadline c u)
                            (monitored_users d)\<rparr>)))))"

subsection \<open>One poll\<close>

text \<open>
  The Redis lock and the gate around a poll. Between two steps of a poll other
  processes act: \<open>io_gap k\<close> is what they do to the database and to Redis before step
  \<open>k\<close>, \<open>io_now k\<close> the time of that step, and \<open>io_redis_fails k\<close> tells that Redis does
  not answer then, or that the background renewal has reported the lock lost. \<open>io_clash\<close> is the
  message of an \<open>IntegrityError\<close>: the database refuses a row of the commit, such as an identity that
  another transaction took after the check, and rolls the transaction back.
\<close>

record poll_io =
  io_now :: "nat \<Rightarrow> time"
  io_gap :: "nat \<Rightarrow> db \<times> redis \<Rightarrow> db \<times> redis"
  io_redis_fails :: "nat \<Rightarrow> bool"
  io_token :: string
  io_lookup :: "string \<Rightarrow> poll_error + x_user"
  io_fetch :: "string \<Rightarrow> string option \<Rightarrow> string option \<Rightarrow> bool \<Rightarrow> bool \<Rightarrow> poll_error + tweet_batch"
  io_jitter :: rat
  io_long_jitter :: rat
  io_duration :: int
  io_clash :: "string option"

definition poll_lock_key :: "int \<Rightarrow> string" where
  "poll_lock_key user = ''xsentinel:poll:lock:'' @ show_int user"

definition gate_key :: string where
  "gate_key = ''xsentinel:x-api:gate''"

definition set_global_gate :: "time \<Rightarrow> bool \<Rightarrow> string \<Rightarrow> time \<Rightarrow> redis \<Rightarrow> redis" where
  "set_global_gate now fails reason until s =
     (if fails then s else redis_set now gate_key reason (max 1 (ceil_seconds (until - now))) s)"

definition global_gate_active :: "time \<Rightarrow> bool \<Rightarrow> redis \<Rightarrow> bool" where
  "global_gate_active now fails s \<longleftrightarrow> fails \<or> redis_exists now gate_key s"

definition assert_lock :: "poll_env \<Rightarrow> poll_io \<Rightarrow> nat \<Rightarrow> int \<Rightarrow> redis \<Rightarrow> redis \<times> bool" where
  "assert_lock env io k user s =
     (if io_redis_fails io k then (s, False)
      else case renew_lock (io_now io k) (poll_lock_key user) (io_token io)
                  (worker_lock_ttl_seconds (pe_cfg env)) s of
        None \<Rightarrow> (s, False) | Some s' \<Rightarrow> (s', True))"

definition long_backoff :: "time \<Rightarrow> rat \<Rightarrow> time" where
  "long_backoff now jitter = now + secs (py_round (21600 * jitter))"

type_synonym world = "db \<times> redis"

text \<open>The first and the in-transaction lock check with the failure transaction between them.\<close>

definition run_failure :: "poll_env \<Rightarrow> poll_io \<Rightarrow> nat \<Rightarrow> poll_claim \<Rightarrow> string \<Rightarrow> msg \<Rightarrow> int option \<Rightarrow> time option \<Rightarrow>
    time option \<Rightarrow> world \<Rightarrow> world" where
  "run_failure env io k c status message http proposed reset w =
     (let (d, s) = io_gap io k w; (s1, held) = assert_lock env io k (pc_user_id c) s in
      if \<not> held then (lock_lost_log (pc_log_id c) (io_now io k) (io_duration io) d, s1)
      else let (d1, s2) = io_gap io (k + 1) (d, s1);
               (s3, held') = assert_lock env io (k + 1) (pc_user_id c) s2 in
        case handle_failure env (io_now io (k + 1)) (io_duration io) (io_jitter io) held' c status message http
            proposed reset d1 of
          None \<Rightarrow> (d1, s2)
        | Some d2 \<Rightarrow> (d2, s3))"

text \<open>The \<open>except\<close> clauses of \<open>poll_user\<close>, from step \<open>k\<close> on.\<close>

definition on_error :: "poll_env \<Rightarrow> poll_io \<Rightarrow> nat \<Rightarrow> poll_claim \<Rightarrow> poll_error \<Rightarrow> world \<Rightarrow> world" where
  "on_error env io k c e w =
     (let now = io_now io k in
      case e of
        RateLimited reset_at message \<Rightarrow>
          (let until = max (reset_at + secs 5) (now + secs 15) in
           run_failure env io (k + 1) c ''rate_limited'' message (Some 429) (Some until) (Some reset_at)
             (fst w, set_global_gate now (io_redis_fails io k) ''rate_limited'' until (snd w)))
      | IdentityConflict x i \<Rightarrow>
          run_failure env io (k + 1) c ''identity_conflict'' (conflict_message x i) (Some 409)
            (Some (long_backoff now (io_long_jitter io))) None w
      | IntegrityViolation message \<Rightarrow>
          run_failure env io (k + 1) c ''identity_conflict''
            (Text (''X identity conflicts with another monitored user: '' @ message)) (Some 409)
            (Some (long_backoff now (io_long_jitter io))) None w
      | ApiError message http_code \<Rightarrow>
          (if http_code = Some 401 \<or> http_code = Some 403
           then let until = now + secs (x_auth_gate_seconds (pe_cfg env)) in
             run_failure env io (k + 1) c ''error'' message http_code (Some until) None
               (fst w, set_global_gate now (io_redis_fails io k) ''authentication'' until (snd w))
           else run_failure env io (k + 1) c ''error'' message http_code
             (if http_code = Some 404 then Some (long_backoff now (io_long_jitter io)) else None) None w)
      | LockLost \<Rightarrow> (lock_lost_log (pc_log_id c) now (io_duration io) (fst w), snd w)
      | Cancelled \<Rightarrow>
          (finalize_log (pc_log_id c) ''cancelled'' now (io_duration io) 0 0 None
             (Some (Text ''Polling task was cancelled'')) None (fst w), snd w)
      | Unexpected message \<Rightarrow>
          run_failure env io (k + 1) c ''error'' message None None None w)"

text \<open>The identity of the account: known, or looked up and checked to be free.\<close>

definition resolve_identity :: "poll_io \<Rightarrow> poll_claim \<Rightarrow> db \<Rightarrow> poll_error + string \<times> x_user option" where
  "resolve_identity io c d =
     (if nonempty (pc_x_user_id c) then Inr (the (pc_x_user_id c), None)
      else case io_lookup io (pc_username c) of
        Inl e \<Rightarrow> Inl e
      | Inr x \<Rightarrow>
          (case identity_conflict (pc_user_id c) (xu_id x) d of
             Some i \<Rightarrow> Inl (IdentityConflict (xu_id x) i)
           | None \<Rightarrow> Inr (xu_id x, Some x)))"

text \<open>The claimed poll: lookup, fetch, two lock checks, commit.\<close>

definition flushed :: "poll_io \<Rightarrow> poll_error + 'a \<Rightarrow> poll_error + 'a" where
  "flushed io r = (case r of Inl e \<Rightarrow> Inl e | Inr x \<Rightarrow> (case io_clash io of None \<Rightarrow> Inr x | Some m \<Rightarrow> Inl (IntegrityViolation m)))"

definition poll_claimed :: "poll_env \<Rightarrow> poll_io \<Rightarrow> poll_claim \<Rightarrow> world \<Rightarrow> world \<times> bool" where
  "poll_claimed env io c w =
     (let (d, s) = io_gap io 3 w in
      case resolve_identity io c d of
        Inl e \<Rightarrow> (on_error env io 4 c e (d, s), False)
      | Inr (x_user, resolved) \<Rightarrow>
          (case io_fetch io x_user (fetch_since c) (pc_pagination_token c) (pc_include_replies c)
                  (pc_include_retweets c) of
             Inl e \<Rightarrow> (on_error env io 4 c e (d, s), False)
           | Inr b \<Rightarrow>
               (let (d1, s1) = io_gap io 4 (d, s); (s2, held) = assert_lock env io 4 (pc_user_id c) s1 in
                if \<not> held then (on_error env io 5 c LockLost (d1, s2), False)
                else let (d2, s3) = io_gap io 5 (d1, s2); (s4, held1) = assert_lock env io 5 (pc_user_id c) s3 in
                  if \<not> held1 then (on_error env io 6 c LockLost (d2, s4), False)
                  else let (d3, s5) = io_gap io 6 (d2, s4); (s6, held2) = assert_lock env io 6 (pc_user_id c) s5 in
                    case flushed io (commit_success env (io_now io 6) (io_duration io) held2 c x_user resolved b d3) of
                      Inl e \<Rightarrow> (on_error env io 7 c e (d3, s6), False)
                    | Inr (d4, r) \<Rightarrow> ((d4, s6), cr_applied r))))"

definition poll_locked :: "poll_env \<Rightarrow> poll_io \<Rightarrow> int \<Rightarrow> world \<Rightarrow> world \<times> bool" where
  "poll_locked env io user w =
     (let (d, s) = io_gap io 1 w in
      if global_gate_active (io_now io 1) (io_redis_fails io 1) s then ((d, s), False)
      else let (d1, s1) = io_gap io 2 (d, s) in
        case claim_user (io_now io 2) (pe_worker env) user d1 of
          None \<Rightarrow> ((d1, s1), False)
        | Some (d2, c) \<Rightarrow> poll_claimed env io c (d2, s1))"

definition poll_user :: "poll_env \<Rightarrow> poll_io \<Rightarrow> int \<Rightarrow> world \<Rightarrow> world \<times> bool" where
  "poll_user env io user w =
     (let (d, s) = io_gap io 0 w in
      if io_redis_fails io 0 then ((d, s), False)
      else case redis_set_nx (io_now io 0) (poll_lock_key user) (io_token io)
             (worker_lock_ttl_seconds (pe_cfg env)) s of
        None \<Rightarrow> ((d, s), False)
      | Some s1 \<Rightarrow>
          (let (w1, applied) = poll_locked env io user (d, s1); (d2, s2) = io_gap io 20 w1 in
           ((d2, if io_redis_fails io 20 then s2
                 else case release_lock (io_now io 20) (poll_lock_key user) (io_token io) s2 of
                   None \<Rightarrow> s2 | Some s3 \<Rightarrow> s3), applied)))"

subsection \<open>What the worker polls\<close>

definition due :: "time \<Rightarrow> monitored_user \<Rightarrow> bool" where
  "due now u \<longleftrightarrow> mu_is_active u \<and>
     (mu_manual_poll_token u \<noteq> None \<or>
      (case mu_next_poll_at u of None \<Rightarrow> True | Some t \<Rightarrow> t \<le> now))"

text \<open>\<open>ORDER BY\<close> manual requests first, then the deadline with missing ones last.\<close>

definition due_order :: "monitored_user \<Rightarrow> bool \<times> bool \<times> time" where
  "due_order u = (mu_manual_poll_token u = None, mu_next_poll_at u = None,
     case mu_next_poll_at u of None \<Rightarrow> 0 | Some t \<Rightarrow> t)"

definition due_users :: "worker_cfg \<Rightarrow> time \<Rightarrow> db \<Rightarrow> int list" where
  "due_users cfg now d =
     map mu_id (row_select (due now) due_order (worker_batch_size cfg) (monitored_users d))"

definition run_once_users :: "worker_cfg \<Rightarrow> time \<Rightarrow> world \<Rightarrow> int list" where
  "run_once_users cfg now w =
     (if redis_exists now gate_key (snd w) then [] else due_users cfg now (fst w))"

end
