(* ===== verification/MonitoredUsers.thy ===== *)
theory MonitoredUsers
  imports Polling
begin

text \<open>
  The routes of \<open>backend/app/api/routes/monitored_users.py\<close> that change a monitored
  account. All but the deletion read the row without a lock, so that a route is a
  read and a later write; the write sends the columns whose value differs from the
  one that was read, as the object-relational mapper does.
\<close>

subsection \<open>Names and the history cutoff\<close>

definition user_name_char :: "char \<Rightarrow> bool" where
  "user_name_char c \<longleftrightarrow> is_alpha c \<or> is_digit c \<or> c = CHR ''_''"

definition normalize_x_username :: "string \<Rightarrow> string option" where
  "normalize_x_username v =
     (let n = lower (lstrip_by (\<lambda>c. c = CHR ''@'') (strip v)) in
      if 1 \<le> length n \<and> length n \<le> 15 \<and> list_all user_name_char n then Some n else None)"

definition initial_sync_since :: "time \<Rightarrow> int \<Rightarrow> int" where
  "initial_sync_since now days =
     max 0 (push_bit 22 (now div 1000 - days * 86400000 - 1288834974657) - 1)"

definition initial_sync_since_id :: "time \<Rightarrow> int \<Rightarrow> string" where
  "initial_sync_since_id now days = show_int (initial_sync_since now days)"

subsection \<open>Creation and deletion\<close>

record user_create =
  uc_username :: string
  uc_initial_sync_days :: int
  uc_poll_interval_seconds :: "int option"
  uc_include_replies :: bool
  uc_include_retweets :: bool

definition new_user :: "time \<Rightarrow> int \<Rightarrow> user_create \<Rightarrow> monitored_user" where
  "new_user now i p =
     \<lparr>mu_id = i, mu_username = uc_username p, mu_x_user_id = None, mu_display_name = None,
      mu_is_active = True, mu_include_replies = uc_include_replies p,
      mu_include_retweets = uc_include_retweets p, mu_initial_sync_days = Some (uc_initial_sync_days p),
      mu_poll_interval_seconds = uc_poll_interval_seconds p, mu_status = ''queued'',
      mu_last_tweet_id = Some (initial_sync_since_id now (uc_initial_sync_days p)),
      mu_pagination_token = None, mu_pagination_since_id = None, mu_pagination_newest_id = None,
      mu_manual_poll_token = None, mu_poll_generation = 0, mu_last_polled_at = None,
      mu_next_poll_at = Some now, mu_last_error = None, mu_consecutive_failures = 0,
      mu_archived_at = None, mu_created_at = now, mu_updated_at = now\<rparr>"

datatype user_error = UserNotFound | UsernameExists | UserPaused

definition create_monitored_user :: "time \<Rightarrow> user_create \<Rightarrow> db \<Rightarrow> user_error + db" where
  "create_monitored_user now p d =
     (if uc_username p \<in> mu_username ` set (monitored_users d) then Inl UsernameExists
      else Inr (d\<lparr>monitored_users := monitored_users d @ [new_user now (serial d) p],
                  serial := serial d + 1\<rparr>))"

definition referenced :: "int \<Rightarrow> db \<Rightarrow> bool" where
  "referenced i d \<longleftrightarrow> list_ex (\<lambda>t. tw_monitored_user_id t = i) (tweets d) \<or>
     list_ex (\<lambda>s. sub_monitored_user_id s = i) (subscriptions d)"

definition archived :: "time \<Rightarrow> monitored_user \<Rightarrow> monitored_user" where
  "archived now u =
     u\<lparr>mu_archived_at := Some now, mu_is_active := False, mu_status := ''archived'',
       mu_next_poll_at := None, mu_manual_poll_token := None,
       mu_poll_generation := mu_poll_generation u + 1\<rparr>"

text \<open>The deletion holds the row lock; the answer tells whether the account was archived.\<close>

definition delete_monitored_user :: "time \<Rightarrow> int \<Rightarrow> db \<Rightarrow> user_error + db \<times> bool" where
  "delete_monitored_user now i d =
     (case row_get mu_id i (monitored_users d) of
        None \<Rightarrow> Inl UserNotFound
      | Some u \<Rightarrow>
          (if referenced i d
           then Inr (d\<lparr>monitored_users := row_put mu_id (archived now u) (monitored_users d)\<rparr>, True)
           else Inr (d\<lparr>monitored_users := filter (\<lambda>x. mu_id x \<noteq> i) (monitored_users d),
                       polling_logs := filter (\<lambda>l. pl_monitored_user_id l \<noteq> i) (polling_logs d),
                       ai_profiles := filter (\<lambda>p. up_monitored_user_id p \<noteq> i) (ai_profiles d),
                       qq_target_subs := filter (\<lambda>s. qs_monitored_user_id s \<noteq> i) (qq_target_subs d)\<rparr>, False)))"

subsection \<open>Routes that read and write\<close>

text \<open>What a route makes of the row it has read.\<close>

datatype user_route =
    Update "int option option" "bool option" "bool option"
  | Pause
  | Resume
  | PollNow string

definition clear_pagination_checkpoint :: "monitored_user \<Rightarrow> monitored_user" where
  "clear_pagination_checkpoint u =
     u\<lparr>mu_pagination_token := None, mu_pagination_since_id := None, mu_pagination_newest_id := None\<rparr>"

definition update_user :: "time \<Rightarrow> polling_settings \<Rightarrow> int option option \<Rightarrow> bool option \<Rightarrow> bool option \<Rightarrow>
    monitored_user \<Rightarrow> monitored_user" where
  "update_user now ps interval replies retweets u =
     (let changed = (replies \<noteq> None \<and> replies \<noteq> Some (mu_include_replies u)) \<or>
            (retweets \<noteq> None \<and> retweets \<noteq> Some (mu_include_retweets u));
          u1 = u\<lparr>mu_poll_interval_seconds := (case interval of None \<Rightarrow> mu_poll_interval_seconds u | Some v \<Rightarrow> v),
                 mu_include_replies := (case replies of None \<Rightarrow> mu_include_replies u | Some v \<Rightarrow> v),
                 mu_include_retweets := (case retweets of None \<Rightarrow> mu_include_retweets u | Some v \<Rightarrow> v)\<rparr>;
          u2 = (if \<not> changed then u1
                else let c = (clear_pagination_checkpoint u1)\<lparr>mu_poll_generation := mu_poll_generation u1 + 1\<rparr> in
                  if mu_is_active u then c\<lparr>mu_status := ''queued'', mu_next_poll_at := Some now\<rparr> else c);
          proposed = now + secs (effective_interval (mu_poll_interval_seconds u2) ps) in
      if mu_is_active u2 \<and> interval \<noteq> None \<and>
         (case mu_next_poll_at u2 of None \<Rightarrow> True | Some t \<Rightarrow> proposed < t)
      then u2\<lparr>mu_next_poll_at := Some proposed\<rparr> else u2)"

definition route_row :: "time \<Rightarrow> polling_settings \<Rightarrow> user_route \<Rightarrow> monitored_user \<Rightarrow> user_error + monitored_user" where
  "route_row now ps r u =
     (case r of
        Update interval replies retweets \<Rightarrow> Inr (update_user now ps interval replies retweets u)
      | Pause \<Rightarrow> Inr (u\<lparr>mu_is_active := False, mu_status := ''paused'', mu_next_poll_at := None,
                        mu_manual_poll_token := None, mu_poll_generation := mu_poll_generation u + 1\<rparr>)
      | Resume \<Rightarrow> Inr (u\<lparr>mu_is_active := True, mu_archived_at := None, mu_status := ''queued'',
                         mu_last_error := None, mu_next_poll_at := Some now,
                         mu_poll_generation := mu_poll_generation u + 1\<rparr>)
      | PollNow token \<Rightarrow>
          (if \<not> mu_is_active u then Inl UserPaused
           else Inr (u\<lparr>mu_manual_poll_token := Some token, mu_next_poll_at := Some now, mu_status := ''queued''\<rparr>)))"

text \<open>The columns a flush writes: those whose new value differs from the value read.\<close>

definition flush :: "monitored_user \<Rightarrow> monitored_user \<Rightarrow> monitored_user \<Rightarrow> monitored_user" where
  "flush u0 u1 u =
     u\<lparr>mu_is_active := (if mu_is_active u1 = mu_is_active u0 then mu_is_active u else mu_is_active u1),
       mu_include_replies := (if mu_include_replies u1 = mu_include_replies u0 then mu_include_replies u else mu_include_replies u1),
       mu_include_retweets := (if mu_include_retweets u1 = mu_include_retweets u0 then mu_include_retweets u else mu_include_retweets u1),
       mu_poll_interval_seconds := (if mu_poll_interval_seconds u1 = mu_poll_interval_seconds u0 then mu_poll_interval_seconds u else mu_poll_interval_seconds u1),
       mu_status := (if mu_status u1 = mu_status u0 then mu_status u else mu_status u1),
       mu_pagination_token := (if mu_pagination_token u1 = mu_pagination_token u0 then mu_pagination_token u else mu_pagination_token u1),
       mu_pagination_since_id := (if mu_pagination_since_id u1 = mu_pagination_since_id u0 then mu_pagination_since_id u else mu_pagination_since_id u1),
       mu_pagination_newest_id := (if mu_pagination_newest_id u1 = mu_pagination_newest_id u0 then mu_pagination_newest_id u else mu_pagination_newest_id u1),
       mu_manual_poll_token := (if mu_manual_poll_token u1 = mu_manual_poll_token u0 then mu_manual_poll_token u else mu_manual_poll_token u1),
       mu_poll_generation := (if mu_poll_generation u1 = mu_poll_generation u0 then mu_poll_generation u else mu_poll_generation u1),
       mu_next_poll_at := (if mu_next_poll_at u1 = mu_next_poll_at u0 then mu_next_poll_at u else mu_next_poll_at u1),
       mu_last_error := (if mu_last_error u1 = mu_last_error u0 then mu_last_error u else mu_last_error u1),
       mu_archived_at := (if mu_archived_at u1 = mu_archived_at u0 then mu_archived_at u else mu_archived_at u1)\<rparr>"

definition read_user :: "int \<Rightarrow> db \<Rightarrow> user_error + monitored_user" where
  "read_user i d = (case row_get mu_id i (monitored_users d) of None \<Rightarrow> Inl UserNotFound | Some u \<Rightarrow> Inr u)"

definition write_user :: "time \<Rightarrow> polling_settings \<Rightarrow> user_route \<Rightarrow> monitored_user \<Rightarrow> db \<Rightarrow> user_error + db" where
  "write_user now ps r u0 d =
     (case route_row now ps r u0 of
        Inl e \<Rightarrow> Inl e
      | Inr u1 \<Rightarrow> Inr (d\<lparr>monitored_users := row_update (\<lambda>u. mu_id u = mu_id u0) (flush u0 u1) (monitored_users d)\<rparr>))"

text \<open>A route with nothing between its read and its write.\<close>

definition run_route :: "time \<Rightarrow> polling_settings \<Rightarrow> user_route \<Rightarrow> int \<Rightarrow> db \<Rightarrow> user_error + db" where
  "run_route now ps r i d = (case read_user i d of Inl e \<Rightarrow> Inl e | Inr u0 \<Rightarrow> write_user now ps r u0 d)"

subsection \<open>The first high-water mark\<close>

text \<open>The id of a post: milliseconds since the service's epoch above 22 other bits.\<close>

definition snowflake :: "int \<Rightarrow> int \<Rightarrow> int" where
  "snowflake ms low = push_bit 22 (ms - 1288834974657) + low"

text \<open>
  A new account starts exactly at its history cutoff. The id that seeds the mark of a
  new account is below the id of a post if and only if the post was made at or after
  the cutoff of the requested number of days, to the millisecond and for every
  number of days, also when the cutoff lies before the first post ever.
\<close>

theorem first_mark_inclusive:
  assumes "0 \<le> low" and "low < 2 ^ 22" and "1288834974657 \<le> ms" and "0 < snowflake ms low"
  shows "initial_sync_since now days < snowflake ms low \<longleftrightarrow> now div 1000 - days * 86400000 \<le> ms"
proof -
  define c where "c = now div 1000 - days * 86400000 - 1288834974657"
  define m where "m = ms - 1288834974657"
  have s: "initial_sync_since now days = max 0 (c * 4194304 - 1)" "snowflake ms low = m * 4194304 + low"
    by (simp_all add: initial_sync_since_def snowflake_def push_bit_eq_mult c_def m_def)
  have low: "0 \<le> low" "low < 4194304" using assms(1,2) by simp_all
  have "max 0 (c * 4194304 - 1) < m * 4194304 + low \<longleftrightarrow> c * 4194304 - 1 < m * 4194304 + low"
    using assms(4) by (simp only: s max_less_iff_conj simp_thms)
  also have "\<dots> \<longleftrightarrow> c \<le> m"
  proof
    assume h: "c * 4194304 - 1 < m * 4194304 + low"
    show "c \<le> m"
    proof (rule ccontr)
      assume "\<not> c \<le> m"
      then have "m + 1 \<le> c" by simp
      then have "(m + 1) * 4194304 \<le> c * 4194304" by (rule mult_right_mono) simp
      with h low(2) show False by (simp only: distrib_right mult_1)
    qed
  next
    assume "c \<le> m"
    then have "c * 4194304 \<le> m * 4194304" by (rule mult_right_mono) simp
    with low(1) show "c * 4194304 - 1 < m * 4194304 + low" by linarith
  qed
  finally show ?thesis by (simp add: s c_def m_def)
qed

theorem first_mark_inclusive_witness:
  "initial_sync_since (secs 1700000000) 7 < snowflake 1699395200000 0 \<and>
   \<not> initial_sync_since (secs 1700000000) 7 < snowflake 1699395199999 4194303"
proof -
  have "0 < snowflake 1699395200000 0" "0 < snowflake 1699395199999 4194303"
    by (simp_all add: snowflake_def push_bit_eq_mult)
  from first_mark_inclusive[OF _ _ _ this(1), of "secs 1700000000" 7]
    first_mark_inclusive[OF _ _ _ this(2), of "secs 1700000000" 7]
  show ?thesis by (simp add: secs_def)
qed

end
