(* ===== verification/PollSafety.thy ===== *)
theory PollSafety
  imports MonitoredUsers
begin

text \<open>
  Properties of collection: a superseded poll has no effect, a committed batch carries its
  outbox rows, an unapplied poll leaves no content behind, the high-water mark moves only
  when a chain of pages is drained, failures are rescheduled within bounds, and manual
  requests are kept.
\<close>

subsection \<open>What each transaction touches\<close>

lemma upsert_tweets_effect:
  "upsert_tweets rows d = (d', ids) \<Longrightarrow>
    d' = d\<lparr>tweets := tweets d', serial := serial d'\<rparr> \<and>
    (\<exists>new. tweets d' = tweets d @ new \<and> map tw_tweet_id new = ids) \<and>
    tw_tweet_id ` set (tweets d') = tw_tweet_id ` set (tweets d) \<union> tw_tweet_id ` set rows \<and>
    set ids = tw_tweet_id ` set rows - tw_tweet_id ` set (tweets d)"
proof (induction rows d arbitrary: d' ids rule: upsert_tweets.induct)
  case (1 rows d)
  show ?case
  proof (cases "rows = []")
    case True
    with "1.prems" show ?thesis by (simp add: upsert_tweets.simps[of "[]" d])
  next
    case False
    let ?chunk = "number_rows (serial d) (\<lambda>r i. r\<lparr>tw_id := i\<rparr>) (take tweet_insert_chunk_size rows)"
    let ?rest = "drop tweet_insert_chunk_size rows"
    have keys: "tw_tweet_id ` set (number_rows n (\<lambda>r i. r\<lparr>tw_id := i\<rparr>) xs) = tw_tweet_id ` set xs" for n and xs :: "tweet list"
      by (induction n "\<lambda>(r :: tweet) i. r\<lparr>tw_id := i\<rparr>" xs rule: number_rows.induct) simp_all
    obtain tbl ks where ins: "insert_ignore tw_tweet_id (tweets d) ?chunk = (tbl, ks)"
      by (cases "insert_ignore tw_tweet_id (tweets d) ?chunk")
    let ?d1 = "d\<lparr>tweets := tbl, serial := serial d + int (length ?chunk)\<rparr>"
    obtain d2 ids2 where rec: "upsert_tweets ?rest ?d1 = (d2, ids2)" by (cases "upsert_tweets ?rest ?d1")
    have res: "d' = d2" "ids = ks @ ids2"
      using "1.prems" False ins rec by (simp_all add: upsert_tweets.simps[of rows d] Let_def)
    note IH = "1.IH"[OF False HOL.refl ins[symmetric] rec]
    from insert_ignore_prefix[OF ins] obtain new1 where
      new1: "tbl = tweets d @ new1" "map tw_tweet_id new1 = ks" by blast
    from IH obtain new2 where new2: "tweets d2 = tbl @ new2" "map tw_tweet_id new2 = ids2" by auto
    note ik = insert_ignore_keys[OF ins, unfolded keys]
    have split: "tw_tweet_id ` set rows = tw_tweet_id ` set (take tweet_insert_chunk_size rows) \<union> tw_tweet_id ` set ?rest"
      by (metis append_take_drop_id image_Un set_append)
    have e: "d2 = ?d1\<lparr>tweets := tweets d2, serial := serial d2\<rparr>" using IH by blast
    have "d2 = d\<lparr>tweets := tweets d2, serial := serial d2\<rparr>" by (subst (1) e) simp
    moreover have "\<exists>new. tweets d2 = tweets d @ new \<and> map tw_tweet_id new = ids"
      using new1 new2 res(2) by (intro exI[of _ "new1 @ new2"]) simp
    moreover have "tw_tweet_id ` set (tweets d2) = tw_tweet_id ` set (tweets d) \<union> tw_tweet_id ` set rows"
      using IH ik split by auto
    moreover have "set ids = tw_tweet_id ` set rows - tw_tweet_id ` set (tweets d)"
      using IH ik split res(2) by auto
    ultimately show ?thesis by (simp add: res(1))
  qed
qed

lemma upsert_tweets_other:
  assumes "upsert_tweets rows d = (d', ids)"
  shows "monitored_users d' = monitored_users d" "gen_jobs d' = gen_jobs d" "screenshots d' = screenshots d"
    "qq_deliveries d' = qq_deliveries d" "polling_logs d' = polling_logs d"
proof -
  have e: "d' = d\<lparr>tweets := tweets d', serial := serial d'\<rparr>" using upsert_tweets_effect[OF assms] by blast
  show "monitored_users d' = monitored_users d" "gen_jobs d' = gen_jobs d" "screenshots d' = screenshots d"
    "qq_deliveries d' = qq_deliveries d" "polling_logs d' = polling_logs d"
    by (subst e, simp)+
qed

lemma enqueue_x_ids_world:
  assumes "enqueue_jobs_for_x_tweet_ids env resolve now xids d = Some (d', n)"
  shows "same_world d d'"
  using assms enqueue_listening_adds
  by (auto simp: enqueue_jobs_for_x_tweet_ids_def split: if_splits)

lemma wanted_keys_tables:
  assumes "tweets d' = tweets d" "monitored_users d' = monitored_users d" "qq_bots d' = qq_bots d"
    "qq_targets d' = qq_targets d" "qq_target_subs d' = qq_target_subs d"
  shows "wanted_keys d' only p = wanted_keys d only p"
proof -
  have "wants d' tg tw = wants d tg tw" for tg tw using assms by (simp add: wants_def bound_def)
  moreover have "has_user d' = has_user d" using assms by (intro ext) (simp add: has_user_def)
  moreover have "enabled_targets only d' = enabled_targets only d" using assms by (simp add: enabled_targets_def)
  ultimately show ?thesis using assms(1) by (simp add: wanted_keys_def)
qed

lemma enqueue_screenshots_effect:
  "fst (enqueue_tweet_screenshots now xids d) = d\<lparr>screenshots := screenshots (fst (enqueue_tweet_screenshots now xids d))\<rparr> \<and>
    (\<forall>t \<in> set (tweets d). tw_tweet_id t \<in> set xids \<longrightarrow>
      tw_tweet_id t \<in> ss_tweet_id ` set (screenshots (fst (enqueue_tweet_screenshots now xids d))))"
proof -
  let ?rows = "map (new_screenshot now) (filter (\<lambda>t. tw_tweet_id t \<in> set xids) (tweets d))"
  obtain tbl ks where ins: "insert_ignore ss_tweet_id (screenshots d) ?rows = (tbl, ks)"
    by (cases "insert_ignore ss_tweet_id (screenshots d) ?rows")
  have "ss_tweet_id ` set ?rows = tw_tweet_id ` set (filter (\<lambda>t. tw_tweet_id t \<in> set xids) (tweets d))"
    by (simp add: image_image)
  with insert_ignore_keys[OF ins] ins show ?thesis
    by (auto simp: enqueue_tweet_screenshots_def Let_def filter_empty_conv)
qed

lemma enqueue_outboxes_effect:
  assumes "enqueue_outboxes env now xids d = Some (d', ids)"
  shows "tweets d' = tweets d \<and> monitored_users d' = monitored_users d \<and>
    (pe_screenshots env \<longrightarrow> (\<forall>t \<in> set (tweets d). tw_tweet_id t \<in> set xids \<longrightarrow>
      tw_tweet_id t \<in> ss_tweet_id ` set (screenshots d'))) \<and>
    wanted_keys d None (\<lambda>t. tw_tweet_id t \<in> set xids) \<subseteq> qd_idempotency_key ` set (qq_deliveries d')"
proof -
  from assms obtain d1 n where jobs: "enqueue_jobs_for_x_tweet_ids (pe_ai env) (pe_resolve env) now xids d = Some (d1, n)"
    by (auto simp: enqueue_outboxes_def split: option.splits)
  define d2 where "d2 = (if pe_screenshots env then fst (enqueue_tweet_screenshots now xids d1) else d1)"
  have send: "create_tweet_deliveries (pe_render env) now (pe_qq_max_attempts env) None xids d2 = Some (d', ids)"
    using assms jobs by (simp add: enqueue_outboxes_def d2_def)
  have w1: "same_world d d1" by (rule enqueue_x_ids_world[OF jobs])
  note shots = enqueue_screenshots_effect[of now xids d1]
  have w2: "d2 = d1\<lparr>screenshots := screenshots d2\<rparr>" using shots by (simp add: d2_def)
  have tabs: "tweets d2 = tweets d" "monitored_users d2 = monitored_users d" "qq_bots d2 = qq_bots d"
      "qq_targets d2 = qq_targets d" "qq_target_subs d2 = qq_target_subs d"
    using w1 by (subst w2, simp add: same_world_def)+
  obtain new where new: "qq_deliveries d' = qq_deliveries d2 @ new"
      "set (map qd_idempotency_key new) =
        wanted_keys d2 None (\<lambda>t. tw_tweet_id t \<in> set xids) - qd_idempotency_key ` set (qq_deliveries d2)"
      "d' = d2\<lparr>qq_deliveries := qq_deliveries d', serial := serial d'\<rparr>"
    using create_tweet_deliveries_effect[OF send] by (elim exE conjE) (rule that, assumption+)
  have keys: "wanted_keys d None (\<lambda>t. tw_tweet_id t \<in> set xids) \<subseteq> qd_idempotency_key ` set (qq_deliveries d')"
    using new(1,2) by (auto simp: wanted_keys_tables[OF tabs])
  have same: "tweets d' = tweets d2" "monitored_users d' = monitored_users d2" "screenshots d' = screenshots d2"
    by (subst new(3), simp)+
  have "tweets d1 = tweets d" using w1 by (simp add: same_world_def)
  with shots have "pe_screenshots env \<longrightarrow> (\<forall>t \<in> set (tweets d). tw_tweet_id t \<in> set xids \<longrightarrow>
      tw_tweet_id t \<in> ss_tweet_id ` set (screenshots d'))"
    unfolding same(3) by (simp add: d2_def)
  with keys same(1,2) tabs(1,2) show ?thesis by simp
qed

text \<open>A successful commit, taken apart.\<close>

lemma commit_cases:
  assumes "commit_success env now dur held c x_user resolved b d = Inr (d', r)"
  obtains (stale) d1 st where "get_ai_setting now d = (d1, st)" "d' = superseded (pc_log_id c) now dur d1"
      "\<not> cr_applied r" "\<And>u. row_get mu_id (pc_user_id c) (monitored_users d) = Some u \<Longrightarrow>
        mu_poll_generation u \<noteq> pc_generation c"
  | (applied) d1 st rows ps u d2 xids d3 ids where "get_ai_setting now d = (d1, st)"
      "rows_by_id (pe_lib env) (pc_user_id c) x_user now (tb_tweets b) [] = Some rows"
      "get_polling_settings (pe_cfg env) (pl_read_int (pe_lib env)) d = Some ps"
      "row_get mu_id (pc_user_id c) (monitored_users d) = Some u" "mu_poll_generation u = pc_generation c"
      "held" "identity_conflict (pc_user_id c) x_user d1 = None"
      "upsert_tweets rows d1 = (d2, xids)" "enqueue_outboxes env now xids d2 = Some (d3, ids)"
      "d' = finalize_log (pc_log_id c) ''success'' now dur (tb_result_count b) (int (length xids)) None None None
         (d3\<lparr>monitored_users := row_put mu_id (committed_user (pe_cfg env) ps now c resolved b u) (monitored_users d3)\<rparr>)"
      "cr_applied r" "cr_tweets_inserted r = length xids" "cr_qq_delivery_ids r = ids"
proof -
  obtain d1 st where st: "get_ai_setting now d = (d1, st)" by (cases "get_ai_setting now d")
  have users: "monitored_users d1 = monitored_users d"
    using get_ai_setting_world[OF st] by (simp add: same_world_def)
  from assms obtain rows ps where rows: "rows_by_id (pe_lib env) (pc_user_id c) x_user now (tb_tweets b) [] = Some rows"
      and ps: "get_polling_settings (pe_cfg env) (pl_read_int (pe_lib env)) d = Some ps"
    by (auto simp: commit_success_def split: option.splits)
  note eq = assms[unfolded commit_success_def rows ps st option.case prod.case users]
  show thesis
  proof (cases "row_get mu_id (pc_user_id c) (monitored_users d)")
    case None
    with eq show thesis by (intro stale[OF st]) auto
  next
    case (Some u)
    show thesis
    proof (cases "mu_poll_generation u = pc_generation c")
      case False
      with eq Some show thesis by (intro stale[OF st]) auto
    next
      case True
      with eq Some have held: "held" by (auto split: if_splits)
      with eq Some True have free: "identity_conflict (pc_user_id c) x_user d1 = None"
        by (cases "identity_conflict (pc_user_id c) x_user d1") auto
      obtain d2 xids where up: "upsert_tweets rows d1 = (d2, xids)" by (cases "upsert_tweets rows d1")
      have cb: "commit_batch env now dur c x_user resolved b rows ps u d1 = Inr (d', r)"
        using eq Some True held free by simp
      then obtain d3 ids where out: "enqueue_outboxes env now xids d2 = Some (d3, ids)"
        by (auto simp: commit_batch_def up split: option.splits)
      from cb show thesis
        by (intro applied[OF st rows ps Some True held free up out]) (auto simp: commit_batch_def up out)
    qed
  qed
qed

text \<open>What a handled failure does.\<close>

lemma failure_cases:
  assumes "handle_failure env now dur jitter held c status message http proposed reset d = Some d'"
  obtains (logged) "monitored_users d' = monitored_users d" "tweets d' = tweets d" "gen_jobs d' = gen_jobs d"
      "screenshots d' = screenshots d" "qq_deliveries d' = qq_deliveries d"
      "held \<longrightarrow> (\<forall>u. row_get mu_id (pc_user_id c) (monitored_users d) = Some u \<longrightarrow>
        mu_poll_generation u \<noteq> pc_generation c)"
  | (failed) ps u where "get_polling_settings (pe_cfg env) (pl_read_int (pe_lib env)) d = Some ps"
      "row_get mu_id (pc_user_id c) (monitored_users d) = Some u" "mu_poll_generation u = pc_generation c" "held"
      "monitored_users d' = row_put mu_id (failed_user now status message
         (case proposed of Some p \<Rightarrow> p
          | None \<Rightarrow> now + secs (failure_delay jitter (effective_interval (mu_poll_interval_seconds u) ps)
              (mu_consecutive_failures u))) c u) (monitored_users d)"
      "tweets d' = tweets d" "gen_jobs d' = gen_jobs d" "screenshots d' = screenshots d"
      "qq_deliveries d' = qq_deliveries d"
proof -
  from assms obtain ps where ps: "get_polling_settings (pe_cfg env) (pl_read_int (pe_lib env)) d = Some ps"
    by (auto simp: handle_failure_def split: option.splits)
  note eq = assms[unfolded handle_failure_def ps option.case]
  show thesis
  proof (cases "row_get mu_id (pc_user_id c) (monitored_users d)")
    case None
    with eq show thesis by (intro logged) (auto simp: superseded_def finalize_log_def simp del: row_get_None)
  next
    case (Some u)
    show thesis
    proof (cases "mu_poll_generation u = pc_generation c \<and> held")
      case False
      with eq Some show thesis
        by (intro logged) (auto simp: superseded_def lock_lost_log_def finalize_log_def split: if_splits)
    next
      case True
      with eq Some show thesis by (intro failed[OF ps Some]) (auto simp: finalize_log_def Let_def)
    qed
  qed
qed

subsection \<open>Generations\<close>

definition generation :: "int \<Rightarrow> db \<Rightarrow> int option" where
  "generation i d = map_option mu_poll_generation (row_get mu_id i (monitored_users d))"

text \<open>An account that is gone stays away, and generations do not fall.\<close>

definition later_than :: "int option \<Rightarrow> int option \<Rightarrow> bool" where
  "later_than g g' \<longleftrightarrow> g' = None \<or> (\<exists>a b. g = Some a \<and> g' = Some b \<and> a \<le> b)"

lemma later_than_refl [simp]: "later_than g g"
  by (cases g) (auto simp: later_than_def)

lemma later_than_trans: "later_than g g1 \<Longrightarrow> later_than g1 g2 \<Longrightarrow> later_than g g2"
  by (auto simp: later_than_def)

lemma generation_put:
  assumes "row_get mu_id (mu_id u') (monitored_users d) = Some u" and "mu_poll_generation u \<le> mu_poll_generation u'"
    and "monitored_users d' = row_put mu_id u' (monitored_users d)"
  shows "later_than (generation i d) (generation i d')"
  using assms row_get_Some[OF assms(1)]
  by (cases "row_get mu_id i (monitored_users d)")
    (auto simp: generation_def later_than_def row_get_put simp del: row_get_None split: if_splits)

text \<open>
  What may happen to an account while a poll runs: transactions of any worker, the reads and
  the writes of the routes as steps of their own, and changes of other tables. The second
  component holds the rows that routes have read since the poll was claimed. The sequence of the
  table never hands out an id again.
\<close>

type_synonym account_state = "db \<times> monitored_user list"

inductive account_step :: "poll_env \<Rightarrow> int \<Rightarrow> account_state \<Rightarrow> account_state \<Rightarrow> bool" for env :: poll_env and i :: int where
  claim: "claim_user now w j d = Some (d', c) \<Longrightarrow> account_step env i (d, us) (d', us)"
| commit: "commit_success env now dur held c x res b d = Inr (d', r) \<Longrightarrow> account_step env i (d, us) (d', us)"
| failure: "handle_failure env now dur jit held c status msg http proposed reset d = Some d' \<Longrightarrow> account_step env i (d, us) (d', us)"
| create: "create_monitored_user now p d = Inr d' \<Longrightarrow> serial d \<noteq> i \<Longrightarrow> account_step env i (d, us) (d', us)"
| delete: "delete_monitored_user now j d = Inr (d', x) \<Longrightarrow> account_step env i (d, us) (d', us)"
| route_reads: "read_user j d = Inr u \<Longrightarrow> account_step env i (d, us) (d, u # us)"
| route_writes: "u \<in> set us \<Longrightarrow> write_user now ps r u d = Inr d' \<Longrightarrow> account_step env i (d, us) (d', us)"
| elsewhere: "monitored_users d' = monitored_users d \<Longrightarrow> account_step env i (d, us) (d', us)"

inductive account_run :: "poll_env \<Rightarrow> int \<Rightarrow> account_state \<Rightarrow> account_state \<Rightarrow> bool" for env :: poll_env and i :: int where
  none: "account_run env i s s"
| more: "account_run env i s s1 \<Longrightarrow> account_step env i s1 s2 \<Longrightarrow> account_run env i s s2"

inductive_cases account_stepE: "account_step env i d d'"

lemma claim_user_Some:
  assumes "claim_user now w i d = Some (d', c)"
  obtains u where "row_get mu_id i (monitored_users d) = Some u" "mu_is_active u"
    "monitored_users d' = row_put mu_id (claimed_user u) (monitored_users d)"
    "c = claim_of (claimed_user u) (serial d)"
  using assms by (auto simp: claim_user_def Let_def split: option.splits if_splits)

lemma claim_generation:
  assumes "claim_user now w i d = Some (d', c)"
  shows "pc_user_id c = i \<and> generation i d' = Some (pc_generation c) \<and>
    (\<exists>g. generation i d = Some g \<and> pc_generation c = g + 1)"
proof -
  from assms obtain u where u: "row_get mu_id i (monitored_users d) = Some u"
      "monitored_users d' = row_put mu_id (claimed_user u) (monitored_users d)" "c = claim_of (claimed_user u) (serial d)"
    by (rule claim_user_Some)
  from row_get_Some[OF u(1)] u show ?thesis
    by (auto simp: generation_def row_get_put claim_of_def claimed_user_def)
qed

lemma committed_user_facts [simp]:
  "mu_id (committed_user cfg ps now c res b u) = mu_id u"
  "mu_poll_generation (committed_user cfg ps now c res b u) = mu_poll_generation u"
  by (simp_all add: committed_user_def Let_def split: option.splits)

lemma failed_user_facts [simp]:
  "mu_id (failed_user now st m dl c u) = mu_id u"
  "mu_poll_generation (failed_user now st m dl c u) = mu_poll_generation u"
  by (simp_all add: failed_user_def Let_def)

lemma update_user_generation:
  "mu_poll_generation u \<le> mu_poll_generation (update_user now ps a b c u)"
  by (simp add: update_user_def clear_pagination_checkpoint_def Let_def)

lemma route_generation:
  "route_row now ps r u = Inr u1 \<Longrightarrow> mu_poll_generation u1 = mu_poll_generation u \<or> mu_poll_generation u1 = mu_poll_generation u + 1"
  by (cases r) (auto simp: route_row_def update_user_def clear_pagination_checkpoint_def Let_def split: if_splits)

lemma flush_id [simp]: "mu_id (flush u0 u1 u) = mu_id u"
  by (simp add: flush_def)

lemma flush_generation:
  "mu_poll_generation (flush u0 u1 u) =
     (if mu_poll_generation u1 = mu_poll_generation u0 then mu_poll_generation u else mu_poll_generation u1)"
  by (simp add: flush_def)

lemma write_user_Inr:
  assumes "write_user now ps r u0 d = Inr d'"
  obtains u1 where "route_row now ps r u0 = Inr u1"
    "monitored_users d' = row_update (\<lambda>u. mu_id u = mu_id u0) (flush u0 u1) (monitored_users d)"
  using assms by (auto simp: write_user_def split: sum.splits)

text \<open>A write whose row was read at generation \<open>g\<close> leaves the generation, or makes it \<open>g + 1\<close>.\<close>

lemma generation_write:
  assumes "write_user now ps r u0 d = Inr d'" and "route_row now ps r u0 = Inr u1"
  shows "generation i d' =
    (if mu_id u0 = i \<and> mu_poll_generation u1 \<noteq> mu_poll_generation u0 then map_option (\<lambda>_. mu_poll_generation u0 + 1) (generation i d)
     else generation i d)"
proof -
  have users: "monitored_users d' = row_update (\<lambda>u. mu_id u = mu_id u0) (flush u0 u1) (monitored_users d)"
    using assms by (auto elim: write_user_Inr)
  have get: "row_get mu_id i (monitored_users d') =
      map_option (\<lambda>x. if mu_id x = mu_id u0 then flush u0 u1 x else x) (row_get mu_id i (monitored_users d))"
    unfolding users by (rule row_get_update) simp
  have id: "mu_id x = i" if "row_get mu_id i (monitored_users d) = Some x" for x
    using row_get_Some[OF that] by simp
  show ?thesis
    using route_generation[OF assms(2)] id
    by (cases "row_get mu_id i (monitored_users d)") (auto simp: generation_def get flush_generation simp del: row_get_None)
qed

lemma later_than_write:
  assumes "write_user now ps r u0 d = Inr d'" and "later_than (Some h) (generation i d)" and "mu_id u0 = i \<Longrightarrow> h \<le> mu_poll_generation u0 + 1"
  shows "later_than (Some h) (generation i d')"
proof -
  obtain u1 where u1: "route_row now ps r u0 = Inr u1" using assms(1) by (rule write_user_Inr)
  show ?thesis unfolding generation_write[OF assms(1) u1] using assms(2,3) by (auto simp: later_than_def)
qed

lemma generation_claim:
  assumes "claim_user now w j d = Some (d', c)"
  shows "later_than (generation i d) (generation i d')"
proof -
  from assms obtain u where u: "row_get mu_id j (monitored_users d) = Some u"
    "monitored_users d' = row_put mu_id (claimed_user u) (monitored_users d)" by (rule claim_user_Some)
  then show ?thesis using row_get_Some[OF u(1)]
    by (intro generation_put[of "claimed_user u" d u]) (auto simp: claimed_user_def)
qed

lemma commit_users:
  assumes "commit_success env now dur held c x res b d = Inr (d', r)"
  shows "monitored_users d' = monitored_users d \<or> (\<exists>ps u. row_get mu_id (pc_user_id c) (monitored_users d) = Some u \<and>
    mu_poll_generation u = pc_generation c \<and>
    monitored_users d' = row_put mu_id (committed_user (pe_cfg env) ps now c res b u) (monitored_users d))"
  using assms
proof (cases rule: commit_cases)
  case (stale d1 st)
  then show ?thesis using get_ai_setting_world[OF stale(1)]
    by (simp add: superseded_def finalize_log_def same_world_def)
next
  case (applied d1 st rows ps u d2 xids d3 ids)
  have "monitored_users d3 = monitored_users d"
    using get_ai_setting_world[OF applied(1)] upsert_tweets_other(1)[OF applied(8)]
      enqueue_outboxes_effect[OF applied(9)]
    by (simp add: same_world_def)
  with applied(4,5,10) show ?thesis by (auto simp: finalize_log_def)
qed

lemma generation_commit:
  assumes "commit_success env now dur held c x res b d = Inr (d', r)"
  shows "later_than (generation i d) (generation i d')"
  using commit_users[OF assms]
proof (elim disjE exE conjE)
  assume "monitored_users d' = monitored_users d"
  then show ?thesis by (simp add: generation_def)
next
  fix ps u assume u: "row_get mu_id (pc_user_id c) (monitored_users d) = Some u"
    and d': "monitored_users d' = row_put mu_id (committed_user (pe_cfg env) ps now c res b u) (monitored_users d)"
  show ?thesis using row_get_Some[OF u] u by (intro generation_put[OF _ _ d', of u]) simp_all
qed

lemma generation_failure:
  assumes "handle_failure env now dur jit held c status msg http proposed reset d = Some d'"
  shows "later_than (generation i d) (generation i d')"
  using assms
proof (cases rule: failure_cases)
  case logged
  then show ?thesis by (simp add: generation_def)
next
  case (failed ps u)
  show ?thesis using row_get_Some[OF failed(2)] failed(2)
    by (intro generation_put[OF _ _ failed(5), of u]) simp_all
qed

lemma generation_create:
  assumes "create_monitored_user now p d = Inr d'" and "serial d \<noteq> i"
  shows "later_than (generation i d) (generation i d')"
  using assms
  by (auto simp: create_monitored_user_def generation_def row_get_def find_append new_user_def later_than_def
      split: if_splits option.splits)

lemma generation_delete:
  assumes "delete_monitored_user now j d = Inr (d', x)"
  shows "later_than (generation i d) (generation i d') \<and> (i = j \<longrightarrow> generation i d' \<noteq> generation i d)"
proof -
  from assms obtain u where u: "row_get mu_id j (monitored_users d) = Some u"
    "monitored_users d' = row_put mu_id (archived now u) (monitored_users d) \<or>
     monitored_users d' = filter (\<lambda>x. mu_id x \<noteq> j) (monitored_users d)"
    by (auto simp: delete_monitored_user_def split: option.splits if_splits)
  from u(2) show ?thesis
  proof
    assume a: "monitored_users d' = row_put mu_id (archived now u) (monitored_users d)"
    have "later_than (generation i d) (generation i d')"
      using u(1) row_get_Some[OF u(1)] by (intro generation_put[OF _ _ a, of u]) (simp_all add: archived_def)
    moreover have "generation j d' \<noteq> generation j d"
      using u(1) row_get_Some[OF u(1)] by (auto simp: generation_def a row_get_put archived_def)
    ultimately show ?thesis by blast
  next
    assume f: "monitored_users d' = filter (\<lambda>x. mu_id x \<noteq> j) (monitored_users d)"
    have "row_get mu_id i (filter (\<lambda>x. mu_id x \<noteq> j) us) = (if i = j then None else row_get mu_id i us)" for us
      by (induction us) (auto simp: row_get_def)
    from this[of "monitored_users d"] have "generation i d' = (if i = j then None else generation i d)"
      unfolding generation_def f by (simp del: row_get_None)
    moreover have "generation j d \<noteq> None" using u(1) by (simp add: generation_def del: row_get_None)
    ultimately show ?thesis by (auto simp: later_than_def)
  qed
qed

text \<open>
  The invariant after a claim at generation \<open>g\<close>: the account is gone or at \<open>h\<close> or later, and the
  rows that routes have read since are at \<open>g\<close> or later, where \<open>h\<close> is \<open>g\<close>, or \<open>g + 1\<close> once the
  poll is superseded.
\<close>

definition reached :: "int \<Rightarrow> int \<Rightarrow> int \<Rightarrow> account_state \<Rightarrow> bool" where
  "reached i g h s \<longleftrightarrow> g \<le> h \<and> h \<le> g + 1 \<and> later_than (Some h) (generation i (fst s)) \<and>
     (\<forall>u \<in> set (snd s). mu_id u = i \<longrightarrow> g \<le> mu_poll_generation u)"

lemma reached_db:
  "reached i g h (d, us) \<Longrightarrow> later_than (generation i d) (generation i d') \<Longrightarrow> reached i g h (d', us)"
  unfolding reached_def fst_conv snd_conv using later_than_trans by blast

lemma reached_step:
  assumes "account_step env i s s'" and "reached i g h s"
  shows "reached i g h s'"
  using assms
proof (cases rule: account_step.cases)
  case (claim now w j d d' c us)
  with assms(2) show ?thesis using reached_db generation_claim by metis
next
  case (commit now dur held c x res b d d' r us)
  with assms(2) show ?thesis using reached_db generation_commit by metis
next
  case (failure now dur jit held c status msg http proposed reset d d' us)
  with assms(2) show ?thesis using reached_db generation_failure by metis
next
  case (create now p d d' us)
  with assms(2) show ?thesis using reached_db generation_create by metis
next
  case (delete now j d d' x us)
  with assms(2) show ?thesis using reached_db generation_delete by metis
next
  case (route_reads j d u us)
  have u: "row_get mu_id j (monitored_users d) = Some u" using route_reads(3) by (auto simp: read_user_def split: option.splits)
  have "g \<le> mu_poll_generation u" if "mu_id u = i"
  proof -
    have "generation i d = Some (mu_poll_generation u)" using u row_get_Some[OF u] that by (simp add: generation_def)
    then show ?thesis using assms(2) route_reads(1) by (auto simp: reached_def later_than_def)
  qed
  with assms(2) route_reads(1,2) show ?thesis by (auto simp: reached_def)
next
  case (route_writes u us now ps r d d')
  have "mu_id u = i \<Longrightarrow> h \<le> mu_poll_generation u + 1"
    using assms(2) route_writes(1,3) by (fastforce simp: reached_def)
  with later_than_write[OF route_writes(4), of h i] assms(2) route_writes(1,2) show ?thesis by (simp add: reached_def)
next
  case (elsewhere d' d us)
  with assms(2) show ?thesis by (simp add: reached_def generation_def)
qed

lemma reached_run: "account_run env i s s' \<Longrightarrow> reached i g h s \<Longrightarrow> reached i g h s'"
  by (induction rule: account_run.induct) (auto intro: reached_step)

text \<open>
  What supersedes a poll of an account: a newer claim, the write of a route that counts the
  generation up (every pause and resumption does, and a change of the filters), a deletion.
\<close>

definition counts_up :: "time \<Rightarrow> polling_settings \<Rightarrow> user_route \<Rightarrow> monitored_user \<Rightarrow> bool" where
  "counts_up now ps r u \<longleftrightarrow> (\<exists>u1. route_row now ps r u = Inr u1 \<and> mu_poll_generation u1 \<noteq> mu_poll_generation u)"

lemma pause_counts_up: "counts_up now ps Pause u" "counts_up now ps Resume u"
  by (simp_all add: counts_up_def route_row_def)

lemma filters_count_up:
  "counts_up now ps (Update interval replies retweets) u \<longleftrightarrow>
     (replies \<noteq> None \<and> replies \<noteq> Some (mu_include_replies u)) \<or> (retweets \<noteq> None \<and> retweets \<noteq> Some (mu_include_retweets u))"
  by (simp add: counts_up_def route_row_def update_user_def clear_pagination_checkpoint_def Let_def)

definition supersedes :: "int \<Rightarrow> account_state \<Rightarrow> account_state \<Rightarrow> bool" where
  "supersedes i s s' \<longleftrightarrow> snd s' = snd s \<and>
     ((\<exists>now w c. claim_user now w i (fst s) = Some (fst s', c)) \<or>
      (\<exists>now ps r u. u \<in> set (snd s) \<and> mu_id u = i \<and> counts_up now ps r u \<and> write_user now ps r u (fst s) = Inr (fst s')) \<or>
      (\<exists>now x. delete_monitored_user now i (fst s) = Inr (fst s', x)))"

lemma supersedes_reached:
  assumes "reached i g g s" and "supersedes i s s'"
  shows "reached i g (g + 1) s'"
proof -
  have s: "later_than (Some g) (generation i (fst s))" "\<forall>u \<in> set (snd s'). mu_id u = i \<longrightarrow> g \<le> mu_poll_generation u"
    using assms by (simp_all add: reached_def supersedes_def)
  have up: "later_than (Some (g + 1)) (generation i d')"
    if "later_than (generation i (fst s)) (generation i d')" "generation i d' \<noteq> generation i (fst s)" for d'
    using that s(1) by (auto simp: later_than_def)
  from assms(2) consider (newer) now w c where "claim_user now w i (fst s) = Some (fst s', c)"
    | (route) now ps r u where "u \<in> set (snd s)" "mu_id u = i" "counts_up now ps r u" "write_user now ps r u (fst s) = Inr (fst s')"
    | (deleted) now x where "delete_monitored_user now i (fst s) = Inr (fst s', x)"
    unfolding supersedes_def by blast
  then have "later_than (Some (g + 1)) (generation i (fst s'))"
  proof cases
    case c: newer
    show ?thesis by (rule up[OF generation_claim[OF c]]) (use claim_generation[OF c] in auto)
  next
    case route
    obtain u1 where u1: "route_row now ps r u = Inr u1" "mu_poll_generation u1 \<noteq> mu_poll_generation u"
      using route(3) by (auto simp: counts_up_def)
    have "g \<le> mu_poll_generation u" using assms(1) route(1,2) by (simp add: reached_def)
    then show ?thesis unfolding generation_write[OF route(4) u1(1)] using u1(2) route(2)
      by (auto simp: later_than_def)
  next
    case deleted
    from generation_delete[OF this, of i] show ?thesis by (intro up) simp_all
  qed
  with s(2) show ?thesis by (simp add: reached_def)
qed

text \<open>Everything a poll collects for the rest of the program.\<close>

definition content :: "db \<Rightarrow> tweet list \<times> gen_job list \<times> tweet_screenshot list \<times> qq_delivery list" where
  "content d = (tweets d, gen_jobs d, screenshots d, qq_deliveries d)"

lemma stale_generation:
  assumes "claim_user now w i d0 = Some (d1, c)" and "account_run env i (d1, []) s2" and "supersedes i s2 s3"
    and "account_run env i s3 s4"
  shows "generation i (fst s4) \<noteq> Some (pc_generation c)"
proof -
  let ?g = "pc_generation c"
  have "reached i ?g ?g (d1, [])" using claim_generation[OF assms(1)] by (simp add: reached_def later_than_def)
  from reached_run[OF assms(4) supersedes_reached[OF reached_run[OF assms(2) this] assms(3)]]
  show ?thesis by (auto simp: reached_def later_than_def)
qed

subsection \<open>Rows of a batch\<close>

lemma tweet_values_id:
  "tweet_values lib user x payload now = Some r \<Longrightarrow> tw_tweet_id r = str_of lib (jget payload ''id'')"
  by (auto simp: tweet_values_def Let_def split: if_splits option.splits)

lemma set_put_row: "tw_tweet_id ` set (put_row r rows) = insert (tw_tweet_id r) (tw_tweet_id ` set rows)"
  by (induction rows) auto

lemma rows_by_id_ids:
  "rows_by_id lib user x now items acc = Some rows \<Longrightarrow>
    tw_tweet_id ` set rows = tw_tweet_id ` set acc \<union>
      (\<lambda>item. str_of lib (jget item ''id'')) ` {item \<in> set items. truthy (jget item ''id'')}"
proof (induction items arbitrary: acc)
  case Nil
  then show ?case by simp
next
  case (Cons item items)
  show ?case
  proof (cases "truthy (jget item ''id'')")
    case False
    with Cons.prems have "rows_by_id lib user x now items acc = Some rows" by simp
    moreover have "{i \<in> set (item # items). truthy (jget i ''id'')} = {i \<in> set items. truthy (jget i ''id'')}"
      using False by auto
    ultimately show ?thesis using Cons.IH by simp
  next
    case True
    with Cons.prems obtain r where r: "tweet_values lib user x item now = Some r"
        "rows_by_id lib user x now items (put_row r acc) = Some rows"
      by (auto split: option.splits)
    have "{i \<in> set (item # items). truthy (jget i ''id'')} = insert item {i \<in> set items. truthy (jget i ''id'')}"
      using True by auto
    with Cons.IH[OF r(2)] tweet_values_id[OF r(1)] show ?thesis by (simp add: set_put_row)
  qed
qed

subsection \<open>Samples\<close>

definition sample_poll_env :: poll_env where
  "sample_poll_env = \<lparr>pe_worker = ''w'', pe_cfg = default_worker_cfg, pe_screenshots = True,
     pe_qq_max_attempts = 3, pe_lib = \<lparr>pl_fromisoformat = (\<lambda>s. Some 100), pl_read_int = (\<lambda>s. None),
       pl_repr = (\<lambda>j. ''{}'')\<rparr>, pe_ai = sample_ai_env, pe_resolve = (\<lambda>i. None), pe_render = sample_render_env\<rparr>"

definition sample_ps :: polling_settings where
  "sample_ps = \<lparr>ps_global_interval = 300, ps_max_concurrency = 5\<rparr>"

definition sample_poll_claim :: poll_claim where
  "sample_poll_claim = claim_of (claimed_user sample_user) 6"

definition sample_polled :: db where
  "sample_polled = sample_db\<lparr>monitored_users := [claimed_user sample_user],
     polling_logs := [new_log 10 ''w'' 6 1 ''scheduled''], serial := 7\<rparr>"

lemma sample_claim_user: "claim_user 10 ''w'' 1 sample_db = Some (sample_polled, sample_poll_claim)"
  by (simp add: claim_user_def sample_db_def empty_db_def row_get_def sample_user_def claimed_user_def Let_def
      claim_of_def sample_polled_def sample_poll_claim_def row_put_def row_update_def)

lemma sample_settings:
  "app_settings d = [] \<Longrightarrow> get_polling_settings (pe_cfg sample_poll_env) read d = Some sample_ps"
  by (simp add: get_polling_settings_def sample_poll_env_def default_worker_cfg_def sample_ps_def row_get_def Let_def)

lemma sample_failure:
  "app_settings d = [] \<Longrightarrow> handle_failure sample_poll_env now dur jit held c st m http p reset d \<noteq> None"
  by (simp add: handle_failure_def sample_settings Let_def split: option.splits)

definition sample_paused :: db where
  "sample_paused = sample_polled\<lparr>monitored_users := [(claimed_user sample_user)\<lparr>mu_is_active := False,
     mu_status := ''paused'', mu_poll_generation := 6\<rparr>]\<rparr>"

lemma sample_pause: "run_route 20 sample_ps Pause 1 sample_polled = Inr sample_paused"
  by (simp add: run_route_def read_user_def write_user_def route_row_def sample_polled_def row_get_def
      claimed_user_def sample_user_def row_update_def flush_def sample_paused_def)

lemma failure_delay_bounds:
  "15 \<le> failure_delay jit interval failures"
  "4 / 5 \<le> jit \<Longrightarrow> jit \<le> 6 / 5 \<Longrightarrow> 5 * failure_delay jit interval failures \<le> 6 * max interval 3600 + 4"
proof -
  show "15 \<le> failure_delay jit interval failures" by (simp add: failure_delay_def Let_def)
  define base where "base = max interval (min 3600 (30 * 2 ^ nat (min (failures + 1) 7)))"
  assume j: "4 / 5 \<le> jit" "jit \<le> 6 / 5"
  have base: "0 \<le> base" "base \<le> max interval 3600"
    unfolding base_def by (rule order_trans[OF _ max.cobounded2], simp) (auto simp: max_def min_def)
  have "of_int base * jit \<le> of_int base * (6 / 5)" using base(1) j(2) by (intro mult_left_mono) simp_all
  then have up: "5 * (of_int base * jit) \<le> 6 * of_int base" by simp
  have "py_round (of_int base * jit) \<le> \<lceil>of_int base * jit\<rceil>" by (rule py_round_upper) (rule le_of_int_ceiling)
  moreover have "of_int \<lceil>of_int base * jit\<rceil> < of_int base * jit + (1 :: rat)" using ceiling_correct[of "of_int base * jit"] by linarith
  then have "(of_int (5 * \<lceil>of_int base * jit\<rceil>) :: rat) < of_int (6 * base + 5)" using up by simp
  then have "5 * \<lceil>of_int base * jit\<rceil> < 6 * base + 5" by (simp only: of_int_less_iff)
  ultimately have "5 * py_round (of_int base * jit) \<le> 6 * max interval 3600 + 4" using base(2) by linarith
  moreover have "failure_delay jit interval failures = max 15 (py_round (of_int base * jit))"
    by (simp only: failure_delay_def Let_def base_def)
  ultimately show "5 * failure_delay jit interval failures \<le> 6 * max interval 3600 + 4" by (simp add: max_def)
qed

text \<open>A chain of successful polls: the account after them and the bounds they fetched from.\<close>

fun drain :: "worker_cfg \<Rightarrow> polling_settings \<Rightarrow> time \<Rightarrow> monitored_user \<Rightarrow> tweet_batch list \<Rightarrow>
    monitored_user \<times> string option list" where
  "drain cfg ps now u [] = (u, [])"
| "drain cfg ps now u (b # bs) =
     (let u1 = claimed_user u; c = claim_of u1 0;
          (u2, since) = drain cfg ps now (committed_user cfg ps now c None b u1) bs in
      (u2, fetch_since c # since))"

definition first_newest :: "string option \<Rightarrow> tweet_batch list \<Rightarrow> string option" where
  "first_newest old bs = str_or old (case find nonempty (map tb_newest_id bs) of None \<Rightarrow> None | Some n \<Rightarrow> n)"

lemma committed_fields:
  "mu_last_tweet_id (committed_user cfg ps now c None b u) = pg_last_tweet_id (calculate_pagination_state c b)"
  "mu_pagination_token (committed_user cfg ps now c None b u) = pg_token (calculate_pagination_state c b)"
  "mu_pagination_since_id (committed_user cfg ps now c None b u) = pg_since_id (calculate_pagination_state c b)"
  "mu_pagination_newest_id (committed_user cfg ps now c None b u) = pg_newest_id (calculate_pagination_state c b)"
  by (simp_all add: committed_user_def Let_def)

text \<open>Inside a chain: the bound is frozen and the checkpoint is the first newest id seen.\<close>

lemma drain_inside:
  assumes "mu_pagination_token u \<noteq> None" and "mu_pagination_since_id u = mu_last_tweet_id u"
    and "\<forall>b \<in> set bs. nonempty (tb_next_token b)"
  shows "set (snd (drain cfg ps now u bs)) \<subseteq> {mu_last_tweet_id u} \<and>
    mu_last_tweet_id (fst (drain cfg ps now u bs)) = mu_last_tweet_id u \<and>
    mu_pagination_token (fst (drain cfg ps now u bs)) \<noteq> None \<and>
    mu_pagination_since_id (fst (drain cfg ps now u bs)) = mu_last_tweet_id u \<and>
    (nonempty (mu_pagination_newest_id (fst (drain cfg ps now u bs))) \<longleftrightarrow>
      nonempty (first_newest (mu_pagination_newest_id u) bs)) \<and>
    (nonempty (first_newest (mu_pagination_newest_id u) bs) \<longrightarrow>
      mu_pagination_newest_id (fst (drain cfg ps now u bs)) = first_newest (mu_pagination_newest_id u) bs)"
  using assms
proof (induction bs arbitrary: u)
  case Nil
  then show ?case by (auto simp: first_newest_def str_or_def)
next
  case (Cons b bs)
  let ?c = "claim_of (claimed_user u) 0" and ?v = "committed_user cfg ps now (claim_of (claimed_user u) 0) None b (claimed_user u)"
  have next_page: "nonempty (tb_next_token b)" using Cons.prems(3) by simp
  have v: "mu_last_tweet_id ?v = mu_last_tweet_id u" "mu_pagination_token ?v \<noteq> None"
      "mu_pagination_since_id ?v = mu_last_tweet_id u"
      "mu_pagination_newest_id ?v = str_or (mu_pagination_newest_id u) (tb_newest_id b)"
    using next_page Cons.prems(1,2)
    by (auto simp: committed_fields calculate_pagination_state_def claim_of_def claimed_user_def nonempty_def
        split: option.splits)
  have since: "fetch_since ?c = mu_last_tweet_id u"
    using Cons.prems(1,2) by (simp add: fetch_since_def claim_of_def claimed_user_def)
  have newest: "nonempty (first_newest (mu_pagination_newest_id ?v) bs) = nonempty (first_newest (mu_pagination_newest_id u) (b # bs))"
    "nonempty (first_newest (mu_pagination_newest_id u) (b # bs)) \<Longrightarrow>
      first_newest (mu_pagination_newest_id ?v) bs = first_newest (mu_pagination_newest_id u) (b # bs)"
    by (auto simp: v(4) first_newest_def str_or_def)
  obtain w s where d: "drain cfg ps now ?v bs = (w, s)" by (cases "drain cfg ps now ?v bs")
  have "mu_pagination_since_id ?v = mu_last_tweet_id ?v" using v(1,3) by simp
  from Cons.IH[OF v(2) this] Cons.prems(3) show ?case
    by (simp add: d since v(1) newest(1)) (metis newest(2))
qed

lemma first_newest_snoc:
  "first_newest None (cs @ [b]) = (if nonempty (first_newest None cs) then first_newest None cs
    else if nonempty (tb_newest_id b) then tb_newest_id b else None)"
proof (cases "find nonempty (map tb_newest_id cs)")
  case None
  then show ?thesis by (simp add: first_newest_def str_or_def find_append)
next
  case (Some n)
  then have "nonempty n" by (auto simp: find_Some_iff)
  with Some show ?thesis by (simp add: first_newest_def str_or_def find_append)
qed

lemma drain_append:
  "drain cfg ps now u (xs @ ys) =
    (case drain cfg ps now u xs of (v, s) \<Rightarrow> case drain cfg ps now v ys of (w, t) \<Rightarrow> (w, s @ t))"
  by (induction xs arbitrary: u) (auto simp: Let_def split: prod.splits)

text \<open>A chain from an account without a page in progress, before its last page.\<close>

lemma drain_start:
  assumes "mu_pagination_token u = None" and "mu_pagination_newest_id u = None"
    and "\<forall>b \<in> set bs. nonempty (tb_next_token b)"
  shows "set (snd (drain cfg ps now u bs)) \<subseteq> {mu_last_tweet_id u} \<and>
    mu_last_tweet_id (fst (drain cfg ps now u bs)) = mu_last_tweet_id u \<and>
    (mu_pagination_token (fst (drain cfg ps now u bs)) = None \<or>
      mu_pagination_since_id (fst (drain cfg ps now u bs)) = mu_last_tweet_id u) \<and>
    (nonempty (mu_pagination_newest_id (fst (drain cfg ps now u bs))) \<longleftrightarrow> nonempty (first_newest None bs)) \<and>
    (nonempty (first_newest None bs) \<longrightarrow>
      mu_pagination_newest_id (fst (drain cfg ps now u bs)) = first_newest None bs)"
proof (cases bs)
  case Nil
  with assms show ?thesis by (simp add: first_newest_def str_or_def)
next
  case (Cons b cs)
  let ?c = "claim_of (claimed_user u) 0" and ?v = "committed_user cfg ps now (claim_of (claimed_user u) 0) None b (claimed_user u)"
  have next_page: "nonempty (tb_next_token b)" using assms(3) Cons by simp
  have v: "mu_last_tweet_id ?v = mu_last_tweet_id u" "mu_pagination_token ?v \<noteq> None"
      "mu_pagination_since_id ?v = mu_last_tweet_id u" "mu_pagination_newest_id ?v = tb_newest_id b"
    using next_page assms(1,2)
    by (auto simp: committed_fields calculate_pagination_state_def claim_of_def claimed_user_def nonempty_def
        str_or_def split: option.splits)
  have since: "fetch_since ?c = mu_last_tweet_id u"
    using assms(1) by (simp add: fetch_since_def claim_of_def claimed_user_def)
  have newest: "nonempty (first_newest (tb_newest_id b) cs) = nonempty (first_newest None bs)"
      "nonempty (first_newest None bs) \<Longrightarrow> first_newest (tb_newest_id b) cs = first_newest None bs"
    by (auto simp: Cons first_newest_def str_or_def)
  obtain w s where d: "drain cfg ps now ?v cs = (w, s)" by (cases "drain cfg ps now ?v cs")
  have "mu_pagination_since_id ?v = mu_last_tweet_id ?v" using v(1,3) by simp
  from drain_inside[OF v(2) this, of cs cfg ps now] assms(3) newest show ?thesis
    by (simp add: Cons d since v(1,4))
qed

subsection \<open>Properties\<close>

text \<open>
  C2: A superseded poll has no effect. Once another claim, a deletion, or the write of a route
  that counts the generation up (a pause, a resumption, a change of filters) has reached the
  account, whatever else happens before and after, the commit of the older poll is not applied and
  the handling of its failure does not touch the account: posts, jobs, screenshots,
  deliveries and accounts stay as they are. The reads and the writes of the routes are separate
  steps that interleave with everything; they are those of routes that read the account
  after the poll claimed it (\<open>pause_race_keeps_poll\<close> is what an earlier read does).
\<close>

theorem superseded_poll_has_no_effect:
  assumes "claim_user now w i d0 = Some (d1, c)" and "account_run env i (d1, []) s2" and "supersedes i s2 s3"
    and "account_run env i s3 (d4, us)"
  shows "(\<forall>t dur held x res b d5 r. commit_success env t dur held c x res b d4 = Inr (d5, r) \<longrightarrow>
      \<not> cr_applied r \<and> content d5 = content d4 \<and> monitored_users d5 = monitored_users d4) \<and>
    (\<forall>t dur jit held st msg http proposed reset d5.
      handle_failure env t dur jit held c st msg http proposed reset d4 = Some d5 \<longrightarrow>
      content d5 = content d4 \<and> monitored_users d5 = monitored_users d4)"
proof -
  have id: "pc_user_id c = i" using claim_generation[OF assms(1)] by simp
  have stale: "mu_poll_generation u \<noteq> pc_generation c" if "row_get mu_id (pc_user_id c) (monitored_users d4) = Some u" for u
    using stale_generation[OF assms] that by (auto simp: generation_def id)
  have "\<not> cr_applied r \<and> content d5 = content d4 \<and> monitored_users d5 = monitored_users d4"
    if "commit_success env t dur held c x res b d4 = Inr (d5, r)" for t dur held x res b d5 r
    using that
  proof (cases rule: commit_cases)
    case (stale d' st)
    with get_ai_setting_world[OF stale(1)] show ?thesis
      by (simp add: superseded_def finalize_log_def same_world_def content_def)
  next
    case (applied d' st rows ps u)
    with stale show ?thesis by blast
  qed
  moreover have "content d5 = content d4 \<and> monitored_users d5 = monitored_users d4"
    if "handle_failure env t dur jit held c st msg http proposed reset d4 = Some d5"
    for t dur jit held st msg http proposed reset d5
    using that
  proof (cases rule: failure_cases)
    case logged
    then show ?thesis by (simp add: content_def)
  next
    case (failed ps u)
    with stale show ?thesis by blast
  qed
  ultimately show ?thesis by blast
qed

theorem superseded_poll_has_no_effect_witness:
  "\<exists>d. handle_failure sample_poll_env 30 5 1 True sample_poll_claim ''error'' (Text ''x'') None None None sample_paused = Some d \<and>
     monitored_users d = monitored_users sample_paused \<and> content d = content sample_paused"
proof -
  let ?u = "claimed_user sample_user"
  have u: "read_user 1 sample_polled = Inr ?u" "mu_id ?u = 1"
    by (simp_all add: read_user_def sample_polled_def row_get_def claimed_user_def sample_user_def)
  have run: "account_run sample_poll_env 1 (sample_polled, []) (sample_polled, [?u])"
    by (rule account_run.more[OF account_run.none account_step.route_reads[OF u(1)]])
  obtain ps where "run_route 20 ps Pause 1 sample_polled = Inr sample_paused" using sample_pause by blast
  then have "write_user 20 ps Pause ?u sample_polled = Inr sample_paused" by (simp add: run_route_def u(1))
  then have "supersedes 1 (sample_polled, [?u]) (sample_paused, [?u])"
    using pause_counts_up(1) u(2) by (auto simp: supersedes_def)
  note stale = conjunct2[OF superseded_poll_has_no_effect[OF sample_claim_user run this
      account_run.none[of sample_poll_env]]]
  have "app_settings sample_paused = []"
    by (simp add: sample_paused_def sample_polled_def sample_db_def empty_db_def)
  from sample_failure[OF this] obtain d where
    d: "handle_failure sample_poll_env 30 5 1 True sample_poll_claim ''error'' (Text ''x'') None None None
      sample_paused = Some d" by blast
  with stale show ?thesis by blast
qed

text \<open>
  C11: A committed batch carries its outbox rows. When a poll is applied, every item that has
  an id is a stored post (an item without one is skipped), exactly the counted posts are new and each of them has, in the
  same transaction, its screenshot row (when screenshots are on) and its row for
  every group that wants it; posts that were stored before stay as they are.
\<close>

theorem commit_carries_outboxes:
  assumes "commit_success env now dur held c x_user resolved b d = Inr (d', r)" and "cr_applied r"
  shows "\<exists>new. tweets d' = tweets d @ new \<and> length new = cr_tweets_inserted r \<and>
    (\<forall>item \<in> set (tb_tweets b). truthy (jget item ''id'') \<longrightarrow>
       str_of (pe_lib env) (jget item ''id'') \<in> tw_tweet_id ` set (tweets d')) \<and>
    (\<forall>t \<in> set new. (pe_screenshots env \<longrightarrow> tw_tweet_id t \<in> ss_tweet_id ` set (screenshots d')) \<and>
       (\<forall>(tg, qbot) \<in> set (enabled_targets None d). has_user d t \<and> wants d tg t \<longrightarrow>
          tweet_key t tg \<in> qd_idempotency_key ` set (qq_deliveries d')))"
  using assms(1)
proof (cases rule: commit_cases)
  case (stale d1 st)
  with assms(2) show ?thesis by simp
next
  case (applied d1 st rows ps u d2 xids d3 ids)
  note up = upsert_tweets_effect[OF applied(8)] and out = enqueue_outboxes_effect[OF applied(9)]
  have w: "same_world d d1" using get_ai_setting_world[OF applied(1)] by simp
  obtain new where new: "tweets d2 = tweets d1 @ new" "map tw_tweet_id new = xids" using up by blast
  have d': "tweets d' = tweets d3" "screenshots d' = screenshots d3" "qq_deliveries d' = qq_deliveries d3"
    by (simp_all add: applied(10) finalize_log_def)
  have tw: "tweets d' = tweets d @ new" using w new(1) out by (simp add: d' same_world_def)
  have "\<forall>item \<in> set (tb_tweets b). truthy (jget item ''id'') \<longrightarrow>
      str_of (pe_lib env) (jget item ''id'') \<in> tw_tweet_id ` set (tweets d')"
  proof -
    have "tw_tweet_id ` set rows \<subseteq> tw_tweet_id ` set (tweets d')" using up out by (simp add: d')
    then show ?thesis unfolding rows_by_id_ids[OF applied(2)] by blast
  qed
  moreover have "\<forall>t \<in> set new. pe_screenshots env \<longrightarrow> tw_tweet_id t \<in> ss_tweet_id ` set (screenshots d')"
    using out new by (auto simp: d')
  moreover have "tweet_key t tg \<in> qd_idempotency_key ` set (qq_deliveries d')"
    if "t \<in> set new" "(tg, qbot) \<in> set (enabled_targets None d)" "has_user d t" "wants d tg t" for t tg qbot
  proof -
    have e: "d2 = d1\<lparr>tweets := tweets d2, serial := serial d2\<rparr>" using up by blast
    have t2: "enabled_targets None d2 = enabled_targets None d" "has_user d2 t = has_user d t" "wants d2 tg t = wants d tg t"
      using w by (subst e, simp add: same_world_def enabled_targets_def has_user_def wants_def bound_def)+
    have "tweet_key t tg \<in> wanted_keys d2 None (\<lambda>t. tw_tweet_id t \<in> set xids)"
      unfolding wanted_keys_def t2 using that new t2 by force
    with out show ?thesis by (auto simp: d')
  qed
  moreover have "length new = cr_tweets_inserted r" using new(2) applied(12) by auto
  ultimately show ?thesis using tw by (intro exI[of _ new]) auto
qed

text \<open>A page with one new post, for an account that a group listens to.\<close>

definition sample_post :: json where
  "sample_post = JObj [(''id'', JStr ''13''), (''text'', JStr ''hi''), (''author_id'', JStr ''77'')]"

definition sample_page :: tweet_batch where
  "sample_page = \<lparr>tb_tweets = [sample_post], tb_newest_id = Some ''13'', tb_next_token = None, tb_result_count = 1\<rparr>"

definition sample_listened :: db where
  "sample_listened = sample_polled\<lparr>qq_bots := qq_bots sample_qq_db, qq_targets := qq_targets sample_qq_db,
     qq_placeholders := qq_placeholders sample_qq_db\<rparr>"

lemma sample_commit:
  "case commit_success sample_poll_env 30 5 True sample_poll_claim ''77'' None sample_page sample_listened of
     Inl e \<Rightarrow> False
   | Inr (d', r) \<Rightarrow> cr_applied r \<and> cr_tweets_inserted r = 1 \<and> has_user sample_listened (last (tweets d')) \<and>
       wants sample_listened sample_target (last (tweets d')) \<and> tw_tweet_id (last (tweets d')) = ''13'' \<and>
       tweet_key (last (tweets d')) sample_target = ''tweet:7:target:7''"
  by code_simp

theorem commit_carries_outboxes_witness:
  "\<exists>d' r t. commit_success sample_poll_env 30 5 True sample_poll_claim ''77'' None sample_page sample_listened = Inr (d', r) \<and>
     tweets d' = [sample_tweet, t] \<and> tw_tweet_id t = ''13'' \<and> ''13'' \<in> ss_tweet_id ` set (screenshots d') \<and>
     ''tweet:7:target:7'' \<in> qd_idempotency_key ` set (qq_deliveries d')"
proof -
  have tabs: "tweets sample_listened = [sample_tweet]" "pe_screenshots sample_poll_env"
      "(sample_target, sample_bot) \<in> set (enabled_targets None sample_listened)"
    by (simp_all add: sample_listened_def sample_polled_def sample_db_def empty_db_def sample_poll_env_def sample_qq_db_def
        enabled_targets_def sample_target_def sample_bot_def)
  obtain d' r where ok: "commit_success sample_poll_env 30 5 True sample_poll_claim ''77'' None sample_page sample_listened = Inr (d', r)"
      "cr_applied r" "cr_tweets_inserted r = 1" and t: "has_user sample_listened (last (tweets d'))"
      "wants sample_listened sample_target (last (tweets d'))" "tw_tweet_id (last (tweets d')) = ''13''"
      "tweet_key (last (tweets d')) sample_target = ''tweet:7:target:7''"
    using sample_commit by (auto split: sum.splits)
  from commit_carries_outboxes[OF ok(1,2)] obtain new where n: "tweets d' = tweets sample_listened @ new"
      "length new = cr_tweets_inserted r"
    and rows: "\<forall>t \<in> set new. (pe_screenshots sample_poll_env \<longrightarrow> tw_tweet_id t \<in> ss_tweet_id ` set (screenshots d')) \<and>
       (\<forall>(tg, qbot) \<in> set (enabled_targets None sample_listened). has_user sample_listened t \<and> wants sample_listened tg t \<longrightarrow>
          tweet_key t tg \<in> qd_idempotency_key ` set (qq_deliveries d'))" by (elim exE conjE) (rule that)
  have new: "tweets d' = [sample_tweet] @ new" "length new = 1" using n ok(3) by (simp_all only: tabs)
  from new(2) obtain x where x: "new = [x]" by (cases new) auto
  have last: "last (tweets d') = x" by (simp add: new(1) x)
  have row: "pe_screenshots sample_poll_env \<longrightarrow> tw_tweet_id x \<in> ss_tweet_id ` set (screenshots d')"
      "\<forall>(tg, qbot) \<in> set (enabled_targets None sample_listened). has_user sample_listened x \<and> wants sample_listened tg x \<longrightarrow>
          tweet_key x tg \<in> qd_idempotency_key ` set (qq_deliveries d')"
    using bspec[OF rows, of x] by (auto simp only: x list.set_intros)
  have "''13'' \<in> ss_tweet_id ` set (screenshots d')" using row(1) tabs(2) t(3) unfolding last by simp
  moreover have "tweet_key x sample_target \<in> qd_idempotency_key ` set (qq_deliveries d')"
    using bspec[OF row(2) tabs(3)] t(1,2) unfolding last by simp
  ultimately show ?thesis using ok(1) new(1) t(3,4) unfolding x last
    by (intro exI[of _ d'] exI[of _ r] exI[of _ x]) simp
qed

text \<open>
  C13: The high-water mark moves only when a chain of pages is drained. From an account
  without a page in progress, every poll of a chain fetches above the same mark,
  the mark stays until the last page, and then it is the newest id that the chain saw
  first (the one before when it saw none), with the checkpoint cleared; so no
  post between the marks is skipped by an interrupted chain.
\<close>

theorem high_water_mark_drains:
  assumes "mu_pagination_token u = None" and "mu_pagination_newest_id u = None" and "bs \<noteq> []"
    and "\<forall>b \<in> set (butlast bs). nonempty (tb_next_token b)" and "\<not> nonempty (tb_next_token (last bs))"
    and "k < length bs"
  shows "set (snd (drain cfg ps now u bs)) = {mu_last_tweet_id u} \<and>
    mu_last_tweet_id (fst (drain cfg ps now u (take k bs))) = mu_last_tweet_id u \<and>
    mu_last_tweet_id (fst (drain cfg ps now u bs)) = str_or (first_newest None bs) (mu_last_tweet_id u) \<and>
    mu_pagination_token (fst (drain cfg ps now u bs)) = None"
proof -
  let ?cs = "butlast bs" and ?b = "last bs"
  have bs: "bs = ?cs @ [?b]" using assms(3) by simp
  obtain v s where d: "drain cfg ps now u ?cs = (v, s)" by (cases "drain cfg ps now u ?cs")
  note start = drain_start[OF assms(1,2,4), of cfg ps now, unfolded d fst_conv snd_conv]
  let ?c = "claim_of (claimed_user v) 0" and ?w = "committed_user cfg ps now (claim_of (claimed_user v) 0) None ?b (claimed_user v)"
  have run: "drain cfg ps now u bs = (?w, s @ [fetch_since ?c])"
    by (subst bs) (simp add: drain_append d Let_def)
  have since: "fetch_since ?c = mu_last_tweet_id u"
    using start by (auto simp: fetch_since_def claim_of_def claimed_user_def)
  have w: "mu_last_tweet_id ?w = str_or (str_or (mu_pagination_newest_id v) (tb_newest_id ?b)) (mu_last_tweet_id u)"
      "mu_pagination_token ?w = None"
    using start assms(5) by (simp_all add: committed_fields calculate_pagination_state_def claim_of_def claimed_user_def)
  have "first_newest None bs = (if nonempty (first_newest None ?cs) then first_newest None ?cs
      else if nonempty (tb_newest_id ?b) then tb_newest_id ?b else None)"
    by (subst bs) (rule first_newest_snoc)
  then have mark: "mu_last_tweet_id ?w = str_or (first_newest None bs) (mu_last_tweet_id u)"
    unfolding w(1) using start by (auto simp: str_or_def)
  have "take k bs = take k ?cs" using assms(6) bs by (metis Suc_leI butlast_conv_take diff_le_self length_butlast less_Suc_eq_le take_all_iff take_butlast)
  then have "\<forall>b \<in> set (take k bs). nonempty (tb_next_token b)" using assms(4) by (auto dest: in_set_takeD)
  from drain_start[OF assms(1,2) this] have "mu_last_tweet_id (fst (drain cfg ps now u (take k bs))) = mu_last_tweet_id u"
    by blast
  with mark w(2) since start show ?thesis by (auto simp: run)
qed

theorem high_water_mark_drains_witness:
  "mu_last_tweet_id (fst (drain default_worker_cfg sample_ps 50 sample_user
     [\<lparr>tb_tweets = [], tb_newest_id = Some ''15'', tb_next_token = Some ''p2'', tb_result_count = 0\<rparr>,
      \<lparr>tb_tweets = [], tb_newest_id = Some ''13'', tb_next_token = None, tb_result_count = 0\<rparr>])) = Some ''15''"
proof -
  have "mu_pagination_token sample_user = None" "mu_pagination_newest_id sample_user = None"
    by (simp_all add: sample_user_def)
  from high_water_mark_drains[OF this, of
      "[\<lparr>tb_tweets = [], tb_newest_id = Some ''15'', tb_next_token = Some ''p2'', tb_result_count = 0\<rparr>,
        \<lparr>tb_tweets = [], tb_newest_id = Some ''13'', tb_next_token = None, tb_result_count = 0\<rparr>]" 0
      default_worker_cfg sample_ps 50]
  show ?thesis by (simp add: first_newest_def str_or_def del: drain.simps)
qed

text \<open>
  A failed poll is tried again in bounded time and keeps its checkpoint. When the
  failure of the current poll is recorded without a deadline of its own, the account
  keeps its mark and its page, counts the failure, and is due again not before fifteen
  seconds and at most a second after the larger of 72 minutes and 1.2 times its
  interval, whatever the number of failures before it.
\<close>

theorem failure_backs_off:
  assumes "handle_failure env now dur jit True c status msg http None reset d = Some d'"
    and "row_get mu_id (pc_user_id c) (monitored_users d) = Some u" and "mu_poll_generation u = pc_generation c"
    and "get_polling_settings (pe_cfg env) (pl_read_int (pe_lib env)) d = Some ps"
    and "mu_next_poll_at u = None" and "mu_manual_poll_token u = pc_manual_token c"
    and "4 / 5 \<le> jit" and "jit \<le> 6 / 5" and "interval = effective_interval (mu_poll_interval_seconds u) ps"
  shows "\<exists>u' t. row_get mu_id (pc_user_id c) (monitored_users d') = Some u' \<and> mu_next_poll_at u' = Some t \<and>
    now + secs 15 \<le> t \<and> 5 * (t - now) \<le> secs (6 * max interval 3600 + 4) \<and> mu_status u' = status \<and>
    mu_consecutive_failures u' = mu_consecutive_failures u + 1 \<and> mu_last_tweet_id u' = mu_last_tweet_id u \<and>
    mu_pagination_token u' = mu_pagination_token u \<and> mu_pagination_since_id u' = mu_pagination_since_id u \<and>
    mu_pagination_newest_id u' = mu_pagination_newest_id u"
  using assms(1)
proof (cases rule: failure_cases)
  case logged
  with assms(2,3) show ?thesis by blast
next
  case (failed ps' u0)
  have eq: "ps' = ps" "u0 = u" using failed(1,2) assms(2,4) by simp_all
  let ?delay = "failure_delay jit interval (mu_consecutive_failures u)"
  let ?u = "failed_user now status msg (now + secs ?delay) c u"
  have users: "monitored_users d' = row_put mu_id ?u (monitored_users d)"
    using failed(5) by (simp add: eq assms(9))
  have get: "row_get mu_id (pc_user_id c) (monitored_users d') = Some ?u"
    unfolding users using row_get_Some[OF assms(2)] by (intro row_get_put_same[OF assms(2)]) simp
  have fields: "mu_next_poll_at ?u = Some (now + secs ?delay)" "mu_status ?u = status"
      "mu_consecutive_failures ?u = mu_consecutive_failures u + 1" "mu_last_tweet_id ?u = mu_last_tweet_id u"
      "mu_pagination_token ?u = mu_pagination_token u" "mu_pagination_since_id ?u = mu_pagination_since_id u"
      "mu_pagination_newest_id ?u = mu_pagination_newest_id u"
    by (simp_all add: failed_user_def Let_def assms(5,6) earlier_deadline_def)
  have "secs 15 \<le> secs ?delay" using failure_delay_bounds(1) by simp
  moreover have "5 * secs ?delay = secs (5 * ?delay)" by (simp add: secs_def)
  then have "5 * secs ?delay \<le> secs (6 * max interval 3600 + 4)"
    using failure_delay_bounds(2)[OF assms(7,8)] by simp
  ultimately show ?thesis using get fields by (intro exI[of _ ?u] exI[of _ "now + secs ?delay"]) simp
qed

theorem failure_backs_off_witness:
  "\<exists>d' u' t. handle_failure sample_poll_env 30 5 1 True sample_poll_claim ''error'' (Text ''x'') None None None
      sample_polled = Some d' \<and> row_get mu_id 1 (monitored_users d') = Some u' \<and> mu_next_poll_at u' = Some t \<and>
      30 + secs 15 \<le> t \<and> mu_consecutive_failures u' = 1"
proof -
  have settings: "app_settings sample_polled = []" by (simp add: sample_polled_def sample_db_def empty_db_def)
  from sample_failure[OF settings] obtain d' where
    d': "handle_failure sample_poll_env 30 5 1 True sample_poll_claim ''error'' (Text ''x'') None None None
      sample_polled = Some d'" by blast
  have user: "row_get mu_id (pc_user_id sample_poll_claim) (monitored_users sample_polled) = Some (claimed_user sample_user)"
      "mu_poll_generation (claimed_user sample_user) = pc_generation sample_poll_claim"
      "mu_next_poll_at (claimed_user sample_user) = None"
      "mu_manual_poll_token (claimed_user sample_user) = pc_manual_token sample_poll_claim"
      "pc_user_id sample_poll_claim = 1" "mu_consecutive_failures (claimed_user sample_user) = 0"
    by (simp_all add: row_get_def sample_poll_claim_def claim_of_def claimed_user_def sample_user_def sample_polled_def)
  from failure_backs_off[OF d' user(1,2) sample_settings[OF settings] user(3,4) _ _ HOL.refl] user(5,6) d'
  show ?thesis by fastforce
qed

text \<open>
  A manual request made during a poll is not lost. When the request of the account
  differs from the one the poll was claimed for, both the commit and the recorded
  failure leave the request in place and queue the account for an immediate poll, so
  that an active account is picked up at once.
\<close>

theorem manual_request_kept:
  assumes "row_get mu_id (pc_user_id c) (monitored_users d) = Some u"
    and "mu_manual_poll_token u = Some token" and "pc_manual_token c \<noteq> Some token" and "mu_is_active u"
    and "(\<exists>x res b r. commit_success env now dur held c x res b d = Inr (d', r)) \<or>
      (\<exists>jit st msg http proposed reset. handle_failure env now dur jit held c st msg http proposed reset d = Some d')"
  shows "\<exists>u'. row_get mu_id (pc_user_id c) (monitored_users d') = Some u' \<and>
    mu_manual_poll_token u' = Some token \<and> due now u'"
proof -
  have id: "mu_id u = pc_user_id c" using row_get_Some[OF assms(1)] by simp
  have same: ?thesis if "monitored_users d' = monitored_users d"
    using assms(1,2,4) that by (intro exI[of _ u]) (simp add: due_def)
  have put: ?thesis if "monitored_users d' = row_put mu_id v (monitored_users d)" "mu_id v = mu_id u"
      "mu_manual_poll_token v = Some token" "mu_is_active v" for v
    using row_get_put_same[OF assms(1), of v] that id by (intro exI[of _ v]) (simp add: due_def)
  have keeps: "mu_manual_poll_token (committed_user cfg ps now c res b u) = Some token \<and>
      mu_is_active (committed_user cfg ps now c res b u)"
      "mu_manual_poll_token (failed_user now st msg dl c u) = Some token \<and>
      mu_is_active (failed_user now st msg dl c u)" for cfg ps res b st msg dl
    using assms(2-4) by (auto simp: committed_user_def failed_user_def Let_def split: option.splits)
  from assms(5) show ?thesis
  proof (elim disjE exE)
    fix x res b r assume "commit_success env now dur held c x res b d = Inr (d', r)"
    from commit_users[OF this] show ?thesis
      using same put keeps(1) assms(1) by auto
  next
    fix jit st msg http proposed reset
    assume "handle_failure env now dur jit held c st msg http proposed reset d = Some d'"
    then show ?thesis
    proof (cases rule: failure_cases)
      case logged
      then show ?thesis by (intro same)
    next
      case (failed ps u0)
      then have "u0 = u" using assms(1) by simp
      with failed(5) keeps(2) show ?thesis by (intro put[OF failed(5)]) auto
    qed
  qed
qed

theorem manual_request_kept_witness:
  "\<exists>d' u'. handle_failure sample_poll_env 30 5 1 True sample_poll_claim ''error'' (Text ''x'') None None None
       (sample_polled\<lparr>monitored_users := [(claimed_user sample_user)\<lparr>mu_manual_poll_token := Some ''m''\<rparr>]\<rparr>) = Some d' \<and>
     row_get mu_id 1 (monitored_users d') = Some u' \<and> due 30 u'"
proof -
  let ?u = "(claimed_user sample_user)\<lparr>mu_manual_poll_token := Some ''m''\<rparr>"
  let ?d = "sample_polled\<lparr>monitored_users := [?u]\<rparr>"
  have settings: "app_settings ?d = []" by (simp add: sample_polled_def sample_db_def empty_db_def)
  from sample_failure[OF settings] obtain d' where
    d': "handle_failure sample_poll_env 30 5 1 True sample_poll_claim ''error'' (Text ''x'') None None None ?d = Some d'"
    by blast
  have user: "row_get mu_id (pc_user_id sample_poll_claim) (monitored_users ?d) = Some ?u"
      "mu_manual_poll_token ?u = Some ''m''" "pc_manual_token sample_poll_claim \<noteq> Some ''m''" "mu_is_active ?u"
      "pc_user_id sample_poll_claim = 1"
    by (simp_all add: row_get_def sample_poll_claim_def claim_of_def claimed_user_def sample_user_def)
  have "\<exists>jit st msg http proposed reset. handle_failure sample_poll_env 30 5 jit True sample_poll_claim st msg http
      proposed reset ?d = Some d'"
    using d' by blast
  from manual_request_kept[OF user(1-4) disjI2[OF this]] d' user(5) show ?thesis by auto
qed

text \<open>Every path of a poll that does not apply keeps the content.\<close>

lemma content_log [simp]:
  "content (finalize_log l st now dur f n h e r d) = content d" "content (superseded l now dur d) = content d"
  "content (lock_lost_log l now dur d) = content d"
  by (simp_all add: content_def finalize_log_def superseded_def lock_lost_log_def)

lemma content_failure:
  "handle_failure env now dur jit held c st msg http proposed reset d = Some d' \<Longrightarrow> content d' = content d"
  by (erule failure_cases) (simp_all add: content_def)

lemma content_stale:
  "commit_success env now dur held c x res b d = Inr (d', r) \<Longrightarrow> \<not> cr_applied r \<Longrightarrow> content d' = content d"
  by (erule commit_cases) (auto simp: content_def superseded_def finalize_log_def same_world_def dest: get_ai_setting_world)

lemma content_run_failure:
  assumes "\<And>k w. content (fst (io_gap io k w)) = content (fst w)"
  shows "content (fst (run_failure env io k c st msg http proposed reset w)) = content (fst w)"
proof -
  obtain d s where g: "io_gap io k w = (d, s)" by fastforce
  obtain s1 held where l: "assert_lock env io k (pc_user_id c) s = (s1, held)" by fastforce
  obtain d1 s2 where g1: "io_gap io (k + 1) (d, s1) = (d1, s2)" by fastforce
  obtain s3 held' where l1: "assert_lock env io (k + 1) (pc_user_id c) s2 = (s3, held')" by fastforce
  have "content d = content (fst w)" "content d1 = content d"
    using assms[of k w] assms[of "k + 1" "(d, s1)"] g g1 by simp_all
  then show ?thesis
    by (auto simp: run_failure_def g l g1[simplified] l1[simplified] content_failure split: option.split)
qed

lemma content_on_error:
  assumes "\<And>k w. content (fst (io_gap io k w)) = content (fst w)"
  shows "content (fst (on_error env io k c e w)) = content (fst w)"
  using content_run_failure[OF assms] by (cases e) (simp_all add: on_error_def Let_def)

lemma content_poll_claimed:
  assumes "\<And>k w. content (fst (io_gap io k w)) = content (fst w)"
    and "poll_claimed env io c w = (w', False)"
  shows "content (fst w') = content (fst w)"
proof -
  have gap: "content d' = content (fst v)" if "io_gap io k v = (d', s')" for k v d' s'
    using assms(1)[of k v] that by simp
  have err: "content d' = content (fst v)" if "on_error env io k c e v = (d', s')" for k e v d' s'
    using content_on_error[OF assms(1), of env k c e v] that by simp
  obtain d s where g: "io_gap io 3 w = (d, s)" by fastforce
  note d = gap[OF g]
  show ?thesis
  proof (cases "resolve_identity io c d")
    case (Inl e)
    with assms(2) d show ?thesis by (cases w') (auto simp: poll_claimed_def g dest: err)
  next
    case (Inr xr)
    obtain x resolved where xr: "xr = (x, resolved)" by fastforce
    show ?thesis
    proof (cases "io_fetch io x (fetch_since c) (pc_pagination_token c) (pc_include_replies c) (pc_include_retweets c)")
      case (Inl e)
      with assms(2) d Inr xr show ?thesis by (cases w') (auto simp: poll_claimed_def g dest: err)
    next
      case fetched: (Inr b)
      obtain d1 s1 where g1: "io_gap io 4 (d, s) = (d1, s1)" by fastforce
      obtain s2 held where l1: "assert_lock env io 4 (pc_user_id c) s1 = (s2, held)" by fastforce
      obtain d2 s3 where g2: "io_gap io 5 (d1, s2) = (d2, s3)" by fastforce
      obtain s4 held1 where l2: "assert_lock env io 5 (pc_user_id c) s3 = (s4, held1)" by fastforce
      obtain d3 s5 where g3: "io_gap io 6 (d2, s4) = (d3, s5)" by fastforce
      obtain s6 held2 where l3: "assert_lock env io 6 (pc_user_id c) s5 = (s6, held2)" by fastforce
      have same: "content d1 = content (fst w)" "content d2 = content (fst w)" "content d3 = content (fst w)"
        using d gap[OF g1] gap[OF g2] gap[OF g3] by simp_all
      note run = assms(2)[unfolded poll_claimed_def g Inr xr fetched g1 l1 g2 l2 g3 l3 Let_def prod.case sum.case]
      show ?thesis
      proof (cases "held \<and> held1")
        case False
        with run same show ?thesis by (cases w') (auto dest: err split: if_splits)
      next
        case True
        with run same show ?thesis
          by (cases w') (auto dest: err content_stale simp: flushed_def split: sum.splits prod.splits option.splits)
      qed
    qed
  qed
qed


lemma content_claim: "claim_user now w i d = Some (d', c) \<Longrightarrow> content d' = content d"
  by (auto simp: claim_user_def content_def Let_def split: option.splits if_splits)

text \<open>
  C35: A poll that is not applied collects nothing. Whatever the X source answers, wherever
  Redis fails or the lock is lost, and whatever other processes do to accounts and logs
  between its steps, a poll that returns \<open>False\<close> leaves posts, jobs, screenshots and
  deliveries exactly as they were.
\<close>

theorem unapplied_poll_collects_nothing:
  assumes "poll_user env io i (d, s) = ((d', s'), False)"
    and "\<And>k w. content (fst (io_gap io k w)) = content (fst w)"
  shows "content d' = content d"
proof -
  have gap: "content d' = content (fst v)" if "io_gap io k v = (d', s')" for k v d' s'
    using assms(2)[of k v] that by simp
  obtain d0 s0 where g0: "io_gap io 0 (d, s) = (d0, s0)" by fastforce
  note d0 = gap[OF g0, unfolded fst_conv]
  note run = assms(1)[unfolded poll_user_def g0 Let_def prod.case]
  show ?thesis
  proof (cases "io_redis_fails io 0 \<or> redis_set_nx (io_now io 0) (poll_lock_key i) (io_token io)
      (worker_lock_ttl_seconds (pe_cfg env)) s0 = None")
    case True
    with run d0 show ?thesis by (auto split: if_splits)
  next
    case False
    then obtain s1 where s1: "redis_set_nx (io_now io 0) (poll_lock_key i) (io_token io)
      (worker_lock_ttl_seconds (pe_cfg env)) s0 = Some s1" by blast
    obtain w1 applied where w1: "poll_locked env io i (d0, s1) = (w1, applied)" by fastforce
    obtain d2 s2 where g2: "io_gap io 20 w1 = (d2, s2)" by fastforce
    from run False s1 w1 g2 have res: "d' = d2" "\<not> applied" by auto
    obtain d3 s3 where g3: "io_gap io 1 (d0, s1) = (d3, s3)" by fastforce
    obtain d4 s4 where g4: "io_gap io 2 (d3, s3) = (d4, s4)" by fastforce
    have same: "content d3 = content d" "content d4 = content d"
      using d0 gap[OF g3] gap[OF g4] by simp_all
    note locked = w1[unfolded poll_locked_def g3 g4 Let_def prod.case]
    have "content (fst w1) = content d"
    proof (cases "global_gate_active (io_now io 1) (io_redis_fails io 1) s3 \<or> claim_user (io_now io 2) (pe_worker env) i d4 = None")
      case True
      with locked same show ?thesis by (auto split: if_splits)
    next
      case False
      then obtain d5 c where c: "claim_user (io_now io 2) (pe_worker env) i d4 = Some (d5, c)" by auto
      with locked False res(2) have "poll_claimed env io c (d5, s4) = (w1, False)"
        by auto
      from content_poll_claimed[OF assms(2) this] content_claim[OF c] same show ?thesis by simp
    qed
    with gap[OF g2] res(1) show ?thesis by simp
  qed
qed

theorem unapplied_poll_collects_nothing_witness:
  "\<exists>d' s'. poll_user sample_poll_env
      \<lparr>io_now = (\<lambda>k. 10), io_gap = (\<lambda>k w. w), io_redis_fails = (\<lambda>k. False), io_token = ''tok'',
       io_lookup = (\<lambda>u. Inl (Unexpected (Text ''x''))), io_fetch = (\<lambda>x a b c d. Inl LockLost), io_jitter = 1,
       io_long_jitter = 1, io_duration = 0, io_clash = None\<rparr> 1 (sample_db, \<lambda>k. None) = ((d', s'), False) \<and>
     content d' = content sample_db"
proof -
  let ?io = "\<lparr>io_now = (\<lambda>k. 10), io_gap = (\<lambda>k w. w), io_redis_fails = (\<lambda>k. False), io_token = ''tok'',
       io_lookup = (\<lambda>u. Inl (Unexpected (Text ''x''))), io_fetch = (\<lambda>x a b c d. Inl LockLost), io_jitter = 1,
       io_long_jitter = 1, io_duration = 0, io_clash = None\<rparr> :: poll_io"
  have claim: "claim_user 10 (pe_worker sample_poll_env) 1 sample_db = Some (sample_polled, sample_poll_claim)"
    using sample_claim_user by (simp add: sample_poll_env_def)
  have id: "pc_x_user_id sample_poll_claim = Some ''77''"
    by (simp add: sample_poll_claim_def claim_of_def claimed_user_def sample_user_def)
  obtain d' s' where run: "poll_user sample_poll_env ?io 1 (sample_db, \<lambda>k. None) = ((d', s'), False)"
    by (auto simp: poll_user_def poll_locked_def poll_claimed_def resolve_identity_def redis_set_nx_def redis_get_def
        global_gate_active_def redis_exists_def redis_set_def gate_key_def poll_lock_key_def claim id
        on_error_def Let_def split: prod.splits)
  from unapplied_poll_collects_nothing[OF run] run show ?thesis by simp
qed

subsection \<open>A pause that a running poll undoes\<close>

text \<open>
  The routes read the account without a lock. When a worker claims a poll between the
  read and the write of a pause, both move the generation from 4 to 5: the pause does
  not supersede the poll, which commits and reports the paused account as idle.
\<close>

lemma pause_race_keeps_poll:
  "\<exists>u0 d2 d3 r u. read_user 1 sample_db = Inr u0 \<and>
     claim_user 10 ''w'' 1 sample_db = Some (sample_polled, sample_poll_claim) \<and>
     write_user 20 sample_ps Pause u0 sample_polled = Inr d2 \<and>
     commit_success sample_poll_env 30 5 True sample_poll_claim ''77'' None
       \<lparr>tb_tweets = [], tb_newest_id = None, tb_next_token = None, tb_result_count = 0\<rparr> d2 = Inr (d3, r) \<and>
     cr_applied r \<and> row_get mu_id 1 (monitored_users d3) = Some u \<and> \<not> mu_is_active u \<and> mu_status u = ''idle''"
proof -
  let ?b = "\<lparr>tb_tweets = [], tb_newest_id = None, tb_next_token = None, tb_result_count = 0\<rparr> :: tweet_batch"
  let ?u2 = "(claimed_user sample_user)\<lparr>mu_is_active := False, mu_status := ''paused''\<rparr>"
  let ?d2 = "sample_polled\<lparr>monitored_users := [?u2]\<rparr>"
  have read: "read_user 1 sample_db = Inr sample_user"
    by (simp add: read_user_def sample_db_def row_get_def sample_user_def)
  have written: "write_user 20 sample_ps Pause sample_user sample_polled = Inr ?d2"
    by (simp add: write_user_def route_row_def sample_polled_def row_update_def flush_def claimed_user_def sample_user_def)
  have settings: "app_settings ?d2 = []" by (simp add: sample_polled_def sample_db_def empty_db_def)
  obtain d1 st where st: "get_ai_setting 30 ?d2 = (d1, st)" by (cases "get_ai_setting 30 ?d2")
  have d1: "monitored_users d1 = [?u2]"
    using get_ai_setting_world[OF st] by (simp add: same_world_def)
  have user: "row_get mu_id (pc_user_id sample_poll_claim) [?u2] = Some ?u2"
      "mu_poll_generation ?u2 = pc_generation sample_poll_claim"
      "identity_conflict (pc_user_id sample_poll_claim) ''77'' d1 = None"
    by (simp_all add: row_get_def sample_poll_claim_def claim_of_def claimed_user_def sample_user_def
        identity_conflict_def d1)
  have out: "enqueue_outboxes sample_poll_env 30 [] d1 = Some (d1, [])"
    by (simp add: enqueue_outboxes_def enqueue_jobs_for_x_tweet_ids_def enqueue_tweet_screenshots_def
        create_tweet_deliveries_def)
  let ?u3 = "committed_user (pe_cfg sample_poll_env) sample_ps 30 sample_poll_claim None ?b ?u2"
  obtain d3 r where ok: "commit_success sample_poll_env 30 5 True sample_poll_claim ''77'' None ?b ?d2 = Inr (d3, r)"
      "cr_applied r" "monitored_users d3 = row_put mu_id ?u3 [?u2]"
    unfolding commit_success_def sample_settings[OF settings] st
    by (simp add: d1 user commit_batch_def upsert_tweets.simps[of "[]"] out finalize_log_def)
  have one: "pc_user_id sample_poll_claim = 1" "mu_id ?u2 = 1"
    by (simp_all add: sample_poll_claim_def claim_of_def claimed_user_def sample_user_def)
  have "row_get mu_id 1 (monitored_users d3) = Some ?u3"
    unfolding ok(3) using user(1) one by (intro row_get_put_same) simp_all
  moreover have "\<not> mu_is_active ?u3 \<and> mu_status ?u3 = ''idle''"
    by (simp add: committed_user_def Let_def calculate_pagination_state_def sample_poll_claim_def claim_of_def
        claimed_user_def sample_user_def)
  ultimately show ?thesis using read sample_claim_user written ok(1,2) by blast
qed

end
