(* ===== verification/QQSchedule.thy ===== *)
theory QQSchedule
  imports PyText
begin

text \<open>
  The next run of a scheduled group message, \<open>backend/app/services/qq_schedule.py\<close>.
  A wall-clock \<open>datetime\<close> of a zone is its number of microseconds since 1970-01-01 on
  the clock of the zone and its \<open>fold\<close> bit; two of the same zone compare by the clock
  alone, and adding a \<open>timedelta\<close> clears \<open>fold\<close>. The zone database is a parameter, and
  so is \<open>int\<close> of a text. The calendar of \<open>datetime\<close> and \<open>calendar.monthrange\<close> is
  modelled here. A result \<open>None\<close> is a \<open>ValueError\<close>.
\<close>

type_synonym wall = "int \<times> bool"

record zone =
  zn_local :: "time \<Rightarrow> wall"
  zn_utc :: "wall \<Rightarrow> time"

subsection \<open>The calendar\<close>

definition a_minute :: time where
  "a_minute = 60000000"

definition an_hour :: time where
  "an_hour = 3600000000"

definition a_day :: time where
  "a_day = 86400000000"

text \<open>\<open>isoweekday\<close> of a day counted from 1970-01-01, a Thursday.\<close>

definition isoweekday :: "int \<Rightarrow> int" where
  "isoweekday n = (n + 3) mod 7 + 1"

definition leap :: "int \<Rightarrow> bool" where
  "leap y \<longleftrightarrow> y mod 4 = 0 \<and> (y mod 100 \<noteq> 0 \<or> y mod 400 = 0)"

definition month_length :: "int \<Rightarrow> int \<Rightarrow> int" where
  "month_length y m =
     (if m = 2 then (if leap y then 29 else 28) else if m \<in> {4, 6, 9, 11} then 30 else 31)"

definition days_before_year :: "int \<Rightarrow> int" where
  "days_before_year y = (let p = y - 1 in p * 365 + p div 4 - p div 100 + p div 400)"

definition days_before_month :: "int \<Rightarrow> int \<Rightarrow> int" where
  "days_before_month y m =
     [0, 31, 59, 90, 120, 151, 181, 212, 243, 273, 304, 334] ! nat (m - 1) + (if 2 < m \<and> leap y then 1 else 0)"

text \<open>The day of the first of a month.\<close>

definition month_start :: "int \<Rightarrow> int \<Rightarrow> int" where
  "month_start y m = days_before_year y + days_before_month y m - 719162"

text \<open>Year and month of a day.\<close>

definition year_of :: "int \<Rightarrow> int" where
  "year_of day =
     (let n = day + 719162; r400 = n mod 146097; n100 = min 3 (r400 div 36524); r100 = r400 - 36524 * n100;
          n4 = r100 div 1461; r4 = r100 mod 1461; n1 = min 3 (r4 div 365) in
      n div 146097 * 400 + n100 * 100 + n4 * 4 + n1 + 1)"

definition month_of_days :: "int \<Rightarrow> int \<Rightarrow> int" where
  "month_of_days l d =
     (if d < 31 then 1 else if d < 59 + l then 2 else if d < 90 + l then 3 else if d < 120 + l then 4
      else if d < 151 + l then 5 else if d < 181 + l then 6 else if d < 212 + l then 7
      else if d < 243 + l then 8 else if d < 273 + l then 9 else if d < 304 + l then 10
      else if d < 334 + l then 11 else 12)"

definition month_of :: "int \<Rightarrow> int" where
  "month_of day =
     (let y = year_of day in month_of_days (if leap y then 1 else 0) (day - month_start y 1))"

subsection \<open>The next run\<close>

definition parse_run_time :: "(string \<Rightarrow> int option) \<Rightarrow> string \<Rightarrow> (int \<times> int \<times> int) option" where
  "parse_run_time read_int s =
     (case those (map read_int (split_on CHR '':'' s)) of
        None \<Rightarrow> None
      | Some parts \<Rightarrow>
          (case take 3 (parts @ [0]) of [h, m, sec] \<Rightarrow> Some (h, m, sec) | _ \<Rightarrow> None))"

definition parse_weekdays :: "(string \<Rightarrow> int option) \<Rightarrow> string \<Rightarrow> int list option" where
  "parse_weekdays read_int s = those (map read_int (filter (\<lambda>x. x \<noteq> []) (split_on CHR '','' s)))"

definition sixty :: "int \<Rightarrow> bool" where
  "sixty n \<longleftrightarrow> 0 \<le> n \<and> n < 60"

definition next_weekly :: "int list \<Rightarrow> int \<Rightarrow> int \<Rightarrow> int option" where
  "next_weekly days w c =
     find (\<lambda>v. w < v \<and> isoweekday (v div a_day) \<in> set (if days = [] then [isoweekday (c div a_day)] else days))
       (map (\<lambda>k. c + int k * a_day) [0..<8])"

definition month_candidate :: "int option \<Rightarrow> int \<Rightarrow> int \<Rightarrow> int \<Rightarrow> int" where
  "month_candidate month_day w c k =
     (let n = w div a_day; i = month_of n - 1 + k; y = year_of n + i div 12; m = i mod 12 + 1;
          md = (case month_day of None \<Rightarrow> 1 | Some d \<Rightarrow> if d = 0 then 1 else d) in
      (month_start y m + min md (month_length y m) - 1) * a_day + c mod a_day)"

definition next_monthly :: "int option \<Rightarrow> int \<Rightarrow> int \<Rightarrow> int option" where
  "next_monthly month_day w c =
     (if (case month_day of None \<Rightarrow> False | Some d \<Rightarrow> d < 0) then None
      else find (\<lambda>v. w < v) (map (\<lambda>k. month_candidate month_day w c (int k)) [0..<13]))"

definition next_qq_task_run :: "(string \<Rightarrow> int option) \<Rightarrow> zone \<Rightarrow> string \<Rightarrow> int \<Rightarrow> string \<Rightarrow> string \<Rightarrow>
    int option \<Rightarrow> time \<Rightarrow> time option" where
  "next_qq_task_run read_int z frequency interval run_time weekdays month_day now =
     (case zn_local z now of (w, late) \<Rightarrow>
       (case parse_run_time read_int run_time of
          None \<Rightarrow> None
        | Some (hour, minute, second) \<Rightarrow>
            (let utc = (\<lambda>v. Some (zn_utc z v)); clock = \<not> sixty second \<or> \<not> sixty minute \<or> hour < 0 \<or> 24 \<le> hour;
                 start = w - w mod a_day + hour * an_hour + minute * a_minute + secs second in
             if frequency = ''secondly'' then utc (w + secs interval, False)
             else if frequency = ''minutely'' then
               (let c = w - w mod a_minute + secs second in
                if \<not> sixty second then None
                else if c \<le> w then utc (c + interval * a_minute, False) else utc (c, late))
             else if frequency = ''hourly'' then
               (let c = w - w mod an_hour + minute * a_minute + secs second in
                if \<not> sixty second \<or> \<not> sixty minute then None
                else if c \<le> w then utc (c + interval * an_hour, False) else utc (c, late))
             else if clock then None
             else if frequency = ''daily'' then
               (if start \<le> w then utc (start + a_day, False) else utc (start, late))
             else if frequency = ''weekly'' then
               (case parse_weekdays read_int weekdays of
                  None \<Rightarrow> None
                | Some days \<Rightarrow>
                    (case next_weekly days w start of None \<Rightarrow> None | Some v \<Rightarrow> utc (v, False)))
             else if frequency = ''monthly'' then
               (case next_monthly month_day w start of None \<Rightarrow> None | Some v \<Rightarrow> utc (v, late))
             else None)))"

subsection \<open>Months\<close>

lemma days_before_year_parts:
  assumes "0 \<le> b" "b \<le> 3" "0 \<le> c" "c \<le> 24" "0 \<le> e" "e \<le> 3"
  shows "days_before_year (400 * a + 100 * b + 4 * c + e + 1) = 146097 * a + 36524 * b + 1461 * c + 365 * e"
proof -
  let ?p = "400 * a + 100 * b + 4 * c + e"
  have "?p div 4 = 100 * a + 25 * b + c" by (rule int_div_pos_eq[of _ _ _ e]) (use assms in simp_all)
  moreover have "?p div 100 = 4 * a + b" by (rule int_div_pos_eq[of _ _ _ "4 * c + e"]) (use assms in simp_all)
  moreover have "?p div 400 = a" by (rule int_div_pos_eq[of _ _ _ "100 * b + 4 * c + e"]) (use assms in simp_all)
  ultimately show ?thesis by (simp add: days_before_year_def)
qed

lemma year_parts:
  obtains a b c e :: int where "y = 400 * a + 100 * b + 4 * c + e + 1" "0 \<le> b" "b \<le> 3" "0 \<le> c" "c \<le> 24"
    "0 \<le> e" "e \<le> 3"
proof
  let ?a = "(y - 1) div 400" and ?r = "(y - 1) mod 400"
  let ?s = "?r mod 100"
  have 1: "y - 1 = 400 * ?a + ?r" "?r = 100 * (?r div 100) + ?s" "?s = 4 * (?s div 4) + ?s mod 4"
    by simp_all
  then show "y = 400 * ?a + 100 * (?r div 100) + 4 * (?s div 4) + ?s mod 4 + 1" by linarith
  show "0 \<le> ?r div 100" "0 \<le> ?s div 4" "0 \<le> ?s mod 4" by (simp_all add: pos_imp_zdiv_nonneg_iff)
  show "?r div 100 \<le> 3" "?s div 4 \<le> 24" "?s mod 4 \<le> 3"
    using pos_mod_bound[of 400 "y - 1"] pos_mod_bound[of 100 ?r] pos_mod_bound[of 4 ?s] by linarith+
qed

lemma leap_parts:
  assumes "0 \<le> b" "b \<le> 3" "0 \<le> c" "c \<le> 24" "0 \<le> e" "e \<le> 3"
  shows "leap (400 * a + 100 * b + 4 * c + e + 1) \<longleftrightarrow> e = 3 \<and> (c < 24 \<or> b = 3)"
proof -
  let ?y = "400 * a + 100 * b + 4 * c + e + 1"
  consider "e < 3" | "e = 3" "c < 24" | "e = 3" "c = 24" "b < 3" | "e = 3" "c = 24" "b = 3"
    using assms by linarith
  then show ?thesis
  proof cases
    case 1
    have "?y mod 4 = e + 1" by (rule int_mod_pos_eq[of _ _ "100 * a + 25 * b + c"]) (use 1 assms in simp_all)
    with 1 assms show ?thesis by (simp add: leap_def)
  next
    case 2
    have "?y mod 4 = 0" by (rule int_mod_pos_eq[of _ _ "100 * a + 25 * b + c + 1"]) (use 2 in simp_all)
    moreover have "?y mod 100 = 4 * c + 4" by (rule int_mod_pos_eq[of _ _ "4 * a + b"]) (use 2 assms in simp_all)
    ultimately show ?thesis using 2 assms by (simp add: leap_def)
  next
    case 3
    have "?y mod 100 = 0" by (rule int_mod_pos_eq[of _ _ "4 * a + b + 1"]) (use 3 in simp_all)
    moreover have "?y mod 400 = 100 * b + 100"
      by (rule int_mod_pos_eq[of _ _ a]) (use 3 assms in simp_all)
    ultimately show ?thesis using 3 assms by (simp add: leap_def)
  next
    case 4
    have "?y mod 4 = 0" by (rule int_mod_pos_eq[of _ _ "100 * a + 25 * b + c + 1"]) (use 4 in simp_all)
    moreover have "?y mod 400 = 0" by (rule int_mod_pos_eq[of _ _ "a + 1"]) (use 4 in simp_all)
    ultimately show ?thesis using 4 by (simp add: leap_def)
  qed
qed

lemma days_before_next_year: "days_before_year (y + 1) = days_before_year y + (if leap y then 366 else 365)"
proof -
  obtain a b c e :: int where y: "y = 400 * a + 100 * b + 4 * c + e + 1"
    and r: "0 \<le> b" "b \<le> 3" "0 \<le> c" "c \<le> 24" "0 \<le> e" "e \<le> 3" by (rule year_parts)
  note here = days_before_year_parts[OF r, of a, folded y] leap_parts[OF r, of a, folded y]
  consider "e < 3" | "e = 3" "c < 24" | "e = 3" "c = 24" "b < 3" | "e = 3" "c = 24" "b = 3"
    using r by linarith
  then show ?thesis
  proof cases
    case 1
    with here days_before_year_parts[of b c "e + 1" a] r show ?thesis by (simp add: y algebra_simps)
  next
    case 2
    with here days_before_year_parts[of b "c + 1" 0 a] r show ?thesis by (simp add: y algebra_simps)
  next
    case 3
    with here days_before_year_parts[of "b + 1" 0 0 a] r show ?thesis by (simp add: y algebra_simps)
  next
    case 4
    with here days_before_year_parts[of 0 0 0 "a + 1"] r show ?thesis by (simp add: y algebra_simps)
  qed
qed

lemma year_of_bounds:
  "days_before_year (year_of n) \<le> n + 719162 \<and> n + 719162 < days_before_year (year_of n + 1)"
proof -
  define a where "a = (n + 719162) div 146097"
  define r where "r = (n + 719162) mod 146097"
  define b where "b = min 3 (r div 36524)"
  define r1 where "r1 = r - 36524 * b"
  define c where "c = r1 div 1461"
  define r4 where "r4 = r1 mod 1461"
  define e where "e = min 3 (r4 div 365)"
  have y: "year_of n = 400 * a + 100 * b + 4 * c + e + 1"
    unfolding year_of_def Let_def a_def[symmetric] r_def[symmetric] b_def[symmetric] r1_def[symmetric]
      c_def[symmetric] r4_def[symmetric] e_def[symmetric] by simp
  have n: "n + 719162 = 146097 * a + r" and r: "0 \<le> r" "r < 146097" by (simp_all add: a_def r_def)
  have "r div 36524 \<le> 4" using zdiv_mono1[of r 146096 36524] r by simp
  moreover have "0 \<le> r div 36524" using r by (simp add: pos_imp_zdiv_nonneg_iff)
  moreover have "r mod 36524 = r - 36524 * (r div 36524)" "r mod 36524 < 36524" "0 \<le> r mod 36524"
    by (simp_all add: minus_mult_div_eq_mod)
  ultimately have b: "0 \<le> b" "b \<le> 3" "0 \<le> r1" "r1 \<le> 36524" "b < 3 \<longrightarrow> r1 < 36524"
    using r by (auto simp: b_def r1_def min_def)
  have c: "0 \<le> c" "c \<le> 24" "r1 = 1461 * c + r4" "0 \<le> r4" "r4 < 1461"
    using b(3,4) by (auto simp: c_def r4_def)
  have e: "0 \<le> e" "e \<le> 3" "365 * e \<le> r4" "e < 3 \<longrightarrow> r4 < 365 * e + 365" using c(4) by (auto simp: e_def min_def)
  note here = days_before_year_parts[OF b(1,2) c(1,2) e(1,2), of a, folded y]
    leap_parts[OF b(1,2) c(1,2) e(1,2), of a, folded y]
  have "r = 36524 * b + r1" by (simp add: r1_def)
  with here n c e b show ?thesis by (auto simp: days_before_next_year)
qed

text \<open>Months in sequence: month \<open>k\<close> counted from January of year 1.\<close>

definition nth_month_start :: "int \<Rightarrow> int" where
  "nth_month_start k = month_start (k div 12 + 1) (k mod 12 + 1)"

definition nth_month_length :: "int \<Rightarrow> int" where
  "nth_month_length k = month_length (k div 12 + 1) (k mod 12 + 1)"

lemma month_cases:
  fixes m :: int
  assumes "0 \<le> m" "m < 12"
  obtains "m = 0" | "m = 1" | "m = 2" | "m = 3" | "m = 4" | "m = 5" | "m = 6" | "m = 7" | "m = 8" | "m = 9"
    | "m = 10" | "m = 11"
proof -
  have "m = 0 \<or> m = 1 \<or> m = 2 \<or> m = 3 \<or> m = 4 \<or> m = 5 \<or> m = 6 \<or> m = 7 \<or> m = 8 \<or> m = 9 \<or> m = 10 \<or> m = 11"
    using assms by presburger
  then show thesis by (elim disjE) (rule that, assumption)+
qed

lemma nth_month_Suc: "nth_month_start (k + 1) = nth_month_start k + nth_month_length k"
proof -
  define y m where "y = k div 12" and "m = k mod 12"
  have k: "k = 12 * y + m" and m: "0 \<le> m" "m < 12" by (simp_all add: y_def m_def)
  show ?thesis
  proof (cases "m = 11")
    case True
    then have "(k + 1) div 12 = y + 1" "(k + 1) mod 12 = 0" by (simp_all add: k)
    with True days_before_next_year[of "y + 1"] show ?thesis
      by (simp add: nth_month_start_def nth_month_length_def month_start_def month_length_def
          days_before_month_def flip: y_def m_def)
  next
    case False
    with m have "(k + 1) div 12 = y" "(k + 1) mod 12 = m + 1"
      by (simp_all add: k int_div_pos_eq[of _ _ _ "m + 1"] int_mod_pos_eq[of _ _ y])
    with False m show ?thesis
      by (simp add: nth_month_start_def nth_month_length_def month_start_def flip: y_def m_def)
        (cases m rule: month_cases; simp add: month_length_def days_before_month_def)
  qed
qed

lemma nth_month_length_bounds: "28 \<le> nth_month_length k" "nth_month_length k \<le> 31"
  by (simp_all add: nth_month_length_def month_length_def)

lemma nth_month_mono:
  assumes "j \<le> k"
  shows "nth_month_start j + 28 * (k - j) \<le> nth_month_start k"
  using assms
proof (induction k rule: int_ge_induct)
  case (step k)
  then show ?case using nth_month_Suc[of k] nth_month_length_bounds[of k] by (simp add: algebra_simps)
qed simp

text \<open>The month of a day, as an index.\<close>

definition month_index :: "int \<Rightarrow> int" where
  "month_index n = 12 * (year_of n - 1) + (month_of n - 1)"

lemma days_before_month_values:
  defines "l \<equiv> \<lambda>y. if leap y then 1 else 0"
  shows "days_before_month y 1 = 0" "days_before_month y 2 = 31" "days_before_month y 3 = 59 + l y"
    "days_before_month y 4 = 90 + l y" "days_before_month y 5 = 120 + l y" "days_before_month y 6 = 151 + l y"
    "days_before_month y 7 = 181 + l y" "days_before_month y 8 = 212 + l y" "days_before_month y 9 = 243 + l y"
    "days_before_month y 10 = 273 + l y" "days_before_month y 11 = 304 + l y"
    "days_before_month y 12 = 334 + l y" "month_length y 2 = 28 + l y"
  by (simp_all add: days_before_month_def month_length_def l_def)

lemma month_of_days_bounds:
  assumes "0 \<le> d" "d < 365 + l" "l = (if leap y then 1 else 0)"
  shows "1 \<le> month_of_days l d \<and> month_of_days l d \<le> 12 \<and> days_before_month y (month_of_days l d) \<le> d \<and>
    d < days_before_month y (month_of_days l d) + month_length y (month_of_days l d)"
proof -
  have len: "month_length y 1 = 31" "month_length y 3 = 31" "month_length y 4 = 30" "month_length y 5 = 31"
    "month_length y 6 = 30" "month_length y 7 = 31" "month_length y 8 = 31" "month_length y 9 = 30"
    "month_length y 10 = 31" "month_length y 11 = 30" "month_length y 12 = 31"
    by (simp_all add: month_length_def)
  note vals = days_before_month_values[where y = y, folded assms(3)] len
  define Q where "Q j \<longleftrightarrow> 1 \<le> j \<and> j \<le> 12 \<and> days_before_month y j \<le> d \<and> d < days_before_month y j + month_length y j" for j
  have q: "d < 31 \<Longrightarrow> Q 1" "\<not> d < 31 \<Longrightarrow> d < 59 + l \<Longrightarrow> Q 2" "\<not> d < 59 + l \<Longrightarrow> d < 90 + l \<Longrightarrow> Q 3"
    "\<not> d < 90 + l \<Longrightarrow> d < 120 + l \<Longrightarrow> Q 4" "\<not> d < 120 + l \<Longrightarrow> d < 151 + l \<Longrightarrow> Q 5"
    "\<not> d < 151 + l \<Longrightarrow> d < 181 + l \<Longrightarrow> Q 6" "\<not> d < 181 + l \<Longrightarrow> d < 212 + l \<Longrightarrow> Q 7"
    "\<not> d < 212 + l \<Longrightarrow> d < 243 + l \<Longrightarrow> Q 8" "\<not> d < 243 + l \<Longrightarrow> d < 273 + l \<Longrightarrow> Q 9"
    "\<not> d < 273 + l \<Longrightarrow> d < 304 + l \<Longrightarrow> Q 10" "\<not> d < 304 + l \<Longrightarrow> d < 334 + l \<Longrightarrow> Q 11"
    "\<not> d < 334 + l \<Longrightarrow> Q 12"
    using assms(1,2) unfolding Q_def vals by simp_all
  have branch: "Q (if p then a else b)" if "p \<Longrightarrow> Q a" and "\<not> p \<Longrightarrow> Q b" for p a b using that by simp
  have "Q (month_of_days l d)" unfolding month_of_days_def by (intro branch) (rule q; assumption)+
  then show ?thesis by (simp add: Q_def)
qed

lemma month_of_bounds:
  fixes n :: int
  defines "y \<equiv> year_of n" and "m \<equiv> month_of n"
  shows "1 \<le> m \<and> m \<le> 12 \<and> month_start y m \<le> n \<and> n < month_start y m + month_length y m"
proof -
  define l :: int where "l = (if leap y then 1 else 0)"
  let ?d = "n - month_start y 1"
  have start: "month_start y j = month_start y 1 + days_before_month y j" for j
    by (simp add: month_start_def days_before_month_def)
  have "0 \<le> ?d \<and> ?d < 365 + l"
    using year_of_bounds[of n]
    by (auto simp: l_def y_def days_before_next_year month_start_def days_before_month_def)
  then have "1 \<le> month_of_days l ?d \<and> month_of_days l ?d \<le> 12 \<and> days_before_month y (month_of_days l ?d) \<le> ?d \<and>
      ?d < days_before_month y (month_of_days l ?d) + month_length y (month_of_days l ?d)"
    by (intro month_of_days_bounds) (simp_all add: l_def)
  moreover have "m = month_of_days l ?d" by (simp add: m_def month_of_def y_def l_def Let_def)
  ultimately show ?thesis using start[of m] by auto
qed

lemma month_index_bounds:
  "nth_month_start (month_index n) \<le> n \<and> n < nth_month_start (month_index n + 1)"
proof -
  note m = month_of_bounds[of n]
  have "month_index n div 12 = year_of n - 1"
    by (rule int_div_pos_eq[of _ _ _ "month_of n - 1"]) (use m in \<open>simp_all add: month_index_def\<close>)
  moreover have "month_index n mod 12 = month_of n - 1"
    by (rule int_mod_pos_eq[of _ _ "year_of n - 1"]) (use m in \<open>simp_all add: month_index_def\<close>)
  ultimately show ?thesis using m
    unfolding nth_month_Suc by (simp add: nth_month_length_def nth_month_start_def)
qed

lemma nth_month_le:
  assumes "nth_month_start j \<le> n" and "n < nth_month_start (k + 1)"
  shows "j \<le> k"
proof (rule ccontr)
  assume "\<not> j \<le> k"
  with nth_month_mono[of "k + 1" j] assms show False by simp
qed

lemma month_index_unique:
  "nth_month_start k \<le> n \<Longrightarrow> n < nth_month_start (k + 1) \<Longrightarrow> month_index n = k"
  using nth_month_le[of k n "month_index n"] nth_month_le[of "month_index n" n k] month_index_bounds[of n] by simp

lemma month_index_mono: "n \<le> n' \<Longrightarrow> month_index n \<le> month_index n'"
  using nth_month_le[of "month_index n" n' "month_index n'"] month_index_bounds[of n] month_index_bounds[of n'] by simp

subsection \<open>The next run is the first one\<close>

definition day_of_month :: "int \<Rightarrow> int" where
  "day_of_month n = n - month_start (year_of n) (month_of n) + 1"

text \<open>The days and the clock time at which a daily, weekly or monthly task is to run.\<close>

definition runs_at :: "string \<Rightarrow> time \<Rightarrow> int list \<Rightarrow> int \<Rightarrow> int \<Rightarrow> bool" where
  "runs_at frequency clock days month_day w \<longleftrightarrow>
     w mod a_day = clock \<and>
     (frequency = ''weekly'' \<longrightarrow> isoweekday (w div a_day) \<in> set days) \<and>
     (frequency = ''monthly'' \<longrightarrow> day_of_month (w div a_day) =
        min month_day (month_length (year_of (w div a_day)) (month_of (w div a_day))))"

lemma nth_month_of_index:
  "nth_month_start (month_index n) = month_start (year_of n) (month_of n) \<and>
    nth_month_length (month_index n) = month_length (year_of n) (month_of n)"
proof -
  note m = month_of_bounds[of n]
  have "month_index n div 12 = year_of n - 1"
    by (rule int_div_pos_eq[of _ _ _ "month_of n - 1"]) (use m in \<open>simp_all add: month_index_def\<close>)
  moreover have "month_index n mod 12 = month_of n - 1"
    by (rule int_mod_pos_eq[of _ _ "year_of n - 1"]) (use m in \<open>simp_all add: month_index_def\<close>)
  ultimately show ?thesis by (simp add: nth_month_length_def nth_month_start_def)
qed

lemma month_candidate_index:
  "month_candidate month_day w c k =
    (nth_month_start (month_index (w div a_day) + k) +
      min (case month_day of None \<Rightarrow> 1 | Some d \<Rightarrow> if d = 0 then 1 else d)
        (nth_month_length (month_index (w div a_day) + k)) - 1) * a_day + c mod a_day"
proof -
  let ?n = "w div a_day" and ?i = "month_of (w div a_day) - 1 + k"
  have i: "month_index ?n + k = ?i + (year_of ?n - 1) * 12" by (simp add: month_index_def)
  have "(?i + (year_of ?n - 1) * 12) div 12 = year_of ?n - 1 + ?i div 12"
    and "(?i + (year_of ?n - 1) * 12) mod 12 = ?i mod 12"
    by (simp_all only: div_mult_self1 mod_mult_self1)
  then show ?thesis
    unfolding month_candidate_def nth_month_start_def nth_month_length_def i Let_def
    by (simp only: diff_add_eq add_diff_eq) simp
qed

text \<open>The first day on which the clock time is still to come.\<close>

definition first_day :: "int \<Rightarrow> time \<Rightarrow> int" where
  "first_day w clock = (if w mod a_day < clock then w div a_day else w div a_day + 1)"

lemma a_day_pos: "0 < a_day"
  by (simp add: a_day_def)

lemma after_iff:
  assumes "0 \<le> clock" "clock < a_day"
  shows "w < n * a_day + clock \<longleftrightarrow> first_day w clock \<le> n"
proof -
  have w: "w = w div a_day * a_day + w mod a_day" "0 \<le> w mod a_day" "w mod a_day < a_day"
    by (simp_all add: a_day_def)
  consider "n \<le> w div a_day - 1" | "n = w div a_day" | "w div a_day + 1 \<le> n" by linarith
  then show ?thesis
  proof cases
    case 1
    then have "n * a_day \<le> (w div a_day - 1) * a_day" by (rule mult_right_mono) (simp add: a_day_def)
    then have "n * a_day + a_day \<le> w div a_day * a_day" by (simp add: algebra_simps)
    with w assms have "\<not> w < n * a_day + clock" by linarith
    with 1 show ?thesis by (simp add: first_day_def)
  next
    case 2
    have "w < n * a_day + clock \<longleftrightarrow> w mod a_day < clock" using w(1) unfolding 2 by linarith
    with 2 show ?thesis by (simp add: first_day_def)
  next
    case 3
    then have "(w div a_day + 1) * a_day \<le> n * a_day" by (rule mult_right_mono) (simp add: a_day_def)
    then have "w div a_day * a_day + a_day \<le> n * a_day" by (simp add: algebra_simps)
    with w assms have "w < n * a_day + clock" by linarith
    with 3 show ?thesis by (simp add: first_day_def)
  qed
qed

lemma at_clock: "0 \<le> clock \<Longrightarrow> clock < a_day \<Longrightarrow> (n * a_day + clock) div a_day = n \<and> (n * a_day + clock) mod a_day = clock"
  by (simp add: a_day_def)

lemma first_day_bounds: "w div a_day \<le> first_day w clock \<and> first_day w clock \<le> w div a_day + 1"
  by (simp add: first_day_def)

lemma least_run:
  assumes c: "0 \<le> clock" "clock < a_day" and d: "first_day w clock \<le> n" "runs_at f clock days md (n * a_day + clock)"
    and least: "\<And>n'. first_day w clock \<le> n' \<Longrightarrow> runs_at f clock days md (n' * a_day + clock) \<Longrightarrow> n \<le> n'"
    and v: "w < v" "runs_at f clock days md v"
  shows "n * a_day + clock \<le> v"
proof -
  have e: "v = v div a_day * a_day + clock"
    using v(2) div_mult_mod_eq[of v a_day] by (simp only: runs_at_def)
  with v after_iff[OF c, of w "v div a_day"] have "n \<le> v div a_day" by (intro least) metis+
  then have "n * a_day \<le> v div a_day * a_day" by (rule mult_right_mono) (simp add: a_day_def)
  with e show ?thesis by linarith
qed

lemma weekday_covered:
  assumes "1 \<le> x" "x \<le> 7"
  obtains k :: int where "0 \<le> k" "k < 7" "isoweekday (n + k) = x"
proof
  show "0 \<le> (x - 1 - (n + 3)) mod 7" "(x - 1 - (n + 3)) mod 7 < 7" by simp_all
  have "(n + (x - 1 - (n + 3)) mod 7 + 3) mod 7 = ((x - 1 - (n + 3)) mod 7 + (n + 3)) mod 7"
    by (simp add: algebra_simps)
  also have "\<dots> = (x - 1) mod 7" by (simp only: mod_add_left_eq diff_add_cancel)
  finally have "(n + (x - 1 - (n + 3)) mod 7 + 3) mod 7 = (x - 1) mod 7" .
  then show "isoweekday (n + (x - 1 - (n + 3)) mod 7) = x" using assms by (simp add: isoweekday_def)
qed

lemma find_first:
  assumes "k < N" and "P (f k)"
  obtains i where "find P (map f [0..<N]) = Some (f i)" "i < N" "P (f i)" "\<And>j. j < i \<Longrightarrow> \<not> P (f j)"
proof -
  have "find P (map f [0..<N]) \<noteq> None" using assms by (auto simp: find_None_iff)
  then obtain v where v: "find P (map f [0..<N]) = Some v" by blast
  from v[unfolded find_Some_iff] obtain i where i: "i < N" "P (f i)" "v = f i" "\<And>j. j < i \<Longrightarrow> \<not> P (f j)"
    by (auto simp: nth_append)
  with v show thesis by (intro that) auto
qed

lemma next_weekly_least:
  assumes c: "0 \<le> clock" "clock < a_day" and days: "days \<noteq> []" "set days \<subseteq> {1..7}"
  obtains n where "next_weekly days w (w div a_day * a_day + clock) = Some (n * a_day + clock)"
    "first_day w clock \<le> n" "isoweekday n \<in> set days"
    "\<And>n'. first_day w clock \<le> n' \<Longrightarrow> isoweekday n' \<in> set days \<Longrightarrow> n \<le> n'"
proof -
  let ?n = "w div a_day" and ?f = "\<lambda>k. w div a_day * a_day + clock + int k * a_day"
  let ?P = "\<lambda>v. w < v \<and> isoweekday (v div a_day) \<in> set days"
  have f: "?f k = (?n + int k) * a_day + clock" for k by (simp add: algebra_simps)
  have P: "?P (?f k) \<longleftrightarrow> first_day w clock \<le> ?n + int k \<and> isoweekday (?n + int k) \<in> set days" for k
    unfolding f after_iff[OF c] at_clock[OF c, THEN conjunct1] ..
  obtain x where x: "x \<in> set days" using days(1) by (cases days) auto
  with days(2) have "1 \<le> x" "x \<le> 7" by auto
  then obtain k where k: "0 \<le> k" "k < 7" "isoweekday (first_day w clock + k) = x" by (rule weekday_covered)
  have "0 \<le> first_day w clock + k - ?n" "first_day w clock + k - ?n < 8"
    using k first_day_bounds[of w clock] by linarith+
  then have "nat (first_day w clock + k - ?n) < 8 \<and> ?P (?f (nat (first_day w clock + k - ?n)))"
    unfolding P using k x by simp
  then obtain i where i: "find ?P (map ?f [0..<8]) = Some (?f i)" "i < 8" "?P (?f i)" "\<And>j. j < i \<Longrightarrow> \<not> ?P (?f j)"
    using find_first[of "nat (first_day w clock + k - ?n)" 8 ?P ?f] by blast
  show thesis
  proof (rule that[of "?n + int i"])
    show "next_weekly days w (?n * a_day + clock) = Some ((?n + int i) * a_day + clock)"
      using i(1) days(1) by (simp add: next_weekly_def f)
    show "first_day w clock \<le> ?n + int i" "isoweekday (?n + int i) \<in> set days"
      using i(3)[unfolded P] by simp_all
    show "?n + int i \<le> n'" if n': "first_day w clock \<le> n'" "isoweekday n' \<in> set days" for n'
    proof (rule ccontr)
      assume "\<not> ?n + int i \<le> n'"
      with n'(1) first_day_bounds[of w clock] have "nat (n' - ?n) < i" "?n + int (nat (n' - ?n)) = n'" by linarith+
      with n' i(4)[of "nat (n' - ?n)"] show False unfolding P by simp
    qed
  qed
qed

text \<open>The run of month \<open>k\<close>, as a day.\<close>

definition month_run :: "int \<Rightarrow> int \<Rightarrow> int" where
  "month_run md k = nth_month_start k + min md (nth_month_length k) - 1"

lemma month_run_iff:
  assumes "1 \<le> md"
  shows "day_of_month n = min md (month_length (year_of n) (month_of n)) \<longleftrightarrow> n = month_run md (month_index n)"
  using nth_month_of_index[of n] by (auto simp: month_run_def day_of_month_def)

lemma month_run_bounds:
  "1 \<le> md \<Longrightarrow> nth_month_start k \<le> month_run md k \<and> month_run md k < nth_month_start (k + 1)"
  using nth_month_length_bounds[of k] by (auto simp: month_run_def nth_month_Suc)

lemma month_run_mono:
  assumes "1 \<le> md" "j \<le> k"
  shows "month_run md j \<le> month_run md k"
proof (cases "j = k")
  case False
  with assms nth_month_mono[of "j + 1" k] month_run_bounds[of md j] month_run_bounds[of md k] show ?thesis by simp
qed simp

lemma next_monthly_least:
  assumes c: "0 \<le> clock" "clock < a_day" and md: "1 \<le> md"
    "md = (case month_day of None \<Rightarrow> 1 | Some x \<Rightarrow> if x = 0 then 1 else x)"
  obtains n where "next_monthly month_day w (w div a_day * a_day + clock) = Some (n * a_day + clock)"
    "first_day w clock \<le> n" "n = month_run md (month_index n)"
    "\<And>n'. first_day w clock \<le> n' \<Longrightarrow> n' = month_run md (month_index n') \<Longrightarrow> n \<le> n'"
proof -
  let ?n = "w div a_day" and ?m = "month_index (w div a_day)"
  let ?f = "\<lambda>k. month_candidate month_day w (w div a_day * a_day + clock) (int k)"
  have f: "?f k = month_run md (?m + int k) * a_day + clock" for k
    unfolding month_candidate_index md(2)[symmetric] month_run_def using at_clock[OF c] by simp
  have P: "w < ?f k \<longleftrightarrow> first_day w clock \<le> month_run md (?m + int k)" for k
    unfolding f after_iff[OF c] ..
  have "?n < nth_month_start (?m + 1)" using month_index_bounds by simp
  then have "(1::nat) < 13 \<and> w < ?f 1"
    unfolding P using month_run_bounds[OF md(1), of "?m + 1"] first_day_bounds[of w clock] by simp
  then obtain i where i: "find (\<lambda>v. w < v) (map ?f [0..<13]) = Some (?f i)" "i < 13" "w < ?f i"
      "\<And>j. j < i \<Longrightarrow> \<not> w < ?f j"
    using find_first[of 1 13 "\<lambda>v. w < v" ?f] by blast
  have index: "month_index (month_run md k) = k" for k
    using month_index_unique month_run_bounds[OF md(1), of k] by simp
  show thesis
  proof (rule that[of "month_run md (?m + int i)"])
    show "next_monthly month_day w (?n * a_day + clock) = Some (month_run md (?m + int i) * a_day + clock)"
      using i(1) md unfolding next_monthly_def f by (auto split: option.splits if_splits)
    show "first_day w clock \<le> month_run md (?m + int i)" using i(3)[unfolded P] .
    show "month_run md (?m + int i) = month_run md (month_index (month_run md (?m + int i)))"
      by (simp only: index)
    show "month_run md (?m + int i) \<le> n'"
      if n': "first_day w clock \<le> n'" "n' = month_run md (month_index n')" for n'
    proof (rule ccontr)
      assume "\<not> month_run md (?m + int i) \<le> n'"
      then have lt: "month_index n' < ?m + int i"
        using month_run_mono[OF md(1), of "?m + int i" "month_index n'"] n'(2) by linarith
      have "?m \<le> month_index n'" using first_day_bounds[of w clock] n'(1) by (intro month_index_mono) simp
      with lt have "nat (month_index n' - ?m) < i" "?m + int (nat (month_index n' - ?m)) = month_index n'" by simp_all
      with i(4)[unfolded P, of "nat (month_index n' - ?m)"] have "\<not> first_day w clock \<le> month_run md (month_index n')"
        by (simp only:) simp
      with n' show False by simp
    qed
  qed
qed

text \<open>A zone with one offset from UTC, such as the \<open>Asia/Shanghai\<close> of the default setting since 1992.\<close>

definition fixed_offset :: "time \<Rightarrow> zone" where
  "fixed_offset off = \<lparr>zn_local = (\<lambda>t. (t + off, False)), zn_utc = (\<lambda>(w, late). w - off)\<rparr>"

lemma next_run_clock:
  assumes "parse_run_time read_int run_time = Some (h, m, s)" and "0 \<le> h" and "h < 24" and "sixty m" and "sixty s"
    and "clock = h * an_hour + m * a_minute + secs s"
    and "frequency \<in> {''daily'', ''weekly'', ''monthly''}"
    and "parse_weekdays read_int weekdays = Some days" and "days \<noteq> []" and "set days \<subseteq> {1..7}"
    and "md = (case month_day of None \<Rightarrow> 1 | Some x \<Rightarrow> if x = 0 then 1 else x)" and "1 \<le> md" and "zn_local z now = (w, late)"
  shows "\<exists>v late'. next_qq_task_run read_int z frequency interval run_time weekdays month_day now = Some (zn_utc z (v, late')) \<and>
    late' \<in> {late, False} \<and> w < v \<and> runs_at frequency clock days md v \<and>
    (\<forall>v'. w < v' \<and> runs_at frequency clock days md v' \<longrightarrow> v \<le> v')"
proof -
  have c: "0 \<le> clock" "clock < a_day"
    using assms(2-6) by (simp_all add: sixty_def an_hour_def a_minute_def a_day_def secs_def)
  have floor: "w - w mod a_day = w div a_day * a_day" by (simp add: minus_mod_eq_div_mult)
  then have start: "w - w mod a_day + h * an_hour + m * a_minute + secs s = w div a_day * a_day + clock"
    by (simp add: assms(6))
  note run = next_qq_task_run_def[of read_int z frequency interval run_time weekdays month_day now]
  have ok: "\<not> (\<not> sixty s \<or> \<not> sixty m \<or> h < 0 \<or> 24 \<le> h)" using assms(2-5) by simp
  have "\<exists>n late'. next_qq_task_run read_int z frequency interval run_time weekdays month_day now =
        Some (zn_utc z (n * a_day + clock, late')) \<and> late' \<in> {late, False} \<and>
      first_day w clock \<le> n \<and> runs_at frequency clock days md (n * a_day + clock) \<and>
      (\<forall>n'. first_day w clock \<le> n' \<and> runs_at frequency clock days md (n' * a_day + clock) \<longrightarrow> n \<le> n')"
  proof (cases "frequency = ''daily''")
    case True
    let ?late = "late \<and> w mod a_day < clock"
    have ne: "(''daily'' = ''secondly'') = False" "(''daily'' = ''minutely'') = False" "(''daily'' = ''hourly'') = False" by simp_all
    have "next_qq_task_run read_int z frequency interval run_time weekdays month_day now =
        (if w div a_day * a_day + clock \<le> w then Some (zn_utc z (w div a_day * a_day + clock + a_day, False))
         else Some (zn_utc z (w div a_day * a_day + clock, late)))"
      using ok unfolding True by (simp only: next_qq_task_run_def assms(1,13) prod.case option.case Let_def start ne if_False if_True simp_thms)
    moreover have "(w div a_day * a_day + clock \<le> w) = (\<not> w mod a_day < clock)"
      using after_iff[OF c, of w "w div a_day"] by (simp only: first_day_def not_less not_le[symmetric]) (simp split: if_splits)
    ultimately have "next_qq_task_run read_int z frequency interval run_time weekdays month_day now =
        Some (zn_utc z (first_day w clock * a_day + clock, ?late))"
      by (cases "w mod a_day < clock") (simp_all add: first_day_def ring_distribs add_ac)
    with True show ?thesis using at_clock[OF c]
      by (intro exI[of _ "first_day w clock"] exI[of _ ?late]) (simp add: runs_at_def)
  next
    case not_daily: False
    show ?thesis
    proof (cases "frequency = ''weekly''")
      case True
      obtain n where n: "next_weekly days w (w div a_day * a_day + clock) = Some (n * a_day + clock)"
        "first_day w clock \<le> n" "isoweekday n \<in> set days"
        "\<And>n'. first_day w clock \<le> n' \<Longrightarrow> isoweekday n' \<in> set days \<Longrightarrow> n \<le> n'"
        by (rule next_weekly_least[OF c assms(9,10), of w]) metis
      have "next_qq_task_run read_int z frequency interval run_time weekdays month_day now =
          Some (zn_utc z (n * a_day + clock, False))"
        using True ok assms(1,8,13) n(1) unfolding run
        by (simp add: Let_def start)
      with True n show ?thesis using at_clock[OF c] by (intro exI[of _ n] exI[of _ False]) (simp add: runs_at_def)
    next
      case False
      with not_daily assms(7) have f: "frequency = ''monthly''" by simp
      obtain n where n: "next_monthly month_day w (w div a_day * a_day + clock) = Some (n * a_day + clock)"
        "first_day w clock \<le> n" "n = month_run md (month_index n)"
        "\<And>n'. first_day w clock \<le> n' \<Longrightarrow> n' = month_run md (month_index n') \<Longrightarrow> n \<le> n'"
        by (rule next_monthly_least[OF c assms(12,11), of w]) metis
      have "next_qq_task_run read_int z frequency interval run_time weekdays month_day now =
          Some (zn_utc z (n * a_day + clock, late))"
        using f ok assms(1,13) n(1) unfolding run
        by (simp add: Let_def start)
      with f n show ?thesis using at_clock[OF c]
        by (intro exI[of _ n] exI[of _ late]) (simp add: runs_at_def month_run_iff[OF assms(12)])
    qed
  qed
  then obtain n late' where n: "next_qq_task_run read_int z frequency interval run_time weekdays month_day now =
        Some (zn_utc z (n * a_day + clock, late'))" "late' \<in> {late, False}" "first_day w clock \<le> n"
      "runs_at frequency clock days md (n * a_day + clock)"
      "\<And>n'. first_day w clock \<le> n' \<Longrightarrow> runs_at frequency clock days md (n' * a_day + clock) \<Longrightarrow> n \<le> n'" by blast
  have "\<forall>v'. w < v' \<and> runs_at frequency clock days md v' \<longrightarrow> n * a_day + clock \<le> v'"
    using least_run[OF c n(3-5)] by blast
  then show ?thesis
    using n(1-4) after_iff[OF c, of w n] by (intro exI[of _ "n * a_day + clock"] exI[of _ late']) blast
qed


definition sample_read :: "string \<Rightarrow> int option" where
  "sample_read s = (if s = ''08'' then Some 8 else if s = ''30'' then Some 30 else if s = ''1'' then Some 1 else None)"

text \<open>
  A zone two hours ahead of UTC that goes back to one hour at \<open>T\<close>: the clock times of
  the hour before \<open>T + 2h\<close> occur twice, the second time with \<open>fold\<close> set.
\<close>

definition clock_back :: "time \<Rightarrow> zone" where
  "clock_back T = \<lparr>zn_local = (\<lambda>t. if t < T then (t + 2 * an_hour, False) else (t + an_hour, t < T + an_hour)),
     zn_utc = (\<lambda>(w, late). if w < T + an_hour \<or> (w < T + 2 * an_hour \<and> \<not> late) then w - 2 * an_hour else w - an_hour)\<rparr>"


text \<open>In a zone of one offset every kind of task runs in the future.\<close>

lemma floor_step:
  fixes w u x :: int
  assumes "0 < u" "0 \<le> x" "1 \<le> n" "w - w mod u + x \<le> w"
  shows "w < w - w mod u + x + n * u"
proof -
  have "1 * u \<le> n * u" using assms(1,3) by (intro mult_right_mono) simp_all
  moreover have "w mod u < u" using assms(1) by simp
  ultimately show ?thesis using assms(2) by simp
qed

lemma next_run_future:
  assumes "next_qq_task_run read_int (fixed_offset off) frequency interval run_time weekdays month_day now = Some t"
    and "1 \<le> interval"
  shows "now < t"
proof -
  define w where "w = now + off"
  obtain h m s where p: "parse_run_time read_int run_time = Some (h, m, s)"
    using assms(1) by (auto simp: next_qq_task_run_def fixed_offset_def split: option.splits)
  have pos: "0 < a_minute" "0 < an_hour" "0 < a_day" by (simp_all add: a_minute_def an_hour_def a_day_def)
  have found: "next_weekly days w c = Some v \<Longrightarrow> w < v" "next_monthly md w c = Some v \<Longrightarrow> w < v" for days c v md
    by (auto simp: next_weekly_def next_monthly_def find_Some_iff split: if_splits)
  note run = assms(1)[unfolded next_qq_task_run_def fixed_offset_def, simplified, unfolded p w_def[symmetric], simplified]
  note bounds = floor_step[OF pos(1), where w = w and x = "secs s" and n = interval]
    floor_step[OF pos(2), where w = w and x = "m * a_minute + secs s" and n = interval]
    floor_step[OF pos(3), where w = w and x = "h * an_hour + m * a_minute + secs s" and n = 1]
  have nonneg: "0 \<le> secs s" if "sixty s" using that by (simp add: sixty_def)
  have nonneg2: "0 \<le> m * a_minute + secs s" if "sixty m" "sixty s"
    using that by (simp add: sixty_def a_minute_def)
  have nonneg3: "0 \<le> h * an_hour + m * a_minute + secs s" if "0 \<le> h" "sixty m" "sixty s"
    using that by (simp add: sixty_def a_minute_def an_hour_def)
  have sec: "0 < secs interval" using assms(2) by simp
  have "w < t + off"
    using run assms(2) bounds nonneg nonneg2 nonneg3 sec
    by (auto simp: Let_def add.assoc not_le split: if_splits option.splits dest!: found)
  then show ?thesis by (simp add: w_def)
qed

subsection \<open>Clocks that are set back\<close>

text \<open>
  The addition in \<open>next_qq_task_run\<close> clears \<open>fold\<close>, so that in the second pass the next run of a task
  that repeats within the hour lies an hour back, and the task is due again at once.
\<close>

lemma clock_back_roundtrip: "zn_utc (clock_back T) (zn_local (clock_back T) t) = t"
  by (simp add: clock_back_def an_hour_def)

lemma secondly_runs_back:
  assumes "T \<le> now" and "now + secs n < T + an_hour" and "0 \<le> n" and "parse_run_time read_int run_time \<noteq> None"
  shows "next_qq_task_run read_int (clock_back T) ''secondly'' n run_time weekdays month_day now =
    Some (now + secs n - an_hour)"
proof -
  have "now < T + an_hour" "0 \<le> secs n" using assms(2,3) by (simp_all add: secs_def)
  with assms show ?thesis by (auto simp: next_qq_task_run_def clock_back_def Let_def an_hour_def)
qed

end
