(* ===== verification/QQWorker.thy ===== *)
theory QQWorker
  imports QQNotify QQSchedule RedisLease
begin

text \<open>
  The worker that sends group messages, \<open>backend/app/qq_worker.py\<close>: scheduled tasks
  become outbox rows, a row is claimed in a transaction that checks its bot, its group
  and the parts before it, sent behind a Redis gate, and closed by the worker that
  still holds its token. \<open>record_group_presence\<close> of \<open>services/qq_groups.py\<close> keeps the
  groups a bot has joined.
\<close>

subsection \<open>Groups a bot has joined\<close>

definition same_group :: "qq_bot \<Rightarrow> string \<Rightarrow> string \<Rightarrow> qq_joined_group \<Rightarrow> bool" where
  "same_group b app grp g \<longleftrightarrow> qg_bot_id g = qb_id b \<and> qg_app_id g = app \<and> qg_group_openid g = grp"

definition record_group_presence :: "time \<Rightarrow> string \<Rightarrow> string \<Rightarrow> bool \<Rightarrow> time \<Rightarrow> db \<Rightarrow> db \<times> bool" where
  "record_group_presence now app grp joined event_at d =
     (case find (\<lambda>b. qb_app_id b = app \<and> qb_is_enabled b) (qq_bots d) of
        None \<Rightarrow> (d, False)
      | Some b \<Rightarrow>
          (case find (same_group b app grp) (qq_groups d) of
             None \<Rightarrow>
               (d\<lparr>qq_groups := qq_groups d @ [\<lparr>qg_id = serial d, qg_bot_id = qb_id b, qg_app_id = app,
                    qg_group_openid = grp, qg_is_joined = joined, qg_last_event_at = event_at,
                    qg_created_at = now, qg_updated_at = now\<rparr>], serial := serial d + 1\<rparr>, True)
           | Some g \<Rightarrow>
               (if event_at < qg_last_event_at g \<or>
                   (event_at = qg_last_event_at g \<and> (joined \<or> \<not> qg_is_joined g)) then (d, False)
                else (d\<lparr>qq_groups := row_put qg_id (g\<lparr>qg_is_joined := joined, qg_last_event_at := event_at\<rparr>)
                        (qq_groups d)\<rparr>, True))))"

subsection \<open>Scheduled tasks\<close>

definition task_due :: "time \<Rightarrow> qq_scheduled_task \<Rightarrow> bool" where
  "task_due now t \<longleftrightarrow> qk_is_enabled t \<and> qk_next_run_at t \<le> now"

definition scheduled_key :: "(time \<Rightarrow> string) \<Rightarrow> time \<Rightarrow> int \<Rightarrow> int \<Rightarrow> string \<Rightarrow> string" where
  "scheduled_key fmt now task qbot grp =
     ''scheduled:'' @ show_int task @ '':'' @ fmt now @ '':'' @ show_int qbot @ '':'' @ grp"

definition scheduled_delivery :: "(time \<Rightarrow> string) \<Rightarrow> time \<Rightarrow> int \<Rightarrow> qq_scheduled_task \<Rightarrow> qq_bot \<Rightarrow> string \<Rightarrow>
    qq_delivery" where
  "scheduled_delivery fmt now max_attempts t b grp =
     \<lparr>qd_id = 0, qd_task_id = Some (qk_id t), qd_target_id = None, qd_source_tweet_id = None,
      qd_article_id = None, qd_article_publish_attempt_id = None, qd_sequence = None, qd_media_path = None,
      qd_kind = ''scheduled'', qd_idempotency_key = scheduled_key fmt now (qk_id t) (qb_id b) grp,
      qd_bot_name = qb_name b, qd_bot_app_id = qb_app_id b, qd_bot_version = qb_version b,
      qd_target_name = grp, qd_group_openid = grp, qd_message_body = Text (qk_message t),
      qd_status = ''queued'', qd_attempts = 0, qd_max_attempts = max_attempts, qd_next_attempt_at = now,
      qd_lease_expires_at = None, qd_claim_token = None, qd_claimed_by = None,
      qd_provider_message_id = None, qd_last_error = None, qd_started_at = None, qd_completed_at = None,
      qd_created_at = now, qd_updated_at = now\<rparr>"

text \<open>The bot and the group of each destination of a task whose bot belongs to the task and is enabled.\<close>

fun task_destinations :: "db \<Rightarrow> int \<Rightarrow> qq_task_group list \<Rightarrow> (qq_bot \<times> string) list" where
  "task_destinations d task [] = []"
| "task_destinations d task (g # gs) =
     (if qkg_task_id g = task \<and> list_ex (\<lambda>b. qkb_task_id b = task \<and> qkb_bot_id b = qkg_bot_id g) (qq_task_bots d)
      then (case row_get qb_id (qkg_bot_id g) (qq_bots d) of
              None \<Rightarrow> task_destinations d task gs
            | Some b \<Rightarrow> if qb_is_enabled b then (b, qkg_group_openid g) # task_destinations d task gs
                        else task_destinations d task gs)
      else task_destinations d task gs)"

definition task_rows :: "(time \<Rightarrow> string) \<Rightarrow> time \<Rightarrow> int \<Rightarrow> db \<Rightarrow> qq_scheduled_task \<Rightarrow> qq_delivery list" where
  "task_rows fmt now m d t =
     map (\<lambda>(b, grp). scheduled_delivery fmt now m t b grp) (task_destinations d (qk_id t) (qq_task_groups d))"

definition task_next_run :: "(string \<Rightarrow> int option) \<Rightarrow> zone \<Rightarrow> time \<Rightarrow> qq_scheduled_task \<Rightarrow> time option" where
  "task_next_run read_int z now t =
     next_qq_task_run read_int z (qk_frequency t) (qk_interval_value t) (qk_run_time t) (qk_weekdays t) (qk_month_day t) now"

definition task_ran :: "time \<Rightarrow> time \<Rightarrow> qq_scheduled_task \<Rightarrow> qq_scheduled_task" where
  "task_ran now next_run t = t\<lparr>qk_last_run_at := Some now, qk_next_run_at := next_run\<rparr>"

text \<open>
  \<open>_schedule_tasks\<close>, one transaction: an unreadable schedule or a second row with the
  same key is an exception, after which nothing of the pass is stored (\<open>None\<close>).
\<close>

fun schedule_loop :: "(string \<Rightarrow> int option) \<Rightarrow> zone \<Rightarrow> (time \<Rightarrow> string) \<Rightarrow> time \<Rightarrow> int \<Rightarrow>
    qq_scheduled_task list \<Rightarrow> db \<Rightarrow> db option" where
  "schedule_loop read_int z fmt now m [] d = Some d"
| "schedule_loop read_int z fmt now m (t # ts) d =
     (let rows = task_rows fmt now m d t; ks = map qd_idempotency_key rows in
      if \<not> distinct ks \<or> set ks \<inter> qd_idempotency_key ` set (qq_deliveries d) \<noteq> {} then None
      else case task_next_run read_int z now t of
        None \<Rightarrow> None
      | Some next_run \<Rightarrow>
          schedule_loop read_int z fmt now m ts
            ((fst (add_deliveries rows d))\<lparr>qq_tasks := row_put qk_id (task_ran now next_run t) (qq_tasks d)\<rparr>))"

definition schedule_tasks :: "(string \<Rightarrow> int option) \<Rightarrow> zone \<Rightarrow> (time \<Rightarrow> string) \<Rightarrow> qq_worker_cfg \<Rightarrow> time \<Rightarrow>
    db \<Rightarrow> db option" where
  "schedule_tasks read_int z fmt cfg now d =
     schedule_loop read_int z fmt now (qq_worker_max_attempts cfg) (filter (task_due now) (qq_tasks d)) d"

subsection \<open>Claiming a delivery\<close>

definition qd_get :: "int \<Rightarrow> db \<Rightarrow> qq_delivery option" where
  "qd_get i d = row_get qd_id i (qq_deliveries d)"

definition put_delivery :: "qq_delivery \<Rightarrow> db \<Rightarrow> db" where
  "put_delivery r d = d\<lparr>qq_deliveries := row_put qd_id r (qq_deliveries d)\<rparr>"

definition put_draft :: "draft \<Rightarrow> db \<Rightarrow> db" where
  "put_draft a d = d\<lparr>drafts := row_put dr_id a (drafts d)\<rparr>"

definition attempt_at :: "string option \<Rightarrow> db \<Rightarrow> publish_attempt option" where
  "attempt_at p d = (case p of None \<Rightarrow> None | Some a \<Rightarrow> pa_get a d)"

definition delivery_due :: "time \<Rightarrow> qq_delivery \<Rightarrow> bool" where
  "delivery_due now r \<longleftrightarrow>
     (qd_status r \<in> {''queued'', ''retry_wait''} \<and> qd_next_attempt_at r \<le> now) \<or>
     (qd_status r = ''sending'' \<and> (case qd_lease_expires_at r of None \<Rightarrow> False | Some u \<Rightarrow> u \<le> now))"

definition group_kinds :: "string list" where
  "group_kinds = [''batch'', ''scheduled'', ''article'']"

definition in_group :: "qq_bot \<Rightarrow> string \<Rightarrow> qq_joined_group \<Rightarrow> bool" where
  "in_group b grp g \<longleftrightarrow> qg_bot_id g = qb_id b \<and> qg_app_id g = qb_app_id b \<and> qg_group_openid g = grp \<and> qg_is_joined g"

definition group_bot :: "qq_delivery \<Rightarrow> db \<Rightarrow> msg + qq_bot" where
  "group_bot r d =
     (case find (\<lambda>b. qb_app_id b = qd_bot_app_id r) (qq_bots d) of
        None \<Rightarrow> Inl (Lit ''the bot was deleted or disabled'' [])
      | Some b \<Rightarrow>
          (if \<not> qb_is_enabled b then Inl (Lit ''the bot was deleted or disabled'' [])
           else if qb_version b \<noteq> qd_bot_version r then Inl (Lit ''the credentials of the bot changed'' [])
           else if \<not> list_ex (in_group b (qd_group_openid r)) (qq_groups d)
           then Inl (Lit ''the bot has left the group'' [])
           else Inr b))"

text \<open>A part of the same article for the same group that comes before and has not been sent.\<close>

definition earlier_part :: "qq_delivery \<Rightarrow> qq_delivery \<Rightarrow> bool" where
  "earlier_part r x \<longleftrightarrow>
     qd_article_publish_attempt_id x = qd_article_publish_attempt_id r \<and> qd_group_openid x = qd_group_openid r \<and>
     (case (qd_sequence x, qd_sequence r) of (Some a, Some b) \<Rightarrow> a < b | _ \<Rightarrow> False)"

definition blocking_part :: "qq_delivery \<Rightarrow> db \<Rightarrow> string option" where
  "blocking_part r d =
     (case row_select (\<lambda>x. earlier_part r x \<and> qd_status x \<noteq> ''sent'') (\<lambda>x. - the (qd_sequence x)) 1 (qq_deliveries d) of
        [] \<Rightarrow> None
      | x # _ \<Rightarrow> Some (qd_status x))"

text \<open>The bot and the group of a delivery to a subscription target.\<close>

definition target_bot :: "qq_delivery \<Rightarrow> db \<Rightarrow> msg + qq_bot \<times> string" where
  "target_bot r d =
     (case (case qd_target_id r of None \<Rightarrow> None | Some i \<Rightarrow> row_get qt_id i (qq_targets d)) of
        None \<Rightarrow> Inl (Lit ''the bot or the target was deleted or disabled'' [])
      | Some tg \<Rightarrow>
          (case row_get qb_id (qt_bot_id tg) (qq_bots d) of
             None \<Rightarrow> Inl (Lit ''the bot or the target was deleted or disabled'' [])
           | Some b \<Rightarrow>
               (if \<not> qt_is_enabled tg \<or> \<not> qb_is_enabled b
                then Inl (Lit ''the bot or the target was deleted or disabled'' [])
                else if qd_kind r = ''tweet'' \<and>
                  (target_history_cutoff tg \<noteq> None \<or> (qt_listen_mode tg \<noteq> [] \<and> qt_listen_mode tg \<noteq> ''all'')) then
                  (case (case qd_source_tweet_id r of None \<Rightarrow> None | Some t \<Rightarrow> row_get tw_id t (tweets d)) of
                     None \<Rightarrow> Inl (Lit ''the source post no longer exists'' [])
                   | Some tw \<Rightarrow>
                       (if \<not> target_accepts_tweet tg tw then Inl (Lit ''the target does not listen to such posts'' [])
                        else case target_history_cutoff tg of
                          None \<Rightarrow> Inr (b, qt_group_openid tg)
                        | Some c \<Rightarrow>
                            (if tw_posted_at tw < c then Inl (Lit ''the post is older than the history of the target'' [])
                             else Inr (b, qt_group_openid tg))))
                else Inr (b, qt_group_openid tg))))"

datatype admission = Go qq_bot string | Hold | Refuse msg | Crash

text \<open>The comparison of a missing \<open>sequence\<close> in SQL is an \<open>ArgumentError\<close>.\<close>

definition admission_of :: "qq_delivery \<Rightarrow> db \<Rightarrow> admission" where
  "admission_of r d =
     (if qd_kind r \<in> set group_kinds then
        (case group_bot r d of
           Inl m \<Rightarrow> Refuse m
         | Inr b \<Rightarrow>
             (if qd_kind r \<noteq> ''article'' then Go b (qd_group_openid r)
              else if qd_sequence r = None then Crash
              else case blocking_part r d of
                None \<Rightarrow> Go b (qd_group_openid r)
              | Some s \<Rightarrow>
                  (if s \<in> {''failed'', ''cancelled''} then Refuse (Lit ''an earlier part of the article failed'' [])
                   else Hold)))
      else case target_bot r d of Inl m \<Rightarrow> Refuse m | Inr (b, grp) \<Rightarrow> Go b grp)"

record qq_claim =
  qc_delivery_id :: int
  qc_claim_token :: string
  qc_bot_id :: int
  qc_bot_version :: int
  qc_app_id :: string
  qc_app_secret :: string
  qc_group_openid :: string
  qc_message_body :: msg
  qc_attempts :: int
  qc_max_attempts :: int
  qc_kind :: string
  qc_media_path :: "string option"
  qc_article_id :: "int option"
  qc_sequence :: "int option"

definition closed_row :: "time \<Rightarrow> string \<Rightarrow> msg \<Rightarrow> qq_delivery \<Rightarrow> qq_delivery" where
  "closed_row now status err r =
     r\<lparr>qd_status := status, qd_last_error := Some err, qd_completed_at := Some now, qd_claim_token := None,
       qd_claimed_by := None, qd_lease_expires_at := None\<rparr>"

definition sending_row :: "qq_worker_cfg \<Rightarrow> string \<Rightarrow> time \<Rightarrow> string \<Rightarrow> qq_delivery \<Rightarrow> qq_delivery" where
  "sending_row cfg worker now token r =
     r\<lparr>qd_status := ''sending'', qd_attempts := qd_attempts r + 1, qd_claim_token := Some token,
       qd_claimed_by := Some worker, qd_started_at := Some now,
       qd_lease_expires_at := Some (now + secs (qq_worker_lock_ttl_seconds cfg)), qd_last_error := None\<rparr>"

definition claim_of_row :: "qq_delivery \<Rightarrow> string \<Rightarrow> qq_bot \<Rightarrow> string \<Rightarrow> string \<Rightarrow> qq_claim" where
  "claim_of_row r token b secret grp =
     \<lparr>qc_delivery_id = qd_id r, qc_claim_token = token, qc_bot_id = qb_id b, qc_bot_version = qb_version b,
      qc_app_id = qb_app_id b, qc_app_secret = secret, qc_group_openid = grp,
      qc_message_body = qd_message_body r, qc_attempts = qd_attempts r, qc_max_attempts = qd_max_attempts r,
      qc_kind = qd_kind r, qc_media_path = qd_media_path r, qc_article_id = qd_article_id r,
      qc_sequence = qd_sequence r\<rparr>"

text \<open>The publication that a closed part of an article fails.\<close>

definition fail_article :: "time \<Rightarrow> msg \<Rightarrow> qq_delivery \<Rightarrow> db \<Rightarrow> db" where
  "fail_article now err r d =
     (if qd_kind r \<noteq> ''article'' \<or> qd_article_id r \<in> {None, Some 0} then d
      else
        (let d1 = (case attempt_at (qd_article_publish_attempt_id r) d of
               None \<Rightarrow> d
             | Some a \<Rightarrow> put_attempt (a\<lparr>pa_status := ''failed'', pa_error := Some err, pa_completed_at := Some now\<rparr>) d)
         in case row_get dr_id (the (qd_article_id r)) (drafts d1) of
              None \<Rightarrow> d1
            | Some a \<Rightarrow>
                (if dr_publish_attempt_id a = qd_article_publish_attempt_id r
                 then put_draft (a\<lparr>dr_publish_status := ''failed'', dr_publish_error := Some err\<rparr>) d1 else d1)))"

text \<open>\<open>_claim\<close>; \<open>decrypt\<close> is \<open>decrypt_app_secret\<close>, \<open>None\<close> an exception that rolls the transaction back.\<close>

definition claim_delivery :: "qq_worker_cfg \<Rightarrow> (string \<Rightarrow> msg + string) \<Rightarrow> string \<Rightarrow> time \<Rightarrow> int \<Rightarrow> string \<Rightarrow> db \<Rightarrow>
    (db \<times> qq_claim option) option" where
  "claim_delivery cfg decrypt worker now i token d =
     (case qd_get i d of
        None \<Rightarrow> Some (d, None)
      | Some r \<Rightarrow>
          (if \<not> delivery_due now r then Some (d, None)
           else case admission_of r d of
             Crash \<Rightarrow> None
           | Hold \<Rightarrow> Some (put_delivery (r\<lparr>qd_next_attempt_at := now + secs 5\<rparr>) d, None)
           | Refuse m \<Rightarrow> Some (fail_article now m r (put_delivery (closed_row now ''cancelled'' m r) d), None)
           | Go b grp \<Rightarrow>
               (case decrypt (qb_encrypted_app_secret b) of
                  Inl e \<Rightarrow>
                    Some (fail_article now (clip 2000 e) r
                      (put_delivery (closed_row now ''failed'' (clip 2000 e) (r\<lparr>qd_attempts := qd_attempts r + 1\<rparr>)) d), None)
                | Inr secret \<Rightarrow>
                    (let r' = sending_row cfg worker now token r in
                     Some (put_delivery r' d, Some (claim_of_row r' token b secret grp))))))"

subsection \<open>Closing a delivery\<close>

definition sent_row :: "time \<Rightarrow> string option \<Rightarrow> qq_delivery \<Rightarrow> qq_delivery" where
  "sent_row now message_id r =
     r\<lparr>qd_status := ''sent'', qd_provider_message_id := message_id, qd_completed_at := Some now,
       qd_claim_token := None, qd_claimed_by := None, qd_lease_expires_at := None\<rparr>"

definition publish_article :: "time \<Rightarrow> qq_delivery \<Rightarrow> db \<Rightarrow> db" where
  "publish_article now r d =
     (let d1 = (case attempt_at (qd_article_publish_attempt_id r) d of
            None \<Rightarrow> d
          | Some a \<Rightarrow> put_attempt (a\<lparr>pa_status := ''published'', pa_error := None, pa_completed_at := Some now\<rparr>) d)
      in case row_get dr_id (the (qd_article_id r)) (drafts d1) of
           None \<Rightarrow> d1
         | Some a \<Rightarrow>
             (if dr_publish_attempt_id a = qd_article_publish_attempt_id r
              then put_draft (a\<lparr>dr_publish_status := ''published'', dr_published_at := Some now, dr_publish_error := None\<rparr>) d1
              else d1))"

definition commit_sent :: "time \<Rightarrow> time \<Rightarrow> qq_claim \<Rightarrow> string option \<Rightarrow> db \<Rightarrow> db \<times> bool" where
  "commit_sent now now' c message_id d =
     (case qd_get (qc_delivery_id c) d of
        None \<Rightarrow> (d, False)
      | Some r \<Rightarrow>
          (if qd_claim_token r \<noteq> Some (qc_claim_token c) then (d, False)
           else let d1 = put_delivery (sent_row now message_id r) d in
             (if qd_kind r = ''article'' \<and> qd_article_id r \<noteq> None \<and>
                 rowcount (\<lambda>x. qd_article_publish_attempt_id x = qd_article_publish_attempt_id r \<and>
                   qd_status x \<noteq> ''sent'') (qq_deliveries d1) = 0
              then publish_article now' r d1 else d1, True)))"

definition qq_retry_delay :: "nat \<Rightarrow> int" where
  "qq_retry_delay attempts = min 900 (10 * 2 ^ (attempts - 1))"

datatype failure_result = Superseded | RetryWait int int int time | Failed int int

definition failure_row :: "time \<Rightarrow> msg \<Rightarrow> bool \<Rightarrow> qq_delivery \<Rightarrow> qq_delivery" where
  "failure_row now message retry r =
     (let r1 = r\<lparr>qd_last_error := Some (clip 2000 message), qd_claim_token := None, qd_claimed_by := None,
                 qd_lease_expires_at := None\<rparr> in
      if retry \<and> qd_attempts r < qd_max_attempts r
      then r1\<lparr>qd_status := ''retry_wait'', qd_next_attempt_at := now + secs (qq_retry_delay (nat (qd_attempts r)))\<rparr>
      else r1\<lparr>qd_status := ''failed'', qd_completed_at := Some now\<rparr>)"

definition commit_failed :: "time \<Rightarrow> int \<Rightarrow> string \<Rightarrow> msg \<Rightarrow> bool \<Rightarrow> db \<Rightarrow> db \<times> failure_result" where
  "commit_failed now i token message retry d =
     (case qd_get i d of
        None \<Rightarrow> (d, Superseded)
      | Some r \<Rightarrow>
          (if qd_claim_token r \<noteq> Some token then (d, Superseded)
           else
             (let d1 = put_delivery (failure_row now message retry r) d; delay = qq_retry_delay (nat (qd_attempts r)) in
              if retry \<and> qd_attempts r < qd_max_attempts r
              then (d1, RetryWait (qd_attempts r) (qd_max_attempts r) delay (now + secs delay))
              else (fail_article now (clip 2000 message) r d1, Failed (qd_attempts r) (qd_max_attempts r)))))"

subsection \<open>One turn\<close>

text \<open>
  The exceptions of a send. \<open>ActionFailed\<close> is the error reply of the QQ API with its
  status code; the two named subclasses of it are separate.
\<close>

datatype send_error = NetworkError | RateLimitException | UnauthorizedException | ActionFailed int | OtherError

fun retryable :: "send_error \<Rightarrow> bool" where
  "retryable NetworkError = True"
| "retryable RateLimitException = True"
| "retryable UnauthorizedException = False"
| "retryable (ActionFailed n) = (n = 429 \<or> 500 \<le> n)"
| "retryable OtherError = False"

datatype send_reply = Delivered "string option" | SendFailed send_error msg | SendCancelled

text \<open>
  What happens around a turn, step by step: \<open>qi_now\<close> the time of a step, \<open>qi_gap\<close> what
  other processes do before it, \<open>qi_redis_fails\<close> whether Redis answers. \<open>qi_send\<close> is the
  answer to a message, \<open>qi_commit_error\<close> a failure to store its success, \<open>qi_clock\<close> the text of
  \<open>time.time()\<close>. The gate is tried at the times of \<open>qi_tries\<close> until the worker stops.
\<close>

type_synonym qq_world = "db \<times> redis"

record qq_io =
  qi_now :: "nat \<Rightarrow> time"
  qi_gap :: "nat \<Rightarrow> qq_world \<Rightarrow> qq_world"
  qi_redis_fails :: "nat \<Rightarrow> bool"
  qi_tries :: "(time \<times> bool \<times> (qq_world \<Rightarrow> qq_world)) list"
  qi_gate_token :: string
  qi_token :: string
  qi_clock :: "time \<Rightarrow> string"
  qi_read_clock :: "string \<Rightarrow> time option"
  qi_send :: "qq_claim \<Rightarrow> send_reply"
  qi_commit_error :: "msg option"

record qq_env =
  qe_cfg :: qq_worker_cfg
  qe_worker :: string
  qe_decrypt :: "string \<Rightarrow> msg + string"

definition qq_send_gate :: string where
  "qq_send_gate = ''xsentinel:qq:send-gate''"

definition qq_last_sent_at :: string where
  "qq_last_sent_at = ''xsentinel:qq:last-sent-at''"

definition qq_lock_key :: "int \<Rightarrow> string" where
  "qq_lock_key i = ''xsentinel:qq:lock:'' @ show_int i"

definition turn_failed :: "qq_io \<Rightarrow> int \<Rightarrow> send_error \<Rightarrow> msg \<Rightarrow> qq_world \<Rightarrow> qq_world" where
  "turn_failed io i e m w =
     (let (d, s) = qi_gap io 4 w in (fst (commit_failed (qi_now io 4) i (qi_token io) m (retryable e) d), s))"

text \<open>The body of \<open>_process_delivery_locked\<close>; the list holds the messages handed to the QQ API.\<close>

definition send_claimed :: "qq_io \<Rightarrow> qq_claim \<Rightarrow> qq_world \<Rightarrow> qq_world \<times> bool \<times> qq_claim list" where
  "send_claimed io c w =
     (let (d, s) = qi_gap io 2 w; i = qc_delivery_id c in
      if qi_redis_fails io 2 then (turn_failed io i OtherError (Text ''redis'') (d, s), False, [])
      else
        (let s1 = redis_set (qi_now io 2) qq_last_sent_at (qi_clock io (qi_now io 2)) 3600 s;
             (d2, s2) = qi_gap io 3 (d, s1) in
         case qi_send io c of
           SendCancelled \<Rightarrow> ((d2, s2), False, [c])
         | SendFailed e m \<Rightarrow> (turn_failed io i e m (d2, s2), False, [c])
         | Delivered message_id \<Rightarrow>
             (case qi_commit_error io of
                Some m \<Rightarrow> (turn_failed io i OtherError m (d2, s2), False, [c])
              | None \<Rightarrow>
                  (case commit_sent (qi_now io 3) (qi_now io 8) c message_id d2 of
                     (d3, applied) \<Rightarrow> ((d3, s2), applied, [c])))))"

definition process_locked :: "qq_env \<Rightarrow> qq_io \<Rightarrow> int \<Rightarrow> qq_world \<Rightarrow> qq_world \<times> bool \<times> qq_claim list" where
  "process_locked env io i w =
     (let (d, s) = qi_gap io 0 w in
      if qi_redis_fails io 0 then ((d, s), False, [])
      else case redis_set_nx (qi_now io 0) (qq_lock_key i) (qi_token io) (qq_worker_lock_ttl_seconds (qe_cfg env)) s of
        None \<Rightarrow> ((d, s), False, [])
      | Some s1 \<Rightarrow>
          (let (d1, s2) = qi_gap io 1 (d, s1);
               (w', applied, sends) =
                 (case claim_delivery (qe_cfg env) (qe_decrypt env) (qe_worker env) (qi_now io 1) i (qi_token io) d1 of
                    None \<Rightarrow> (turn_failed io i OtherError (Text ''claim'') (d1, s2), False, [])
                  | Some (d2, None) \<Rightarrow> ((d2, s2), False, [])
                  | Some (d2, Some c) \<Rightarrow> send_claimed io c (d2, s2));
               (d3, s3) = qi_gap io 5 w' in
           ((d3, if qi_redis_fails io 5 then s3
                 else case release_lock (qi_now io 5) (qq_lock_key i) (qi_token io) s3 of None \<Rightarrow> s3 | Some s4 \<Rightarrow> s4),
            applied, sends)))"

definition gate_ttl :: "qq_worker_cfg \<Rightarrow> int" where
  "gate_ttl cfg = max 30 (trunc_seconds (qq_worker_send_interval cfg) + 30)"

fun acquire_send_gate :: "string \<Rightarrow> int \<Rightarrow> (time \<times> bool \<times> (qq_world \<Rightarrow> qq_world)) list \<Rightarrow> qq_world \<Rightarrow>
    qq_world \<times> bool" where
  "acquire_send_gate token ttl [] w = (w, False)"
| "acquire_send_gate token ttl ((now, fails, others) # tries) w =
     (let (d, s) = others w in
      if fails then acquire_send_gate token ttl tries (d, s)
      else case redis_set_nx now qq_send_gate token ttl s of
        Some s' \<Rightarrow> ((d, s'), True)
      | None \<Rightarrow> acquire_send_gate token ttl tries (d, s))"

text \<open>The pause of \<open>_wait_for_send_interval\<close> after a look at the last send.\<close>

definition send_wait :: "qq_worker_cfg \<Rightarrow> (string \<Rightarrow> time option) \<Rightarrow> time \<Rightarrow> redis \<Rightarrow> time" where
  "send_wait cfg read now s =
     (if qq_worker_send_interval cfg \<le> 0 then 0
      else case redis_get now qq_last_sent_at s of
        None \<Rightarrow> 0
      | Some v \<Rightarrow>
          (if v = [] then 0
           else case read v of None \<Rightarrow> 0 | Some t \<Rightarrow> max 0 (qq_worker_send_interval cfg - (now - t))))"

text \<open>
  \<open>process_delivery\<close>. The steps of the turn proper come after the pause, which the model
  of the turn leaves to the times of \<open>qi_now\<close>; the gate is looked at in step 6 and
  released in step 7.
\<close>

definition process_delivery :: "qq_env \<Rightarrow> qq_io \<Rightarrow> int \<Rightarrow> qq_world \<Rightarrow> qq_world \<times> bool \<times> qq_claim list" where
  "process_delivery env io i w =
     (case acquire_send_gate (qi_gate_token io) (gate_ttl (qe_cfg env)) (qi_tries io) w of
        (w1, False) \<Rightarrow> (w1, False, [])
      | (w1, True) \<Rightarrow>
          (let w2 = qi_gap io 6 w1;
               (w3, applied, sends) =
                 (if 0 < qq_worker_send_interval (qe_cfg env) \<and> qi_redis_fails io 6 then (w2, False, [])
                  else process_locked env io i w2);
               (d, s) = qi_gap io 7 w3 in
           ((d, if qi_redis_fails io 7 then s
                else case release_lock (qi_now io 7) qq_send_gate (qi_gate_token io) s of None \<Rightarrow> s | Some s' \<Rightarrow> s'),
            applied, sends)))"

subsection \<open>One scan\<close>

definition due_deliveries :: "qq_worker_cfg \<Rightarrow> time \<Rightarrow> db \<Rightarrow> int list" where
  "due_deliveries cfg now d =
     map qd_id (row_select (delivery_due now) (\<lambda>r. (qd_next_attempt_at r, qd_id r)) (qq_worker_batch_size cfg) (qq_deliveries d))"

text \<open>Ids from the Redis queue first (\<open>None\<close>: it could not be read), each id once.\<close>

definition pick_deliveries :: "qq_worker_cfg \<Rightarrow> time \<Rightarrow> int list option \<Rightarrow> db \<Rightarrow> int list" where
  "pick_deliveries cfg now queued d =
     take (qq_worker_batch_size cfg)
       (rev (remdups (rev ((case queued of None \<Rightarrow> [] | Some ids \<Rightarrow> ids) @ due_deliveries cfg now d))))"

text \<open>The tasks of a scan take the send gate one after the other, in the order of the list.\<close>

fun process_all :: "qq_env \<Rightarrow> (int \<times> qq_io) list \<Rightarrow> qq_world \<Rightarrow> qq_world \<times> qq_claim list" where
  "process_all env [] w = (w, [])"
| "process_all env ((i, io) # ts) w =
     (case process_delivery env io i w of
        (w1, applied, sends) \<Rightarrow> (case process_all env ts w1 of (w2, later) \<Rightarrow> (w2, sends @ later)))"

text \<open>A scan: the tasks first; an exception there ends it.\<close>

definition qq_run_once :: "(string \<Rightarrow> int option) \<Rightarrow> zone \<Rightarrow> (time \<Rightarrow> string) \<Rightarrow> qq_env \<Rightarrow> time \<Rightarrow> int list option \<Rightarrow>
    (int \<Rightarrow> qq_io) \<Rightarrow> qq_world \<Rightarrow> qq_world \<times> qq_claim list" where
  "qq_run_once read_int z fmt env now queued ios w =
     (case schedule_tasks read_int z fmt (qe_cfg env) now (fst w) of
        None \<Rightarrow> (w, [])
      | Some d \<Rightarrow>
          process_all env (map (\<lambda>i. (i, ios i)) (pick_deliveries (qe_cfg env) now queued d)) (d, snd w))"

subsection \<open>Leases and retries of a delivery\<close>

text \<open>What claiming and closing do to the row.\<close>

datatype closing = Sent time "string option" | Unsent time msg bool

definition qd_claim :: "qq_worker_cfg \<times> string \<times> time \<Rightarrow> string \<Rightarrow> qq_delivery \<Rightarrow> qq_delivery option" where
  "qd_claim x token r =
     (case x of (cfg, worker, now) \<Rightarrow>
       if delivery_due now r then Some (sending_row cfg worker now token r) else None)"

fun qd_close :: "closing \<Rightarrow> string \<Rightarrow> qq_delivery \<Rightarrow> qq_delivery option" where
  "qd_close (Sent now m) token r = (if qd_claim_token r = Some token then Some (sent_row now m r) else None)"
| "qd_close (Unsent now m retry) token r =
     (if qd_claim_token r = Some token then Some (failure_row now m retry r) else None)"

lemma row_tokens [simp]:
  "qd_claim_token (sending_row cfg worker now token r) = Some token" "qd_claim_token (sent_row now m r) = None"
  "qd_claim_token (failure_row now msg retry r) = None" "qd_claim_token (closed_row now st msg r) = None"
  by (simp_all add: sending_row_def sent_row_def failure_row_def closed_row_def Let_def)

interpretation delivery: fenced_lease qd_claim_token qd_claim qd_close
proof
  show "qd_claim x token r = Some r' \<Longrightarrow> qd_claim_token r' = Some token" for x token r r'
    by (auto simp: qd_claim_def split: prod.splits if_splits)
  show "qd_close x token r = Some r' \<Longrightarrow> qd_claim_token r = Some token" for x token r r'
    by (cases x) (auto split: if_splits)
  show "qd_close x token r = Some r' \<Longrightarrow> qd_claim_token r' = None" for x token r r'
    by (cases x) (auto split: if_splits)
qed

interpretation delivery_retry: retry_delay qq_retry_delay 900
proof
  show "0 < qq_retry_delay n" for n by (simp add: qq_retry_delay_def)
  show "qq_retry_delay m \<le> qq_retry_delay n" if "m \<le> n" for m n
  proof -
    have "(2::int) ^ (m - 1) \<le> 2 ^ (n - 1)" using that by (intro power_increasing) auto
    then show ?thesis unfolding qq_retry_delay_def by (intro min.mono) auto
  qed
  show "qq_retry_delay n \<le> 900" for n by (simp add: qq_retry_delay_def)
qed

subsection \<open>Effects of the transactions\<close>

lemma put_delivery_rows [simp]: "qq_deliveries (put_delivery r d) = row_put qd_id r (qq_deliveries d)"
  by (simp add: put_delivery_def)

lemma article_keeps_deliveries [simp]:
  "qq_deliveries (fail_article now m r d) = qq_deliveries d" "serial (fail_article now m r d) = serial d"
  "qq_deliveries (publish_article now r d) = qq_deliveries d" "serial (publish_article now r d) = serial d"
  "serial (put_delivery r d) = serial d"
  by (auto simp: fail_article_def publish_article_def put_attempt_def put_draft_def put_delivery_def Let_def
      split: option.splits)

definition same_part :: "qq_delivery \<Rightarrow> qq_delivery \<Rightarrow> bool" where
  "same_part r r' \<longleftrightarrow> qd_id r' = qd_id r \<and> qd_kind r' = qd_kind r \<and> qd_group_openid r' = qd_group_openid r \<and>
     qd_article_publish_attempt_id r' = qd_article_publish_attempt_id r \<and> qd_sequence r' = qd_sequence r"

definition settled :: "qq_delivery \<Rightarrow> bool" where
  "settled r \<longleftrightarrow> qd_status r \<in> {''sent'', ''failed'', ''cancelled''}"

lemma same_part_rows:
  "same_part r (sending_row cfg worker now token r)" "same_part r (sent_row now m r)"
  "same_part r (failure_row now msg retry r)" "same_part r (closed_row now st msg r)"
  "same_part r (closed_row now st msg (r\<lparr>qd_attempts := n\<rparr>))" "same_part r (r\<lparr>qd_next_attempt_at := t\<rparr>)"
  by (simp_all add: same_part_def sending_row_def sent_row_def failure_row_def closed_row_def Let_def)

lemma claim_rows:
  assumes "claim_delivery cfg decrypt worker now i token d = Some (d', c)"
  obtains (unchanged) "d' = d" "c = None"
  | (held) r where "qd_get i d = Some r" "delivery_due now r" "c = None" "qd_kind r = ''article''"
      "d' = put_delivery (r\<lparr>qd_next_attempt_at := now + secs 5\<rparr>) d"
  | (closed) r r' where "qd_get i d = Some r" "delivery_due now r" "c = None" "same_part r r'" "settled r'"
      "qd_status r' \<noteq> ''sent''" "qd_claim_token r' = None" "qq_deliveries d' = row_put qd_id r' (qq_deliveries d)"
      "serial d' = serial d"
  | (claimed) r b grp secret where "qd_get i d = Some r" "delivery_due now r"
      "c = Some (claim_of_row (sending_row cfg worker now token r) token b secret grp)"
      "d' = put_delivery (sending_row cfg worker now token r) d" "qd_kind r = ''article'' \<longrightarrow> blocking_part r d = None"
proof (cases "qd_get i d")
  case None
  with assms unchanged show thesis by (simp add: claim_delivery_def)
next
  case (Some r)
  show thesis
  proof (cases "delivery_due now r")
    case False
    with Some assms unchanged show thesis by (simp add: claim_delivery_def)
  next
    case True
    have refused: thesis if "c = None" "d' = fail_article now m r (put_delivery r' d)" "same_part r r'" "settled r'"
        "qd_status r' \<noteq> ''sent''" "qd_claim_token r' = None" for m r'
      using that by (intro closed[OF Some True, of r']) simp_all
    show thesis
    proof (cases "admission_of r d")
      case (Go b grp)
      then have block: "qd_kind r = ''article'' \<longrightarrow> blocking_part r d = None"
        by (auto simp: admission_of_def group_kinds_def split: sum.splits option.splits if_splits prod.splits)
      show thesis
      proof (cases "decrypt (qb_encrypted_app_secret b)")
        case (Inl e)
        let ?r = "closed_row now ''failed'' (clip 2000 e) (r\<lparr>qd_attempts := qd_attempts r + 1\<rparr>)"
        have "c = None" "d' = fail_article now (clip 2000 e) r (put_delivery ?r d)"
          using assms Some True Go Inl by (simp_all add: claim_delivery_def)
        then show thesis
          by (rule refused) (simp_all add: same_part_rows, simp_all add: settled_def closed_row_def)
      next
        case (Inr secret)
        with assms Some True Go block show thesis
          by (intro claimed[of r b secret grp]) (simp_all add: claim_delivery_def Let_def)
      qed
    next
      case Hold
      then have "qd_kind r = ''article''"
        by (auto simp: admission_of_def group_kinds_def split: sum.splits option.splits if_splits prod.splits)
      with assms Some True Hold show thesis by (intro held[of r]) (simp_all add: claim_delivery_def)
    next
      case (Refuse m)
      have "c = None" "d' = fail_article now m r (put_delivery (closed_row now ''cancelled'' m r) d)"
        using assms Some True Refuse by (simp_all add: claim_delivery_def)
      then show thesis
        by (rule refused) (simp_all add: same_part_rows, simp_all add: settled_def closed_row_def)
    next
      case Crash
      with assms Some True show thesis by (simp add: claim_delivery_def)
    qed
  qed
qed

lemma commit_sent_rows:
  assumes "commit_sent now now' c m d = (d', applied)"
  obtains (refused) "d' = d" "\<not> applied"
  | (stored) r where "qd_get (qc_delivery_id c) d = Some r" "qd_claim_token r = Some (qc_claim_token c)" "applied"
      "qq_deliveries d' = row_put qd_id (sent_row now m r) (qq_deliveries d)" "serial d' = serial d"
proof (cases "\<exists>r. qd_get (qc_delivery_id c) d = Some r \<and> qd_claim_token r = Some (qc_claim_token c)")
  case True
  then obtain r where r: "qd_get (qc_delivery_id c) d = Some r" "qd_claim_token r = Some (qc_claim_token c)" by blast
  with assms show thesis by (intro stored[OF r]) (auto simp: commit_sent_def Let_def split: if_splits)
next
  case False
  with assms refused show thesis by (auto simp: commit_sent_def split: option.splits if_splits)
qed

lemma commit_failed_rows:
  assumes "commit_failed now i token m retry d = (d', res)"
  obtains (refused) "d' = d" "res = Superseded"
  | (stored) r where "qd_get i d = Some r" "qd_claim_token r = Some token"
      "qq_deliveries d' = row_put qd_id (failure_row now m retry r) (qq_deliveries d)" "serial d' = serial d"
proof (cases "\<exists>r. qd_get i d = Some r \<and> qd_claim_token r = Some token")
  case True
  then obtain r where r: "qd_get i d = Some r" "qd_claim_token r = Some token" by blast
  with assms show thesis by (intro stored[OF r]) (auto simp: commit_failed_def Let_def split: if_splits)
next
  case False
  with assms refused show thesis by (auto simp: commit_failed_def split: option.splits if_splits)
qed

subsection \<open>Transactions of any number of workers\<close>

inductive qq_step :: "db \<Rightarrow> db \<Rightarrow> bool" where
  claim: "claim_delivery cfg decrypt worker now i token d = Some (d', c) \<Longrightarrow> qq_step d d'"
| sent: "commit_sent now now' c m d = (d', applied) \<Longrightarrow> qq_step d d'"
| failed: "commit_failed now i token msg retry d = (d', res) \<Longrightarrow> qq_step d d'"
| schedule: "schedule_tasks read_int z fmt cfg now d = Some d' \<Longrightarrow> qq_step d d'"

inductive qq_steps :: "db \<Rightarrow> db \<Rightarrow> bool" where
  none: "qq_steps d d"
| more: "qq_steps d d1 \<Longrightarrow> qq_step d1 d2 \<Longrightarrow> qq_steps d d2"

definition qq_ok :: "db \<Rightarrow> bool" where
  "qq_ok d \<longleftrightarrow> distinct (map qd_id (qq_deliveries d)) \<and> (\<forall>r \<in> set (qq_deliveries d). qd_id r < serial d) \<and>
     (\<forall>r \<in> set (qq_deliveries d). (qd_claim_token r \<noteq> None) = (qd_status r = ''sending'')) \<and>
     (\<forall>r \<in> set (qq_deliveries d). qd_kind r = ''article'' \<and> qd_status r \<in> {''sending'', ''sent''} \<longrightarrow>
        (\<forall>x \<in> set (qq_deliveries d). earlier_part r x \<longrightarrow> qd_status x = ''sent''))"

lemma earlier_part_same: "same_part r r' \<Longrightarrow> earlier_part r' x = earlier_part r x \<and> earlier_part x r' = earlier_part x r"
  by (simp add: same_part_def earlier_part_def)

lemma earlier_part_irrefl [simp]: "\<not> earlier_part r r"
  by (auto simp: earlier_part_def split: option.splits)

lemma qd_get_mem: "qd_get i d = Some r \<Longrightarrow> r \<in> set (qq_deliveries d) \<and> qd_id r = i"
  unfolding qd_get_def by (rule row_get_Some)

lemma qq_ok_put:
  assumes ok: "qq_ok d" and r: "qd_get i d = Some r" and same: "same_part r r'" and unsent: "qd_status r \<noteq> ''sent''"
    and token: "(qd_claim_token r' \<noteq> None) = (qd_status r' = ''sending'')"
    and order: "qd_kind r = ''article'' \<Longrightarrow> qd_status r' \<in> {''sending'', ''sent''} \<Longrightarrow>
      qd_status r = ''sending'' \<or> (\<forall>x \<in> set (qq_deliveries d). earlier_part r x \<longrightarrow> qd_status x = ''sent'')"
    and d': "qq_deliveries d' = row_put qd_id r' (qq_deliveries d)" "serial d' = serial d"
  shows "qq_ok d'"
proof -
  have rin: "r \<in> set (qq_deliveries d)" "qd_id r' = qd_id r"
    using qd_get_mem[OF r] same by (simp_all add: same_part_def)
  have old: "x = r' \<or> x \<in> set (qq_deliveries d) \<and> qd_id x \<noteq> qd_id r" if "x \<in> set (qq_deliveries d')" for x
    using set_row_put_other[of x qd_id r' "qq_deliveries d"] that rin(2) d'(1) by simp
  note parts = ok[unfolded qq_ok_def]
  have distinct: "distinct (map qd_id (qq_deliveries d'))" using parts d'(1) by simp
  have ids: "\<forall>x \<in> set (qq_deliveries d'). qd_id x < serial d'"
    using parts[THEN conjunct2, THEN conjunct1] rin old d'(2) by metis
  have tokens: "\<forall>x \<in> set (qq_deliveries d'). (qd_claim_token x \<noteq> None) = (qd_status x = ''sending'')"
    using parts[THEN conjunct2, THEN conjunct2, THEN conjunct1] token old by metis
  have before: "\<forall>y \<in> set (qq_deliveries d). earlier_part x y \<longrightarrow> qd_status y = ''sent''"
    if "x \<in> set (qq_deliveries d)" "qd_kind x = ''article''" "qd_status x \<in> {''sending'', ''sent''}" for x
    using ok that unfolding qq_ok_def by blast
  have "qd_status y = ''sent''"
    if x: "x \<in> set (qq_deliveries d')" "qd_kind x = ''article''" "qd_status x \<in> {''sending'', ''sent''}"
      and y: "y \<in> set (qq_deliveries d')" "earlier_part x y" for x y
  proof (cases "x = r'")
    case True
    then have "earlier_part r y" "y \<noteq> r'" using y(2) earlier_part_same[OF same] by auto
    with old y(1) have y': "y \<in> set (qq_deliveries d)" by blast
    have kind: "qd_kind r = ''article''" using x(2) True same by (simp add: same_part_def)
    from order[OF kind] x(3) True consider "qd_status r = ''sending''"
      | "\<forall>x \<in> set (qq_deliveries d). earlier_part r x \<longrightarrow> qd_status x = ''sent''" by blast
    then show ?thesis
    proof cases
      case 1
      then show ?thesis using before[OF rin(1) kind] y' \<open>earlier_part r y\<close> by simp
    next
      case 2
      then show ?thesis using y' \<open>earlier_part r y\<close> by blast
    qed
  next
    case False
    with old x(1) have x': "x \<in> set (qq_deliveries d)" by blast
    show ?thesis
    proof (cases "y = r'")
      case True
      then have "earlier_part x r" using y(2) earlier_part_same[OF same] by auto
      with before[OF x' x(2,3)] rin(1) unsent show ?thesis by blast
    next
      case False
      with old y(1) have "y \<in> set (qq_deliveries d)" by blast
      with before[OF x' x(2,3)] y(2) show ?thesis by blast
    qed
  qed
  with distinct ids tokens show ?thesis unfolding qq_ok_def by blast
qed

lemma blocking_part_None:
  "blocking_part r d = None \<Longrightarrow> x \<in> set (qq_deliveries d) \<Longrightarrow> earlier_part r x \<Longrightarrow> qd_status x = ''sent''"
  by (auto simp: blocking_part_def row_select_empty split: list.splits)

lemma add_deliveries_rows:
  "qq_deliveries (fst (add_deliveries rows d)) =
     qq_deliveries d @ map (\<lambda>(k, r). r\<lparr>qd_id := serial d + int k\<rparr>) (enumerate 0 rows)"
  "serial (fst (add_deliveries rows d)) = serial d + int (length rows)"
  by (simp_all add: add_deliveries_def Let_def)

lemma unsequenced: "qd_sequence x = None \<Longrightarrow> \<not> earlier_part r x"
  by (simp add: earlier_part_def)

text \<open>New messages are no earlier parts of messages that exist.\<close>

lemma qq_ok_add:
  assumes ok: "qq_ok d" and rows: "\<forall>x \<in> set rows. qd_claim_token x = None \<and> qd_status x = ''queued'' \<and>
      (\<forall>r \<in> set (qq_deliveries d). \<not> earlier_part r x)"
    and d': "qq_deliveries d' = qq_deliveries (fst (add_deliveries rows d))" "serial d' = serial (fst (add_deliveries rows d))"
  shows "qq_ok d'"
proof -
  define new where "new = map (\<lambda>(k, r). r\<lparr>qd_id := serial d + int k\<rparr>) (enumerate 0 rows)"
  have rows': "qq_deliveries d' = qq_deliveries d @ new" "serial d' = serial d + int (length rows)"
    using d' by (simp_all add: add_deliveries_rows new_def)
  have same: "earlier_part r (x\<lparr>qd_id := i\<rparr>) = earlier_part r x" for r x i by (simp add: earlier_part_def)
  have new: "qd_claim_token x = None \<and> qd_status x = ''queued'' \<and> serial d \<le> qd_id x \<and> qd_id x < serial d' \<and>
      (\<forall>r \<in> set (qq_deliveries d). \<not> earlier_part r x)" if x: "x \<in> set new" for x
  proof -
    obtain k y where "k < length rows" "y = rows ! k" "x = y\<lparr>qd_id := serial d + int k\<rparr>"
      using x by (auto simp: new_def in_set_enumerate_eq)
    then show ?thesis using rows nth_mem[of k rows] by (simp add: rows' same)
  qed
  have "map qd_id new = map (\<lambda>k. serial d + int k) [0..<length rows]"
    by (rule nth_equalityI) (auto simp: new_def nth_enumerate_eq)
  then have "distinct (map qd_id new)" by (simp add: distinct_map inj_on_def)
  moreover have bound: "\<forall>r \<in> set (qq_deliveries d). qd_id r < serial d"
    and "distinct (map qd_id (qq_deliveries d))" using ok by (simp_all add: qq_ok_def)
  moreover have "qd_id x \<noteq> qd_id r" if "x \<in> set (qq_deliveries d)" "r \<in> set new" for x r
    using bound that(1) new[OF that(2)] by force
  ultimately have "distinct (map qd_id (qq_deliveries d'))"
    unfolding rows'(1) by (auto simp del: map_map)
  moreover have "\<forall>r \<in> set (qq_deliveries d'). qd_id r < serial d'"
    using bound new unfolding rows'(1) set_append ball_Un by (auto simp: rows'(2))
  moreover have "\<forall>r \<in> set (qq_deliveries d'). (qd_claim_token r \<noteq> None) = (qd_status r = ''sending'')"
    using ok[unfolded qq_ok_def, THEN conjunct2, THEN conjunct2, THEN conjunct1] new
    unfolding rows'(1) set_append ball_Un by simp
  moreover have "qd_status x = ''sent''"
    if "r \<in> set (qq_deliveries d')" "qd_kind r = ''article''" "qd_status r \<in> {''sending'', ''sent''}"
      "x \<in> set (qq_deliveries d')" "earlier_part r x" for r x
  proof -
    have r: "r \<in> set (qq_deliveries d)" using that(1,3) new[of r] unfolding rows'(1) by auto
    moreover have "x \<in> set (qq_deliveries d)" using that(4,5) new[of x] r unfolding rows'(1) by auto
    ultimately show ?thesis using ok that(2,3,5) unfolding qq_ok_def by blast
  qed
  ultimately show ?thesis unfolding qq_ok_def by blast
qed

lemma task_rows_plain:
  "r \<in> set (task_rows fmt now m d t) \<Longrightarrow> qd_kind r = ''scheduled'' \<and> qd_sequence r = None \<and>
     qd_claim_token r = None \<and> qd_status r = ''queued''"
  by (auto simp: task_rows_def scheduled_delivery_def)

lemma qq_ok_schedule:
  "schedule_loop read_int z fmt now m ts d = Some d' \<Longrightarrow> qq_ok d \<Longrightarrow> qq_ok d'"
proof (induction ts arbitrary: d)
  case Nil
  then show ?case by simp
next
  case (Cons t ts)
  from Cons.prems(1) obtain nx where
    "schedule_loop read_int z fmt now m ts ((fst (add_deliveries (task_rows fmt now m d t) d))
       \<lparr>qq_tasks := row_put qk_id (task_ran now nx t) (qq_tasks d)\<rparr>) = Some d'"
    by (auto simp: Let_def split: if_splits option.splits)
  then show ?case
    by (rule Cons.IH) (rule qq_ok_add[OF Cons.prems(2), of "task_rows fmt now m d t"], use task_rows_plain unsequenced in blast, simp_all)
qed

lemma delivery_due_unsettled: "delivery_due now r \<Longrightarrow> \<not> settled r"
  by (auto simp: delivery_due_def settled_def)

lemma qq_ok_step: "qq_step d d' \<Longrightarrow> qq_ok d \<Longrightarrow> qq_ok d'"
proof (induction rule: qq_step.induct)
  case (claim cfg decrypt worker now i token d d' c)
  from claim(1) show ?case
  proof (cases rule: claim_rows)
    case unchanged
    with claim show ?thesis by simp
  next
    case (held r)
    have "(qd_claim_token r \<noteq> None) = (qd_status r = ''sending'')"
      using claim(2) qd_get_mem[OF held(1)] unfolding qq_ok_def by blast
    then show ?thesis
      using held delivery_due_unsettled[of now r]
      by (intro qq_ok_put[OF claim(2) held(1) same_part_rows(6), of "now + secs 5"])
        (simp_all add: settled_def, blast?)
  next
    case (closed r r')
    then show ?thesis
      using delivery_due_unsettled[of now r]
      by (intro qq_ok_put[OF claim(2) closed(1,4)]) (auto simp: settled_def)
  next
    case (claimed r b grp secret)
    then show ?thesis
      using delivery_due_unsettled[of now r] blocking_part_None[of r d]
      by (intro qq_ok_put[OF claim(2) claimed(1) same_part_rows(1)])
        (auto simp: settled_def sending_row_def)
  qed
next
  case (sent now now' c m d d' applied)
  from sent(1) show ?case
  proof (cases rule: commit_sent_rows)
    case refused
    with sent show ?thesis by simp
  next
    case (stored r)
    have "qd_status r = ''sending''" using stored(2) sent(2) qd_get_mem[OF stored(1)] by (auto simp: qq_ok_def)
    then show ?thesis
      by (intro qq_ok_put[OF sent(2) stored(1) same_part_rows(2) _ _ _ stored(4,5)]) (simp_all add: sent_row_def)
  qed
next
  case (failed now i token msg retry d d' res)
  from failed(1) show ?case
  proof (cases rule: commit_failed_rows)
    case refused
    with failed show ?thesis by simp
  next
    case (stored r)
    have "qd_status r = ''sending''" using stored(2) failed(2) qd_get_mem[OF stored(1)] by (auto simp: qq_ok_def)
    then show ?thesis
      by (intro qq_ok_put[OF failed(2) stored(1) same_part_rows(3) _ _ _ stored(3,4)])
        (auto simp: failure_row_def Let_def)
  qed
next
  case (schedule read_int z fmt cfg now d d')
  then show ?case by (auto simp: schedule_tasks_def intro: qq_ok_schedule)
qed

lemma qq_ok_steps: "qq_steps d d' \<Longrightarrow> qq_ok d \<Longrightarrow> qq_ok d'"
  by (induction rule: qq_steps.induct) (auto intro: qq_ok_step)

text \<open>
  Whatever the workers do, the parts of an article reach a group in their order.
  A part that is being sent or has been sent has all earlier parts of the same
  publication for the same group sent before it.
\<close>

theorem article_parts_in_order:
  assumes "qq_ok d" and "qq_steps d d'" and "r \<in> set (qq_deliveries d')" and "qd_kind r = ''article''"
    and "qd_status r \<in> {''sending'', ''sent''}" and "x \<in> set (qq_deliveries d')" and "earlier_part r x"
  shows "qd_status x = ''sent''"
  using qq_ok_steps[OF assms(2,1)] assms(3-7) unfolding qq_ok_def by blast

definition sample_part :: "int \<Rightarrow> qq_delivery" where
  "sample_part k = \<lparr>qd_id = 50 + k, qd_task_id = None, qd_target_id = None, qd_source_tweet_id = None,
     qd_article_id = Some 4, qd_article_publish_attempt_id = Some ''a1'', qd_sequence = Some k, qd_media_path = None,
     qd_kind = ''article'', qd_idempotency_key = show_int k, qd_bot_name = ''bot'', qd_bot_app_id = ''app'',
     qd_bot_version = 1, qd_target_name = ''g'', qd_group_openid = ''g'', qd_message_body = Text ''hello'',
     qd_status = ''queued'', qd_attempts = 0, qd_max_attempts = 3, qd_next_attempt_at = 0, qd_lease_expires_at = None,
     qd_claim_token = None, qd_claimed_by = None, qd_provider_message_id = None, qd_last_error = None,
     qd_started_at = None, qd_completed_at = None, qd_created_at = 0, qd_updated_at = 0\<rparr>"

definition sent_part :: "int \<Rightarrow> qq_delivery" where
  "sent_part k = sent_row 5 None (sample_part k)"

definition sample_claim :: "int \<Rightarrow> qq_claim" where
  "sample_claim k = claim_of_row (sample_part k) ''t'' sample_bot ''secret'' ''g''"

definition sample_article_db :: db where
  "sample_article_db = empty_db\<lparr>drafts := [sample_draft\<lparr>dr_publish_attempt_id := Some ''a1''\<rparr>],
     qq_bots := [sample_bot], qq_deliveries := [sent_part 0, sample_part 1\<lparr>qd_status := ''sending'', qd_claim_token := Some ''t''\<rparr>],
     serial := 60\<rparr>"

lemma sample_article_ok: "qq_ok sample_article_db"
  by (simp add: qq_ok_def sample_article_db_def sent_part_def sent_row_def sample_part_def earlier_part_def)

text \<open>The second part is stored as sent; the first one was.\<close>

theorem article_parts_in_order_witness:
  "qq_steps sample_article_db (fst (commit_sent 9 9 (sample_claim 1) None sample_article_db)) \<and>
    qd_status (sent_part 0) = ''sent''"
proof
  let ?d = "fst (commit_sent 9 9 (sample_claim 1) None sample_article_db)"
  have "qq_step sample_article_db ?d" by (rule qq_step.sent[where applied = "snd (commit_sent 9 9 (sample_claim 1) None sample_article_db)"]) simp
  then show steps: "qq_steps sample_article_db ?d" by (rule qq_steps.more[OF qq_steps.none])
  let ?r = "sent_row 9 None (sample_part 1\<lparr>qd_status := ''sending'', qd_claim_token := Some ''t''\<rparr>)"
  have rows: "qq_deliveries ?d = [sent_part 0, ?r]"
    by (simp add: commit_sent_def qd_get_def row_get_def sample_article_db_def sample_claim_def claim_of_row_def
        sent_part_def sent_row_def sample_part_def row_put_def row_update_def Let_def)
  show "qd_status (sent_part 0) = ''sent''"
    by (rule article_parts_in_order[OF sample_article_ok steps, of ?r])
      (simp_all add: rows, simp_all add: sent_row_def sample_part_def sent_part_def earlier_part_def)
qed

lemma settled_step:
  assumes "qq_step d d'" and "qq_ok d" and "qd_get i d = Some r" and "settled r"
  shows "qd_get i d' = Some r"
proof -
  have token: "(qd_claim_token x \<noteq> None) = (qd_status x = ''sending'')" if "qd_get k d = Some x" for k x
    using assms(2) qd_get_mem[OF that] unfolding qq_ok_def by blast
  have other: ?thesis if "qd_get k d = Some x" "\<not> settled x" "qq_deliveries d' = row_put qd_id x' (qq_deliveries d)"
      "qd_id x' = qd_id x" for k x x'
  proof -
    have "k \<noteq> i" using that(1,2) assms(3,4) by auto
    moreover have "qd_id x' = k" using qd_get_mem[OF that(1)] that(4) by simp
    ultimately show ?thesis using assms(3) that(3) by (simp add: qd_get_def row_get_put)
  qed
  from assms(1) show ?thesis
  proof (cases rule: qq_step.cases)
    case (claim cfg decrypt worker now j token c)
    then show ?thesis
    proof (cases rule: claim_rows)
      case unchanged
      with assms(3) show ?thesis by simp
    next
      case (held x)
      then show ?thesis using delivery_due_unsettled by (intro other[OF held(1), of "x\<lparr>qd_next_attempt_at := now + secs 5\<rparr>"]) simp_all
    next
      case (closed x x')
      then show ?thesis using delivery_due_unsettled by (intro other[OF closed(1), of x']) (auto simp: same_part_def)
    next
      case (claimed x b grp secret)
      then show ?thesis using delivery_due_unsettled by (intro other[OF claimed(1), of "sending_row cfg worker now token x"]) (auto simp: sending_row_def)
    qed
  next
    case (sent now now' c m applied)
    then show ?thesis
    proof (cases rule: commit_sent_rows)
      case (stored x)
      then show ?thesis using token[OF stored(1)] by (intro other[OF stored(1), of "sent_row now m x"]) (auto simp: settled_def sent_row_def)
    qed (use assms(3) in simp)
  next
    case (failed now j token msg retry res)
    then show ?thesis
    proof (cases rule: commit_failed_rows)
      case (stored x)
      then show ?thesis using token[OF stored(1)]
        by (intro other[OF stored(1), of "failure_row now msg retry x"]) (auto simp: settled_def failure_row_def Let_def)
    qed (use assms(3) in simp)
  next
    case (schedule read_int z fmt cfg now)
    have "\<exists>new. qq_deliveries d' = qq_deliveries d @ new"
      if "schedule_loop read_int z fmt now m ts d = Some d'" for m ts d
      using that
    proof (induction ts arbitrary: d)
      case (Cons t ts)
      then obtain d1 rows where "schedule_loop read_int z fmt now m ts d1 = Some d'"
          "qq_deliveries d1 = qq_deliveries d @ rows"
        by (auto simp: Let_def add_deliveries_rows split: if_splits option.splits)
      with Cons.IH show ?case by fastforce
    qed simp
    with schedule obtain new where "qq_deliveries d' = qq_deliveries d @ new" unfolding schedule_tasks_def by blast
    with assms(3) show ?thesis by (simp add: qd_get_def row_get_def find_append)
  qed
qed

text \<open>
  A message that was sent, given up or cancelled stays as it is. No transaction of
  a worker changes its row again, so that no late answer of another worker can replace
  the outcome and the message is never handed out for another send.
\<close>

theorem settled_delivery_final:
  assumes "qq_steps d d'" and "qq_ok d" and "qd_get i d = Some r" and "settled r"
  shows "qd_get i d' = Some r \<and>
    (\<forall>cfg decrypt worker now token d2 c. claim_delivery cfg decrypt worker now i token d' = Some (d2, c) \<longrightarrow> c = None)"
proof
  show final: "qd_get i d' = Some r"
    using assms
  proof (induction rule: qq_steps.induct)
    case (more d d1 d2)
    then show ?case using settled_step qq_ok_steps by blast
  qed
  have "\<not> delivery_due now r" for now using assms(4) delivery_due_unsettled by blast
  with final show "\<forall>cfg decrypt worker now token d2 c. claim_delivery cfg decrypt worker now i token d' = Some (d2, c) \<longrightarrow>
      c = None" by (auto simp: claim_delivery_def)
qed

theorem settled_delivery_final_witness:
  "qd_get 50 (fst (commit_sent 9 9 (sample_claim 1) None sample_article_db)) = Some (sent_part 0)"
proof -
  have "qq_step sample_article_db (fst (commit_sent 9 9 (sample_claim 1) None sample_article_db))"
    by (rule qq_step.sent[where applied = "snd (commit_sent 9 9 (sample_claim 1) None sample_article_db)"]) simp
  from settled_delivery_final[OF qq_steps.more[OF qq_steps.none this] sample_article_ok, of 50 "sent_part 0"]
  show ?thesis
    by (simp add: qd_get_def row_get_def sample_article_db_def sent_part_def sent_row_def sample_part_def settled_def)
qed

subsection \<open>Publication of an article\<close>

text \<open>
  C37: Storing the success of a part publishes the article exactly when it was the last
  one: the article and the attempt it points to become published if every message of
  the attempt has been sent, and the article is left as it is otherwise.
\<close>

theorem article_published_when_complete:
  assumes "commit_sent now now' c m d = (d', True)" and "qd_get (qc_delivery_id c) d = Some r"
    and "qd_kind r = ''article''" and "qd_article_id r = Some k" and "row_get dr_id k (drafts d) = Some a"
    and "qd_article_publish_attempt_id r = Some p" and "dr_publish_attempt_id a = Some p"
  shows "if \<forall>x \<in> set (qq_deliveries d'). qd_article_publish_attempt_id x = Some p \<longrightarrow> qd_status x = ''sent''
    then row_get dr_id k (drafts d') = Some (a\<lparr>dr_publish_status := ''published'', dr_published_at := Some now',
        dr_publish_error := None\<rparr>) \<and> (\<forall>t. pa_get p d = Some t \<longrightarrow> (\<exists>t'. pa_get p d' = Some t' \<and> pa_status t' = ''published''))
    else drafts d' = drafts d \<and> publish_attempts d' = publish_attempts d"
proof -
  let ?d1 = "put_delivery (sent_row now m r) d"
  have token: "qd_claim_token r = Some (qc_claim_token c)"
    using assms(1,2) by (auto simp: commit_sent_def split: if_splits)
  have rows: "qq_deliveries d' = qq_deliveries ?d1"
    using assms(1,2) token by (auto simp: commit_sent_def Let_def split: if_splits)
  have count: "rowcount (\<lambda>x. qd_article_publish_attempt_id x = Some p \<and> qd_status x \<noteq> ''sent'') (qq_deliveries ?d1) = 0 \<longleftrightarrow>
      (\<forall>x \<in> set (qq_deliveries d'). qd_article_publish_attempt_id x = Some p \<longrightarrow> qd_status x = ''sent'')"
    unfolding rows by (auto simp: rowcount_def filter_empty_conv)
  have d': "d' = (if rowcount (\<lambda>x. qd_article_publish_attempt_id x = Some p \<and> qd_status x \<noteq> ''sent'') (qq_deliveries ?d1) = 0
      then publish_article now' r ?d1 else ?d1)"
    using assms(1-4,6) token by (simp add: commit_sent_def Let_def)
  have id: "dr_id a = k" using row_get_Some[OF assms(5)] by simp
  show ?thesis
  proof (cases "\<forall>x \<in> set (qq_deliveries d'). qd_article_publish_attempt_id x = Some p \<longrightarrow> qd_status x = ''sent''")
    case True
    have "rowcount (\<lambda>x. qd_article_publish_attempt_id x = Some p \<and> qd_status x \<noteq> ''sent'') (qq_deliveries ?d1) = 0"
      by (rule count[THEN iffD2]) (rule True)
    then have "d' = publish_article now' r ?d1" by (subst d') (simp only: if_True simp_thms)
    moreover define d2 where "d2 = (case pa_get p d of None \<Rightarrow> ?d1
      | Some t \<Rightarrow> put_attempt (t\<lparr>pa_status := ''published'', pa_error := None, pa_completed_at := Some now'\<rparr>) ?d1)"
    moreover have "pa_get p ?d1 = pa_get p d" by (simp add: pa_get_def put_delivery_def)
    moreover have drafts: "drafts d2 = drafts d" by (simp add: d2_def put_attempt_def put_delivery_def split: option.splits)
    ultimately have final: "d' = put_draft (a\<lparr>dr_publish_status := ''published'', dr_published_at := Some now',
        dr_publish_error := None\<rparr>) d2"
      using assms(4-7) by (simp add: publish_article_def attempt_at_def)
    have attempt: "\<exists>t'. pa_get p d' = Some t' \<and> pa_status t' = ''published''" if t: "pa_get p d = Some t" for t
    proof -
      have "pa_attempt_id t = p" using row_get_Some[OF t[unfolded pa_get_def]] by simp
      with t show ?thesis
        by (simp add: final d2_def put_draft_def put_attempt_def put_delivery_def pa_get_def row_get_put_same[OF t[unfolded pa_get_def]])
    qed
    have "row_get dr_id k (drafts d') = Some (a\<lparr>dr_publish_status := ''published'', dr_published_at := Some now',
        dr_publish_error := None\<rparr>)"
      unfolding final using assms(5) id drafts by (simp add: put_draft_def row_get_put_same)
    with True attempt show ?thesis by auto
  next
    case False
    have "rowcount (\<lambda>x. qd_article_publish_attempt_id x = Some p \<and> qd_status x \<noteq> ''sent'') (qq_deliveries ?d1) \<noteq> 0"
      using False count by blast
    then have "d' = ?d1" by (subst d') (simp only: if_False)
    then have "drafts d' = drafts d \<and> publish_attempts d' = publish_attempts d" by (simp add: put_delivery_def)
    then show ?thesis by (simp only: if_not_P[OF False])
  qed
qed

theorem article_published_when_complete_witness:
  "\<exists>a. row_get dr_id 4 (drafts (fst (commit_sent 9 9 (sample_claim 1) None sample_article_db))) = Some a \<and>
    dr_publish_status a = ''published''"
proof -
  let ?r = "sample_part 1\<lparr>qd_status := ''sending'', qd_claim_token := Some ''t''\<rparr>"
  let ?d = "fst (commit_sent 9 9 (sample_claim 1) None sample_article_db)"
  have step: "commit_sent 9 9 (sample_claim 1) None sample_article_db = (?d, True)"
    and get: "qd_get (qc_delivery_id (sample_claim 1)) sample_article_db = Some ?r"
    and rows: "qq_deliveries ?d = [sent_part 0, sent_row 9 None ?r]"
    by (simp_all add: commit_sent_def qd_get_def row_get_def sample_article_db_def sample_claim_def claim_of_row_def
        sent_part_def sent_row_def sample_part_def row_put_def row_update_def Let_def)
  from article_published_when_complete[OF step get, of 4 "sample_draft\<lparr>dr_publish_attempt_id := Some ''a1''\<rparr>" "''a1''"]
  show ?thesis unfolding rows
    by (simp add: sample_part_def sent_part_def sent_row_def sample_article_db_def row_get_def sample_draft_def)
qed

subsection \<open>Sends of one delivery\<close>

text \<open>
  Attempts at one delivery, each claimed at a time, sent, and closed with an error
  before the next one: the messages handed to the QQ API.
\<close>

fun failing_sends :: "qq_worker_cfg \<Rightarrow> (string \<Rightarrow> msg + string) \<Rightarrow> string \<Rightarrow> int \<Rightarrow>
    (time \<times> string \<times> time \<times> send_error \<times> msg) list \<Rightarrow> db \<Rightarrow> db \<times> qq_claim list" where
  "failing_sends cfg decrypt worker i [] d = (d, [])"
| "failing_sends cfg decrypt worker i ((now, token, later, e, m) # ts) d =
     (case claim_delivery cfg decrypt worker now i token d of
        None \<Rightarrow> failing_sends cfg decrypt worker i ts d
      | Some (d1, None) \<Rightarrow> failing_sends cfg decrypt worker i ts d1
      | Some (d1, Some c) \<Rightarrow>
          (case failing_sends cfg decrypt worker i ts (fst (commit_failed later i token m (retryable e) d1)) of
             (d2, cs) \<Rightarrow> (d2, c # cs)))"

lemma settled_unclaimed: "qd_get i d = Some r \<Longrightarrow> settled r \<Longrightarrow> claim_delivery cfg decrypt worker now i token d = Some (d, None)"
  using delivery_due_unsettled[of now r] by (auto simp: claim_delivery_def)

lemma settled_no_sends: "qd_get i d = Some r \<Longrightarrow> settled r \<Longrightarrow> snd (failing_sends cfg decrypt worker i ts d) = []"
  by (induction ts arbitrary: d) (auto simp: settled_unclaimed)

lemma qd_get_put: "qd_get i d = Some r \<Longrightarrow> qd_id r' = i \<Longrightarrow> qq_deliveries d' = row_put qd_id r' (qq_deliveries d) \<Longrightarrow>
    qd_get i d' = Some r'"
  by (simp add: qd_get_def row_get_put_same)

text \<open>
  A delivery whose sends fail is given up: as long as every worker lives to store
  the failure, at most as many messages go out as attempts were left, whatever the
  errors and however often it is tried, and after the last one the row is closed.
\<close>

theorem failing_sends_bounded:
  assumes "qd_get i d = Some r" and "qd_status r \<in> {''queued'', ''retry_wait''}" and "qd_attempts r < qd_max_attempts r"
  shows "int (length (snd (failing_sends cfg decrypt worker i ts d))) \<le> qd_max_attempts r - qd_attempts r"
  using assms
proof (induction ts arbitrary: d r)
  case Nil
  then show ?case by simp
next
  case (Cons t ts)
  obtain now token later e m where t: "t = (now, token, later, e, m)" by (cases t)
  show ?case
  proof (cases "claim_delivery cfg decrypt worker now i token d")
    case None
    then show ?thesis using Cons.IH[OF Cons.prems] by (simp add: t)
  next
    case (Some res)
    obtain d1 c where res: "res = (d1, c)" by (cases res)
    from Some[unfolded res] show ?thesis
    proof (cases rule: claim_rows)
      case unchanged
      then show ?thesis using Cons.IH[OF Cons.prems] Some res by (simp add: t)
    next
      case (held r0)
      then have "qd_get i d1 = Some (r\<lparr>qd_next_attempt_at := now + secs 5\<rparr>)"
        using Cons.prems(1) qd_get_mem[OF Cons.prems(1)] by (intro qd_get_put[OF Cons.prems(1)]) simp_all
      from Cons.IH[OF this] Cons.prems(2,3) held Some res show ?thesis by (simp add: t)
    next
      case (closed r0 r')
      then have "qd_get i d1 = Some r'"
        using Cons.prems(1) qd_get_mem[OF Cons.prems(1)]
        by (intro qd_get_put[OF Cons.prems(1)]) (simp_all add: same_part_def)
      then have "snd (failing_sends cfg decrypt worker i ts d1) = []" using closed by (intro settled_no_sends)
      with closed Some res Cons.prems(3) show ?thesis by (simp add: t)
    next
      case (claimed r0 b grp secret)
      let ?s = "sending_row cfg worker now token r"
      have "r0 = r" using claimed(1) Cons.prems(1) by simp
      have s: "qd_get i d1 = Some ?s"
        using claimed(4) \<open>r0 = r\<close> qd_get_mem[OF Cons.prems(1)]
        by (intro qd_get_put[OF Cons.prems(1)]) (simp_all add: sending_row_def)
      obtain d2 out where fail: "commit_failed later i token m (retryable e) d1 = (d2, out)" by fastforce
      from fail have d2: "qd_get i d2 = Some (failure_row later m (retryable e) ?s)"
      proof (cases rule: commit_failed_rows)
        case refused
        with fail s show ?thesis by (simp add: commit_failed_def Let_def split: if_splits)
      next
        case (stored x)
        with s have x: "x = ?s" by simp
        show ?thesis
          by (rule qd_get_put[OF s _ stored(3)[unfolded x]])
            (use qd_get_mem[OF s] same_part_rows(3)[of ?s later m "retryable e"] in \<open>simp add: same_part_def\<close>)
      qed
      have sends: "snd (failing_sends cfg decrypt worker i (t # ts) d) =
          the c # snd (failing_sends cfg decrypt worker i ts d2)"
        using Some res claimed(3) fail by (simp add: t split: prod.splits)
      show ?thesis
      proof (cases "retryable e \<and> qd_attempts ?s < qd_max_attempts ?s")
        case True
        then have "int (length (snd (failing_sends cfg decrypt worker i ts d2))) \<le> qd_max_attempts r - (qd_attempts r + 1)"
          using Cons.IH[OF d2] by (simp add: failure_row_def Let_def sending_row_def)
        with sends show ?thesis by simp
      next
        case False
        then have "settled (failure_row later m (retryable e) ?s)" by (auto simp: failure_row_def Let_def settled_def)
        from settled_no_sends[OF d2 this] sends Cons.prems(3) show ?thesis by simp
      qed
    qed
  qed
qed

theorem failing_sends_bounded_witness:
  "int (length (snd (failing_sends default_qq_worker_cfg Inr ''w'' 50 [(1, ''t'', 2, NetworkError, Text ''x'')]
    (empty_db\<lparr>qq_deliveries := [sample_part 0]\<rparr>)))) \<le> 3"
  using failing_sends_bounded[of 50 "empty_db\<lparr>qq_deliveries := [sample_part 0]\<rparr>" "sample_part 0" default_qq_worker_cfg Inr "''w''"
      "[(1, ''t'', 2, NetworkError, Text ''x'')]"]
  by (simp add: qd_get_def row_get_def sample_part_def)

text \<open>
  A takeover does not look at the attempts: when the workers die while they send, the
  row is claimed again beyond its limit.
\<close>

lemma takeover_ignores_limit:
  assumes "qd_get i d = Some r" and "qd_status r = ''sending''" and "qd_lease_expires_at r = Some u" and "u \<le> now"
    and "admission_of r d = Go b grp" and "decrypt (qb_encrypted_app_secret b) = Inr secret"
  shows "\<exists>d' c. claim_delivery cfg decrypt worker now i token d = Some (d', Some c) \<and> qc_attempts c = qd_attempts r + 1"
  using assms by (simp add: claim_delivery_def delivery_due_def Let_def claim_of_row_def sending_row_def)

text \<open>
  When Redis does not take the time of the send, the message is given up although it was
  not sent and attempts are left.
\<close>

lemma redis_outage_gives_up:
  assumes "qi_redis_fails io 2" and "\<And>k w. qi_gap io k w = w" and "qd_get (qc_delivery_id c) d = Some r"
    and "qd_claim_token r = Some (qi_token io)"
  shows "snd (snd (send_claimed io c (d, s))) = [] \<and>
    (\<exists>r'. qd_get (qc_delivery_id c) (fst (fst (send_claimed io c (d, s)))) = Some r' \<and> qd_status r' = ''failed'')"
proof -
  obtain d' res where fail: "commit_failed (qi_now io 4) (qc_delivery_id c) (qi_token io) (Text ''redis'') False d = (d', res)"
    by fastforce
  then have "qd_get (qc_delivery_id c) d' = Some (failure_row (qi_now io 4) (Text ''redis'') False r)"
  proof (cases rule: commit_failed_rows)
    case refused
    with fail assms(3,4) show ?thesis by (simp add: commit_failed_def Let_def)
  next
    case (stored x)
    with assms(3) have x: "x = r" by simp
    show ?thesis
      by (rule qd_get_put[OF assms(3) _ stored(3)[unfolded x]])
        (use qd_get_mem[OF assms(3)] in \<open>simp add: failure_row_def Let_def\<close>)
  qed
  then show ?thesis
    using fail assms(1) by (simp add: send_claimed_def turn_failed_def assms(2) failure_row_def Let_def)
qed

subsection \<open>Scheduled tasks\<close>

lemma schedule_loop_effect:
  "schedule_loop read_int z fmt now m ts d = Some d' \<Longrightarrow> distinct (map qk_id ts) \<Longrightarrow>
    \<exists>new. qq_deliveries d' = qq_deliveries d @ new \<and>
      map qd_idempotency_key new = concat (map (\<lambda>t. map qd_idempotency_key (task_rows fmt now m d t)) ts) \<and>
      (\<forall>t \<in> set ts. qk_id t \<in> qk_id ` set (qq_tasks d) \<longrightarrow>
        (\<exists>nx. task_next_run read_int z now t = Some nx \<and> row_get qk_id (qk_id t) (qq_tasks d') = Some (task_ran now nx t))) \<and>
      (\<forall>i. i \<notin> qk_id ` set ts \<longrightarrow> row_get qk_id i (qq_tasks d') = row_get qk_id i (qq_tasks d)) \<and>
      qk_id ` set (qq_tasks d') = qk_id ` set (qq_tasks d)"
proof (induction ts arbitrary: d)
  case Nil
  then show ?case by simp
next
  case (Cons t ts)
  let ?rows = "task_rows fmt now m d t"
  from Cons.prems(1) obtain nx d1 where nx: "task_next_run read_int z now t = Some nx"
      and d1: "d1 = (fst (add_deliveries ?rows d))\<lparr>qq_tasks := row_put qk_id (task_ran now nx t) (qq_tasks d)\<rparr>"
      and loop: "schedule_loop read_int z fmt now m ts d1 = Some d'"
    by (auto simp: Let_def split: if_splits option.splits)
  have id: "qk_id (task_ran now nx t) = qk_id t" by (simp add: task_ran_def)
  have same: "qq_bots d1 = qq_bots d" "qq_task_bots d1 = qq_task_bots d" "qq_task_groups d1 = qq_task_groups d"
    by (simp_all add: d1 add_deliveries_def Let_def)
  have dest: "task_destinations d1 i gs = task_destinations d i gs" for i gs
    by (induction gs) (simp_all add: same del: row_get_None split: option.splits)
  have rows: "task_rows fmt now m d1 u = task_rows fmt now m d u" for u by (simp add: task_rows_def dest same)
  have tasks: "qq_tasks d1 = row_put qk_id (task_ran now nx t) (qq_tasks d)" by (simp add: d1)
  have ids: "qk_id ` set (qq_tasks d1) = qk_id ` set (qq_tasks d)"
    unfolding tasks set_map[symmetric] by simp
  obtain new where IH: "qq_deliveries d' = qq_deliveries d1 @ new"
      "map qd_idempotency_key new = concat (map (\<lambda>u. map qd_idempotency_key (task_rows fmt now m d1 u)) ts)"
      "\<forall>u \<in> set ts. qk_id u \<in> qk_id ` set (qq_tasks d1) \<longrightarrow>
        (\<exists>nx. task_next_run read_int z now u = Some nx \<and> row_get qk_id (qk_id u) (qq_tasks d') = Some (task_ran now nx u))"
      "\<forall>i. i \<notin> qk_id ` set ts \<longrightarrow> row_get qk_id i (qq_tasks d') = row_get qk_id i (qq_tasks d1)"
      "qk_id ` set (qq_tasks d') = qk_id ` set (qq_tasks d1)"
    using Cons.IH[OF loop] Cons.prems(2) by auto
  define numbered where "numbered = map (\<lambda>(k, r). r\<lparr>qd_id := serial d + int k\<rparr>) (enumerate 0 ?rows)"
  have "map qd_idempotency_key numbered = map qd_idempotency_key ?rows"
    by (rule nth_equalityI) (auto simp: numbered_def nth_enumerate_eq)
  moreover have "qq_deliveries d1 = qq_deliveries d @ numbered" by (simp add: d1 numbered_def add_deliveries_rows)
  ultimately have "qq_deliveries d' = qq_deliveries d @ (numbered @ new)"
      "map qd_idempotency_key (numbered @ new) =
        concat (map (\<lambda>u. map qd_idempotency_key (task_rows fmt now m d u)) (t # ts))"
    using IH(1,2) by (simp_all add: rows)
  moreover have "row_get qk_id (qk_id t) (qq_tasks d') = Some (task_ran now nx t)"
    if "qk_id t \<in> qk_id ` set (qq_tasks d)"
    using IH(4) Cons.prems(2) that by (auto simp: tasks row_get_put id)
  moreover have "row_get qk_id i (qq_tasks d') = row_get qk_id i (qq_tasks d)" if "i \<notin> qk_id ` set (t # ts)" for i
    using IH(4) that by (auto simp: tasks row_get_put id)
  ultimately show ?case using IH(3,5) ids nx by (intro exI[of _ "numbered @ new"]) auto
qed

lemma schedule_loop_ids:
  "schedule_loop read_int z fmt now m ts d = Some d' \<Longrightarrow> map qk_id (qq_tasks d') = map qk_id (qq_tasks d)"
proof (induction ts arbitrary: d)
  case (Cons t ts)
  then obtain d1 nx where "schedule_loop read_int z fmt now m ts d1 = Some d'"
      "qq_tasks d1 = row_put qk_id (task_ran now nx t) (qq_tasks d)"
    by (auto simp: Let_def split: if_splits option.splits)
  with Cons.IH show ?case by fastforce
qed simp

text \<open>
  C38: A scheduling pass queues one message per due task and destination, a destination
  being a group of the task whose bot belongs to the task and is enabled, and sets
  every due task to its next run, in every zone; no other task changes. In a zone with one offset the next run lies in the
  future, so that a second pass at the same time changes nothing. In a zone that sets the
  clock back a task that repeats within the hour may be due again at once (\<open>secondly_runs_back\<close>).
\<close>

theorem scheduled_tasks_exact:
  assumes "schedule_tasks read_int z fmt cfg now d = Some d'" and "distinct (map qk_id (qq_tasks d))"
    and "\<forall>t \<in> set (qq_tasks d). 1 \<le> qk_interval_value t"
  shows "(\<exists>new. qq_deliveries d' = qq_deliveries d @ new \<and>
      map qd_idempotency_key new = concat (map (\<lambda>t. map (\<lambda>(b, grp). scheduled_key fmt now (qk_id t) (qb_id b) grp)
        (task_destinations d (qk_id t) (qq_task_groups d))) (filter (task_due now) (qq_tasks d)))) \<and>
    (\<forall>t \<in> set (qq_tasks d). row_get qk_id (qk_id t) (qq_tasks d') =
       (if task_due now t then map_option (\<lambda>nx. task_ran now nx t) (task_next_run read_int z now t) else Some t)) \<and>
    ((\<exists>off. z = fixed_offset off) \<longrightarrow> schedule_tasks read_int z fmt cfg now d' = Some d')"
proof -
  let ?due = "filter (task_due now) (qq_tasks d)"
  have loop: "schedule_loop read_int z fmt now (qq_worker_max_attempts cfg) ?due d = Some d'"
    using assms(1) by (simp add: schedule_tasks_def)
  have dist: "distinct (map qk_id ?due)" using assms(2) by (simp add: distinct_map_filter)
  have keys: "map qd_idempotency_key (task_rows fmt now m d t) =
      map (\<lambda>(b, grp). scheduled_key fmt now (qk_id t) (qb_id b) grp) (task_destinations d (qk_id t) (qq_task_groups d))" for m t
    by (auto simp: task_rows_def scheduled_delivery_def)
  from schedule_loop_effect[OF loop dist] obtain new where
    new: "qq_deliveries d' = qq_deliveries d @ new"
      "map qd_idempotency_key new = concat (map (\<lambda>t. map (\<lambda>(b, grp). scheduled_key fmt now (qk_id t) (qb_id b) grp)
        (task_destinations d (qk_id t) (qq_task_groups d))) ?due)"
    and ran: "\<forall>t \<in> set ?due. \<exists>nx. task_next_run read_int z now t = Some nx \<and>
        row_get qk_id (qk_id t) (qq_tasks d') = Some (task_ran now nx t)"
    and rest: "\<forall>i. i \<notin> qk_id ` set ?due \<longrightarrow> row_get qk_id i (qq_tasks d') = row_get qk_id i (qq_tasks d)"
    unfolding keys by auto
  note ids = schedule_loop_ids[OF loop]
  have next_runs: "row_get qk_id (qk_id t) (qq_tasks d') =
      (if task_due now t then map_option (\<lambda>nx. task_ran now nx t) (task_next_run read_int z now t) else Some t)"
    if t: "t \<in> set (qq_tasks d)" for t
  proof (cases "task_due now t")
    case True
    with t ran show ?thesis by fastforce
  next
    case False
    have "qk_id t \<notin> qk_id ` set ?due" using False t assms(2) by (auto simp: distinct_map inj_on_def)
    then show ?thesis using False rest t row_get_unique[OF assms(2) t] by simp
  qed
  have "\<not> task_due now t" if z: "z = fixed_offset off" and t: "t \<in> set (qq_tasks d')" for t off
  proof -
    have get: "row_get qk_id (qk_id t) (qq_tasks d') = Some t"
      using t assms(2) ids by (intro row_get_unique) simp_all
    show ?thesis
    proof (cases "qk_id t \<in> qk_id ` set ?due")
      case True
      then obtain t0 where t0: "t0 \<in> set ?due" "qk_id t0 = qk_id t" by auto
      with ran get obtain nx where nx: "task_next_run read_int z now t0 = Some nx" "t = task_ran now nx t0"
        by fastforce
      moreover have "now < nx"
        using nx(1) assms(3) t0(1) z by (auto simp: task_next_run_def intro: next_run_future)
      ultimately show ?thesis by (simp add: task_due_def task_ran_def)
    next
      case False
      then have "row_get qk_id (qk_id t) (qq_tasks d) = Some t" using rest get by simp
      then have "t \<in> set (qq_tasks d)" using row_get_Some by fastforce
      with False show ?thesis by auto
    qed
  qed
  then have "filter (task_due now) (qq_tasks d') = []" if "z = fixed_offset off" for off
    using that by (simp add: filter_empty_conv)
  then have "(\<exists>off. z = fixed_offset off) \<longrightarrow> schedule_tasks read_int z fmt cfg now d' = Some d'" by (auto simp: schedule_tasks_def)
  with new next_runs show ?thesis by blast
qed

definition sample_task :: qq_scheduled_task where
  "sample_task = \<lparr>qk_id = 3, qk_name = ''ping'', qk_message = ''hello'', qk_frequency = ''secondly'',
     qk_interval_value = 10, qk_run_time = ''08:30'', qk_weekdays = [], qk_month_day = None, qk_is_enabled = True,
     qk_next_run_at = 0, qk_last_run_at = None, qk_created_at = 0, qk_updated_at = 0\<rparr>"

definition sample_task_db :: db where
  "sample_task_db = empty_db\<lparr>qq_bots := [sample_bot], qq_tasks := [sample_task],
     qq_task_bots := [\<lparr>qkb_task_id = 3, qkb_bot_id = 2\<rparr>],
     qq_task_groups := [\<lparr>qkg_task_id = 3, qkg_bot_id = 2, qkg_group_openid = ''g''\<rparr>]\<rparr>"

theorem scheduled_tasks_exact_witness:
  "\<exists>d'. schedule_tasks sample_read (fixed_offset 0) show_int default_qq_worker_cfg 7 sample_task_db = Some d' \<and>
    map qd_idempotency_key (qq_deliveries d') = [scheduled_key show_int 7 3 2 ''g'']"
proof -
  have next_run: "task_next_run sample_read (fixed_offset 0) 7 sample_task = Some (7 + secs 10)"
    by (simp add: task_next_run_def next_qq_task_run_def sample_task_def fixed_offset_def parse_run_time_def sample_read_def)
  have db: "qq_tasks sample_task_db = [sample_task]" "qq_deliveries sample_task_db = []"
    by (simp_all add: sample_task_db_def empty_db_def)
  have dest: "task_destinations sample_task_db 3 (qq_task_groups sample_task_db) = [(sample_bot, ''g'')]"
    by (simp add: sample_task_db_def row_get_def sample_bot_def)
  have fields: "qk_id sample_task = 3" "qk_interval_value sample_task = 10" "task_due 7 sample_task" "qb_id sample_bot = 2"
    by (simp_all add: sample_task_def task_due_def sample_bot_def)
  obtain d' where run: "schedule_tasks sample_read (fixed_offset 0) show_int default_qq_worker_cfg 7 sample_task_db = Some d'"
    by (simp add: schedule_tasks_def db fields next_run task_rows_def dest)
  from scheduled_tasks_exact[OF run] show ?thesis using run by (auto simp: db fields dest)
qed

subsection \<open>Membership of a group\<close>

text \<open>Events of one group in the order of their arrival: whether the bot is in the group, and the time of the event.\<close>

fun record_all :: "time \<Rightarrow> string \<Rightarrow> string \<Rightarrow> (bool \<times> time) list \<Rightarrow> db \<Rightarrow> db" where
  "record_all now app grp [] d = d"
| "record_all now app grp ((joined, t) # es) d = record_all now app grp es (fst (record_group_presence now app grp joined t d))"

text \<open>The recorded state of the group as the time of its last event and whether the bot has left.\<close>

definition group_state :: "qq_bot \<Rightarrow> string \<Rightarrow> string \<Rightarrow> db \<Rightarrow> (time \<times> bool) option" where
  "group_state b app grp d =
     map_option (\<lambda>g. (qg_last_event_at g, \<not> qg_is_joined g)) (find (same_group b app grp) (qq_groups d))"

lemma find_row_put:
  "find p xs = Some g \<Longrightarrow> p g' \<Longrightarrow> key g' = key g \<Longrightarrow> find p (row_put key g' xs) = Some g'"
  by (induction xs) (auto simp: row_put_def row_update_def split: if_splits)

lemma record_step:
  assumes "find (\<lambda>b. qb_app_id b = app \<and> qb_is_enabled b) (qq_bots d) = Some b"
  shows "group_state b app grp (fst (record_group_presence now app grp joined t d)) =
      Some (case group_state b app grp d of None \<Rightarrow> (t, \<not> joined) | Some s \<Rightarrow> max s (t, \<not> joined)) \<and>
    qq_bots (fst (record_group_presence now app grp joined t d)) = qq_bots d"
proof (cases "find (same_group b app grp) (qq_groups d)")
  case None
  then show ?thesis
    using assms by (simp add: record_group_presence_def group_state_def find_append same_group_def)
next
  case (Some g)
  then have g: "same_group b app grp g" by (auto simp: find_Some_iff)
  show ?thesis
  proof (cases "t < qg_last_event_at g \<or> t = qg_last_event_at g \<and> (joined \<or> \<not> qg_is_joined g)")
    case True
    with Some assms show ?thesis
      by (auto simp: record_group_presence_def group_state_def max_def less_eq_prod_def less_prod_def)
  next
    case False
    let ?g = "g\<lparr>qg_is_joined := joined, qg_last_event_at := t\<rparr>"
    have "find (same_group b app grp) (row_put qg_id ?g (qq_groups d)) = Some ?g"
      by (rule find_row_put[OF Some]) (use g in \<open>simp_all add: same_group_def\<close>)
    with Some assms False show ?thesis
      by (auto simp: record_group_presence_def group_state_def max_def less_eq_prod_def less_prod_def)
  qed
qed

text \<open>
  C32: The recorded membership of a group does not depend on the order in which its
  events arrive, nor on repetitions: it is the state of the latest event, and of two
  events at the same time the departure counts.
\<close>

theorem membership_order_free:
  assumes "find (\<lambda>b. qb_app_id b = app \<and> qb_is_enabled b) (qq_bots d) = Some b" and "es \<noteq> []"
  shows "group_state b app grp (record_all now app grp es d) =
    Some (Max (set_option (group_state b app grp d) \<union> (\<lambda>(joined, t). (t, \<not> joined)) ` set es))"
  using assms
proof (induction es arbitrary: d)
  case Nil
  then show ?case by simp
next
  case (Cons e es)
  obtain joined t where e: "e = (joined, t)" by (cases e)
  let ?d = "fst (record_group_presence now app grp joined t d)" and ?f = "\<lambda>(joined, t). (t, \<not> joined)"
  note step = record_step[OF Cons.prems(1), of grp now joined t]
  have state: "group_state b app grp ?d = Some (Max (insert (t, \<not> joined) (set_option (group_state b app grp d))))"
    using step by (cases "group_state b app grp d") (simp_all add: max.commute)
  show ?case
  proof (cases "es = []")
    case True
    then show ?thesis using state by (simp add: e)
  next
    case False
    have "group_state b app grp (record_all now app grp es ?d) =
        Some (Max (set_option (group_state b app grp ?d) \<union> ?f ` set es))"
      using step Cons.prems(1) by (intro Cons.IH) (simp_all add: False)
    also have "set_option (group_state b app grp ?d) \<union> ?f ` set es =
        insert (Max (insert (t, \<not> joined) (set_option (group_state b app grp d)))) (?f ` set es)"
      using state by simp
    also have "Max \<dots> = Max (insert (t, \<not> joined) (set_option (group_state b app grp d)) \<union> ?f ` set es)"
      using False by (subst Max_insert, simp, simp, subst Max.union) simp_all
    finally show ?thesis by (simp add: e)
  qed
qed

theorem membership_order_free_witness:
  "group_state sample_bot ''app'' ''g'' (record_all 0 ''app'' ''g'' [(False, 5), (True, 3), (True, 5)] sample_qq_db) =
    Some (5, True)"
  using membership_order_free[of "''app''" sample_qq_db sample_bot "[(False, 5), (True, 3), (True, 5)]" "''g''" 0]
  by (simp add: sample_qq_db_def sample_bot_def group_state_def sample_simps max_def less_eq_prod_def)

end
