(* ===== verification/QQTemplates.thy ===== *)
theory QQTemplates
  imports QQNotify
begin

text \<open>
  The templates of QQ targets: the checks of \<open>backend/app/services/qq_placeholders.py\<close> that a
  template passes before it is stored, and why a template that passed them is rendered
  without an error for every post, as long as its placeholders exist.
\<close>

subsection \<open>Fields of a template\<close>

text \<open>\<open>string.Formatter().parse\<close> with the conditions on each field; an exception is \<open>None\<close>.\<close>

function template_fields :: "string \<Rightarrow> string list option" where
  "template_fields [] = Some []"
| "template_fields (c # cs) =
     (if c = CHR ''{'' then
        (if starts_with ''{'' cs then template_fields (drop 1 cs)
         else let raw = takeWhile (\<lambda>x. x \<noteq> CHR ''}'') cs; name = plain_field raw; rest = drop (length raw) cs in
           if rest = [] \<or> \<not> field_name name \<or> 64 < length name then None
           else map_option ((#) name) (template_fields (drop 1 rest)))
      else if c = CHR ''}'' then (if starts_with ''}'' cs then template_fields (drop 1 cs) else None)
      else template_fields cs)"
  by pat_completeness auto

termination
  by (relation "measure length") auto

definition validate_target_template :: "db \<Rightarrow> string \<Rightarrow> (string \<times> string) list \<Rightarrow> api_error + string" where
  "validate_target_template d template vars =
     (let ms = map fst (load_placeholder_mappings d); vs = map fst vars in
      if set vs \<inter> set ms \<noteq> {} then Inl (Unprocessable ''qq_template_collision'')
      else let t = normalize_message_template template (ms @ vs) in
        case template_fields t of
          None \<Rightarrow> Inl (Unprocessable ''qq_template_invalid'')
        | Some fs \<Rightarrow> if set fs \<subseteq> set ms \<union> set vs then Inr t else Inl (Unprocessable ''qq_template_unknown''))"

definition default_mapped_template :: "(string \<times> string) list \<Rightarrow> string" where
  "default_mapped_template mappings =
     (let has = (\<lambda>k. k \<in> fst ` set mappings);
          identity = (if has ''username'' then [''@'' @ ''{username}''] else []) @ (if has ''posted_at'' then [''{posted_at}''] else []);
          rows = (if has ''title'' then [''{title}''] else []) @ (if identity = [] then [] else [join [CHR '' '', CHR 0xB7, CHR '' ''] identity]) @
            concat (map (\<lambda>k. if has k then [''{'' @ k @ ''}''] else []) [''text'', ''url'']);
          text = join [CHR 10] rows in
      if text \<noteq> [] then text else join [CHR 10] (map (\<lambda>(k, f). ''{'' @ k @ ''}'') mappings))"

subsection \<open>Substitution and parsing\<close>

text \<open>The names that \<open>normalize_message_template\<close> considers, in the order of their places.\<close>

function brace_names :: "bool \<Rightarrow> string \<Rightarrow> string list" where
  "brace_names after [] = []"
| "brace_names after (c # cs) =
     (case (if after then None else match_braces (c # cs)) of
        Some (name, rest) \<Rightarrow> name # brace_names False rest
      | None \<Rightarrow> brace_names (c = CHR ''{'') cs)"
  by pat_completeness auto

termination
  by (relation "measure (\<lambda>(a, s). length s)") (auto split: if_splits dest: match_braces_shorter)

lemma starts_one [simp]: "starts_with [x] s \<longleftrightarrow> (\<exists>r. s = x # r)"
  by (cases s) (auto simp: starts_with_def)

lemma field_name_chars: "field_name n \<Longrightarrow> n \<noteq> [] \<and> list_all name_char n"
  by (cases n) (auto simp: field_name_def name_char_def)

lemma name_char_braces: "\<not> name_char (CHR ''{'')" "\<not> name_char (CHR ''}'')" "\<not> name_char (CHR '':'')"
  by (simp_all add: name_char_def is_lower_def is_digit_def code_def)

lemma field_name_braces: "field_name n \<Longrightarrow> CHR ''{'' \<notin> set n \<and> CHR ''}'' \<notin> set n \<and> CHR '':'' \<notin> set n"
  using name_char_braces by (auto dest!: field_name_chars simp: list_all_iff)

lemma takeWhile_name: "field_name n \<Longrightarrow> takeWhile name_char (n @ CHR ''}'' # r) = n"
  using name_char_braces by (auto dest!: field_name_chars simp: list_all_iff takeWhile_append)

lemma starts_with_append [simp]: "starts_with p (p @ s)"
  by (simp add: starts_with_def)

lemma match_braces_iff:
  "match_braces s = Some (n, r) \<longleftrightarrow> s = ''{{'' @ n @ ''}}'' @ r \<and> field_name n \<and> \<not> starts_with ''}'' r"
proof
  assume m: "match_braces s = Some (n, r)"
  let ?body = "drop 2 s" let ?n = "takeWhile name_char ?body" let ?rest = "drop (length ?n) ?body"
  from m have *: "starts_with ''{{'' s" "field_name ?n" "starts_with ''}}'' ?rest" "\<not> starts_with ''}}}'' ?rest" "n = ?n" "r = drop 2 ?rest"
    by (auto simp: match_braces_def Let_def split: if_splits)
  have "s = ''{{'' @ ?body" using *(1) by (metis append_take_drop_id length_Cons list.size(3) numeral_2_eq_2 starts_with_def)
  moreover have "?body = ?n @ ?rest" by (metis append_take_drop_id takeWhile_eq_take)
  moreover have "?rest = ''}}'' @ r" using *(3,6) by (metis append_take_drop_id length_Cons list.size(3) numeral_2_eq_2 starts_with_def)
  moreover have "\<not> starts_with ''}'' r" using *(4) calculation(3) by (auto simp: starts_with_def)
  ultimately show "s = ''{{'' @ n @ ''}}'' @ r \<and> field_name n \<and> \<not> starts_with ''}'' r" using *(2,5) by metis
next
  assume a: "s = ''{{'' @ n @ ''}}'' @ r \<and> field_name n \<and> \<not> starts_with ''}'' r"
  then have t: "takeWhile name_char (n @ ''}}'' @ r) = n" using takeWhile_name by simp
  have "drop 2 s = n @ ''}}'' @ r" "starts_with ''{{'' s" using a by (simp_all add: starts_with_def)
  moreover have "starts_with ''}}'' (''}}'' @ r)" by (rule starts_with_append)
  moreover have "\<not> starts_with ''}}}'' (''}}'' @ r)" using a by (auto simp: starts_with_def take_Cons' split: if_splits)
  ultimately show "match_braces s = Some (n, r)" using a t by (simp add: match_braces_def Let_def)
qed

lemma match_braces_no: "\<not> (\<exists>r. s = ''{{'' @ r) \<Longrightarrow> match_braces s = None"
  using match_braces_iff[of s] by (cases "match_braces s") auto

lemma fold_copy:
  "CHR ''{'' \<notin> set u \<Longrightarrow> fold_braces known after (u @ v) = u @ fold_braces known (after \<and> u = []) v"
proof (induction u arbitrary: after)
  case (Cons x u)
  then have "match_braces (x # u @ v) = None" "x \<noteq> CHR ''{''" by (auto intro: match_braces_no)
  with Cons show ?case by simp
qed simp

lemma names_copy: "CHR ''{'' \<notin> set u \<Longrightarrow> brace_names after (u @ v) = brace_names (after \<and> u = []) v"
proof (induction u arbitrary: after)
  case (Cons x u)
  then have "match_braces (x # u @ v) = None" "x \<noteq> CHR ''{''" by (auto intro: match_braces_no)
  with Cons show ?case by simp
qed simp

lemma fields_copy: "CHR ''{'' \<notin> set u \<Longrightarrow> CHR ''}'' \<notin> set u \<Longrightarrow> template_fields (u @ v) = template_fields v"
proof (induction u)
  case (Cons x u)
  then have "x \<noteq> CHR ''{''" "x \<noteq> CHR ''}''" by auto
  with Cons show ?case by simp
qed simp

lemma fields_field:
  assumes "field_name n" and "length n \<le> 64"
  shows "template_fields (CHR ''{'' # n @ CHR ''}'' # v) = map_option ((#) n) (template_fields v)"
proof -
  have n: "CHR ''{'' \<notin> set n" "CHR ''}'' \<notin> set n" "n \<noteq> []" using field_name_braces[OF assms(1)] field_name_chars[OF assms(1)] by simp_all
  have "\<not> starts_with ''{'' (n @ CHR ''}'' # v)" using n by (cases n) auto
  moreover have t: "takeWhile (\<lambda>x. x \<noteq> CHR ''}'') (n @ CHR ''}'' # v) = n" using n(2) by (auto simp: takeWhile_append)
  moreover have "plain_field n = n"
    using field_name_braces[OF assms(1)] last_in_set[OF n(3)] by (auto simp: plain_field_def)
  ultimately show ?thesis using assms by (simp add: Let_def del: starts_one)
qed

lemma fields_escape: "template_fields (CHR ''}'' # CHR ''}'' # v) = template_fields v" "template_fields (CHR ''{'' # CHR ''{'' # v) = template_fields v"
  by simp_all

subsection \<open>Substituting again\<close>

lemma fold_no_match:
  "match_braces (c # cs) = None \<or> after \<Longrightarrow> fold_braces known after (c # cs) = c # fold_braces known (c = CHR ''{'') cs"
  "match_braces (c # cs) = None \<or> after \<Longrightarrow> brace_names after (c # cs) = brace_names (c = CHR ''{'') cs"
  by auto

lemma fold_head: "starts_with ''}'' (fold_braces known after s) = starts_with ''}'' s"
proof (cases s)
  case (Cons c cs)
  then show ?thesis
    by (cases "if after then None else match_braces s") (auto simp: match_braces_iff split: if_splits)
qed simp

text \<open>A part without an opening brace was copied.\<close>

lemma fold_prefix:
  "CHR ''{'' \<notin> set u \<Longrightarrow> fold_braces known after s = u @ v \<Longrightarrow>
    \<exists>w. s = u @ w \<and> v = fold_braces known (after \<and> u = []) w"
proof (induction u arbitrary: after s)
  case Nil
  then show ?case by simp
next
  case (Cons x u)
  then obtain c cs where s: "s = c # cs" by (cases s) auto
  have x: "x \<noteq> CHR ''{''" using Cons.prems(1) by auto
  have none: "(if after then None else match_braces s) = None"
    using Cons.prems x by (cases "if after then None else match_braces s") (auto simp: s split: if_splits)
  then have f: "fold_braces known after s = c # fold_braces known (c = CHR ''{'') cs" by (auto simp: s split: if_splits)
  then have c: "c = x" "fold_braces known False cs = u @ v" using Cons.prems(2) x by auto
  from Cons.IH[OF _ c(2)] Cons.prems(1) obtain w where "cs = u @ w" "v = fold_braces known (False \<and> u = []) w" by auto
  then show ?case using s c(1) by auto
qed

lemma fold_keeps_none:
  assumes "match_braces (c # cs) = None"
  shows "match_braces (c # fold_braces known (c = CHR ''{'') cs) = None"
proof (rule ccontr)
  assume "match_braces (c # fold_braces known (c = CHR ''{'') cs) \<noteq> None"
  then obtain n r where m: "c = CHR ''{''" "fold_braces known True cs = CHR ''{'' # n @ ''}}'' @ r" "field_name n" "\<not> starts_with ''}'' r"
    by (auto simp: match_braces_iff)
  then obtain y ys where cs: "cs = y # ys" by (cases cs) auto
  then have y: "y = CHR ''{''" "fold_braces known True ys = (n @ ''}}'') @ r" using m(2) by auto
  have "CHR ''{'' \<notin> set (n @ ''}}'')" using field_name_braces[OF m(3)] by auto
  from fold_prefix[OF this y(2)] obtain w where w: "ys = (n @ ''}}'') @ w" "r = fold_braces known False w" by auto
  then have "match_braces (c # cs) = Some (n, w)"
    using m cs y(1) fold_head[of known False w] by (simp add: match_braces_iff)
  with assms show False by simp
qed

lemma names_field:
  assumes "field_name n"
  shows "brace_names False (CHR ''{'' # n @ CHR ''}'' # r) = brace_names False r"
proof -
  have n: "CHR ''{'' \<notin> set (n @ ''}'')" using field_name_braces[OF assms] by auto
  obtain x xs where x: "n = x # xs" "x \<noteq> CHR ''{''" using n field_name_chars[OF assms] by (cases n) auto
  then have "match_braces (CHR ''{'' # n @ CHR ''}'' # r) = None" by (intro match_braces_no) auto
  then have "brace_names False (CHR ''{'' # n @ CHR ''}'' # r) = brace_names True ((n @ ''}'') @ r)" by simp
  also have "\<dots> = brace_names False r" by (subst names_copy[OF n]) simp
  finally show ?thesis .
qed

lemma names_match:
  assumes "field_name n" and "\<not> starts_with ''}'' r"
  shows "brace_names False (''{{'' @ n @ ''}}'' @ r) = n # brace_names False r"
    and "fold_braces known False (''{{'' @ n @ ''}}'' @ r) =
      (if known n then ''{'' @ n @ ''}'' else ''{{'' @ n @ ''}}'') @ fold_braces known False r"
proof -
  have "match_braces (CHR ''{'' # CHR ''{'' # n @ CHR ''}'' # CHR ''}'' # r) = Some (n, r)" using assms by (simp add: match_braces_iff)
  then show "brace_names False (''{{'' @ n @ ''}}'' @ r) = n # brace_names False r"
    "fold_braces known False (''{{'' @ n @ ''}}'' @ r) =
      (if known n then ''{'' @ n @ ''}'' else ''{{'' @ n @ ''}}'') @ fold_braces known False r"
    by simp_all
qed

text \<open>What was substituted is not found a second time, and nothing new is.\<close>

lemma names_fold: "set (brace_names after (fold_braces known after s)) \<subseteq> {n \<in> set (brace_names after s). \<not> known n}"
proof (induction known after s rule: fold_braces.induct)
  case (1 known after)
  then show ?case by simp
next
  case (2 known after c cs)
  show ?case
  proof (cases "if after then None else match_braces (c # cs)")
    case (Some p)
    obtain n r where p: "p = (n, r)" by fastforce
    with Some have m: "\<not> after" "match_braces (c # cs) = Some (n, r)" by (auto split: if_splits)
    then have s: "c # cs = ''{{'' @ n @ ''}}'' @ r" and n: "field_name n" "\<not> starts_with ''}'' r" by (auto simp: match_braces_iff)
    have ih: "set (brace_names False (fold_braces known False r)) \<subseteq> {n \<in> set (brace_names False r). \<not> known n}"
      using "2.IH"(2)[OF Some p[symmetric]] p by simp
    have head: "\<not> starts_with ''}'' (fold_braces known False r)" using n(2) fold_head by simp
    show ?thesis
      using ih names_match[OF n] names_match(1)[OF n(1) head] names_field[OF n(1), of "fold_braces known False r"] m(1)
      unfolding s by auto
  next
    case None
    have "match_braces (c # fold_braces known (c = CHR ''{'') cs) = None \<or> after"
      using None fold_keeps_none[of c cs known] by (auto split: if_splits)
    moreover have "match_braces (c # cs) = None \<or> after" using None by (auto split: if_splits)
    ultimately show ?thesis using "2.IH"(1)[OF None] fold_no_match by simp
  qed
qed

lemma plain_field_set: "set raw \<subseteq> insert (CHR '':'') (set (plain_field raw))"
  by (cases raw rule: rev_cases) (auto simp: plain_field_def)

text \<open>Substitution keeps a template that parses, and adds only the names it substitutes.\<close>

lemma fields_fold:
  assumes "\<And>n. known n \<Longrightarrow> length n \<le> 64"
  shows "template_fields s = Some fs \<Longrightarrow>
    \<exists>gs. template_fields (fold_braces known after s) = Some gs \<and> set fs \<subseteq> set gs \<and>
      set gs \<subseteq> set fs \<union> {n \<in> set (brace_names after s). known n}"
proof (induction s arbitrary: after fs rule: template_fields.induct)
  case 1
  then show ?case by simp
next
  case (2 c cs)
  consider (escape) cs' where "c = CHR ''{''" "cs = CHR ''{'' # cs'"
    | (field) "c = CHR ''{''" "\<not> starts_with ''{'' cs"
    | (closing) cs' where "c = CHR ''}''" "cs = CHR ''}'' # cs'"
    | (other) "c \<noteq> CHR ''{''" "c \<noteq> CHR ''}''"
    using "2.prems" by (cases cs) (auto split: if_splits)
  then show ?case
  proof cases
    case escape
    have fs: "template_fields cs' = Some fs" using "2.prems" escape by simp
    have ih: "\<exists>gs. template_fields (fold_braces known a cs') = Some gs \<and> set fs \<subseteq> set gs \<and>
        set gs \<subseteq> set fs \<union> {n \<in> set (brace_names a cs'). known n}" for a
      using "2.IH"(1)[of fs a] escape fs by simp
    show ?thesis
    proof (cases "if after then None else match_braces (c # cs)")
      case None
      then have "match_braces (c # cs) = None \<or> after" by (auto split: if_splits)
      then have "fold_braces known after (c # cs) = ''{{'' @ fold_braces known True cs'" "brace_names after (c # cs) = brace_names True cs'"
        by (auto simp: escape)
      then show ?thesis using ih[of True] by simp
    next
      case (Some p)
      obtain n r where p: "p = (n, r)" by fastforce
      with Some have m: "\<not> after" "match_braces (c # cs) = Some (n, r)" by (auto split: if_splits)
      then have s: "c # cs = ''{{'' @ n @ ''}}'' @ r" and n: "field_name n" "\<not> starts_with ''}'' r" by (auto simp: match_braces_iff)
      then have cs': "cs' = n @ CHR ''}'' # CHR ''}'' # r" using escape by simp
      note nb = field_name_braces[OF n(1)]
      have copy: "fold_braces known False cs' = n @ ''}}'' @ fold_braces known False r"
        "brace_names False cs' = brace_names False r"
        using fold_copy[of "n @ ''}}''" known False r] names_copy[of "n @ ''}}''" False r] nb by (auto simp: cs')
      have after_n: "template_fields (n @ CHR ''}'' # CHR ''}'' # v) = template_fields v" for v
        using fields_copy[of n "CHR ''}'' # CHR ''}'' # v"] nb by simp
      obtain gs where gs: "template_fields (fold_braces known False r) = Some gs" "set fs \<subseteq> set gs"
        "set gs \<subseteq> set fs \<union> {n \<in> set (brace_names False r). known n}"
        using ih[of False] copy after_n by auto
      have "template_fields (''{{'' @ n @ ''}}'' @ fold_braces known False r) = Some gs" using gs(1) after_n by simp
      moreover have "template_fields (''{'' @ n @ ''}'' @ fold_braces known False r) = Some (n # gs)" if "known n"
        using fields_field[OF n(1) assms[OF that], of "fold_braces known False r"] gs(1) by simp
      ultimately show ?thesis
        using gs(2,3) m(1) names_match(1)[OF n] names_match(2)[OF n, of known] unfolding s by auto
    qed
  next
    case field
    let ?raw = "takeWhile (\<lambda>x. x \<noteq> CHR ''}'') cs"
    obtain fs' where ok: "drop (length ?raw) cs \<noteq> []" "field_name (plain_field ?raw)" "length (plain_field ?raw) \<le> 64"
      "template_fields (drop 1 (drop (length ?raw) cs)) = Some fs'" "fs = plain_field ?raw # fs'"
      using "2.prems" field by (auto simp: Let_def simp del: starts_one split: if_splits)
    obtain v where cs: "cs = ?raw @ CHR ''}'' # v"
    proof -
      have "dropWhile (\<lambda>x. x \<noteq> CHR ''}'') cs \<noteq> []" using ok(1) by (simp add: dropWhile_eq_drop)
      then show ?thesis using that hd_dropWhile[of "\<lambda>x. x \<noteq> CHR ''}''" cs]
        by (metis (mono_tags, lifting) list.collapse takeWhile_dropWhile_id)
    qed
    have v: "drop 1 (drop (length ?raw) cs) = v" by (subst (2) cs) simp
    have "set ?raw \<subseteq> insert (CHR '':'') (set (plain_field ?raw))" by (rule plain_field_set)
    then have raw: "CHR ''{'' \<notin> set (?raw @ ''}'')" using field_name_braces[OF ok(2)] by auto
    have "match_braces (c # cs) = None" using field(2) by (intro match_braces_no) auto
    then have f: "fold_braces known after (c # cs) = c # fold_braces known True cs" "brace_names after (c # cs) = brace_names True cs"
      using field by simp_all
    have copy: "fold_braces known True cs = ?raw @ CHR ''}'' # fold_braces known False v" "brace_names True cs = brace_names False v"
      using fold_copy[OF raw, of known True v] names_copy[OF raw, of True v] cs by simp_all
    obtain gs where gs: "template_fields (fold_braces known False v) = Some gs" "set fs' \<subseteq> set gs"
      "set gs \<subseteq> set fs' \<union> {n \<in> set (brace_names False v). known n}"
      using "2.IH"(2)[OF field(1,2) HOL.refl HOL.refl HOL.refl, of fs' False] ok v by auto
    let ?cs = "?raw @ CHR ''}'' # fold_braces known False v"
    have tw: "takeWhile (\<lambda>x. x \<noteq> CHR ''}'') ?cs = ?raw"
      using set_takeWhileD[of _ "\<lambda>x. x \<noteq> CHR ''}''" cs] by (subst takeWhile_append) auto
    have "\<not> starts_with ''{'' ?cs" using raw by (cases ?raw) auto
    then have "template_fields (c # ?cs) = Some (plain_field ?raw # gs)"
      using field(1) ok(2,3) gs(1) tw by (simp add: Let_def del: starts_one)
    then show ?thesis using gs(2,3) ok(5) f copy by auto
  next
    case closing
    have "match_braces (CHR ''}'' # x) = None" for x by (intro match_braces_no) auto
    then have f: "fold_braces known after (c # cs) = ''}}'' @ fold_braces known False cs'" "brace_names after (c # cs) = brace_names False cs'"
      by (simp_all add: closing)
    show ?thesis using "2.IH"(3)[of fs False] "2.prems" closing f by simp
  next
    case other
    have "match_braces (c # cs) = None" using other by (intro match_braces_no) auto
    then have f: "fold_braces known after (c # cs) = c # fold_braces known False cs" "brace_names after (c # cs) = brace_names False cs"
      using other by simp_all
    show ?thesis using "2.IH"(4)[of fs False] "2.prems" other f by simp
  qed
qed

lemma format_fields:
  "template_fields s = Some fs \<Longrightarrow> \<forall>f \<in> set fs. values f \<noteq> None \<Longrightarrow> format_map values s \<noteq> None"
proof (induction s arbitrary: fs rule: template_fields.induct)
  case (2 c cs)
  then show ?case by (auto simp: Let_def simp del: starts_one split: if_splits option.splits)
qed simp

subsection \<open>Rendering\<close>

text \<open>
  A template that may be stored when \<open>names\<close> are its placeholders and variables: its fields
  are among them, and no doubled brace is left that rendering would take for a field.
\<close>

definition template_ok :: "string set \<Rightarrow> string \<Rightarrow> bool" where
  "template_ok names t \<longleftrightarrow>
     (case template_fields t of None \<Rightarrow> False | Some fs \<Rightarrow> set fs \<subseteq> names) \<and>
     set (brace_names False t) \<inter> set allowed_template_fields = {}"

lemma template_ok_more: "template_ok names t \<Longrightarrow> names \<subseteq> names' \<Longrightarrow> template_ok names' t"
  by (auto simp: template_ok_def split: option.splits)

lemma validated_ok:
  assumes "validate_target_template d template vars = Inr t"
  shows "template_ok (fst ` set (load_placeholder_mappings d) \<union> fst ` set vars) t"
proof -
  let ?names = "map fst (load_placeholder_mappings d) @ map fst vars"
  from assms have t: "t = normalize_message_template template ?names"
    by (auto simp: validate_target_template_def Let_def split: if_splits option.splits)
  from assms obtain fs where "template_fields t = Some fs" "set fs \<subseteq> set ?names"
    by (auto simp: validate_target_template_def Let_def split: if_splits option.splits)
  moreover have "set (brace_names False t) \<inter> set allowed_template_fields = {}"
    using names_fold[of False "\<lambda>n. n \<in> set allowed_template_fields \<or> n \<in> set ?names" template]
    by (auto simp: t normalize_message_template_def)
  ultimately show ?thesis by (simp add: template_ok_def)
qed

lemma template_ok_renders:
  assumes ok: "template_ok names t" and names: "names \<subseteq> fst ` set (string_items variables) \<union> fst ` set ms"
    and short: "\<forall>n \<in> fst ` set (string_items variables) \<union> fst ` set ms. length n \<le> 64"
    and sources: "\<forall>(n, f) \<in> set ms. f \<in> set source_fields"
  shows "render_qq_message env t tw u variables (Some ms) \<noteq> None"
proof -
  have "list_all (\<lambda>(n, f). f \<in> set source_fields) ms" using sources by (auto simp: list_all_iff)
  then obtain vals where vals: "placeholder_values env (Some ms) tw u (re_title env) = Some vals" "map fst vals = map fst ms"
    by (simp add: placeholder_values_def comp_def case_prod_beta)
  let ?all = "string_items variables @ vals"
  let ?known = "\<lambda>n. n \<in> set allowed_template_fields \<or> n \<in> set (map fst ?all)"
  have all: "fst ` set ?all = fst ` set (string_items variables) \<union> fst ` set ms"
    using arg_cong[OF vals(2), of set] by (simp add: image_Un)
  have len: "length n \<le> 64" if "?known n" for n
  proof -
    have "length m \<le> 64" if "m \<in> set allowed_template_fields" for m using that by (auto simp: allowed_template_fields_def)
    then show ?thesis using that short unfolding set_map all by blast
  qed
  obtain fs where fs: "template_fields t = Some fs" "set fs \<subseteq> names" using ok by (auto simp: template_ok_def split: option.splits)
  from fields_fold[of ?known, OF len fs(1), of False] obtain gs where gs: "template_fields (fold_braces ?known False t) = Some gs"
    "set gs \<subseteq> set fs \<union> {n \<in> set (brace_names False t). ?known n}" by blast
  have "set (brace_names False t) \<inter> set allowed_template_fields = {}" using ok by (simp add: template_ok_def)
  then have "set gs \<subseteq> fst ` set ?all" using gs(2) fs(2) names unfolding set_map all by blast
  then have "\<forall>f \<in> set gs. map_of ?all f \<noteq> None" by (auto simp: map_of_eq_None_iff)
  from format_fields[OF gs(1) this] show ?thesis
    by (simp only: render_qq_message_def vals(1) Let_def normalize_message_template_def option.case option.map_disc_iff not_False_eq_True)
qed

text \<open>A name that a check after substitution does not find is not a field of the template.\<close>

lemma unused_name:
  assumes "template_fields (normalize_message_template t [name]) = Some gs" and "name \<notin> set gs"
    and "template_fields t = Some fs" and "length name \<le> 64"
  shows "name \<notin> set fs"
proof -
  let ?known = "\<lambda>n. n \<in> set allowed_template_fields \<or> n \<in> set [name]"
  have "length n \<le> 64" if "?known n" for n using that assms(4) by (auto simp: allowed_template_fields_def)
  from fields_fold[of ?known, OF this assms(3), of False] assms(1,2) show ?thesis
    by (auto simp: normalize_message_template_def)
qed

end
