(* ===== verification/QQRoutes.thy ===== *)
theory QQRoutes
  imports QQWorker QQTemplates
begin

text \<open>
  The routes of QQ notifications, \<open>backend/app/api/routes/qq.py\<close> and \<open>qq_placeholders.py\<close>: bots,
  targets, placeholders, pushes by hand, scheduled tasks and the records of deliveries. A
  route is one transaction; where it waits for an answer or takes no lock and its checks
  may be outdated when it writes, other transactions act in \<open>between\<close>. A rejected value of a
  payload is \<open>None\<close>; a field that a patch leaves out is \<open>None\<close> and an explicit null \<open>Some None\<close>.
\<close>

subsection \<open>Bots\<close>

record bot_create =
  bc_name :: string
  bc_app_id :: string
  bc_app_secret :: string
  bc_is_enabled :: bool

record bot_update =
  bu_name :: "string option option"
  bu_app_id :: "string option option"
  bu_app_secret :: "string option option"
  bu_is_enabled :: "bool option option"

definition sized :: "nat \<Rightarrow> nat \<Rightarrow> string \<Rightarrow> bool" where
  "sized lo hi s \<longleftrightarrow> lo \<le> length s \<and> length s \<le> hi"

definition app_id_ok :: "string \<Rightarrow> bool" where
  "app_id_ok s \<longleftrightarrow> sized 3 64 s \<and> list_all (\<lambda>c. is_upper c \<or> is_lower c \<or> is_digit c \<or> c \<in> set ''_-'') s"

definition bot_create_ok :: "bot_create \<Rightarrow> bool" where
  "bot_create_ok p \<longleftrightarrow> sized 1 100 (bc_name p) \<and> app_id_ok (bc_app_id p) \<and> sized 8 500 (bc_app_secret p)"

definition bot_update_ok :: "bot_update \<Rightarrow> bool" where
  "bot_update_ok u \<longleftrightarrow>
     (case bu_name u of Some (Some s) \<Rightarrow> sized 1 100 s | _ \<Rightarrow> True) \<and>
     (case bu_app_id u of Some (Some s) \<Rightarrow> app_id_ok s | _ \<Rightarrow> True) \<and>
     (case bu_app_secret u of Some (Some s) \<Rightarrow> sized 8 500 s | _ \<Rightarrow> True)"

text \<open>The encryption of stored secrets and the texts derived from one.\<close>

record secret_env =
  se_encrypt :: "string \<Rightarrow> string"
  se_decrypt :: "string \<Rightarrow> msg + string"
  se_hint :: "string \<Rightarrow> string"
  se_fingerprint :: "string \<Rightarrow> string"

definition bot_at :: "int \<Rightarrow> db \<Rightarrow> api_error + qq_bot" where
  "bot_at i d = (case row_get qb_id i (qq_bots d) of None \<Rightarrow> Inl (NotFound ''qq_bot_not_found'') | Some b \<Rightarrow> Inr b)"

definition new_bot :: "secret_env \<Rightarrow> time \<Rightarrow> int \<Rightarrow> bot_create \<Rightarrow> qq_bot" where
  "new_bot env now i p =
     \<lparr>qb_id = i, qb_name = strip (bc_name p), qb_app_id = strip (bc_app_id p),
      qb_encrypted_app_secret = se_encrypt env (bc_app_secret p), qb_secret_hint = se_hint env (bc_app_secret p),
      qb_secret_fingerprint = se_fingerprint env (bc_app_secret p), qb_is_enabled = bc_is_enabled p,
      qb_verification_status = ''unverified'', qb_version = 1, qb_last_verified_at = None, qb_last_error = None,
      qb_created_at = now, qb_updated_at = now\<rparr>"

definition create_bot :: "secret_env \<Rightarrow> time \<Rightarrow> bot_create \<Rightarrow> db \<Rightarrow> api_error + db \<times> qq_bot" where
  "create_bot env now p d =
     (let b = new_bot env now (serial d) p in
      if \<not> bot_create_ok p then Inl (Unprocessable ''payload'')
      else if qb_app_id b \<in> qb_app_id ` set (qq_bots d) then Inl (Conflict ''qq_app_id_exists'')
      else Inr (d\<lparr>qq_bots := qq_bots d @ [b], serial := serial d + 1\<rparr>, b))"

definition new_secret :: "bot_update \<Rightarrow> string option" where
  "new_secret u = (case bu_app_secret u of Some (Some s) \<Rightarrow> if s = [] then None else Some s | _ \<Rightarrow> None)"

definition given :: "'a option option \<Rightarrow> 'a \<Rightarrow> 'a" where
  "given v old = (case v of Some (Some x) \<Rightarrow> x | _ \<Rightarrow> old)"

definition edited_bot :: "secret_env \<Rightarrow> time \<Rightarrow> bot_update \<Rightarrow> qq_bot \<Rightarrow> qq_bot" where
  "edited_bot env now u b =
     (let b1 = b\<lparr>qb_name := (if bu_name u = None then qb_name b else strip (given (bu_name u) [])),
                 qb_app_id := (if bu_app_id u = None then qb_app_id b else strip (given (bu_app_id u) [])),
                 qb_is_enabled := given (bu_is_enabled u) (qb_is_enabled b), qb_updated_at := now\<rparr>;
          b2 = (case new_secret u of
                  None \<Rightarrow> b1
                | Some s \<Rightarrow> b1\<lparr>qb_encrypted_app_secret := se_encrypt env s, qb_secret_hint := se_hint env s,
                    qb_secret_fingerprint := se_fingerprint env s\<rparr>) in
      if bu_app_id u \<noteq> None \<or> new_secret u \<noteq> None
      then b2\<lparr>qb_verification_status := ''unverified'', qb_last_verified_at := None, qb_last_error := None,
              qb_version := qb_version b + 1\<rparr>
      else b2)"

text \<open>
  A null name or AppID fails in \<open>strip\<close>; a null in a column that must have a value is
  reported as the conflict of AppIDs.
\<close>

definition update_bot :: "secret_env \<Rightarrow> time \<Rightarrow> int \<Rightarrow> bot_update \<Rightarrow> db \<Rightarrow> api_error + db \<times> qq_bot" where
  "update_bot env now i u d =
     (case (if bot_update_ok u then bot_at i d else Inl (Unprocessable ''payload'')) of
        Inl e \<Rightarrow> Inl e
      | Inr b \<Rightarrow>
          (let b' = edited_bot env now u b in
           if bu_name u = Some None \<or> bu_app_id u = Some None then Inl (ServerError ''strip of null'')
           else if bu_is_enabled u = Some None \<or> list_ex (\<lambda>x. qb_id x \<noteq> i \<and> qb_app_id x = qb_app_id b') (qq_bots d)
           then Inl (Conflict ''qq_app_id_exists'')
           else Inr (d\<lparr>qq_bots := row_put qb_id b' (qq_bots d)\<rparr>, b')))"

text \<open>
  What the platform answers to a pair of AppID and secret: nothing in time, or a status
  with the body if it is JSON. \<open>None\<close> is a valid pair; an error tells whether the pair is
  known to be invalid.
\<close>

datatype credential_answer = Unanswered | Answered nat "json option"

definition validate_qq_credentials :: "(json \<Rightarrow> string) \<Rightarrow> credential_answer \<Rightarrow> (bool \<times> msg) option" where
  "validate_qq_credentials text_of a =
     (case a of
        Unanswered \<Rightarrow> Some (False, Lit ''cannot reach the platform'' [])
      | Answered s body \<Rightarrow>
          (if s \<in> {400, 401, 403} then Some (True, Lit ''AppID or AppSecret invalid'' [])
           else if 400 \<le> s then Some (False, Lit ''the platform answered HTTP'' [show_nat s])
           else case body of
             None \<Rightarrow> Some (False, Lit ''the platform answered no JSON'' [])
           | Some p \<Rightarrow>
               (if \<not> is_dict p \<or> \<not> truthy (jget p ''access_token'') \<or> \<not> truthy (jget p ''expires_in'')
                then Some (True, if is_dict p \<and> truthy (jget p ''message'') then Text (text_of (jget p ''message''))
                                 else Lit ''no complete access token'' [])
                else None)))"

definition test_outcome :: "secret_env \<Rightarrow> (json \<Rightarrow> string) \<Rightarrow> (string \<Rightarrow> string \<Rightarrow> credential_answer) \<Rightarrow> qq_bot \<Rightarrow> string \<times> msg option" where
  "test_outcome env text_of platform b =
     (case se_decrypt env (qb_encrypted_app_secret b) of
        Inl m \<Rightarrow> (''error'', Some (clip 500 m))
      | Inr secret \<Rightarrow>
          (case validate_qq_credentials text_of (platform (qb_app_id b) secret) of
             None \<Rightarrow> (''valid'', None)
           | Some (invalid, m) \<Rightarrow> (if invalid then ''invalid'' else ''error'', Some (clip 500 m))))"

text \<open>Only the columns that differ from the row that was read are written.\<close>

definition tested_bot :: "qq_bot \<Rightarrow> string \<Rightarrow> msg option \<Rightarrow> time \<Rightarrow> qq_bot \<Rightarrow> qq_bot" where
  "tested_bot b verdict err checked_at x =
     x\<lparr>qb_verification_status := (if verdict = qb_verification_status b then qb_verification_status x else verdict),
       qb_last_error := (if err = qb_last_error b then qb_last_error x else err),
       qb_last_verified_at := Some checked_at\<rparr>"

definition test_bot :: "secret_env \<Rightarrow> (json \<Rightarrow> string) \<Rightarrow> (string \<Rightarrow> string \<Rightarrow> credential_answer) \<Rightarrow> (db \<Rightarrow> db) \<Rightarrow> time \<Rightarrow> int \<Rightarrow>
    db \<Rightarrow> db \<times> (api_error + string)" where
  "test_bot env text_of platform between checked_at i d =
     (case bot_at i d of
        Inl e \<Rightarrow> (d, Inl e)
      | Inr b \<Rightarrow>
          (let (verdict, err) = test_outcome env text_of platform b; d1 = between d in
           if row_get qb_id i (qq_bots d1) = None then (d1, Inl (ServerError ''bot deleted''))
           else (d1\<lparr>qq_bots := row_update (\<lambda>x. qb_id x = i) (tested_bot b verdict err checked_at) (qq_bots d1)\<rparr>, Inr verdict)))"

text \<open>The deletion of targets takes their subscriptions along and detaches their deliveries.\<close>

definition drop_targets :: "(qq_target \<Rightarrow> bool) \<Rightarrow> db \<Rightarrow> db" where
  "drop_targets p d =
     (let gone = map qt_id (filter p (qq_targets d)) in
      d\<lparr>qq_targets := filter (\<lambda>t. \<not> p t) (qq_targets d),
        qq_target_subs := filter (\<lambda>s. qs_target_id s \<notin> set gone) (qq_target_subs d),
        qq_deliveries := row_update (\<lambda>r. case qd_target_id r of None \<Rightarrow> False | Some t \<Rightarrow> t \<in> set gone)
          (\<lambda>r. r\<lparr>qd_target_id := None\<rparr>) (qq_deliveries d)\<rparr>)"

definition delete_bot :: "int \<Rightarrow> db \<Rightarrow> api_error + db" where
  "delete_bot i d =
     (case bot_at i d of
        Inl e \<Rightarrow> Inl e
      | Inr b \<Rightarrow>
          Inr ((drop_targets (\<lambda>t. qt_bot_id t = i) d)
            \<lparr>qq_bots := filter (\<lambda>x. qb_id x \<noteq> i) (qq_bots d),
             qq_groups := filter (\<lambda>g. qg_bot_id g \<noteq> i) (qq_groups d),
             qq_task_bots := filter (\<lambda>x. qkb_bot_id x \<noteq> i) (qq_task_bots d),
             qq_task_groups := filter (\<lambda>g. qkg_bot_id g \<noteq> i) (qq_task_groups d),
             listen_tasks := row_update (\<lambda>t. lt_qq_bot_id t = Some i) (\<lambda>t. t\<lparr>lt_qq_bot_id := None\<rparr>)
               (listen_tasks d)\<rparr>))"

subsection \<open>Targets\<close>

record target_create =
  tc_bot_id :: int
  tc_name :: string
  tc_group_openid :: string
  tc_listen_mode :: string
  tc_initial_sync_days :: int
  tc_is_enabled :: bool
  tc_all_monitored_users :: bool
  tc_monitored_user_ids :: "int list"
  tc_message_template :: string
  tc_template_variables :: "(string \<times> string) list"

definition variable_ok :: "string \<Rightarrow> bool" where
  "variable_ok k \<longleftrightarrow> k \<notin> set allowed_template_fields \<and> field_name k \<and> 2 \<le> length k \<and> length k \<le> 32"

definition listen_modes :: "string list" where
  "listen_modes = [''all'', ''original'', ''reply'', ''retweet'']"

text \<open>The payload of a new target after its validators.\<close>

definition checked_target :: "target_create \<Rightarrow> target_create option" where
  "checked_target p =
     (let t = normalize_message_template (strip (tc_message_template p)) (map fst (tc_template_variables p)) in
      if tc_listen_mode p \<in> set listen_modes \<and> 0 < tc_initial_sync_days p \<and> tc_initial_sync_days p \<le> 2147483647 \<and>
         0 < tc_bot_id p \<and> sized 1 100 (tc_name p) \<and> sized 3 128 (tc_group_openid p) \<and> length (tc_monitored_user_ids p) \<le> 1000 \<and> list_all (\<lambda>i. 0 < i) (tc_monitored_user_ids p) \<and>
         (tc_all_monitored_users p \<or> tc_monitored_user_ids p \<noteq> []) \<and> length (tc_message_template p) \<le> 2000 \<and>
         strip (tc_message_template p) \<noteq> [] \<and> list_all (\<lambda>(k, v). variable_ok k) (tc_template_variables p) \<and>
         template_fields t \<noteq> None
      then Some (p\<lparr>tc_monitored_user_ids := rev (remdups (rev (tc_monitored_user_ids p))), tc_message_template := t\<rparr>)
      else None)"

definition variables_json :: "(string \<times> string) list \<Rightarrow> json" where
  "variables_json vs = JObj (map (\<lambda>(k, v). (k, JStr v)) vs)"

definition new_target :: "time \<Rightarrow> int \<Rightarrow> string \<Rightarrow> target_create \<Rightarrow> qq_target" where
  "new_target now i template p =
     \<lparr>qt_id = i, qt_bot_id = tc_bot_id p, qt_name = strip (tc_name p), qt_group_openid = strip (tc_group_openid p),
      qt_is_enabled = tc_is_enabled p, qt_all_monitored_users = tc_all_monitored_users p, qt_listen_mode = tc_listen_mode p,
      qt_initial_sync_days = Some (tc_initial_sync_days p), qt_message_template = template,
      qt_template_variables = variables_json (tc_template_variables p), qt_created_at = now, qt_updated_at = now\<rparr>"

definition new_target_sub :: "time \<Rightarrow> int \<Rightarrow> int \<Rightarrow> qq_target_subscription" where
  "new_target_sub now t u = \<lparr>qs_target_id = t, qs_monitored_user_id = u, qs_created_at = now\<rparr>"

definition replace_subscriptions :: "time \<Rightarrow> int \<Rightarrow> bool \<Rightarrow> int list \<Rightarrow> db \<Rightarrow> api_error + db" where
  "replace_subscriptions now t every users d =
     (if \<not> every \<and> users = [] then Inl (Unprocessable ''qq_target_scope_required'')
      else if \<not> set users \<subseteq> mu_id ` set (monitored_users d) then Inl (Unprocessable ''monitored_users_not_found'')
      else let kept = filter (\<lambda>s. qs_target_id s \<noteq> t) (qq_target_subs d) in
        Inr (d\<lparr>qq_target_subs := if every then kept else kept @ map (new_target_sub now t) users\<rparr>))"

definition same_place :: "qq_target \<Rightarrow> qq_target \<Rightarrow> bool" where
  "same_place a b \<longleftrightarrow> qt_bot_id a = qt_bot_id b \<and> qt_group_openid a = qt_group_openid b"

text \<open>
  The new target, its subscriptions and the deliveries of its history are one transaction;
  a post that cannot be rendered fails it.
\<close>

definition create_target :: "render_env \<Rightarrow> qq_worker_cfg \<Rightarrow> time \<Rightarrow> target_create \<Rightarrow> db \<Rightarrow> api_error + db \<times> int list" where
  "create_target env cfg now p d =
     (case bot_at (tc_bot_id p) d of
        Inl e \<Rightarrow> Inl e
      | Inr b \<Rightarrow>
          (case validate_target_template d (tc_message_template p) (tc_template_variables p) of
             Inl e \<Rightarrow> Inl e
           | Inr template \<Rightarrow>
               (let t = new_target now (serial d) template p in
                if list_ex (same_place t) (qq_targets d) then Inl (Conflict ''qq_target_exists'')
                else case replace_subscriptions now (qt_id t) (tc_all_monitored_users p) (tc_monitored_user_ids p)
                    (d\<lparr>qq_targets := qq_targets d @ [t], serial := serial d + 1\<rparr>) of
                  Inl e \<Rightarrow> Inl e
                | Inr d1 \<Rightarrow>
                    (case create_target_history_deliveries env now (qq_worker_max_attempts cfg) t d1 of
                       None \<Rightarrow> Inl (ServerError ''a message cannot be rendered'')
                     | Some (d2, ids) \<Rightarrow> Inr (d2, ids)))))"

record target_update =
  tu_bot_id :: "int option option"
  tu_name :: "string option option"
  tu_group_openid :: "string option option"
  tu_listen_mode :: "string option"
  tu_is_enabled :: "bool option option"
  tu_all_monitored_users :: "bool option option"
  tu_monitored_user_ids :: "int list option option"
  tu_message_template :: "string option option"
  tu_template_variables :: "(string \<times> string) list option option"

text \<open>
  The payload of a change after its validators; a template is folded with the variables of
  the same payload only.
\<close>

definition checked_update :: "target_update \<Rightarrow> target_update option" where
  "checked_update u =
     (let vs = given (tu_template_variables u) [];
          template = map_option (map_option (\<lambda>s. normalize_message_template (strip s) (map fst vs))) (tu_message_template u) in
      if (case tu_listen_mode u of None \<Rightarrow> True | Some m \<Rightarrow> m \<in> set listen_modes) \<and>
         0 < given (tu_bot_id u) 1 \<and> sized 1 100 (given (tu_name u) ''-'') \<and> sized 3 128 (given (tu_group_openid u) ''---'') \<and>
         length (given (tu_monitored_user_ids u) []) \<le> 1000 \<and> list_all (\<lambda>i. 0 < i) (given (tu_monitored_user_ids u) []) \<and>
         length (given (tu_message_template u) []) \<le> 2000 \<and> list_all (\<lambda>(k, v). variable_ok k) vs \<and>
         (case template of Some (Some t) \<Rightarrow> t \<noteq> [] \<and> template_fields t \<noteq> None | _ \<Rightarrow> True)
      then Some (u\<lparr>tu_monitored_user_ids := map_option (map_option (\<lambda>is. rev (remdups (rev is)))) (tu_monitored_user_ids u),
          tu_message_template := template\<rparr>)
      else None)"

definition only_disables :: "target_update \<Rightarrow> bool" where
  "only_disables u \<longleftrightarrow>
     tu_is_enabled u = Some (Some False) \<and> tu_bot_id u = None \<and> tu_name u = None \<and> tu_group_openid u = None \<and>
     tu_listen_mode u = None \<and> tu_all_monitored_users u = None \<and> tu_monitored_user_ids u = None \<and>
     tu_message_template u = None \<and> tu_template_variables u = None"

definition edited_target :: "target_update \<Rightarrow> qq_target \<Rightarrow> qq_target" where
  "edited_target u t =
     t\<lparr>qt_bot_id := given (tu_bot_id u) (qt_bot_id t),
       qt_name := (if tu_name u = None then qt_name t else strip (given (tu_name u) [])),
       qt_group_openid := (if tu_group_openid u = None then qt_group_openid t else strip (given (tu_group_openid u) [])),
       qt_is_enabled := given (tu_is_enabled u) (qt_is_enabled t),
       qt_all_monitored_users := (if tu_all_monitored_users u = None then qt_all_monitored_users t
          else given (tu_all_monitored_users u) False),
       qt_message_template := given (tu_message_template u) (qt_message_template t),
       qt_template_variables := (case tu_template_variables u of
          None \<Rightarrow> qt_template_variables t | Some None \<Rightarrow> JNull | Some (Some vs) \<Rightarrow> variables_json vs),
       qt_listen_mode := (case tu_listen_mode u of None \<Rightarrow> qt_listen_mode t | Some m \<Rightarrow> m)\<rparr>"

text \<open>The subscriptions a change asks for, if it touches them.\<close>

definition asked_users :: "target_update \<Rightarrow> int \<Rightarrow> db \<Rightarrow> int list option" where
  "asked_users u i d =
     (if tu_monitored_user_ids u \<noteq> None then Some (given (tu_monitored_user_ids u) [])
      else if tu_all_monitored_users u \<noteq> None
      then Some (map qs_monitored_user_id (filter (\<lambda>s. qs_target_id s = i) (qq_target_subs d)))
      else None)"

definition update_target :: "time \<Rightarrow> int \<Rightarrow> target_update \<Rightarrow> db \<Rightarrow> api_error + db" where
  "update_target now i u d =
     (case row_get qt_id i (qq_targets d) of
        None \<Rightarrow> Inl (NotFound ''qq_target_not_found'')
      | Some t \<Rightarrow>
          (let t1 = edited_target u t;
               template = (if only_disables u then Inr (qt_message_template t1)
                 else validate_target_template d (qt_message_template t1) (string_items (qt_template_variables t1))) in
           if tu_bot_id u \<noteq> None \<and> row_get qb_id (given (tu_bot_id u) 0) (qq_bots d) = None then Inl (NotFound ''qq_bot_not_found'')
           else if tu_name u = Some None \<or> tu_group_openid u = Some None then Inl (ServerError ''strip of null'')
           else if tu_message_template u = Some None then Inl (ServerError ''null template'')
           else case template of
             Inl e \<Rightarrow> Inl e
           | Inr s \<Rightarrow>
               (case (case asked_users u i d of
                        None \<Rightarrow> Inr d | Some users \<Rightarrow> replace_subscriptions now i (qt_all_monitored_users t1) users d) of
                  Inl e \<Rightarrow> Inl e
                | Inr d1 \<Rightarrow>
                    (let t2 = t1\<lparr>qt_message_template := s, qt_updated_at := now\<rparr> in
                     if tu_is_enabled u = Some None \<or> tu_all_monitored_users u = Some None \<or>
                        list_ex (\<lambda>x. qt_id x \<noteq> i \<and> same_place t2 x) (qq_targets d1)
                     then Inl (Conflict ''qq_target_exists'')
                     else Inr (d1\<lparr>qq_targets := row_put qt_id t2 (qq_targets d1)\<rparr>)))))"

definition delete_target :: "int \<Rightarrow> db \<Rightarrow> api_error + db" where
  "delete_target i d =
     (if row_get qt_id i (qq_targets d) = None then Inl (NotFound ''qq_target_not_found'')
      else Inr (drop_targets (\<lambda>t. qt_id t = i) d))"

definition test_target :: "qq_worker_cfg \<Rightarrow> time \<Rightarrow> string \<Rightarrow> int \<Rightarrow> db \<Rightarrow> api_error + db \<times> int list" where
  "test_target cfg now fresh i d =
     (case row_get qt_id i (qq_targets d) of
        None \<Rightarrow> Inl (NotFound ''qq_target_not_found'')
      | Some t \<Rightarrow>
          (case bot_at (qt_bot_id t) d of
             Inl e \<Rightarrow> Inl e
           | Inr b \<Rightarrow>
               (if \<not> qt_is_enabled t \<or> \<not> qb_is_enabled b then Inl (Conflict ''qq_target_disabled'')
                else Inr (create_test_delivery now (qq_worker_max_attempts cfg) fresh t b d))))"

subsection \<open>Placeholders\<close>

definition placeholder_key :: "string \<Rightarrow> string" where
  "placeholder_key p = butlast (tl p)"

definition placeholder_write_ok :: "string \<Rightarrow> string \<Rightarrow> bool" where
  "placeholder_write_ok p f \<longleftrightarrow>
     p = ''{'' @ placeholder_key p @ ''}'' \<and> field_name (placeholder_key p) \<and> length (placeholder_key p) \<le> 64 \<and> f \<in> set source_fields"

definition ensure_no_variable_collision :: "string \<Rightarrow> db \<Rightarrow> bool" where
  "ensure_no_variable_collision p d \<longleftrightarrow>
     list_all (\<lambda>t. placeholder_key p \<notin> fst ` set (string_items (qt_template_variables t))) (qq_targets d)"

definition new_placeholder :: "time \<Rightarrow> int \<Rightarrow> string \<Rightarrow> string \<Rightarrow> qq_placeholder" where
  "new_placeholder now i p f = \<lparr>qp_id = i, qp_placeholder = p, qp_source_field = f, qp_created_at = now, qp_updated_at = now\<rparr>"

definition create_placeholder :: "time \<Rightarrow> string \<Rightarrow> string \<Rightarrow> db \<Rightarrow> api_error + db" where
  "create_placeholder now p f d =
     (if \<not> placeholder_write_ok p f then Inl (Unprocessable ''payload'')
      else if \<not> ensure_no_variable_collision p d then Inl (Conflict ''qq_placeholder_collision'')
      else if p \<in> qp_placeholder ` set (qq_placeholders d) then Inl (Conflict ''qq_placeholder_exists'')
      else Inr (d\<lparr>qq_placeholders := qq_placeholders d @ [new_placeholder now (serial d) p f], serial := serial d + 1\<rparr>))"

text \<open>Whether some target uses a placeholder; \<open>None\<close> is the exception on a template that does not parse.\<close>

fun used_by_targets :: "string \<Rightarrow> qq_target list \<Rightarrow> bool option" where
  "used_by_targets key [] = Some False"
| "used_by_targets key (t # ts) =
     (case template_fields (normalize_message_template (qt_message_template t) [key]) of
        None \<Rightarrow> None
      | Some fs \<Rightarrow> if key \<in> set fs then Some True else used_by_targets key ts)"

text \<open>The checks read without a lock; the change is written on what is committed by then.\<close>

definition update_placeholder :: "(db \<Rightarrow> db) \<Rightarrow> time \<Rightarrow> int \<Rightarrow> string \<Rightarrow> string \<Rightarrow> db \<Rightarrow> db \<times> (api_error + unit)" where
  "update_placeholder between now i p f d =
     (case row_get qp_id i (qq_placeholders d) of
        None \<Rightarrow> (d, Inl (NotFound ''qq_placeholder_not_found''))
      | Some x \<Rightarrow>
          (let d1 = between d;
               store = (if \<not> list_ex (\<lambda>y. qp_id y = i) (qq_placeholders d1) then (d1, Inl (ServerError ''placeholder deleted''))
                 else if list_ex (\<lambda>y. qp_id y \<noteq> i \<and> qp_placeholder y = p) (qq_placeholders d1)
                 then (d1, Inl (Conflict ''qq_placeholder_exists''))
                 else (d1\<lparr>qq_placeholders := row_update (\<lambda>y. qp_id y = i)
                     (\<lambda>y. y\<lparr>qp_placeholder := p, qp_source_field := f, qp_updated_at := now\<rparr>) (qq_placeholders d1)\<rparr>, Inr ())) in
           if \<not> placeholder_write_ok p f then (d, Inl (Unprocessable ''payload''))
           else if p = qp_placeholder x then store
           else if placeholder_key (qp_placeholder x) \<in> set allowed_template_fields then (d, Inl (Conflict ''qq_placeholder_in_use''))
           else case used_by_targets (placeholder_key (qp_placeholder x)) (qq_targets d) of
             None \<Rightarrow> (d, Inl (ServerError ''template does not parse''))
           | Some True \<Rightarrow> (d, Inl (Conflict ''qq_placeholder_in_use''))
           | Some False \<Rightarrow>
               if \<not> ensure_no_variable_collision p d then (d, Inl (Conflict ''qq_placeholder_collision'')) else store))"

text \<open>Whether \<open>s\<close> contains \<open>p\<close>.\<close>

fun has_part :: "string \<Rightarrow> string \<Rightarrow> bool" where
  "has_part p [] \<longleftrightarrow> p = []"
| "has_part p (c # cs) \<longleftrightarrow> starts_with p (c # cs) \<or> has_part p cs"

definition uses_placeholder :: "qq_placeholder \<Rightarrow> qq_target \<Rightarrow> bool" where
  "uses_placeholder x t \<longleftrightarrow>
     (let template = normalize_message_template (qt_message_template t) [placeholder_key (qp_placeholder x)] in
      case template_fields template of
        None \<Rightarrow> has_part (qp_placeholder x) template
      | Some fs \<Rightarrow> placeholder_key (qp_placeholder x) \<in> set fs)"

text \<open>The row lock excludes the routes that validate a template, which share it until they commit.\<close>

definition delete_placeholder :: "int \<Rightarrow> db \<Rightarrow> api_error + db" where
  "delete_placeholder i d =
     (case row_get qp_id i (qq_placeholders d) of
        None \<Rightarrow> Inl (NotFound ''qq_placeholder_not_found'')
      | Some x \<Rightarrow>
          (if list_ex (uses_placeholder x) (qq_targets d) then Inl (Conflict ''qq_placeholder_in_use'')
           else Inr (d\<lparr>qq_placeholders := filter (\<lambda>y. qp_id y \<noteq> i) (qq_placeholders d)\<rparr>)))"

subsection \<open>Pushes by hand\<close>

record batch_push =
  bp_bot_id :: int
  bp_group_openids :: "string list"
  bp_tweet_ids :: "int list"

text \<open>\<open>s.replace(p, '')\<close>.\<close>

function remove_all :: "string \<Rightarrow> string \<Rightarrow> string" where
  "remove_all p s =
     (if p \<noteq> [] \<and> p = take (length p) s then remove_all p (drop (length p) s)
      else case s of [] \<Rightarrow> [] | c # cs \<Rightarrow> c # remove_all p cs)"
  by pat_completeness auto

termination
proof (relation "measure (\<lambda>(p, s). length s)")
  fix p s :: string
  assume "p \<noteq> [] \<and> p = take (length p) s"
  then have "s \<noteq> []" "0 < length p" by (metis take_Nil, simp)
  then show "((p, drop (length p) s), p, s) \<in> measure (\<lambda>(p, s). length s)" by simp
qed simp_all

definition push_groups :: "batch_push \<Rightarrow> string list" where
  "push_groups p = filter (\<lambda>g. g \<noteq> []) (map strip (bp_group_openids p))"

definition batch_push_ok :: "batch_push \<Rightarrow> bool" where
  "batch_push_ok p \<longleftrightarrow>
     0 < bp_bot_id p \<and> bp_group_openids p \<noteq> [] \<and> length (bp_group_openids p) \<le> 100 \<and> push_groups p \<noteq> [] \<and>
     bp_tweet_ids p \<noteq> [] \<and> length (bp_tweet_ids p) \<le> 100"

definition joined_openids :: "qq_bot \<Rightarrow> string list \<Rightarrow> db \<Rightarrow> string list" where
  "joined_openids b groups d =
     sort_key (map (of_char :: char \<Rightarrow> nat)) (remdups (map qg_group_openid (filter
       (\<lambda>g. in_group b (qg_group_openid g) g \<and> qg_group_openid g \<in> set groups) (qq_groups d))))"

definition push_template :: "qq_bot \<Rightarrow> string \<Rightarrow> db \<Rightarrow> string \<times> json" where
  "push_template b grp d =
     (let ms = load_placeholder_mappings d in
      case find (\<lambda>t. qt_bot_id t = qb_id b \<and> qt_group_openid t = grp) (qq_targets d) of
        None \<Rightarrow> (normalize_message_template (default_mapped_template ms) (map fst ms), JNull)
      | Some t \<Rightarrow>
          (normalize_message_template (qt_message_template t) (map fst ms @ map fst (string_items (qt_template_variables t))),
           qt_template_variables t))"

text \<open>The entries of one group; \<open>None\<close> when a message cannot be rendered.\<close>

fun push_entries :: "render_env \<Rightarrow> string \<Rightarrow> json \<Rightarrow> db \<Rightarrow> tweet list \<Rightarrow> string list option" where
  "push_entries env body variables d [] = Some []"
| "push_entries env body variables d (tw # tws) =
     (case row_get mu_id (tw_monitored_user_id tw) (monitored_users d) of
        None \<Rightarrow> push_entries env body variables d tws
      | Some u \<Rightarrow>
          (case render_qq_message env body tw u variables (Some (load_placeholder_mappings d)) of
             None \<Rightarrow> None
           | Some m \<Rightarrow> map_option ((#) m) (push_entries env body variables d tws)))"

definition group_messages :: "render_env \<Rightarrow> qq_bot \<Rightarrow> tweet list \<Rightarrow> db \<Rightarrow> string \<Rightarrow> string list option" where
  "group_messages env b tws d grp =
     (let (template, variables) = push_template b grp d;
          titled = map_of (load_placeholder_mappings d) ''title'' = Some ''title'';
          body = (if titled then strip (remove_all ''{title}'' template) else template);
          header = (if has_part ''{title}'' template \<and> titled then [re_title env] else []) in
      map_option ((@) header) (push_entries env body variables d tws))"

definition batch_delivery :: "time \<Rightarrow> int \<Rightarrow> qq_bot \<Rightarrow> string \<Rightarrow> string \<Rightarrow> string \<Rightarrow> qq_delivery" where
  "batch_delivery now m b grp key body =
     \<lparr>qd_id = 0, qd_task_id = None, qd_target_id = None, qd_source_tweet_id = None, qd_article_id = None,
      qd_article_publish_attempt_id = None, qd_sequence = None, qd_media_path = None, qd_kind = ''batch'',
      qd_idempotency_key = ''batch:'' @ key, qd_bot_name = qb_name b, qd_bot_app_id = qb_app_id b, qd_bot_version = qb_version b,
      qd_target_name = grp, qd_group_openid = grp, qd_message_body = Text body, qd_status = ''queued'', qd_attempts = 0,
      qd_max_attempts = m, qd_next_attempt_at = now, qd_lease_expires_at = None, qd_claim_token = None, qd_claimed_by = None,
      qd_provider_message_id = None, qd_last_error = None, qd_started_at = None, qd_completed_at = None, qd_created_at = now,
      qd_updated_at = now\<rparr>"

text \<open>The chunks of all groups in their order, with the group.\<close>

definition push_chunks :: "(string \<times> string list) list \<Rightarrow> (string \<times> string) list" where
  "push_chunks gs = concat (map (\<lambda>(grp, items). map (Pair grp) (chunk_qq_messages qq_message_max_chars items)) gs)"

text \<open>\<open>fresh\<close> numbers the random keys.\<close>

definition batch_push :: "render_env \<Rightarrow> qq_worker_cfg \<Rightarrow> time \<Rightarrow> (nat \<Rightarrow> string) \<Rightarrow> batch_push \<Rightarrow> db \<Rightarrow> api_error + db \<times> int list" where
  "batch_push env cfg now fresh p d =
     (case (if batch_push_ok p then bot_at (bp_bot_id p) d else Inl (Unprocessable ''payload'')) of
        Inl e \<Rightarrow> Inl e
      | Inr b \<Rightarrow>
          (let groups = push_groups p; joined = joined_openids b groups d;
               tws = sort_key tw_posted_at (filter (\<lambda>t. tw_id t \<in> set (bp_tweet_ids p)) (tweets d)) in
           if \<not> qb_is_enabled b then Inl (Conflict ''qq_bot_disabled'')
           else if \<not> set groups \<subseteq> set joined then Inl (Unprocessable ''qq_group_not_joined'')
           else if tws = [] then Inl (NotFound ''tweets_not_found'')
           else case those (map (group_messages env b tws d) joined) of
             None \<Rightarrow> Inl (ServerError ''a message cannot be rendered'')
           | Some items \<Rightarrow>
               (if list_all (\<lambda>is. is = []) items then Inl (NotFound ''tweets_not_found'')
                else Inr (add_deliveries
                  (map (\<lambda>(k, grp, body). batch_delivery now (qq_worker_max_attempts cfg) b grp (fresh k) body)
                    (enumerate 0 (push_chunks (zip joined items)))) d))))"

subsection \<open>Scheduled tasks\<close>

record task_payload =
  kp_name :: string
  kp_message :: string
  kp_frequency :: string
  kp_interval_value :: int
  kp_run_time :: string
  kp_weekdays :: "int list"
  kp_month_day :: "int option"
  kp_is_enabled :: bool
  kp_send_immediately :: bool
  kp_bot_ids :: "int list"
  kp_groups :: "(int \<times> string) list"

definition frequencies :: "string list" where
  "frequencies = [''secondly'', ''minutely'', ''hourly'', ''daily'', ''weekly'', ''monthly'']"

text \<open>\<open>run_time_ok\<close>: the pattern of the schema, \<open>HH:MM:SS\<close>.\<close>

definition two_digits :: "nat \<Rightarrow> string \<Rightarrow> bool" where
  "two_digits limit s \<longleftrightarrow> length s = 2 \<and> list_all is_digit s \<and> read_nat 0 s < limit"

definition run_time_ok :: "string \<Rightarrow> bool" where
  "run_time_ok s \<longleftrightarrow>
     (case split_on (CHR '':'') s of [h, m, sec] \<Rightarrow> two_digits 24 h \<and> two_digits 60 m \<and> two_digits 60 sec | _ \<Rightarrow> False)"

definition task_payload_ok :: "task_payload \<Rightarrow> bool" where
  "task_payload_ok p \<longleftrightarrow>
     1 \<le> length (kp_name p) \<and> length (kp_name p) \<le> 100 \<and> 1 \<le> length (kp_message p) \<and> length (kp_message p) \<le> 2000 \<and>
     kp_frequency p \<in> set frequencies \<and> 1 \<le> kp_interval_value p \<and> kp_interval_value p \<le> 365 \<and> run_time_ok (kp_run_time p) \<and>
     length (kp_weekdays p) \<le> 7 \<and> (case kp_month_day p of None \<Rightarrow> True | Some m \<Rightarrow> 1 \<le> m \<and> m \<le> 31) \<and>
     kp_bot_ids p \<noteq> [] \<and> length (kp_bot_ids p) \<le> 50 \<and> kp_groups p \<noteq> [] \<and> length (kp_groups p) \<le> 100"

definition weekdays_text :: "int list \<Rightarrow> string" where
  "weekdays_text ws = join '','' (map show_int ws)"

text \<open>The list of days is passed as the text that is stored, which the calendar reads back.\<close>

definition payload_next_run :: "(string \<Rightarrow> int option) \<Rightarrow> zone \<Rightarrow> time \<Rightarrow> task_payload \<Rightarrow> time option" where
  "payload_next_run read_int z now p =
     next_qq_task_run read_int z (kp_frequency p) (kp_interval_value p) (kp_run_time p) (weekdays_text (kp_weekdays p)) (kp_month_day p) now"

text \<open>
  The bots and groups of a task: unknown bots and a group that is given twice violate a
  constraint, which no handler expects.
\<close>

definition link_task :: "int \<Rightarrow> task_payload \<Rightarrow> db \<Rightarrow> api_error + db" where
  "link_task i p d =
     (if \<not> distinct (kp_groups p) \<or> \<not> set (kp_bot_ids p) \<union> fst ` set (kp_groups p) \<subseteq> qb_id ` set (qq_bots d)
      then Inl (ServerError ''integrity'')
      else Inr (d\<lparr>qq_task_bots := qq_task_bots d @ map (\<lambda>b. \<lparr>qkb_task_id = i, qkb_bot_id = b\<rparr>) (remdups (kp_bot_ids p)),
                  qq_task_groups := qq_task_groups d @
                    map (\<lambda>(b, g). \<lparr>qkg_task_id = i, qkg_bot_id = b, qkg_group_openid = g\<rparr>) (kp_groups p)\<rparr>))"

definition create_qq_task :: "(string \<Rightarrow> int option) \<Rightarrow> zone \<Rightarrow> time \<Rightarrow> task_payload \<Rightarrow> db \<Rightarrow> api_error + db" where
  "create_qq_task read_int z now p d =
     (if \<not> task_payload_ok p then Inl (Unprocessable ''payload'')
      else case (if kp_send_immediately p then Some now else payload_next_run read_int z now p) of
        None \<Rightarrow> Inl (ServerError ''no next run'')
      | Some t \<Rightarrow>
          link_task (serial d) p
            (d\<lparr>qq_tasks := qq_tasks d @ [\<lparr>qk_id = serial d, qk_name = strip (kp_name p), qk_message = strip (kp_message p),
                 qk_frequency = kp_frequency p, qk_interval_value = kp_interval_value p, qk_run_time = kp_run_time p,
                 qk_weekdays = weekdays_text (kp_weekdays p), qk_month_day = kp_month_day p, qk_is_enabled = kp_is_enabled p,
                 qk_next_run_at = t, qk_last_run_at = None, qk_created_at = now, qk_updated_at = now\<rparr>],
               serial := serial d + 1\<rparr>))"

text \<open>A change replaces everything, takes the texts as they are and ignores \<open>send_immediately\<close>.\<close>

definition update_qq_task :: "(string \<Rightarrow> int option) \<Rightarrow> zone \<Rightarrow> time \<Rightarrow> int \<Rightarrow> task_payload \<Rightarrow> db \<Rightarrow> api_error + db" where
  "update_qq_task read_int z now i p d =
     (if \<not> task_payload_ok p then Inl (Unprocessable ''payload'')
      else case row_get qk_id i (qq_tasks d) of
        None \<Rightarrow> Inl (NotFound ''qq_task_not_found'')
      | Some t \<Rightarrow>
          (case payload_next_run read_int z now p of
             None \<Rightarrow> Inl (ServerError ''no next run'')
           | Some next_run \<Rightarrow>
               link_task i p
                 (d\<lparr>qq_tasks := row_put qk_id (t\<lparr>qk_name := kp_name p, qk_message := kp_message p, qk_frequency := kp_frequency p,
                      qk_interval_value := kp_interval_value p, qk_run_time := kp_run_time p, qk_month_day := kp_month_day p,
                      qk_is_enabled := kp_is_enabled p, qk_weekdays := weekdays_text (kp_weekdays p), qk_updated_at := now,
                      qk_next_run_at := next_run\<rparr>) (qq_tasks d),
                    qq_task_bots := filter (\<lambda>x. qkb_task_id x \<noteq> i) (qq_task_bots d),
                    qq_task_groups := filter (\<lambda>g. qkg_task_id g \<noteq> i) (qq_task_groups d)\<rparr>)))"

definition manual_delivery :: "time \<Rightarrow> int \<Rightarrow> string \<Rightarrow> qq_scheduled_task \<Rightarrow> qq_bot \<Rightarrow> string \<Rightarrow> qq_delivery" where
  "manual_delivery now m run t b grp =
     (scheduled_delivery (\<lambda>_. []) now m t b grp)
       \<lparr>qd_idempotency_key := ''manual-task:'' @ run @ '':'' @ show_int (qb_id b) @ '':'' @ grp\<rparr>"

definition push_task_now :: "qq_worker_cfg \<Rightarrow> time \<Rightarrow> string \<Rightarrow> int \<Rightarrow> db \<Rightarrow> api_error + db \<times> int list" where
  "push_task_now cfg now run i d =
     (case row_get qk_id i (qq_tasks d) of
        None \<Rightarrow> Inl (NotFound ''qq_task_not_found'')
      | Some t \<Rightarrow>
          (let rows = map (\<lambda>(b, grp). manual_delivery now (qq_worker_max_attempts cfg) run t b grp)
                 (task_destinations d i (rev (remdups (rev (qq_task_groups d))))) in
           if rows = [] then Inl (Conflict ''qq_task_no_recipients'') else Inr (add_deliveries rows d)))"

definition delete_qq_task :: "int \<Rightarrow> db \<Rightarrow> api_error + db" where
  "delete_qq_task i d =
     (if row_get qk_id i (qq_tasks d) = None then Inl (NotFound ''qq_task_not_found'')
      else Inr (d\<lparr>qq_tasks := filter (\<lambda>t. qk_id t \<noteq> i) (qq_tasks d),
                  qq_task_bots := filter (\<lambda>x. qkb_task_id x \<noteq> i) (qq_task_bots d),
                  qq_task_groups := filter (\<lambda>g. qkg_task_id g \<noteq> i) (qq_task_groups d),
                  qq_deliveries := row_update (\<lambda>r. qd_task_id r = Some i) (\<lambda>r. r\<lparr>qd_task_id := None\<rparr>) (qq_deliveries d)\<rparr>))"

subsection \<open>Records of deliveries\<close>

definition auto_dispatch :: "qq_delivery \<Rightarrow> db \<Rightarrow> publish_dispatch option" where
  "auto_dispatch r d =
     (case qd_article_publish_attempt_id r of
        None \<Rightarrow> None
      | Some a \<Rightarrow> find (\<lambda>x. dp_channel x = ''qq'' \<and> dp_article_publish_attempt_id x = Some a) (dispatches d))"

definition auto_accepted :: "qq_delivery \<Rightarrow> db \<Rightarrow> bool" where
  "auto_accepted r d \<longleftrightarrow>
     (case qd_article_publish_attempt_id r of
        None \<Rightarrow> False
      | Some a \<Rightarrow> list_ex (\<lambda>x. dp_channel x = ''qq'' \<and> dp_article_publish_attempt_id x = Some a \<and> dp_status x = ''accepted'')
          (dispatches d))"

definition protected_delivery :: "db \<Rightarrow> qq_delivery \<Rightarrow> bool" where
  "protected_delivery d r \<longleftrightarrow>
     qd_status r = ''sending'' \<or> auto_accepted r d \<or>
     (qd_status r \<in> {''queued'', ''retry_wait''} \<and> auto_dispatch r d \<noteq> None)"

definition drop_deliveries :: "(qq_delivery \<Rightarrow> bool) \<Rightarrow> db \<Rightarrow> db" where
  "drop_deliveries p d = d\<lparr>qq_deliveries := filter (\<lambda>r. \<not> p r) (qq_deliveries d)\<rparr>"

text \<open>
  Check, deletion and second check see what is committed by then; a rejection after the
  deletion takes it back, but not what other transactions did meanwhile.
\<close>

definition clear_when :: "(db \<Rightarrow> qq_delivery \<Rightarrow> bool) \<Rightarrow> (db \<Rightarrow> qq_delivery \<Rightarrow> bool) \<Rightarrow> (nat \<Rightarrow> db \<Rightarrow> db) \<Rightarrow> db \<Rightarrow> db \<times> (api_error + unit)" where
  "clear_when active gone between d =
     (if list_ex (active d) (qq_deliveries d) then (d, Inl (Conflict ''qq_delivery_active''))
      else let d1 = between 0 d; d2 = between 1 (drop_deliveries (gone d1) d1) in
        if list_ex (active d2) (qq_deliveries d2) then (between 1 d1, Inl (Conflict ''qq_delivery_active''))
        else (d2, Inr ()))"

definition clear_task_history :: "(nat \<Rightarrow> db \<Rightarrow> db) \<Rightarrow> int \<Rightarrow> db \<Rightarrow> db \<times> (api_error + unit)" where
  "clear_task_history between i d =
     (if row_get qk_id i (qq_tasks d) = None then (d, Inl (NotFound ''qq_task_not_found''))
      else clear_when (\<lambda>_ r. qd_task_id r = Some i \<and> qd_status r = ''sending'')
        (\<lambda>_ r. qd_task_id r = Some i \<and> qd_status r \<noteq> ''sending'') between d)"

definition clear_deliveries :: "(nat \<Rightarrow> db \<Rightarrow> db) \<Rightarrow> db \<Rightarrow> db \<times> (api_error + unit)" where
  "clear_deliveries between d = clear_when protected_delivery (\<lambda>d1 r. \<not> protected_delivery d1 r) between d"

definition delete_delivery :: "int \<Rightarrow> db \<Rightarrow> api_error + db" where
  "delete_delivery i d =
     (case qd_get i d of
        None \<Rightarrow> Inl (NotFound ''qq_delivery_not_found'')
      | Some r \<Rightarrow>
          (if qd_status r = ''sending'' \<or>
              (case auto_dispatch r d of
                 None \<Rightarrow> False
               | Some x \<Rightarrow> dp_status x = ''accepted'' \<or> qd_status r \<in> {''queued'', ''retry_wait''})
           then Inl (Conflict ''qq_delivery_active'')
           else Inr (drop_deliveries (\<lambda>x. qd_id x = i) d)))"

definition requeued_delivery :: "time \<Rightarrow> qq_delivery \<Rightarrow> qq_delivery" where
  "requeued_delivery now r =
     r\<lparr>qd_status := ''queued'', qd_attempts := 0, qd_next_attempt_at := now, qd_completed_at := None, qd_last_error := None,
       qd_claim_token := None, qd_claimed_by := None, qd_lease_expires_at := None\<rparr>"

definition retry_delivery :: "time \<Rightarrow> int \<Rightarrow> db \<Rightarrow> api_error + db" where
  "retry_delivery now i d =
     (case qd_get i d of
        None \<Rightarrow> Inl (NotFound ''qq_delivery_not_found'')
      | Some r \<Rightarrow>
          (if qd_status r \<notin> {''failed'', ''cancelled''} then Inl (Conflict ''qq_delivery_not_retryable'')
           else if starts_with ''ai:'' (qd_idempotency_key r) \<or> auto_dispatch r d \<noteq> None
           then Inl (Conflict ''qq_auto_delivery_retry_forbidden'')
           else Inr (put_delivery (requeued_delivery now r) d)))"

end
