(* ===== verification/QQRouteSafety.thy ===== *)
theory QQRouteSafety
  imports ArticleRoutes QQRoutes
begin

text \<open>
  The routes of QQ notifications among all other transactions: a stored template is
  rendered for every post, and neither pushes, retries nor deletions disturb what the
  delivery workers guarantee.
\<close>

subsection \<open>Added deliveries\<close>

definition plain_delivery :: "qq_delivery \<Rightarrow> bool" where
  "plain_delivery r \<longleftrightarrow>
     qd_kind r \<noteq> ''article'' \<and> qd_sequence r = None \<and> qd_claim_token r = None \<and> qd_status r = ''queued''"

inductive added :: "db \<Rightarrow> db \<Rightarrow> bool" where
  none: "added d d"
| more: "added d d1 \<Longrightarrow> \<forall>r \<in> set rows. plain_delivery r \<Longrightarrow> added d (fst (add_deliveries rows d1))"

lemma added_one: "\<forall>r \<in> set rows. plain_delivery r \<Longrightarrow> added d (fst (add_deliveries rows d))"
  by (rule added.more[OF added.none])

lemma added_trans:
  assumes "added d1 d2" and "added d d1"
  shows "added d d2"
  using assms by (induction rule: added.induct) (auto intro: added.intros)

lemma added_same:
  "added d d' \<Longrightarrow> qq_targets d' = qq_targets d \<and> qq_placeholders d' = qq_placeholders d \<and> serial d \<le> serial d'"
  by (induction rule: added.induct) (auto simp: add_deliveries_def Let_def)

lemma target_rows_plain: "target_rows env now m ms d tw u ts = Some rows \<Longrightarrow> \<forall>r \<in> set rows. plain_delivery r"
  by (induction ts arbitrary: rows) (auto simp: tweet_delivery_def plain_delivery_def split: if_splits option.splits)

lemma tweet_rows_plain: "tweet_rows env now m ms d ts tws = Some rows \<Longrightarrow> \<forall>r \<in> set rows. plain_delivery r"
  by (induction tws arbitrary: rows) (auto dest!: target_rows_plain split: option.splits)

lemma tweets_added:
  assumes "create_tweet_deliveries env now m only xids d = Some (d', ids)"
  shows "added d d'"
proof -
  let ?tws = "filter (\<lambda>t. tw_tweet_id t \<in> set xids) (tweets d)"
  let ?rows = "tweet_rows env now m (load_placeholder_mappings d) d (enabled_targets only d) ?tws"
  show ?thesis
  proof (cases "xids = [] \<or> ?tws = [] \<or> enabled_targets only d = []")
    case True
    then have "d' = d" using assms by (simp only: create_tweet_deliveries_def Let_def if_True option.inject prod.inject)
    then show ?thesis by (simp add: added.none)
  next
    case False
    then have "map_option (\<lambda>rows. add_deliveries rows d) ?rows = Some (d', ids)"
      using assms by (simp only: create_tweet_deliveries_def Let_def if_False)
    then obtain rows where "?rows = Some rows" "add_deliveries rows d = (d', ids)" by blast
    then show ?thesis using added_one[OF tweet_rows_plain, of env now m _ d _ ?tws rows d] by simp
  qed
qed

lemma history_loop_added: "history_loop env now m target p tws last_id d = Some (d', ids) \<Longrightarrow> added d d'"
proof (induction env now m target p tws last_id d arbitrary: d' ids rule: history_loop.induct)
  case (1 env now m target p tws last_id d)
  let ?page = "history_page p last_id tws"
  show ?case
  proof (cases "?page = []")
    case True
    then show ?thesis using "1.prems" by (simp add: history_loop.simps[of env now m target p tws] added.none)
  next
    case False
    then obtain d1 ids1 d2 ids2 where one: "create_tweet_deliveries env now m (Some target) (map tw_tweet_id ?page) d = Some (d1, ids1)"
      and two: "history_loop env now m target p tws (tw_id (last ?page)) d1 = Some (d2, ids2)" and d': "d' = d2"
      using "1.prems" by (auto simp: history_loop.simps[of env now m target p tws] Let_def split: option.splits)
    have "added d1 d2" using "1.IH"[OF HOL.refl False one HOL.refl two] .
    then show ?thesis using tweets_added[OF one] d' by (blast intro: added_trans)
  qed
qed

lemma history_added:
  assumes "create_target_history_deliveries env now m t d = Some (d', ids)"
  shows "added d d'"
  using assms by (auto simp: create_target_history_deliveries_def intro: added.none history_loop_added split: option.splits if_splits)

subsection \<open>Templates\<close>

definition placeholder_keys :: "db \<Rightarrow> string set" where
  "placeholder_keys d = (\<lambda>x. placeholder_key (qp_placeholder x)) ` set (qq_placeholders d)"

lemma loaded_keys: "fst ` set (load_placeholder_mappings d) = placeholder_keys d"
  by (force simp: load_placeholder_mappings_def placeholder_keys_def placeholder_key_def)

definition variable_keys :: "qq_target \<Rightarrow> string set" where
  "variable_keys t = fst ` set (string_items (qt_template_variables t))"

definition target_ok :: "db \<Rightarrow> qq_target \<Rightarrow> bool" where
  "target_ok d t \<longleftrightarrow>
     template_ok (placeholder_keys d \<union> variable_keys t) (qt_message_template t) \<and> (\<forall>k \<in> variable_keys t. length k \<le> 64)"

definition templates_ok :: "db \<Rightarrow> bool" where
  "templates_ok d \<longleftrightarrow>
     distinct (map qp_id (qq_placeholders d)) \<and> (\<forall>x \<in> set (qq_placeholders d). qp_id x < serial d) \<and>
     (\<forall>x \<in> set (qq_placeholders d). placeholder_write_ok (qp_placeholder x) (qp_source_field x)) \<and>
     (\<forall>t \<in> set (qq_targets d). target_ok d t)"

text \<open>
  The routes on targets and placeholders, and any other transaction, which leaves both
  tables alone. The route that changes a placeholder reads the templates and writes the row without a lock between;
  any of these transactions may run there, but not one that changes this placeholder or stores a template
  that names it: what a rename does then is \<open>rename_race\<close> below.
\<close>

definition name_kept :: "int \<Rightarrow> db \<Rightarrow> db \<Rightarrow> bool" where
  "name_kept i d d1 \<longleftrightarrow> row_get qp_id i (qq_placeholders d1) = row_get qp_id i (qq_placeholders d) \<and>
     (\<forall>x. row_get qp_id i (qq_placeholders d) = Some x \<longrightarrow>
        used_by_targets (placeholder_key (qp_placeholder x)) (qq_targets d) = Some False \<longrightarrow>
        used_by_targets (placeholder_key (qp_placeholder x)) (qq_targets d1) = Some False)"

inductive target_steps :: "db \<Rightarrow> db \<Rightarrow> bool" where
  none: "target_steps d d"
| chain: "target_steps d d1 \<Longrightarrow> target_steps d1 d2 \<Longrightarrow> target_steps d d2"
| create: "checked_target p = Some p' \<Longrightarrow> create_target env cfg now p' d = Inr (d', ids) \<Longrightarrow> target_steps d d'"
| update: "checked_update u = Some u' \<Longrightarrow> update_target now i u' d = Inr d' \<Longrightarrow> target_steps d d'"
| delete: "delete_target i d = Inr d' \<Longrightarrow> target_steps d d'"
| delete_bot: "delete_bot i d = Inr d' \<Longrightarrow> target_steps d d'"
| placeholder: "create_placeholder now p f d = Inr d' \<Longrightarrow> target_steps d d'"
| edit: "update_placeholder between now i p f d = (d', r) \<Longrightarrow> target_steps d (between d) \<Longrightarrow> name_kept i d (between d) \<Longrightarrow> target_steps d d'"
| remove: "delete_placeholder i d = Inr d' \<Longrightarrow> target_steps d d'"
| other: "qq_targets d' = qq_targets d \<Longrightarrow> qq_placeholders d' = qq_placeholders d \<Longrightarrow> serial d \<le> serial d' \<Longrightarrow> target_steps d d'"

lemma templates_ok_subset:
  assumes "templates_ok d" and "set (qq_targets d') \<subseteq> set (qq_targets d)" and "qq_placeholders d' = qq_placeholders d"
    and "serial d \<le> serial d'"
  shows "templates_ok d'"
proof -
  have "placeholder_keys d' = placeholder_keys d" by (simp add: placeholder_keys_def assms(3))
  moreover have "\<forall>x \<in> set (qq_placeholders d). qp_id x < serial d'" using assms(1,4) by (force simp: templates_ok_def)
  ultimately show ?thesis using assms by (auto simp: templates_ok_def target_ok_def)
qed

lemma drop_targets_same [simp]:
  "qq_targets (drop_targets p d) = filter (\<lambda>t. \<not> p t) (qq_targets d)" "qq_placeholders (drop_targets p d) = qq_placeholders d"
  "serial (drop_targets p d) = serial d"
  by (simp_all add: drop_targets_def Let_def)

lemma replace_subscriptions_same:
  "replace_subscriptions now t every users d = Inr d' \<Longrightarrow>
    qq_targets d' = qq_targets d \<and> qq_placeholders d' = qq_placeholders d \<and> serial d' = serial d"
  by (auto simp: replace_subscriptions_def Let_def split: if_splits)

lemma string_items_variables [simp]: "string_items (variables_json vs) = vs"
  by (induction vs) (auto simp: variables_json_def)

lemma variables_short: "list_all (\<lambda>(k, v). variable_ok k) vs \<Longrightarrow> \<forall>kv \<in> set vs. length (fst kv) \<le> 64"
  by (auto simp: list_all_iff variable_ok_def)

lemma create_target_templates:
  assumes ok: "templates_ok d" and p: "checked_target p = Some p'" and run: "create_target env cfg now p' d = Inr (d', ids)"
  shows "templates_ok d'"
proof -
  obtain template d1 where v: "validate_target_template d (tc_message_template p') (tc_template_variables p') = Inr template"
    and r: "replace_subscriptions now (serial d) (tc_all_monitored_users p') (tc_monitored_user_ids p')
      (d\<lparr>qq_targets := qq_targets d @ [new_target now (serial d) template p'], serial := serial d + 1\<rparr>) = Inr d1"
    and h: "create_target_history_deliveries env now (qq_worker_max_attempts cfg) (new_target now (serial d) template p') d1 = Some (d', ids)"
    using run by (auto simp: create_target_def Let_def new_target_def split: sum.splits if_splits option.splits)
  let ?t = "new_target now (serial d) template p'"
  from replace_subscriptions_same[OF r] added_same[OF history_added[OF h]]
  have d': "qq_targets d' = qq_targets d @ [?t]" "qq_placeholders d' = qq_placeholders d" "serial d < serial d'" by auto
  have keys: "placeholder_keys d' = placeholder_keys d" by (simp add: placeholder_keys_def d'(2))
  have vars: "variable_keys ?t = fst ` set (tc_template_variables p')" by (simp add: variable_keys_def new_target_def)
  have "list_all (\<lambda>(k, v). variable_ok k) (tc_template_variables p')" using p by (auto simp: checked_target_def Let_def split: if_splits)
  then have "target_ok d ?t"
    using validated_ok[OF v] variables_short[of "tc_template_variables p'"] by (simp add: target_ok_def vars loaded_keys) (simp add: new_target_def)
  then show ?thesis using ok d' by (force simp: templates_ok_def target_ok_def keys)
qed


lemma templates_ok_put:
  assumes "templates_ok d" and "target_ok d t'" and "qq_targets d' = row_put qt_id t' (qq_targets d)"
    and "qq_placeholders d' = qq_placeholders d" and "serial d' = serial d"
  shows "templates_ok d'"
proof -
  have "placeholder_keys d' = placeholder_keys d" by (simp add: placeholder_keys_def assms(4))
  then show ?thesis using assms by (auto simp: templates_ok_def target_ok_def dest: set_row_put_other)
qed

lemma update_target_cases:
  assumes "update_target now i u d = Inr d'"
  obtains t s where "row_get qt_id i (qq_targets d) = Some t"
    and "qq_targets d' = row_put qt_id ((edited_target u t)\<lparr>qt_message_template := s, qt_updated_at := now\<rparr>) (qq_targets d)"
    and "qq_placeholders d' = qq_placeholders d" and "serial d' = serial d"
    and "(if only_disables u then Inr (qt_message_template (edited_target u t))
          else validate_target_template d (qt_message_template (edited_target u t)) (string_items (qt_template_variables (edited_target u t)))) = Inr s"
proof -
  obtain t where t: "row_get qt_id i (qq_targets d) = Some t" using assms by (auto simp: update_target_def split: option.splits)
  let ?v = "if only_disables u then Inr (qt_message_template (edited_target u t))
          else validate_target_template d (qt_message_template (edited_target u t)) (string_items (qt_template_variables (edited_target u t)))"
  let ?users = "case asked_users u i d of None \<Rightarrow> Inr d
      | Some users \<Rightarrow> replace_subscriptions now i (qt_all_monitored_users (edited_target u t)) users d"
  obtain s where s: "?v = Inr s"
    using assms by (cases ?v) (simp_all add: update_target_def t Let_def split: if_splits)
  obtain d1 where d1: "?users = Inr d1"
    using assms by (cases ?users) (simp_all add: update_target_def t s Let_def split: if_splits)
  have same: "qq_targets d1 = qq_targets d \<and> qq_placeholders d1 = qq_placeholders d \<and> serial d1 = serial d"
    using d1 replace_subscriptions_same by (auto split: option.splits)
  have "d' = d1\<lparr>qq_targets := row_put qt_id ((edited_target u t)\<lparr>qt_message_template := s, qt_updated_at := now\<rparr>) (qq_targets d1)\<rparr>"
    using assms by (simp add: update_target_def t s d1 Let_def split: if_splits)
  then show ?thesis using that[OF t _ _ _ s] same by simp
qed

lemma update_target_templates:
  assumes ok: "templates_ok d" and u: "checked_update u0 = Some u" and run: "update_target now i u d = Inr d'"
  shows "templates_ok d'"
proof -
  obtain t s where t: "row_get qt_id i (qq_targets d) = Some t"
    and d': "qq_targets d' = row_put qt_id ((edited_target u t)\<lparr>qt_message_template := s, qt_updated_at := now\<rparr>) (qq_targets d)"
      "qq_placeholders d' = qq_placeholders d" "serial d' = serial d"
    and v: "(if only_disables u then Inr (qt_message_template (edited_target u t))
          else validate_target_template d (qt_message_template (edited_target u t)) (string_items (qt_template_variables (edited_target u t)))) = Inr s"
    by (rule update_target_cases[OF run])
  let ?t = "(edited_target u t)\<lparr>qt_message_template := s, qt_updated_at := now\<rparr>"
  have old: "target_ok d t" using ok row_get_Some[OF t] by (simp add: templates_ok_def)
  have "target_ok d ?t"
  proof (cases "only_disables u")
    case True
    then show ?thesis using old v
      by (simp add: target_ok_def variable_keys_def only_disables_def edited_target_def given_def)
  next
    case False
    have vs: "list_all (\<lambda>(k, v). variable_ok k) (given (tu_template_variables u) [])"
      using u by (auto simp: checked_update_def Let_def split: if_splits)
    have "length k \<le> 64" if "k \<in> variable_keys (edited_target u t)" for k
    proof (cases "tu_template_variables u")
      case None
      then show ?thesis using that old by (auto simp: target_ok_def variable_keys_def edited_target_def)
    next
      case (Some v)
      then show ?thesis using that vs variables_short[of "given (tu_template_variables u) []"]
        by (cases v) (auto simp: variable_keys_def edited_target_def given_def)
    qed
    moreover have "template_ok (placeholder_keys d \<union> variable_keys (edited_target u t)) s"
      using validated_ok v False by (simp add: variable_keys_def loaded_keys)
    ultimately show ?thesis by (simp add: target_ok_def variable_keys_def)
  qed
  then show ?thesis using templates_ok_put[OF ok _ d'] by simp
qed

lemma key_length: "placeholder_write_ok p f \<Longrightarrow> length (placeholder_key p) \<le> 64"
  by (simp add: placeholder_write_ok_def)

lemma normalized_parses:
  assumes "template_fields t = Some fs" and "length name \<le> 64"
  shows "template_fields (normalize_message_template t [name]) \<noteq> None"
proof -
  let ?known = "\<lambda>n. n \<in> set allowed_template_fields \<or> n \<in> set [name]"
  have "length n \<le> 64" if "?known n" for n using that assms(2) by (auto simp: allowed_template_fields_def)
  from fields_fold[of ?known, OF this assms(1), of False] show ?thesis
    by (auto simp: normalize_message_template_def)
qed

lemma target_ok_drop:
  assumes ok: "target_ok d t" and keys: "placeholder_keys d - {key} \<subseteq> placeholder_keys d'" and len: "length key \<le> 64"
    and free: "\<forall>fs. template_fields (normalize_message_template (qt_message_template t) [key]) = Some fs \<longrightarrow> key \<notin> set fs"
  shows "target_ok d' t"
proof -
  obtain fs where fs: "template_fields (qt_message_template t) = Some fs" "set fs \<subseteq> placeholder_keys d \<union> variable_keys t"
    using ok by (auto simp: target_ok_def template_ok_def split: option.splits)
  obtain gs where gs: "template_fields (normalize_message_template (qt_message_template t) [key]) = Some gs"
    using normalized_parses[OF fs(1) len] by auto
  have "key \<notin> set fs" using unused_name[OF gs _ fs(1) len] free gs by blast
  then have "set fs \<subseteq> placeholder_keys d' \<union> variable_keys t" using fs(2) keys by blast
  then show ?thesis using ok fs(1) by (simp add: target_ok_def template_ok_def)
qed

lemma used_by_targets_no:
  "used_by_targets key ts = Some False \<Longrightarrow> t \<in> set ts \<Longrightarrow>
    template_fields (normalize_message_template (qt_message_template t) [key]) = Some fs \<Longrightarrow> key \<notin> set fs"
  by (induction ts) (auto split: option.splits if_splits)

lemma create_placeholder_templates:
  assumes ok: "templates_ok d" and run: "create_placeholder now p f d = Inr d'"
  shows "templates_ok d'"
proof -
  from run have d': "d' = d\<lparr>qq_placeholders := qq_placeholders d @ [new_placeholder now (serial d) p f], serial := serial d + 1\<rparr>"
    and w: "placeholder_write_ok p f" by (auto simp: create_placeholder_def split: if_splits)
  have "placeholder_keys d \<subseteq> placeholder_keys d'" by (auto simp: placeholder_keys_def d')
  then have "target_ok d' t" if "target_ok d t" for t
    using that by (auto simp: target_ok_def intro: template_ok_more)
  then show ?thesis using ok w by (force simp: templates_ok_def d' new_placeholder_def)
qed

lemma update_placeholder_templates:
  assumes ok0: "templates_ok d0" and ok: "templates_ok (between d0)" and kept: "name_kept i d0 (between d0)"
    and run: "update_placeholder between now i p f d0 = (d', r)"
  shows "templates_ok d'"
proof (cases "d' = d0 \<or> d' = between d0")
  case False
  define d where "d = between d0"
  obtain x where x0: "row_get qp_id i (qq_placeholders d0) = Some x" and w: "placeholder_write_ok p f"
    and d': "d' = d\<lparr>qq_placeholders := row_update (\<lambda>y. qp_id y = i)
        (\<lambda>y. y\<lparr>qp_placeholder := p, qp_source_field := f, qp_updated_at := now\<rparr>) (qq_placeholders d)\<rparr>"
    and free0: "p = qp_placeholder x \<or> used_by_targets (placeholder_key (qp_placeholder x)) (qq_targets d0) = Some False"
    using run False by (auto simp: update_placeholder_def Let_def d_def split: option.splits if_splits bool.splits)
  have x: "row_get qp_id i (qq_placeholders d) = Some x" using kept x0 by (simp add: name_kept_def d_def)
  have free: "p = qp_placeholder x \<or> used_by_targets (placeholder_key (qp_placeholder x)) (qq_targets d) = Some False"
    using kept x0 free0 by (auto simp: name_kept_def d_def)
  have ok: "templates_ok d" using ok by (simp add: d_def)
  let ?key = "placeholder_key (qp_placeholder x)"
  have i: "qp_id x = i" and mem: "x \<in> set (qq_placeholders d)" using row_get_Some[OF x] by simp_all
  have only: "y = x" if "y \<in> set (qq_placeholders d)" "qp_id y = i" for y
    using ok that mem i by (auto simp: templates_ok_def distinct_map dest: inj_onD)
  have len: "length ?key \<le> 64" using ok mem key_length by (auto simp: templates_ok_def)
  let ?f = "\<lambda>y. y\<lparr>qp_placeholder := p, qp_source_field := f, qp_updated_at := now\<rparr>"
  have set': "set (qq_placeholders d') = (\<lambda>y. if qp_id y = i then ?f y else y) ` set (qq_placeholders d)"
    by (simp add: d' set_row_update)
  have keys: "placeholder_keys d - {?key} \<subseteq> placeholder_keys d'"
  proof
    fix k assume "k \<in> placeholder_keys d - {?key}"
    then obtain y where y: "y \<in> set (qq_placeholders d)" "k = placeholder_key (qp_placeholder y)" "y \<noteq> x"
      by (auto simp: placeholder_keys_def)
    then have "qp_id y \<noteq> i" using only by blast
    then have "y \<in> set (qq_placeholders d')" using y(1) by (force simp: set')
    then show "k \<in> placeholder_keys d'" by (simp add: placeholder_keys_def y(2))
  qed
  have same: "placeholder_keys d \<subseteq> placeholder_keys d'" if p: "p = qp_placeholder x"
  proof -
    have "?f x \<in> set (qq_placeholders d')" unfolding set' using mem i by (intro image_eqI[of _ _ x]) simp_all
    then have "?key \<in> placeholder_keys d'" unfolding placeholder_keys_def by (rule rev_image_eqI) (simp add: p)
    then show ?thesis using keys by blast
  qed
  have "target_ok d' t" if t: "t \<in> set (qq_targets d)" for t
  proof (cases "p = qp_placeholder x")
    case True
    then show ?thesis using ok t same by (auto simp: templates_ok_def target_ok_def intro: template_ok_more)
  next
    case False
    then show ?thesis using target_ok_drop[OF _ keys len] ok t free used_by_targets_no by (auto simp: templates_ok_def)
  qed
  moreover have "map qp_id (qq_placeholders d') = map qp_id (qq_placeholders d)" by (simp add: d')
  moreover have "\<forall>y \<in> set (qq_placeholders d'). qp_id y < serial d' \<and> placeholder_write_ok (qp_placeholder y) (qp_source_field y)"
    using ok w by (auto simp: templates_ok_def set') (auto simp: d')
  ultimately show ?thesis using ok by (simp add: templates_ok_def) (simp add: d')
qed (use ok0 ok in auto)

lemma delete_placeholder_templates:
  assumes ok: "templates_ok d" and run: "delete_placeholder i d = Inr d'"
  shows "templates_ok d'"
proof -
  obtain x where x: "row_get qp_id i (qq_placeholders d) = Some x" and free: "\<not> list_ex (uses_placeholder x) (qq_targets d)"
    and d': "d' = d\<lparr>qq_placeholders := filter (\<lambda>y. qp_id y \<noteq> i) (qq_placeholders d)\<rparr>"
    using run by (auto simp: delete_placeholder_def split: option.splits if_splits)
  let ?key = "placeholder_key (qp_placeholder x)"
  have i: "qp_id x = i" and mem: "x \<in> set (qq_placeholders d)" using row_get_Some[OF x] by simp_all
  have only: "y = x" if "y \<in> set (qq_placeholders d)" "qp_id y = i" for y
    using ok that mem i by (auto simp: templates_ok_def distinct_map dest: inj_onD)
  have len: "length ?key \<le> 64" using ok mem key_length by (auto simp: templates_ok_def)
  have keys: "placeholder_keys d - {?key} \<subseteq> placeholder_keys d'" using only by (force simp: placeholder_keys_def d')
  have "target_ok d' t" if t: "t \<in> set (qq_targets d)" for t
  proof (rule target_ok_drop[OF _ keys len])
    show "target_ok d t" using ok t by (simp add: templates_ok_def)
    have "\<not> uses_placeholder x t" using free t by (simp add: list_ex_iff)
    then show "\<forall>fs. template_fields (normalize_message_template (qt_message_template t) [?key]) = Some fs \<longrightarrow> ?key \<notin> set fs"
      by (auto simp: uses_placeholder_def Let_def)
  qed
  then show ?thesis using ok by (auto simp: templates_ok_def d' distinct_map inj_on_def)
qed

lemma target_steps_templates: "target_steps d d' \<Longrightarrow> templates_ok d \<Longrightarrow> templates_ok d'"
proof (induction rule: target_steps.induct)
  case (delete i d d')
  then show ?case by (intro templates_ok_subset[of d d']) (auto simp: delete_target_def split: if_splits)
next
  case (delete_bot i d d')
  then show ?case by (intro templates_ok_subset[of d d']) (auto simp: delete_bot_def split: sum.splits)
next
  case (other d' d)
  then show ?case by (intro templates_ok_subset[of d d']) auto
qed (blast intro: create_target_templates update_target_templates create_placeholder_templates
    update_placeholder_templates delete_placeholder_templates)+

subsection \<open>Every stored template is rendered\<close>

definition placeholders_ok :: "db \<Rightarrow> bool" where
  "placeholders_ok d \<longleftrightarrow>
     distinct (map qp_id (qq_placeholders d)) \<and>
     list_all (\<lambda>x. qp_id x < serial d \<and> placeholder_write_ok (qp_placeholder x) (qp_source_field x)) (qq_placeholders d)"

lemma target_ok_renders:
  assumes ok: "templates_ok d" and t: "t \<in> set (qq_targets d)"
  shows "render_qq_message env (qt_message_template t) tw u (qt_template_variables t) (Some (load_placeholder_mappings d)) \<noteq> None"
proof (rule template_ok_renders)
  show "template_ok (placeholder_keys d \<union> variable_keys t) (qt_message_template t)"
    using ok t by (simp add: templates_ok_def target_ok_def)
  show "placeholder_keys d \<union> variable_keys t \<subseteq>
      fst ` set (string_items (qt_template_variables t)) \<union> fst ` set (load_placeholder_mappings d)"
    by (auto simp: variable_keys_def loaded_keys)
  have "\<forall>n \<in> placeholder_keys d. length n \<le> 64" using ok key_length by (auto simp: templates_ok_def placeholder_keys_def)
  moreover have "\<forall>n \<in> variable_keys t. length n \<le> 64" using ok t by (simp add: templates_ok_def target_ok_def)
  ultimately show "\<forall>n \<in> fst ` set (string_items (qt_template_variables t)) \<union> fst ` set (load_placeholder_mappings d). length n \<le> 64"
    unfolding loaded_keys variable_keys_def[symmetric] by blast
  show "\<forall>(n, f) \<in> set (load_placeholder_mappings d). f \<in> set source_fields"
    using ok by (auto simp: templates_ok_def load_placeholder_mappings_def placeholder_write_ok_def)
qed

lemma deliveries_created:
  assumes "templates_ok d"
  shows "create_tweet_deliveries env now m only ids d \<noteq> None"
proof (rule create_tweet_deliveries_some, clarify)
  fix t b assume "(t, b) \<in> set (enabled_targets only d)"
  then have "t \<in> set (qq_targets d)" by (auto simp: enabled_targets_def)
  then show "renders env d t" unfolding renders_def using target_ok_renders[OF assms] by blast
qed


definition sample_route_db :: db where
  "sample_route_db = sample_db\<lparr>qq_bots := [sample_bot], tweets := []\<rparr>"

definition sample_placeholder_db :: db where
  "sample_placeholder_db =
     sample_route_db\<lparr>qq_placeholders := [new_placeholder 0 (serial sample_route_db) ''{body}'' ''text''], serial := serial sample_route_db + 1\<rparr>"

definition sample_target_payload :: target_create where
  "sample_target_payload = \<lparr>tc_bot_id = 2, tc_name = ''group'', tc_group_openid = ''grp1'', tc_listen_mode = ''all'',
     tc_initial_sync_days = 1, tc_is_enabled = True, tc_all_monitored_users = True, tc_monitored_user_ids = [],
     tc_message_template = ''>{body}'', tc_template_variables = []\<rparr>"

definition sample_target_db :: db where
  "sample_target_db = sample_placeholder_db
     \<lparr>qq_targets := [new_target 5 (serial sample_placeholder_db) ''>{body}'' sample_target_payload], serial := serial sample_placeholder_db + 1\<rparr>"

lemma sample_target_created:
  "create_target sample_render_env default_qq_worker_cfg 5 sample_target_payload sample_placeholder_db = Inr (sample_target_db, [])"
  by code_simp

lemma sample_target_steps: "target_steps sample_route_db (sample_target_db\<lparr>tweets := [sample_tweet]\<rparr>)"
proof -
  have "create_placeholder 0 ''{body}'' ''text'' sample_route_db = Inr sample_placeholder_db" by code_simp
  then have "target_steps sample_route_db sample_placeholder_db" by (rule target_steps.placeholder)
  moreover have "checked_target sample_target_payload = Some sample_target_payload" by code_simp
  then have "target_steps sample_placeholder_db sample_target_db" using sample_target_created by (rule target_steps.create)
  moreover have "target_steps sample_target_db (sample_target_db\<lparr>tweets := [sample_tweet]\<rparr>)" by (rule target_steps.other) simp_all
  ultimately show ?thesis by (blast intro: target_steps.chain)
qed


text \<open>
  A placeholder that is renamed while a target with the old name is created: the check does
  not see the target, and queueing the notifications of new posts fails from then on.
\<close>

definition create_meanwhile :: "db \<Rightarrow> db" where
  "create_meanwhile d =
     (case create_target sample_render_env default_qq_worker_cfg 5 sample_target_payload d of Inl e \<Rightarrow> d | Inr (d', ids) \<Rightarrow> d')"

definition renamed_db :: db where
  "renamed_db = fst (update_placeholder create_meanwhile 6 (serial sample_route_db) ''{rest}'' ''text'' sample_placeholder_db)"

lemma rename_race:
  "snd (update_placeholder create_meanwhile 6 (serial sample_route_db) ''{rest}'' ''text'' sample_placeholder_db) = Inr ()"
  "create_tweet_deliveries sample_render_env 500 3 None [''11''] (renamed_db\<lparr>tweets := [sample_tweet]\<rparr>) = None"
  by code_simp+


subsection \<open>Deliveries among routes, workers and pollers\<close>

text \<open>
  Every transaction that writes deliveries: the workers, the poller, the dispatcher, the publication of an article
  by hand, the routes of QQ notifications, and the deletions of articles, jobs and posts, which
  clear the reference that their deliveries hold. A cleared history and the deletion of an article may be interrupted
  by any of them; the id of a new publication attempt is one that no delivery has.
\<close>

inductive qq_run :: "db \<Rightarrow> db \<Rightarrow> bool" where
  none: "qq_run d d"
| chain: "qq_run d d1 \<Longrightarrow> qq_run d1 d2 \<Longrightarrow> qq_run d d2"
| worker: "qq_step d d' \<Longrightarrow> qq_run d d'"
| polled: "create_tweet_deliveries env now m only xids d = Some (d', ids) \<Longrightarrow> qq_run d d'"
| dispatched: "accept_qq now label m i aid b groups payload paths d = (d', ids) \<Longrightarrow>
    \<forall>x \<in> set (qq_deliveries d). qd_article_publish_attempt_id x \<noteq> Some aid \<Longrightarrow> qq_run d d'"
| new_target: "create_target env cfg now p d = Inr (d', ids) \<Longrightarrow> qq_run d d'"
| tested: "test_target cfg now fresh i d = Inr (d', ids) \<Longrightarrow> qq_run d d'"
| batch: "batch_push env cfg now keys q d = Inr (d', ids) \<Longrightarrow> qq_run d d'"
| pushed: "push_task_now cfg now run i d = Inr (d', ids) \<Longrightarrow> qq_run d d'"
| retry_route: "retry_delivery now i d = Inr d' \<Longrightarrow> qq_run d d'"
| delete_route: "delete_delivery i d = Inr d' \<Longrightarrow> qq_run d d'"
| cleared: "clear_deliveries between d = (d', r) \<Longrightarrow> \<forall>k x. qq_run x (between k x) \<Longrightarrow> qq_run d d'"
| task_cleared: "clear_task_history between i d = (d', r) \<Longrightarrow> \<forall>k x. qq_run x (between k x) \<Longrightarrow> qq_run d d'"
| no_task: "delete_qq_task i d = Inr d' \<Longrightarrow> qq_run d d'"
| no_target: "delete_target i d = Inr d' \<Longrightarrow> qq_run d d'"
| no_bot: "delete_bot i d = Inr d' \<Longrightarrow> qq_run d d'"
| by_hand: "publish_to_qq env label m now t admin p a (d, vol) = ((d', vol'), res) \<Longrightarrow>
    \<forall>x \<in> set (qq_deliveries d). qd_article_publish_attempt_id x \<noteq> Some t \<Longrightarrow> qq_run d d'"
| no_article: "delete_article between i (d, vol) = ((d', vol'), e) \<Longrightarrow> \<forall>x v. qq_run x (fst (between (x, v))) \<Longrightarrow> qq_run d d'"
| no_job: "delete_ai_job i d = Inr (d', images) \<Longrightarrow> qq_run d d'"
| no_posts: "qq_deliveries d' = row_update p (\<lambda>q. q\<lparr>qd_source_tweet_id := None\<rparr>) (qq_deliveries d) \<Longrightarrow> serial d \<le> serial d' \<Longrightarrow> qq_run d d'"
| other: "qq_deliveries d' = qq_deliveries d \<Longrightarrow> serial d \<le> serial d' \<Longrightarrow> qq_run d d'"

text \<open>The same message, but for the task, target, post and article that it came from, which may be deleted.\<close>

definition detached :: "qq_delivery \<Rightarrow> qq_delivery \<Rightarrow> bool" where
  "detached r r' \<longleftrightarrow>
     (\<exists>t \<in> {qd_task_id r, None}. \<exists>g \<in> {qd_target_id r, None}. \<exists>p \<in> {qd_source_tweet_id r, None}. \<exists>a \<in> {qd_article_id r, None}.
        r' = r\<lparr>qd_task_id := t, qd_target_id := g, qd_source_tweet_id := p, qd_article_id := a\<rparr>)"

definition keeps :: "db \<Rightarrow> db \<Rightarrow> bool" where
  "keeps d d' \<longleftrightarrow> (qq_ok d \<longrightarrow> qq_ok d' \<and> serial d \<le> serial d' \<and>
     (\<forall>r' \<in> set (qq_deliveries d'). qd_id r' < serial d \<longrightarrow>
        (\<exists>r \<in> set (qq_deliveries d). qd_id r = qd_id r' \<and> (qd_status r = ''sent'' \<longrightarrow> detached r r'))))"

lemma detached_refl [simp]: "detached r r"
  by (simp add: detached_def)

lemma detached_parts:
  "detached r (r\<lparr>qd_task_id := None\<rparr>)" "detached r (r\<lparr>qd_target_id := None\<rparr>)" "detached r (r\<lparr>qd_source_tweet_id := None\<rparr>)"
  "detached r (r\<lparr>qd_article_id := None\<rparr>)"
  by (cases r, simp add: detached_def)+

lemma detached_trans:
  assumes "detached r r'" and "detached r' r''"
  shows "detached r r''"
proof -
  obtain t g p a where one: "t \<in> {qd_task_id r, None}" "g \<in> {qd_target_id r, None}" "p \<in> {qd_source_tweet_id r, None}"
      "a \<in> {qd_article_id r, None}" "r' = r\<lparr>qd_task_id := t, qd_target_id := g, qd_source_tweet_id := p, qd_article_id := a\<rparr>"
    using assms(1) unfolding detached_def by blast
  obtain t2 g2 p2 a2 where two: "t2 \<in> {t, None}" "g2 \<in> {g, None}" "p2 \<in> {p, None}" "a2 \<in> {a, None}"
      "r'' = r'\<lparr>qd_task_id := t2, qd_target_id := g2, qd_source_tweet_id := p2, qd_article_id := a2\<rparr>"
    using assms(2) one(5) by (auto simp: detached_def)
  have "t2 \<in> {qd_task_id r, None}" "g2 \<in> {qd_target_id r, None}" "p2 \<in> {qd_source_tweet_id r, None}" "a2 \<in> {qd_article_id r, None}"
    using one(1-4) two(1-4) by blast+
  moreover have "r'' = r\<lparr>qd_task_id := t2, qd_target_id := g2, qd_source_tweet_id := p2, qd_article_id := a2\<rparr>" by (simp add: two(5) one(5))
  ultimately show ?thesis unfolding detached_def by blast
qed

lemma detached_facts:
  assumes "detached r r'"
  shows "qd_id r' = qd_id r" "qd_kind r' = qd_kind r" "qd_status r' = qd_status r" "qd_claim_token r' = qd_claim_token r"
    "earlier_part r' x = earlier_part r x" "earlier_part x r' = earlier_part x r"
proof -
  obtain a b p i where "r' = r\<lparr>qd_task_id := a, qd_target_id := b, qd_source_tweet_id := p, qd_article_id := i\<rparr>"
    using assms unfolding detached_def by blast
  then show "qd_id r' = qd_id r" "qd_kind r' = qd_kind r" "qd_status r' = qd_status r" "qd_claim_token r' = qd_claim_token r"
    "earlier_part r' x = earlier_part r x" "earlier_part x r' = earlier_part x r" by (simp_all add: earlier_part_def)
qed

lemma keepsI:
  assumes "qq_ok d \<Longrightarrow> qq_ok d'" and "qq_ok d \<Longrightarrow> serial d \<le> serial d'"
    and "\<And>r'. qq_ok d \<Longrightarrow> r' \<in> set (qq_deliveries d') \<Longrightarrow> qd_id r' < serial d \<Longrightarrow>
      \<exists>r \<in> set (qq_deliveries d). qd_id r = qd_id r' \<and> (qd_status r = ''sent'' \<longrightarrow> detached r r')"
  shows "keeps d d'"
  using assms unfolding keeps_def by blast

lemma keepsD:
  assumes "keeps d d'" and "qq_ok d"
  shows "qq_ok d'" and "serial d \<le> serial d'" and "r' \<in> set (qq_deliveries d') \<Longrightarrow> qd_id r' < serial d \<Longrightarrow>
      \<exists>r \<in> set (qq_deliveries d). qd_id r = qd_id r' \<and> (qd_status r = ''sent'' \<longrightarrow> detached r r')"
  using assms unfolding keeps_def by blast+

lemma keeps_trans:
  assumes one: "keeps d d1" and two: "keeps d1 d2"
  shows "keeps d d2"
proof (rule keepsI)
  assume ok: "qq_ok d"
  note a = keepsD[OF one ok] and b = keepsD[OF two keepsD(1)[OF one ok]]
  show "qq_ok d2" "serial d \<le> serial d2" using a(2) b(1,2) by simp_all
  fix r2 assume r2: "r2 \<in> set (qq_deliveries d2)" "qd_id r2 < serial d"
  then obtain r1 where r1: "r1 \<in> set (qq_deliveries d1)" "qd_id r1 = qd_id r2" "qd_status r1 = ''sent'' \<longrightarrow> detached r1 r2"
    using b(3)[of r2] a(2) by auto
  then obtain r where r: "r \<in> set (qq_deliveries d)" "qd_id r = qd_id r1" "qd_status r = ''sent'' \<longrightarrow> detached r r1"
    using a(3)[of r1] r2(2) by auto
  have "detached r r2" if "qd_status r = ''sent''"
    using that r(3) r1(3) detached_facts(3)[of r r1] detached_trans by metis
  then show "\<exists>r \<in> set (qq_deliveries d). qd_id r = qd_id r2 \<and> (qd_status r = ''sent'' \<longrightarrow> detached r r2)"
    using r(1,2) r1(2) by auto
qed

text \<open>Rows that are dropped or lose their task or target.\<close>

lemma keeps_subset:
  assumes rows: "qq_deliveries d' = map f (filter p (qq_deliveries d))" and f: "\<And>r. detached r (f r)" and s: "serial d \<le> serial d'"
  shows "keeps d d'"
proof (rule keepsI)
  note df = detached_facts[OF f]
  assume ok: "qq_ok d"
  show "serial d \<le> serial d'" by (rule s)
  have "map qd_id (qq_deliveries d') = map qd_id (filter p (qq_deliveries d))" by (simp add: rows comp_def df)
  then have "distinct (map qd_id (qq_deliveries d'))"
    using ok distinct_filter by (auto simp: qq_ok_def distinct_map inj_on_def)
  moreover have "qd_id x < serial d' \<and> (qd_claim_token x \<noteq> None) = (qd_status x = ''sending'')" if "x \<in> set (qq_deliveries d')" for x
  proof -
    obtain y where y: "y \<in> set (qq_deliveries d)" "x = f y" using \<open>x \<in> set (qq_deliveries d')\<close> by (auto simp: rows)
    then have "qd_id y < serial d" "(qd_claim_token y \<noteq> None) = (qd_status y = ''sending'')" using ok unfolding qq_ok_def by blast+
    then show ?thesis using s y(2) by (simp add: df)
  qed
  moreover have "qd_status x = ''sent''"
    if mem: "r \<in> set (qq_deliveries d')" "x \<in> set (qq_deliveries d')" and r: "qd_kind r = ''article''" "qd_status r \<in> {''sending'', ''sent''}"
      and before: "earlier_part r x" for r x
  proof -
    obtain r0 where r0: "r0 \<in> set (qq_deliveries d)" "r = f r0" using mem(1) unfolding rows by auto
    obtain x0 where x0: "x0 \<in> set (qq_deliveries d)" "x = f x0" using mem(2) unfolding rows by auto
    have "qd_kind r0 = ''article''" "qd_status r0 \<in> {''sending'', ''sent''}" "earlier_part r0 x0"
      using r before unfolding r0(2) x0(2) df by simp_all
    then have "qd_status x0 = ''sent''" using ok r0(1) x0(1) unfolding qq_ok_def by blast
    then show ?thesis unfolding x0(2) df by simp
  qed
  ultimately show "qq_ok d'" unfolding qq_ok_def by blast
  fix r' assume "r' \<in> set (qq_deliveries d')"
  then obtain r where "r \<in> set (qq_deliveries d)" "r' = f r" by (auto simp: rows)
  then show "\<exists>r \<in> set (qq_deliveries d). qd_id r = qd_id r' \<and> (qd_status r = ''sent'' \<longrightarrow> detached r r')"
    using f df(1) by auto
qed

lemma keeps_same: "qq_deliveries d' = qq_deliveries d \<Longrightarrow> serial d \<le> serial d' \<Longrightarrow> keeps d d'"
  by (rule keeps_subset[of _ "\<lambda>r. r" "\<lambda>_. True"]) simp_all

lemma keeps_add:
  assumes rows: "\<forall>x \<in> set rows. qd_claim_token x = None \<and> qd_status x = ''queued'' \<and> (\<forall>r \<in> set (qq_deliveries d). \<not> earlier_part r x)"
    and d': "qq_deliveries d' = qq_deliveries (fst (add_deliveries rows d))" "serial d' = serial (fst (add_deliveries rows d))"
  shows "keeps d d'"
proof (rule keepsI)
  assume ok: "qq_ok d"
  show "qq_ok d'" by (rule qq_ok_add[OF ok rows d'])
  show "serial d \<le> serial d'" by (simp add: d'(2) add_deliveries_rows)
  fix r assume "r \<in> set (qq_deliveries d')" "qd_id r < serial d"
  then have "r \<in> set (qq_deliveries d)" by (auto simp: d'(1) add_deliveries_rows in_set_enumerate_eq)
  then show "\<exists>x \<in> set (qq_deliveries d). qd_id x = qd_id r \<and> (qd_status x = ''sent'' \<longrightarrow> detached x r)" by auto
qed

lemma plain_rows: "\<forall>x \<in> set rows. plain_delivery x \<Longrightarrow>
    \<forall>x \<in> set rows. qd_claim_token x = None \<and> qd_status x = ''queued'' \<and> (\<forall>r \<in> set (qq_deliveries d). \<not> earlier_part r x)"
  by (simp add: plain_delivery_def unsequenced)

lemma keeps_added: "added d d' \<Longrightarrow> keeps d d'"
proof (induction rule: added.induct)
  case (more d d1 rows)
  show ?case by (rule keeps_trans[OF more.IH keeps_add[OF plain_rows[OF more.hyps(2)]]]) simp_all
qed (simp add: keeps_same)

lemma keeps_put:
  assumes r: "qd_get i d = Some r" and same: "same_part r r'" and unsent: "qd_status r \<noteq> ''sent''" and ok': "qq_ok d \<Longrightarrow> qq_ok d'"
    and d': "qq_deliveries d' = row_put qd_id r' (qq_deliveries d)" "serial d' = serial d"
  shows "keeps d d'"
proof (rule keepsI)
  show "serial d \<le> serial d'" by (simp add: d'(2))
  have id: "qd_id r' = qd_id r" using same by (simp add: same_part_def)
  fix x assume "x \<in> set (qq_deliveries d')"
  then consider "x = r'" | "x \<in> set (qq_deliveries d)" using set_row_put_other[of x qd_id r'] d'(1) by auto
  then show "\<exists>r \<in> set (qq_deliveries d). qd_id r = qd_id x \<and> (qd_status r = ''sent'' \<longrightarrow> detached r x)"
    by cases (use qd_get_mem[OF r] unsent id in auto)
qed (rule ok')

lemma keeps_retry:
  assumes "retry_delivery now i d = Inr d'"
  shows "keeps d d'"
proof -
  obtain r where r: "qd_get i d = Some r" and st: "qd_status r \<in> {''failed'', ''cancelled''}" and d': "d' = put_delivery (requeued_delivery now r) d"
    using assms by (auto simp: retry_delivery_def split: option.splits if_splits)
  have same: "same_part r (requeued_delivery now r)" by (simp add: same_part_def requeued_delivery_def)
  have "qq_ok d \<Longrightarrow> qq_ok d'"
    by (rule qq_ok_put[OF _ r same]) (use st in \<open>auto simp: requeued_delivery_def d'\<close>)
  then show ?thesis by (intro keeps_put[OF r same]) (use st in \<open>auto simp: d'\<close>)
qed

text \<open>A transaction of a worker replaces one row or appends rows.\<close>

lemma step_shape:
  assumes "qq_step d d'"
  shows "serial d \<le> serial d' \<and> (\<forall>x \<in> set (qq_deliveries d'). qd_id x < serial d \<longrightarrow> qd_id x \<in> qd_id ` set (qq_deliveries d))"
proof -
  have put: ?thesis if get: "qd_get k d = Some x" and rows: "qq_deliveries d' = row_put qd_id x' (qq_deliveries d)"
      and id: "qd_id x' = qd_id x" and s: "serial d' = serial d" for k x x'
  proof -
    have "qd_id y \<in> qd_id ` set (qq_deliveries d)" if y: "y \<in> set (qq_deliveries d')" for y
    proof -
      have "y = x' \<or> y \<in> set (qq_deliveries d)" using y rows set_row_put_other[of y qd_id x' "qq_deliveries d"] by auto
      then show ?thesis using qd_get_mem[OF get] id by (metis image_eqI)
    qed
    then show ?thesis using s by simp
  qed
  from assms show ?thesis
  proof (cases rule: qq_step.cases)
    case (claim cfg decrypt worker now j token c)
    then show ?thesis
    proof (cases rule: claim_rows)
      case (held x)
      then show ?thesis by (intro put[OF held(1), of "x\<lparr>qd_next_attempt_at := now + secs 5\<rparr>"]) simp_all
    next
      case (closed x x')
      then show ?thesis by (intro put[OF closed(1), of x']) (auto simp: same_part_def)
    next
      case (claimed x b grp secret)
      then show ?thesis by (intro put[OF claimed(1), of "sending_row cfg worker now token x"]) (auto simp: sending_row_def)
    qed auto
  next
    case (sent now now' c m applied)
    then show ?thesis
    proof (cases rule: commit_sent_rows)
      case (stored x)
      then show ?thesis by (intro put[OF stored(1), of "sent_row now m x"]) (auto simp: sent_row_def)
    qed auto
  next
    case (failed now j token msg retry res)
    then show ?thesis
    proof (cases rule: commit_failed_rows)
      case (stored x)
      then show ?thesis by (intro put[OF stored(1), of "failure_row now msg retry x"]) (auto simp: failure_row_def Let_def)
    qed auto
  next
    case (schedule read_int z fmt cfg now)
    have "serial d0 \<le> serial d' \<and> (\<forall>x \<in> set (qq_deliveries d'). qd_id x < serial d0 \<longrightarrow> qd_id x \<in> qd_id ` set (qq_deliveries d0))"
      if "schedule_loop read_int z fmt now m ts d0 = Some d'" for m ts d0
      using that
    proof (induction ts arbitrary: d0)
      case (Cons t ts)
      then obtain nx where run: "schedule_loop read_int z fmt now m ts ((fst (add_deliveries (task_rows fmt now m d0 t) d0))
          \<lparr>qq_tasks := row_put qk_id (task_ran now nx t) (qq_tasks d0)\<rparr>) = Some d'"
        by (auto simp: Let_def split: if_splits option.splits)
      from Cons.IH[OF run] show ?case by (auto simp: add_deliveries_rows in_set_enumerate_eq)
    qed simp
    with schedule show ?thesis unfolding schedule_tasks_def by blast
  qed
qed

lemma keeps_step:
  assumes step: "qq_step d d'"
  shows "keeps d d'"
proof (rule keepsI)
  assume ok: "qq_ok d"
  show ok': "qq_ok d'" by (rule qq_ok_step[OF step ok])
  show "serial d \<le> serial d'" using step_shape[OF step] by simp
  fix x assume x: "x \<in> set (qq_deliveries d')" "qd_id x < serial d"
  then obtain r where r: "r \<in> set (qq_deliveries d)" "qd_id r = qd_id x" using step_shape[OF step] by force
  have "detached r x" if "qd_status r = ''sent''"
  proof -
    have "qd_get (qd_id r) d = Some r" using ok r(1) row_get_unique[of qd_id "qq_deliveries d" r] by (simp add: qd_get_def qq_ok_def)
    then have "qd_get (qd_id r) d' = Some r" using settled_step[OF step ok] that by (simp add: settled_def)
    moreover have "qd_get (qd_id x) d' = Some x" using ok' x(1) row_get_unique[of qd_id "qq_deliveries d'" x] by (simp add: qd_get_def qq_ok_def)
    ultimately have "r = x" unfolding r(2) by (simp only: option.inject)
    then show ?thesis by simp
  qed
  then have "qd_id r = qd_id x \<and> (qd_status r = ''sent'' \<longrightarrow> detached r x)" using r(2) by simp
  then show "\<exists>r \<in> set (qq_deliveries d). qd_id r = qd_id x \<and> (qd_status r = ''sent'' \<longrightarrow> detached r x)" using r(1) by (rule bexI)
qed


lemma keeps_plain: "\<forall>x \<in> set rows. plain_delivery x \<Longrightarrow> keeps d (fst (add_deliveries rows d))"
  by (rule keeps_added[OF added_one])

lemma keeps_accept:
  assumes run: "accept_qq now label m i aid b groups payload paths d = (d', ids)"
    and fresh: "\<forall>x \<in> set (qq_deliveries d). qd_article_publish_attempt_id x \<noteq> Some aid"
  shows "keeps d d'"
proof -
  have keep: "qq_deliveries (finish_dispatch now r st e d0) = qq_deliveries d0 \<and> serial (finish_dispatch now r st e d0) = serial d0"
      "qq_deliveries (put_dispatch r d0) = qq_deliveries d0 \<and> serial (put_dispatch r d0) = serial d0"
      "qq_deliveries (add_attempt a d0) = qq_deliveries d0 \<and> serial (add_attempt a d0) = serial d0" for r st e d0 a
    by (simp_all add: finish_dispatch_def put_dispatch_def add_attempt_def put_attempt_def Let_def split: option.split)
  have d': "d' = fst (accept_qq now label m i aid b groups payload paths d)" using run by simp
  show ?thesis
  proof (cases "dp_get i d")
    case None
    then show ?thesis by (simp add: d' accept_qq_def keeps_same)
  next
    case (Some r)
    show ?thesis
    proof (cases "row_get qb_id b (qq_bots d)")
      case None
      then show ?thesis using Some by (simp add: d' accept_qq_def keeps_same keep del: row_get_None)
    next
      case bot: (Some qbot)
      let ?rows = "article_deliveries now m r qbot aid groups (qq_parts (qq_text label payload) paths)"
      show ?thesis
      proof (cases "waiting r \<and> qb_is_enabled qbot \<and> set groups = set (joined_groups qbot groups d)")
        case True
        have "qd_claim_token x = None \<and> qd_status x = ''queued'' \<and> qd_article_publish_attempt_id x = Some aid" if "x \<in> set ?rows" for x
          using that by (auto simp: article_deliveries_def new_delivery_def)
        moreover have "\<not> earlier_part r x" if "r \<in> set (qq_deliveries d)" "qd_article_publish_attempt_id x = Some aid" for r x
          using fresh that by (auto simp: earlier_part_def)
        ultimately show ?thesis
          by (intro keeps_add[of ?rows]) (blast, simp_all add: d' accept_qq_def Some bot True Let_def add_deliveries_rows keep)
      next
        case False
        then show ?thesis using Some bot by (auto simp: d' accept_qq_def keeps_same keep)
      qed
    qed
  qed
qed

lemma keeps_create_target:
  assumes "create_target env cfg now p d = Inr (d', ids)"
  shows "keeps d d'"
proof -
  obtain template d1 where r: "replace_subscriptions now (serial d) (tc_all_monitored_users p) (tc_monitored_user_ids p)
      (d\<lparr>qq_targets := qq_targets d @ [new_target now (serial d) template p], serial := serial d + 1\<rparr>) = Inr d1"
    and h: "create_target_history_deliveries env now (qq_worker_max_attempts cfg) (new_target now (serial d) template p) d1 = Some (d', ids)"
    using assms by (auto simp: create_target_def Let_def new_target_def split: sum.splits if_splits option.splits)
  have "qq_deliveries d1 = qq_deliveries d" "serial d \<le> serial d1"
    using r by (auto simp: replace_subscriptions_def Let_def split: if_splits)
  then show ?thesis using keeps_trans[OF keeps_same keeps_added[OF history_added[OF h]]] by blast
qed

lemma keeps_test_target: "test_target cfg now fresh i d = Inr (d', ids) \<Longrightarrow> keeps d d'"
  by (auto simp: test_target_def create_test_delivery_def test_delivery_def Let_def plain_delivery_def split: option.splits sum.splits if_splits
      dest!: arg_cong[of _ _ fst] intro!: keeps_plain)

lemma keeps_batch:
  assumes "batch_push env cfg now keys q d = Inr (d', ids)"
  shows "keeps d d'"
proof -
  obtain b cs where "add_deliveries (map (\<lambda>(k, grp, body). batch_delivery now (qq_worker_max_attempts cfg) b grp (keys k) body) cs) d = (d', ids)"
    using assms by (auto simp: batch_push_def Let_def split: sum.splits if_splits option.splits)
  then have "d' = fst (add_deliveries (map (\<lambda>(k, grp, body). batch_delivery now (qq_worker_max_attempts cfg) b grp (keys k) body) cs) d)" by simp
  then show ?thesis by (simp only:) (rule keeps_plain, auto simp: batch_delivery_def plain_delivery_def)
qed

lemma keeps_push:
  assumes "push_task_now cfg now run i d = Inr (d', ids)"
  shows "keeps d d'"
proof -
  obtain t cs where "add_deliveries (map (\<lambda>(b, grp). manual_delivery now (qq_worker_max_attempts cfg) run t b grp) cs) d = (d', ids)"
    using assms by (auto simp: push_task_now_def Let_def split: if_splits option.splits)
  then have "d' = fst (add_deliveries (map (\<lambda>(b, grp). manual_delivery now (qq_worker_max_attempts cfg) run t b grp) cs) d)" by simp
  then show ?thesis by (simp only:) (rule keeps_plain, auto simp: manual_delivery_def scheduled_delivery_def plain_delivery_def)
qed

lemma keeps_drop: "keeps d (drop_deliveries p d)"
  by (rule keeps_subset[of _ "\<lambda>r. r" "\<lambda>r. \<not> p r"]) (simp_all add: drop_deliveries_def)

lemma keeps_delete: "delete_delivery i d = Inr d' \<Longrightarrow> keeps d d'"
  by (auto simp: delete_delivery_def keeps_drop split: option.splits if_splits)

lemma keeps_clear:
  assumes run: "clear_when active gone between d = (d', r)" and others: "\<And>k x. keeps x (between k x)"
  shows "keeps d d'"
proof -
  have "keeps d (between 1 (drop_deliveries p (between 0 d)))" for p
    by (rule keeps_trans[OF others keeps_trans[OF keeps_drop others]])
  moreover have "keeps d (between 1 (between 0 d))" by (rule keeps_trans[OF others others])
  moreover have "keeps d d" by (simp add: keeps_same)
  ultimately show ?thesis using run by (auto simp: clear_when_def Let_def split: if_splits)
qed

lemma keeps_detach:
  assumes "qq_deliveries d' = row_update p f (qq_deliveries d)" and "\<And>r. detached r (f r)" and "serial d \<le> serial d'"
  shows "keeps d d'"
  by (rule keeps_subset[of _ "\<lambda>r. if p r then f r else r" "\<lambda>_. True"]) (simp_all add: assms row_update_def)

text \<open>Publication by hand appends the messages of a new attempt.\<close>

lemma keeps_by_hand:
  assumes run: "publish_to_qq env label m now t admin p a (d, vol) = ((d', vol'), res)"
    and fresh: "\<forall>x \<in> set (qq_deliveries d). qd_article_publish_attempt_id x \<noteq> Some t"
  shows "keeps d d'"
proof (cases "d' = d")
  case False
  then obtain qbot groups parts a1 ids where q: "queue_manual now m t qbot groups parts a1 d = (d', ids)"
    using run by (auto simp: publish_to_qq_def Let_def split: option.splits if_splits prod.splits sum.splits)
  let ?rows = "manual_deliveries now m (dr_id a1) qbot t groups parts"
  have row: "qd_claim_token x = None \<and> qd_status x = ''queued'' \<and> qd_article_publish_attempt_id x = Some t" if "x \<in> set ?rows" for x
    using that by (auto simp: manual_deliveries_def manual_part_def)
  have old: "\<not> earlier_part y x" if "y \<in> set (qq_deliveries d)" "qd_article_publish_attempt_id x = Some t" for y x
    using fresh that by (auto simp: earlier_part_def)
  have "d' = fst (queue_manual now m t qbot groups parts a1 d)" by (simp add: q)
  then have "qq_deliveries d' = qq_deliveries (fst (add_deliveries ?rows d))" "serial d' = serial (fst (add_deliveries ?rows d))"
    by (simp_all add: queue_manual_def Let_def add_deliveries_rows put_article_def add_attempt_def put_attempt_def)
  then show ?thesis using keeps_add[of ?rows d d'] row old by blast
qed (simp add: keeps_same)

lemma keeps_delete_article:
  assumes run: "delete_article between i (d, vol) = ((d', vol'), e)" and others: "\<And>x v. keeps x (fst (between (x, v)))"
  shows "keeps d d'"
proof -
  have "keeps d (drop_article i d)"
    by (rule keeps_detach[of _ "\<lambda>q. qd_article_id q = Some i" "\<lambda>q. q\<lparr>qd_article_id := None\<rparr>"]) (simp_all add: drop_article_def detached_parts)
  then have "keeps d (fst (between (drop_article i d, vol)))" by (rule keeps_trans[OF _ others])
  moreover have "keeps d d" by (simp add: keeps_same)
  ultimately show ?thesis using run by (auto simp: delete_article_def Let_def split: option.splits if_splits)
qed

lemma keeps_delete_job:
  assumes "delete_ai_job i d = Inr (d', images)"
  shows "keeps d d'"
proof -
  let ?gone = "map dr_id (filter (\<lambda>a. dr_job_id a = Some i) (drafts d))"
  have "qq_deliveries d' = row_update (\<lambda>q. qd_article_id q \<in> Some ` set ?gone) (\<lambda>q. q\<lparr>qd_article_id := None\<rparr>) (qq_deliveries d)"
      "serial d \<le> serial d'"
    using assms by (auto simp: delete_ai_job_def Let_def split: option.splits if_splits)
  then show ?thesis by (rule keeps_detach[OF _ detached_parts(4)])
qed

lemma keeps_posts:
  "qq_deliveries d' = row_update p (\<lambda>q. q\<lparr>qd_source_tweet_id := None\<rparr>) (qq_deliveries d) \<Longrightarrow> serial d \<le> serial d' \<Longrightarrow> keeps d d'"
  by (rule keeps_detach[OF _ detached_parts(3)])

lemma keeps_drop_targets: "keeps d (drop_targets p d)"
  by (rule keeps_detach[of _ "\<lambda>r. case qd_target_id r of None \<Rightarrow> False | Some t \<Rightarrow> t \<in> set (map qt_id (filter p (qq_targets d)))"
        "\<lambda>r. r\<lparr>qd_target_id := None\<rparr>"]) (simp_all add: drop_targets_def Let_def detached_parts)

lemma qq_run_keeps: "qq_run d d' \<Longrightarrow> keeps d d'"
proof (induction rule: qq_run.induct)
  case (cleared between d d' r)
  then show ?case by (auto simp: clear_deliveries_def intro: keeps_clear)
next
  case (task_cleared between i d d' r)
  then show ?case by (auto simp: clear_task_history_def keeps_same intro: keeps_clear split: if_splits)
next
  case (no_article between i d vol d' vol' e)
  then show ?case by (blast intro: keeps_delete_article)
next
  case (no_task i d d')
  then show ?case
    by (intro keeps_detach[of _ "\<lambda>r. qd_task_id r = Some i" "\<lambda>r. r\<lparr>qd_task_id := None\<rparr>"])
      (auto simp: delete_qq_task_def detached_parts split: if_splits)
next
  case (no_target i d d')
  then show ?case by (auto simp: delete_target_def keeps_drop_targets split: if_splits)
next
  case (no_bot i d d')
  then have "qq_deliveries d' = qq_deliveries (drop_targets (\<lambda>t. qt_bot_id t = i) d) \<and> serial d' = serial d"
    by (auto simp: delete_bot_def split: sum.splits)
  then show ?case using keeps_trans[OF keeps_drop_targets keeps_same] by simp
next
  case (none d)
  show ?case by (simp add: keeps_same)
next
  case (chain d d1 d2)
  show ?case by (rule keeps_trans[OF chain.IH])
qed (blast intro: keeps_step keeps_added[OF tweets_added] keeps_accept keeps_create_target keeps_test_target keeps_batch keeps_push
    keeps_retry keeps_delete keeps_by_hand keeps_delete_job keeps_posts keeps_same)+


text \<open>
  C26: the parts of a published article reach a group in order: while workers claim and store results, pollers and
  dispatchers queue messages, articles are published by hand and deleted and the routes push, retry, delete and
  clear, a part that is being sent or was sent has no stored part before it that was not sent. A part that an
  administrator deleted is no longer stored, and does not hold back those after it.
\<close>

theorem parts_in_order:
  assumes "qq_ok d" and "qq_run d d'" and "r \<in> set (qq_deliveries d')" and "qd_kind r = ''article''"
    and "qd_status r \<in> {''sending'', ''sent''}" and "x \<in> set (qq_deliveries d')" and "earlier_part r x"
  shows "qd_status x = ''sent''"
  using keepsD(1)[OF qq_run_keeps[OF assms(2)] assms(1)] assms(3-7) unfolding qq_ok_def by blast

text \<open>
  C27: a message that was sent is never sent again and never changed: whatever workers and
  routes do, its row stays as it is but for references to a task, target, post or article that were deleted, which
  are cleared, or is deleted, its id is never given to another message, and no claim of that id hands out a send.
\<close>

theorem sent_never_again:
  assumes ok: "qq_ok d" and run: "qq_run d d'" and r: "qd_get i d = Some r" and sent: "qd_status r = ''sent''"
  shows "(\<forall>r'. qd_get i d' = Some r' \<longrightarrow> detached r r') \<and> claim_delivery cfg decrypt worker now i token d' = Some (d', None)"
proof -
  note k = keepsD[OF qq_run_keeps[OF run] ok]
  have i: "qd_id r = i" "i < serial d" using qd_get_mem[OF r] ok by (auto simp: qq_ok_def)
  have same: "detached r r'" if "qd_get i d' = Some r'" for r'
  proof -
    have r': "r' \<in> set (qq_deliveries d')" "qd_id r' = i" using qd_get_mem[OF that] by simp_all
    then obtain x where x: "x \<in> set (qq_deliveries d)" "qd_id x = i" "qd_status x = ''sent'' \<longrightarrow> detached x r'"
      using k(3)[of r'] i(2) by auto
    have "qd_get i d = Some x" using ok x(1,2) row_get_unique[of qd_id "qq_deliveries d" x] by (simp add: qd_get_def qq_ok_def)
    then show ?thesis using r sent x(3) by simp
  qed
  have "\<not> delivery_due now r'" if "qd_get i d' = Some r'" for r'
    using detached_facts(3)[OF same[OF that]] sent delivery_due_unsettled[of now r'] by (auto simp: settled_def)
  then have "claim_delivery cfg decrypt worker now i token d' = Some (d', None)"
    by (auto simp: claim_delivery_def split: option.split)
  with same show ?thesis by blast
qed

definition failed_part :: "int \<Rightarrow> qq_delivery" where
  "failed_part k = (sample_part k)\<lparr>qd_status := ''failed''\<rparr>"

definition sample_history_db :: db where
  "sample_history_db = empty_db\<lparr>qq_bots := [sample_bot],
     qq_groups := [\<lparr>qg_id = 3, qg_bot_id = 2, qg_app_id = ''app'', qg_group_openid = ''g'', qg_is_joined = True, qg_last_event_at = 0,
       qg_created_at = 0, qg_updated_at = 0\<rparr>],
     qq_deliveries := [sent_part 0, failed_part 1], serial := 60\<rparr>"

lemma sample_history_ok: "qq_ok sample_history_db"
  by (simp add: qq_ok_def sample_history_db_def sent_part_def sent_row_def failed_part_def sample_part_def earlier_part_def)

definition retried_db :: db where
  "retried_db = put_delivery (requeued_delivery 70 (failed_part 1)) sample_history_db"

definition emptied_db :: db where
  "emptied_db = drop_deliveries (\<lambda>x. qd_id x = 51) retried_db"

text \<open>The second part is retried by hand, then its record is deleted.\<close>

lemma sample_history_run: "qq_run sample_history_db retried_db" "qq_run sample_history_db emptied_db"
proof -
  have "retry_delivery 70 51 sample_history_db = Inr retried_db" "delete_delivery 51 retried_db = Inr emptied_db" by code_simp+
  then have "qq_run sample_history_db retried_db" "qq_run retried_db emptied_db"
    by (blast intro: qq_run.retry_route qq_run.delete_route)+
  then show "qq_run sample_history_db retried_db" "qq_run sample_history_db emptied_db" by (blast intro: qq_run.chain)+
qed

text \<open>It is then claimed; the part before it was sent.\<close>

definition claimed_part :: qq_delivery where
  "claimed_part = sending_row default_qq_worker_cfg ''w'' 80 ''t'' (requeued_delivery 70 (failed_part 1))"

definition claimed_db :: db where
  "claimed_db = put_delivery claimed_part retried_db"

lemma sample_claim_run: "qq_run sample_history_db claimed_db"
proof -
  let ?c = "claim_of_row claimed_part ''t'' sample_bot ''x'' ''g''"
  have "claim_delivery default_qq_worker_cfg Inr ''w'' 80 51 ''t'' retried_db = Some (claimed_db, Some ?c)" by code_simp
  from qq_run.worker[OF qq_step.claim[OF this]] sample_history_run(1) show ?thesis by (blast intro: qq_run.chain)
qed

theorem parts_in_order_witness: "qd_status claimed_part = ''sending'' \<and> qd_status (sent_part 0) = ''sent''"
proof
  show "qd_status claimed_part = ''sending''" by code_simp
  show "qd_status (sent_part 0) = ''sent''"
  proof (rule parts_in_order[OF sample_history_ok sample_claim_run, of claimed_part])
    have rows: "qq_deliveries claimed_db = [sent_part 0, claimed_part]" by code_simp
    show "claimed_part \<in> set (qq_deliveries claimed_db)" "sent_part 0 \<in> set (qq_deliveries claimed_db)" by (simp_all add: rows)
    show "qd_kind claimed_part = ''article''" "qd_status claimed_part \<in> {''sending'', ''sent''}" "earlier_part claimed_part (sent_part 0)"
      by code_simp+
  qed
qed

theorem sent_never_again_witness:
  "claim_delivery default_qq_worker_cfg Inr ''w'' 80 50 ''t'' emptied_db = Some (emptied_db, None)"
proof -
  have "qd_get 50 sample_history_db = Some (sent_part 0)" "qd_status (sent_part 0) = ''sent''" by code_simp+
  from sent_never_again[OF sample_history_ok sample_history_run(2) this] show ?thesis by blast
qed


text \<open>The verdict on credentials that were replaced during the check is stored for the new ones.\<close>

lemma stale_verdict:
  "qb_verification_status (hd (qq_bots (fst (test_bot \<lparr>se_encrypt = \<lambda>s. s, se_decrypt = Inr, se_hint = \<lambda>s. s, se_fingerprint = \<lambda>s. s\<rparr>
      (\<lambda>j. ''x'') (\<lambda>app secret. if secret = ''old'' then Answered 200 (Some (JObj [(''access_token'', JStr ''a''), (''expires_in'', JStr ''7'')]))
        else Answered 401 None)
      (\<lambda>d. d\<lparr>qq_bots := [sample_bot\<lparr>qb_encrypted_app_secret := ''wrong'', qb_verification_status := ''unverified'', qb_version := 2\<rparr>]\<rparr>)
      9 2 (sample_route_db\<lparr>qq_bots := [sample_bot\<lparr>qb_encrypted_app_secret := ''old'', qb_verification_status := ''unverified''\<rparr>]\<rparr>))))) =
    ''valid''"
  by code_simp

end
