(* ===== verification/AgentWorkflows.thy ===== *)
theory AgentWorkflows
  imports AgentTables
begin

text \<open>
  Agent workflows: the routes of nodes and workflows (\<open>backend/app/api/routes/agent_workflows.py\<close>)
  and of runs (\<open>agent_workflow_runs.py\<close>), with the snapshots of \<open>services/agent_workflow.py\<close>. A
  workflow is an ordered list of nodes; a run freezes it with the skills and the settings, so
  that later edits do not change it.
\<close>

subsection \<open>Nodes\<close>

record node_input =
  ni_name :: string
  ni_description :: "string option"
  ni_node_type :: string
  ni_skill_ids :: "int list"
  ni_is_active :: bool

definition name_ok :: "string \<Rightarrow> string option \<Rightarrow> bool" where
  "name_ok n descr \<longleftrightarrow> 1 \<le> length n \<and> length n \<le> 100 \<and> strip n \<noteq> [] \<and> (case descr of None \<Rightarrow> True | Some t \<Rightarrow> length t \<le> 2000)"

definition node_types :: "string list" where
  "node_types = [''custom'', ''article'', ''review'']"

definition node_input_ok :: "node_input \<Rightarrow> bool" where
  "node_input_ok p \<longleftrightarrow> name_ok (ni_name p) (ni_description p) \<and> ni_node_type p \<in> set node_types \<and>
     1 \<le> length (ni_skill_ids p) \<and> length (ni_skill_ids p) \<le> 20 \<and> list_all (\<lambda>i. 0 < i) (ni_skill_ids p) \<and> distinct (ni_skill_ids p)"

text \<open>
  \<open>resolve\<close> is the client of the skill service, which answers with active skills only; \<open>None\<close>
  is its outage.
\<close>

definition check_skills :: "(int list \<Rightarrow> skill list option) \<Rightarrow> int list \<Rightarrow> api_error option" where
  "check_skills resolve ids =
     (case resolve ids of
        None \<Rightarrow> Some (Unavailable ''skill_service_unavailable'')
      | Some sks \<Rightarrow> if map sk_id sks \<noteq> ids then Some (Unprocessable ''invalid_agent_skills'') else None)"

definition take_serial :: "agent_db \<Rightarrow> agent_db" where
  "take_serial s = s\<lparr>ag_db := (ag_db s)\<lparr>serial := serial (ag_db s) + 1\<rparr>\<rparr>"

definition create_agent_node :: "(int list \<Rightarrow> skill list option) \<Rightarrow> time \<Rightarrow> node_input \<Rightarrow> agent_db \<Rightarrow> api_error + agent_db" where
  "create_agent_node resolve now p s =
     (if \<not> node_input_ok p then Inl (Unprocessable ''payload'')
      else case check_skills resolve (ni_skill_ids p) of
        Some e \<Rightarrow> Inl e
      | None \<Rightarrow>
          (if strip (ni_name p) \<in> an_name ` set (ag_nodes s) then Inl (Conflict ''agent_node_name_exists'')
           else Inr (take_serial (s\<lparr>ag_nodes := ag_nodes s @
             [\<lparr>an_id = serial (ag_db s), an_name = strip (ni_name p), an_description = ni_description p, an_node_type = ni_node_type p,
               an_skill_ids = ni_skill_ids p, an_is_active = ni_is_active p, an_version = 1, an_created_at = now, an_updated_at = now\<rparr>]\<rparr>))))"

definition put_node :: "agent_node \<Rightarrow> agent_db \<Rightarrow> agent_db" where
  "put_node n s = s\<lparr>ag_nodes := row_put an_id n (ag_nodes s)\<rparr>"

definition update_agent_node :: "(int list \<Rightarrow> skill list option) \<Rightarrow> int \<Rightarrow> node_input \<Rightarrow> int \<Rightarrow> agent_db \<Rightarrow> api_error + agent_db" where
  "update_agent_node resolve i p version s =
     (if \<not> node_input_ok p \<or> version < 1 then Inl (Unprocessable ''payload'')
      else case row_get an_id i (ag_nodes s) of
        None \<Rightarrow> Inl (NotFound ''agent_node_not_found'')
      | Some n \<Rightarrow>
          (if an_version n \<noteq> version then Inl (Conflict ''agent_node_version_conflict'')
           else case (if ni_is_active p \<or> ni_skill_ids p \<noteq> an_skill_ids n then check_skills resolve (ni_skill_ids p) else None) of
             Some e \<Rightarrow> Inl e
           | None \<Rightarrow>
               (if list_ex (\<lambda>x. an_id x \<noteq> i \<and> an_name x = strip (ni_name p)) (ag_nodes s) then Inl (Conflict ''agent_node_name_exists'')
                else Inr (put_node (n\<lparr>an_name := strip (ni_name p), an_description := ni_description p, an_node_type := ni_node_type p,
                  an_skill_ids := ni_skill_ids p, an_is_active := ni_is_active p, an_version := an_version n + 1\<rparr>) s))))"

definition disable_agent_node :: "int \<Rightarrow> agent_db \<Rightarrow> api_error + agent_db" where
  "disable_agent_node i s =
     (case row_get an_id i (ag_nodes s) of
        None \<Rightarrow> Inl (NotFound ''agent_node_not_found'')
      | Some n \<Rightarrow> Inr (put_node (n\<lparr>an_is_active := False, an_version := an_version n + 1\<rparr>) s))"

subsection \<open>Workflows\<close>

record workflow_input =
  wi_name :: string
  wi_description :: "string option"
  wi_node_ids :: "int list"
  wi_is_active :: bool

definition workflow_input_ok :: "workflow_input \<Rightarrow> bool" where
  "workflow_input_ok p \<longleftrightarrow> name_ok (wi_name p) (wi_description p) \<and> 1 \<le> length (wi_node_ids p) \<and> length (wi_node_ids p) \<le> 10 \<and>
     list_all (\<lambda>i. 0 < i) (wi_node_ids p)"

definition check_nodes :: "int list \<Rightarrow> agent_db \<Rightarrow> api_error + agent_node list" where
  "check_nodes ids s =
     (if list_all (\<lambda>i. case row_get an_id i (ag_nodes s) of None \<Rightarrow> False | Some n \<Rightarrow> an_is_active n) ids
      then Inr (List.map_filter (\<lambda>i. row_get an_id i (ag_nodes s)) ids)
      else Inl (Unprocessable ''invalid_agent_nodes''))"

definition steps_of :: "int \<Rightarrow> int list \<Rightarrow> workflow_step list" where
  "steps_of w ids = map (\<lambda>(k, i). \<lparr>wp_workflow_id = w, wp_node_id = i, wp_position = k\<rparr>) (enumerate 1 ids)"

definition create_agent_workflow :: "time \<Rightarrow> workflow_input \<Rightarrow> agent_db \<Rightarrow> api_error + agent_db" where
  "create_agent_workflow now p s =
     (if \<not> workflow_input_ok p then Inl (Unprocessable ''payload'')
      else case check_nodes (wi_node_ids p) s of
        Inl e \<Rightarrow> Inl e
      | Inr ns \<Rightarrow>
          (if strip (wi_name p) \<in> aw_name ` set (ag_workflows s) then Inl (Conflict ''agent_workflow_name_exists'')
           else let i = serial (ag_db s) in
             Inr (take_serial (s\<lparr>ag_workflows := ag_workflows s @
                 [\<lparr>aw_id = i, aw_name = strip (wi_name p), aw_description = wi_description p, aw_is_active = wi_is_active p,
                   aw_version = 1, aw_created_at = now, aw_updated_at = now\<rparr>],
               ag_steps := ag_steps s @ steps_of i (wi_node_ids p)\<rparr>))))"

definition put_workflow :: "agent_workflow \<Rightarrow> agent_db \<Rightarrow> agent_db" where
  "put_workflow w s = s\<lparr>ag_workflows := row_put aw_id w (ag_workflows s)\<rparr>"

text \<open>
  The flush that removes the old steps also writes the new name, before the handler of a taken
  name is entered.
\<close>

definition update_agent_workflow :: "int \<Rightarrow> workflow_input \<Rightarrow> int \<Rightarrow> agent_db \<Rightarrow> api_error + agent_db" where
  "update_agent_workflow i p version s =
     (if \<not> workflow_input_ok p \<or> version < 1 then Inl (Unprocessable ''payload'')
      else case row_get aw_id i (ag_workflows s) of
        None \<Rightarrow> Inl (NotFound ''agent_workflow_not_found'')
      | Some w \<Rightarrow>
          (if aw_version w \<noteq> version then Inl (Conflict ''agent_workflow_version_conflict'')
           else case check_nodes (wi_node_ids p) s of
             Inl e \<Rightarrow> Inl e
           | Inr ns \<Rightarrow>
               (if list_ex (\<lambda>x. aw_id x \<noteq> i \<and> aw_name x = strip (wi_name p)) (ag_workflows s)
                then Inl (ServerError ''IntegrityError'')
                else Inr ((put_workflow (w\<lparr>aw_name := strip (wi_name p), aw_description := wi_description p,
                    aw_is_active := wi_is_active p, aw_version := aw_version w + 1\<rparr>) s)
                  \<lparr>ag_steps := filter (\<lambda>x. wp_workflow_id x \<noteq> i) (ag_steps s) @ steps_of i (map an_id ns)\<rparr>))))"

definition disable_agent_workflow :: "int \<Rightarrow> agent_db \<Rightarrow> api_error + agent_db" where
  "disable_agent_workflow i s =
     (case row_get aw_id i (ag_workflows s) of
        None \<Rightarrow> Inl (NotFound ''agent_workflow_not_found'')
      | Some w \<Rightarrow> Inr (put_workflow (w\<lparr>aw_is_active := False, aw_version := aw_version w + 1\<rparr>) s))"

subsection \<open>Snapshots of a run\<close>

definition max_instructions :: nat where
  "max_instructions = 160000"

definition max_context :: nat where
  "max_context = 200000"

definition frozen_step :: "skill list \<Rightarrow> nat \<times> agent_node \<Rightarrow> frozen_node" where
  "frozen_step sks kn =
     (case kn of (k, n) \<Rightarrow>
       \<lparr>fn_position = k, fn_id = an_id n, fn_name = an_name n, fn_node_type = an_node_type n, fn_version = an_version n,
        fn_skills = List.map_filter (\<lambda>i. row_get sk_id i sks) (an_skill_ids n)\<rparr>)"

definition freeze_workflow :: "(int list \<Rightarrow> skill list option) \<Rightarrow> agent_workflow \<Rightarrow> agent_node list \<Rightarrow> api_error + frozen_workflow" where
  "freeze_workflow resolve w ns =
     (let ids = uniq (concat (map an_skill_ids ns)) in
      case resolve ids of
        None \<Rightarrow> Inl (Unavailable ''skill_service_unavailable'')
      | Some sks \<Rightarrow>
          (let steps = map (frozen_step sks) (enumerate 1 ns) in
           if map sk_id sks \<noteq> ids then Inl (Unprocessable ''workflow_references_unavailable'')
           else if list_ex (\<lambda>n. max_instructions < sum_list (map (length \<circ> sk_instructions) (fn_skills n))) steps
           then Inl (Unprocessable ''node_context_too_large'')
           else Inr \<lparr>fw_id = aw_id w, fw_name = aw_name w, fw_version = aw_version w, fw_steps = steps\<rparr>))"

definition execution_config :: "db \<Rightarrow> api_error + workflow_config" where
  "execution_config d =
     (case (ai_ready d, row_get ds_id 1 (data_sources d)) of
        (Some st, Some src) \<Rightarrow>
          Inr \<lparr>wc_language = st_language st, wc_tone = st_tone st, wc_reasoning_effort = st_reasoning_effort st,
               wc_max_output_tokens = min (st_max_output_tokens st) 16000, wc_timeout_seconds = st_request_timeout_seconds st,
               wc_base_url = ds_base_url src, wc_model = ds_model_name src, wc_protocol = ds_protocol src,
               wc_data_source_name = ds_name src, wc_data_source_version = ds_version src\<rparr>
      | _ \<Rightarrow> Inl (Conflict ''ai_not_ready''))"

record run_input =
  ri_workflow_id :: int
  ri_workflow_version :: int
  ri_request_id :: string
  ri_input_text :: string
  ri_article_id :: "int option"
  ri_article_revision :: "int option"
  ri_tweet_id :: "string option"

definition checked_run :: "run_input \<Rightarrow> run_input option" where
  "checked_run p =
     (if 0 < ri_workflow_id p \<and> 1 \<le> ri_workflow_version p \<and> length (ri_input_text p) \<le> 30000 \<and> strip (ri_input_text p) \<noteq> [] \<and>
         (case ri_article_id p of None \<Rightarrow> True | Some i \<Rightarrow> 0 < i) \<and> (case ri_article_revision p of None \<Rightarrow> True | Some i \<Rightarrow> 1 \<le> i) \<and>
         (case ri_tweet_id p of None \<Rightarrow> True | Some t \<Rightarrow> 1 \<le> length t \<and> length t \<le> 64) \<and>
         \<not> (ri_article_id p \<noteq> None \<and> ri_tweet_id p \<noteq> None) \<and> (ri_article_id p = None) = (ri_article_revision p = None)
      then Some (p\<lparr>ri_input_text := strip (ri_input_text p)\<rparr>) else None)"

definition source_snapshot :: "(time \<Rightarrow> string) \<Rightarrow> run_input \<Rightarrow> db \<Rightarrow> api_error + json" where
  "source_snapshot fmt p d =
     (case (ri_article_id p, ri_tweet_id p) of
        (Some i, _) \<Rightarrow>
          (case row_get dr_id i (drafts d) of
             None \<Rightarrow> Inl (NotFound ''article_not_found'')
           | Some a \<Rightarrow>
               (if Some (dr_revision a) \<noteq> ri_article_revision p then Inl (Conflict ''article_changed'')
                else Inr (JObj [(''article_id'', JInt (dr_id a)), (''revision'', JInt (dr_revision a)), (''title'', JStr (dr_title a)),
                  (''content'', JStr (dr_content a)), (''excerpt'', jstr_opt (dr_excerpt a))])))
      | (None, Some t) \<Rightarrow>
          (case row_get tw_tweet_id t (tweets d) of
             None \<Rightarrow> Inl (NotFound ''tweet_not_found'')
           | Some tw \<Rightarrow> Inr (JObj [(''tweet_id'', JStr (tw_tweet_id tw)), (''text'', JStr (tw_text tw)),
               (''author_id'', JStr (tw_author_id tw)), (''posted_at'', JStr (fmt (tw_posted_at tw)))]))
      | (None, None) \<Rightarrow> Inr JNull)"

subsection \<open>Creating a run\<close>

text \<open>The serialisations and the hash that the code uses.\<close>

record run_env =
  re_dumps :: "json \<Rightarrow> string"
  re_iso :: "time \<Rightarrow> string"
  re_hash :: "run_input \<Rightarrow> string"
  re_resolve :: "int list \<Rightarrow> skill list option"

definition existing_run :: "int \<Rightarrow> run_input \<Rightarrow> string \<Rightarrow> agent_db \<Rightarrow> api_error + workflow_run option" where
  "existing_run admin p h s =
     (case find (\<lambda>r. wr_admin_id r = admin \<and> wr_request_id r = ri_request_id p) (ag_runs s) of
        None \<Rightarrow> Inr None
      | Some r \<Rightarrow> if wr_request_hash r \<noteq> h then Inl (Conflict ''request_conflict'') else Inr (Some r))"

definition new_run :: "time \<Rightarrow> string \<Rightarrow> int \<Rightarrow> run_input \<Rightarrow> string \<Rightarrow> json \<Rightarrow> agent_workflow \<Rightarrow> frozen_workflow \<Rightarrow> workflow_config \<Rightarrow> workflow_run" where
  "new_run now fresh admin p h source w snap cfg =
     \<lparr>wr_id = fresh, wr_admin_id = admin, wr_request_id = ri_request_id p, wr_request_hash = h, wr_workflow_id = Some (aw_id w),
      wr_workflow_name = aw_name w, wr_workflow_version = aw_version w, wr_input_text = ri_input_text p, wr_source_snapshot = source,
      wr_workflow_snapshot = snap, wr_config_snapshot = cfg, wr_status = ''queued'', wr_current_position = 0, wr_claim_token = None,
      wr_lease_expires_at = None, wr_next_attempt_at = now, wr_error = None, wr_article_id = None, wr_created_at = now,
      wr_updated_at = now, wr_completed_at = None\<rparr>"

definition new_step :: "string \<Rightarrow> frozen_node \<Rightarrow> step_run" where
  "new_step run n =
     \<lparr>sr_run_id = run, sr_position = fn_position n, sr_node_name = fn_name n, sr_node_type = fn_node_type n, sr_status = ''pending'',
      sr_attempts = 0, sr_output = JNull, sr_usage = JNull, sr_error = None, sr_started_at = None, sr_completed_at = None\<rparr>"

definition prepare_workflow_run :: "run_env \<Rightarrow> run_input \<Rightarrow> agent_db \<Rightarrow> api_error + json \<times> agent_workflow \<times> frozen_workflow \<times> workflow_config" where
  "prepare_workflow_run env p s =
     (case execution_config (ag_db s) of
        Inl e \<Rightarrow> Inl e
      | Inr cfg \<Rightarrow>
          (case source_snapshot (re_iso env) p (ag_db s) of
             Inl e \<Rightarrow> Inl e
           | Inr source \<Rightarrow>
               (if max_context < length (re_dumps env source) + length (ri_input_text p) then Inl (Unprocessable ''workflow_input_too_large'')
                else case row_get aw_id (ri_workflow_id p) (ag_workflows s) of
                  None \<Rightarrow> Inl (Unprocessable ''workflow_unavailable'')
                | Some w \<Rightarrow>
                    (let ids = map wp_node_id (sort_key wp_position (filter (\<lambda>x. wp_workflow_id x = aw_id w) (ag_steps s))) in
                     if \<not> aw_is_active w then Inl (Unprocessable ''workflow_unavailable'')
                     else if aw_version w \<noteq> ri_workflow_version p then Inl (Conflict ''workflow_changed'')
                     else case check_nodes ids s of
                       Inl e \<Rightarrow> Inl e
                     | Inr ns \<Rightarrow>
                         (if ns = [] then Inl (Unprocessable ''workflow_empty'')
                          else case freeze_workflow (re_resolve env) w ns of
                            Inl e \<Rightarrow> Inl e
                          | Inr snap \<Rightarrow> Inr (source, w, snap, cfg))))))"

text \<open>
  The first look for the request takes no lock: a request that another one has stored in
  \<open>between\<close> violates the unique key, and its run is answered.
\<close>

definition create_run :: "run_env \<Rightarrow> (agent_db \<Rightarrow> agent_db) \<Rightarrow> time \<Rightarrow> string \<Rightarrow> int \<Rightarrow> run_input \<Rightarrow> agent_db \<Rightarrow>
    agent_db \<times> (api_error + workflow_run)" where
  "create_run env between now fresh admin p s =
     (let h = re_hash env p in
      case existing_run admin p h s of
        Inl e \<Rightarrow> (s, Inl e)
      | Inr (Some r) \<Rightarrow> (s, Inr r)
      | Inr None \<Rightarrow>
          (let s1 = between s in
           case prepare_workflow_run env p s1 of
             Inl e \<Rightarrow> (s1, Inl e)
           | Inr (source, w, snap, cfg) \<Rightarrow>
               (case existing_run admin p h s1 of
                  Inl e \<Rightarrow> (s1, Inl e)
                | Inr (Some r) \<Rightarrow> (s1, Inr r)
                | Inr None \<Rightarrow>
                    (let r = new_run now fresh admin p h source w snap cfg in
                     (s1\<lparr>ag_runs := ag_runs s1 @ [r], ag_step_runs := ag_step_runs s1 @ map (new_step fresh) (fw_steps snap)\<rparr>, Inr r)))))"

subsection \<open>Routes on a run\<close>

definition run_get :: "string \<Rightarrow> agent_db \<Rightarrow> workflow_run option" where
  "run_get i s = row_get wr_id i (ag_runs s)"

definition put_run :: "workflow_run \<Rightarrow> agent_db \<Rightarrow> agent_db" where
  "put_run r s = s\<lparr>ag_runs := row_put wr_id r (ag_runs s)\<rparr>"

definition owned_run :: "string \<Rightarrow> int \<Rightarrow> agent_db \<Rightarrow> api_error + workflow_run" where
  "owned_run i admin s =
     (case run_get i s of
        None \<Rightarrow> Inl (NotFound ''workflow_run_not_found'')
      | Some r \<Rightarrow> if wr_admin_id r = admin then Inr r else Inl (NotFound ''workflow_run_not_found''))"

definition step_rows :: "string \<Rightarrow> agent_db \<Rightarrow> step_run list" where
  "step_rows i s = sort_key sr_position (filter (\<lambda>x. sr_run_id x = i) (ag_step_runs s))"

definition unfinished_steps :: "string \<Rightarrow> (step_run \<Rightarrow> step_run) \<Rightarrow> agent_db \<Rightarrow> agent_db" where
  "unfinished_steps i f s =
     s\<lparr>ag_step_runs := row_update (\<lambda>x. sr_run_id x = i \<and> sr_status x \<noteq> ''succeeded'') f (ag_step_runs s)\<rparr>"

definition run_active :: "workflow_run \<Rightarrow> bool" where
  "run_active r \<longleftrightarrow> wr_status r \<in> {''queued'', ''running'', ''retry_wait''}"

definition cancel_run :: "time \<Rightarrow> string \<Rightarrow> int \<Rightarrow> agent_db \<Rightarrow> api_error + agent_db" where
  "cancel_run now i admin s =
     (case owned_run i admin s of
        Inl e \<Rightarrow> Inl e
      | Inr r \<Rightarrow>
          (if \<not> run_active r then Inr s
           else Inr (unfinished_steps i (\<lambda>x. x\<lparr>sr_status := ''cancelled''\<rparr>)
             (put_run (r\<lparr>wr_status := ''cancelled'', wr_claim_token := None, wr_lease_expires_at := None,
                         wr_completed_at := Some now, wr_updated_at := now\<rparr>) s))))"

definition retry_run :: "time \<Rightarrow> string \<Rightarrow> int \<Rightarrow> agent_db \<Rightarrow> api_error + agent_db" where
  "retry_run now i admin s =
     (case owned_run i admin s of
        Inl e \<Rightarrow> Inl e
      | Inr r \<Rightarrow>
          (if wr_status r \<noteq> ''failed'' then Inl (Conflict ''workflow_not_failed'')
           else Inr (unfinished_steps i (\<lambda>x. x\<lparr>sr_status := ''pending'', sr_attempts := 0, sr_error := None\<rparr>)
             (put_run (r\<lparr>wr_status := ''queued'', wr_error := None, wr_completed_at := None, wr_next_attempt_at := now,
                         wr_updated_at := now\<rparr>) s))))"

text \<open>The article of a run is its last article node; it becomes a new draft, once.\<close>

definition json_text_or :: "json \<Rightarrow> string" where
  "json_text_or v = (case v of JStr t \<Rightarrow> t | _ \<Rightarrow> [])"

definition run_draft :: "time \<Rightarrow> int \<Rightarrow> workflow_run \<Rightarrow> json \<Rightarrow> draft" where
  "run_draft now i r output =
     \<lparr>dr_id = i, dr_job_id = None, dr_source_tweet_id = None, dr_article_source = ''ai'',
      dr_title = strip (json_text_or (jget output ''title'')), dr_content = strip (json_text_or (jget output ''content'')),
      dr_excerpt = (case jget output ''excerpt'' of JStr t \<Rightarrow> Some t | _ \<Rightarrow> None), dr_images = [],
      dr_publish_status = ''unpublished'', dr_publish_channel = None, dr_publish_attempt_id = None, dr_publish_error = None,
      dr_published_at = None,
      dr_draft_metadata = JObj [(''agent_workflow_run_id'', JStr (wr_id r)), (''agent_workflow_name'', JStr (wr_workflow_name r)),
        (''agent_workflow_version'', JInt (wr_workflow_version r)), (''agent_workflow_article_output'', output)],
      dr_revision = 1, dr_created_at = now, dr_updated_at = now\<rparr>"

definition save_run_article :: "time \<Rightarrow> string \<Rightarrow> int \<Rightarrow> agent_db \<Rightarrow> api_error + agent_db \<times> int" where
  "save_run_article now i admin s =
     (case owned_run i admin s of
        Inl e \<Rightarrow> Inl e
      | Inr r \<Rightarrow>
          (case wr_article_id r of
             Some a \<Rightarrow> Inr (s, a)
           | None \<Rightarrow>
               (if wr_status r \<noteq> ''succeeded'' then Inl (Conflict ''workflow_incomplete'')
                else case find (\<lambda>x. sr_node_type x = ''article'' \<and> truthy (sr_output x)) (rev (step_rows i s)) of
                  None \<Rightarrow> Inl (Conflict ''workflow_no_article'')
                | Some x \<Rightarrow>
                    (let a = serial (ag_db s) in
                     Inr (put_run (r\<lparr>wr_article_id := Some a\<rparr>)
                            (s\<lparr>ag_db := (ag_db s)\<lparr>drafts := drafts (ag_db s) @ [run_draft now a r (sr_output x)], serial := a + 1\<rparr>\<rparr>), a)))))"

end
