(* ===== verification/WorkflowWorker.thy ===== *)
theory WorkflowWorker
  imports AgentWorkflows Config
begin

text \<open>
  The worker of agent workflows, \<open>backend/app/services/agent_workflow_worker.py\<close>, and the call of
  a node, \<open>execute_node\<close> of \<open>services/agent_workflow.py\<close>. A run is claimed with a lease; its steps
  run one after the other, each with a transaction that starts it and one that stores its
  output, so that a worker that takes the run over continues at the first step without output.
\<close>

definition lease_seconds :: time where
  "lease_seconds = secs 90"

definition max_step_attempts :: int where
  "max_step_attempts = 3"

subsection \<open>Scan, claim and lease\<close>

definition lease_expired :: "time \<Rightarrow> workflow_run \<Rightarrow> bool" where
  "lease_expired now r \<longleftrightarrow>
     wr_status r = ''running'' \<and> (case wr_lease_expires_at r of None \<Rightarrow> False | Some t \<Rightarrow> t \<le> now)"

definition expire_leases :: "time \<Rightarrow> agent_db \<Rightarrow> agent_db" where
  "expire_leases now s =
     s\<lparr>ag_runs := row_update (lease_expired now)
        (\<lambda>r. r\<lparr>wr_status := ''queued'', wr_claim_token := None, wr_lease_expires_at := None, wr_next_attempt_at := now, wr_updated_at := now\<rparr>)
        (ag_runs s)\<rparr>"

definition run_due :: "time \<Rightarrow> workflow_run \<Rightarrow> bool" where
  "run_due now r \<longleftrightarrow> wr_status r \<in> {''queued'', ''retry_wait''} \<and> wr_next_attempt_at r \<le> now"

definition scan_runs :: "ai_worker_cfg \<Rightarrow> time \<Rightarrow> agent_db \<Rightarrow> agent_db \<times> string list" where
  "scan_runs cfg now s =
     (let s1 = expire_leases now s in
      if ai_ready (ag_db s1) = None then (s1, [])
      else (s1, map wr_id (row_select (run_due now) wr_created_at (nat (ai_worker_max_concurrency cfg)) (ag_runs s1))))"

definition claim_run :: "time \<Rightarrow> string \<Rightarrow> string \<Rightarrow> agent_db \<Rightarrow> agent_db \<times> bool" where
  "claim_run now token i s =
     (let mine = (\<lambda>r. wr_id r = i \<and> run_due now r) in
      (s\<lparr>ag_runs := row_update mine
          (\<lambda>r. r\<lparr>wr_status := ''running'', wr_claim_token := Some token, wr_error := None, wr_updated_at := now,
                 wr_lease_expires_at := Some (now + lease_seconds)\<rparr>) (ag_runs s)\<rparr>,
       rowcount mine (ag_runs s) = 1))"

definition holds_run :: "time \<Rightarrow> string \<Rightarrow> workflow_run \<Rightarrow> bool" where
  "holds_run now token r \<longleftrightarrow>
     wr_status r = ''running'' \<and> wr_claim_token r = Some token \<and> (case wr_lease_expires_at r of None \<Rightarrow> False | Some t \<Rightarrow> now < t)"

definition renew_run :: "time \<Rightarrow> string \<Rightarrow> string \<Rightarrow> agent_db \<Rightarrow> agent_db \<times> bool" where
  "renew_run now token i s =
     (let mine = (\<lambda>r. wr_id r = i \<and> holds_run now token r) in
      (s\<lparr>ag_runs := row_update mine (\<lambda>r. r\<lparr>wr_lease_expires_at := Some (now + lease_seconds)\<rparr>) (ag_runs s)\<rparr>,
       rowcount mine (ag_runs s) = 1))"

definition current_run :: "time \<Rightarrow> string \<Rightarrow> string \<Rightarrow> agent_db \<Rightarrow> workflow_run option" where
  "current_run now i token s = (case run_get i s of None \<Rightarrow> None | Some r \<Rightarrow> if holds_run now token r then Some r else None)"

subsection \<open>The steps of a run\<close>

record step_output =
  so_position :: nat
  so_node :: string
  so_type :: string
  so_output :: json

definition output_of :: "step_run \<Rightarrow> step_output" where
  "output_of x = \<lparr>so_position = sr_position x, so_node = sr_node_name x, so_type = sr_node_type x, so_output = sr_output x\<rparr>"

text \<open>How a transaction of the loop ends; \<open>Broken\<close> is an exception, which rolls it back.\<close>

datatype stage = LeaseLost | Completed | GaveUp | Broken | Calling workflow_run nat frozen_node "step_output list"

definition step_key :: "step_run \<Rightarrow> string \<times> nat" where
  "step_key x = (sr_run_id x, sr_position x)"

definition put_step :: "step_run \<Rightarrow> agent_db \<Rightarrow> agent_db" where
  "put_step x s = s\<lparr>ag_step_runs := row_put step_key x (ag_step_runs s)\<rparr>"

definition closed_run :: "time \<Rightarrow> string \<Rightarrow> workflow_run \<Rightarrow> workflow_run" where
  "closed_run now st r =
     r\<lparr>wr_status := st, wr_claim_token := None, wr_lease_expires_at := None, wr_completed_at := Some now, wr_updated_at := now\<rparr>"

definition attempts_used :: msg where
  "attempts_used = Lit ''the attempts of the node are used up'' []"

definition frozen_at :: "workflow_run \<Rightarrow> nat \<Rightarrow> frozen_node option" where
  "frozen_at r pos = (let steps = fw_steps (wr_workflow_snapshot r) in if 1 \<le> pos \<and> pos \<le> length steps then Some (steps ! (pos - 1)) else None)"

definition started_step :: "time \<Rightarrow> step_run \<Rightarrow> step_run" where
  "started_step now x =
     x\<lparr>sr_status := ''running'', sr_error := None, sr_attempts := sr_attempts x + 1, sr_started_at := Some now, sr_completed_at := None\<rparr>"

definition begin_step :: "time \<Rightarrow> string \<Rightarrow> string \<Rightarrow> agent_db \<Rightarrow> agent_db \<times> stage" where
  "begin_step now i token s =
     (case current_run now i token s of
        None \<Rightarrow> (s, LeaseLost)
      | Some r \<Rightarrow>
          (case find (\<lambda>x. sr_status x \<noteq> ''succeeded'') (step_rows i s) of
             None \<Rightarrow> (put_run (closed_run now ''succeeded'' r) s, Completed)
           | Some x \<Rightarrow>
               (if max_step_attempts \<le> sr_attempts x
                then (put_run ((closed_run now ''failed'' r)\<lparr>wr_error := Some attempts_used\<rparr>)
                        (put_step (x\<lparr>sr_status := ''failed'', sr_error := Some attempts_used\<rparr>) s), GaveUp)
                else case frozen_at r (sr_position x) of
                  None \<Rightarrow> (s, Broken)
                | Some n \<Rightarrow>
                    (let r' = r\<lparr>wr_current_position := sr_position x, wr_updated_at := now\<rparr> in
                     (put_run r' (put_step (started_step now x) s),
                      Calling r' (sr_position x) n (map output_of (filter (\<lambda>y. sr_position y < sr_position x) (step_rows i s))))))))"

definition step_get :: "string \<Rightarrow> nat \<Rightarrow> agent_db \<Rightarrow> step_run option" where
  "step_get i pos s = row_get step_key (i, pos) (ag_step_runs s)"

definition finished_step :: "time \<Rightarrow> json \<Rightarrow> json \<Rightarrow> step_run \<Rightarrow> step_run" where
  "finished_step now out usage x =
     x\<lparr>sr_status := ''succeeded'', sr_output := out, sr_usage := usage, sr_completed_at := Some now\<rparr>"

definition finish_step :: "time \<Rightarrow> string \<Rightarrow> string \<Rightarrow> nat \<Rightarrow> json \<Rightarrow> json \<Rightarrow> agent_db \<Rightarrow> agent_db \<times> stage" where
  "finish_step now i token pos out usage s =
     (case current_run now i token s of
        None \<Rightarrow> (s, LeaseLost)
      | Some r \<Rightarrow>
          (case step_get i pos s of
             None \<Rightarrow> (s, Broken)
           | Some x \<Rightarrow> (put_step (finished_step now out usage x) s, Completed)))"

definition retry_wait :: "bool \<Rightarrow> time" where
  "retry_wait shutdown = (if shutdown then 0 else secs 15)"

definition fail_run :: "time \<Rightarrow> string \<Rightarrow> string \<Rightarrow> msg \<Rightarrow> bool \<Rightarrow> bool \<Rightarrow> agent_db \<Rightarrow> agent_db" where
  "fail_run now i token err retryable shutdown s =
     (case current_run now i token s of
        None \<Rightarrow> s
      | Some r \<Rightarrow>
          (let x = step_get i (wr_current_position r) s;
               again = (retryable \<and> (case x of None \<Rightarrow> True | Some y \<Rightarrow> sr_attempts y < max_step_attempts));
               completed_at = (if again then None else Some now);
               r' = r\<lparr>wr_status := (if again then ''retry_wait'' else ''failed''), wr_error := Some err, wr_claim_token := None,
                      wr_lease_expires_at := None, wr_updated_at := now, wr_next_attempt_at := now + retry_wait shutdown,
                      wr_completed_at := completed_at\<rparr> in
           put_run r' (case x of
               None \<Rightarrow> s
             | Some y \<Rightarrow>
                 (if sr_status y = ''succeeded'' then s
                  else put_step (y\<lparr>sr_status := (if again then ''pending'' else ''failed''), sr_error := Some err, sr_completed_at := completed_at\<rparr>) s))))"

subsection \<open>The call of a node\<close>

text \<open>
  Errors of a call. A provider error carries whether it may be retried and the HTTP status, a
  local one a text of the program; the rest are an unavailable source, the timeout and
  anything else.
\<close>

datatype call_error = ProviderError bool "nat option" | LocalError msg bool | SourceUnavailable | TimedOut | OtherError

fun error_retryable :: "call_error \<Rightarrow> bool" where
  "error_retryable (ProviderError retryable _) = retryable"
| "error_retryable (LocalError _ retryable) = retryable"
| "error_retryable SourceUnavailable = False"
| "error_retryable TimedOut = True"
| "error_retryable OtherError = True"

fun error_text :: "call_error \<Rightarrow> msg" where
  "error_text (ProviderError _ (Some st)) =
     (if st = 0 then Lit ''the model or data source is unavailable'' [] else Lit ''the model request failed'' [show_nat st])"
| "error_text (ProviderError _ None) = Lit ''the model or data source is unavailable'' []"
| "error_text (LocalError m _) = m"
| "error_text SourceUnavailable = Lit ''the model or data source is unavailable'' []"
| "error_text TimedOut = Lit ''the model request timed out'' []"
| "error_text OtherError = Lit ''the node failed'' []"

record runtime_source =
  rt_protocol :: string
  rt_base_url :: string
  rt_model :: string

text \<open>
  The checks on what a model returned for a node type. \<open>score\<close> reads a number between 0 and
  100; keys other than the fields are forbidden.
\<close>

definition only_keys :: "string list \<Rightarrow> json \<Rightarrow> bool" where
  "only_keys ks v = (case v of JObj kvs \<Rightarrow> set (map fst kvs) \<subseteq> set ks | _ \<Rightarrow> False)"

definition text_field :: "nat \<Rightarrow> nat \<Rightarrow> json \<Rightarrow> string option" where
  "text_field lo hi v = (case v of JStr t \<Rightarrow> if lo \<le> length t \<and> length t \<le> hi then Some t else None | _ \<Rightarrow> None)"

definition text_result :: "json \<Rightarrow> json option" where
  "text_result v =
     (if \<not> only_keys [''text''] v then None
      else map_option (\<lambda>t. JObj [(''text'', JStr t)]) (text_field 1 30000 (jget v ''text'')))"

definition article_result :: "json \<Rightarrow> json option" where
  "article_result v =
     (if \<not> only_keys [''title'', ''content'', ''excerpt''] v then None
      else case (text_field 1 300 (jget v ''title''), text_field 1 30000 (jget v ''content''), jget_or v ''excerpt'' (JBool False)) of
        (Some t, Some c, e) \<Rightarrow>
          (if strip t = [] \<or> strip c = [] \<or> (e \<noteq> JNull \<and> text_field 0 1000 e = None) then None
           else Some (JObj [(''title'', JStr (strip t)), (''content'', JStr (strip c)), (''excerpt'', e)]))
      | _ \<Rightarrow> None)"

definition text_list :: "json \<Rightarrow> bool" where
  "text_list v = (case v of JList xs \<Rightarrow> length xs \<le> 30 \<and> list_all (\<lambda>x. text_field 0 1000 x \<noteq> None) xs | _ \<Rightarrow> False)"

definition review_result :: "(json \<Rightarrow> json option) \<Rightarrow> json \<Rightarrow> json option" where
  "review_result score v =
     (if \<not> only_keys [''score'', ''decision'', ''summary'', ''issues'', ''suggestions''] v then None
      else case (score (jget v ''score''), text_field 1 4000 (jget v ''summary'')) of
        (Some n, Some t) \<Rightarrow>
          (if jget v ''decision'' \<notin> JStr ` {''pass'', ''revise'', ''reject''} \<or> \<not> text_list (jget v ''issues'') \<or>
              \<not> text_list (jget v ''suggestions'') then None
           else Some (JObj [(''score'', n), (''decision'', jget v ''decision''), (''summary'', JStr t), (''issues'', jget v ''issues''),
                            (''suggestions'', jget v ''suggestions'')]))
      | _ \<Rightarrow> None)"

definition node_result :: "(json \<Rightarrow> json option) \<Rightarrow> string \<Rightarrow> json \<Rightarrow> json option" where
  "node_result score kind v =
     (if kind = ''custom'' then text_result v else if kind = ''article'' then article_result v else review_result score v)"

definition is_int :: "json \<Rightarrow> bool" where
  "is_int v = (case v of JInt _ \<Rightarrow> True | JBool _ \<Rightarrow> True | _ \<Rightarrow> False)"

definition public_usage :: "json \<Rightarrow> json" where
  "public_usage raw =
     JObj (map (\<lambda>k. (k, jget (jget raw ''usage'') k))
       (filter (\<lambda>k. is_int (jget (jget raw ''usage'') k)) [''input_tokens'', ''output_tokens'', ''total_tokens'']))"

text \<open>
  The texts of the prompt, the serialisation, the provider with its checks of the destination,
  and how the object is taken out of its answer.
\<close>

record call_env =
  ce_dumps :: "json \<Rightarrow> string"
  ce_rules :: "frozen_node \<Rightarrow> workflow_config \<Rightarrow> string"
  ce_purpose :: "string \<Rightarrow> string"
  ce_skill :: "skill \<Rightarrow> string"
  ce_schema :: "string \<Rightarrow> json"
  ce_score :: "json \<Rightarrow> json option"
  ce_post :: "json \<Rightarrow> call_error + json"
  ce_extract :: "json \<Rightarrow> call_error + json"

definition history_json :: "step_output \<Rightarrow> json" where
  "history_json o' = JObj [(''position'', JInt (int (so_position o'))), (''node'', JStr (so_node o')), (''type'', JStr (so_type o')),
     (''output'', so_output o')]"

definition node_input_text :: "call_env \<Rightarrow> workflow_run \<Rightarrow> step_output list \<Rightarrow> string" where
  "node_input_text env r hist =
     ce_dumps env (JObj [(''task'', JStr (wr_input_text r)), (''source'', wr_source_snapshot r),
       (''previous_steps'', JList (map history_json hist))])"

definition node_instructions :: "call_env \<Rightarrow> workflow_run \<Rightarrow> frozen_node \<Rightarrow> string" where
  "node_instructions env r n =
     ce_rules env n (wr_config_snapshot r) @ [CHR 10] @ ce_purpose env (fn_node_type n) @ concat (map (ce_skill env) (fn_skills n))"

definition node_payload :: "call_env \<Rightarrow> runtime_source \<Rightarrow> workflow_run \<Rightarrow> frozen_node \<Rightarrow> string \<Rightarrow> json" where
  "node_payload env rt r n body =
     JObj [(''model'', JStr (rt_model rt)), (''instructions'', JStr (node_instructions env r n)),
           (''input'', JList [JObj [(''role'', JStr ''user''), (''content'', JStr body)]]),
           (''text'', JObj [(''format'', JObj [(''type'', JStr ''json_schema''), (''name'', JStr ''auto_x_workflow_node''),
              (''strict'', JBool True), (''schema'', ce_schema env (fn_node_type n))])]),
           (''reasoning'', JObj [(''effort'', JStr (wc_reasoning_effort (wr_config_snapshot r)))]),
           (''max_output_tokens'', JInt (wc_max_output_tokens (wr_config_snapshot r))), (''store'', JBool False)]"

definition source_changed :: "runtime_source \<Rightarrow> workflow_config \<Rightarrow> bool" where
  "source_changed rt c \<longleftrightarrow> rt_base_url rt \<noteq> wc_base_url c \<or> rt_model rt \<noteq> wc_model c \<or> rt_protocol rt \<noteq> wc_protocol c"

definition execute_node :: "call_env \<Rightarrow> runtime_source \<Rightarrow> workflow_run \<Rightarrow> frozen_node \<Rightarrow> step_output list \<Rightarrow> call_error + json \<times> json" where
  "execute_node env rt r n hist =
     (let body = node_input_text env r hist in
      if rt_protocol rt \<noteq> ''openai_responses'' then Inl (LocalError (Lit ''the workflow needs the Responses protocol'' []) False)
      else if source_changed rt (wr_config_snapshot r) then Inl (LocalError (Lit ''the data source has changed'' []) False)
      else if max_context < length body then Inl (LocalError (Lit ''the context is too long'' []) False)
      else case ce_post env (node_payload env rt r n body) of
        Inl e \<Rightarrow> Inl e
      | Inr raw \<Rightarrow>
          (if jget raw ''status'' \<notin> {JNull, JStr ''completed''} then Inl (LocalError (Lit ''the output is incomplete'' []) True)
           else case ce_extract env raw of
             Inl e \<Rightarrow> Inl e
           | Inr v \<Rightarrow>
               (case node_result (ce_score env) (fn_node_type n) v of
                  None \<Rightarrow> Inl (LocalError (Lit ''the result does not fit the output format'' []) True)
                | Some out \<Rightarrow> Inr (out, public_usage raw))))"

subsection \<open>A run of a worker\<close>

text \<open>
  What happens around one step: other transactions before it starts, while the model is
  called and before its result is stored; the clock of the two transactions; the data source
  when the call is made; and whether the renewal of the lease failed, or the worker was stopped, during the call.
\<close>

record step_io =
  si_before :: "agent_db \<Rightarrow> agent_db"
  si_calling :: "agent_db \<Rightarrow> agent_db"
  si_storing :: "agent_db \<Rightarrow> agent_db"
  si_start :: time
  si_end :: time
  si_source :: "db \<Rightarrow> runtime_source option"
  si_env :: call_env
  si_lost :: bool
  si_stop :: bool

datatype run_end = Ended | Lost | Stopped | Failed call_error | Working

definition call_model :: "step_io \<Rightarrow> agent_db \<Rightarrow> workflow_run \<Rightarrow> frozen_node \<Rightarrow> step_output list \<Rightarrow> call_error + json \<times> json" where
  "call_model io s r n hist =
     (case (if ai_ready (ag_db s) = None then None else si_source io (ag_db s)) of
        None \<Rightarrow> Inl SourceUnavailable
      | Some rt \<Rightarrow> execute_node (si_env io) rt r n hist)"

text \<open>The loop takes one \<open>step_io\<close> for each turn; \<open>Working\<close> is that there is none left.\<close>

fun execute_run :: "string \<Rightarrow> string \<Rightarrow> step_io list \<Rightarrow> agent_db \<Rightarrow> agent_db \<times> run_end" where
  "execute_run i token [] s = (s, Working)"
| "execute_run i token (io # ios) s =
     (case begin_step (si_start io) i token (si_before io s) of
        (s1, Calling r pos n hist) \<Rightarrow>
          (let s2 = si_calling io s1 in
           if si_stop io then (s2, Stopped)
           else case call_model io s2 r n hist of
             Inl SourceUnavailable \<Rightarrow> (s2, Failed SourceUnavailable)
           | call \<Rightarrow>
               (if si_lost io then (s2, Lost)
                else case call of
                  Inl e \<Rightarrow> (s2, Failed e)
                | Inr (out, usage) \<Rightarrow>
                    (case finish_step (si_end io) i token pos out usage (si_storing io s2) of
                       (s3, LeaseLost) \<Rightarrow> (s3, Lost)
                     | (s3, Completed) \<Rightarrow> execute_run i token ios s3
                     | (s3, _) \<Rightarrow> (s3, Failed OtherError))))
      | (s1, LeaseLost) \<Rightarrow> (s1, Lost)
      | (s1, Broken) \<Rightarrow> (s1, Failed OtherError)
      | (s1, _) \<Rightarrow> (s1, Ended))"

text \<open>\<open>process\<close>: the claim, the loop and the handlers of its exceptions.\<close>

definition stopped_text :: msg where
  "stopped_text = Lit ''worker restart, waiting to continue'' []"

definition process_run :: "time \<Rightarrow> string \<Rightarrow> string \<Rightarrow> step_io list \<Rightarrow> (agent_db \<Rightarrow> agent_db) \<Rightarrow> time \<Rightarrow> agent_db \<Rightarrow> agent_db \<times> run_end" where
  "process_run now token i ios between now' s =
     (case claim_run now token i s of
        (s1, False) \<Rightarrow> (s1, Ended)
      | (s1, True) \<Rightarrow>
          (case execute_run i token ios s1 of
             (s2, Failed e) \<Rightarrow> (fail_run now' i token (error_text e) (error_retryable e) False (between s2), Failed e)
           | (s2, Stopped) \<Rightarrow> (fail_run now' i token stopped_text True True (between s2), Stopped)
           | (s2, stop) \<Rightarrow> (s2, stop)))"

end
