(* ===== verification/WorkflowSafety.thy ===== *)
theory WorkflowSafety
  imports WorkflowWorker
begin

text \<open>
  Runs of agent workflows under any interleaving of workers and routes. A step of the relation
  is one transaction; its first argument is the claim token that it acts with, its second the
  event it stands for: that a node is handed to the model, or that an administrator retries a run.
\<close>

subsection \<open>Transactions\<close>

datatype wf_event = Start string nat | Retry string

fun started :: "string \<Rightarrow> stage \<Rightarrow> wf_event list" where
  "started i (Calling r pos n hist) = [Start i pos]"
| "started i _ = []"

text \<open>A transaction of \<open>create_run\<close> after the first look: no run of the administrator has the request yet.\<close>

inductive wf_step :: "string option \<Rightarrow> wf_event list \<Rightarrow> agent_db \<Rightarrow> agent_db \<Rightarrow> bool" where
  expire: "wf_step None [] s (expire_leases now s)"
| claim: "wf_step (Some t) [] s (fst (claim_run now t i s))"
| renew: "wf_step (Some t) [] s (fst (renew_run now t i s))"
| begins: "begin_step now i t s = (s', st) \<Longrightarrow> wf_step (Some t) (started i st) s s'"
| finish: "step_get i pos s = Some x \<Longrightarrow> sr_status x = ''running'' \<Longrightarrow>
    wf_step (Some t) [] s (fst (finish_step now i t pos out usage s))"
| fail: "wf_step (Some t) [] s (fail_run now i t err retryable shutdown s)"
| create: "create_run env (\<lambda>d. d) now fresh admin p s = (s', result) \<Longrightarrow> fresh \<notin> wr_id ` set (ag_runs s) \<Longrightarrow> wf_step None [] s s'"
| cancel: "cancel_run now i admin s = Inr s' \<Longrightarrow> wf_step None [] s s'"
| retry: "retry_run now i admin s = Inr s' \<Longrightarrow> wf_step None [Retry i] s s'"
| save: "save_run_article now i admin s = Inr (s', a) \<Longrightarrow> wf_step None [] s s'"
| node_new: "create_agent_node resolve now p s = Inr s' \<Longrightarrow> wf_step None [] s s'"
| node_edit: "update_agent_node resolve k p version s = Inr s' \<Longrightarrow> wf_step None [] s s'"
| node_off: "disable_agent_node k s = Inr s' \<Longrightarrow> wf_step None [] s s'"
| workflow_new: "create_agent_workflow now w s = Inr s' \<Longrightarrow> wf_step None [] s s'"
| workflow_edit: "update_agent_workflow k w version s = Inr s' \<Longrightarrow> wf_step None [] s s'"
| workflow_off: "disable_agent_workflow k s = Inr s' \<Longrightarrow> wf_step None [] s s'"
| elsewhere: "wf_step None [] s (with_db d s)"

inductive wf_run :: "(string option \<Rightarrow> bool) \<Rightarrow> wf_event list \<Rightarrow> agent_db \<Rightarrow> agent_db \<Rightarrow> bool" for P where
  stay: "wf_run P [] s s"
| chain: "wf_run P es s s' \<Longrightarrow> wf_step a e s' s'' \<Longrightarrow> P a \<Longrightarrow> wf_run P (es @ e) s s''"

lemma wf_run_one: "wf_step a e s s' \<Longrightarrow> P a \<Longrightarrow> wf_run P e s s'"
  using chain [OF stay] by fastforce

lemma wf_run_append: "wf_run P es' s' s'' \<Longrightarrow> wf_run P es s s' \<Longrightarrow> wf_run P (es @ es') s s''"
  by (induction rule: wf_run.induct) (auto simp: append_assoc [symmetric] simp del: append_assoc intro: wf_run.chain)

lemma wf_run_mono: "wf_run P es s s' \<Longrightarrow> (\<And>a. P a \<Longrightarrow> Q a) \<Longrightarrow> wf_run Q es s s'"
  by (induction rule: wf_run.induct) (auto intro: wf_run.intros)

abbreviation anyone :: "string option \<Rightarrow> bool" where
  "anyone a \<equiv> True"

abbreviation but :: "string \<Rightarrow> string option \<Rightarrow> bool" where
  "but t a \<equiv> a \<noteq> Some t"

subsection \<open>The rows of a run\<close>

definition rows_of :: "string \<Rightarrow> agent_db \<Rightarrow> step_run list" where
  "rows_of i s = filter (\<lambda>x. sr_run_id x = i) (ag_step_runs s)"

definition is_done :: "step_run \<Rightarrow> bool" where
  "is_done x \<longleftrightarrow> sr_status x = ''succeeded''"

definition reached :: "step_run \<Rightarrow> bool" where
  "reached x \<longleftrightarrow> sr_status x = ''succeeded'' \<or> sr_status x = ''running''"

definition step_rows_ok :: "nat \<Rightarrow> step_run list \<Rightarrow> bool" where
  "step_rows_ok n xs \<longleftrightarrow> map sr_position xs = [1..<Suc n] \<and> sorted_wrt (\<lambda>x y. reached y \<longrightarrow> is_done x) xs \<and>
     (\<forall>x \<in> set xs. 0 \<le> sr_attempts x \<and> sr_attempts x \<le> max_step_attempts)"

definition snapshot_ok :: "frozen_workflow \<Rightarrow> bool" where
  "snapshot_ok w \<longleftrightarrow> map fn_position (fw_steps w) = [1..<Suc (length (fw_steps w))]"

definition run_rows_ok :: "workflow_run \<Rightarrow> step_run list \<Rightarrow> bool" where
  "run_rows_ok r xs \<longleftrightarrow> snapshot_ok (wr_workflow_snapshot r) \<and> step_rows_ok (length (fw_steps (wr_workflow_snapshot r))) xs \<and>
     (wr_status r = ''succeeded'' \<longrightarrow> (\<forall>x \<in> set xs. is_done x))"

definition request_key :: "workflow_run \<Rightarrow> int \<times> string" where
  "request_key r = (wr_admin_id r, wr_request_id r)"

definition workflows_ok :: "agent_db \<Rightarrow> bool" where
  "workflows_ok s \<longleftrightarrow> distinct (map wr_id (ag_runs s)) \<and> distinct (map request_key (ag_runs s)) \<and>
     (\<forall>i. i \<notin> wr_id ` set (ag_runs s) \<longrightarrow> rows_of i s = []) \<and>
     (\<forall>r \<in> set (ag_runs s). run_rows_ok r (rows_of (wr_id r) s))"

lemma workflows_okD:
  assumes "workflows_ok s" and "run_get i s = Some r"
  shows "r \<in> set (ag_runs s)" and "wr_id r = i" and "run_rows_ok r (rows_of i s)"
  using assms by (auto simp: workflows_ok_def run_get_def dest!: row_get_Some)

lemma step_rows_of: "step_rows_ok n (rows_of i s) \<Longrightarrow> step_rows i s = rows_of i s"
  unfolding step_rows_def rows_of_def [symmetric]
  by (rule sort_key_id_if_sorted) (metis step_rows_ok_def sorted_upt)

lemma step_rows_ok_distinct: "step_rows_ok n xs \<Longrightarrow> distinct (map sr_position xs)"
  by (simp add: step_rows_ok_def)

text \<open>Replacing one row of a run.\<close>

lemma filter_put:
  "filter (\<lambda>x. sr_run_id x = i) (row_put step_key y xs) = row_put step_key y (filter (\<lambda>x. sr_run_id x = i) xs)"
  by (induction xs) (auto simp: row_put_def row_update_def step_key_def)

lemma rows_of_put: "rows_of i (put_step y s) = row_put step_key y (rows_of i s)"
  by (simp add: rows_of_def put_step_def filter_put)

lemma rows_of_put_other: "sr_run_id y \<noteq> i \<Longrightarrow> rows_of i (put_step y s) = rows_of i s"
  unfolding rows_of_put row_put_def by (rule row_update_none) (auto simp: step_key_def rows_of_def)

lemma put_split:
  assumes e: "rows_of i s = us @ x # vs" and ok: "distinct (map sr_position (rows_of i s))" and y: "step_key y = step_key x"
  shows "rows_of i (put_step y s) = us @ y # vs"
proof -
  have other: "step_key z \<noteq> step_key y" if "z \<in> set us \<or> z \<in> set vs" for z
  proof -
    have "sr_position z \<in> sr_position ` set us \<union> sr_position ` set vs" using that by auto
    moreover have "sr_position x \<notin> sr_position ` set us" "sr_position x \<notin> sr_position ` set vs" using ok e by simp_all
    ultimately have "sr_position z \<noteq> sr_position x" by (metis Un_iff)
    then show ?thesis unfolding y by (simp add: step_key_def)
  qed
  have "row_put step_key y (us @ x # vs) = us @ y # vs"
    using row_update_none [of us "\<lambda>z. step_key z = step_key y"] row_update_none [of vs "\<lambda>z. step_key z = step_key y"] other
      y by (simp add: row_put_def row_update_def)
  with e show ?thesis by (simp add: rows_of_put)
qed

lemma step_get_row: "step_get i pos s = Some x \<Longrightarrow> x \<in> set (rows_of i s) \<and> sr_run_id x = i \<and> sr_position x = pos"
  by (auto simp: step_get_def rows_of_def step_key_def dest!: row_get_Some)

lemma row_step_get:
  assumes "x \<in> set (rows_of i s)" and "distinct (map sr_position (rows_of i s))"
  shows "step_get i (sr_position x) s = Some x"
proof -
  have "sr_run_id x = i" using assms(1) by (simp add: rows_of_def)
  obtain z where z: "step_get i (sr_position x) s = Some z"
    using assms(1) by (cases "step_get i (sr_position x) s") (auto simp: step_get_def rows_of_def step_key_def)
  with step_get_row [OF z] assms show ?thesis by (auto simp: distinct_map inj_on_def)
qed

subsection \<open>How a transaction changes the rows\<close>

text \<open>The rows of one run change in five ways.\<close>

inductive row_move :: "string \<Rightarrow> wf_event list \<Rightarrow> step_run list \<Rightarrow> step_run list \<Rightarrow> bool" for i where
  same: "row_move i [] xs xs"
| start: "\<forall>u \<in> set us. is_done u \<Longrightarrow> \<not> is_done x \<Longrightarrow> sr_attempts x < max_step_attempts \<Longrightarrow>
    row_move i [Start i (sr_position x)] (us @ x # vs) (us @ started_step now x # vs)"
| store: "sr_status x = ''running'' \<Longrightarrow> row_move i [] (us @ x # vs) (us @ finished_step now out usage x # vs)"
| halt: "\<not> is_done x \<Longrightarrow> \<not> reached y \<Longrightarrow> step_key y = step_key x \<Longrightarrow> sr_attempts y = sr_attempts x \<Longrightarrow>
    row_move i [] (us @ x # vs) (us @ y # vs)"
| cancels: "row_move i [] xs (row_update (\<lambda>x. \<not> is_done x) (\<lambda>x. x\<lparr>sr_status := ''cancelled''\<rparr>) xs)"
| again: "row_move i [Retry i] xs (row_update (\<lambda>x. \<not> is_done x) (\<lambda>x. x\<lparr>sr_status := ''pending'', sr_attempts := 0, sr_error := None\<rparr>) xs)"

lemma started_fields [simp]: "step_key (started_step now x) = step_key x" "sr_position (started_step now x) = sr_position x"
  "sr_run_id (started_step now x) = sr_run_id x" "sr_attempts (started_step now x) = sr_attempts x + 1"
  "\<not> is_done (started_step now x)" "reached (started_step now x)"
  by (simp_all add: started_step_def step_key_def is_done_def reached_def)

lemma finished_fields [simp]: "step_key (finished_step now out usage x) = step_key x" "sr_position (finished_step now out usage x) = sr_position x"
  "sr_run_id (finished_step now out usage x) = sr_run_id x" "sr_attempts (finished_step now out usage x) = sr_attempts x"
  "is_done (finished_step now out usage x)"
  by (simp_all add: finished_step_def step_key_def is_done_def)

lemma done_reached: "is_done x \<Longrightarrow> reached x"
  by (simp add: is_done_def reached_def)

lemma sorted_wrt_map_mono:
  "sorted_wrt P xs \<Longrightarrow> (\<And>x y. P x y \<Longrightarrow> P (f x) (f y)) \<Longrightarrow> sorted_wrt P (map f xs)"
  by (auto simp: sorted_wrt_map intro: sorted_wrt_mono_rel)

lemma step_rows_ok_update:
  assumes "step_rows_ok n xs" and "\<And>x. sr_position (f x) = sr_position x" and "\<And>x. \<not> is_done x \<Longrightarrow> \<not> reached (f x)"
    and "\<And>x. 0 \<le> sr_attempts x \<and> sr_attempts x \<le> max_step_attempts \<Longrightarrow> 0 \<le> sr_attempts (f x) \<and> sr_attempts (f x) \<le> max_step_attempts"
  shows "step_rows_ok n (row_update (\<lambda>x. \<not> is_done x) f xs)"
  unfolding step_rows_ok_def
proof (intro conjI)
  show "map sr_position (row_update (\<lambda>x. \<not> is_done x) f xs) = [1..<Suc n]"
    using assms(1,2) by (simp add: step_rows_ok_def del: upt_Suc)
  show "sorted_wrt (\<lambda>x y. reached y \<longrightarrow> is_done x) (row_update (\<lambda>x. \<not> is_done x) f xs)"
    unfolding row_update_def
    by (rule sorted_wrt_map_mono [of "\<lambda>x y. reached y \<longrightarrow> is_done x"]) (use assms done_reached in \<open>auto simp: step_rows_ok_def\<close>)
  show "\<forall>x \<in> set (row_update (\<lambda>x. \<not> is_done x) f xs). 0 \<le> sr_attempts x \<and> sr_attempts x \<le> max_step_attempts"
    using assms(1,4) by (auto simp: step_rows_ok_def row_update_def)
qed

lemma row_move_ok: "row_move i e xs xs' \<Longrightarrow> step_rows_ok n xs \<Longrightarrow> step_rows_ok n xs'"
proof (induction rule: row_move.induct)
  case (start us x vs now)
  then show ?case by (auto simp: step_rows_ok_def sorted_wrt_append max_step_attempts_def dest: done_reached)
next
  case (store x us now out usage vs)
  then have "reached x" "\<not> is_done x" by (simp_all add: reached_def is_done_def)
  with store show ?case by (auto simp: step_rows_ok_def sorted_wrt_append)
next
  case (halt x y us vs)
  then show ?case by (auto simp: step_rows_ok_def sorted_wrt_append step_key_def)
next
  case (cancels xs)
  then show ?case by (intro step_rows_ok_update) (auto simp: is_done_def reached_def)
next
  case (again xs)
  then show ?case by (intro step_rows_ok_update) (auto simp: is_done_def reached_def max_step_attempts_def)
qed

lemma row_move_keeps: "row_move i e xs xs' \<Longrightarrow> x \<in> set xs \<Longrightarrow> is_done x \<Longrightarrow> x \<in> set xs'"
  by (induction rule: row_move.induct) (auto simp: row_update_def is_done_def)

lemma row_move_start:
  "row_move i e xs xs' \<Longrightarrow> Start j pos \<in> set e \<Longrightarrow> j = i \<and> (\<exists>x \<in> set xs. sr_position x = pos \<and> \<not> is_done x)"
  by (induction rule: row_move.induct) auto

lemma row_move_all_done: "row_move i e xs xs' \<Longrightarrow> \<forall>x \<in> set xs. is_done x \<Longrightarrow> \<forall>x \<in> set xs'. is_done x"
  by (induction rule: row_move.induct) (auto simp: row_update_def)

text \<open>What no transaction changes in a run, and what else a transaction does to the table of runs.\<close>

definition run_core :: "workflow_run \<Rightarrow> string \<times> (int \<times> string) \<times> string \<times> string \<times> json \<times> frozen_workflow \<times> workflow_config" where
  "run_core r = (wr_id r, request_key r, wr_request_hash r, wr_input_text r, wr_source_snapshot r, wr_workflow_snapshot r, wr_config_snapshot r)"

definition follows :: "string \<Rightarrow> step_run list \<Rightarrow> workflow_run \<Rightarrow> workflow_run \<Rightarrow> bool" where
  "follows i xs r r' \<longleftrightarrow> run_core r' = run_core r \<and>
     (wr_status r' = ''succeeded'' \<longrightarrow> wr_status r = ''succeeded'' \<or> (wr_id r = i \<and> (\<forall>x \<in> set xs. is_done x)))"

definition moved :: "wf_event list \<Rightarrow> string \<Rightarrow> agent_db \<Rightarrow> agent_db \<Rightarrow> bool" where
  "moved e i s s' \<longleftrightarrow> list_all2 (follows i (rows_of i s')) (ag_runs s) (ag_runs s') \<and>
     (\<forall>j. j \<noteq> i \<longrightarrow> rows_of j s' = rows_of j s) \<and> row_move i e (rows_of i s) (rows_of i s')"

definition created :: "agent_db \<Rightarrow> agent_db \<Rightarrow> bool" where
  "created s s' \<longleftrightarrow> (\<exists>r. ag_runs s' = ag_runs s @ [r] \<and> wr_status r = ''queued'' \<and> snapshot_ok (wr_workflow_snapshot r) \<and>
     wr_id r \<notin> wr_id ` set (ag_runs s) \<and> request_key r \<notin> request_key ` set (ag_runs s) \<and>
     ag_step_runs s' = ag_step_runs s @ map (new_step (wr_id r)) (fw_steps (wr_workflow_snapshot r)))"

definition held :: "string \<Rightarrow> string \<Rightarrow> agent_db \<Rightarrow> bool" where
  "held t j s \<longleftrightarrow> (\<exists>r \<in> set (ag_runs s). wr_id r = j \<and> wr_status r = ''running'' \<and> wr_claim_token r = Some t)"

definition fenced :: "string option \<Rightarrow> agent_db \<Rightarrow> agent_db \<Rightarrow> bool" where
  "fenced a s s' \<longleftrightarrow> (\<forall>t j. a \<noteq> Some t \<longrightarrow> held t j s' \<longrightarrow> held t j s \<and> rows_of j s' = rows_of j s)"

lemma follows_refl [simp]: "follows i xs r r"
  by (simp add: follows_def)

lemma follows_put:
  assumes ids: "distinct (map wr_id (ag_runs s))" and r: "run_get i s = Some r" and f: "follows i xs r r'"
  shows "list_all2 (follows i xs) (ag_runs s) (row_put wr_id r' (ag_runs s))"
proof -
  have "x = r" if "x \<in> set (ag_runs s)" "wr_id x = wr_id r'" for x
  proof -
    have "wr_id x = i" using that(2) f r by (auto simp: follows_def run_core_def run_get_def dest!: row_get_Some)
    with row_get_unique [OF ids that(1)] r show ?thesis by (simp add: run_get_def)
  qed
  then have same: "\<And>x. x \<in> set (ag_runs s) \<Longrightarrow> wr_id x = wr_id r' \<Longrightarrow> follows i xs x r'" using f by simp
  show ?thesis using same [OF nth_mem] by (auto simp: row_put_def row_update_def list_all2_conv_all_nth)
qed

lemma moved_quiet:
  assumes "ag_step_runs s' = ag_step_runs s" and "ag_runs s' = map f (ag_runs s)"
    and "\<And>r. r \<in> set (ag_runs s) \<Longrightarrow> run_core (f r) = run_core r \<and> (wr_status (f r) = ''succeeded'' \<longrightarrow> wr_status r = ''succeeded'')"
  shows "moved [] i s s'"
  using assms by (auto simp: moved_def rows_of_def follows_def list_all2_conv_all_nth intro: row_move.intros)

lemma moved_ok:
  assumes ok: "workflows_ok s" and m: "moved e i s s'"
  shows "workflows_ok s'"
proof -
  have l: "list_all2 (follows i (rows_of i s')) (ag_runs s) (ag_runs s')"
    and o': "\<And>j. j \<noteq> i \<Longrightarrow> rows_of j s' = rows_of j s" and rm: "row_move i e (rows_of i s) (rows_of i s')"
    using m by (auto simp: moved_def)
  have cores: "map run_core (ag_runs s') = map run_core (ag_runs s)"
    using l by (auto simp: list_all2_conv_all_nth follows_def intro: nth_equalityI)
  have "map wr_id (ag_runs s') = map fst (map run_core (ag_runs s'))" by (simp add: run_core_def)
  then have ids: "map wr_id (ag_runs s') = map wr_id (ag_runs s)" unfolding cores by (simp add: run_core_def)
  have "map request_key (ag_runs s') = map (fst \<circ> snd) (map run_core (ag_runs s'))" by (simp add: run_core_def)
  then have keys: "map request_key (ag_runs s') = map request_key (ag_runs s)" unfolding cores by (simp add: run_core_def)
  have none: "rows_of j s' = []" if j: "j \<notin> wr_id ` set (ag_runs s')" for j
  proof -
    have "wr_id ` set (ag_runs s') = wr_id ` set (ag_runs s)" using ids by (metis list.set_map)
    with j ok have "rows_of j s = []" by (simp add: workflows_ok_def)
    with rm o' show ?thesis by (cases "j = i") (auto elim: row_move.cases simp: row_update_def)
  qed
  have rows: "run_rows_ok r' (rows_of (wr_id r') s')" if r': "r' \<in> set (ag_runs s')" for r'
  proof -
    obtain r where r: "r \<in> set (ag_runs s)" and f: "follows i (rows_of i s') r r'"
      using l r' by (metis in_set_conv_nth list_all2_conv_all_nth)
    have id: "wr_id r' = wr_id r" and snap: "wr_workflow_snapshot r' = wr_workflow_snapshot r"
      using f by (auto simp: follows_def run_core_def)
    have old: "run_rows_ok r (rows_of (wr_id r) s)" using ok r by (auto simp: workflows_ok_def)
    show ?thesis
    proof (cases "wr_id r = i")
      case True
      with old rm have "step_rows_ok (length (fw_steps (wr_workflow_snapshot r))) (rows_of i s')"
        by (auto simp: run_rows_ok_def dest: row_move_ok)
      with True old f id snap row_move_all_done [OF rm] show ?thesis by (auto simp: run_rows_ok_def follows_def)
    next
      case False
      with old f id snap o' show ?thesis by (auto simp: run_rows_ok_def follows_def)
    qed
  qed
  from ok ids keys none rows show ?thesis by (simp add: workflows_ok_def)
qed

lemma created_ok:
  assumes ok: "workflows_ok s" and c: "created s s'"
  shows "workflows_ok s'"
proof -
  obtain r where r: "ag_runs s' = ag_runs s @ [r]" "wr_status r = ''queued''" "snapshot_ok (wr_workflow_snapshot r)"
      "wr_id r \<notin> wr_id ` set (ag_runs s)" "request_key r \<notin> request_key ` set (ag_runs s)"
    and st: "ag_step_runs s' = ag_step_runs s @ map (new_step (wr_id r)) (fw_steps (wr_workflow_snapshot r))"
    using c by (auto simp: created_def)
  have rows: "rows_of j s' = rows_of j s @ (if j = wr_id r then map (new_step j) (fw_steps (wr_workflow_snapshot r)) else [])" for j
    by (auto simp: rows_of_def st new_step_def filter_empty_conv intro: filter_True)
  have "rows_of (wr_id r) s = []" using ok r(4) by (simp add: workflows_ok_def)
  then have "run_rows_ok r (rows_of (wr_id r) s')"
    using r(2,3) unfolding rows
    by (auto simp: run_rows_ok_def step_rows_ok_def snapshot_ok_def new_step_def reached_def max_step_attempts_def comp_def sorted_wrt_map
        simp del: upt_Suc intro: sorted_wrt_mono_rel [of _ "\<lambda>_ _. True"])
  moreover have "run_rows_ok x (rows_of (wr_id x) s')" if x: "x \<in> set (ag_runs s)" for x
  proof -
    have "wr_id x \<in> wr_id ` set (ag_runs s)" using x by simp
    then have "wr_id x \<noteq> wr_id r" using r(4) by metis
    with rows ok x show ?thesis by (simp add: workflows_ok_def)
  qed
  ultimately have "\<forall>x \<in> set (ag_runs s'). run_rows_ok x (rows_of (wr_id x) s')" using r(1) by auto
  moreover have "rows_of j s' = []" if "j \<notin> wr_id ` set (ag_runs s')" for j
    using that rows ok r(1) by (auto simp: workflows_ok_def)
  ultimately show ?thesis using ok r by (simp add: workflows_ok_def)
qed

subsection \<open>Each transaction\<close>

lemma held_put:
  "held t j (put_run r s) \<Longrightarrow> (j = wr_id r \<and> wr_status r = ''running'' \<and> wr_claim_token r = Some t) \<or> (j \<noteq> wr_id r \<and> held t j s)"
  by (auto simp: held_def put_run_def dest!: set_row_put_other)

lemma held_put_step [simp]: "held t j (put_step x s) = held t j s"
  by (simp add: held_def put_step_def)

lemma put_simps [simp]: "ag_runs (put_step x s) = ag_runs s" "ag_step_runs (put_run r s) = ag_step_runs s"
  "rows_of j (put_run r s) = rows_of j s" "run_get j (put_step x s) = run_get j s"
  by (simp_all add: put_step_def put_run_def rows_of_def run_get_def)

lemma fenced_quiet: "ag_step_runs s' = ag_step_runs s \<Longrightarrow> (\<And>t j. a \<noteq> Some t \<Longrightarrow> held t j s' \<Longrightarrow> held t j s) \<Longrightarrow> fenced a s s'"
  by (simp add: fenced_def rows_of_def)

lemma update_moved:
  assumes "\<And>r. p r \<Longrightarrow> run_core (f r) = run_core r \<and> (wr_status (f r) = ''succeeded'' \<longrightarrow> wr_status r = ''succeeded'')"
  shows "moved [] i s (s\<lparr>ag_runs := row_update p f (ag_runs s)\<rparr>)"
  by (rule moved_quiet [where f = "\<lambda>r. if p r then f r else r"]) (use assms in \<open>auto simp: row_update_def\<close>)

lemma update_fenced:
  assumes core: "\<And>r. p r \<Longrightarrow> wr_id (f r) = wr_id r"
    and keep: "\<And>r t. p r \<Longrightarrow> a \<noteq> Some t \<Longrightarrow> wr_status (f r) = ''running'' \<Longrightarrow> wr_claim_token (f r) = Some t \<Longrightarrow>
      wr_status r = ''running'' \<and> wr_claim_token r = Some t"
  shows "fenced a s (s\<lparr>ag_runs := row_update p f (ag_runs s)\<rparr>)"
proof (rule fenced_quiet)
  fix t j assume a: "a \<noteq> Some t" and h: "held t j (s\<lparr>ag_runs := row_update p f (ag_runs s)\<rparr>)"
  then obtain r where r: "r \<in> set (ag_runs s)" "wr_id (if p r then f r else r) = j" "wr_status (if p r then f r else r) = ''running''"
      "wr_claim_token (if p r then f r else r) = Some t"
    by (auto simp: held_def row_update_def)
  show "held t j s"
  proof (cases "p r")
    case True
    with r core keep [OF True a] show ?thesis by (auto simp: held_def)
  next
    case False
    with r show ?thesis by (auto simp: held_def)
  qed
qed simp

lemma core_simps [simp]:
  "run_core (r\<lparr>wr_status := st\<rparr>) = run_core r" "run_core (r\<lparr>wr_claim_token := c\<rparr>) = run_core r"
  "run_core (r\<lparr>wr_lease_expires_at := l\<rparr>) = run_core r" "run_core (r\<lparr>wr_next_attempt_at := n\<rparr>) = run_core r"
  "run_core (r\<lparr>wr_error := err\<rparr>) = run_core r" "run_core (r\<lparr>wr_updated_at := n\<rparr>) = run_core r"
  "run_core (r\<lparr>wr_completed_at := l\<rparr>) = run_core r" "run_core (r\<lparr>wr_article_id := art\<rparr>) = run_core r"
  "run_core (r\<lparr>wr_current_position := pos\<rparr>) = run_core r" "run_core (closed_run n st r) = run_core r"
  by (simp_all add: run_core_def request_key_def closed_run_def)

lemma claim_moves: "moved [] j s (fst (claim_run now t i s))" "fenced (Some t) s (fst (claim_run now t i s))"
  unfolding claim_run_def Let_def fst_conv by (rule update_moved update_fenced; simp)+

lemma renew_moves: "moved [] j s (fst (renew_run now t i s))" "fenced (Some t) s (fst (renew_run now t i s))"
  unfolding renew_run_def Let_def fst_conv by (rule update_moved update_fenced; simp)+

lemma expire_moves: "moved [] j s (expire_leases now s)" "fenced None s (expire_leases now s)"
  unfolding expire_leases_def by (rule update_moved update_fenced; simp)+

lemma elsewhere_moves: "moved [] j s (with_db d s)" "fenced None s (with_db d s)"
proof -
  have "ag_runs (with_db d s) = map (\<lambda>r. r\<lparr>wr_article_id := kept_article d (wr_article_id r)\<rparr>) (ag_runs s)"
    "ag_step_runs (with_db d s) = ag_step_runs s" by (simp_all add: with_db_def)
  note e = this
  show "moved [] j s (with_db d s)" by (rule moved_quiet [OF e(2,1)]) simp
  have "held t i s" if "held t i (with_db d s)" for t i
    using that unfolding held_def e(1) by (simp add: bex_simps(7) del: bex_simps(1))
  then show "fenced None s (with_db d s)" by (intro fenced_quiet [OF e(2)])
qed

text \<open>A transaction that writes one run and its rows.\<close>

lemma put_moves:
  assumes ok: "workflows_ok s" and r: "run_get i s = Some r" and f: "follows i (rows_of i s1) r r'"
    and s1: "ag_runs s1 = ag_runs s" "\<And>j. j \<noteq> i \<Longrightarrow> rows_of j s1 = rows_of j s" and rm: "row_move i e (rows_of i s) (rows_of i s1)"
  shows "moved e i s (put_run r' s1)"
proof -
  have "list_all2 (follows i (rows_of i s1)) (ag_runs s) (row_put wr_id r' (ag_runs s))"
    by (rule follows_put) (use ok r f in \<open>auto simp: workflows_ok_def\<close>)
  then show ?thesis using s1 rm by (auto simp: moved_def put_run_def rows_of_def)
qed

lemma put_fenced:
  assumes "ag_runs s1 = ag_runs s" and "\<And>j. j \<noteq> i \<Longrightarrow> rows_of j s1 = rows_of j s" and "wr_id r' = i"
    and "wr_status r' \<noteq> ''running'' \<or> (\<exists>t. a = Some t \<and> wr_claim_token r' = Some t)"
  shows "fenced a s (put_run r' s1)"
  unfolding fenced_def
proof (intro allI impI)
  fix t j assume a: "a \<noteq> Some t" and h: "held t j (put_run r' s1)"
  from held_put [OF h] assms a have "j \<noteq> i" "held t j s1" by auto
  with assms show "held t j s \<and> rows_of j (put_run r' s1) = rows_of j s" by (simp add: held_def)
qed

lemma unfinished_rows: "rows_of j (unfinished_steps i f s) = (if j = i then row_update (\<lambda>x. \<not> is_done x) f (rows_of i s) else rows_of j s)"
  if "\<And>x. sr_run_id (f x) = sr_run_id x"
proof -
  have "filter (\<lambda>x. sr_run_id x = j) (row_update (\<lambda>x. sr_run_id x = i \<and> sr_status x \<noteq> ''succeeded'') f xs) =
      (if j = i then row_update (\<lambda>x. \<not> is_done x) f (filter (\<lambda>x. sr_run_id x = i) xs) else filter (\<lambda>x. sr_run_id x = j) xs)" for xs
    using that by (induction xs) (auto simp: row_update_def is_done_def)
  then show ?thesis by (simp add: rows_of_def unfinished_steps_def)
qed

lemma unfinished_put: "unfinished_steps i f (put_run r s) = put_run r (unfinished_steps i f s)"
  by (simp add: unfinished_steps_def put_run_def)

lemma unfinished_runs [simp]: "ag_runs (unfinished_steps i f s) = ag_runs s"
  by (simp add: unfinished_steps_def)

lemma owned_run_get: "owned_run i admin s = Inr r \<Longrightarrow> run_get i s = Some r"
  by (auto simp: owned_run_def split: option.splits if_splits)

lemma run_get_id: "run_get i s = Some r \<Longrightarrow> wr_id r = i \<and> r \<in> set (ag_runs s)"
  by (auto simp: run_get_def dest: row_get_Some)

lemma cancel_moves:
  assumes ok: "workflows_ok s" and c: "cancel_run now i admin s = Inr s'"
  shows "moved [] i s s' \<and> fenced None s s'"
proof -
  obtain r where r: "run_get i s = Some r" and c': "s' = s \<or>
      s' = put_run (r\<lparr>wr_status := ''cancelled'', wr_claim_token := None, wr_lease_expires_at := None, wr_completed_at := Some now, wr_updated_at := now\<rparr>)
        (unfinished_steps i (\<lambda>x. x\<lparr>sr_status := ''cancelled''\<rparr>) s)"
    using c by (auto simp: cancel_run_def unfinished_put dest!: owned_run_get split: sum.splits if_splits)
  have id: "wr_id r = i" using run_get_id [OF r] by simp
  from c' show ?thesis
  proof
    assume "s' = s"
    then show ?thesis by (auto intro!: moved_quiet [where f = "\<lambda>r. r"] fenced_quiet)
  next
    assume e: "s' = put_run (r\<lparr>wr_status := ''cancelled'', wr_claim_token := None, wr_lease_expires_at := None, wr_completed_at := Some now, wr_updated_at := now\<rparr>)
        (unfinished_steps i (\<lambda>x. x\<lparr>sr_status := ''cancelled''\<rparr>) s)"
    show ?thesis unfolding e
      by (intro conjI put_moves [OF ok r] put_fenced [where i = i])
        (use id in \<open>auto simp: follows_def unfinished_rows intro: row_move.cancels\<close>)
  qed
qed

lemma retry_moves:
  assumes ok: "workflows_ok s" and c: "retry_run now i admin s = Inr s'"
  shows "moved [Retry i] i s s' \<and> fenced None s s'"
proof -
  obtain r where r: "run_get i s = Some r" and e: "s' =
      put_run (r\<lparr>wr_status := ''queued'', wr_error := None, wr_completed_at := None, wr_next_attempt_at := now, wr_updated_at := now\<rparr>)
        (unfinished_steps i (\<lambda>x. x\<lparr>sr_status := ''pending'', sr_attempts := 0, sr_error := None\<rparr>) s)"
    using c by (auto simp: retry_run_def unfinished_put dest!: owned_run_get split: sum.splits if_splits)
  have id: "wr_id r = i" using run_get_id [OF r] by simp
  show ?thesis unfolding e
    by (intro conjI put_moves [OF ok r] put_fenced [where i = i])
      (use id in \<open>auto simp: follows_def unfinished_rows intro: row_move.again\<close>)
qed

lemma current_run_get: "current_run now i t s = Some r \<Longrightarrow> run_get i s = Some r \<and> holds_run now t r"
  by (auto simp: current_run_def split: option.splits if_splits)

lemma holds_runD: "holds_run now t r \<Longrightarrow> wr_status r = ''running'' \<and> wr_claim_token r = Some t"
  by (simp add: holds_run_def)

lemma closed_simps [simp]: "wr_status (closed_run now st r) = st" "wr_claim_token (closed_run now st r) = None" "wr_id (closed_run now st r) = wr_id r"
  by (simp_all add: closed_run_def)

lemma run_rows:
  assumes "workflows_ok s" and "run_get i s = Some r"
  shows "step_rows_ok (length (fw_steps (wr_workflow_snapshot r))) (rows_of i s)" and "step_rows i s = rows_of i s"
    and "distinct (map sr_position (rows_of i s))" and "snapshot_ok (wr_workflow_snapshot r)"
proof -
  have ok: "run_rows_ok r (rows_of i s)" using workflows_okD [OF assms] by simp
  then show "step_rows_ok (length (fw_steps (wr_workflow_snapshot r))) (rows_of i s)" and "snapshot_ok (wr_workflow_snapshot r)"
    by (simp_all add: run_rows_ok_def)
  then show "step_rows i s = rows_of i s" and "distinct (map sr_position (rows_of i s))"
    by (auto intro: step_rows_of step_rows_ok_distinct)
qed

text \<open>The start of a step, with what it reads.\<close>

lemma begin_cases:
  assumes ok: "workflows_ok s" and b: "begin_step now i t s = (s', st)"
  obtains (lost) "s' = s" "st = LeaseLost" "current_run now i t s = None"
  | (complete) r where "current_run now i t s = Some r" "\<forall>x \<in> set (rows_of i s). is_done x"
      "s' = put_run (closed_run now ''succeeded'' r) s" "st = Completed"
  | (gave_up) r us x vs where "current_run now i t s = Some r" "rows_of i s = us @ x # vs" "\<forall>u \<in> set us. is_done u" "\<not> is_done x"
      "max_step_attempts \<le> sr_attempts x" "st = GaveUp"
      "s' = put_run ((closed_run now ''failed'' r)\<lparr>wr_error := Some attempts_used\<rparr>)
        (put_step (x\<lparr>sr_status := ''failed'', sr_error := Some attempts_used\<rparr>) s)"
  | (calling) r us x vs where "current_run now i t s = Some r" "rows_of i s = us @ x # vs" "\<forall>u \<in> set us. is_done u" "\<not> is_done x"
      "sr_attempts x < max_step_attempts" "sr_position x = Suc (length us)"
      "s' = put_run (r\<lparr>wr_current_position := sr_position x, wr_updated_at := now\<rparr>) (put_step (started_step now x) s)"
      "st = Calling (r\<lparr>wr_current_position := sr_position x, wr_updated_at := now\<rparr>) (sr_position x)
        (fw_steps (wr_workflow_snapshot r) ! length us) (map output_of us)"
proof (cases "current_run now i t s")
  case None
  with b lost show thesis by (simp add: begin_step_def)
next
  case (Some r)
  have g: "run_get i s = Some r" using current_run_get [OF Some] by simp
  note rr = run_rows [OF ok g]
  show thesis
  proof (cases "find (\<lambda>x. sr_status x \<noteq> ''succeeded'') (rows_of i s)")
    case None
    then have "\<forall>x \<in> set (rows_of i s). is_done x" by (auto simp: find_None_iff is_done_def)
    with b Some None rr complete show thesis by (simp add: begin_step_def)
  next
    case (Some x)
    note fx = this
    then obtain k where k: "k < length (rows_of i s)" "x = rows_of i s ! k" "sr_status x \<noteq> ''succeeded''"
        "\<And>j. j < k \<Longrightarrow> sr_status (rows_of i s ! j) = ''succeeded''"
      by (auto simp: find_Some_iff)
    define us vs where "us = take k (rows_of i s)" and "vs = drop (Suc k) (rows_of i s)"
    have e: "rows_of i s = us @ x # vs" using id_take_nth_drop [OF k(1)] k(2) by (simp add: us_def vs_def)
    have len: "length us = k" using k(1) by (simp add: us_def)
    have us: "\<forall>u \<in> set us. is_done u" using k(4) len e by (auto simp: in_set_conv_nth is_done_def nth_append)
    have nd: "\<not> is_done x" using k(3) by (simp add: is_done_def)
    have pos: "map sr_position (rows_of i s) = [1..<Suc (length (fw_steps (wr_workflow_snapshot r)))]"
      using rr(1) by (simp add: step_rows_ok_def)
    have lr: "length (rows_of i s) = length (fw_steps (wr_workflow_snapshot r))" using arg_cong [OF pos, of length] by (simp del: upt_Suc)
    have px: "sr_position x = Suc k" using arg_cong [OF pos, of "\<lambda>l. l ! k"] k(1,2) lr by (simp del: upt_Suc)
    have at: "frozen_at r (sr_position x) = Some (fw_steps (wr_workflow_snapshot r) ! length us)"
      using k(1) lr px len by (simp add: frozen_at_def Let_def)
    have pu: "sr_position u < sr_position x" if "u \<in> set us" for u
    proof -
      have "sr_position u \<in> sr_position ` set us" using that by simp
      then have "sr_position u \<in> set (map sr_position us)" by simp
      moreover have "map sr_position us = take k (map sr_position (rows_of i s))" by (simp add: us_def take_map)
      ultimately have "sr_position u \<in> set (take k [1..<Suc (length (fw_steps (wr_workflow_snapshot r)))])" by (simp only: pos)
      moreover have "take k [1..<Suc (length (fw_steps (wr_workflow_snapshot r)))] = [1..<1 + k]"
        using k(1) lr by (intro take_upt) simp
      ultimately have "sr_position u \<in> set [1..<1 + k]" by (simp only:)
      then show ?thesis using px by (simp del: upt_Suc)
    qed
    have pv: "\<not> sr_position v < sr_position x" if "v \<in> set vs" for v
    proof -
      have "sr_position v \<in> set (map sr_position vs)" using that by simp
      moreover have "map sr_position vs = drop (Suc k) (map sr_position (rows_of i s))" by (simp add: vs_def drop_map)
      ultimately have "sr_position v \<in> set (drop (Suc k) [1..<Suc (length (fw_steps (wr_workflow_snapshot r)))])" by (simp only: pos)
      then show ?thesis using px by (simp add: drop_upt del: upt_Suc)
    qed
    have "filter (\<lambda>y. sr_position y < sr_position x) us = us" "filter (\<lambda>y. sr_position y < sr_position x) vs = []"
      using pu pv by (auto simp: filter_empty_conv intro: filter_True)
    then have hist: "filter (\<lambda>y. sr_position y < sr_position x) (rows_of i s) = us" by (simp add: e)
    show thesis
    proof (cases "max_step_attempts \<le> sr_attempts x")
      case True
      with b \<open>current_run now i t s = Some r\<close> fx rr(2) gave_up [OF \<open>current_run now i t s = Some r\<close> e us nd True]
      show thesis by (simp add: begin_step_def)
    next
      case False
      with b \<open>current_run now i t s = Some r\<close> fx rr(2) at hist px len
        calling [OF \<open>current_run now i t s = Some r\<close> e us nd]
      show thesis by (simp add: begin_step_def Let_def not_le)
    qed
  qed
qed

lemma follows_put_running:
  "run_get i s = Some r \<Longrightarrow> run_core r' = run_core r \<Longrightarrow> wr_status r' \<noteq> ''succeeded'' \<Longrightarrow> follows i xs r r'"
  by (simp add: follows_def)

lemma rows_put_at:
  assumes ok: "workflows_ok s" and r: "run_get i s = Some r" and e: "rows_of i s = us @ x # vs" and y: "step_key y = step_key x"
  shows "rows_of i (put_step y s) = us @ y # vs" and "j \<noteq> i \<Longrightarrow> rows_of j (put_step y s) = rows_of j s"
proof -
  show "rows_of i (put_step y s) = us @ y # vs"
    using run_rows(3) [OF ok r] by (rule put_split [OF e _ y])
  have "x \<in> set (rows_of i s)" using e by simp
  then have "sr_run_id y = i" using y by (simp add: rows_of_def step_key_def)
  then show "j \<noteq> i \<Longrightarrow> rows_of j (put_step y s) = rows_of j s" by (intro rows_of_put_other) simp
qed

lemma begin_moves:
  assumes ok: "workflows_ok s" and b: "begin_step now i t s = (s', st)"
  shows "moved (started i st) i s s' \<and> fenced (Some t) s s'"
  using ok b
proof (cases rule: begin_cases)
  case lost
  then show ?thesis by (auto intro!: moved_quiet [where f = "\<lambda>r. r"] fenced_quiet)
next
  case (complete r)
  note g = current_run_get [OF complete(1)]
  show ?thesis unfolding complete(3,4)
    by (intro conjI put_moves [OF ok] put_fenced [where i = i])
      (use g run_get_id complete(2) in \<open>auto simp: follows_def intro: row_move.intros\<close>)
next
  case (gave_up r us x vs)
  note g = current_run_get [OF gave_up(1)]
  define y where "y = x\<lparr>sr_status := ''failed'', sr_error := Some attempts_used\<rparr>"
  have y: "step_key y = step_key x" "\<not> reached y" "sr_attempts y = sr_attempts x"
    by (simp_all add: y_def step_key_def reached_def)
  note rw = rows_put_at [OF ok conjunct1 [OF g] gave_up(2) y(1)]
  have rm: "row_move i [] (rows_of i s) (rows_of i (put_step y s))"
    unfolding gave_up(2) rw(1) using gave_up(4) y by (intro row_move.halt)
  show ?thesis unfolding gave_up(6,7) y_def [symmetric] started.simps
    by (intro conjI put_moves [OF ok conjunct1 [OF g]] put_fenced [where i = i])
      (use rm rw(2) run_get_id [OF conjunct1 [OF g]] in \<open>auto simp: follows_def\<close>)
next
  case (calling r us x vs)
  note g = current_run_get [OF calling(1)]
  note rw = rows_put_at [OF ok conjunct1 [OF g] calling(2) started_fields(1)]
  have rm: "row_move i [Start i (sr_position x)] (rows_of i s) (rows_of i (put_step (started_step now x) s))"
    unfolding calling(2) rw(1) using calling by (intro row_move.start)
  show ?thesis unfolding calling(7,8) started.simps
    by (intro conjI put_moves [OF ok conjunct1 [OF g]] put_fenced [where i = i])
      (use rm rw(2) run_get_id [OF conjunct1 [OF g]] holds_runD [OF conjunct2 [OF g]] in \<open>auto simp: follows_def\<close>)
qed

lemma finish_moves:
  assumes ok: "workflows_ok s" and x: "step_get i pos s = Some x" "sr_status x = ''running''"
  shows "moved [] i s (fst (finish_step now i t pos out usage s)) \<and> fenced (Some t) s (fst (finish_step now i t pos out usage s))"
proof (cases "current_run now i t s")
  case None
  then show ?thesis by (auto simp: finish_step_def intro!: moved_quiet [where f = "\<lambda>r. r"] fenced_quiet)
next
  case (Some r)
  note g = current_run_get [OF Some]
  obtain us vs where e: "rows_of i s = us @ x # vs" using split_list step_get_row [OF x(1)] by fast
  note rw = rows_put_at [OF ok conjunct1 [OF g] e finished_fields(1)]
  have f: "fst (finish_step now i t pos out usage s) = put_step (finished_step now out usage x) s"
    using Some x by (simp add: finish_step_def)
  have rm: "row_move i [] (rows_of i s) (rows_of i (put_step (finished_step now out usage x) s))"
    unfolding e rw(1) using x(2) by (rule row_move.store)
  have mine: "j \<noteq> i" if "held t' j s" "t' \<noteq> t" for t' j
  proof
    assume j: "j = i"
    from that(1) obtain r1 where r1: "r1 \<in> set (ag_runs s)" "wr_id r1 = i" "wr_claim_token r1 = Some t'" by (auto simp: held_def j)
    have "run_get i s = Some r1" using ok r1 row_get_unique [of wr_id "ag_runs s" r1] by (simp add: workflows_ok_def run_get_def)
    with g holds_runD r1(3) that(2) show False by fastforce
  qed
  have "fenced (Some t) s (put_step (finished_step now out usage x) s)"
    unfolding fenced_def using mine rw(2) by (metis held_put_step)
  with rm rw(2) show ?thesis unfolding f by (auto simp: moved_def list_all2_same)
qed

lemma fail_moves:
  assumes ok: "workflows_ok s"
  shows "moved [] i s (fail_run now i t err retryable shutdown s) \<and> fenced (Some t) s (fail_run now i t err retryable shutdown s)"
proof (cases "current_run now i t s")
  case None
  then show ?thesis by (auto simp: fail_run_def intro!: moved_quiet [where f = "\<lambda>r. r"] fenced_quiet)
next
  case (Some r)
  note g = current_run_get [OF Some]
  define o' where "o' = step_get i (wr_current_position r) s"
  define again where "again = (retryable \<and> (case o' of None \<Rightarrow> True | Some y \<Rightarrow> sr_attempts y < max_step_attempts))"
  define r' where "r' = r\<lparr>wr_status := (if again then ''retry_wait'' else ''failed''), wr_error := Some err, wr_claim_token := None,
    wr_lease_expires_at := None, wr_updated_at := now, wr_next_attempt_at := now + retry_wait shutdown,
    wr_completed_at := (if again then None else Some now)\<rparr>"
  define s1 where "s1 = (case o' of None \<Rightarrow> s | Some y \<Rightarrow> (if sr_status y = ''succeeded'' then s else
     put_step (y\<lparr>sr_status := (if again then ''pending'' else ''failed''), sr_error := Some err, sr_completed_at := (if again then None else Some now)\<rparr>) s))"
  have f: "fail_run now i t err retryable shutdown s = put_run r' s1"
    using Some by (simp add: fail_run_def Let_def r'_def s1_def again_def o'_def)
  have r': "run_core r' = run_core r" "wr_status r' \<noteq> ''succeeded''" "wr_status r' \<noteq> ''running''" by (simp_all add: r'_def)
  have rows: "row_move i [] (rows_of i s) (rows_of i s1) \<and> (\<forall>j. j \<noteq> i \<longrightarrow> rows_of j s1 = rows_of j s) \<and> ag_runs s1 = ag_runs s"
  proof (cases "\<exists>y. o' = Some y \<and> sr_status y \<noteq> ''succeeded''")
    case False
    then have "s1 = s" by (auto simp: s1_def split: option.splits)
    then show ?thesis by (simp add: row_move.same)
  next
    case True
    then obtain x where x: "o' = Some x" "sr_status x \<noteq> ''succeeded''" by blast
    define y where "y = x\<lparr>sr_status := (if again then ''pending'' else ''failed''), sr_error := Some err, sr_completed_at := (if again then None else Some now)\<rparr>"
    have y: "step_key y = step_key x" "\<not> reached y" "sr_attempts y = sr_attempts x" by (simp_all add: y_def step_key_def reached_def)
    obtain us vs where e: "rows_of i s = us @ x # vs" using split_list step_get_row x(1) unfolding o'_def by fast
    note rw = rows_put_at [OF ok conjunct1 [OF g] e y(1)]
    have s1: "s1 = put_step y s" using x by (simp add: s1_def y_def)
    show ?thesis unfolding s1 e rw(1) using rw(2) x(2) y by (auto simp: is_done_def intro: row_move.halt)
  qed
  show ?thesis unfolding f
    by (intro conjI put_moves [OF ok conjunct1 [OF g]] put_fenced [where i = i])
      (use rows r' run_get_id [OF conjunct1 [OF g]] in \<open>auto simp: follows_def run_core_def\<close>)
qed

lemma save_moves:
  assumes ok: "workflows_ok s" and c: "save_run_article now i admin s = Inr (s', a)"
  shows "moved [] i s s' \<and> fenced None s s'"
proof -
  obtain r where r: "run_get i s = Some r" and o': "owned_run i admin s = Inr r"
    using c by (cases "owned_run i admin s") (auto simp: save_run_article_def dest: owned_run_get)
  consider "s' = s" | d a' where "s' = put_run (r\<lparr>wr_article_id := Some a'\<rparr>) (s\<lparr>ag_db := d\<rparr>)" "wr_status r = ''succeeded''"
    using c o' by (auto simp: save_run_article_def Let_def split: option.splits if_splits)
  then show ?thesis
  proof cases
    case 1
    then show ?thesis by (auto intro!: moved_quiet [where f = "\<lambda>r. r"] fenced_quiet)
  next
    case 2
    show ?thesis unfolding 2(1)
      by (intro conjI put_moves [OF ok r] put_fenced [where i = i])
        (use 2(2) run_get_id [OF r] in \<open>auto simp: follows_def rows_of_def intro: row_move.same\<close>)
  qed
qed

lemma catalogue_runs:
  "create_agent_node resolve now p s = Inr s' \<Longrightarrow> ag_runs s' = ag_runs s \<and> ag_step_runs s' = ag_step_runs s"
  "update_agent_node resolve k p version s = Inr s' \<Longrightarrow> ag_runs s' = ag_runs s \<and> ag_step_runs s' = ag_step_runs s"
  "disable_agent_node k s = Inr s' \<Longrightarrow> ag_runs s' = ag_runs s \<and> ag_step_runs s' = ag_step_runs s"
  "create_agent_workflow now w s = Inr s' \<Longrightarrow> ag_runs s' = ag_runs s \<and> ag_step_runs s' = ag_step_runs s"
  "update_agent_workflow k w version s = Inr s' \<Longrightarrow> ag_runs s' = ag_runs s \<and> ag_step_runs s' = ag_step_runs s"
  "disable_agent_workflow k s = Inr s' \<Longrightarrow> ag_runs s' = ag_runs s \<and> ag_step_runs s' = ag_step_runs s"
  by (auto simp: create_agent_node_def update_agent_node_def disable_agent_node_def create_agent_workflow_def
      update_agent_workflow_def disable_agent_workflow_def take_serial_def put_node_def put_workflow_def Let_def
      split: if_splits option.splits sum.splits)

lemma catalogue_moves:
  assumes "ag_runs s' = ag_runs s \<and> ag_step_runs s' = ag_step_runs s"
  shows "moved [] i s s' \<and> fenced None s s'"
  using assms by (auto intro!: moved_quiet [where f = "\<lambda>r. r"] fenced_quiet simp: held_def)

lemma freeze_ok: "freeze_workflow resolve w ns = Inr snap \<Longrightarrow> snapshot_ok snap"
proof -
  assume f: "freeze_workflow resolve w ns = Inr snap"
  obtain sks where "fw_steps snap = map (frozen_step sks) (enumerate 1 ns)"
    using f by (auto simp: freeze_workflow_def Let_def simp del: map_eq_conv split: option.splits if_splits)
  moreover have "map fn_position (map (frozen_step sks) xs) = map fst xs" for xs
    by (auto simp: frozen_step_def)
  ultimately show ?thesis by (simp add: snapshot_ok_def del: upt_Suc map_map)
qed

lemma create_cases:
  assumes "create_run env between now fresh admin p s = (s', result)"
  obtains (refused) "s' = s \<or> s' = between s"
  | (stored) h source w snap cfg where "h = re_hash env p" "existing_run admin p h (between s) = Inr None" "snapshot_ok snap"
      "result = Inr (new_run now fresh admin p h source w snap cfg)"
      "s' = (between s)\<lparr>ag_runs := ag_runs (between s) @ [new_run now fresh admin p h source w snap cfg],
         ag_step_runs := ag_step_runs (between s) @ map (new_step fresh) (fw_steps snap)\<rparr>"
proof (cases "existing_run admin p (re_hash env p) s = Inr None \<and> existing_run admin p (re_hash env p) (between s) = Inr None")
  case False
  then show thesis using assms
    by (intro refused) (auto simp: create_run_def Let_def split: sum.splits option.splits prod.splits)
next
  case True
  show thesis
  proof (cases "prepare_workflow_run env p (between s)")
    case (Inl e)
    then show thesis using assms True by (intro refused) (auto simp: create_run_def Let_def)
  next
    case (Inr q)
    then obtain source w snap cfg where q: "prepare_workflow_run env p (between s) = Inr (source, w, snap, cfg)" by (cases q) auto
    have "snapshot_ok snap"
      using q by (auto simp: prepare_workflow_run_def Let_def dest!: freeze_ok split: sum.splits option.splits if_splits)
    then show thesis using assms True q
      by (intro stored [OF HOL.refl, of snap source w cfg]) (auto simp: create_run_def Let_def)
  qed
qed

lemma create_created:
  assumes "existing_run admin p h s = Inr None" and "fresh \<notin> wr_id ` set (ag_runs s)" and "snapshot_ok snap"
  shows "created s (s\<lparr>ag_runs := ag_runs s @ [new_run now fresh admin p h source w snap cfg],
     ag_step_runs := ag_step_runs s @ map (new_step fresh) (fw_steps snap)\<rparr>)"
proof -
  have none: "find (\<lambda>r. wr_admin_id r = admin \<and> wr_request_id r = ri_request_id p) (ag_runs s) = None"
    using assms(1) by (auto simp: existing_run_def split: option.splits if_splits)
  have "\<not> (wr_admin_id r = admin \<and> wr_request_id r = ri_request_id p)" if "r \<in> set (ag_runs s)" for r
    using none that unfolding find_None_iff by blast
  then have "(admin, ri_request_id p) \<notin> request_key ` set (ag_runs s)" by (fastforce simp: request_key_def)
  then show ?thesis unfolding created_def
    by (intro exI [of _ "new_run now fresh admin p h source w snap cfg"])
      (use assms(2,3) in \<open>simp add: new_run_def request_key_def\<close>)
qed

lemma held_created: "created s s' \<Longrightarrow> workflows_ok s \<Longrightarrow> held t j s' \<Longrightarrow> held t j s \<and> rows_of j s' = rows_of j s"
proof -
  assume c: "created s s'" and ok: "workflows_ok s" and h: "held t j s'"
  obtain r where r: "ag_runs s' = ag_runs s @ [r]" "wr_status r = ''queued''" "wr_id r \<notin> wr_id ` set (ag_runs s)"
      "ag_step_runs s' = ag_step_runs s @ map (new_step (wr_id r)) (fw_steps (wr_workflow_snapshot r))"
    using c by (auto simp: created_def)
  have held: "held t j s" using h r(1,2) by (auto simp: held_def)
  then have "j \<in> wr_id ` set (ag_runs s)" by (auto simp: held_def)
  then have "j \<noteq> wr_id r" using r(3) by metis
  then have "rows_of j s' = rows_of j s" by (auto simp: rows_of_def r(4) new_step_def filter_empty_conv)
  with held show ?thesis by simp
qed

lemma moved_step: "moved e i s s' \<and> fenced a s s' \<Longrightarrow> ((\<exists>i. moved e i s s') \<or> (e = [] \<and> created s s')) \<and> fenced a s s'"
  by blast

lemma wf_step_moves:
  assumes ok: "workflows_ok s" and st: "wf_step a e s s'"
  shows "((\<exists>i. moved e i s s') \<or> (e = [] \<and> created s s')) \<and> fenced a s s'"
  using st ok
proof (induction rule: wf_step.induct)
  case (create env now fresh admin p s s' result)
  show ?case
  proof (cases "s' = s")
    case True
    then show ?thesis by (auto intro!: exI moved_quiet [where f = "\<lambda>r. r"] fenced_quiet)
  next
    case False
    have "created s s'"
      using create(1)
    proof (cases rule: create_cases)
      case refused
      with False show ?thesis by simp
    next
      case (stored h source w snap cfg)
      show ?thesis unfolding stored(5) by (rule create_created [OF stored(2) create(2) stored(3)])
    qed
    with held_created [OF this create(3)] show ?thesis by (auto simp: fenced_def)
  qed
qed (rule moved_step, ((rule conjI, rule claim_moves renew_moves expire_moves elsewhere_moves, rule claim_moves renew_moves expire_moves elsewhere_moves) |
    (rule begin_moves finish_moves fail_moves cancel_moves retry_moves save_moves; assumption) | (rule catalogue_moves, erule catalogue_runs)))+

lemma wf_step_ok: "workflows_ok s \<Longrightarrow> wf_step a e s s' \<Longrightarrow> workflows_ok s'"
  using wf_step_moves moved_ok created_ok by metis

lemma wf_run_ok: "wf_run P es s s' \<Longrightarrow> workflows_ok s \<Longrightarrow> workflows_ok s'"
  by (induction rule: wf_run.induct) (auto intro: wf_step_ok)

subsection \<open>What every run keeps\<close>

lemma rows_of_mem: "x \<in> set (ag_step_runs s) \<longleftrightarrow> x \<in> set (rows_of (sr_run_id x) s)"
  by (simp add: rows_of_def)

lemma step_keeps_done:
  assumes ok: "workflows_ok s" and st: "wf_step a e s s'" and x: "x \<in> set (ag_step_runs s)" "is_done x"
  shows "x \<in> set (ag_step_runs s') \<and> Start (sr_run_id x) (sr_position x) \<notin> set e"
proof -
  consider i where "moved e i s s'" | "e = []" "created s s'" using wf_step_moves [OF ok st] by blast
  then show ?thesis
  proof cases
    case (1 i)
    then have o': "\<And>j. j \<noteq> i \<Longrightarrow> rows_of j s' = rows_of j s" and rm: "row_move i e (rows_of i s) (rows_of i s')"
      by (auto simp: moved_def)
    have mem: "x \<in> set (rows_of (sr_run_id x) s)" using x(1) by (simp add: rows_of_mem [symmetric])
    then have "x \<in> set (rows_of (sr_run_id x) s')"
      using o' row_move_keeps [OF rm _ x(2)] by (cases "sr_run_id x = i") simp_all
    moreover have "Start (sr_run_id x) (sr_position x) \<notin> set e"
    proof
      assume "Start (sr_run_id x) (sr_position x) \<in> set e"
      from row_move_start [OF rm this] obtain y where i: "sr_run_id x = i"
          and y: "y \<in> set (rows_of i s)" "sr_position y = sr_position x" "\<not> is_done y" by blast
      have "rows_of i s \<noteq> []" using y(1) by auto
      then have "i \<in> wr_id ` set (ag_runs s)" using ok by (auto simp: workflows_ok_def)
      then have "distinct (map sr_position (rows_of i s))"
        using ok step_rows_ok_distinct by (auto simp: workflows_ok_def run_rows_ok_def)
      then have "y = x" using y mem i by (auto simp: distinct_map inj_on_def)
      with y(3) x(2) show False by simp
    qed
    ultimately show ?thesis using rows_of_mem by blast
  next
    case 2
    with x show ?thesis by (auto simp: created_def)
  qed
qed

lemma run_keeps_done:
  "wf_run P es s s' \<Longrightarrow> workflows_ok s \<Longrightarrow> x \<in> set (ag_step_runs s) \<Longrightarrow> is_done x \<Longrightarrow>
    x \<in> set (ag_step_runs s') \<and> Start (sr_run_id x) (sr_position x) \<notin> set es"
proof (induction rule: wf_run.induct)
  case (chain es s s' a e s'')
  with step_keeps_done [OF wf_run_ok [OF chain(1,5)] chain(2)] show ?case by auto
qed simp

text \<open>The ledger of calls.\<close>

definition used :: "string \<Rightarrow> nat \<Rightarrow> agent_db \<Rightarrow> int" where
  "used i pos s = sum_list (map sr_attempts (filter (\<lambda>x. sr_position x = pos) (rows_of i s)))"

definition calls :: "string \<Rightarrow> nat \<Rightarrow> wf_event list \<Rightarrow> int" where
  "calls i pos es = int (count_list es (Start i pos))"

definition manual_retries :: "string \<Rightarrow> wf_event list \<Rightarrow> int" where
  "manual_retries i es = int (count_list es (Retry i))"

lemma rows_at:
  assumes "step_rows_ok n xs"
  shows "\<exists>ys. filter (\<lambda>x. sr_position x = pos) xs = ys \<and> length ys \<le> 1 \<and> set ys \<subseteq> set xs"
proof -
  have d: "distinct (map sr_position xs)" using assms by (rule step_rows_ok_distinct)
  have "length (filter (\<lambda>x. sr_position x = pos) xs) \<le> 1"
  proof (cases "pos \<in> sr_position ` set xs")
    case True
    then obtain x where x: "x \<in> set xs" "sr_position x = pos" by blast
    obtain us vs where e: "xs = us @ x # vs" using split_list [OF x(1)] by blast
    have "filter (\<lambda>x. sr_position x = pos) us = []" "filter (\<lambda>x. sr_position x = pos) vs = []"
      using d x(2) unfolding e filter_empty_conv by (auto simp: image_iff)
    then show ?thesis using x(2) by (simp add: e)
  next
    case False
    then have "filter (\<lambda>x. sr_position x = pos) xs = []" by (auto simp: filter_empty_conv)
    then show ?thesis by simp
  qed
  then show ?thesis by auto
qed

lemma used_at:
  assumes "step_rows_ok n (rows_of i s)"
  shows "0 \<le> used i pos s \<and> used i pos s \<le> max_step_attempts"
proof -
  obtain ys where ys: "filter (\<lambda>x. sr_position x = pos) (rows_of i s) = ys" "length ys \<le> 1" "set ys \<subseteq> set (rows_of i s)"
    using rows_at [OF assms] by blast
  have "\<forall>y \<in> set ys. 0 \<le> sr_attempts y \<and> sr_attempts y \<le> max_step_attempts" using ys(3) assms by (auto simp: step_rows_ok_def)
  with ys(1,2) show ?thesis by (cases ys) (auto simp: used_def max_step_attempts_def)
qed

lemma used_bounds:
  assumes "workflows_ok s"
  shows "0 \<le> used i pos s \<and> used i pos s \<le> max_step_attempts"
proof (cases "i \<in> wr_id ` set (ag_runs s)")
  case True
  then obtain r where r: "r \<in> set (ag_runs s)" "wr_id r = i" by blast
  then have "step_rows_ok (length (fw_steps (wr_workflow_snapshot r))) (rows_of i s)"
    using assms by (auto simp: workflows_ok_def run_rows_ok_def)
  then show ?thesis by (rule used_at)
next
  case False
  then have "rows_of i s = []" using assms by (simp add: workflows_ok_def)
  then show ?thesis by (simp add: used_def max_step_attempts_def)
qed

lemma row_move_used:
  "row_move i e xs xs' \<Longrightarrow> \<forall>x \<in> set xs'. 0 \<le> sr_attempts x \<Longrightarrow>
    sum_list (map sr_attempts (filter (\<lambda>x. sr_position x = pos) xs)) \<le> max_step_attempts \<Longrightarrow>
    calls i pos e + sum_list (map sr_attempts (filter (\<lambda>x. sr_position x = pos) xs)) \<le>
      max_step_attempts * manual_retries i e + sum_list (map sr_attempts (filter (\<lambda>x. sr_position x = pos) xs'))"
proof (induction rule: row_move.induct)
  case (cancels xs)
  have "map sr_attempts (filter (\<lambda>x. sr_position x = pos) (row_update (\<lambda>x. \<not> is_done x) (\<lambda>x. x\<lparr>sr_status := ''cancelled''\<rparr>) xs)) =
      map sr_attempts (filter (\<lambda>x. sr_position x = pos) xs)"
    by (induction xs) (auto simp: row_update_def)
  then show ?case by (simp add: calls_def manual_retries_def)
next
  case (again xs)
  have "0 \<le> sum_list (map sr_attempts (filter (\<lambda>x. sr_position x = pos)
      (row_update (\<lambda>x. \<not> is_done x) (\<lambda>x. x\<lparr>sr_status := ''pending'', sr_attempts := 0, sr_error := None\<rparr>) xs)))"
    using again(1) by (intro sum_list_nonneg) auto
  with again(2) show ?case by (simp add: calls_def manual_retries_def)
qed (auto simp: calls_def manual_retries_def step_key_def)

lemma calls_append [simp]: "calls i pos (es @ es') = calls i pos es + calls i pos es'"
  by (simp add: calls_def)

lemma manual_retries_append [simp]: "manual_retries i (es @ es') = manual_retries i es + manual_retries i es'"
  by (simp add: manual_retries_def)

lemma row_move_other: "row_move j e xs xs' \<Longrightarrow> j \<noteq> i \<Longrightarrow> calls i pos e = 0"
  by (induction rule: row_move.induct) (auto simp: calls_def)

lemma step_used:
  assumes ok: "workflows_ok s" and st: "wf_step a e s s'"
  shows "calls i pos e + used i pos s \<le> max_step_attempts * manual_retries i e + used i pos s'"
proof -
  have ok': "workflows_ok s'" using wf_step_ok [OF ok st] .
  consider j where "moved e j s s'" | "e = []" "created s s'" using wf_step_moves [OF ok st] by blast
  then show ?thesis
  proof cases
    case (1 j)
    then have o': "\<And>k. k \<noteq> j \<Longrightarrow> rows_of k s' = rows_of k s" and rm: "row_move j e (rows_of j s) (rows_of j s')"
      by (auto simp: moved_def)
    show ?thesis
    proof (cases "j = i")
      case True
      have "0 \<le> sr_attempts x" if "x \<in> set (rows_of i s')" for x
      proof -
        have "rows_of i s' \<noteq> []" using that by auto
        then have "i \<in> wr_id ` set (ag_runs s')" using ok' by (auto simp: workflows_ok_def)
        then show ?thesis using ok' that by (auto simp: workflows_ok_def run_rows_ok_def step_rows_ok_def)
      qed
      with row_move_used [OF rm, of pos] used_bounds [OF ok, of i pos] True show ?thesis by (auto simp: used_def)
    next
      case False
      then have "used i pos s' = used i pos s" using o' by (simp add: used_def)
      moreover have "0 \<le> max_step_attempts * manual_retries i e" by (simp add: manual_retries_def max_step_attempts_def)
      ultimately show ?thesis using row_move_other [OF rm False] by simp
    qed
  next
    case 2
    have "used i pos s \<le> used i pos s'"
    proof (cases "rows_of i s = []")
      case True
      then show ?thesis using used_bounds [OF ok', of i pos] by (simp add: used_def)
    next
      case False
      obtain r :: workflow_run where r: "wr_id r \<notin> wr_id ` set (ag_runs s)"
          "ag_step_runs s' = ag_step_runs s @ map (new_step (wr_id r)) (fw_steps (wr_workflow_snapshot r))"
        using 2(2) unfolding created_def by blast
      have "i \<noteq> wr_id r" using False r(1) ok by (auto simp: workflows_ok_def)
      then have "rows_of i s' = rows_of i s" by (auto simp: rows_of_def r(2) new_step_def filter_empty_conv)
      then show ?thesis by (simp add: used_def)
    qed
    then show ?thesis using 2(1) by (simp add: calls_def manual_retries_def)
  qed
qed

lemma run_used:
  "wf_run P es s s' \<Longrightarrow> workflows_ok s \<Longrightarrow> calls i pos es + used i pos s \<le> max_step_attempts * manual_retries i es + used i pos s'"
proof (induction rule: wf_run.induct)
  case (chain es s s' a e s'')
  with step_used [OF wf_run_ok [OF chain(1,5)] chain(2), of i pos] show ?case by (simp add: algebra_simps)
qed (simp add: calls_def manual_retries_def)

text \<open>A run keeps its inputs.\<close>

lemma step_core:
  assumes ok: "workflows_ok s" and st: "wf_step a e s s'" and r: "r \<in> set (ag_runs s)"
  shows "\<exists>r' \<in> set (ag_runs s'). run_core r' = run_core r"
proof -
  consider i where "moved e i s s'" | "created s s'" using wf_step_moves [OF ok st] by blast
  then show ?thesis
  proof cases
    case (1 i)
    then have "list_all2 (follows i (rows_of i s')) (ag_runs s) (ag_runs s')" by (simp add: moved_def)
    then obtain r' where "r' \<in> set (ag_runs s')" "follows i (rows_of i s') r r'"
      using r by (metis in_set_conv_nth list_all2_conv_all_nth)
    then show ?thesis by (auto simp: follows_def)
  next
    case 2
    with r show ?thesis by (auto simp: created_def)
  qed
qed

lemma run_keeps_core: "wf_run P es s s' \<Longrightarrow> workflows_ok s \<Longrightarrow> r \<in> set (ag_runs s) \<Longrightarrow> \<exists>r' \<in> set (ag_runs s'). run_core r' = run_core r"
proof (induction rule: wf_run.induct)
  case (chain es s s' a e s'')
  then obtain r' where "r' \<in> set (ag_runs s')" "run_core r' = run_core r" by blast
  with step_core [OF wf_run_ok [OF chain(1,5)] chain(2)] show ?case by metis
qed auto

text \<open>While a worker holds a run, the others leave its rows alone.\<close>

lemma run_fenced: "wf_run (but t) es s s' \<Longrightarrow> workflows_ok s \<Longrightarrow> held t i s' \<Longrightarrow> held t i s \<and> rows_of i s' = rows_of i s"
proof (induction rule: wf_run.induct)
  case (chain es s s' a e s'')
  have "fenced a s' s''" using wf_step_moves [OF wf_run_ok [OF chain(1,5)] chain(2)] by simp
  with chain show ?case by (auto simp: fenced_def)
qed simp

lemma current_held: "current_run now i t s = Some r \<Longrightarrow> held t i s"
  using current_run_get holds_runD run_get_id by (fastforce simp: held_def)

subsection \<open>A turn of the worker\<close>

definition others :: "string \<Rightarrow> (agent_db \<Rightarrow> agent_db) \<Rightarrow> bool" where
  "others t f \<longleftrightarrow> (\<forall>s. workflows_ok s \<longrightarrow> (\<exists>es. wf_run (but t) es s (f s)))"

definition io_others :: "string \<Rightarrow> step_io \<Rightarrow> bool" where
  "io_others t io \<longleftrightarrow> others t (si_before io) \<and> others t (si_calling io) \<and> others t (si_storing io)"

definition runs_to :: "agent_db \<Rightarrow> agent_db \<Rightarrow> bool" where
  "runs_to s s' \<longleftrightarrow> (\<exists>es. wf_run anyone es s s')"

lemma runs_to_refl [simp]: "runs_to s s"
  by (auto simp: runs_to_def intro: wf_run.stay)

lemma runs_to_trans: "runs_to s s' \<Longrightarrow> runs_to s' s'' \<Longrightarrow> runs_to s s''"
  by (auto simp: runs_to_def intro: wf_run_append)

lemma runs_to_step: "wf_step a e s s' \<Longrightarrow> runs_to s s'"
  by (auto simp: runs_to_def intro: wf_run_one)

lemma runs_to_ok: "runs_to s s' \<Longrightarrow> workflows_ok s \<Longrightarrow> workflows_ok s'"
  by (auto simp: runs_to_def intro: wf_run_ok)

lemma others_run: "others t f \<Longrightarrow> workflows_ok s \<Longrightarrow> runs_to s (f s) \<and> workflows_ok (f s)"
  unfolding others_def runs_to_def by (metis (mono_tags, lifting) wf_run_mono wf_run_ok)

lemma others_fenced: "others t f \<Longrightarrow> workflows_ok s \<Longrightarrow> held t i (f s) \<Longrightarrow> held t i s \<and> rows_of i (f s) = rows_of i s"
  unfolding others_def using run_fenced by blast

definition pending :: "string \<Rightarrow> agent_db \<Rightarrow> nat" where
  "pending i s = length (filter (\<lambda>x. \<not> is_done x) (rows_of i s))"

lemma store_refines:
  assumes ok: "workflows_ok s"
    and x: "current_run now i t s \<noteq> None \<Longrightarrow> x \<in> set (rows_of i s)" "sr_position x = pos" "\<not> is_done x"
    and x0: "sr_status x = ''running''"
    and fin: "finish_step now i t pos out usage s = (s', st)"
  shows "runs_to s s' \<and> (st = Completed \<longrightarrow> pending i s' < pending i s)"
proof (cases "current_run now i t s")
  case None
  with fin show ?thesis by (auto simp: finish_step_def)
next
  case (Some r)
  note g = current_run_get [OF Some]
  have d: "distinct (map sr_position (rows_of i s))" using run_rows [OF ok conjunct1 [OF g]] by simp
  have mem: "x \<in> set (rows_of i s)" using x(1) Some by simp
  have get: "step_get i pos s = Some x" using row_step_get [OF mem d] x(2) by simp
  have s': "s' = fst (finish_step now i t pos out usage s)" using fin by simp
  have "runs_to s s'" unfolding s' by (rule runs_to_step [OF wf_step.finish [OF get x0]])
  moreover have "pending i s' < pending i s"
  proof -
    obtain us vs where e: "rows_of i s = us @ x # vs" using split_list [OF mem] by blast
    have "s' = put_step (finished_step now out usage x) s" using fin Some get by (simp add: finish_step_def)
    then have "rows_of i s' = us @ finished_step now out usage x # vs"
      using rows_put_at(1) [OF ok conjunct1 [OF g] e finished_fields(1)] by simp
    with e x(3) show ?thesis by (simp add: pending_def)
  qed
  ultimately show ?thesis by simp
qed

lemma execute_refines:
  "execute_run i t ios s = (s', e) \<Longrightarrow> workflows_ok s \<Longrightarrow> \<forall>io \<in> set ios. io_others t io \<Longrightarrow>
    runs_to s s' \<and> (e = Working \<longrightarrow> length ios \<le> pending i s)"
proof (induction ios arbitrary: s)
  case (Cons io ios)
  have gaps: "others t (si_before io)" "others t (si_calling io)" "others t (si_storing io)"
    using Cons.prems(3) by (simp_all add: io_others_def)
  define s0 where "s0 = si_before io s"
  have s0: "runs_to s s0" "workflows_ok s0" using others_run [OF gaps(1) Cons.prems(2)] by (simp_all add: s0_def)
  obtain s1 st where b: "begin_step (si_start io) i t s0 = (s1, st)" by fastforce
  have s1: "runs_to s s1" "workflows_ok s1"
    using runs_to_trans [OF s0(1) runs_to_step [OF wf_step.begins [OF b]]] runs_to_ok [OF _ Cons.prems(2)] by auto
  show ?case
  proof (cases st)
    case (Calling r pos n hist)
    obtain r0 us x vs where cur: "current_run (si_start io) i t s0 = Some r0" and rows: "rows_of i s0 = us @ x # vs"
        and x: "\<not> is_done x" "pos = sr_position x"
        and s1e: "s1 = put_run (r0\<lparr>wr_current_position := sr_position x, wr_updated_at := si_start io\<rparr>) (put_step (started_step (si_start io) x) s0)"
      using s0(2) b by (cases rule: begin_cases) (use Calling in auto)
    have rows0: "rows_of i s0 = rows_of i s"
      using others_fenced [OF gaps(1) Cons.prems(2), of i] current_held [OF cur] by (simp add: s0_def)
    have rows1: "rows_of i s1 = us @ started_step (si_start io) x # vs"
      using rows_put_at(1) [OF s0(2) conjunct1 [OF current_run_get [OF cur]] rows started_fields(1)] by (simp add: s1e)
    define s2 where "s2 = si_calling io s1"
    have s2: "runs_to s s2" "workflows_ok s2" using others_run [OF gaps(2) s1(2)] runs_to_trans [OF s1(1)] by (auto simp: s2_def)
    define s3 where "s3 = si_storing io s2"
    have s3: "runs_to s s3" "workflows_ok s3" using others_run [OF gaps(3) s2(2)] runs_to_trans [OF s2(1)] by (auto simp: s3_def)
    have rows3: "rows_of i s3 = rows_of i s1" if "held t i s3"
      using that others_fenced [OF gaps(3) s2(2), of i] others_fenced [OF gaps(2) s1(2), of i] by (simp add: s2_def s3_def)
    obtain out usage s4 st4 where fin: "finish_step (si_end io) i t pos out usage s3 = (s4, st4)"
        and cont: "execute_run i t (io # ios) s = (s2, e) \<and> e \<noteq> Working \<or>
          (execute_run i t (io # ios) s = (if st4 = Completed then execute_run i t ios s4 else (s4, if st4 = LeaseLost then Lost else Failed OtherError)))"
    proof (cases "execute_run i t (io # ios) s = (s2, e) \<and> e \<noteq> Working")
      case True
      with that show thesis by (metis surj_pair)
    next
      case False
      obtain out usage where call: "call_model io s2 r n hist = Inr (out, usage)" "\<not> si_lost io" "\<not> si_stop io"
        using False Cons.prems(1) b Calling
        by (auto simp: s0_def [symmetric] s2_def [symmetric] Let_def split: sum.splits call_error.splits if_splits prod.splits)
      obtain s4 st4 where fin: "finish_step (si_end io) i t pos out usage s3 = (s4, st4)" by fastforce
      have "st4 = Completed \<or> st4 = LeaseLost \<or> st4 = Broken"
        using fin by (auto simp: finish_step_def split: option.splits)
      then have "execute_run i t (io # ios) s =
          (if st4 = Completed then execute_run i t ios s4 else (s4, if st4 = LeaseLost then Lost else Failed OtherError))"
        using b Calling call fin by (auto simp: s0_def [symmetric] s2_def [symmetric] s3_def [symmetric] Let_def)
      with fin that show thesis by blast
    qed
    have st: "runs_to s3 s4 \<and> (st4 = Completed \<longrightarrow> pending i s4 < pending i s3 \<and> held t i s3)"
    proof -
      have mem: "current_run (si_end io) i t s3 \<noteq> None \<Longrightarrow> started_step (si_start io) x \<in> set (rows_of i s3)"
        using rows3 current_held rows1 by fastforce
      have run: "sr_status (started_step (si_start io) x) = ''running''" by (simp add: started_step_def)
      have "runs_to s3 s4 \<and> (st4 = Completed \<longrightarrow> pending i s4 < pending i s3)"
        by (rule store_refines [OF s3(2) mem _ started_fields(5) run fin]) (use x in simp_all)
      moreover have "st4 = Completed \<longrightarrow> held t i s3"
        using fin current_held by (auto simp: finish_step_def split: option.splits)
      ultimately show ?thesis by blast
    qed
    from cont show ?thesis
    proof (elim disjE)
      assume "execute_run i t (io # ios) s = (s2, e) \<and> e \<noteq> Working"
      with s2 Cons.prems(1) show ?thesis by simp
    next
      assume r: "execute_run i t (io # ios) s = (if st4 = Completed then execute_run i t ios s4 else (s4, if st4 = LeaseLost then Lost else Failed OtherError))"
      show ?thesis
      proof (cases "st4 = Completed")
        case True
        have s4: "runs_to s s4" "workflows_ok s4" using st s3 runs_to_trans runs_to_ok by blast+
        have ih: "runs_to s4 s' \<and> (e = Working \<longrightarrow> length ios \<le> pending i s4)"
          by (rule Cons.IH) (use r True Cons.prems s4 in auto)
        have "pending i s3 = pending i s" using True st rows3 rows1 rows rows0 x(1) by (simp add: pending_def)
        with ih st True runs_to_trans [OF s4(1)] show ?thesis by auto
      next
        case False
        with r Cons.prems(1) st runs_to_trans [OF s3(1)] show ?thesis by (auto split: if_splits)
      qed
    qed
  qed (use Cons.prems(1) b s1 in \<open>auto simp: s0_def [symmetric]\<close>)
qed simp

text \<open>A run in the middle: the first node has its output, a worker holds the run.\<close>

definition sample_node :: "nat \<Rightarrow> string \<Rightarrow> frozen_node" where
  "sample_node k kind = \<lparr>fn_position = k, fn_id = int k, fn_name = ''node'', fn_node_type = kind, fn_version = 1, fn_skills = []\<rparr>"

definition sample_flow :: frozen_workflow where
  "sample_flow = \<lparr>fw_id = 1, fw_name = ''flow'', fw_version = 1, fw_steps = [sample_node 1 ''custom'', sample_node 2 ''article'']\<rparr>"

definition sample_workflow_config :: workflow_config where
  "sample_workflow_config = \<lparr>wc_language = ''en'', wc_tone = Lit ''plain'' [], wc_reasoning_effort = ''low'', wc_max_output_tokens = 1000,
     wc_timeout_seconds = 60, wc_base_url = ''u'', wc_model = ''m'', wc_protocol = ''openai_responses'', wc_data_source_name = ''d'',
     wc_data_source_version = 1\<rparr>"

definition sample_wf_run :: workflow_run where
  "sample_wf_run = \<lparr>wr_id = ''r'', wr_admin_id = 1, wr_request_id = ''q'', wr_request_hash = ''h'', wr_workflow_id = Some 1,
     wr_workflow_name = ''flow'', wr_workflow_version = 1, wr_input_text = ''task'', wr_source_snapshot = JNull,
     wr_workflow_snapshot = sample_flow, wr_config_snapshot = sample_workflow_config, wr_status = ''running'', wr_current_position = 1,
     wr_claim_token = Some ''t'', wr_lease_expires_at = Some 100, wr_next_attempt_at = 0, wr_error = None, wr_article_id = None,
     wr_created_at = 0, wr_updated_at = 0, wr_completed_at = None\<rparr>"

definition sample_wf_step :: step_run where
  "sample_wf_step = finished_step 0 (JObj [(''text'', JStr ''a'')]) (JObj []) (started_step 0 (new_step ''r'' (sample_node 1 ''custom'')))"

definition sample_agents :: agent_db where
  "sample_agents = (empty_agent_db empty_db)\<lparr>ag_runs := [sample_wf_run],
     ag_step_runs := [sample_wf_step, new_step ''r'' (sample_node 2 ''article'')]\<rparr>"

lemmas sample_flow_simps = sample_agents_def sample_wf_run_def sample_wf_step_def sample_flow_def sample_node_def empty_agent_db_def
  new_step_def finished_step_def started_step_def

lemma sample_agents_ok: "workflows_ok sample_agents"
  by (simp add: workflows_ok_def run_rows_ok_def step_rows_ok_def snapshot_ok_def rows_of_def reached_def is_done_def
      max_step_attempts_def sample_flow_simps)

text \<open>
  C15: In every interleaving of workers and routes, a node of a workflow run that has stored its output keeps that
  output, and is never handed to the model again.
\<close>

theorem checkpoints_final:
  assumes "workflows_ok s" and "wf_run anyone es s s'" and "x \<in> set (ag_step_runs s)" and "sr_status x = ''succeeded''"
  shows "x \<in> set (ag_step_runs s') \<and> Start (sr_run_id x) (sr_position x) \<notin> set es"
  using run_keeps_done [OF assms(2,1,3)] assms(4) by (simp add: is_done_def)

lemma checkpoints_final_witness:
  "sample_wf_step \<in> set (ag_step_runs (fst (begin_step 5 ''r'' ''t'' sample_agents))) \<and>
   begin_step 5 ''r'' ''t'' sample_agents \<noteq> (sample_agents, LeaseLost)"
proof -
  obtain s' st where b: "begin_step 5 ''r'' ''t'' sample_agents = (s', st)" by fastforce
  have run: "wf_run anyone (started ''r'' st) sample_agents s'" by (rule wf_run_one [OF wf_step.begins [OF b]]) simp
  have "sample_wf_step \<in> set (ag_step_runs s')"
    using checkpoints_final [OF sample_agents_ok run, of sample_wf_step] by (simp add: sample_agents_def sample_wf_step_def finished_step_def)
  moreover have "begin_step 5 ''r'' ''t'' sample_agents \<noteq> (sample_agents, LeaseLost)" by code_simp
  ultimately show ?thesis using b by simp
qed

text \<open>
  C16: A node is handed to the model at most three times for each time that an administrator starts or retries its run,
  however often workers crash, lose their lease or are stopped in between.
\<close>

theorem node_calls_bounded:
  assumes "workflows_ok s" and "wf_run anyone es s s'"
  shows "int (count_list es (Start i pos)) \<le> max_step_attempts * (int (count_list es (Retry i)) + 1)"
proof -
  have "calls i pos es + used i pos s \<le> max_step_attempts * manual_retries i es + used i pos s'" by (rule run_used [OF assms(2,1)])
  moreover have "0 \<le> used i pos s" "used i pos s' \<le> max_step_attempts"
    using used_bounds assms wf_run_ok by blast+
  ultimately show ?thesis by (simp add: calls_def manual_retries_def algebra_simps)
qed

lemma node_calls_bounded_witness:
  "int (count_list (started ''r'' (snd (begin_step 5 ''r'' ''t'' sample_agents))) (Start ''r'' 2)) \<le> 3 \<and>
   started ''r'' (snd (begin_step 5 ''r'' ''t'' sample_agents)) = [Start ''r'' 2]"
proof -
  obtain s' st where b: "begin_step 5 ''r'' ''t'' sample_agents = (s', st)" by fastforce
  have run: "wf_run anyone (started ''r'' st) sample_agents s'" by (rule wf_run_one [OF wf_step.begins [OF b]]) simp
  have st: "started ''r'' (snd (begin_step 5 ''r'' ''t'' sample_agents)) = [Start ''r'' 2]" by code_simp
  show ?thesis using node_calls_bounded [OF sample_agents_ok run, of "''r''" 2] st b by (simp add: max_step_attempts_def)
qed

text \<open>
  C18: A node is called with the outputs of all nodes before it, in their order, and with its definition as it was when
  the run was created.
\<close>

theorem node_reads_checkpoints:
  assumes "workflows_ok s" and "begin_step now i t s = (s', Calling r pos n hist)"
  shows "map so_position hist = [1..<pos] \<and> n \<in> set (fw_steps (wr_workflow_snapshot r)) \<and> fn_position n = pos \<and>
    (\<forall>h \<in> set hist. \<exists>x \<in> set (ag_step_runs s). sr_run_id x = i \<and> sr_status x = ''succeeded'' \<and> h = output_of x)"
  using assms
proof (cases rule: begin_cases)
  case (calling r0 us x vs)
  note g = current_run_get [OF calling(1)]
  note rr = run_rows [OF assms(1) conjunct1 [OF g]]
  define steps where "steps = fw_steps (wr_workflow_snapshot r0)"
  have pos: "map sr_position (rows_of i s) = [1..<Suc (length steps)]" using rr(1) by (simp add: step_rows_ok_def steps_def)
  have len: "length us < length steps" using arg_cong [OF pos, of length] calling(2) by (simp del: upt_Suc)
  have e: "r = r0\<lparr>wr_current_position := sr_position x, wr_updated_at := now\<rparr>" "pos = Suc (length us)" "n = steps ! length us"
      "hist = map output_of us"
    using calling(6,8) by (simp_all add: steps_def)
  have "map sr_position us = take (length us) (map sr_position (rows_of i s))" by (simp add: calling(2))
  also have "\<dots> = [1..<Suc (length us)]" unfolding pos using len take_upt [of 1 "length us" "Suc (length steps)"] by (simp del: upt_Suc)
  finally have "map so_position hist = [1..<pos]" by (simp add: e output_of_def comp_def del: upt_Suc)
  moreover have "n \<in> set (fw_steps (wr_workflow_snapshot r))" using len by (simp add: e steps_def)
  moreover have "fn_position n = pos"
  proof -
    have "fn_position n = map fn_position steps ! length us" using len e(3) by simp
    also have "map fn_position steps = [1..<Suc (length steps)]" using rr(4) by (simp add: snapshot_ok_def steps_def)
    finally show ?thesis using len e(2) by (simp del: upt_Suc)
  qed
  moreover have "\<exists>x \<in> set (ag_step_runs s). sr_run_id x = i \<and> sr_status x = ''succeeded'' \<and> h = output_of x" if h: "h \<in> set hist" for h
  proof -
    obtain u where u: "u \<in> set us" "h = output_of u" using h e(4) by auto
    have "u \<in> set (rows_of i s)" using u(1) calling(2) by simp
    then have "u \<in> set (ag_step_runs s)" "sr_run_id u = i" by (simp_all add: rows_of_def)
    with u calling(3) show ?thesis by (auto simp: is_done_def)
  qed
  ultimately show ?thesis by blast
qed auto

lemma node_reads_checkpoints_witness:
  "case begin_step 5 ''r'' ''t'' sample_agents of (s', Calling r pos n hist) \<Rightarrow>
     map so_position hist = [1..<pos] \<and> fn_position n = pos \<and> hist = [output_of sample_wf_step] | _ \<Rightarrow> False"
proof -
  have "\<exists>s' r pos n. begin_step 5 ''r'' ''t'' sample_agents = (s', Calling r pos n [output_of sample_wf_step])"
    unfolding begin_step_def current_run_def run_get_def row_get_def holds_run_def step_rows_def frozen_at_def max_step_attempts_def
    by (simp add: sample_flow_simps Let_def)
  then obtain s' r pos n where b: "begin_step 5 ''r'' ''t'' sample_agents = (s', Calling r pos n [output_of sample_wf_step])" by blast
  show ?thesis using node_reads_checkpoints [OF sample_agents_ok b] b by simp
qed

text \<open>
  C17: A turn of the worker on a run, with any transactions of other workers and of the routes at each of its awaits,
  is a run of the transactions above, and it ends: after at most one call for each node without output.
\<close>

theorem workflow_turn_refines:
  assumes ok: "workflows_ok s" and ios: "\<forall>io \<in> set ios. io_others t io" and gap: "others t between"
    and turn: "process_run now t i ios between now' s = (s', e)"
  shows "(\<exists>es. wf_run anyone es s s') \<and> (e = Working \<longrightarrow> length ios \<le> pending i s)"
proof -
  obtain s1 claimed where c: "claim_run now t i s = (s1, claimed)" by fastforce
  have "runs_to s (fst (claim_run now t i s))" by (rule runs_to_step [OF wf_step.claim])
  then have s1: "runs_to s s1" "workflows_ok s1" using c runs_to_ok ok by auto
  have p1: "pending i s1 = pending i s" using c by (auto simp: claim_run_def Let_def pending_def rows_of_def)
  show ?thesis
  proof (cases claimed)
    case False
    with turn c s1(1) show ?thesis by (auto simp: process_run_def runs_to_def)
  next
    case True
    obtain s2 stop where x: "execute_run i t ios s1 = (s2, stop)" by fastforce
    have s2: "runs_to s1 s2 \<and> (stop = Working \<longrightarrow> length ios \<le> pending i s1)" by (rule execute_refines [OF x s1(2) ios])
    then have "runs_to s s2" "workflows_ok s2" using runs_to_trans [OF s1(1)] runs_to_ok ok by blast+
    note b = this others_run [OF gap this(2)]
    have f: "runs_to s (fail_run now' i t err again stopped (between s2))" for err again stopped
      using runs_to_trans [OF runs_to_trans [OF b(1)]] b(3) runs_to_step [OF wf_step.fail] by blast
    have "runs_to s s' \<and> (e = Working \<longrightarrow> stop = Working)"
      using turn c True x b(1) f by (cases stop) (auto simp: process_run_def)
    with s2 p1 show ?thesis by (auto simp: runs_to_def)
  qed
qed

definition sample_io :: step_io where
  "sample_io = \<lparr>si_before = (\<lambda>s. s), si_calling = with_db empty_db, si_storing = (\<lambda>s. s), si_start = 1000, si_end = 1001,
     si_source = (\<lambda>d. None), si_env = \<lparr>ce_dumps = (\<lambda>j. []), ce_rules = (\<lambda>n c. []), ce_purpose = (\<lambda>k. []), ce_skill = (\<lambda>k. []),
       ce_schema = (\<lambda>k. JNull), ce_score = Some, ce_post = (\<lambda>j. Inl TimedOut), ce_extract = Inr\<rparr>, si_lost = False, si_stop = False\<rparr>"

lemma others_id: "others t (\<lambda>s. s)"
  by (auto simp: others_def intro: wf_run.stay)

lemma others_elsewhere: "others t (with_db d)"
  unfolding others_def by (auto intro!: exI wf_run_one [OF wf_step.elsewhere])

lemma workflow_turn_refines_witness:
  "\<exists>s' es. process_run 500 ''u'' ''r'' [sample_io, sample_io] (\<lambda>s. s) 1002 (expire_leases 400 sample_agents) = (s', Failed SourceUnavailable) \<and>
     wf_run anyone es (expire_leases 400 sample_agents) s'"
proof -
  have p: "snd (process_run 500 ''u'' ''r'' [sample_io, sample_io] (\<lambda>s. s) 1002 (expire_leases 400 sample_agents)) = Failed SourceUnavailable"
    by code_simp
  obtain s' e where r: "process_run 500 ''u'' ''r'' [sample_io, sample_io] (\<lambda>s. s) 1002 (expire_leases 400 sample_agents) = (s', e)" by fastforce
  have ok: "workflows_ok (expire_leases 400 sample_agents)" by (rule wf_step_ok [OF sample_agents_ok wf_step.expire])
  have io: "\<forall>io \<in> set [sample_io, sample_io]. io_others ''u'' io"
    by (simp add: io_others_def sample_io_def others_id others_elsewhere)
  show ?thesis using workflow_turn_refines [OF ok io others_id r] r p by auto
qed

subsection \<open>Requests\<close>

lemma existing_unique:
  assumes ok: "workflows_ok s" and r: "r \<in> set (ag_runs s)" "request_key r = (admin, ri_request_id p)" "wr_request_hash r = h"
  shows "existing_run admin p h s = Inr (Some r)"
proof -
  have "find (\<lambda>x. wr_admin_id x = admin \<and> wr_request_id x = ri_request_id p) (ag_runs s) = row_get request_key (request_key r) (ag_runs s)"
    using r(2) by (simp add: row_get_def request_key_def)
  also have "\<dots> = Some r" using ok r(1) by (intro row_get_unique) (simp_all add: workflows_ok_def)
  finally show ?thesis using r(3) by (simp add: existing_run_def)
qed

lemma existing_mem:
  "existing_run admin p h s = Inr (Some r) \<Longrightarrow> r \<in> set (ag_runs s) \<and> request_key r = (admin, ri_request_id p) \<and> wr_request_hash r = h"
  by (auto simp: existing_run_def request_key_def find_Some_iff split: option.splits if_splits)

lemma create_answer:
  assumes "create_run env between now fresh admin p s = (s', Inr r)"
  shows "r \<in> set (ag_runs s') \<and> request_key r = (admin, ri_request_id p) \<and> wr_request_hash r = re_hash env p"
proof -
  consider "s' = s" "existing_run admin p (re_hash env p) s = Inr (Some r)"
    | "s' = between s" "existing_run admin p (re_hash env p) (between s) = Inr (Some r)"
    | source w snap cfg where "r = new_run now fresh admin p (re_hash env p) source w snap cfg" "r \<in> set (ag_runs s')"
    using assms by (auto simp: create_run_def Let_def split: sum.splits option.splits prod.splits)
  then show ?thesis
    by cases (auto dest: existing_mem simp: new_run_def request_key_def)
qed

text \<open>
  A request of an administrator starts one run: whoever sends it again later, after any transactions, gets the
  same run with the same inputs, and nothing is stored.
\<close>

theorem request_starts_one_run:
  assumes ok: "workflows_ok s" and gap: "runs_to s (between s)" and fresh: "fresh \<notin> wr_id ` set (ag_runs (between s))"
    and first: "create_run env between now fresh admin p s = (s1, Inr r)" and later: "wf_run anyone es s1 s2"
  shows "\<exists>r'. create_run env between' now' fresh' admin p s2 = (s2, Inr r') \<and> run_core r' = run_core r"
proof -
  have okb: "workflows_ok (between s)" using runs_to_ok [OF gap ok] .
  have ok1: "workflows_ok s1"
    using first
  proof (cases rule: create_cases)
    case refused
    with ok okb show ?thesis by auto
  next
    case (stored h source w snap cfg)
    show ?thesis unfolding stored(5) by (rule created_ok [OF okb create_created [OF stored(2) fresh stored(3)]])
  qed
  have ok2: "workflows_ok s2" using wf_run_ok [OF later ok1] .
  note a = create_answer [OF first]
  obtain r' where r': "r' \<in> set (ag_runs s2)" "run_core r' = run_core r" using run_keeps_core [OF later ok1] a by blast
  then have "request_key r' = request_key r" "wr_request_hash r' = wr_request_hash r" by (auto simp: run_core_def)
  with a existing_unique [OF ok2 r'(1)] have "existing_run admin p (re_hash env p) s2 = Inr (Some r')" by simp
  with r'(2) show ?thesis by (simp add: create_run_def Let_def)
qed

definition sample_request :: run_input where
  "sample_request = \<lparr>ri_workflow_id = 1, ri_workflow_version = 1, ri_request_id = ''q'', ri_input_text = ''task'', ri_article_id = None,
     ri_article_revision = None, ri_tweet_id = None\<rparr>"

definition sample_run_env :: run_env where
  "sample_run_env = \<lparr>re_dumps = (\<lambda>j. ''null''), re_iso = (\<lambda>t. []), re_hash = (\<lambda>p. ''h''), re_resolve = (\<lambda>is. Some [])\<rparr>"

lemma request_starts_one_run_witness:
  "\<exists>r'. create_run sample_run_env (\<lambda>s. s) 9 ''z'' 1 sample_request (expire_leases 400 sample_agents) =
     (expire_leases 400 sample_agents, Inr r') \<and> wr_id r' = ''r''"
proof -
  have first: "create_run sample_run_env (\<lambda>s. s) 8 ''z'' 1 sample_request sample_agents = (sample_agents, Inr sample_wf_run)"
  proof -
    have "existing_run 1 sample_request ''h'' sample_agents = Inr (Some sample_wf_run)"
    proof (rule existing_unique [OF sample_agents_ok])
      show "sample_wf_run \<in> set (ag_runs sample_agents)" by (simp add: sample_agents_def)
    qed (simp_all add: request_key_def sample_wf_run_def sample_request_def)
    then show ?thesis by (simp add: create_run_def Let_def sample_run_env_def)
  qed
  have gap: "runs_to sample_agents sample_agents" by simp
  have fresh: "''z'' \<notin> wr_id ` set (ag_runs sample_agents)" by (simp add: sample_flow_simps)
  have later: "wf_run anyone [] sample_agents (expire_leases 400 sample_agents)" by (rule wf_run_one [OF wf_step.expire]) simp
  show ?thesis
    using request_starts_one_run [OF sample_agents_ok gap fresh first later, of "\<lambda>s. s" 9 "''z''"]
    by (auto simp: run_core_def sample_wf_run_def)
qed

text \<open>
  A worker that is stopped during the third attempt of a node fails the run, although the text that
  it stores announces a continuation.
\<close>

lemma stopped_third_attempt:
  assumes "current_run now i t s = Some r" and "step_get i (wr_current_position r) s = Some x" and "max_step_attempts \<le> sr_attempts x"
  shows "\<exists>r' \<in> set (ag_runs (fail_run now i t stopped_text True True s)). wr_id r' = i \<and> wr_status r' = ''failed'' \<and> wr_error r' = Some stopped_text"
proof -
  have r: "r \<in> set (ag_runs s)" "wr_id r = i" using run_get_id current_run_get [OF assms(1)] by blast+
  define r' where "r' = r\<lparr>wr_status := ''failed'', wr_error := Some stopped_text, wr_claim_token := None, wr_lease_expires_at := None,
    wr_updated_at := now, wr_next_attempt_at := now + retry_wait True, wr_completed_at := Some now\<rparr>"
  have "r' \<in> set (row_put wr_id r' (ag_runs s))" using r by (auto simp: row_put_def row_update_def r'_def)
  moreover have "ag_runs (fail_run now i t stopped_text True True s) = row_put wr_id r' (ag_runs s)"
    using assms by (simp add: fail_run_def Let_def put_run_def put_step_def r'_def)
  ultimately show ?thesis by (intro bexI [of _ r']) (simp_all add: r'_def r(2))
qed

end
