(* ===== verification/AgentStream.thy ===== *)
theory AgentStream
  imports WorkflowWorker "HOL-Library.AList"
begin

text \<open>
  One answer of the chat agent, \<open>backend/app/services/agent_provider.py\<close>: the messages that the
  model receives, the parsing of its event stream and the check of the result.
\<close>

subsection \<open>Messages\<close>

definition turn_answer :: "(json \<Rightarrow> string) \<Rightarrow> chat_turn \<Rightarrow> string" where
  "turn_answer dumps t = dumps (JObj [(''reply'', jstr_opt (tn_reply t)), (''article'', tn_article t)])"

definition turn_size :: "(json \<Rightarrow> string) \<Rightarrow> chat_turn \<Rightarrow> nat" where
  "turn_size dumps t = length (tn_content t) + length (turn_answer dumps t)"

definition max_turns :: nat where
  "max_turns = 12"

definition max_chat :: nat where
  "max_chat = 120000"

text \<open>The loop over the reversed history; \<open>n\<close> turns of together \<open>used\<close> characters are selected.\<close>

fun recent_turns :: "(json \<Rightarrow> string) \<Rightarrow> nat \<Rightarrow> nat \<Rightarrow> chat_turn list \<Rightarrow> chat_turn list" where
  "recent_turns dumps used n [] = []"
| "recent_turns dumps used n (t # ts) =
     (if max_turns \<le> n \<or> max_chat < used + turn_size dumps t then []
      else t # recent_turns dumps (used + turn_size dumps t) (Suc n) ts)"

definition selected_turns :: "(json \<Rightarrow> string) \<Rightarrow> chat_turn list \<Rightarrow> chat_turn \<Rightarrow> chat_turn list" where
  "selected_turns dumps history current = rev (recent_turns dumps (length (tn_content current)) 0 (rev history))"

definition latest_article :: "chat_turn list \<Rightarrow> chat_turn option" where
  "latest_article history = find (\<lambda>t. truthy (tn_article t)) (rev history)"

definition message :: "string \<Rightarrow> string \<Rightarrow> json" where
  "message role content = JObj [(''role'', JStr role), (''content'', JStr content)]"

definition article_heading :: string where
  "article_heading = ''The previous version of the article, for this change:'' @ [CHR 10]"

definition chat_messages :: "(json \<Rightarrow> string) \<Rightarrow> chat_turn list \<Rightarrow> chat_turn \<Rightarrow> json list" where
  "chat_messages dumps history current =
     (let selected = selected_turns dumps history current in
      (case latest_article history of
         None \<Rightarrow> []
       | Some t \<Rightarrow> if tn_id t \<in> tn_id ` set selected then [] else [message ''user'' (article_heading @ dumps (tn_article t))]) @
      concat (map (\<lambda>t. [message ''user'' (tn_content t), message ''assistant'' (turn_answer dumps t)]) selected) @
      [message ''user'' (tn_content current)])"

subsection \<open>The request\<close>

record chat_runtime = runtime_source +
  rt_api_key :: string

record chat_env =
  he_dumps :: "json \<Rightarrow> string"
  he_loads :: "string \<Rightarrow> json option"
  he_rules :: "chat_config \<Rightarrow> string"
  he_skill :: "skill \<Rightarrow> string"
  he_schema :: json
  he_extract :: "json \<Rightarrow> call_error + json"

definition agent_payload :: "chat_env \<Rightarrow> chat_runtime \<Rightarrow> chat_turn list \<Rightarrow> chat_turn \<Rightarrow> bool \<Rightarrow> call_error + json" where
  "agent_payload env rt history current streaming =
     (let c = tn_config_snapshot current in
      if rt_protocol rt \<noteq> ''openai_responses'' \<or> rt_api_key rt = [] then Inl (ProviderError False None)
      else Inr (JObj ([(''model'', JStr (rt_model rt)),
        (''instructions'', JStr (he_rules env c @ concat (map (he_skill env) (tn_skill_snapshot current)))),
        (''input'', JList (chat_messages (he_dumps env) history current)),
        (''text'', JObj [(''format'', JObj [(''type'', JStr ''json_schema''), (''name'', JStr ''auto_x_agent_reply''),
           (''strict'', JBool True), (''schema'', he_schema env)])]),
        (''max_output_tokens'', JInt (tc_max_output_tokens c)),
        (''reasoning'', JObj ((''effort'', JStr (tc_reasoning_effort c)) # (if streaming then [(''summary'', JStr ''auto'')] else []))),
        (''store'', JBool False)] @ (if streaming then [(''stream'', JBool True)] else []))))"

subsection \<open>The result\<close>

definition stripped :: "nat \<Rightarrow> nat \<Rightarrow> json \<Rightarrow> string option" where
  "stripped lo hi v =
     (case v of JStr t \<Rightarrow> (let u = strip t in if lo \<le> length u \<and> length u \<le> hi then Some u else None) | _ \<Rightarrow> None)"

definition agent_article :: "json \<Rightarrow> json option" where
  "agent_article v =
     (if v = JNull then Some JNull
      else if \<not> only_keys [''title'', ''excerpt'', ''content''] v then None
      else case (stripped 1 300 (jget v ''title''), stripped 0 2000 (jget v ''excerpt''), stripped 1 50000 (jget v ''content'')) of
        (Some t, Some e, Some c) \<Rightarrow> Some (JObj [(''title'', JStr t), (''excerpt'', JStr e), (''content'', JStr c)])
      | _ \<Rightarrow> None)"

record agent_result =
  rs_reply :: string
  rs_article :: json

definition agent_result_of :: "json \<Rightarrow> agent_result option" where
  "agent_result_of v =
     (if \<not> only_keys [''reply'', ''article''] v then None
      else case (stripped 1 20000 (jget v ''reply''), agent_article (jget_or v ''article'' (JBool False))) of
        (Some r, Some a) \<Rightarrow> Some \<lparr>rs_reply = r, rs_article = a\<rparr>
      | _ \<Rightarrow> None)"

text \<open>Iteration over \<open>v or []\<close>; \<open>None\<close> is a value that cannot be iterated.\<close>

definition iterated :: "json \<Rightarrow> json list option" where
  "iterated v =
     (if \<not> truthy v then Some []
      else case v of JList xs \<Rightarrow> Some xs | JStr s \<Rightarrow> Some (map (\<lambda>c. JStr [c]) s) | JObj kvs \<Rightarrow> Some (map (JStr \<circ> fst) kvs) | _ \<Rightarrow> None)"

fun refusal :: "json list \<Rightarrow> call_error + bool" where
  "refusal [] = Inr False"
| "refusal (x # xs) =
     (if \<not> is_dict x then refusal xs
      else case iterated (jget x ''content'') of
        None \<Rightarrow> Inl OtherError
      | Some items \<Rightarrow>
          (if list_ex (\<lambda>y. is_dict y \<and> jget y ''type'' = JStr ''refusal'') items then Inr True else refusal xs))"

definition validate_agent_response :: "(json \<Rightarrow> call_error + json) \<Rightarrow> json \<Rightarrow> call_error + agent_result" where
  "validate_agent_response extract raw =
     (if jget raw ''status'' \<notin> {JNull, JStr ''completed''} then Inl (ProviderError True None)
      else case iterated (jget raw ''output'') of
        None \<Rightarrow> Inl OtherError
      | Some items \<Rightarrow>
          (case refusal items of
             Inl e \<Rightarrow> Inl e
           | Inr True \<Rightarrow> Inl (ProviderError False None)
           | Inr False \<Rightarrow>
               (case extract raw of
                  Inl e \<Rightarrow> Inl e
                | Inr v \<Rightarrow> (case agent_result_of v of None \<Rightarrow> Inl (ProviderError True None) | Some r \<Rightarrow> Inr r))))"

definition generate_agent_reply :: "chat_env \<Rightarrow> (json \<Rightarrow> call_error + json) \<Rightarrow> chat_runtime \<Rightarrow> chat_turn list \<Rightarrow> chat_turn \<Rightarrow> call_error + agent_result" where
  "generate_agent_reply env post rt history current =
     (case agent_payload env rt history current False of
        Inl e \<Rightarrow> Inl e
      | Inr payload \<Rightarrow> (case post payload of Inl e \<Rightarrow> Inl e | Inr raw \<Rightarrow> validate_agent_response (he_extract env) raw))"

subsection \<open>Events for the browser\<close>

definition ev_status :: "string \<Rightarrow> string \<Rightarrow> json" where
  "ev_status phase label = JObj [(''type'', JStr ''status''), (''phase'', JStr phase), (''label'', JStr label)]"

definition delta_event :: "string \<Rightarrow> json \<Rightarrow> json option" where
  "delta_event kind payload = (case jget payload ''delta'' of JStr d \<Rightarrow> Some (JObj [(''type'', JStr kind), (''delta'', JStr d)]) | _ \<Rightarrow> None)"

text \<open>\<open>str(v or other)\<close>; the text of a value that is no string is a parameter.\<close>

definition str_or_default :: "(json \<Rightarrow> string) \<Rightarrow> json \<Rightarrow> string \<Rightarrow> string" where
  "str_or_default repr v other = (if truthy v then (case v of JStr t \<Rightarrow> t | _ \<Rightarrow> repr v) else other)"

definition tool_call :: "(string \<times> string) list \<Rightarrow> json \<Rightarrow> json" where
  "tool_call calls payload =
     (case jget payload ''item_id'' of
        JStr i \<Rightarrow> if calls \<noteq> [] then jstr_opt (map_of calls i) else jget payload ''call_id''
      | _ \<Rightarrow> jget payload ''call_id'')"

definition argument_event :: "(string \<times> string) list \<Rightarrow> string option \<Rightarrow> json \<Rightarrow> json option" where
  "argument_event calls active payload =
     (case jget payload ''delta'' of
        JStr d \<Rightarrow>
          Some (JObj ([(''type'', JStr ''tool''), (''phase'', JStr ''arguments''), (''delta'', JStr d)] @
            (case tool_call calls payload of
               JStr (c # cs) \<Rightarrow> [(''call_id'', JStr (take 120 (c # cs)))]
             | _ \<Rightarrow> (case active of Some (c # cs) \<Rightarrow> [(''call_id'', JStr (take 120 (c # cs)))] | _ \<Rightarrow> []))))
      | _ \<Rightarrow> None)"

definition stream_event :: "(json \<Rightarrow> string) \<Rightarrow> string \<Rightarrow> json \<Rightarrow> (string \<times> string) list \<Rightarrow> string option \<Rightarrow> json option" where
  "stream_event repr kind payload calls active =
     (if kind = ''response.reasoning_summary_text.delta'' then delta_event ''reasoning'' payload
      else if kind = ''response.output_text.delta'' then delta_event ''output'' payload
      else if kind = ''response.function_call_arguments.delta'' then argument_event calls active payload
      else if kind = ''response.output_item.added'' then
        (let item = jget payload ''item'' in
         if is_dict item \<and> jget item ''type'' = JStr ''function_call'' then
           Some (JObj [(''type'', JStr ''tool''), (''phase'', JStr ''started''),
             (''name'', JStr (take 120 (str_or_default repr (jget item ''name'') ''tool call''))),
             (''call_id'', JStr (take 120 (str_or_default repr (jget item ''call_id'') [])))])
         else if is_dict item \<and> jget item ''type'' = JStr ''reasoning'' then Some (ev_status ''thinking'' ''the model is thinking'')
         else None)
      else if kind = ''response.created'' then Some (ev_status ''thinking'' ''the model is thinking'')
      else if kind = ''response.in_progress'' then Some (ev_status ''thinking'' ''the model is thinking'')
      else if kind = ''response.completed'' then Some (ev_status ''finalizing'' ''preparing the reply'')
      else None)"

subsection \<open>The event stream\<close>

record sse_state =
  es_event :: string
  es_data :: "string list"
  es_text :: string
  es_final :: "json option"
  es_calls :: "(string \<times> string) list"
  es_active :: "string option"

definition sse_start :: sse_state where
  "sse_start = \<lparr>es_event = [], es_data = [], es_text = [], es_final = None, es_calls = [], es_active = None\<rparr>"

datatype sse_result = Go sse_state "json option" | StreamEnd | StreamError call_error

text \<open>A tool call that the model announces is remembered under the id of its item.\<close>

definition note_call :: "json \<Rightarrow> sse_state \<Rightarrow> sse_state" where
  "note_call payload st =
     (let item = jget payload ''item'' in
      if is_dict item \<and> jget item ''type'' = JStr ''function_call'' then
        (case jget item ''call_id'' of
           JStr (c # cs) \<Rightarrow>
             (let a = take 120 (c # cs) in
              case jor (jget item ''id'') (jget item ''item_id'') of
                JStr (i # is) \<Rightarrow> st\<lparr>es_active := Some a, es_calls := AList.update (i # is) a (es_calls st)\<rparr>
              | _ \<Rightarrow> st\<lparr>es_active := Some a\<rparr>)
         | _ \<Rightarrow> st)
      else st)"

definition sse_payload :: "(json \<Rightarrow> string) \<Rightarrow> json \<Rightarrow> sse_state \<Rightarrow> sse_result" where
  "sse_payload repr payload st =
     (let kind = str_or_default repr (jget payload ''type'') (es_event st) in
      if kind \<in> {''response.failed'', ''response.incomplete''} then StreamError (ProviderError True None)
      else
        (let st1 = (if kind = ''response.completed'' \<and> is_dict (jget payload ''response'')
                    then st\<lparr>es_final := Some (jget payload ''response'')\<rparr> else st);
             st2 = (if kind = ''response.output_item.added'' then note_call payload st1 else st1);
             st3 = (case jget payload ''delta'' of
                      JStr d \<Rightarrow> if kind = ''response.output_text.delta'' then st2\<lparr>es_text := es_text st2 @ d\<rparr> else st2
                    | _ \<Rightarrow> st2) in
         Go st3 (stream_event repr kind payload (es_calls st3) (es_active st3))))"

text \<open>\<open>event_name, data = "", []\<close> comes before the payload is read.\<close>

definition sse_line :: "(json \<Rightarrow> string) \<Rightarrow> (string \<Rightarrow> json option) \<Rightarrow> string \<Rightarrow> sse_state \<Rightarrow> sse_result" where
  "sse_line repr loads line st =
     (if starts_with '':'' line then Go st None
      else if starts_with ''event:'' line then Go (st\<lparr>es_event := strip (drop 6 line)\<rparr>) None
      else if starts_with ''data:'' line then Go (st\<lparr>es_data := es_data st @ [lstrip_by is_space (drop 5 line)]\<rparr>) None
      else if line \<noteq> [] \<or> es_data st = [] then Go st None
      else
        (let raw = join [CHR 10] (es_data st); st' = st\<lparr>es_event := [], es_data := []\<rparr> in
         if raw = ''[DONE]'' then StreamEnd
         else case loads raw of
           None \<Rightarrow> StreamError (ProviderError True None)
         | Some payload \<Rightarrow> if is_dict payload then sse_payload repr payload st' else Go st' None))"

text \<open>
  The lines of a response, and what ends them: the end of the body, or an error of the
  connection.
\<close>

fun sse_run :: "(json \<Rightarrow> string) \<Rightarrow> (string \<Rightarrow> json option) \<Rightarrow> string list \<Rightarrow> call_error option \<Rightarrow> sse_state \<Rightarrow> json list \<times> (call_error + sse_state)" where
  "sse_run repr loads [] stop st = ([], case stop of None \<Rightarrow> Inr st | Some e \<Rightarrow> Inl e)"
| "sse_run repr loads (l # ls) stop st =
     (case sse_line repr loads l st of
        Go st' ev \<Rightarrow> (case sse_run repr loads ls stop st' of (evs, r) \<Rightarrow> ((case ev of None \<Rightarrow> [] | Some x \<Rightarrow> [x]) @ evs, r))
      | StreamEnd \<Rightarrow> ([], Inr st)
      | StreamError e \<Rightarrow> ([], Inl e))"

definition final_response :: "sse_state \<Rightarrow> json" where
  "final_response st =
     (case es_final st of
        None \<Rightarrow> JObj [(''status'', JStr ''completed''), (''output_text'', JStr (es_text st))]
      | Some (JObj kvs) \<Rightarrow>
          if ''output_text'' \<notin> fst ` set kvs \<and> es_text st \<noteq> [] then JObj (kvs @ [(''output_text'', JStr (es_text st))]) else JObj kvs
      | Some v \<Rightarrow> v)"

text \<open>The events in their order and the result or the error after them.\<close>

definition stream_agent_reply :: "chat_env \<Rightarrow> (json \<Rightarrow> string) \<Rightarrow> (json \<Rightarrow> string list \<times> call_error option) \<Rightarrow> chat_runtime \<Rightarrow> chat_turn list \<Rightarrow> chat_turn \<Rightarrow>
    json list \<times> (call_error + agent_result)" where
  "stream_agent_reply env repr send rt history current =
     (case agent_payload env rt history current True of
        Inl e \<Rightarrow> ([], Inl e)
      | Inr payload \<Rightarrow>
          (case send payload of (ls, stop) \<Rightarrow>
             (case sse_run repr (he_loads env) ls stop sse_start of
                (evs, Inl e) \<Rightarrow> (ev_status ''connecting'' ''connecting to the model'' # evs, Inl e)
              | (evs, Inr st) \<Rightarrow>
                  (case validate_agent_response (he_extract env) (final_response st) of
                     Inl e \<Rightarrow> (ev_status ''connecting'' ''connecting to the model'' # evs, Inl e)
                   | Inr r \<Rightarrow> (ev_status ''connecting'' ''connecting to the model'' # evs @ [ev_status ''completed'' ''generation complete''], Inr r)))))"

end
