(* ===== verification/AgentChat.thy ===== *)
theory AgentChat
  imports AgentStream
begin

text \<open>
  Conversations with the chat agent: the routes of \<open>backend/app/api/routes/agent_chat.py\<close>, the
  worker \<open>services/agent_chat_worker.py\<close> and the deletion of old conversations
  \<open>services/agent_chat_cleanup.py\<close>. A turn is a message with its answer; while the worker
  generates the answer it appends events to a stream in Redis that the browser replays.
\<close>

subsection \<open>State\<close>

record chat_world =
  cw_db :: agent_db
  cw_streams :: "string \<Rightarrow> json list option"

definition turn_get :: "string \<Rightarrow> agent_db \<Rightarrow> chat_turn option" where
  "turn_get t s = row_get tn_id t (ag_turns s)"

definition put_turn :: "chat_turn \<Rightarrow> agent_db \<Rightarrow> agent_db" where
  "put_turn t s = s\<lparr>ag_turns := row_put tn_id t (ag_turns s)\<rparr>"

definition put_conversation :: "conversation \<Rightarrow> agent_db \<Rightarrow> agent_db" where
  "put_conversation c s = s\<lparr>ag_conversations := row_put cv_id c (ag_conversations s)\<rparr>"

definition turns_of :: "string \<Rightarrow> agent_db \<Rightarrow> chat_turn list" where
  "turns_of c s = filter (\<lambda>t. tn_conversation_id t = c) (ag_turns s)"

definition chat_active :: "chat_turn \<Rightarrow> bool" where
  "chat_active t \<longleftrightarrow> tn_status t \<in> {''queued'', ''running''}"

subsection \<open>Routes\<close>

definition owned_conversation :: "string \<Rightarrow> int \<Rightarrow> agent_db \<Rightarrow> api_error + conversation" where
  "owned_conversation c admin s =
     (case row_get cv_id c (ag_conversations s) of
        None \<Rightarrow> Inl (NotFound ''conversation_not_found'')
      | Some cv \<Rightarrow> if cv_admin_id cv = admin then Inr cv else Inl (NotFound ''conversation_not_found''))"

definition owned_turn :: "string \<Rightarrow> string \<Rightarrow> int \<Rightarrow> agent_db \<Rightarrow> api_error + conversation \<times> chat_turn" where
  "owned_turn c t admin s =
     (case owned_conversation c admin s of
        Inl e \<Rightarrow> Inl e
      | Inr cv \<Rightarrow>
          (case turn_get t s of
             None \<Rightarrow> Inl (NotFound ''turn_not_found'')
           | Some x \<Rightarrow> if tn_conversation_id x = c then Inr (cv, x) else Inl (NotFound ''turn_not_found'')))"

definition generation_config :: "db \<Rightarrow> api_error + chat_config" where
  "generation_config d =
     (case ai_ready d of
        None \<Rightarrow> Inl (Conflict ''ai_disabled'')
      | Some st \<Rightarrow>
          Inr \<lparr>tc_language = st_language st, tc_tone = st_tone st, tc_reasoning_effort = st_reasoning_effort st,
               tc_max_output_tokens = st_max_output_tokens st, tc_timeout_seconds = st_request_timeout_seconds st\<rparr>)"

definition new_title :: string where
  "new_title = ''new conversation''"

definition create_conversation :: "time \<Rightarrow> string \<Rightarrow> int \<Rightarrow> agent_db \<Rightarrow> agent_db" where
  "create_conversation now fresh admin s = s\<lparr>ag_conversations := ag_conversations s @
     [\<lparr>cv_id = fresh, cv_admin_id = admin, cv_title = new_title, cv_created_at = now, cv_updated_at = now\<rparr>]\<rparr>"

record message_input =
  mi_request_id :: string
  mi_content :: string
  mi_skill_ids :: "int list"

definition checked_message :: "message_input \<Rightarrow> message_input option" where
  "checked_message p =
     (if 1 \<le> length (mi_content p) \<and> length (mi_content p) \<le> 20000 \<and> strip (mi_content p) \<noteq> [] \<and>
         length (mi_skill_ids p) \<le> 20 \<and> list_all (\<lambda>i. 0 < i) (mi_skill_ids p) \<and> distinct (mi_skill_ids p)
      then Some (p\<lparr>mi_content := strip (mi_content p)\<rparr>) else None)"

definition next_sequence :: "string \<Rightarrow> agent_db \<Rightarrow> nat" where
  "next_sequence c s = Max (insert 0 (tn_sequence ` set (turns_of c s))) + 1"

definition max_references :: nat where
  "max_references = 160000"

definition chat_skills :: "(int list \<Rightarrow> skill list option) \<Rightarrow> int list \<Rightarrow> api_error + skill list" where
  "chat_skills resolve ids =
     (case (if ids = [] then Some [] else resolve ids) of
        None \<Rightarrow> Inl (Unavailable ''skill_service_unavailable'')
      | Some sks \<Rightarrow>
          (if map sk_id sks \<noteq> ids then Inl (Unprocessable ''invalid_references'')
           else if max_references < sum_list (map (length \<circ> sk_instructions) sks) then Inl (Unprocessable ''references_too_large'')
           else Inr sks))"

definition new_turn :: "time \<Rightarrow> string \<Rightarrow> string \<Rightarrow> message_input \<Rightarrow> nat \<Rightarrow> skill list \<Rightarrow> chat_config \<Rightarrow> chat_turn" where
  "new_turn now fresh c p sequence sks cfg =
     \<lparr>tn_id = fresh, tn_conversation_id = c, tn_request_id = mi_request_id p, tn_sequence = sequence, tn_content = mi_content p,
      tn_skill_snapshot = sks, tn_config_snapshot = cfg, tn_status = ''queued'', tn_attempts = 0, tn_claim_token = None,
      tn_lease_expires_at = None, tn_reply = None, tn_article = JNull, tn_error = None, tn_article_id = None,
      tn_created_at = now, tn_updated_at = now\<rparr>"

definition previous_turn :: "string \<Rightarrow> message_input \<Rightarrow> agent_db \<Rightarrow> chat_turn option" where
  "previous_turn c p s = find (\<lambda>t. tn_request_id t = mi_request_id p) (turns_of c s)"

definition send_message :: "(int list \<Rightarrow> skill list option) \<Rightarrow> time \<Rightarrow> string \<Rightarrow> string \<Rightarrow> int \<Rightarrow> message_input \<Rightarrow> agent_db \<Rightarrow>
    api_error + agent_db \<times> chat_turn" where
  "send_message resolve now fresh c admin p s =
     (case owned_conversation c admin s of
        Inl e \<Rightarrow> Inl e
      | Inr cv \<Rightarrow>
          (case previous_turn c p s of
             Some t \<Rightarrow>
               (if tn_content t \<noteq> mi_content p \<or> map sk_id (tn_skill_snapshot t) \<noteq> mi_skill_ids p then Inl (Conflict ''request_conflict'')
                else Inr (s, t))
           | None \<Rightarrow>
               (if list_ex chat_active (turns_of c s) then Inl (Conflict ''conversation_busy'')
                else if 100 < next_sequence c s then Inl (Conflict ''conversation_full'')
                else case generation_config (ag_db s) of
                  Inl e \<Rightarrow> Inl e
                | Inr cfg \<Rightarrow>
                    (case chat_skills resolve (mi_skill_ids p) of
                       Inl e \<Rightarrow> Inl e
                     | Inr sks \<Rightarrow>
                         (let n = next_sequence c s; t = new_turn now fresh c p n sks cfg in
                          Inr (put_conversation (cv\<lparr>cv_title := (if n = 1 then take 120 (mi_content p) else cv_title cv), cv_updated_at := now\<rparr>)
                                 (s\<lparr>ag_turns := ag_turns s @ [t]\<rparr>), t))))))"

definition cancel_message :: "time \<Rightarrow> string \<Rightarrow> string \<Rightarrow> int \<Rightarrow> agent_db \<Rightarrow> api_error + agent_db" where
  "cancel_message now c t admin s =
     (case owned_turn c t admin s of
        Inl e \<Rightarrow> Inl e
      | Inr (cv, x) \<Rightarrow>
          (if \<not> chat_active x then Inr s
           else Inr (put_conversation (cv\<lparr>cv_updated_at := now\<rparr>)
             (put_turn (x\<lparr>tn_status := ''cancelled'', tn_claim_token := None, tn_lease_expires_at := None, tn_updated_at := now\<rparr>) s))))"

definition retry_message :: "time \<Rightarrow> string \<Rightarrow> string \<Rightarrow> int \<Rightarrow> agent_db \<Rightarrow> api_error + agent_db" where
  "retry_message now c t admin s =
     (case owned_turn c t admin s of
        Inl e \<Rightarrow> Inl e
      | Inr (cv, x) \<Rightarrow>
          (if tn_sequence x + 1 \<noteq> next_sequence c s \<or> tn_status x \<notin> {''failed'', ''cancelled''} then Inl (Conflict ''retry_not_allowed'')
           else case generation_config (ag_db s) of
             Inl e \<Rightarrow> Inl e
           | Inr cfg \<Rightarrow>
               Inr (put_conversation (cv\<lparr>cv_updated_at := now\<rparr>)
                 (put_turn (x\<lparr>tn_config_snapshot := cfg, tn_status := ''queued'', tn_error := None, tn_claim_token := None,
                             tn_lease_expires_at := None, tn_updated_at := now\<rparr>) s))))"

definition turn_draft :: "time \<Rightarrow> int \<Rightarrow> chat_turn \<Rightarrow> draft" where
  "turn_draft now i t =
     \<lparr>dr_id = i, dr_job_id = None, dr_source_tweet_id = None, dr_article_source = ''ai'',
      dr_title = json_text_or (jget (tn_article t) ''title''), dr_content = json_text_or (jget (tn_article t) ''content''),
      dr_excerpt = Some (json_text_or (jget (tn_article t) ''excerpt'')), dr_images = [],
      dr_publish_status = ''unpublished'', dr_publish_channel = None, dr_publish_attempt_id = None, dr_publish_error = None,
      dr_published_at = None,
      dr_draft_metadata = JObj [(''agent_conversation_id'', JStr (tn_conversation_id t)), (''agent_turn_id'', JStr (tn_id t))],
      dr_revision = 1, dr_created_at = now, dr_updated_at = now\<rparr>"

definition save_turn_article :: "time \<Rightarrow> string \<Rightarrow> string \<Rightarrow> int \<Rightarrow> agent_db \<Rightarrow> api_error + agent_db \<times> int" where
  "save_turn_article now c t admin s =
     (case owned_turn c t admin s of
        Inl e \<Rightarrow> Inl e
      | Inr (cv, x) \<Rightarrow>
          (if tn_status x \<noteq> ''succeeded'' \<or> \<not> truthy (tn_article x) then Inl (Conflict ''article_unavailable'')
           else case tn_article_id x of
             Some a \<Rightarrow> Inr (s, a)
           | None \<Rightarrow>
               (let a = serial (ag_db s) in
                Inr (put_turn (x\<lparr>tn_article_id := Some a\<rparr>)
                       (s\<lparr>ag_db := (ag_db s)\<lparr>drafts := drafts (ag_db s) @ [turn_draft now a x], serial := a + 1\<rparr>\<rparr>), a))))"

subsection \<open>Deletion\<close>

definition delete_conversation_rows :: "string list \<Rightarrow> agent_db \<Rightarrow> agent_db \<times> string list" where
  "delete_conversation_rows ids s =
     (s\<lparr>ag_turns := filter (\<lambda>t. tn_conversation_id t \<notin> set ids) (ag_turns s),
        ag_conversations := filter (\<lambda>c. cv_id c \<notin> set ids) (ag_conversations s)\<rparr>,
      map tn_id (filter (\<lambda>t. tn_conversation_id t \<in> set ids) (ag_turns s)))"

text \<open>Redis deletes the streams in batches of 500; a failure ends the deletion after some of them.\<close>

definition stream_batch :: nat where
  "stream_batch = 500"

definition delete_event_streams :: "nat option \<Rightarrow> string list \<Rightarrow> chat_world \<Rightarrow> chat_world" where
  "delete_event_streams fails ids w =
     (let gone = (case fails of None \<Rightarrow> ids | Some k \<Rightarrow> take (k * stream_batch) ids) in
      w\<lparr>cw_streams := (\<lambda>i. if i \<in> set gone then None else cw_streams w i)\<rparr>)"

definition delete_conversation :: "(chat_world \<Rightarrow> chat_world) \<Rightarrow> nat option \<Rightarrow> string \<Rightarrow> int \<Rightarrow> chat_world \<Rightarrow> api_error + chat_world" where
  "delete_conversation between fails c admin w =
     (case owned_conversation c admin (cw_db w) of
        Inl e \<Rightarrow> Inl e
      | Inr cv \<Rightarrow>
          (case delete_conversation_rows [c] (cw_db w) of
             (s, ids) \<Rightarrow> Inr (delete_event_streams fails ids (between (w\<lparr>cw_db := s\<rparr>)))))"

subsection \<open>Retention\<close>

text \<open>The value of the remote configuration; \<open>None\<close> is that the document lacks it.\<close>

definition parse_retention :: "json option \<Rightarrow> int option" where
  "parse_retention v =
     (case v of
        None \<Rightarrow> Some 7
      | Some j \<Rightarrow>
          (if j = JNull then Some 7
           else let t = (case j of JInt n \<Rightarrow> show_int n | JStr s \<Rightarrow> strip s | _ \<Rightarrow> []) in
             if t = [] \<or> \<not> list_all is_digit t then None
             else let n = int (read_nat 0 t) in if 1 \<le> n \<and> n \<le> 3650 then Some n else None))"

text \<open>\<open>remote = None\<close>: the settings name no configuration service; \<open>Some None\<close>: the document is missing.\<close>

definition retention_days :: "int \<Rightarrow> json option option option \<Rightarrow> int option" where
  "retention_days configured remote =
     (case remote of None \<Rightarrow> Some configured | Some None \<Rightarrow> None | Some (Some v) \<Rightarrow> parse_retention v)"

definition protected_turn :: "time \<Rightarrow> chat_turn \<Rightarrow> bool" where
  "protected_turn cutoff t \<longleftrightarrow> chat_active t \<or> cutoff \<le> tn_updated_at t"

definition cleanup_batch :: nat where
  "cleanup_batch = 100"

definition expired_conversations :: "(string \<Rightarrow> bool) \<Rightarrow> time \<Rightarrow> agent_db \<Rightarrow> string list" where
  "expired_conversations locked cutoff s =
     map cv_id (take cleanup_batch (sort_key (\<lambda>c. (cv_updated_at c, cv_id c))
       (filter (\<lambda>c. cv_updated_at c < cutoff \<and> \<not> list_ex (protected_turn cutoff) (turns_of (cv_id c) s) \<and> \<not> locked (cv_id c))
         (ag_conversations s))))"

definition retention_span :: "int \<Rightarrow> time" where
  "retention_span n = secs (86400 * n)"

definition cleanup_once :: "(chat_world \<Rightarrow> chat_world) \<Rightarrow> nat option \<Rightarrow> (string \<Rightarrow> bool) \<Rightarrow> int option \<Rightarrow> time \<Rightarrow> chat_world \<Rightarrow> (chat_world \<times> nat) option" where
  "cleanup_once between fails locked retention now w =
     (case retention of
        None \<Rightarrow> None
      | Some n \<Rightarrow>
          (let ids = expired_conversations locked (now - retention_span n) (cw_db w) in
           case delete_conversation_rows ids (cw_db w) of
             (s, turn_ids) \<Rightarrow> Some (delete_event_streams fails turn_ids (between (w\<lparr>cw_db := s\<rparr>)), length ids)))"

subsection \<open>The worker\<close>

definition interrupted :: msg where
  "interrupted = Lit ''generation was interrupted or timed out'' []"

definition turn_expired :: "time \<Rightarrow> chat_turn \<Rightarrow> bool" where
  "turn_expired now t \<longleftrightarrow> tn_status t = ''running'' \<and> (case tn_lease_expires_at t of None \<Rightarrow> False | Some l \<Rightarrow> l \<le> now)"

definition expire_turns :: "time \<Rightarrow> agent_db \<Rightarrow> agent_db" where
  "expire_turns now s =
     s\<lparr>ag_turns := row_update (turn_expired now)
        (\<lambda>t. t\<lparr>tn_status := ''failed'', tn_error := Some interrupted, tn_claim_token := None, tn_lease_expires_at := None, tn_updated_at := now\<rparr>)
        (ag_turns s)\<rparr>"

definition scan_turns :: "ai_worker_cfg \<Rightarrow> time \<Rightarrow> agent_db \<Rightarrow> agent_db \<times> string list" where
  "scan_turns cfg now s =
     (let s1 = expire_turns now s in
      (s1, map tn_id (row_select (\<lambda>t. tn_status t = ''queued'') tn_created_at (nat (ai_worker_max_concurrency cfg)) (ag_turns s1))))"

text \<open>The claim reads the turn before the update; another process may act between the two.\<close>

record turn_claim =
  tk_turn :: chat_turn
  tk_attempt :: int
  tk_timeout :: int

definition read_claim :: "string \<Rightarrow> agent_db \<Rightarrow> turn_claim option" where
  "read_claim i s =
     (case turn_get i s of
        None \<Rightarrow> None
      | Some t \<Rightarrow>
          (if tn_status t \<noteq> ''queued'' then None
           else Some \<lparr>tk_turn = t, tk_attempt = tn_attempts t + 1, tk_timeout = tc_timeout_seconds (tn_config_snapshot t) + 15\<rparr>))"

definition claim_turn :: "time \<Rightarrow> string \<Rightarrow> turn_claim \<Rightarrow> agent_db \<Rightarrow> agent_db \<times> bool" where
  "claim_turn now token k s =
     (let mine = (\<lambda>t. tn_id t = tn_id (tk_turn k) \<and> tn_status t = ''queued'') in
      (s\<lparr>ag_turns := row_update mine
          (\<lambda>t. t\<lparr>tn_status := ''running'', tn_claim_token := Some token, tn_attempts := tn_attempts t + 1,
                 tn_lease_expires_at := Some (now + secs (tk_timeout k + 30)), tn_updated_at := now\<rparr>) (ag_turns s)\<rparr>,
       rowcount mine (ag_turns s) = 1))"

definition holds_turn :: "time \<Rightarrow> string \<Rightarrow> string \<Rightarrow> chat_turn \<Rightarrow> bool" where
  "holds_turn now token i t \<longleftrightarrow> tn_id t = i \<and> tn_status t = ''running'' \<and> tn_claim_token t = Some token \<and>
     (case tn_lease_expires_at t of None \<Rightarrow> False | Some l \<Rightarrow> now < l)"

datatype turn_values = Answered agent_result | Requeued | Refused msg

fun finished_turn :: "time \<Rightarrow> turn_values \<Rightarrow> chat_turn \<Rightarrow> chat_turn" where
  "finished_turn now (Answered r) t = t\<lparr>tn_status := ''succeeded'', tn_reply := Some (rs_reply r), tn_article := rs_article r, tn_error := None,
     tn_claim_token := None, tn_lease_expires_at := None, tn_updated_at := now\<rparr>"
| "finished_turn now Requeued t = t\<lparr>tn_status := ''queued'', tn_error := None, tn_claim_token := None, tn_lease_expires_at := None,
     tn_updated_at := now\<rparr>"
| "finished_turn now (Refused e) t = t\<lparr>tn_status := ''failed'', tn_error := Some e, tn_claim_token := None, tn_lease_expires_at := None,
     tn_updated_at := now\<rparr>"

definition finish_turn :: "time \<Rightarrow> string \<Rightarrow> string \<Rightarrow> turn_values \<Rightarrow> agent_db \<Rightarrow> agent_db \<times> bool" where
  "finish_turn now token i v s =
     (s\<lparr>ag_turns := row_update (holds_turn now token i) (finished_turn now v) (ag_turns s)\<rparr>,
      rowcount (holds_turn now token i) (ag_turns s) = 1)"

text \<open>
  An event is appended while the row of its turn is locked; \<open>None\<close> is that the turn is gone or
  that a later attempt has begun. \<open>trim\<close> is how Redis shortens a long stream, \<open>stored\<close> whether
  its transaction succeeded.
\<close>

definition publish_event :: "(json list \<Rightarrow> json list) \<Rightarrow> bool \<Rightarrow> string \<Rightarrow> string \<Rightarrow> int \<Rightarrow> json \<Rightarrow> chat_world \<Rightarrow> chat_world option" where
  "publish_event trim stored stamp i attempt ev w =
     (if \<not> list_ex (\<lambda>t. tn_id t = i \<and> tn_attempts t = attempt) (ag_turns (cw_db w)) then None
      else if \<not> stored then Some w
      else
        (let payload = JObj ((case ev of JObj kvs \<Rightarrow> kvs | _ \<Rightarrow> []) @
               [(''turn_id'', JStr i), (''timestamp'', JStr stamp), (''attempts'', JInt attempt)]);
             old = (case cw_streams w i of None \<Rightarrow> [] | Some evs \<Rightarrow> evs) in
         Some (w\<lparr>cw_streams := (cw_streams w)(i := Some (trim (old @ [payload])))\<rparr>)))"

text \<open>The succeeded turns before the current one.\<close>

definition chat_history :: "chat_turn \<Rightarrow> agent_db \<Rightarrow> chat_turn list" where
  "chat_history t s =
     sort_key tn_sequence (filter (\<lambda>x. tn_sequence x < tn_sequence t \<and> tn_status x = ''succeeded'') (turns_of (tn_conversation_id t) s))"

text \<open>
  What happens around one attempt: other transactions before the \<open>k\<close>-th of its own, the clock,
  Redis, the data source and the reply. \<open>to_cut\<close> is the timeout or the shutdown that strikes after
  some events of the reply.
\<close>

datatype cut = Timeout | Shutdown

record turn_io =
  to_gap :: "nat \<Rightarrow> chat_world \<Rightarrow> chat_world"
  to_claimed :: time
  to_finished :: time
  to_trim :: "json list \<Rightarrow> json list"
  to_stored :: "nat \<Rightarrow> bool"
  to_stamp :: "nat \<Rightarrow> string"
  to_source :: "db \<Rightarrow> chat_runtime option"
  to_reply :: "chat_runtime \<Rightarrow> chat_turn list \<Rightarrow> chat_turn \<Rightarrow> json list \<times> (call_error + agent_result)"
  to_cut :: "(nat \<times> cut) option"

fun chat_error :: "call_error \<Rightarrow> msg" where
  "chat_error SourceUnavailable = Lit ''AI is disabled or its data source is unavailable'' []"
| "chat_error TimedOut = Lit ''the model request timed out'' []"
| "chat_error (ProviderError _ (Some st)) =
     (if st = 0 then Lit ''the reply of the model failed or is incomplete'' [] else Lit ''the request to the model failed'' [show_nat st])"
| "chat_error (ProviderError _ None) = Lit ''the reply of the model failed or is incomplete'' []"
| "chat_error (LocalError _ _) = Lit ''the reply of the model failed or is incomplete'' []"
| "chat_error OtherError = Lit ''generation failed'' []"

fun emits :: "turn_io \<Rightarrow> string \<Rightarrow> int \<Rightarrow> nat \<Rightarrow> json list \<Rightarrow> chat_world \<Rightarrow> chat_world \<times> bool" where
  "emits io i attempt k [] w = (w, True)"
| "emits io i attempt k (ev # evs) w =
     (let w1 = to_gap io k w in
      case publish_event (to_trim io) (to_stored io k) (to_stamp io k) i attempt ev w1 of
        None \<Rightarrow> (w1, False)
      | Some w2 \<Rightarrow> emits io i attempt (Suc k) evs w2)"

text \<open>The events and the outcome of the guarded part; \<open>None\<close> as outcome is the shutdown.\<close>

definition attempt_reply :: "turn_io \<Rightarrow> chat_turn \<Rightarrow> agent_db \<Rightarrow> json list \<times> (call_error + agent_result) option" where
  "attempt_reply io t s =
     (case (if ai_ready (ag_db s) = None then None else to_source io (ag_db s)) of
        None \<Rightarrow> ([], Some (Inl SourceUnavailable))
      | Some rt \<Rightarrow>
          (case to_reply io rt (chat_history t s) t of
             (evs, r) \<Rightarrow>
               (case to_cut io of
                  None \<Rightarrow> (evs, Some r)
                | Some (k, Timeout) \<Rightarrow> (take k evs, Some (Inl TimedOut))
                | Some (k, Shutdown) \<Rightarrow> (take k evs, None))))"

definition outcome_values :: "(call_error + agent_result) option \<Rightarrow> turn_values" where
  "outcome_values r = (case r of None \<Rightarrow> Requeued | Some (Inl e) \<Rightarrow> Refused (chat_error e) | Some (Inr a) \<Rightarrow> Answered a)"

definition outcome_events :: "(call_error + agent_result) option \<Rightarrow> json list" where
  "outcome_events r =
     (case r of
        None \<Rightarrow> []
      | Some (Inl e) \<Rightarrow> [JObj [(''type'', JStr ''error''), (''phase'', JStr ''failed'')]]
      | Some (Inr a) \<Rightarrow> [JObj [(''type'', JStr ''done''), (''status'', JStr ''succeeded'')]])"

definition process_turn :: "turn_io \<Rightarrow> string \<Rightarrow> string \<Rightarrow> chat_world \<Rightarrow> chat_world" where
  "process_turn io token i w =
     (case read_claim i (cw_db w) of
        None \<Rightarrow> w
      | Some k \<Rightarrow>
          (let w1 = to_gap io 0 w; c = claim_turn (to_claimed io) token k (cw_db w1); w2 = w1\<lparr>cw_db := fst c\<rparr> in
           if \<not> snd c then w2
           else case emits io i (tk_attempt k) 1 [ev_status ''preparing'' ''preparing the context''] w2 of
             (w3, False) \<Rightarrow> w3
           | (w3, True) \<Rightarrow>
               (let w4 = to_gap io 2 w3; reply = attempt_reply io (tk_turn k) (cw_db w4) in
                case emits io i (tk_attempt k) 3 (fst reply) w4 of
                  (w5, False) \<Rightarrow> w5
                | (w5, True) \<Rightarrow>
                    (let n = 3 + length (fst reply); w6 = to_gap io n w5;
                         f = finish_turn (to_finished io) token i (outcome_values (snd reply)) (cw_db w6); w7 = w6\<lparr>cw_db := fst f\<rparr> in
                     if snd f then fst (emits io i (tk_attempt k) (Suc n) (outcome_events (snd reply)) w7) else w7))))"

subsection \<open>The stream for the browser\<close>

definition terminal_status :: "string \<Rightarrow> agent_db \<Rightarrow> string option" where
  "terminal_status i s =
     (case turn_get i s of
        None \<Rightarrow> Some ''deleted''
      | Some t \<Rightarrow> if tn_status t \<in> {''succeeded'', ''failed'', ''cancelled''} then Some (tn_status t) else None)"

definition minimum_attempts :: "chat_turn \<Rightarrow> int" where
  "minimum_attempts t = (if tn_status t = ''queued'' then tn_attempts t + 1 else tn_attempts t)"

definition relayed :: "string \<Rightarrow> int \<Rightarrow> json list \<Rightarrow> json list" where
  "relayed i least evs = filter (\<lambda>e. jget e ''turn_id'' = JStr i \<and>
     (case jget_or e ''attempts'' (JInt least) of JInt a \<Rightarrow> least \<le> a | _ \<Rightarrow> False) \<and>
     (case jget e ''type'' of JStr _ \<Rightarrow> True | _ \<Rightarrow> False)) evs"

definition ends_stream :: "json \<Rightarrow> bool" where
  "ends_stream e \<longleftrightarrow> jget e ''type'' \<in> {JStr ''done'', JStr ''error''}"

definition done_frames :: "string \<Rightarrow> string \<Rightarrow> json list" where
  "done_frames i st =
     (if st = ''deleted'' then [JObj [(''type'', JStr ''deleted''), (''turn_id'', JStr i)]]
      else [JObj [(''status'', JStr st), (''phase'', JStr st), (''label'', JStr st)], JObj [(''status'', JStr st), (''turn_id'', JStr i)]])"

text \<open>The replay stops at the first closing event.\<close>

fun until_end :: "json list \<Rightarrow> json list \<times> bool" where
  "until_end [] = ([], False)"
| "until_end (e # es) = (if ends_stream e then ([e], True) else (case until_end es of (xs, b) \<Rightarrow> (e # xs, b)))"

definition keepalive :: json where
  "keepalive = JNull"

text \<open>
  After the replay, each turn reads new events and then the status of the turn; a batch ends the
  stream when its last event is a closing one. The second component tells whether it has ended.
\<close>

fun follow :: "string \<Rightarrow> int \<Rightarrow> (json list \<times> string option) list \<Rightarrow> json list \<times> bool" where
  "follow i least [] = ([], False)"
| "follow i least ((evs, st) # reads) =
     (let frames = relayed i least evs in
      if frames \<noteq> [] \<and> ends_stream (last frames) then (frames, True)
      else case st of
        Some x \<Rightarrow> (frames @ done_frames i x, True)
      | None \<Rightarrow> (case follow i least reads of (xs, b) \<Rightarrow> (frames @ keepalive # xs, b)))"

definition stream_message :: "string \<Rightarrow> chat_turn \<Rightarrow> json list \<Rightarrow> string option \<Rightarrow> (json list \<times> string option) list \<Rightarrow> json list \<times> bool" where
  "stream_message i t replay st reads =
     (let start = JObj [(''turn_id'', JStr (tn_id t)), (''status'', JStr (tn_status t)), (''phase'', JStr (tn_status t))];
          least = minimum_attempts t in
      if tn_status t \<in> {''succeeded'', ''failed'', ''cancelled''}
      then ([start, JObj [(''status'', JStr (tn_status t)), (''turn_id'', JStr i)]], True)
      else case until_end (relayed i least replay) of
        (frames, True) \<Rightarrow> (start # frames, True)
      | (frames, False) \<Rightarrow>
          (case st of
             Some x \<Rightarrow> (start # frames @ done_frames i x, True)
           | None \<Rightarrow> (case follow i least reads of (xs, b) \<Rightarrow> (start # frames @ xs, b))))"

end
