(* ===== verification/ChatSafety.thy ===== *)
theory ChatSafety
  imports AgentChat
begin

text \<open>
  Conversations under any interleaving of routes, workers, clean-ups and Redis. A step is one
  transaction or one command of Redis; its events tell which turns are created and claimed and which conversations are deleted.
\<close>

subsection \<open>Steps\<close>

datatype chat_event = Sent string | Claimed string | Deleted "string list"

inductive chat_step :: "chat_event list \<Rightarrow> chat_world \<Rightarrow> chat_world \<Rightarrow> bool" where
  open_new: "fresh \<notin> cv_id ` set (ag_conversations (cw_db w)) \<Longrightarrow> chat_step [] w (w\<lparr>cw_db := create_conversation now fresh admin (cw_db w)\<rparr>)"
| send: "send_message resolve now fresh c admin p (cw_db w) = Inr (s', t) \<Longrightarrow> fresh \<notin> tn_id ` set (ag_turns (cw_db w)) \<Longrightarrow>
    chat_step [Sent (tn_id t)] w (w\<lparr>cw_db := s'\<rparr>)"
| cancel: "cancel_message now c i admin (cw_db w) = Inr s' \<Longrightarrow> chat_step [] w (w\<lparr>cw_db := s'\<rparr>)"
| retry: "retry_message now c i admin (cw_db w) = Inr s' \<Longrightarrow> chat_step [] w (w\<lparr>cw_db := s'\<rparr>)"
| save: "save_turn_article now c i admin (cw_db w) = Inr (s', a) \<Longrightarrow> chat_step [] w (w\<lparr>cw_db := s'\<rparr>)"
| delete: "chat_step [Deleted ids] w (w\<lparr>cw_db := fst (delete_conversation_rows ids (cw_db w))\<rparr>)"
| forget: "chat_step [] w (delete_event_streams fails ids w)"
| evict: "chat_step [] w (w\<lparr>cw_streams := (cw_streams w)(i := None)\<rparr>)"
| expire: "chat_step [] w (w\<lparr>cw_db := expire_turns now (cw_db w)\<rparr>)"
| claim: "claim_turn now token k (cw_db w) = (s', True) \<Longrightarrow> chat_step [Claimed (tn_id (tk_turn k))] w (w\<lparr>cw_db := s'\<rparr>)"
| finish: "chat_step [] w (w\<lparr>cw_db := fst (finish_turn now token i v (cw_db w))\<rparr>)"
| publish: "publish_event trim stored stamp i attempt ev w = Some w' \<Longrightarrow> chat_step [] w w'"
| elsewhere: "ag_turns s' = ag_turns (with_db d (cw_db w)) \<Longrightarrow> ag_conversations s' = ag_conversations (cw_db w) \<Longrightarrow>
    chat_step [] w (w\<lparr>cw_db := s'\<rparr>)"

inductive chat_run :: "chat_event list \<Rightarrow> chat_world \<Rightarrow> chat_world \<Rightarrow> bool" where
  rest: "chat_run [] w w"
| next_step: "chat_run es w w' \<Longrightarrow> chat_step e w' w'' \<Longrightarrow> chat_run (es @ e) w w''"

lemma chat_run_one: "chat_step e w w' \<Longrightarrow> chat_run e w w'"
  using next_step [OF rest] by fastforce

lemma chat_run_append: "chat_run es' w' w'' \<Longrightarrow> chat_run es w w' \<Longrightarrow> chat_run (es @ es') w w''"
  by (induction rule: chat_run.induct) (auto simp: append_assoc [symmetric] simp del: append_assoc intro: chat_run.next_step)

subsection \<open>Turns\<close>

definition turn_core :: "chat_turn \<Rightarrow> chat_turn" where
  "turn_core t = t\<lparr>tn_article_id := None\<rparr>"

definition turn_key :: "chat_turn \<Rightarrow> string \<times> string \<times> string \<times> nat" where
  "turn_key t = (tn_id t, tn_conversation_id t, tn_request_id t, tn_sequence t)"

text \<open>What a transaction may do to a stored turn; \<open>latest\<close> are the last turns of their conversations.\<close>

inductive turn_move :: "chat_event list \<Rightarrow> chat_turn set \<Rightarrow> chat_turn \<Rightarrow> chat_turn \<Rightarrow> bool" for e latest where
  link: "turn_core t' = turn_core t \<Longrightarrow> turn_move e latest t t'"
| stop: "chat_active t \<Longrightarrow> turn_key t' = turn_key t \<Longrightarrow> tn_status t' \<in> {''cancelled'', ''failed''} \<Longrightarrow> turn_move e latest t t'"
| again: "tn_status t \<in> {''failed'', ''cancelled''} \<Longrightarrow> turn_key t' = turn_key t \<Longrightarrow> tn_status t' = ''queued'' \<Longrightarrow> t \<in> latest \<Longrightarrow>
    turn_move e latest t t'"
| take: "tn_status t = ''queued'' \<Longrightarrow> turn_key t' = turn_key t \<Longrightarrow> tn_status t' = ''running'' \<Longrightarrow> Claimed (tn_id t) \<in> set e \<Longrightarrow>
    turn_move e latest t t'"
| give: "tn_status t = ''running'' \<Longrightarrow> turn_key t' = turn_key t \<Longrightarrow> turn_move e latest t t'"

definition latest_turns :: "agent_db \<Rightarrow> chat_turn set" where
  "latest_turns s = {t. \<forall>x \<in> set (ag_turns s). tn_conversation_id x = tn_conversation_id t \<longrightarrow> tn_sequence x \<le> tn_sequence t}"

text \<open>A new turn: the next one of a conversation without an active turn.\<close>

definition turn_new :: "chat_event list \<Rightarrow> agent_db \<Rightarrow> chat_turn \<Rightarrow> bool" where
  "turn_new e s t \<longleftrightarrow> Sent (tn_id t) \<in> set e \<and> tn_id t \<notin> tn_id ` set (ag_turns s) \<and>
     (\<forall>x \<in> set (turns_of (tn_conversation_id t) s). \<not> chat_active x \<and> tn_request_id x \<noteq> tn_request_id t \<and> tn_sequence x < tn_sequence t)"

definition turns_change :: "chat_event list \<Rightarrow> agent_db \<Rightarrow> agent_db \<Rightarrow> bool" where
  "turns_change e s s' \<longleftrightarrow> (\<exists>f K new. ag_turns s' = map f (filter K (ag_turns s)) @ new \<and>
     (\<forall>t \<in> set (ag_turns s). turn_move e (latest_turns s) t (f t)) \<and> (new = [] \<or> (\<exists>t. new = [t] \<and> turn_new e s t \<and> (\<forall>x. f x = x))) \<and>
     (\<forall>t. K t \<or> (\<exists>ids. Deleted ids \<in> set e \<and> tn_conversation_id t \<in> set ids)))"

lemma turn_move_refl [simp]: "turn_move e L t t"
  by (rule turn_move.link) simp

lemma change_map:
  assumes "ag_turns s' = map f (ag_turns s)" and "\<And>t. t \<in> set (ag_turns s) \<Longrightarrow> turn_move e (latest_turns s) t (f t)"
  shows "turns_change e s s'"
  unfolding turns_change_def
  by (intro exI [of _ f] exI [of _ "\<lambda>_. True"] exI [of _ "[]"]) (use assms in auto)

lemma change_same: "ag_turns s' = ag_turns s \<Longrightarrow> turns_change e s s'"
  by (rule change_map [where f = "\<lambda>t. t"]) simp_all

lemma change_update:
  assumes "\<And>t. t \<in> set (ag_turns s) \<Longrightarrow> p t \<Longrightarrow> turn_move e (latest_turns s) t (f t)"
  shows "turns_change e s (s\<lparr>ag_turns := row_update p f (ag_turns s)\<rparr>)"
  by (rule change_map [where f = "\<lambda>t. if p t then f t else t"]) (use assms in \<open>auto simp: row_update_def\<close>)

lemma put_turns [simp]: "ag_turns (put_conversation c s) = ag_turns s" "ag_turns (put_turn t s) = row_put tn_id t (ag_turns s)"
  by (simp_all add: put_conversation_def put_turn_def)

lemma change_put:
  assumes ids: "distinct (map tn_id (ag_turns s))" and x: "turn_get i s = Some x" and m: "turn_move e (latest_turns s) x x'" "tn_id x' = i"
    and s': "ag_turns s' = row_put tn_id x' (ag_turns s)"
  shows "turns_change e s s'"
proof (rule change_map [where f = "\<lambda>t. if tn_id t = tn_id x' then x' else t"])
  show "ag_turns s' = map (\<lambda>t. if tn_id t = tn_id x' then x' else t) (ag_turns s)"
    by (simp add: s' row_put_def row_update_def)
  show "turn_move e (latest_turns s) t (if tn_id t = tn_id x' then x' else t)" if t: "t \<in> set (ag_turns s)" for t
  proof (cases "tn_id t = tn_id x'")
    case True
    then have "t = x" using row_get_unique [OF ids t] x m(2) by (simp add: turn_get_def)
    with m True show ?thesis by simp
  qed simp
qed

lemma owned_turn_get: "owned_turn c i admin s = Inr (cv, x) \<Longrightarrow> turn_get i s = Some x \<and> tn_id x = i \<and> tn_conversation_id x = c"
  by (auto simp: owned_turn_def turn_get_def dest: row_get_Some split: sum.splits option.splits if_splits)

lemma next_sequence_above: "x \<in> set (turns_of c s) \<Longrightarrow> tn_sequence x < next_sequence c s"
proof -
  assume x: "x \<in> set (turns_of c s)"
  have "tn_sequence x \<le> Max (insert 0 (tn_sequence ` set (turns_of c s)))" by (rule Max_ge) (use x in simp_all)
  then show ?thesis by (simp add: next_sequence_def)
qed

lemma latest_sequence:
  assumes "turn_get i s = Some x" and "tn_sequence x + 1 = next_sequence (tn_conversation_id x) s"
  shows "x \<in> latest_turns s"
  using next_sequence_above [of _ "tn_conversation_id x" s] assms(2) by (fastforce simp: latest_turns_def turns_of_def)

lemma previous_none: "previous_turn c p s = None \<Longrightarrow> x \<in> set (turns_of c s) \<Longrightarrow> tn_request_id x \<noteq> mi_request_id p"
  by (auto simp: previous_turn_def find_None_iff)

text \<open>The two answers to a message.\<close>

lemma send_cases:
  assumes "send_message resolve now fresh c admin p s = Inr (s', t)"
  obtains (repeated) "s' = s" "previous_turn c p s = Some t" "tn_content t = mi_content p" "map sk_id (tn_skill_snapshot t) = mi_skill_ids p"
  | (sent) cv sks cfg where "owned_conversation c admin s = Inr cv" "previous_turn c p s = None" "\<not> list_ex chat_active (turns_of c s)"
      "t = new_turn now fresh c p (next_sequence c s) sks cfg" "ag_turns s' = ag_turns s @ [t]"
      "map cv_id (ag_conversations s') = map cv_id (ag_conversations s)"
proof (cases "owned_conversation c admin s")
  case (Inl e)
  with assms show thesis by (simp add: send_message_def)
next
  case (Inr cv)
  show thesis
  proof (cases "previous_turn c p s")
    case (Some t')
    with assms Inr show thesis by (intro repeated) (auto simp: send_message_def split: if_splits)
  next
    case None
    with assms Inr obtain sks cfg where st: "\<not> list_ex chat_active (turns_of c s)"
        "t = new_turn now fresh c p (next_sequence c s) sks cfg" "ag_turns s' = ag_turns s @ [t]"
        "ag_conversations s' = row_put cv_id (cv\<lparr>cv_title := (if next_sequence c s = 1 then take 120 (mi_content p) else cv_title cv), cv_updated_at := now\<rparr>) (ag_conversations s)"
      by (auto simp: send_message_def Let_def put_conversation_def split: if_splits sum.splits)
    show thesis by (rule sent [OF Inr None st(1-3)]) (simp add: st(4))
  qed
qed

lemma step_changes:
  assumes ids: "distinct (map tn_id (ag_turns (cw_db w)))" and st: "chat_step e w w'"
  shows "turns_change e (cw_db w) (cw_db w')"
  using st ids
proof (induction rule: chat_step.induct)
  case (open_new fresh w now admin)
  show ?case by (rule change_same) (simp add: create_conversation_def)
next
  case (send resolve now fresh c admin p w s' t)
  from send(1) show ?case
  proof (cases rule: send_cases)
    case repeated
    then show ?thesis by (simp add: change_same)
  next
    case (sent cv sks cfg)
    have t: "tn_id t = fresh" "tn_conversation_id t = c" "tn_request_id t = mi_request_id p" "tn_sequence t = next_sequence c (cw_db w)"
      by (simp_all add: sent(4) new_turn_def)
    have "turn_new [Sent (tn_id t)] (cw_db w) t"
      unfolding turn_new_def t
      using send(2) sent(2,3) previous_none next_sequence_above by (auto simp: list_ex_iff)
    then show ?thesis unfolding turns_change_def
      by (intro exI [of _ "\<lambda>t. t"] exI [of _ "\<lambda>_. True"] exI [of _ "[t]"]) (simp add: sent(5))
  qed
next
  case (cancel now c i admin w s')
  then obtain cv x where o': "owned_turn c i admin (cw_db w) = Inr (cv, x)"
    by (cases "owned_turn c i admin (cw_db w)") (auto simp: cancel_message_def)
  note g = owned_turn_get [OF o']
  show ?case
  proof (cases "chat_active x")
    case False
    with cancel(1) o' show ?thesis by (simp add: cancel_message_def change_same)
  next
    case True
    show ?thesis
      by (rule change_put [OF cancel(2) conjunct1 [OF g], where x' = "x\<lparr>tn_status := ''cancelled'', tn_claim_token := None,
          tn_lease_expires_at := None, tn_updated_at := now\<rparr>"])
        (use cancel(1) o' True g in \<open>auto simp: cancel_message_def turn_key_def intro!: turn_move.stop\<close>)
  qed
next
  case (retry now c i admin w s')
  then obtain cv x where o': "owned_turn c i admin (cw_db w) = Inr (cv, x)"
    by (cases "owned_turn c i admin (cw_db w)") (auto simp: retry_message_def)
  note g = owned_turn_get [OF o']
  from retry(1) o' obtain cfg where r: "tn_sequence x + 1 = next_sequence c (cw_db w)" "tn_status x \<in> {''failed'', ''cancelled''}"
      "s' = put_conversation (cv\<lparr>cv_updated_at := now\<rparr>) (put_turn (x\<lparr>tn_config_snapshot := cfg, tn_status := ''queued'', tn_error := None,
        tn_claim_token := None, tn_lease_expires_at := None, tn_updated_at := now\<rparr>) (cw_db w))"
    by (auto simp: retry_message_def split: if_splits sum.splits)
  have l: "x \<in> latest_turns (cw_db w)" using latest_sequence [OF conjunct1 [OF g]] g r(1) by simp
  show ?case
    by (rule change_put [OF retry(2) conjunct1 [OF g], where x' = "x\<lparr>tn_config_snapshot := cfg, tn_status := ''queued'', tn_error := None,
        tn_claim_token := None, tn_lease_expires_at := None, tn_updated_at := now\<rparr>"])
      (use r l g in \<open>auto simp: turn_key_def intro!: turn_move.again\<close>)
next
  case (save now c i admin w s' a)
  then obtain cv x where o': "owned_turn c i admin (cw_db w) = Inr (cv, x)"
    by (cases "owned_turn c i admin (cw_db w)") (auto simp: save_turn_article_def)
  note g = owned_turn_get [OF o']
  show ?case
  proof (cases "tn_article_id x")
    case (Some b)
    with save(1) o' show ?thesis by (auto simp: save_turn_article_def change_same split: if_splits)
  next
    case None
    show ?thesis
      by (rule change_put [OF save(2) conjunct1 [OF g], where x' = "x\<lparr>tn_article_id := Some a\<rparr>"])
        (use save(1) o' None g in \<open>auto simp: save_turn_article_def Let_def turn_core_def intro!: turn_move.link split: if_splits\<close>)
  qed
next
  case (delete ids w)
  show ?case unfolding turns_change_def delete_conversation_rows_def
    by (intro exI [of _ "\<lambda>t. t"] exI [of _ "\<lambda>t. tn_conversation_id t \<notin> set ids"] exI [of _ "[]"]) simp
next
  case (expire w now)
  show ?case unfolding expire_turns_def
    by simp (rule change_update, auto simp: turn_expired_def chat_active_def turn_key_def intro!: turn_move.stop)
next
  case (claim now token k w s')
  have s': "s' = fst (claim_turn now token k (cw_db w))" using claim(1) by simp
  show ?case unfolding s' claim_turn_def Let_def
    by simp (rule change_update, auto simp: turn_key_def intro!: turn_move.take)
next
  case (finish w now token i v)
  have "turn_move [] (latest_turns (cw_db w)) t (finished_turn now v t)" if "holds_turn now token i t" for t
    using that by (cases v) (auto simp: holds_turn_def turn_key_def intro!: turn_move.give)
  then show ?case unfolding finish_turn_def by simp (rule change_update)
next
  case (publish trim stored stamp i attempt ev w w')
  then have "cw_db w' = cw_db w" by (auto simp: publish_event_def Let_def split: if_splits)
  then show ?case by (simp add: change_same)
next
  case (elsewhere s' d w)
  show ?case
    by (rule change_map [where f = "\<lambda>t. t\<lparr>tn_article_id := kept_article d (tn_article_id t)\<rparr>"])
      (use elsewhere(1) in \<open>auto simp: with_db_def turn_core_def intro!: turn_move.link\<close>)
qed (simp_all add: change_same delete_event_streams_def Let_def)

subsection \<open>The invariant\<close>

definition chat_ok :: "agent_db \<Rightarrow> bool" where
  "chat_ok s \<longleftrightarrow> distinct (map tn_id (ag_turns s)) \<and> distinct (map (\<lambda>t. (tn_conversation_id t, tn_sequence t)) (ag_turns s)) \<and>
     distinct (map (\<lambda>t. (tn_conversation_id t, tn_request_id t)) (ag_turns s)) \<and>
     (\<forall>t \<in> set (ag_turns s). chat_active t \<longrightarrow> t \<in> latest_turns s)"

lemma core_key:
  assumes "turn_core t' = turn_core t"
  shows "turn_key t' = turn_key t \<and> tn_status t' = tn_status t"
proof -
  have k: "turn_key (turn_core x) = turn_key x" "tn_status (turn_core x) = tn_status x" for x
    by (simp_all add: turn_core_def turn_key_def)
  show ?thesis using k assms by metis
qed

lemma move_key: "turn_move e L t t' \<Longrightarrow> turn_key t' = turn_key t"
  by (induction rule: turn_move.induct) (auto dest: core_key)

lemma move_active: "turn_move e L t t' \<Longrightarrow> chat_active t' \<Longrightarrow> chat_active t \<or> t \<in> L"
  by (induction rule: turn_move.induct) (auto simp: chat_active_def dest: core_key)

lemma distinct_change:
  assumes "distinct (map g xs)" and "\<And>x. x \<in> set xs \<Longrightarrow> g (f x) = g x" and "\<And>u. u \<in> set new \<Longrightarrow> g u \<notin> g ` set xs" and "length new \<le> 1"
  shows "distinct (map g (map f (filter K xs) @ new))"
proof -
  have "map g (map f (filter K xs)) = map g (filter K xs)" using assms(2) by simp
  moreover have "distinct (map g (filter K xs))" using assms(1) by (rule distinct_map_filter)
  moreover have "distinct (map g new)" using assms(4) by (cases new) auto
  moreover have "set (map g (filter K xs)) \<inter> set (map g new) = {}"
  proof -
    have "g u \<noteq> g x" if "u \<in> set new" "x \<in> set xs" for u x using assms(3) [OF that(1)] that(2) by (metis imageI)
    then show ?thesis by fastforce
  qed
  ultimately show ?thesis by (simp only: map_append distinct_append simp_thms)
qed

lemma change_ok:
  assumes ok: "chat_ok s" and c: "turns_change e s s'"
  shows "chat_ok s'"
proof -
  obtain f K new where s': "ag_turns s' = map f (filter K (ag_turns s)) @ new"
      and mv: "\<forall>t \<in> set (ag_turns s). turn_move e (latest_turns s) t (f t)"
      and new: "new = [] \<or> (\<exists>t. new = [t] \<and> turn_new e s t \<and> (\<forall>x. f x = x))"
    using c unfolding turns_change_def by blast
  have key: "turn_key (f t) = turn_key t" if "t \<in> set (ag_turns s)" for t using mv that move_key by blast
  then have keys: "tn_id (f t) = tn_id t" "tn_conversation_id (f t) = tn_conversation_id t" "tn_request_id (f t) = tn_request_id t"
      "tn_sequence (f t) = tn_sequence t" if "t \<in> set (ag_turns s)" for t
    using that by (simp_all add: turn_key_def)
  have fresh: "tn_id u \<notin> tn_id ` set (ag_turns s)"
      "(tn_conversation_id u, tn_sequence u) \<notin> (\<lambda>t. (tn_conversation_id t, tn_sequence t)) ` set (ag_turns s)"
      "(tn_conversation_id u, tn_request_id u) \<notin> (\<lambda>t. (tn_conversation_id t, tn_request_id t)) ` set (ag_turns s)"
    if "u \<in> set new" for u
    using that new by (auto simp: turn_new_def turns_of_def)
  have l: "length new \<le> 1" using new by auto
  have "distinct (map tn_id (ag_turns s'))" unfolding s'
    by (rule distinct_change) (use ok keys fresh l in \<open>auto simp: chat_ok_def\<close>)
  moreover have "distinct (map (\<lambda>t. (tn_conversation_id t, tn_sequence t)) (ag_turns s'))" unfolding s'
    by (rule distinct_change) (use ok keys fresh l in \<open>auto simp: chat_ok_def\<close>)
  moreover have "distinct (map (\<lambda>t. (tn_conversation_id t, tn_request_id t)) (ag_turns s'))" unfolding s'
    by (rule distinct_change) (use ok keys fresh l in \<open>auto simp: chat_ok_def\<close>)
  moreover have "y \<in> latest_turns s'" if y: "y \<in> set (ag_turns s')" "chat_active y" for y
  proof (cases "y \<in> set new")
    case True
    then have n: "turn_new e s y" "new = [y]" "\<forall>x. f x = x" using new by auto
    then show ?thesis by (auto simp: latest_turns_def s' turn_new_def turns_of_def less_imp_le)
  next
    case False
    then obtain t where t: "t \<in> set (ag_turns s)" "y = f t" using y(1) by (auto simp: s')
    have "chat_active t \<or> t \<in> latest_turns s" using mv t y(2) move_active by blast
    then have lt: "t \<in> latest_turns s" using ok t(1) unfolding chat_ok_def by blast
    have "tn_conversation_id u \<noteq> tn_conversation_id y" if u: "u \<in> set new" for u
    proof
      assume c: "tn_conversation_id u = tn_conversation_id y"
      from new u have "turn_new e s u" "f t = t" by auto
      with t c y(2) show False by (auto simp: turn_new_def turns_of_def)
    qed
    with lt t keys show ?thesis by (auto simp: latest_turns_def s')
  qed
  ultimately show ?thesis by (simp add: chat_ok_def)
qed

lemma step_ok: "chat_ok (cw_db w) \<Longrightarrow> chat_step e w w' \<Longrightarrow> chat_ok (cw_db w')"
  by (rule change_ok [OF _ step_changes]) (simp_all add: chat_ok_def)

lemma chat_run_ok: "chat_run es w w' \<Longrightarrow> chat_ok (cw_db w) \<Longrightarrow> chat_ok (cw_db w')"
  by (induction rule: chat_run.induct) (auto intro: step_ok)

lemma one_active:
  assumes ok: "chat_ok s" and x: "x \<in> set (ag_turns s)" "chat_active x" and y: "y \<in> set (ag_turns s)" "chat_active y"
    and c: "tn_conversation_id x = tn_conversation_id y"
  shows "x = y"
proof -
  have "tn_sequence x \<le> tn_sequence y" "tn_sequence y \<le> tn_sequence x"
    using ok x y c by (auto simp: chat_ok_def latest_turns_def)
  with ok x y c show ?thesis by (auto simp: chat_ok_def distinct_map inj_on_def)
qed

text \<open>A turn that was answered.\<close>

lemma move_answered: "turn_move e L t t' \<Longrightarrow> tn_status t = ''succeeded'' \<Longrightarrow> turn_core t' = turn_core t"
  by (induction rule: turn_move.induct) (auto simp: chat_active_def)

lemma change_answered:
  assumes c: "turns_change e s s'" and t: "t \<in> set (ag_turns s)" "tn_status t = ''succeeded''"
    and y: "y \<in> set (ag_turns s')" "tn_id y = tn_id t" and ids: "distinct (map tn_id (ag_turns s))"
  shows "turn_core y = turn_core t"
proof -
  obtain f K new where s': "ag_turns s' = map f (filter K (ag_turns s)) @ new"
      and mv: "\<forall>t \<in> set (ag_turns s). turn_move e (latest_turns s) t (f t)"
      and new: "new = [] \<or> (\<exists>t. new = [t] \<and> turn_new e s t \<and> (\<forall>x. f x = x))"
    using c unfolding turns_change_def by blast
  have "tn_id t \<in> tn_id ` set (ag_turns s)" using t(1) by simp
  then have "y \<notin> set new" using new y(2) by (auto simp: turn_new_def)
  then obtain x where x: "x \<in> set (ag_turns s)" "y = f x" using y(1) by (auto simp: s')
  have "tn_id x = tn_id y" using mv x move_key [of e "latest_turns s" x "f x"] by (auto simp: turn_key_def)
  then have "x = t" using ids x(1) t(1) y(2) by (auto simp: distinct_map inj_on_def)
  with mv x t move_answered show ?thesis by blast
qed

lemma sent_new: "turns_change e s s' \<Longrightarrow> y \<in> set (ag_turns s') \<Longrightarrow> tn_id y \<notin> tn_id ` set (ag_turns s) \<Longrightarrow> Sent (tn_id y) \<in> set e"
  unfolding turns_change_def by (force simp: turn_new_def turn_key_def dest: move_key)

text \<open>A turn is lost only with its conversation.\<close>

definition spared :: "chat_event list \<Rightarrow> string \<Rightarrow> bool" where
  "spared es c \<longleftrightarrow> (\<forall>ids. Deleted ids \<in> set es \<longrightarrow> c \<notin> set ids)"

lemma spared_append [simp]: "spared (es @ e) c \<longleftrightarrow> spared es c \<and> spared e c"
  by (auto simp: spared_def)

lemma change_kept:
  assumes c: "turns_change e s s'" and x: "x \<in> set (ag_turns s)" and d: "spared e (tn_conversation_id x)"
  shows "\<exists>y \<in> set (ag_turns s'). turn_key y = turn_key x"
proof -
  obtain f K new where s': "ag_turns s' = map f (filter K (ag_turns s)) @ new"
      and mv: "\<forall>t \<in> set (ag_turns s). turn_move e (latest_turns s) t (f t)"
      and k: "\<forall>t. K t \<or> (\<exists>ids. Deleted ids \<in> set e \<and> tn_conversation_id t \<in> set ids)"
    using c unfolding turns_change_def by blast
  have "K x" using k d by (auto simp: spared_def)
  with x have "f x \<in> set (ag_turns s')" by (simp add: s')
  moreover have "turn_key (f x) = turn_key x" using mv x move_key by blast
  ultimately show ?thesis by blast
qed

definition answer_kept :: "chat_turn \<Rightarrow> agent_db \<Rightarrow> bool" where
  "answer_kept t s \<longleftrightarrow> (\<exists>y \<in> set (ag_turns s). tn_id y = tn_id t \<and> turn_core y = turn_core t)"

lemma step_answer_kept:
  assumes ok: "chat_ok (cw_db w)" and st: "chat_step e w w'" and k: "answer_kept t (cw_db w)" "tn_status t = ''succeeded''"
    and d: "spared e (tn_conversation_id t)"
  shows "answer_kept t (cw_db w')"
proof -
  have ids: "distinct (map tn_id (ag_turns (cw_db w)))" using ok by (simp add: chat_ok_def)
  note c = step_changes [OF ids st]
  obtain x where x: "x \<in> set (ag_turns (cw_db w))" "tn_id x = tn_id t" "turn_core x = turn_core t" using k(1) by (auto simp: answer_kept_def)
  have xt: "tn_status x = ''succeeded''" "tn_conversation_id x = tn_conversation_id t"
    using core_key [OF x(3)] k(2) by (simp_all add: turn_key_def)
  then obtain y where y: "y \<in> set (ag_turns (cw_db w'))" "turn_key y = turn_key x" using change_kept [OF c x(1)] d by auto
  then have "tn_id y = tn_id x" by (simp add: turn_key_def)
  then have "turn_core y = turn_core x" by (rule change_answered [OF c x(1) xt(1) y(1) _ ids])
  with x y show ?thesis by (auto simp: answer_kept_def turn_key_def)
qed

lemma run_answer_kept:
  "chat_run es w w' \<Longrightarrow> chat_ok (cw_db w) \<Longrightarrow> answer_kept t (cw_db w) \<Longrightarrow> tn_status t = ''succeeded'' \<Longrightarrow>
    spared es (tn_conversation_id t) \<Longrightarrow> answer_kept t (cw_db w')"
proof (induction rule: chat_run.induct)
  case (next_step es w w' e w'')
  then show ?case by (auto intro: step_answer_kept [OF chat_run_ok [OF next_step(1)]])
qed

text \<open>A claim is possible for a queued turn only.\<close>

lemma step_claimed: "chat_step e w w' \<Longrightarrow> Claimed i \<in> set e \<Longrightarrow> \<exists>t \<in> set (ag_turns (cw_db w)). tn_id t = i \<and> tn_status t = ''queued''"
proof (induction rule: chat_step.induct)
  case (claim now token k w s')
  then have "0 < rowcount (\<lambda>t. tn_id t = i \<and> tn_status t = ''queued'') (ag_turns (cw_db w))"
    by (auto simp: claim_turn_def Let_def)
  then show ?case by (simp add: rowcount_pos)
qed simp_all

lemma run_unclaimed:
  "chat_run es w w' \<Longrightarrow> chat_ok (cw_db w) \<Longrightarrow> answer_kept t (cw_db w) \<Longrightarrow> tn_status t = ''succeeded'' \<Longrightarrow>
    spared es (tn_conversation_id t) \<Longrightarrow> Claimed (tn_id t) \<notin> set es"
proof (induction rule: chat_run.induct)
  case (next_step es w w' e w'')
  have k: "answer_kept t (cw_db w')" using run_answer_kept [OF next_step(1)] next_step.prems by simp
  have ids: "distinct (map tn_id (ag_turns (cw_db w')))" using chat_run_ok [OF next_step(1)] next_step.prems by (simp add: chat_ok_def)
  have "Claimed (tn_id t) \<notin> set e"
  proof
    assume "Claimed (tn_id t) \<in> set e"
    from step_claimed [OF next_step(2) this] obtain x where x: "x \<in> set (ag_turns (cw_db w'))" "tn_id x = tn_id t" "tn_status x = ''queued''" by blast
    obtain y where y: "y \<in> set (ag_turns (cw_db w'))" "tn_id y = tn_id t" "turn_core y = turn_core t" using k by (auto simp: answer_kept_def)
    have "x = y" using ids x y by (auto simp: distinct_map inj_on_def)
    then have "tn_status t = ''queued''" using core_key [OF y(3)] x(3) by simp
    with next_step.prems(3) show False by simp
  qed
  with next_step show ?case by simp
qed simp

subsection \<open>Streams of deleted turns\<close>

definition forgotten :: "string \<Rightarrow> chat_world \<Rightarrow> bool" where
  "forgotten i w \<longleftrightarrow> i \<notin> tn_id ` set (ag_turns (cw_db w)) \<and> cw_streams w i = None"

lemma step_forgotten:
  assumes st: "chat_step e w w'" and ok: "chat_ok (cw_db w)" and g: "forgotten i w" and n: "Sent i \<notin> set e"
  shows "forgotten i w'"
proof -
  have ids: "distinct (map tn_id (ag_turns (cw_db w)))" using ok by (simp add: chat_ok_def)
  have "i \<notin> tn_id ` set (ag_turns (cw_db w'))"
    using sent_new [OF step_changes [OF ids st]] g n by (auto simp: forgotten_def)
  moreover have "cw_streams w' i = None"
    using st g by (induction rule: chat_step.induct)
      (auto simp: forgotten_def delete_event_streams_def Let_def publish_event_def list_ex_iff split: if_splits)
  ultimately show ?thesis by (simp add: forgotten_def)
qed

lemma run_forgotten: "chat_run es w w' \<Longrightarrow> chat_ok (cw_db w) \<Longrightarrow> forgotten i w \<Longrightarrow> Sent i \<notin> set es \<Longrightarrow> forgotten i w'"
proof (induction rule: chat_run.induct)
  case (next_step es w w' e w'')
  then show ?case by (auto intro: step_forgotten [OF _ chat_run_ok [OF next_step(1)]])
qed

subsection \<open>A turn of the worker\<close>

definition chat_gap :: "(chat_world \<Rightarrow> chat_world) \<Rightarrow> bool" where
  "chat_gap f \<longleftrightarrow> (\<forall>w. \<exists>es. chat_run es w (f w))"

definition leads :: "chat_world \<Rightarrow> chat_world \<Rightarrow> bool" where
  "leads w w' \<longleftrightarrow> (\<exists>es. chat_run es w w')"

lemma leads_refl [simp]: "leads w w"
  by (auto simp: leads_def intro: chat_run.rest)

lemma leads_trans [trans]: "leads w w' \<Longrightarrow> leads w' w'' \<Longrightarrow> leads w w''"
  by (auto simp: leads_def intro: chat_run_append)

lemma leads_step: "chat_step e w w' \<Longrightarrow> leads w w'"
  by (auto simp: leads_def intro: chat_run_one)

lemma leads_gap: "chat_gap f \<Longrightarrow> leads w (f w)"
  by (simp add: chat_gap_def leads_def)

lemma leads_emits: "\<forall>k. chat_gap (to_gap io k) \<Longrightarrow> emits io i a k evs w = (w', b) \<Longrightarrow> leads w w'"
proof (induction evs arbitrary: k w)
  case (Cons ev evs)
  define w1 where "w1 = to_gap io k w"
  have w1: "leads w w1" using Cons.prems(1) leads_gap by (simp add: w1_def)
  show ?case
  proof (cases "publish_event (to_trim io) (to_stored io k) (to_stamp io k) i a ev w1")
    case None
    with Cons.prems(2) w1 show ?thesis by (simp add: w1_def [symmetric] Let_def)
  next
    case (Some w2)
    have "leads w1 w2" by (rule leads_step [OF chat_step.publish [OF Some]])
    moreover have "leads w2 w'" using Cons.IH [OF Cons.prems(1)] Cons.prems(2) Some by (simp add: w1_def [symmetric] Let_def)
    ultimately show ?thesis using w1 leads_trans by blast
  qed
qed simp

lemma claim_lost: "claim_turn now token k s = (s', False) \<Longrightarrow> distinct (map tn_id (ag_turns s)) \<Longrightarrow> s' = s"
proof -
  assume c: "claim_turn now token k s = (s', False)" and ids: "distinct (map tn_id (ag_turns s))"
  define mine :: "chat_turn \<Rightarrow> bool" where "mine = (\<lambda>t. tn_id t = tn_id (tk_turn k) \<and> tn_status t = ''queued'')"
  have n: "rowcount mine (ag_turns s) \<noteq> 1" using c by (auto simp: claim_turn_def Let_def mine_def)
  have "\<not> mine x" if x: "x \<in> set (ag_turns s)" for x
  proof
    assume m: "mine x"
    obtain us vs where e: "ag_turns s = us @ x # vs" using split_list [OF x] by blast
    have "\<not> mine z" if "z \<in> set us \<or> z \<in> set vs" for z
    proof -
      have "tn_id z \<in> tn_id ` set us \<union> tn_id ` set vs" using that by auto
      moreover have "tn_id x \<notin> tn_id ` set us" "tn_id x \<notin> tn_id ` set vs" using ids e by simp_all
      ultimately have "tn_id z \<noteq> tn_id x" by (metis Un_iff)
      with m show ?thesis by (simp add: mine_def)
    qed
    then have "filter mine us = []" "filter mine vs = []" by (simp_all add: filter_empty_conv)
    with m n show False by (simp add: rowcount_def e)
  qed
  with c show "s' = s" by (auto simp: claim_turn_def Let_def mine_def [symmetric] row_update_none)
qed

lemma process_leads:
  assumes gaps: "\<forall>k. chat_gap (to_gap io k)" and ok: "chat_ok (cw_db w)"
  shows "leads w (process_turn io token i w)"
proof (cases "read_claim i (cw_db w)")
  case None
  then show ?thesis by (simp add: process_turn_def)
next
  case (Some k)
  define w1 where "w1 = to_gap io 0 w"
  have w1: "leads w w1" using gaps leads_gap by (simp add: w1_def)
  then have ok1: "chat_ok (cw_db w1)" using ok chat_run_ok by (auto simp: leads_def)
  obtain s c where cl: "claim_turn (to_claimed io) token k (cw_db w1) = (s, c)" by fastforce
  define w2 where "w2 = w1\<lparr>cw_db := s\<rparr>"
  have w2: "leads w w2"
  proof (cases c)
    case True
    with cl show ?thesis unfolding w2_def by (intro leads_trans [OF w1 leads_step [OF chat_step.claim]]) simp
  next
    case False
    with cl ok1 have "s = cw_db w1" by (auto simp: chat_ok_def dest: claim_lost)
    then show ?thesis using w1 by (simp add: w2_def)
  qed
  obtain w3 b3 where e3: "emits io i (tk_attempt k) 1 [ev_status ''preparing'' ''preparing the context''] w2 = (w3, b3)" by fastforce
  have w3: "leads w w3" using leads_trans [OF w2 leads_emits [OF gaps e3]] .
  define w4 where "w4 = to_gap io 2 w3"
  have w4: "leads w w4" unfolding w4_def using leads_trans [OF w3 leads_gap] gaps by blast
  define reply where "reply = attempt_reply io (tk_turn k) (cw_db w4)"
  obtain w5 b5 where e5: "emits io i (tk_attempt k) 3 (fst reply) w4 = (w5, b5)" by fastforce
  have w5: "leads w w5" using leads_trans [OF w4 leads_emits [OF gaps e5]] .
  define n where "n = 3 + length (fst reply)"
  define w6 where "w6 = to_gap io n w5"
  have w6: "leads w w6" unfolding w6_def using leads_trans [OF w5 leads_gap] gaps by blast
  define f where "f = finish_turn (to_finished io) token i (outcome_values (snd reply)) (cw_db w6)"
  define w7 where "w7 = w6\<lparr>cw_db := fst f\<rparr>"
  have w7: "leads w w7" unfolding w7_def f_def by (rule leads_trans [OF w6 leads_step [OF chat_step.finish]])
  obtain w8 b8 where e8: "emits io i (tk_attempt k) (Suc n) (outcome_events (snd reply)) w7 = (w8, b8)" by fastforce
  have w8: "leads w w8" using leads_trans [OF w7 leads_emits [OF gaps e8]] .
  have "process_turn io token i w \<in> {w2, w3, w5, w7, w8}"
    unfolding process_turn_def
    by (simp add: Some w1_def [symmetric] cl w2_def [symmetric] e3 w4_def [symmetric] reply_def [symmetric] e5 n_def [symmetric]
        w6_def [symmetric] f_def [symmetric] w7_def [symmetric] e8 Let_def del: emits.simps One_nat_def split: bool.splits)
  with w2 w3 w5 w7 w8 show ?thesis by auto
qed

subsection \<open>Properties\<close>

definition sample_chat_config :: chat_config where
  "sample_chat_config = \<lparr>tc_language = ''en'', tc_tone = Lit ''plain'' [], tc_reasoning_effort = ''low'', tc_max_output_tokens = 1000,
     tc_timeout_seconds = 60\<rparr>"

definition sample_message :: message_input where
  "sample_message = \<lparr>mi_request_id = ''q'', mi_content = ''write'', mi_skill_ids = []\<rparr>"

definition sample_chat_turn :: chat_turn where
  "sample_chat_turn = finished_turn 9 (Answered \<lparr>rs_reply = ''done'', rs_article = JObj [(''title'', JStr ''a'')]\<rparr>)
     (new_turn 1 ''t1'' ''c'' sample_message 1 [] sample_chat_config)"

definition sample_chat :: chat_world where
  "sample_chat = \<lparr>cw_db = (empty_agent_db empty_db)\<lparr>
     ag_conversations := [\<lparr>cv_id = ''c'', cv_admin_id = 1, cv_title = ''write'', cv_created_at = 0, cv_updated_at = 9\<rparr>],
     ag_turns := [sample_chat_turn, new_turn 10 ''t2'' ''c'' (sample_message\<lparr>mi_request_id := ''r''\<rparr>) 2 [] sample_chat_config]\<rparr>,
     cw_streams = (\<lambda>i. if i = ''t1'' then Some [] else None)\<rparr>"

lemmas sample_chat_simps = sample_chat_def sample_chat_turn_def sample_message_def empty_agent_db_def new_turn_def

lemma sample_chat_ok: "chat_ok (cw_db sample_chat)"
  by (simp add: chat_ok_def sample_chat_simps chat_active_def latest_turns_def)

text \<open>
  C19: In every interleaving of routes, workers and clean-ups, an answered turn stays stored with its reply, its article
  and everything else but the link to the article saved from it, and no worker claims it again, unless its conversation
  is deleted.
\<close>

theorem answers_final:
  assumes "chat_ok (cw_db w)" and "chat_run es w w'" and "t \<in> set (ag_turns (cw_db w))" and "tn_status t = ''succeeded''"
    and "\<forall>ids. Deleted ids \<in> set es \<longrightarrow> tn_conversation_id t \<notin> set ids"
  shows "(\<exists>y \<in> set (ag_turns (cw_db w')). turn_core y = turn_core t) \<and>
    (\<forall>y \<in> set (ag_turns (cw_db w')). tn_id y = tn_id t \<longrightarrow> turn_core y = turn_core t) \<and> Claimed (tn_id t) \<notin> set es"
proof -
  have d: "spared es (tn_conversation_id t)" using assms(5) by (simp add: spared_def)
  have k: "answer_kept t (cw_db w)" using assms(3) by (auto simp: answer_kept_def)
  obtain x where x: "x \<in> set (ag_turns (cw_db w'))" "tn_id x = tn_id t" "turn_core x = turn_core t"
    using run_answer_kept [OF assms(2,1) k assms(4) d] by (auto simp: answer_kept_def)
  have "distinct (map tn_id (ag_turns (cw_db w')))" using chat_run_ok [OF assms(2,1)] by (simp add: chat_ok_def)
  then have "y = x" if "y \<in> set (ag_turns (cw_db w'))" "tn_id y = tn_id t" for y
    using that x by (auto simp: distinct_map inj_on_def)
  then show ?thesis using x run_unclaimed [OF assms(2,1) k assms(4) d] by blast
qed

lemma answers_final_witness:
  "\<exists>w. send_message (\<lambda>_. None) 40 ''t3'' ''c'' 1 sample_message (cw_db sample_chat) = Inr (cw_db sample_chat, sample_chat_turn) \<and>
     w = sample_chat\<lparr>cw_db := expire_turns 50 (fst (delete_conversation_rows [''b''] (cw_db sample_chat)))\<rparr> \<and>
     (\<exists>y \<in> set (ag_turns (cw_db w)). turn_core y = turn_core sample_chat_turn)"
proof -
  define w1 where "w1 = sample_chat\<lparr>cw_db := fst (delete_conversation_rows [''b''] (cw_db sample_chat))\<rparr>"
  have s: "send_message (\<lambda>_. None) 40 ''t3'' ''c'' 1 sample_message (cw_db sample_chat) = Inr (cw_db sample_chat, sample_chat_turn)"
    by code_simp
  have "chat_run ([Sent (tn_id sample_chat_turn)] @ [Deleted [''b'']] @ []) sample_chat (w1\<lparr>cw_db := expire_turns 50 (cw_db w1)\<rparr>)"
    using chat_run_append [OF chat_run_append [OF chat_run_one [OF chat_step.expire] chat_run_one [OF chat_step.delete]]
      chat_run_one [OF chat_step.send [OF s]]] by (simp add: w1_def sample_chat_simps)
  moreover have "sample_chat_turn \<in> set (ag_turns (cw_db sample_chat))" "tn_status sample_chat_turn = ''succeeded''"
      "tn_conversation_id sample_chat_turn = ''c''"
    by (simp_all add: sample_chat_simps)
  ultimately show ?thesis
    using answers_final [OF sample_chat_ok, of "[Sent (tn_id sample_chat_turn)] @ [Deleted [''b'']] @ []" _ sample_chat_turn] s
    by (fastforce simp: w1_def)
qed

text \<open>
  C20: In every interleaving a conversation has at most one message that waits for its answer or is being answered, and
  it is the last one.
\<close>

theorem one_active_turn:
  assumes "chat_ok (cw_db w)" and "chat_run es w w'"
    and "x \<in> set (ag_turns (cw_db w'))" and "chat_active x"
    and "y \<in> set (ag_turns (cw_db w'))" and "tn_conversation_id y = tn_conversation_id x"
  shows "tn_sequence y \<le> tn_sequence x \<and> (chat_active y \<longrightarrow> y = x)"
proof -
  have ok: "chat_ok (cw_db w')" using chat_run_ok [OF assms(2,1)] .
  have "tn_sequence y \<le> tn_sequence x" using ok assms by (auto simp: chat_ok_def latest_turns_def)
  moreover have "chat_active y \<longrightarrow> y = x" using one_active [OF ok] assms by blast
  ultimately show ?thesis by blast
qed

lemma one_active_turn_witness:
  "\<exists>x \<in> set (ag_turns (cw_db sample_chat)). chat_active x \<and> tn_id x = ''t2'' \<and> tn_sequence sample_chat_turn \<le> tn_sequence x"
proof -
  define x where "x = new_turn 10 ''t2'' ''c'' (sample_message\<lparr>mi_request_id := ''r''\<rparr>) 2 [] sample_chat_config"
  have x: "x \<in> set (ag_turns (cw_db sample_chat))" "chat_active x" "tn_conversation_id x = ''c''" "tn_id x = ''t2''"
    by (simp_all add: x_def sample_chat_def new_turn_def chat_active_def)
  have y: "sample_chat_turn \<in> set (ag_turns (cw_db sample_chat))" "tn_conversation_id sample_chat_turn = ''c''"
    by (simp_all add: sample_chat_simps)
  have "tn_sequence sample_chat_turn \<le> tn_sequence x"
    using one_active_turn [OF sample_chat_ok chat_run.rest x(1,2) y(1)] x(3) y(2) by simp
  with x show ?thesis by blast
qed

text \<open>
  C21: Once a turn has been deleted and its event stream removed, no event that a worker still has to publish brings the
  stream back, whatever follows.
\<close>

theorem deleted_streams_stay_deleted:
  assumes "chat_ok (cw_db w)" and "chat_run es w w'" and "i \<notin> tn_id ` set (ag_turns (cw_db w))" and "cw_streams w i = None"
    and "Sent i \<notin> set es"
  shows "cw_streams w' i = None"
  using run_forgotten [OF assms(2,1) _ assms(5)] assms(3,4) by (simp add: forgotten_def)

lemma deleted_streams_stay_deleted_witness:
  "\<exists>w'. delete_conversation (\<lambda>w. w) None ''c'' 1 sample_chat = Inr w' \<and>
     cw_streams (w'\<lparr>cw_db := expire_turns 50 (cw_db w')\<rparr>) ''t2'' = None"
proof -
  define w' where "w' = delete_event_streams None [''t1'', ''t2''] (sample_chat\<lparr>cw_db := fst (delete_conversation_rows [''c''] (cw_db sample_chat))\<rparr>)"
  have d: "delete_conversation (\<lambda>w. w) None ''c'' 1 sample_chat = Inr w'"
    by (simp add: delete_conversation_def owned_conversation_def row_get_def w'_def delete_conversation_rows_def sample_chat_simps)
  have g: "ag_turns (cw_db w') = []" "cw_streams w' ''t2'' = None"
    by (simp_all add: w'_def delete_event_streams_def delete_conversation_rows_def sample_chat_simps)
  then have ok: "chat_ok (cw_db w')" and i: "''t2'' \<notin> tn_id ` set (ag_turns (cw_db w'))" by (simp_all add: chat_ok_def)
  have r: "chat_run [] w' (w'\<lparr>cw_db := expire_turns 50 (cw_db w')\<rparr>)" by (rule chat_run_one [OF chat_step.expire])
  show ?thesis using d deleted_streams_stay_deleted [OF ok r i g(2)] by simp
qed

text \<open>
  An attempt of the worker, with any steps of others at each of its awaits, whatever the model answers, Redis does
  and however it is cut off, is a run of these steps.
\<close>

theorem chat_attempt_refines:
  assumes "chat_ok (cw_db w)" and "\<forall>k. chat_gap (to_gap io k)"
  shows "\<exists>es. chat_run es w (process_turn io token i w)"
  using process_leads [OF assms(2,1)] by (simp add: leads_def)

definition sample_turn_io :: turn_io where
  "sample_turn_io = \<lparr>to_gap = (\<lambda>k w. w), to_claimed = 20, to_finished = 30, to_trim = (\<lambda>x. x), to_stored = (\<lambda>k. True),
     to_stamp = (\<lambda>k. ''now''), to_source = (\<lambda>d. None), to_reply = (\<lambda>rt h t. ([], Inl TimedOut)), to_cut = None\<rparr>"

lemma chat_attempt_refines_witness:
  "\<exists>es. chat_run es sample_chat (process_turn sample_turn_io ''k'' ''t2'' sample_chat)"
proof (rule chat_attempt_refines [OF sample_chat_ok])
  show "\<forall>k. chat_gap (to_gap sample_turn_io k)" by (auto simp: chat_gap_def sample_turn_io_def intro: chat_run.rest)
qed

subsection \<open>What the model receives\<close>

lemma recent_prefix: "\<exists>k. recent_turns dumps m n ts = take k ts"
proof (induction dumps m n ts rule: recent_turns.induct)
  case (2 dumps m n t ts)
  show ?case
  proof (cases "max_turns \<le> n \<or> max_chat < m + turn_size dumps t")
    case True
    then have "recent_turns dumps m n (t # ts) = take 0 (t # ts)" by auto
    then show ?thesis by blast
  next
    case False
    with 2 obtain k where "recent_turns dumps (m + turn_size dumps t) (Suc n) ts = take k ts" by blast
    with False have "recent_turns dumps m n (t # ts) = take (Suc k) (t # ts)" by simp
    then show ?thesis by blast
  qed
qed auto

lemma recent_bounds:
  "n \<le> max_turns \<Longrightarrow> length (recent_turns dumps m n ts) + n \<le> max_turns \<and>
    (recent_turns dumps m n ts \<noteq> [] \<longrightarrow> m + sum_list (map (turn_size dumps) (recent_turns dumps m n ts)) \<le> max_chat)"
proof (induction dumps m n ts rule: recent_turns.induct)
  case (2 dumps m n t ts)
  show ?case
  proof (cases "max_turns \<le> n \<or> max_chat < m + turn_size dumps t")
    case True
    with 2(2) show ?thesis by auto
  next
    case False
    then have "Suc n \<le> max_turns" by simp
    with 2 False show ?thesis
      by (cases "recent_turns dumps (m + turn_size dumps t) (Suc n) ts = []") (auto simp: add.assoc)
  qed
qed auto

text \<open>
  The model receives the last turns of the conversation, whole, at most twelve and within the limit, the last
  article in one of its messages, and the new message at the end.
\<close>

theorem chat_messages_bounded:
  shows "(\<exists>k. selected_turns dumps history current = drop k history) \<and> length (selected_turns dumps history current) \<le> max_turns \<and>
    (selected_turns dumps history current \<noteq> [] \<longrightarrow>
       length (tn_content current) + sum_list (map (turn_size dumps) (selected_turns dumps history current)) \<le> max_chat) \<and>
    last (chat_messages dumps history current) = message ''user'' (tn_content current) \<and>
    (case latest_article history of
       None \<Rightarrow> \<not> (\<exists>t \<in> set history. truthy (tn_article t))
     | Some t \<Rightarrow> tn_id t \<in> tn_id ` set (selected_turns dumps history current) \<or>
         message ''user'' (article_heading @ dumps (tn_article t)) \<in> set (chat_messages dumps history current))"
proof -
  define sel where "sel = selected_turns dumps history current"
  obtain k where "recent_turns dumps (length (tn_content current)) 0 (rev history) = take k (rev history)" using recent_prefix by blast
  then have "sel = drop (length history - k) history" by (simp add: sel_def selected_turns_def take_rev)
  moreover have "length sel \<le> max_turns"
      "sel \<noteq> [] \<longrightarrow> length (tn_content current) + sum_list (map (turn_size dumps) sel) \<le> max_chat"
    using recent_bounds [of 0 dumps "length (tn_content current)" "rev history"]
    by (auto simp: sel_def selected_turns_def rev_map [symmetric] sum_list_rev)
  moreover have "last (chat_messages dumps history current) = message ''user'' (tn_content current)"
    by (simp add: chat_messages_def Let_def)
  moreover have "case latest_article history of
       None \<Rightarrow> \<not> (\<exists>t \<in> set history. truthy (tn_article t))
     | Some t \<Rightarrow> tn_id t \<in> tn_id ` set sel \<or> message ''user'' (article_heading @ dumps (tn_article t)) \<in> set (chat_messages dumps history current)"
    by (auto simp: chat_messages_def Let_def sel_def latest_article_def find_None_iff split: option.splits)
  ultimately show ?thesis unfolding sel_def by blast
qed

text \<open>
  The name of an event line never reaches its payload: a stream whose payloads carry no type is
  read as if it had no event names.
\<close>

lemma event_names_ignored:
  assumes "starts_with ''event:'' line"
  shows "sse_line repr loads line st = Go (st\<lparr>es_event := strip (drop 6 line)\<rparr>) None \<or> starts_with '':'' line"
    and "es_data st \<noteq> [] \<Longrightarrow> sse_line repr loads [] (st\<lparr>es_event := name\<rparr>) = sse_line repr loads [] (st\<lparr>es_event := []\<rparr>)"
  using assms by (simp_all add: sse_line_def starts_with_def)

end
