(* ===== verification/Packages.thy ===== *)
theory Packages
  imports PyText
begin

text \<open>
  Repositories that are imported as skills, \<open>backend/app/skills/packages.py\<close>: the check of
  the address and the branch, the files of a directory that are taken from the tree of a
  commit, and the compilation of a document and its local references into one prompt.
  Percent decoding, the Markdown links of a text and the decoding of UTF-8 are parameters.
\<close>

subsection \<open>Paths\<close>

definition max_files :: nat where "max_files = 2000"
definition max_file_bytes :: int where "max_file_bytes = 16 * 1024 * 1024"
definition max_total_bytes :: int where "max_total_bytes = 96 * 1024 * 1024"
definition max_prompt_chars :: nat where "max_prompt_chars = 100000"

definition relative_ok :: "string \<Rightarrow> bool" where
  "relative_ok v \<longleftrightarrow>
     v \<noteq> [] \<and> \<not> starts_with ''/'' v \<and> CHR 0x5C \<notin> set v \<and> CHR '':'' \<notin> set v \<and> list_all (\<lambda>c. 32 \<le> code c) v \<and>
     list_all (\<lambda>p. p \<notin> {[], ''.'', ''..''}) (split_on CHR ''/'' v)"

datatype import_error =
    BadPath | BadAddress | BadBranch | BranchMismatch
  | TooManyEntries | ReservedPath | DuplicatePath | SpecialFile | TooLarge | NoFiles | NotADirectory

definition safe_relative :: "string \<Rightarrow> bool \<Rightarrow> import_error + string" where
  "safe_relative v allow_empty =
     (if v = [] \<and> allow_empty then Inr [] else if relative_ok v then Inr v else Inl BadPath)"

subsection \<open>The address of a repository\<close>

definition repo_name_char :: "char \<Rightarrow> bool" where
  "repo_name_char c \<longleftrightarrow> is_alpha c \<or> is_digit c \<or> c \<in> {CHR ''_'', CHR ''.'', CHR ''-''}"

definition repo_name_ok :: "string \<Rightarrow> bool" where
  "repo_name_ok p \<longleftrightarrow> (case p of [] \<Rightarrow> False | c # cs \<Rightarrow> (is_alpha c \<or> is_digit c) \<and> list_all repo_name_char cs)"

fun contains :: "string \<Rightarrow> string \<Rightarrow> bool" where
  "contains p [] = (p = [])"
| "contains p (c # cs) = (starts_with p (c # cs) \<or> contains p cs)"

definition ref_ok :: "string \<Rightarrow> bool" where
  "ref_ok r \<longleftrightarrow>
     length r \<le> 200 \<and> hd r \<notin> {CHR ''-'', CHR ''/'', CHR ''.''} \<and>
     \<not> ends_with ''/'' r \<and> \<not> ends_with ''.'' r \<and> \<not> ends_with ''.lock'' r \<and>
     list_all (\<lambda>c. \<not> is_space c \<and> 32 \<le> code c \<and> c \<notin> {CHR ''~'', CHR ''^'', CHR '':'', CHR ''?'', CHR ''*'', CHR ''['', CHR 0x5C}) r \<and>
     \<not> contains ''..'' r \<and> \<not> contains ''//'' r \<and> \<not> contains [CHR ''@'', CHR 0x7B] r"

definition removesuffix :: "string \<Rightarrow> string \<Rightarrow> string" where
  "removesuffix p s = (if p \<noteq> [] \<and> ends_with p s then take (length s - length p) s else s)"

record import_request =
  iq_url :: string
  iq_ref :: "string option"
  iq_path :: "string option"

definition check_source :: "string \<Rightarrow> string option \<Rightarrow> string \<Rightarrow> import_error + string \<times> string option \<times> string" where
  "check_source repository ref path =
     (if nonempty ref \<and> \<not> ref_ok (the ref) then Inl BadBranch
      else case safe_relative path True of Inl e \<Rightarrow> Inl e | Inr p \<Rightarrow> Inr (repository, ref, p))"

definition parse_source :: "(string \<Rightarrow> bool) \<Rightarrow> (string \<Rightarrow> string) \<Rightarrow> import_request \<Rightarrow>
    import_error + string \<times> string option \<times> string" where
  "parse_source brackets_ok unquote q =
     (case urlsplit brackets_ok (rstrip_by (\<lambda>c. c = CHR ''/'') (strip (iq_url q))) of
        None \<Rightarrow> Inl BadAddress
      | Some u \<Rightarrow>
          (if url_scheme u \<noteq> ''https'' \<or> lower (url_netloc u) \<noteq> ''github.com'' \<or> url_query u \<noteq> [] \<or> url_fragment u \<noteq> []
           then Inl BadAddress
           else let parts = split_on CHR ''/'' (strip_by (\<lambda>c. c = CHR ''/'') (unquote (url_path u))) in
             if length parts < 2 \<or> \<not> list_all repo_name_ok (take 2 parts) then Inl BadAddress
             else let repository = parts ! 0 @ ''/'' @ removesuffix ''.git'' (parts ! 1);
                      path = (case iq_path q of None \<Rightarrow> [] | Some p \<Rightarrow> p) in
               if length parts = 2 then check_source repository (iq_ref q) path
               else if length parts < 4 \<or> parts ! 2 \<noteq> ''tree'' then Inl BadAddress
               else let ref = (if nonempty (iq_ref q) then the (iq_ref q) else parts ! 3);
                        ref_parts = split_on CHR ''/'' ref in
                 if take (length ref_parts) (drop 3 parts) \<noteq> ref_parts then Inl BranchMismatch
                 else check_source repository (Some ref)
                   (case iq_path q of Some p \<Rightarrow> p | None \<Rightarrow> join ''/'' (drop (3 + length ref_parts) parts))))"

subsection \<open>The files of a commit\<close>

datatype item_kind = Directory | Regular | Special

record tree_item =
  ti_path :: string
  ti_kind :: item_kind
  ti_size :: int
  ti_data :: string

type_synonym file_map = "(string \<times> string) list"

text \<open>Case folding is that of ASCII letters.\<close>

fun take_items :: "nat \<Rightarrow> string list \<Rightarrow> int \<Rightarrow> file_map \<Rightarrow> tree_item list \<Rightarrow> import_error + file_map" where
  "take_items n seen used files [] = (if files = [] then Inl NoFiles else Inr files)"
| "take_items n seen used files (x # xs) =
     (if 50000 < n then Inl TooManyEntries
      else if \<not> relative_ok (ti_path x) then Inl BadPath
      else if ''.git'' \<in> lower ` set (split_on CHR ''/'' (ti_path x)) then Inl ReservedPath
      else if lower (ti_path x) \<in> set seen then Inl DuplicatePath
      else case ti_kind x of
        Directory \<Rightarrow> take_items (n + 1) (lower (ti_path x) # seen) used files xs
      | Special \<Rightarrow> Inl SpecialFile
      | Regular \<Rightarrow>
          (if max_files \<le> length files \<or> max_file_bytes < ti_size x \<or> max_total_bytes < used + ti_size x then Inl TooLarge
           else take_items (n + 1) (lower (ti_path x) # seen) (used + ti_size x) (files @ [(ti_path x, ti_data x)]) xs))"

text \<open>\<open>None\<close>: the selected path does not exist in the tree; the flag tells whether it is a directory.\<close>

definition repository_files :: "(bool \<times> tree_item list) option \<Rightarrow> import_error + file_map" where
  "repository_files tree =
     (case tree of
        None \<Rightarrow> Inl NotADirectory
      | Some (dir, items) \<Rightarrow> (if \<not> dir then Inl NotADirectory else take_items 1 [] 0 [] items))"

subsection \<open>Compiling a prompt\<close>

definition dirname :: "string \<Rightarrow> string" where
  "dirname p = rev (tl (dropWhile (\<lambda>c. c \<noteq> CHR ''/'') (rev p)))"

definition basename :: "string \<Rightarrow> string" where
  "basename p = rev (takeWhile (\<lambda>c. c \<noteq> CHR ''/'') (rev p))"

text \<open>\<open>PurePosixPath(p).suffix\<close>: from the last dot, unless it starts or ends the name.\<close>

definition suffix_of :: "string \<Rightarrow> string" where
  "suffix_of p =
     (let n = basename p; e = rev (takeWhile (\<lambda>c. c \<noteq> CHR ''.'') (rev n)) in
      if CHR ''.'' \<notin> set n \<or> e = [] \<or> length e + 1 = length n then [] else CHR ''.'' # e)"

definition is_text :: "string \<Rightarrow> bool" where
  "is_text p \<longleftrightarrow> lower (suffix_of p) \<in> {''.md'', ''.txt'', ''.json'', ''.yaml'', ''.yml'', ''.csv''}"

text \<open>
  A local link of a text: what it says, the path it resolves to against the folder of the
  text, and whether it is written as a link. \<open>links\<close> finds those with a text suffix.
\<close>

record text_link =
  tl_value :: string
  tl_resolved :: string
  tl_is_link :: bool

fun references :: "file_map \<Rightarrow> text_link list \<Rightarrow> string list \<times> msg list" where
  "references files [] = ([], [])"
| "references files (l # ls) =
     (let (found, warn) = references files ls in
      if tl_resolved l \<in> fst ` set files \<and> \<not> ends_with ''/SKILL.md'' (tl_resolved l) then (tl_resolved l # found, warn)
      else if tl_is_link l \<and> \<not> starts_with ''../'' (tl_resolved l)
      then (found, Lit ''reference outside the imported directory'' [tl_value l] # warn)
      else (found, warn))"

lemma references_files: "set (fst (references files ls)) \<subseteq> fst ` set files"
  by (induction ls) (auto simp: Let_def split: prod.splits)

record compiled =
  cp_prompt :: string
  cp_included :: "string list"
  cp_warnings :: "msg list"

definition section_of :: "string \<Rightarrow> string \<Rightarrow> string" where
  "section_of name content = [CHR 0x0A, CHR 0x0A] @ ''--- REFERENCE: '' @ name @ '' ---'' @ [CHR 0x0A] @ content"

text \<open>The loop over the pending references; \<open>None\<close> is the \<open>KeyError\<close> of a name that is not a file.\<close>

function (sequential) compile_loop :: "(string \<Rightarrow> string option) \<Rightarrow> (string \<Rightarrow> string \<Rightarrow> text_link list) \<Rightarrow> file_map \<Rightarrow>
    string list \<Rightarrow> string list \<Rightarrow> compiled \<Rightarrow> compiled option" where
  "compile_loop decode links files [] visited c = Some c"
| "compile_loop decode links files (name # pending) visited c =
     (if name \<in> set visited then compile_loop decode links files pending visited c
      else case map_of files name of
        None \<Rightarrow> None
      | Some raw \<Rightarrow>
          (case decode raw of
             None \<Rightarrow> compile_loop decode links files pending (name # visited)
               (c\<lparr>cp_warnings := cp_warnings c @ [Lit ''reference file is not UTF-8'' [name]]\<rparr>)
           | Some content \<Rightarrow>
               (if max_prompt_chars < length (cp_prompt c) + length (section_of name content)
                then compile_loop decode links files pending (name # visited)
                  (c\<lparr>cp_warnings := cp_warnings c @ [Lit ''reference file is over the limit'' [name]]\<rparr>)
                else let (found, warn) = references files (links content (dirname name)) in
                  compile_loop decode links files (pending @ found) (name # visited)
                    (c\<lparr>cp_prompt := cp_prompt c @ section_of name content, cp_included := cp_included c @ [name],
                       cp_warnings := cp_warnings c @ warn\<rparr>))))"
  by pat_completeness auto

definition unvisited :: "file_map \<Rightarrow> string list \<Rightarrow> nat" where
  "unvisited files visited = card (fst ` set files - set visited)"

lemma unvisited_less:
  assumes "map_of files name = Some raw" and "name \<notin> set visited"
  shows "unvisited files (name # visited) < unvisited files visited"
proof -
  have "fst ` set files - set (name # visited) \<subset> fst ` set files - set visited"
    using map_of_SomeD[OF assms(1)] assms(2) by force
  then show ?thesis unfolding unvisited_def by (rule psubset_card_mono[rotated]) simp
qed

termination compile_loop
  by (relation "measures [\<lambda>(dec, links, files, pending, visited, c). unvisited files visited,
      \<lambda>(dec, links, files, pending, visited, c). length pending]")
    (auto simp: unvisited_less)

definition reference_folder :: "string \<Rightarrow> file_map \<Rightarrow> string list" where
  "reference_folder entry files =
     (let folder = dirname entry; prefix = (if folder = [] then [] else folder @ ''/'') in
      filter (\<lambda>p. starts_with (prefix @ ''references/'') p \<and> is_text p) (sort (map fst files)))"

text \<open>\<open>compile_prompt\<close>; equal warnings are reported once, in the order of their first.\<close>

function dedup :: "'a list \<Rightarrow> 'a list" where
  "dedup [] = []"
| "dedup (x # xs) = x # dedup (filter (\<lambda>y. y \<noteq> x) xs)"
  by pat_completeness auto

termination dedup
  by (relation "measure length") (auto simp: less_Suc_eq_le)

lemma set_dedup [simp]: "set (dedup xs) = set xs"
  by (induction xs rule: dedup.induct) auto

definition compile_prompt :: "(string \<Rightarrow> string option) \<Rightarrow> (string \<Rightarrow> string \<Rightarrow> text_link list) \<Rightarrow> string \<Rightarrow> file_map \<Rightarrow>
    string \<Rightarrow> compiled option" where
  "compile_prompt decode links entry files body =
     (let (found, warn) = references files (links body (dirname entry)) in
      map_option (\<lambda>c. c\<lparr>cp_warnings := dedup (cp_warnings c)\<rparr>)
        (compile_loop decode links files (found @ reference_folder entry files) [entry]
          \<lparr>cp_prompt = body, cp_included = [], cp_warnings = warn\<rparr>))"

subsection \<open>What a prompt contains\<close>

definition text_of :: "(string \<Rightarrow> string option) \<Rightarrow> file_map \<Rightarrow> string \<Rightarrow> string" where
  "text_of decode files name = the (decode (the (map_of files name)))"

definition links_of :: "(string \<Rightarrow> string option) \<Rightarrow> (string \<Rightarrow> string \<Rightarrow> text_link list) \<Rightarrow> file_map \<Rightarrow> string \<Rightarrow> string set" where
  "links_of decode links files name = set (fst (references files (links (text_of decode files name) (dirname name))))"

definition left_out :: "string \<Rightarrow> compiled \<Rightarrow> bool" where
  "left_out name c \<longleftrightarrow> Lit ''reference file is not UTF-8'' [name] \<in> set (cp_warnings c) \<or>
     Lit ''reference file is over the limit'' [name] \<in> set (cp_warnings c)"

text \<open>What the loop maintains: \<open>todo\<close> names are still pending.\<close>

definition loop_ok :: "(string \<Rightarrow> string option) \<Rightarrow> (string \<Rightarrow> string \<Rightarrow> text_link list) \<Rightarrow> file_map \<Rightarrow> string \<Rightarrow> string \<Rightarrow>
    string set \<Rightarrow> string list \<Rightarrow> compiled \<Rightarrow> bool" where
  "loop_ok decode links files entry body todo visited c \<longleftrightarrow>
     cp_prompt c = body @ concat (map (\<lambda>n. section_of n (text_of decode files n)) (cp_included c)) \<and>
     length (cp_prompt c) \<le> max (length body) max_prompt_chars \<and>
     distinct (cp_included c) \<and> set (cp_included c) \<subseteq> fst ` set files - {entry} \<and> set (cp_included c) \<subseteq> set visited \<and>
     entry \<in> set visited \<and>
     (\<forall>n \<in> set visited. n = entry \<or> n \<in> set (cp_included c) \<or> left_out n c) \<and>
     (\<forall>m \<in> set (cp_included c). links_of decode links files m \<subseteq> set visited \<union> todo)"

lemma left_out_mono: "set (cp_warnings c) \<subseteq> set (cp_warnings c') \<Longrightarrow> left_out n c \<Longrightarrow> left_out n c'"
  by (auto simp: left_out_def)

lemma loop_skip:
  assumes "loop_ok decode links files entry body (set (name # pending)) visited c"
    and "w = Lit ''reference file is not UTF-8'' [name] \<or> w = Lit ''reference file is over the limit'' [name]"
  shows "loop_ok decode links files entry body (set pending) (name # visited) (c\<lparr>cp_warnings := cp_warnings c @ [w]\<rparr>)"
  using assms by (auto simp: loop_ok_def left_out_def)

lemma loop_include:
  assumes "loop_ok decode links files entry body (set (name # pending)) visited c"
    and "name \<notin> set visited" and "map_of files name = Some raw" and "decode raw = Some content"
    and "length (cp_prompt c) + length (section_of name content) \<le> max_prompt_chars"
    and "references files (links content (dirname name)) = (found, warn)"
  shows "loop_ok decode links files entry body (set (pending @ found)) (name # visited)
    (c\<lparr>cp_prompt := cp_prompt c @ section_of name content, cp_included := cp_included c @ [name],
       cp_warnings := cp_warnings c @ warn\<rparr>)"
proof -
  have tx: "text_of decode files name = content" using assms(3,4) by (simp add: text_of_def)
  have lk: "links_of decode links files name = set found" using assms(6) by (simp add: links_of_def tx)
  have nf: "name \<in> fst ` set files" using map_of_SomeD[OF assms(3)] by force
  have ok: "loop_ok decode links files entry body (insert name (set pending)) visited c" using assms(1) by simp
  show ?thesis
    using ok[unfolded loop_ok_def] assms(2,5) nf
    unfolding loop_ok_def by (auto simp: tx lk left_out_def)
qed

lemma compile_loop_ok:
  assumes "set pending \<subseteq> fst ` set files" and "loop_ok decode links files entry body (set pending) visited c"
  shows "\<exists>c' vs. compile_loop decode links files pending visited c = Some c' \<and> set visited \<union> set pending \<subseteq> set vs \<and>
    loop_ok decode links files entry body {} vs c' \<and> set (cp_warnings c) \<subseteq> set (cp_warnings c')"
  using assms
proof (induction decode links files pending visited c rule: compile_loop.induct)
  case (1 decode links files visited c)
  then show ?case by auto
next
  case (2 decode links files name pending visited c)
  show ?case
  proof (cases "name \<in> set visited")
    case True
    have "loop_ok decode links files entry body (set pending) visited c"
      using "2.prems"(2) True by (auto simp: loop_ok_def)
    from "2.IH"(1)[OF True _ this] "2.prems"(1) obtain c' vs where
      "compile_loop decode links files pending visited c = Some c'" "set visited \<union> set pending \<subseteq> set vs"
      "loop_ok decode links files entry body {} vs c'" "set (cp_warnings c) \<subseteq> set (cp_warnings c')" by auto
    with True show ?thesis by (intro exI[of _ c'] exI[of _ vs]) auto
  next
    case False
    from "2.prems"(1) obtain raw where raw: "map_of files name = Some raw"
      by (cases "map_of files name") (auto simp: map_of_eq_None_iff)
    have rest: "set pending \<subseteq> fst ` set files" using "2.prems"(1) by simp
    show ?thesis
    proof (cases "decode raw")
      case None
      from "2.IH"(2)[OF False raw None rest loop_skip[OF "2.prems"(2)]] False raw None
      show ?thesis by fastforce
    next
      case (Some content)
      show ?thesis
      proof (cases "max_prompt_chars < length (cp_prompt c) + length (section_of name content)")
        case True
        from "2.IH"(3)[OF False raw Some True rest loop_skip[OF "2.prems"(2)]] False raw Some True
        show ?thesis by fastforce
      next
        case len: False
        obtain found warn where r: "references files (links content (dirname name)) = (found, warn)"
          by (cases "references files (links content (dirname name))")
        have sub: "set (pending @ found) \<subseteq> fst ` set files"
          using rest references_files[of files "links content (dirname name)"] r by auto
        from "2.IH"(4)[OF False raw Some len r[symmetric] refl sub
            loop_include[OF "2.prems"(2) False raw Some _ r]] len
        obtain c' vs where "compile_loop decode links files (pending @ found) (name # visited)
            (c\<lparr>cp_prompt := cp_prompt c @ section_of name content, cp_included := cp_included c @ [name],
               cp_warnings := cp_warnings c @ warn\<rparr>) = Some c'"
          "set (name # visited) \<union> set (pending @ found) \<subseteq> set vs" "loop_ok decode links files entry body {} vs c'"
          "set (cp_warnings c @ warn) \<subseteq> set (cp_warnings c')" by auto
        with False raw Some len r show ?thesis by (intro exI[of _ c'] exI[of _ vs]) auto
      qed
    qed
  qed
qed

lemma left_out_dedup [simp]: "left_out n (c\<lparr>cp_warnings := dedup ws\<rparr>) = left_out n (c\<lparr>cp_warnings := ws\<rparr>)"
  by (simp add: left_out_def)

text \<open>
  C40: Compiling a package returns whatever its documents refer to, cycles included. The
  prompt is the body followed by the sections of the included files, within the limit (or
  the body alone when it is longer), no file is included twice or is the entry itself, and
  every file that the body, the reference folder or an included file points to is included,
  is the entry, or is reported as left out.
\<close>

theorem prompt_complete:
  "\<exists>c. compile_prompt decode links entry files body = Some c \<and>
    cp_prompt c = body @ concat (map (\<lambda>n. section_of n (text_of decode files n)) (cp_included c)) \<and>
    length (cp_prompt c) \<le> max (length body) max_prompt_chars \<and>
    distinct (cp_included c) \<and> set (cp_included c) \<subseteq> fst ` set files - {entry} \<and>
    (\<forall>n \<in> set (fst (references files (links body (dirname entry)))) \<union> set (reference_folder entry files) \<union>
          (\<Union>m \<in> set (cp_included c). links_of decode links files m).
      n = entry \<or> n \<in> set (cp_included c) \<or> left_out n c)"
proof -
  obtain found warn where r: "references files (links body (dirname entry)) = (found, warn)"
    by (cases "references files (links body (dirname entry))")
  let ?p = "found @ reference_folder entry files" and ?c = "\<lparr>cp_prompt = body, cp_included = [], cp_warnings = warn\<rparr>"
  have sub: "set ?p \<subseteq> fst ` set files"
    using references_files[of files "links body (dirname entry)"] r
    by (auto simp: reference_folder_def Let_def)
  have "loop_ok decode links files entry body (set ?p) [entry] ?c" by (simp add: loop_ok_def)
  from compile_loop_ok[OF sub this] obtain c vs where
    run: "compile_loop decode links files ?p [entry] ?c = Some c" and vs: "set [entry] \<union> set ?p \<subseteq> set vs"
    and ok: "loop_ok decode links files entry body {} vs c" by blast
  have c: "compile_prompt decode links entry files body = Some (c\<lparr>cp_warnings := dedup (cp_warnings c)\<rparr>)"
    by (simp add: compile_prompt_def r run)
  have lo: "left_out n (c\<lparr>cp_warnings := dedup (cp_warnings c)\<rparr>) = left_out n c" for n
    by (simp add: left_out_def)
  have all: "n = entry \<or> n \<in> set (cp_included c) \<or> left_out n c"
    if "n \<in> set (fst (references files (links body (dirname entry)))) \<union> set (reference_folder entry files) \<union>
      (\<Union>m \<in> set (cp_included c). links_of decode links files m)" for n
  proof -
    have "n \<in> set vs" using that vs ok[unfolded loop_ok_def] r by auto
    then show ?thesis using ok[unfolded loop_ok_def] by blast
  qed
  let ?d = "c\<lparr>cp_warnings := dedup (cp_warnings c)\<rparr>"
  have fields: "cp_prompt ?d = cp_prompt c" "cp_included ?d = cp_included c" by simp_all
  show ?thesis
    unfolding c
    by (rule exI[of _ ?d], intro conjI refl ballI, unfold fields lo)
      (use ok[unfolded loop_ok_def] all in \<open>blast+\<close>)
qed

theorem prompt_complete_witness:
  "\<exists>c. compile_prompt Some (\<lambda>t f. if t = ''x'' then [\<lparr>tl_value = ''b.md'', tl_resolved = ''b.md'', tl_is_link = True\<rparr>] else [])
      ''SKILL.md'' [(''SKILL.md'', ''x''), (''b.md'', ''y'')] ''x'' = Some c \<and>
    (''b.md'' \<in> set (cp_included c) \<or> left_out ''b.md'' c)"
proof -
  let ?l = "\<lambda>t (f::string). if t = ''x'' then [\<lparr>tl_value = ''b.md'', tl_resolved = ''b.md'', tl_is_link = True\<rparr>] else []"
  have "''b.md'' \<in> set (fst (references [(''SKILL.md'', ''x''), (''b.md'', ''y'')] (?l ''x'' (dirname ''SKILL.md''))))"
    by (simp add: ends_with_def starts_with_def)
  moreover obtain c where c: "compile_prompt Some ?l ''SKILL.md'' [(''SKILL.md'', ''x''), (''b.md'', ''y'')] ''x'' = Some c"
    and all: "\<forall>n \<in> set (fst (references [(''SKILL.md'', ''x''), (''b.md'', ''y'')] (?l ''x'' (dirname ''SKILL.md'')))) \<union>
        set (reference_folder ''SKILL.md'' [(''SKILL.md'', ''x''), (''b.md'', ''y'')]) \<union>
        (\<Union>m \<in> set (cp_included c). links_of Some ?l [(''SKILL.md'', ''x''), (''b.md'', ''y'')] m).
      n = ''SKILL.md'' \<or> n \<in> set (cp_included c) \<or> left_out n c"
    using prompt_complete[of Some ?l "''SKILL.md''" "[(''SKILL.md'', ''x''), (''b.md'', ''y'')]" "''x''"] by (elim exE conjE) (rule that)
  ultimately have b: "''b.md'' = ''SKILL.md'' \<or> ''b.md'' \<in> set (cp_included c) \<or> left_out ''b.md'' c" by (intro bspec[OF all] UnI1)
  from b have "''b.md'' \<in> set (cp_included c) \<or> left_out ''b.md'' c" by simp
  with c show ?thesis by (intro exI[of _ c] conjI)
qed

subsection \<open>What is taken from a repository\<close>

definition stored_path_ok :: "string \<Rightarrow> bool" where
  "stored_path_ok p \<longleftrightarrow>
     (\<forall>q \<in> set (split_on CHR ''/'' p). q \<notin> {[], ''.'', ''..''} \<and> lower q \<noteq> ''.git'') \<and>
     CHR 0x5C \<notin> set p \<and> CHR '':'' \<notin> set p"

lemma take_items_ok:
  assumes "take_items n seen used files items = Inr files'"
    and "\<forall>p \<in> fst ` set files. stored_path_ok p" and "distinct (map (lower \<circ> fst) files)"
    and "lower ` fst ` set files \<subseteq> set seen" and "length files \<le> max_files"
  shows "(\<forall>p \<in> fst ` set files'. stored_path_ok p) \<and> distinct (map (lower \<circ> fst) files') \<and>
    length files' \<le> max_files \<and> files' \<noteq> []"
  using assms
proof (induction n seen used files items rule: take_items.induct)
  case (1 n seen used files)
  then show ?case by (auto split: if_splits)
next
  case (2 n seen used files x xs)
  from "2.prems"(1) have c: "\<not> 50000 < n" "relative_ok (ti_path x)"
      "''.git'' \<notin> lower ` set (split_on CHR ''/'' (ti_path x))" "lower (ti_path x) \<notin> set seen"
    by (auto split: if_splits)
  have ok: "stored_path_ok (ti_path x)"
    unfolding stored_path_ok_def
  proof (intro conjI ballI)
    fix q assume q: "q \<in> set (split_on CHR ''/'' (ti_path x))"
    show "q \<notin> {[], ''.'', ''..''}" using c(2) q by (simp only: relative_ok_def list_all_iff) blast
    show "lower q \<noteq> ''.git''" using c(3) q by (metis imageI)
  next
    show "CHR 0x5C \<notin> set (ti_path x)" "CHR '':'' \<notin> set (ti_path x)" using c(2) by (simp_all add: relative_ok_def)
  qed
  have rel: "\<not> \<not> relative_ok (ti_path x)" using c(2) by simp
  show ?case
  proof (cases "ti_kind x")
    case Directory
    have run: "take_items (n + 1) (lower (ti_path x) # seen) used files xs = Inr files'"
      using "2.prems"(1) Directory c by simp
    show ?thesis
      by (rule "2.IH"(1)[OF c(1) rel c(3,4) Directory run "2.prems"(2,3) _ "2.prems"(5)]) (use "2.prems"(4) in auto)
  next
    case Regular
    from Regular c "2.prems"(1) have fit: "\<not> (max_files \<le> length files \<or> max_file_bytes < ti_size x \<or> max_total_bytes < used + ti_size x)"
      and run: "take_items (n + 1) (lower (ti_path x) # seen) (used + ti_size x) (files @ [(ti_path x, ti_data x)]) xs = Inr files'"
      by (auto split: if_splits)
    show ?thesis
    proof (rule "2.IH"(2)[OF c(1) rel c(3,4) Regular fit run])
      show "\<forall>p \<in> fst ` set (files @ [(ti_path x, ti_data x)]). stored_path_ok p" using "2.prems"(2) ok by simp
      show "distinct (map (lower \<circ> fst) (files @ [(ti_path x, ti_data x)]))"
        using "2.prems"(3,4) c(4) by (auto simp: image_image comp_def)
      show "lower ` fst ` set (files @ [(ti_path x, ti_data x)]) \<subseteq> set (lower (ti_path x) # seen)" using "2.prems"(4) by auto
      show "length (files @ [(ti_path x, ti_data x)]) \<le> max_files" using fit by simp
    qed
  next
    case Special
    with c "2.prems"(1) show ?thesis by (auto split: if_splits)
  qed
qed

text \<open>
  The files that an import stores lie below the directory of the package whatever the
  repository contains: no path is absolute, climbs up, enters a \<open>.git\<close> directory or holds a
  separator of another system, no two differ only in the case of letters, and there are
  at most 2000 of them.
\<close>

theorem import_paths_confined:
  assumes "repository_files tree = Inr files"
  shows "(\<forall>p \<in> fst ` set files. stored_path_ok p) \<and> distinct (map (lower \<circ> fst) files) \<and>
    0 < length files \<and> length files \<le> 2000"
proof -
  from assms obtain items where "take_items 1 [] 0 [] items = Inr files"
    by (auto simp: repository_files_def split: option.splits if_splits)
  from take_items_ok[OF this] show ?thesis by (auto simp: max_files_def)
qed

definition sample_tree :: "tree_item list" where
  "sample_tree = [\<lparr>ti_path = ''a'', ti_kind = Directory, ti_size = 0, ti_data = []\<rparr>,
     \<lparr>ti_path = ''a/b'', ti_kind = Regular, ti_size = 1, ti_data = ''y''\<rparr>]"

theorem import_paths_confined_witness:
  "repository_files (Some (True, sample_tree)) = Inr [(''a/b'', ''y'')] \<and> stored_path_ok ''a/b''"
proof -
  have r: "repository_files (Some (True, sample_tree)) = Inr [(''a/b'', ''y'')]"
    by (simp add: repository_files_def sample_tree_def relative_ok_def starts_with_def code_def lower_def is_upper_def
        max_files_def max_file_bytes_def max_total_bytes_def)
  from import_paths_confined[OF this] r show ?thesis by simp
qed

end
