(* ===== verification/GenerationLedger.thy ===== *)
theory GenerationLedger
  imports JobRoutes
begin

text \<open>
  The life of generation jobs and their attempts under every transaction that touches
  them: the workers' claims, results and expiries, the routes of jobs, tasks and skills,
  and the queueing of new jobs. Events are the steps of a run; what they keep is stated
  job by job, between a job and the list of its attempts.
\<close>

subsection \<open>Events\<close>

text \<open>
  The answers of the skill service, which runs elsewhere and reads the data at another
  time, are part of the events that ask it.
\<close>

datatype gen_event =
    Claim_job time int string "int \<Rightarrow> task_selection option" "int \<Rightarrow> json list \<Rightarrow> json list option"
  | Renew_lease time int string
  | Expire_lease time int
  | Store time bool int string generated
  | Fail time rat int string msg bool "int option"
  | Requeue time int string
  | Resolve_source gen_job
  | Retry_job time int int
  | Delete_job int
  | Generate "int list \<Rightarrow> skill list option" time string string generate_request
  | Collect "int \<Rightarrow> task_selection option" time "string list"
  | Scan_backfills "int \<Rightarrow> task_selection option" time int
  | Create_task time int task_create
  | Copy_task time int int
  | Patch_task time int int task_patch
  | Pause_task time int int
  | Resume_task time int int
  | Archive_task time int int
  | Decide_queue time int int queue_decision
  | Request_backfill time int int time time "string option" bool
  | Patch_skill time int skill_patch
  | Delete_skill time int
  | Other_work "db \<Rightarrow> db"

record gen_params =
  gp_cfg :: ai_worker_cfg
  gp_worker :: string
  gp_api_key :: "data_source \<Rightarrow> msg + string"
  gp_ai :: ai_env
  gp_listen :: listen_env

definition ok_or :: "db \<Rightarrow> 'e + db \<Rightarrow> db" where
  "ok_or d r = (case r of Inl e \<Rightarrow> d | Inr d' \<Rightarrow> d')"

definition ok_fst :: "db \<Rightarrow> 'e + db \<times> 'a \<Rightarrow> db" where
  "ok_fst d r = (case r of Inl e \<Rightarrow> d | Inr (d', _) \<Rightarrow> d')"

definition some_fst :: "db \<Rightarrow> (db \<times> 'a) option \<Rightarrow> db" where
  "some_fst d r = (case r of None \<Rightarrow> d | Some (d', _) \<Rightarrow> d')"

text \<open>Work that leaves the tables of generation alone; identifiers only grow.\<close>

definition elsewhere :: "(db \<Rightarrow> db) \<Rightarrow> db \<Rightarrow> db" where
  "elsewhere f d =
     (f d)\<lparr>gen_jobs := gen_jobs d, gen_attempts := gen_attempts d, listen_tasks := listen_tasks d,
           serial := max (serial d) (serial (f d))\<rparr>"

fun gen_step :: "gen_params \<Rightarrow> gen_event \<Rightarrow> db \<Rightarrow> db" where
  "gen_step p (Claim_job now i token resolve material) d =
     some_fst d (claim_job (gp_cfg p) resolve material (gp_worker p) now i token d)"
| "gen_step p (Renew_lease now i token) d = fst (renew_job (gp_cfg p) now i token d)"
| "gen_step p (Expire_lease now i) d = expire_lease now i d"
| "gen_step p (Store now fails i token g) d = some_fst d (commit_article now True fails i token g d)"
| "gen_step p (Fail now jitter i token m retry http) d = some_fst d (commit_ai_failure now True jitter i token m retry http d)"
| "gen_step p (Requeue now i token) d = requeue_cancelled now i token d"
| "gen_step p (Resolve_source job) d = ok_fst d (provider_request (gp_api_key p) job d)"
| "gen_step p (Retry_job now admin i) d = ok_or d (retry_ai_job now admin i d)"
| "gen_step p (Delete_job i) d = ok_fst d (delete_ai_job i d)"
| "gen_step p (Generate resolve now fresh tweet q) d = ok_fst d (generate_from_tweet (gp_ai p) resolve now fresh tweet q d)"
| "gen_step p (Collect resolve now xids) d = some_fst d (enqueue_jobs_for_x_tweet_ids (gp_ai p) resolve now xids d)"
| "gen_step p (Scan_backfills resolve now n) d = ok_fst d (process_pending_backfills (gp_ai p) resolve now n d)"
| "gen_step p (Create_task now admin c) d = ok_fst d (create_task (gp_listen p) now (Some admin) None c d)"
| "gen_step p (Copy_task now admin i) d = ok_fst d (copy_listen_task (gp_listen p) now admin i d)"
| "gen_step p (Patch_task now admin i c) d = ok_or d (patch_listen_task (gp_listen p) now admin i c d)"
| "gen_step p (Pause_task now admin i) d = ok_or d (pause_listen_task now admin i d)"
| "gen_step p (Resume_task now admin i) d = ok_or d (resume_listen_task (gp_listen p) now admin i d)"
| "gen_step p (Archive_task now admin i) d = ok_or d (archive_listen_task now admin i d)"
| "gen_step p (Decide_queue now admin i q) d = ok_or d (decide_listen_queue (gp_listen p) now admin i q d)"
| "gen_step p (Request_backfill now admin i a b req ex) d = ok_fst d (create_listen_backfill (gp_listen p) now admin i a b req ex d)"
| "gen_step p (Patch_skill now i c) d = ok_or d (patch_ai_skill now i c d)"
| "gen_step p (Delete_skill now i) d = ok_or d (delete_ai_skill now i d)"
| "gen_step p (Other_work f) d = elsewhere f d"

fun gen_run :: "gen_params \<Rightarrow> gen_event list \<Rightarrow> db \<Rightarrow> db" where
  "gen_run p [] d = d"
| "gen_run p (e # es) d = gen_run p es (gen_step p e d)"

lemma gen_run_append: "gen_run p (es @ fs) d = gen_run p fs (gen_run p es d)"
  by (induction es arbitrary: d) simp_all

subsection \<open>A job and its attempts\<close>

definition job_states :: "string list" where
  "job_states = [''queued'', ''running'', ''retry_wait'', ''succeeded'', ''failed'', ''cancelled'']"

definition active :: "gen_job \<Rightarrow> bool" where
  "active r \<longleftrightarrow> gj_status r = ''running''"

definition job_ok :: "gen_job \<Rightarrow> bool" where
  "job_ok r \<longleftrightarrow>
     gj_status r \<in> set job_states \<and> 0 \<le> gj_attempts r \<and> gj_attempts r \<le> max 0 (gj_max_attempts r) \<and>
     gj_attempts r \<le> gj_lifetime_attempts r \<and> (active r \<longrightarrow> 0 < gj_attempts r) \<and>
     (gj_claim_token r \<noteq> None) = active r \<and> (gj_lease_expires_at r \<noteq> None) = active r"

definition attempt_ok :: "gen_attempt \<Rightarrow> bool" where
  "attempt_ok a \<longleftrightarrow>
     ga_status a \<in> {''running'', ''succeeded'', ''failed'', ''interrupted''} \<and>
     (ga_ended_at a = None) = (ga_status a = ''running'')"

definition attempts_of :: "int \<Rightarrow> db \<Rightarrow> gen_attempt list" where
  "attempts_of i d = filter (\<lambda>a. ga_job_id a = i) (gen_attempts d)"

text \<open>
  The attempts are numbered from one without a gap, and one is open exactly while the
  job runs: the last.
\<close>

definition job_ledger :: "gen_job \<Rightarrow> gen_attempt list \<Rightarrow> bool" where
  "job_ledger r as \<longleftrightarrow>
     job_ok r \<and> map ga_lifetime_number as = [1..gj_lifetime_attempts r] \<and>
     (\<forall>a \<in> set as. attempt_ok a \<and> (ga_status a = ''running'') = (active r \<and> ga_lifetime_number a = gj_lifetime_attempts r))"

definition ledger_ok :: "db \<Rightarrow> bool" where
  "ledger_ok d \<longleftrightarrow>
     distinct (map gj_id (gen_jobs d)) \<and> distinct (map ga_id (gen_attempts d)) \<and>
     (\<forall>r \<in> set (gen_jobs d). gj_id r < serial d \<and> job_ledger r (attempts_of (gj_id r) d)) \<and>
     (\<forall>a \<in> set (gen_attempts d). ga_id a < serial d \<and> ga_job_id a \<in> gj_id ` set (gen_jobs d))"

lemmas ledger_jobs = ledger_ok_def[THEN iffD1, THEN conjunct1]
lemmas ledger_attempts = ledger_ok_def[THEN iffD1, THEN conjunct2, THEN conjunct1]
lemmas ledger_rows = ledger_ok_def[THEN iffD1, THEN conjunct2, THEN conjunct2, THEN conjunct1]
lemmas ledger_keys = ledger_ok_def[THEN iffD1, THEN conjunct2, THEN conjunct2, THEN conjunct2]

lemma ledger_get: "ledger_ok d \<Longrightarrow> gj_get i d = Some r \<Longrightarrow> gj_id r = i \<and> i < serial d \<and> job_ledger r (attempts_of i d)"
  using ledger_rows row_get_Some[of gj_id i "gen_jobs d" r] by (auto simp: gj_get_def)

lemma ledger_mem: "ledger_ok d \<Longrightarrow> r \<in> set (gen_jobs d) \<Longrightarrow> gj_get (gj_id r) d = Some r"
  unfolding gj_get_def by (rule row_get_unique[OF ledger_jobs])

text \<open>Only jobs, attempts and the next identifier matter.\<close>

definition same_ledger :: "db \<Rightarrow> db \<Rightarrow> bool" where
  "same_ledger d d' \<longleftrightarrow> gen_jobs d' = gen_jobs d \<and> gen_attempts d' = gen_attempts d \<and> serial d \<le> serial d'"

lemma same_ledger_refl [simp]: "same_ledger d d"
  by (simp add: same_ledger_def)

lemma same_ledger_trans: "same_ledger d d1 \<Longrightarrow> same_ledger d1 d2 \<Longrightarrow> same_ledger d d2"
  by (simp add: same_ledger_def)

lemma same_ledger_ok: "same_ledger d d' \<Longrightarrow> ledger_ok d \<Longrightarrow> ledger_ok d'"
  by (force simp: same_ledger_def ledger_ok_def attempts_of_def)

subsection \<open>Kinds of change\<close>

text \<open>A row changes while its attempts stay.\<close>

lemma ledger_row:
  assumes ok: "ledger_ok d" and get: "gj_get i d = Some r" and id: "gj_id r' = i"
    and led: "job_ledger r' (attempts_of i d)"
    and d': "gen_jobs d' = row_put gj_id r' (gen_jobs d)" "gen_attempts d' = gen_attempts d" "serial d \<le> serial d'"
  shows "ledger_ok d'"
proof -
  have at: "attempts_of j d' = attempts_of j d" for j by (simp add: attempts_of_def d')
  have i: "i < serial d" "i \<in> gj_id ` set (gen_jobs d)" using ledger_get[OF ok get] row_get_Some[of gj_id i "gen_jobs d" r] get
    by (auto simp: gj_get_def)
  have "gj_id x < serial d' \<and> job_ledger x (attempts_of (gj_id x) d')" if "x \<in> set (gen_jobs d')" for x
    using set_row_put_other[of x gj_id r' "gen_jobs d"] that ledger_rows[OF ok] led id i d' at by fastforce
  moreover have "gj_id ` set (gen_jobs d') = gj_id ` set (gen_jobs d)"
    unfolding d' by (metis map_row_put set_map)
  moreover have "map gj_id (gen_jobs d') = map gj_id (gen_jobs d)" by (simp add: d')
  ultimately show ?thesis
    using ledger_jobs[OF ok] ledger_attempts[OF ok] ledger_keys[OF ok] d'(2,3) unfolding ledger_ok_def by force
qed

text \<open>The open attempt is closed and the job leaves the running state.\<close>

lemma filter_row_put:
  "(\<And>x. x \<in> set xs \<Longrightarrow> key x = key a \<Longrightarrow> P x = P a) \<Longrightarrow> filter P (row_put key a xs) = row_put key a (filter P xs)"
  by (induction xs) (auto simp: row_put_def row_update_def)

lemma map_row_put_same:
  "(\<And>x. x \<in> set xs \<Longrightarrow> key x = key a \<Longrightarrow> f x = f a) \<Longrightarrow> map f (row_put key a xs) = map f xs"
  by (induction xs) (auto simp: row_put_def row_update_def)

lemma open_attempt_exists:
  assumes "ledger_ok d" and "gj_get i d = Some r" and "active r"
  obtains a where "find (open_attempt r) (gen_attempts d) = Some a" "a \<in> set (attempts_of i d)"
    "ga_job_id a = i" "ga_lifetime_number a = gj_lifetime_attempts r" "ga_status a = ''running''"
proof -
  note l = ledger_get[OF assms(1,2)]
  have j: "job_ledger r (attempts_of i d)" and id: "gj_id r = i" using l by simp_all
  have pos: "1 \<le> gj_lifetime_attempts r" using j assms(3) by (auto simp: job_ledger_def job_ok_def)
  have "gj_lifetime_attempts r \<in> set (map ga_lifetime_number (attempts_of i d))"
    using j pos by (simp add: job_ledger_def)
  then obtain b where b: "b \<in> set (gen_attempts d)" "open_attempt r b"
    by (auto simp: attempts_of_def open_attempt_def id)
  then obtain a where a: "find (open_attempt r) (gen_attempts d) = Some a"
    by (cases "find (open_attempt r) (gen_attempts d)") (auto simp: find_None_iff)
  then have mem: "a \<in> set (gen_attempts d)" "open_attempt r a" by (auto simp: find_Some_iff)
  then have "a \<in> set (attempts_of i d)" by (simp add: attempts_of_def open_attempt_def id)
  moreover from this j assms(3) mem have "ga_status a = ''running''" by (simp add: job_ledger_def open_attempt_def)
  ultimately show thesis using a mem by (intro that[of a]) (simp_all add: open_attempt_def id)
qed

lemma ledger_close:
  assumes ok: "ledger_ok d" and get: "gj_get i d = Some r" and "active r"
    and a: "a \<in> set (attempts_of i d)" "ga_lifetime_number a = gj_lifetime_attempts r"
    and a': "ga_id a' = ga_id a" "ga_job_id a' = i" "ga_lifetime_number a' = ga_lifetime_number a"
      "attempt_ok a'" "ga_status a' \<noteq> ''running''"
    and r': "gj_id r' = i" "job_ok r'" "\<not> active r'" "gj_lifetime_attempts r' = gj_lifetime_attempts r"
    and d': "gen_jobs d' = row_put gj_id r' (gen_jobs d)" "gen_attempts d' = row_put ga_id a' (gen_attempts d)"
      "serial d \<le> serial d'"
  shows "ledger_ok d'"
proof -
  have amem: "a \<in> set (gen_attempts d)" "ga_job_id a = i" using a(1) by (simp_all add: attempts_of_def)
  have same: "x = a" if "x \<in> set (gen_attempts d)" "ga_id x = ga_id a'" for x
    using that amem a'(1) ledger_attempts[OF ok] by (auto simp: distinct_map inj_on_def)
  have at: "attempts_of j d' = row_put ga_id a' (attempts_of j d)" for j
    unfolding attempts_of_def d'
  proof (rule filter_row_put)
    fix x assume x: "x \<in> set (gen_attempts d)" "ga_id x = ga_id a'"
    show "(ga_job_id x = j) = (ga_job_id a' = j)" using same[OF x] amem(2) a'(2) by simp
  qed
  have other: "attempts_of j d' = attempts_of j d" if "j \<noteq> i" for j
  proof -
    have "ga_id x \<noteq> ga_id a'" if "x \<in> set (attempts_of j d)" for x
      using that \<open>j \<noteq> i\<close> same[of x] amem by (auto simp: attempts_of_def)
    then show ?thesis unfolding at row_put_def by (intro row_update_none) auto
  qed
  have led: "job_ledger r (attempts_of i d)" using ledger_get[OF ok get] by simp
  have sub: "x = a" if "x \<in> set (attempts_of i d)" "ga_id x = ga_id a'" for x
    using that same[of x] by (simp add: attempts_of_def)
  have nums: "map ga_lifetime_number (attempts_of i d') = map ga_lifetime_number (attempts_of i d)"
    unfolding at
  proof (rule map_row_put_same)
    fix x assume x: "x \<in> set (attempts_of i d)" "ga_id x = ga_id a'"
    show "ga_lifetime_number x = ga_lifetime_number a'" using sub[OF x] a'(3) by simp
  qed
  have lt: "ga_lifetime_number x \<noteq> gj_lifetime_attempts r" if "x \<in> set (attempts_of i d)" "x \<noteq> a" for x
  proof -
    have "distinct (map ga_lifetime_number (attempts_of i d))" using led by (simp add: job_ledger_def)
    then show ?thesis using that a by (auto simp: distinct_map inj_on_def)
  qed
  have "job_ledger r' (attempts_of i d')"
    unfolding job_ledger_def
  proof (intro conjI ballI)
    show "job_ok r'" by (rule r'(2))
    show "map ga_lifetime_number (attempts_of i d') = [1..gj_lifetime_attempts r']"
      unfolding nums r'(4) using led by (simp add: job_ledger_def)
    fix x assume "x \<in> set (attempts_of i d')"
    then consider "x = a'" | "x \<in> set (attempts_of i d)" "x \<noteq> a"
      unfolding at using set_row_put_other[of x ga_id a' "attempts_of i d"] a'(1) by auto
    then have "attempt_ok x \<and> ga_status x \<noteq> ''running''"
    proof cases
      case 1
      then show ?thesis using a' by simp
    next
      case 2
      then show ?thesis using led lt unfolding job_ledger_def by blast
    qed
    then show "attempt_ok x" "(ga_status x = ''running'') = (active r' \<and> ga_lifetime_number x = gj_lifetime_attempts r')"
      using r'(3) by simp_all
  qed
  then have rows: "gj_id x < serial d' \<and> job_ledger x (attempts_of (gj_id x) d')" if "x \<in> set (gen_jobs d')" for x
    using set_row_put_other[of x gj_id r' "gen_jobs d"] that ledger_rows[OF ok] r'(1) other d'(1,3) ledger_get[OF ok get]
    by fastforce
  have keys: "gj_id ` set (gen_jobs d') = gj_id ` set (gen_jobs d)"
    unfolding d' by (metis map_row_put set_map)
  have "ga_id x < serial d' \<and> ga_job_id x \<in> gj_id ` set (gen_jobs d')" if "x \<in> set (gen_attempts d')" for x
    using set_row_put_other[of x ga_id a' "gen_attempts d"] that ledger_keys[OF ok] amem a' d'(2,3) keys by fastforce
  with rows show ?thesis
    using ledger_jobs[OF ok] ledger_attempts[OF ok] d' unfolding ledger_ok_def by simp
qed

text \<open>A claim opens the next attempt.\<close>

lemma ledger_open:
  assumes ok: "ledger_ok d" and get: "gj_get i d = Some r" and "\<not> active r"
    and r': "gj_id r' = i" "job_ok r'" "active r'" "gj_lifetime_attempts r' = gj_lifetime_attempts r + 1"
    and a: "ga_id a = serial d" "ga_job_id a = i" "ga_lifetime_number a = gj_lifetime_attempts r'" "ga_status a = ''running''"
      "ga_ended_at a = None"
    and d': "gen_jobs d' = row_put gj_id r' (gen_jobs d)" "gen_attempts d' = gen_attempts d @ [a]" "serial d < serial d'"
  shows "ledger_ok d'"
proof -
  have led: "job_ledger r (attempts_of i d)" using ledger_get[OF ok get] by simp
  have at: "attempts_of j d' = (if j = i then attempts_of i d @ [a] else attempts_of j d)" for j
    by (simp add: attempts_of_def d' a)
  have life: "0 \<le> gj_lifetime_attempts r" using led by (simp add: job_ledger_def job_ok_def)
  have old: "attempt_ok x \<and> ga_status x \<noteq> ''running'' \<and> ga_lifetime_number x \<noteq> gj_lifetime_attempts r'"
    if "x \<in> set (attempts_of i d)" for x
  proof -
    have "ga_lifetime_number x \<in> set (map ga_lifetime_number (attempts_of i d))" using that by simp
    moreover have "map ga_lifetime_number (attempts_of i d) = [1..gj_lifetime_attempts r]"
      using led by (simp only: job_ledger_def)
    ultimately have "ga_lifetime_number x \<in> set [1..gj_lifetime_attempts r]" by (simp only:)
    then have "ga_lifetime_number x \<noteq> gj_lifetime_attempts r'" using r'(4) by simp
    with that led assms(3) show ?thesis unfolding job_ledger_def by blast
  qed
  have "job_ledger r' (attempts_of i d')"
    unfolding job_ledger_def
  proof (intro conjI ballI)
    show "job_ok r'" by (rule r'(2))
    have "[1..gj_lifetime_attempts r + 1] = [1..gj_lifetime_attempts r] @ [gj_lifetime_attempts r + 1]"
      using life by (simp add: upto_rec2)
    then show "map ga_lifetime_number (attempts_of i d') = [1..gj_lifetime_attempts r']"
      using led by (simp add: at job_ledger_def r'(4) a(3))
    fix x assume "x \<in> set (attempts_of i d')"
    then consider "x = a" | "x \<in> set (attempts_of i d)" by (auto simp: at)
    then have "attempt_ok x \<and> (ga_status x = ''running'') = (active r' \<and> ga_lifetime_number x = gj_lifetime_attempts r')"
    proof cases
      case 1
      then show ?thesis using a r'(3) by (simp add: attempt_ok_def)
    next
      case 2
      then show ?thesis using old[of x] by blast
    qed
    then show "attempt_ok x" "(ga_status x = ''running'') = (active r' \<and> ga_lifetime_number x = gj_lifetime_attempts r')"
      by simp_all
  qed
  then have rows: "gj_id x < serial d' \<and> job_ledger x (attempts_of (gj_id x) d')" if "x \<in> set (gen_jobs d')" for x
    using set_row_put_other[of x gj_id r' "gen_jobs d"] that ledger_rows[OF ok] r'(1) at d'(1,3) ledger_get[OF ok get]
    by fastforce
  have keys: "gj_id ` set (gen_jobs d') = gj_id ` set (gen_jobs d)"
    unfolding d' by (metis map_row_put set_map)
  have i: "i \<in> gj_id ` set (gen_jobs d)" using row_get_Some[of gj_id i "gen_jobs d" r] get by (auto simp: gj_get_def)
  have fresh: "ga_id a \<notin> ga_id ` set (gen_attempts d)" using ledger_keys[OF ok] a(1) by force
  have "ga_id x < serial d' \<and> ga_job_id x \<in> gj_id ` set (gen_jobs d')" if "x \<in> set (gen_attempts d')" for x
    using that ledger_keys[OF ok] a(1,2) d'(2,3) keys i by fastforce
  with rows fresh show ?thesis
    using ledger_jobs[OF ok] ledger_attempts[OF ok] d'(1,2) unfolding ledger_ok_def by simp
qed

subsection \<open>Queueing, cancelling and deleting\<close>

definition same_states :: "db \<Rightarrow> db \<Rightarrow> bool" where
  "same_states d d' \<longleftrightarrow>
     map (\<lambda>k. (lt_id k, lt_desired_state k)) (listen_tasks d') = map (\<lambda>k. (lt_id k, lt_desired_state k)) (listen_tasks d)"

definition has_state :: "int \<Rightarrow> string \<Rightarrow> db \<Rightarrow> bool" where
  "has_state t st d \<longleftrightarrow> (t, st) \<in> set (map (\<lambda>k. (lt_id k, lt_desired_state k)) (listen_tasks d))"

lemma has_state_same: "same_states d d' \<Longrightarrow> has_state t st d' = has_state t st d"
  by (simp only: same_states_def has_state_def)

definition fresh_job :: "int \<Rightarrow> int \<Rightarrow> gen_job \<Rightarrow> bool" where
  "fresh_job n n' r \<longleftrightarrow> n \<le> gj_id r \<and> gj_id r < n' \<and> gj_status r = ''queued'' \<and> gj_attempts r = 0 \<and>
     gj_lifetime_attempts r = 0 \<and> gj_claim_token r = None \<and> gj_lease_expires_at r = None"

definition task_allows :: "db \<Rightarrow> gen_job \<Rightarrow> bool" where
  "task_allows d r \<longleftrightarrow> (case gj_listen_task_id r of None \<Rightarrow> True | Some t \<Rightarrow> has_state t ''enabled'' d)"

text \<open>Fresh jobs of enabled tasks are appended; nothing else of the ledger changes.\<close>

definition queues :: "db \<Rightarrow> db \<Rightarrow> bool" where
  "queues d d' \<longleftrightarrow>
     (\<exists>new. gen_jobs d' = gen_jobs d @ new \<and> distinct (map gj_id new) \<and>
        (\<forall>r \<in> set new. fresh_job (serial d) (serial d') r \<and> task_allows d r)) \<and>
     gen_attempts d' = gen_attempts d \<and> serial d \<le> serial d' \<and> same_states d d'"

lemma queues_none:
  "gen_jobs d' = gen_jobs d \<Longrightarrow> gen_attempts d' = gen_attempts d \<Longrightarrow> serial d \<le> serial d' \<Longrightarrow> same_states d d' \<Longrightarrow> queues d d'"
  by (simp add: queues_def)

lemma queues_refl [simp]: "queues d d"
  by (rule queues_none) (simp_all add: same_states_def)

lemma queues_trans:
  assumes "queues d d1" and "queues d1 d2"
  shows "queues d d2"
proof -
  from assms(1) obtain new where n: "gen_jobs d1 = gen_jobs d @ new" "distinct (map gj_id new)"
    "\<forall>r \<in> set new. fresh_job (serial d) (serial d1) r \<and> task_allows d r"
    and k: "gen_attempts d1 = gen_attempts d" "serial d \<le> serial d1" "same_states d d1" by (auto simp: queues_def)
  from assms(2) obtain new2 where m: "gen_jobs d2 = gen_jobs d1 @ new2" "distinct (map gj_id new2)"
    "\<forall>r \<in> set new2. fresh_job (serial d1) (serial d2) r \<and> task_allows d1 r"
    and k2: "gen_attempts d2 = gen_attempts d1" "serial d1 \<le> serial d2" "same_states d1 d2" by (auto simp: queues_def)
  have allows: "task_allows d1 r = task_allows d r" for r
    using has_state_same[OF k(3)] by (simp add: task_allows_def split: option.splits)
  have "gj_id ` set new \<inter> gj_id ` set new2 = {}"
    using n(3) m(3) unfolding fresh_job_def by fastforce
  then have "distinct (map gj_id (new @ new2))" using n(2) m(2) by simp
  moreover have "\<forall>r \<in> set (new @ new2). fresh_job (serial d) (serial d2) r \<and> task_allows d r"
  proof
    fix r assume "r \<in> set (new @ new2)"
    then consider "r \<in> set new" | "r \<in> set new2" by auto
    then show "fresh_job (serial d) (serial d2) r \<and> task_allows d r"
    proof cases
      case 1
      then show ?thesis using n(3) k2(2) by (auto simp: fresh_job_def)
    next
      case 2
      then show ?thesis using m(3) k(2) allows by (auto simp: fresh_job_def)
    qed
  qed
  moreover have "gen_jobs d2 = gen_jobs d @ (new @ new2)" using n(1) m(1) by simp
  moreover have "same_states d d2" using k(3) k2(3) by (simp add: same_states_def)
  ultimately show ?thesis using k(1,2) k2(1,2) unfolding queues_def by (intro conjI exI[of _ "new @ new2"]) simp_all
qed

lemma ledger_queues:
  assumes "ledger_ok d" and "queues d d'"
  shows "ledger_ok d'"
proof -
  from assms(2) obtain new where n: "gen_jobs d' = gen_jobs d @ new" "distinct (map gj_id new)"
    "\<forall>r \<in> set new. fresh_job (serial d) (serial d') r \<and> task_allows d r"
    and k: "gen_attempts d' = gen_attempts d" "serial d \<le> serial d'" by (auto simp: queues_def)
  have at: "attempts_of j d' = attempts_of j d" for j by (simp add: attempts_of_def k)
  have old: "gj_id r < serial d" if "r \<in> set (gen_jobs d)" for r using ledger_rows[OF assms(1)] that by blast
  have none: "attempts_of (gj_id r) d = []" if "r \<in> set new" for r
    using n(3) that ledger_keys[OF assms(1)] old unfolding attempts_of_def filter_empty_conv fresh_job_def by fastforce
  have led: "job_ledger r []" if "r \<in> set new" for r
    using n(3) that by (auto simp: job_ledger_def job_ok_def active_def fresh_job_def job_states_def)
  have "gj_id ` set (gen_jobs d) \<inter> gj_id ` set new = {}" using n(3) old unfolding fresh_job_def by fastforce
  then have "distinct (map gj_id (gen_jobs d'))" using ledger_jobs[OF assms(1)] n(1,2) by simp
  moreover have "gj_id r < serial d' \<and> job_ledger r (attempts_of (gj_id r) d')" if r: "r \<in> set (gen_jobs d')" for r
  proof (cases "r \<in> set new")
    case True
    then show ?thesis using n(3) none led by (simp add: at fresh_job_def)
  next
    case False
    then have "r \<in> set (gen_jobs d)" using r n(1) by simp
    then show ?thesis using ledger_rows[OF assms(1)] k(2) by (fastforce simp: at)
  qed
  moreover have "ga_id a < serial d' \<and> ga_job_id a \<in> gj_id ` set (gen_jobs d')" if "a \<in> set (gen_attempts d')" for a
    using ledger_keys[OF assms(1)] that k n(1) by fastforce
  ultimately show ?thesis using ledger_attempts[OF assms(1)] k(1) unfolding ledger_ok_def by simp
qed

lemma insert_ignore_sub:
  "insert_ignore key rows rs = (rows', ks) \<Longrightarrow>
    \<exists>new. rows' = rows @ new \<and> set new \<subseteq> set rs \<and> (distinct (map f rs) \<longrightarrow> distinct (map f new))"
proof (induction key rows rs arbitrary: rows' ks rule: insert_ignore.induct)
  case (1 key rows)
  then show ?case by simp
next
  case (2 key rows r rs)
  show ?case
  proof (cases "key r \<in> key ` set rows")
    case True
    with "2.prems" have "insert_ignore key rows rs = (rows', ks)" by simp
    from "2.IH"(1)[OF True this] show ?thesis by auto
  next
    case False
    obtain rows1 ks1 where e: "insert_ignore key (rows @ [r]) rs = (rows1, ks1)"
      by (cases "insert_ignore key (rows @ [r]) rs")
    from "2.IH"(2)[OF False e] obtain new where
      "rows1 = (rows @ [r]) @ new" "set new \<subseteq> set rs" "distinct (map f rs) \<longrightarrow> distinct (map f new)" by blast
    with False e "2.prems" show ?thesis by (intro exI[of _ "r # new"]) auto
  qed
qed

lemma number_rows_ids:
  "(\<And>x i. gj_id (f x i) = i) \<Longrightarrow> distinct (map gj_id (number_rows n f xs)) \<and>
    (\<forall>r \<in> set (number_rows n f xs). n \<le> gj_id r \<and> gj_id r < n + int (length (number_rows n f xs)))"
proof (induction n f xs rule: number_rows.induct)
  case (1 n f)
  then show ?case by simp
next
  case (2 n f x xs)
  from "2.IH"[OF "2.prems"] "2.prems" show ?case by force
qed

lemma queues_insert:
  assumes "insert_jobs t b rows d = (d', n)" and "distinct (map gj_id rows)"
    and "\<forall>r \<in> set rows. fresh_job (serial d) (serial d + int (length rows)) r \<and> task_allows d r"
  shows "queues d d'"
proof -
  obtain jobs ks where ins: "insert_ignore gj_idempotency_key (gen_jobs d) rows = (jobs, ks)"
    by (cases "insert_ignore gj_idempotency_key (gen_jobs d) rows")
  from insert_ignore_sub[OF ins, of gj_id] obtain new where
    "jobs = gen_jobs d @ new" "set new \<subseteq> set rows" "distinct (map gj_id rows) \<longrightarrow> distinct (map gj_id new)" by blast
  then show ?thesis
    using assms ins unfolding queues_def insert_jobs_def
    by (auto simp: same_states_def intro!: exI[of _ new])
qed

text \<open>Tasks have one row each, so that a task has one state.\<close>

definition tasks_ok :: "db \<Rightarrow> bool" where
  "tasks_ok d \<longleftrightarrow> distinct (map lt_id (listen_tasks d)) \<and> (\<forall>k \<in> set (listen_tasks d). lt_id k < serial d)"

lemma one_state: "tasks_ok d \<Longrightarrow> has_state t a d \<Longrightarrow> has_state t b d \<Longrightarrow> a = b"
  by (auto simp: tasks_ok_def has_state_def distinct_map inj_on_def)

lemma state_of_row: "k \<in> set (listen_tasks d) \<Longrightarrow> has_state (lt_id k) (lt_desired_state k) d"
  by (auto simp: has_state_def)

lemma same_states_ids: "same_states d d' \<Longrightarrow> map lt_id (listen_tasks d') = map lt_id (listen_tasks d)"
proof -
  assume "same_states d d'"
  then have "map fst (map (\<lambda>k. (lt_id k, lt_desired_state k)) (listen_tasks d')) =
      map fst (map (\<lambda>k. (lt_id k, lt_desired_state k)) (listen_tasks d))" by (simp only: same_states_def)
  then show ?thesis by (simp add: comp_def)
qed

lemma tasks_same:
  assumes "tasks_ok d" and "same_states d d'" and "serial d \<le> serial d'"
  shows "tasks_ok d'"
proof -
  have e: "map lt_id (listen_tasks d') = map lt_id (listen_tasks d)" using same_states_ids assms(2) .
  then have "lt_id ` set (listen_tasks d') = lt_id ` set (listen_tasks d)" by (metis set_map)
  then have "lt_id k < serial d'" if "k \<in> set (listen_tasks d')" for k
  proof -
    have "lt_id k \<in> lt_id ` set (listen_tasks d)" using that \<open>lt_id ` set (listen_tasks d') = _\<close> by blast
    then have "lt_id k < serial d" using assms(1) by (auto simp: tasks_ok_def)
    with assms(3) show ?thesis by simp
  qed
  with e assms(1) show ?thesis by (simp add: tasks_ok_def)
qed

lemma tasks_queues: "tasks_ok d \<Longrightarrow> queues d d' \<Longrightarrow> tasks_ok d'"
  by (rule tasks_same) (auto simp: queues_def)

lemma same_states_put:
  assumes "tasks_ok d" and "has_state (lt_id t) (lt_desired_state t) d"
    and "listen_tasks d' = row_put lt_id t (listen_tasks d)"
  shows "same_states d d'"
proof -
  have "lt_desired_state t = lt_desired_state k" if "k \<in> set (listen_tasks d)" "lt_id k = lt_id t" for k
    using one_state[OF assms(1,2)] state_of_row[OF that(1)] that(2) by simp
  then show ?thesis by (auto simp: same_states_def assms(3) row_put_def row_update_def)
qed

lemma queues_enqueue_task:
  assumes run: "enqueue_task env resolve now st tws window snap t d = Some (d', n)"
    and ok: "tasks_ok d" and state: "has_state (lt_id t) ''enabled'' d" "lt_desired_state t = ''enabled''"
  shows "queues d d'"
proof (cases "nonempty (lt_queue_hold_reason t)")
  case True
  with run show ?thesis by (auto simp: enqueue_task_def)
next
  case free: False
  with run obtain sel where sel: "resolve (lt_id t) = Some sel"
    by (auto simp: enqueue_task_def split: option.splits)
  show ?thesis
  proof (cases "ts_valid sel")
    case False
    with run free sel have d': "d' = hold_task ''skill_invalidated'' t d" by (simp add: enqueue_task_def)
    have "same_states d d'"
      by (rule same_states_put[OF ok, of "t\<lparr>lt_queue_hold_reason := Some ''skill_invalidated''\<rparr>"])
        (use state in \<open>simp_all add: d' hold_task_def\<close>)
    then show ?thesis by (intro queues_none) (simp_all add: d' hold_task_def)
  next
    case valid: True
    define rc where "rc = (case snap of None \<Rightarrow> task_config t sel (filter (\<lambda>s. sub_task_id s = lt_id t) (subscriptions d))
      | Some js \<Rightarrow> backfill_config t js)"
    show ?thesis
    proof (cases "rc_skill_ids rc = [] \<or> length (rc_skills rc) \<noteq> length (rc_skill_ids rc) \<or>
        get_ai_feature (rc_feature_code rc) d = None")
      case True
      with run free sel valid have "d' = d" unfolding enqueue_task_def Let_def rc_def
        by (auto split: if_splits option.splits)
      then show ?thesis by simp
    next
      case False
      then obtain f where f: "get_ai_feature (rc_feature_code rc) d = Some f" by blast
      let ?f = "\<lambda>tw i. listen_job env now i st t rc f (author_context_of env d tw) tw"
      obtain xs where ins: "insert_jobs t (window \<noteq> None) (number_rows (serial d) ?f xs) d = (d', n)"
        using run free sel valid False f unfolding enqueue_task_def Let_def rc_def by auto
      have ids: "gj_id (?f x i) = i" for x i by (simp add: listen_job_def)
      note ds = number_rows_ids[of ?f "serial d" xs, OF ids]
      have "fresh_job (serial d) (serial d + int (length (number_rows (serial d) ?f xs))) r \<and> task_allows d r"
        if r: "r \<in> set (number_rows (serial d) ?f xs)" for r
      proof -
        from set_number_rows[OF r] obtain x i where x: "r = ?f x i" by blast
        have "serial d \<le> gj_id r \<and> gj_id r < serial d + int (length (number_rows (serial d) ?f xs))" using ds r by blast
        moreover have "gj_status r = ''queued'' \<and> gj_attempts r = 0 \<and> gj_lifetime_attempts r = 0 \<and>
            gj_claim_token r = None \<and> gj_lease_expires_at r = None \<and> gj_listen_task_id r = Some (lt_id t)"
          unfolding x by (simp add: listen_job_def)
        ultimately show ?thesis using state by (simp add: fresh_job_def task_allows_def)
      qed
      with ds show ?thesis by (intro queues_insert[OF ins]) blast+
    qed
  qed
qed

lemma queues_enqueue_tasks:
  assumes "enqueue_tasks env resolve now st tws window snap ts d = Some (d', n)" and "tasks_ok d"
    and "\<forall>t \<in> set ts. has_state (lt_id t) ''enabled'' d \<and> lt_desired_state t = ''enabled''"
  shows "queues d d'"
  using assms
proof (induction ts arbitrary: d d' n)
  case Nil
  then show ?case by simp
next
  case (Cons t ts)
  from Cons.prems(1) obtain d1 k m where
    one: "enqueue_task env resolve now st tws window snap t d = Some (d1, k)"
    and rest: "enqueue_tasks env resolve now st tws window snap ts d1 = Some (d', m)"
    by (auto split: option.splits)
  have q: "queues d d1" using queues_enqueue_task[OF one Cons.prems(2)] Cons.prems(3) by simp
  then have ss: "same_states d d1" by (simp add: queues_def)
  have "queues d1 d'"
    by (rule Cons.IH[OF rest tasks_queues[OF Cons.prems(2) q]])
      (use Cons.prems(3) has_state_same[OF ss] in simp)
  with q show ?case by (rule queues_trans)
qed

lemma queues_setting: "queues d (fst (get_ai_setting now d))"
  by (rule queues_none) (auto simp: get_ai_setting_def same_states_def split: option.splits)

lemma queues_listening:
  assumes "enqueue_listening_jobs env resolve now ids task window snap d = Some (d', n)" and "tasks_ok d"
  shows "queues d d'"
proof (cases "ids = []")
  case True
  with assms show ?thesis by (simp add: enqueue_listening_jobs_def)
next
  case ne: False
  obtain d1 st where st: "get_ai_setting now d = (d1, st)" by (cases "get_ai_setting now d")
  have q: "queues d d1" using queues_setting[of d now] st by simp
  show ?thesis
  proof (cases "\<not> st_enabled st \<or> \<not> st_auto_generate st \<or> filter (\<lambda>t. tw_id t \<in> set ids) (tweets d1) = []")
    case True
    with assms(1) ne st q show ?thesis by (auto simp: enqueue_listening_jobs_def Let_def split: if_splits)
  next
    case False
    with assms(1) ne st have run: "enqueue_tasks env resolve now st (filter (\<lambda>t. tw_id t \<in> set ids) (tweets d1)) window snap
        (enabled_tasks task d1) d1 = Some (d', n)"
      by (auto simp: enqueue_listening_jobs_def Let_def)
    have "has_state (lt_id t) ''enabled'' d1 \<and> lt_desired_state t = ''enabled''" if "t \<in> set (enabled_tasks task d1)" for t
      using that state_of_row[of t d1] by (simp add: enabled_tasks_def)
    then have "queues d1 d'" by (intro queues_enqueue_tasks[OF run tasks_queues[OF assms(2) q]]) blast
    with q show ?thesis by (rule queues_trans)
  qed
qed

lemma queues_collect:
  "enqueue_jobs_for_x_tweet_ids env resolve now xids d = Some (d', n) \<Longrightarrow> tasks_ok d \<Longrightarrow> queues d d'"
  by (auto simp: enqueue_jobs_for_x_tweet_ids_def split: if_splits intro: queues_listening)

text \<open>Backfills change their own rows and the events besides.\<close>

lemma queues_backfills [simp]: "queues d (add_event e d')  = queues d d'" "queues d (put_backfill b d') = queues d d'"
  by (simp_all add: queues_def add_event_def put_backfill_def same_states_def)

lemma queues_scan:
  assumes "scan_backfill env resolve now n b snap task d = Some (d', k)" and "tasks_ok d"
  shows "queues d d'"
proof (cases "scan_batch b snap n d = []")
  case True
  with assms(1) show ?thesis by (auto simp: scan_backfill_def Let_def)
next
  case False
  with assms(1) obtain d1 m where e: "enqueue_listening_jobs env resolve now (map tw_id (scan_batch b snap n d)) (Some task)
      (Some (bf_from_at b, bf_to_at b)) (Some snap) d = Some (d1, m)"
    by (auto simp: scan_backfill_def Let_def split: option.splits)
  have "d' = d1 \<or> (\<exists>b'. d' = put_backfill b' d1) \<or> (\<exists>ev b'. d' = add_event ev (put_backfill b' d1))"
    using assms(1) False e unfolding scan_backfill_def Let_def by (auto split: option.splits if_splits)
  with queues_listening[OF e assms(2)] show ?thesis by auto
qed

lemma queues_candidate:
  assumes "process_backfill_candidate env resolve now n i task d = Some (d', k)" and "tasks_ok d"
  shows "queues d d'"
  using assms queues_scan unfolding process_backfill_candidate_def Let_def
  by (auto split: option.splits if_splits)

lemma queues_candidates:
  "try_candidates env resolve now n cs d = Some (d', k) \<Longrightarrow> tasks_ok d \<Longrightarrow> queues d d'"
proof (induction env resolve now n cs d rule: try_candidates.induct)
  case (1 env resolve now n d)
  then show ?case by simp
next
  case (2 env resolve now n i task cs d)
  from "2.prems"(1) obtain d1 r where c: "process_backfill_candidate env resolve now n i task d = Some (d1, r)"
    by (auto split: option.splits)
  have q: "queues d d1" by (rule queues_candidate[OF c "2.prems"(2)])
  show ?case
  proof (cases r)
    case None
    then have "queues d1 d'" using "2.IH"[OF c] "2.prems"(1) c tasks_queues[OF "2.prems"(2) q] by simp
    with q show ?thesis by (rule queues_trans)
  next
    case (Some x)
    with "2.prems"(1) c q show ?thesis by simp
  qed
qed

lemma queues_pending:
  assumes "process_pending_backfills env resolve now n d = Inr (d', k)" and "tasks_ok d"
  shows "queues d d'"
proof -
  obtain d1 st where st: "get_ai_setting now d = (d1, st)" by (cases "get_ai_setting now d")
  have q: "queues d d1" using queues_setting[of d now] st by simp
  have "d' = d1 \<or> try_candidates env resolve now (nat n) (backfill_candidates d1) d1 = Some (d', k)"
    using assms(1) st by (auto simp: process_pending_backfills_def split: if_splits option.splits)
  then show ?thesis using q queues_candidates tasks_queues[OF assms(2) q] queues_trans by blast
qed

lemma queues_generate:
  assumes "generate_from_tweet env resolve now fresh tweet q d = Inr (d', j)"
  shows "queues d d'"
proof -
  let ?d0 = "fst (get_ai_setting now d)"
  from assms obtain tw f sks c where run: "create_manual_job env now tw f sks ''manual_override'' (gq_idempotency_key q) fresh ?d0 = Inr (d', j, c)"
    unfolding generate_from_tweet_def Let_def
    by (auto split: option.splits if_splits sum.splits manual_error.splits prod.splits)
  obtain d1 st where st: "get_ai_setting now ?d0 = (d1, st)" by (cases "get_ai_setting now ?d0")
  have q1: "queues ?d0 d1" using queues_setting[of ?d0 now] st by simp
  have "d' = d1 \<or> (\<exists>x key ctx. d' = d1\<lparr>gen_jobs := gen_jobs d1 @ [manual_job env now (serial d1) st tw f sks x ctx key], serial := serial d1 + 1\<rparr>)"
    using run st by (auto simp: create_manual_job_def Let_def split: if_splits option.splits)
  moreover have "queues d1 (d1\<lparr>gen_jobs := gen_jobs d1 @ [manual_job env now (serial d1) st tw f sks x ctx key], serial := serial d1 + 1\<rparr>)"
    for x key ctx
    by (auto simp: queues_def same_states_def fresh_job_def task_allows_def manual_job_def)
  ultimately have "queues d1 d'" by auto
  with q1 queues_setting[of d now] show ?thesis using queues_trans by blast
qed

subsection \<open>What a transaction does to the ledger\<close>

definition waits :: "gen_job \<Rightarrow> bool" where
  "waits r \<longleftrightarrow> gj_status r \<in> {''queued'', ''retry_wait''}"

definition of_archived :: "db \<Rightarrow> gen_job \<Rightarrow> bool" where
  "of_archived d r \<longleftrightarrow> (case gj_listen_task_id r of None \<Rightarrow> False | Some t \<Rightarrow> has_state t ''archived'' d)"

text \<open>What never changes in a job, and when it may return to the queue.\<close>

definition successor :: "db \<Rightarrow> gen_job \<Rightarrow> gen_job \<Rightarrow> bool" where
  "successor d r r' \<longleftrightarrow>
     gj_id r' = gj_id r \<and> gj_max_attempts r' = gj_max_attempts r \<and> gj_listen_task_id r' = gj_listen_task_id r \<and>
     job_ok r' \<and> (waits r' \<longrightarrow> waits r \<or> \<not> of_archived d r)"

definition closes :: "gen_job \<Rightarrow> gen_attempt \<Rightarrow> gen_attempt \<Rightarrow> bool" where
  "closes r a a' \<longleftrightarrow>
     ga_lifetime_number a = gj_lifetime_attempts r \<and> ga_status a = ''running'' \<and> ga_id a' = ga_id a \<and>
     ga_job_id a' = gj_id r \<and> ga_lifetime_number a' = ga_lifetime_number a \<and> attempt_ok a' \<and> ga_status a' \<noteq> ''running''"

definition opens :: "db \<Rightarrow> gen_job \<Rightarrow> gen_attempt \<Rightarrow> bool" where
  "opens d r' a \<longleftrightarrow>
     ga_id a = serial d \<and> ga_job_id a = gj_id r' \<and> ga_lifetime_number a = gj_lifetime_attempts r' \<and>
     ga_status a = ''running'' \<and> ga_ended_at a = None"

inductive change :: "int set \<Rightarrow> db \<Rightarrow> db \<Rightarrow> bool" where
  queue: "queues d d' \<Longrightarrow> change {} d d'"
| row: "gj_get i d = Some r \<Longrightarrow> successor d r r' \<Longrightarrow> active r' = active r \<Longrightarrow>
    gj_lifetime_attempts r' = gj_lifetime_attempts r \<Longrightarrow> gj_attempts r' = gj_attempts r \<Longrightarrow>
    gen_jobs d' = row_put gj_id r' (gen_jobs d) \<Longrightarrow> gen_attempts d' = gen_attempts d \<Longrightarrow> serial d \<le> serial d' \<Longrightarrow> change {} d d'"
| retry: "gj_get i d = Some r \<Longrightarrow> successor d r r' \<Longrightarrow> \<not> active r \<Longrightarrow> \<not> active r' \<Longrightarrow>
    gj_lifetime_attempts r' = gj_lifetime_attempts r \<Longrightarrow>
    gen_jobs d' = row_put gj_id r' (gen_jobs d) \<Longrightarrow> gen_attempts d' = gen_attempts d \<Longrightarrow> serial d \<le> serial d' \<Longrightarrow> change {i} d d'"
| close: "gj_get i d = Some r \<Longrightarrow> successor d r r' \<Longrightarrow> active r \<Longrightarrow> \<not> active r' \<Longrightarrow>
    gj_lifetime_attempts r' = gj_lifetime_attempts r \<Longrightarrow> gj_attempts r' = gj_attempts r \<Longrightarrow>
    a \<in> set (attempts_of i d) \<Longrightarrow> closes r a a' \<Longrightarrow>
    gen_jobs d' = row_put gj_id r' (gen_jobs d) \<Longrightarrow> gen_attempts d' = row_put ga_id a' (gen_attempts d) \<Longrightarrow>
    serial d \<le> serial d' \<Longrightarrow> change {} d d'"
| start: "gj_get i d = Some r \<Longrightarrow> successor d r r' \<Longrightarrow> waits r \<Longrightarrow> active r' \<Longrightarrow>
    gj_lifetime_attempts r' = gj_lifetime_attempts r + 1 \<Longrightarrow> gj_attempts r' = gj_attempts r + 1 \<Longrightarrow> opens d r' a \<Longrightarrow>
    gen_jobs d' = row_put gj_id r' (gen_jobs d) \<Longrightarrow> gen_attempts d' = gen_attempts d @ [a] \<Longrightarrow>
    serial d < serial d' \<Longrightarrow> change {} d d'"
| cancel: "gen_jobs d' = gen_jobs (cancel_queue now t d) \<Longrightarrow> gen_attempts d' = gen_attempts d \<Longrightarrow> serial d \<le> serial d' \<Longrightarrow>
    change {} d d'"
| same: "same_ledger d d' \<Longrightarrow> change R d d'"
| delete: "gj_get i d = Some r \<Longrightarrow> gen_jobs d' = filter (\<lambda>r. gj_id r \<noteq> i) (gen_jobs d) \<Longrightarrow>
    gen_attempts d' = filter (\<lambda>a. ga_job_id a \<noteq> i) (gen_attempts d) \<Longrightarrow> serial d \<le> serial d' \<Longrightarrow> change {} d d'"

lemma not_waits_active: "waits r \<Longrightarrow> \<not> active r"
  by (auto simp: waits_def active_def)


lemma cancel_queue_row:
  "gj_get i (cancel_queue now t d) = map_option (\<lambda>r. if gj_listen_task_id r = Some t \<and> waits r
     then r\<lparr>gj_status := ''cancelled'', gj_completed_at := Some now, gj_updated_at := now\<rparr> else r) (gj_get i d)"
  unfolding gj_get_def cancel_queue_def by (simp add: row_get_update waits_def)

lemma ledger_cancel:
  assumes ok: "ledger_ok d" and d': "gen_jobs d' = gen_jobs (cancel_queue now t d)" "gen_attempts d' = gen_attempts d"
    "serial d \<le> serial d'"
  shows "ledger_ok d'"
proof -
  let ?f = "\<lambda>r. if gj_listen_task_id r = Some t \<and> waits r
     then r\<lparr>gj_status := ''cancelled'', gj_completed_at := Some now, gj_updated_at := now\<rparr> else r"
  have jobs: "gen_jobs d' = map ?f (gen_jobs d)" by (auto simp: d' cancel_queue_def row_update_def waits_def)
  have at: "attempts_of j d' = attempts_of j d" for j by (simp add: attempts_of_def d')
  have led: "job_ledger (?f r) as" if "job_ledger r as" for r as
    using that by (auto simp: job_ledger_def job_ok_def active_def waits_def job_states_def)
  have ids: "map gj_id (gen_jobs d') = map gj_id (gen_jobs d)" by (simp add: jobs comp_def)
  then have keys: "gj_id ` set (gen_jobs d') = gj_id ` set (gen_jobs d)" by (metis set_map)
  have "gj_id x < serial d' \<and> job_ledger x (attempts_of (gj_id x) d')" if x: "x \<in> set (gen_jobs d')" for x
  proof -
    from x jobs obtain r where r: "r \<in> set (gen_jobs d)" "x = ?f r" by auto
    have id: "gj_id x = gj_id r" by (simp add: r(2))
    have old: "gj_id r < serial d" "job_ledger r (attempts_of (gj_id r) d)" using ledger_rows[OF ok] r(1) by blast+
    have "job_ledger x (attempts_of (gj_id r) d)" using led[OF old(2)] by (simp only: r(2))
    then show ?thesis using old(1) d'(3) by (simp only: id at) simp
  qed
  moreover have "ga_id a < serial d' \<and> ga_job_id a \<in> gj_id ` set (gen_jobs d')" if "a \<in> set (gen_attempts d')" for a
    using that ledger_keys[OF ok] d'(2,3) unfolding keys by fastforce
  ultimately show ?thesis using ledger_jobs[OF ok] ledger_attempts[OF ok] ids d'(2) unfolding ledger_ok_def by simp
qed

lemma ledger_delete:
  assumes ok: "ledger_ok d" and d': "gen_jobs d' = filter (\<lambda>r. gj_id r \<noteq> i) (gen_jobs d)"
    "gen_attempts d' = filter (\<lambda>a. ga_job_id a \<noteq> i) (gen_attempts d)" "serial d \<le> serial d'"
  shows "ledger_ok d'"
proof -
  have at: "attempts_of j d' = attempts_of j d" if "j \<noteq> i" for j
    using that by (auto simp: attempts_of_def d' intro!: filter_cong)
  have "gj_id x < serial d' \<and> job_ledger x (attempts_of (gj_id x) d')" if "x \<in> set (gen_jobs d')" for x
    using that ledger_rows[OF ok] d'(1,3) at by fastforce
  moreover have "ga_id a < serial d' \<and> ga_job_id a \<in> gj_id ` set (gen_jobs d')" if "a \<in> set (gen_attempts d')" for a
    using that ledger_keys[OF ok] d' by force
  moreover have "distinct (map gj_id (gen_jobs d'))" "distinct (map ga_id (gen_attempts d'))"
    unfolding d' by (rule distinct_map_filter, rule ledger_jobs[OF ok], rule distinct_map_filter, rule ledger_attempts[OF ok])
  ultimately show ?thesis unfolding ledger_ok_def by simp
qed

text \<open>Every kind of change keeps the ledger.\<close>

lemma change_ledger: "change R d d' \<Longrightarrow> ledger_ok d \<Longrightarrow> ledger_ok d'"
proof (induction rule: change.induct)
  case (queue d d')
  then show ?case using ledger_queues by blast
next
  case (row i d r r' d')
  have id: "gj_id r' = i" "job_ledger r (attempts_of i d)" using row ledger_get[of d i r] by (simp_all add: successor_def)
  then have "job_ledger r' (attempts_of i d)" using row by (simp add: job_ledger_def successor_def)
  then show ?case using ledger_row[OF \<open>ledger_ok d\<close> row(1) id(1)] row by blast
next
  case (retry i d r r' d')
  have id: "gj_id r' = i" "job_ledger r (attempts_of i d)" using retry ledger_get[of d i r] by (simp_all add: successor_def)
  then have "job_ledger r' (attempts_of i d)" using retry by (simp add: job_ledger_def successor_def)
  then show ?case using ledger_row[OF \<open>ledger_ok d\<close> retry(1) id(1)] retry by blast
next
  case (close i d r r' a a' d')
  have id: "gj_id r = i" using close ledger_get[of d i r] by simp
  show ?case
    by (rule ledger_close[of d i r a a' r' d']) (use close id in \<open>simp_all add: closes_def successor_def\<close>)
next
  case (start i d r r' a d')
  have id: "gj_id r = i" using start ledger_get[of d i r] by simp
  show ?case
    by (rule ledger_open[of d i r r' a d']) (use start id not_waits_active in \<open>simp_all add: opens_def successor_def\<close>)
next
  case (cancel d' now t d)
  then show ?case using ledger_cancel by blast
next
  case (same d d' R)
  then show ?case using same_ledger_ok by blast
next
  case (delete i d r d')
  then show ?case using ledger_delete by blast
qed

end
