(* ===== verification/GenerationSteps.thy ===== *)
theory GenerationSteps
  imports GenerationLedger
begin

text \<open>
  Every event of a run is one of the changes of \<open>GenerationLedger\<close>, and the state of a
  task only moves as its routes allow: an archived task stays archived.
\<close>

subsection \<open>The worker\<close>

lemma gj_get_Some: "gj_get i d = Some r \<Longrightarrow> r \<in> set (gen_jobs d) \<and> gj_id r = i"
  unfolding gj_get_def by (rule row_get_Some)

lemma ledger_job: "ledger_ok d \<Longrightarrow> gj_get i d = Some r \<Longrightarrow> job_ok r \<and> gj_id r = i"
  using ledger_get by (auto simp: job_ledger_def)

lemma waits_due: "job_due now r \<Longrightarrow> waits r"
  by (simp add: job_due_def waits_def)

lemma same_hold [simp]: "same_ledger d (hold_task reason t d)"
  by (simp add: same_ledger_def hold_task_def)

lemma change_exhausted:
  assumes "ledger_ok d" and "gj_get i d = Some r" and "job_due now r"
  shows "change {} d (put_job_row (exhausted_row now r) d)"
proof -
  have j: "job_ok r" "gj_id r = i" using ledger_job[OF assms(1,2)] by simp_all
  have nr: "\<not> active r" using waits_due[OF assms(3)] not_waits_active by blast
  show ?thesis
    by (rule change.row[where r = r and r' = "exhausted_row now r" and i = i])
      (use assms(2) j nr in \<open>auto simp: successor_def exhausted_row_def job_ok_def active_def waits_def job_states_def put_job_row_def\<close>)
qed

lemma change_start:
  assumes "ledger_ok d" and "gj_get i d = Some r" and "job_due now r" and "gj_attempts r < gj_max_attempts r"
  shows "change {} d (start_attempt cfg worker now token r d)"
proof -
  have j: "job_ok r" "gj_id r = i" using ledger_job[OF assms(1,2)] by simp_all
  have w: "waits r" using waits_due[OF assms(3)] .
  let ?r = "running_row cfg worker now token r"
  let ?a = "new_attempt_row now (serial d) (rounds_before (gj_id r) (put_job_row ?r d)) ?r"
  have ev: "gen_jobs (task_event_of x e y) = gen_jobs y" "gen_attempts (task_event_of x e y) = gen_attempts y"
    "serial (task_event_of x e y) = serial y" for x e y
    by (simp_all add: task_event_of_def split: option.splits)
  show ?thesis
    by (rule change.start[where r = r and r' = ?r and a = ?a and i = i])
      (use assms(2) j w assms(4) in \<open>auto simp: successor_def running_row_def new_attempt_row_def job_ok_def active_def waits_def
        job_states_def put_job_row_def opens_def start_attempt_def Let_def ev\<close>)
qed

lemma change_claim:
  assumes "ledger_ok d" and "claim_job cfg resolve material worker now i token d = Some (d', x)"
  shows "change {} d d'"
proof (cases "gj_get i d")
  case None
  with assms(2) show ?thesis by (simp add: claim_job_def change.same)
next
  case (Some r)
  show ?thesis
  proof (cases "readiness_of resolve r d")
    case Ready_to_run
    with assms(2) Some consider "d' = d" | "job_due now r" "d' = put_job_row (exhausted_row now r) d"
      | "job_due now r" "gj_attempts r < gj_max_attempts r" "d' = start_attempt cfg worker now token r d"
      by (auto simp: claim_job_def split: if_splits option.splits)
    then show ?thesis
      by cases (use change_exhausted[OF assms(1) Some] change_start[OF assms(1) Some] change.same in auto)
  qed (use assms(2) Some in \<open>auto simp: claim_job_def intro: change.same\<close>)
qed

lemma held_active: "held_claim token r \<Longrightarrow> active r"
  by (simp add: held_claim_def active_def)

lemma change_renew:
  assumes "ledger_ok d"
  shows "change {} d (fst (renew_job cfg now i token d))"
proof (cases "gj_get i d")
  case None
  then show ?thesis by (simp add: renew_job_def change.same)
next
  case (Some r)
  show ?thesis
  proof (cases "held_claim token r")
    case False
    with Some show ?thesis by (simp add: renew_job_def change.same)
  next
    case True
    let ?r = "r\<lparr>gj_lease_expires_at := Some (now + secs (ai_worker_lock_ttl_seconds cfg))\<rparr>"
    show ?thesis
      by (rule change.row[where r = r and r' = ?r and i = i])
        (use True held_active[OF True] ledger_job[OF assms Some] Some in
          \<open>auto simp: successor_def job_ok_def active_def waits_def put_job_row_def renew_job_def\<close>)
  qed
qed

text \<open>Closing an attempt: what \<open>_finish_attempt\<close> does while the job runs.\<close>

lemma finish_effect:
  assumes "find (open_attempt r) (gen_attempts d) = Some a" and "ga_status a = ''running''"
  shows "gen_attempts (finish_gen_attempt status now et m r d) = row_put ga_id (closed_attempt status now et m r a) (gen_attempts d)"
  using assms by (simp add: finish_gen_attempt_def task_event_of_def Let_def split: option.splits)

lemma finish_other [simp]:
  "gen_jobs (finish_gen_attempt status now et m r d) = gen_jobs d"
  "serial (finish_gen_attempt status now et m r d) = serial d"
  "listen_tasks (finish_gen_attempt status now et m r d) = listen_tasks d"
  by (simp_all add: finish_gen_attempt_def task_event_of_def Let_def split: option.splits)

lemma finish_cong: "gen_attempts d1 = gen_attempts d2 \<Longrightarrow>
    gen_attempts (finish_gen_attempt status now et m r d1) = gen_attempts (finish_gen_attempt status now et m r d2)"
  by (simp add: finish_gen_attempt_def task_event_of_def Let_def split: option.splits)

lemma put_job_row_simps [simp]:
  "gen_jobs (put_job_row r d) = row_put gj_id r (gen_jobs d)" "gen_attempts (put_job_row r d) = gen_attempts d"
  "serial (put_job_row r d) = serial d" "listen_tasks (put_job_row r d) = listen_tasks d"
  by (simp_all add: put_job_row_def)

lemma finish_put [simp]: "gen_attempts (finish_gen_attempt status now et m r (put_job_row r' d)) =
    gen_attempts (finish_gen_attempt status now et m r d)"
  by (rule finish_cong) (simp add: put_job_row_def)

lemma change_close:
  assumes ok: "ledger_ok d" and get: "gj_get i d = Some r" and "active r"
    and st: "status \<in> {''succeeded'', ''failed'', ''interrupted''}"
    and r': "successor d r r'" "\<not> active r'" "gj_lifetime_attempts r' = gj_lifetime_attempts r" "gj_attempts r' = gj_attempts r"
    and d': "gen_jobs d' = row_put gj_id r' (gen_jobs d)"
      "gen_attempts d' = gen_attempts (finish_gen_attempt status now et m r d)" "serial d \<le> serial d'"
  shows "change {} d d'"
proof -
  from open_attempt_exists[OF ok get assms(3)] obtain a where
    a: "find (open_attempt r) (gen_attempts d) = Some a" "a \<in> set (attempts_of i d)" "ga_job_id a = i"
      "ga_lifetime_number a = gj_lifetime_attempts r" "ga_status a = ''running''" .
  have id: "gj_id r = i" using ledger_job[OF ok get] by simp
  have "closes r a (closed_attempt status now et m r a)"
    using a st id by (auto simp: closes_def closed_attempt_def attempt_ok_def)
  then show ?thesis
    by (rule change.close[OF get r'(1) assms(3) r'(2-4) a(2) _ d'(1) _ d'(3)]) (simp add: d'(2) finish_effect[OF a(1,5)])
qed

text \<open>The task of a job as the worker reads it.\<close>

lemma archived_read:
  assumes "tasks_ok d" and "gj_get i d = Some r"
  shows "of_archived d r \<Longrightarrow> archived_task (job_task r d)"
proof -
  assume "of_archived d r"
  then obtain t where t: "gj_listen_task_id r = Some t" "has_state t ''archived'' d"
    by (auto simp: of_archived_def split: option.splits)
  from t(2) obtain k where k: "k \<in> set (listen_tasks d)" "lt_id k = t" "lt_desired_state k = ''archived''"
    by (auto simp: has_state_def)
  then have "row_get lt_id t (listen_tasks d) = Some k"
    using row_get_unique[of lt_id "listen_tasks d" k] assms(1) by (auto simp: tasks_ok_def)
  with t k show ?thesis by (simp add: archived_task_def job_task_def)
qed

lemma change_expire:
  assumes "ledger_ok d" and "tasks_ok d"
  shows "change {} d (expire_lease now i d)"
proof (cases "gj_get i d")
  case None
  then show ?thesis by (simp add: expire_lease_def change.same)
next
  case (Some r)
  show ?thesis
  proof (cases "lease_over now r")
    case False
    with Some show ?thesis by (simp add: expire_lease_def change.same)
  next
    case True
    have act: "active r" using True by (simp add: lease_over_def active_def)
    let ?r = "expired_row now (job_task r d) r"
    note j = ledger_job[OF assms(1) Some] and ar = archived_read[OF assms(2) Some]
    have suc: "successor d r ?r" "\<not> active ?r" "gj_lifetime_attempts ?r = gj_lifetime_attempts r" "gj_attempts ?r = gj_attempts r"
      using j act ar
      by (auto simp: successor_def expired_row_def released_def job_ok_def active_def waits_def job_states_def)
    show ?thesis
      by (rule change_close[OF assms(1) Some act _ suc, where status = "''interrupted''" and now = now
            and et = "Some ''lease_expired''" and m = "Some expired_message"])
        (use Some True in \<open>simp_all add: expire_lease_def put_job_row_def\<close>)
  qed
qed

text \<open>The other ends of an attempt.\<close>

lemma change_fail:
  assumes "ledger_ok d" and "tasks_ok d" and "commit_ai_failure now held jitter i token m retry http d = Some (d', x)"
  shows "change {} d d'"
proof (cases "gj_get i d")
  case None
  with assms(3) show ?thesis by (simp add: commit_ai_failure_def change.same)
next
  case (Some r)
  show ?thesis
  proof (cases "held_claim token r")
    case False
    with assms(3) Some show ?thesis by (simp add: commit_ai_failure_def change.same)
  next
    case True
    note act = held_active[OF True]
    let ?r = "failed_job_row now jitter m retry http (job_task r d) r"
    note j = ledger_job[OF assms(1) Some] and ar = archived_read[OF assms(2) Some]
    have d': "d' = finish_gen_attempt ''failed'' now (Some (failure_type http)) (Some m) r (put_job_row ?r d)"
      using assms(3) Some True by (auto simp: commit_ai_failure_def Let_def split: if_splits)
    have suc: "successor d r ?r" "\<not> active ?r" "gj_lifetime_attempts ?r = gj_lifetime_attempts r" "gj_attempts ?r = gj_attempts r"
      using j act ar
      by (auto simp: successor_def failed_job_row_def may_retry_def released_def job_ok_def active_def waits_def job_states_def)
    show ?thesis
      by (rule change_close[OF assms(1) Some act _ suc, where status = "''failed''" and now = now
            and et = "Some (failure_type http)" and m = "Some m"])
        (simp_all add: d')
  qed
qed

lemma change_requeue:
  assumes "ledger_ok d" and "tasks_ok d"
  shows "change {} d (requeue_cancelled now i token d)"
proof (cases "gj_get i d")
  case None
  then show ?thesis by (simp add: requeue_cancelled_def change.same)
next
  case (Some r)
  show ?thesis
  proof (cases "held_claim token r")
    case False
    with Some show ?thesis by (simp add: requeue_cancelled_def change.same)
  next
    case True
    note act = held_active[OF True]
    let ?r = "requeued_row now (job_task r d) r"
    note j = ledger_job[OF assms(1) Some] and ar = archived_read[OF assms(2) Some]
    have suc: "successor d r ?r" "\<not> active ?r" "gj_lifetime_attempts ?r = gj_lifetime_attempts r" "gj_attempts ?r = gj_attempts r"
      using j act ar
      by (auto simp: successor_def requeued_row_def released_def job_ok_def active_def waits_def job_states_def)
    show ?thesis
      by (rule change_close[OF assms(1) Some act _ suc, where status = "''interrupted''" and now = now
            and et = "Some ''worker_shutdown''" and m = "Some (Text ''AI worker stopped during generation'')"])
        (use Some True in \<open>simp_all add: requeue_cancelled_def\<close>)
  qed
qed

lemma change_source:
  assumes "ledger_ok d" and "provider_request key job d = Inr (d', q)"
  shows "change {} d d'"
proof -
  from assms(2) obtain ds r where r: "gj_get (gj_id job) d = Some r"
    "d' = put_job_row (sourced_job ds (sourced_snapshot ds r) r) d"
    unfolding provider_request_def Let_def by (auto split: if_splits option.splits sum.splits)
  show ?thesis
    by (rule change.row[where r = r and r' = "sourced_job ds (sourced_snapshot ds r) r" and i = "gj_id job"])
      (use r ledger_job[OF assms(1) r(1)] in
        \<open>auto simp: successor_def sourced_job_def job_ok_def active_def waits_def put_job_row_def\<close>)
qed

text \<open>The stored article: the job is written a second time when its publications are recorded.\<close>

lemma row_put_put: "key r = key r' \<Longrightarrow> row_put key r (row_put key r' rows) = row_put key r rows"
  by (simp add: row_put_def row_update_def)

lemma store_other [simp]:
  "gen_jobs (fst (store_draft now g r d)) = gen_jobs d" "gen_attempts (fst (store_draft now g r d)) = gen_attempts d"
  "serial d \<le> serial (fst (store_draft now g r d))" "listen_tasks (fst (store_draft now g r d)) = listen_tasks d"
  "gen_jobs (store_profile now v r d) = gen_jobs d" "gen_attempts (store_profile now v r d) = gen_attempts d"
  "serial (store_profile now v r d) = serial d" "listen_tasks (store_profile now v r d) = listen_tasks d"
  by (simp_all add: store_draft_def store_profile_def Let_def split: option.splits)

lemma add_dispatches_other [simp]:
  "gen_jobs (add_dispatches now job a cs d) = gen_jobs d" "gen_attempts (add_dispatches now job a cs d) = gen_attempts d"
  "listen_tasks (add_dispatches now job a cs d) = listen_tasks d"
  "serial (add_dispatches now job a cs d) = serial d + int (length cs)"
  by (induction cs arbitrary: d) simp_all

lemma initialize_effect:
  "fst (initialize_publish_dispatches now r a d) = d \<or>
   gen_jobs (fst (initialize_publish_dispatches now r a d)) =
     row_put gj_id (r\<lparr>gj_publish_outbox_initialized_at := Some now\<rparr>) (gen_jobs d) \<and>
   gen_attempts (fst (initialize_publish_dispatches now r a d)) = gen_attempts d \<and>
   serial d \<le> serial (fst (initialize_publish_dispatches now r a d)) \<and>
   listen_tasks (fst (initialize_publish_dispatches now r a d)) = listen_tasks d"
  by (cases "gj_publish_outbox_initialized_at r = None") (simp_all add: initialize_publish_dispatches_def Let_def)

lemma change_store:
  assumes "ledger_ok d" and "commit_article now held fails i token g d = Some (d', x)"
  shows "change {} d d' \<and> listen_tasks d' = listen_tasks d"
proof (cases "gj_get i d")
  case None
  with assms(2) show ?thesis by (simp add: commit_article_def change.same)
next
  case (Some r)
  show ?thesis
  proof (cases "held_claim token r")
    case False
    with assms(2) Some show ?thesis by (simp add: commit_article_def change.same)
  next
    case True
    note act = held_active[OF True]
    note j = ledger_job[OF assms(1) Some]
    obtain d1 a where st: "store_draft now g r d = (d1, a)" by (cases "store_draft now g r d")
    have k: "gen_jobs d1 = gen_jobs d" "gen_attempts d1 = gen_attempts d" "serial d \<le> serial d1" "listen_tasks d1 = listen_tasks d"
      using store_other(1-4)[where now = now and g = g and r = r and d = d] st by simp_all
    let ?r = "succeeded_row now g r"
    let ?p = "put_job_row ?r (store_profile now (ge_author_profile g) r d1)"
    let ?d2 = "finish_gen_attempt ''succeeded'' now None None r ?p"
    let ?r2 = "?r\<lparr>gj_publish_outbox_initialized_at := Some now\<rparr>"
    have jobs: "gen_jobs ?d2 = row_put gj_id ?r (gen_jobs d)" by (simp add: put_job_row_def k)
    have at: "gen_attempts ?d2 = gen_attempts (finish_gen_attempt ''succeeded'' now None None r d)"
      by (rule finish_cong) (simp add: put_job_row_def k)
    have ser: "serial d \<le> serial ?d2" "listen_tasks ?d2 = listen_tasks d" using k by (simp_all add: put_job_row_def)
    have id: "gj_id ?r = gj_id r" by (simp add: succeeded_row_def released_def)
    have cases: "d' = ?d2 \<or> d' = fst (initialize_publish_dispatches now ?r a ?d2)"
      using assms(2) Some True st by (auto simp: commit_article_def Let_def split: if_splits)
    note init = initialize_effect[of now ?r a ?d2]
    have suc: "successor d r r' \<and> \<not> active r' \<and> gj_lifetime_attempts r' = gj_lifetime_attempts r \<and> gj_attempts r' = gj_attempts r"
      if "r' = ?r \<or> r' = ?r2" for r'
      using that j act by (auto simp: successor_def succeeded_row_def released_def job_ok_def active_def waits_def job_states_def)
    have jobs2: "row_put gj_id ?r2 (gen_jobs ?d2) = row_put gj_id ?r2 (gen_jobs d)"
      unfolding jobs by (rule row_put_put) (simp add: id)
    have shape: "\<exists>r'. (r' = ?r \<or> r' = ?r2) \<and> gen_jobs d' = row_put gj_id r' (gen_jobs d) \<and> gen_attempts d' = gen_attempts ?d2 \<and>
        serial d \<le> serial d' \<and> listen_tasks d' = listen_tasks d"
    proof (cases "d' = ?d2")
      case True
      then show ?thesis using jobs ser by (intro exI[of _ ?r]) (simp only: simp_thms)
    next
      case False
      with cases have e: "d' = fst (initialize_publish_dispatches now ?r a ?d2)" by blast
      with False init have i: "gen_jobs d' = row_put gj_id ?r2 (gen_jobs ?d2)" "gen_attempts d' = gen_attempts ?d2"
        "serial ?d2 \<le> serial d'" "listen_tasks d' = listen_tasks ?d2" by (simp_all only: simp_thms)
      show ?thesis
        using i ser order_trans[OF ser(1) i(3)] unfolding jobs2 by (intro exI[of _ ?r2]) (simp only: simp_thms)
    qed
    then obtain r' where r': "r' = ?r \<or> r' = ?r2" "gen_jobs d' = row_put gj_id r' (gen_jobs d)"
      "gen_attempts d' = gen_attempts ?d2" "serial d \<le> serial d'" "listen_tasks d' = listen_tasks d" by blast
    note s = suc[OF r'(1)]
    have "change {} d d'"
      by (rule change_close[OF assms(1) Some act, where r' = r' and status = "''succeeded''" and now = now and et = None and m = None])
        (use s r' at in simp_all)
    with r'(5) show ?thesis by blast
  qed
qed

subsection \<open>Routes\<close>

lemma setting_other [simp]:
  "gen_jobs (fst (get_ai_setting now d)) = gen_jobs d" "gen_attempts (fst (get_ai_setting now d)) = gen_attempts d"
  "serial (fst (get_ai_setting now d)) = serial d" "listen_tasks (fst (get_ai_setting now d)) = listen_tasks d"
  by (simp_all add: get_ai_setting_def split: option.splits)

lemma get_setting [simp]: "gj_get i (fst (get_ai_setting now d)) = gj_get i d"
  "task_get i (fst (get_ai_setting now d)) = task_get i d"
  by (simp_all add: gj_get_def task_get_def)

lemma task_get_Some: "task_get i d = Some t \<Longrightarrow> t \<in> set (listen_tasks d) \<and> lt_id t = i"
  unfolding task_get_def by (rule row_get_Some)

lemma state_read:
  assumes "tasks_ok d" and "has_state t st d"
  obtains k where "task_get t d = Some k" "lt_desired_state k = st" "lt_id k = t"
proof -
  from assms(2) obtain k where k: "k \<in> set (listen_tasks d)" "lt_id k = t" "lt_desired_state k = st"
    by (auto simp: has_state_def)
  then have "task_get t d = Some k"
    using row_get_unique[of lt_id "listen_tasks d" k] assms(1) by (simp add: tasks_ok_def task_get_def)
  with k that show thesis by blast
qed

lemma change_retry:
  assumes "ledger_ok d" and "tasks_ok d" and "retry_ai_job now admin i d = Inr d'"
  shows "change {i} d d' \<and> listen_tasks d' = listen_tasks d"
proof -
  from assms(3) obtain r where r: "gj_get i d = Some r" "gj_status r \<in> {''failed'', ''retry_wait'', ''cancelled''}"
    and free: "retry_task_error admin i (fst (get_ai_setting now d)) = None"
    by (auto simp: retry_ai_job_def Let_def split: option.splits if_splits)
  have k: "gen_jobs d' = row_put gj_id (retried_row now r) (gen_jobs d)" "gen_attempts d' = gen_attempts d"
    "serial d' = serial d" "listen_tasks d' = listen_tasks d"
    using assms(3) r(1) by (auto simp: retry_ai_job_def Let_def add_event_def split: option.splits if_splits)
  have "\<not> of_archived d r"
  proof
    assume "of_archived d r"
    then obtain t where t: "gj_listen_task_id r = Some t" "has_state t ''archived'' d"
      by (auto simp: of_archived_def split: option.splits)
    from state_read[OF assms(2) t(2)] obtain tk where "task_get t d = Some tk" "lt_desired_state tk = ''archived''" .
    with free r(1) t(1) show False by (simp add: retry_task_error_def)
  qed
  then have "change {i} d d'"
    by (intro change.retry[where r = r and r' = "retried_row now r"])
      (use r k ledger_job[OF assms(1) r(1)] in
        \<open>auto simp: successor_def retried_row_def job_ok_def active_def waits_def job_states_def\<close>)
  with k(4) show ?thesis by blast
qed

lemma change_delete:
  assumes "delete_ai_job i d = Inr (d', x)"
  shows "change {} d d' \<and> listen_tasks d' = listen_tasks d"
proof -
  from assms obtain r where r: "gj_get i d = Some r"
    and d': "gen_jobs d' = filter (\<lambda>r. gj_id r \<noteq> i) (gen_jobs d)"
      "gen_attempts d' = filter (\<lambda>a. ga_job_id a \<noteq> i) (gen_attempts d)" "serial d' = serial d"
      "listen_tasks d' = listen_tasks d"
    by (auto simp: delete_ai_job_def Let_def split: option.splits if_splits)
  then show ?thesis by (intro conjI change.delete[where r = r and i = i]) simp_all
qed

text \<open>A transaction on tasks adds a task, or moves one that is not archived.\<close>

definition tasks_move :: "db \<Rightarrow> db \<Rightarrow> bool" where
  "tasks_move d d' \<longleftrightarrow> tasks_ok d' \<and> (\<forall>t. has_state t ''archived'' d \<longrightarrow> has_state t ''archived'' d')"

lemma move_refl: "tasks_ok d \<Longrightarrow> tasks_move d d"
  by (simp add: tasks_move_def)

lemma move_trans: "tasks_move d d1 \<Longrightarrow> tasks_move d1 d2 \<Longrightarrow> tasks_move d d2"
  by (simp add: tasks_move_def)

lemma move_same: "tasks_ok d \<Longrightarrow> same_states d d' \<Longrightarrow> serial d \<le> serial d' \<Longrightarrow> tasks_move d d'"
  using tasks_same has_state_same by (simp add: tasks_move_def)

lemma move_none: "tasks_ok d \<Longrightarrow> listen_tasks d' = listen_tasks d \<Longrightarrow> serial d \<le> serial d' \<Longrightarrow> tasks_move d d'"
  by (rule move_same) (simp_all add: same_states_def)

lemma move_put:
  assumes ok: "tasks_ok d" and get: "task_get (lt_id t') d = Some t"
    and free: "lt_desired_state t \<noteq> ''archived'' \<or> lt_desired_state t' = ''archived''"
    and d': "listen_tasks d' = row_put lt_id t' (listen_tasks d)" "serial d \<le> serial d'"
  shows "tasks_move d d'"
proof -
  have t: "t \<in> set (listen_tasks d)" "lt_id t = lt_id t'" using task_get_Some[OF get] by simp_all
  have "lt_id k < serial d'" if "k \<in> set (listen_tasks d')" for k
    using set_row_put_other[of k lt_id t' "listen_tasks d"] that ok t d' by (fastforce simp: tasks_ok_def)
  moreover have "has_state u ''archived'' d'" if "has_state u ''archived'' d" for u
  proof -
    from state_read[OF ok that] obtain k where k: "task_get u d = Some k" "lt_desired_state k = ''archived''" "lt_id k = u" .
    show ?thesis
    proof (cases "u = lt_id t'")
      case True
      with k get free have "lt_desired_state t' = ''archived''" by simp
      moreover have "row_get lt_id (lt_id t') (listen_tasks d') = Some t'"
        unfolding d'(1) by (rule row_get_put_same[of _ _ _ t]) (use get in \<open>simp_all add: task_get_def\<close>)
      then have "t' \<in> set (listen_tasks d')" by (rule row_get_Some[THEN conjunct1])
      ultimately show ?thesis using state_of_row[of t' d'] True by simp
    next
      case False
      then have "task_get u d' = Some k" using k(1) by (simp add: task_get_def d' row_get_put del: row_get_None)
      then show ?thesis using row_get_Some[of lt_id u "listen_tasks d'" k] k(2,3) state_of_row[of k d']
        by (simp add: task_get_def)
    qed
  qed
  ultimately show ?thesis using ok by (simp add: tasks_move_def tasks_ok_def d'(1))
qed

lemma move_add:
  assumes ok: "tasks_ok d" and d': "listen_tasks d' = listen_tasks d @ [t]" "lt_id t = serial d" "serial d < serial d'"
  shows "tasks_move d d'"
  using assms by (fastforce simp: tasks_move_def tasks_ok_def has_state_def)

lemma move_hold:
  assumes "tasks_ok d"
    and "listen_tasks d' = row_update p (\<lambda>t. t\<lparr>lt_queue_hold_reason := h\<rparr>) (listen_tasks d)" "serial d \<le> serial d'"
  shows "tasks_move d d'"
  by (rule move_same[OF assms(1) _ assms(3)]) (auto simp: same_states_def assms(2) row_update_def)

text \<open>The routes of tasks: what each leaves of the jobs, and how it moves the tasks.\<close>

definition task_step :: "db \<Rightarrow> db \<Rightarrow> bool" where
  "task_step d d' \<longleftrightarrow> change {} d d' \<and> tasks_move d d'"

lemma task_stepI: "same_ledger d d' \<Longrightarrow> tasks_move d d' \<Longrightarrow> task_step d d'"
  by (simp add: task_step_def change.same)

lemma step_refl: "tasks_ok d \<Longrightarrow> task_step d d"
  by (simp add: task_stepI move_refl)

lemma step_none:
  "tasks_ok d \<Longrightarrow> gen_jobs d' = gen_jobs d \<Longrightarrow> gen_attempts d' = gen_attempts d \<Longrightarrow> listen_tasks d' = listen_tasks d \<Longrightarrow>
    serial d \<le> serial d' \<Longrightarrow> task_step d d'"
  by (rule task_stepI) (simp_all add: same_ledger_def move_none)

lemma step_put:
  assumes "tasks_ok d" and "owned_task admin i d = Inr t" and "lt_desired_state t \<noteq> ''archived''" and "lt_id t' = lt_id t"
    and "listen_tasks d' = row_put lt_id t' (listen_tasks d)"
    and "gen_jobs d' = gen_jobs d" "gen_attempts d' = gen_attempts d" "serial d \<le> serial d'"
  shows "task_step d d'"
proof (rule task_stepI)
  show "same_ledger d d'" using assms(6-8) by (simp add: same_ledger_def)
  have get: "task_get i d = Some t" using assms(2) by (auto simp: owned_task_def split: option.splits)
  have "task_get (lt_id t') d = Some t" using get task_get_Some[OF get] assms(4) by simp
  then show "tasks_move d d'" by (rule move_put[OF assms(1) _ _ assms(5,8)]) (simp add: assms(3))
qed

lemma owned_setting [simp]: "owned_task admin i (fst (get_ai_setting now d)) = owned_task admin i d"
  by (simp add: owned_task_def)

lemma enqueue_request_other:
  assumes "enqueue_backfill_request env now t a b req ex ids d = Inr (d', x)"
  shows "gen_jobs d' = gen_jobs d \<and> gen_attempts d' = gen_attempts d \<and> listen_tasks d' = listen_tasks d \<and> serial d \<le> serial d'"
  using assms by (auto simp: enqueue_backfill_request_def Let_def split: if_splits option.splits)

lemma activate_other:
  assumes "activate env now t d = Inr d'"
  shows "gen_jobs d' = gen_jobs d \<and> gen_attempts d' = gen_attempts d \<and> serial d \<le> serial d' \<and>
    listen_tasks d' = row_put lt_id (activated_task now t) (listen_tasks d)"
proof -
  let ?d1 = "start_subs now (lt_id t) (put_task (activated_task now t) d)"
  from assms obtain d2 where i: "initial_backfill env now (lt_activated_at t = None) (activated_task now t) ?d1 = Inr d2"
    and d': "gen_jobs d' = gen_jobs d2" "gen_attempts d' = gen_attempts d2" "serial d' = serial d2" "listen_tasks d' = listen_tasks d2"
    by (auto simp: activate_def Let_def add_event_def split: sum.splits)
  have "gen_jobs d2 = gen_jobs ?d1 \<and> gen_attempts d2 = gen_attempts ?d1 \<and> listen_tasks d2 = listen_tasks ?d1 \<and> serial ?d1 \<le> serial d2"
    using i enqueue_request_other unfolding initial_backfill_def
    by (auto split: bool.splits option.splits sum.splits prod.splits)
  then show ?thesis using d' by (simp add: start_subs_def put_task_def)
qed

lemma activated_id [simp]: "lt_id (activated_task now t) = lt_id t" "lt_desired_state (activated_task now t) = ''enabled''"
  by (simp_all add: activated_task_def Let_def split: option.splits prod.splits)

lemma step_pause:
  assumes "tasks_ok d" and "pause_listen_task now admin i d = Inr d'"
  shows "task_step d d'"
proof (cases "d' = d")
  case True
  then show ?thesis by (simp add: step_refl assms(1))
next
  case False
  with assms(2) obtain t where t: "owned_task admin i d = Inr t" "lt_desired_state t \<noteq> ''archived''"
    and d': "d' = add_event (task_note i ''paused'' (Lit ''listening task paused'' []) [])
      (put_task (t\<lparr>lt_desired_state := ''paused'', lt_updated_at := now\<rparr>) (fst (get_ai_setting now d)))"
    by (auto simp: pause_listen_task_def Let_def split: sum.splits if_splits)
  show ?thesis
    by (rule step_put[OF assms(1) t, of "t\<lparr>lt_desired_state := ''paused'', lt_updated_at := now\<rparr>"])
      (simp_all add: d' put_task_def add_event_def)
qed

lemma step_resume:
  assumes "tasks_ok d" and "resume_listen_task env now admin i d = Inr d'"
  shows "task_step d d'"
proof -
  from assms(2) obtain t where t: "owned_task admin i d = Inr t" "lt_desired_state t \<noteq> ''archived''"
    and e: "d' = d \<or> activate env now (t\<lparr>lt_updated_at := now\<rparr>) (fst (get_ai_setting now d)) = Inr d'"
    by (auto simp: resume_listen_task_def Let_def split: sum.splits if_splits)
  from e show ?thesis
  proof
    assume "d' = d"
    then show ?thesis by (simp add: step_refl assms(1))
  next
    assume "activate env now (t\<lparr>lt_updated_at := now\<rparr>) (fst (get_ai_setting now d)) = Inr d'"
    from activate_other[OF this] show ?thesis
      by (intro step_put[OF assms(1) t, of "activated_task now (t\<lparr>lt_updated_at := now\<rparr>)"]) simp_all
  qed
qed

lemma replace_other [simp]:
  "gen_jobs (replace_subs now t us d) = gen_jobs d" "gen_attempts (replace_subs now t us d) = gen_attempts d"
  "listen_tasks (replace_subs now t us d) = listen_tasks d" "serial d \<le> serial (replace_subs now t us d)"
  "gen_jobs (replace_links t ss d) = gen_jobs d" "gen_attempts (replace_links t ss d) = gen_attempts d"
  "listen_tasks (replace_links t ss d) = listen_tasks d" "serial d \<le> serial (replace_links t ss d)"
  by (simp_all add: replace_subs_def replace_links_def Let_def)

lemma step_patch:
  assumes "tasks_ok d" and "patch_listen_task env now admin i p d = Inr d'"
  shows "task_step d d'"
proof -
  let ?d0 = "fst (get_ai_setting now d)"
  from assms(2) obtain t us ss where t: "owned_task admin i d = Inr t" "lt_desired_state t \<noteq> ''archived''"
    and d': "\<exists>ev. d' = add_event ev (put_task (patched_task now admin p t)
      (let d1 = (if tp_monitored_user_ids p \<noteq> None \<or> tp_all_monitored_users p \<noteq> None then replace_subs now t us ?d0 else ?d0)
       in if tp_skill_ids p \<noteq> None then replace_links t ss d1 else d1))"
    unfolding patch_listen_task_def Let_def owned_setting
    by (auto split: sum.splits if_splits option.splits prod.splits)
  have ser: "serial d \<le> serial (replace_links t ss (replace_subs now t us ?d0))"
    "serial d \<le> serial (replace_links t ss ?d0)" "serial d \<le> serial (replace_subs now t us ?d0)"
    using replace_other(4)[of ?d0 now t us] replace_other(8)[of _ t ss] order_trans by (metis setting_other(3))+
  show ?thesis
    by (rule step_put[OF assms(1) t, of "patched_task now admin p t"])
      (use d' ser in \<open>auto simp: patched_task_def Let_def add_event_def put_task_def split: if_splits\<close>)
qed

lemma cancel_other [simp]:
  "gen_attempts (cancel_queue now i d) = gen_attempts d" "listen_tasks (cancel_queue now i d) = listen_tasks d"
  "serial (cancel_queue now i d) = serial d"
  "gen_jobs (cancel_backfills now i d) = gen_jobs d" "gen_attempts (cancel_backfills now i d) = gen_attempts d"
  "listen_tasks (cancel_backfills now i d) = listen_tasks d" "serial (cancel_backfills now i d) = serial d"
  by (simp_all add: cancel_queue_def cancel_backfills_def)

lemma cancel_cong: "gen_jobs d1 = gen_jobs d2 \<Longrightarrow> gen_jobs (cancel_queue now i d1) = gen_jobs (cancel_queue now i d2)"
  by (simp add: cancel_queue_def)

text \<open>A move of the task whose queue is cancelled at the same time.\<close>

lemma step_cancel:
  assumes "tasks_ok d" and "owned_task admin i d = Inr t" and "lt_desired_state t \<noteq> ''archived''" and "lt_id t' = lt_id t"
    and "listen_tasks d' = row_put lt_id t' (listen_tasks d)"
    and "gen_jobs d' = gen_jobs (cancel_queue now i d)" "gen_attempts d' = gen_attempts d" "serial d \<le> serial d'"
  shows "task_step d d'"
proof -
  have "task_step d (d'\<lparr>gen_jobs := gen_jobs d\<rparr>)"
    by (rule step_put[OF assms(1-4)]) (use assms(5-8) in simp_all)
  then have "tasks_move d d'" by (simp add: task_step_def tasks_move_def tasks_ok_def has_state_def)
  then show ?thesis using change.cancel[OF assms(6-8)] by (simp add: task_step_def)
qed

lemma step_archive:
  assumes "tasks_ok d" and "archive_listen_task now admin i d = Inr d'"
  shows "task_step d d'"
proof (cases "d' = d")
  case True
  then show ?thesis by (simp add: step_refl assms(1))
next
  case False
  let ?d0 = "fst (get_ai_setting now d)"
  let ?t = "\<lambda>t. t\<lparr>lt_desired_state := ''archived'', lt_archived_at := Some now, lt_updated_at := now\<rparr>"
  from False assms(2) obtain t where t: "owned_task admin i d = Inr t" "lt_desired_state t \<noteq> ''archived''"
    and d': "d' = add_event (task_note i ''archived'' (Lit ''listening task archived'' []) [])
      (cancel_backfills now i (cancel_queue now i (put_task (?t t) ?d0)))"
    by (auto simp: archive_listen_task_def Let_def split: sum.splits if_splits)
  have "gen_jobs (cancel_queue now i (put_task (?t t) ?d0)) = gen_jobs (cancel_queue now i d)"
    by (rule cancel_cong) (simp add: put_task_def)
  then show ?thesis
    by (intro step_cancel[OF assms(1) t, of "?t t"]) (simp_all add: d' add_event_def put_task_def)
qed

lemma step_decide:
  assumes "tasks_ok d" and "decide_listen_queue env now admin i q d = Inr d'"
  shows "task_step d d'"
proof -
  let ?d0 = "fst (get_ai_setting now d)"
  let ?t = "\<lambda>t. t\<lparr>lt_queue_hold_reason := None, lt_updated_at := now\<rparr>"
  from assms(2) obtain t ev where t: "owned_task admin i d = Inr t" "lt_desired_state t \<noteq> ''archived''"
    and d': "d' = add_event ev (put_task (?t t) (case q of Continue_old_snapshot \<Rightarrow> ?d0 | Cancel_old_queue \<Rightarrow> cancel_queue now i ?d0))"
    unfolding decide_listen_queue_def Let_def owned_setting
    by (auto split: sum.splits if_splits queue_decision.splits)
  have "gen_jobs (cancel_queue now i ?d0) = gen_jobs (cancel_queue now i d)" by (rule cancel_cong) simp
  then show ?thesis
    using step_cancel[OF assms(1) t, of "?t t" d'] step_put[OF assms(1) t, of "?t t" d']
    by (cases q) (simp_all add: d' add_event_def put_task_def)
qed

lemma step_create:
  assumes "tasks_ok d" and "create_task env now owner from p d = Inr (d', i)"
  shows "task_step d d'"
proof -
  let ?d0 = "fst (get_ai_setting now d)"
  from assms(2) obtain us ss where
    run: "(case insert_task now owner p us ss ?d0 of
      (d1, t) \<Rightarrow>
        (let d2 = add_event (task_note (lt_id t) ''created'' (Lit ''listening task created'' [])
               [(''copied_from'', jint_opt from)]) d1 in
         if tc_desired_state p \<noteq> ''enabled'' then Inr (d2, lt_id t)
         else case activate env now t d2 of
           Inl e \<Rightarrow> Inl (request_api_error e)
         | Inr d3 \<Rightarrow> Inr (d3, lt_id t))) = Inr (d', i)"
    unfolding create_task_def Let_def by (auto split: sum.splits option.splits prod.splits)
  obtain d1 t where ins: "insert_task now owner p us ss ?d0 = (d1, t)" by (cases "insert_task now owner p us ss ?d0")
  obtain ev where d': "d' = add_event ev d1 \<or> activate env now t (add_event ev d1) = Inr d'"
    using run ins by (auto simp: Let_def split: if_splits sum.splits)
  have k: "t = new_task now (serial d) owner p" "listen_tasks d1 = listen_tasks d @ [t]" "gen_jobs d1 = gen_jobs d"
    "gen_attempts d1 = gen_attempts d" "serial d < serial d1"
    using ins by (auto simp: insert_task_def Let_def)
  have id: "lt_id t = serial d" by (simp add: k(1) new_task_def)
  have fresh: "row_put lt_id (activated_task now t) (listen_tasks d @ [t]) = listen_tasks d @ [activated_task now t]"
    using assms(1) id by (auto simp: row_put_def row_update_def tasks_ok_def intro!: map_idI)
  from d' show ?thesis
  proof
    assume e: "d' = add_event ev d1"
    show ?thesis
      by (rule task_stepI) (use e k id in \<open>simp_all add: same_ledger_def add_event_def move_add[OF assms(1)]\<close>)
  next
    assume "activate env now t (add_event ev d1) = Inr d'"
    from activate_other[OF this] have a: "gen_jobs d' = gen_jobs d" "gen_attempts d' = gen_attempts d"
      "serial d < serial d'" "listen_tasks d' = listen_tasks d @ [activated_task now t]"
      using k fresh by (auto simp: add_event_def)
    show ?thesis
      by (rule task_stepI) (use a id in \<open>auto simp: same_ledger_def intro!: move_add[OF assms(1) a(4)]\<close>)
  qed
qed

lemma step_copy: "tasks_ok d \<Longrightarrow> copy_listen_task env now admin i d = Inr (d', j) \<Longrightarrow> task_step d d'"
  by (auto simp: copy_listen_task_def split: sum.splits if_splits intro: step_create)

lemma step_request:
  assumes "tasks_ok d" and "create_listen_backfill env now admin i a b req ex d = Inr (d', x)"
  shows "task_step d d'"
proof -
  from assms(2) obtain t ids where
    "enqueue_backfill_request env now t a b req ex ids (fst (get_ai_setting now d)) = Inr (d', x)"
    unfolding create_listen_backfill_def Let_def
    by (auto split: sum.splits if_splits request_error.splits)
  from enqueue_request_other[OF this] show ?thesis by (intro step_none[OF assms(1)]) simp_all
qed

lemma step_hold:
  assumes "tasks_ok d" and "gen_jobs d1 = gen_jobs d" "gen_attempts d1 = gen_attempts d" "listen_tasks d1 = listen_tasks d"
    "serial d1 = serial d"
  shows "task_step d (hold_users i d1)"
proof (rule task_stepI)
  show "same_ledger d (hold_users i d1)" using assms by (simp add: same_ledger_def hold_users_def)
  show "tasks_move d (hold_users i d1)"
    by (rule move_hold[OF assms(1), of _ "\<lambda>t. uses_skill i d1 (lt_id t)" "Some ''skill_invalidated''"])
      (simp_all add: hold_users_def assms)
qed

lemma step_patch_skill:
  assumes "tasks_ok d" and "patch_ai_skill now i p d = Inr d'"
  shows "task_step d d'"
proof -
  let ?d0 = "fst (get_ai_setting now d)"
  from assms(2) obtain s where "d' = put_skill s ?d0 \<or> d' = hold_users i (put_skill s ?d0)"
    by (auto simp: patch_ai_skill_def Let_def case_prod_beta split: option.splits if_splits)
  then show ?thesis
    using step_hold[OF assms(1), of "put_skill s ?d0" i] step_none[OF assms(1), of "put_skill s ?d0"]
    by (auto simp: put_skill_def)
qed

lemma step_delete_skill:
  assumes "tasks_ok d" and "delete_ai_skill now i d = Inr d'"
  shows "task_step d d'"
proof -
  let ?d0 = "fst (get_ai_setting now d)"
  from assms(2) obtain s where "d' = hold_users i (put_skill s ?d0)"
    by (auto simp: delete_ai_skill_def Let_def case_prod_beta split: option.splits)
  then show ?thesis using step_hold[OF assms(1), of "put_skill s ?d0" i] by (simp add: put_skill_def)
qed

subsection \<open>Every step\<close>

definition retries :: "gen_event \<Rightarrow> int set" where
  "retries e = (case e of Retry_job now admin i \<Rightarrow> {i} | _ \<Rightarrow> {})"

definition steps :: "int set \<Rightarrow> db \<Rightarrow> db \<Rightarrow> bool" where
  "steps R d d' \<longleftrightarrow> change R d d' \<and> tasks_move d d'"

lemma steps_none: "tasks_ok d \<Longrightarrow> change R d d' \<Longrightarrow> listen_tasks d' = listen_tasks d \<Longrightarrow> serial d \<le> serial d' \<Longrightarrow> steps R d d'"
  by (simp add: steps_def move_none)

lemma steps_refl: "tasks_ok d \<Longrightarrow> steps R d d"
  by (simp add: steps_def move_refl change.same)

lemma steps_queues: "tasks_ok d \<Longrightarrow> queues d d' \<Longrightarrow> steps {} d d'"
  by (simp add: steps_def change.queue move_same queues_def)

lemma steps_task: "task_step d d' \<Longrightarrow> steps {} d d'"
  by (simp add: steps_def task_step_def)

lemma change_serial: "change R d d' \<Longrightarrow> serial d \<le> serial d'"
  by (induction rule: change.induct) (auto simp: queues_def same_ledger_def)

lemma claim_tasks:
  assumes "tasks_ok d" and "claim_job cfg resolve material worker now i token d = Some (d', x)"
  shows "tasks_move d d'"
proof (cases "gj_get i d")
  case None
  with assms show ?thesis by (simp add: claim_job_def move_refl)
next
  case (Some r)
  show ?thesis
  proof (cases "readiness_of resolve r d")
    case (Invalidated tk)
    then have "row_get lt_id (lt_id tk) (listen_tasks d) = Some tk" "lt_desired_state tk = ''enabled''"
      using row_get_Some[of lt_id _ "listen_tasks d" tk]
      by (auto simp: readiness_of_def split: option.splits if_splits)
    then have "tasks_move d (hold_task ''skill_invalidated'' tk d)"
      by (intro move_put[OF assms(1), of "tk\<lparr>lt_queue_hold_reason := Some ''skill_invalidated''\<rparr>" tk])
        (simp_all add: task_get_def hold_task_def)
    with assms(2) Some Invalidated show ?thesis by (simp add: claim_job_def)
  next
    case Ready_to_run
    with assms(2) Some have "listen_tasks d' = listen_tasks d \<and> serial d \<le> serial d'"
      by (auto simp: claim_job_def start_attempt_def task_event_of_def Let_def split: if_splits option.splits)
    with assms(1) show ?thesis by (simp add: move_none)
  qed (use assms Some in \<open>auto simp: claim_job_def move_refl\<close>)
qed

lemma worker_tasks:
  "listen_tasks (fst (renew_job cfg now i token d)) = listen_tasks d"
  "listen_tasks (expire_lease now i d) = listen_tasks d"
  "listen_tasks (requeue_cancelled now i token d) = listen_tasks d"
  "commit_ai_failure now held jitter i token m retry http d = Some (d', x) \<Longrightarrow> listen_tasks d' = listen_tasks d"
  "provider_request key job d = Inr (d', q) \<Longrightarrow> listen_tasks d' = listen_tasks d"
  by (auto simp: renew_job_def expire_lease_def requeue_cancelled_def commit_ai_failure_def provider_request_def Let_def
      split: option.splits if_splits sum.splits)

lemma steps_some: "tasks_ok d \<Longrightarrow> (\<And>d' x. r = Some (d', x) \<Longrightarrow> steps {} d d') \<Longrightarrow> steps {} d (some_fst d r)"
  using steps_refl by (auto simp: some_fst_def split: option.splits)

lemma steps_ok: "tasks_ok d \<Longrightarrow> (\<And>d'. r = Inr d' \<Longrightarrow> steps {} d d') \<Longrightarrow> steps {} d (ok_or d r)"
  using steps_refl by (auto simp: ok_or_def split: sum.splits)

lemma steps_okf: "tasks_ok d \<Longrightarrow> (\<And>d' x. r = Inr (d', x) \<Longrightarrow> steps {} d d') \<Longrightarrow> steps {} d (ok_fst d r)"
  using steps_refl by (auto simp: ok_fst_def split: sum.splits)

lemma step_change:
  assumes "ledger_ok d" and "tasks_ok d"
  shows "steps (retries e) d (gen_step p e d)"
proof (cases e)
  case (Claim_job now i token resolve material)
  have "steps {} d (some_fst d (claim_job (gp_cfg p) resolve material (gp_worker p) now i token d))"
    by (rule steps_some[OF assms(2)]) (simp add: steps_def change_claim[OF assms(1)] claim_tasks[OF assms(2)])
  then show ?thesis by (simp add: Claim_job retries_def)
next
  case (Renew_lease now i token)
  show ?thesis
    using steps_none[OF assms(2) change_renew[OF assms(1)] worker_tasks(1) change_serial[OF change_renew[OF assms(1)]]]
    by (simp add: Renew_lease retries_def)
next
  case (Expire_lease now i)
  show ?thesis
    using steps_none[OF assms(2) change_expire[OF assms] worker_tasks(2) change_serial[OF change_expire[OF assms]]]
    by (simp add: Expire_lease retries_def)
next
  case (Store now fails i token g)
  have "steps {} d (some_fst d (commit_article now True fails i token g d))"
  proof (rule steps_some[OF assms(2)])
    fix d' x assume "commit_article now True fails i token g d = Some (d', x)"
    from change_store[OF assms(1) this] show "steps {} d d'" using steps_none[OF assms(2)] change_serial by blast
  qed
  then show ?thesis by (simp add: Store retries_def)
next
  case (Fail now jitter i token m retry http)
  have "steps {} d (some_fst d (commit_ai_failure now True jitter i token m retry http d))"
  proof (rule steps_some[OF assms(2)])
    fix d' x assume f: "commit_ai_failure now True jitter i token m retry http d = Some (d', x)"
    note c = change_fail[OF assms f]
    show "steps {} d d'" by (rule steps_none[OF assms(2) c worker_tasks(4)[OF f] change_serial[OF c]])
  qed
  then show ?thesis by (simp add: Fail retries_def)
next
  case (Requeue now i token)
  show ?thesis
    using steps_none[OF assms(2) change_requeue[OF assms] worker_tasks(3) change_serial[OF change_requeue[OF assms]]]
    by (simp add: Requeue retries_def)
next
  case (Resolve_source job)
  have "steps {} d (ok_fst d (provider_request (gp_api_key p) job d))"
  proof (rule steps_okf[OF assms(2)])
    fix d' x assume f: "provider_request (gp_api_key p) job d = Inr (d', x)"
    note c = change_source[OF assms(1) f]
    show "steps {} d d'" by (rule steps_none[OF assms(2) c worker_tasks(5)[OF f] change_serial[OF c]])
  qed
  then show ?thesis by (simp add: Resolve_source retries_def)
next
  case (Retry_job now admin i)
  show ?thesis
  proof (cases "retry_ai_job now admin i d")
    case (Inl x)
    then show ?thesis using steps_refl[OF assms(2)] by (simp add: Retry_job retries_def ok_or_def)
  next
    case (Inr d')
    from change_retry[OF assms Inr] have "steps {i} d d'" using steps_none[OF assms(2)] change_serial by blast
    then show ?thesis by (simp add: Retry_job retries_def ok_or_def Inr)
  qed
next
  case (Delete_job i)
  have "steps {} d (ok_fst d (delete_ai_job i d))"
  proof (rule steps_okf[OF assms(2)])
    fix d' x assume "delete_ai_job i d = Inr (d', x)"
    from change_delete[OF this] show "steps {} d d'" using steps_none[OF assms(2)] change_serial by blast
  qed
  then show ?thesis by (simp add: Delete_job retries_def)
next
  case (Generate resolve now fresh tweet q)
  have "steps {} d (ok_fst d (generate_from_tweet (gp_ai p) resolve now fresh tweet q d))"
    by (rule steps_okf[OF assms(2)]) (rule steps_queues[OF assms(2) queues_generate])
  then show ?thesis by (simp add: Generate retries_def)
next
  case (Collect resolve now xids)
  have "steps {} d (some_fst d (enqueue_jobs_for_x_tweet_ids (gp_ai p) resolve now xids d))"
    by (rule steps_some[OF assms(2)]) (rule steps_queues[OF assms(2) queues_collect[OF _ assms(2)]])
  then show ?thesis by (simp add: Collect retries_def)
next
  case (Scan_backfills resolve now n)
  have "steps {} d (ok_fst d (process_pending_backfills (gp_ai p) resolve now n d))"
    by (rule steps_okf[OF assms(2)]) (rule steps_queues[OF assms(2) queues_pending[OF _ assms(2)]])
  then show ?thesis by (simp add: Scan_backfills retries_def)
next
  case (Create_task now admin c)
  have "steps {} d (ok_fst d (create_task (gp_listen p) now (Some admin) None c d))"
    by (rule steps_okf[OF assms(2)]) (rule steps_task[OF step_create[OF assms(2)]])
  then show ?thesis by (simp add: Create_task retries_def)
next
  case (Copy_task now admin i)
  have "steps {} d (ok_fst d (copy_listen_task (gp_listen p) now admin i d))"
    by (rule steps_okf[OF assms(2)]) (rule steps_task[OF step_copy[OF assms(2)]])
  then show ?thesis by (simp add: Copy_task retries_def)
next
  case (Patch_task now admin i c)
  have "steps {} d (ok_or d (patch_listen_task (gp_listen p) now admin i c d))"
    by (rule steps_ok[OF assms(2)]) (rule steps_task[OF step_patch[OF assms(2)]])
  then show ?thesis by (simp add: Patch_task retries_def)
next
  case (Pause_task now admin i)
  have "steps {} d (ok_or d (pause_listen_task now admin i d))"
    by (rule steps_ok[OF assms(2)]) (rule steps_task[OF step_pause[OF assms(2)]])
  then show ?thesis by (simp add: Pause_task retries_def)
next
  case (Resume_task now admin i)
  have "steps {} d (ok_or d (resume_listen_task (gp_listen p) now admin i d))"
    by (rule steps_ok[OF assms(2)]) (rule steps_task[OF step_resume[OF assms(2)]])
  then show ?thesis by (simp add: Resume_task retries_def)
next
  case (Archive_task now admin i)
  have "steps {} d (ok_or d (archive_listen_task now admin i d))"
    by (rule steps_ok[OF assms(2)]) (rule steps_task[OF step_archive[OF assms(2)]])
  then show ?thesis by (simp add: Archive_task retries_def)
next
  case (Decide_queue now admin i q)
  have "steps {} d (ok_or d (decide_listen_queue (gp_listen p) now admin i q d))"
    by (rule steps_ok[OF assms(2)]) (rule steps_task[OF step_decide[OF assms(2)]])
  then show ?thesis by (simp add: Decide_queue retries_def)
next
  case (Request_backfill now admin i a b req ex)
  have "steps {} d (ok_fst d (create_listen_backfill (gp_listen p) now admin i a b req ex d))"
    by (rule steps_okf[OF assms(2)]) (rule steps_task[OF step_request[OF assms(2)]])
  then show ?thesis by (simp add: Request_backfill retries_def)
next
  case (Patch_skill now i c)
  have "steps {} d (ok_or d (patch_ai_skill now i c d))"
    by (rule steps_ok[OF assms(2)]) (rule steps_task[OF step_patch_skill[OF assms(2)]])
  then show ?thesis by (simp add: Patch_skill retries_def)
next
  case (Delete_skill now i)
  have "steps {} d (ok_or d (delete_ai_skill now i d))"
    by (rule steps_ok[OF assms(2)]) (rule steps_task[OF step_delete_skill[OF assms(2)]])
  then show ?thesis by (simp add: Delete_skill retries_def)
next
  case (Other_work f)
  have "same_ledger d (elsewhere f d)" by (simp add: same_ledger_def elsewhere_def)
  then show ?thesis
    using steps_none[OF assms(2) change.same] by (simp add: Other_work retries_def elsewhere_def)
qed

lemma steps_ledger: "steps R d d' \<Longrightarrow> ledger_ok d \<Longrightarrow> ledger_ok d' \<and> tasks_ok d'"
  using change_ledger by (auto simp: steps_def tasks_move_def)

lemma run_ledger: "ledger_ok d \<Longrightarrow> tasks_ok d \<Longrightarrow> ledger_ok (gen_run p es d) \<and> tasks_ok (gen_run p es d)"
proof (induction es arbitrary: d)
  case Nil
  then show ?case by simp
next
  case (Cons e es)
  from steps_ledger[OF step_change[OF Cons.prems] Cons.prems(1)] Cons.IH show ?case by simp
qed

end
