(* ===== verification/GenerationSafety.thy ===== *)
theory GenerationSafety
  imports GenerationSteps
begin

text \<open>
  What every run of the generation transactions keeps, whatever their order: the ledger of
  attempts, the records of closed attempts, the budget of a job and the quiet of an
  archived task. A pass of the worker is such a run, for any interference.
\<close>

subsection \<open>One row over a run\<close>

lemma mem_get: "distinct (map gj_id (gen_jobs d)) \<Longrightarrow> r \<in> set (gen_jobs d) \<Longrightarrow> gj_get (gj_id r) d = Some r"
  unfolding gj_get_def by (rule row_get_unique)

lemma get_row_put:
  assumes "gen_jobs d' = row_put gj_id r' (gen_jobs d)" and "gj_get i d = Some r"
  shows "gj_get i d' = (if i = gj_id r' then Some r' else Some r)"
proof (cases "i = gj_id r'")
  case True
  have "row_get gj_id i (gen_jobs d') = Some r'"
    unfolding assms(1) by (rule row_get_put_same[OF assms(2)[unfolded gj_get_def] True[symmetric]])
  with True show ?thesis by (simp add: gj_get_def)
next
  case False
  then show ?thesis using assms by (simp add: gj_get_def row_get_put del: row_get_None)
qed

definition known :: "int \<Rightarrow> db \<Rightarrow> bool" where
  "known i d \<longleftrightarrow> i \<in> gj_id ` set (gen_jobs d)"

lemma known_get: "known i d \<longleftrightarrow> gj_get i d \<noteq> None"
  by (simp add: known_def gj_get_def)

text \<open>No identifier of a job is used a second time.\<close>

lemma change_known: "change R d d' \<Longrightarrow> i < serial d \<Longrightarrow> known i d' \<Longrightarrow> known i d"
proof (induction rule: change.induct)
  case (queue d d')
  then show ?case by (fastforce simp: queues_def known_def fresh_job_def)
next
  case (cancel d' now t d)
  then show ?case by (auto simp: known_def cancel_queue_def row_update_def)
next
  case (same d d' R)
  then show ?case by (simp add: same_ledger_def known_def)
next
  case (delete i d r d')
  then show ?case by (auto simp: known_def)
qed (simp_all only: known_def set_map[symmetric] map_row_put)

text \<open>How a row moves in one step.\<close>

definition evolves :: "bool \<Rightarrow> gen_job \<Rightarrow> gen_job \<Rightarrow> bool" where
  "evolves reset r r' \<longleftrightarrow>
     gj_max_attempts r' = gj_max_attempts r \<and> gj_listen_task_id r' = gj_listen_task_id r \<and>
     gj_lifetime_attempts r \<le> gj_lifetime_attempts r' \<and>
     (gj_lifetime_attempts r' = gj_lifetime_attempts r \<or> waits r) \<and>
     (\<not> reset \<longrightarrow> gj_lifetime_attempts r' - gj_lifetime_attempts r = gj_attempts r' - gj_attempts r)"

lemma evolves_refl: "evolves b r r"
  by (simp add: evolves_def)

lemma put_evolves:
  assumes "gj_get j d = Some x" and "successor d x x'" and "gen_jobs d' = row_put gj_id x' (gen_jobs d)"
    and "gj_get i d = Some r" and "i = j \<Longrightarrow> evolves reset x x'"
  shows "\<exists>r'. gj_get i d' = Some r' \<and> evolves reset r r'"
proof -
  have "gj_id x' = j" using gj_get_Some[OF assms(1)] assms(2) by (simp add: successor_def)
  then show ?thesis using get_row_put[OF assms(3,4)] assms(1,4,5) evolves_refl by (cases "i = j") simp_all
qed

lemma change_evolves:
  assumes "change R d d'" and "gj_get i d = Some r"
  shows "gj_get i d' = None \<or> (\<exists>r'. gj_get i d' = Some r' \<and> evolves (i \<in> R) r r')"
  using assms
proof (induction rule: change.induct)
  case (queue d d')
  then have "gj_get i d' = Some r" by (auto simp: queues_def gj_get_def row_get_def find_append)
  then show ?case using evolves_refl by blast
next
  case (cancel d' now t d)
  have "gj_get i d' = gj_get i (cancel_queue now t d)" by (simp add: gj_get_def cancel)
  then show ?case using cancel.prems by (auto simp: cancel_queue_row evolves_def)
next
  case (same d d' R)
  then have "gj_get i d' = Some r" by (simp add: same_ledger_def gj_get_def)
  then show ?case using evolves_refl by blast
next
  case (delete j d x d')
  have "row_get gj_id i (filter (\<lambda>r. gj_id r \<noteq> j) xs) = (if i = j then None else row_get gj_id i xs)" for xs :: "gen_job list"
    by (induction xs) (auto simp: row_get_def)
  with delete show ?case using evolves_refl by (auto simp: gj_get_def)
next
  case (row j d x x' d')
  from row(2,4,5) have e: "evolves (i \<in> {}) x x'" by (simp add: evolves_def successor_def)
  show ?case using put_evolves[OF row(1,2,6) row.prems] e by blast
next
  case (retry j d x x' d')
  from retry(2,5) have e: "i = j \<Longrightarrow> evolves (i \<in> {j}) x x'" by (simp add: evolves_def successor_def)
  have "\<exists>r'. gj_get i d' = Some r' \<and> evolves (i \<in> {j}) r r'"
    by (rule put_evolves[OF retry(1,2,6) retry.prems]) (rule e)
  then show ?case by blast
next
  case (close j d x x' a a' d')
  from close(2,5,6) have e: "evolves (i \<in> {}) x x'" by (simp add: evolves_def successor_def)
  show ?case using put_evolves[OF close(1,2,9) close.prems] e by blast
next
  case (start j d x x' a d')
  from start(2,3,5,6) have e: "evolves (i \<in> {}) x x'" by (simp add: evolves_def successor_def)
  show ?case using put_evolves[OF start(1,2,8) start.prems] e by blast
qed

subsection \<open>Rows over a run\<close>

lemma run_known:
  "ledger_ok d \<Longrightarrow> tasks_ok d \<Longrightarrow> i < serial d \<Longrightarrow> \<not> known i d \<Longrightarrow> \<not> known i (gen_run p es d)"
proof (induction es arbitrary: d)
  case Nil
  then show ?case by simp
next
  case (Cons e es)
  note st = step_change[OF Cons.prems(1,2), of e p]
  note ok = steps_ledger[OF st Cons.prems(1)]
  have c: "change (retries e) d (gen_step p e d)" using st by (simp add: steps_def)
  have "\<not> known i (gen_step p e d)" using change_known[OF c Cons.prems(3)] Cons.prems(4) by blast
  then show ?case using Cons.IH ok change_serial[OF c] Cons.prems(3) by simp
qed

lemma run_evolves:
  assumes "ledger_ok d" and "tasks_ok d" and "\<forall>e \<in> set es. i \<notin> retries e" and "gj_get i d = Some r"
  shows "\<not> known i (gen_run p es d) \<or>
    (\<exists>r'. gj_get i (gen_run p es d) = Some r' \<and> gj_max_attempts r' = gj_max_attempts r \<and>
      gj_lifetime_attempts r \<le> gj_lifetime_attempts r' \<and>
      gj_lifetime_attempts r' - gj_lifetime_attempts r = gj_attempts r' - gj_attempts r)"
  using assms
proof (induction es arbitrary: d r)
  case Nil
  then show ?case by simp
next
  case (Cons e es)
  note st = step_change[OF Cons.prems(1,2), of e p]
  note ok = steps_ledger[OF st Cons.prems(1)]
  have c: "change (retries e) d (gen_step p e d)" using st by (simp add: steps_def)
  have e: "i \<notin> retries e" "\<forall>e \<in> set es. i \<notin> retries e" using Cons.prems(3) by simp_all
  have i: "i < serial d" using ledger_get[OF Cons.prems(1,4)] by simp
  from change_evolves[OF c Cons.prems(4)] consider "gj_get i (gen_step p e d) = None"
    | r1 where "gj_get i (gen_step p e d) = Some r1" "evolves False r r1" using e(1) by auto
  then show ?case
  proof cases
    case 1
    then have "\<not> known i (gen_step p e d)" by (simp add: known_get)
    then have "\<not> known i (gen_run p es (gen_step p e d))"
      using run_known ok i change_serial[OF c] by (metis order_less_le_trans)
    then show ?thesis by simp
  next
    case 2
    from Cons.IH[OF _ _ e(2) 2(1)] ok have "\<not> known i (gen_run p es (gen_step p e d)) \<or>
      (\<exists>r'. gj_get i (gen_run p es (gen_step p e d)) = Some r' \<and> gj_max_attempts r' = gj_max_attempts r1 \<and>
        gj_lifetime_attempts r1 \<le> gj_lifetime_attempts r' \<and>
        gj_lifetime_attempts r' - gj_lifetime_attempts r1 = gj_attempts r' - gj_attempts r1)" by blast
    moreover have "gj_max_attempts r1 = gj_max_attempts r \<and> gj_lifetime_attempts r \<le> gj_lifetime_attempts r1 \<and>
        gj_lifetime_attempts r1 - gj_lifetime_attempts r = gj_attempts r1 - gj_attempts r"
      using 2(2) by (simp add: evolves_def)
    ultimately show ?thesis by auto
  qed
qed

text \<open>A closed attempt.\<close>

definition settled_attempt :: "gen_attempt \<Rightarrow> db \<Rightarrow> bool" where
  "settled_attempt a d \<longleftrightarrow> a \<in> set (gen_attempts d) \<and> ga_status a \<noteq> ''running''"

lemma change_settled:
  assumes "change R d d'" and "ledger_ok d" and "settled_attempt a d"
  shows "settled_attempt a d' \<or> \<not> known (ga_job_id a) d'"
  using assms
proof (induction rule: change.induct)
  case (close i d r r' b b' d')
  have "b \<in> set (gen_attempts d)" using close(7) by (simp add: attempts_of_def)
  moreover have "a \<noteq> b" using close(8) close.prems(2) by (auto simp: closes_def settled_attempt_def)
  ultimately have "ga_id a \<noteq> ga_id b"
    using ledger_attempts[OF close.prems(1)] close.prems(2) by (auto simp: distinct_map inj_on_def settled_attempt_def)
  then have "a \<in> set (gen_attempts d')"
    using close(8,10) close.prems(2) by (force simp: closes_def settled_attempt_def row_put_def row_update_def)
  then show ?case using close.prems(2) by (simp add: settled_attempt_def)
next
  case (delete i d r d')
  then show ?case by (auto simp: settled_attempt_def known_def)
qed (auto simp: settled_attempt_def queues_def same_ledger_def)

lemma run_settled:
  "ledger_ok d \<Longrightarrow> tasks_ok d \<Longrightarrow> settled_attempt a d \<or> (\<not> known (ga_job_id a) d \<and> ga_job_id a < serial d) \<Longrightarrow>
    settled_attempt a (gen_run p es d) \<or> \<not> known (ga_job_id a) (gen_run p es d)"
proof (induction es arbitrary: d)
  case Nil
  then show ?case by auto
next
  case (Cons e es)
  note st = step_change[OF Cons.prems(1,2), of e p]
  note ok = steps_ledger[OF st Cons.prems(1)]
  have c: "change (retries e) d (gen_step p e d)" using st by (simp add: steps_def)
  have i: "ga_job_id a < serial d"
  proof (cases "settled_attempt a d")
    case True
    then have "ga_job_id a \<in> gj_id ` set (gen_jobs d)" using ledger_keys[OF Cons.prems(1)] by (simp add: settled_attempt_def)
    then show ?thesis using ledger_rows[OF Cons.prems(1)] by auto
  next
    case False
    with Cons.prems(3) show ?thesis by blast
  qed
  have "settled_attempt a (gen_step p e d) \<or> \<not> known (ga_job_id a) (gen_step p e d)"
    using Cons.prems(3) change_settled[OF c Cons.prems(1)] change_known[OF c i] by blast
  moreover have "ga_job_id a < serial (gen_step p e d)" using i change_serial[OF c] by simp
  ultimately show ?case using Cons.IH ok by simp
qed

text \<open>The jobs of an archived task.\<close>

definition quiet :: "int \<Rightarrow> db \<Rightarrow> bool" where
  "quiet t d \<longleftrightarrow> has_state t ''archived'' d \<and> (\<forall>r \<in> set (gen_jobs d). gj_listen_task_id r = Some t \<longrightarrow> \<not> waits r)"

definition frozen :: "int \<Rightarrow> db \<Rightarrow> db \<Rightarrow> bool" where
  "frozen t d d' \<longleftrightarrow>
     (\<forall>r' \<in> set (gen_jobs d'). gj_listen_task_id r' = Some t \<longrightarrow>
        (\<exists>r \<in> set (gen_jobs d). gj_id r = gj_id r' \<and> gj_listen_task_id r = Some t \<and>
           gj_lifetime_attempts r = gj_lifetime_attempts r'))"

lemma frozen_refl: "frozen t d d"
  by (auto simp: frozen_def)

lemma frozen_trans: "frozen t d d1 \<Longrightarrow> frozen t d1 d2 \<Longrightarrow> frozen t d d2"
  unfolding frozen_def by metis

lemma archived_of: "has_state t ''archived'' d \<Longrightarrow> gj_listen_task_id r = Some t \<Longrightarrow> of_archived d r"
  by (simp add: of_archived_def)

lemma quiet_put:
  assumes "quiet t d" and "gj_get j d = Some x" and "successor d x x'" and "gen_jobs d' = row_put gj_id x' (gen_jobs d)"
    and "gj_listen_task_id x = Some t \<Longrightarrow> gj_lifetime_attempts x' = gj_lifetime_attempts x"
  shows "(\<forall>r \<in> set (gen_jobs d'). gj_listen_task_id r = Some t \<longrightarrow> \<not> waits r) \<and> frozen t d d'"
proof -
  have x: "x \<in> set (gen_jobs d)" "gj_id x' = gj_id x" "gj_listen_task_id x' = gj_listen_task_id x"
    using gj_get_Some[OF assms(2)] assms(3) by (simp_all add: successor_def)
  have quiet: "\<not> waits x'" if "gj_listen_task_id x = Some t"
    using assms(1,3) x(1) that archived_of[of t d x] by (auto simp: quiet_def successor_def)
  have each: "r = x' \<or> r \<in> set (gen_jobs d)" if "r \<in> set (gen_jobs d')" for r
    using set_row_put_other[of r gj_id x' "gen_jobs d"] that assms(4) by auto
  show ?thesis
    using each quiet x assms(1,5) unfolding quiet_def frozen_def by metis
qed

lemma change_quiet:
  assumes "change R d d'" and "tasks_ok d" and "quiet t d"
  shows "(\<forall>r \<in> set (gen_jobs d'). gj_listen_task_id r = Some t \<longrightarrow> \<not> waits r) \<and> frozen t d d'"
  using assms
proof (induction rule: change.induct)
  case (queue d d')
  have arch: "has_state t ''archived'' d" using queue by (simp add: quiet_def)
  from queue obtain new where n: "gen_jobs d' = gen_jobs d @ new" "\<forall>r \<in> set new. task_allows d r"
    by (auto simp: queues_def)
  have "gj_listen_task_id r \<noteq> Some t" if "r \<in> set new" for r
    using n(2) that one_state[OF queue.prems(1) arch, of "''enabled''"] by (auto simp: task_allows_def split: option.splits)
  then show ?case using n(1) queue.prems(2) by (auto simp: quiet_def frozen_def)
next
  case (cancel d' now u d)
  then show ?case
    by (auto simp: quiet_def frozen_def cancel_queue_def row_update_def waits_def split: if_splits)
next
  case (same d d' R)
  then show ?case by (auto simp: quiet_def frozen_def same_ledger_def)
next
  case (delete i d r d')
  then show ?case by (auto simp: quiet_def frozen_def)
next
  case (row j d x x' d')
  show ?case by (rule quiet_put[OF row.prems(2) row(1,2,6)]) (rule row(4))
next
  case (retry j d x x' d')
  show ?case by (rule quiet_put[OF retry.prems(2) retry(1,2,6)]) (rule retry(5))
next
  case (close j d x x' a a' d')
  show ?case by (rule quiet_put[OF close.prems(2) close(1,2,9)]) (rule close(5))
next
  case (start j d x x' a d')
  have "gj_listen_task_id x \<noteq> Some t"
    using start(3) start.prems(2) gj_get_Some[OF start(1)] by (auto simp: quiet_def)
  then show ?case by (intro quiet_put[OF start.prems(2) start(1,2,8)]) simp
qed

lemma run_quiet:
  "ledger_ok d \<Longrightarrow> tasks_ok d \<Longrightarrow> quiet t d \<Longrightarrow> quiet t (gen_run p es d) \<and> frozen t d (gen_run p es d)"
proof (induction es arbitrary: d)
  case Nil
  then show ?case by (simp add: frozen_refl)
next
  case (Cons e es)
  note st = step_change[OF Cons.prems(1,2), of e p]
  note ok = steps_ledger[OF st Cons.prems(1)]
  have c: "change (retries e) d (gen_step p e d)" "tasks_move d (gen_step p e d)" using st by (simp_all add: steps_def)
  note q = change_quiet[OF c(1) Cons.prems(2,3)]
  have "quiet t (gen_step p e d)" using q c(2) Cons.prems(3) by (simp add: quiet_def tasks_move_def)
  from Cons.IH[OF _ _ this] ok have "quiet t (gen_run p es (gen_step p e d)) \<and>
      frozen t (gen_step p e d) (gen_run p es (gen_step p e d))" by blast
  then show ?case using frozen_trans[of t d "gen_step p e d"] q by simp
qed

lemma archive_quiet:
  assumes "ledger_ok d" and "tasks_ok d" and "archive_listen_task now admin t d = Inr d'"
    and "\<not> has_state t ''archived'' d"
  shows "ledger_ok d' \<and> tasks_ok d' \<and> quiet t d'"
proof -
  let ?d0 = "fst (get_ai_setting now d)"
  let ?k = "\<lambda>k. k\<lparr>lt_desired_state := ''archived'', lt_archived_at := Some now, lt_updated_at := now\<rparr>"
  have step: "steps {} d d'" by (rule steps_task[OF step_archive[OF assms(2,3)]])
  note ok = steps_ledger[OF step assms(1)]
  from assms(3) obtain k where k: "task_get t d = Some k"
    and run: "lt_desired_state k \<noteq> ''archived'' \<longrightarrow> d' = add_event (task_note t ''archived'' (Lit ''listening task archived'' []) [])
      (cancel_backfills now t (cancel_queue now t (put_task (?k k) ?d0)))"
    by (auto simp: archive_listen_task_def owned_task_def Let_def split: sum.splits if_splits option.splits)
  note t = task_get_Some[OF k]
  have "lt_desired_state k \<noteq> ''archived''" using state_of_row[of k d] t assms(4) by auto
  with run have d': "d' = add_event (task_note t ''archived'' (Lit ''listening task archived'' []) [])
      (cancel_backfills now t (cancel_queue now t (put_task (?k k) ?d0)))" by blast
  have "row_get lt_id t (listen_tasks d') = Some (?k k)"
    using d' row_get_put_same[of lt_id t "listen_tasks d" k "?k k"] k t by (simp add: add_event_def put_task_def task_get_def)
  then have "has_state t ''archived'' d'"
    using row_get_Some[of lt_id t "listen_tasks d'" "?k k"] state_of_row[of "?k k" d'] t by simp
  moreover have "\<forall>r \<in> set (gen_jobs d'). gj_listen_task_id r = Some t \<longrightarrow> \<not> waits r"
    using d' by (auto simp: add_event_def put_task_def cancel_backfills_def cancel_queue_def row_update_def waits_def)
  ultimately show ?thesis using ok by (simp add: quiet_def)
qed

subsection \<open>A pass of the worker\<close>

text \<open>Transactions of other processes around a job are runs of the same events.\<close>

definition runs :: "gen_params \<Rightarrow> db \<Rightarrow> db \<Rightarrow> bool" where
  "runs p d d' \<longleftrightarrow> (\<exists>es. d' = gen_run p es d)"

lemma runs_refl: "runs p d d"
  unfolding runs_def by (intro exI[of _ "[]"]) simp

lemma runs_trans: "runs p d d1 \<Longrightarrow> runs p d1 d2 \<Longrightarrow> runs p d d2"
  unfolding runs_def by (metis gen_run_append)

lemma runs_step: "runs p d (gen_step p e d)"
  unfolding runs_def by (intro exI[of _ "[e]"]) simp

definition gaps_run :: "gen_params \<Rightarrow> ai_io \<Rightarrow> bool" where
  "gaps_run p io \<longleftrightarrow> (\<forall>k w. runs p (fst w) (fst (ai_gap io k w)))"

definition same_worker :: "gen_params \<Rightarrow> ai_worker_env \<Rightarrow> bool" where
  "same_worker p env \<longleftrightarrow> aw_cfg env = gp_cfg p \<and> aw_worker env = gp_worker p \<and> aw_api_key env = gp_api_key p \<and> aw_ai env = gp_ai p"

lemma gap_run: "gaps_run p io \<Longrightarrow> ai_gap io k w = (d', s') \<Longrightarrow> runs p (fst w) d'"
  unfolding gaps_run_def by (metis fst_conv)

lemma runs_fail: "commit_ai_failure now held jitter i token m retry http d = Some (d', x) \<Longrightarrow> runs p d d'"
proof -
  assume c: "commit_ai_failure now held jitter i token m retry http d = Some (d', x)"
  then have "commit_ai_failure now True jitter i token m retry http d = Some (d', x)"
    by (auto simp: commit_ai_failure_def split: option.splits if_splits)
  then have "d' = gen_step p (Fail now jitter i token m retry http) d" by (simp add: some_fst_def)
  then show ?thesis by (simp only: runs_step)
qed

lemma runs_store: "commit_article now held fails i token g d = Some (d', x) \<Longrightarrow> runs p d d'"
proof -
  assume c: "commit_article now held fails i token g d = Some (d', x)"
  then have "commit_article now True fails i token g d = Some (d', x)"
    by (auto simp: commit_article_def split: option.splits if_splits)
  then have "d' = gen_step p (Store now fails i token g) d" by (simp add: some_fst_def)
  then show ?thesis by (simp only: runs_step)
qed

lemma runs_failed:
  assumes "gaps_run p io"
  shows "runs p (fst w) (fst (job_failed env io i e w))"
proof (cases e)
  case (ProviderError m retry http)
  obtain d s where g: "ai_gap io 7 w = (d, s)" by (cases "ai_gap io 7 w")
  obtain s1 h where l: "assert_ai_lock env io 7 i s = (s1, h)" by (cases "assert_ai_lock env io 7 i s")
  obtain d1 s2 where g2: "ai_gap io 8 (d, s1) = (d1, s2)" by (cases "ai_gap io 8 (d, s1)")
  obtain s3 h2 where l2: "assert_ai_lock env io 8 i s2 = (s3, h2)" by (cases "assert_ai_lock env io 8 i s2")
  have r: "runs p (fst w) d" "runs p (fst w) d1"
    using gap_run[OF assms g] gap_run[OF assms g2] runs_trans by auto
  show ?thesis
    using r runs_fail[of _ h2 _ i _ m retry http d1 _ _ p] runs_trans[of p "fst w" d1]
    by (auto simp: job_failed_def ProviderError g l g2 l2 split: option.splits)
qed

lemma runs_cancelled:
  assumes "gaps_run p io"
  shows "runs p (fst w) (fst (job_cancelled env io i w))"
proof -
  obtain d s where g: "ai_gap io 7 w = (d, s)" by (cases "ai_gap io 7 w")
  obtain s1 h where l: "assert_ai_lock env io 7 i s = (s1, h)" by (cases "assert_ai_lock env io 7 i s")
  obtain d1 s2 where g2: "ai_gap io 8 (d, s1) = (d1, s2)" by (cases "ai_gap io 8 (d, s1)")
  have r: "runs p (fst w) d" "runs p (fst w) d1"
    using gap_run[OF assms g] gap_run[OF assms g2] runs_trans by auto
  have "runs p d1 (requeue_cancelled now i token d1)" for now token
    using runs_step[of p d1 "Requeue now i token"] by simp
  with r show ?thesis using runs_trans[of p "fst w" d1] by (simp add: job_cancelled_def g l g2)
qed

lemma runs_generated:
  assumes "gaps_run p io"
  shows "runs p (fst w) (fst (fst (job_generated env io i g w)))"
proof -
  obtain d s where g: "ai_gap io 4 w = (d, s)" by (cases "ai_gap io 4 w")
  obtain s1 h where l: "assert_ai_lock env io 4 i s = (s1, h)" by (cases "assert_ai_lock env io 4 i s")
  obtain d1 s2 where g1: "ai_gap io 5 (d, s1) = (d1, s2)" by (cases "ai_gap io 5 (d, s1)")
  obtain s3 h1 where l1: "assert_ai_lock env io 5 i s2 = (s3, h1)" by (cases "assert_ai_lock env io 5 i s2")
  obtain d2 s4 where g2: "ai_gap io 6 (d1, s3) = (d2, s4)" by (cases "ai_gap io 6 (d1, s3)")
  obtain s5 h2 where l2: "assert_ai_lock env io 6 i s4 = (s5, h2)" by (cases "assert_ai_lock env io 6 i s4")
  have r: "runs p (fst w) d" "runs p (fst w) d1" "runs p (fst w) d2"
    using gap_run[OF assms g] gap_run[OF assms g1] gap_run[OF assms g2] runs_trans fst_conv by metis+
  have "runs p (fst w) d3" if "commit_article now h2 fails i token g d2 = Some (d3, x)" for now fails token d3 x
    using runs_store[OF that] r(3) runs_trans by blast
  then show ?thesis using r by (auto simp: job_generated_def g l g1 l1 g2 l2 split: option.splits)
qed

lemma runs_claimed:
  assumes "gaps_run p io" and "same_worker p env"
  shows "runs p (fst w) (fst (fst (run_claimed env io job w)))"
proof -
  obtain d s where g: "ai_gap io 2 w = (d, s)" by (cases "ai_gap io 2 w")
  have r: "runs p (fst w) d" by (rule gap_run[OF assms(1) g])
  show ?thesis
  proof (cases "provider_request (aw_api_key env) job d")
    case (Inl e)
    then show ?thesis
      using runs_failed[OF assms(1), of "(d, s)" env "gj_id job" e] r runs_trans
      by (auto simp: run_claimed_def g Let_def)
  next
    case (Inr x)
    obtain d1 req where x: "x = (d1, req)" by (cases x)
    have "d1 = gen_step p (Resolve_source job) d" using Inr x assms(2) by (simp add: same_worker_def ok_fst_def)
    then have "runs p d d1" by (simp only: runs_step)
    moreover have "runs p d1 (fst (ai_gap io 3 (d1, s)))" using assms(1) by (metis fst_conv gaps_run_def)
    ultimately have r3: "runs p (fst w) (fst (ai_gap io 3 (d1, s)))" using r runs_trans by blast
    show ?thesis
      using r3 runs_trans[OF r3 runs_failed[OF assms(1)]] runs_trans[OF r3 runs_cancelled[OF assms(1)]]
        runs_trans[OF r3 runs_generated[OF assms(1)]]
      by (simp add: run_claimed_def g Let_def Inr x split: gen_reply.splits)
  qed
qed

lemma runs_process:
  assumes "gaps_run p io" and "same_worker p env"
  shows "runs p (fst w) (fst (fst (process_job env io i w)))"
proof -
  obtain d s where g: "ai_gap io 0 w = (d, s)" by (cases "ai_gap io 0 w")
  have r: "runs p (fst w) d" by (rule gap_run[OF assms(1) g])
  show ?thesis
  proof (cases "ai_redis_fails io 0 \<or>
      redis_set_nx (ai_now io 0) (ai_lock_key i) (ai_token io) (ai_worker_lock_ttl_seconds (aw_cfg env)) s = None")
    case True
    then show ?thesis using r by (auto simp: process_job_def g)
  next
    case False
    then obtain s1 where s1: "\<not> ai_redis_fails io 0"
      "redis_set_nx (ai_now io 0) (ai_lock_key i) (ai_token io) (ai_worker_lock_ttl_seconds (aw_cfg env)) s = Some s1" by auto
    obtain d1 s2 where g1: "ai_gap io 1 (d, s1) = (d1, s2)" by (cases "ai_gap io 1 (d, s1)")
    have r1: "runs p (fst w) d1" using gap_run[OF assms(1) g1] r runs_trans by auto
    let ?c = "claim_job (aw_cfg env) (aw_resolve env) (aw_material env) (aw_worker env) (ai_now io 1) i (ai_token io) d1"
    define x where "x = (case ?c of None \<Rightarrow> ((d1, s2), False) | Some (d2, None) \<Rightarrow> ((d2, s2), False)
        | Some (d2, Some job) \<Rightarrow> run_claimed env io job (d2, s2))"
    have claim: "runs p d1 d2" if "?c = Some (d2, j)" for d2 j
    proof -
      have "d2 = gen_step p (Claim_job (ai_now io 1) i (ai_token io) (aw_resolve env) (aw_material env)) d1"
        using that assms(2) by (simp add: same_worker_def some_fst_def)
      then show ?thesis by (simp only: runs_step)
    qed
    have "runs p d1 (fst (fst x))"
      using claim runs_trans[OF claim runs_claimed[OF assms, of "(_, s2)", simplified]] runs_refl
      by (auto simp: x_def split: option.splits)
    moreover obtain d3 s3 where g9: "ai_gap io 9 (fst x) = (d3, s3)" by (cases "ai_gap io 9 (fst x)")
    ultimately have "runs p (fst w) d3" using gap_run[OF assms(1) g9] r1 runs_trans by blast
    moreover have "fst (fst (process_job env io i w)) = d3"
      using s1 g9 unfolding process_job_def x_def by (simp add: g g1 Let_def case_prod_beta del: One_nat_def cong: option.case_cong)
    ultimately show ?thesis by simp
  qed
qed

lemma runs_jobs:
  assumes "\<forall>i. gaps_run p (ios i)" and "same_worker p env"
  shows "runs p (fst w) (fst (process_jobs env ios is w))"
proof (induction "is" arbitrary: w)
  case Nil
  then show ?case by (simp add: runs_refl)
next
  case (Cons i js)
  have "gaps_run p (ios i)" using assms(1) by blast
  from runs_trans[OF runs_process[OF this assms(2)] Cons.IH] show ?case by simp
qed

definition scan_gaps :: "gen_params \<Rightarrow> scan_io \<Rightarrow> bool" where
  "scan_gaps p io \<longleftrightarrow> (\<forall>k w. runs p (fst w) (fst (sc_gap io k w)))"

lemma scan_gap: "scan_gaps p io \<Longrightarrow> runs p d (fst w) \<Longrightarrow> sc_gap io k w = (d', s') \<Longrightarrow> runs p d d'"
  unfolding scan_gaps_def by (metis fst_conv runs_trans)

lemma runs_expire: "scan_gaps p io \<Longrightarrow> runs p (fst w) (fst (expire_all io k is w))"
proof (induction "is" arbitrary: k w)
  case Nil
  then show ?case by (simp add: runs_refl)
next
  case (Cons i js)
  obtain d s where g: "sc_gap io k w = (d, s)" by (cases "sc_gap io k w")
  have d: "runs p (fst w) d" by (rule scan_gap[OF Cons.prems runs_refl g])
  let ?d = "if sc_fails io k then d else expire_lease (sc_now io k) i d"
  have "runs p d ?d" using runs_step[of p d "Expire_lease (sc_now io k) i"] by (simp add: runs_refl)
  with d have "runs p (fst w) ?d" by (rule runs_trans)
  moreover have "runs p ?d (fst (expire_all io (Suc k) js (?d, s)))"
    using Cons.IH[OF Cons.prems, where w = "(?d, s)" and k = "Suc k"] by (simp only: fst_conv)
  ultimately have "runs p (fst w) (fst (expire_all io (Suc k) js (?d, s)))" by (rule runs_trans)
  then show ?case by (simp only: expire_all.simps Let_def g prod.case)
qed

lemma runs_once:
  assumes "\<forall>i. gaps_run p (ios i)" and "scan_gaps p io" and "same_worker p env"
  shows "runs p (fst w) (fst (ai_run_once env io ios w))"
proof -
  define w1 where "w1 = expire_all io 3 (stale_jobs (aw_cfg env) (sc_now io 0) (fst w)) w"
  obtain d2 s2 where g2: "sc_gap io 1 w1 = (d2, s2)" by (cases "sc_gap io 1 w1")
  have d2: "runs p (fst w) d2" unfolding w1_def by (rule scan_gap[OF assms(2) runs_expire[OF assms(2)] g2[unfolded w1_def]])
  let ?scan = "ok_fst d2 (process_pending_backfills (aw_ai env) (aw_resolve env) (sc_now io 1) (int (ai_worker_batch_size (aw_cfg env))) d2)"
  define d3 where "d3 = (if sc_fails io 1 then d2 else ?scan)"
  have "?scan = gen_step p (Scan_backfills (aw_resolve env) (sc_now io 1) (int (ai_worker_batch_size (aw_cfg env)))) d2"
    using assms(3) by (simp add: same_worker_def)
  then have "runs p d2 ?scan" by (simp only: runs_step)
  then have d3: "runs p (fst w) d3" using d2 runs_trans by (simp add: d3_def)
  define w4 where "w4 = sc_gap io 2 (d3, s2)"
  have w4: "runs p (fst w) (fst w4)" using assms(2) d3 runs_trans unfolding scan_gaps_def w4_def by (metis fst_conv)
  have "ai_run_once env io ios w = process_jobs env ios (due_jobs (aw_cfg env) (sc_now io 0) (fst w4)) w4"
    unfolding ai_run_once_def by (simp add: w1_def[symmetric] g2 w4_def d3_def ok_fst_def Let_def del: One_nat_def)
  then show ?thesis using runs_trans[OF w4 runs_jobs[OF assms(1,3)]] by simp
qed

text \<open>
  A whole pass of the worker keeps the ledger of every job, however the transactions of other processes fall between
  its own, whether Redis answers or not and whatever the AI service replies.
\<close>

lemma pass_keeps_ledger:
  assumes "\<forall>i. gaps_run p (ios i)" and "scan_gaps p io" and "same_worker p env" and "ledger_ok (fst w)" and "tasks_ok (fst w)"
  shows "ledger_ok (fst (ai_run_once env io ios w)) \<and> tasks_ok (fst (ai_run_once env io ios w))"
  using runs_once[OF assms(1-3), of w] run_ledger[OF assms(4,5)] by (auto simp: runs_def)

subsection \<open>A sample\<close>

definition sample_queued :: gen_job where
  "sample_queued =
     \<lparr>gj_id = 3, gj_source_tweet_id = 5, gj_listen_task_id = Some 9, gj_trigger_type = ''realtime'', gj_task_snapshot = JObj [],
      gj_task_config_version = Some 1, gj_lifetime_attempts = 0, gj_is_archived = False, gj_feature_code = ''article_generation'',
      gj_skill_id = None, gj_skill_ids = [], gj_skill_snapshot = [], gj_idempotency_key = ''k'', gj_status = ''queued'',
      gj_provider = ''p'', gj_model_name = ''m'', gj_attempts = 0, gj_max_attempts = 3, gj_next_attempt_at = 0,
      gj_lease_expires_at = None, gj_claim_token = None, gj_claimed_by = None, gj_manual = False, gj_last_error = None,
      gj_request_snapshot = JObj [], gj_response_snapshot = JNull, gj_prompt_hash = None, gj_source_text_hash = None,
      gj_started_at = None, gj_completed_at = None, gj_publish_outbox_initialized_at = None, gj_created_at = 0,
      gj_updated_at = 0\<rparr>"

definition sample_source :: data_source where
  "sample_source = \<lparr>ds_id = 1, ds_name = ''s'', ds_protocol = ''p'', ds_base_url = ''u'', ds_model_name = ''m'',
     ds_encrypted_api_key = ''e'', ds_key_hint = ''h'', ds_key_fingerprint = ''f'', ds_verification_status = ''verified'',
     ds_version = 1, ds_last_verified_at = None, ds_last_error = None, ds_created_at = 0, ds_updated_at = 0\<rparr>"

definition sample_gen_db :: db where
  "sample_gen_db = empty_db\<lparr>ai_settings := [(default_ai_setting 0)\<lparr>st_enabled := True, st_auto_generate := True\<rparr>],
     data_sources := [sample_source], listen_tasks := [sample_task], gen_jobs := [sample_queued], serial := 20\<rparr>"

definition sample_params :: gen_params where
  "sample_params = \<lparr>gp_cfg = default_ai_worker_cfg, gp_worker = ''w'', gp_api_key = (\<lambda>_. Inr ''key''), gp_ai = sample_ai_env,
     gp_listen = \<lparr>le_isoformat = show_int, le_read = (\<lambda>_. None), le_fresh = ''f''\<rparr>\<rparr>"

definition claim_event :: "time \<Rightarrow> string \<Rightarrow> gen_event" where
  "claim_event now token = Claim_job now 3 token (\<lambda>_. Some sample_selection) (\<lambda>_ _. Some [])"

lemma sample_ok: "ledger_ok sample_gen_db" "tasks_ok sample_gen_db"
  by (simp_all add: ledger_ok_def tasks_ok_def sample_gen_db_def empty_db_def sample_queued_def attempts_of_def
      job_ledger_def job_ok_def active_def job_states_def sample_task_def)

text \<open>Two attempts: the lease of the first one expires.\<close>

definition sample_events :: "gen_event list" where
  "sample_events = [claim_event 10 ''t1'', Expire_lease 1000000000000 3, claim_event 1000000000000 ''t2'']"

lemmas sample_run_simps = sample_events_def claim_event_def some_fst_def claim_job_def readiness_of_def gj_get_def row_get_def
  sample_gen_db_def empty_db_def sample_queued_def sample_source_def sample_task_def sample_selection_def sample_params_def
  default_ai_setting_def default_ai_worker_cfg_def job_due_def start_attempt_def running_row_def put_job_row_def new_attempt_row_def
  rounds_before_def task_event_of_def row_put_def row_update_def expire_lease_def lease_over_def expired_row_def released_def
  archived_task_def job_task_def finish_gen_attempt_def open_attempt_def closed_attempt_def secs_def

lemma sample_run:
  "map (\<lambda>r. (gj_id r, gj_lifetime_attempts r, gj_status r)) (gen_jobs (gen_run sample_params sample_events sample_gen_db)) =
    [(3, 2, ''running'')]"
  "map (\<lambda>r. (gj_id r, gj_lifetime_attempts r, gj_status r)) (gen_jobs (gen_run sample_params (take 2 sample_events) sample_gen_db)) =
    [(3, 1, ''retry_wait'')]"
  by (simp_all add: sample_run_simps Let_def)

lemma sample_run_ok:
  "ledger_ok (gen_run sample_params es sample_gen_db)" "tasks_ok (gen_run sample_params es sample_gen_db)"
  using run_ledger[OF sample_ok] by blast+

subsection \<open>The properties\<close>

text \<open>
  C3: after every sequence of transactions the attempts of a job are numbered from one to
  its lifetime counter without a gap, only the last one can be open, and it is open
  exactly while the job runs; the counter of the current round stays within the limit of
  the job, and a claim token is held exactly while it runs.
\<close>

theorem attempt_ledger:
  assumes "ledger_ok d" and "tasks_ok d" and "r \<in> set (gen_jobs (gen_run p es d))"
  shows "map ga_lifetime_number (attempts_of (gj_id r) (gen_run p es d)) = [1..gj_lifetime_attempts r] \<and>
    (\<forall>a \<in> set (attempts_of (gj_id r) (gen_run p es d)).
       (ga_ended_at a = None) = (gj_status r = ''running'' \<and> ga_lifetime_number a = gj_lifetime_attempts r)) \<and>
    (gj_status r = ''running'' \<longrightarrow> 0 < gj_attempts r) \<and> 0 \<le> gj_attempts r \<and>
    gj_attempts r \<le> max 0 (gj_max_attempts r) \<and> gj_attempts r \<le> gj_lifetime_attempts r \<and>
    (gj_claim_token r \<noteq> None) = (gj_status r = ''running'')"
proof -
  let ?as = "attempts_of (gj_id r) (gen_run p es d)"
  have led: "job_ledger r ?as" using ledger_rows[OF conjunct1[OF run_ledger[OF assms(1,2)]]] assms(3) by blast
  then have ok: "job_ok r" and nums: "map ga_lifetime_number ?as = [1..gj_lifetime_attempts r]"
    and open_: "\<forall>a \<in> set ?as. (ga_ended_at a = None) = (active r \<and> ga_lifetime_number a = gj_lifetime_attempts r)"
    by (auto simp: job_ledger_def attempt_ok_def)
  show ?thesis
    using nums open_ ok by (simp add: job_ok_def active_def)
qed

lemma attempt_ledger_witness:
  "map ga_lifetime_number (attempts_of 3 (gen_run sample_params sample_events sample_gen_db)) = [1, 2]"
proof -
  obtain r where r: "r \<in> set (gen_jobs (gen_run sample_params sample_events sample_gen_db))" "gj_id r = 3"
    "gj_lifetime_attempts r = 2"
    using sample_run(1) by auto
  show ?thesis using attempt_ledger[OF sample_ok r(1)] r(2,3) by (simp add: upto_rec1)
qed

text \<open>
  the record of an attempt that has ended is never written again, by whatever
  transactions follow; it goes only with its job.
\<close>

theorem closed_attempts_final:
  assumes "ledger_ok d" and "tasks_ok d" and "a \<in> set (gen_attempts d)" and "ga_status a \<noteq> ''running''"
  shows "a \<in> set (gen_attempts (gen_run p es d)) \<or> ga_job_id a \<notin> gj_id ` set (gen_jobs (gen_run p es d))"
  using run_settled[OF assms(1,2), of a p es] assms(3,4) by (simp add: settled_attempt_def known_def)

lemma closed_attempts_final_witness:
  "\<exists>a \<in> set (gen_attempts (gen_run sample_params sample_events sample_gen_db)). ga_status a = ''interrupted''"
proof -
  let ?d = "gen_run sample_params (take 2 sample_events) sample_gen_db"
  have "\<exists>a. a \<in> set (gen_attempts ?d) \<and> ga_status a = ''interrupted'' \<and> ga_job_id a = 3"
    by (simp add: sample_run_simps Let_def)
  then obtain a where a: "a \<in> set (gen_attempts ?d)" "ga_status a = ''interrupted''" "ga_job_id a = 3" by blast
  have run: "gen_run sample_params (drop 2 sample_events) ?d = gen_run sample_params sample_events sample_gen_db"
    using gen_run_append[of sample_params "take 2 sample_events" "drop 2 sample_events" sample_gen_db] by simp
  have "3 \<in> gj_id ` set (gen_jobs (gen_run sample_params sample_events sample_gen_db))" using sample_run(1) by auto
  then show ?thesis
    using closed_attempts_final[OF sample_run_ok a(1), of sample_params "drop 2 sample_events"] a(2,3) unfolding run by auto
qed

text \<open>
  C14: without a manual retry of the job, every attempt that starts is counted against its
  limit, also after an expired lease or a requeue: it starts no more attempts than the
  limit still allows.
\<close>

theorem attempt_budget:
  assumes "ledger_ok d" and "tasks_ok d" and "r \<in> set (gen_jobs d)" and "\<forall>e \<in> set es. gj_id r \<notin> retries e"
    and "r' \<in> set (gen_jobs (gen_run p es d))" and "gj_id r' = gj_id r"
  shows "gj_lifetime_attempts r \<le> gj_lifetime_attempts r' \<and>
    gj_lifetime_attempts r' - gj_lifetime_attempts r \<le> max 0 (gj_max_attempts r) - gj_attempts r"
proof -
  note ok = run_ledger[OF assms(1,2), of p es]
  have get: "gj_get (gj_id r) (gen_run p es d) = Some r'"
    using ledger_mem[OF conjunct1[OF ok] assms(5)] assms(6) by simp
  have "known (gj_id r) (gen_run p es d)" using get by (simp add: known_get)
  with run_evolves[OF assms(1,2,4) ledger_mem[OF assms(1,3)], of p] get have
    e: "gj_max_attempts r' = gj_max_attempts r" "gj_lifetime_attempts r \<le> gj_lifetime_attempts r'"
      "gj_lifetime_attempts r' - gj_lifetime_attempts r = gj_attempts r' - gj_attempts r" by auto
  have "job_ok r'" using ledger_job[OF conjunct1[OF ok] get] by simp
  then show ?thesis using e by (simp add: job_ok_def)
qed

lemma attempt_budget_witness:
  "\<exists>r \<in> set (gen_jobs (gen_run sample_params sample_events sample_gen_db)). gj_lifetime_attempts r \<le> 3"
proof -
  obtain r where r: "r \<in> set (gen_jobs (gen_run sample_params sample_events sample_gen_db))" "gj_id r = 3"
    using sample_run(1) by auto
  have q: "sample_queued \<in> set (gen_jobs sample_gen_db)" "gj_id sample_queued = 3"
    "gj_lifetime_attempts sample_queued = 0" "gj_max_attempts sample_queued = 3" "gj_attempts sample_queued = 0"
    by (simp_all add: sample_gen_db_def sample_queued_def)
  have "\<forall>e \<in> set sample_events. gj_id sample_queued \<notin> retries e"
    by (simp add: sample_events_def claim_event_def retries_def)
  from attempt_budget[OF sample_ok q(1) this r(1)] r q show ?thesis by auto
qed

text \<open>
  C6: once a listening task is archived, none of its jobs waits for the worker again and
  none starts another attempt, whatever happens afterwards: no retry, lease expiry,
  worker failure, backfill or collection brings one back.
\<close>

theorem archived_task_quiet:
  assumes "ledger_ok d" and "tasks_ok d" and "\<not> has_state t ''archived'' d"
    and "archive_listen_task now admin t d = Inr d1"
    and "r \<in> set (gen_jobs (gen_run p es d1))" and "gj_listen_task_id r = Some t"
  shows "gj_status r \<notin> {''queued'', ''retry_wait''} \<and>
    (\<exists>r1 \<in> set (gen_jobs d1). gj_id r1 = gj_id r \<and> gj_listen_task_id r1 = Some t \<and>
       gj_lifetime_attempts r1 = gj_lifetime_attempts r)"
proof -
  note ok = archive_quiet[OF assms(1,2,4,3)]
  from run_quiet[of d1 t p es] ok have q: "quiet t (gen_run p es d1)" "frozen t d1 (gen_run p es d1)" by blast+
  then have "\<not> waits r" using assms(5,6) by (simp add: quiet_def)
  moreover have "\<exists>r1 \<in> set (gen_jobs d1). gj_id r1 = gj_id r \<and> gj_listen_task_id r1 = Some t \<and>
       gj_lifetime_attempts r1 = gj_lifetime_attempts r"
    using q(2) assms(5,6) unfolding frozen_def by blast
  ultimately show ?thesis by (simp add: waits_def)
qed

lemma archived_task_quiet_witness:
  "\<exists>d1. archive_listen_task 20 1 9 sample_gen_db = Inr d1 \<and>
    (\<exists>r \<in> set (gen_jobs (gen_run sample_params [claim_event 30 ''t''] d1)). gj_status r \<notin> {''queued'', ''retry_wait''})"
proof -
  have fresh: "\<not> has_state 9 ''archived'' sample_gen_db"
    by (simp add: has_state_def sample_gen_db_def sample_task_def empty_db_def)
  obtain d1 where d1: "archive_listen_task 20 1 9 sample_gen_db = Inr d1"
    "\<exists>r \<in> set (gen_jobs (gen_run sample_params [claim_event 30 ''t''] d1)). gj_listen_task_id r = Some 9"
    by (simp add: sample_run_simps Let_def archive_listen_task_def owned_task_def owner_error_def task_get_def get_ai_setting_def
        cancel_backfills_def cancel_queue_def put_task_def add_event_def)
  then obtain r where r: "r \<in> set (gen_jobs (gen_run sample_params [claim_event 30 ''t''] d1))" "gj_listen_task_id r = Some 9" by blast
  from archived_task_quiet[OF sample_ok fresh d1(1) r] d1(1) r(1) show ?thesis by blast
qed

end
