(* ===== verification/Envelope.thy ===== *)
theory Envelope
  imports PyText "HOL-Library.Word"
begin

unbundle bit_operations_syntax

text \<open>
  The envelope around the signing keys of the authentication authority,
  \<open>backend/app/control_plane/auth_store.py\<close>: URL-safe base 64 without padding, with the
  lenient decoder of Python, around what AES-GCM returns. The cipher and the digest are
  parameters.
\<close>

subsection \<open>Base 64\<close>

type_synonym bytes = "8 word list"

text \<open>The strings here are those of their UTF-8 encoding, one character for one byte.\<close>

definition utf8 :: "string \<Rightarrow> bytes" where
  "utf8 s = map (\<lambda>c. of_nat (of_char c)) s"

definition utf8_text :: "bytes \<Rightarrow> string" where
  "utf8_text bs = map (\<lambda>b. char_of (unat b)) bs"

lemma utf8_roundtrip [simp]: "utf8_text (utf8 s) = s"
proof -
  have "of_char c < (256 :: nat)" for c :: char using nat_of_char_less_256 by simp
  then have "unat (of_nat (of_char c) :: 8 word) = of_char c" for c :: char
    by (simp add: unat_of_nat take_bit_nat_eq_self)
  then show ?thesis by (simp add: utf8_def utf8_text_def comp_def)
qed

lemma length_utf8 [simp]: "length (utf8 s) = length s"
  by (simp add: utf8_def)

definition b64_alphabet :: string where
  "b64_alphabet = ''ABCDEFGHIJKLMNOPQRSTUVWXYZabcdefghijklmnopqrstuvwxyz0123456789-_''"

definition b64_char :: "8 word \<Rightarrow> char" where
  "b64_char v = b64_alphabet ! unat v"

fun b64_encode :: "bytes \<Rightarrow> string" where
  "b64_encode [] = []"
| "b64_encode [a] = [b64_char (drop_bit 2 a), b64_char (push_bit 4 (take_bit 2 a)), CHR ''='', CHR ''='']"
| "b64_encode [a, b] =
     [b64_char (drop_bit 2 a), b64_char (push_bit 4 (take_bit 2 a) OR drop_bit 4 b), b64_char (push_bit 2 (take_bit 4 b)), CHR ''='']"
| "b64_encode (a # b # c # bs) =
     b64_char (drop_bit 2 a) # b64_char (push_bit 4 (take_bit 2 a) OR drop_bit 4 b) #
     b64_char (push_bit 2 (take_bit 4 b) OR drop_bit 6 c) # b64_char (take_bit 6 c) # b64_encode bs"

text \<open>The two alphabets are both accepted: the decoder maps the URL-safe letters first.\<close>

definition b64_value :: "char \<Rightarrow> 8 word option" where
  "b64_value c =
     (if c = CHR ''+'' then Some 62
      else if c = CHR ''/'' then Some 63
      else let n = length (takeWhile (\<lambda>x. x \<noteq> c) b64_alphabet) in
        if n < 64 then Some (of_nat n) else None)"

text \<open>
  \<open>binascii.a2b_base64\<close>: other characters are skipped, and a complete padding ends the
  input. The position in a group of four, the bits left over and the padding seen so far
  are the state.
\<close>

fun b64_scan :: "nat \<Rightarrow> 8 word \<Rightarrow> nat \<Rightarrow> string \<Rightarrow> bytes option" where
  "b64_scan q left pads [] = (if q = 0 then Some [] else None)"
| "b64_scan q left pads (c # cs) =
     (if c = CHR ''='' then
        (if 2 \<le> q then if 4 \<le> q + (pads + 1) then Some [] else b64_scan q left (pads + 1) cs
         else b64_scan q left pads cs)
      else case b64_value c of
        None \<Rightarrow> b64_scan q left pads cs
      | Some v \<Rightarrow>
          (if q = 0 then b64_scan 1 v 0 cs
           else if q = 1 then map_option ((#) (push_bit 2 left OR drop_bit 4 v)) (b64_scan 2 (take_bit 4 v) 0 cs)
           else if q = 2 then map_option ((#) (push_bit 4 left OR drop_bit 2 v)) (b64_scan 3 (take_bit 2 v) 0 cs)
           else map_option ((#) (push_bit 6 left OR v)) (b64_scan 0 0 0 cs)))"

definition b64_decode :: "string \<Rightarrow> bytes option" where
  "b64_decode s = b64_scan 0 0 0 s"

definition b64url :: "bytes \<Rightarrow> string" where
  "b64url bs = rstrip_by (\<lambda>c. c = CHR ''='') (b64_encode bs)"

definition repad :: "string \<Rightarrow> string" where
  "repad s = s @ replicate (nat ((- int (length s)) mod 4)) (CHR ''='')"

subsection \<open>Round trip\<close>

lemma b64_values: "list_all (\<lambda>n. b64_value (b64_alphabet ! n) = Some (of_nat n) \<and> b64_alphabet ! n \<noteq> CHR ''='') [0..<64]"
  by (simp add: b64_value_def b64_alphabet_def Let_def upt_rec)

lemma b64_char_value:
  assumes "v < 64"
  shows "b64_value (b64_char v) = Some v" "b64_char v \<noteq> CHR ''=''"
proof -
  have "unat v < 64" using assms by (simp add: word_less_nat_alt)
  then show "b64_value (b64_char v) = Some v" "b64_char v \<noteq> CHR ''=''"
    using b64_values by (auto simp: list_all_iff b64_char_def)
qed

lemma sextets:
  fixes a b c :: "8 word"
  shows "drop_bit 2 a < 64" "push_bit 4 (take_bit 2 a) < 64" "push_bit 4 (take_bit 2 a) OR drop_bit 4 b < 64"
    "push_bit 2 (take_bit 4 b) < 64" "push_bit 2 (take_bit 4 b) OR drop_bit 6 c < 64" "take_bit 6 c < 64"
proof -
  have small: "v < 64" if "take_bit 6 v = v" for v :: "8 word"
  proof -
    have "unat v = take_bit 6 (unat v)" using unsigned_take_bit_eq[of 6 v, where 'a = nat] that by simp
    also have "\<dots> < 2 ^ 6" by (rule take_bit_nat_less_exp)
    finally show ?thesis by (simp add: word_less_nat_alt)
  qed
  show "drop_bit 2 a < 64" "push_bit 4 (take_bit 2 a) < 64" "push_bit 4 (take_bit 2 a) OR drop_bit 4 b < 64"
    "push_bit 2 (take_bit 4 b) < 64" "push_bit 2 (take_bit 4 b) OR drop_bit 6 c < 64" "take_bit 6 c < 64"
    by (rule small, rule bit_word_eqI, auto simp: bit_simps dest: bit_imp_le_length)+
qed

lemma two_back: "\<not> n < 2 \<Longrightarrow> Suc (Suc (n - 2)) = n" "2 \<le> n \<Longrightarrow> Suc (Suc (n - 2)) = n" "\<not> n < 4 \<Longrightarrow> Suc (Suc (n - 2)) = n"
  by linarith+

lemma bit_back: "bit a n \<Longrightarrow> \<not> bit a (Suc (Suc (n - 2))) \<Longrightarrow> n < 2" "bit a n \<Longrightarrow> \<not> bit a (Suc (Suc (n - 2))) \<Longrightarrow> n < 4"
  using two_back(1)[of n] by force+

lemma joined:
  fixes a b c :: "8 word"
  shows "push_bit 2 (drop_bit 2 a) OR drop_bit 4 (push_bit 4 (take_bit 2 a)) = a"
    "push_bit 2 (drop_bit 2 a) OR drop_bit 4 (push_bit 4 (take_bit 2 a) OR drop_bit 4 b) = a"
    "push_bit 4 (take_bit 4 (push_bit 4 (take_bit 2 a) OR drop_bit 4 b)) OR drop_bit 2 (push_bit 2 (take_bit 4 b)) = b"
    "push_bit 4 (take_bit 4 (push_bit 4 (take_bit 2 a) OR drop_bit 4 b)) OR drop_bit 2 (push_bit 2 (take_bit 4 b) OR drop_bit 6 c) = b"
    "push_bit 6 (take_bit 2 (push_bit 2 (take_bit 4 b) OR drop_bit 6 c)) OR (take_bit 6 c) = c"
  by (rule bit_word_eqI, auto simp: bit_simps two_back dest: two_back bit_back bit_imp_le_length)+

lemma scan_encode: "b64_scan 0 0 pads (b64_encode bs) = Some bs"
proof (induction bs arbitrary: pads rule: b64_encode.induct)
  case 1
  then show ?case by simp
next
  case (2 a)
  then show ?case by (simp add: sextets b64_char_value joined joined[simplified])
next
  case (3 a b)
  then show ?case by (simp add: sextets b64_char_value joined joined[simplified])
next
  case (4 a b c bs)
  then show ?case by (simp add: sextets b64_char_value joined joined[simplified])
qed

lemma rstrip_by_cons: "\<not> P c \<Longrightarrow> rstrip_by P (c # s) = c # rstrip_by P s"
  by (simp add: rstrip_by_def dropWhile_append)

lemma repad_encode: "repad (b64url bs) = b64_encode bs"
proof (induction bs rule: b64_encode.induct)
  case 1
  then show ?case by (simp add: repad_def b64url_def rstrip_by_def)
next
  case (2 a)
  then show ?case by (simp add: sextets repad_def b64url_def rstrip_by_cons b64_char_value) (simp add: rstrip_by_def numeral_2_eq_2)
next
  case (3 a b)
  then show ?case by (simp add: sextets repad_def b64url_def rstrip_by_cons b64_char_value) (simp add: rstrip_by_def numeral_2_eq_2)
next
  case (4 a b c bs)
  have mod: "(- int (Suc (Suc (Suc (Suc n))))) mod 4 = (- int n) mod 4" for n by presburger
  show ?case
    using 4 by (simp add: sextets repad_def b64url_def rstrip_by_cons b64_char_value mod del: of_nat_Suc)
qed

lemma decode_b64url: "b64_decode (repad (b64url bs)) = Some bs"
  by (simp add: repad_encode b64_decode_def scan_encode)

subsection \<open>The key encryption key\<close>

datatype kek_error = Kek_too_short | Kek_missing | Kek_placeholder | Kek_reused string | Kek_empty

definition key_encryption_key :: "(bytes \<Rightarrow> bytes) \<Rightarrow> string \<Rightarrow> kek_error + bytes" where
  "key_encryption_key sha256 secret =
     (if length (utf8 secret) < 32 then Inl Kek_too_short else Inr (sha256 (utf8 secret)))"

definition placeholder_prefixes :: "string list" where
  "placeholder_prefixes = [''development-only-'', ''change-me-'', ''replace-with-'']"

definition reused_secret :: "string \<Rightarrow> string \<Rightarrow> string \<Rightarrow> string option" where
  "reused_secret x_token jwt v =
     (if strip x_token \<noteq> [] \<and> v = strip x_token then Some ''X_TOKEN_ENCRYPTION_KEY''
      else if strip jwt \<noteq> [] \<and> v = strip jwt then Some ''JWT_SECRET_KEY'' else None)"

definition strict_environment :: "string \<Rightarrow> bool" where
  "strict_environment e \<longleftrightarrow> lower (strip e) \<notin> {''development'', ''test''}"

text \<open>An unset secret is \<open>None\<close>.\<close>

definition resolve_key_encryption_secret :: "(bytes \<Rightarrow> bytes) \<Rightarrow> string \<Rightarrow> string option \<Rightarrow> string \<Rightarrow> string \<Rightarrow> kek_error + string" where
  "resolve_key_encryption_secret sha256 environment configured x_token jwt =
     (let v = strip (case configured of None \<Rightarrow> [] | Some s \<Rightarrow> s);
          checked = (\<lambda>v. if v = [] then Inl Kek_empty
            else case key_encryption_key sha256 v of Inl e \<Rightarrow> Inl e | Inr k \<Rightarrow> Inr v) in
      if strict_environment environment
      then (if v = [] then Inl Kek_missing
            else if list_ex (\<lambda>p. starts_with p (lower v)) placeholder_prefixes then Inl Kek_placeholder
            else case reused_secret x_token jwt v of Some n \<Rightarrow> Inl (Kek_reused n) | None \<Rightarrow> checked v)
      else if v = [] then checked (if strip x_token \<noteq> [] then strip x_token else strip jwt)
      else checked v)"

subsection \<open>The envelope\<close>

text \<open>
  \<open>AESGCM(key).encrypt\<close> and \<open>decrypt\<close>, over the nonce, the text and the associated data.
\<close>

record aead =
  seal :: "bytes \<Rightarrow> bytes \<Rightarrow> bytes \<Rightarrow> bytes \<Rightarrow> bytes"
  unseal :: "bytes \<Rightarrow> bytes \<Rightarrow> bytes \<Rightarrow> bytes \<Rightarrow> bytes option"
  digest :: "bytes \<Rightarrow> bytes"

definition key_context :: "string \<Rightarrow> bytes" where
  "key_context kid = utf8 (''xsentinel-signing-key:'' @ kid)"

datatype envelope_error =
    Kek_error kek_error
  | Unsupported_envelope
  | Bad_base64
  | Invalid_envelope
  | Kek_mismatch string

definition encrypt_private_key :: "aead \<Rightarrow> bytes \<Rightarrow> string \<Rightarrow> string \<Rightarrow> string \<Rightarrow> envelope_error + string" where
  "encrypt_private_key c nonce pem kid secret =
     (case key_encryption_key (digest c) secret of
        Inl e \<Rightarrow> Inl (Kek_error e)
      | Inr k \<Rightarrow> Inr (''v1.'' @ b64url (nonce @ seal c k nonce (utf8 pem) (key_context kid))))"

definition decrypt_private_key :: "aead \<Rightarrow> string \<Rightarrow> string \<Rightarrow> string \<Rightarrow> envelope_error + string" where
  "decrypt_private_key c envelope kid secret =
     (case split1 (CHR ''.'') envelope of
        (version, None) \<Rightarrow> Inl Unsupported_envelope
      | (version, Some encoded) \<Rightarrow>
          (if version \<noteq> ''v1'' then Inl Unsupported_envelope
           else case b64_decode (repad encoded) of
             None \<Rightarrow> Inl Bad_base64
           | Some payload \<Rightarrow>
               (if length payload < 29 then Inl Invalid_envelope
                else case key_encryption_key (digest c) secret of
                  Inl e \<Rightarrow> Inl (Kek_error e)
                | Inr k \<Rightarrow>
                    (case unseal c k (take 12 payload) (drop 12 payload) (key_context kid) of
                       None \<Rightarrow> Inl (Kek_mismatch kid)
                     | Some pem \<Rightarrow> Inr (utf8_text pem)))))"

text \<open>The documented contract of AES-GCM: decryption inverts encryption, and the tag has 16 bytes.\<close>

definition aead_laws :: "aead \<Rightarrow> bool" where
  "aead_laws c \<longleftrightarrow>
     (\<forall>k n p a. unseal c k n (seal c k n p a) a = Some p \<and> length (seal c k n p a) = length p + 16)"

text \<open>
  C31: a signing key that is stored under the key encryption key comes back from its
  envelope: what \<open>encrypt_private_key\<close> writes, \<open>decrypt_private_key\<close> reads.
\<close>

theorem envelope_roundtrip:
  assumes "aead_laws c" and "length nonce = 12" and "32 \<le> length secret" and "pem \<noteq> []"
  shows "\<exists>e. encrypt_private_key c nonce pem kid secret = Inr e \<and> decrypt_private_key c e kid secret = Inr pem"
proof -
  let ?k = "digest c (utf8 secret)"
  let ?p = "nonce @ seal c ?k nonce (utf8 pem) (key_context kid)"
  have key: "key_encryption_key (digest c) secret = Inr ?k" using assms(3) by (simp add: key_encryption_key_def)
  have len: "29 \<le> length ?p" using assms(1,2,4) by (cases pem) (simp_all add: aead_laws_def)
  have open_: "unseal c ?k (take 12 ?p) (drop 12 ?p) (key_context kid) = Some (utf8 pem)"
    using assms(1,2) by (simp add: aead_laws_def)
  have "split1 (CHR ''.'') (''v1.'' @ b64url ?p) = (''v1'', Some (b64url ?p))" by simp
  then show ?thesis
    using key len open_ by (simp add: encrypt_private_key_def decrypt_private_key_def decode_b64url del: append_Cons)
qed

definition sample_aead :: aead where
  "sample_aead = \<lparr>seal = (\<lambda>k n p a. p @ replicate 16 0), unseal = (\<lambda>k n e a. Some (take (length e - 16) e)), digest = (\<lambda>b. b)\<rparr>"

lemma sample_aead_laws: "aead_laws sample_aead"
  by (simp add: aead_laws_def sample_aead_def)

definition sample_kek :: string where
  "sample_kek = ''0123456789abcdef0123456789abcdef''"

lemma envelope_roundtrip_witness:
  "\<exists>e. encrypt_private_key sample_aead (replicate 12 7) ''pem'' ''kid'' sample_kek = Inr e \<and>
     decrypt_private_key sample_aead e ''kid'' sample_kek = Inr ''pem''"
  by (rule envelope_roundtrip[OF sample_aead_laws]) (simp_all add: sample_kek_def)

text \<open>
  outside development and test, the key encryption key in use was configured for this
  purpose: it has at least 32 bytes, is no placeholder, and is neither of the two secrets
  of the application.
\<close>

theorem strict_secret_independent:
  assumes "resolve_key_encryption_secret sha environment configured x_token jwt = Inr v" and "strict_environment environment"
  shows "32 \<le> length v \<and> (\<exists>s. configured = Some s \<and> v = strip s) \<and>
    filter (\<lambda>p. starts_with p (lower v)) placeholder_prefixes = [] \<and> v \<notin> {strip x_token, strip jwt}"
proof -
  obtain s where s: "configured = Some s" "v = strip s" "v \<noteq> []"
    using assms
    by (cases configured)
      (auto simp: resolve_key_encryption_secret_def Let_def strip_def strip_by_def lstrip_by_def rstrip_by_def
        split: if_splits option.splits sum.splits)
  then show ?thesis
    using assms
    by (auto simp: resolve_key_encryption_secret_def Let_def key_encryption_key_def reused_secret_def list_ex_iff
        split: if_splits option.splits sum.splits)
qed

lemma strict_secret_independent_witness:
  "32 \<le> length sample_kek \<and> sample_kek \<noteq> strip ''other''"
proof -
  have "resolve_key_encryption_secret (\<lambda>b. b) ''production'' (Some sample_kek) ''other'' ''jwt'' = Inr sample_kek"
    by (simp add: resolve_key_encryption_secret_def sample_kek_def strict_environment_def strip_def strip_by_def lstrip_by_def
        rstrip_by_def is_space_def code_def lower_def is_upper_def starts_with_def placeholder_prefixes_def reused_secret_def
        key_encryption_key_def Let_def)
  moreover have "strict_environment ''production''"
    by (simp add: strict_environment_def strip_def strip_by_def lstrip_by_def rstrip_by_def is_space_def code_def lower_def is_upper_def)
  ultimately show ?thesis using strict_secret_independent by blast
qed

end
