(* ===== verification/AuthStore.thy ===== *)
theory AuthStore
  imports Envelope Tables
begin

text \<open>
  The authentication authority, \<open>backend/app/control_plane/auth_store.py\<close>: signing keys
  that rotate under one lock, service identities with their credentials and grants, the
  sessions of administrators with their revocations, and the one-time imports. The tables
  are those of \<open>backend/app/models/service_auth.py\<close>.
\<close>

subsection \<open>Tables\<close>

record auth_client =
  cl_id :: string
  cl_display_name :: "string option"
  cl_is_active :: bool
  cl_created_at :: time
  cl_updated_at :: time
  cl_last_authenticated_at :: "time option"

record auth_credential =
  cc_id :: int
  cc_client_id :: string
  cc_secret_sha256 :: string
  cc_label :: "string option"
  cc_is_active :: bool
  cc_created_at :: time
  cc_expires_at :: "time option"
  cc_last_used_at :: "time option"

record auth_grant =
  gr_client_id :: string
  gr_audience :: string
  gr_scopes :: string
  gr_created_at :: time
  gr_updated_at :: time

record auth_bootstrap =
  bs_id :: string
  bs_source_sha256 :: string
  bs_completed_by :: "string option"
  bs_completed_at :: time

record auth_key =
  key_kid :: string
  key_algorithm :: string
  key_ciphertext :: string
  key_public_pem :: string
  key_status :: string
  key_not_before :: time
  key_expires_at :: "time option"
  key_retired_at :: "time option"
  key_created_at :: time

record auth_session =
  as_sid :: string
  as_admin_id :: int
  as_jti :: string
  as_expires_at :: time
  as_revoked_at :: "time option"
  as_revoke_reason :: "string option"
  as_created_at :: time
  as_last_seen_at :: "time option"

record auth_revocation =
  rv_jti :: string
  rv_sid :: "string option"
  rv_expires_at :: time
  rv_revoked_at :: time
  rv_reason :: string

record auth_audit =
  aa_event_type :: string
  aa_actor_type :: string
  aa_actor_id :: "string option"
  aa_subject :: "string option"
  aa_audience :: "string option"
  aa_sid :: "string option"
  aa_jti :: "string option"
  aa_success :: bool
  aa_remote_address :: "string option"
  aa_created_at :: time

record auth_db =
  au_admins :: "admin list"
  au_clients :: "auth_client list"
  au_credentials :: "auth_credential list"
  au_grants :: "auth_grant list"
  au_bootstraps :: "auth_bootstrap list"
  au_keys :: "auth_key list"
  au_sessions :: "auth_session list"
  au_revocations :: "auth_revocation list"
  au_audits :: "auth_audit list"
  au_serial :: int

definition empty_auth_db :: auth_db where
  "empty_auth_db = \<lparr>au_admins = [], au_clients = [], au_credentials = [], au_grants = [], au_bootstraps = [], au_keys = [],
     au_sessions = [], au_revocations = [], au_audits = [], au_serial = 1\<rparr>"

subsection \<open>The store\<close>

record auth_store =
  st_cipher :: aead
  st_master_secret :: string
  st_rotation_after :: time
  st_overlap :: time

definition days :: "int \<Rightarrow> time" where
  "days n = secs (86400 * n)"

definition make_store :: "aead \<Rightarrow> string \<Rightarrow> int \<Rightarrow> int \<Rightarrow> time option \<Rightarrow> kek_error + auth_store" where
  "make_store c secret rotation_days overlap_days minimum_overlap =
     (case key_encryption_key (digest c) secret of
        Inl e \<Rightarrow> Inl e
      | Inr k \<Rightarrow>
          Inr \<lparr>st_cipher = c, st_master_secret = secret, st_rotation_after = days (max 1 rotation_days),
               st_overlap = max (days (max 1 overlap_days)) (case minimum_overlap of None \<Rightarrow> 0 | Some m \<Rightarrow> m)\<rparr>)"

text \<open>
  The overlap that the service passes: the longest life of a token and ten minutes for the
  caches of verifiers and the clocks of nodes.
\<close>

definition minimum_overlap :: "int \<Rightarrow> int \<Rightarrow> time" where
  "minimum_overlap jwt_expire_minutes service_token_lifetime =
     max (secs (60 * jwt_expire_minutes)) (secs service_token_lifetime) + secs 600"

subsection \<open>Signing keys\<close>

record signing_material =
  sg_kid :: string
  sg_private_key :: string
  sg_public_key :: string
  sg_algorithm :: string

text \<open>A key pair that was generated or loaded, with the nonce of its envelope.\<close>

record key_pair =
  kp_kid :: string
  kp_private_pem :: string
  kp_public_pem :: string
  kp_nonce :: bytes

datatype auth_error = Envelope envelope_error | Key_exists

definition material :: "auth_store \<Rightarrow> auth_key \<Rightarrow> auth_error + signing_material" where
  "material s row =
     (case decrypt_private_key (st_cipher s) (key_ciphertext row) (key_kid row) (st_master_secret s) of
        Inl e \<Rightarrow> Inl (Envelope e)
      | Inr pem \<Rightarrow> Inr \<lparr>sg_kid = key_kid row, sg_private_key = pem, sg_public_key = key_public_pem row,
          sg_algorithm = key_algorithm row\<rparr>)"

definition active_key :: "auth_db \<Rightarrow> auth_key option" where
  "active_key d =
     (case sort_key (\<lambda>k. - key_created_at k) (filter (\<lambda>k. key_status k = ''active'') (au_keys d)) of
        [] \<Rightarrow> None | k # ks \<Rightarrow> Some k)"

definition retired_key :: "auth_store \<Rightarrow> time \<Rightarrow> auth_key \<Rightarrow> auth_key" where
  "retired_key s now k =
     k\<lparr>key_status := ''retired'', key_retired_at := Some now, key_expires_at := Some (now + st_overlap s)\<rparr>"

definition new_key :: "time \<Rightarrow> key_pair \<Rightarrow> string \<Rightarrow> auth_key" where
  "new_key now p ciphertext =
     \<lparr>key_kid = kp_kid p, key_algorithm = ''RS256'', key_ciphertext = ciphertext, key_public_pem = kp_public_pem p,
      key_status = ''active'', key_not_before = now, key_expires_at = None, key_retired_at = None, key_created_at = now\<rparr>"

definition add_key :: "auth_store \<Rightarrow> time \<Rightarrow> key_pair \<Rightarrow> auth_db \<Rightarrow> auth_error + auth_db \<times> signing_material" where
  "add_key s now p d =
     (case encrypt_private_key (st_cipher s) (kp_nonce p) (kp_private_pem p) (kp_kid p) (st_master_secret s) of
        Inl e \<Rightarrow> Inl (Envelope e)
      | Inr c \<Rightarrow>
          (if kp_kid p \<in> key_kid ` set (au_keys d) then Inl Key_exists
           else Inr (d\<lparr>au_keys := au_keys d @ [new_key now p c]\<rparr>,
                \<lparr>sg_kid = kp_kid p, sg_private_key = kp_private_pem p, sg_public_key = kp_public_pem p,
                 sg_algorithm = ''RS256''\<rparr>)))"

text \<open>
  \<open>fresh\<close> is the pair that would be generated, \<open>legacy\<close> the pair of the legacy file while it
  still holds one. The whole function is one transaction under an advisory lock.
\<close>

definition ensure_active_signing_key :: "auth_store \<Rightarrow> time \<Rightarrow> bool \<Rightarrow> key_pair option \<Rightarrow> key_pair \<Rightarrow> auth_db \<Rightarrow>
    auth_error + auth_db \<times> signing_material" where
  "ensure_active_signing_key s now force legacy fresh d =
     (case active_key d of
        None \<Rightarrow> add_key s now (case legacy of None \<Rightarrow> fresh | Some p \<Rightarrow> p) d
      | Some k \<Rightarrow>
          (case material s k of
             Inl e \<Rightarrow> Inl e
           | Inr m \<Rightarrow>
               (if \<not> (force \<or> key_created_at k \<le> now - st_rotation_after s) then Inr (d, m)
                else add_key s now fresh (d\<lparr>au_keys := row_put key_kid (retired_key s now k) (au_keys d)\<rparr>))))"

text \<open>The quick path reads only; otherwise the transaction above runs, after \<open>gap\<close>.\<close>

definition active_signing_material :: "auth_store \<Rightarrow> time \<Rightarrow> (auth_db \<Rightarrow> auth_db) \<Rightarrow> time \<Rightarrow> key_pair option \<Rightarrow> key_pair \<Rightarrow>
    auth_db \<Rightarrow> auth_error + auth_db \<times> signing_material" where
  "active_signing_material s now gap later legacy fresh d =
     (case find (\<lambda>k. key_status k = ''active'') (au_keys d) of
        Some k \<Rightarrow>
          (if now - st_rotation_after s < key_created_at k
           then (case material s k of Inl e \<Rightarrow> Inl e | Inr m \<Rightarrow> Inr (d, m))
           else ensure_active_signing_key s later False legacy fresh (gap d))
      | None \<Rightarrow> ensure_active_signing_key s later False legacy fresh (gap d))"

definition key_published :: "time \<Rightarrow> auth_key \<Rightarrow> bool" where
  "key_published now k \<longleftrightarrow>
     key_status k = ''active'' \<or>
     (key_status k = ''retired'' \<and> (case key_expires_at k of None \<Rightarrow> False | Some t \<Rightarrow> now < t))"

definition jwks :: "time \<Rightarrow> auth_db \<Rightarrow> (string \<times> string) list" where
  "jwks now d = map (\<lambda>k. (key_kid k, key_public_pem k))
     (sort_key (\<lambda>k. - key_created_at k) (filter (key_published now) (au_keys d)))"

subsection \<open>Service identities\<close>

definition usable_credential :: "time \<Rightarrow> string \<Rightarrow> auth_credential \<Rightarrow> bool" where
  "usable_credential now client c \<longleftrightarrow>
     cc_client_id c = client \<and> cc_is_active c \<and> (case cc_expires_at c of None \<Rightarrow> True | Some t \<Rightarrow> now < t)"

definition grant_of :: "string \<Rightarrow> string \<Rightarrow> auth_db \<Rightarrow> auth_grant option" where
  "grant_of client audience d = find (\<lambda>g. gr_client_id g = client \<and> gr_audience g = audience) (au_grants d)"

definition client_of :: "string \<Rightarrow> auth_db \<Rightarrow> auth_client option" where
  "client_of client d = row_get cl_id client (au_clients d)"

text \<open>\<open>sha\<close> is the hexadecimal digest of the secret.\<close>

definition authenticate_client :: "(string \<Rightarrow> string) \<Rightarrow> time \<Rightarrow> string \<Rightarrow> string \<Rightarrow> string \<Rightarrow> auth_db \<Rightarrow> auth_db \<times> string option" where
  "authenticate_client sha now client secret audience d =
     (case client_of client d of
        None \<Rightarrow> (d, None)
      | Some x \<Rightarrow>
          (if \<not> cl_is_active x then (d, None)
           else case (find (\<lambda>c. usable_credential now client c \<and> sha secret = cc_secret_sha256 c) (au_credentials d),
                      grant_of client audience d) of
             (Some c, Some g) \<Rightarrow>
               (d\<lparr>au_credentials := row_put cc_id (c\<lparr>cc_last_used_at := Some now\<rparr>) (au_credentials d),
                  au_clients := row_put cl_id (x\<lparr>cl_last_authenticated_at := Some now\<rparr>) (au_clients d)\<rparr>,
                Some (gr_scopes g))
           | _ \<Rightarrow> (d, None)))"

subsection \<open>Sessions\<close>

definition new_session :: "time \<Rightarrow> time \<Rightarrow> string \<Rightarrow> string \<Rightarrow> int \<Rightarrow> auth_session" where
  "new_session now lifetime sid jti admin =
     \<lparr>as_sid = sid, as_admin_id = admin, as_jti = jti, as_expires_at = now + lifetime, as_revoked_at = None,
      as_revoke_reason = None, as_created_at = now, as_last_seen_at = None\<rparr>"

definition create_user_session :: "time \<Rightarrow> time \<Rightarrow> string \<Rightarrow> string \<Rightarrow> int \<Rightarrow> auth_db \<Rightarrow> auth_db \<times> auth_session" where
  "create_user_session now lifetime sid jti admin d =
     (let s = new_session now lifetime sid jti admin in (d\<lparr>au_sessions := au_sessions d @ [s]\<rparr>, s))"

definition session_valid :: "time \<Rightarrow> string \<Rightarrow> string \<Rightarrow> int \<Rightarrow> auth_session \<Rightarrow> bool" where
  "session_valid now sid jti admin s \<longleftrightarrow>
     as_sid s = sid \<and> as_jti s = jti \<and> as_admin_id s = admin \<and> as_revoked_at s = None \<and> now < as_expires_at s"

text \<open>\<open>cached\<close> is what Redis holds for the session, nothing when it is unavailable.\<close>

definition validate_user_session :: "time \<Rightarrow> string option \<Rightarrow> string \<Rightarrow> string \<Rightarrow> int \<Rightarrow> auth_db \<Rightarrow> auth_db \<times> admin option" where
  "validate_user_session now cached sid jti admin d =
     (if cached = Some ''revoked'' then (d, None)
      else case find (session_valid now sid jti admin) (au_sessions d) of
        None \<Rightarrow> (d, None)
      | Some s \<Rightarrow>
          (if jti \<in> rv_jti ` set (au_revocations d) then (d, None)
           else case row_get ad_id admin (au_admins d) of
             None \<Rightarrow> (d, None)
           | Some a \<Rightarrow>
               (if \<not> ad_is_active a then (d, None)
                else (d\<lparr>au_sessions := row_put as_sid (s\<lparr>as_last_seen_at := Some now\<rparr>) (au_sessions d)\<rparr>, Some a))))"

definition revocation :: "time \<Rightarrow> string \<Rightarrow> auth_session \<Rightarrow> auth_revocation" where
  "revocation now reason s =
     \<lparr>rv_jti = as_jti s, rv_sid = Some (as_sid s), rv_expires_at = as_expires_at s, rv_revoked_at = now, rv_reason = reason\<rparr>"

definition revoked :: "time \<Rightarrow> string \<Rightarrow> auth_session \<Rightarrow> auth_session" where
  "revoked now reason s = s\<lparr>as_revoked_at := Some now, as_revoke_reason := Some reason\<rparr>"

definition deny :: "time \<Rightarrow> string \<Rightarrow> auth_session \<Rightarrow> auth_db \<Rightarrow> auth_db" where
  "deny now reason s d =
     d\<lparr>au_revocations := fst (insert_ignore rv_jti (au_revocations d) [revocation now reason s])\<rparr>"

text \<open>The second component is the expiry of the session, for the cache entry.\<close>

definition revoke_session :: "time \<Rightarrow> string \<Rightarrow> string \<Rightarrow> auth_db \<Rightarrow> auth_db \<times> time option" where
  "revoke_session now reason sid d =
     (case row_get as_sid sid (au_sessions d) of
        None \<Rightarrow> (d, None)
      | Some s \<Rightarrow>
          (if as_revoked_at s \<noteq> None then (d, Some (as_expires_at s))
           else (deny now reason s (d\<lparr>au_sessions := row_put as_sid (revoked now reason s) (au_sessions d)\<rparr>),
                 Some (as_expires_at s))))"

definition open_session :: "time \<Rightarrow> int \<Rightarrow> auth_session \<Rightarrow> bool" where
  "open_session now admin s \<longleftrightarrow> as_admin_id s = admin \<and> as_revoked_at s = None \<and> now < as_expires_at s"

fun deny_all :: "time \<Rightarrow> string \<Rightarrow> auth_session list \<Rightarrow> auth_db \<Rightarrow> auth_db" where
  "deny_all now reason [] d = d"
| "deny_all now reason (s # ss) d = deny_all now reason ss (deny now reason s d)"

definition revoke_admin_sessions_in_transaction :: "time \<Rightarrow> string \<Rightarrow> int \<Rightarrow> auth_db \<Rightarrow> auth_db \<times> (string \<times> time) list" where
  "revoke_admin_sessions_in_transaction now reason admin d =
     (let ss = filter (open_session now admin) (au_sessions d) in
      (deny_all now reason ss
         (d\<lparr>au_sessions := row_update (open_session now admin) (revoked now reason) (au_sessions d)\<rparr>),
       map (\<lambda>s. (as_sid s, as_expires_at s)) ss))"

definition audit :: "auth_audit \<Rightarrow> auth_db \<Rightarrow> auth_db" where
  "audit a d = d\<lparr>au_audits := au_audits d @ [a]\<rparr>"

definition cleanup_expired :: "time \<Rightarrow> auth_db \<Rightarrow> auth_db" where
  "cleanup_expired now d =
     d\<lparr>au_keys := row_update (\<lambda>k. key_status k = ''retired'' \<and> (case key_expires_at k of None \<Rightarrow> False | Some t \<Rightarrow> t \<le> now))
          (\<lambda>k. k\<lparr>key_status := ''revoked''\<rparr>) (au_keys d),
       au_sessions := filter (\<lambda>s. now < as_expires_at s) (au_sessions d),
       au_revocations := filter (\<lambda>r. now < rv_expires_at r \<and>
          (case rv_sid r of None \<Rightarrow> True | Some sid \<Rightarrow> \<not> list_ex (\<lambda>s. as_sid s = sid \<and> as_expires_at s \<le> now) (au_sessions d)))
          (au_revocations d)\<rparr>"

subsection \<open>User tokens\<close>

text \<open>
  The token library and the conversions of Python as the authority uses them: the key
  identifier of an unverified header, the claims of a token whose signature, audience,
  issuer, times and required claims are in order, \<open>str\<close> and \<open>int\<close> of a claim.
\<close>

record token_lib =
  unverified_kid :: "string \<Rightarrow> string option"
  decode_token :: "time \<Rightarrow> string \<Rightarrow> string \<Rightarrow> string \<Rightarrow> json option"
  py_str :: "json \<Rightarrow> string"
  py_int :: "json \<Rightarrow> int option"

definition user_audience :: string where
  "user_audience = ''xsentinel-backend''"

fun words_acc :: "string \<Rightarrow> string \<Rightarrow> string list" where
  "words_acc cur [] = (if cur = [] then [] else [rev cur])"
| "words_acc cur (c # cs) =
     (if is_space c then (if cur = [] then words_acc [] cs else rev cur # words_acc [] cs) else words_acc (c # cur) cs)"

definition words :: "string \<Rightarrow> string list" where
  "words s = words_acc [] s"

definition key_usable :: "time \<Rightarrow> auth_key \<Rightarrow> bool" where
  "key_usable now k \<longleftrightarrow> key_status k \<noteq> ''revoked'' \<and> (case key_expires_at k of None \<Rightarrow> True | Some t \<Rightarrow> now < t)"

definition claims_ok :: "token_lib \<Rightarrow> string \<Rightarrow> json \<Rightarrow> bool" where
  "claims_ok lib kid claims \<longleftrightarrow>
     jget claims ''type'' = JStr ''user'' \<and> jget claims ''kid'' = JStr kid \<and>
     ''admin'' \<in> set (words (py_str lib (jget claims ''scope'')))"

definition decode_and_validate_user_token :: "token_lib \<Rightarrow> time \<Rightarrow> (string \<Rightarrow> string option) \<Rightarrow> string \<Rightarrow> auth_db \<Rightarrow>
    auth_db \<times> (json \<times> admin) option" where
  "decode_and_validate_user_token lib now cache token d =
     (case unverified_kid lib token of
        None \<Rightarrow> (d, None)
      | Some kid \<Rightarrow>
          (case row_get key_kid kid (au_keys d) of
             None \<Rightarrow> (d, None)
           | Some k \<Rightarrow>
               (if \<not> key_usable now k then (d, None)
                else case decode_token lib now token (key_public_pem k) user_audience of
                  None \<Rightarrow> (d, None)
                | Some claims \<Rightarrow>
                    (if \<not> claims_ok lib kid claims then (d, None)
                     else case py_int lib (jget claims ''uid'') of
                       None \<Rightarrow> (d, None)
                     | Some uid \<Rightarrow>
                         (let sid = py_str lib (jget claims ''sid'') in
                          case validate_user_session now (cache sid) sid (py_str lib (jget claims ''jti'')) uid d of
                            (d', None) \<Rightarrow> (d', None)
                          | (d', Some a) \<Rightarrow> (d', Some (claims, a)))))))"

subsection \<open>One-time imports\<close>

datatype client_import_error =
    Not_an_object
  | Invalid_client
  | Invalid_digest string
  | Invalid_grants string
  | Invalid_grant string

definition secret_digest_ok :: "string \<Rightarrow> bool" where
  "secret_digest_ok s \<longleftrightarrow> length s = 64 \<and> list_all is_lower_hex s"

definition scope_text :: "token_lib \<Rightarrow> json \<Rightarrow> string" where
  "scope_text lib v = join '' '' (rev (remdups (rev (words (py_str lib v)))))"

definition marker_of :: "string \<Rightarrow> string \<Rightarrow> auth_db \<Rightarrow> auth_bootstrap option" where
  "marker_of i source d = find (\<lambda>b. bs_id b = i \<and> bs_source_sha256 b = source) (au_bootstraps d)"

definition new_client :: "time \<Rightarrow> string \<Rightarrow> auth_client" where
  "new_client now i = \<lparr>cl_id = i, cl_display_name = Some i, cl_is_active = True, cl_created_at = now, cl_updated_at = now,
     cl_last_authenticated_at = None\<rparr>"

definition new_credential :: "time \<Rightarrow> int \<Rightarrow> string \<Rightarrow> string \<Rightarrow> string \<Rightarrow> auth_credential" where
  "new_credential now i client dig label =
     \<lparr>cc_id = i, cc_client_id = client, cc_secret_sha256 = dig, cc_label = Some label, cc_is_active = True,
      cc_created_at = now, cc_expires_at = None, cc_last_used_at = None\<rparr>"

definition new_grant :: "time \<Rightarrow> string \<Rightarrow> string \<Rightarrow> string \<Rightarrow> auth_grant" where
  "new_grant now client audience scopes =
     \<lparr>gr_client_id = client, gr_audience = audience, gr_scopes = scopes, gr_created_at = now, gr_updated_at = now\<rparr>"

definition add_credential :: "time \<Rightarrow> string \<Rightarrow> string \<Rightarrow> string \<Rightarrow> auth_db \<Rightarrow> auth_db" where
  "add_credential now client dig label d =
     (if list_ex (\<lambda>c. cc_client_id c = client \<and> cc_secret_sha256 c = dig) (au_credentials d) then d
      else d\<lparr>au_credentials := au_credentials d @ [new_credential now (au_serial d) client dig label],
             au_serial := au_serial d + 1\<rparr>)"

definition add_grant :: "time \<Rightarrow> string \<Rightarrow> string \<Rightarrow> string \<Rightarrow> auth_db \<Rightarrow> auth_db" where
  "add_grant now client audience scopes d =
     (if grant_of client audience d \<noteq> None then d
      else d\<lparr>au_grants := au_grants d @ [new_grant now client audience scopes]\<rparr>)"

fun import_grants :: "token_lib \<Rightarrow> time \<Rightarrow> string \<Rightarrow> bool \<Rightarrow> (string \<times> json) list \<Rightarrow> auth_db \<Rightarrow> client_import_error + auth_db" where
  "import_grants lib now client is_new [] d = Inr d"
| "import_grants lib now client is_new ((audience, scopes) # gs) d =
     (if strip audience = [] \<or> scope_text lib scopes = [] then Inl (Invalid_grant client)
      else import_grants lib now client is_new gs
        (if is_new then add_grant now client (strip audience) (scope_text lib scopes) d else d))"

text \<open>The members of a JSON object in the order of their names; other values have none.\<close>

definition members :: "json \<Rightarrow> (string \<times> json) list option" where
  "members v = (case v of JObj kvs \<Rightarrow> Some (sort_key (\<lambda>kv. map (of_char :: char \<Rightarrow> nat) (fst kv)) kvs) | _ \<Rightarrow> None)"

definition import_client :: "token_lib \<Rightarrow> time \<Rightarrow> string \<Rightarrow> string \<Rightarrow> json \<Rightarrow> auth_db \<Rightarrow> client_import_error + auth_db" where
  "import_client lib now label raw_id raw d =
     (let client = strip raw_id in
      if client = [] \<or> 128 < length client \<or> \<not> is_dict raw then Inl Invalid_client
      else let is_new = (client_of client d = None);
               d1 = (if is_new then d\<lparr>au_clients := au_clients d @ [new_client now client]\<rparr> else d);
               dig = lower (py_str lib (jget_or raw ''secret_sha256'' (JStr []))) in
        if \<not> secret_digest_ok dig then Inl (Invalid_digest client)
        else case members (jget_or raw ''grants'' (JObj [])) of
          None \<Rightarrow> Inl (Invalid_grants client)
        | Some gs \<Rightarrow> import_grants lib now client is_new gs (add_credential now client dig label d1))"

fun import_clients :: "token_lib \<Rightarrow> time \<Rightarrow> string \<Rightarrow> (string \<times> json) list \<Rightarrow> auth_db \<Rightarrow> client_import_error + auth_db" where
  "import_clients lib now label [] d = Inr d"
| "import_clients lib now label ((i, raw) # cs) d =
     (case import_client lib now label i raw d of
        Inl e \<Rightarrow> Inl e
      | Inr d' \<Rightarrow> import_clients lib now label cs d')"

definition new_marker :: "time \<Rightarrow> string \<Rightarrow> string \<Rightarrow> string \<Rightarrow> auth_bootstrap" where
  "new_marker now i source label =
     \<lparr>bs_id = i, bs_source_sha256 = source, bs_completed_by = Some label, bs_completed_at = now\<rparr>"

text \<open>
  \<open>source\<close> is the digest of the file, \<open>raw\<close> the value it parses to, \<open>label\<close> the first 255
  characters of the host name.
\<close>

definition bootstrap_legacy_clients :: "token_lib \<Rightarrow> time \<Rightarrow> string \<Rightarrow> (string \<times> json) option \<Rightarrow> auth_db \<Rightarrow> client_import_error + auth_db" where
  "bootstrap_legacy_clients lib now label content d =
     (case content of
        None \<Rightarrow> Inr d
      | Some (source, raw) \<Rightarrow>
          (if marker_of ''legacy-clients-v1'' source d \<noteq> None then Inr d
           else case members raw of
             None \<Rightarrow> Inl Not_an_object
           | Some cs \<Rightarrow>
               (case import_clients lib now label cs d of
                  Inl e \<Rightarrow> Inl e
                | Inr d' \<Rightarrow> Inr (d'\<lparr>au_bootstraps := au_bootstraps d' @ [new_marker now ''legacy-clients-v1'' source label]\<rparr>))))"

definition bootstrap_xhs_result_grant :: "(string \<Rightarrow> string) \<Rightarrow> time \<Rightarrow> string \<Rightarrow> auth_db \<Rightarrow> auth_db" where
  "bootstrap_xhs_result_grant sha now label d =
     (let source = sha ''xhs-worker:backend:xhs:result:v1'' in
      if marker_of ''xhs-result-grant-v1'' source d \<noteq> None then d
      else case client_of ''xhs-worker'' d of
        None \<Rightarrow> d
      | Some x \<Rightarrow>
          (let d1 = (if cl_is_active x \<and> grant_of ''xhs-worker'' ''backend'' d = None
                     then d\<lparr>au_grants := au_grants d @ [new_grant now ''xhs-worker'' ''backend'' ''xhs:result'']\<rparr> else d) in
           d1\<lparr>au_bootstraps := au_bootstraps d1 @ [new_marker now ''xhs-result-grant-v1'' source label]\<rparr>))"

end
