(* ===== verification/AuthCenter.thy ===== *)
theory AuthCenter
  imports AuthStore RedisLease
begin

text \<open>
  The service of the authority, \<open>backend/app/control_plane/auth.py\<close>: the shared rate limits,
  the address a request counts for, service tokens, and the login, password change and
  logout of administrators. Steps of one request are separated by \<open>gap\<close>, in which other
  requests may change the database and Redis.
\<close>

subsection \<open>Rate limits\<close>

type_synonym counters = "string \<Rightarrow> (int \<times> time) option"

record auth_redis =
  ar_counters :: counters
  ar_cache :: redis

type_synonym auth_world = "auth_db \<times> auth_redis"

datatype auth_failure =
    Too_many int
  | Auth_unavailable
  | Unauthorized string
  | Bad_request string
  | Server_failure auth_error

definition live_counter :: "time \<Rightarrow> string \<Rightarrow> counters \<Rightarrow> (int \<times> time) option" where
  "live_counter now k cs = (case cs k of None \<Rightarrow> None | Some (n, until) \<Rightarrow> if now < until then Some (n, until) else None)"

text \<open>The seconds Redis reports for a key, rounded.\<close>

definition ttl_seconds :: "time \<Rightarrow> time \<Rightarrow> int" where
  "ttl_seconds now until = (until - now + 500000) div 1000000"

definition counted :: "time \<Rightarrow> string \<Rightarrow> int \<Rightarrow> counters \<Rightarrow> int \<times> time" where
  "counted now k window cs =
     (case live_counter now k cs of None \<Rightarrow> (1, now + secs window) | Some (n, until) \<Rightarrow> (n + 1, until))"

definition record_attempt :: "bool \<Rightarrow> time \<Rightarrow> string \<Rightarrow> int \<Rightarrow> int \<Rightarrow> counters \<Rightarrow> counters \<times> auth_failure option" where
  "record_attempt up now k limit window cs =
     (if \<not> up then (cs, Some Auth_unavailable)
      else let c = counted now k window cs in
        (cs(k \<mapsto> c), if limit \<le> fst c then Some (Too_many (max 1 (ttl_seconds now (snd c)))) else None))"

definition check_limit :: "bool \<Rightarrow> time \<Rightarrow> string \<Rightarrow> int \<Rightarrow> counters \<Rightarrow> auth_failure option" where
  "check_limit up now k limit cs =
     (if \<not> up then Some Auth_unavailable
      else case live_counter now k cs of
        None \<Rightarrow> if limit \<le> 0 then Some (Too_many 1) else None
      | Some (n, until) \<Rightarrow> if limit \<le> n then Some (Too_many (max 1 (ttl_seconds now until))) else None)"

text \<open>
  \<open>ipaddress\<close>: the canonical text of an address, if it is one, and whether it lies in the
  networks of trusted proxies.
\<close>

record ip_lib =
  canonical_ip :: "string \<Rightarrow> string option"
  trusted_ip :: "string \<Rightarrow> bool"

definition remote_address :: "ip_lib \<Rightarrow> string \<Rightarrow> string list \<Rightarrow> string" where
  "remote_address ip peer forwarded =
     (let own = take 64 peer in
      case (canonical_ip ip peer, forwarded) of
        (Some a, [f]) \<Rightarrow>
          (let v = strip f in
           if trusted_ip ip a \<and> v \<noteq> [] \<and> CHR '','' \<notin> set v \<and> length v \<le> 64
           then (case canonical_ip ip v of Some x \<Rightarrow> x | None \<Rightarrow> own) else own)
      | _ \<Rightarrow> own)"

definition rate_key :: "(string \<Rightarrow> string) \<Rightarrow> string \<Rightarrow> string \<Rightarrow> string \<Rightarrow> string" where
  "rate_key sha category address identity =
     ''xsentinel:auth:rate:'' @ category @ '':'' @ sha (address @ ''|'' @ lower (strip identity))"

definition ip_rate_key :: "(string \<Rightarrow> string) \<Rightarrow> string \<Rightarrow> string \<Rightarrow> string" where
  "ip_rate_key sha category address = ''xsentinel:auth:rate:'' @ category @ ''-ip:'' @ sha address"

subsection \<open>The service\<close>

record auth_env =
  ae_store :: auth_store
  ae_sha :: "string \<Rightarrow> string"
  ae_lib :: token_lib
  ae_sign :: "json \<Rightarrow> string \<Rightarrow> string \<Rightarrow> string"
  ae_verify :: "string \<Rightarrow> string \<Rightarrow> bool"
  ae_dummy_hash :: string
  ae_rate_limit :: int
  ae_rate_window :: int
  ae_login_limit :: int
  ae_login_window :: int
  ae_token_lifetime :: int
  ae_user_lifetime :: time
  ae_legacy :: "key_pair option"

text \<open>What a request meets: the times of its steps, other requests, Redis, and fresh values.\<close>

record auth_io =
  ao_now :: "nat \<Rightarrow> time"
  ao_gap :: "nat \<Rightarrow> auth_world \<Rightarrow> auth_world"
  ao_up :: "nat \<Rightarrow> bool"
  ao_fresh_key :: key_pair
  ao_sid :: string
  ao_jti :: string
  ao_salt :: string

definition session_cache_key :: "string \<Rightarrow> string" where
  "session_cache_key sid = ''xsentinel:auth:session:'' @ sid"

definition signing_step :: "auth_env \<Rightarrow> auth_io \<Rightarrow> nat \<Rightarrow> auth_world \<Rightarrow> auth_error + auth_world \<times> signing_material" where
  "signing_step env io k w =
     (case active_signing_material (ae_store env) (ao_now io k) (\<lambda>d. fst (ao_gap io k (d, snd w))) (ao_now io (k + 1))
         (ae_legacy env) (ao_fresh_key io) (fst w) of
        Inl e \<Rightarrow> Inl e
      | Inr (d, m) \<Rightarrow> Inr ((d, snd w), m))"

definition audit_row :: "time \<Rightarrow> string \<Rightarrow> string \<Rightarrow> string option \<Rightarrow> bool \<Rightarrow> string \<Rightarrow> auth_audit" where
  "audit_row now event actor i success address =
     \<lparr>aa_event_type = event, aa_actor_type = actor, aa_actor_id = i, aa_subject = None, aa_audience = None, aa_sid = None,
      aa_jti = None, aa_success = success, aa_remote_address = Some address, aa_created_at = now\<rparr>"

definition counting :: "auth_io \<Rightarrow> nat \<Rightarrow> string \<Rightarrow> int \<Rightarrow> int \<Rightarrow> auth_world \<Rightarrow> auth_world \<times> auth_failure option" where
  "counting io k key limit window w =
     (case record_attempt (ao_up io k) (ao_now io k) key limit window (ar_counters (snd w)) of
        (cs, r) \<Rightarrow> ((fst w, (snd w)\<lparr>ar_counters := cs\<rparr>), r))"

definition service_claims :: "string \<Rightarrow> string \<Rightarrow> int \<Rightarrow> int \<Rightarrow> string \<Rightarrow> string \<Rightarrow> string \<Rightarrow> json" where
  "service_claims client audience now lifetime jti kid scopes =
     JObj [(''sub'', JStr client), (''aud'', JStr audience), (''iss'', JStr ''xsentinel-auth''), (''iat'', JInt now),
       (''nbf'', JInt now), (''exp'', JInt (now + lifetime)), (''jti'', JStr jti), (''kid'', JStr kid),
       (''type'', JStr ''service''), (''scope'', JStr scopes)]"

definition issue_token :: "auth_env \<Rightarrow> auth_io \<Rightarrow> string \<Rightarrow> string \<Rightarrow> string \<Rightarrow> string \<Rightarrow> auth_world \<Rightarrow>
    auth_world \<times> (auth_failure + string)" where
  "issue_token env io client secret audience address w0 =
     (case counting io 0 (rate_key (ae_sha env) ''service'' address client) (ae_rate_limit env) (ae_rate_window env) (ao_gap io 0 w0) of
        (w1, Some e) \<Rightarrow> (w1, Inl e)
      | (w1, None) \<Rightarrow>
          (case ao_gap io 1 w1 of
             (d, rs) \<Rightarrow>
               (case authenticate_client (ae_sha env) (ao_now io 1) client secret audience d of
                  (d1, None) \<Rightarrow>
                    (case ao_gap io 2 (d1, rs) of
                       (d2, rs2) \<Rightarrow>
                         ((audit ((audit_row (ao_now io 2) ''service_token_denied'' ''service'' (Some client) False address)
                            \<lparr>aa_audience := Some audience\<rparr>) d2, rs2),
                          Inl (Unauthorized ''Invalid service credentials or audience'')))
                | (d1, Some scopes) \<Rightarrow>
                    (case signing_step env io 3 (ao_gap io 2 (d1, rs)) of
                       Inl e \<Rightarrow> (ao_gap io 2 (d1, rs), Inl (Server_failure e))
                     | Inr (w2, m) \<Rightarrow>
                         (let claims = service_claims client audience (trunc_seconds (ao_now io 5)) (ae_token_lifetime env)
                                (ao_jti io) (sg_kid m) scopes;
                              (d3, rs3) = ao_gap io 5 w2 in
                          ((audit ((audit_row (ao_now io 5) ''service_token_issued'' ''service'' (Some client) True address)
                             \<lparr>aa_audience := Some audience, aa_jti := Some (ao_jti io)\<rparr>) d3, rs3),
                           Inr (ae_sign env claims (sg_private_key m) (sg_kid m))))))))"

subsection \<open>Administrators\<close>

definition admin_named :: "string \<Rightarrow> auth_db \<Rightarrow> admin option" where
  "admin_named u d = find (\<lambda>a. ad_username a = u) (au_admins d)"

definition password_matches :: "auth_env \<Rightarrow> string \<Rightarrow> admin option \<Rightarrow> bool" where
  "password_matches env password a =
     ae_verify env password (case a of None \<Rightarrow> ae_dummy_hash env | Some x \<Rightarrow> ad_password_hash x)"

text \<open>The transaction of a login, under the lock of the administrator's row.\<close>

definition login_transaction :: "auth_env \<Rightarrow> time \<Rightarrow> string \<Rightarrow> string \<Rightarrow> string \<Rightarrow> string \<Rightarrow> auth_db \<Rightarrow>
    auth_db \<times> (admin \<times> auth_session) option" where
  "login_transaction env now sid jti username password d =
     (case admin_named username d of
        None \<Rightarrow> (d, None)
      | Some a \<Rightarrow>
          (if ad_is_active a \<and> password_matches env password (Some a)
           then let a' = a\<lparr>ad_last_login_at := Some now\<rparr>;
                    (d', s) = create_user_session now (ae_user_lifetime env) sid jti (ad_id a)
                      (d\<lparr>au_admins := row_put ad_id a' (au_admins d)\<rparr>)
                in (d', Some (a', s))
           else (d, None)))"

definition user_claims :: "admin \<Rightarrow> auth_session \<Rightarrow> string \<Rightarrow> time \<Rightarrow> json" where
  "user_claims a s kid now =
     JObj [(''sub'', JStr (ad_username a)), (''uid'', JInt (ad_id a)), (''sid'', JStr (as_sid s)), (''jti'', JStr (as_jti s)),
       (''kid'', JStr kid), (''aud'', JStr user_audience), (''iss'', JStr ''xsentinel-auth''), (''iat'', JInt (trunc_seconds now)),
       (''nbf'', JInt (trunc_seconds now)), (''exp'', JInt (trunc_seconds (as_expires_at s))), (''type'', JStr ''user''),
       (''scope'', JStr ''admin'')]"

definition login_denied :: "auth_env \<Rightarrow> auth_io \<Rightarrow> string \<Rightarrow> string \<Rightarrow> auth_world \<Rightarrow> auth_world \<times> (auth_failure + string)" where
  "login_denied env io username address w =
     (case counting io 6 (rate_key (ae_sha env) ''admin'' address username) (ae_login_limit env) (ae_login_window env) (ao_gap io 6 w) of
        (w1, r) \<Rightarrow>
          (let (d2, rs2) = ao_gap io 7 w1 in
           ((audit (audit_row (ao_now io 7) ''admin_login_denied'' ''user'' (if username = [] then None else Some username) False address) d2,
             rs2),
            Inl (case r of Some e \<Rightarrow> e | None \<Rightarrow> Unauthorized ''Invalid username or password''))))"

text \<open>
  A cache entry that cannot be stored fails the request after the session was committed;
  clearing the counter is best effort.
\<close>

definition login_granted :: "auth_env \<Rightarrow> auth_io \<Rightarrow> signing_material \<Rightarrow> string \<Rightarrow> string \<Rightarrow> admin \<Rightarrow> auth_session \<Rightarrow> auth_world \<Rightarrow>
    auth_world \<times> (auth_failure + string)" where
  "login_granted env io m username address a s w =
     (let (d, rs) = ao_gap io 6 w;
          rs1 = (if ao_up io 6 then rs\<lparr>ar_counters := (ar_counters rs)(rate_key (ae_sha env) ''admin'' address username := None)\<rparr> else rs);
          now = ao_now io 6;
          lifetime = max 1 (trunc_seconds (as_expires_at s - now)) in
      if \<not> ao_up io 7 then ((d, rs1), Inl Auth_unavailable)
      else let rs2 = rs1\<lparr>ar_cache := redis_set (ao_now io 7) (session_cache_key (as_sid s)) ''active'' lifetime (ar_cache rs1)\<rparr>;
               (d3, rs3) = ao_gap io 8 (d, rs2) in
        ((audit ((audit_row (ao_now io 8) ''admin_login_succeeded'' ''user'' (Some (show_int (ad_id a))) True address)
            \<lparr>aa_subject := Some (ad_username a), aa_sid := Some (as_sid s), aa_jti := Some (as_jti s)\<rparr>) d3, rs3),
         Inr (ae_sign env (user_claims a s (sg_kid m) now) (sg_private_key m) (sg_kid m))))"

definition admin_login :: "auth_env \<Rightarrow> auth_io \<Rightarrow> string \<Rightarrow> string \<Rightarrow> string \<Rightarrow> auth_world \<Rightarrow> auth_world \<times> (auth_failure + string)" where
  "admin_login env io name password address w0 =
     (let username = strip name in
      case counting io 0 (ip_rate_key (ae_sha env) ''admin'' address) (ae_login_limit env) (ae_login_window env) (ao_gap io 0 w0) of
        (w1, Some e) \<Rightarrow> (w1, Inl e)
      | (w1, None) \<Rightarrow>
          (let w2 = ao_gap io 1 w1 in
           case check_limit (ao_up io 1) (ao_now io 1) (rate_key (ae_sha env) ''admin'' address username) (ae_login_limit env)
               (ar_counters (snd w2)) of
             Some e \<Rightarrow> (w2, Inl e)
           | None \<Rightarrow>
               (let w3 = ao_gap io 2 w2 in
                case signing_step env io 3 w3 of
                  Inl e \<Rightarrow> (w3, Inl (Server_failure e))
                | Inr (w4, m) \<Rightarrow>
                    (let (d, rs) = ao_gap io 5 w4 in
                     case login_transaction env (ao_now io 5) (ao_sid io) (ao_jti io) username password d of
                       (d', None) \<Rightarrow> login_denied env io username address (d', rs)
                     | (d', Some (a, s)) \<Rightarrow> login_granted env io m username address a s (d', rs)))))"

definition bearer_token :: "string \<Rightarrow> string option" where
  "bearer_token header =
     (case split1 (CHR '' '') header of
        (scheme, None) \<Rightarrow> None
      | (scheme, Some token) \<Rightarrow> if lower scheme = ''bearer'' \<and> token \<noteq> [] then Some token else None)"

text \<open>The value Redis holds for a session, nothing when it does not answer.\<close>

definition cached_state :: "bool \<Rightarrow> time \<Rightarrow> auth_redis \<Rightarrow> string \<Rightarrow> string option" where
  "cached_state up now rs sid = (if up then redis_get now (session_cache_key sid) (ar_cache rs) else None)"

definition current_admin :: "auth_env \<Rightarrow> auth_io \<Rightarrow> string \<Rightarrow> auth_world \<Rightarrow> auth_world \<times> (auth_failure + json \<times> admin)" where
  "current_admin env io header w =
     (case bearer_token header of
        None \<Rightarrow> (w, Inl (Unauthorized ''Missing bearer token''))
      | Some token \<Rightarrow>
          (let (d, rs) = ao_gap io 0 w in
           case decode_and_validate_user_token (ae_lib env) (ao_now io 0) (cached_state (ao_up io 0) (ao_now io 0) rs) token d of
             (d', None) \<Rightarrow> ((d', rs), Inl (Unauthorized ''Invalid or revoked access token''))
           | (d', Some r) \<Rightarrow> ((d', rs), Inr r)))"

definition password_transaction :: "auth_env \<Rightarrow> time \<Rightarrow> string \<Rightarrow> int \<Rightarrow> string \<Rightarrow> auth_db \<Rightarrow>
    auth_failure + auth_db \<times> (string \<times> time) list" where
  "password_transaction env now new_hash admin current d =
     (case row_get ad_id admin (au_admins d) of
        None \<Rightarrow> Inl (Unauthorized ''Administrator is inactive'')
      | Some a \<Rightarrow>
          (if \<not> ad_is_active a then Inl (Unauthorized ''Administrator is inactive'')
           else if \<not> ae_verify env current (ad_password_hash a) then Inl (Bad_request ''Current password is incorrect'')
           else Inr (revoke_admin_sessions_in_transaction now ''password_changed'' admin
             (d\<lparr>au_admins := row_put ad_id (a\<lparr>ad_password_hash := new_hash\<rparr>) (au_admins d)\<rparr>))))"

fun cache_revoked_sessions :: "time \<Rightarrow> (string \<times> time) list \<Rightarrow> redis \<Rightarrow> redis" where
  "cache_revoked_sessions now [] s = s"
| "cache_revoked_sessions now ((sid, until) # xs) s =
     cache_revoked_sessions now xs
       (redis_set now (session_cache_key sid) ''revoked'' (max 1 (trunc_seconds (until - now))) s)"

definition best_effort_cache :: "auth_io \<Rightarrow> nat \<Rightarrow> (string \<times> time) list \<Rightarrow> auth_world \<Rightarrow> auth_world" where
  "best_effort_cache io k gone w =
     (let (d, rs) = ao_gap io k w in
      (d, if ao_up io k then rs\<lparr>ar_cache := cache_revoked_sessions (ao_now io k) gone (ar_cache rs)\<rparr> else rs))"

definition admin_password :: "auth_env \<Rightarrow> auth_io \<Rightarrow> string \<Rightarrow> string \<Rightarrow> string \<Rightarrow> string \<Rightarrow> string \<Rightarrow> auth_world \<Rightarrow>
    auth_world \<times> auth_failure option" where
  "admin_password env io header current new new_hash address w =
     (case current_admin env io header w of
        (w1, Inl e) \<Rightarrow> (w1, Some e)
      | (w1, Inr (claims, a)) \<Rightarrow>
          (if new = current then (w1, Some (Bad_request ''New password must be different from the current password''))
           else let (d, rs) = ao_gap io 1 w1 in
             case password_transaction env (ao_now io 1) new_hash (ad_id a) current d of
               Inl e \<Rightarrow> ((d, rs), Some e)
             | Inr (d1, gone) \<Rightarrow>
                 (let (d2, rs2) = ao_gap io 3 (best_effort_cache io 2 gone (d1, rs)) in
                  ((audit ((audit_row (ao_now io 3) ''admin_password_changed'' ''user'' (Some (show_int (ad_id a))) True address)
                      \<lparr>aa_subject := Some (ad_username a), aa_sid := Some (py_str (ae_lib env) (jget claims ''sid'')),
                       aa_jti := Some (py_str (ae_lib env) (jget claims ''jti''))\<rparr>) d2, rs2), None))))"

definition admin_logout :: "auth_env \<Rightarrow> auth_io \<Rightarrow> string \<Rightarrow> time \<Rightarrow> string \<Rightarrow> auth_world \<Rightarrow> auth_world \<times> auth_failure option" where
  "admin_logout env io header expires address w =
     (case current_admin env io header w of
        (w1, Inl e) \<Rightarrow> (w1, Some e)
      | (w1, Inr (claims, a)) \<Rightarrow>
          (let sid = py_str (ae_lib env) (jget claims ''sid'');
               (d, rs) = ao_gap io 1 w1;
               d1 = fst (revoke_session (ao_now io 1) ''logout'' sid d);
               (d2, rs2) = ao_gap io 3 (best_effort_cache io 2 [(sid, expires)] (d1, rs)) in
           ((audit ((audit_row (ao_now io 3) ''admin_logout'' ''user'' (Some (show_int (ad_id a))) True address)
               \<lparr>aa_subject := Some (ad_username a), aa_sid := Some sid, aa_jti := Some (py_str (ae_lib env) (jget claims ''jti''))\<rparr>) d2,
             rs2), None)))"

end
