(* ===== verification/AuthSafety.thy ===== *)
theory AuthSafety
  imports AuthCenter
begin

text \<open>
  What the transactions of the authority keep in any order: a session that ended stays
  ended, at most one key signs, a key is published as long as a token it signed may be in
  use, a rate limit holds for all replicas together, and the imports never widen what an
  operator granted.
\<close>

subsection \<open>Transactions\<close>

datatype auth_event =
    Rotate time bool "key_pair option" key_pair
  | Login time string string string string
  | Change_password time string int string
  | End_session time string string
  | End_sessions time string int
  | Validate time "string option" string string int
  | Authenticate time string string string
  | Import time string "(string \<times> json) option"
  | Upgrade_grant time string
  | Clean time
  | Record auth_audit
  | Admin_work "admin list \<Rightarrow> admin list"

definition done_or :: "auth_db \<Rightarrow> 'e + auth_db \<Rightarrow> auth_db" where
  "done_or d r = (case r of Inl e \<Rightarrow> d | Inr d' \<Rightarrow> d')"

definition done_fst :: "auth_db \<Rightarrow> 'e + auth_db \<times> 'a \<Rightarrow> auth_db" where
  "done_fst d r = (case r of Inl e \<Rightarrow> d | Inr (d', _) \<Rightarrow> d')"

fun auth_step :: "auth_env \<Rightarrow> auth_event \<Rightarrow> auth_db \<Rightarrow> auth_db" where
  "auth_step env (Rotate now force legacy fresh) d = done_fst d (ensure_active_signing_key (ae_store env) now force legacy fresh d)"
| "auth_step env (Login now sid jti username password) d = fst (login_transaction env now sid jti username password d)"
| "auth_step env (Change_password now hash admin current) d = done_fst d (password_transaction env now hash admin current d)"
| "auth_step env (End_session now reason sid) d = fst (revoke_session now reason sid d)"
| "auth_step env (End_sessions now reason admin) d = fst (revoke_admin_sessions_in_transaction now reason admin d)"
| "auth_step env (Validate now cached sid jti admin) d = fst (validate_user_session now cached sid jti admin d)"
| "auth_step env (Authenticate now client secret audience) d = fst (authenticate_client (ae_sha env) now client secret audience d)"
| "auth_step env (Import now label content) d = done_or d (bootstrap_legacy_clients (ae_lib env) now label content d)"
| "auth_step env (Upgrade_grant now label) d = bootstrap_xhs_result_grant (ae_sha env) now label d"
| "auth_step env (Clean now) d = cleanup_expired now d"
| "auth_step env (Record a) d = audit a d"
| "auth_step env (Admin_work f) d = d\<lparr>au_admins := f (au_admins d)\<rparr>"

fun auth_run :: "auth_env \<Rightarrow> auth_event list \<Rightarrow> auth_db \<Rightarrow> auth_db" where
  "auth_run env [] d = d"
| "auth_run env (e # es) d = auth_run env es (auth_step env e d)"

subsection \<open>Ended sessions\<close>

definition ended_row :: "time \<Rightarrow> auth_session \<Rightarrow> bool" where
  "ended_row now s \<longleftrightarrow> as_revoked_at s \<noteq> None \<or> as_expires_at s \<le> now"

definition ended :: "time \<Rightarrow> string \<Rightarrow> auth_db \<Rightarrow> bool" where
  "ended now sid d \<longleftrightarrow> (\<forall>s \<in> set (au_sessions d). as_sid s = sid \<longrightarrow> ended_row now s)"

definition signs_in :: "string \<Rightarrow> auth_event \<Rightarrow> bool" where
  "signs_in sid e \<longleftrightarrow> (case e of Login now s jti u p \<Rightarrow> s = sid | _ \<Rightarrow> False)"

lemma ended_subset: "ended now sid d \<Longrightarrow> set (au_sessions d') \<subseteq> set (au_sessions d) \<Longrightarrow> ended now sid d'"
  by (auto simp: ended_def)

lemma deny_sessions [simp]: "au_sessions (deny now reason s d) = au_sessions d"
  by (simp add: deny_def)

lemma deny_all_sessions [simp]: "au_sessions (deny_all now reason ss d) = au_sessions d"
  by (induction ss arbitrary: d) simp_all

lemma add_key_sessions: "add_key s now p d = Inr (d', m) \<Longrightarrow> au_sessions d' = au_sessions d"
  by (auto simp: add_key_def split: sum.splits if_splits)

lemma ensure_sessions: "ensure_active_signing_key s now force legacy fresh d = Inr (d', m) \<Longrightarrow> au_sessions d' = au_sessions d"
  by (auto simp: ensure_active_signing_key_def dest!: add_key_sessions split: option.splits sum.splits if_splits)

lemma import_grants_sessions: "import_grants lib now client is_new gs d = Inr d' \<Longrightarrow> au_sessions d' = au_sessions d"
  by (induction lib now client is_new gs d rule: import_grants.induct) (auto simp: add_grant_def split: if_splits)

lemma import_client_sessions: "import_client lib now label i raw d = Inr d' \<Longrightarrow> au_sessions d' = au_sessions d"
  by (auto simp: import_client_def Let_def add_credential_def dest!: import_grants_sessions split: if_splits option.splits)

lemma import_clients_sessions: "import_clients lib now label cs d = Inr d' \<Longrightarrow> au_sessions d' = au_sessions d"
  by (induction lib now label cs d rule: import_clients.induct) (auto split: sum.splits dest: import_client_sessions)

lemma bootstrap_sessions:
  "bootstrap_legacy_clients lib now label content d = Inr d' \<Longrightarrow> au_sessions d' = au_sessions d"
  "au_sessions (bootstrap_xhs_result_grant sha now label d) = au_sessions d"
  by (auto simp: bootstrap_legacy_clients_def bootstrap_xhs_result_grant_def Let_def dest!: import_clients_sessions
      split: option.splits if_splits sum.splits)

lemma authenticate_sessions: "au_sessions (fst (authenticate_client sha now client secret audience d)) = au_sessions d"
  by (auto simp: authenticate_client_def split: option.splits)

lemma ended_put:
  assumes "ended now sid d" and "as_sid x = sid \<longrightarrow> ended_row now x" and "au_sessions d' = row_put as_sid x (au_sessions d)"
  shows "ended now sid d'"
  using assms set_row_put_other[of _ as_sid x "au_sessions d"] unfolding ended_def by metis

lemma validate_sessions:
  "au_sessions (fst (validate_user_session now cached sid jti admin d)) = au_sessions d \<or>
   (\<exists>s \<in> set (au_sessions d). au_sessions (fst (validate_user_session now cached sid jti admin d)) =
      row_put as_sid (s\<lparr>as_last_seen_at := Some now\<rparr>) (au_sessions d))"
  by (auto simp: validate_user_session_def find_Some_iff split: option.splits)

lemma ended_step:
  assumes "ended now sid d" and "\<not> signs_in sid e"
  shows "ended now sid (auth_step env e d)"
proof (cases e)
  case (Rotate t force legacy fresh)
  then show ?thesis
    using ensure_sessions[of "ae_store env" t force legacy fresh d] assms(1)
    by (auto simp: done_fst_def ended_def split: sum.splits)
next
  case (Login t s jti u p)
  then show ?thesis using assms
    by (auto simp: login_transaction_def create_user_session_def Let_def signs_in_def ended_def new_session_def split: option.splits)
next
  case (Change_password t h admin cur)
  then show ?thesis using assms(1)
    by (auto simp: done_fst_def password_transaction_def revoke_admin_sessions_in_transaction_def Let_def ended_def ended_row_def
        row_update_def revoked_def split: sum.splits option.splits if_splits)
next
  case (End_session t reason s)
  then show ?thesis
    using assms(1) by (auto simp: revoke_session_def ended_def ended_row_def row_put_def row_update_def revoked_def split: option.splits)
next
  case (End_sessions t reason admin)
  then show ?thesis
    using assms(1) by (auto simp: revoke_admin_sessions_in_transaction_def Let_def ended_def ended_row_def row_update_def revoked_def)
next
  case (Validate t cached s jti admin)
  from validate_sessions[of t cached s jti admin d] show ?thesis
  proof
    assume "au_sessions (fst (validate_user_session t cached s jti admin d)) = au_sessions d"
    then show ?thesis using assms(1) by (simp add: Validate ended_def)
  next
    assume "\<exists>x \<in> set (au_sessions d). au_sessions (fst (validate_user_session t cached s jti admin d)) =
      row_put as_sid (x\<lparr>as_last_seen_at := Some t\<rparr>) (au_sessions d)"
    then obtain x where x: "x \<in> set (au_sessions d)" "au_sessions (fst (validate_user_session t cached s jti admin d)) =
      row_put as_sid (x\<lparr>as_last_seen_at := Some t\<rparr>) (au_sessions d)" by blast
    show ?thesis
      by (rule ended_put[OF assms(1), of "x\<lparr>as_last_seen_at := Some t\<rparr>"])
        (use x assms(1) in \<open>auto simp: Validate ended_def ended_row_def\<close>)
  qed
next
  case (Clean t)
  then show ?thesis using ended_subset[OF assms(1)] by (auto simp: cleanup_expired_def)
qed (use assms(1) authenticate_sessions bootstrap_sessions in \<open>auto simp: done_or_def ended_def audit_def split: sum.splits\<close>)

lemma ended_run: "ended now sid d \<Longrightarrow> \<forall>e \<in> set es. \<not> signs_in sid e \<Longrightarrow> ended now sid (auth_run env es d)"
  by (induction es arbitrary: d) (simp_all add: ended_step)

lemma ended_invalid:
  assumes "ended now sid d" and "now \<le> later"
  shows "snd (validate_user_session later cached sid jti admin d) = None"
proof -
  have "find (session_valid later sid jti admin) (au_sessions d) = None"
    using assms by (auto simp: find_None_iff session_valid_def ended_def ended_row_def)
  then show ?thesis by (simp add: validate_user_session_def)
qed

lemma ended_token:
  assumes "ended now sid d" and "now \<le> later" and "decode_and_validate_user_token lib later cache token d = (d', Some (claims, a))"
  shows "py_str lib (jget claims ''sid'') \<noteq> sid"
proof
  assume "py_str lib (jget claims ''sid'') = sid"
  moreover from assms(3) obtain uid x where
    "validate_user_session later (cache (py_str lib (jget claims ''sid''))) (py_str lib (jget claims ''sid''))
       (py_str lib (jget claims ''jti'')) uid d = (d', Some x)"
    by (auto simp: decode_and_validate_user_token_def Let_def split: option.splits if_splits prod.splits)
  ultimately show False using ended_invalid[OF assms(1,2)] by (metis option.distinct(1) snd_conv)
qed

lemma revoke_ended:
  assumes "distinct (map as_sid (au_sessions d))" and "revoke_session now reason sid d = (d', x)"
  shows "ended now sid d'"
proof (cases "row_get as_sid sid (au_sessions d)")
  case None
  then have "sid \<notin> as_sid ` set (au_sessions d)" by simp
  with assms(2) None show ?thesis by (auto simp: revoke_session_def ended_def)
next
  case (Some s)
  have one: "y = s" if "y \<in> set (au_sessions d)" "as_sid y = sid" for y
    using row_get_unique[OF assms(1) that(1)] that(2) Some by simp
  show ?thesis
  proof (cases "as_revoked_at s = None")
    case False
    with assms(2) Some one show ?thesis by (auto simp: revoke_session_def ended_def ended_row_def)
  next
    case True
    then have d': "au_sessions d' = row_put as_sid (revoked now reason s) (au_sessions d)"
      using assms(2) Some by (auto simp: revoke_session_def)
    have "as_sid (revoked now reason s) = sid" using row_get_Some[OF Some] by (simp add: revoked_def)
    moreover have "ended_row now (revoked now reason s)" by (simp add: ended_row_def revoked_def)
    ultimately show ?thesis
      using set_row_put_other[of _ as_sid "revoked now reason s" "au_sessions d"] unfolding ended_def d' by metis
  qed
qed

lemma password_sessions:
  assumes "password_transaction env now h admin current d = Inr (d', gone)"
  shows "au_sessions d' = row_update (open_session now admin) (revoked now ''password_changed'') (au_sessions d)"
proof -
  from assms obtain a where "revoke_admin_sessions_in_transaction now ''password_changed'' admin
      (d\<lparr>au_admins := row_put ad_id (a\<lparr>ad_password_hash := h\<rparr>) (au_admins d)\<rparr>) = (d', gone)"
    unfolding password_transaction_def by (auto split: option.splits if_splits)
  then have "d' = fst (revoke_admin_sessions_in_transaction now ''password_changed'' admin
      (d\<lparr>au_admins := row_put ad_id (a\<lparr>ad_password_hash := h\<rparr>) (au_admins d)\<rparr>))" by simp
  then show ?thesis by (simp add: revoke_admin_sessions_in_transaction_def Let_def)
qed

lemma password_ended:
  assumes "password_transaction env now h admin current d = Inr (d', gone)"
  shows "\<forall>s \<in> set (au_sessions d'). as_admin_id s = admin \<longrightarrow> ended_row now s"
proof -
  have rows: "au_sessions d' = row_update (open_session now admin) (revoked now ''password_changed'') (au_sessions d)"
    by (rule password_sessions[OF assms])
  show ?thesis
  proof (intro ballI impI)
    fix s assume s: "s \<in> set (au_sessions d')" "as_admin_id s = admin"
    have "s \<in> (\<lambda>x. if open_session now admin x then revoked now ''password_changed'' x else x) ` set (au_sessions d)"
      using s(1) unfolding rows row_update_def set_map .
    then obtain x where x: "s = (if open_session now admin x then revoked now ''password_changed'' x else x)"
      by (elim imageE)
    show "ended_row now s"
    proof (cases "open_session now admin x")
      case True
      then show ?thesis by (simp add: x ended_row_def revoked_def)
    next
      case False
      then have "s = x" using x by (simp only: if_False)
      with s(2) False show ?thesis by (simp add: ended_row_def open_session_def not_less)
    qed
  qed
qed

lemma ending_ended:
  assumes "distinct (map as_sid (au_sessions d))"
    and "fst (revoke_session now reason sid d) = d1 \<or>
      (\<exists>env h admin current gone s. password_transaction env now h admin current d = Inr (d1, gone) \<and>
         s \<in> set (au_sessions d) \<and> as_admin_id s = admin \<and> as_sid s = sid)"
  shows "ended now sid d1"
  using assms(2)
proof
  assume "fst (revoke_session now reason sid d) = d1"
  then show ?thesis using revoke_ended[OF assms(1), of now reason sid] by (metis prod.collapse)
next
  assume "\<exists>env h admin current gone s. password_transaction env now h admin current d = Inr (d1, gone) \<and>
       s \<in> set (au_sessions d) \<and> as_admin_id s = admin \<and> as_sid s = sid"
  then obtain env h admin current gone s where p: "password_transaction env now h admin current d = Inr (d1, gone)"
    "s \<in> set (au_sessions d)" "as_admin_id s = admin" "as_sid s = sid" by blast
  have rows: "au_sessions d1 = row_update (open_session now admin) (revoked now ''password_changed'') (au_sessions d)"
    by (rule password_sessions[OF p(1)])
  have one: "x = s" if "x \<in> set (au_sessions d)" "as_sid x = sid" for x
    using that p(2,4) assms(1) by (auto simp: distinct_map inj_on_def)
  have "as_admin_id x = admin" if "x \<in> set (au_sessions d1)" "as_sid x = sid" for x
    using that one p(3) unfolding rows by (auto simp: row_update_def revoked_def split: if_splits)
  then show ?thesis using password_ended[OF p(1)] by (simp add: ended_def)
qed

lemma expired_ended: "\<forall>s \<in> set (au_sessions d). as_sid s = sid \<longrightarrow> as_expires_at s \<le> now \<Longrightarrow> ended now sid d"
  by (simp add: ended_def ended_row_def)

text \<open>
  C5: after a logout, after the expiry of the session, and for every session an administrator
  had at a change of the password, no token of the session is accepted again: whatever the
  transactions of all replicas do later, with or without Redis, and although expired rows and
  denials are deleted.
\<close>

theorem ended_sessions_rejected:
  assumes "distinct (map as_sid (au_sessions d))"
    and "fst (revoke_session now reason sid d) = d1 \<or>
      (\<exists>env h admin current gone s. password_transaction env now h admin current d = Inr (d1, gone) \<and>
         s \<in> set (au_sessions d) \<and> as_admin_id s = admin \<and> as_sid s = sid) \<or>
      (d1 = d \<and> (\<forall>s \<in> set (au_sessions d). as_sid s = sid \<longrightarrow> as_expires_at s \<le> now))"
    and "\<forall>e \<in> set es. \<not> signs_in sid e" and "now \<le> later"
    and "decode_and_validate_user_token lib later cache token (auth_run env es d1) = (d2, Some (claims, a))"
  shows "py_str lib (jget claims ''sid'') \<noteq> sid"
proof -
  have "ended now sid d1" using ending_ended[OF assms(1)] expired_ended assms(2) by blast
  from ended_token[OF ended_run[OF this assms(3)] assms(4,5)] show ?thesis .
qed

subsection \<open>Signing keys\<close>

definition event_time :: "auth_event \<Rightarrow> time option" where
  "event_time e = (case e of Rotate t force legacy fresh \<Rightarrow> Some t | Clean t \<Rightarrow> Some t | _ \<Rightarrow> None)"

definition covered :: "string \<Rightarrow> time \<Rightarrow> auth_db \<Rightarrow> bool" where
  "covered kid limit d \<longleftrightarrow>
     (\<exists>k \<in> set (au_keys d). key_kid k = kid \<and>
        (key_status k = ''active'' \<or> (key_status k = ''retired'' \<and> (\<exists>t. key_expires_at k = Some t \<and> limit \<le> t))))"

lemma add_key_keys: "add_key s now p d = Inr (d', m) \<Longrightarrow>
    (\<exists>c. au_keys d' = au_keys d @ [new_key now p c]) \<and> sg_kid m = kp_kid p \<and> kp_kid p \<notin> key_kid ` set (au_keys d)"
  by (auto simp: add_key_def split: sum.splits if_splits)

lemma covered_more: "covered kid limit d \<Longrightarrow> set (au_keys d) \<subseteq> set (au_keys d') \<Longrightarrow> covered kid limit d'"
  by (auto simp: covered_def)

lemma covered_retire:
  assumes "covered kid limit d" and "limit \<le> now + st_overlap s" and "au_keys d' = row_put key_kid (retired_key s now k) (au_keys d)"
  shows "covered kid limit d'"
proof -
  from assms(1) obtain x where x: "x \<in> set (au_keys d)" "key_kid x = kid"
    "key_status x = ''active'' \<or> (key_status x = ''retired'' \<and> (\<exists>t. key_expires_at x = Some t \<and> limit \<le> t))"
    by (auto simp: covered_def)
  show ?thesis
  proof (cases "kid = key_kid k")
    case True
    with x have "retired_key s now k \<in> set (au_keys d')"
      by (auto simp: assms(3) row_put_def row_update_def retired_key_def image_iff)
    then show ?thesis using True assms(2) unfolding covered_def
      by (intro bexI[of _ "retired_key s now k"]) (auto simp: retired_key_def)
  next
    case False
    with x have "x \<in> set (au_keys d')" by (auto simp: assms(3) row_put_def row_update_def retired_key_def image_iff)
    with x show ?thesis by (auto simp: covered_def)
  qed
qed

lemma covered_ensure:
  assumes "covered kid limit d" and "limit \<le> now + st_overlap s"
    and "ensure_active_signing_key s now force legacy fresh d = Inr (d', m)"
  shows "covered kid limit d'"
proof (cases "active_key d")
  case None
  with assms(3) have a: "add_key s now (case legacy of None \<Rightarrow> fresh | Some p \<Rightarrow> p) d = Inr (d', m)"
    by (simp add: ensure_active_signing_key_def)
  show ?thesis by (rule covered_more[OF assms(1)]) (use add_key_keys[OF a] in auto)
next
  case (Some k)
  let ?d = "d\<lparr>au_keys := row_put key_kid (retired_key s now k) (au_keys d)\<rparr>"
  from Some assms(3) consider "d' = d" | "add_key s now fresh ?d = Inr (d', m)"
    by (auto simp: ensure_active_signing_key_def split: sum.splits if_splits)
  then show ?thesis
  proof cases
    case 1
    then show ?thesis using assms(1) by simp
  next
    case 2
    have "covered kid limit ?d" by (rule covered_retire[OF assms(1,2), of _ k]) simp
    then show ?thesis by (rule covered_more) (use add_key_keys[OF 2] in auto)
  qed
qed

lemma import_grants_keys: "import_grants lib now client is_new gs d = Inr d' \<Longrightarrow> au_keys d' = au_keys d"
  by (induction lib now client is_new gs d rule: import_grants.induct) (auto simp: add_grant_def split: if_splits)

lemma import_client_keys: "import_client lib now label i raw d = Inr d' \<Longrightarrow> au_keys d' = au_keys d"
  by (auto simp: import_client_def Let_def add_credential_def dest!: import_grants_keys split: if_splits option.splits)

lemma import_clients_keys: "import_clients lib now label cs d = Inr d' \<Longrightarrow> au_keys d' = au_keys d"
  by (induction lib now label cs d rule: import_clients.induct) (auto split: sum.splits dest: import_client_keys)

lemma deny_all_keys [simp]: "au_keys (deny_all now reason ss d) = au_keys d"
  by (induction ss arbitrary: d) (simp_all add: deny_def)

text \<open>Only the rotation and the cleanup write the keys.\<close>

lemma other_keys: "event_time e = None \<Longrightarrow> au_keys (auth_step env e d) = au_keys d"
proof (cases e)
  case (Import t label content)
  then show ?thesis
    by (auto simp: done_or_def bootstrap_legacy_clients_def dest!: import_clients_keys split: sum.splits option.splits if_splits)
next
  case (Change_password t h admin cur)
  then show ?thesis
    by (auto simp: done_fst_def password_transaction_def revoke_admin_sessions_in_transaction_def Let_def split: sum.splits option.splits if_splits)
qed (auto simp: event_time_def login_transaction_def create_user_session_def revoke_session_def deny_def Let_def
    revoke_admin_sessions_in_transaction_def validate_user_session_def authenticate_client_def bootstrap_xhs_result_grant_def
    audit_def split: option.splits)

definition in_span :: "time \<Rightarrow> time \<Rightarrow> auth_event \<Rightarrow> bool" where
  "in_span a b e \<longleftrightarrow> (case event_time e of None \<Rightarrow> True | Some t \<Rightarrow> a \<le> t \<and> t \<le> b)"

lemma covered_step:
  assumes "covered kid (t0 + st_overlap (ae_store env)) d" and "in_span t0 t e" and "t < t0 + st_overlap (ae_store env)"
  shows "covered kid (t0 + st_overlap (ae_store env)) (auth_step env e d)"
proof (cases "event_time e")
  case None
  show ?thesis using covered_more[OF assms(1)] other_keys[OF None] by simp
next
  case (Some now)
  then have now: "t0 \<le> now" "now \<le> t" using assms(2) by (simp_all add: in_span_def)
  from Some consider force legacy fresh where "e = Rotate now force legacy fresh" | "e = Clean now"
    by (auto simp: event_time_def split: auth_event.splits)
  then show ?thesis
  proof cases
    case 1
    have "t0 + st_overlap (ae_store env) \<le> now + st_overlap (ae_store env)" using now by simp
    note c = covered_ensure[OF assms(1) this]
    show ?thesis
    proof (cases "ensure_active_signing_key (ae_store env) now force legacy fresh d")
      case (Inl x)
      then show ?thesis using assms(1) 1 by (simp add: done_fst_def)
    next
      case (Inr x)
      then show ?thesis using c 1 by (cases x) (simp add: done_fst_def)
    qed
  next
    case 2
    from assms(1) obtain k where k: "k \<in> set (au_keys d)" "key_kid k = kid"
      "key_status k = ''active'' \<or> (key_status k = ''retired'' \<and> (\<exists>x. key_expires_at k = Some x \<and> t0 + st_overlap (ae_store env) \<le> x))"
      by (auto simp: covered_def)
    then have "\<not> (key_status k = ''retired'' \<and> (case key_expires_at k of None \<Rightarrow> False | Some x \<Rightarrow> x \<le> now))"
      using now assms(3) by auto
    with k(1) have "k \<in> set (au_keys (cleanup_expired now d))"
      by (auto simp: cleanup_expired_def row_update_def image_iff intro!: bexI[of _ k])
    with k 2 show ?thesis by (auto simp: covered_def)
  qed
qed

lemma covered_run:
  assumes "covered kid (t0 + st_overlap (ae_store env)) d" and "\<forall>e \<in> set es. in_span t0 t e" and "t < t0 + st_overlap (ae_store env)"
  shows "covered kid (t0 + st_overlap (ae_store env)) (auth_run env es d)"
  using assms(1,2)
proof (induction es arbitrary: d)
  case Nil
  then show ?case by simp
next
  case (Cons e es)
  have "covered kid (t0 + st_overlap (ae_store env)) (auth_step env e d)"
    by (rule covered_step[OF Cons.prems(1) _ assms(3)]) (use Cons.prems(2) in simp)
  with Cons.IH Cons.prems(2) show ?case by simp
qed

lemma covered_published: "covered kid limit d \<Longrightarrow> now < limit \<Longrightarrow> kid \<in> fst ` set (jwks now d)"
  by (force simp: covered_def jwks_def key_published_def image_iff)

lemma active_key_Some: "active_key d = Some k \<Longrightarrow> k \<in> set (au_keys d) \<and> key_status k = ''active''"
proof -
  assume "active_key d = Some k"
  then obtain ks where "sort_key (\<lambda>k. - key_created_at k) (filter (\<lambda>k. key_status k = ''active'') (au_keys d)) = k # ks"
    by (auto simp: active_key_def split: list.splits)
  then have "k \<in> set (sort_key (\<lambda>k. - key_created_at k) (filter (\<lambda>k. key_status k = ''active'') (au_keys d)))"
    by (metis list.set_intros(1))
  then show ?thesis by (simp only: set_sort set_filter) simp
qed

lemma material_kid: "material s k = Inr m \<Longrightarrow> sg_kid m = key_kid k"
  by (auto simp: material_def split: sum.splits)

lemma ensure_active:
  assumes "ensure_active_signing_key s now force legacy fresh d = Inr (d', m)"
  shows "\<exists>k \<in> set (au_keys d'). key_kid k = sg_kid m \<and> key_status k = ''active''"
proof -
  have add: "\<exists>k \<in> set (au_keys d'). key_kid k = sg_kid m \<and> key_status k = ''active''" if "add_key s now p x = Inr (d', m)" for p x
    using add_key_keys[OF that] by (auto simp: new_key_def)
  show ?thesis
    using assms add active_key_Some[of d] material_kid[of s]
    by (auto simp: ensure_active_signing_key_def split: option.splits sum.splits if_splits)
qed

lemma signing_active:
  assumes "active_signing_material s now gap later legacy fresh d = Inr (d', m)"
  shows "covered (sg_kid m) limit d'"
proof (cases "find (\<lambda>k. key_status k = ''active'') (au_keys d)")
  case None
  with assms have "ensure_active_signing_key s later False legacy fresh (gap d) = Inr (d', m)"
    by (simp add: active_signing_material_def)
  from ensure_active[OF this] show ?thesis by (auto simp: covered_def)
next
  case (Some k)
  then have k: "k \<in> set (au_keys d)" "key_status k = ''active''" by (auto simp: find_Some_iff)
  from Some assms consider "d' = d" "material s k = Inr m" | "ensure_active_signing_key s later False legacy fresh (gap d) = Inr (d', m)"
    by (auto simp: active_signing_material_def split: if_splits sum.splits)
  then show ?thesis
    by cases (use k material_kid ensure_active in \<open>force simp: covered_def\<close>)+
qed

text \<open>
  C8: the public key of a token is published until the token expires: a key that was read
  for signing at \<open>t0\<close>, and signs within ten minutes, stays in the key set for the whole life
  of the token, however often replicas rotate and clean up in between.
\<close>

theorem signing_key_outlives_tokens:
  assumes "make_store c secret rotation_days overlap_days (Some (minimum_overlap jwt_minutes service_seconds)) = Inr (ae_store env)"
    and "active_signing_material (ae_store env) now gap later legacy fresh d = Inr (d1, m)"
    and "\<forall>e \<in> set es. in_span t0 t e"
    and "issued \<le> t0 + secs 600"
    and "t < issued + max (secs (60 * jwt_minutes)) (secs service_seconds)"
  shows "sg_kid m \<in> fst ` set (jwks t (auth_run env es d1))"
proof -
  have "minimum_overlap jwt_minutes service_seconds \<le> st_overlap (ae_store env)"
    using assms(1) by (auto simp: make_store_def split: sum.splits dest!: sym[of _ "ae_store env"])
  then have t: "t < t0 + st_overlap (ae_store env)" using assms(4,5) by (simp add: minimum_overlap_def)
  show ?thesis
    by (rule covered_published[OF covered_run[OF signing_active[OF assms(2)] assms(3) t] t])
qed

text \<open>One key signs.\<close>

definition keys_ok :: "auth_db \<Rightarrow> bool" where
  "keys_ok d \<longleftrightarrow> distinct (map key_kid (au_keys d)) \<and> length (filter (\<lambda>k. key_status k = ''active'') (au_keys d)) \<le> 1 \<and>
     (\<forall>k \<in> set (au_keys d). key_status k \<in> {''active'', ''retired'', ''revoked''})"

lemma keys_add:
  assumes "keys_ok d" and "filter (\<lambda>k. key_status k = ''active'') (au_keys d) = []" and "add_key s now p d = Inr (d', m)"
  shows "keys_ok d'"
  using assms(1,2) add_key_keys[OF assms(3)] by (auto simp: keys_ok_def new_key_def)

lemma filter_one: "length (filter P xs) \<le> 1 \<Longrightarrow> x \<in> set xs \<Longrightarrow> P x \<Longrightarrow> y \<in> set xs \<Longrightarrow> P y \<Longrightarrow> x = y"
proof -
  have one: "x \<in> set ys \<Longrightarrow> y \<in> set ys \<Longrightarrow> length ys \<le> 1 \<Longrightarrow> x = y" for ys by (cases ys) auto
  show "length (filter P xs) \<le> 1 \<Longrightarrow> x \<in> set xs \<Longrightarrow> P x \<Longrightarrow> y \<in> set xs \<Longrightarrow> P y \<Longrightarrow> x = y"
    using one[of "filter P xs"] by simp
qed

lemma filter_update: "(\<And>x. Q x \<Longrightarrow> \<not> P x \<and> \<not> P (f x)) \<Longrightarrow> filter P (row_update Q f xs) = filter P xs"
  by (induction xs) (auto simp: row_update_def)

lemma retire_none:
  assumes "keys_ok d" and "active_key d = Some k"
  shows "filter (\<lambda>k. key_status k = ''active'') (row_put key_kid (retired_key s now k) (au_keys d)) = []"
proof -
  note k = active_key_Some[OF assms(2)]
  have "x = k" if "x \<in> set (au_keys d)" "key_status x = ''active''" for x
    using filter_one[of "\<lambda>k. key_status k = ''active''" "au_keys d" x k] that k assms(1) by (simp add: keys_ok_def)
  then show ?thesis
    by (auto simp: filter_empty_conv row_put_def row_update_def retired_key_def)
qed

lemma active_key_None: "active_key d = None \<Longrightarrow> filter (\<lambda>k. key_status k = ''active'') (au_keys d) = []"
proof -
  let ?F = "filter (\<lambda>k. key_status k = ''active'') (au_keys d)"
  assume "active_key d = None"
  then have "sort_key (\<lambda>k. - key_created_at k) ?F = []" unfolding active_key_def by (auto split: list.splits)
  then have "length ?F = 0" using length_sort[of "\<lambda>k. - key_created_at k" ?F] by (simp only: list.size)
  then show ?thesis by (simp only: length_0_conv)
qed

lemma keys_retire: "keys_ok d \<Longrightarrow> active_key d = Some k \<Longrightarrow> keys_ok (d\<lparr>au_keys := row_put key_kid (retired_key s now k) (au_keys d)\<rparr>)"
  using retire_none[of d k s now] set_row_put[of key_kid "retired_key s now k" "au_keys d"]
  by (auto simp: keys_ok_def retired_key_def)

lemma keys_step: "keys_ok d \<Longrightarrow> keys_ok (auth_step env e d)"
proof (cases "event_time e")
  case None
  then show "keys_ok d \<Longrightarrow> ?thesis" using other_keys[OF None, of env d] by (simp add: keys_ok_def)
next
  case (Some now)
  assume ok: "keys_ok d"
  from Some consider force legacy fresh where "e = Rotate now force legacy fresh" | "e = Clean now"
    by (auto simp: event_time_def split: auth_event.splits)
  then show ?thesis
  proof cases
    case 1
    show ?thesis
    proof (cases "ensure_active_signing_key (ae_store env) now force legacy fresh d")
      case (Inl x)
      then show ?thesis using ok 1 by (simp add: done_fst_def)
    next
      case (Inr x)
      obtain d' m where x: "x = (d', m)" by (cases x)
      have "keys_ok d'"
      proof (cases "active_key d")
        case None
        then have e: "filter (\<lambda>k. key_status k = ''active'') (au_keys d) = []" by (rule active_key_None)
        show ?thesis using Inr None keys_add[OF ok e] by (simp add: ensure_active_signing_key_def x)
      next
        case (Some k)
        let ?d = "d\<lparr>au_keys := row_put key_kid (retired_key (ae_store env) now k) (au_keys d)\<rparr>"
        from Some Inr have "d' = d \<or> add_key (ae_store env) now fresh ?d = Inr (d', m)"
          by (auto simp: ensure_active_signing_key_def x split: sum.splits if_splits)
        then show ?thesis
          using ok keys_add[OF keys_retire[OF ok Some] _, of "ae_store env" now] retire_none[OF ok Some] by auto
      qed
      then show ?thesis using 1 Inr x by (simp add: done_fst_def)
    qed
  next
    case 2
    have "map key_kid (au_keys (cleanup_expired now d)) = map key_kid (au_keys d)"
      by (auto simp: cleanup_expired_def row_update_def)
    moreover have "filter (\<lambda>k. key_status k = ''active'') (au_keys (cleanup_expired now d)) = filter (\<lambda>k. key_status k = ''active'') (au_keys d)"
      by (simp add: cleanup_expired_def) (rule filter_update, simp)
    moreover have "\<forall>k \<in> set (au_keys (cleanup_expired now d)). key_status k \<in> {''active'', ''retired'', ''revoked''}"
      using ok by (auto simp: cleanup_expired_def row_update_def keys_ok_def)
    ultimately show ?thesis using ok 2 by (simp add: keys_ok_def)
  qed
qed

lemma keys_run: "keys_ok d \<Longrightarrow> keys_ok (auth_run env es d)"
  by (induction es arbitrary: d) (simp_all add: keys_step)

text \<open>
  replicas never sign with different keys: after any transactions of any replicas at
  most one key is active, identifiers of keys are not reused, and every key is active,
  retired or revoked.
\<close>

theorem one_signing_key:
  "keys_ok (auth_run env es empty_auth_db) \<and>
   length (filter (\<lambda>k. key_status k = ''active'') (au_keys (auth_run env es empty_auth_db))) \<le> 1"
  using keys_run[of empty_auth_db env es] by (simp add: keys_ok_def empty_auth_db_def)

subsection \<open>Rate limits\<close>

text \<open>
  The use of the counters by all replicas: a request that counts on a key, with Redis up or down,
  and the deletion of a counter, which a successful login does. \<open>passes\<close> is the number of
  requests of one key that pass.
\<close>

datatype counter_use = Count bool time string | Reset string

fun passes :: "string \<Rightarrow> int \<Rightarrow> int \<Rightarrow> counter_use list \<Rightarrow> counters \<Rightarrow> nat" where
  "passes k limit window [] cs = 0"
| "passes k limit window (Count up t j # uses) cs =
     (case record_attempt up t j limit window cs of
        (cs', r) \<Rightarrow> (if j = k \<and> r = None then 1 else 0) + passes k limit window uses cs')"
| "passes k limit window (Reset j # uses) cs = passes k limit window uses (cs(j := None))"

definition within_window :: "time \<Rightarrow> int \<Rightarrow> counter_use \<Rightarrow> bool" where
  "within_window t0 window u \<longleftrightarrow> (case u of Count up t j \<Rightarrow> t0 \<le> t \<and> t < t0 + secs window | Reset j \<Rightarrow> True)"

text \<open>The counter of a key, for a window that began at \<open>t0\<close>: dead, or alive to its end.\<close>

definition left_over :: "time \<Rightarrow> int \<Rightarrow> string \<Rightarrow> int \<Rightarrow> counters \<Rightarrow> nat" where
  "left_over t0 window k limit cs =
     (case live_counter t0 k cs of None \<Rightarrow> nat (limit - 1) | Some (n, until) \<Rightarrow> nat (limit - 1 - n))"

definition whole_window :: "time \<Rightarrow> int \<Rightarrow> string \<Rightarrow> counters \<Rightarrow> bool" where
  "whole_window t0 window k cs \<longleftrightarrow> (case live_counter t0 k cs of None \<Rightarrow> True | Some (n, until) \<Rightarrow> t0 + secs window \<le> until)"

lemma count_one:
  assumes "whole_window t0 window k cs" and "within_window t0 window (Count True t k)"
    and "record_attempt True t k limit window cs = (cs', r)"
  shows "whole_window t0 window k cs' \<and> (if r = None then 1 else 0) + left_over t0 window k limit cs' \<le> left_over t0 window k limit cs"
proof (cases "live_counter t0 k cs")
  case None
  have t: "t0 \<le> t" "t < t0 + secs window" using assms(2) by (simp_all add: within_window_def)
  have "live_counter t k cs = None" using None t(1) by (auto simp: live_counter_def split: option.splits if_splits)
  then have e: "cs' = cs(k \<mapsto> (1, t + secs window))" "r = None \<longleftrightarrow> 1 < limit"
    using assms(3) by (auto simp: record_attempt_def counted_def Let_def split: if_splits)
  have "live_counter t0 k cs' = Some (1, t + secs window)" using t by (simp add: e live_counter_def)
  moreover have "Suc (nat (limit - 2)) \<le> nat (limit - 1)" if "1 < limit" using that by arith
  ultimately show ?thesis using None t e(2) by (auto simp: whole_window_def left_over_def)
next
  case (Some p)
  then obtain n until where p: "live_counter t0 k cs = Some (n, until)" by (cases p) simp
  have u: "t0 + secs window \<le> until" using assms(1) p by (simp add: whole_window_def)
  have t: "t0 \<le> t" "t < t0 + secs window" using assms(2) by (simp_all add: within_window_def)
  have key: "cs k = Some (n, until)" using p by (auto simp: live_counter_def split: option.splits if_splits)
  then have e: "cs' = cs(k \<mapsto> (n + 1, until))" "r = None \<longleftrightarrow> n + 1 < limit"
    using assms(3) t u by (auto simp: record_attempt_def counted_def live_counter_def Let_def split: if_splits)
  have "live_counter t0 k cs' = Some (n + 1, until)" using t u by (simp add: e live_counter_def)
  moreover have "Suc (nat (limit - 1 - (n + 1))) \<le> nat (limit - 1 - n)" if "n + 1 < limit" using that by arith
  ultimately show ?thesis using p u e(2) by (auto simp: whole_window_def left_over_def)
qed

lemma passes_bound:
  assumes "whole_window t0 window k cs" and "\<forall>u \<in> set uses. within_window t0 window u"
  shows "passes k limit window uses cs \<le> left_over t0 window k limit cs + length (filter (\<lambda>u. u = Reset k) uses) * nat (limit - 1)"
  using assms
proof (induction uses arbitrary: cs)
  case (Cons u uses)
  show ?case
  proof (cases u)
    case (Count up t j)
    obtain cs' r where e: "record_attempt up t j limit window cs = (cs', r)" by fastforce
    show ?thesis
    proof (cases "up \<and> j = k")
      case True
      from count_one[of t0 window k cs t limit cs' r] Cons.prems Count e True
      have "whole_window t0 window k cs'" "(if r = None then 1 else 0) + left_over t0 window k limit cs' \<le> left_over t0 window k limit cs"
        by auto
      moreover have "passes k limit window (u # uses) cs = (if r = None then 1 else 0) + passes k limit window uses cs'"
        using True e by (simp add: Count)
      ultimately show ?thesis using Cons.IH[of cs'] Cons.prems(2) by (simp only: Count filter.simps counter_use.distinct if_False) auto
    next
      case False
      then have "cs' k = cs k" "j = k \<Longrightarrow> r \<noteq> None"
        using e by (auto simp: record_attempt_def Let_def split: if_splits)
      then have "whole_window t0 window k cs' = whole_window t0 window k cs" "left_over t0 window k limit cs' = left_over t0 window k limit cs"
          "j = k \<Longrightarrow> r \<noteq> None"
        by (simp_all add: whole_window_def left_over_def live_counter_def)
      with Cons.IH[of cs'] Cons.prems show ?thesis by (auto simp: Count e)
    qed
  next
    case (Reset j)
    show ?thesis
    proof (cases "j = k")
      case True
      have "live_counter t0 k (cs(k := None)) = None" by (simp add: live_counter_def)
      then have w: "whole_window t0 window k (cs(k := None))" "left_over t0 window k limit (cs(k := None)) = nat (limit - 1)"
        by (simp_all add: whole_window_def left_over_def)
      have "passes k limit window uses (cs(k := None)) \<le>
          nat (limit - 1) + length (filter (\<lambda>u. u = Reset k) uses) * nat (limit - 1)"
        using Cons.IH[OF w(1)] Cons.prems(2) unfolding w(2) by fastforce
      then show ?thesis by (simp add: Reset True)
    next
      case False
      have "live_counter t0 k (cs(j := None)) = live_counter t0 k cs" using False by (simp add: live_counter_def)
      then have w: "whole_window t0 window k (cs(j := None))" "left_over t0 window k limit (cs(j := None)) = left_over t0 window k limit cs"
        using Cons.prems(1) unfolding whole_window_def left_over_def by (simp_all only:)
      have "passes k limit window uses (cs(j := None)) \<le>
          left_over t0 window k limit cs + length (filter (\<lambda>u. u = Reset k) uses) * nat (limit - 1)"
        using Cons.IH[OF w(1)] Cons.prems(2) unfolding w(2) by fastforce
      then show ?thesis using False by (simp add: Reset)
    qed
  qed
qed simp

text \<open>
  C30: all replicas together let fewer requests of an identity pass in a window than the
  configured limit, and as many again for every successful login that clears its counter meanwhile,
  whatever other identities do and however Redis fails in between.
\<close>

theorem rate_limit_holds:
  assumes "live_counter t0 k cs = None" and "\<forall>u \<in> set uses. within_window t0 window u"
  shows "passes k limit window uses cs \<le> (1 + length (filter (\<lambda>u. u = Reset k) uses)) * nat (limit - 1)"
  using passes_bound[OF _ assms(2), of k cs limit] assms(1) by (simp add: whole_window_def left_over_def)

text \<open>A limit of one, which the settings accept, lets nothing pass.\<close>

lemma limit_one_blocks: "snd (record_attempt True now k 1 window cs) \<noteq> None \<or> (\<exists>n until. live_counter now k cs = Some (n, until) \<and> n < 0)"
  by (auto simp: record_attempt_def counted_def Let_def split: option.splits prod.splits)

subsection \<open>Imports\<close>

definition grants_of :: "string \<Rightarrow> auth_db \<Rightarrow> auth_grant list" where
  "grants_of c d = filter (\<lambda>g. gr_client_id g = c) (au_grants d)"

lemma import_grants_effect:
  "import_grants lib now client is_new gs d = Inr d' \<Longrightarrow>
    au_clients d' = au_clients d \<and> au_bootstraps d' = au_bootstraps d \<and>
    (c \<noteq> client \<or> \<not> is_new \<longrightarrow> grants_of c d' = grants_of c d)"
proof (induction lib now client is_new gs d rule: import_grants.induct)
  case (1 lib now client is_new d)
  then show ?case by simp
next
  case (2 lib now client is_new audience scopes gs d)
  let ?d = "if is_new then add_grant now client (strip audience) (scope_text lib scopes) d else d"
  from "2.prems" have ok: "\<not> (strip audience = [] \<or> scope_text lib scopes = [])"
    and run: "import_grants lib now client is_new gs ?d = Inr d'" by (auto split: if_splits)
  have "au_clients ?d = au_clients d \<and> au_bootstraps ?d = au_bootstraps d \<and> (c \<noteq> client \<or> \<not> is_new \<longrightarrow> grants_of c ?d = grants_of c d)"
    by (auto simp: add_grant_def grants_of_def new_grant_def)
  with "2.IH"[OF ok run] show ?case by auto
qed

lemma import_client_effect:
  assumes "import_client lib now label i raw d = Inr d'" and "client_of c d \<noteq> None"
  shows "grants_of c d' = grants_of c d \<and> client_of c d' \<noteq> None \<and> au_bootstraps d' = au_bootstraps d"
proof -
  let ?client = "strip i"
  let ?d1 = "if client_of ?client d = None then d\<lparr>au_clients := au_clients d @ [new_client now ?client]\<rparr> else d"
  from assms(1) obtain dig gs where
    run: "import_grants lib now ?client (client_of ?client d = None) gs (add_credential now ?client dig label ?d1) = Inr d'"
    by (auto simp: import_client_def Let_def split: if_splits option.splits)
  have same: "grants_of c (add_credential now ?client dig label ?d1) = grants_of c d"
    "au_bootstraps (add_credential now ?client dig label ?d1) = au_bootstraps d"
    "au_clients (add_credential now ?client dig label ?d1) = au_clients ?d1"
    by (simp_all add: add_credential_def grants_of_def)
  have "client_of c ?d1 \<noteq> None" using assms(2) by (auto simp: client_of_def row_get_def find_append split: option.splits)
  moreover have "c \<noteq> ?client \<or> \<not> (client_of ?client d = None)" using assms(2) by auto
  ultimately show ?thesis using import_grants_effect[OF run, of c] same by (simp add: client_of_def)
qed

lemma import_clients_effect:
  "import_clients lib now label cs d = Inr d' \<Longrightarrow> client_of c d \<noteq> None \<Longrightarrow>
    grants_of c d' = grants_of c d \<and> au_bootstraps d' = au_bootstraps d"
proof (induction lib now label cs d rule: import_clients.induct)
  case (1 lib now label d)
  then show ?case by simp
next
  case (2 lib now label i raw cs d)
  from "2.prems"(1) obtain d1 where one: "import_client lib now label i raw d = Inr d1"
    and rest: "import_clients lib now label cs d1 = Inr d'" by (auto split: sum.splits)
  note e = import_client_effect[OF one "2.prems"(2)]
  show ?case using "2.IH"[OF one rest] e by simp
qed

text \<open>
  what an operator granted or took away stays so: the import of a legacy file never
  changes the grants of a service that is already known, and neither the same file nor the
  upgrade of the XHS grant has any effect once it was considered, whatever was revoked
  since.
\<close>

theorem imports_respect_operator:
  assumes "bootstrap_legacy_clients lib now label (Some (source, raw)) d = Inr d'" and "client_of c d \<noteq> None"
  shows "grants_of c d' = grants_of c d \<and>
    bootstrap_legacy_clients lib later label2 (Some (source, raw2)) (d2\<lparr>au_bootstraps := au_bootstraps d' @ bs\<rparr>) =
      Inr (d2\<lparr>au_bootstraps := au_bootstraps d' @ bs\<rparr>) \<and>
    (client_of ''xhs-worker'' d' \<noteq> None \<longrightarrow>
       bootstrap_xhs_result_grant sha later label2
         (d2\<lparr>au_bootstraps := au_bootstraps (bootstrap_xhs_result_grant sha now label d') @ bs\<rparr>) =
       d2\<lparr>au_bootstraps := au_bootstraps (bootstrap_xhs_result_grant sha now label d') @ bs\<rparr>)"
proof (intro conjI impI)
  show "grants_of c d' = grants_of c d"
    using assms import_clients_effect[of lib now label _ d _ c]
    by (auto simp: bootstrap_legacy_clients_def grants_of_def split: if_splits option.splits sum.splits)
  have mark: "marker_of ''legacy-clients-v1'' source d' \<noteq> None"
    using assms(1)
    by (auto simp: bootstrap_legacy_clients_def marker_of_def new_marker_def find_append split: if_splits option.splits sum.splits)
  then have "marker_of ''legacy-clients-v1'' source (d2\<lparr>au_bootstraps := au_bootstraps d' @ bs\<rparr>) \<noteq> None"
    by (auto simp: marker_of_def find_append split: option.splits)
  then show "bootstrap_legacy_clients lib later label2 (Some (source, raw2)) (d2\<lparr>au_bootstraps := au_bootstraps d' @ bs\<rparr>) =
      Inr (d2\<lparr>au_bootstraps := au_bootstraps d' @ bs\<rparr>)"
    by (simp add: bootstrap_legacy_clients_def)
  let ?x = "bootstrap_xhs_result_grant sha now label d'"
  assume "client_of ''xhs-worker'' d' \<noteq> None"
  then have "marker_of ''xhs-result-grant-v1'' (sha ''xhs-worker:backend:xhs:result:v1'') ?x \<noteq> None"
    by (auto simp: bootstrap_xhs_result_grant_def Let_def marker_of_def new_marker_def find_append split: option.splits)
  then have "marker_of ''xhs-result-grant-v1'' (sha ''xhs-worker:backend:xhs:result:v1'') (d2\<lparr>au_bootstraps := au_bootstraps ?x @ bs\<rparr>) \<noteq> None"
    by (auto simp: marker_of_def find_append split: option.splits)
  then show "bootstrap_xhs_result_grant sha later label2 (d2\<lparr>au_bootstraps := au_bootstraps ?x @ bs\<rparr>) =
      d2\<lparr>au_bootstraps := au_bootstraps ?x @ bs\<rparr>"
    by (simp add: bootstrap_xhs_result_grant_def Let_def)
qed

subsection \<open>Witnesses\<close>

definition sample_lib :: token_lib where
  "sample_lib = \<lparr>unverified_kid = (\<lambda>t. Some ''k1''),
     decode_token = (\<lambda>now t pem aud. Some (JObj [(''type'', JStr ''user''), (''kid'', JStr ''k1''), (''scope'', JStr ''admin''),
       (''uid'', JInt 1), (''sid'', JStr t), (''jti'', JStr t)])),
     py_str = (\<lambda>v. case v of JStr s \<Rightarrow> s | _ \<Rightarrow> []), py_int = (\<lambda>v. case v of JInt i \<Rightarrow> Some i | _ \<Rightarrow> None)\<rparr>"

definition sample_store :: auth_store where
  "sample_store = \<lparr>st_cipher = sample_aead, st_master_secret = sample_kek, st_rotation_after = days 30,
     st_overlap = max (days 7) (minimum_overlap 60 120)\<rparr>"

definition sample_pair :: "string \<Rightarrow> key_pair" where
  "sample_pair kid = \<lparr>kp_kid = kid, kp_private_pem = ''private'', kp_public_pem = ''public'', kp_nonce = replicate 12 0\<rparr>"

definition sample_auth_env :: auth_env where
  "sample_auth_env = \<lparr>ae_store = sample_store, ae_sha = (\<lambda>s. s), ae_lib = sample_lib, ae_sign = (\<lambda>c k i. i),
     ae_verify = (\<lambda>p h. p = h), ae_dummy_hash = ''x'', ae_rate_limit = 120, ae_rate_window = 60, ae_login_limit = 5,
     ae_login_window = 60, ae_token_lifetime = 120, ae_user_lifetime = secs 3600, ae_legacy = None\<rparr>"

definition sample_admin :: admin where
  "sample_admin = \<lparr>ad_id = 1, ad_username = ''root'', ad_password_hash = ''pw'', ad_is_active = True, ad_last_login_at = None,
     ad_created_at = 0, ad_updated_at = 0\<rparr>"

definition sample_auth_db :: auth_db where
  "sample_auth_db = empty_auth_db\<lparr>au_admins := [sample_admin],
     au_clients := [new_client 0 ''svc''], au_keys := [new_key 0 (sample_pair ''k1'') ''c''],
     au_sessions := [new_session 0 1000 ''s1'' ''s1'' 1, new_session 0 1000 ''s2'' ''s2'' 1]\<rparr>"

lemmas sample_auth_simps = sample_lib_def sample_auth_db_def sample_admin_def empty_auth_db_def new_session_def new_key_def
  sample_pair_def new_client_def row_get_def row_put_def row_update_def

lemma ended_sessions_rejected_witness:
  "\<exists>d2 claims a. decode_and_validate_user_token sample_lib 10 (\<lambda>_. None) ''s2''
      (auth_run sample_auth_env [Clean 5] (fst (revoke_session 4 ''logout'' ''s1'' sample_auth_db))) = (d2, Some (claims, a)) \<and>
    py_str sample_lib (jget claims ''sid'') \<noteq> ''s1''"
proof -
  let ?d = "auth_run sample_auth_env [Clean 5] (fst (revoke_session 4 ''logout'' ''s1'' sample_auth_db))"
  have "\<exists>d2 claims a. decode_and_validate_user_token sample_lib 10 (\<lambda>_. None) ''s2'' ?d = (d2, Some (claims, a))"
    by (simp add: sample_auth_simps revoke_session_def revoked_def deny_def revocation_def cleanup_expired_def
        decode_and_validate_user_token_def key_usable_def claims_ok_def words_def is_space_def code_def validate_user_session_def
        session_valid_def Let_def)
  then obtain d2 claims a where t: "decode_and_validate_user_token sample_lib 10 (\<lambda>_. None) ''s2'' ?d = (d2, Some (claims, a))" by blast
  have "distinct (map as_sid (au_sessions sample_auth_db))" by (simp add: sample_auth_simps)
  moreover have "\<forall>e \<in> set [Clean 5]. \<not> signs_in ''s1'' e" by (simp add: signs_in_def)
  ultimately have "py_str sample_lib (jget claims ''sid'') \<noteq> ''s1''"
    by (intro ended_sessions_rejected[of sample_auth_db 4 "''logout''" "''s1''" _ "[Clean 5]" 10 sample_lib _ "''s2''" sample_auth_env d2 claims a])
      (use t in auto)
  with t show ?thesis by blast
qed

lemma signing_key_outlives_tokens_witness:
  "\<exists>d1 m. active_signing_material sample_store 0 (\<lambda>d. d) 0 None (sample_pair ''k1'') empty_auth_db = Inr (d1, m) \<and>
     sg_kid m \<in> fst ` set (jwks (secs 700) (auth_run sample_auth_env [Rotate 1 True None (sample_pair ''k2''), Clean 5] d1))"
proof -
  obtain d1 m where m: "active_signing_material sample_store 0 (\<lambda>d. d) 0 None (sample_pair ''k1'') empty_auth_db = Inr (d1, m)"
    by (auto simp: active_signing_material_def ensure_active_signing_key_def active_key_def empty_auth_db_def add_key_def
        encrypt_private_key_def key_encryption_key_def sample_store_def sample_kek_def sample_pair_def)
  have s: "make_store sample_aead sample_kek 30 7 (Some (minimum_overlap 60 120)) = Inr (ae_store sample_auth_env)"
    by (simp add: make_store_def key_encryption_key_def sample_kek_def sample_auth_env_def sample_store_def)
  have e: "ae_store sample_auth_env = sample_store" by (simp add: sample_auth_env_def)
  have "sg_kid m \<in> fst ` set (jwks (secs 700) (auth_run sample_auth_env [Rotate 1 True None (sample_pair ''k2''), Clean 5] d1))"
    by (rule signing_key_outlives_tokens[OF s, of 0 "\<lambda>d. d" 0 None "sample_pair ''k1''" empty_auth_db d1 m _ 0 _ "secs 600"])
      (use m e in \<open>simp_all add: in_span_def event_time_def secs_def\<close>)
  with m show ?thesis by blast
qed

lemma rate_limit_holds_witness:
  "passes ''k'' 3 60 [Count True 0 ''k'', Count True 1 ''k'', Count False 2 ''k'', Count True 3 ''k'', Count True 4 ''other'',
     Reset ''k'', Count True 5 ''k'', Count True 6 ''k'', Count True 7 ''k''] (\<lambda>_. None) = 4 \<and>
   passes ''k'' 3 60 [Count True 0 ''k'', Count True 1 ''k'', Count False 2 ''k'', Count True 3 ''k'', Count True 4 ''other'',
     Reset ''k'', Count True 5 ''k'', Count True 6 ''k'', Count True 7 ''k''] (\<lambda>_. None) \<le> (1 + 1) * nat (3 - 1)"
proof
  show "passes ''k'' 3 60 [Count True 0 ''k'', Count True 1 ''k'', Count False 2 ''k'', Count True 3 ''k'', Count True 4 ''other'',
     Reset ''k'', Count True 5 ''k'', Count True 6 ''k'', Count True 7 ''k''] (\<lambda>_. None) = 4"
    by (simp add: record_attempt_def counted_def live_counter_def secs_def Let_def)
  show "passes ''k'' 3 60 [Count True 0 ''k'', Count True 1 ''k'', Count False 2 ''k'', Count True 3 ''k'', Count True 4 ''other'',
     Reset ''k'', Count True 5 ''k'', Count True 6 ''k'', Count True 7 ''k''] (\<lambda>_. None) \<le> (1 + 1) * nat (3 - 1)"
    using rate_limit_holds[of 0 "''k''" "\<lambda>_. None" "[Count True 0 ''k'', Count True 1 ''k'', Count False 2 ''k'', Count True 3 ''k'',
        Count True 4 ''other'', Reset ''k'', Count True 5 ''k'', Count True 6 ''k'', Count True 7 ''k'']" 60 3]
    by (simp add: live_counter_def within_window_def secs_def del: passes.simps)
qed

definition sample_clients :: json where
  "sample_clients = JObj [(''svc'', JObj [(''secret_sha256'', JStr (replicate 64 (CHR ''a''))),
     (''grants'', JObj [(''backend'', JStr ''x'')])])]"

lemma sample_import_values:
  "strip ''svc'' = ''svc''" "strip ''backend'' = ''backend''" "scope_text sample_lib (JStr ''x'') = ''x''"
  "secret_digest_ok (lower (replicate 64 (CHR ''a'')))"
  by (simp_all add: strip_def strip_by_def lstrip_by_def rstrip_by_def is_space_def code_def secret_digest_ok_def lower_def is_upper_def
      is_lower_hex_def is_digit_def scope_text_def words_def sample_lib_def list_all_iff)

lemma imports_respect_operator_witness:
  "\<exists>d'. bootstrap_legacy_clients sample_lib 0 ''n'' (Some (''f'', sample_clients)) sample_auth_db = Inr d' \<and>
     grants_of ''svc'' d' = []"
proof -
  have str: "py_str sample_lib (JStr x) = x" for x by (simp add: sample_lib_def)
  have known: "client_of ''svc'' sample_auth_db \<noteq> None" by (simp add: client_of_def sample_auth_simps)
  obtain d1 where d1: "import_clients sample_lib 0 ''n''
      [(''svc'', JObj [(''secret_sha256'', JStr (replicate 64 (CHR ''a''))), (''grants'', JObj [(''backend'', JStr ''x'')])])] sample_auth_db = Inr d1"
    using known by (simp add: import_client_def Let_def sample_import_values str members_def)
  have "marker_of ''legacy-clients-v1'' ''f'' sample_auth_db = None" by (simp add: marker_of_def sample_auth_simps)
  then obtain d' where d': "bootstrap_legacy_clients sample_lib 0 ''n'' (Some (''f'', sample_clients)) sample_auth_db = Inr d'"
    using d1 by (simp add: bootstrap_legacy_clients_def sample_clients_def members_def)
  from imports_respect_operator[OF d' known] have "grants_of ''svc'' d' = grants_of ''svc'' sample_auth_db" by blast
  also have "\<dots> = []" by (simp add: grants_of_def sample_auth_simps)
  finally show ?thesis using d' by blast
qed

end
