(* ===== verification/KeyCache.thy ===== *)
theory KeyCache
  imports AuthStore
begin

text \<open>
  The consumers of the authority: the cached public keys of a verifier and the checks of
  service tokens (\<open>backend/app/control_plane/security.py\<close>), the same cache and the checks of
  administrator tokens in the backend (\<open>services/auth_center.py\<close>, \<open>api/deps.py\<close>), and the tokens
  a service caches for its own calls. Times of the cache are those of the monotonic clock.
\<close>

subsection \<open>The cache\<close>

record key_cache =
  kc_keys :: "(string \<times> string) list"
  kc_expire_at :: time
  kc_unknown_kids :: "(string \<times> time) list"
  kc_refresh_allowed_at :: time

definition empty_key_cache :: key_cache where
  "empty_key_cache = \<lparr>kc_keys = [], kc_expire_at = 0, kc_unknown_kids = [], kc_refresh_allowed_at = 0\<rparr>"

definition jwks_hard_limit :: time where
  "jwks_hard_limit = secs 60"

definition unknown_kid_cooldown :: time where
  "unknown_kid_cooldown = secs 5"

definition unknown_kid_max :: nat where
  "unknown_kid_max = 256"

text \<open>Assignment to a key of a dict: the place of a key that exists is kept.\<close>

definition dict_set :: "string \<Rightarrow> 'v \<Rightarrow> (string \<times> 'v) list \<Rightarrow> (string \<times> 'v) list" where
  "dict_set k v kvs =
     (if k \<in> fst ` set kvs then map (\<lambda>(j, x). if j = k then (j, v) else (j, x)) kvs else kvs @ [(k, v)])"

text \<open>
  \<open>float\<close> of a text as a time (a value that is not a number counts as 0), and the public
  key that the token library reads from a JWK, or the exception it raises.
\<close>

datatype jwk_failure = Jwk_error | Jwk_key_error

record key_lib =
  py_float :: "string \<Rightarrow> time option"
  jwk_key :: "json \<Rightarrow> jwk_failure + string"

fun cache_directives :: "(string \<Rightarrow> time option) \<Rightarrow> time \<Rightarrow> string list \<Rightarrow> time" where
  "cache_directives num ttl [] = ttl"
| "cache_directives num ttl (d # ds) =
     (case split1 (CHR ''='') (strip d) of
        (name, value) \<Rightarrow>
          (if lower name \<in> {''no-cache'', ''no-store''} then 0
           else if lower name \<noteq> ''max-age'' then cache_directives num ttl ds
           else case value of
             None \<Rightarrow> cache_directives num ttl ds
           | Some v \<Rightarrow>
               (case num (strip_by (\<lambda>c. c = CHR 34) (strip v)) of
                  None \<Rightarrow> cache_directives num ttl ds
                | Some x \<Rightarrow> cache_directives num (min ttl (max 0 x)) ds)))"

definition jwks_cache_ttl :: "(string \<Rightarrow> time option) \<Rightarrow> string \<Rightarrow> time \<Rightarrow> time" where
  "jwks_cache_ttl num cache_control configured =
     cache_directives num (min (max 0 configured) jwks_hard_limit) (split_on (CHR '','') cache_control)"

definition remember_unknown_kid :: "time \<Rightarrow> string \<Rightarrow> key_cache \<Rightarrow> key_cache" where
  "remember_unknown_kid now kid c =
     (let live = filter (\<lambda>(v, until). now < until) (kc_unknown_kids c);
          until = min (now + unknown_kid_cooldown) (kc_expire_at c);
          room = (if kid \<notin> fst ` set live \<and> unknown_kid_max \<le> length live then tl live else live) in
      c\<lparr>kc_unknown_kids := if until \<le> now then live else dict_set kid until room\<rparr>)"

datatype fetch_error = Unreachable | Rejected int | Invalid_jwks | No_signing_keys | Invalid_jwk jwk_failure

definition usable_jwk :: "json \<Rightarrow> string option" where
  "usable_jwk v =
     (if \<not> is_dict v then None
      else case jget v ''kid'' of
        JStr kid \<Rightarrow>
          (if kid \<noteq> [] \<and> jget v ''kty'' = JStr ''RSA'' \<and> jget_or v ''alg'' (JStr ''RS256'') = JStr ''RS256'' \<and>
             jget_or v ''use'' (JStr ''sig'') = JStr ''sig''
           then Some kid else None)
      | _ \<Rightarrow> None)"

fun read_jwks :: "(json \<Rightarrow> jwk_failure + string) \<Rightarrow> json list \<Rightarrow> (string \<times> string) list \<Rightarrow> fetch_error + (string \<times> string) list" where
  "read_jwks jwk [] keys = Inr keys"
| "read_jwks jwk (v # vs) keys =
     (case usable_jwk v of
        None \<Rightarrow> read_jwks jwk vs keys
      | Some kid \<Rightarrow>
          (case jwk v of
             Inl e \<Rightarrow> Inl (Invalid_jwk e)
           | Inr key \<Rightarrow> read_jwks jwk vs (dict_set kid key keys)))"

definition parse_jwks :: "(json \<Rightarrow> jwk_failure + string) \<Rightarrow> json \<Rightarrow> fetch_error + (string \<times> string) list" where
  "parse_jwks jwk payload =
     (if \<not> is_dict payload \<or> \<not> is_list (jget payload ''keys'') then Inl Invalid_jwks
      else case read_jwks jwk (jlist (jget payload ''keys'')) [] of
        Inl e \<Rightarrow> Inl e
      | Inr keys \<Rightarrow> if keys = [] then Inl No_signing_keys else Inr keys)"

text \<open>
  What a request for the keys gives: no usable answer (discovery, connection, a status of a
  server error, no JSON), another refused status, or a payload with its cache header.
\<close>

datatype jwks_reply = No_answer | Status int | Answer json string

text \<open>
  A refresh holds the lock of the cache: \<open>refresh_start\<close> decides on a request,
  \<open>refresh_finish\<close> stores what it gave.
\<close>

definition refresh_start :: "time \<Rightarrow> bool \<Rightarrow> string option \<Rightarrow> key_cache \<Rightarrow> key_cache \<times> bool" where
  "refresh_start now force unknown c =
     (let blocked = (case unknown of
            None \<Rightarrow> False
          | Some kid \<Rightarrow> now < (case map_of (kc_unknown_kids c) kid of None \<Rightarrow> 0 | Some t \<Rightarrow> t) \<or> now < kc_refresh_allowed_at c);
          c1 = (if unknown = None then c else c\<lparr>kc_refresh_allowed_at := now + unknown_kid_cooldown\<rparr>) in
      if blocked then (c, False) else (c1, force \<or> kc_keys c = [] \<or> kc_expire_at c \<le> now))"

definition refresh_finish :: "key_lib \<Rightarrow> time \<Rightarrow> time \<Rightarrow> time \<Rightarrow> string option \<Rightarrow> jwks_reply \<Rightarrow> key_cache \<Rightarrow> fetch_error + key_cache" where
  "refresh_finish lib configured refreshed_at later unknown reply c =
     (case reply of
        No_answer \<Rightarrow> Inl Unreachable
      | Status s \<Rightarrow> Inl (Rejected s)
      | Answer payload cache_control \<Rightarrow>
          (case parse_jwks (jwk_key lib) payload of
             Inl e \<Rightarrow> Inl e
           | Inr keys \<Rightarrow>
               (let c1 = c\<lparr>kc_keys := keys,
                      kc_expire_at := refreshed_at + jwks_cache_ttl (py_float lib) cache_control configured,
                      kc_unknown_kids := filter (\<lambda>(v, until). refreshed_at < until \<and> v \<notin> fst ` set keys) (kc_unknown_kids c)\<rparr> in
                case unknown of
                  None \<Rightarrow> Inr c1
                | Some kid \<Rightarrow>
                    (let c2 = c1\<lparr>kc_refresh_allowed_at := refreshed_at + unknown_kid_cooldown\<rparr> in
                     Inr (if kid \<in> fst ` set keys then c2 else remember_unknown_kid later kid c2)))))"

text \<open>
  What a verification meets: readings of the clock, the other tasks while it waits for the
  lock or for an answer, and the answers.
\<close>

record key_io =
  ki_now :: "nat \<Rightarrow> time"
  ki_gap :: "nat \<Rightarrow> key_cache \<Rightarrow> key_cache"
  ki_reply :: "nat \<Rightarrow> jwks_reply"

definition refresh_keys :: "key_lib \<Rightarrow> time \<Rightarrow> key_io \<Rightarrow> nat \<Rightarrow> bool \<Rightarrow> string option \<Rightarrow> key_cache \<Rightarrow> key_cache \<times> (fetch_error + bool)" where
  "refresh_keys lib configured io k force unknown c =
     (case refresh_start (ki_now io k) force unknown (ki_gap io k c) of
        (c1, False) \<Rightarrow> (c1, Inr False)
      | (c1, True) \<Rightarrow>
          (let c2 = ki_gap io (k + 1) c1 in
           case refresh_finish lib configured (ki_now io (k + 1)) (ki_now io (k + 2)) unknown (ki_reply io k) c2 of
             Inl e \<Rightarrow> (c2, Inl e)
           | Inr c3 \<Rightarrow> (c3, Inr True)))"

datatype verify_error =
    Missing_bearer
  | Unsupported_key
  | Fetch fetch_error
  | Unknown_key
  | No_key_configured
  | Bad_token
  | Bad_claims

definition find_key :: "key_lib \<Rightarrow> time \<Rightarrow> key_io \<Rightarrow> string \<Rightarrow> key_cache \<Rightarrow> key_cache \<times> (verify_error + string)" where
  "find_key lib configured io kid c =
     (case refresh_keys lib configured io 0 False None c of
        (c1, Inl e) \<Rightarrow> (c1, Inl (Fetch e))
      | (c1, Inr refreshed) \<Rightarrow>
          (case map_of (kc_keys c1) kid of
             Some key \<Rightarrow> (c1, Inr key)
           | None \<Rightarrow>
               (if refreshed
                then (remember_unknown_kid (ki_now io 7) kid
                        (c1\<lparr>kc_refresh_allowed_at := max (kc_refresh_allowed_at c1) (ki_now io 6 + unknown_kid_cooldown)\<rparr>),
                      Inl Unknown_key)
                else case refresh_keys lib configured io 3 True (Some kid) c1 of
                  (c2, Inl e) \<Rightarrow> (c2, Inl (Fetch e))
                | (c2, Inr r) \<Rightarrow>
                    (case map_of (kc_keys c2) kid of
                       Some key \<Rightarrow> (c2, Inr key)
                     | None \<Rightarrow> (remember_unknown_kid (ki_now io 7) kid c2, Inl Unknown_key)))))"

subsection \<open>Tokens\<close>

text \<open>
  The token library: algorithm and key identifier of an unverified header, and the claims
  of a token whose signature under a key, audience, issuer, times and required claims are
  in order.
\<close>

record verify_lib =
  unverified_header :: "string \<Rightarrow> (json \<times> json) option"
  verified_claims :: "string \<Rightarrow> string \<Rightarrow> string \<Rightarrow> json option"

definition signing_kid :: "verify_lib \<Rightarrow> string \<Rightarrow> verify_error + string" where
  "signing_kid v token =
     (case unverified_header v token of
        None \<Rightarrow> Inl Bad_token
      | Some (alg, kid) \<Rightarrow>
          (case kid of
             JStr k \<Rightarrow> if alg = JStr ''RS256'' \<and> k \<noteq> [] then Inr k else Inl Unsupported_key
           | _ \<Rightarrow> Inl Unsupported_key))"

record service_verifier =
  sv_public_key :: "string option"
  sv_audience :: string
  sv_scope :: string
  sv_dynamic :: bool
  sv_ttl :: time

definition service_claims_ok :: "service_verifier \<Rightarrow> string \<Rightarrow> json \<Rightarrow> bool" where
  "service_claims_ok sv kid claims \<longleftrightarrow>
     jget claims ''kid'' = JStr kid \<and> jget claims ''type'' = JStr ''service'' \<and>
     (case jget claims ''scope'' of JStr s \<Rightarrow> sv_scope sv \<in> set (words s) | _ \<Rightarrow> False)"

definition decode_service_token :: "key_lib \<Rightarrow> verify_lib \<Rightarrow> service_verifier \<Rightarrow> key_io \<Rightarrow> string \<Rightarrow> key_cache \<Rightarrow>
    key_cache \<times> (verify_error + json)" where
  "decode_service_token lib v sv io token c =
     (case signing_kid v token of
        Inl e \<Rightarrow> (c, Inl e)
      | Inr kid \<Rightarrow>
          (case (if sv_dynamic sv then find_key lib (sv_ttl sv) io kid c
                 else (c, if nonempty (sv_public_key sv) then Inr (the (sv_public_key sv)) else Inl No_key_configured)) of
             (c1, Inl e) \<Rightarrow> (c1, Inl e)
           | (c1, Inr key) \<Rightarrow>
               (c1, case verified_claims v token key (sv_audience sv) of
                      None \<Rightarrow> Inl Bad_token
                    | Some claims \<Rightarrow> if service_claims_ok sv kid claims then Inr claims else Inl Bad_claims)))"

definition verify_status :: "verify_error \<Rightarrow> nat" where
  "verify_status e = (case e of Fetch (Invalid_jwk Jwk_key_error) \<Rightarrow> 401 | Fetch f \<Rightarrow> 503 | No_key_configured \<Rightarrow> 503 | _ \<Rightarrow> 401)"

text \<open>The call of a verifier with the header of a request; the error is a status.\<close>

definition verify_request :: "key_lib \<Rightarrow> verify_lib \<Rightarrow> service_verifier \<Rightarrow> key_io \<Rightarrow> string \<Rightarrow> key_cache \<Rightarrow>
    key_cache \<times> (nat + json)" where
  "verify_request lib v sv io header c =
     (case split1 (CHR '' '') header of
        (scheme, None) \<Rightarrow> (c, Inl (verify_status Missing_bearer))
      | (scheme, Some token) \<Rightarrow>
          (if lower scheme \<noteq> ''bearer'' \<or> token = [] then (c, Inl (verify_status Missing_bearer))
           else case decode_service_token lib v sv io token c of
             (c1, Inl e) \<Rightarrow> (c1, Inl (verify_status e))
           | (c1, Inr claims) \<Rightarrow> (c1, Inr claims)))"

definition claim_shape_ok :: "json \<Rightarrow> bool" where
  "claim_shape_ok claims \<longleftrightarrow>
     (case jget claims ''uid'' of JInt i \<Rightarrow> 0 < i | _ \<Rightarrow> False) \<and>
     (case jget claims ''sid'' of JStr s \<Rightarrow> s \<noteq> [] \<and> length s \<le> 128 | _ \<Rightarrow> False) \<and>
     (case jget claims ''jti'' of JStr s \<Rightarrow> s \<noteq> [] \<and> length s \<le> 128 | _ \<Rightarrow> False) \<and>
     (case jget claims ''scope'' of JStr s \<Rightarrow> ''admin'' \<in> set (words s) | _ \<Rightarrow> False) \<and>
     jget claims ''type'' = JStr ''user''"

definition verify_user_token :: "key_lib \<Rightarrow> verify_lib \<Rightarrow> time \<Rightarrow> key_io \<Rightarrow> string \<Rightarrow> key_cache \<Rightarrow> key_cache \<times> (verify_error + json)" where
  "verify_user_token lib v ttl io token c =
     (case signing_kid v token of
        Inl e \<Rightarrow> (c, Inl e)
      | Inr kid \<Rightarrow>
          (case find_key lib ttl io kid c of
             (c1, Inl e) \<Rightarrow> (c1, Inl e)
           | (c1, Inr key) \<Rightarrow>
               (c1, case verified_claims v token key user_audience of
                      None \<Rightarrow> Inl Bad_token
                    | Some claims \<Rightarrow>
                        (if jget claims ''kid'' = JStr kid \<and> claim_shape_ok claims then Inr claims else Inl Bad_claims))))"

subsection \<open>Requests of administrators\<close>

text \<open>A status of the authority that is neither success nor a server error is not caught.\<close>

datatype admin_failure = Api_error nat string | Uncaught int

definition admin_failure_of :: "verify_error \<Rightarrow> admin_failure" where
  "admin_failure_of e =
     (case e of
        Fetch (Rejected s) \<Rightarrow> Uncaught s
      | Fetch f \<Rightarrow> Api_error 503 ''auth_unavailable''
      | _ \<Rightarrow> Api_error 401 ''invalid_token'')"

text \<open>The queries run after the verification, each on what is committed by then.\<close>

definition authenticate_admin :: "key_lib \<Rightarrow> verify_lib \<Rightarrow> time \<Rightarrow> key_io \<Rightarrow> time \<Rightarrow> string \<Rightarrow> (nat \<Rightarrow> auth_db) \<Rightarrow> key_cache \<Rightarrow>
    key_cache \<times> (admin_failure + admin)" where
  "authenticate_admin lib v ttl io now token d c =
     (case verify_user_token lib v ttl io token c of
        (c1, Inl e) \<Rightarrow> (c1, Inl (admin_failure_of e))
      | (c1, Inr claims) \<Rightarrow>
          (c1, case (jget claims ''uid'', jget claims ''sid'', jget claims ''jti'') of
             (JInt uid, JStr sid, JStr jti) \<Rightarrow>
               (if find (session_valid now sid jti uid) (au_sessions (d 0)) = None then Inl (Api_error 401 ''invalid_token'')
                else if row_get rv_jti jti (au_revocations (d 1)) \<noteq> None then Inl (Api_error 401 ''invalid_token'')
                else case find (\<lambda>a. ad_id a = uid \<and> ad_is_active a) (au_admins (d 2)) of
                  None \<Rightarrow> Inl (Api_error 401 ''invalid_token'')
                | Some a \<Rightarrow>
                    (if JStr (ad_username a) \<noteq> jget claims ''sub'' then Inl (Api_error 401 ''invalid_token'') else Inr a))
           | _ \<Rightarrow> Inl (Api_error 401 ''invalid_token'')))"

definition get_current_admin :: "key_lib \<Rightarrow> verify_lib \<Rightarrow> time \<Rightarrow> key_io \<Rightarrow> time \<Rightarrow> (string \<times> string) option \<Rightarrow> (nat \<Rightarrow> auth_db) \<Rightarrow> key_cache \<Rightarrow>
    key_cache \<times> (admin_failure + admin)" where
  "get_current_admin lib v ttl io now credentials d c =
     (case credentials of
        None \<Rightarrow> (c, Inl (Api_error 401 ''not_authenticated''))
      | Some (scheme, token) \<Rightarrow>
          (if lower scheme \<noteq> ''bearer'' then (c, Inl (Api_error 401 ''not_authenticated''))
           else authenticate_admin lib v ttl io now token d c))"

subsection \<open>Tokens of a service for its own calls\<close>

type_synonym token_cache = "(string \<times> (string \<times> time)) list"

text \<open>
  The whole call holds a lock. \<open>base\<close> is the address of the authority, if there is one, and
  \<open>reply\<close> the validated answer with the token and its life in seconds.
\<close>

datatype token_error = Center_not_configured | Token_refused

definition service_token :: "time \<Rightarrow> time \<Rightarrow> string option \<Rightarrow> (string \<times> int) option \<Rightarrow> string \<Rightarrow> token_cache \<Rightarrow>
    token_cache \<times> (token_error + string)" where
  "service_token now later base reply audience cache =
     (let fetch = (if \<not> nonempty base then (cache, Inl Center_not_configured)
            else case reply of
              None \<Rightarrow> (cache, Inl Token_refused)
            | Some (token, life) \<Rightarrow>
                (if token = [] \<or> life \<le> 0 then (cache, Inl Token_refused)
                 else (dict_set audience (token, later + secs life - secs 15) cache, Inr token))) in
      case map_of cache audience of
        Some (token, until) \<Rightarrow> if now < until then (cache, Inr token) else fetch
      | None \<Rightarrow> fetch)"

end
