(* ===== verification/TokenSafety.thy ===== *)
theory TokenSafety
  imports AuthSafety KeyCache
begin

text \<open>
  What the key caches keep however verifications interleave: an answer is trusted for a
  minute at most, unknown key identifiers cannot flood the authority nor the memory of a
  verifier, and the backend refuses the tokens of ended sessions.
\<close>

subsection \<open>Steps on a cache\<close>

text \<open>
  The lock is the second component: the identifier a running refresh was started for.
  \<open>Bump\<close> is the assignment of \<open>_decode\<close> after a refresh that did not find the key.
\<close>

datatype key_event =
    Start time bool "string option"
  | Finish time time jwks_reply
  | Remember time string
  | Bump time

type_synonym key_state = "key_cache \<times> string option option"

fun key_step :: "key_lib \<Rightarrow> time \<Rightarrow> key_event \<Rightarrow> key_state \<Rightarrow> key_state" where
  "key_step lib ttl (Start t force unknown) (c, l) =
     (if l \<noteq> None then (c, l)
      else case refresh_start t force unknown c of (c1, fetch) \<Rightarrow> (c1, if fetch then Some unknown else None))"
| "key_step lib ttl (Finish t later reply) (c, l) =
     (case l of
        None \<Rightarrow> (c, l)
      | Some unknown \<Rightarrow> (case refresh_finish lib ttl t later unknown reply c of Inl e \<Rightarrow> (c, None) | Inr c1 \<Rightarrow> (c1, None)))"
| "key_step lib ttl (Remember t kid) (c, l) = (remember_unknown_kid t kid c, l)"
| "key_step lib ttl (Bump t) (c, l) = (c\<lparr>kc_refresh_allowed_at := max (kc_refresh_allowed_at c) (t + unknown_kid_cooldown)\<rparr>, l)"

fun key_run :: "key_lib \<Rightarrow> time \<Rightarrow> key_event list \<Rightarrow> key_state \<Rightarrow> key_state" where
  "key_run lib ttl [] s = s"
| "key_run lib ttl (e # es) s = key_run lib ttl es (key_step lib ttl e s)"

lemma key_run_append [simp]: "key_run lib ttl (es @ fs) s = key_run lib ttl fs (key_run lib ttl es s)"
  by (induction es arbitrary: s) simp_all

fun key_event_time :: "key_event \<Rightarrow> time" where
  "key_event_time (Start t force unknown) = t"
| "key_event_time (Finish t later reply) = t"
| "key_event_time (Remember t kid) = t"
| "key_event_time (Bump t) = t"

subsection \<open>Unknown keys\<close>

text \<open>The times at which a request was sent because of an unknown identifier.\<close>

fun forced_fetches :: "key_lib \<Rightarrow> time \<Rightarrow> key_event list \<Rightarrow> key_state \<Rightarrow> time list" where
  "forced_fetches lib ttl [] s = []"
| "forced_fetches lib ttl (e # es) s =
     (case e of
        Start t force (Some kid) \<Rightarrow> if snd s = None \<and> snd (refresh_start t force (Some kid) (fst s)) then [t] else []
      | _ \<Rightarrow> []) @ forced_fetches lib ttl es (key_step lib ttl e s)"

lemma remember_allowed [simp]: "kc_refresh_allowed_at (remember_unknown_kid now kid c) = kc_refresh_allowed_at c"
  by (simp add: remember_unknown_kid_def Let_def)

lemma remember_keys [simp]:
  "kc_keys (remember_unknown_kid now kid c) = kc_keys c" "kc_expire_at (remember_unknown_kid now kid c) = kc_expire_at c"
  by (simp_all add: remember_unknown_kid_def Let_def)

lemma finish_allowed:
  assumes "refresh_finish lib ttl t later unknown reply c = Inr c1" and "until \<le> kc_refresh_allowed_at c" and "until \<le> t + unknown_kid_cooldown"
  shows "until \<le> kc_refresh_allowed_at c1"
  using assms by (auto simp: refresh_finish_def Let_def split: jwks_reply.splits sum.splits option.splits if_splits)

lemma start_allowed:
  assumes "until \<le> kc_refresh_allowed_at c" and "until \<le> t + unknown_kid_cooldown"
  shows "until \<le> kc_refresh_allowed_at (fst (refresh_start t force unknown c))"
  using assms by (auto simp: refresh_start_def Let_def)

lemma step_allowed:
  assumes "until \<le> kc_refresh_allowed_at (fst s)" and "until \<le> key_event_time e + unknown_kid_cooldown"
  shows "until \<le> kc_refresh_allowed_at (fst (key_step lib ttl e s))"
proof (cases s)
  case (Pair c l)
  show ?thesis
  proof (cases e)
    case (Start t force unknown)
    then show ?thesis using assms Pair start_allowed[of until c t force unknown] by (auto split: prod.splits)
  next
    case (Finish t later reply)
    then show ?thesis using assms Pair by (auto intro: finish_allowed split: option.splits sum.splits)
  qed (use assms Pair in auto)
qed

lemma forced_after:
  assumes "until \<le> kc_refresh_allowed_at (fst s)" and "\<forall>e \<in> set es. until \<le> key_event_time e + unknown_kid_cooldown"
  shows "\<forall>t \<in> set (forced_fetches lib ttl es s). until \<le> t"
  using assms
proof (induction es arbitrary: s)
  case Nil
  then show ?case by simp
next
  case (Cons e es)
  have rest: "\<forall>t \<in> set (forced_fetches lib ttl es (key_step lib ttl e s)). until \<le> t"
    using Cons.IH[OF step_allowed[OF Cons.prems(1), of e lib ttl]] Cons.prems(2) by simp
  have now: "until \<le> t" if "snd (refresh_start t force (Some kid) (fst s))" for t force kid
    using that Cons.prems(1) by (auto simp: refresh_start_def Let_def split: if_splits)
  show ?case using rest now by (auto split: key_event.splits option.splits)
qed

lemma forced_allowed:
  assumes "snd s = None" and "snd (refresh_start t force (Some kid) (fst s))"
  shows "t + unknown_kid_cooldown \<le> kc_refresh_allowed_at (fst (key_step lib ttl (Start t force (Some kid)) s))"
  using assms by (cases s) (auto simp: refresh_start_def Let_def split: if_splits)

lemma forced_apart:
  "sorted (map key_event_time es) \<Longrightarrow> sorted_wrt (\<lambda>a b. a + unknown_kid_cooldown \<le> b) (forced_fetches lib ttl es s)"
proof (induction es arbitrary: s)
  case Nil
  then show ?case by simp
next
  case (Cons e es)
  have ih: "sorted_wrt (\<lambda>a b. a + unknown_kid_cooldown \<le> b) (forced_fetches lib ttl es (key_step lib ttl e s))"
    using Cons by simp
  have "\<forall>b \<in> set (forced_fetches lib ttl es (key_step lib ttl e s)). t + unknown_kid_cooldown \<le> b"
    if "e = Start t force (Some kid)" "snd s = None" "snd (refresh_start t force (Some kid) (fst s))" for t force kid
    using that Cons.prems by (intro forced_after) (auto simp: forced_allowed)
  then show ?case using ih by (auto split: key_event.splits option.splits)
qed

lemma dict_set_length: "length (dict_set k v kvs) = (if k \<in> fst ` set kvs then length kvs else length kvs + 1)"
  by (simp add: dict_set_def)

lemma remember_bounded:
  assumes "length (kc_unknown_kids c) \<le> unknown_kid_max"
  shows "length (kc_unknown_kids (remember_unknown_kid now kid c)) \<le> unknown_kid_max"
proof -
  let ?live = "filter (\<lambda>(v, until). now < until) (kc_unknown_kids c)"
  let ?room = "if kid \<notin> fst ` set ?live \<and> unknown_kid_max \<le> length ?live then tl ?live else ?live"
  have live: "length ?live \<le> unknown_kid_max" using assms le_trans[OF length_filter_le] by blast
  have room: "length (dict_set kid u ?room) \<le> unknown_kid_max" for u
    using live by (auto simp: dict_set_length unknown_kid_max_def)
  show ?thesis using live room by (simp add: remember_unknown_kid_def Let_def)
qed

lemma finish_bounded:
  assumes "refresh_finish lib ttl t later unknown reply c = Inr c1" and "length (kc_unknown_kids c) \<le> unknown_kid_max"
  shows "length (kc_unknown_kids c1) \<le> unknown_kid_max"
proof -
  have le: "length (filter P (kc_unknown_kids c)) \<le> unknown_kid_max" for P
    using assms(2) le_trans[OF length_filter_le] by blast
  show ?thesis
    using assms(1) le
    by (auto simp: refresh_finish_def Let_def remember_bounded split: jwks_reply.splits sum.splits option.splits if_splits)
qed

lemma step_bounded:
  assumes "length (kc_unknown_kids (fst s)) \<le> unknown_kid_max"
  shows "length (kc_unknown_kids (fst (key_step lib ttl e s))) \<le> unknown_kid_max"
proof (cases s)
  case (Pair c l)
  show ?thesis
  proof (cases e)
    case (Start t force unknown)
    then show ?thesis using assms Pair by (auto simp: refresh_start_def Let_def)
  next
    case (Finish t later reply)
    then show ?thesis using assms Pair by (auto intro: finish_bounded split: option.splits sum.splits)
  qed (use assms Pair in \<open>auto simp: remember_bounded\<close>)
qed

lemma run_bounded:
  "length (kc_unknown_kids (fst s)) \<le> unknown_kid_max \<Longrightarrow> length (kc_unknown_kids (fst (key_run lib ttl es s))) \<le> unknown_kid_max"
  by (induction es arbitrary: s) (simp_all add: step_bounded)

text \<open>
  tokens with unknown key identifiers cannot flood the authority nor a verifier: over
  any interleaving of verifications and any answers, the requests that such tokens cause
  are five seconds apart, and at most 256 identifiers are remembered.
\<close>

theorem unknown_kids_throttled:
  assumes "sorted (map key_event_time es)"
  shows "sorted_wrt (\<lambda>a b. a + secs 5 \<le> b) (forced_fetches lib ttl es (empty_key_cache, None)) \<and>
    length (kc_unknown_kids (fst (key_run lib ttl es (empty_key_cache, None)))) \<le> 256"
  using forced_apart[OF assms, of lib ttl "(empty_key_cache, None)"] run_bounded[of "(empty_key_cache, None)" lib ttl es]
  by (simp add: unknown_kid_cooldown_def unknown_kid_max_def empty_key_cache_def)

subsection \<open>Age of keys\<close>

lemma directives_le: "0 \<le> ttl \<Longrightarrow> cache_directives num ttl ds \<le> ttl"
proof (induction num ttl ds rule: cache_directives.induct)
  case (1 num ttl)
  then show ?case by simp
next
  case (2 num ttl d ds)
  obtain name arg where s: "split1 (CHR ''='') (strip d) = (name, arg)" by fastforce
  have rest: "cache_directives num ttl ds \<le> ttl" if "lower name \<notin> {''no-cache'', ''no-store''}" "lower name \<noteq> ''max-age''"
    using "2.IH"(1)[OF s[symmetric] that "2.prems"] .
  show ?case
  proof (cases "lower name \<in> {''no-cache'', ''no-store''} \<or> lower name \<noteq> ''max-age''")
    case True
    then show ?thesis using rest "2.prems" by (auto simp: s)
  next
    case False
    then have m: "lower name \<notin> {''no-cache'', ''no-store''}" "\<not> lower name \<noteq> ''max-age''" by simp_all
    show ?thesis
    proof (cases arg)
      case None
      then show ?thesis using "2.IH"(2)[OF s[symmetric] m None "2.prems"] m by (simp add: s)
    next
      case (Some v)
      show ?thesis
      proof (cases "num (strip_by (\<lambda>c. c = CHR 34) (strip v))")
        case None
        then show ?thesis using "2.IH"(3)[OF s[symmetric] m Some None "2.prems"] m Some by (simp add: s)
      next
        case x: (Some x)
        have "cache_directives num (min ttl (max 0 x)) ds \<le> min ttl (max 0 x)"
          using "2.IH"(4)[OF s[symmetric] m Some x] "2.prems" by simp
        then show ?thesis using m Some x by (simp add: s)
      qed
    qed
  qed
qed

lemma ttl_le: "jwks_cache_ttl num header ttl \<le> jwks_hard_limit"
proof -
  have "0 \<le> min (max 0 ttl) jwks_hard_limit" by (simp add: jwks_hard_limit_def secs_def)
  from directives_le[OF this] show ?thesis by (simp add: jwks_cache_ttl_def)
qed

text \<open>The keys of \<open>c\<close> come from an answer among the events, stored a minute before they expire at most.\<close>

definition answered :: "key_lib \<Rightarrow> key_event list \<Rightarrow> key_cache \<Rightarrow> bool" where
  "answered lib es c \<longleftrightarrow>
     (\<exists>t later p h. Finish t later (Answer p h) \<in> set es \<and> parse_jwks (jwk_key lib) p = Inr (kc_keys c) \<and>
        kc_expire_at c \<le> t + jwks_hard_limit)"

lemma finish_answer:
  assumes "refresh_finish lib ttl t later unknown reply c = Inr c1"
  shows "\<exists>p h. reply = Answer p h \<and> parse_jwks (jwk_key lib) p = Inr (kc_keys c1) \<and> kc_expire_at c1 \<le> t + jwks_hard_limit"
  using assms
  by (auto simp: refresh_finish_def Let_def ttl_le split: jwks_reply.splits sum.splits option.splits if_splits)

lemma start_same: "kc_keys (fst (refresh_start t force unknown c)) = kc_keys c" "kc_expire_at (fst (refresh_start t force unknown c)) = kc_expire_at c"
  by (simp_all add: refresh_start_def Let_def)

lemma step_answered:
  "answered lib [e] (fst (key_step lib ttl e s)) \<or>
    (kc_keys (fst (key_step lib ttl e s)) = kc_keys (fst s) \<and> kc_expire_at (fst (key_step lib ttl e s)) = kc_expire_at (fst s))"
proof (cases s)
  case (Pair c l)
  show ?thesis
  proof (cases e)
    case (Start t force unknown)
    then show ?thesis using Pair start_same[of t force unknown c] by (auto split: prod.splits)
  next
    case (Finish t later reply)
    show ?thesis
    proof (cases "\<exists>unknown c1. l = Some unknown \<and> refresh_finish lib ttl t later unknown reply c = Inr c1")
      case True
      then obtain unknown c1 where f: "l = Some unknown" "refresh_finish lib ttl t later unknown reply c = Inr c1" by blast
      from finish_answer[OF f(2)] have "answered lib [e] c1" unfolding answered_def Finish by auto
      then show ?thesis using f Finish Pair by simp
    qed (use Pair Finish in \<open>auto split: option.splits sum.splits\<close>)
  qed (use Pair in auto)
qed

lemma answered_more: "answered lib es c \<Longrightarrow> set es \<subseteq> set fs \<Longrightarrow> kc_keys c' = kc_keys c \<Longrightarrow> kc_expire_at c' = kc_expire_at c \<Longrightarrow> answered lib fs c'"
  unfolding answered_def by fastforce

lemma run_answered:
  "answered lib es (fst (key_run lib ttl es s)) \<or>
    (kc_keys (fst (key_run lib ttl es s)) = kc_keys (fst s) \<and> kc_expire_at (fst (key_run lib ttl es s)) = kc_expire_at (fst s))"
proof (induction es rule: rev_induct)
  case Nil
  then show ?case by simp
next
  case (snoc e es)
  let ?s = "key_run lib ttl es s"
  show ?case
    using step_answered[of lib e ttl ?s] snoc
    by (auto intro: answered_more[of lib "[e]"] answered_more[of lib es "fst ?s"])
qed

subsection \<open>A verification among others\<close>

text \<open>
  The other tasks of a verifier: \<open>gaps k\<close> are their steps before step \<open>k\<close> of a verification, which
  waits for the lock (steps 0 and 3) or holds it for an answer (1 and 4). The steps from the
  first one on come after the verification began.
\<close>

definition others_step :: "key_lib \<Rightarrow> time \<Rightarrow> key_io \<Rightarrow> (nat \<Rightarrow> key_event list) \<Rightarrow> bool" where
  "others_step lib ttl io gaps \<longleftrightarrow>
     (\<forall>k \<in> {0, 3}. \<forall>c. key_run lib ttl (gaps k) (c, None) = (ki_gap io k c, None)) \<and>
     (\<forall>k \<in> {1, 4}. \<forall>c unknown. key_run lib ttl (gaps k) (c, Some unknown) = (ki_gap io k c, Some unknown)) \<and>
     (\<forall>k \<in> {1, 3, 4}. \<forall>e \<in> set (gaps k). ki_now io 0 \<le> key_event_time e) \<and> (\<forall>k. ki_now io 0 \<le> ki_now io k)"

text \<open>The answer that the verification itself gets when it asks at step \<open>k\<close>.\<close>

definition own_answer :: "key_io \<Rightarrow> nat \<Rightarrow> key_event" where
  "own_answer io k = Finish (ki_now io (k + 1)) (ki_now io (k + 2)) (ki_reply io k)"

definition recent_key :: "key_lib \<Rightarrow> time \<Rightarrow> key_event list \<Rightarrow> string \<Rightarrow> string \<Rightarrow> bool" where
  "recent_key lib now es kid key \<longleftrightarrow>
     (\<exists>t later p h keys. Finish t later (Answer p h) \<in> set es \<and> parse_jwks (jwk_key lib) p = Inr keys \<and>
        map_of keys kid = Some key \<and> now < t + secs 60)"

definition recent_keys :: "key_lib \<Rightarrow> time \<Rightarrow> key_event list \<Rightarrow> (string \<times> string) list \<Rightarrow> bool" where
  "recent_keys lib now es keys \<longleftrightarrow>
     (\<exists>t later p h. Finish t later (Answer p h) \<in> set es \<and> parse_jwks (jwk_key lib) p = Inr keys \<and> now < t + secs 60)"

lemma recent_more: "recent_key lib now es kid key \<Longrightarrow> \<forall>e \<in> set es. e \<in> set fs \<or> (\<exists>t f u. e = Start t f u) \<Longrightarrow>
    recent_key lib now fs kid key"
  unfolding recent_key_def by blast

lemma answered_recent:
  assumes "answered lib es c" and "map_of (kc_keys c) kid = Some key" and "now < kc_expire_at c"
  shows "recent_key lib now es kid key"
  using assms unfolding answered_def recent_key_def jwks_hard_limit_def by fastforce

lemma answered_later:
  assumes "answered lib es c" and "map_of (kc_keys c) kid = Some key" and "\<forall>e \<in> set es. now \<le> key_event_time e"
  shows "recent_key lib now es kid key"
  using assms unfolding answered_def recent_key_def by (fastforce simp: secs_def)

text \<open>
  A refresh runs as events, ends with the lock free, and what it changed came with the
  answers of these events.
\<close>

lemma refresh_runs:
  assumes o: "others_step lib ttl io gaps" and k: "k \<in> {0, 3}" and r: "refresh_keys lib ttl io k force unknown c = (c1, x)"
  obtains es where "key_run lib ttl es (c, None) = (c1, None)" and "0 < k \<Longrightarrow> \<forall>e \<in> set es. ki_now io 0 \<le> key_event_time e"
    and "x = Inr False \<Longrightarrow> snd (refresh_start (ki_now io k) force unknown (ki_gap io k c)) = False \<and>
      c1 = fst (refresh_start (ki_now io k) force unknown (ki_gap io k c))"
    and "x = Inr True \<Longrightarrow> recent_keys lib (ki_now io 0) [own_answer io k] (kc_keys c1)"
    and "\<forall>e \<in> set es. e \<in> set (gaps k @ gaps (k + 1) @ [own_answer io k]) \<or> (\<exists>t f u. e = Start t f u)"
proof -
  let ?c0 = "ki_gap io k c"
  obtain ca fetch where st: "refresh_start (ki_now io k) force unknown ?c0 = (ca, fetch)" by fastforce
  let ?s = "Start (ki_now io k) force unknown"
  have es1: "key_run lib ttl (gaps k) (c, None) = (?c0, None)" "0 < k \<longrightarrow> (\<forall>e \<in> set (gaps k). ki_now io 0 \<le> key_event_time e)"
    using o k by (auto simp: others_step_def)
  have es2: "key_run lib ttl (gaps (k + 1)) (ca, Some unknown) = (ki_gap io (k + 1) ca, Some unknown)"
      "\<forall>e \<in> set (gaps (k + 1)). ki_now io 0 \<le> key_event_time e"
    using o k by (auto simp: others_step_def)
  have times: "ki_now io 0 \<le> ki_now io j" for j using o by (simp add: others_step_def)
  show ?thesis
  proof (cases fetch)
    case False
    show ?thesis
      by (rule that[of "gaps k @ [?s]"]) (use r es1 st False times in \<open>auto simp: refresh_keys_def\<close>)
  next
    case True
    let ?cb = "ki_gap io (k + 1) ca" and ?f = "own_answer io k" and ?es = "(gaps k @ ?s # gaps (k + 1)) @ [own_answer io k]"
    have run: "key_run lib ttl (gaps k @ ?s # gaps (k + 1)) (c, None) = (?cb, Some unknown)" using es1 st True es2 by simp
    have later: "0 < k \<Longrightarrow> \<forall>e \<in> set ?es. ki_now io 0 \<le> key_event_time e" using es1 es2 times by (auto simp: own_answer_def)
    show ?thesis
    proof (cases "refresh_finish lib ttl (ki_now io (k + 1)) (ki_now io (k + 2)) unknown (ki_reply io k) ?cb")
      case (Inl e)
      show ?thesis
        by (rule that[of ?es])
          (use r st True Inl run later in \<open>auto simp: refresh_keys_def own_answer_def Let_def simp del: append_assoc\<close>)
    next
      case (Inr c3)
      from finish_answer[OF Inr] obtain p h where a: "ki_reply io k = Answer p h" "parse_jwks (jwk_key lib) p = Inr (kc_keys c3)" by blast
      have fin: "c1 = c3" "x = Inr True" using r st True Inr by (auto simp: refresh_keys_def Let_def)
      show ?thesis
      proof (rule that[of ?es])
        show "key_run lib ttl ?es (c, None) = (c1, None)"
          unfolding key_run_append[of lib ttl "gaps k @ ?s # gaps (k + 1)"] run using Inr fin by (simp add: own_answer_def)
        show "recent_keys lib (ki_now io 0) [own_answer io k] (kc_keys c1)"
          using a times[of "k + 1"] fin by (auto simp: recent_keys_def own_answer_def secs_def)
      qed (use fin later in auto)
    qed
  qed
qed

definition all_answers :: "key_io \<Rightarrow> (nat \<Rightarrow> key_event list) \<Rightarrow> key_event list \<Rightarrow> key_event list" where
  "all_answers io gaps es0 = es0 @ gaps 0 @ gaps 1 @ gaps 3 @ gaps 4 @ [own_answer io 0, own_answer io 3]"

lemma find_key_recent:
  assumes o: "others_step lib ttl io gaps" and c: "key_run lib ttl es0 (empty_key_cache, None) = (c, None)"
    and f: "find_key lib ttl io kid c = (c', Inr key)"
  shows "recent_key lib (ki_now io 0) (all_answers io gaps es0) kid key"
proof -
  obtain c1 x where r1: "refresh_keys lib ttl io 0 False None c = (c1, x)" by fastforce
  obtain es1 where es1: "key_run lib ttl es1 (c, None) = (c1, None)"
    and stay: "x = Inr False \<Longrightarrow> snd (refresh_start (ki_now io 0) False None (ki_gap io 0 c)) = False \<and>
      c1 = fst (refresh_start (ki_now io 0) False None (ki_gap io 0 c))"
    and got: "x = Inr True \<Longrightarrow> recent_keys lib (ki_now io 0) [own_answer io 0] (kc_keys c1)"
    and from1: "\<forall>e \<in> set es1. e \<in> set (gaps 0 @ gaps (0 + 1) @ [own_answer io 0]) \<or> (\<exists>t f u. e = Start t f u)"
    by (rule refresh_runs[OF o _ r1]) auto
  have run1: "key_run lib ttl (es0 @ es1) (empty_key_cache, None) = (c1, None)" using c es1 by simp
  have old: "answered lib (es0 @ es1) c1" if "kc_keys c1 \<noteq> []"
    using run_answered[of lib "es0 @ es1" ttl "(empty_key_cache, None)"] that run1 by (simp add: empty_key_cache_def)
  obtain refreshed where x: "x = Inr refreshed" using f r1 by (cases x) (simp_all add: find_key_def)
  show ?thesis
  proof (cases "map_of (kc_keys c1) kid")
    case (Some k)
    then have k: "k = key" using f r1 x by (simp add: find_key_def)
    show ?thesis
    proof (cases refreshed)
      case True
      with got x have "recent_key lib (ki_now io 0) [own_answer io 0] kid key"
        using Some k by (auto simp: recent_key_def recent_keys_def)
      then show ?thesis by (rule recent_more) (auto simp: all_answers_def)
    next
      case False
      then have "ki_now io 0 < kc_expire_at c1" "kc_keys c1 \<noteq> []"
        using stay x by (auto simp: refresh_start_def Let_def)
      then have "recent_key lib (ki_now io 0) (es0 @ es1) kid key" using answered_recent old Some k by blast
      then show ?thesis by (rule recent_more) (use from1 in \<open>auto simp: all_answers_def\<close>)
    qed
  next
    case None
    then have nf: "\<not> refreshed" using f r1 x by (auto simp: find_key_def)
    obtain c2 y where r2: "refresh_keys lib ttl io 3 True (Some kid) c1 = (c2, y)" by fastforce
    then have k: "map_of (kc_keys c2) kid = Some key"
      using f r1 x None nf by (auto simp: find_key_def split: sum.splits option.splits)
    obtain es2 where es2: "key_run lib ttl es2 (c1, None) = (c2, None)" "\<forall>e \<in> set es2. ki_now io 0 \<le> key_event_time e"
        "\<forall>e \<in> set es2. e \<in> set (gaps 3 @ gaps (3 + 1) @ [own_answer io 3]) \<or> (\<exists>t f u. e = Start t f u)"
      by (rule refresh_runs[OF o _ r2]) auto
    have "kc_keys c2 \<noteq> kc_keys c1" using k None by auto
    then have "answered lib es2 c2" using run_answered[of lib es2 ttl "(c1, None)"] es2(1) by simp
    then have "recent_key lib (ki_now io 0) es2 kid key" using answered_later k es2(2) by blast
    then show ?thesis by (rule recent_more) (use es2(3) in \<open>auto simp: all_answers_def\<close>)
  qed
qed


subsection \<open>Requests of administrators\<close>

text \<open>
  the backend refuses every token of a session that ended by a logout or a change of
  the password, from the next request on and without asking the authority, whatever the
  transactions of the authority do meanwhile.
\<close>

theorem backend_refuses_ended:
  assumes "distinct (map as_sid (au_sessions d))"
    and "fst (revoke_session now reason sid d) = d1 \<or>
      (\<exists>env h admin current gone s. password_transaction env now h admin current d = Inr (d1, gone) \<and>
         s \<in> set (au_sessions d) \<and> as_admin_id s = admin \<and> as_sid s = sid)"
    and "\<forall>e \<in> set es. \<not> signs_in sid e" and "now \<le> later" and "dbs 0 = auth_run env es d1"
    and "verify_user_token lib v ttl io token c = (c', Inr claims)" and "jget claims ''sid'' = JStr sid"
  shows "authenticate_admin lib v ttl io later token dbs c = (c', Inl (Api_error 401 ''invalid_token''))"
proof -
  have "ended now sid (dbs 0)" unfolding assms(5) by (rule ended_run[OF ending_ended[OF assms(1,2)] assms(3)])
  then have "find (session_valid later sid jti uid) (au_sessions (dbs 0)) = None" for jti uid
    using assms(4) by (auto simp: find_None_iff session_valid_def ended_def ended_row_def)
  then show ?thesis using assms(6,7) by (auto simp: authenticate_admin_def split: json.splits)
qed

subsection \<open>Witnesses\<close>

definition sample_key_lib :: key_lib where
  "sample_key_lib = \<lparr>py_float = (\<lambda>_. None), jwk_key = (\<lambda>_. Inr ''pem'')\<rparr>"

definition sample_jwks :: json where
  "sample_jwks = JObj [(''keys'', JList [JObj [(''kid'', JStr ''k1''), (''kty'', JStr ''RSA'')]])]"

definition sample_verify_lib :: verify_lib where
  "sample_verify_lib = \<lparr>unverified_header = (\<lambda>t. Some (JStr ''RS256'', JStr ''k1'')),
     verified_claims = (\<lambda>t key audience. Some (JObj [(''kid'', JStr ''k1''), (''type'', JStr ''user''), (''scope'', JStr ''admin''),
       (''uid'', JInt 1), (''sid'', JStr t), (''jti'', JStr t), (''sub'', JStr ''root'')]))\<rparr>"

definition sample_key_io :: key_io where
  "sample_key_io = \<lparr>ki_now = (\<lambda>k. int k), ki_gap = (\<lambda>k c. c), ki_reply = (\<lambda>k. Answer sample_jwks [])\<rparr>"

lemma sample_others: "others_step lib ttl sample_key_io (\<lambda>k. [])"
  by (simp add: others_step_def sample_key_io_def)

lemmas sample_key_simps = sample_key_lib_def sample_jwks_def sample_verify_lib_def sample_key_io_def empty_key_cache_def

lemma sample_refresh:
  "refresh_start t force None empty_key_cache = (empty_key_cache, True)"
  "parse_jwks (jwk_key sample_key_lib) sample_jwks = Inr [(''k1'', ''pem'')]"
  by (simp_all add: refresh_start_def Let_def sample_key_simps parse_jwks_def usable_jwk_def dict_set_def)

lemma sample_find: "\<exists>c'. find_key sample_key_lib 0 sample_key_io ''k1'' empty_key_cache = (c', Inr ''pem'')"
proof -
  have io: "ki_gap sample_key_io k c = c" "ki_reply sample_key_io k = Answer sample_jwks []" for k c
    by (simp_all add: sample_key_io_def)
  have "\<exists>c'. refresh_keys sample_key_lib 0 sample_key_io 0 False None empty_key_cache = (c', Inr True) \<and> kc_keys c' = [(''k1'', ''pem'')]"
    by (simp add: refresh_keys_def io sample_refresh refresh_finish_def Let_def)
  then show ?thesis by (auto simp: find_key_def)
qed

lemma sample_verified: "\<exists>c'. verify_user_token sample_key_lib sample_verify_lib 0 sample_key_io ''s1'' empty_key_cache =
    (c', Inr (JObj [(''kid'', JStr ''k1''), (''type'', JStr ''user''), (''scope'', JStr ''admin''), (''uid'', JInt 1),
      (''sid'', JStr ''s1''), (''jti'', JStr ''s1''), (''sub'', JStr ''root'')]))"
proof -
  have w: "words ''admin'' = [''admin'']" by (simp add: words_def is_space_def code_def)
  have k: "signing_kid sample_verify_lib ''s1'' = Inr ''k1''" by (simp add: signing_kid_def sample_verify_lib_def)
  have v: "verified_claims sample_verify_lib t key audience = Some (JObj [(''kid'', JStr ''k1''), (''type'', JStr ''user''),
      (''scope'', JStr ''admin''), (''uid'', JInt 1), (''sid'', JStr t), (''jti'', JStr t), (''sub'', JStr ''root'')])" for t key audience
    by (simp add: sample_verify_lib_def)
  show ?thesis using sample_find by (auto simp: verify_user_token_def k claim_shape_ok_def w v)
qed

lemma unknown_kids_throttled_witness:
  "sorted_wrt (\<lambda>a b. a + secs 5 \<le> b) (forced_fetches sample_key_lib 0
      [Start 1 True (Some ''a''), Finish 2 3 (Answer sample_jwks []), Remember 3 ''a'', Start 4 True (Some ''b'')] (empty_key_cache, None)) \<and>
    length (kc_unknown_kids (fst (key_run sample_key_lib 0
      [Start 1 True (Some ''a''), Finish 2 3 (Answer sample_jwks []), Remember 3 ''a'', Start 4 True (Some ''b'')] (empty_key_cache, None)))) \<le> 256"
  by (rule unknown_kids_throttled) simp


lemma backend_refuses_ended_witness:
  "\<exists>c'. authenticate_admin sample_key_lib sample_verify_lib 0 sample_key_io 10 ''s1''
      (\<lambda>_. auth_run sample_auth_env [Clean 5] (fst (revoke_session 4 ''logout'' ''s1'' sample_auth_db))) empty_key_cache =
    (c', Inl (Api_error 401 ''invalid_token''))"
proof -
  obtain c' where v: "verify_user_token sample_key_lib sample_verify_lib 0 sample_key_io ''s1'' empty_key_cache =
    (c', Inr (JObj [(''kid'', JStr ''k1''), (''type'', JStr ''user''), (''scope'', JStr ''admin''), (''uid'', JInt 1),
      (''sid'', JStr ''s1''), (''jti'', JStr ''s1''), (''sub'', JStr ''root'')]))"
    using sample_verified by blast
  have "authenticate_admin sample_key_lib sample_verify_lib 0 sample_key_io 10 ''s1''
      (\<lambda>_. auth_run sample_auth_env [Clean 5] (fst (revoke_session 4 ''logout'' ''s1'' sample_auth_db))) empty_key_cache =
    (c', Inl (Api_error 401 ''invalid_token''))"
    by (rule backend_refuses_ended[OF _ _ _ _ _ v, of sample_auth_db 4 "''logout''" "''s1''" _ "[Clean 5]"])
      (simp_all add: sample_auth_simps signs_in_def)
  then show ?thesis by blast
qed

end
