(* ===== verification/Spec2Isabelle.thy ===== *)
theory Spec2Isabelle
  imports BrowserJobs PublishSafety ArticleSafety PollSafety QQRouteSafety WorkflowSafety ChatSafety Packages GenerationSafety TokenSafety
begin

text \<open>
  Auto-X (X Sentinel): verification library of the Python backend under \<open>backend/app\<close>.

  \<^bold>\<open>The program.\<close> Processes share one PostgreSQL database and one Redis. A collection worker
  polls monitored X accounts (\<open>services/poller.py\<close>) and, in the transaction that stores the
  posts, queues what follows from them: generation jobs (\<open>services/ai_jobs.py\<close>), screenshots
  (\<open>services/tweet_screenshots.py\<close>) and QQ group messages (\<open>services/qq_notifications.py\<close>). A
  generation worker (\<open>ai_worker.py\<close>) claims the jobs, asks an AI service and stores articles. A
  dispatcher (\<open>services/ai_publish.py\<close>) publishes articles of a task to XHS, through the journal of
  a browser worker (\<open>services/browser_job_store.py\<close>, \<open>services/xhs_publish_results.py\<close>), and to QQ
  groups through the delivery worker (\<open>qq_worker.py\<close>). Administrators configure accounts,
  listening tasks and skills through the routes; an authentication authority
  (\<open>control_plane/auth_store.py\<close>) issues their tokens. Work is handed over by rows in a table, so
  that the questions are which transactions may interleave, what a late result may still change,
  and whether each step is done once.

  \<^bold>\<open>Theories and code.\<close> Definitions keep the names of the Python functions; a helper that models a
  part of a function carries the lines of that part in the manifest.

  \<^item> \<open>Prelude\<close>, \<open>PyText\<close>: time, JSON values, error texts, tables as row lists with the SQL
    statements in use, the string operations of Python. \<open>Tables\<close>: one record per class of
    \<open>models/\<close> and the record \<open>db\<close> of all tables. \<open>Config\<close>: the settings that are read, with their
    ranges. \<open>Samples\<close>: rows at which witnesses evaluate.
  \<^item> \<open>Leases\<close>: the two contracts shared by components, as locales: a row claimed with a fresh
    token (\<open>fenced_lease\<close>, interpreted for screenshots and deliveries) and the
    delays of repeated failures. \<open>RedisLease\<close>: keys with an expiry and the Lua scripts of the
    workers' locks.
  \<^item> \<open>Screenshots\<close>, \<open>BrowserJobs\<close>, \<open>PublishResults\<close>, \<open>ArticleMedia\<close>, \<open>QQText\<close>: the outboxes,
    journals and files, each with its properties in the same theory.
  \<^item> \<open>Publish\<close>: the states of a publication record; \<open>PublishSafety\<close>: its runs under any
    interleaving of workers, routes and results.
  \<^item> \<open>Listings\<close>, \<open>ArticleRoutes\<close>: pages of rows and the routes of articles (\<open>routes/articles.py\<close>): writing,
    edits under a revision, deletion, uploads, publication by hand to QQ groups and to XHS, the listing;
    \<open>ArticleSafety\<close>: requests on articles in any order, also within the gaps of each other.
  \<^item> \<open>AiJobs\<close>, \<open>Backfill\<close>: queueing of generation jobs from collection, by hand and from stored
    posts. \<open>Polling\<close>, \<open>MonitoredUsers\<close>: the claim, the request, the commit and the failure of a
    poll, and the routes that supersede one, whose read and write are steps of their own;
    \<open>PollSafety\<close>: their properties.
  \<^item> \<open>QQNotify\<close>, \<open>QQSchedule\<close>, \<open>QQWorker\<close>: templates and messages, the calendar of scheduled
    messages, the delivery worker with its membership gateway. \<open>QQTemplates\<close>, \<open>QQRoutes\<close>: the
    validation of templates and the routes of bots, targets, placeholders, pushes, tasks and
    delivery records (\<open>routes/qq.py\<close>, \<open>routes/qq_placeholders.py\<close>); \<open>QQRouteSafety\<close>: what holds
    while all of these write.
  \<^item> \<open>Packages\<close>, \<open>Skills\<close>, \<open>ListenTasks\<close>, \<open>JobRoutes\<close>: imported skills, the skill service,
    listening tasks and the routes of jobs. \<open>AiWorker\<close>: the generation worker.
  \<^item> \<open>GenerationLedger\<close>, \<open>GenerationSteps\<close>, \<open>GenerationSafety\<close>: the transactions of generation as
    events (\<open>gen_step\<close>, \<open>gen_run\<close>), the few kinds of change they make (\<open>change\<close>), and what every
    run keeps.
  \<^item> \<open>AgentTables\<close>, \<open>AgentWorkflows\<close>, \<open>WorkflowWorker\<close>: ordered lists of AI nodes, the runs that freeze
    one (\<open>routes/agent_workflows.py\<close>, \<open>routes/agent_workflow_runs.py\<close>) and the worker that executes
    them with a checkpoint after each node (\<open>services/agent_workflow_worker.py\<close>);
    \<open>WorkflowSafety\<close>: their transactions in any order. \<open>AgentStream\<close>, \<open>AgentChat\<close>: conversations with
    an AI (\<open>routes/agent_chat.py\<close>, \<open>services/agent_chat_worker.py\<close>, \<open>agent_chat_cleanup.py\<close>,
    \<open>agent_provider.py\<close>), with the event stream that the browser replays; \<open>ChatSafety\<close>: their steps.
  \<^item> \<open>Envelope\<close>, \<open>AuthStore\<close>, \<open>AuthCenter\<close>: base 64 and the encrypted form of signing keys, the store
    of the authority (keys, service identities, sessions, imports) and its service (rate limits,
    tokens, login, password change, logout); \<open>KeyCache\<close>: the verifiers of tokens and their cached
    keys. \<open>AuthSafety\<close>, \<open>TokenSafety\<close>: their transactions and steps in any order.

  \<^bold>\<open>What the lemmas show.\<close> Components of a table have an invariant, the preservation of it by every
  transaction, and properties of runs: a result is stored once and only by its claimant
  (\<open>screenshot_commits_once\<close>, \<open>verified_outcome_permanent\<close>, \<open>sent_never_again\<close>,
  \<open>closed_attempts_final\<close>); a superseded poll has no effect; one account has one running
  submission, and submissions, attempts and sends are bounded (\<open>submissions_bounded\<close>,
  \<open>attempt_budget\<close>, \<open>failing_sends_bounded\<close>, \<open>retries_end\<close>); the posts of a page are stored with
  their outbox rows or not at all; a backfill covers its window; an archived task stays quiet;
  the composed turns with their awaits refine the event systems (\<open>dispatch_xhs_refines\<close>,
  \<open>workflow_turn_refines\<close>, \<open>chat_attempt_refines\<close>) or keep the invariants of their tables
  (\<open>pass_keeps_ledger\<close>); an edit of an article applies to the revision it was made from and a publication by hand
  is closed (\<open>edits_apply_once\<close>, \<open>xhs_publication_closes\<close>); a session that ended is never accepted again and a signing key is published
  as long as its tokens live (\<open>ended_sessions_rejected\<close>, \<open>signing_key_outlives_tokens\<close>); the output of a
  workflow node is stored once and its calls are bounded (\<open>checkpoints_final\<close>,
  \<open>node_calls_bounded\<close>), an answer of the chat as well (\<open>answers_final\<close>, \<open>one_active_turn\<close>); a stored message template is
  rendered as long as no template is stored while the placeholder that it names is renamed. Pure routines have their
  full behaviour: the next run of a schedule is the first clock time that matches, message chunks join to the text, paths are confined to their
  folder, the prompt of a package is complete.

  \<^bold>\<open>Conventions.\<close> A transaction is one function on \<open>db\<close>: row locks make it atomic, an exception
  rolls it back (a result that carries no database). Between two transactions of one turn any
  other process may act: the turn takes a function (\<open>io_gap\<close>, \<open>qi_gap\<close>, \<open>ai_gap\<close>) that changes the
  database and Redis arbitrarily, or in the refinements as another run of the events. The time of
  each step, fresh tokens, random jitter, the answers of HTTP services and whether Redis fails are
  arguments. Time is in microseconds, the range of \<open>datetime\<close> is ignored, floats are rationals.
  Identifiers come from one growing counter \<open>serial\<close>, so that ids are unique over all tables.
  Statements without \<open>ORDER BY\<close> read rows in table order. Columns that the ORM fills on every
  update are written only where the code writes them. Strings are lists of 8-bit characters:
  fixed Chinese texts appear as an English gloss in \<open>Lit\<close>, and one suffix of a copied name as
  \<open>copy_suffix\<close> of the same length. JSON objects are association lists in the order of the code.
  Functions of the standard library that the properties do not depend on (the ISO format of a
  time, the serialisation of JSON, SHA-256, percent decoding, time zones) and all third-party
  code (cryptography, HTTP clients, YAML, git, browsers) are parameters.

  Some statements have a side condition that excludes a race of the code: the routes that read an account before a
  poll claims it (\<open>pause_race_keeps_poll\<close>), the rename of a placeholder (\<open>rename_race\<close>), zones that set the clock back
  (\<open>secondly_runs_back\<close>), the deletion of the job of an article that is being published (\<open>job_deletion_unlocks\<close>).
  These lemmas show what happens there.

  \<^bold>\<open>Loops and bounds.\<close> Every modelled loop is a structural recursion or has a termination proof
  with a measure: the pages of a new notification target by the posts left, the compilation of a
  prompt by the files not yet visited, packing of messages by the text left. No definition uses
  fuel. Loops over rows run over a list selected beforehand, as the code does.

  \<^bold>\<open>Not modelled\<close>, and why: the Vue frontend, SQL migrations, container and monitoring files (other
  languages, or declarations only); the automation of browsers (\<open>xhs_cli_compat.py\<close>,
  \<open>camoufox_*\<close>, \<open>services/xhs_browser_pool.py\<close>, \<open>services/x_tweet_capture.py\<close>), whose behaviour is that
  of pages it drives; the wire formats of the HTTP clients, whose replies are arguments here;
  metrics, logs and health pages, which read only; Nacos registration and configuration; the generation of
  prompts and the remaining read-only listings, which are planned.
\<close>

end
